(* ===== verification/QPrelude.thy ===== *)
theory QPrelude
  imports Main "HOL-Library.Multiset" "HOL-Library.Char_ord" "HOL-Library.List_Lexorder" "HOL-Library.Word"
begin

text \<open>
  Shared vocabulary of the development: C strings and the libc calls QStar uses on them,
  bounded output buffers, the error values a validator returns, first-failure sequencing of
  checks, keyed look-up and the insertion sort that every listing of QStar uses.
\<close>

named_theorems cstring_simps \<open>definitions of the C string helpers\<close>
named_theorems check_simps \<open>when a sequence of checks succeeds\<close>

section \<open>C strings\<close>

text \<open>
  A NUL-terminated string is a \<open>char list\<close> (its bytes before the NUL). A \<open>char *\<close> that the code
  compares with \<open>NULL\<close> is a \<open>cstr\<close>; a pointer that its constructor always sets is a \<open>string\<close>.
\<close>

type_synonym cstr = "string option"

definition present :: "cstr \<Rightarrow> bool" where
  "present s \<longleftrightarrow> s \<noteq> None \<and> s \<noteq> Some []"

definition str_or :: "string \<Rightarrow> cstr \<Rightarrow> string" where
  "str_or d s = (case s of None \<Rightarrow> d | Some v \<Rightarrow> v)"

abbreviation str_or_empty :: "cstr \<Rightarrow> string" where
  "str_or_empty \<equiv> str_or []"

definition nonempty_or :: "string \<Rightarrow> cstr \<Rightarrow> string" where
  "nonempty_or d s = (case s of None \<Rightarrow> d | Some v \<Rightarrow> if v = [] then d else v)"

lemma present_simps [simp]:
  "\<not> present None" "present (Some s) \<longleftrightarrow> s \<noteq> []"
  by (auto simp: present_def)

lemma str_or_simps [simp]: "str_or d None = d" "str_or d (Some s) = s"
  by (simp_all add: str_or_def)

lemma nonempty_or_simps [simp]:
  "nonempty_or d None = d" "nonempty_or d (Some s) = (if s = [] then d else s)"
  by (simp_all add: nonempty_or_def)

lemma nonempty_or_nonempty: "d \<noteq> [] \<Longrightarrow> nonempty_or d s \<noteq> []"
  by (cases s) auto

text \<open>\<open>strncmp (s, p, strlen (p)) == 0\<close>, and the suffix comparison \<open>has_suffix\<close>.\<close>

definition starts_with :: "string \<Rightarrow> string \<Rightarrow> bool" where
  "starts_with p s \<longleftrightarrow> take (length p) s = p"

definition ends_with :: "string \<Rightarrow> string \<Rightarrow> bool" where
  "ends_with suf s \<longleftrightarrow> length suf \<le> length s \<and> drop (length s - length suf) s = suf"

text \<open>\<open>strstr (s, p) != NULL\<close>.\<close>

fun str_contains :: "string \<Rightarrow> string \<Rightarrow> bool" where
  "str_contains p [] = (p = [])"
| "str_contains p (c # cs) = (starts_with p (c # cs) \<or> str_contains p cs)"

text \<open>\<open>strstr\<close> and \<open>strchr\<close> with the text before the match and the text from the match on;
  \<open>strrchr\<close> with the text before the last match and the text after it.\<close>

fun strstr :: "string \<Rightarrow> string \<Rightarrow> (string \<times> string) option" where
  "strstr p [] = (if p = [] then Some ([], []) else None)"
| "strstr p (c # cs) =
     (if starts_with p (c # cs) then Some ([], c # cs)
      else map_option (\<lambda>(a, b). (c # a, b)) (strstr p cs))"

fun strchr :: "char \<Rightarrow> string \<Rightarrow> (string \<times> string) option" where
  "strchr x [] = None"
| "strchr x (c # cs) =
     (if c = x then Some ([], cs) else map_option (\<lambda>(a, b). (c # a, b)) (strchr x cs))"

fun strrchr :: "char \<Rightarrow> string \<Rightarrow> (string \<times> string) option" where
  "strrchr x [] = None"
| "strrchr x (c # cs) =
     (case strrchr x cs of
        Some (a, b) \<Rightarrow> Some (c # a, b)
      | None \<Rightarrow> if c = x then Some ([], cs) else None)"

lemma starts_with_append [simp]: "starts_with p (p @ s)"
  by (simp add: starts_with_def)

lemma starts_with_iff: "starts_with p s \<longleftrightarrow> (\<exists>r. s = p @ r)"
  by (metis append_take_drop_id starts_with_append starts_with_def)

lemma ends_with_iff: "ends_with suf s \<longleftrightarrow> (\<exists>r. s = r @ suf)"
  unfolding ends_with_def by (metis append_eq_conv_conj append_take_drop_id diff_diff_cancel
      length_append length_drop le_add2 add_diff_cancel_right')

lemma str_contains_iff: "str_contains p s \<longleftrightarrow> (\<exists>a b. s = a @ p @ b)"
proof (induction s)
  case Nil
  then show ?case by auto
next
  case (Cons c s)
  have "(\<exists>a b. c # s = a @ p @ b) \<longleftrightarrow> starts_with p (c # s) \<or> (\<exists>a b. s = a @ p @ b)"
    by (auto simp: starts_with_iff Cons_eq_append_conv)
  then show ?case using Cons.IH by simp
qed

lemma strchr_Some: "strchr x s = Some (a, b) \<longleftrightarrow> s = a @ x # b \<and> x \<notin> set a"
  by (induction s arbitrary: a b) (auto simp: Cons_eq_append_conv)

lemma strchr_None: "strchr x s = None \<longleftrightarrow> x \<notin> set s"
  by (induction s) auto

lemma strrchr_None: "strrchr x s = None \<longleftrightarrow> x \<notin> set s"
  by (induction s) (auto split: option.splits)

lemma strrchr_Some: "strrchr x s = Some (a, b) \<longleftrightarrow> s = a @ x # b \<and> x \<notin> set b"
proof (induction s arbitrary: a b)
  case Nil
  then show ?case by simp
next
  case (Cons c s)
  show ?case
    using Cons.IH strrchr_None [of x s]
    by (cases "strrchr x s") (auto simp: Cons_eq_append_conv)
qed

section \<open>Byte classes of the C locale\<close>

definition byte :: "char \<Rightarrow> nat" where
  "byte c = of_char c"

definition is_upper :: "char \<Rightarrow> bool" where
  "is_upper c \<longleftrightarrow> 65 \<le> byte c \<and> byte c \<le> 90"

definition is_lower :: "char \<Rightarrow> bool" where
  "is_lower c \<longleftrightarrow> 97 \<le> byte c \<and> byte c \<le> 122"

definition is_digit :: "char \<Rightarrow> bool" where
  "is_digit c \<longleftrightarrow> 48 \<le> byte c \<and> byte c \<le> 57"

definition is_alpha :: "char \<Rightarrow> bool" where
  "is_alpha c \<longleftrightarrow> is_upper c \<or> is_lower c"

definition is_alnum :: "char \<Rightarrow> bool" where
  "is_alnum c \<longleftrightarrow> is_alpha c \<or> is_digit c"

definition is_space :: "char \<Rightarrow> bool" where
  "is_space c \<longleftrightarrow> byte c = 32 \<or> (9 \<le> byte c \<and> byte c \<le> 13)"

lemmas char_class_defs =
  is_alnum_def is_alpha_def is_upper_def is_lower_def is_digit_def is_space_def byte_def

definition NL :: string where "NL = [char_of (10::nat)]"
definition CR :: string where "CR = [char_of (13::nat)]"
definition TAB :: string where "TAB = [char_of (9::nat)]"
definition SQ :: char where "SQ = char_of (39::nat)"
definition DQ :: char where "DQ = char_of (34::nat)"
definition BS :: char where "BS = char_of (92::nat)"

text \<open>A text between single quotes, as messages show it.\<close>

definition sq :: "string \<Rightarrow> string" where
  "sq s = SQ # s @ [SQ]"

lemmas special_chars = NL_def CR_def TAB_def SQ_def DQ_def BS_def

section \<open>Numbers in decimal\<close>

definition digit :: "nat \<Rightarrow> char" where
  "digit n = char_of (48 + n)"

fun nat_str :: "nat \<Rightarrow> string" where
  "nat_str n = (if n < 10 then [digit n] else nat_str (n div 10) @ [digit (n mod 10)])"

declare nat_str.simps [simp del]

definition int_str :: "int \<Rightarrow> string" where
  "int_str i = (if i < 0 then ''-'' @ nat_str (nat (- i)) else nat_str (nat i))"

lemma nat_str_nonempty [simp]: "nat_str n \<noteq> []"
  by (subst nat_str.simps) simp

fun dec_value :: "nat \<Rightarrow> string \<Rightarrow> nat" where
  "dec_value acc [] = acc"
| "dec_value acc (c # cs) = dec_value (acc * 10 + (byte c - 48)) cs"

lemma byte_digit: "n < 10 \<Longrightarrow> byte (digit n) = 48 + n"
  by (simp add: byte_def digit_def)

lemma dec_value_append: "dec_value a (xs @ ys) = dec_value (dec_value a xs) ys"
  by (induction xs arbitrary: a) auto

lemma dec_value_nat_str: "dec_value 0 (nat_str n) = n"
proof (induction n rule: nat_str.induct)
  case (1 n)
  show ?case
  proof (cases "n < 10")
    case True
    then show ?thesis by (simp add: nat_str.simps [of n] byte_digit)
  next
    case False
    with 1 have "dec_value 0 (nat_str (n div 10)) = n div 10" by simp
    with False show ?thesis
      by (simp add: nat_str.simps [of n] dec_value_append byte_digit)
  qed
qed

lemma nat_str_inject: "nat_str m = nat_str n \<longleftrightarrow> m = n"
  by (metis dec_value_nat_str)

lemma nat_str_digits: "c \<in> set (nat_str n) \<Longrightarrow> is_digit c"
proof (induction n rule: nat_str.induct)
  case (1 n)
  have "is_digit (digit k)" if "k < 10" for k
    using that by (simp add: is_digit_def byte_digit)
  then show ?case
    using 1 by (subst (asm) nat_str.simps) (auto split: if_splits)
qed

text \<open>
  \<open>strtol (s, &end, 10)\<close> with a 64-bit \<open>long\<close>: leading white space, a sign, digits; the value clamped to
  the range and the text from \<open>end\<close> on. Without a digit nothing is consumed.
\<close>

definition strtol10 :: "string \<Rightarrow> int \<times> string" where
  "strtol10 s =
     (let ws = dropWhile is_space s;
          neg = (take 1 ws = ''-'');
          body = (if take 1 ws = ''-'' \<or> take 1 ws = ''+'' then drop 1 ws else ws);
          ds = takeWhile is_digit body;
          v = (if neg then - int (dec_value 0 ds) else int (dec_value 0 ds))
      in if ds = [] then (0, s)
         else (max (- (2 ^ 63)) (min (2 ^ 63 - 1) v), dropWhile is_digit body))"

lemma digit_classes: "is_digit c \<Longrightarrow> \<not> is_space c \<and> c \<noteq> CHR ''-'' \<and> c \<noteq> CHR ''+''"
  by (auto simp: is_digit_def is_space_def byte_def)

lemma strtol10_nat_str:
  assumes "\<not> is_digit c" and "n < 2 ^ 63"
  shows "strtol10 (nat_str n @ c # rest) = (int n, c # rest)"
proof -
  obtain d ds where d: "nat_str n = d # ds" by (cases "nat_str n") auto
  have digits: "\<forall>x\<in>set (nat_str n). is_digit x" using nat_str_digits by blast
  then have "is_digit d" using d by simp
  define t where "t = nat_str n @ c # rest"
  have ws: "dropWhile is_space t = t" and sign: "take 1 t \<noteq> ''-''" "take 1 t \<noteq> ''+''"
    using digit_classes [OF \<open>is_digit d\<close>] by (simp_all add: t_def d)
  have "takeWhile is_digit t = nat_str n" "dropWhile is_digit t = c # rest"
    using digits assms(1) by (simp_all add: t_def takeWhile_append dropWhile_append)
  then have "strtol10 t = (int n, c # rest)"
    using assms(2) by (simp add: strtol10_def Let_def ws sign dec_value_nat_str del: One_nat_def)
  then show ?thesis by (simp add: t_def)
qed

section \<open>Bounded buffers\<close>

text \<open>
  \<open>snprintf (dst, n, "%s", s) < n ? 0 : -1\<close>: the text if it and its NUL fit, else the failure.
  A call whose result is ignored keeps the truncated text.
\<close>

definition put :: "nat \<Rightarrow> string \<Rightarrow> string option" where
  "put n s = (if length s < n then Some s else None)"

definition trunc_buf :: "nat \<Rightarrow> string \<Rightarrow> string" where
  "trunc_buf n s = take (n - 1) s"

abbreviation PATH_MAX :: nat where
  "PATH_MAX \<equiv> 4096"

lemma put_Some [simp]: "put n s = Some r \<longleftrightarrow> length s < n \<and> r = s"
  by (auto simp: put_def)

lemma put_None [simp]: "put n s = None \<longleftrightarrow> n \<le> length s"
  by (auto simp: put_def)

lemma trunc_buf_id [simp]: "length s < n \<Longrightarrow> trunc_buf n s = s"
  by (simp add: trunc_buf_def)

text \<open>
  Result of a function that fails with \<open>-1\<close>, or that leaves the bounds of a buffer or dereferences
  \<open>NULL\<close>, after which C gives no meaning to the run.
\<close>

datatype 'a outcome = Value 'a | Failure | Undefined

fun of_option :: "'a option \<Rightarrow> 'a outcome" where
  "of_option None = Failure"
| "of_option (Some x) = Value x"

lemma of_option_Value [simp]: "of_option x = Value y \<longleftrightarrow> x = Some y"
  by (cases x) auto

lemma of_option_not_Undefined [simp]: "of_option x \<noteq> Undefined"
  by (cases x) auto

section \<open>Errors\<close>

text \<open>
  What \<open>qstar_set_error\<close> and \<open>qstar_set_error_origin\<close> are called with. A validator returns the
  first error it would have reported; the graph operations record it. \<open>WildRead\<close> is no error of the
  program: it stands for a run that read outside a string, to which C gives no meaning.
\<close>

datatype qerr =
    Plain (emsg: string)
  | Origin (efile: string) (eline: int) (efield: string) (elabel: string) (emsg: string)
  | WildRead
where "emsg WildRead = []"

type_synonym check = "qerr + unit"

definition reject :: "bool \<Rightarrow> qerr \<Rightarrow> check" where
  "reject c e = (if c then Inl e else Inr ())"

fun check_seq :: "check list \<Rightarrow> check" where
  "check_seq [] = Inr ()"
| "check_seq (c # cs) = (case c of Inl e \<Rightarrow> Inl e | Inr _ \<Rightarrow> check_seq cs)"

fun check_all :: "('a \<Rightarrow> check) \<Rightarrow> 'a list \<Rightarrow> check" where
  "check_all f [] = Inr ()"
| "check_all f (x # xs) = (case f x of Inl e \<Rightarrow> Inl e | Inr _ \<Rightarrow> check_all f xs)"

text \<open>A loop whose body also sees the index, starting at \<open>i\<close>.\<close>

fun check_from :: "nat \<Rightarrow> (nat \<Rightarrow> 'a \<Rightarrow> check) \<Rightarrow> 'a list \<Rightarrow> check" where
  "check_from i f [] = Inr ()"
| "check_from i f (x # xs) = (case f i x of Inl e \<Rightarrow> Inl e | Inr _ \<Rightarrow> check_from (Suc i) f xs)"

definition passes :: "check \<Rightarrow> bool" where
  "passes c \<longleftrightarrow> c = Inr ()"

lemma passes_Inr [simp]: "passes (Inr u)" and passes_Inl [simp]: "\<not> passes (Inl e)"
  by (simp_all add: passes_def)

lemma not_passes: "\<not> passes c \<longleftrightarrow> (\<exists>e. c = Inl e)"
  by (cases c) auto

lemma passes_reject [simp, check_simps]: "passes (reject c e) \<longleftrightarrow> \<not> c"
  by (simp add: reject_def)

lemma reject_Inl [simp]: "reject c e = Inl e' \<longleftrightarrow> c \<and> e = e'"
  by (simp add: reject_def)

lemma passes_bind [simp, check_simps]:
  "passes (case c of Inl e \<Rightarrow> Inl e | Inr _ \<Rightarrow> d) \<longleftrightarrow> passes c \<and> passes d"
  by (cases c) auto

lemma passes_check_seq [simp, check_simps]: "passes (check_seq cs) \<longleftrightarrow> list_all passes cs"
  by (induction cs) (auto split: sum.splits)

lemma passes_check_all [simp, check_simps]: "passes (check_all f xs) \<longleftrightarrow> (\<forall>x\<in>set xs. passes (f x))"
  by (induction xs) (auto split: sum.splits)

lemma passes_check_from [check_simps]:
  "passes (check_from i f xs) \<longleftrightarrow> (\<forall>j<length xs. passes (f (i + j) (xs ! j)))"
proof (induction xs arbitrary: i)
  case Nil
  then show ?case by simp
next
  case (Cons x xs)
  have "(\<forall>j<length (x # xs). passes (f (i + j) ((x # xs) ! j))) \<longleftrightarrow>
      passes (f i x) \<and> (\<forall>j<length xs. passes (f (Suc i + j) (xs ! j)))"
    by (simp add: All_less_Suc2)
  then show ?case using Cons.IH [of "Suc i"] by (simp split: sum.splits)
qed

lemma check_all_Inl: "check_all f xs = Inl e \<Longrightarrow> \<exists>x\<in>set xs. f x = Inl e"
  by (induction xs) (auto split: sum.splits)

lemma check_seq_Inl: "check_seq cs = Inl e \<Longrightarrow> Inl e \<in> set cs"
  by (induction cs) (auto split: sum.splits)

declare check_seq.simps(2) [simp del]

section \<open>Lists: membership loops, keyed look-up, ordered unique append\<close>

definition list_contains :: "string list \<Rightarrow> string \<Rightarrow> bool" where
  "list_contains xs s \<longleftrightarrow> list_ex (\<lambda>i. i = s) xs"

lemma list_contains_iff [simp]: "list_contains xs s \<longleftrightarrow> s \<in> set xs"
  by (auto simp: list_contains_def list_ex_iff)

fun find_key :: "('e \<Rightarrow> string) \<Rightarrow> string \<Rightarrow> 'e list \<Rightarrow> 'e option" where
  "find_key key k [] = None"
| "find_key key k (x # xs) = (if key x = k then Some x else find_key key k xs)"

lemma find_key_Some: "find_key key k xs = Some x \<Longrightarrow> x \<in> set xs \<and> key x = k"
  by (induction xs) (auto split: if_splits)

lemma find_key_None: "find_key key k xs = None \<longleftrightarrow> k \<notin> key ` set xs"
  by (induction xs) auto

lemma find_key_ex: "(\<exists>x. find_key key k xs = Some x) \<longleftrightarrow> k \<in> key ` set xs"
  by (induction xs) auto

lemma find_key_append:
  "find_key key k (xs @ ys) = (case find_key key k xs of None \<Rightarrow> find_key key k ys | Some x \<Rightarrow> Some x)"
  by (induction xs) auto

lemma find_key_distinct:
  "distinct (map key xs) \<Longrightarrow> x \<in> set xs \<Longrightarrow> find_key key (key x) xs = Some x"
  by (induction xs) (auto simp: image_iff)

text \<open>The position of the first entry with a key, as the pointer difference gives it.\<close>

fun key_index :: "('e \<Rightarrow> string) \<Rightarrow> string \<Rightarrow> 'e list \<Rightarrow> nat option" where
  "key_index key k [] = None"
| "key_index key k (x # xs) = (if key x = k then Some 0 else map_option Suc (key_index key k xs))"

lemma key_index_Some: "key_index key k xs = Some i \<Longrightarrow> i < length xs \<and> key (xs ! i) = k \<and> find_key key k xs = Some (xs ! i)"
  by (induction xs arbitrary: i) (auto split: if_splits)

lemma key_index_None: "key_index key k xs = None \<longleftrightarrow> find_key key k xs = None"
  by (induction xs) auto

definition push_unique :: "string list \<Rightarrow> string \<Rightarrow> string list" where
  "push_unique xs s = (if list_contains xs s then xs else xs @ [s])"

lemma set_push_unique [simp]: "set (push_unique xs s) = insert s (set xs)"
  by (auto simp: push_unique_def)

lemma distinct_push_unique [simp]: "distinct (push_unique xs s) \<longleftrightarrow> distinct xs"
  by (auto simp: push_unique_def)

lemma prefix_push_unique: "\<exists>ys. push_unique xs s = xs @ ys"
  by (simp add: push_unique_def)

lemma fold_push_unique:
  "set (fold (\<lambda>s acc. push_unique acc s) ys xs) = set xs \<union> set ys"
  "distinct xs \<Longrightarrow> distinct (fold (\<lambda>s acc. push_unique acc s) ys xs)"
  by (induction ys arbitrary: xs) auto

text \<open>A statement guarded by an \<open>if\<close> without \<open>else\<close>, and a sequence of such statements.\<close>

definition apply_if :: "bool \<Rightarrow> ('s \<Rightarrow> 's) \<Rightarrow> 's \<Rightarrow> 's" where
  "apply_if b f x = (if b then f x else x)"

definition run_steps :: "('s \<Rightarrow> 's) list \<Rightarrow> 's \<Rightarrow> 's" where
  "run_steps fs x = fold (\<lambda>f. f) fs x"

lemma run_steps_keep: "list_all (\<lambda>f. \<forall>x. sel (f x) = sel x) fs \<Longrightarrow> sel (run_steps fs x) = sel x"
  unfolding run_steps_def by (induction fs arbitrary: x) auto

section \<open>Insertion sort on pointers\<close>

text \<open>
  All listings sort an array of pointers in place: entry \<open>i\<close> moves down past every larger entry
  of the sorted part. The sorted part is kept reversed, so that moving down is recursion.
\<close>

fun sift_down :: "('e \<Rightarrow> string) \<Rightarrow> 'e \<Rightarrow> 'e list \<Rightarrow> 'e list" where
  "sift_down key v [] = [v]"
| "sift_down key v (x # xs) = (if key v < key x then x # sift_down key v xs else v # x # xs)"

definition sort_ptrs :: "('e \<Rightarrow> string) \<Rightarrow> 'e list \<Rightarrow> 'e list" where
  "sort_ptrs key xs = rev (fold (sift_down key) xs [])"

lemma mset_sift_down: "mset (sift_down key v xs) = add_mset v (mset xs)"
  by (induction xs) auto

lemma mset_fold_sift: "mset (fold (sift_down key) xs acc) = mset xs + mset acc"
  by (induction xs arbitrary: acc) (auto simp: mset_sift_down)

lemma sorted_sift_down:
  "sorted_wrt (\<lambda>a b. key b \<le> key a) xs \<Longrightarrow> sorted_wrt (\<lambda>a b. key b \<le> key a) (sift_down key v xs)"
proof (induction xs)
  case Nil
  then show ?case by simp
next
  case (Cons x xs)
  have "set (sift_down key v xs) = insert v (set xs)"
    by (metis mset_sift_down set_mset_add_mset_insert set_mset_mset)
  then show ?case using Cons by (auto intro: less_imp_le order.trans)
qed

lemma sorted_fold_sift:
  "sorted_wrt (\<lambda>a b. key b \<le> key a) acc \<Longrightarrow>
   sorted_wrt (\<lambda>a b. key b \<le> key a) (fold (sift_down key) xs acc)"
  by (induction xs arbitrary: acc) (auto simp: sorted_sift_down)

lemma sift_down_stable:
  "sorted_wrt (\<lambda>a b. key b \<le> key a) xs \<Longrightarrow>
   filter (\<lambda>y. key y = key v) (sift_down key v xs) = v # filter (\<lambda>y. key y = key v) xs"
  by (induction xs) (auto simp: less_le)

lemma sift_down_other:
  "key v \<noteq> k \<Longrightarrow> filter (\<lambda>y. key y = k) (sift_down key v xs) = filter (\<lambda>y. key y = k) xs"
  by (induction xs) auto

lemma fold_sift_stable:
  "sorted_wrt (\<lambda>a b. key b \<le> key a) acc \<Longrightarrow>
   filter (\<lambda>y. key y = k) (fold (sift_down key) xs acc) =
   rev (filter (\<lambda>y. key y = k) xs) @ filter (\<lambda>y. key y = k) acc"
proof (induction xs arbitrary: acc)
  case Nil
  then show ?case by simp
next
  case (Cons x xs)
  have "sorted_wrt (\<lambda>a b. key b \<le> key a) (sift_down key x acc)"
    using Cons.prems by (rule sorted_sift_down)
  then show ?case
    using Cons.IH [of "sift_down key x acc"] Cons.prems
      sift_down_stable [of key acc x] sift_down_other [of key x k acc]
    by (cases "key x = k") simp_all
qed

lemma sorted_sort_ptrs: "sorted (map key (sort_ptrs key xs))"
proof -
  have "sorted_wrt (\<lambda>a b. key b \<le> key a) (fold (sift_down key) xs [])"
    by (rule sorted_fold_sift) simp
  then show ?thesis
    by (simp add: sort_ptrs_def sorted_wrt_rev sorted_map)
qed

lemma mset_sort_ptrs: "mset (sort_ptrs key xs) = mset xs"
  by (simp add: sort_ptrs_def mset_fold_sift)

lemma set_sort_ptrs [simp]: "set (sort_ptrs key xs) = set xs"
  by (metis mset_sort_ptrs set_mset_mset)

lemma length_sort_ptrs [simp]: "length (sort_ptrs key xs) = length xs"
  by (metis mset_sort_ptrs size_mset)

theorem sort_ptrs_eq_sort_key: "sort_ptrs key xs = sort_key key xs"
proof -
  have "filter (\<lambda>y. k = key y) (sort_ptrs key xs) = filter (\<lambda>y. k = key y) xs" for k
    using fold_sift_stable [of key "[]" k xs]
    by (simp add: sort_ptrs_def rev_filter [symmetric] eq_commute [of k])
  then show ?thesis
    by (intro properties_for_sort_key [symmetric] mset_sort_ptrs sorted_sort_ptrs) auto
qed

end
