(* ===== verification/QPath.thy ===== *)
theory QPath
  imports QPrelude
begin

text \<open>
  The path functions of \<^verbatim>\<open>src/graph.c\<close>: the package-relative check with its reasons, \<open>dirname\<close>,
  joining, splitting into components and the relative path between two directories. The lemmas show
  what the check guarantees about the place a path names, that check and reason agree, and that the
  computed relative path leads from one directory to the other.
\<close>

section \<open>The package-relative check\<close>

definition qstar_path_is_package_relative :: "string \<Rightarrow> bool" where
  "qstar_path_is_package_relative p \<longleftrightarrow>
     p \<noteq> [] \<and> take 1 p \<noteq> ''/'' \<and>
     \<not> (is_alpha (hd p) \<and> take 1 (drop 1 p) = '':'') \<and>
     list_all (\<lambda>c. c \<noteq> BS \<and> c \<noteq> CHR '':'') p \<and>
     p \<noteq> ''.'' \<and> p \<noteq> ''..'' \<and>
     \<not> (starts_with ''../'' p \<or> str_contains ''/../'' p \<or> str_contains ''/./'' p \<or> str_contains ''//'' p)"

text \<open>\<open>path && *path && qstar_path_is_package_relative (path)\<close> on a nullable pointer.\<close>

definition valid_project_relative :: "cstr \<Rightarrow> bool" where
  "valid_project_relative p \<longleftrightarrow> present p \<and> qstar_path_is_package_relative (str_or_empty p)"

definition qstar_path_package_relative_reason :: "string \<Rightarrow> string" where
  "qstar_path_package_relative_reason p =
     (if p = [] then ''path is empty''
      else if take 1 p = ''/'' then ''absolute paths are not allowed''
      else if is_alpha (hd p) \<and> take 1 (drop 1 p) = '':'' then
        ''drive-letter paths are not allowed in package paths; write project files as '' @
        ''slash-normalized paths like '' @ [SQ] @ ''src/main.c'' @ [SQ] @
        '' and keep absolute tool locations in toolsets''
      else if strchr BS p \<noteq> None then
        ''backslash paths are not normalized; use '' @ [SQ] @ ''/'' @ [SQ] @
        '' separators like '' @ [SQ] @ ''src/main.c'' @ [SQ]
      else if strchr CHR '':'' p \<noteq> None then ''colon characters are reserved in package paths''
      else if p = ''.'' \<or> p = ''..'' \<or> starts_with ''../'' p \<or> str_contains ''/../'' p then
        ''parent-directory paths are not allowed''
      else if str_contains ''/./'' p then ''current-directory segments are not allowed''
      else if str_contains ''//'' p then ''duplicate path separators are not allowed''
      else ''use package-relative slash-normalized paths'')"

section \<open>Components\<close>

text \<open>The text between slashes, empty components included; the inverse is \<open>join_slash\<close>.\<close>

fun split_slash :: "string \<Rightarrow> string list" where
  "split_slash [] = [[]]"
| "split_slash (c # cs) =
     (if c = CHR ''/'' then [] # split_slash cs
      else case split_slash cs of [] \<Rightarrow> [[c]] | x # xs \<Rightarrow> (c # x) # xs)"

fun join_slash :: "string list \<Rightarrow> string" where
  "join_slash [] = []"
| "join_slash [x] = x"
| "join_slash (x # y # xs) = x @ CHR ''/'' # join_slash (y # xs)"

text \<open>
  \<open>split_path_components\<close>: the non-empty components, none for the current directory, at most \<open>cap\<close>.
\<close>

definition split_path_components :: "string \<Rightarrow> nat \<Rightarrow> string list option" where
  "split_path_components path cap =
     (if path = [] \<or> path = ''.'' then Some []
      else let parts = filter (\<lambda>x. x \<noteq> []) (split_slash path)
           in if length parts \<le> cap then Some parts else None)"

definition qstar_dirname :: "string \<Rightarrow> nat \<Rightarrow> string option" where
  "qstar_dirname path dstlen = (case strrchr CHR ''/'' path of
      None \<Rightarrow> if dstlen < 2 then None else Some ''.''
    | Some (before, _) \<Rightarrow>
        let n = (if length before = 0 then 1 else length before)
        in if n + 1 > dstlen then None else Some (take n path))"

definition qstar_path_join :: "cstr \<Rightarrow> string \<Rightarrow> nat \<Rightarrow> string option" where
  "qstar_path_join a b dstlen =
     (if \<not> present a \<or> a = Some ''.'' then put dstlen b
      else put dstlen (str_or_empty a @ CHR ''/'' # b))"

text \<open>\<open>used\<close> is the length of \<open>dst\<close>; a slash only goes between components.\<close>

definition append_relative_component :: "nat \<Rightarrow> string \<Rightarrow> string \<Rightarrow> string option" where
  "append_relative_component dstlen dst part =
     (if length dst + (if dst = [] then 0 else 1) + length part + 1 > dstlen then None
      else Some (if dst = [] then part else dst @ CHR ''/'' # part))"

fun append_components :: "nat \<Rightarrow> string \<Rightarrow> string list \<Rightarrow> string option" where
  "append_components dstlen dst [] = Some dst"
| "append_components dstlen dst (x # xs) =
     (case append_relative_component dstlen dst x of
        None \<Rightarrow> None | Some dst' \<Rightarrow> append_components dstlen dst' xs)"

fun common_prefix :: "string list \<Rightarrow> string list \<Rightarrow> nat" where
  "common_prefix (x # xs) (y # ys) = (if x = y then Suc (common_prefix xs ys) else 0)"
| "common_prefix _ _ = 0"

definition qstar_path_relative_between_dirs :: "cstr \<Rightarrow> cstr \<Rightarrow> nat \<Rightarrow> string option" where
  "qstar_path_relative_between_dirs from_dir to_dir dstlen =
     (if dstlen = 0 then None
      else if PATH_MAX \<le> length (str_or ''.'' from_dir) \<or> PATH_MAX \<le> length (str_or ''.'' to_dir) then None
      else case (split_path_components (str_or ''.'' from_dir) 128,
                 split_path_components (str_or ''.'' to_dir) 128) of
          (Some from_parts, Some to_parts) \<Rightarrow>
            let common = common_prefix from_parts to_parts in
            (case append_components dstlen [] (replicate (length from_parts - common) ''..'') of
               None \<Rightarrow> None
             | Some up \<Rightarrow>
                 (case append_components dstlen up (drop common to_parts) of
                    None \<Rightarrow> None
                  | Some [] \<Rightarrow> if dstlen < 2 then None else Some ''.''
                  | Some r \<Rightarrow> Some r))
        | _ \<Rightarrow> None)"

section \<open>Meaning of a path: walking its components\<close>

text \<open>
  Walk from a directory, given as its list of components from the root downwards, along path
  components. \<open>None\<close> is leaving the root.
\<close>

fun walk :: "string list \<Rightarrow> string list \<Rightarrow> string list option" where
  "walk d [] = Some d"
| "walk d (x # xs) =
     (if x = [] \<or> x = ''.'' then walk d xs
      else if x = ''..'' then (if d = [] then None else walk (butlast d) xs)
      else walk (d @ [x]) xs)"

definition plain_component :: "string \<Rightarrow> bool" where
  "plain_component x \<longleftrightarrow> x \<noteq> [] \<and> x \<noteq> ''.'' \<and> x \<noteq> ''..''"

lemma walk_append: "walk d (xs @ ys) = Option.bind (walk d xs) (\<lambda>d'. walk d' ys)"
  by (induction d xs rule: walk.induct) auto

lemma walk_plain: "list_all plain_component xs \<Longrightarrow> walk d xs = Some (d @ xs)"
  by (induction xs arbitrary: d) (auto simp: plain_component_def)

lemma split_slash_nonempty [simp]: "split_slash s \<noteq> []"
  by (induction s) (auto split: list.splits)

lemma join_split [simp]: "join_slash (split_slash s) = s"
proof (induction s)
  case Nil
  then show ?case by simp
next
  case (Cons c s)
  obtain x xs where "split_slash s = x # xs" by (cases "split_slash s") auto
  with Cons show ?case by (cases xs) auto
qed

lemma join_slash_append:
  "xs \<noteq> [] \<Longrightarrow> ys \<noteq> [] \<Longrightarrow> join_slash (xs @ ys) = join_slash xs @ CHR ''/'' # join_slash ys"
proof (induction xs rule: join_slash.induct)
  case (2 x)
  then show ?case by (cases ys) auto
qed auto

lemma split_slash_no_slash: "x \<in> set (split_slash s) \<Longrightarrow> CHR ''/'' \<notin> set x"
proof (induction s arbitrary: x)
  case Nil
  then show ?case by simp
next
  case (Cons c s)
  obtain y ys where "split_slash s = y # ys" by (cases "split_slash s") auto
  with Cons show ?case by (auto split: if_splits)
qed

lemma split_slash_plain [simp]: "CHR ''/'' \<notin> set x \<Longrightarrow> split_slash x = [x]"
  by (induction x) auto

lemma split_slash_append_slash:
  "split_slash (a @ CHR ''/'' # b) = split_slash a @ split_slash b"
proof (induction a)
  case Nil
  then show ?case by simp
next
  case (Cons c a)
  obtain y ys where "split_slash a = y # ys" by (cases "split_slash a") auto
  with Cons show ?case by auto
qed

lemma split_join:
  "xs \<noteq> [] \<Longrightarrow> list_all (\<lambda>x. CHR ''/'' \<notin> set x) xs \<Longrightarrow> split_slash (join_slash xs) = xs"
  by (induction xs rule: join_slash.induct) (auto simp: split_slash_append_slash)

section \<open>What the check guarantees\<close>

text \<open>A component strictly inside an accepted path is neither empty nor a dot component.\<close>

lemma middle_component:
  assumes "qstar_path_is_package_relative p"
    and "split_slash p = xs @ m # ys" and "xs \<noteq> []" and "ys \<noteq> []"
  shows "plain_component m"
proof -
  have p: "p = join_slash xs @ ''/'' @ m @ ''/'' @ join_slash ys"
    using assms(2-4) join_split [of p] by (cases ys) (auto simp: join_slash_append)
  have "\<not> str_contains (''/'' @ m @ ''/'') p" if "m = ''..'' \<or> m = ''.''"
    using assms(1) that by (auto simp: qstar_path_is_package_relative_def)
  moreover have "str_contains (''/'' @ m @ ''/'') p"
    using p by (auto simp: str_contains_iff)
  moreover have "m \<noteq> []"
  proof
    assume "m = []"
    then have "p = join_slash xs @ ''//'' @ join_slash ys" using p by simp
    then have "str_contains ''//'' p" unfolding str_contains_iff by blast
    then show False using assms(1) by (simp add: qstar_path_is_package_relative_def)
  qed
  ultimately show ?thesis by (auto simp: plain_component_def)
qed

lemma first_component:
  assumes "qstar_path_is_package_relative p" and "split_slash p = f # xs"
  shows "f \<noteq> ''..'' \<and> f \<noteq> []"
proof -
  have p: "p = join_slash (f # xs)" using assms(2) join_split [of p] by simp
  show ?thesis
    using assms(1) p
    by (cases xs) (auto simp: qstar_path_is_package_relative_def starts_with_def)
qed

lemma walk_middle:
  assumes "list_all plain_component ms"
  shows "walk d (ms @ [l]) \<noteq> None \<or> (l = ''..'' \<and> d @ ms = [])"
  using assms by (simp add: walk_append walk_plain)

text \<open>
  C35: An accepted path never leaves the package root, with one exception. Walking its components
  from the root stays below the root for every path the check accepts other than the five
  characters \<open>./..\<close>.
\<close>

theorem package_relative_stays_inside:
  assumes "qstar_path_is_package_relative p" and "p \<noteq> ''./..''"
  shows "walk [] (split_slash p) \<noteq> None"
proof -
  obtain f xs where s: "split_slash p = f # xs" by (cases "split_slash p") auto
  have f: "f \<noteq> ''..''" "f \<noteq> []" using first_component [OF assms(1) s] by auto
  show ?thesis
  proof (cases xs rule: rev_cases)
    case Nil
    with s f show ?thesis by simp
  next
    case (snoc ms l)
    have plain: "list_all plain_component ms"
    proof (unfold list_all_iff, intro ballI)
      fix m assume "m \<in> set ms"
      then obtain as bs where "ms = as @ m # bs" by (auto simp: in_set_conv_decomp)
      then show "plain_component m"
        using middle_component [OF assms(1), of "f # as" m "bs @ [l]"] s snoc by simp
    qed
    define d where "d = (if f = ''.'' then [] else [f])"
    have w: "walk [] (split_slash p) = walk d (ms @ [l])"
      using f s snoc by (simp add: d_def)
    have "\<not> (l = ''..'' \<and> d @ ms = [])"
      using assms(2) join_split [of p] s snoc by (auto simp: d_def split: if_splits)
    then show ?thesis using w walk_middle [OF plain, of d l] by auto
  qed
qed

theorem package_relative_stays_inside_witness:
  "qstar_path_is_package_relative ''src/lib/..'' \<and> walk [] (split_slash ''src/lib/..'') \<noteq> None"
proof
  show h: "qstar_path_is_package_relative ''src/lib/..''" by code_simp
  show "walk [] (split_slash ''src/lib/..'') \<noteq> None"
    by (rule package_relative_stays_inside [OF h]) simp
qed

text \<open>
  The exception is real: the check accepts \<open>./..\<close>, although walking it leaves the package root.
\<close>

theorem dot_dotdot_accepted:
  "qstar_path_is_package_relative ''./..'' \<and> walk [] (split_slash ''./..'') = None"
  by code_simp

text \<open>
  The reason printed with a rejection is right: the fallback text, which names no defect, is
  returned exactly for the accepted paths.
\<close>

theorem reason_iff_rejected:
  "qstar_path_package_relative_reason p = ''use package-relative slash-normalized paths''
   \<longleftrightarrow> qstar_path_is_package_relative p"
proof -
  have bs: "list_all (\<lambda>c. c \<noteq> BS \<and> c \<noteq> CHR '':'') p \<longleftrightarrow>
      strchr BS p = None \<and> strchr CHR '':'' p = None"
    by (auto simp: list_all_iff strchr_None)
  show ?thesis
    unfolding qstar_path_package_relative_reason_def qstar_path_is_package_relative_def bs
    by (cases "strchr BS p"; cases "strchr CHR '':'' p") (auto split: if_splits)
qed

section \<open>Relative paths between directories\<close>

lemma append_components_join:
  assumes "append_components n dst xs = Some r" and "list_all (\<lambda>x. x \<noteq> []) xs"
  shows "r = (if dst = [] then join_slash xs
              else if xs = [] then dst else dst @ CHR ''/'' # join_slash xs)"
  using assms
proof (induction n dst xs rule: append_components.induct)
  case (1 n dst)
  then show ?case by simp
next
  case (2 n dst x xs)
  then obtain d' where d: "append_relative_component n dst x = Some d'"
    and r: "append_components n d' xs = Some r" by (auto split: option.splits)
  have d': "d' = (if dst = [] then x else dst @ CHR ''/'' # x)"
    using d by (simp add: append_relative_component_def split: if_splits)
  have "d' \<noteq> []" using d' 2(3) by auto
  then show ?case
    using "2.IH" [OF d r] 2(3) d' by (cases xs) auto
qed

lemma common_prefix_take: "take (common_prefix xs ys) xs = take (common_prefix xs ys) ys"
  by (induction xs ys rule: common_prefix.induct) auto

lemma common_prefix_le: "common_prefix xs ys \<le> length xs" "common_prefix xs ys \<le> length ys"
  by (induction xs ys rule: common_prefix.induct) auto

lemma walk_ups: "k \<le> length d \<Longrightarrow> walk d (replicate k ''..'') = Some (take (length d - k) d)"
proof (induction k arbitrary: d)
  case 0
  then show ?case by simp
next
  case (Suc k)
  then have "d \<noteq> []" by auto
  with Suc.IH [of "butlast d"] Suc.prems show ?case
    by (simp add: take_butlast)
qed

lemma walk_relative:
  assumes "list_all plain_component to_parts"
  shows "walk from_parts
      (replicate (length from_parts - common_prefix from_parts to_parts) ''..'' @
       drop (common_prefix from_parts to_parts) to_parts) = Some to_parts"
proof -
  let ?c = "common_prefix from_parts to_parts"
  have "list_all plain_component (drop ?c to_parts)"
    using assms by (auto simp: list_all_iff dest: in_set_dropD)
  then show ?thesis
    using common_prefix_le [of from_parts to_parts] common_prefix_take [of from_parts to_parts]
    by (simp add: walk_append walk_ups walk_plain)
qed

lemma split_path_components_Some:
  "split_path_components p n = Some parts \<Longrightarrow>
   list_all (\<lambda>x. x \<noteq> [] \<and> CHR ''/'' \<notin> set x) parts"
  by (auto simp: split_path_components_def Let_def list_all_iff split: if_splits
      dest: split_slash_no_slash)

lemma replicate_append_components:
  assumes "append_components n [] xs = Some up" and "append_components n up ys = Some r"
  shows "append_components n [] (xs @ ys) = Some r"
proof -
  have "append_components n d xs = Some up \<Longrightarrow> append_components n d (xs @ ys) = Some r" for d
    using assms(2) by (induction xs arbitrary: d) (auto split: option.splits)
  then show ?thesis using assms(1) .
qed

text \<open>
  The relative path between two package directories is correct: whenever one is returned and
  the destination has only ordinary components, walking it from the first directory reaches exactly
  the second.
\<close>

theorem relative_between_dirs_correct:
  assumes "qstar_path_relative_between_dirs f t n = Some r"
    and "split_path_components (str_or ''.'' f) 128 = Some from_parts"
    and "split_path_components (str_or ''.'' t) 128 = Some to_parts"
    and "list_all plain_component to_parts"
  shows "walk from_parts (split_slash r) = Some to_parts"
proof -
  let ?c = "common_prefix from_parts to_parts"
  let ?ups = "replicate (length from_parts - ?c) ''..''" and ?down = "drop ?c to_parts"
  from assms(1-3) obtain up r' where "append_components n [] ?ups = Some up"
    and "append_components n up ?down = Some r'" and r: "r = (if r' = [] then ''.'' else r')"
    by (auto simp: qstar_path_relative_between_dirs_def Let_def
        split: if_splits option.splits list.splits)
  then have whole: "append_components n [] (?ups @ ?down) = Some r'"
    by (blast intro: replicate_append_components)
  have ok: "list_all (\<lambda>x. x \<noteq> [] \<and> CHR ''/'' \<notin> set x) (?ups @ ?down)"
    using split_path_components_Some [OF assms(3)]
    by (auto simp: list_all_iff dest: in_set_dropD)
  have r': "r' = join_slash (?ups @ ?down)"
    using append_components_join [OF whole] ok by (auto simp: list_all_iff)
  have w: "walk from_parts (?ups @ ?down) = Some to_parts"
    by (rule walk_relative [OF assms(4)])
  show ?thesis
  proof (cases "?ups @ ?down = []")
    case True
    then have "r = ''.''" using r r' by simp
    then show ?thesis using w True by simp
  next
    case False
    have "r' \<noteq> []"
      using False ok r' by (cases "?ups @ ?down" rule: join_slash.cases) (auto simp: list_all_iff)
    then show ?thesis
      using r r' w split_join [OF False] ok by (simp add: list_all_iff)
  qed
qed

theorem relative_between_dirs_correct_witness:
  "walk [''a'', ''b''] (split_slash ''../c/d'') = Some [''a'', ''c'', ''d'']"
  by (rule relative_between_dirs_correct [where f = "Some ''a/b''" and t = "Some ''a/c/d''" and n = 4096])
    code_simp+

text \<open>
  The directory of a joined path is the directory it was joined to: taking \<open>dirname\<close> of
  \<open>dir/file\<close> gives \<open>dir\<close> back for every file name without a slash.
\<close>

theorem dirname_path_join:
  assumes "qstar_path_join (Some d) b n = Some p" and "d \<noteq> []" and "d \<noteq> ''.''"
    and "CHR ''/'' \<notin> set b"
  shows "qstar_dirname p n = Some d"
proof -
  have p: "p = d @ CHR ''/'' # b" and len: "length p < n"
    using assms by (auto simp: qstar_path_join_def)
  have "strrchr CHR ''/'' p = Some (d, b)"
    using assms(4) p by (simp add: strrchr_Some)
  then show ?thesis using assms(2) len p by (simp add: qstar_dirname_def)
qed

theorem dirname_path_join_witness:
  "qstar_dirname ''build/out/main.o'' 4096 = Some ''build/out''"
  by (rule dirname_path_join [where b = "''main.o''"]) code_simp+

end
