(* ===== verification/QModel.thy ===== *)
theory QModel
  imports QPrelude
begin

text \<open>
  The data model of \<^verbatim>\<open>include/qstar/qstar.h\<close> and \<^verbatim>\<open>src/internal.h\<close>: one record per struct, with the fields in
  the order of the header. A growable array with its length and capacity is a list; an \<open>int\<close> that
  is only a flag is a \<open>bool\<close>. The \<open>zero_\<close> constants are what \<open>memset (p, 0, sizeof *p)\<close> leaves: empty
  lists, null pointers, cleared flags. A \<open>char *\<close> that the constructor always sets is a \<open>string\<close>, which
  is empty in the zeroed record.
\<close>

text \<open>\<open>struct qstar_provider_option_value\<close>: one \<open>lang.<ns>.<name>\<close> option value of a target.\<close>

record qstar_provider_option_value =
  pov_provider :: string
  pov_name :: string
  pov_type :: string
  pov_value :: string
  pov_list :: "string list"

text \<open>\<open>struct qstar_provider_action_template\<close>: command template of a provider action.\<close>

record qstar_provider_action_template =
  pa_argv :: "string list"
  pa_env :: "string list"
  pa_inputs :: "string list"
  pa_outputs :: "string list"
  pa_depfile :: cstr
  pa_wants_depfile :: bool

definition zero_qstar_provider_action_template :: qstar_provider_action_template where
  "zero_qstar_provider_action_template = \<lparr>pa_argv = [], pa_env = [], pa_inputs = [], pa_outputs = [], pa_depfile = None, 
     pa_wants_depfile = False\<rparr>"

text \<open>\<open>struct qstar_provider_artifact_descriptor\<close>: named artifact of a provider final action.\<close>

record qstar_provider_artifact_descriptor =
  pad_id :: string
  pad_type :: string
  pad_suffix :: string
  pad_path :: string
  pad_primary :: bool
  pad_secondary :: bool
  pad_runtime :: bool
  pad_link_interface :: bool

definition zero_qstar_provider_artifact_descriptor :: qstar_provider_artifact_descriptor where
  "zero_qstar_provider_artifact_descriptor = \<lparr>pad_id = [], pad_type = [], pad_suffix = [], pad_path = [], pad_primary = False, 
     pad_secondary = False, pad_runtime = False, pad_link_interface = False\<rparr>"

text \<open>\<open>struct qstar_modules\<close>: \<open>lang.cxx.modules\<close> source discovery.\<close>

record qstar_modules =
  mod_present :: bool
  mod_root :: cstr
  mod_include :: "string list"
  mod_exclude :: "string list"

definition zero_qstar_modules :: qstar_modules where
  "zero_qstar_modules = \<lparr>mod_present = False, mod_root = None, mod_include = [], mod_exclude = []\<rparr>"

text \<open>\<open>struct qstar_provider_source_unit\<close>: provider metadata of one source index.\<close>

record qstar_provider_source_unit =
  psu_source_index :: nat
  psu_path :: cstr
  psu_provider :: cstr
  psu_unit :: string
  psu_emits :: string
  psu_lower :: string
  psu_toolset_role :: cstr
  psu_action :: qstar_provider_action_template

definition zero_qstar_provider_source_unit :: qstar_provider_source_unit where
  "zero_qstar_provider_source_unit = \<lparr>psu_source_index = 0, psu_path = None, psu_provider = None, psu_unit = [], 
     psu_emits = [], psu_lower = [], psu_toolset_role = None, 
     psu_action = zero_qstar_provider_action_template\<rparr>"

text \<open>\<open>struct qstar_provider_final_action\<close>: provider-owned final artifact action.\<close>

record qstar_provider_final_action =
  pf_present :: bool
  pf_api :: cstr
  pf_provider :: cstr
  pf_kind :: cstr
  pf_lower :: cstr
  pf_input_ownership :: "string list"
  pf_artifacts :: "qstar_provider_artifact_descriptor list"
  pf_action :: qstar_provider_action_template

definition zero_qstar_provider_final_action :: qstar_provider_final_action where
  "zero_qstar_provider_final_action = \<lparr>pf_present = False, pf_api = None, pf_provider = None, pf_kind = None, pf_lower = None, 
     pf_input_ownership = [], pf_artifacts = [], 
     pf_action = zero_qstar_provider_action_template\<rparr>"

text \<open>\<open>struct qstar_imported_artifact\<close>: platform-selected prebuilt artifact.\<close>

record qstar_imported_artifact =
  ia_platform :: string
  ia_id :: string
  ia_role :: string
  ia_path :: string
  ia_primary :: bool

text \<open>\<open>struct qstar_test_resource_request\<close>: amount of a named resource a test holds.\<close>

record qstar_test_resource_request =
  rr_name :: string
  rr_amount :: int

text \<open>\<open>struct qstar_target\<close>: one node of the graph.\<close>

record qstar_target =
  t_label :: string
  t_name :: string
  t_kind :: string
  t_fragment_dir :: string
  t_origin_file :: string
  t_origin_line :: int
  t_modules :: qstar_modules
  t_configs :: "string list"
  t_sources :: "string list"
  t_objects :: "string list"
  t_provider_sources :: "qstar_provider_source_unit list"
  t_provider_final :: qstar_provider_final_action
  t_public_headers :: "string list"
  t_private_headers :: "string list"
  t_include_dirs :: "string list"
  t_public_include_dirs :: "string list"
  t_private_include_dirs :: "string list"
  t_interface_include_dirs :: "string list"
  t_system_include_dirs :: "string list"
  t_deps :: "string list"
  t_private_deps :: "string list"
  t_visibility :: "string list"
  t_libs :: "string list"
  t_lib_dirs :: "string list"
  t_frameworks :: "string list"
  t_link_options :: "string list"
  t_link_inputs :: "string list"
  t_compile_usage_options :: "string list"
  t_compile_usage_inputs :: "string list"
  t_link_usage_options :: "string list"
  t_link_usage_inputs :: "string list"
  t_imported_artifacts :: "qstar_imported_artifact list"
  t_cflags :: "string list"
  t_cxxflags :: "string list"
  t_asm_include_dirs :: "string list"
  t_asm_compile_options :: "string list"
  t_provider_options :: "qstar_provider_option_value list"
  t_run_inputs :: "string list"
  t_run_command :: "string list"
  t_test_resources :: "qstar_test_resource_request list"
  t_test_retry_on :: "string list"
  t_test_setup :: "string list"
  t_test_cleanup :: "string list"
  t_test_skip_reason :: cstr
  t_test_retry_count :: int
  t_test_timeout_sec :: int
  t_test_manual :: bool
  t_description :: cstr
  t_artifact_name :: cstr
  t_imported_artifact_kind :: cstr
  t_tool_path :: string
  t_compile_context :: cstr
  t_cxx_standard :: cstr
  t_cxx_precompiled_header :: cstr
  t_run_expect_contains :: cstr
  t_run_expect_file :: cstr
  t_run_timeout_sec :: int
  t_asm_preprocess :: bool
  t_cxx_modules_present :: bool
  t_cxx_modules_enabled :: bool
  t_cxx_pch_present :: bool
  t_cxx_unity_present :: bool
  t_cxx_unity_enabled :: bool
  t_cxx_unity_batch_size :: int
  t_cacheable_present :: bool
  t_cacheable :: bool
  t_toolset :: cstr

definition zero_qstar_target :: qstar_target where
  "zero_qstar_target = \<lparr>t_label = [], t_name = [], t_kind = [], t_fragment_dir = [], t_origin_file = [], 
     t_origin_line = 0, t_modules = zero_qstar_modules, t_configs = [], t_sources = [], 
     t_objects = [], t_provider_sources = [], 
     t_provider_final = zero_qstar_provider_final_action, t_public_headers = [], 
     t_private_headers = [], t_include_dirs = [], t_public_include_dirs = [], 
     t_private_include_dirs = [], t_interface_include_dirs = [], t_system_include_dirs = [], 
     t_deps = [], t_private_deps = [], t_visibility = [], t_libs = [], t_lib_dirs = [], 
     t_frameworks = [], t_link_options = [], t_link_inputs = [], t_compile_usage_options = [], 
     t_compile_usage_inputs = [], t_link_usage_options = [], t_link_usage_inputs = [], 
     t_imported_artifacts = [], t_cflags = [], t_cxxflags = [], t_asm_include_dirs = [], 
     t_asm_compile_options = [], t_provider_options = [], t_run_inputs = [], 
     t_run_command = [], t_test_resources = [], t_test_retry_on = [], t_test_setup = [], 
     t_test_cleanup = [], t_test_skip_reason = None, t_test_retry_count = 0, 
     t_test_timeout_sec = 0, t_test_manual = False, t_description = None, 
     t_artifact_name = None, t_imported_artifact_kind = None, t_tool_path = [], 
     t_compile_context = None, t_cxx_standard = None, t_cxx_precompiled_header = None, 
     t_run_expect_contains = None, t_run_expect_file = None, t_run_timeout_sec = 0, 
     t_asm_preprocess = False, t_cxx_modules_present = False, t_cxx_modules_enabled = False, 
     t_cxx_pch_present = False, t_cxx_unity_present = False, t_cxx_unity_enabled = False, 
     t_cxx_unity_batch_size = 0, t_cacheable_present = False, t_cacheable = False, 
     t_toolset = None\<rparr>"

text \<open>\<open>struct qstar_config\<close>: reusable option bundle.\<close>

record qstar_config =
  cf_label :: string
  cf_name :: string
  cf_fragment_dir :: string
  cf_origin_file :: string
  cf_origin_line :: int
  cf_options :: qstar_target
  cf_has_artifact_name :: bool
  cf_has_cxx_standard :: bool
  cf_has_cxx_precompiled_header :: bool
  cf_has_cxx_unity :: bool
  cf_has_asm_preprocess :: bool
  cf_has_cxx_modules :: bool
  cf_has_cacheable :: bool
  cf_has_toolset :: bool

definition zero_qstar_config :: qstar_config where
  "zero_qstar_config = \<lparr>cf_label = [], cf_name = [], cf_fragment_dir = [], cf_origin_file = [], 
     cf_origin_line = 0, cf_options = zero_qstar_target, cf_has_artifact_name = False, 
     cf_has_cxx_standard = False, cf_has_cxx_precompiled_header = False, 
     cf_has_cxx_unity = False, cf_has_asm_preprocess = False, cf_has_cxx_modules = False, 
     cf_has_cacheable = False, cf_has_toolset = False\<rparr>"

text \<open>\<open>struct qstar_tool_role\<close>: argv of one compile/archive/link role.\<close>

record qstar_tool_role =
  tr_role :: string
  tr_argv :: "string list"

text \<open>\<open>struct qstar_toolset\<close>: tool roles and tool policy.\<close>

record qstar_toolset =
  ts_label :: string
  ts_name :: string
  ts_fragment_dir :: string
  ts_origin_file :: string
  ts_origin_line :: int
  ts_roles :: "qstar_tool_role list"
  ts_path_tools :: "string list"
  ts_response_file_tools :: "string list"
  ts_response_files :: cstr
  ts_response_style :: cstr
  ts_allow_absolute_tools :: cstr

definition zero_qstar_toolset :: qstar_toolset where
  "zero_qstar_toolset = \<lparr>ts_label = [], ts_name = [], ts_fragment_dir = [], ts_origin_file = [], 
     ts_origin_line = 0, ts_roles = [], ts_path_tools = [], ts_response_file_tools = [], 
     ts_response_files = None, ts_response_style = None, ts_allow_absolute_tools = None\<rparr>"

text \<open>\<open>struct qstar_language_option_schema\<close>: schema of a provider option.\<close>

record qstar_language_option_schema =
  lo_name :: string
  lo_type :: string
  lo_has_default :: bool
  lo_default_value :: string
  lo_default_list :: "string list"
  lo_values :: "string list"

definition zero_qstar_language_option_schema :: qstar_language_option_schema where
  "zero_qstar_language_option_schema = \<lparr>lo_name = [], lo_type = [], lo_has_default = False, lo_default_value = [], 
     lo_default_list = [], lo_values = []\<rparr>"

text \<open>\<open>struct qstar_language_unit_schema\<close>: schema of a provider source unit.\<close>

record qstar_language_unit_schema =
  lu_name :: string
  lu_suffixes :: "string list"
  lu_emits :: string
  lu_lower :: string
  lu_deps :: string

definition zero_qstar_language_unit_schema :: qstar_language_unit_schema where
  "zero_qstar_language_unit_schema = \<lparr>lu_name = [], lu_suffixes = [], lu_emits = [], lu_lower = [], lu_deps = []\<rparr>"

text \<open>\<open>struct qstar_language_final_schema\<close>: schema of a provider final artifact.\<close>

record qstar_language_final_schema =
  lf_kind :: string
  lf_lower :: string
  lf_inputs :: "string list"
  lf_artifacts :: "qstar_provider_artifact_descriptor list"

definition zero_qstar_language_final_schema :: qstar_language_final_schema where
  "zero_qstar_language_final_schema = \<lparr>lf_kind = [], lf_lower = [], lf_inputs = [], lf_artifacts = []\<rparr>"

text \<open>\<open>struct qstar_language_provider\<close>: activated language provider.\<close>

record qstar_language_provider =
  lp_api :: string
  lp_id :: string
  lp_namespace :: string
  lp_version :: string
  lp_dir :: string
  lp_manifest :: string
  lp_implementation :: string
  lp_options :: "qstar_language_option_schema list"
  lp_units :: "qstar_language_unit_schema list"
  lp_finals :: "qstar_language_final_schema list"

definition zero_qstar_language_provider :: qstar_language_provider where
  "zero_qstar_language_provider = \<lparr>lp_api = [], lp_id = [], lp_namespace = [], lp_version = [], lp_dir = [], 
     lp_manifest = [], lp_implementation = [], lp_options = [], lp_units = [], lp_finals = []\<rparr>"

text \<open>\<open>struct qstar_genrule\<close>: generated action.\<close>

record qstar_genrule =
  g_label :: string
  g_name :: string
  g_fragment_dir :: string
  g_origin_file :: string
  g_origin_line :: int
  g_tool :: cstr
  g_toolset :: cstr
  g_description :: cstr
  g_config_header :: bool
  g_cacheable_present :: bool
  g_cacheable :: bool
  g_inputs :: "string list"
  g_outputs :: "string list"
  g_output_groups :: "string list"
  g_output_formats :: "string list"
  g_args :: "string list"
  g_command :: "string list"

definition zero_qstar_genrule :: qstar_genrule where
  "zero_qstar_genrule = \<lparr>g_label = [], g_name = [], g_fragment_dir = [], g_origin_file = [], g_origin_line = 0, 
     g_tool = None, g_toolset = None, g_description = None, g_config_header = False, 
     g_cacheable_present = False, g_cacheable = False, g_inputs = [], g_outputs = [], 
     g_output_groups = [], g_output_formats = [], g_args = [], g_command = []\<rparr>"

text \<open>\<open>struct qstar_stage\<close>: copy-only staging rule.\<close>

record qstar_stage =
  st_label :: string
  st_name :: string
  st_fragment_dir :: string
  st_origin_file :: string
  st_origin_line :: int
  st_root :: cstr
  st_description :: cstr
  st_srcs :: "string list"
  st_dsts :: "string list"

definition zero_qstar_stage :: qstar_stage where
  "zero_qstar_stage = \<lparr>st_label = [], st_name = [], st_fragment_dir = [], st_origin_file = [], 
     st_origin_line = 0, st_root = None, st_description = None, st_srcs = [], st_dsts = []\<rparr>"

text \<open>\<open>struct qstar_target_family\<close>: lint grouping of target variants.\<close>

record qstar_target_family =
  fam_name :: string
  fam_fragment_dir :: string
  fam_origin_file :: string
  fam_origin_line :: int
  fam_allow_shared_sources :: bool
  fam_variants :: "string list"
  fam_targets :: "string list"

definition zero_qstar_target_family :: qstar_target_family where
  "zero_qstar_target_family = \<lparr>fam_name = [], fam_fragment_dir = [], fam_origin_file = [], fam_origin_line = 0, 
     fam_allow_shared_sources = False, fam_variants = [], fam_targets = []\<rparr>"

text \<open>\<open>struct qstar_test_suite\<close>: named set of tests, run targets and suites.\<close>

record qstar_test_suite =
  su_label :: string
  su_name :: string
  su_fragment_dir :: string
  su_origin_file :: string
  su_origin_line :: int
  su_description :: string
  su_manual :: bool
  su_tests :: "string list"
  su_tags :: "string list"

definition zero_qstar_test_suite :: qstar_test_suite where
  "zero_qstar_test_suite = \<lparr>su_label = [], su_name = [], su_fragment_dir = [], su_origin_file = [], 
     su_origin_line = 0, su_description = [], su_manual = False, su_tests = [], su_tags = []\<rparr>"

text \<open>\<open>struct qstar_test_resource\<close>: counted resource tests compete for.\<close>

record qstar_test_resource =
  tres_name :: string
  tres_origin_file :: string
  tres_origin_line :: int
  tres_description :: string
  tres_capacity :: int

definition zero_qstar_test_resource :: qstar_test_resource where
  "zero_qstar_test_resource = \<lparr>tres_name = [], tres_origin_file = [], tres_origin_line = 0, tres_description = [], 
     tres_capacity = 0\<rparr>"

text \<open>\<open>struct qstar_command_option\<close>: typed option of a project command.\<close>

record qstar_command_option =
  co_name :: string
  co_type :: string
  co_description :: string
  co_default_value :: string
  co_required :: bool
  co_has_default :: bool
  co_choices :: "string list"

definition zero_qstar_command_option :: qstar_command_option where
  "zero_qstar_command_option = \<lparr>co_name = [], co_type = [], co_description = [], co_default_value = [], 
     co_required = False, co_has_default = False, co_choices = []\<rparr>"

text \<open>\<open>struct qstar_command_step\<close>: ordered step of a project command.\<close>

record qstar_command_step =
  cst_kind :: string
  cst_label :: cstr
  cst_command :: cstr
  cst_stage_root :: cstr
  cst_when :: cstr
  cst_working_dir :: cstr
  cst_description :: string
  cst_run_expect_contains :: string
  cst_run_expect_file :: cstr
  cst_export_to :: cstr
  cst_run_command :: "string list"
  cst_inputs :: "string list"
  cst_env :: "string list"
  cst_stage_dry_run :: bool
  cst_timeout_sec :: int

definition zero_qstar_command_step :: qstar_command_step where
  "zero_qstar_command_step = \<lparr>cst_kind = [], cst_label = None, cst_command = None, cst_stage_root = None, 
     cst_when = None, cst_working_dir = None, cst_description = [], 
     cst_run_expect_contains = [], cst_run_expect_file = None, cst_export_to = None, 
     cst_run_command = [], cst_inputs = [], cst_env = [], cst_stage_dry_run = False, 
     cst_timeout_sec = 0\<rparr>"

text \<open>\<open>struct qstar_project_command\<close>: project command.\<close>

record qstar_project_command =
  pc_name :: string
  pc_origin_file :: string
  pc_origin_line :: int
  pc_description :: string
  pc_working_dir :: cstr
  pc_env :: "string list"
  pc_aliases :: "string list"
  pc_options :: "qstar_command_option list"
  pc_steps :: "qstar_command_step list"
  pc_is_default :: bool
  pc_hidden :: bool

definition zero_qstar_project_command :: qstar_project_command where
  "zero_qstar_project_command = \<lparr>pc_name = [], pc_origin_file = [], pc_origin_line = 0, pc_description = [], 
     pc_working_dir = None, pc_env = [], pc_aliases = [], pc_options = [], pc_steps = [], 
     pc_is_default = False, pc_hidden = False\<rparr>"

text \<open>\<open>struct qstar_project\<close>: \<open>qstar.project\<close> metadata.\<close>

record qstar_project =
  pj_present :: bool
  pj_name :: cstr
  pj_version :: cstr
  pj_root :: cstr
  pj_build_dir :: cstr
  pj_generated_dir :: cstr
  pj_compile_commands :: cstr
  pj_action_cache :: cstr

definition zero_qstar_project :: qstar_project where
  "zero_qstar_project = \<lparr>pj_present = False, pj_name = None, pj_version = None, pj_root = None, 
     pj_build_dir = None, pj_generated_dir = None, pj_compile_commands = None, 
     pj_action_cache = None\<rparr>"

text \<open>\<open>struct qstar_project_option_override\<close>: \<open>-D name=value\<close>.\<close>

record qstar_project_option_override =
  oo_name :: string
  oo_value :: string

text \<open>\<open>struct qstar_project_option\<close>: declared project option.\<close>

record qstar_project_option =
  po_name :: string
  po_type :: string
  po_value :: cstr
  po_description :: string
  po_choices :: "string list"
  po_override_value :: cstr
  po_origin_file :: string
  po_origin_line :: int
  po_overridden :: bool

definition zero_qstar_project_option :: qstar_project_option where
  "zero_qstar_project_option = \<lparr>po_name = [], po_type = [], po_value = None, po_description = [], po_choices = [], 
     po_override_value = None, po_origin_file = [], po_origin_line = 0, po_overridden = False\<rparr>"

text \<open>\<open>struct qstar_variant\<close>: read-only variant metadata.\<close>

record qstar_variant =
  va_name :: string
  va_description :: string
  va_tags :: "string list"
  va_values :: "string list"
  va_origin_file :: string
  va_origin_line :: int

definition zero_qstar_variant :: qstar_variant where
  "zero_qstar_variant = \<lparr>va_name = [], va_description = [], va_tags = [], va_values = [], va_origin_file = [], 
     va_origin_line = 0\<rparr>"

text \<open>\<open>struct qstar_package_alias\<close>: external package alias.\<close>

record qstar_package_alias =
  al_alias :: string
  al_root :: string

text \<open>\<open>struct qstar_cached_action\<close>: lowered action of the plan cache.\<close>

record qstar_cached_action =
  ca_id :: cstr
  ca_kind :: cstr
  ca_target_label :: cstr
  ca_description :: cstr
  ca_depfile :: cstr
  ca_source_path :: cstr
  ca_source_index :: nat
  ca_wants_depfile :: bool
  ca_argv :: "string list"
  ca_env :: "string list"
  ca_outputs :: "string list"
  ca_inputs :: "string list"
  ca_depfile_inputs :: "string list"

definition zero_qstar_cached_action :: qstar_cached_action where
  "zero_qstar_cached_action = \<lparr>ca_id = None, ca_kind = None, ca_target_label = None, ca_description = None, 
     ca_depfile = None, ca_source_path = None, ca_source_index = 0, ca_wants_depfile = False, 
     ca_argv = [], ca_env = [], ca_outputs = [], ca_inputs = [], ca_depfile_inputs = []\<rparr>"

text \<open>\<open>struct qstar_target_artifact\<close>: one entry of the artifact map.\<close>

record qstar_target_artifact =
  ta_id :: string
  ta_role :: string
  ta_type :: string
  ta_path :: string
  ta_install_dir :: string
  ta_primary :: bool
  ta_secondary :: bool
  ta_runtime :: bool
  ta_link_interface :: bool
  ta_installable :: bool

text \<open>\<open>struct qstar_graph\<close>: the whole Graph IR.\<close>

record qstar_graph =
  gr_targets :: "qstar_target list"
  gr_configs :: "qstar_config list"
  gr_toolsets :: "qstar_toolset list"
  gr_language_providers :: "qstar_language_provider list"
  gr_package_root :: cstr
  gr_packages :: "qstar_package_alias list"
  gr_genrules :: "qstar_genrule list"
  gr_stages :: "qstar_stage list"
  gr_families :: "qstar_target_family list"
  gr_test_suites :: "qstar_test_suite list"
  gr_test_resources :: "qstar_test_resource list"
  gr_commands :: "qstar_project_command list"
  gr_project_options :: "qstar_project_option list"
  gr_project_option_overrides :: "qstar_project_option_override list"
  gr_variants :: "qstar_variant list"
  gr_evaluated_fragments :: "string list"
  gr_project :: qstar_project
  gr_generator :: cstr
  gr_requested_generator :: cstr
  gr_build_dir_override :: cstr
  gr_platform :: cstr
  gr_cached_actions :: "qstar_cached_action list"
  gr_cached_action_plan_loaded :: bool
  gr_error :: string
  gr_error_file :: string
  gr_error_field :: string
  gr_error_label :: string
  gr_error_line :: int
  gr_uses_file_globs :: bool

definition zero_qstar_graph :: qstar_graph where
  "zero_qstar_graph = \<lparr>gr_targets = [], gr_configs = [], gr_toolsets = [], gr_language_providers = [], 
     gr_package_root = None, gr_packages = [], gr_genrules = [], gr_stages = [], 
     gr_families = [], gr_test_suites = [], gr_test_resources = [], gr_commands = [], 
     gr_project_options = [], gr_project_option_overrides = [], gr_variants = [], 
     gr_evaluated_fragments = [], gr_project = zero_qstar_project, gr_generator = None, 
     gr_requested_generator = None, gr_build_dir_override = None, gr_platform = None, 
     gr_cached_actions = [], gr_cached_action_plan_loaded = False, gr_error = [], 
     gr_error_file = [], gr_error_field = [], gr_error_label = [], gr_error_line = 0, 
     gr_uses_file_globs = False\<rparr>"

text \<open>\<open>struct qstar_source_info\<close>: classification of a source.\<close>

record qstar_source_info =
  si_path :: string
  si_language :: string
  si_tool_role :: string
  si_provider :: string
  si_provider_role :: string
  si_toolset_role :: string
  si_output_group :: string
  si_compile_input :: bool
  si_header_input :: bool

text \<open>\<open>struct qstar_target_rule_info\<close>: target rule registry entry.\<close>

record qstar_target_rule_info =
  ru_kind :: string
  ru_provider :: string
  ru_final_action :: string
  ru_output_group :: string
  ru_artifact_prefix :: string
  ru_artifact_suffix :: string
  ru_executable_artifact :: bool
  ru_installable_artifact :: bool
  ru_local_executor_supported :: bool

text \<open>\<open>struct qstar_language_provider_info\<close>: preloaded language provider.\<close>

record qstar_language_provider_info =
  pi_namespace :: string
  pi_display_name :: string
  pi_compiler_role :: string
  pi_preloaded :: bool

text \<open>\<open>struct qstar_resolved_toolchain\<close>: tools chosen for one target.\<close>

record qstar_resolved_toolchain =
  rt_platform :: string
  rt_link_style :: string
  rt_cc :: string
  rt_cxx :: string
  rt_ar :: string
  rt_asm :: string
  rt_linker :: string
  rt_resolver :: string
  rt_toolset :: string
  rt_response_files :: bool
  rt_response_style :: string

definition zero_qstar_resolved_toolchain :: qstar_resolved_toolchain where
  "zero_qstar_resolved_toolchain = \<lparr>rt_platform = [], rt_link_style = [], rt_cc = [], rt_cxx = [], rt_ar = [], rt_asm = [], 
     rt_linker = [], rt_resolver = [], rt_toolset = [], rt_response_files = False, 
     rt_response_style = []\<rparr>"

text \<open>\<open>struct qstar_test_options\<close>: suite and tag filters of \<open>qstar test\<close>.\<close>

record qstar_test_options =
  to_suites :: "string list"
  to_tags :: "string list"
  to_exclude_tags :: "string list"
  to_report_json :: cstr
  to_output_junit :: cstr
  to_jobs :: int
  to_include_manual :: bool

definition zero_qstar_test_options :: qstar_test_options where
  "zero_qstar_test_options = \<lparr>to_suites = [], to_tags = [], to_exclude_tags = [], to_report_json = None, 
     to_output_junit = None, to_jobs = 0, to_include_manual = False\<rparr>"

lemmas zero_defs =
  zero_qstar_provider_action_template_def
  zero_qstar_provider_artifact_descriptor_def
  zero_qstar_modules_def
  zero_qstar_provider_source_unit_def
  zero_qstar_provider_final_action_def
  zero_qstar_target_def
  zero_qstar_config_def
  zero_qstar_toolset_def
  zero_qstar_language_option_schema_def
  zero_qstar_language_unit_schema_def
  zero_qstar_language_final_schema_def
  zero_qstar_language_provider_def
  zero_qstar_genrule_def
  zero_qstar_stage_def
  zero_qstar_target_family_def
  zero_qstar_test_suite_def
  zero_qstar_test_resource_def
  zero_qstar_command_option_def
  zero_qstar_command_step_def
  zero_qstar_project_command_def
  zero_qstar_project_def
  zero_qstar_project_option_def
  zero_qstar_variant_def
  zero_qstar_cached_action_def
  zero_qstar_graph_def
  zero_qstar_resolved_toolchain_def
  zero_qstar_test_options_def

end
