(* ===== verification/QRule.thy ===== *)
theory QRule
  imports QModel
begin

text \<open>
  \<^verbatim>\<open>src/rule.c\<close>: the static registries of QStar (preloaded language providers, source kinds by suffix,
  target rules by kind), the classification of a target's sources through them, and the progress
  descriptions of actions. The lemmas show that the suffix table is unambiguous, so that
  classification depends on the extension alone, and what a classified source always satisfies.
\<close>

section \<open>Registries\<close>

definition builtin_language_providers :: "qstar_language_provider_info list" where
  "builtin_language_providers =
    [\<lparr>pi_namespace = ''c'', pi_display_name = ''C'', pi_compiler_role = ''compiler'', pi_preloaded = True\<rparr>,
     \<lparr>pi_namespace = ''cxx'', pi_display_name = ''C++'', pi_compiler_role = ''compiler'', pi_preloaded = True\<rparr>,
     \<lparr>pi_namespace = ''asm'', pi_display_name = ''Assembly'', pi_compiler_role = ''compiler'', pi_preloaded = True\<rparr>]"

fun rule_info :: "string \<Rightarrow> string \<Rightarrow> string \<Rightarrow> string \<Rightarrow> string \<Rightarrow> string \<Rightarrow> bool \<Rightarrow> bool \<Rightarrow> qstar_source_info" where
  "rule_info lang role prov prole trole grp cin hin =
    \<lparr>si_path = [], si_language = lang, si_tool_role = role, si_provider = prov, si_provider_role = prole,
     si_toolset_role = trole, si_output_group = grp, si_compile_input = cin, si_header_input = hin\<rparr>"

definition source_rules :: "(string \<times> qstar_source_info) list" where
  "source_rules =
    [(''.c'', rule_info ''c'' ''c-compiler'' ''c'' ''compiler'' ''c.compiler'' ''objects'' True False),
     (''.cc'', rule_info ''cxx'' ''cxx-compiler'' ''cxx'' ''compiler'' ''cxx.compiler'' ''objects'' True False),
     (''.cpp'', rule_info ''cxx'' ''cxx-compiler'' ''cxx'' ''compiler'' ''cxx.compiler'' ''objects'' True False),
     (''.cxx'', rule_info ''cxx'' ''cxx-compiler'' ''cxx'' ''compiler'' ''cxx.compiler'' ''objects'' True False),
     (''.cppm'', rule_info ''cxx-module'' ''cxx-module-interface'' ''cxx'' ''compiler'' ''cxx.compiler'' ''objects'' True False),
     (''.ixx'', rule_info ''cxx-module'' ''cxx-module-interface'' ''cxx'' ''compiler'' ''cxx.compiler'' ''objects'' True False),
     (''.h'', rule_info ''header'' ''header-input'' ''c'' '''' '''' ''headers'' False True),
     (''.hpp'', rule_info ''cxx-header'' ''header-input'' ''cxx'' '''' '''' ''headers'' False True),
     (''.hh'', rule_info ''cxx-header'' ''header-input'' ''cxx'' '''' '''' ''headers'' False True),
     (''.s'', rule_info ''asm'' ''assembler'' ''asm'' ''compiler'' ''asm.compiler'' ''objects'' True False),
     (''.S'', rule_info ''asm-cpp'' ''preprocessed-assembler'' ''asm'' ''compiler'' ''asm.compiler'' ''objects'' True False),
     (''.o'', rule_info ''object'' ''link-object'' ''native'' '''' '''' ''objects'' False False),
     (''.obj'', rule_info ''object'' ''link-object'' ''native'' '''' '''' ''objects'' False False)]"

fun target_rule :: "string \<Rightarrow> string \<Rightarrow> string \<Rightarrow> string \<Rightarrow> string \<Rightarrow> string \<Rightarrow> bool \<Rightarrow> bool \<Rightarrow> bool \<Rightarrow> qstar_target_rule_info" where
  "target_rule kind prov fin grp pre suf exe inst loc =
    \<lparr>ru_kind = kind, ru_provider = prov, ru_final_action = fin, ru_output_group = grp, ru_artifact_prefix = pre,
     ru_artifact_suffix = suf, ru_executable_artifact = exe, ru_installable_artifact = inst,
     ru_local_executor_supported = loc\<rparr>"

definition target_rules :: "qstar_target_rule_info list" where
  "target_rules =
    [target_rule ''exe'' ''native'' ''link'' ''exe'' '''' '''' True True True,
     target_rule ''test'' ''native'' ''link'' ''exe'' '''' '''' True False True,
     target_rule ''staticlib'' ''native'' ''archive'' ''libs'' ''lib'' ''.a'' False True True,
     target_rule ''sharedlib'' ''native'' ''link-shared'' ''libs'' ''lib'' ''.so'' False True True,
     target_rule ''objectlib'' ''native'' ''compile-objects'' ''objects'' '''' '''' False False False,
     target_rule ''run_target'' ''generic'' ''run'' ''generic'' '''' '''' False False False,
     target_rule ''group'' ''generic'' ''group'' ''none'' '''' '''' False False False,
     target_rule ''interface'' ''generic'' ''interface'' ''none'' '''' '''' False False False,
     target_rule ''imported'' ''generic'' ''imported'' ''prebuilt'' '''' '''' False False False,
     target_rule ''tool'' ''generic'' ''tool'' ''tools'' '''' '''' True False False,
     target_rule ''target'' ''generic'' ''materialize'' ''generic'' '''' '''' False False False]"

section \<open>Look-up and classification\<close>

definition qstar_language_provider_lookup :: "cstr \<Rightarrow> qstar_language_provider_info option" where
  "qstar_language_provider_lookup ns =
     (if present ns then find_key pi_namespace (str_or_empty ns) builtin_language_providers else None)"

definition qstar_language_provider_is_preloaded :: "cstr \<Rightarrow> bool" where
  "qstar_language_provider_is_preloaded ns =
     (case qstar_language_provider_lookup ns of None \<Rightarrow> False | Some p \<Rightarrow> pi_preloaded p)"

definition qstar_source_requires_compile :: "qstar_source_info \<Rightarrow> bool" where
  "qstar_source_requires_compile s = si_compile_input s"

definition qstar_source_is_link_object :: "qstar_source_info \<Rightarrow> bool" where
  "qstar_source_is_link_object s \<longleftrightarrow> si_language s = ''object''"

definition qstar_source_is_asm :: "qstar_source_info \<Rightarrow> bool" where
  "qstar_source_is_asm s \<longleftrightarrow> si_provider s = ''asm'' \<and> si_compile_input s"

definition qstar_source_uses_asm_preprocessor :: "qstar_target option \<Rightarrow> qstar_source_info \<Rightarrow> bool" where
  "qstar_source_uses_asm_preprocessor t s \<longleftrightarrow> qstar_source_is_asm s \<and>
     (si_language s = ''asm-cpp'' \<or>
      (si_language s = ''asm'' \<and> (case t of None \<Rightarrow> False | Some t' \<Rightarrow> t_asm_preprocess t')))"

definition qstar_source_is_cxx_module :: "qstar_source_info \<Rightarrow> bool" where
  "qstar_source_is_cxx_module s \<longleftrightarrow> si_provider s = ''cxx'' \<and> si_language s = ''cxx-module''"

fun source_rule_for :: "string \<Rightarrow> (string \<times> qstar_source_info) list \<Rightarrow> qstar_source_info option" where
  "source_rule_for path [] = None"
| "source_rule_for path ((suffix, info) # rs) =
     (if ends_with suffix path then Some info else source_rule_for path rs)"

definition qstar_source_kind_lookup_path :: "string \<Rightarrow> qstar_source_info option" where
  "qstar_source_kind_lookup_path path = source_rule_for path source_rules"

text \<open>The Boolean is the return value \<open>0\<close>; the information is filled in either way.\<close>

definition qstar_source_classify :: "string \<Rightarrow> bool \<times> qstar_source_info" where
  "qstar_source_classify path = (case qstar_source_kind_lookup_path path of
      None \<Rightarrow> (False, (rule_info ''unknown'' ''unsupported'' ''unknown'' '''' '''' ''unknown'' False False)
                 \<lparr>si_path := path\<rparr>)
    | Some r \<Rightarrow> (True, r\<lparr>si_path := path\<rparr>))"

definition qstar_target_provider_source_unit :: "qstar_target \<Rightarrow> nat \<Rightarrow> qstar_provider_source_unit option" where
  "qstar_target_provider_source_unit t i = List.find (\<lambda>u. psu_source_index u = i) (t_provider_sources t)"

definition provider_source_info :: "qstar_provider_source_unit \<Rightarrow> string \<Rightarrow> qstar_source_info" where
  "provider_source_info u source =
    \<lparr>si_path = str_or source (psu_path u), si_language = str_or ''unknown'' (psu_provider u),
     si_tool_role = ''provider-compiler'', si_provider = str_or ''unknown'' (psu_provider u),
     si_provider_role = ''compiler'', si_toolset_role = str_or [] (psu_toolset_role u),
     si_output_group = ''objects'', si_compile_input = True, si_header_input = False\<rparr>"

text \<open>\<open>Some info\<close> for return value \<open>0\<close>; an index past the sources and an unknown suffix both return \<open>-1\<close>.\<close>

definition qstar_target_source_classify :: "qstar_target \<Rightarrow> nat \<Rightarrow> qstar_source_info option" where
  "qstar_target_source_classify t i =
     (if i \<ge> length (t_sources t) then None
      else case qstar_target_provider_source_unit t i of
          None \<Rightarrow> (case qstar_source_classify (t_sources t ! i) of (ok, info) \<Rightarrow> if ok then Some info else None)
        | Some u \<Rightarrow> Some (provider_source_info u (t_sources t ! i)))"

text \<open>Loops over all source indices that ask whether some classified source satisfies a test.\<close>

definition any_source :: "qstar_target \<Rightarrow> (qstar_source_info \<Rightarrow> bool) \<Rightarrow> bool" where
  "any_source t P \<longleftrightarrow> list_ex (\<lambda>i. case qstar_target_source_classify t i of None \<Rightarrow> False | Some s \<Rightarrow> P s)
     [0..<length (t_sources t)]"

definition qstar_target_has_compile_provider :: "qstar_target \<Rightarrow> string \<Rightarrow> bool" where
  "qstar_target_has_compile_provider t provider \<longleftrightarrow>
     any_source t (\<lambda>s. qstar_source_requires_compile s \<and> si_provider s = provider)"

definition qstar_source_toolset_role :: "qstar_source_info option \<Rightarrow> string" where
  "qstar_source_toolset_role s = (case s of None \<Rightarrow> '''' | Some i \<Rightarrow> si_toolset_role i)"

definition qstar_target_rule_lookup :: "string \<Rightarrow> qstar_target_rule_info option" where
  "qstar_target_rule_lookup kind = find_key ru_kind kind target_rules"

definition qstar_target_final_action :: "qstar_target \<Rightarrow> string" where
  "qstar_target_final_action t =
     (case qstar_target_rule_lookup (t_kind t) of None \<Rightarrow> ''materialize'' | Some r \<Rightarrow> ru_final_action r)"

definition qstar_target_output_group :: "qstar_target \<Rightarrow> string" where
  "qstar_target_output_group t =
     (case qstar_target_rule_lookup (t_kind t) of None \<Rightarrow> ''generic'' | Some r \<Rightarrow> ru_output_group r)"

definition qstar_target_has_executable_artifact :: "qstar_target \<Rightarrow> bool" where
  "qstar_target_has_executable_artifact t =
     (case qstar_target_rule_lookup (t_kind t) of None \<Rightarrow> False | Some r \<Rightarrow> ru_executable_artifact r)"

definition qstar_target_is_installable :: "qstar_target \<Rightarrow> bool" where
  "qstar_target_is_installable t =
     (case qstar_target_rule_lookup (t_kind t) of None \<Rightarrow> False | Some r \<Rightarrow> ru_installable_artifact r)"

section \<open>Action descriptions\<close>

definition description_compile_language :: "qstar_source_info option \<Rightarrow> string" where
  "description_compile_language s = (case s of None \<Rightarrow> ''''
    | Some i \<Rightarrow>
        if si_language i = ''c'' then ''C''
        else if si_language i = ''cxx'' \<or> si_language i = ''cxx-module'' then ''CXX''
        else if si_language i = ''asm'' \<or> si_language i = ''asm-cpp'' then ''ASM''
        else '''')"

definition description_target_uses_cxx :: "qstar_target \<Rightarrow> bool" where
  "description_target_uses_cxx t \<longleftrightarrow>
     any_source t (\<lambda>s. si_language s = ''cxx'' \<or> si_language s = ''cxx-module'')"

definition description_format :: "nat \<Rightarrow> string \<Rightarrow> string option" where
  "description_format dstlen s = (if dstlen = 0 then None else put dstlen s)"

definition qstar_action_description_compile :: "qstar_source_info option \<Rightarrow> cstr \<Rightarrow> nat \<Rightarrow> string option" where
  "qstar_action_description_compile s output dstlen =
     (let language = description_compile_language s
      in if language \<noteq> [] then description_format dstlen
             (''Building '' @ language @ '' object '' @ str_or ''<object>'' output)
         else description_format dstlen (''Building object '' @ str_or ''<object>'' output))"

definition qstar_action_description_final :: "qstar_target \<Rightarrow> cstr \<Rightarrow> cstr \<Rightarrow> nat \<Rightarrow> string option" where
  "qstar_action_description_final t action artifact dstlen =
     (let language = (if description_target_uses_cxx t then ''CXX'' else ''C'');
          name = str_or ''<artifact>'' artifact;
          linking = (\<lambda>noun. description_format dstlen (''Linking '' @ language @ '' '' @ noun @ '' '' @ name))
      in if action = Some ''archive'' then linking ''static library''
         else if action = Some ''link-shared'' then linking ''shared library''
         else if action = Some ''compile-objects'' then description_format dstlen (''Collecting objects '' @ name)
         else linking ''executable'')"

definition qstar_action_description_generate :: "qstar_genrule option \<Rightarrow> nat \<Rightarrow> string option" where
  "qstar_action_description_generate g dstlen = (case g of
      None \<Rightarrow> description_format dstlen ''Generating <generated>''
    | Some r \<Rightarrow>
        if present (g_description r) then description_format dstlen (str_or_empty (g_description r))
        else let output = (case g_outputs r of [] \<Rightarrow> g_label r | out # _ \<Rightarrow> out)
             in if g_config_header r then description_format dstlen (''Configuring '' @ output)
                else description_format dstlen (''Generating '' @ output))"

definition qstar_action_description_run :: "qstar_target option \<Rightarrow> nat \<Rightarrow> string option" where
  "qstar_action_description_run t dstlen = (case t of
      None \<Rightarrow> description_format dstlen ''Running <run-target>''
    | Some r \<Rightarrow>
        if present (t_description r) then description_format dstlen (str_or_empty (t_description r))
        else description_format dstlen (''Running '' @ t_label r))"

definition qstar_action_description_stage :: "qstar_stage option \<Rightarrow> nat \<Rightarrow> string option" where
  "qstar_action_description_stage s dstlen = (case s of
      None \<Rightarrow> description_format dstlen ''Staging <stage>''
    | Some r \<Rightarrow>
        if present (st_description r) then description_format dstlen (str_or_empty (st_description r))
        else description_format dstlen (''Staging '' @ st_label r))"

section \<open>The suffix table\<close>

text \<open>The extension of a path: from its last dot on.\<close>

definition extension :: "string \<Rightarrow> string option" where
  "extension path = map_option (\<lambda>(_, e). CHR ''.'' # e) (strrchr CHR ''.'' path)"

lemma ends_with_extension:
  assumes "CHR ''.'' \<notin> set e"
  shows "ends_with (CHR ''.'' # e) path \<longleftrightarrow> extension path = Some (CHR ''.'' # e)"
  using assms by (auto simp: ends_with_iff extension_def strrchr_Some)

definition simple_suffix :: "string \<Rightarrow> bool" where
  "simple_suffix s \<longleftrightarrow> take 1 s = ''.'' \<and> CHR ''.'' \<notin> set (drop 1 s)"

lemma source_rule_for_map_of:
  assumes "list_all (\<lambda>(suffix, _). simple_suffix suffix) rs"
  shows "source_rule_for path rs = Option.bind (extension path) (map_of rs)"
  using assms
proof (induction rs)
  case Nil
  then show ?case by (cases "extension path") auto
next
  case (Cons r rs)
  obtain suffix info where r: "r = (suffix, info)" by force
  then obtain e where e: "suffix = CHR ''.'' # e" "CHR ''.'' \<notin> set e"
    using Cons.prems by (cases suffix) (auto simp: simple_suffix_def)
  show ?case
    using Cons r ends_with_extension [OF e(2), of path] e(1)
    by (cases "extension path") auto
qed

lemma source_rules_simple: "list_all (\<lambda>(suffix, _). simple_suffix suffix) source_rules"
  by code_simp

lemma source_rules_distinct: "distinct (map fst source_rules)"
  by code_simp

text \<open>
  The suffix table is unambiguous: which rule classifies a path depends only on the path's text
  from its last dot on, so neither the order of the table nor anything before that dot can change
  the language of a source.
\<close>

theorem source_kind_by_extension:
  "qstar_source_kind_lookup_path path = Option.bind (extension path) (map_of source_rules)"
  unfolding qstar_source_kind_lookup_path_def
  by (rule source_rule_for_map_of [OF source_rules_simple])

text \<open>The shape of every classification, from the tables and the provider units.\<close>

definition info_ok :: "qstar_source_info \<Rightarrow> bool" where
  "info_ok s \<longleftrightarrow> \<not> (si_compile_input s \<and> si_header_input s) \<and>
     (si_compile_input s \<longrightarrow> si_provider_role s = ''compiler'' \<and> si_output_group s = ''objects'') \<and>
     (si_header_input s \<longrightarrow> si_output_group s = ''headers'' \<and> si_toolset_role s = '''')"

lemma source_rules_ok: "list_all (\<lambda>(_, info). info_ok info) source_rules"
  by code_simp

lemma source_rule_for_mem: "source_rule_for path rs = Some info \<Longrightarrow> info \<in> snd ` set rs"
  by (induction rs) (auto split: if_splits)

lemma classify_info_ok: "info_ok (snd (qstar_source_classify path))"
proof (cases "qstar_source_kind_lookup_path path")
  case None
  then show ?thesis by (simp add: qstar_source_classify_def info_ok_def)
next
  case (Some r)
  then have "info_ok r"
    using source_rule_for_mem [of path source_rules r] source_rules_ok
    by (auto simp: qstar_source_kind_lookup_path_def list_all_iff)
  with Some show ?thesis by (simp add: qstar_source_classify_def info_ok_def)
qed

text \<open>
  Every classified source of a target, built in or owned by a provider, is a compile input, a
  header or neither but never both; a compile input has a compiler role and its output is an
  object, and a header needs no tool.
\<close>

theorem target_source_classify_ok:
  assumes "qstar_target_source_classify t i = Some s"
  shows "info_ok s \<and> i < length (t_sources t)"
proof (cases "qstar_target_provider_source_unit t i")
  case None
  then show ?thesis
    using assms classify_info_ok [of "t_sources t ! i"]
    by (auto simp: qstar_target_source_classify_def split: if_splits prod.splits)
next
  case (Some u)
  then show ?thesis
    using assms
    by (auto simp: qstar_target_source_classify_def provider_source_info_def info_ok_def split: if_splits)
qed

theorem target_source_classify_ok_witness:
  "\<exists>s. qstar_target_source_classify (zero_qstar_target\<lparr>t_sources := [''a.h'', ''b.cpp'']\<rparr>) 1 = Some s
     \<and> info_ok s \<and> (1::nat) < 2"
proof -
  let ?t = "zero_qstar_target\<lparr>t_sources := [''a.h'', ''b.cpp'']\<rparr>"
  have "qstar_target_source_classify ?t 1 = Some
      ((rule_info ''cxx'' ''cxx-compiler'' ''cxx'' ''compiler'' ''cxx.compiler'' ''objects'' True False)
       \<lparr>si_path := ''b.cpp''\<rparr>)"
    by (simp add: qstar_target_source_classify_def qstar_target_provider_source_unit_def zero_defs
        qstar_source_classify_def qstar_source_kind_lookup_path_def source_rules_def ends_with_def)
  then show ?thesis using target_source_classify_ok [of ?t 1] by auto
qed

lemma any_source_iff:
  "any_source t P \<longleftrightarrow> (\<exists>i s. qstar_target_source_classify t i = Some s \<and> P s)"
proof
  assume "any_source t P"
  then show "\<exists>i s. qstar_target_source_classify t i = Some s \<and> P s"
    by (auto simp: any_source_def list_ex_iff split: option.splits)
next
  assume "\<exists>i s. qstar_target_source_classify t i = Some s \<and> P s"
  then obtain i s where "qstar_target_source_classify t i = Some s" "P s" by blast
  moreover from this have "i < length (t_sources t)"
    by (auto simp: qstar_target_source_classify_def split: if_splits)
  ultimately show "any_source t P"
    by (auto simp: any_source_def list_ex_iff intro!: bexI [of _ i])
qed

lemma target_rules_distinct: "distinct (map ru_kind target_rules)"
  by code_simp

end
