(* ===== verification/QGraph.thy ===== *)
theory QGraph
  imports QPath QRule
begin

text \<open>
  \<^verbatim>\<open>src/graph.c\<close>: the error buffer of the graph, project metadata and directories, command-line
  overrides, the platform context, and the look-ups of every registry. The lemmas show that only
  the first error is kept and that the effective directories never leave the package.
\<close>

section \<open>The error buffer\<close>

text \<open>
  Only the first error is recorded: a later call finds \<open>error\<close> non-empty and returns. The buffers
  have 512, 4096, 64 and 4096 bytes. Every call passes a text that does not start with NUL.
\<close>

definition qstar_set_error :: "qstar_graph \<Rightarrow> string \<Rightarrow> qstar_graph" where
  "qstar_set_error g msg =
     (if gr_error g \<noteq> [] then g else g\<lparr>gr_error := trunc_buf 512 msg\<rparr>)"

definition qstar_set_error_origin ::
  "qstar_graph \<Rightarrow> string \<Rightarrow> int \<Rightarrow> string \<Rightarrow> string \<Rightarrow> string \<Rightarrow> qstar_graph" where
  "qstar_set_error_origin g file line field label msg =
     (if gr_error g \<noteq> [] then g
      else g\<lparr>gr_error := trunc_buf 512 msg,
             gr_error_file := (if file \<noteq> [] then trunc_buf PATH_MAX file else gr_error_file g),
             gr_error_field := (if field \<noteq> [] then trunc_buf 64 field else gr_error_field g),
             gr_error_label := (if label \<noteq> [] then trunc_buf PATH_MAX label else gr_error_label g),
             gr_error_line := line\<rparr>)"

fun record_error :: "qstar_graph \<Rightarrow> qerr \<Rightarrow> qstar_graph" where
  "record_error g (Plain msg) = qstar_set_error g msg"
| "record_error g (Origin file line field label msg) = qstar_set_error_origin g file line field label msg"
| "record_error g WildRead = g"

text \<open>What a caller of a failing operation is left with, and the graph after a succeeding one.\<close>

fun commit :: "qstar_graph \<Rightarrow> (qerr + qstar_graph) \<Rightarrow> bool \<times> qstar_graph" where
  "commit g (Inl e) = (False, record_error g e)"
| "commit g (Inr g') = (True, g')"

definition errors :: "qstar_graph \<Rightarrow> string \<times> string \<times> string \<times> string \<times> int" where
  "errors g = (gr_error g, gr_error_file g, gr_error_field g, gr_error_label g, gr_error_line g)"

lemma record_error_sticky: "gr_error g \<noteq> [] \<Longrightarrow> record_error g e = g"
  by (cases e) (simp_all add: qstar_set_error_def qstar_set_error_origin_def)

lemma record_error_set: "emsg e \<noteq> [] \<Longrightarrow> gr_error (record_error g e) \<noteq> []"
  by (cases e) (auto simp: qstar_set_error_def qstar_set_error_origin_def trunc_buf_def)

lemma trunc_buf_length: "0 < n \<Longrightarrow> length (trunc_buf n s) < n"
  by (auto simp: trunc_buf_def)

text \<open>
  The first error wins and fits its buffer. However many errors are reported one after another
  on a graph with no error yet, the message, file, field, label and line kept are those of the first
  one, and the message never exceeds 511 bytes.
\<close>

theorem first_error_wins:
  assumes "gr_error g = []" and "list_all (\<lambda>e. emsg e \<noteq> []) (e # es)"
  shows "errors (fold (\<lambda>e g. record_error g e) (e # es) g) = errors (record_error g e)
    \<and> gr_error (record_error g e) = take 511 (emsg e)"
proof -
  have "fold (\<lambda>e g. record_error g e) es h = h" if "gr_error h \<noteq> []" for h
    using that by (induction es) (simp_all add: record_error_sticky)
  moreover have "gr_error (record_error g e) \<noteq> []"
    using assms(2) by (simp add: record_error_set)
  ultimately show ?thesis
    using assms(1) by (cases e) (simp_all add: qstar_set_error_def qstar_set_error_origin_def trunc_buf_def)
qed

theorem first_error_wins_witness:
  "errors (fold (\<lambda>e g. record_error g e)
     [Origin ''a/qstar.lua'' 3 ''deps'' ''//a:x'' ''first'', Plain ''second''] zero_qstar_graph)
   = errors (record_error zero_qstar_graph (Origin ''a/qstar.lua'' 3 ''deps'' ''//a:x'' ''first''))
   \<and> gr_error (record_error zero_qstar_graph (Origin ''a/qstar.lua'' 3 ''deps'' ''//a:x'' ''first''))
     = take 511 (emsg (Origin ''a/qstar.lua'' 3 ''deps'' ''//a:x'' ''first''))"
  by (rule first_error_wins) (simp_all add: zero_defs)

section \<open>Directories of the project\<close>

definition qstar_graph_init :: qstar_graph where
  "qstar_graph_init = zero_qstar_graph"

definition qstar_graph_clear_cached_actions :: "qstar_graph \<Rightarrow> qstar_graph" where
  "qstar_graph_clear_cached_actions g = g\<lparr>gr_cached_actions := [], gr_cached_action_plan_loaded := False\<rparr>"

definition qstar_graph_add_cached_action :: "qstar_graph \<Rightarrow> qstar_graph" where
  "qstar_graph_add_cached_action g = g\<lparr>gr_cached_actions := gr_cached_actions g @ [zero_qstar_cached_action]\<rparr>"

definition qstar_graph_set_package_root :: "qstar_graph \<Rightarrow> cstr \<Rightarrow> qstar_graph" where
  "qstar_graph_set_package_root g root = g\<lparr>gr_package_root := Some (nonempty_or ''.'' root)\<rparr>"

definition qstar_graph_build_dir :: "qstar_graph \<Rightarrow> string" where
  "qstar_graph_build_dir g =
     (if present (gr_build_dir_override g) then str_or_empty (gr_build_dir_override g)
      else nonempty_or ''build/qstar'' (pj_build_dir (gr_project g)))"

definition qstar_graph_generated_dir :: "qstar_graph \<Rightarrow> string" where
  "qstar_graph_generated_dir g = nonempty_or ''generated'' (pj_generated_dir (gr_project g))"

text \<open>\<open>path[n + 1] != 0\<close> is read only after \<open>path[n] == '/'\<close>, so the access is in bounds.\<close>

definition qstar_graph_path_is_generated :: "qstar_graph \<Rightarrow> cstr \<Rightarrow> bool" where
  "qstar_graph_path_is_generated g path =
     (case path of None \<Rightarrow> False | Some p \<Rightarrow>
        p \<noteq> [] \<and>
        (let root = qstar_graph_generated_dir g
         in starts_with root p \<and> take 1 (drop (length root) p) = ''/'' \<and> drop (length root + 1) p \<noteq> []))"

definition qstar_graph_generator :: "qstar_graph \<Rightarrow> string" where
  "qstar_graph_generator g = nonempty_or ''stella'' (gr_generator g)"

definition qstar_graph_requested_generator :: "qstar_graph \<Rightarrow> string" where
  "qstar_graph_requested_generator g = nonempty_or ''auto'' (gr_requested_generator g)"

definition qstar_graph_compile_commands_policy :: "qstar_graph \<Rightarrow> string" where
  "qstar_graph_compile_commands_policy g = nonempty_or ''build'' (pj_compile_commands (gr_project g))"

definition qstar_graph_build_path :: "qstar_graph \<Rightarrow> cstr \<Rightarrow> nat \<Rightarrow> string option" where
  "qstar_graph_build_path g sub dstlen =
     (if \<not> present sub then put dstlen (qstar_graph_build_dir g)
      else put dstlen (qstar_graph_build_dir g @ ''/'' @ str_or_empty sub))"

definition valid_generator :: "cstr \<Rightarrow> bool" where
  "valid_generator generator \<longleftrightarrow>
     \<not> present generator \<or> str_or_empty generator \<in> set [''stella'', ''ninja'', ''auto'']"

definition qstar_graph_set_cli_overrides :: "qstar_graph \<Rightarrow> cstr \<Rightarrow> cstr \<Rightarrow> qerr + qstar_graph" where
  "qstar_graph_set_cli_overrides g generator build_dir =
     (if \<not> valid_generator generator then
        Inl (Plain (''qstar: invalid generator '' @ sq (str_or_empty generator) @
                    ''; expected stella, ninja, or auto''))
      else if present build_dir \<and> \<not> valid_project_relative build_dir then
        Inl (Plain ''qstar: CLI build directory override must be package-relative'')
      else
        let requested = nonempty_or ''auto'' generator;
            effective = (if requested = ''auto'' then ''stella'' else requested)
        in Inr (g\<lparr>gr_requested_generator := Some requested, gr_generator := Some effective,
                  gr_build_dir_override := (if present build_dir then build_dir else None)\<rparr>))"

definition qstar_graph_set_project ::
  "qstar_graph \<Rightarrow> cstr \<Rightarrow> cstr \<Rightarrow> cstr \<Rightarrow> cstr \<Rightarrow> cstr \<Rightarrow> cstr \<Rightarrow> cstr \<Rightarrow> qerr + qstar_graph" where
  "qstar_graph_set_project g name version root build_dir generated_dir compile_commands action_cache =
     (let eff_build = nonempty_or ''build/qstar'' build_dir;
          eff_gen = nonempty_or ''generated'' generated_dir;
          eff_compile = nonempty_or ''build'' compile_commands;
          eff_cache = nonempty_or ''off'' action_cache
      in if pj_present (gr_project g) then Inl (Plain ''qstar: qstar.project already declared'')
         else if present root \<and> root \<noteq> Some ''.'' then
           Inl (Plain (''qstar: qstar.project root must be '' @ [DQ] @ ''.'' @ [DQ] @ '' in v1''))
         else if \<not> valid_project_relative (Some eff_build) then
           Inl (Plain ''qstar: qstar.project build_dir must be package-relative'')
         else if \<not> valid_project_relative (Some eff_gen) then
           Inl (Plain ''qstar: qstar.project generated_dir must be package-relative'')
         else if eff_gen = ''.'' \<or> last eff_gen = CHR ''/'' then
           Inl (Plain ''qstar: qstar.project generated_dir must name a directory without a trailing slash'')
         else if eff_compile \<notin> set [''build'', ''root'', ''off''] then
           Inl (Plain (''qstar: qstar.project compile_commands must be '' @ [DQ] @ ''root'' @ [DQ] @ '', '' @
                       [DQ] @ ''build'' @ [DQ] @ '', or '' @ [DQ] @ ''off'' @ [DQ]))
         else if eff_cache \<notin> set [''off'', ''local''] then
           Inl (Plain (''qstar: qstar.project action_cache must be '' @ [DQ] @ ''off'' @ [DQ] @ '' or '' @
                       [DQ] @ ''local'' @ [DQ]))
         else Inr (g\<lparr>gr_project := \<lparr>pj_present = True, pj_name = Some (str_or [] name),
                pj_version = Some (str_or [] version), pj_root = Some (nonempty_or ''.'' root),
                pj_build_dir = Some eff_build, pj_generated_dir = Some eff_gen,
                pj_compile_commands = Some eff_compile, pj_action_cache = Some eff_cache\<rparr>\<rparr>))"

text \<open>The directories recorded in a graph are absent, empty or accepted by the path check.\<close>

definition dirs_ok :: "qstar_graph \<Rightarrow> bool" where
  "dirs_ok g \<longleftrightarrow>
     (present (gr_build_dir_override g) \<longrightarrow> valid_project_relative (gr_build_dir_override g)) \<and>
     (present (pj_build_dir (gr_project g)) \<longrightarrow> valid_project_relative (pj_build_dir (gr_project g))) \<and>
     (present (pj_generated_dir (gr_project g)) \<longrightarrow>
        valid_project_relative (pj_generated_dir (gr_project g)) \<and>
        last (str_or_empty (pj_generated_dir (gr_project g))) \<noteq> CHR ''/'')"

lemma dirs_ok_init: "dirs_ok qstar_graph_init"
  by (simp add: dirs_ok_def qstar_graph_init_def zero_defs)

lemma dirs_ok_set_cli_overrides:
  "dirs_ok g \<Longrightarrow> qstar_graph_set_cli_overrides g generator bd = Inr g' \<Longrightarrow> dirs_ok g'"
  by (auto simp: qstar_graph_set_cli_overrides_def dirs_ok_def Let_def split: if_splits)

lemma set_project_Inr:
  assumes "qstar_graph_set_project g n v r bd gd cc ac = Inr g'"
  shows "valid_project_relative (pj_build_dir (gr_project g'))"
    "valid_project_relative (pj_generated_dir (gr_project g'))"
    "last (str_or_empty (pj_generated_dir (gr_project g'))) \<noteq> CHR ''/''"
    "gr_build_dir_override g' = gr_build_dir_override g" "gr_generator g' = gr_generator g"
  using assms unfolding qstar_graph_set_project_def Let_def
  by (simp_all split: if_split_asm del: list.set) auto

lemma dirs_ok_set_project:
  "dirs_ok g \<Longrightarrow> qstar_graph_set_project g n v r bd gd cc ac = Inr g' \<Longrightarrow> dirs_ok g'"
  using set_project_Inr [of g n v r bd gd cc ac g'] by (simp add: dirs_ok_def)

lemma present_nonempty_or: "present s \<Longrightarrow> nonempty_or d s = str_or_empty s"
  by (cases s) auto

lemma not_present_nonempty_or: "\<not> present s \<Longrightarrow> nonempty_or d s = d"
  by (cases s) auto

lemma default_dirs:
  "qstar_path_is_package_relative ''build/qstar''" "qstar_path_is_package_relative ''generated''"
  by code_simp+

lemma dirs_ok_build_dir: "dirs_ok g \<Longrightarrow> qstar_path_is_package_relative (qstar_graph_build_dir g)"
  by (cases "present (pj_build_dir (gr_project g))")
     (auto simp: dirs_ok_def qstar_graph_build_dir_def valid_project_relative_def default_dirs
        present_nonempty_or not_present_nonempty_or)

lemma dirs_ok_generated_dir: "dirs_ok g \<Longrightarrow> qstar_path_is_package_relative (qstar_graph_generated_dir g)"
  by (cases "present (pj_generated_dir (gr_project g))")
     (auto simp: dirs_ok_def qstar_graph_generated_dir_def valid_project_relative_def default_dirs
        present_nonempty_or not_present_nonempty_or)

text \<open>
  Whatever the command line and \<open>qstar.project\<close> ask for, in this order as the program runs
  them, the effective build and generated directories are package-relative, the command line wins
  for the build directory, and the generator is \<open>stella\<close> or \<open>ninja\<close>.
\<close>

theorem effective_dirs_package_relative:
  assumes "qstar_graph_set_cli_overrides qstar_graph_init generator bd = Inr g"
    and "qstar_graph_set_project g n v r pbd pgd cc ac = Inr g'"
  shows "qstar_path_is_package_relative (qstar_graph_build_dir g')
    \<and> qstar_path_is_package_relative (qstar_graph_generated_dir g')
    \<and> (present bd \<longrightarrow> qstar_graph_build_dir g' = str_or_empty bd)
    \<and> qstar_graph_generator g' \<in> {''stella'', ''ninja''}"
proof -
  have "dirs_ok g'"
    using assms dirs_ok_init dirs_ok_set_cli_overrides dirs_ok_set_project by blast
  moreover have "gr_build_dir_override g' = gr_build_dir_override g \<and> gr_generator g' = gr_generator g"
    using set_project_Inr(4,5) [OF assms(2)] by simp
  moreover have "(present bd \<longrightarrow> gr_build_dir_override g = bd) \<and>
      (gr_generator g = Some ''stella'' \<or> gr_generator g = Some ''ninja'')"
    using assms(1)
    by (cases "present generator")
       (auto simp: qstar_graph_set_cli_overrides_def valid_generator_def Let_def
          present_nonempty_or not_present_nonempty_or split: if_splits)
  ultimately show ?thesis
    using dirs_ok_build_dir [of g'] dirs_ok_generated_dir [of g']
    by (auto simp: qstar_graph_generator_def qstar_graph_build_dir_def [of g'])
qed

theorem effective_dirs_package_relative_witness:
  "\<exists>g. qstar_path_is_package_relative (qstar_graph_build_dir g)
    \<and> qstar_path_is_package_relative (qstar_graph_generated_dir g)
    \<and> (present (Some ''out'') \<longrightarrow> qstar_graph_build_dir g = str_or_empty (Some ''out''))
    \<and> qstar_graph_generator g \<in> {''stella'', ''ninja''}"
proof -
  have valid: "valid_project_relative (Some ''out'')" "valid_project_relative (Some ''b'')"
    "valid_project_relative (Some ''generated'')"
    by code_simp+
  obtain g where g: "qstar_graph_set_cli_overrides qstar_graph_init (Some ''ninja'') (Some ''out'') = Inr g"
      "gr_project g = zero_qstar_project"
    using valid by (simp add: qstar_graph_set_cli_overrides_def valid_generator_def
        qstar_graph_init_def zero_defs Let_def)
  moreover obtain g' where
      "qstar_graph_set_project g (Some ''p'') None None (Some ''b'') None None None = Inr g'"
    using valid g(2) by (simp add: qstar_graph_set_project_def zero_defs)
  ultimately show ?thesis
    using effective_dirs_package_relative [of "Some ''ninja''" "Some ''out''" g] by blast
qed

lemma path_is_generated_iff:
  "qstar_graph_path_is_generated g (Some p) \<longleftrightarrow>
   (\<exists>rest. rest \<noteq> [] \<and> p = qstar_graph_generated_dir g @ CHR ''/'' # rest)"
proof -
  define root where "root = qstar_graph_generated_dir g"
  have "(starts_with root p \<and> take 1 (drop (length root) p) = ''/'' \<and> drop (length root + 1) p \<noteq> []) \<longleftrightarrow>
      (\<exists>rest. rest \<noteq> [] \<and> p = root @ CHR ''/'' # rest)"
  proof (cases "starts_with root p")
    case True
    then obtain r where "p = root @ r" by (auto simp: starts_with_iff)
    then show ?thesis by (cases r) auto
  next
    case False
    then show ?thesis by (auto simp: starts_with_iff)
  qed
  then show ?thesis by (auto simp: qstar_graph_path_is_generated_def root_def)
qed

section \<open>Platform context\<close>

definition canonical_platform_context :: "cstr \<Rightarrow> cstr" where
  "canonical_platform_context platform =
     (if \<not> present platform \<or> platform = Some ''default'' then None
      else if platform = Some ''host'' then Some ''host''
      else if platform = Some ''windows'' \<or> platform = Some ''win32'' then Some ''windows''
      else if platform = Some ''darwin'' \<or> platform = Some ''macos'' then Some ''darwin''
      else if platform = Some ''linux'' then Some ''linux''
      else if platform = Some ''generic'' then Some ''generic''
      else None)"

definition qstar_graph_set_platform_context :: "qstar_graph \<Rightarrow> cstr \<Rightarrow> qerr + qstar_graph" where
  "qstar_graph_set_platform_context g platform = (case platform of
      None \<Rightarrow> Inr g
    | Some p \<Rightarrow> (case canonical_platform_context platform of
          None \<Rightarrow> Inl (Plain (''qstar: invalid platform context '' @ sq p @
                     ''; expected host, windows, darwin, linux, or generic''))
        | Some c \<Rightarrow> Inr (g\<lparr>gr_platform := Some c\<rparr>)))"

text \<open>\<open>host\<close> is what \<open>qstar_host_platform\<close> returns on the machine, a compile-time constant.\<close>

definition qstar_graph_platform :: "string \<Rightarrow> qstar_graph \<Rightarrow> string" where
  "qstar_graph_platform host g = nonempty_or host (gr_platform g)"

lemma canonical_platform_context_idem:
  "canonical_platform_context p = Some c \<Longrightarrow> canonical_platform_context (Some c) = Some c"
  by (auto simp: canonical_platform_context_def split: if_splits)

section \<open>Look-ups\<close>

definition has_target :: "qstar_graph \<Rightarrow> string \<Rightarrow> bool" where
  "has_target g label \<longleftrightarrow> list_ex (\<lambda>t. t_label t = label) (gr_targets g)"

definition has_genrule :: "qstar_graph \<Rightarrow> string \<Rightarrow> bool" where
  "has_genrule g label \<longleftrightarrow> list_ex (\<lambda>r. g_label r = label) (gr_genrules g)"

definition has_stage :: "qstar_graph \<Rightarrow> string \<Rightarrow> bool" where
  "has_stage g label \<longleftrightarrow> list_ex (\<lambda>s. st_label s = label) (gr_stages g)"

definition has_config :: "qstar_graph \<Rightarrow> string \<Rightarrow> bool" where
  "has_config g label \<longleftrightarrow> list_ex (\<lambda>c. cf_label c = label) (gr_configs g)"

definition qstar_graph_find_toolset :: "qstar_graph \<Rightarrow> cstr \<Rightarrow> qstar_toolset option" where
  "qstar_graph_find_toolset g label =
     (if present label then find_key ts_label (str_or_empty label) (gr_toolsets g) else None)"

definition has_toolset :: "qstar_graph \<Rightarrow> string \<Rightarrow> bool" where
  "has_toolset g label \<longleftrightarrow> qstar_graph_find_toolset g (Some label) \<noteq> None"

definition has_target_family :: "qstar_graph \<Rightarrow> string \<Rightarrow> bool" where
  "has_target_family g name \<longleftrightarrow> list_ex (\<lambda>f. fam_name f = name) (gr_families g)"

definition find_target :: "qstar_graph \<Rightarrow> string \<Rightarrow> qstar_target option" where
  "find_target g label = find_key t_label label (gr_targets g)"

definition find_config :: "qstar_graph \<Rightarrow> string \<Rightarrow> qstar_config option" where
  "find_config g label = find_key cf_label label (gr_configs g)"

definition qstar_graph_find_genrule :: "qstar_graph \<Rightarrow> string \<Rightarrow> qstar_genrule option" where
  "qstar_graph_find_genrule g label = find_key g_label label (gr_genrules g)"

definition qstar_graph_find_stage :: "qstar_graph \<Rightarrow> string \<Rightarrow> qstar_stage option" where
  "qstar_graph_find_stage g label = find_key st_label label (gr_stages g)"

definition qstar_graph_find_test_resource :: "qstar_graph \<Rightarrow> cstr \<Rightarrow> qstar_test_resource option" where
  "qstar_graph_find_test_resource g name =
     (case name of None \<Rightarrow> None | Some n \<Rightarrow> find_key tres_name n (gr_test_resources g))"

definition qstar_graph_find_language_provider :: "qstar_graph \<Rightarrow> cstr \<Rightarrow> qstar_language_provider option" where
  "qstar_graph_find_language_provider g ns =
     (if present ns then find_key lp_namespace (str_or_empty ns) (gr_language_providers g) else None)"

definition qstar_graph_find_language_provider_manifest ::
  "qstar_graph \<Rightarrow> cstr \<Rightarrow> qstar_language_provider option" where
  "qstar_graph_find_language_provider_manifest g manifest =
     (if present manifest then find_key lp_manifest (str_or_empty manifest) (gr_language_providers g)
      else None)"

definition qstar_graph_language_provider_is_available :: "qstar_graph \<Rightarrow> cstr \<Rightarrow> bool" where
  "qstar_graph_language_provider_is_available g ns \<longleftrightarrow>
     qstar_language_provider_is_preloaded ns \<or> qstar_graph_find_language_provider g ns \<noteq> None"

definition qstar_graph_find_package_alias :: "qstar_graph \<Rightarrow> string \<Rightarrow> qstar_package_alias option" where
  "qstar_graph_find_package_alias g alias = find_key al_alias alias (gr_packages g)"

text \<open>The first generated action one of whose outputs is \<open>path\<close>.\<close>

definition qstar_graph_find_output_owner :: "qstar_graph \<Rightarrow> string \<Rightarrow> qstar_genrule option" where
  "qstar_graph_find_output_owner g path =
     List.find (\<lambda>r. list_ex (\<lambda>out. out = path) (g_outputs r)) (gr_genrules g)"

lemma find_key_None_ex: "find_key key k xs = None \<longleftrightarrow> \<not> list_ex (\<lambda>x. key x = k) xs"
  by (auto simp: find_key_None list_ex_iff)

lemma has_iff_label [simp]:
  "has_target g l \<longleftrightarrow> l \<in> t_label ` set (gr_targets g)"
  "has_genrule g l \<longleftrightarrow> l \<in> g_label ` set (gr_genrules g)"
  "has_stage g l \<longleftrightarrow> l \<in> st_label ` set (gr_stages g)"
  "has_config g l \<longleftrightarrow> l \<in> cf_label ` set (gr_configs g)"
  "has_target_family g l \<longleftrightarrow> l \<in> fam_name ` set (gr_families g)"
  by (auto simp: has_target_def has_genrule_def has_stage_def has_config_def has_target_family_def
      list_ex_iff)

lemma has_toolset_iff [simp]: "l \<noteq> [] \<Longrightarrow> has_toolset g l \<longleftrightarrow> l \<in> ts_label ` set (gr_toolsets g)"
  using find_key_None [of ts_label l "gr_toolsets g"]
  by (auto simp: has_toolset_def qstar_graph_find_toolset_def)

end
