(* ===== verification/QRegistry.thy ===== *)
theory QRegistry
  imports QGraph
begin

text \<open>
  \<^verbatim>\<open>src/graph.c\<close>: the operations that add declarations to the graph, and what every keyed registry of
  the graph promises. The locale \<open>keyed_registry\<close> states the contract of an add operation with its
  look-up; it is interpreted for targets, configs, toolsets, generated actions, stages, families,
  test resources and package aliases. Targets, configs, toolsets, generated actions and stages also
  share one label space, which every sequence of declarations keeps free of duplicates.
\<close>

section \<open>The contract of a registry\<close>

text \<open>
  \<open>entries\<close> are the elements in declaration order, \<open>key\<close> their name, \<open>find\<close> the look-up and \<open>add\<close>
  the operation with its arguments; \<open>made\<close> is the element built from the arguments. Names are
  non-empty: look-ups of some registries treat the empty name as absent.
\<close>

locale keyed_registry =
  fixes entries :: "'g \<Rightarrow> 'e list"
    and key :: "'e \<Rightarrow> string"
    and find :: "'g \<Rightarrow> string \<Rightarrow> 'e option"
    and add :: "'a \<Rightarrow> 'g \<Rightarrow> qerr + 'g"
    and made :: "'a \<Rightarrow> 'e"
  assumes find_entries: "k \<noteq> [] \<Longrightarrow> find g k = find_key key k (entries g)"
    and add_appends: "add a g = Inr g' \<Longrightarrow> entries g' = entries g @ [made a]"
    and add_duplicate: "key (made a) \<noteq> [] \<Longrightarrow> key (made a) \<in> key ` set (entries g) \<Longrightarrow> \<exists>e. add a g = Inl e"
begin

definition reg_inv :: "'g \<Rightarrow> bool" where
  "reg_inv g \<longleftrightarrow> distinct (map key (entries g)) \<and> [] \<notin> key ` set (entries g)"

lemma add_fresh:
  "add a g = Inr g' \<Longrightarrow> key (made a) \<noteq> [] \<Longrightarrow> key (made a) \<notin> key ` set (entries g)"
  using add_duplicate [of a g] by auto

lemma add_inv: "reg_inv g \<Longrightarrow> key (made a) \<noteq> [] \<Longrightarrow> add a g = Inr g' \<Longrightarrow> reg_inv g'"
  using add_fresh [of a g g'] add_appends [of a g g'] by (auto simp: reg_inv_def)

lemma find_added: "key (made a) \<noteq> [] \<Longrightarrow> add a g = Inr g' \<Longrightarrow> find g' (key (made a)) = Some (made a)"
  using add_fresh [of a g g'] find_key_None [of key "key (made a)" "entries g"]
  by (simp add: find_entries add_appends find_key_append)

lemma find_kept: "add a g = Inr g' \<Longrightarrow> k \<noteq> [] \<Longrightarrow> find g k = Some e \<Longrightarrow> find g' k = Some e"
  by (simp add: find_entries add_appends find_key_append)

lemma find_other: "add a g = Inr g' \<Longrightarrow> k \<noteq> [] \<Longrightarrow> k \<noteq> key (made a) \<Longrightarrow> find g' k = find g k"
  by (simp add: find_entries add_appends find_key_append split: option.splits)

lemma find_member: "reg_inv g \<Longrightarrow> e \<in> set (entries g) \<Longrightarrow> find g (key e) = Some e"
  using find_key_distinct [of key "entries g" e] find_entries [of "key e" g]
  by (auto simp: reg_inv_def image_iff)

lemma add_again: "key (made a) \<noteq> [] \<Longrightarrow> add a g = Inr g' \<Longrightarrow> key (made b) = key (made a) \<Longrightarrow>
    \<exists>e. add b g' = Inl e"
  using add_appends [of a g g'] add_duplicate [of b g'] by simp

end

section \<open>Targets, configs, toolsets, generated actions, stages\<close>

text \<open>A declaration's label, name, fragment directory, file and line.\<close>

record decl =
  d_label :: string
  d_name :: string
  d_fragment_dir :: cstr
  d_origin_file :: cstr
  d_origin_line :: int

definition new_target :: "decl \<Rightarrow> string \<Rightarrow> qstar_target" where
  "new_target d kind = zero_qstar_target
    \<lparr>t_label := d_label d, t_name := d_name d, t_kind := kind,
     t_fragment_dir := str_or_empty (d_fragment_dir d), t_origin_file := str_or_empty (d_origin_file d),
     t_origin_line := d_origin_line d, t_artifact_name := Some [], t_imported_artifact_kind := Some [],
     t_tool_path := [], t_compile_context := Some ''own'', t_cxx_standard := Some [],
     t_cxx_precompiled_header := Some [], t_cxx_unity_batch_size := 8, t_cacheable := True,
     t_run_expect_contains := Some [], t_run_expect_file := Some [], t_description := Some [],
     t_test_skip_reason := Some [], t_toolset := Some []\<rparr>"

definition qstar_graph_add_target :: "decl \<times> string \<Rightarrow> qstar_graph \<Rightarrow> qerr + qstar_graph" where
  "qstar_graph_add_target = (\<lambda>(d, kind) g.
     let used = (\<lambda>by. Inl (Plain (''qstar: label '' @ sq (d_label d) @ '' is already used by '' @ by)))
     in if has_target g (d_label d) then
          Inl (Plain (''qstar: duplicate target label '' @ sq (d_label d)))
        else if has_genrule g (d_label d) then used ''generated action''
        else if has_stage g (d_label d) then used ''stage rule''
        else if has_config g (d_label d) then used ''config''
        else if has_toolset g (d_label d) then used ''toolset''
        else Inr (g\<lparr>gr_targets := gr_targets g @ [new_target d kind]\<rparr>))"

text \<open>The four other declarations word their label conflicts alike.\<close>

definition conflict :: "string \<Rightarrow> string \<Rightarrow> string \<Rightarrow> qerr + 'b" where
  "conflict what label by = Inl (Plain (''qstar: '' @ what @ '' label '' @ sq label @ '' conflicts with '' @ by))"

definition duplicate_label :: "string \<Rightarrow> string \<Rightarrow> qerr + 'b" where
  "duplicate_label what label = Inl (Plain (''qstar: duplicate '' @ what @ '' label '' @ sq label))"

definition new_config :: "decl \<Rightarrow> qstar_config" where
  "new_config d = zero_qstar_config
    \<lparr>cf_label := d_label d, cf_name := d_name d, cf_fragment_dir := str_or_empty (d_fragment_dir d),
     cf_origin_file := str_or_empty (d_origin_file d), cf_origin_line := d_origin_line d,
     cf_options := zero_qstar_target
       \<lparr>t_label := d_label d, t_name := d_name d, t_kind := ''config'',
        t_fragment_dir := str_or_empty (d_fragment_dir d), t_origin_file := str_or_empty (d_origin_file d),
        t_origin_line := d_origin_line d\<rparr>\<rparr>"

definition qstar_graph_add_config :: "decl \<Rightarrow> qstar_graph \<Rightarrow> qerr + qstar_graph" where
  "qstar_graph_add_config d g =
     (let l = d_label d
      in if has_target g l then conflict ''config'' l ''target''
         else if has_genrule g l then conflict ''config'' l ''generated action''
         else if has_stage g l then conflict ''config'' l ''stage rule''
         else if has_config g l then duplicate_label ''config'' l
         else if has_toolset g l then conflict ''config'' l ''toolset''
         else Inr (g\<lparr>gr_configs := gr_configs g @ [new_config d]\<rparr>))"

definition new_toolset :: "decl \<Rightarrow> qstar_toolset" where
  "new_toolset d = zero_qstar_toolset
    \<lparr>ts_label := d_label d, ts_name := d_name d, ts_fragment_dir := str_or_empty (d_fragment_dir d),
     ts_origin_file := str_or_empty (d_origin_file d), ts_origin_line := d_origin_line d,
     ts_response_files := Some ''auto'', ts_response_style := Some ''auto'',
     ts_allow_absolute_tools := Some ''false''\<rparr>"

definition qstar_graph_add_toolset :: "decl \<Rightarrow> qstar_graph \<Rightarrow> qerr + qstar_graph" where
  "qstar_graph_add_toolset d g =
     (let l = d_label d
      in if has_target g l then conflict ''toolset'' l ''target''
         else if has_genrule g l then conflict ''toolset'' l ''generated action''
         else if has_stage g l then conflict ''toolset'' l ''stage rule''
         else if has_config g l then conflict ''toolset'' l ''config''
         else if has_toolset g l then duplicate_label ''toolset'' l
         else Inr (g\<lparr>gr_toolsets := gr_toolsets g @ [new_toolset d]\<rparr>))"

definition new_genrule :: "decl \<Rightarrow> qstar_genrule" where
  "new_genrule d = zero_qstar_genrule
    \<lparr>g_label := d_label d, g_name := d_name d, g_fragment_dir := str_or_empty (d_fragment_dir d),
     g_origin_file := str_or_empty (d_origin_file d), g_origin_line := d_origin_line d,
     g_tool := Some ''generator'', g_toolset := Some [], g_description := Some [], g_cacheable := True\<rparr>"

definition qstar_graph_add_genrule :: "decl \<Rightarrow> qstar_graph \<Rightarrow> qerr + qstar_graph" where
  "qstar_graph_add_genrule d g =
     (let l = d_label d
      in if has_target g l then conflict ''generated action'' l ''target''
         else if has_genrule g l then duplicate_label ''generated action'' l
         else if has_stage g l then conflict ''generated action'' l ''stage rule''
         else if has_config g l then conflict ''generated action'' l ''config''
         else if has_toolset g l then conflict ''generated action'' l ''toolset''
         else Inr (g\<lparr>gr_genrules := gr_genrules g @ [new_genrule d]\<rparr>))"

definition new_stage :: "decl \<Rightarrow> qstar_stage" where
  "new_stage d = zero_qstar_stage
    \<lparr>st_label := d_label d, st_name := d_name d, st_fragment_dir := str_or_empty (d_fragment_dir d),
     st_origin_file := str_or_empty (d_origin_file d), st_origin_line := d_origin_line d,
     st_root := Some [], st_description := Some []\<rparr>"

definition qstar_graph_add_stage :: "decl \<Rightarrow> qstar_graph \<Rightarrow> qerr + qstar_graph" where
  "qstar_graph_add_stage d g =
     (let l = d_label d
      in if has_target g l then conflict ''stage'' l ''target''
         else if has_genrule g l then conflict ''stage'' l ''generated action''
         else if has_stage g l then duplicate_label ''stage'' l
         else if has_config g l then conflict ''stage'' l ''config''
         else if has_toolset g l then conflict ''stage'' l ''toolset''
         else Inr (g\<lparr>gr_stages := gr_stages g @ [new_stage d]\<rparr>))"

section \<open>Families, test resources, package aliases\<close>

text \<open>Family names share no space with labels; the declaration's label is its name here.\<close>

definition new_family :: "decl \<Rightarrow> qstar_target_family" where
  "new_family d = zero_qstar_target_family
    \<lparr>fam_name := d_name d, fam_fragment_dir := str_or_empty (d_fragment_dir d),
     fam_origin_file := str_or_empty (d_origin_file d), fam_origin_line := d_origin_line d\<rparr>"

definition qstar_graph_add_target_family :: "decl \<Rightarrow> qstar_graph \<Rightarrow> qerr + qstar_graph" where
  "qstar_graph_add_target_family d g =
     (if d_name d = [] then Inl (Plain ''qstar: target_family name is empty'')
      else if has_target_family g (d_name d) then
        Inl (Plain (''qstar: duplicate target_family '' @ sq (d_name d)))
      else Inr (g\<lparr>gr_families := gr_families g @ [new_family d]\<rparr>))"

definition new_test_resource :: "decl \<Rightarrow> qstar_test_resource" where
  "new_test_resource d = zero_qstar_test_resource
    \<lparr>tres_name := d_name d, tres_origin_file := str_or_empty (d_origin_file d),
     tres_origin_line := d_origin_line d, tres_description := []\<rparr>"

definition qstar_graph_add_test_resource :: "decl \<Rightarrow> qstar_graph \<Rightarrow> qerr + qstar_graph" where
  "qstar_graph_add_test_resource d g =
     (if d_name d = [] \<or> qstar_graph_find_test_resource g (Some (d_name d)) \<noteq> None then
        Inl (Plain (''qstar: duplicate or empty test resource '' @ sq (d_name d)))
      else Inr (g\<lparr>gr_test_resources := gr_test_resources g @ [new_test_resource d]\<rparr>))"

definition valid_alias :: "cstr \<Rightarrow> bool" where
  "valid_alias alias \<longleftrightarrow> (case alias of
      None \<Rightarrow> False
    | Some a \<Rightarrow> take 1 a = ''@'' \<and> drop 1 a \<noteq> [] \<and>
        list_all (\<lambda>c. is_upper c \<or> is_lower c \<or> is_digit c \<or> c = CHR ''_'' \<or> c = CHR ''-'' \<or> c = CHR ''.'')
          (drop 1 a))"

definition qstar_graph_add_package_alias :: "cstr \<times> cstr \<Rightarrow> qstar_graph \<Rightarrow> qerr + qstar_graph" where
  "qstar_graph_add_package_alias = (\<lambda>(alias, root) g.
     let a = str_or_empty alias
     in if \<not> valid_alias alias then Inl (Plain (''qstar: invalid package alias '' @ sq a))
        else if \<not> present root then Inl (Plain (''qstar: package alias '' @ sq a @ '' has empty root''))
        else if qstar_graph_find_package_alias g a \<noteq> None then
          Inl (Plain (''qstar: duplicate package alias '' @ sq a))
        else Inr (g\<lparr>gr_packages := gr_packages g @ [\<lparr>al_alias = a, al_root = str_or_empty root\<rparr>]\<rparr>))"

definition qstar_target_add_test_resource_request ::
  "qstar_target \<Rightarrow> string \<Rightarrow> int \<Rightarrow> qerr + qstar_target" where
  "qstar_target_add_test_resource_request t name amount =
     (if list_ex (\<lambda>r. rr_name r = name) (t_test_resources t) then
        Inl (Plain (''qstar: duplicate test resource request '' @ sq name @ '' on '' @ sq (t_label t)))
      else Inr (t\<lparr>t_test_resources := t_test_resources t @ [\<lparr>rr_name = name, rr_amount = amount\<rparr>]\<rparr>))"

text \<open>The texts are nullable pointers; the target itself is not null in any call.\<close>

definition qstar_target_add_imported_artifact ::
  "qstar_target \<Rightarrow> cstr \<Rightarrow> cstr \<Rightarrow> cstr \<Rightarrow> cstr \<Rightarrow> bool \<Rightarrow> qerr + qstar_target" where
  "qstar_target_add_imported_artifact t platform aid role path primary =
     (case (platform, aid, role, path) of
        (Some p, Some i, Some r, Some q) \<Rightarrow>
          Inr (t\<lparr>t_imported_artifacts := t_imported_artifacts t @
                 [\<lparr>ia_platform = p, ia_id = i, ia_role = r, ia_path = q, ia_primary = primary\<rparr>]\<rparr>)
      | _ \<Rightarrow> Inl (Plain ''qstar: invalid imported artifact metadata''))"

section \<open>Every registry keeps the contract\<close>

lemmas add_defs =
  qstar_graph_add_target_def qstar_graph_add_config_def qstar_graph_add_toolset_def
  qstar_graph_add_genrule_def qstar_graph_add_stage_def conflict_def duplicate_label_def
  new_target_def new_config_def new_toolset_def new_genrule_def new_stage_def

lemma find_target_not_None [simp]: "(\<exists>t. find_target g l = Some t) \<longleftrightarrow> l \<in> t_label ` set (gr_targets g)"
  and find_config_not_None [simp]: "(\<exists>c. find_config g l = Some c) \<longleftrightarrow> l \<in> cf_label ` set (gr_configs g)"
  and find_genrule_not_None [simp]:
    "(\<exists>r. qstar_graph_find_genrule g l = Some r) \<longleftrightarrow> l \<in> g_label ` set (gr_genrules g)"
  and find_stage_not_None [simp]:
    "(\<exists>s. qstar_graph_find_stage g l = Some s) \<longleftrightarrow> l \<in> st_label ` set (gr_stages g)"
  using find_key_None [of t_label l "gr_targets g"] find_key_None [of cf_label l "gr_configs g"]
    find_key_None [of g_label l "gr_genrules g"] find_key_None [of st_label l "gr_stages g"]
  by (auto simp: find_target_def find_config_def qstar_graph_find_genrule_def qstar_graph_find_stage_def)

interpretation target_registry: keyed_registry gr_targets t_label find_target qstar_graph_add_target
    "\<lambda>(d, kind). new_target d kind"
  by unfold_locales (auto simp: find_target_def qstar_graph_add_target_def new_target_def Let_def
      find_key_None_ex [symmetric] find_key_None split: if_splits prod.splits dest: find_key_Some)

interpretation config_registry: keyed_registry gr_configs cf_label find_config qstar_graph_add_config new_config
  by unfold_locales (auto simp: find_config_def add_defs Let_def find_key_None split: if_splits
      dest: find_key_Some)

interpretation toolset_registry: keyed_registry gr_toolsets ts_label
    "\<lambda>g l. qstar_graph_find_toolset g (Some l)" qstar_graph_add_toolset new_toolset
  by unfold_locales (auto simp: qstar_graph_find_toolset_def add_defs Let_def split: if_splits
      dest: find_key_Some)

interpretation genrule_registry: keyed_registry gr_genrules g_label qstar_graph_find_genrule
    qstar_graph_add_genrule new_genrule
  by unfold_locales (auto simp: qstar_graph_find_genrule_def add_defs Let_def split: if_splits
      dest: find_key_Some)

interpretation stage_registry: keyed_registry gr_stages st_label qstar_graph_find_stage
    qstar_graph_add_stage new_stage
  by unfold_locales (auto simp: qstar_graph_find_stage_def add_defs Let_def split: if_splits
      dest: find_key_Some)

interpretation family_registry: keyed_registry gr_families fam_name
    "\<lambda>g n. find_key fam_name n (gr_families g)" qstar_graph_add_target_family new_family
  by unfold_locales (auto simp: qstar_graph_add_target_family_def new_family_def split: if_splits
      dest: find_key_Some)

interpretation resource_registry: keyed_registry gr_test_resources tres_name
    "\<lambda>g n. qstar_graph_find_test_resource g (Some n)" qstar_graph_add_test_resource new_test_resource
  by unfold_locales (auto simp: qstar_graph_find_test_resource_def qstar_graph_add_test_resource_def
      new_test_resource_def find_key_ex split: if_splits)

interpretation alias_registry: keyed_registry gr_packages al_alias qstar_graph_find_package_alias
    qstar_graph_add_package_alias "\<lambda>(alias, root). \<lparr>al_alias = str_or_empty alias, al_root = str_or_empty root\<rparr>"
  by unfold_locales (auto simp: qstar_graph_find_package_alias_def qstar_graph_add_package_alias_def
      Let_def find_key_None split: if_splits prod.splits)

section \<open>One label space\<close>

text \<open>A declaration evaluated from a build file, in the order the file makes them.\<close>

datatype decl_item =
    DTarget decl string
  | DConfig decl
  | DToolset decl
  | DGenrule decl
  | DStage decl

fun decl_of :: "decl_item \<Rightarrow> decl" where
  "decl_of (DTarget d _) = d"
| "decl_of (DConfig d) = d"
| "decl_of (DToolset d) = d"
| "decl_of (DGenrule d) = d"
| "decl_of (DStage d) = d"

fun declare_item :: "decl_item \<Rightarrow> qstar_graph \<Rightarrow> qerr + qstar_graph" where
  "declare_item (DTarget d kind) g = qstar_graph_add_target (d, kind) g"
| "declare_item (DConfig d) g = qstar_graph_add_config d g"
| "declare_item (DToolset d) g = qstar_graph_add_toolset d g"
| "declare_item (DGenrule d) g = qstar_graph_add_genrule d g"
| "declare_item (DStage d) g = qstar_graph_add_stage d g"

text \<open>Labels given to declarations are canonical, hence non-empty.\<close>

inductive declared :: "qstar_graph \<Rightarrow> qstar_graph \<Rightarrow> bool" where
  declared_refl: "declared g g"
| declared_step: "declared g g1 \<Longrightarrow> d_label (decl_of d) \<noteq> [] \<Longrightarrow> declare_item d g1 = Inr g2 \<Longrightarrow> declared g g2"

inductive_cases declared_stepE: "declared g g2"

definition all_labels :: "qstar_graph \<Rightarrow> string list" where
  "all_labels g = map t_label (gr_targets g) @ map cf_label (gr_configs g) @ map ts_label (gr_toolsets g) @
     map g_label (gr_genrules g) @ map st_label (gr_stages g)"

lemma declare_item_labels:
  assumes "declare_item d g = Inr g'" and "d_label (decl_of d) \<noteq> []"
  shows "mset (all_labels g') = add_mset (d_label (decl_of d)) (mset (all_labels g))"
    and "d_label (decl_of d) \<notin> set (all_labels g)"
  using assms by (cases d; auto simp: add_defs all_labels_def Let_def split: if_splits)+

lemma declare_item_duplicate:
  assumes "d_label (decl_of d) \<in> set (all_labels g)" and "d_label (decl_of d) \<noteq> []"
  shows "\<exists>e. declare_item d g = Inl e"
  using assms declare_item_labels(2) [of d g] by (cases "declare_item d g") auto

lemma declared_labels_distinct:
  assumes "declared g g'" and "distinct (all_labels g)"
  shows "distinct (all_labels g') \<and> set (all_labels g) \<subseteq> set (all_labels g')"
  using assms
proof (induction rule: declared.induct)
  case (declared_refl g)
  then show ?case by simp
next
  case (declared_step g g1 d g2)
  let ?l = "d_label (decl_of d)"
  have m: "mset (all_labels g2) = mset (?l # all_labels g1)" and new: "?l \<notin> set (all_labels g1)"
    using declare_item_labels declared_step.hyps by simp_all
  have "distinct (?l # all_labels g1)" using declared_step new by simp
  moreover have "set (all_labels g2) = set (?l # all_labels g1)"
    using m by (metis set_mset_mset)
  ultimately show ?case
    using declared_step mset_eq_imp_distinct_iff [OF m] by auto
qed

text \<open>Every declaration of the one graph is still in the other, at its place and as it was.\<close>

definition keeps_declarations :: "qstar_graph \<Rightarrow> qstar_graph \<Rightarrow> bool" where
  "keeps_declarations g h \<longleftrightarrow>
     take (length (gr_targets g)) (gr_targets h) = gr_targets g \<and>
     take (length (gr_configs g)) (gr_configs h) = gr_configs g \<and>
     take (length (gr_toolsets g)) (gr_toolsets h) = gr_toolsets g \<and>
     take (length (gr_genrules g)) (gr_genrules h) = gr_genrules g \<and>
     take (length (gr_stages g)) (gr_stages h) = gr_stages g"

lemma take_trans: "take (length xs) ys = xs \<Longrightarrow> take (length ys) zs = ys \<Longrightarrow> take (length xs) zs = xs"
  by (metis length_take min.commute min_def nat_le_linear take_all take_take)

lemma declare_item_keeps: "declare_item d g = Inr h \<Longrightarrow> keeps_declarations g h"
  by (cases d; auto simp: add_defs keeps_declarations_def Let_def split: if_splits)

lemma declared_keeps: "declared g h \<Longrightarrow> keeps_declarations g h"
proof (induction rule: declared.induct)
  case (declared_step g g1 d g2)
  show ?case
    using declared_step.IH declare_item_keeps [OF declared_step.hyps(3)]
    unfolding keeps_declarations_def by (blast intro: take_trans)
qed (simp add: keeps_declarations_def)

text \<open>
  C34: However targets, configs, toolsets, generated actions and stages are declared, and in whatever
  order, no label is ever used twice, not even by declarations of different kinds: a declaration
  that would reuse a label is rejected, one that is accepted adds its label, and every accepted declaration is
  still there, unchanged, after any further declarations.
\<close>

theorem labels_unique:
  assumes "declared qstar_graph_init g"
  shows "distinct (all_labels g) \<and>
    (\<forall>d. d_label (decl_of d) \<noteq> [] \<longrightarrow> (case declare_item d g of
        Inl e \<Rightarrow> True
      | Inr h \<Rightarrow> d_label (decl_of d) \<notin> set (all_labels g) \<and> mset (all_labels h) = add_mset (d_label (decl_of d)) (mset (all_labels g)))) \<and>
    (\<forall>h. declared g h \<longrightarrow> keeps_declarations g h)"
proof -
  have "distinct (all_labels qstar_graph_init)"
    by (simp add: all_labels_def qstar_graph_init_def zero_defs)
  then show ?thesis
    using declared_labels_distinct [OF assms] declare_item_labels declared_keeps by (auto split: sum.split)
qed

lemma one_target_declared:
  "declared qstar_graph_init
     (qstar_graph_init\<lparr>gr_targets := [new_target \<lparr>d_label = ''//:a'', d_name = ''a'', d_fragment_dir = None,
        d_origin_file = None, d_origin_line = 1\<rparr> ''exe'']\<rparr>)"
  by (rule declared_step [OF declared_refl, of "DTarget \<lparr>d_label = ''//:a'', d_name = ''a'',
        d_fragment_dir = None, d_origin_file = None, d_origin_line = 1\<rparr> ''exe''"])
     (simp_all add: qstar_graph_add_target_def qstar_graph_init_def zero_defs)

theorem labels_unique_witness:
  "\<exists>e. declare_item (DStage \<lparr>d_label = ''//:a'', d_name = ''s'', d_fragment_dir = None,
        d_origin_file = None, d_origin_line = 9\<rparr>)
     (qstar_graph_init\<lparr>gr_targets := [new_target \<lparr>d_label = ''//:a'', d_name = ''a'', d_fragment_dir = None,
        d_origin_file = None, d_origin_line = 1\<rparr> ''exe'']\<rparr>) = Inl e"
proof -
  let ?d = "DStage \<lparr>d_label = ''//:a'', d_name = ''s'', d_fragment_dir = None, d_origin_file = None,
    d_origin_line = 9\<rparr>"
  have "d_label (decl_of ?d) \<noteq> []" by simp
  moreover have "d_label (decl_of ?d) \<in> set (all_labels (qstar_graph_init\<lparr>gr_targets :=
      [new_target \<lparr>d_label = ''//:a'', d_name = ''a'', d_fragment_dir = None, d_origin_file = None,
        d_origin_line = 1\<rparr> ''exe'']\<rparr>))"
    by (simp add: all_labels_def new_target_def)
  ultimately show ?thesis
    using labels_unique [OF one_target_declared, THEN conjunct2, THEN conjunct1, rule_format, of ?d]
    by (auto split: sum.splits)
qed

text \<open>
  A declared target is found again under its label by every later look-up, with exactly the
  fields its declaration gave it, whatever is declared afterwards.
\<close>

theorem declared_target_found:
  assumes "qstar_graph_add_target (d, kind) g = Inr g1" and "d_label d \<noteq> []" and "declared g1 g2"
  shows "find_target g2 (d_label d) = Some (new_target d kind)"
  using assms(3,1)
proof (induction rule: declared.induct)
  case (declared_refl g1)
  then show ?case
    using target_registry.find_added [of "(d, kind)" g g1] assms(2) by (simp add: new_target_def)
next
  case (declared_step g1 g2 e g3)
  then have "find_target g2 (d_label d) = Some (new_target d kind)" by simp
  then show ?case
    using declared_step.hyps(3) target_registry.find_kept [of "(decl_of e, _)" g2 g3] assms(2)
    by (cases e) (auto simp: find_target_def add_defs Let_def find_key_append split: if_splits)
qed

theorem declared_target_found_witness:
  "find_target (qstar_graph_init\<lparr>gr_targets := [new_target \<lparr>d_label = ''//:a'', d_name = ''a'',
       d_fragment_dir = None, d_origin_file = None, d_origin_line = 1\<rparr> ''exe'']\<rparr>) ''//:a''
   = Some (new_target \<lparr>d_label = ''//:a'', d_name = ''a'', d_fragment_dir = None, d_origin_file = None,
       d_origin_line = 1\<rparr> ''exe'')"
  using declared_target_found [where d = "\<lparr>d_label = ''//:a'', d_name = ''a'', d_fragment_dir = None,
      d_origin_file = None, d_origin_line = 1\<rparr>" and kind = "''exe''" and g = qstar_graph_init,
      OF _ _ declared_refl]
  by (simp add: qstar_graph_add_target_def qstar_graph_init_def zero_defs new_target_def)

end
