(* ===== verification/QProvider.thy ===== *)
theory QProvider
  imports QRegistry
begin

text \<open>
  \<^verbatim>\<open>src/graph.c\<close>: language providers declared by a project, their option, unit and final schemas, and
  the provider metadata of a target: source units, the final action and option values. The lemmas
  show that schemas stay keyed, and that setting an option replaces the value of that option and of
  no other.
\<close>

section \<open>Provider registry\<close>

definition new_provider ::
  "cstr \<times> cstr \<times> cstr \<times> cstr \<times> cstr \<times> cstr \<times> cstr \<Rightarrow> qstar_language_provider" where
  "new_provider = (\<lambda>(api, pid, ns, version, dir, manifest, impl). zero_qstar_language_provider
    \<lparr>lp_api := str_or_empty api, lp_id := str_or_empty pid, lp_namespace := str_or_empty ns,
     lp_version := str_or_empty version, lp_dir := str_or_empty dir,
     lp_manifest := str_or_empty manifest, lp_implementation := str_or_empty impl\<rparr>)"

definition qstar_graph_add_language_provider ::
  "cstr \<times> cstr \<times> cstr \<times> cstr \<times> cstr \<times> cstr \<times> cstr \<Rightarrow> qstar_graph \<Rightarrow> qerr + qstar_graph" where
  "qstar_graph_add_language_provider a g = (case a of (api, pid, ns, version, dir, manifest, impl) \<Rightarrow>
     if \<not> present api \<or> \<not> present pid \<or> \<not> present ns \<or> \<not> present dir \<or> \<not> present manifest \<or>
        \<not> present impl then Inl (Plain ''qstar: invalid language provider manifest'')
     else if qstar_language_provider_is_preloaded ns then
       Inl (Plain (''qstar: language namespace lang.'' @ str_or_empty ns @ '' is preloaded by QStar''))
     else if qstar_graph_find_language_provider g ns \<noteq> None then
       Inl (Plain (''qstar: duplicate language provider namespace lang.'' @ str_or_empty ns))
     else if qstar_graph_find_language_provider_manifest g manifest \<noteq> None then
       Inl (Plain (''qstar: duplicate language provider '' @ sq (str_or_empty manifest)))
     else Inr (g\<lparr>gr_language_providers := gr_language_providers g @ [new_provider a]\<rparr>))"

interpretation provider_registry: keyed_registry gr_language_providers lp_namespace
    "\<lambda>g ns. qstar_graph_find_language_provider g (Some ns)" qstar_graph_add_language_provider new_provider
  by unfold_locales (auto simp: qstar_graph_find_language_provider_def qstar_graph_add_language_provider_def
      new_provider_def find_key_None split: if_splits)

text \<open>Every declared namespace is new: not preloaded, and declared once; so is every manifest.\<close>

definition providers_ok :: "qstar_graph \<Rightarrow> bool" where
  "providers_ok g \<longleftrightarrow> distinct (map lp_namespace (gr_language_providers g)) \<and>
     distinct (map lp_manifest (gr_language_providers g)) \<and>
     list_all (\<lambda>p. lp_namespace p \<noteq> [] \<and> lp_manifest p \<noteq> [] \<and>
       \<not> qstar_language_provider_is_preloaded (Some (lp_namespace p))) (gr_language_providers g)"

lemma add_language_provider_Inr:
  assumes "qstar_graph_add_language_provider a g = Inr g'"
  shows "gr_language_providers g' = gr_language_providers g @ [new_provider a]"
    "lp_namespace (new_provider a) \<notin> lp_namespace ` set (gr_language_providers g)"
    "lp_manifest (new_provider a) \<notin> lp_manifest ` set (gr_language_providers g)"
    "lp_namespace (new_provider a) \<noteq> []" "lp_manifest (new_provider a) \<noteq> []"
    "\<not> qstar_language_provider_is_preloaded (Some (lp_namespace (new_provider a)))"
  using assms
  by (auto simp: qstar_graph_add_language_provider_def new_provider_def present_def
      qstar_graph_find_language_provider_def qstar_graph_find_language_provider_manifest_def
      find_key_None split: if_splits prod.splits)

lemma add_language_provider_ok:
  "providers_ok g \<Longrightarrow> qstar_graph_add_language_provider a g = Inr g' \<Longrightarrow> providers_ok g'"
  using add_language_provider_Inr [of a g g'] by (auto simp: providers_ok_def list_all_iff)

section \<open>Schemas of a provider\<close>

definition qstar_language_provider_add_option_schema ::
  "qstar_language_provider \<Rightarrow> cstr \<Rightarrow> cstr \<Rightarrow> string list \<Rightarrow> bool \<Rightarrow> cstr \<Rightarrow> string list \<Rightarrow>
   qerr + qstar_language_provider" where
  "qstar_language_provider_add_option_schema p name ty values has_default default_value default_list =
     (if \<not> present name \<or> \<not> present ty then
        Inl (Plain ''qstar: invalid language provider option schema'')
      else Inr (p\<lparr>lp_options := lp_options p @
        [\<lparr>lo_name = str_or_empty name, lo_type = str_or_empty ty, lo_has_default = has_default,
          lo_default_value = str_or_empty default_value, lo_default_list = default_list,
          lo_values = values\<rparr>]\<rparr>))"

definition qstar_language_provider_add_unit_schema ::
  "qstar_language_provider \<Rightarrow> cstr \<Rightarrow> string list \<Rightarrow> cstr \<Rightarrow> cstr \<Rightarrow> cstr \<Rightarrow> qerr + qstar_language_provider" where
  "qstar_language_provider_add_unit_schema p name suffixes emits lower deps =
     (if \<not> present name \<or> suffixes = [] \<or> \<not> present emits \<or> \<not> present lower then
        Inl (Plain ''qstar: invalid language provider unit schema'')
      else if list_ex (\<lambda>u. Some (lu_name u) = name) (lp_units p) then
        Inl (Plain (''qstar: duplicate language provider unit '' @
                    sq (lp_namespace p @ ''.'' @ str_or_empty name)))
      else Inr (p\<lparr>lp_units := lp_units p @
        [\<lparr>lu_name = str_or_empty name, lu_suffixes = suffixes, lu_emits = str_or_empty emits,
          lu_lower = str_or_empty lower, lu_deps = str_or_empty deps\<rparr>]\<rparr>))"

definition qstar_language_provider_add_final_schema ::
  "qstar_language_provider \<Rightarrow> cstr \<Rightarrow> cstr \<Rightarrow> qerr + qstar_language_provider" where
  "qstar_language_provider_add_final_schema p kind lower =
     (if \<not> present kind \<or> \<not> present lower then
        Inl (Plain ''qstar: invalid language provider final schema'')
      else if list_ex (\<lambda>f. Some (lf_kind f) = kind) (lp_finals p) then
        Inl (Plain (''qstar: duplicate language provider final '' @
                    sq (lp_namespace p @ ''.'' @ str_or_empty kind)))
      else Inr (p\<lparr>lp_finals := lp_finals p @
        [zero_qstar_language_final_schema\<lparr>lf_kind := str_or_empty kind, lf_lower := str_or_empty lower\<rparr>]\<rparr>))"

definition qstar_language_final_add_input ::
  "qstar_language_provider \<Rightarrow> qstar_language_final_schema \<Rightarrow> cstr \<Rightarrow> qerr + qstar_language_final_schema" where
  "qstar_language_final_add_input p f input =
     (if \<not> present input then Inl (Plain ''qstar: invalid language provider final input'')
      else if list_contains (lf_inputs f) (str_or_empty input) then
        Inl (Plain (''qstar: duplicate language provider final input '' @
                    sq (lp_namespace p @ ''.'' @ lf_kind f @ ''.'' @ str_or_empty input)))
      else Inr (f\<lparr>lf_inputs := lf_inputs f @ [str_or_empty input]\<rparr>))"

definition qstar_language_final_add_artifact ::
  "qstar_language_provider \<Rightarrow> qstar_language_final_schema \<Rightarrow> cstr \<Rightarrow> cstr \<Rightarrow> cstr \<Rightarrow>
   bool \<Rightarrow> bool \<Rightarrow> bool \<Rightarrow> bool \<Rightarrow> qerr + qstar_language_final_schema" where
  "qstar_language_final_add_artifact p f aid ty suffix primary secondary runtime link_interface =
     (if \<not> present aid \<or> \<not> present ty then
        Inl (Plain ''qstar: invalid language provider artifact descriptor'')
      else if list_ex (\<lambda>a. Some (pad_id a) = aid) (lf_artifacts f) then
        Inl (Plain (''qstar: duplicate language provider artifact '' @
                    sq (lp_namespace p @ ''.'' @ lf_kind f @ ''.'' @ str_or_empty aid)))
      else Inr (f\<lparr>lf_artifacts := lf_artifacts f @
        [\<lparr>pad_id = str_or_empty aid, pad_type = str_or_empty ty, pad_suffix = str_or_empty suffix,
          pad_path = [], pad_primary = primary, pad_secondary = secondary, pad_runtime = runtime,
          pad_link_interface = link_interface\<rparr>]\<rparr>))"

definition qstar_language_provider_find_option ::
  "qstar_language_provider \<Rightarrow> cstr \<Rightarrow> qstar_language_option_schema option" where
  "qstar_language_provider_find_option p name =
     (if present name then find_key lo_name (str_or_empty name) (lp_options p) else None)"

definition qstar_language_provider_find_unit ::
  "qstar_language_provider \<Rightarrow> cstr \<Rightarrow> qstar_language_unit_schema option" where
  "qstar_language_provider_find_unit p name =
     (if present name then find_key lu_name (str_or_empty name) (lp_units p) else None)"

definition qstar_language_provider_find_final ::
  "qstar_language_provider \<Rightarrow> cstr \<Rightarrow> qstar_language_final_schema option" where
  "qstar_language_provider_find_final p kind =
     (if present kind then find_key lf_kind (str_or_empty kind) (lp_finals p) else None)"

text \<open>The units and finals of one provider are registries too.\<close>

interpretation unit_registry: keyed_registry lp_units lu_name
    "\<lambda>p n. qstar_language_provider_find_unit p (Some n)"
    "\<lambda>(name, suffixes, emits, lower, deps) p.
       qstar_language_provider_add_unit_schema p name suffixes emits lower deps"
    "\<lambda>(name, suffixes, emits, lower, deps). \<lparr>lu_name = str_or_empty name, lu_suffixes = suffixes,
       lu_emits = str_or_empty emits, lu_lower = str_or_empty lower, lu_deps = str_or_empty deps\<rparr>"
  by unfold_locales
     (auto simp: qstar_language_provider_find_unit_def qstar_language_provider_add_unit_schema_def
        present_def list_ex_iff split: if_splits prod.splits)

interpretation final_registry: keyed_registry lp_finals lf_kind
    "\<lambda>p k. qstar_language_provider_find_final p (Some k)"
    "\<lambda>(kind, lower) p. qstar_language_provider_add_final_schema p kind lower"
    "\<lambda>(kind, lower). zero_qstar_language_final_schema\<lparr>lf_kind := str_or_empty kind, lf_lower := str_or_empty lower\<rparr>"
  by unfold_locales
     (auto simp: qstar_language_provider_find_final_def qstar_language_provider_add_final_schema_def
        present_def list_ex_iff split: if_splits prod.splits)

section \<open>Provider metadata of a target\<close>

definition copy_provider_action_template ::
  "qstar_provider_action_template option \<Rightarrow> qstar_provider_action_template" where
  "copy_provider_action_template src = (case src of
      None \<Rightarrow> zero_qstar_provider_action_template\<lparr>pa_depfile := Some []\<rparr>
    | Some a \<Rightarrow> a\<lparr>pa_depfile := Some (str_or_empty (pa_depfile a))\<rparr>)"

text \<open>The texts of a descriptor are never null here, so copying changes nothing.\<close>

definition copy_provider_artifact_descriptor ::
  "qstar_provider_artifact_descriptor \<Rightarrow> qstar_provider_artifact_descriptor" where
  "copy_provider_artifact_descriptor src =
     \<lparr>pad_id = pad_id src, pad_type = pad_type src, pad_suffix = pad_suffix src, pad_path = pad_path src,
      pad_primary = pad_primary src, pad_secondary = pad_secondary src, pad_runtime = pad_runtime src,
      pad_link_interface = pad_link_interface src\<rparr>"

definition qstar_target_add_provider_source_unit ::
  "qstar_target \<Rightarrow> nat \<Rightarrow> cstr \<Rightarrow> cstr \<Rightarrow> cstr \<Rightarrow> cstr \<Rightarrow> cstr \<Rightarrow> qstar_provider_action_template option \<Rightarrow>
   qerr + qstar_target" where
  "qstar_target_add_provider_source_unit t index path provider unit_name emits lower action =
     (let role = str_or_empty provider @ ''.compiler''
      in if \<not> present path \<or> \<not> present provider \<or> \<not> present unit_name \<or> \<not> present emits \<or> \<not> present lower
         then Inl (Plain ''qstar: invalid provider source unit'')
         else if list_ex (\<lambda>u. psu_source_index u = index) (t_provider_sources t) then
           Inl (Plain (''qstar: duplicate provider source metadata for '' @ sq (t_label t)))
         else if 128 \<le> length role then Inl (Plain ''qstar: provider source tool role is too long'')
         else Inr (t\<lparr>t_provider_sources := t_provider_sources t @
           [\<lparr>psu_source_index = index, psu_path = path, psu_provider = provider,
             psu_unit = str_or_empty unit_name, psu_emits = str_or_empty emits,
             psu_lower = str_or_empty lower, psu_toolset_role = Some role,
             psu_action = copy_provider_action_template action\<rparr>]\<rparr>))"

definition qstar_target_set_provider_final_action ::
  "qstar_target \<Rightarrow> qstar_language_provider \<Rightarrow> qstar_language_final_schema \<Rightarrow>
   qstar_provider_artifact_descriptor list \<Rightarrow> qstar_provider_action_template option \<Rightarrow> qerr + qstar_target" where
  "qstar_target_set_provider_final_action t p f artifacts action =
     (if lp_namespace p = [] \<or> lf_kind f = [] \<or> lf_lower f = [] then
        Inl (Plain ''qstar: invalid provider final action'')
      else if pf_present (t_provider_final t) then
        Inl (Plain (''qstar: duplicate provider final action for '' @ sq (t_label t)))
      else Inr (t\<lparr>t_provider_final :=
        \<lparr>pf_present = True, pf_api = Some (lp_api p), pf_provider = Some (lp_namespace p),
         pf_kind = Some (lf_kind f), pf_lower = Some (lf_lower f),
         pf_input_ownership = pf_input_ownership (t_provider_final t) @ lf_inputs f,
         pf_artifacts = map copy_provider_artifact_descriptor artifacts,
         pf_action = copy_provider_action_template action\<rparr>\<rparr>))"

definition option_key :: "string \<Rightarrow> string \<Rightarrow> qstar_provider_option_value \<Rightarrow> bool" where
  "option_key provider name v \<longleftrightarrow> pov_provider v = provider \<and> pov_name v = name"

text \<open>The value of the first entry with this key is replaced in place; else an entry is appended.\<close>

fun replace_option ::
  "string \<Rightarrow> string \<Rightarrow> qstar_provider_option_value \<Rightarrow> qstar_provider_option_value list \<Rightarrow>
   qstar_provider_option_value list" where
  "replace_option provider name v [] = [v]"
| "replace_option provider name v (x # xs) =
     (if option_key provider name x then v # xs else x # replace_option provider name v xs)"

definition qstar_target_set_provider_option ::
  "qstar_target \<Rightarrow> cstr \<Rightarrow> cstr \<Rightarrow> cstr \<Rightarrow> cstr \<Rightarrow> string list \<Rightarrow> qerr + qstar_target" where
  "qstar_target_set_provider_option t provider name ty val xs =
     (if \<not> present provider \<or> \<not> present name \<or> \<not> present ty then
        Inl (Plain ''qstar: invalid provider option'')
      else Inr (t\<lparr>t_provider_options := replace_option (str_or_empty provider) (str_or_empty name)
        \<lparr>pov_provider = str_or_empty provider, pov_name = str_or_empty name, pov_type = str_or_empty ty,
         pov_value = str_or_empty val, pov_list = xs\<rparr> (t_provider_options t)\<rparr>))"

definition qstar_target_provider_option ::
  "qstar_target \<Rightarrow> string \<Rightarrow> string \<Rightarrow> qstar_provider_option_value option" where
  "qstar_target_provider_option t provider name = List.find (option_key provider name) (t_provider_options t)"

definition qstar_target_has_provider_final_action :: "qstar_target option \<Rightarrow> bool" where
  "qstar_target_has_provider_final_action t =
     (case t of None \<Rightarrow> False | Some t' \<Rightarrow> pf_present (t_provider_final t'))"

definition qstar_target_provider_final_owns_source :: "qstar_target option \<Rightarrow> nat \<Rightarrow> bool" where
  "qstar_target_provider_final_owns_source target index = (case target of
      None \<Rightarrow> False
    | Some t \<Rightarrow>
        if \<not> pf_present (t_provider_final t) then False
        else if pf_api (t_provider_final t) \<noteq> Some ''qstar.lang/2'' then True
        else case qstar_target_provider_source_unit t index of
            None \<Rightarrow> False
          | Some u \<Rightarrow>
              if psu_provider u = None \<or> pf_provider (t_provider_final t) = None \<or>
                 psu_provider u \<noteq> pf_provider (t_provider_final t) then False
              else list_contains (pf_input_ownership (t_provider_final t)) ''sources'')"

section \<open>Option values\<close>

lemma find_replace_option:
  "option_key p n v \<Longrightarrow> List.find (option_key p n) (replace_option p n v xs) = Some v"
  by (induction xs) auto

lemma find_replace_option_other:
  "option_key p n v \<Longrightarrow> (p', n') \<noteq> (p, n) \<Longrightarrow>
   List.find (option_key p' n') (replace_option p n v xs) = List.find (option_key p' n') xs"
  by (induction xs) (auto simp: option_key_def)

lemma replace_option_keys:
  "option_key p n v \<Longrightarrow> map (\<lambda>v. (pov_provider v, pov_name v)) (replace_option p n v xs) =
     (if (p, n) \<in> (\<lambda>v. (pov_provider v, pov_name v)) ` set xs
      then map (\<lambda>v. (pov_provider v, pov_name v)) xs
      else map (\<lambda>v. (pov_provider v, pov_name v)) xs @ [(p, n)])"
  by (induction xs) (auto simp: option_key_def)

lemma set_provider_option_Inr:
  assumes "qstar_target_set_provider_option t (Some p) (Some n) ty val xs = Inr t'"
  shows "t' = t\<lparr>t_provider_options := replace_option p n
      \<lparr>pov_provider = p, pov_name = n, pov_type = str_or_empty ty, pov_value = str_or_empty val,
       pov_list = xs\<rparr> (t_provider_options t)\<rparr>"
  using assms by (auto simp: qstar_target_set_provider_option_def split: if_splits)

text \<open>
  Setting a provider option behaves like updating a finite map that remembers insertion order:
  the option reads back as set, every other option reads as before, an existing option keeps its
  place, and no option is ever listed twice.
\<close>

theorem set_provider_option_updates:
  assumes "qstar_target_set_provider_option t (Some p) (Some n) (Some ty) val xs = Inr t'"
  shows "qstar_target_provider_option t' p n =
      Some \<lparr>pov_provider = p, pov_name = n, pov_type = ty, pov_value = str_or_empty val, pov_list = xs\<rparr>
    \<and> (\<forall>p' n'. (p', n') = (p, n) \<or>
         qstar_target_provider_option t' p' n' = qstar_target_provider_option t p' n')
    \<and> distinct (map (\<lambda>v. (pov_provider v, pov_name v)) (t_provider_options t')) =
      distinct (map (\<lambda>v. (pov_provider v, pov_name v)) (t_provider_options t))"
proof -
  let ?v = "\<lparr>pov_provider = p, pov_name = n, pov_type = ty, pov_value = str_or_empty val, pov_list = xs\<rparr>"
  have key: "option_key p n ?v" by (simp add: option_key_def)
  have t': "t_provider_options t' = replace_option p n ?v (t_provider_options t)"
    using set_provider_option_Inr [OF assms] by simp
  show ?thesis
    using find_replace_option [OF key] find_replace_option_other [OF key] replace_option_keys [OF key]
    by (auto simp: qstar_target_provider_option_def t')
qed

theorem set_provider_option_updates_witness:
  "\<exists>t'. qstar_target_set_provider_option zero_qstar_target (Some ''zig'') (Some ''mode'') (Some ''string'')
       (Some ''fast'') [] = Inr t' \<and>
     qstar_target_provider_option t' ''zig'' ''mode'' = Some \<lparr>pov_provider = ''zig'', pov_name = ''mode'',
       pov_type = ''string'', pov_value = ''fast'', pov_list = []\<rparr>"
proof -
  obtain t' where "qstar_target_set_provider_option zero_qstar_target (Some ''zig'') (Some ''mode'')
      (Some ''string'') (Some ''fast'') [] = Inr t'"
    by (simp add: qstar_target_set_provider_option_def)
  then show ?thesis
    using set_provider_option_updates [of zero_qstar_target "''zig''" "''mode''" "''string''"
        "Some ''fast''" "[]" t'] by auto
qed

text \<open>The provider declarations of a project, run in order up to the first failure.\<close>

fun declare_providers ::
  "(cstr \<times> cstr \<times> cstr \<times> cstr \<times> cstr \<times> cstr \<times> cstr) list \<Rightarrow> qstar_graph \<Rightarrow> qerr + qstar_graph" where
  "declare_providers [] g = Inr g"
| "declare_providers (a # as) g =
     (case qstar_graph_add_language_provider a g of Inl e \<Rightarrow> Inl e | Inr g' \<Rightarrow> declare_providers as g')"

lemma declare_providers_ok:
  "declare_providers as g = Inr g' \<Longrightarrow> providers_ok g \<Longrightarrow>
   providers_ok g' \<and> gr_language_providers g' = gr_language_providers g @ map new_provider as"
proof (induction as arbitrary: g)
  case Nil
  then show ?case by simp
next
  case (Cons a as)
  then obtain h where h: "qstar_graph_add_language_provider a g = Inr h" "declare_providers as h = Inr g'"
    by (auto split: sum.splits)
  then show ?case
    using Cons.IH [OF h(2)] add_language_provider_ok [OF Cons.prems(2) h(1)]
      add_language_provider_Inr(1) [OF h(1)] by simp
qed

text \<open>
  A project never shadows a preloaded language: however providers are declared, the declared
  namespaces and manifests stay pairwise different and none of them is a preloaded namespace, so a
  namespace is never both preloaded and declared.
\<close>

theorem declared_providers_never_preloaded:
  assumes "declare_providers as qstar_graph_init = Inr g"
  shows "providers_ok g \<and> gr_language_providers g = map new_provider as"
proof -
  have "providers_ok qstar_graph_init" "gr_language_providers qstar_graph_init = []"
    by (simp_all add: providers_ok_def qstar_graph_init_def zero_defs)
  then show ?thesis using declare_providers_ok [OF assms] by simp
qed

theorem declared_providers_never_preloaded_witness:
  "\<exists>g. providers_ok g \<and> gr_language_providers g = map new_provider
     [(Some ''qstar.lang/2'', Some ''zig'', Some ''zig'', None, Some ''lang/zig'', Some ''lang/zig/m.lua'',
       Some ''lang/zig/i.lua'')]"
proof -
  let ?a = "(Some ''qstar.lang/2'', Some ''zig'', Some ''zig'', None, Some ''lang/zig'',
      Some ''lang/zig/m.lua'', Some ''lang/zig/i.lua'') :: cstr \<times> cstr \<times> cstr \<times> cstr \<times> cstr \<times> cstr \<times> cstr"
  have "\<not> qstar_language_provider_is_preloaded (Some ''zig'')" by code_simp
  moreover have "gr_language_providers qstar_graph_init = []" by (simp add: qstar_graph_init_def zero_defs)
  ultimately obtain g where "qstar_graph_add_language_provider ?a qstar_graph_init = Inr g"
    by (simp add: qstar_graph_add_language_provider_def qstar_graph_find_language_provider_def
        qstar_graph_find_language_provider_manifest_def)
  then have "declare_providers [?a] qstar_graph_init = Inr g" by simp
  then show ?thesis using declared_providers_never_preloaded by blast
qed

end
