(* ===== verification/QConfigs.thy ===== *)
theory QConfigs
  imports QProvider
begin

text \<open>
  \<^verbatim>\<open>src/graph.c\<close>: tool roles of a toolset, reusable configs merged into a target, references to
  toolsets, the placeholder tokens in command arguments, the metadata of generated outputs and the
  sorted listings. The lemmas show what merging does to list, option and scalar fields, that a
  validated graph has no dangling toolset reference, that the tokens written by the build-file
  functions parse back, and that listings are stable sorts.
\<close>

section \<open>Tool roles\<close>

definition qstar_toolset_role_argv :: "qstar_toolset option \<Rightarrow> string \<Rightarrow> string list option" where
  "qstar_toolset_role_argv ts role = (case ts of
      None \<Rightarrow> None
    | Some s \<Rightarrow> (case find_key tr_role role (ts_roles s) of
          None \<Rightarrow> None
        | Some r \<Rightarrow> if tr_argv r = [] then None else Some (tr_argv r)))"

text \<open>The C function returns the address of the new role's argv, which the caller then fills.\<close>

definition qstar_toolset_add_role :: "qstar_toolset \<Rightarrow> cstr \<Rightarrow> qerr + qstar_toolset" where
  "qstar_toolset_add_role ts role =
     (if \<not> present role then Inl (Plain ''qstar: empty toolset tool role'')
      else if list_ex (\<lambda>r. Some (tr_role r) = role) (ts_roles ts) then
        Inl (Plain (''qstar: duplicate toolset tool role '' @ sq (str_or_empty role)))
      else Inr (ts\<lparr>ts_roles := ts_roles ts @ [\<lparr>tr_role = str_or_empty role, tr_argv = []\<rparr>]\<rparr>))"

text \<open>\<open>qsort\<close> by role: roles are unique, so the order of equal elements does not matter.\<close>

definition qstar_toolset_sort_roles :: "qstar_toolset \<Rightarrow> qstar_toolset" where
  "qstar_toolset_sort_roles ts =
     (if length (ts_roles ts) < 2 then ts else ts\<lparr>ts_roles := sort_key tr_role (ts_roles ts)\<rparr>)"

definition qstar_target_tool_role_argv :: "qstar_graph \<Rightarrow> qstar_target \<Rightarrow> string \<Rightarrow> string list option" where
  "qstar_target_tool_role_argv g t role =
     (if \<not> present (t_toolset t) then None
      else qstar_toolset_role_argv (qstar_graph_find_toolset g (t_toolset t)) role)"

interpretation role_registry: keyed_registry ts_roles tr_role "\<lambda>ts r. find_key tr_role r (ts_roles ts)"
    "\<lambda>role ts. qstar_toolset_add_role ts role" "\<lambda>role. \<lparr>tr_role = str_or_empty role, tr_argv = []\<rparr>"
  by unfold_locales (auto simp: qstar_toolset_add_role_def present_def list_ex_iff str_or_def
      split: if_splits option.splits)

lemma find_key_sort:
  assumes "distinct (map key xs)"
  shows "find_key key k (sort_key key xs) = find_key key k xs"
proof (cases "find_key key k xs")
  case None
  then have "find_key key k (sort_key key xs) = None" by (simp add: find_key_None)
  with None show ?thesis by simp
next
  case (Some x)
  then have "x \<in> set (sort_key key xs)" "key x = k" using find_key_Some [OF Some] by simp_all
  moreover have "distinct (map key (sort_key key xs))"
    using assms by (simp add: distinct_map)
  ultimately show ?thesis using Some find_key_distinct by metis
qed

lemma sort_roles_argv:
  "distinct (map tr_role (ts_roles ts)) \<Longrightarrow>
   qstar_toolset_role_argv (Some (qstar_toolset_sort_roles ts)) r = qstar_toolset_role_argv (Some ts) r"
  by (simp add: qstar_toolset_role_argv_def qstar_toolset_sort_roles_def find_key_sort)

section \<open>Merging configs into a target\<close>

text \<open>\<open>replace_string\<close> keeps the slot when the new value is null.\<close>

definition replace_string :: "cstr \<Rightarrow> cstr \<Rightarrow> cstr" where
  "replace_string slot v = (case v of None \<Rightarrow> slot | Some s \<Rightarrow> Some s)"

definition merge_modules :: "qstar_target \<Rightarrow> qstar_target \<Rightarrow> qstar_target" where
  "merge_modules opts t =
     (let m = t_modules t; o' = t_modules opts
      in if \<not> mod_present o' then t
         else t\<lparr>t_modules := \<lparr>mod_present = True, mod_root = replace_string (mod_root m) (mod_root o'),
                mod_include = mod_include m @ mod_include o', mod_exclude = mod_exclude m @ mod_exclude o'\<rparr>\<rparr>)"

fun merge_options :: "qstar_provider_option_value list \<Rightarrow> qstar_target \<Rightarrow> qerr + qstar_target" where
  "merge_options [] t = Inr t"
| "merge_options (v # vs) t =
     (case qstar_target_set_provider_option t (Some (pov_provider v)) (Some (pov_name v))
             (Some (pov_type v)) (Some (pov_value v)) (pov_list v) of
        Inl e \<Rightarrow> Inl e
      | Inr t' \<Rightarrow> merge_options vs t')"

definition append_config_lists :: "qstar_target \<Rightarrow> qstar_target \<Rightarrow> qstar_target" where
  "append_config_lists opts t =
     t\<lparr>t_public_headers := t_public_headers t @ t_public_headers opts,
         t_private_headers := t_private_headers t @ t_private_headers opts,
         t_include_dirs := t_include_dirs t @ t_include_dirs opts,
         t_public_include_dirs := t_public_include_dirs t @ t_public_include_dirs opts,
         t_private_include_dirs := t_private_include_dirs t @ t_private_include_dirs opts,
         t_interface_include_dirs := t_interface_include_dirs t @ t_interface_include_dirs opts,
         t_system_include_dirs := t_system_include_dirs t @ t_system_include_dirs opts,
         t_libs := t_libs t @ t_libs opts,
         t_lib_dirs := t_lib_dirs t @ t_lib_dirs opts,
         t_frameworks := t_frameworks t @ t_frameworks opts,
         t_link_options := t_link_options t @ t_link_options opts,
         t_link_inputs := t_link_inputs t @ t_link_inputs opts,
         t_cflags := t_cflags t @ t_cflags opts,
         t_cxxflags := t_cxxflags t @ t_cxxflags opts,
         t_asm_include_dirs := t_asm_include_dirs t @ t_asm_include_dirs opts,
         t_asm_compile_options := t_asm_compile_options t @ t_asm_compile_options opts\<rparr>"

definition merge_config_lists :: "qstar_target \<Rightarrow> qstar_target \<Rightarrow> qerr + qstar_target" where
  "merge_config_lists opts t = merge_options (t_provider_options opts) (append_config_lists opts t)"

definition config_scalar_steps :: "qstar_config \<Rightarrow> (qstar_target \<Rightarrow> qstar_target) list" where
  "config_scalar_steps c =
     (let opts = cf_options c
      in [apply_if (cf_has_artifact_name c)
            (\<lambda>t. t\<lparr>t_artifact_name := replace_string (t_artifact_name t) (t_artifact_name opts)\<rparr>),
          apply_if (cf_has_cxx_standard c)
            (\<lambda>t. t\<lparr>t_cxx_standard := replace_string (t_cxx_standard t) (t_cxx_standard opts)\<rparr>),
          apply_if (cf_has_cxx_precompiled_header c)
            (\<lambda>t. t\<lparr>t_cxx_precompiled_header :=
               replace_string (t_cxx_precompiled_header t) (t_cxx_precompiled_header opts)\<rparr>),
          apply_if (cf_has_toolset c)
            (\<lambda>t. t\<lparr>t_toolset := replace_string (t_toolset t) (t_toolset opts)\<rparr>),
          apply_if (cf_has_asm_preprocess c) (\<lambda>t. t\<lparr>t_asm_preprocess := t_asm_preprocess opts\<rparr>),
          apply_if (cf_has_cxx_modules c)
            (\<lambda>t. t\<lparr>t_cxx_modules_present := t_cxx_modules_present opts,
                   t_cxx_modules_enabled := t_cxx_modules_enabled opts\<rparr>),
          apply_if (cf_has_cxx_precompiled_header c) (\<lambda>t. t\<lparr>t_cxx_pch_present := t_cxx_pch_present opts\<rparr>),
          apply_if (cf_has_cxx_unity c)
            (\<lambda>t. t\<lparr>t_cxx_unity_present := t_cxx_unity_present opts,
                   t_cxx_unity_enabled := t_cxx_unity_enabled opts,
                   t_cxx_unity_batch_size := t_cxx_unity_batch_size opts\<rparr>),
          apply_if (cf_has_cacheable c)
            (\<lambda>t. t\<lparr>t_cacheable_present := True, t_cacheable := t_cacheable opts\<rparr>)])"

definition merge_config_scalars :: "qstar_config \<Rightarrow> qstar_target \<Rightarrow> qstar_target" where
  "merge_config_scalars c t = run_steps (config_scalar_steps c) t"

definition merge_config :: "qstar_config \<Rightarrow> qstar_target \<Rightarrow> qerr + qstar_target" where
  "merge_config c t = (case merge_config_lists (cf_options c) t of
      Inl e \<Rightarrow> Inl e
    | Inr t' \<Rightarrow> Inr (merge_config_scalars c (merge_modules (cf_options c) t')))"

text \<open>The labels are those of \<open>t_configs\<close>, which merging never changes.\<close>

fun apply_configs :: "qstar_graph \<Rightarrow> string list \<Rightarrow> qstar_target \<Rightarrow> qerr + qstar_target" where
  "apply_configs g [] t = Inr t"
| "apply_configs g (l # ls) t = (case find_config g l of
      None \<Rightarrow> Inl (Origin (t_origin_file t) (t_origin_line t) ''configs'' (t_label t)
                (''qstar: target '' @ sq (t_label t) @ '' references unknown config '' @ sq l))
    | Some c \<Rightarrow> (case merge_config c t of Inl e \<Rightarrow> Inl e | Inr t' \<Rightarrow> apply_configs g ls t'))"

definition qstar_graph_apply_target_configs :: "qstar_graph \<Rightarrow> qstar_target \<Rightarrow> qerr + qstar_target" where
  "qstar_graph_apply_target_configs g t = apply_configs g (t_configs t) t"

section \<open>References to toolsets\<close>

definition unknown_toolset :: "qstar_graph \<Rightarrow> cstr \<Rightarrow> bool" where
  "unknown_toolset g ts \<longleftrightarrow> present ts \<and> \<not> has_toolset g (str_or_empty ts)"

definition toolset_error :: "string \<Rightarrow> string \<Rightarrow> int \<Rightarrow> string \<Rightarrow> cstr \<Rightarrow> qerr" where
  "toolset_error what file line label ts = Origin file line ''toolset'' label
     (''qstar: '' @ what @ '' '' @ sq label @ '' references unknown toolset '' @ sq (str_or_empty ts))"

definition qstar_graph_validate_toolsets :: "qstar_graph \<Rightarrow> check" where
  "qstar_graph_validate_toolsets g = check_seq
     [check_all (\<lambda>c. reject (cf_has_toolset c \<and> unknown_toolset g (t_toolset (cf_options c)))
        (toolset_error ''config'' (cf_origin_file c) (cf_origin_line c) (cf_label c) (t_toolset (cf_options c))))
        (gr_configs g),
      check_all (\<lambda>t. reject (unknown_toolset g (t_toolset t))
        (toolset_error ''target'' (t_origin_file t) (t_origin_line t) (t_label t) (t_toolset t))) (gr_targets g),
      check_all (\<lambda>r. reject (unknown_toolset g (g_toolset r))
        (toolset_error ''generated action'' (g_origin_file r) (g_origin_line r) (g_label r) (g_toolset r)))
        (gr_genrules g)]"

section \<open>Placeholder tokens\<close>

text \<open>
  What a token parser returns: \<open>0\<close> for an argument that is no token of this kind, \<open>-1\<close> for a
  malformed token, \<open>1\<close> with the copied texts.
\<close>

datatype 'a token = NotToken | BadToken | Token 'a

text \<open>The text between the prefix and a closing \<open>>\<close>; at least one byte longer than the prefix.\<close>

definition token_payload :: "string \<Rightarrow> cstr \<Rightarrow> string token" where
  "token_payload prefix arg = (case arg of
      None \<Rightarrow> NotToken
    | Some a \<Rightarrow>
        if \<not> starts_with prefix a then NotToken
        else if length a \<le> length prefix + 1 \<or> last a \<noteq> CHR ''>'' then BadToken
        else Token (butlast (drop (length prefix) a)))"

text \<open>\<open>artifactlen = None\<close> is the call with a null \<open>artifact\<close> buffer.\<close>

definition qstar_target_file_token_parse :: "cstr \<Rightarrow> nat \<Rightarrow> nat option \<Rightarrow> (string \<times> string) token" where
  "qstar_target_file_token_parse arg labellen artifactlen =
     (case token_payload ''<qstar-target-file:'' arg of
        NotToken \<Rightarrow> NotToken
      | BadToken \<Rightarrow> BadToken
      | Token payload \<Rightarrow>
          (let (label, selector) = (case strchr CHR ''#'' payload of
                  None \<Rightarrow> (payload, None) | Some (l, s) \<Rightarrow> (l, Some s));
               artifact = str_or_empty selector
           in if label = [] \<or> labellen < length label + 1 \<or> selector = Some [] \<or>
                 (\<exists>n \<in> set_option artifactlen. n < length artifact + 1) then BadToken
              else Token (label, artifact)))"

definition qstar_target_file_token_label :: "cstr \<Rightarrow> nat \<Rightarrow> string token" where
  "qstar_target_file_token_label arg labellen = (case qstar_target_file_token_parse arg labellen None of
      NotToken \<Rightarrow> NotToken | BadToken \<Rightarrow> BadToken | Token (l, _) \<Rightarrow> Token l)"

definition qstar_stage_dir_token_label :: "cstr \<Rightarrow> nat \<Rightarrow> string token" where
  "qstar_stage_dir_token_label arg labellen = (case token_payload ''<qstar-stage-dir:'' arg of
      Token payload \<Rightarrow> if payload = [] \<or> labellen < length payload + 1 then BadToken else Token payload
    | r \<Rightarrow> r)"

definition qstar_provider_tool_token_role :: "cstr \<Rightarrow> nat \<Rightarrow> string token" where
  "qstar_provider_tool_token_role arg rolelen = (case token_payload ''<qstar-tool:'' arg of
      Token payload \<Rightarrow> if rolelen < length payload + 1 then BadToken else Token payload
    | r \<Rightarrow> r)"

section \<open>Metadata of generated outputs\<close>

definition genrule_meta_or_default :: "string list \<Rightarrow> nat \<Rightarrow> string \<Rightarrow> string" where
  "genrule_meta_or_default xs i fallback =
     (if i < length xs \<and> xs ! i \<noteq> [] then xs ! i else fallback)"

definition qstar_genrule_output_format :: "qstar_genrule \<Rightarrow> nat \<Rightarrow> string" where
  "qstar_genrule_output_format r i = genrule_meta_or_default (g_output_formats r) i ''file''"

definition qstar_genrule_output_group :: "qstar_genrule \<Rightarrow> nat \<Rightarrow> string" where
  "qstar_genrule_output_group r i =
     (let group = genrule_meta_or_default (g_output_groups r) i []
      in if group \<noteq> [] then group
         else if qstar_genrule_output_format r i = ''object'' then ''objects''
         else ''generated'')"

definition qstar_genrule_output_identity :: "qstar_genrule \<Rightarrow> nat \<Rightarrow> nat \<Rightarrow> string option" where
  "qstar_genrule_output_identity r i dstlen =
     (if length (g_outputs r) \<le> i then None
      else put dstlen (g_outputs r ! i @ ''|group='' @ qstar_genrule_output_group r i @
                       ''|format='' @ qstar_genrule_output_format r i))"

text \<open>The identities from index \<open>i\<close> on are appended to \<open>dst\<close> while they fit.\<close>

fun append_identities :: "qstar_genrule \<Rightarrow> nat \<Rightarrow> nat list \<Rightarrow> string \<Rightarrow> string option" where
  "append_identities r dstlen [] dst =
     (if dstlen < length dst + 2 then None else Some (dst @ '']''))"
| "append_identities r dstlen (i # is) dst = (case qstar_genrule_output_identity r i PATH_MAX of
      None \<Rightarrow> None
    | Some identity \<Rightarrow>
        (case put dstlen (dst @ (if i = 0 then identity else CHR '','' # identity)) of
           None \<Rightarrow> None
         | Some dst' \<Rightarrow> append_identities r dstlen is dst'))"

text \<open>
  A buffer of one byte has no room for the opening bracket and its NUL: the code writes both and
  leaves the buffer.
\<close>

definition qstar_genrule_output_identity_list :: "qstar_genrule \<Rightarrow> nat \<Rightarrow> string outcome" where
  "qstar_genrule_output_identity_list r dstlen =
     (if dstlen = 0 then Failure
      else if dstlen = 1 then Undefined
      else of_option (append_identities r dstlen [0..<length (g_outputs r)] ''[''))"

section \<open>Sorted listings\<close>

definition sort_target_ptrs :: "qstar_target list \<Rightarrow> qstar_target list" where
  "sort_target_ptrs = sort_ptrs t_label"

definition sort_toolset_ptrs :: "qstar_toolset list \<Rightarrow> qstar_toolset list" where
  "sort_toolset_ptrs = sort_ptrs ts_label"

definition sort_language_provider_ptrs :: "qstar_language_provider list \<Rightarrow> qstar_language_provider list" where
  "sort_language_provider_ptrs = sort_ptrs lp_namespace"

definition sort_config_ptrs :: "qstar_config list \<Rightarrow> qstar_config list" where
  "sort_config_ptrs = sort_ptrs cf_label"

definition sort_genrule_ptrs :: "qstar_genrule list \<Rightarrow> qstar_genrule list" where
  "sort_genrule_ptrs = sort_ptrs g_label"

definition sort_stage_ptrs :: "qstar_stage list \<Rightarrow> qstar_stage list" where
  "sort_stage_ptrs = sort_ptrs st_label"

definition sort_family_ptrs :: "qstar_target_family list \<Rightarrow> qstar_target_family list" where
  "sort_family_ptrs = sort_ptrs fam_name"

definition sort_test_suite_ptrs :: "qstar_test_suite list \<Rightarrow> qstar_test_suite list" where
  "sort_test_suite_ptrs = sort_ptrs su_label"

lemmas listing_defs =
  sort_target_ptrs_def sort_toolset_ptrs_def sort_language_provider_ptrs_def sort_config_ptrs_def
  sort_genrule_ptrs_def sort_stage_ptrs_def sort_family_ptrs_def sort_test_suite_ptrs_def

section \<open>What merging does\<close>

text \<open>The list fields a config contributes to, and the fields it never touches.\<close>

definition merged_lists :: "(qstar_target \<Rightarrow> string list) list" where
  "merged_lists = [t_public_headers, t_private_headers, t_include_dirs, t_public_include_dirs,
     t_private_include_dirs, t_interface_include_dirs, t_system_include_dirs, t_libs,
     t_lib_dirs, t_frameworks, t_link_options, t_link_inputs,
     t_cflags, t_cxxflags, t_asm_include_dirs, t_asm_compile_options]"

definition kept_lists :: "(qstar_target \<Rightarrow> string list) list" where
  "kept_lists = [t_configs, t_sources, t_objects, t_deps, t_private_deps, t_visibility]"

lemma replace_option_find:
  "List.find (option_key p n) (replace_option (pov_provider v) (pov_name v) v xs) =
   (if option_key p n v then Some v else List.find (option_key p n) xs)"
  using find_replace_option [of "pov_provider v" "pov_name v" v xs]
    find_replace_option_other [of "pov_provider v" "pov_name v" v p n xs]
  by (auto simp: option_key_def)

lemma option_value_eta:
  "\<lparr>pov_provider = pov_provider v, pov_name = pov_name v, pov_type = pov_type v, pov_value = pov_value v,
    pov_list = pov_list v\<rparr> = (v :: qstar_provider_option_value)"
  by (cases v) simp

lemma merge_options_Inr:
  assumes "merge_options vs t = Inr t'"
  shows "\<exists>os. t' = t\<lparr>t_provider_options := os\<rparr> \<and>
    (\<forall>p n. List.find (option_key p n) os =
       (case List.find (option_key p n) (rev vs) of
          Some v \<Rightarrow> Some v | None \<Rightarrow> List.find (option_key p n) (t_provider_options t)))"
  using assms
proof (induction vs arbitrary: t)
  case Nil
  then show ?case by (intro exI [of _ "t_provider_options t"]) simp
next
  case (Cons v vs)
  define os1 where "os1 = replace_option (pov_provider v) (pov_name v) v (t_provider_options t)"
  have "merge_options vs (t\<lparr>t_provider_options := os1\<rparr>) = Inr t'"
    using Cons.prems by (auto simp: os1_def qstar_target_set_provider_option_def option_value_eta split: if_splits)
  from Cons.IH [OF this] obtain os where os': "t' = t\<lparr>t_provider_options := os1\<rparr>\<lparr>t_provider_options := os\<rparr>"
    "\<forall>p n. List.find (option_key p n) os = (case List.find (option_key p n) (rev vs) of
         Some v \<Rightarrow> Some v
       | None \<Rightarrow> List.find (option_key p n) (t_provider_options (t\<lparr>t_provider_options := os1\<rparr>)))"
    by blast
  then have os: "t' = t\<lparr>t_provider_options := os\<rparr>"
    "List.find (option_key p n) os = (case List.find (option_key p n) (rev vs) of
         Some v \<Rightarrow> Some v | None \<Rightarrow> List.find (option_key p n) os1)" for p n
    by (simp_all split: option.splits)
  have "List.find P (xs @ ys) = (case List.find P xs of None \<Rightarrow> List.find P ys | Some x \<Rightarrow> Some x)"
    for P :: "qstar_provider_option_value \<Rightarrow> bool" and xs ys
    by (induction xs) auto
  then show ?case
    using os by (intro exI [of _ os]) (auto simp: os1_def replace_option_find split: option.splits)
qed

definition scalar_merge :: "(qstar_config \<Rightarrow> bool) \<Rightarrow> (qstar_target \<Rightarrow> cstr) \<Rightarrow> qstar_config \<Rightarrow> cstr \<Rightarrow> cstr" where
  "scalar_merge has sel c v = (if has c then replace_string v (sel (cf_options c)) else v)"

lemma apply_if_sel:
  "t_toolset (apply_if b f t) = (if b then t_toolset (f t) else t_toolset t)"
  "t_cxx_standard (apply_if b f t) = (if b then t_cxx_standard (f t) else t_cxx_standard t)"
  by (simp_all add: apply_if_def)

lemma scalars_keep:
  "list_all (\<lambda>sel. \<forall>t. sel (merge_config_scalars c t) = sel t) merged_lists"
  "list_all (\<lambda>sel. \<forall>t. sel (merge_config_scalars c t) = sel t) kept_lists"
  "t_label (merge_config_scalars c t) = t_label t" "t_kind (merge_config_scalars c t) = t_kind t"
  "t_provider_options (merge_config_scalars c t) = t_provider_options t"
  unfolding merge_config_scalars_def merged_lists_def kept_lists_def list.pred_inject
  by (intro conjI allI TrueI run_steps_keep; simp add: config_scalar_steps_def apply_if_def Let_def)+

lemma scalars_set:
  "t_toolset (merge_config_scalars c t) = scalar_merge cf_has_toolset t_toolset c (t_toolset t)"
  "t_cxx_standard (merge_config_scalars c t) =
     scalar_merge cf_has_cxx_standard t_cxx_standard c (t_cxx_standard t)"
  by (simp_all add: merge_config_scalars_def run_steps_def config_scalar_steps_def apply_if_sel
      scalar_merge_def Let_def)

lemma modules_keep:
  "list_all (\<lambda>sel. \<forall>t. sel (merge_modules opts t) = sel t) merged_lists"
  "list_all (\<lambda>sel. \<forall>t. sel (merge_modules opts t) = sel t) kept_lists"
  "t_label (merge_modules opts t) = t_label t" "t_kind (merge_modules opts t) = t_kind t"
  "t_toolset (merge_modules opts t) = t_toolset t" "t_cxx_standard (merge_modules opts t) = t_cxx_standard t"
  "t_provider_options (merge_modules opts t) = t_provider_options t"
  by (simp_all add: merge_modules_def merged_lists_def kept_lists_def Let_def)

lemma append_lists:
  "list_all (\<lambda>sel. sel ((append_config_lists opts t)\<lparr>t_provider_options := os\<rparr>) = sel t @ sel opts) merged_lists"
  "list_all (\<lambda>sel. sel ((append_config_lists opts t)\<lparr>t_provider_options := os\<rparr>) = sel t) kept_lists"
  "t_label (append_config_lists opts t) = t_label t" "t_kind (append_config_lists opts t) = t_kind t"
  "t_toolset (append_config_lists opts t) = t_toolset t"
  "t_cxx_standard (append_config_lists opts t) = t_cxx_standard t"
  "t_provider_options (append_config_lists opts t) = t_provider_options t"
  by (simp_all add: append_config_lists_def merged_lists_def kept_lists_def)

lemma merge_config_Inr:
  assumes "merge_config c t = Inr t'"
  shows "list_all (\<lambda>sel. sel t' = sel t @ sel (cf_options c)) merged_lists"
    and "list_all (\<lambda>sel. sel t' = sel t) kept_lists"
    and "t_label t' = t_label t" "t_kind t' = t_kind t"
    and "t_toolset t' = scalar_merge cf_has_toolset t_toolset c (t_toolset t)"
    and "t_cxx_standard t' = scalar_merge cf_has_cxx_standard t_cxx_standard c (t_cxx_standard t)"
    and "qstar_target_provider_option t' p n =
      (case List.find (option_key p n) (rev (t_provider_options (cf_options c))) of
         Some v \<Rightarrow> Some v | None \<Rightarrow> qstar_target_provider_option t p n)"
proof -
  obtain t1 where t1: "merge_config_lists (cf_options c) t = Inr t1"
    and t': "t' = merge_config_scalars c (merge_modules (cf_options c) t1)"
    using assms by (auto simp: merge_config_def split: sum.splits)
  from merge_options_Inr [OF t1 [unfolded merge_config_lists_def]] obtain os where
    os: "t1 = (append_config_lists (cf_options c) t)\<lparr>t_provider_options := os\<rparr>"
    "\<forall>p n. List.find (option_key p n) os =
       (case List.find (option_key p n) (rev (t_provider_options (cf_options c))) of
          Some v \<Rightarrow> Some v
        | None \<Rightarrow> List.find (option_key p n) (t_provider_options (append_config_lists (cf_options c) t)))"
    by blast
  note keep = scalars_keep modules_keep append_lists
  show "list_all (\<lambda>sel. sel t' = sel t @ sel (cf_options c)) merged_lists"
    using keep unfolding t' os(1) list_all_iff by metis
  show "list_all (\<lambda>sel. sel t' = sel t) kept_lists"
    using keep unfolding t' os(1) list_all_iff by metis
  show "t_label t' = t_label t" "t_kind t' = t_kind t"
    by (simp_all add: t' os(1) scalars_keep modules_keep append_lists)
  show "t_toolset t' = scalar_merge cf_has_toolset t_toolset c (t_toolset t)"
    "t_cxx_standard t' = scalar_merge cf_has_cxx_standard t_cxx_standard c (t_cxx_standard t)"
    by (simp_all add: t' os(1) scalars_set modules_keep append_lists)
  show "qstar_target_provider_option t' p n =
      (case List.find (option_key p n) (rev (t_provider_options (cf_options c))) of
         Some v \<Rightarrow> Some v | None \<Rightarrow> qstar_target_provider_option t p n)"
    using os(2) by (simp add: t' os(1) scalars_keep modules_keep append_lists qstar_target_provider_option_def
        split: option.splits)
qed

lemma apply_configs_Inr:
  assumes "apply_configs g ls t = Inr t'"
  shows "\<exists>cs. map (find_config g) ls = map Some cs
    \<and> (\<forall>sel \<in> set merged_lists. sel t' = sel t @ concat (map (\<lambda>c. sel (cf_options c)) cs))
    \<and> (\<forall>sel \<in> set kept_lists. sel t' = sel t) \<and> t_label t' = t_label t \<and> t_kind t' = t_kind t
    \<and> t_toolset t' = fold (scalar_merge cf_has_toolset t_toolset) cs (t_toolset t)
    \<and> t_cxx_standard t' = fold (scalar_merge cf_has_cxx_standard t_cxx_standard) cs (t_cxx_standard t)
    \<and> (\<forall>p n. qstar_target_provider_option t' p n =
      (case List.find (option_key p n) (rev (concat (map (\<lambda>c. t_provider_options (cf_options c)) cs))) of
         Some v \<Rightarrow> Some v | None \<Rightarrow> qstar_target_provider_option t p n))"
  using assms
proof (induction ls arbitrary: t)
  case Nil
  then show ?case by (intro exI [of _ "[]"]) simp
next
  case (Cons l ls)
  then obtain c t1 where c: "find_config g l = Some c" and m: "merge_config c t = Inr t1"
    and rest: "apply_configs g ls t1 = Inr t'"
    by (auto split: option.splits sum.splits)
  from Cons.IH [OF rest] obtain cs where cs: "map (find_config g) ls = map Some cs"
    "\<forall>sel \<in> set merged_lists. sel t' = sel t1 @ concat (map (\<lambda>c. sel (cf_options c)) cs)"
    "\<forall>sel \<in> set kept_lists. sel t' = sel t1" "t_label t' = t_label t1" "t_kind t' = t_kind t1"
    "t_toolset t' = fold (scalar_merge cf_has_toolset t_toolset) cs (t_toolset t1)"
    "t_cxx_standard t' = fold (scalar_merge cf_has_cxx_standard t_cxx_standard) cs (t_cxx_standard t1)"
    "\<And>p n. qstar_target_provider_option t' p n =
      (case List.find (option_key p n) (rev (concat (map (\<lambda>c. t_provider_options (cf_options c)) cs))) of
         Some v \<Rightarrow> Some v | None \<Rightarrow> qstar_target_provider_option t1 p n)"
    by blast
  have find_append: "List.find P (xs @ ys) = (case List.find P xs of None \<Rightarrow> List.find P ys | Some x \<Rightarrow> Some x)"
    for P :: "qstar_provider_option_value \<Rightarrow> bool" and xs ys
    by (induction xs) auto
  note step = merge_config_Inr [OF m, unfolded list_all_iff]
  have "\<forall>sel \<in> set merged_lists. sel t' = sel t @ concat (map (\<lambda>c. sel (cf_options c)) (c # cs))"
    using step(1) cs(2) by (metis append.assoc concat.simps(2) list.simps(9))
  moreover have "\<forall>sel \<in> set kept_lists. sel t' = sel t"
    using step(2) cs(3) by metis
  ultimately show ?case
    using step(3-) cs c
    by (intro exI [of _ "c # cs"]) (simp add: find_append split: option.splits)
qed

text \<open>
  Applying the configs of a target looks every one of them up, in order, and fails unless all
  exist. Each list field then is the target's own list followed by the lists of the configs in
  order; the toolset and the C++ standard are those of the last config that sets them; a provider
  option has the value of the last config that sets it and otherwise the target's own; sources,
  dependencies, visibility, label and kind are never changed.
\<close>

theorem apply_target_configs_merges:
  assumes "qstar_graph_apply_target_configs g t = Inr t'"
  shows "\<exists>cs. map (find_config g) (t_configs t) = map Some cs
    \<and> (\<forall>sel \<in> set merged_lists. sel t' = sel t @ concat (map (\<lambda>c. sel (cf_options c)) cs))
    \<and> (\<forall>sel \<in> set kept_lists. sel t' = sel t) \<and> t_label t' = t_label t \<and> t_kind t' = t_kind t
    \<and> t_toolset t' = fold (scalar_merge cf_has_toolset t_toolset) cs (t_toolset t)
    \<and> t_cxx_standard t' = fold (scalar_merge cf_has_cxx_standard t_cxx_standard) cs (t_cxx_standard t)
    \<and> (\<forall>p n. qstar_target_provider_option t' p n =
      (case List.find (option_key p n) (rev (concat (map (\<lambda>c. t_provider_options (cf_options c)) cs))) of
         Some v \<Rightarrow> Some v | None \<Rightarrow> qstar_target_provider_option t p n))"
  using assms unfolding qstar_graph_apply_target_configs_def by (rule apply_configs_Inr)

definition demo_config_graph :: qstar_graph where
  "demo_config_graph = qstar_graph_init\<lparr>gr_configs :=
     [zero_qstar_config\<lparr>cf_label := ''//:warn'',
        cf_options := zero_qstar_target\<lparr>t_cflags := [''-Wall'']\<rparr>\<rparr>]\<rparr>"

theorem apply_target_configs_merges_witness:
  "\<exists>t'. qstar_graph_apply_target_configs demo_config_graph
        (zero_qstar_target\<lparr>t_configs := [''//:warn''], t_cflags := [''-g'']\<rparr>) = Inr t' \<and>
     t_cflags t' = [''-g'', ''-Wall'']"
proof -
  let ?t = "zero_qstar_target\<lparr>t_configs := [''//:warn''], t_cflags := [''-g'']\<rparr>"
  let ?c = "zero_qstar_config\<lparr>cf_label := ''//:warn'',
      cf_options := zero_qstar_target\<lparr>t_cflags := [''-Wall'']\<rparr>\<rparr>"
  have find: "find_config demo_config_graph ''//:warn'' = Some ?c"
    by (simp add: find_config_def demo_config_graph_def)
  have "merge_config_lists (cf_options ?c) ?t \<noteq> Inl e" for e
    by (simp add: merge_config_lists_def append_config_lists_def zero_qstar_target_def)
  then obtain t' where t': "qstar_graph_apply_target_configs demo_config_graph ?t = Inr t'"
    by (cases "merge_config_lists (cf_options ?c) ?t")
       (auto simp: qstar_graph_apply_target_configs_def find merge_config_def)
  obtain cs where cs: "map (find_config demo_config_graph) (t_configs ?t) = map Some cs"
    "\<forall>sel \<in> set merged_lists. sel t' = sel ?t @ concat (map (\<lambda>c. sel (cf_options c)) cs)"
    using apply_target_configs_merges [OF t'] by blast
  have "t_cflags \<in> set merged_lists" by (simp add: merged_lists_def)
  moreover have "cs = [?c]" using cs(1) find by (cases cs) auto
  ultimately show ?thesis using cs(2) t' by auto
qed

section \<open>References\<close>

text \<open>
  Validation of toolset references accepts a graph exactly when no config, target or generated
  action names a toolset that was never declared.
\<close>

theorem validate_toolsets_iff:
  "passes (qstar_graph_validate_toolsets g) \<longleftrightarrow>
     \<not> (\<exists>c \<in> set (gr_configs g). cf_has_toolset c \<and> unknown_toolset g (t_toolset (cf_options c)))
   \<and> \<not> (\<exists>t \<in> set (gr_targets g). unknown_toolset g (t_toolset t))
   \<and> \<not> (\<exists>r \<in> set (gr_genrules g). unknown_toolset g (g_toolset r))"
  by (auto simp: qstar_graph_validate_toolsets_def)

section \<open>Tokens\<close>

lemma token_payload_iff:
  "token_payload prefix arg = Token p \<longleftrightarrow> p \<noteq> [] \<and> arg = Some (prefix @ p @ ''>'')"
proof -
  have "starts_with prefix a \<and> \<not> length a \<le> length prefix + 1 \<and> last a = CHR ''>'' \<and>
      p = butlast (drop (length prefix) a) \<longleftrightarrow> p \<noteq> [] \<and> a = prefix @ p @ ''>''" for a
  proof
    assume h: "starts_with prefix a \<and> \<not> length a \<le> length prefix + 1 \<and> last a = CHR ''>'' \<and>
      p = butlast (drop (length prefix) a)"
    then obtain r where r: "a = prefix @ r" by (auto simp: starts_with_iff)
    with h show "p \<noteq> [] \<and> a = prefix @ p @ ''>''"
      by (cases r rule: rev_cases) auto
  qed auto
  note eq = this
  show ?thesis
  proof (cases arg)
    case None
    then show ?thesis by (simp add: token_payload_def)
  next
    case (Some a)
    have "token_payload prefix arg = Token p \<longleftrightarrow> starts_with prefix a \<and> \<not> length a \<le> length prefix + 1 \<and>
        last a = CHR ''>'' \<and> p = butlast (drop (length prefix) a)"
      by (auto simp: token_payload_def Some)
    then show ?thesis unfolding eq using Some by simp
  qed
qed

text \<open>
  The \<open>qstar.target_file\<close> placeholder is unambiguous: an argument parses to a label and an
  artifact exactly when it is the placeholder written for them, with the artifact left out when it
  is empty. So no two placeholders are confused and no ordinary argument is taken for one.
\<close>

theorem target_file_token_iff:
  "qstar_target_file_token_parse (Some arg) n (Some m) = Token (label, artifact) \<longleftrightarrow>
     arg = ''<qstar-target-file:'' @ label @ (if artifact = [] then [] else ''#'' @ artifact) @ ''>''
     \<and> CHR ''#'' \<notin> set label \<and> label \<noteq> [] \<and> length label < n \<and> length artifact < m"
proof -
  have "qstar_target_file_token_parse (Some arg) n (Some m) = Token (label, artifact) \<longleftrightarrow>
    (\<exists>p. token_payload ''<qstar-target-file:'' (Some arg) = Token p \<and>
      p = label @ (if artifact = [] then [] else ''#'' @ artifact) \<and>
      CHR ''#'' \<notin> set label \<and> label \<noteq> [] \<and> length label < n \<and> length artifact < m)"
  proof (cases "token_payload ''<qstar-target-file:'' (Some arg)")
    case (Token p)
    show ?thesis
    proof (cases "strchr CHR ''#'' p")
      case None
      then have "CHR ''#'' \<notin> set p" by (simp add: strchr_None)
      then show ?thesis
        using Token None by (auto simp: qstar_target_file_token_parse_def Let_def)
    next
      case (Some q)
      obtain l s where q: "q = (l, s)" by force
      then have p: "p = l @ CHR ''#'' # s" "CHR ''#'' \<notin> set l" using Some by (auto simp: strchr_Some)
      have "p = label @ (if artifact = [] then [] else ''#'' @ artifact) \<and> CHR ''#'' \<notin> set label \<longleftrightarrow>
          label = l \<and> artifact = s \<and> s \<noteq> []"
      proof
        assume h: "p = label @ (if artifact = [] then [] else ''#'' @ artifact) \<and> CHR ''#'' \<notin> set label"
        then have "artifact \<noteq> []" using p(1) by auto
        with h have "strchr CHR ''#'' p = Some (label, artifact)" by (simp add: strchr_Some)
        with Some q \<open>artifact \<noteq> []\<close> show "label = l \<and> artifact = s \<and> s \<noteq> []" by simp
      qed (use p in auto)
      moreover have "qstar_target_file_token_parse (Some arg) n (Some m) = Token (label, artifact) \<longleftrightarrow>
          label = l \<and> artifact = s \<and> s \<noteq> [] \<and> l \<noteq> [] \<and> length l < n \<and> length s < m"
        using Token Some q by (auto simp: qstar_target_file_token_parse_def Let_def)
      ultimately show ?thesis using Token by auto
    qed
  qed (simp_all add: qstar_target_file_token_parse_def)
  also have "\<dots> \<longleftrightarrow> arg = ''<qstar-target-file:'' @ label @
      (if artifact = [] then [] else ''#'' @ artifact) @ ''>''
     \<and> CHR ''#'' \<notin> set label \<and> label \<noteq> [] \<and> length label < n \<and> length artifact < m"
    unfolding token_payload_iff by auto
  finally show ?thesis .
qed

lemma stage_dir_token_iff:
  "qstar_stage_dir_token_label (Some arg) n = Token l \<longleftrightarrow>
   arg = ''<qstar-stage-dir:'' @ l @ ''>'' \<and> l \<noteq> [] \<and> length l < n"
proof -
  have "qstar_stage_dir_token_label (Some arg) n = Token l \<longleftrightarrow>
      token_payload ''<qstar-stage-dir:'' (Some arg) = Token l \<and> l \<noteq> [] \<and> length l < n"
    by (cases "token_payload ''<qstar-stage-dir:'' (Some arg)") (auto simp: qstar_stage_dir_token_label_def)
  then show ?thesis unfolding token_payload_iff by auto
qed

lemma provider_tool_token_iff:
  "qstar_provider_tool_token_role (Some arg) n = Token r \<longleftrightarrow>
   arg = ''<qstar-tool:'' @ r @ ''>'' \<and> r \<noteq> [] \<and> length r < n"
proof -
  have "qstar_provider_tool_token_role (Some arg) n = Token r \<longleftrightarrow>
      token_payload ''<qstar-tool:'' (Some arg) = Token r \<and> length r < n"
    by (cases "token_payload ''<qstar-tool:'' (Some arg)") (auto simp: qstar_provider_tool_token_role_def)
  then show ?thesis unfolding token_payload_iff by auto
qed

section \<open>Listings\<close>

text \<open>
  A listing does not depend on the order of declaration: two graphs with the same targets, in
  whatever order they were declared, list them identically, sorted by label, each exactly once.
\<close>

theorem target_listing_deterministic:
  assumes "distinct (map t_label xs)" and "mset xs = mset ys"
  shows "sort_target_ptrs xs = sort_target_ptrs ys \<and> sorted (map t_label (sort_target_ptrs xs))
    \<and> mset (sort_target_ptrs xs) = mset xs"
proof -
  have "sort_key t_label xs = sort_key t_label ys"
    using assms by (intro sort_key_inj_key_eq) (simp_all add: distinct_map)
  then show ?thesis
    using sorted_sort_ptrs [of t_label xs] mset_sort_ptrs [of t_label xs]
    by (simp add: listing_defs sort_ptrs_eq_sort_key)
qed

theorem target_listing_deterministic_witness:
  "sort_target_ptrs [zero_qstar_target\<lparr>t_label := ''//:b''\<rparr>, zero_qstar_target\<lparr>t_label := ''//:a''\<rparr>] =
   sort_target_ptrs [zero_qstar_target\<lparr>t_label := ''//:a''\<rparr>, zero_qstar_target\<lparr>t_label := ''//:b''\<rparr>]"
  by (rule conjunct1, rule target_listing_deterministic) (simp_all add: add_mset_commute)


end
