(* ===== verification/QOptions.thy ===== *)
theory QOptions
  imports QConfigs
begin

text \<open>
  \<^verbatim>\<open>src/graph.c\<close>: typed project options, their command-line overrides, and variants. The lemmas show
  that every declared option has a value of its type whatever the command line says, and that an
  accepted command line names declared options only.
\<close>

section \<open>Names, types, values\<close>

definition project_option_name_valid :: "cstr \<Rightarrow> bool" where
  "project_option_name_valid name \<longleftrightarrow> (case name of
      None \<Rightarrow> False
    | Some s \<Rightarrow> s \<noteq> [] \<and> (is_alnum (hd s) \<or> hd s = CHR ''_'') \<and>
        list_all (\<lambda>c. is_alnum c \<or> c = CHR ''_'' \<or> c = CHR ''-'' \<or> c = CHR ''.'') s)"

definition project_string_list_contains :: "string list option \<Rightarrow> string \<Rightarrow> bool" where
  "project_string_list_contains xs v = (case xs of None \<Rightarrow> False | Some ys \<Rightarrow> list_contains ys v)"

definition project_option_type_valid :: "cstr \<Rightarrow> bool" where
  "project_option_type_valid ty \<longleftrightarrow>
     ty \<in> set [Some ''string'', Some ''boolean'', Some ''integer'', Some ''combo'', Some ''list'']"

definition project_option_value_valid :: "cstr \<Rightarrow> cstr \<Rightarrow> string list option \<Rightarrow> bool" where
  "project_option_value_valid ty val choices = (case (ty, val) of
      (Some t, Some v) \<Rightarrow>
        if t = ''string'' \<or> t = ''list'' then True
        else if t = ''boolean'' then v = ''true'' \<or> v = ''false''
        else if t = ''integer'' then v \<noteq> [] \<and> snd (strtol10 v) = []
        else if t = ''combo'' then project_string_list_contains choices v
        else False
    | _ \<Rightarrow> False)"

section \<open>Overrides and options\<close>

definition find_project_option_override :: "qstar_graph \<Rightarrow> string \<Rightarrow> qstar_project_option_override option" where
  "find_project_option_override g name = find_key oo_name name (gr_project_option_overrides g)"

definition qstar_graph_find_project_option :: "qstar_graph \<Rightarrow> string \<Rightarrow> qstar_project_option option" where
  "qstar_graph_find_project_option g name = find_key po_name name (gr_project_options g)"

definition qstar_project_option_effective_value :: "qstar_project_option option \<Rightarrow> string" where
  "qstar_project_option_effective_value opt = (case opt of
      None \<Rightarrow> []
    | Some o' \<Rightarrow> if po_overridden o' \<and> po_override_value o' \<noteq> None then str_or_empty (po_override_value o')
                else str_or_empty (po_value o'))"

definition qstar_graph_add_project_option_override :: "cstr \<times> cstr \<Rightarrow> qstar_graph \<Rightarrow> qerr + qstar_graph" where
  "qstar_graph_add_project_option_override = (\<lambda>(name, val) g.
     let n = str_or_empty name
     in if \<not> project_option_name_valid name then
          Inl (Plain (''qstar: invalid project option name '' @ sq n))
        else case val of
            None \<Rightarrow> Inl (Plain (''qstar: project option override '' @ sq n @ '' needs a value''))
          | Some v \<Rightarrow>
              if find_project_option_override g n \<noteq> None then
                Inl (Plain (''qstar: duplicate project option override '' @ sq (''-D '' @ n)))
              else Inr (g\<lparr>gr_project_option_overrides :=
                     gr_project_option_overrides g @ [\<lparr>oo_name = n, oo_value = v\<rparr>]\<rparr>))"

text \<open>What \<open>qstar.option\<close> passes: name, type, value, description, choices, file, line.\<close>

record option_decl =
  od_name :: cstr
  od_type :: cstr
  od_value :: cstr
  od_description :: cstr
  od_choices :: "string list option"
  od_file :: cstr
  od_line :: int

definition option_err :: "option_decl \<Rightarrow> string \<Rightarrow> string \<Rightarrow> qerr" where
  "option_err d field msg = Origin (str_or_empty (od_file d)) (od_line d) field (str_or_empty (od_name d)) msg"

definition new_project_option :: "qstar_project_option_override option \<Rightarrow> option_decl \<Rightarrow> qstar_project_option" where
  "new_project_option override d =
     \<lparr>po_name = str_or_empty (od_name d), po_type = str_or_empty (od_type d),
      po_value = Some (str_or_empty (od_value d)), po_description = str_or_empty (od_description d),
      po_choices = (case od_choices d of None \<Rightarrow> [] | Some xs \<Rightarrow> xs),
      po_override_value = map_option oo_value override,
      po_origin_file = str_or_empty (od_file d), po_origin_line = od_line d,
      po_overridden = (override \<noteq> None)\<rparr>"

definition check_project_option :: "qstar_graph \<Rightarrow> option_decl \<Rightarrow> check" where
  "check_project_option g d =
     (let n = str_or_empty (od_name d); ty = str_or_empty (od_type d);
          choices = (case od_choices d of None \<Rightarrow> [] | Some xs \<Rightarrow> xs);
          override = find_project_option_override g n;
          opt = ''qstar: project option '' @ sq n
      in check_seq
        [reject (\<not> project_option_name_valid (od_name d))
           (option_err d ''name'' (''qstar: invalid project option name '' @ sq n)),
         reject (qstar_graph_find_project_option g n \<noteq> None)
           (option_err d ''name'' (''qstar: duplicate project option '' @ sq n)),
         reject (\<not> project_option_type_valid (od_type d))
           (option_err d ''type'' (opt @ '' has unknown type '' @ sq ty)),
         reject (ty = ''combo'' \<and> choices = [])
           (option_err d ''choices'' (opt @ '' type combo requires choices'')),
         reject (ty \<noteq> ''combo'' \<and> choices \<noteq> [])
           (option_err d ''choices'' (opt @ '' choices are only valid for combo'')),
         reject (\<not> project_option_value_valid (od_type d) (od_value d) (od_choices d))
           (option_err d ''value'' (opt @ '' value '' @ sq (str_or_empty (od_value d)) @
              '' is invalid for type '' @ ty)),
         reject (override \<noteq> None \<and>
             \<not> project_option_value_valid (od_type d) (map_option oo_value override) (od_choices d))
           (option_err d ''value'' (opt @ '' override value '' @
              sq (str_or_empty (map_option oo_value override)) @ '' is invalid for type '' @ ty))])"

definition qstar_graph_add_project_option :: "option_decl \<Rightarrow> qstar_graph \<Rightarrow> qerr + qstar_graph" where
  "qstar_graph_add_project_option d g = (case check_project_option g d of
      Inl e \<Rightarrow> Inl e
    | Inr _ \<Rightarrow> Inr (g\<lparr>gr_project_options := gr_project_options g @
        [new_project_option (find_project_option_override g (str_or_empty (od_name d))) d]\<rparr>))"

definition qstar_graph_validate_project_option_overrides :: "qstar_graph \<Rightarrow> check" where
  "qstar_graph_validate_project_option_overrides g =
     check_all (\<lambda>o'. reject (qstar_graph_find_project_option g (oo_name o') = None)
       (Plain (''qstar: unknown project option override '' @ sq (''-D '' @ oo_name o'))))
       (gr_project_option_overrides g)"

section \<open>Variants\<close>

definition has_variant :: "qstar_graph \<Rightarrow> string \<Rightarrow> bool" where
  "has_variant g name \<longleftrightarrow> list_ex (\<lambda>v. va_name v = name) (gr_variants g)"

definition qstar_graph_add_variant ::
  "cstr \<times> cstr \<times> string list \<times> string list option \<times> cstr \<times> int \<Rightarrow> qstar_graph \<Rightarrow> qerr + qstar_graph" where
  "qstar_graph_add_variant = (\<lambda>(name, description, tags, values, file, line) g.
     let n = str_or_empty name; vs = (case values of None \<Rightarrow> [] | Some xs \<Rightarrow> xs);
         err = (\<lambda>field msg. Origin (str_or_empty file) line field n msg)
     in if \<not> project_option_name_valid name then Inl (err ''name'' (''qstar: invalid variant name '' @ sq n))
        else if has_variant g n then Inl (err ''name'' (''qstar: duplicate variant '' @ sq n))
        else if vs = [] then
          Inl (err ''values'' (''qstar: variant '' @ sq n @ '' requires values metadata''))
        else Inr (g\<lparr>gr_variants := gr_variants g @
          [\<lparr>va_name = n, va_description = str_or_empty description, va_tags = tags, va_values = vs,
            va_origin_file = str_or_empty file, va_origin_line = line\<rparr>]\<rparr>))"

interpretation override_registry: keyed_registry gr_project_option_overrides oo_name
    find_project_option_override qstar_graph_add_project_option_override
    "\<lambda>(name, val). \<lparr>oo_name = str_or_empty name, oo_value = str_or_empty val\<rparr>"
  by unfold_locales (auto simp: find_project_option_override_def find_key_None
      qstar_graph_add_project_option_override_def Let_def split: if_splits option.splits prod.splits)

interpretation variant_registry: keyed_registry gr_variants va_name
    "\<lambda>g n. find_key va_name n (gr_variants g)" qstar_graph_add_variant
    "\<lambda>(name, description, tags, values, file, line).
       \<lparr>va_name = str_or_empty name, va_description = str_or_empty description, va_tags = tags,
        va_values = (case values of None \<Rightarrow> [] | Some xs \<Rightarrow> xs), va_origin_file = str_or_empty file,
        va_origin_line = line\<rparr>"
  by unfold_locales (auto simp: qstar_graph_add_variant_def has_variant_def list_ex_iff Let_def
      split: if_splits prod.splits)

section \<open>Values always fit their type\<close>

lemma check_project_option_passes:
  assumes "check_project_option g d = Inr u"
  shows "project_option_name_valid (od_name d)" "qstar_graph_find_project_option g (str_or_empty (od_name d)) = None"
    "project_option_type_valid (od_type d)"
    "project_option_value_valid (od_type d) (od_value d) (od_choices d)"
    "find_project_option_override g (str_or_empty (od_name d)) = Some w \<Longrightarrow>
      project_option_value_valid (od_type d) (Some (oo_value w)) (od_choices d)"
proof -
  have "passes (check_project_option g d)" using assms by simp
  note p = this [unfolded check_project_option_def Let_def passes_check_seq]
  show "project_option_name_valid (od_name d)"
    "qstar_graph_find_project_option g (str_or_empty (od_name d)) = None"
    "project_option_type_valid (od_type d)"
    "project_option_value_valid (od_type d) (od_value d) (od_choices d)"
    "find_project_option_override g (str_or_empty (od_name d)) = Some w \<Longrightarrow>
      project_option_value_valid (od_type d) (Some (oo_value w)) (od_choices d)"
    using p by auto
qed

lemma option_value_valid_Some:
  "project_option_value_valid ty val choices \<Longrightarrow> project_option_value_valid ty (Some (str_or_empty val)) choices"
  by (cases ty; cases val) (simp_all add: project_option_value_valid_def)

lemma option_type_valid_Some: "project_option_type_valid ty \<Longrightarrow> project_option_type_valid (Some (str_or_empty ty))"
  by (auto simp: project_option_type_valid_def)

text \<open>
  Whatever value the command line gives, a declared project option has a known type and its
  effective value, which is the override when there is one and the declared default otherwise,
  is a legal value of that type; the declaration fails otherwise.
\<close>

theorem project_option_effective_value_typed:
  assumes "qstar_graph_add_project_option d g = Inr g'"
  shows "\<exists>opt. qstar_graph_find_project_option g' (str_or_empty (od_name d)) = Some opt
    \<and> project_option_type_valid (Some (po_type opt))
    \<and> project_option_value_valid (od_type d) (Some (qstar_project_option_effective_value (Some opt))) (od_choices d)
    \<and> qstar_project_option_effective_value (Some opt) =
        (case find_project_option_override g (str_or_empty (od_name d)) of
           Some w \<Rightarrow> oo_value w | None \<Rightarrow> str_or_empty (od_value d))"
proof -
  let ?n = "str_or_empty (od_name d)"
  let ?opt = "new_project_option (find_project_option_override g ?n) d"
  obtain u where c: "check_project_option g d = Inr u"
    and g': "g' = g\<lparr>gr_project_options := gr_project_options g @ [?opt]\<rparr>"
    using assms by (auto simp: qstar_graph_add_project_option_def split: sum.splits)
  note passed = check_project_option_passes [OF c]
  have found: "qstar_graph_find_project_option g' ?n = Some ?opt"
    using passed(2) by (simp add: qstar_graph_find_project_option_def g' find_key_append
        new_project_option_def)
  have eff: "qstar_project_option_effective_value (Some ?opt) =
      (case find_project_option_override g ?n of Some w \<Rightarrow> oo_value w | None \<Rightarrow> str_or_empty (od_value d))"
    by (simp add: qstar_project_option_effective_value_def new_project_option_def split: option.splits)
  have "project_option_type_valid (Some (po_type ?opt))"
    using option_type_valid_Some [OF passed(3)] by (simp add: new_project_option_def)
  moreover have "project_option_value_valid (od_type d)
      (Some (qstar_project_option_effective_value (Some ?opt))) (od_choices d)"
    unfolding eff using passed(5) option_value_valid_Some [OF passed(4)]
    by (cases "find_project_option_override g ?n") simp_all
  ultimately show ?thesis using found eff by blast
qed

theorem project_option_effective_value_typed_witness:
  "\<exists>g' opt. qstar_graph_find_project_option g' ''jobs'' = Some opt
    \<and> qstar_project_option_effective_value (Some opt) = ''8''"
proof -
  let ?g = "qstar_graph_init\<lparr>gr_project_option_overrides := [\<lparr>oo_name = ''jobs'', oo_value = ''8''\<rparr>]\<rparr>"
  let ?d = "\<lparr>od_name = Some ''jobs'', od_type = Some ''integer'', od_value = Some ''4'', od_description = None,
    od_choices = None, od_file = None, od_line = 1\<rparr>"
  have "project_option_name_valid (Some ''jobs'')"
    "project_option_value_valid (Some ''integer'') (Some ''8'') None"
    "project_option_value_valid (Some ''integer'') (Some ''4'') None"
    by code_simp+
  then have "check_project_option ?g ?d = Inr ()"
    by (simp add: check_project_option_def check_seq.simps reject_def find_project_option_override_def
        qstar_graph_find_project_option_def qstar_graph_init_def zero_defs project_option_type_valid_def)
  then obtain g' where "qstar_graph_add_project_option ?d ?g = Inr g'"
    by (simp add: qstar_graph_add_project_option_def)
  from project_option_effective_value_typed [OF this] show ?thesis
    by (auto simp: find_project_option_override_def)
qed

lemma validate_overrides_iff:
  "passes (qstar_graph_validate_project_option_overrides g) \<longleftrightarrow>
   (\<forall>w \<in> set (gr_project_option_overrides g). oo_name w \<in> po_name ` set (gr_project_options g))"
  using find_key_ex [of po_name _ "gr_project_options g"]
  by (auto simp: qstar_graph_validate_project_option_overrides_def qstar_graph_find_project_option_def)

end
