(* ===== verification/QUsage.thy ===== *)
theory QUsage
  imports QRegistry
begin

text \<open>
  \<^verbatim>\<open>src/graph.c\<close>: the compile and link usage a target inherits. The walk starts at the public and
  private dependencies of the target and follows public dependencies from there on; options and
  inputs are appended once. The lemmas show that the walk returns and collects exactly the usage of
  the targets reachable that way, without duplicates, cycles in the graph included.
\<close>

section \<open>The walk\<close>

definition usage_find_target :: "qstar_graph \<Rightarrow> string \<Rightarrow> qstar_target option" where
  "usage_find_target g label = find_key t_label label (gr_targets g)"

definition usage_list_contains :: "string list \<Rightarrow> string \<Rightarrow> bool" where
  "usage_list_contains xs v \<longleftrightarrow> list_contains xs v"

definition usage_push_unique :: "string list \<Rightarrow> string \<Rightarrow> string list" where
  "usage_push_unique xs v = (if usage_list_contains xs v then xs else xs @ [v])"

definition usage_options :: "bool \<Rightarrow> qstar_target \<Rightarrow> string list" where
  "usage_options link t = (if link then t_link_usage_options t else t_compile_usage_options t)"

definition usage_inputs :: "bool \<Rightarrow> qstar_target \<Rightarrow> string list" where
  "usage_inputs link t = (if link then t_link_usage_inputs t else t_compile_usage_inputs t)"

text \<open>The lists filled by the walk: options, inputs, labels seen.\<close>

record usage =
  us_options :: "string list"
  us_inputs :: "string list"
  us_seen :: "string list"

definition add_usage :: "bool \<Rightarrow> qstar_target \<Rightarrow> usage \<Rightarrow> usage" where
  "add_usage link t u =
     \<lparr>us_options = fold (\<lambda>v xs. usage_push_unique xs v) (usage_options link t) (us_options u),
      us_inputs = fold (\<lambda>v xs. usage_push_unique xs v) (usage_inputs link t) (us_inputs u),
      us_seen = us_seen u @ [t_label t]\<rparr>"

text \<open>A dependency that is an external label, or that names no target, is skipped.\<close>

definition local_dep :: "qstar_graph \<Rightarrow> string \<Rightarrow> qstar_target option" where
  "local_dep g l = (if take 1 l = ''@'' then None else usage_find_target g l)"

fun collect_usage_rec :: "qstar_graph \<Rightarrow> bool \<Rightarrow> nat \<Rightarrow> qstar_target \<Rightarrow> usage \<Rightarrow> usage option"
  and collect_usage_deps :: "qstar_graph \<Rightarrow> bool \<Rightarrow> nat \<Rightarrow> string list \<Rightarrow> usage \<Rightarrow> usage option" where
  "collect_usage_rec g link 0 t u = None"
| "collect_usage_rec g link (Suc f) t u =
     (if usage_list_contains (us_seen u) (t_label t) then Some u
      else collect_usage_deps g link f (t_deps t) (add_usage link t u))"
| "collect_usage_deps g link f [] u = Some u"
| "collect_usage_deps g link f (l # ls) u = (case local_dep g l of
      None \<Rightarrow> collect_usage_deps g link f ls u
    | Some t \<Rightarrow> (case collect_usage_rec g link f t u of
          None \<Rightarrow> None
        | Some u' \<Rightarrow> collect_usage_deps g link f ls u'))"

text \<open>One more level of recursion than there are targets is enough, by \<open>collect_returns\<close>.\<close>

definition collect_target_usage :: "qstar_graph \<Rightarrow> qstar_target \<Rightarrow> bool \<Rightarrow> usage option" where
  "collect_target_usage g t link =
     collect_usage_deps g link (length (gr_targets g) + 1) (t_deps t @ t_private_deps t)
       \<lparr>us_options = [], us_inputs = [], us_seen = []\<rparr>"

definition qstar_graph_collect_compile_usage ::
  "qstar_graph \<Rightarrow> qstar_target \<Rightarrow> (string list \<times> string list) option" where
  "qstar_graph_collect_compile_usage g t =
     map_option (\<lambda>u. (us_options u, us_inputs u)) (collect_target_usage g t False)"

definition qstar_graph_collect_link_usage ::
  "qstar_graph \<Rightarrow> qstar_target \<Rightarrow> (string list \<times> string list) option" where
  "qstar_graph_collect_link_usage g t =
     map_option (\<lambda>u. (us_options u, us_inputs u)) (collect_target_usage g t True)"

section \<open>Which targets the walk reaches\<close>

definition dep_targets :: "qstar_graph \<Rightarrow> string list \<Rightarrow> qstar_target set" where
  "dep_targets g ls = {t. \<exists>l\<in>set ls. local_dep g l = Some t}"

inductive_set reached :: "qstar_graph \<Rightarrow> qstar_target set \<Rightarrow> qstar_target set"
  for g :: qstar_graph and roots :: "qstar_target set" where
  reached_root: "t \<in> roots \<Longrightarrow> t \<in> reached g roots"
| reached_step: "t \<in> reached g roots \<Longrightarrow> s \<in> dep_targets g (t_deps t) \<Longrightarrow> s \<in> reached g roots"

text \<open>A target the walk meets is the first one with its label, so labels stand for targets.\<close>

definition known :: "qstar_graph \<Rightarrow> qstar_target \<Rightarrow> bool" where
  "known g t \<longleftrightarrow> usage_find_target g (t_label t) = Some t"

lemma local_dep_known: "local_dep g l = Some t \<Longrightarrow> known g t"
  using find_key_Some [of t_label l "gr_targets g" t]
  by (auto simp: local_dep_def known_def usage_find_target_def split: if_splits)

lemma known_inject: "known g s \<Longrightarrow> known g t \<Longrightarrow> t_label s = t_label t \<Longrightarrow> s = t"
  by (simp add: known_def)

lemma dep_targets_known: "t \<in> dep_targets g ls \<Longrightarrow> known g t"
  by (auto simp: dep_targets_def local_dep_known)

lemma dep_targets_simps [simp]:
  "dep_targets g [] = {}"
  "dep_targets g (l # ls) = set_option (local_dep g l) \<union> dep_targets g ls"
  by (auto simp: dep_targets_def elem_set)

lemma usage_push_unique_eq: "usage_push_unique = push_unique"
  by (intro ext) (simp add: usage_push_unique_def usage_list_contains_def push_unique_def)

text \<open>What one piece of the walk does to the three lists, in terms of the targets it adds.\<close>

definition adds :: "qstar_graph \<Rightarrow> bool \<Rightarrow> usage \<Rightarrow> usage \<Rightarrow> qstar_target set \<Rightarrow> bool" where
  "adds g link u u' T \<longleftrightarrow> set (us_seen u') = set (us_seen u) \<union> t_label ` T
     \<and> set (us_options u') = set (us_options u) \<union> (\<Union>t\<in>T. set (usage_options link t))
     \<and> set (us_inputs u') = set (us_inputs u) \<union> (\<Union>t\<in>T. set (usage_inputs link t))
     \<and> (\<forall>t\<in>T. known g t \<and> t_label ` dep_targets g (t_deps t) \<subseteq> set (us_seen u'))
     \<and> (distinct (us_options u) \<longrightarrow> distinct (us_options u'))
     \<and> (distinct (us_inputs u) \<longrightarrow> distinct (us_inputs u'))"

lemma adds_refl: "adds g link u u {}"
  by (simp add: adds_def)

lemma adds_known: "adds g link u u' T \<Longrightarrow> t \<in> T \<Longrightarrow> known g t"
  and adds_closed: "adds g link u u' T \<Longrightarrow> t \<in> T \<Longrightarrow> s \<in> dep_targets g (t_deps t) \<Longrightarrow>
    t_label s \<in> set (us_seen u')"
  and adds_seen: "adds g link u u' T \<Longrightarrow> set (us_seen u') = set (us_seen u) \<union> t_label ` T"
  unfolding adds_def by blast+

lemma adds_trans:
  assumes "adds g link a b S" and "adds g link b c T"
  shows "adds g link a c (S \<union> T)"
proof -
  have "known g t \<and> t_label ` dep_targets g (t_deps t) \<subseteq> set (us_seen c)" if "t \<in> S \<union> T" for t
    using that adds_known [OF assms(1)] adds_known [OF assms(2)] adds_closed [OF assms(1)]
      adds_closed [OF assms(2)] adds_seen [OF assms(2)] by blast
  then show ?thesis
    using assms unfolding adds_def by (simp add: Un_assoc image_Un UN_Un)
qed

lemma add_usage_sets:
  "us_seen (add_usage link t u) = us_seen u @ [t_label t]"
  "set (us_options (add_usage link t u)) = set (us_options u) \<union> set (usage_options link t)"
  "set (us_inputs (add_usage link t u)) = set (us_inputs u) \<union> set (usage_inputs link t)"
  "distinct (us_options u) \<Longrightarrow> distinct (us_options (add_usage link t u))"
  "distinct (us_inputs u) \<Longrightarrow> distinct (us_inputs (add_usage link t u))"
  using fold_push_unique by (simp_all add: add_usage_def usage_push_unique_eq)

lemma adds_enter:
  assumes "adds g link (add_usage link t u) u' T" and "known g t"
    and "t_label ` dep_targets g (t_deps t) \<subseteq> set (us_seen u')"
  shows "adds g link u u' (insert t T)"
proof -
  let ?v = "add_usage link t u"
  have sets: "set (us_seen u') = set (us_seen ?v) \<union> t_label ` T"
    "set (us_options u') = set (us_options ?v) \<union> (\<Union>t\<in>T. set (usage_options link t))"
    "set (us_inputs u') = set (us_inputs ?v) \<union> (\<Union>t\<in>T. set (usage_inputs link t))"
    and ball: "\<forall>t\<in>T. known g t \<and> t_label ` dep_targets g (t_deps t) \<subseteq> set (us_seen u')"
    and "distinct (us_options ?v) \<Longrightarrow> distinct (us_options u')"
    "distinct (us_inputs ?v) \<Longrightarrow> distinct (us_inputs u')"
    using assms(1) unfolding adds_def by blast+
  moreover have "\<forall>t\<in>insert t T. known g t \<and> t_label ` dep_targets g (t_deps t) \<subseteq> set (us_seen u')"
    using ball assms(2,3) by blast
  ultimately show ?thesis
    using add_usage_sets(4,5) [of u link t]
    unfolding adds_def by (simp add: add_usage_sets(1-3) Un_assoc)
qed

definition rec_ok :: "qstar_graph \<Rightarrow> bool \<Rightarrow> nat \<Rightarrow> bool" where
  "rec_ok g link f \<longleftrightarrow> (\<forall>t u u'. known g t \<longrightarrow> collect_usage_rec g link f t u = Some u' \<longrightarrow>
     (\<exists>T. adds g link u u' T \<and> T \<subseteq> reached g {t} \<and> t_label t \<in> set (us_seen u')))"

lemma reached_mono: "S \<subseteq> T \<Longrightarrow> reached g S \<subseteq> reached g T"
proof
  fix x assume "S \<subseteq> T" "x \<in> reached g S"
  from this(2) show "x \<in> reached g T"
    by (induction rule: reached.induct) (use \<open>S \<subseteq> T\<close> in \<open>auto intro: reached.intros\<close>)
qed

lemma reached_deps: "reached g (dep_targets g (t_deps t)) \<subseteq> reached g {t}"
proof
  fix x assume "x \<in> reached g (dep_targets g (t_deps t))"
  then show "x \<in> reached g {t}"
    by (induction rule: reached.induct) (auto intro: reached.intros)
qed

lemma deps_ok:
  assumes "rec_ok g link f" and "collect_usage_deps g link f ls u = Some u'"
  shows "\<exists>T. adds g link u u' T \<and> T \<subseteq> reached g (dep_targets g ls) \<and>
    t_label ` dep_targets g ls \<subseteq> set (us_seen u')"
  using assms(2)
proof (induction ls arbitrary: u)
  case Nil
  then show ?case using adds_refl by force
next
  case (Cons l ls)
  show ?case
  proof (cases "local_dep g l")
    case None
    then show ?thesis using Cons by simp
  next
    case (Some t)
    then obtain u1 where r: "collect_usage_rec g link f t u = Some u1"
      and d: "collect_usage_deps g link f ls u1 = Some u'"
      using Cons.prems by (auto split: option.splits)
    obtain T1 where T1: "adds g link u u1 T1" "T1 \<subseteq> reached g {t}" "t_label t \<in> set (us_seen u1)"
      using assms(1) r local_dep_known [OF Some] unfolding rec_ok_def by blast
    obtain T2 where T2: "adds g link u1 u' T2" "T2 \<subseteq> reached g (dep_targets g ls)"
      "t_label ` dep_targets g ls \<subseteq> set (us_seen u')"
      using Cons.IH [OF d] by blast
    have "t_label t \<in> set (us_seen u')" using T1(3) T2(1) by (auto simp: adds_def)
    moreover have "T1 \<union> T2 \<subseteq> reached g (dep_targets g (l # ls))"
      using T1(2) T2(2) Some reached_mono [of "{t}" "dep_targets g (l # ls)" g]
        reached_mono [of "dep_targets g ls" "dep_targets g (l # ls)" g] by auto
    ultimately show ?thesis
      using adds_trans [OF T1(1) T2(1)] T2(3) Some by (intro exI [of _ "T1 \<union> T2"]) simp
  qed
qed

lemma rec_ok: "rec_ok g link f"
proof (induction f)
  case 0
  show ?case by (simp add: rec_ok_def)
next
  case (Suc f)
  show ?case unfolding rec_ok_def
  proof (intro allI impI)
    fix t u u'
    assume t: "known g t" and r: "collect_usage_rec g link (Suc f) t u = Some u'"
    show "\<exists>T. adds g link u u' T \<and> T \<subseteq> reached g {t} \<and> t_label t \<in> set (us_seen u')"
    proof (cases "t_label t \<in> set (us_seen u)")
      case True
      then show ?thesis
        using r adds_refl [of g link u] by (intro exI [of _ "{}"]) (simp add: usage_list_contains_def)
    next
      case False
      then have "collect_usage_deps g link f (t_deps t) (add_usage link t u) = Some u'"
        using r by (simp add: usage_list_contains_def)
      from deps_ok [OF Suc this] obtain T where T: "adds g link (add_usage link t u) u' T"
        "T \<subseteq> reached g (dep_targets g (t_deps t))"
        "t_label ` dep_targets g (t_deps t) \<subseteq> set (us_seen u')" by blast
      have "insert t T \<subseteq> reached g {t}"
        using T(2) reached_deps [of g t] reached_root [of t "{t}" g] by blast
      moreover have "t_label t \<in> set (us_seen u')"
        using T(1) by (auto simp: adds_def add_usage_sets)
      ultimately show ?thesis using adds_enter [OF T(1) t T(3)] by blast
    qed
  qed
qed

section \<open>The walk returns\<close>

definition unseen :: "qstar_graph \<Rightarrow> usage \<Rightarrow> string set" where
  "unseen g u = t_label ` set (gr_targets g) - set (us_seen u)"

lemma unseen_finite [simp]: "finite (unseen g u)"
  by (simp add: unseen_def)

lemma known_label: "known g t \<Longrightarrow> t_label t \<in> t_label ` set (gr_targets g)"
  using find_key_Some [of t_label "t_label t" "gr_targets g" t]
  by (auto simp: known_def usage_find_target_def)

lemma unseen_enter:
  assumes "known g t" and "t_label t \<notin> set (us_seen u)"
  shows "card (unseen g (add_usage link t u)) < card (unseen g u)"
  using known_label [OF assms(1)] assms(2)
  by (intro psubset_card_mono) (auto simp: unseen_def add_usage_sets)

definition rec_fuel :: "qstar_graph \<Rightarrow> bool \<Rightarrow> nat \<Rightarrow> bool" where
  "rec_fuel g link f \<longleftrightarrow> (\<forall>t u. known g t \<longrightarrow> card (unseen g u) < f \<longrightarrow> collect_usage_rec g link f t u \<noteq> None)"

lemma deps_fuel:
  assumes "rec_fuel g link f" and "card (unseen g u) < f"
  shows "collect_usage_deps g link f ls u \<noteq> None"
  using assms(2)
proof (induction ls arbitrary: u)
  case Nil
  then show ?case by simp
next
  case (Cons l ls)
  show ?case
  proof (cases "local_dep g l")
    case None
    then show ?thesis using Cons by simp
  next
    case (Some t)
    then have k: "known g t" by (rule local_dep_known)
    then obtain u1 where r: "collect_usage_rec g link f t u = Some u1"
      using assms(1) Cons.prems unfolding rec_fuel_def by blast
    have "unseen g u1 \<subseteq> unseen g u"
      using rec_ok [of g link f] k r unfolding rec_ok_def adds_def unseen_def by blast
    then have "card (unseen g u1) \<le> card (unseen g u)" by (simp add: card_mono)
    then have "collect_usage_deps g link f ls u1 \<noteq> None" using Cons by simp
    then show ?thesis using Some r by simp
  qed
qed

lemma rec_fuel: "rec_fuel g link f"
proof (induction f)
  case 0
  show ?case by (simp add: rec_fuel_def)
next
  case (Suc f)
  show ?case unfolding rec_fuel_def
  proof (intro allI impI)
    fix t u
    assume "known g t" "card (unseen g u) < Suc f"
    then show "collect_usage_rec g link (Suc f) t u \<noteq> None"
      using deps_fuel [OF Suc, of "add_usage link t u"] unseen_enter [of g t u link]
      by (cases "t_label t \<in> set (us_seen u)") (simp_all add: usage_list_contains_def)
  qed
qed

lemma collect_returns: "collect_target_usage g t link \<noteq> None"
proof -
  have "card (unseen g \<lparr>us_options = [], us_inputs = [], us_seen = []\<rparr>) \<le> length (gr_targets g)"
    using card_image_le [of "set (gr_targets g)" t_label] card_length [of "gr_targets g"]
    by (simp add: unseen_def)
  then show ?thesis
    unfolding collect_target_usage_def by (intro deps_fuel [OF rec_fuel]) simp
qed

text \<open>
  C28: The usage of a target always comes out, even on a cyclic graph, and is exact: its options are
  the usage options of precisely the targets reachable by one public or private dependency followed
  by public dependencies, each option once; the same holds for the inputs.
\<close>

theorem collect_usage_exact:
  "\<exists>u. collect_target_usage g t link = Some u
    \<and> set (us_options u) = (\<Union>s\<in>reached g (dep_targets g (t_deps t @ t_private_deps t)). set (usage_options link s))
    \<and> set (us_inputs u) = (\<Union>s\<in>reached g (dep_targets g (t_deps t @ t_private_deps t)). set (usage_inputs link s))
    \<and> distinct (us_options u) \<and> distinct (us_inputs u)"
proof -
  let ?ls = "t_deps t @ t_private_deps t"
  obtain u where u: "collect_target_usage g t link = Some u" using collect_returns by blast
  from deps_ok [OF rec_ok this [unfolded collect_target_usage_def]] obtain T where
    T: "adds g link \<lparr>us_options = [], us_inputs = [], us_seen = []\<rparr> u T"
    "T \<subseteq> reached g (dep_targets g ?ls)" "t_label ` dep_targets g ?ls \<subseteq> set (us_seen u)" by blast
  have member: "s \<in> T" if "known g s" "t_label s \<in> set (us_seen u)" for s
  proof -
    from that(2) T(1) obtain s' where "s' \<in> T" "t_label s' = t_label s" by (auto simp: adds_def)
    then show ?thesis using that(1) T(1) known_inject [of g s' s] by (auto simp: adds_def)
  qed
  have "s \<in> T" if "s \<in> reached g (dep_targets g ?ls)" for s
    using that
  proof (induction rule: reached.induct)
    case (reached_root s)
    then show ?case using T(3) by (intro member dep_targets_known) auto
  next
    case (reached_step t s)
    then show ?case using adds_closed [OF T(1)] dep_targets_known by (blast intro: member)
  qed
  then have "T = reached g (dep_targets g ?ls)" using T(2) by blast
  then show ?thesis using u T(1) by (simp add: adds_def)
qed

end
