(* ===== verification/QDfs.thy ===== *)
theory QDfs
  imports QPrelude
begin

text \<open>
  The depth-first cycle check that \<^verbatim>\<open>src/graph.c\<close> runs on project commands and \<^verbatim>\<open>src/test_suite.c\<close> on test
  suites: an array of colours (0 unvisited, 1 on the current path, 2 finished), recursion on the
  callees of a node, an error when a node on the current path is met again. The locale shows that
  the check succeeds exactly when the call graph has no cycle and no callee is unknown, and that
  one unit of fuel more than there are unvisited nodes is always enough.
\<close>

text \<open>
  \<open>succs i\<close> lists the callees of node \<open>i\<close> in the order of the code's loop; \<open>Inl e\<close> is a callee that
  stops the loop with error \<open>e\<close>. \<open>cyc i\<close> is the error of meeting \<open>i\<close> on the current path. \<open>None\<close> is a
  run out of fuel, which the C recursion never is.
\<close>

fun dfs_visit :: "(nat \<Rightarrow> (qerr + nat) list) \<Rightarrow> (nat \<Rightarrow> qerr) \<Rightarrow> nat \<Rightarrow> nat \<Rightarrow> (nat \<Rightarrow> nat) \<Rightarrow>
    (qerr + (nat \<Rightarrow> nat)) option"
  and dfs_list :: "(nat \<Rightarrow> (qerr + nat) list) \<Rightarrow> (nat \<Rightarrow> qerr) \<Rightarrow> nat \<Rightarrow> (qerr + nat) list \<Rightarrow> (nat \<Rightarrow> nat) \<Rightarrow>
    (qerr + (nat \<Rightarrow> nat)) option" where
  "dfs_visit succs cyc 0 i st = None"
| "dfs_visit succs cyc (Suc f) i st =
     (if st i = 1 then Some (Inl (cyc i))
      else if st i = 2 then Some (Inr st)
      else case dfs_list succs cyc f (succs i) (st(i := 1)) of
          None \<Rightarrow> None
        | Some (Inl e) \<Rightarrow> Some (Inl e)
        | Some (Inr st') \<Rightarrow> Some (Inr (st'(i := 2))))"
| "dfs_list succs cyc f [] st = Some (Inr st)"
| "dfs_list succs cyc f (Inl e # xs) st = Some (Inl e)"
| "dfs_list succs cyc f (Inr j # xs) st =
     (case dfs_visit succs cyc f j st of
        None \<Rightarrow> None
      | Some (Inl e) \<Rightarrow> Some (Inl e)
      | Some (Inr st') \<Rightarrow> dfs_list succs cyc f xs st')"

text \<open>The outer loop: every node is visited, with a cleared array at the start.\<close>

definition dfs_all :: "nat \<Rightarrow> (nat \<Rightarrow> (qerr + nat) list) \<Rightarrow> (nat \<Rightarrow> qerr) \<Rightarrow> (qerr + (nat \<Rightarrow> nat)) option" where
  "dfs_all n succs cyc = dfs_list succs cyc (n + 1) (map Inr [0..<n]) (\<lambda>_. 0)"

definition calls :: "nat \<Rightarrow> (nat \<Rightarrow> (qerr + nat) list) \<Rightarrow> (nat \<times> nat) set" where
  "calls n succs = {(i, j). i < n \<and> Inr j \<in> set (succs i)}"

locale call_graph =
  fixes n :: nat and succs :: "nat \<Rightarrow> (qerr + nat) list" and cyc :: "nat \<Rightarrow> qerr"
  assumes succs_bound: "i < n \<Longrightarrow> Inr j \<in> set (succs i) \<Longrightarrow> j < n"
begin

abbreviation E :: "(nat \<times> nat) set" where "E \<equiv> calls n succs"

definition whites :: "(nat \<Rightarrow> nat) \<Rightarrow> nat" where
  "whites st = card {i. i < n \<and> st i = 0}"

text \<open>Finished nodes call finished nodes only, name no unknown callee and are on no cycle.\<close>

definition node_ok :: "(nat \<Rightarrow> nat) \<Rightarrow> nat \<Rightarrow> bool" where
  "node_ok st i \<longleftrightarrow> (\<forall>x\<in>set (succs i). \<exists>j<n. x = Inr j \<and> st j = 2) \<and> (i, i) \<notin> E\<^sup>+"

definition settled :: "(nat \<Rightarrow> nat) \<Rightarrow> bool" where
  "settled st \<longleftrightarrow> (\<forall>i<n. st i = 2 \<longrightarrow> node_ok st i) \<and> (\<forall>i. st i = 0 \<or> st i = 1 \<or> st i = 2)"

lemma settled_colour: "settled st \<Longrightarrow> st i = 0 \<or> st i = 1 \<or> st i = 2"
  by (simp add: settled_def)

lemma settled_node: "settled st \<Longrightarrow> i < n \<Longrightarrow> st i = 2 \<Longrightarrow> node_ok st i"
  by (simp add: settled_def)

lemma node_ok_mono: "node_ok st i \<Longrightarrow> (\<And>j. st j = 2 \<Longrightarrow> st' j = 2) \<Longrightarrow> node_ok st' i"
  unfolding node_ok_def by blast

definition grown :: "(nat \<Rightarrow> nat) \<Rightarrow> (nat \<Rightarrow> nat) \<Rightarrow> bool" where
  "grown st st' \<longleftrightarrow> (\<forall>i. (st i = 2 \<longrightarrow> st' i = 2) \<and> (st' i = 1 \<longleftrightarrow> st i = 1))"

lemma grown_refl: "grown st st" and grown_trans: "grown a b \<Longrightarrow> grown b c \<Longrightarrow> grown a c"
  by (auto simp: grown_def)

lemma grown_white: "grown st st' \<Longrightarrow> settled st \<Longrightarrow> st' i = 0 \<Longrightarrow> st i = 0"
  using settled_colour [of st i] unfolding grown_def by (metis zero_neq_one zero_neq_numeral)

lemma grown_whites: "grown st st' \<Longrightarrow> settled st \<Longrightarrow> whites st' \<le> whites st"
  unfolding whites_def by (rule card_mono) (auto dest: grown_white)

lemma whites_mark: "i < n \<Longrightarrow> st i = 0 \<Longrightarrow> whites (st(i := 1)) < whites st"
  unfolding whites_def by (rule psubset_card_mono) auto

lemma finished_step: "(a, b) \<in> E \<Longrightarrow> settled st \<Longrightarrow> st a = 2 \<Longrightarrow> st b = 2"
  using settled_node [of st a] by (fastforce simp: node_ok_def calls_def)

lemma finished_stay: "(i, j) \<in> E\<^sup>+ \<Longrightarrow> settled st \<Longrightarrow> st i = 2 \<Longrightarrow> st j = 2"
  by (induction rule: trancl.induct) (auto dest: finished_step)

lemma settled_finish:
  assumes "settled st" and "i < n" and "st i = 1" and succs: "\<forall>x\<in>set (succs i). \<exists>j<n. x = Inr j \<and> st j = 2"
  shows "settled (st(i := 2))"
proof -
  have "(i, i) \<notin> E\<^sup>+"
  proof
    assume "(i, i) \<in> E\<^sup>+"
    then obtain j where j: "(i, j) \<in> E" "(j, i) \<in> E\<^sup>*"
      by (metis tranclD)
    then have "st j = 2" using succs by (force simp: calls_def)
    moreover have "(j, i) \<in> E\<^sup>+" using j calculation assms(3) by (auto simp: rtrancl_eq_or_trancl)
    ultimately show False using finished_stay [of j i st] assms(1,3) by simp
  qed
  then have "node_ok st i" using succs by (simp add: node_ok_def)
  then have "node_ok st k" if "k < n" "(st(i := 2)) k = 2" for k
    using that assms(1) settled_node by (cases "k = i") auto
  then have "node_ok (st(i := 2)) k" if "k < n" "(st(i := 2)) k = 2" for k
    using node_ok_mono [of st k "st(i := 2)"] that by auto
  then show ?thesis using settled_colour [OF assms(1)] by (simp add: settled_def)
qed

lemma settled_mark:
  assumes "settled st" and "st i = 0"
  shows "settled (st(i := 1))"
proof -
  have mono: "(st(i := 1)) j = 2" if "st j = 2" for j
    using assms(2) that by (cases "j = i") auto
  have "node_ok (st(i := 1)) k" if "k < n" "(st(i := 1)) k = 2" for k
    using settled_node [OF assms(1), of k] node_ok_mono [where st = st and st' = "st(i := 1)" and i = k, OF _ mono] that
    by (cases "k = i") auto
  then show ?thesis using settled_colour [OF assms(1)] by (simp add: settled_def)
qed

text \<open>What a successful visit, and a successful loop over callees, leave behind.\<close>

definition visit_ok :: "nat \<Rightarrow> bool" where
  "visit_ok f \<longleftrightarrow> (\<forall>i st st'. dfs_visit succs cyc f i st = Some (Inr st') \<longrightarrow> i < n \<longrightarrow> settled st \<longrightarrow>
     settled st' \<and> grown st st' \<and> st' i = 2)"

lemma list_success:
  assumes "visit_ok f" and "dfs_list succs cyc f xs st = Some (Inr st')"
    and "\<forall>j. Inr j \<in> set xs \<longrightarrow> j < n" and "settled st"
  shows "settled st' \<and> grown st st' \<and> (\<forall>x\<in>set xs. \<exists>j<n. x = Inr j \<and> st' j = 2)"
  using assms(2-)
proof (induction xs arbitrary: st)
  case Nil
  then show ?case by (simp add: grown_refl)
next
  case (Cons x xs)
  then obtain j st1 where x: "x = Inr j" "j < n" and v: "dfs_visit succs cyc f j st = Some (Inr st1)"
    and l: "dfs_list succs cyc f xs st1 = Some (Inr st')"
    by (cases x) (auto split: option.splits sum.splits)
  have 1: "settled st1 \<and> grown st st1 \<and> st1 j = 2"
    using assms(1) v x Cons.prems unfolding visit_ok_def by blast
  have 2: "settled st' \<and> grown st1 st' \<and> (\<forall>x\<in>set xs. \<exists>j<n. x = Inr j \<and> st' j = 2)"
    using Cons.IH [OF l] 1 Cons.prems by auto
  then have "st' j = 2" using 1 by (auto simp: grown_def)
  then show ?case using 1 2 x grown_trans by auto
qed

lemma visit_success: "visit_ok f"
proof (induction f)
  case 0
  show ?case by (simp add: visit_ok_def)
next
  case (Suc f)
  show ?case unfolding visit_ok_def
  proof (intro allI impI)
    fix i st st'
    assume v: "dfs_visit succs cyc (Suc f) i st = Some (Inr st')" and i: "i < n" and st: "settled st"
    show "settled st' \<and> grown st st' \<and> st' i = 2"
    proof (cases "st i = 2")
      case True
      then show ?thesis using v st by (simp add: grown_refl)
    next
      case False
      then have white: "st i = 0" and "st i \<noteq> 1"
        using settled_colour [OF st, of i] False v by auto
      with False v obtain st1 where l: "dfs_list succs cyc f (succs i) (st(i := 1)) = Some (Inr st1)"
        and st': "st' = st1(i := 2)"
        by (auto split: option.splits sum.splits)
      have "settled st1 \<and> grown (st(i := 1)) st1 \<and> (\<forall>x\<in>set (succs i). \<exists>j<n. x = Inr j \<and> st1 j = 2)"
        using list_success [OF Suc.IH l] succs_bound i settled_mark [OF st white] by blast
      moreover from this have "st1 i = 1" by (simp add: grown_def)
      ultimately show ?thesis
        using settled_finish [of st1 i] i white by (auto simp: st' grown_def)
    qed
  qed
qed

text \<open>An error is a cycle through the node it names, or an unknown callee.\<close>

definition bad :: "qerr \<Rightarrow> bool" where
  "bad e \<longleftrightarrow> (\<exists>k<n. (k, k) \<in> E\<^sup>+ \<and> e = cyc k) \<or> (\<exists>k<n. Inl e \<in> set (succs k))"

definition visit_err :: "nat \<Rightarrow> bool" where
  "visit_err f \<longleftrightarrow> (\<forall>i st e. dfs_visit succs cyc f i st = Some (Inl e) \<longrightarrow> i < n \<longrightarrow> settled st \<longrightarrow>
     (\<forall>g. st g = 1 \<longrightarrow> (g, i) \<in> E\<^sup>+) \<longrightarrow> bad e)"

lemma list_error:
  assumes "visit_err f" and "dfs_list succs cyc f xs st = Some (Inl e)" and "settled st"
    and "\<forall>j. Inr j \<in> set xs \<longrightarrow> j < n \<and> (\<forall>g. st g = 1 \<longrightarrow> (g, j) \<in> E\<^sup>+)"
    and "\<forall>e. Inl e \<in> set xs \<longrightarrow> bad e"
  shows "bad e"
  using assms(2-)
proof (induction xs arbitrary: st)
  case Nil
  then show ?case by simp
next
  case (Cons x xs)
  show ?case
  proof (cases x)
    case (Inl e')
    then show ?thesis using Cons.prems by auto
  next
    case (Inr j)
    show ?thesis
    proof (cases "dfs_visit succs cyc f j st")
      case None
      then show ?thesis using Cons.prems(1) Inr by simp
    next
      case (Some r)
      show ?thesis
      proof (cases r)
        case (Inl e')
        then have "dfs_visit succs cyc f j st = Some (Inl e)" using Some Cons.prems(1) Inr by simp
        then show ?thesis using assms(1) Cons.prems Inr unfolding visit_err_def by auto
      next
        case r: (Inr st1)
        have "settled st1 \<and> grown st st1"
          using visit_success [of f] Some r Cons.prems Inr unfolding visit_ok_def by auto
        then show ?thesis
          using Cons.IH [of st1] Cons.prems Some r Inr by (auto simp: grown_def)
      qed
    qed
  qed
qed

lemma visit_error: "visit_err f"
proof (induction f)
  case 0
  show ?case by (simp add: visit_err_def)
next
  case (Suc f)
  show ?case unfolding visit_err_def
  proof (intro allI impI)
    fix i st e
    assume v: "dfs_visit succs cyc (Suc f) i st = Some (Inl e)" and i: "i < n" and st: "settled st"
      and grey: "\<forall>g. st g = 1 \<longrightarrow> (g, i) \<in> E\<^sup>+"
    show "bad e"
    proof (cases "st i = 1")
      case True
      then show ?thesis using v i grey by (auto simp: bad_def)
    next
      case False
      then have "st i = 0" using settled_colour [OF st, of i] v by auto
      have l: "dfs_list succs cyc f (succs i) (st(i := 1)) = Some (Inl e)"
        using v False \<open>st i = 0\<close> by (auto split: option.splits sum.splits)
      have edge: "(i, j) \<in> E" if "Inr j \<in> set (succs i)" for j
        using that i by (simp add: calls_def)
      have reach: "(g, j) \<in> E\<^sup>+" if "Inr j \<in> set (succs i)" "(st(i := 1)) g = 1" for g j
        using edge [OF that(1)] that(2) grey
        by (cases "g = i") (auto intro: trancl_into_trancl)
      show ?thesis
      proof (rule list_error [OF Suc.IH l settled_mark [OF st \<open>st i = 0\<close>]])
        show "\<forall>j. Inr j \<in> set (succs i) \<longrightarrow> j < n \<and> (\<forall>g. (st(i := 1)) g = 1 \<longrightarrow> (g, j) \<in> E\<^sup>+)"
          using succs_bound i reach by blast
        show "\<forall>e. Inl e \<in> set (succs i) \<longrightarrow> bad e" using i by (auto simp: bad_def)
      qed
    qed
  qed
qed

text \<open>Enough fuel: more than there are unvisited nodes.\<close>

definition visit_fuel :: "nat \<Rightarrow> bool" where
  "visit_fuel f \<longleftrightarrow> (\<forall>i st. i < n \<longrightarrow> settled st \<longrightarrow> whites st < f \<longrightarrow> dfs_visit succs cyc f i st \<noteq> None)"

lemma list_fuel:
  assumes "visit_fuel f" and "\<forall>j. Inr j \<in> set xs \<longrightarrow> j < n" and "settled st" and "whites st < f"
  shows "dfs_list succs cyc f xs st \<noteq> None"
  using assms(2-)
proof (induction xs arbitrary: st)
  case Nil
  then show ?case by simp
next
  case (Cons x xs)
  show ?case
  proof (cases x)
    case (Inl e)
    then show ?thesis by simp
  next
    case (Inr j)
    then have "dfs_visit succs cyc f j st \<noteq> None"
      using assms(1) Cons.prems unfolding visit_fuel_def by auto
    moreover have "dfs_list succs cyc f xs st1 \<noteq> None" if "dfs_visit succs cyc f j st = Some (Inr st1)" for st1
    proof -
      have "settled st1 \<and> grown st st1"
        using visit_success [of f] that Cons.prems Inr unfolding visit_ok_def by auto
      then show ?thesis using Cons grown_whites [of st st1] by auto
    qed
    ultimately show ?thesis using Inr by (auto split: option.splits sum.splits)
  qed
qed

lemma visit_fuel_ok: "visit_fuel f"
proof (induction f)
  case 0
  show ?case by (simp add: visit_fuel_def)
next
  case (Suc f)
  show ?case unfolding visit_fuel_def
  proof (intro allI impI)
    fix i st
    assume i: "i < n" and st: "settled st" and w: "whites st < Suc f"
    show "dfs_visit succs cyc (Suc f) i st \<noteq> None"
    proof (cases "st i = 0")
      case True
      then have "dfs_list succs cyc f (succs i) (st(i := 1)) \<noteq> None"
        using list_fuel [OF Suc.IH] succs_bound i settled_mark [OF st] whites_mark [of i st] w by auto
      then show ?thesis using True by (auto split: option.splits sum.splits)
    next
      case False
      then show ?thesis using settled_colour [OF st, of i] by auto
    qed
  qed
qed

lemma settled_start: "settled (\<lambda>_. 0)" and whites_start: "whites (\<lambda>_. 0) \<le> n"
  by (simp_all add: settled_def whites_def)

theorem dfs_all_returns: "dfs_all n succs cyc \<noteq> None"
  unfolding dfs_all_def
  using whites_start by (intro list_fuel [OF visit_fuel_ok] settled_start) auto

theorem dfs_all_sound:
  assumes "dfs_all n succs cyc = Some (Inr st)"
  shows "acyclic E" and "i < n \<Longrightarrow> Inl e \<notin> set (succs i)"
proof -
  have "settled st \<and> grown (\<lambda>_. 0) st \<and> 
      (\<forall>x\<in>set (map Inr [0..<n] :: (qerr + nat) list). \<exists>j<n. x = Inr j \<and> st j = 2)"
    by (rule list_success [OF visit_success assms [unfolded dfs_all_def]]) (auto simp: settled_start)
  then have st: "settled st" and "\<forall>j\<in>{0..<n}. st j = 2" by auto
  then have node: "node_ok st i" if "i < n" for i
    using that settled_node [OF st] by simp
  then have "(i, i) \<notin> E\<^sup>+" if "i < n" for i
    using that by (simp add: node_ok_def)
  moreover have "i < n" if "(i, i) \<in> E\<^sup>+" for i
    using tranclD [OF that] by (auto simp: calls_def)
  ultimately show "acyclic E" unfolding acyclic_def by blast
  show "i < n \<Longrightarrow> Inl e \<notin> set (succs i)"
    using node by (force simp: node_ok_def)
qed

theorem dfs_all_error: "dfs_all n succs cyc = Some (Inl e) \<Longrightarrow> bad e"
  unfolding dfs_all_def
  by (erule list_error [OF visit_error]) (auto simp: settled_start)

theorem dfs_all_accepts_iff:
  "(\<exists>st. dfs_all n succs cyc = Some (Inr st)) \<longleftrightarrow>
   acyclic E \<and> (\<forall>i<n. \<forall>e. Inl e \<notin> set (succs i))"
proof
  assume "\<exists>st. dfs_all n succs cyc = Some (Inr st)"
  then show "acyclic E \<and> (\<forall>i<n. \<forall>e. Inl e \<notin> set (succs i))" using dfs_all_sound by blast
next
  assume ok: "acyclic E \<and> (\<forall>i<n. \<forall>e. Inl e \<notin> set (succs i))"
  then have "\<not> bad e" for e by (auto simp: bad_def acyclic_def)
  then have "dfs_all n succs cyc \<noteq> Some (Inl e)" for e using dfs_all_error by blast
  then show "\<exists>st. dfs_all n succs cyc = Some (Inr st)"
    using dfs_all_returns by (metis not_Some_eq sum.exhaust)
qed

end

end
