(* ===== verification/QCommands.thy ===== *)
theory QCommands
  imports QRegistry QDfs
begin

text \<open>
  \<^verbatim>\<open>src/graph.c\<close>: project commands, their options and steps, the runtime tokens in their command
  lines, and the validation that runs before any command does. The lemmas show that in a validated
  graph every name and alias means one command, every call resolves, and calls have no cycle.
\<close>

section \<open>Names\<close>

definition command_token_valid :: "cstr \<Rightarrow> bool" where
  "command_token_valid name \<longleftrightarrow> (case name of
      None \<Rightarrow> False
    | Some s \<Rightarrow> s \<noteq> [] \<and> hd s \<notin> set ''-:/@'' \<and>
        list_all (\<lambda>c. \<not> byte c \<le> 32 \<and> c \<noteq> CHR ''/'' \<and> c \<noteq> BS) s)"

definition command_option_name_valid :: "cstr \<Rightarrow> bool" where
  "command_option_name_valid name \<longleftrightarrow> (case name of
      None \<Rightarrow> False
    | Some s \<Rightarrow> s \<noteq> [] \<and> (is_alpha (hd s) \<or> hd s = CHR ''_'') \<and>
        list_all (\<lambda>c. is_alnum c \<or> c = CHR ''_'' \<or> c = CHR ''-'') (tl s))"

definition project_command_name_reserved :: "string \<Rightarrow> bool" where
  "project_command_name_reserved name \<longleftrightarrow> name \<in> set
     [''help'', ''version'', ''docs'', ''init'', ''lsp'', ''fmt'', ''daemon'', ''commands'', ''command'',
      ''list-targets'', ''query'', ''doctor'', ''check'', ''lint'', ''explain'', ''dry-run'', ''emit-ninja'',
      ''build'', ''test'', ''stage'', ''why-rebuild'', ''clean'', ''log'', ''last-failure'', ''action-log'',
      ''replay'']"

text \<open>The name or one of the aliases.\<close>

definition command_answers :: "qstar_project_command \<Rightarrow> string \<Rightarrow> bool" where
  "command_answers c name \<longleftrightarrow> pc_name c = name \<or> list_ex (\<lambda>a. a = name) (pc_aliases c)"

definition has_project_command_name :: "qstar_graph \<Rightarrow> string \<Rightarrow> bool" where
  "has_project_command_name g name \<longleftrightarrow> list_ex (\<lambda>c. command_answers c name) (gr_commands g)"

section \<open>Building commands\<close>

definition new_project_command :: "string \<Rightarrow> cstr \<Rightarrow> int \<Rightarrow> qstar_project_command" where
  "new_project_command name file line = zero_qstar_project_command
    \<lparr>pc_name := name, pc_origin_file := str_or_empty file, pc_origin_line := line, pc_description := [],
     pc_working_dir := Some []\<rparr>"

definition qstar_graph_add_project_command :: "qstar_graph \<Rightarrow> cstr \<Rightarrow> cstr \<Rightarrow> int \<Rightarrow> qerr + qstar_graph" where
  "qstar_graph_add_project_command g name file line =
     (let n = str_or_empty name
      in if \<not> command_token_valid name then
           Inl (Plain (''qstar: invalid project command name '' @ sq n))
         else if project_command_name_reserved n then
           Inl (Plain (''qstar: project command name '' @ sq n @ '' is reserved by the qstar CLI''))
         else if has_project_command_name g n then
           Inl (Plain (''qstar: duplicate project command '' @ sq n))
         else Inr (g\<lparr>gr_commands := gr_commands g @ [new_project_command n file line]\<rparr>))"

definition command_err :: "qstar_project_command \<Rightarrow> string \<Rightarrow> string \<Rightarrow> qerr" where
  "command_err c field msg = Origin (pc_origin_file c) (pc_origin_line c) field (pc_name c) msg"

definition qstar_project_command_add_option ::
  "qstar_project_command \<Rightarrow> cstr \<Rightarrow> cstr \<Rightarrow> qerr + qstar_project_command" where
  "qstar_project_command_add_option c name ty =
     (let n = str_or_empty name
      in if \<not> command_option_name_valid name then
           Inl (command_err c ''options'' (''qstar: invalid option name '' @ sq n))
         else if list_ex (\<lambda>o'. co_name o' = n) (pc_options c) then
           Inl (command_err c ''options'' (''qstar: duplicate option '' @ sq n @
                '' in project command '' @ sq (pc_name c)))
         else Inr (c\<lparr>pc_options := pc_options c @
           [zero_qstar_command_option\<lparr>co_name := n, co_type := str_or_empty ty\<rparr>]\<rparr>))"

definition qstar_project_command_add_step ::
  "qstar_project_command \<Rightarrow> cstr \<Rightarrow> qerr + qstar_project_command" where
  "qstar_project_command_add_step c kind =
     (if \<not> present kind then
        Inl (command_err c ''steps'' ''qstar: project command step kind must not be empty'')
      else Inr (c\<lparr>pc_steps := pc_steps c @
        [zero_qstar_command_step\<lparr>cst_kind := str_or_empty kind, cst_label := Some [], cst_command := Some [],
          cst_stage_root := Some [], cst_when := Some [], cst_working_dir := Some [], cst_description := [],
          cst_run_expect_contains := [], cst_run_expect_file := Some [], cst_export_to := Some []\<rparr>]\<rparr>))"

interpretation option_decl_registry: keyed_registry pc_options co_name
    "\<lambda>c n. find_key co_name n (pc_options c)" "\<lambda>(name, ty) c. qstar_project_command_add_option c name ty"
    "\<lambda>(name, ty). zero_qstar_command_option\<lparr>co_name := str_or_empty name, co_type := str_or_empty ty\<rparr>"
  by unfold_locales (auto simp: qstar_project_command_add_option_def list_ex_iff Let_def
      split: if_splits prod.splits)

section \<open>Finding commands\<close>

text \<open>The index of the first command that answers to the name, as the pointer the C code returns.\<close>

fun command_index_from :: "nat \<Rightarrow> string \<Rightarrow> qstar_project_command list \<Rightarrow> nat option" where
  "command_index_from i name [] = None"
| "command_index_from i name (c # cs) =
     (if command_answers c name then Some i else command_index_from (Suc i) name cs)"

definition find_project_command_index :: "qstar_graph \<Rightarrow> cstr \<Rightarrow> nat option" where
  "find_project_command_index g name =
     (if \<not> present name then None else command_index_from 0 (str_or_empty name) (gr_commands g))"

definition qstar_graph_find_project_command :: "qstar_graph \<Rightarrow> cstr \<Rightarrow> qstar_project_command option" where
  "qstar_graph_find_project_command g name =
     map_option (\<lambda>i. gr_commands g ! i) (find_project_command_index g name)"

definition qstar_graph_default_project_command :: "qstar_graph \<Rightarrow> qstar_project_command option" where
  "qstar_graph_default_project_command g = List.find pc_is_default (gr_commands g)"

definition project_command_step_label_known :: "qstar_graph \<Rightarrow> string \<Rightarrow> bool" where
  "project_command_step_label_known g label \<longleftrightarrow> has_target g label \<or> has_genrule g label \<or> has_stage g label"

definition command_string_list_contains :: "string list \<Rightarrow> string \<Rightarrow> bool" where
  "command_string_list_contains xs v \<longleftrightarrow> list_contains xs v"

definition project_command_find_option_decl ::
  "qstar_project_command \<Rightarrow> string \<Rightarrow> qstar_command_option option" where
  "project_command_find_option_decl c name =
     (if name = [] then None else find_key co_name name (pc_options c))"

section \<open>Runtime tokens\<close>

datatype runtime_token = NoToken | Malformed | Names string | OutOfString

definition command_param_token_name :: "cstr \<Rightarrow> nat \<Rightarrow> runtime_token" where
  "command_param_token_name token namelen =
     (let t = str_or_empty token; prefix = ''<qstar-command-param:''
      in if length t \<le> length prefix + 1 \<or> \<not> starts_with prefix t \<or> last t \<noteq> CHR ''>'' then NoToken
         else let payload = butlast (drop (length prefix) t)
              in if namelen \<le> length payload then Malformed else Names payload)"

text \<open>
  The length field is trusted: \<open>arg_start + arg_len\<close> is read without a check that the argument is
  that long, so a length past the terminating NUL reads outside the string.
\<close>

definition command_arg_if_token_parse :: "cstr \<Rightarrow> nat \<Rightarrow> runtime_token" where
  "command_arg_if_token_parse token namelen =
     (let prefix = ''<qstar-command-arg-if:''; t = str_or_empty token
      in if token = None \<or> \<not> starts_with prefix t then NoToken
         else case strchr CHR '':'' (drop (length prefix) t) of
             None \<Rightarrow> Malformed
           | Some (name, len_start) \<Rightarrow>
               if name = [] \<or> namelen \<le> length name then Malformed
               else let (arg_len, rest) = strtol10 len_start
                    in if take 1 rest \<noteq> '':'' \<or> arg_len < 0 then Malformed
                       else let arg_start = drop 1 rest; n = nat arg_len
                            in if length arg_start < n then OutOfString
                               else if drop n arg_start \<noteq> ''>'' then Malformed
                               else Names name)"

definition unknown_option_err :: "qstar_project_command \<Rightarrow> string \<Rightarrow> string \<Rightarrow> qerr" where
  "unknown_option_err c owner name = command_err c owner
     (''qstar: project command '' @ sq (pc_name c) @ '' references unknown option '' @ sq name)"

definition validate_command_runtime_ref ::
  "qstar_project_command \<Rightarrow> string \<Rightarrow> string \<Rightarrow> bool \<Rightarrow> check" where
  "validate_command_runtime_ref c name owner require_bool = (case project_command_find_option_decl c name of
      None \<Rightarrow> Inl (unknown_option_err c owner name)
    | Some o' \<Rightarrow> reject (require_bool \<and> co_type o' \<noteq> ''bool'') (command_err c owner
        (''qstar: project command '' @ sq (pc_name c) @ '' option '' @ sq name @ '' must be bool for '' @ owner)))"

definition validate_command_runtime_ref_type ::
  "qstar_project_command \<Rightarrow> string \<Rightarrow> string \<Rightarrow> cstr \<Rightarrow> check" where
  "validate_command_runtime_ref_type c name owner ty = (case project_command_find_option_decl c name of
      None \<Rightarrow> Inl (unknown_option_err c owner name)
    | Some o' \<Rightarrow> reject (present ty \<and> Some (co_type o') \<noteq> ty) (command_err c owner
        (''qstar: project command '' @ sq (pc_name c) @ '' option '' @ sq name @ '' must be '' @
         str_or_empty ty @ '' for '' @ owner)))"

definition command_env_assignment_ok :: "string \<Rightarrow> bool" where
  "command_env_assignment_ok item = (case strchr CHR ''='' item of
      None \<Rightarrow> False
    | Some (name, _) \<Rightarrow> name \<noteq> [] \<and> (is_alpha (hd name) \<or> hd name = CHR ''_'') \<and>
        list_all (\<lambda>c. is_alnum c \<or> c = CHR ''_'') name)"

definition validate_command_env :: "qstar_project_command \<Rightarrow> string list \<Rightarrow> string \<Rightarrow> check" where
  "validate_command_env c env owner = check_from 0 (\<lambda>i item. reject (\<not> command_env_assignment_ok item)
     (command_err c owner (''qstar: project command '' @ sq (pc_name c) @ '' env['' @ nat_str i @
        ''] must be NAME=value''))) env"

definition malformed_err :: "qstar_project_command \<Rightarrow> string \<Rightarrow> string \<Rightarrow> qerr" where
  "malformed_err c owner what = command_err c owner
     (''qstar: malformed '' @ what @ '' token in project command '' @ sq (pc_name c))"

definition validate_command_runtime_argv :: "qstar_project_command \<Rightarrow> string list \<Rightarrow> check" where
  "validate_command_runtime_argv c argv = check_all (\<lambda>arg.
     case command_param_token_name (Some arg) 128 of
       Malformed \<Rightarrow> Inl (malformed_err c ''command'' ''qstar.param'')
     | Names name \<Rightarrow> validate_command_runtime_ref c name ''command'' False
     | _ \<Rightarrow> (case command_arg_if_token_parse (Some arg) 128 of
           Malformed \<Rightarrow> Inl (malformed_err c ''command'' ''qstar.arg_if'')
         | Names name \<Rightarrow> validate_command_runtime_ref c name ''command'' True
         | OutOfString \<Rightarrow> Inl WildRead
         | NoToken \<Rightarrow> Inr ())) argv"

section \<open>Steps and options\<close>

definition validate_project_command_step ::
  "qstar_graph \<Rightarrow> qstar_project_command \<Rightarrow> qstar_command_step \<Rightarrow> check" where
  "validate_project_command_step g c s =
     (let kind = cst_kind s; label = str_or_empty (cst_label s); no_label = \<not> present (cst_label s);
          err = (\<lambda>field msg. command_err c field (''qstar: project command '' @ sq (pc_name c) @ msg));
          escapes = (\<lambda>p. present p \<and> \<not> qstar_path_is_package_relative (str_or_empty p))
      in check_seq
        [if present (cst_when s) then validate_command_runtime_ref c (str_or_empty (cst_when s)) ''when'' True
         else Inr (),
         if kind = ''build'' then
           reject (no_label \<or> \<not> project_command_step_label_known g label)
             (err ''steps'' ('' build step references unknown label '' @ sq label))
         else if kind = ''test'' then
           (if no_label then Inl (err ''steps'' '' test step requires a label'')
            else if label = ''//...'' then Inr ()
            else case find_target g label of
                None \<Rightarrow> Inl (err ''steps'' ('' test step references unknown target '' @ sq label))
              | Some t \<Rightarrow> reject (t_kind t \<noteq> ''test'')
                  (err ''steps'' ('' test step target '' @ sq label @ '' is not a test target'')))
         else if kind = ''stage'' then check_seq
           [reject (no_label \<or> \<not> has_stage g label)
              (err ''steps'' ('' stage step references unknown stage '' @ sq label)),
            reject (escapes (cst_stage_root s))
              (err ''steps'' ('' stage root '' @ sq (str_or_empty (cst_stage_root s)) @
                 '' must be package-relative''))]
         else if kind = ''check'' \<or> kind = ''lint'' then
           reject (\<not> no_label \<and> label \<noteq> ''//...'' \<and> \<not> project_command_step_label_known g label)
             (err ''steps'' ('' '' @ kind @ '' step references unknown label '' @ sq label))
         else if kind = ''call'' then
           reject (\<not> present (cst_command s) \<or> qstar_graph_find_project_command g (cst_command s) = None)
             (err ''steps'' ('' call step references unknown command '' @ sq (str_or_empty (cst_command s))))
         else if kind = ''run'' then check_seq
           [reject (cst_run_command s = []) (err ''steps'' '' run step requires command''),
            reject (escapes (cst_working_dir s))
              (err ''steps'' ('' run step working_dir '' @ sq (str_or_empty (cst_working_dir s)) @
                 '' must be package-relative'')),
            validate_command_runtime_argv c (cst_run_command s),
            validate_command_env c (cst_env s) ''env'',
            reject (escapes (cst_run_expect_file s))
              (err ''expect.file'' ('' run expect.file '' @ sq (str_or_empty (cst_run_expect_file s)) @
                 '' must be package-relative''))]
         else if kind = ''export_stage'' then check_seq
           [reject (no_label \<or> \<not> has_stage g label)
              (err ''steps'' ('' export_stage step references unknown stage '' @ sq label)),
            reject (\<not> present (cst_export_to s)) (err ''to'' '' export_stage step requires to''),
            case command_param_token_name (cst_export_to s) 128 of
              Malformed \<Rightarrow> Inl (malformed_err c ''to'' ''qstar.param'')
            | Names name \<Rightarrow> validate_command_runtime_ref_type c name ''to'' (Some ''path'')
            | _ \<Rightarrow> reject (\<not> qstar_path_is_package_relative (str_or_empty (cst_export_to s)))
                (err ''to'' ('' export_stage destination '' @ sq (str_or_empty (cst_export_to s)) @
                   '' must be package-relative''))]
         else Inl (command_err c ''steps'' (''qstar: unknown project command step kind '' @ sq kind))])"

definition validate_project_command_option ::
  "qstar_project_command \<Rightarrow> qstar_command_option \<Rightarrow> check" where
  "validate_project_command_option c o' =
     (let err = (\<lambda>mid post. command_err c ''options'' (''qstar: project command '' @ sq (pc_name c) @ mid @
            sq (co_name o') @ post))
      in check_seq
        [reject (co_type o' \<notin> set [''string'', ''path'', ''bool'', ''int'', ''enum'', ''list''])
           (err '' option '' ('' has unknown type '' @ sq (co_type o'))),
         reject (co_required o' \<and> co_has_default o') (err '' option '' '' cannot be both required and defaulted''),
         reject (co_required o' \<and> co_type o' = ''bool'') (err '' bool option '' '' cannot be required''),
         reject (co_type o' = ''enum'' \<and> co_choices o' = []) (err '' enum option '' '' requires choices''),
         reject (co_has_default o' \<and> co_type o' = ''enum'' \<and>
             \<not> command_string_list_contains (co_choices o') (co_default_value o'))
           (err '' enum option '' ('' default '' @ sq (co_default_value o') @ '' is not in choices'')),
         reject (co_has_default o' \<and> co_type o' = ''path'' \<and>
             \<not> qstar_path_is_package_relative (co_default_value o'))
           (err '' path option '' ('' default '' @ sq (co_default_value o') @ '' must be package-relative''))])"

section \<open>The whole set of commands\<close>

text \<open>The alias loops: the alias against its later siblings, then against every other command.\<close>

fun check_alias_siblings :: "qstar_project_command \<Rightarrow> string \<Rightarrow> string list \<Rightarrow> check" where
  "check_alias_siblings c a later = check_all (\<lambda>b. reject (a = b) (command_err c ''aliases''
     (''qstar: duplicate alias '' @ sq a @ '' in project command '' @ sq (pc_name c)))) later"

definition check_alias_elsewhere ::
  "qstar_graph \<Rightarrow> nat \<Rightarrow> qstar_project_command \<Rightarrow> string \<Rightarrow> check" where
  "check_alias_elsewhere g i c a = check_from 0 (\<lambda>k d. if k = i then Inr () else check_seq
     [reject (a = pc_name d) (command_err c ''aliases'' (''qstar: project command alias '' @ sq a @
        '' conflicts with command '' @ sq (pc_name d))),
      check_all (\<lambda>b. reject (a = b) (command_err c ''aliases''
        (''qstar: duplicate project command alias '' @ sq a))) (pc_aliases d)]) (gr_commands g)"

fun check_aliases :: "qstar_graph \<Rightarrow> nat \<Rightarrow> qstar_project_command \<Rightarrow> string list \<Rightarrow> check" where
  "check_aliases g i c [] = Inr ()"
| "check_aliases g i c (a # as) = (case check_alias_siblings c a as of
      Inl e \<Rightarrow> Inl e
    | Inr _ \<Rightarrow> (case check_alias_elsewhere g i c a of Inl e \<Rightarrow> Inl e | Inr _ \<Rightarrow> check_aliases g i c as))"

text \<open>One round of the loop over commands, for the command with index \<open>i\<close>.\<close>

definition validate_project_command :: "qstar_graph \<Rightarrow> nat \<Rightarrow> qstar_project_command \<Rightarrow> check" where
  "validate_project_command g i c =
     (let prefix = ''qstar: project command '' @ sq (pc_name c)
      in check_seq
        [reject (\<not> command_token_valid (Some (pc_name c)))
           (command_err c ''name'' (''qstar: invalid project command name '' @ sq (pc_name c))),
         reject (project_command_name_reserved (pc_name c))
           (command_err c ''name'' (''qstar: project command name '' @ sq (pc_name c) @
              '' is reserved by the qstar CLI'')),
         reject (present (pc_working_dir c) \<and> \<not> qstar_path_is_package_relative (str_or_empty (pc_working_dir c)))
           (command_err c ''working_dir'' (prefix @ '' working_dir '' @ sq (str_or_empty (pc_working_dir c)) @
              '' must be package-relative'')),
         reject (pc_steps c = []) (command_err c ''steps'' (prefix @ '' requires at least one step'')),
         check_all (\<lambda>a. check_seq
           [reject (\<not> command_token_valid (Some a)) (command_err c ''aliases''
              (''qstar: invalid alias '' @ sq a @ '' in project command '' @ sq (pc_name c))),
            reject (project_command_name_reserved a) (command_err c ''aliases''
              (''qstar: project command alias '' @ sq a @ '' is reserved by the qstar CLI''))]) (pc_aliases c),
         check_all (validate_project_command_option c) (pc_options c),
         check_all (validate_project_command_step g c) (pc_steps c),
         check_all (\<lambda>d. check_seq
           [reject (pc_name c = pc_name d)
              (command_err c ''name'' (''qstar: duplicate project command '' @ sq (pc_name c))),
            check_all (\<lambda>a. reject (pc_name c = a) (command_err d ''aliases''
              (''qstar: project command alias '' @ sq a @ '' conflicts with command '' @ sq (pc_name c))))
              (pc_aliases d)]) (drop (Suc i) (gr_commands g)),
         check_aliases g i c (pc_aliases c)])"

text \<open>The callees of command \<open>i\<close>, in step order; a call of an unknown command stops the search.\<close>

definition command_calls :: "qstar_graph \<Rightarrow> nat \<Rightarrow> (qerr + nat) list" where
  "command_calls g i =
     (let c = gr_commands g ! i
      in map (\<lambda>s. case find_project_command_index g (cst_command s) of
            Some j \<Rightarrow> Inr j
          | None \<Rightarrow> Inl (command_err c ''steps'' (''qstar: project command '' @ sq (pc_name c) @
              '' call step references unknown command '' @ sq (str_or_empty (cst_command s)))))
          (filter (\<lambda>s. cst_kind s = ''call'') (pc_steps c)))"

definition command_cycle_err :: "qstar_graph \<Rightarrow> nat \<Rightarrow> qerr" where
  "command_cycle_err g i = (let c = gr_commands g ! i in command_err c ''steps''
     (''qstar: project command call cycle includes '' @ sq (pc_name c)))"

definition project_command_dfs_validate ::
  "qstar_graph \<Rightarrow> nat \<Rightarrow> nat \<Rightarrow> (nat \<Rightarrow> nat) \<Rightarrow> (qerr + (nat \<Rightarrow> nat)) option" where
  "project_command_dfs_validate g fuel i st = dfs_visit (command_calls g) (command_cycle_err g) fuel i st"

text \<open>\<open>None\<close> is a search that does not return; it never happens, by \<open>commands_dfs_returns\<close> below, and is not an acceptance.\<close>

definition dfs_check :: "(qerr + (nat \<Rightarrow> nat)) option \<Rightarrow> check" where
  "dfs_check r = (case r of None \<Rightarrow> Inl WildRead | Some (Inl e) \<Rightarrow> Inl e | Some (Inr st) \<Rightarrow> Inr ())"

definition qstar_graph_validate_project_commands :: "qstar_graph \<Rightarrow> check" where
  "qstar_graph_validate_project_commands g = check_seq
     [check_from 0 (validate_project_command g) (gr_commands g),
      reject (1 < length (filter pc_is_default (gr_commands g)))
        (Plain ''qstar: only one project command may set is_default = true''),
      dfs_check (dfs_all (length (gr_commands g)) (command_calls g) (command_cycle_err g))]"

section \<open>What validation guarantees\<close>

lemma command_index_from_Some:
  "command_index_from i name cs = Some j \<Longrightarrow>
   i \<le> j \<and> j < i + length cs \<and> command_answers (cs ! (j - i)) name"
proof (induction cs arbitrary: i)
  case Nil
  then show ?case by simp
next
  case (Cons c cs)
  show ?case
  proof (cases "command_answers c name")
    case True
    then show ?thesis using Cons.prems by simp
  next
    case False
    then have "Suc i \<le> j \<and> j < Suc i + length cs \<and> command_answers (cs ! (j - Suc i)) name"
      using Cons.IH [of "Suc i"] Cons.prems by simp
    then show ?thesis by (auto simp: nth_Cons' Suc_diff_le)
  qed
qed

lemma command_index_from_first:
  "j < length cs \<Longrightarrow> command_answers (cs ! j) name \<Longrightarrow> (\<forall>k<j. \<not> command_answers (cs ! k) name) \<Longrightarrow>
   command_index_from i name cs = Some (i + j)"
proof (induction cs arbitrary: i j)
  case Nil
  then show ?case by simp
next
  case (Cons c cs)
  then show ?case by (cases j) (auto simp: All_less_Suc2)
qed

lemma find_index_bound: "find_project_command_index g name = Some j \<Longrightarrow> j < length (gr_commands g)"
  using command_index_from_Some by (fastforce simp: find_project_command_index_def split: if_splits)

interpretation command_graph: call_graph "length (gr_commands g)" "command_calls g" "command_cycle_err g"
  for g
  by unfold_locales (auto simp: command_calls_def Let_def split: option.splits dest: find_index_bound)

lemma commands_dfs_returns: "dfs_all (length (gr_commands g)) (command_calls g) (command_cycle_err g) \<noteq> None"
  by (rule command_graph.dfs_all_returns)

lemma dfs_check_passes:
  "passes (dfs_check (dfs_all (length (gr_commands g)) (command_calls g) (command_cycle_err g))) \<longleftrightarrow>
   acyclic (calls (length (gr_commands g)) (command_calls g)) \<and>
   (\<forall>i<length (gr_commands g). \<forall>e. Inl e \<notin> set (command_calls g i))"
  unfolding command_graph.dfs_all_accepts_iff [symmetric]
  using commands_dfs_returns [of g] by (auto simp: dfs_check_def split: option.splits sum.splits)

lemma validate_step_call:
  "passes (validate_project_command_step g c s) \<Longrightarrow> cst_kind s = ''call'' \<Longrightarrow>
   find_project_command_index g (cst_command s) \<noteq> None"
  by (auto simp: validate_project_command_step_def Let_def qstar_graph_find_project_command_def)

lemma command_calls_resolved:
  assumes "passes (validate_project_command g i (gr_commands g ! i))" and "i < length (gr_commands g)"
  shows "Inl e \<notin> set (command_calls g i)"
  using assms validate_step_call
  by (fastforce simp: validate_project_command_def command_calls_def Let_def split: option.splits)

text \<open>
  C16: Validation of project commands accepts a graph exactly when every command passes its own
  checks, at most one is the default, and no command calls itself through any chain of call
  steps. The search for such a cycle returns on every graph, with or without one.
\<close>

theorem validate_project_commands_iff:
  "dfs_all (length (gr_commands g)) (command_calls g) (command_cycle_err g) \<noteq> None \<and>
   (passes (qstar_graph_validate_project_commands g) \<longleftrightarrow>
     (\<forall>i<length (gr_commands g). passes (validate_project_command g i (gr_commands g ! i)))
   \<and> length (filter pc_is_default (gr_commands g)) \<le> 1
   \<and> acyclic (calls (length (gr_commands g)) (command_calls g)))"
  using command_calls_resolved [of g] commands_dfs_returns [of g]
  by (auto simp: qstar_graph_validate_project_commands_def passes_check_from dfs_check_passes)

text \<open>Two different commands of a validated graph answer to no common name.\<close>

lemma passes_check_aliases:
  "passes (check_aliases g i c as) \<longleftrightarrow>
   distinct as \<and> (\<forall>a\<in>set as. passes (check_alias_elsewhere g i c a))"
  by (induction as) auto

lemma alias_elsewhere:
  "passes (check_alias_elsewhere g i c a) \<longleftrightarrow>
   (\<forall>k<length (gr_commands g). k \<noteq> i \<longrightarrow> \<not> command_answers (gr_commands g ! k) a)"
  by (auto simp: check_alias_elsewhere_def passes_check_from command_answers_def list_ex_iff)

lemma validated_pair:
  assumes "passes (validate_project_command g i (gr_commands g ! i))"
    and "i < length (gr_commands g)" "j < length (gr_commands g)" "i < j"
  shows "\<not> (command_answers (gr_commands g ! i) name \<and> command_answers (gr_commands g ! j) name)"
proof -
  let ?c = "gr_commands g ! i" and ?d = "gr_commands g ! j"
  have "?d \<in> set (drop (Suc i) (gr_commands g))"
    using assms(3,4) by (auto simp: in_set_conv_nth intro!: exI [of _ "j - Suc i"])
  then have "\<not> command_answers ?d (pc_name ?c)"
    using assms(1) by (auto simp: validate_project_command_def Let_def command_answers_def list_ex_iff)
  moreover have "\<forall>a\<in>set (pc_aliases ?c). \<not> command_answers ?d a"
    using assms by (auto simp: validate_project_command_def Let_def passes_check_aliases alias_elsewhere)
  ultimately show ?thesis by (auto simp: command_answers_def [of ?c] list_ex_iff)
qed

text \<open>
  In a validated graph every command is found by its own name and by each of its aliases,
  whatever other commands there are, and neither is a word of the command line interface.
\<close>

theorem validated_command_found:
  assumes "passes (qstar_graph_validate_project_commands g)"
    and "i < length (gr_commands g)" and "command_answers (gr_commands g ! i) name"
  shows "qstar_graph_find_project_command g (Some name) = Some (gr_commands g ! i)
    \<and> \<not> project_command_name_reserved name"
proof -
  have each: "passes (validate_project_command g k (gr_commands g ! k))" if "k < length (gr_commands g)" for k
    using assms(1) that by (auto simp: qstar_graph_validate_project_commands_def passes_check_from)
  have "\<forall>k<i. \<not> command_answers (gr_commands g ! k) name"
    using validated_pair [of g _ i name] each assms(2,3) by auto
  then have "command_index_from 0 name (gr_commands g) = Some i"
    using command_index_from_first [of i "gr_commands g" name 0] assms(2,3) by simp
  moreover have "name \<noteq> [] \<and> \<not> project_command_name_reserved name"
    using each [OF assms(2)] assms(3)
    by (auto simp: validate_project_command_def Let_def command_answers_def list_ex_iff command_token_valid_def)
  ultimately show ?thesis
    by (simp add: qstar_graph_find_project_command_def find_project_command_index_def)
qed

text \<open>
  A conditional-argument token that claims more bytes than it has makes validation read outside
  the string: the length in the token is never compared with the length of the argument.
\<close>

theorem arg_if_length_unchecked:
  assumes "name \<noteq> []" and "CHR '':'' \<notin> set name" and "length name < 128"
    and "length arg < n" and "n < 2 ^ 63"
  shows "validate_command_runtime_argv c
     [''<qstar-command-arg-if:'' @ name @ '':'' @ nat_str n @ '':'' @ arg] = Inl WildRead"
proof -
  let ?t = "''<qstar-command-arg-if:'' @ name @ '':'' @ nat_str n @ '':'' @ arg"
  have "command_param_token_name (Some ?t) 128 = NoToken"
    by (simp add: command_param_token_name_def Let_def starts_with_def)
  moreover have "strchr CHR '':'' (name @ CHR '':'' # nat_str n @ '':'' @ arg) =
      Some (name, nat_str n @ '':'' @ arg)"
    using assms(2) by (simp add: strchr_Some)
  moreover have "strtol10 (nat_str n @ '':'' @ arg) = (int n, '':'' @ arg)"
    using strtol10_nat_str [of "CHR '':''" n arg] assms(5) by (simp add: is_digit_def byte_def)
  ultimately show ?thesis
    using assms
    by (simp add: validate_command_runtime_argv_def command_arg_if_token_parse_def Let_def starts_with_def)
qed

theorem arg_if_length_unchecked_witness:
  "validate_command_runtime_argv zero_qstar_project_command
     [''<qstar-command-arg-if:'' @ ''verbose'' @ '':'' @ nat_str 99 @ '':'' @ ''-v>''] = Inl WildRead"
  by (rule arg_if_length_unchecked) simp_all

section \<open>A validated and a rejected set of commands\<close>

definition call_step :: "string \<Rightarrow> qstar_command_step" where
  "call_step name = zero_qstar_command_step\<lparr>cst_kind := ''call'', cst_command := Some name\<rparr>"

definition demo_commands :: "qstar_command_step list \<Rightarrow> qstar_graph" where
  "demo_commands steps = zero_qstar_graph\<lparr>gr_commands :=
     [zero_qstar_project_command\<lparr>pc_name := ''ci'', pc_aliases := [''c''], pc_steps := [call_step ''unit'']\<rparr>,
      zero_qstar_project_command\<lparr>pc_name := ''unit'', pc_steps := steps\<rparr>]\<rparr>"

definition check_step :: qstar_command_step where
  "check_step = zero_qstar_command_step\<lparr>cst_kind := ''check''\<rparr>"

lemma demo_commands_pass: "qstar_graph_validate_project_commands (demo_commands [check_step]) = Inr ()"
  by code_simp

lemma demo_commands_cycle:
  "qstar_graph_validate_project_commands (demo_commands [call_step ''ci'']) =
   Inl (Origin [] 0 ''steps'' ''ci'' (''qstar: project command call cycle includes '' @ sq ''ci''))"
  by code_simp

theorem validated_command_found_witness:
  "qstar_graph_find_project_command (demo_commands [check_step]) (Some ''c'') =
     Some (gr_commands (demo_commands [check_step]) ! 0) \<and> \<not> project_command_name_reserved ''c''"
proof (rule validated_command_found)
  show "passes (qstar_graph_validate_project_commands (demo_commands [check_step]))"
    by (simp add: demo_commands_pass)
qed (simp_all add: demo_commands_def command_answers_def)

theorem validate_project_commands_iff_witness:
  "acyclic (calls (length (gr_commands (demo_commands [check_step]))) (command_calls (demo_commands [check_step])))"
  using validate_project_commands_iff [of "demo_commands [check_step]"] by (simp add: demo_commands_pass)

end
