(* ===== verification/QLabel.thy ===== *)
theory QLabel
  imports QPrelude
begin

text \<open>
  \<^verbatim>\<open>src/label.c\<close>: canonical target labels. A label is \<open>:name\<close> (relative to the declaring fragment),
  \<open>//package:name\<close> or \<open>@alias//package:name\<close>. The lemmas show that canonicalisation only returns
  well-formed labels, that it is idempotent, and that the package path read back from a canonical
  label is the package it was made with; and that an over-long alias overruns the stack buffer.
\<close>

section \<open>Characters of names and paths\<close>

definition valid_name_char :: "char \<Rightarrow> bool" where
  "valid_name_char c \<longleftrightarrow>
     is_upper c \<or> is_lower c \<or> is_digit c \<or> c = CHR ''_'' \<or> c = CHR ''-'' \<or> c = CHR ''.''"

definition valid_path_char :: "char \<Rightarrow> bool" where
  "valid_path_char c \<longleftrightarrow> valid_name_char c \<or> c = CHR ''/''"

definition valid_span :: "string \<Rightarrow> bool \<Rightarrow> bool" where
  "valid_span s path \<longleftrightarrow>
     s \<noteq> [] \<and> list_all (\<lambda>c. if path then valid_path_char c else valid_name_char c) s"

section \<open>Canonical labels\<close>

text \<open>The part after the optional alias: \<open>package:name\<close>, both valid.\<close>

definition valid_label_rest :: "string \<Rightarrow> bool" where
  "valid_label_rest rest = (case strrchr CHR '':'' rest of
      None \<Rightarrow> False
    | Some (path, name) \<Rightarrow>
        valid_span name False \<and>
        (path = [] \<or> (length path < PATH_MAX \<and> valid_span path True)))"

definition qstar_label_canonicalize :: "cstr \<Rightarrow> cstr \<Rightarrow> nat \<Rightarrow> string outcome" where
  "qstar_label_canonicalize label fragment_dir dstlen = (case label of
      None \<Rightarrow> Failure
    | Some [] \<Rightarrow> Failure
    | Some (c # cs) \<Rightarrow>
        if c = CHR '':'' then
          (if \<not> valid_span cs False then Failure
           else if present fragment_dir
             then of_option (put dstlen (''//'' @ str_or_empty fragment_dir @ '':'' @ cs))
           else of_option (put dstlen (''//:'' @ cs)))
        else if c = CHR ''@'' then
          (case strstr ''//'' (c # cs) of
             None \<Rightarrow> Failure
           | Some (before, from) \<Rightarrow>
               let alias = drop 1 before; rest = drop 2 from in
               if alias = [] then Failure
               else if PATH_MAX \<le> length alias then Undefined
               else if \<not> valid_span alias False then Failure
               else if \<not> valid_label_rest rest then Failure
               else of_option (put dstlen (c # cs)))
        else if starts_with ''//'' (c # cs) then
          (if \<not> valid_label_rest (drop 2 (c # cs)) then Failure
           else of_option (put dstlen (c # cs)))
        else Failure)"

text \<open>The leading \<open>@alias\<close> of an external label, with its \<open>@\<close>.\<close>

definition qstar_label_package_alias :: "cstr \<Rightarrow> nat \<Rightarrow> string option" where
  "qstar_label_package_alias label dstlen = (case label of
      None \<Rightarrow> None
    | Some l \<Rightarrow>
        if take 1 l \<noteq> ''@'' then None
        else case strstr ''//'' l of
            None \<Rightarrow> None
          | Some (before, _) \<Rightarrow> if before = [] then None else put dstlen before)"

text \<open>The package of a local canonical label.\<close>

definition qstar_label_package_path :: "cstr \<Rightarrow> nat \<Rightarrow> string option" where
  "qstar_label_package_path label dstlen = (case label of
      None \<Rightarrow> None
    | Some l \<Rightarrow>
        if \<not> starts_with ''//'' l \<or> dstlen = 0 then None
        else case strrchr CHR '':'' (drop 2 l) of
            None \<Rightarrow> None
          | Some (path, _) \<Rightarrow> put dstlen path)"

section \<open>Facts about spans\<close>

lemma valid_name_char_not_colon [simp]: "\<not> valid_name_char CHR '':''"
  and valid_path_char_not_colon [simp]: "\<not> valid_path_char CHR '':''"
  and valid_name_char_not_slash [simp]: "\<not> valid_name_char CHR ''/''"
  by (simp_all add: valid_name_char_def valid_path_char_def char_class_defs)

lemma valid_span_no_colon: "valid_span s p \<Longrightarrow> CHR '':'' \<notin> set s"
  by (auto simp: valid_span_def list_all_iff split: if_splits)

lemma valid_span_mono: "valid_span s False \<Longrightarrow> valid_span s True"
  by (auto simp: valid_span_def list_all_iff valid_path_char_def)

lemma strrchr_name:
  "CHR '':'' \<notin> set name \<Longrightarrow> strrchr CHR '':'' (path @ CHR '':'' # name) = Some (path, name)"
  by (simp add: strrchr_Some)

lemma valid_label_restI:
  assumes "valid_span name False" and "path = [] \<or> length path < PATH_MAX \<and> valid_span path True"
  shows "valid_label_rest (path @ CHR '':'' # name)"
  using assms by (simp add: valid_label_rest_def strrchr_name valid_span_no_colon)

lemma package_path_local:
  assumes "valid_span name False" and "0 < n"
  shows "qstar_label_package_path (Some (''//'' @ path @ CHR '':'' # name)) n = put n path"
  using assms
  by (simp add: qstar_label_package_path_def starts_with_def strrchr_name valid_span_no_colon)

text \<open>A label relative to a fragment: the canonical form spells the fragment out.\<close>

lemma canonicalize_relative:
  assumes "qstar_label_canonicalize (Some (CHR '':'' # name)) fd n = Value r"
  shows "valid_span name False \<and> r = ''//'' @ str_or_empty fd @ CHR '':'' # name \<and> length r < n"
  using assms
  by (auto simp: qstar_label_canonicalize_def present_def str_or_def split: if_splits option.splits)

lemma canonicalize_shapes:
  assumes "qstar_label_canonicalize (Some l) fd n = Value r"
  shows "take 1 l = '':'' \<or> (r = l \<and> length l < n \<and> (take 1 l = ''@'' \<or> starts_with ''//'' l))"
  using assms
  by (auto simp: qstar_label_canonicalize_def Let_def split: if_splits option.splits list.splits)

text \<open>
  Canonicalisation is idempotent. A label that canonicalises, in a fragment whose directory is
  empty or a valid package path, canonicalises to itself in every fragment from then on: relative,
  local and external labels alike.
\<close>

theorem canonicalize_idempotent:
  assumes "qstar_label_canonicalize label fd n = Value r"
    and "\<not> present fd \<or> (valid_span (str_or_empty fd) True \<and> length (str_or_empty fd) < PATH_MAX)"
  shows "qstar_label_canonicalize (Some r) fd' n = Value r"
proof -
  from assms(1) obtain l where l: "label = Some l"
    by (auto simp: qstar_label_canonicalize_def split: option.splits)
  show ?thesis
  proof (cases "take 1 l = '':''")
    case True
    then obtain name where "l = CHR '':'' # name" by (cases l) auto
    with assms(1) l have r: "valid_span name False" "r = ''//'' @ str_or_empty fd @ CHR '':'' # name"
      "length r < n"
      using canonicalize_relative by blast+
    have "valid_label_rest (str_or_empty fd @ CHR '':'' # name)"
      using r(1) assms(2) by (intro valid_label_restI) (auto simp: present_def str_or_def split: option.splits)
    with r show ?thesis
      by (simp add: qstar_label_canonicalize_def starts_with_def)
  next
    case False
    with assms(1) l have r: "r = l" "l \<noteq> []"
      using canonicalize_shapes [of l fd n r]
      by (auto simp: qstar_label_canonicalize_def split: option.splits)
    with False assms(1) l show ?thesis
      by (cases l) (auto simp: qstar_label_canonicalize_def Let_def split: if_splits option.splits)
  qed
qed

theorem canonicalize_idempotent_witness:
  "qstar_label_canonicalize (Some ''//lib/core:math'') (Some ''other'') 4096 = Value ''//lib/core:math''"
proof (rule canonicalize_idempotent)
  show "qstar_label_canonicalize (Some '':math'') (Some ''lib/core'') 4096 = Value ''//lib/core:math''"
    by code_simp
  show "\<not> present (Some ''lib/core'') \<or>
      valid_span (str_or_empty (Some ''lib/core'')) True \<and> length (str_or_empty (Some ''lib/core'')) < PATH_MAX"
    by code_simp
qed

text \<open>
  A relative label belongs to the fragment it was written in: the package path read back from
  the canonical form of \<open>:name\<close> is exactly the fragment directory (the root package for none).
\<close>

theorem relative_label_package:
  assumes "qstar_label_canonicalize (Some (CHR '':'' # name)) fd n = Value r"
    and "length (str_or_empty fd) < m"
  shows "qstar_label_package_path (Some r) m = Some (str_or_empty fd)"
proof -
  have "valid_span name False" and "r = ''//'' @ str_or_empty fd @ CHR '':'' # name"
    using canonicalize_relative [OF assms(1)] by blast+
  then show ?thesis using assms(2) by (simp only: package_path_local) simp
qed

theorem relative_label_package_witness:
  "qstar_label_package_path (Some ''//lib:core'') 4096 = Some (str_or_empty (Some ''lib''))"
  by (rule relative_label_package [where name = "''core''" and n = 4096]) code_simp+

text \<open>
  An external label whose alias does not fit the path buffer is not rejected: the alias is copied
  into the fixed-size stack buffer before any length check, so the run is undefined for every
  such label.
\<close>

theorem long_alias_overruns:
  assumes "PATH_MAX \<le> length alias" and "CHR ''/'' \<notin> set alias"
  shows "qstar_label_canonicalize (Some (CHR ''@'' # alias @ ''//'' @ rest)) fd n = Undefined"
proof -
  have "strstr ''//'' (xs @ ''//'' @ rest) = Some (xs, ''//'' @ rest)" if "CHR ''/'' \<notin> set xs" for xs
    using that by (induction xs) (auto simp: starts_with_def)
  from this [of "CHR ''@'' # alias"] assms show ?thesis
    by (auto simp: qstar_label_canonicalize_def Let_def)
qed

theorem long_alias_overruns_witness:
  "qstar_label_canonicalize
     (Some (CHR ''@'' # replicate PATH_MAX CHR ''a'' @ ''//'' @ ''p:x'')) None 4096 = Undefined"
  by (rule long_alias_overruns) auto

end
