(* ===== verification/QPlatform.thy ===== *)
theory QPlatform
  imports QConfigs
begin

text \<open>
  \<^verbatim>\<open>src/tool_resolution.c\<close>: the platform predicates and the resolution of a target's tools from its
  toolset. The lemma shows which toolset role every tool comes from, with its fall-backs.
\<close>

section \<open>Platforms\<close>

text \<open>What the preprocessor knows of the build host.\<close>

datatype host_os = HostWindows | HostDarwin | HostLinux | HostOther

definition qstar_host_platform :: "host_os \<Rightarrow> string" where
  "qstar_host_platform host = (case host of
      HostWindows \<Rightarrow> ''windows'' | HostDarwin \<Rightarrow> ''darwin'' | HostLinux \<Rightarrow> ''linux'' | HostOther \<Rightarrow> ''generic'')"

definition means_host :: "cstr \<Rightarrow> bool" where
  "means_host p \<longleftrightarrow> \<not> present p \<or> p = Some ''host'' \<or> p = Some ''default''"

definition qstar_platform_is_windows :: "host_os \<Rightarrow> cstr \<Rightarrow> bool" where
  "qstar_platform_is_windows host p = (if means_host p then host = HostWindows else p = Some ''windows'')"

definition qstar_platform_is_darwin :: "host_os \<Rightarrow> cstr \<Rightarrow> bool" where
  "qstar_platform_is_darwin host p = (if means_host p then host = HostDarwin else p = Some ''darwin'')"

definition qstar_platform_is_linux :: "host_os \<Rightarrow> cstr \<Rightarrow> bool" where
  "qstar_platform_is_linux host p = (if means_host p then host = HostLinux else p = Some ''linux'')"

definition qstar_platform_supports_sharedlib :: "host_os \<Rightarrow> cstr \<Rightarrow> bool" where
  "qstar_platform_supports_sharedlib host p \<longleftrightarrow>
     qstar_platform_is_darwin host p \<or> qstar_platform_is_linux host p \<or> qstar_platform_is_windows host p"

section \<open>Tools of a target\<close>

definition tool_name_uses_msvc_link_style :: "string \<Rightarrow> bool" where
  "tool_name_uses_msvc_link_style tool \<longleftrightarrow>
     str_contains ''clang-cl'' tool \<or> str_contains ''cl.exe'' tool \<or>
     str_contains ''lld-link'' tool \<or> str_contains ''link.exe'' tool"

definition resolved_link_style :: "qstar_resolved_toolchain \<Rightarrow> string" where
  "resolved_link_style r =
     (if rt_response_style r = ''msvc'' then ''msvc''
      else if tool_name_uses_msvc_link_style (rt_cc r) \<or> tool_name_uses_msvc_link_style (rt_cxx r) \<or>
              tool_name_uses_msvc_link_style (rt_linker r) then ''msvc''
      else ''posix'')"

definition response_files_enabled :: "cstr \<Rightarrow> bool \<Rightarrow> bool" where
  "response_files_enabled val default_value =
     (if \<not> present val \<or> val = Some ''auto'' then default_value
      else \<not> (val = Some ''off'' \<or> val = Some ''false'' \<or> val = Some ''0''))"

definition qstar_resolved_toolchain_provider_tool ::
  "qstar_resolved_toolchain \<Rightarrow> string \<Rightarrow> string \<Rightarrow> string option" where
  "qstar_resolved_toolchain_provider_tool r provider provider_role =
     (if provider_role \<noteq> ''compiler'' then None
      else if provider = ''c'' then Some (rt_cc r)
      else if provider = ''cxx'' then Some (rt_cxx r)
      else if provider = ''asm'' then Some (rt_asm r)
      else None)"

text \<open>The first word of a role, copied into a buffer of \<open>n\<close> bytes; the old text if there is none.\<close>

definition role_tool :: "qstar_toolset \<Rightarrow> string \<Rightarrow> nat \<Rightarrow> string \<Rightarrow> string" where
  "role_tool ts role n old = (case qstar_toolset_role_argv (Some ts) role of
      None \<Rightarrow> old | Some argv \<Rightarrow> trunc_buf n (hd argv))"

definition apply_builtin_provider_tool :: "qstar_toolset \<Rightarrow> string \<Rightarrow> nat \<Rightarrow> string \<Rightarrow> string" where
  "apply_builtin_provider_tool ts provider n old = (case qstar_language_provider_lookup (Some provider) of
      None \<Rightarrow> old
    | Some p \<Rightarrow>
        if pi_compiler_role p = [] then old
        else case put 128 (pi_namespace p @ ''.'' @ pi_compiler_role p) of
            None \<Rightarrow> old
          | Some role_name \<Rightarrow> role_tool ts role_name n old)"

definition default_toolchain :: "host_os \<Rightarrow> qstar_graph \<Rightarrow> qstar_resolved_toolchain" where
  "default_toolchain host g =
     (let platform = trunc_buf 32 (qstar_graph_platform (qstar_host_platform host) g)
      in \<lparr>rt_platform = platform, rt_link_style = [], rt_cc = ''cc'', rt_cxx = ''c++'', rt_ar = ''ar'',
          rt_asm = ''cc'', rt_linker = ''cc'', rt_resolver = ''builtin-tools-v1'', rt_toolset = [],
          rt_response_files = True,
          rt_response_style = (if qstar_platform_is_windows host (Some platform) then ''windows'' else ''posix'')\<rparr>)"

definition toolset_toolchain :: "qstar_toolset \<Rightarrow> qstar_resolved_toolchain \<Rightarrow> qstar_resolved_toolchain" where
  "toolset_toolchain ts r =
     (let cc = apply_builtin_provider_tool ts ''c'' PATH_MAX (rt_cc r)
      in r\<lparr>rt_toolset := trunc_buf PATH_MAX (ts_label ts),
           rt_cc := cc,
           rt_cxx := apply_builtin_provider_tool ts ''cxx'' PATH_MAX (rt_cxx r),
           rt_asm := (if qstar_toolset_role_argv (Some ts) ''asm.compiler'' = None then trunc_buf PATH_MAX cc
                      else apply_builtin_provider_tool ts ''asm'' PATH_MAX (rt_asm r)),
           rt_ar := role_tool ts ''archive'' PATH_MAX (rt_ar r),
           rt_linker := role_tool ts ''link'' PATH_MAX (rt_linker r),
           rt_response_files := response_files_enabled (ts_response_files ts) (rt_response_files r),
           rt_response_style := (if present (ts_response_style ts) \<and> ts_response_style ts \<noteq> Some ''auto''
                                 then trunc_buf 32 (str_or_empty (ts_response_style ts))
                                 else rt_response_style r),
           rt_resolver := ''toolset-schema-v1''\<rparr>)"

text \<open>The toolset label is the only field of the target that is read.\<close>

definition qstar_resolve_toolchain :: "host_os \<Rightarrow> qstar_graph \<Rightarrow> cstr \<Rightarrow> qstar_resolved_toolchain" where
  "qstar_resolve_toolchain host g toolset_label =
     (let r = default_toolchain host g;
          r = (case (if present toolset_label then qstar_graph_find_toolset g toolset_label else None) of
                 None \<Rightarrow> r | Some ts \<Rightarrow> toolset_toolchain ts r)
      in r\<lparr>rt_link_style := resolved_link_style r\<rparr>)"

definition qstar_resolve_toolset_context ::
  "host_os \<Rightarrow> qstar_graph \<Rightarrow> cstr \<Rightarrow> qerr + qstar_resolved_toolchain" where
  "qstar_resolve_toolset_context host g label =
     (if \<not> present label then Inl (Plain ''qstar: explicit toolset context requires a toolset label'')
      else Inr (qstar_resolve_toolchain host g label))"

definition tool_list_contains :: "string list \<Rightarrow> cstr \<Rightarrow> bool" where
  "tool_list_contains xs tool \<longleftrightarrow> present tool \<and> list_contains xs (str_or_empty tool)"

definition qstar_resolve_command_materialization_context ::
  "host_os \<Rightarrow> qstar_graph \<Rightarrow> cstr \<Rightarrow> cstr \<Rightarrow> qerr + qstar_resolved_toolchain" where
  "qstar_resolve_command_materialization_context host g label tool =
     (case qstar_resolve_toolset_context host g label of
        Inl e \<Rightarrow> Inl e
      | Inr r \<Rightarrow> (case qstar_graph_find_toolset g label of
            Some ts \<Rightarrow> if tool_list_contains (ts_response_file_tools ts) tool then Inr r
                       else Inr (r\<lparr>rt_response_files := False\<rparr>)
          | None \<Rightarrow> Inr (r\<lparr>rt_response_files := False\<rparr>)))"

section \<open>Where a tool comes from\<close>

text \<open>The first word of a role of a toolset, if the role has one.\<close>

definition role_word :: "qstar_toolset option \<Rightarrow> string \<Rightarrow> string option" where
  "role_word ts role = map_option (\<lambda>argv. trunc_buf PATH_MAX (hd argv)) (qstar_toolset_role_argv ts role)"

lemma builtin_tool_role:
  "apply_builtin_provider_tool ts ''c'' PATH_MAX old = str_or old (role_word (Some ts) ''c.compiler'')"
  "apply_builtin_provider_tool ts ''cxx'' PATH_MAX old = str_or old (role_word (Some ts) ''cxx.compiler'')"
  "apply_builtin_provider_tool ts ''asm'' PATH_MAX old = str_or old (role_word (Some ts) ''asm.compiler'')"
  "role_tool ts role PATH_MAX old = str_or old (role_word (Some ts) role)"
  by (simp_all add: apply_builtin_provider_tool_def qstar_language_provider_lookup_def
      builtin_language_providers_def role_tool_def role_word_def put_def str_or_def split: option.splits)

lemma trunc_buf_twice [simp]: "trunc_buf n (trunc_buf n s) = trunc_buf n s"
  by (simp add: trunc_buf_def)

lemma role_word_trunc: "trunc_buf PATH_MAX (str_or d (role_word ts r)) = str_or d (role_word ts r)"
  if "length d < PATH_MAX"
  using that by (cases "role_word ts r") (auto simp: role_word_def)

text \<open>
  Every tool of a target is the first word of the role its toolset declares for it, and the
  built-in default when the target has no known toolset or the toolset no such role; without an
  assembler role, assembling uses the C compiler of the same toolset. Linking is in the MSVC style
  exactly when the toolset asks for it or one of the compilers or the linker is an MSVC tool.
\<close>

theorem resolve_toolchain_roles:
  "let r = qstar_resolve_toolchain host g label; ts = qstar_graph_find_toolset g label
   in rt_cc r = str_or ''cc'' (role_word ts ''c.compiler'')
    \<and> rt_cxx r = str_or ''c++'' (role_word ts ''cxx.compiler'')
    \<and> rt_asm r = str_or (rt_cc r) (role_word ts ''asm.compiler'')
    \<and> rt_ar r = str_or ''ar'' (role_word ts ''archive'')
    \<and> rt_linker r = str_or ''cc'' (role_word ts ''link'')
    \<and> rt_link_style r = (if rt_response_style r = ''msvc'' \<or>
         list_ex tool_name_uses_msvc_link_style [rt_cc r, rt_cxx r, rt_linker r] then ''msvc'' else ''posix'')"
proof (cases "present label \<and> qstar_graph_find_toolset g label \<noteq> None")
  case False
  then have "(if present label then qstar_graph_find_toolset g label else None) = None"
    and none: "qstar_graph_find_toolset g label = None"
    by (auto simp: qstar_graph_find_toolset_def)
  then show ?thesis
    unfolding qstar_resolve_toolchain_def Let_def none
    by (simp add: default_toolchain_def Let_def role_word_def qstar_toolset_role_argv_def resolved_link_style_def)
next
  case True
  then obtain ts where ts: "qstar_graph_find_toolset g label = Some ts" "present label" by blast
  have asm: "qstar_toolset_role_argv (Some ts) ''asm.compiler'' = None \<longleftrightarrow> role_word (Some ts) ''asm.compiler'' = None"
    by (simp add: role_word_def)
  have cc: "trunc_buf PATH_MAX (str_or ''cc'' (role_word (Some ts) ''c.compiler'')) =
      str_or ''cc'' (role_word (Some ts) ''c.compiler'')"
    by (rule role_word_trunc) simp
  define r where "r = toolset_toolchain ts (default_toolchain host g)"
  have r: "rt_cc r = str_or ''cc'' (role_word (Some ts) ''c.compiler'')"
    "rt_cxx r = str_or ''c++'' (role_word (Some ts) ''cxx.compiler'')"
    "rt_asm r = str_or (rt_cc r) (role_word (Some ts) ''asm.compiler'')"
    "rt_ar r = str_or ''ar'' (role_word (Some ts) ''archive'')"
    "rt_linker r = str_or ''cc'' (role_word (Some ts) ''link'')"
    by (simp_all only: r_def toolset_toolchain_def default_toolchain_def builtin_tool_role Let_def asm cc
        qstar_resolved_toolchain.simps) (simp add: str_or_def split: option.splits)
  have "qstar_resolve_toolchain host g label = r\<lparr>rt_link_style := resolved_link_style r\<rparr>"
    by (simp add: qstar_resolve_toolchain_def ts r_def Let_def)
  then show ?thesis
    using r unfolding Let_def ts by (simp add: resolved_link_style_def)
qed

end
