(* ===== verification/QToolContext.thy ===== *)
theory QToolContext
  imports QPlatform
begin

text \<open>
  \<^verbatim>\<open>src/tool_context.c\<close>: the file names of everything a target produces. The lemmas show that the
  objects of one build directory have different paths unless their owners mangle alike, that owners
  of different labels can mangle alike, and which artifact a target is linked by.
\<close>

section \<open>Output paths\<close>

text \<open>\<open>dst\<close> holds at most \<open>dstlen - 1\<close> bytes; nothing is written for \<open>dstlen = 0\<close>.\<close>

definition qstar_mangle_label :: "string \<Rightarrow> nat \<Rightarrow> string" where
  "qstar_mangle_label label dstlen =
     map (\<lambda>c. if is_alnum c then c else CHR ''_'') (take (dstlen - 1) label)"

definition sub_path :: "qstar_graph \<Rightarrow> string \<Rightarrow> nat \<Rightarrow> string option" where
  "sub_path g sub dstlen = Option.bind (put PATH_MAX sub) (\<lambda>s. qstar_graph_build_path g (Some s) dstlen)"

definition qstar_graph_object_output_path :: "qstar_graph \<Rightarrow> qstar_target \<Rightarrow> nat \<Rightarrow> nat \<Rightarrow> string option" where
  "qstar_graph_object_output_path g t i dstlen =
     sub_path g (''out/'' @ qstar_mangle_label (t_label t) PATH_MAX @ ''/obj'' @ nat_str i @ ''.o'') dstlen"

definition qstar_graph_consumer_object_output_path ::
  "qstar_graph \<Rightarrow> qstar_target \<Rightarrow> qstar_target \<Rightarrow> nat \<Rightarrow> nat \<Rightarrow> string option" where
  "qstar_graph_consumer_object_output_path g consumer objectlib i dstlen =
     sub_path g (''out/'' @ qstar_mangle_label (t_label consumer) PATH_MAX @ ''/objects/'' @
       qstar_mangle_label (t_label objectlib) PATH_MAX @ ''/obj'' @ nat_str i @ ''.o'') dstlen"

definition qstar_graph_depfile_output_path :: "qstar_graph \<Rightarrow> qstar_target \<Rightarrow> nat \<Rightarrow> nat \<Rightarrow> string option" where
  "qstar_graph_depfile_output_path g t i dstlen =
     sub_path g (''out/'' @ qstar_mangle_label (t_label t) PATH_MAX @ ''/obj'' @ nat_str i @ ''.d'') dstlen"

definition qstar_graph_consumer_depfile_output_path ::
  "qstar_graph \<Rightarrow> qstar_target \<Rightarrow> qstar_target \<Rightarrow> nat \<Rightarrow> nat \<Rightarrow> string option" where
  "qstar_graph_consumer_depfile_output_path g consumer objectlib i dstlen =
     sub_path g (''out/'' @ qstar_mangle_label (t_label consumer) PATH_MAX @ ''/objects/'' @
       qstar_mangle_label (t_label objectlib) PATH_MAX @ ''/obj'' @ nat_str i @ ''.d'') dstlen"

definition artifact_path_with_filename :: "qstar_graph \<Rightarrow> qstar_target \<Rightarrow> string \<Rightarrow> nat \<Rightarrow> string option" where
  "artifact_path_with_filename g t filename dstlen =
     sub_path g (''out/'' @ qstar_mangle_label (t_label t) PATH_MAX @ ''/'' @ filename) dstlen"

abbreviation graph_platform :: "host_os \<Rightarrow> qstar_graph \<Rightarrow> cstr" where
  "graph_platform host g \<equiv> Some (qstar_graph_platform (qstar_host_platform host) g)"

definition target_primary_artifact_filename ::
  "host_os \<Rightarrow> qstar_graph \<Rightarrow> qstar_target \<Rightarrow> nat \<Rightarrow> string option" where
  "target_primary_artifact_filename host g t dstlen =
     (if present (t_artifact_name t) then put dstlen (str_or_empty (t_artifact_name t))
      else
        let rule = qstar_target_rule_lookup (t_kind t);
            prefix = (case rule of None \<Rightarrow> [] | Some r \<Rightarrow> ru_artifact_prefix r);
            suffix = (case rule of None \<Rightarrow> [] | Some r \<Rightarrow> ru_artifact_suffix r);
            p = graph_platform host g;
            (prefix, suffix) =
              (if t_kind t = ''sharedlib'' then
                 (if qstar_platform_is_darwin host p then (prefix, ''.dylib'')
                  else if qstar_platform_is_windows host p then ('''', ''.dll'')
                  else (prefix, ''.so''))
               else if (t_kind t = ''exe'' \<or> t_kind t = ''test'') \<and> qstar_platform_is_windows host p then
                 (prefix, ''.exe'')
               else (prefix, suffix))
        in put dstlen (prefix @ t_name t @ suffix))"

text \<open>A dot in first position does not start an extension.\<close>

definition replace_extension :: "string \<Rightarrow> string \<Rightarrow> nat \<Rightarrow> string option" where
  "replace_extension filename suffix dstlen =
     (let stem = (case strrchr CHR ''.'' filename of
            Some (s, _) \<Rightarrow> if s = [] then filename else s
          | None \<Rightarrow> filename)
      in put dstlen (stem @ suffix))"

section \<open>The artifact map\<close>

text \<open>The map has 16 entries with buffers of 64, 64, 16, 4096 and 32 bytes.\<close>

definition push_artifact_roles ::
  "qstar_target_artifact list \<Rightarrow> string \<Rightarrow> string \<Rightarrow> string \<Rightarrow> string \<Rightarrow> string \<Rightarrow>
   bool \<Rightarrow> bool \<Rightarrow> bool \<Rightarrow> bool \<Rightarrow> bool \<Rightarrow> qstar_target_artifact list option" where
  "push_artifact_roles m aid role ty path install_dir primary secondary runtime link_interface installable =
     (let ty' = nonempty_or ''file'' (Some ty)
      in if 16 \<le> length m \<or> 64 \<le> length aid \<or> 64 \<le> length role \<or> 16 \<le> length ty' \<or>
            PATH_MAX \<le> length path \<or> 32 \<le> length install_dir then None
         else Some (m @ [\<lparr>ta_id = aid, ta_role = role, ta_type = ty', ta_path = path,
           ta_install_dir = install_dir, ta_primary = primary, ta_secondary = secondary,
           ta_runtime = runtime, ta_link_interface = link_interface, ta_installable = installable\<rparr>]))"

definition push_artifact ::
  "qstar_target_artifact list \<Rightarrow> string \<Rightarrow> string \<Rightarrow> string \<Rightarrow> string \<Rightarrow> bool \<Rightarrow> bool \<Rightarrow>
   qstar_target_artifact list option" where
  "push_artifact m aid role path install_dir primary installable =
     push_artifact_roles m aid role ''file'' path install_dir primary (\<not> primary)
       (role \<in> set [''sharedlib'', ''exe'', ''tool''])
       (role \<in> set [''link'', ''import_lib'', ''staticlib'', ''archive'']) installable"

fun push_imported ::
  "qstar_imported_artifact list \<Rightarrow> string \<Rightarrow> qstar_target_artifact list \<Rightarrow> qstar_target_artifact list option" where
  "push_imported [] platform m = Some m"
| "push_imported (a # as) platform m =
     (if ia_platform a \<noteq> platform then push_imported as platform m
      else case push_artifact m (ia_id a) (ia_role a) (ia_path a) [] (ia_primary a) False of
          None \<Rightarrow> None
        | Some m' \<Rightarrow> push_imported as platform m')"

fun push_provider_artifacts ::
  "qstar_provider_artifact_descriptor list \<Rightarrow> qstar_target_artifact list \<Rightarrow> qstar_target_artifact list option" where
  "push_provider_artifacts [] m = Some m"
| "push_provider_artifacts (a # as) m =
     (let role = (if pad_link_interface a then ''link-interface'' else if pad_runtime a then ''runtime''
                  else if pad_primary a then ''primary'' else ''secondary'')
      in case push_artifact_roles m (pad_id a) role (pad_type a) (pad_path a) [] (pad_primary a)
                (pad_secondary a) (pad_runtime a) (pad_link_interface a) False of
          None \<Rightarrow> None
        | Some m' \<Rightarrow> push_provider_artifacts as m')"

definition native_artifact_map ::
  "host_os \<Rightarrow> qstar_graph \<Rightarrow> qstar_target \<Rightarrow> string \<Rightarrow> string \<Rightarrow> qstar_target_artifact list option" where
  "native_artifact_map host g t filename path =
     (let kind = t_kind t; inst = qstar_target_is_installable t
      in if kind = ''sharedlib'' then
           (if qstar_platform_is_windows host (graph_platform host g) then
              (case push_artifact [] ''runtime'' ''sharedlib'' path ''bin'' True inst of
                 None \<Rightarrow> None
               | Some m \<Rightarrow> (case replace_extension filename ''.lib'' PATH_MAX of
                     None \<Rightarrow> None
                   | Some import_filename \<Rightarrow>
                       (case artifact_path_with_filename g t import_filename PATH_MAX of
                          None \<Rightarrow> None
                        | Some import_path \<Rightarrow>
                            push_artifact m ''import_lib'' ''import_lib'' import_path ''lib'' False inst)))
            else push_artifact [] ''runtime'' ''sharedlib'' path ''lib'' True inst)
         else if kind = ''exe'' \<or> kind = ''test'' then push_artifact [] ''runtime'' ''exe'' path ''bin'' True inst
         else if kind = ''staticlib'' then push_artifact [] ''archive'' ''staticlib'' path ''lib'' True inst
         else push_artifact [] ''primary'' kind path [] True inst)"

definition qstar_graph_target_artifact_map ::
  "host_os \<Rightarrow> qstar_graph \<Rightarrow> qstar_target \<Rightarrow> qstar_target_artifact list option" where
  "qstar_graph_target_artifact_map host g t =
     (if t_kind t \<in> set [''group'', ''run_target'', ''objectlib'', ''interface''] then Some []
      else if t_kind t = ''tool'' then push_artifact [] ''executable'' ''tool'' (t_tool_path t) [] True False
      else if t_kind t = ''imported'' then
        let platform = qstar_graph_platform (qstar_host_platform host) g;
            exact = list_ex (\<lambda>a. ia_platform a = platform) (t_imported_artifacts t)
        in push_imported (t_imported_artifacts t) (if exact then platform else ''default'') []
      else if pf_present (t_provider_final t) \<and> pf_artifacts (t_provider_final t) \<noteq> [] then
        push_provider_artifacts (pf_artifacts (t_provider_final t)) []
      else case target_primary_artifact_filename host g t PATH_MAX of
          None \<Rightarrow> None
        | Some filename \<Rightarrow> (case artifact_path_with_filename g t filename PATH_MAX of
              None \<Rightarrow> None
            | Some path \<Rightarrow> native_artifact_map host g t filename path))"

section \<open>Selecting an artifact\<close>

fun join_with :: "string \<Rightarrow> string list \<Rightarrow> string" where
  "join_with sep [] = []"
| "join_with sep [x] = x"
| "join_with sep (x # y # xs) = x @ sep @ join_with sep (y # xs)"

text \<open>The text stops where the buffer is full.\<close>

definition known_artifact_selectors :: "qstar_target_artifact list \<Rightarrow> nat \<Rightarrow> string" where
  "known_artifact_selectors m dstlen = trunc_buf dstlen (join_with '', '' (map ta_id m))"

definition artifact_selected :: "cstr \<Rightarrow> qstar_target_artifact \<Rightarrow> bool" where
  "artifact_selected sel a \<longleftrightarrow>
     ((\<not> present sel \<or> sel = Some ''primary'') \<and> ta_primary a) \<or> (present sel \<and> sel = Some (ta_id a))"

definition target_err :: "qstar_target \<Rightarrow> string \<Rightarrow> string \<Rightarrow> qerr" where
  "target_err t field msg = Origin (t_origin_file t) (t_origin_line t) field (t_label t) msg"

definition qstar_graph_target_artifact_path ::
  "host_os \<Rightarrow> qstar_graph \<Rightarrow> qstar_target \<Rightarrow> cstr \<Rightarrow> nat \<Rightarrow> qerr + string" where
  "qstar_graph_target_artifact_path host g t sel dstlen =
     (case qstar_graph_target_artifact_map host g t of
        None \<Rightarrow> Inl (Plain ''qstar: target artifact path too long'')
      | Some m \<Rightarrow> (case List.find (artifact_selected sel) m of
            None \<Rightarrow>
              if t_kind t = ''objectlib'' then
                Inl (target_err t ''target_file'' (''qstar: qstar.target_file cannot reference objectlib target '' @
                  sq (t_label t) @ '' because object libraries have no artifact; consume it with objects = { ... }''))
              else
                Inl (target_err t ''target_file'' (''qstar: target_file artifact selector '' @
                  sq (nonempty_or ''<primary>'' sel) @ '' is unknown for target '' @ sq (t_label t) @
                  ''; known artifacts: '' @ nonempty_or ''<none>'' (Some (known_artifact_selectors m 256))))
          | Some a \<Rightarrow>
              if dstlen \<le> length (ta_path a) then Inl (Plain ''qstar: target artifact path too long'')
              else Inr (ta_path a)))"

definition qstar_graph_artifact_output_path ::
  "host_os \<Rightarrow> qstar_graph \<Rightarrow> qstar_target \<Rightarrow> nat \<Rightarrow> qerr + string" where
  "qstar_graph_artifact_output_path host g t dstlen = qstar_graph_target_artifact_path host g t None dstlen"

text \<open>Without a graph: the default directories, the host platform, and no error text.\<close>

definition qstar_artifact_output_path :: "host_os \<Rightarrow> qstar_target \<Rightarrow> nat \<Rightarrow> string option" where
  "qstar_artifact_output_path host t dstlen =
     (case qstar_graph_artifact_output_path host qstar_graph_init t dstlen of Inl _ \<Rightarrow> None | Inr p \<Rightarrow> Some p)"

definition qstar_graph_target_artifact_outputs ::
  "host_os \<Rightarrow> qstar_graph \<Rightarrow> qstar_target \<Rightarrow> qerr + string list" where
  "qstar_graph_target_artifact_outputs host g t = (case qstar_graph_target_artifact_map host g t of
      None \<Rightarrow> Inl (Plain ''qstar: target artifact path too long'')
    | Some m \<Rightarrow> Inr (map ta_path m))"

definition bounded_path :: "nat \<Rightarrow> string \<Rightarrow> qstar_target_artifact \<Rightarrow> qerr + string" where
  "bounded_path dstlen msg a = (if length (ta_path a) < dstlen then Inr (ta_path a) else Inl (Plain msg))"

definition qstar_graph_target_link_artifact_path ::
  "host_os \<Rightarrow> qstar_graph \<Rightarrow> qstar_target \<Rightarrow> cstr \<Rightarrow> nat \<Rightarrow> qerr + string" where
  "qstar_graph_target_link_artifact_path host g t platform dstlen =
     (let m = qstar_graph_target_artifact_map host g t;
          selector = (if t_kind t = ''sharedlib'' \<and> qstar_platform_is_windows host platform
                      then Some ''import_lib'' else None);
          by_selector = qstar_graph_target_artifact_path host g t selector dstlen;
          imported = (if t_kind t \<noteq> ''imported'' then by_selector
            else case m of
                None \<Rightarrow> Inl (Plain ''qstar: imported artifact path too long'')
              | Some as \<Rightarrow> (case List.find (\<lambda>a. ta_role a = ''link'') as of
                    Some a \<Rightarrow> bounded_path dstlen ''qstar: imported link artifact path too long'' a
                  | None \<Rightarrow> by_selector))
      in case m of
          None \<Rightarrow> imported
        | Some as \<Rightarrow> (case List.find ta_link_interface as of
              Some a \<Rightarrow> bounded_path dstlen ''qstar: provider link-interface artifact path too long'' a
            | None \<Rightarrow> imported))"

definition is_tool_artifact :: "qstar_target \<Rightarrow> qstar_target_artifact \<Rightarrow> bool" where
  "is_tool_artifact t a \<longleftrightarrow> ta_role a = ''tool'' \<or> (ta_runtime a \<and> ta_primary a \<and> ta_type a = ''file'') \<or>
     ((t_kind t = ''exe'' \<or> t_kind t = ''test'') \<and> ta_primary a)"

definition qstar_graph_target_tool_path ::
  "host_os \<Rightarrow> qstar_graph \<Rightarrow> qstar_target \<Rightarrow> nat \<Rightarrow> qerr + string" where
  "qstar_graph_target_tool_path host g t dstlen = (case qstar_graph_target_artifact_map host g t of
      None \<Rightarrow> Inl (Plain ''qstar: tool artifact path too long'')
    | Some m \<Rightarrow> (case List.find (is_tool_artifact t) m of
          Some a \<Rightarrow> bounded_path dstlen ''qstar: tool artifact path too long'' a
        | None \<Rightarrow> Inl (target_err t ''tool_file'' (''qstar: qstar.tool_file target '' @ sq (t_label t) @
            '' has no executable tool artifact''))))"

section \<open>Object paths\<close>

lemma mangle_no_slash: "CHR ''/'' \<notin> set (qstar_mangle_label l n)"
  by (auto simp: qstar_mangle_label_def char_class_defs)

lemma digits_no_dot: "CHR ''.'' \<notin> set (nat_str i)"
  using nat_str_digits [of "CHR ''.''" i] by (auto simp: is_digit_def byte_def)

lemma sub_path_Some:
  "sub_path g sub n = Some p \<longleftrightarrow>
   length sub < PATH_MAX \<and> length p < n \<and> p = qstar_graph_build_dir g @ (if sub = [] then [] else CHR ''/'' # sub)"
  by (auto simp: sub_path_def qstar_graph_build_path_def bind_eq_Some_conv)

lemma before_slash_inject:
  "CHR ''/'' \<notin> set a \<Longrightarrow> CHR ''/'' \<notin> set b \<Longrightarrow> a @ CHR ''/'' # x = b @ CHR ''/'' # y \<longleftrightarrow> a = b \<and> x = y"
  using strchr_Some [of "CHR ''/''" "a @ CHR ''/'' # x" a x] strchr_Some [of "CHR ''/''" "a @ CHR ''/'' # x" b y]
  by auto

lemma object_name_inject: "nat_str i @ ''.o'' = nat_str j @ ''.o'' \<longleftrightarrow> i = j"
  using nat_str_inject by simp

text \<open>
  Object files of one graph never overwrite each other unless their targets mangle to the same
  directory: two equal object paths have the same source index and the same mangled owner. So the
  sources of one target always have different objects.
\<close>

theorem object_paths_distinct:
  assumes "qstar_graph_object_output_path g s i n = Some p"
    and "qstar_graph_object_output_path g t j n = Some p"
  shows "i = j \<and> qstar_mangle_label (t_label s) PATH_MAX = qstar_mangle_label (t_label t) PATH_MAX"
proof -
  let ?m = "\<lambda>t. qstar_mangle_label (t_label t) PATH_MAX"
  have "?m s @ CHR ''/'' # ''obj'' @ nat_str i @ ''.o'' = ?m t @ CHR ''/'' # ''obj'' @ nat_str j @ ''.o''"
    using assms by (simp add: qstar_graph_object_output_path_def sub_path_Some)
  then have "?m s = ?m t \<and> ''obj'' @ nat_str i @ ''.o'' = ''obj'' @ nat_str j @ ''.o''"
    by (simp only: before_slash_inject [OF mangle_no_slash mangle_no_slash])
  then show ?thesis by (simp add: nat_str_inject)
qed

theorem object_paths_distinct_witness:
  "(0::nat) = 0 \<and> qstar_mangle_label (t_label (zero_qstar_target\<lparr>t_label := ''//:a''\<rparr>)) PATH_MAX =
     qstar_mangle_label (t_label (zero_qstar_target\<lparr>t_label := ''//:a''\<rparr>)) PATH_MAX"
proof (rule object_paths_distinct)
  show "qstar_graph_object_output_path zero_qstar_graph (zero_qstar_target\<lparr>t_label := ''//:a''\<rparr>) 0 4096 =
      Some ''build/qstar/out/___a/obj0.o''" by code_simp
  then show "qstar_graph_object_output_path zero_qstar_graph (zero_qstar_target\<lparr>t_label := ''//:a''\<rparr>) 0 4096 =
      Some ''build/qstar/out/___a/obj0.o''" .
qed

text \<open>
  Two targets with different, canonical labels can share a directory, and then their objects do
  overwrite each other: mangling maps every character that is not alphanumeric to an underscore,
  and nothing compares the results.
\<close>

theorem mangled_owners_collide:
  "let s = zero_qstar_target\<lparr>t_label := ''//a_b:c''\<rparr>; t = zero_qstar_target\<lparr>t_label := ''//a:b_c''\<rparr>
   in qstar_graph_object_output_path zero_qstar_graph s 0 4096 =
        qstar_graph_object_output_path zero_qstar_graph t 0 4096
    \<and> qstar_graph_object_output_path zero_qstar_graph s 0 4096 \<noteq> None"
  by code_simp

section \<open>What a library is linked by\<close>

definition native_artifact :: "string \<Rightarrow> string \<Rightarrow> string \<Rightarrow> string \<Rightarrow> bool \<Rightarrow> bool \<Rightarrow> qstar_target_artifact" where
  "native_artifact aid role path dir primary inst =
     \<lparr>ta_id = aid, ta_role = role, ta_type = ''file'', ta_path = path, ta_install_dir = dir,
      ta_primary = primary, ta_secondary = (\<not> primary),
      ta_runtime = (role \<in> set [''sharedlib'', ''exe'', ''tool'']),
      ta_link_interface = (role \<in> set [''link'', ''import_lib'', ''staticlib'', ''archive'']),
      ta_installable = inst\<rparr>"

lemma push_artifact_Some:
  "push_artifact m aid role path dir primary inst = Some m' \<Longrightarrow>
   m' = m @ [native_artifact aid role path dir primary inst]"
  unfolding push_artifact_def push_artifact_roles_def Let_def native_artifact_def
  by (simp del: list.set split: if_split_asm)

text \<open>
  Linking against a native shared library uses the library itself, except on Windows, where it
  uses the import library: a second artifact beside the runtime library with the extension
  replaced by \<open>.lib\<close>. The runtime library stays the primary artifact in both cases.
\<close>

theorem sharedlib_link_artifact:
  assumes "t_kind t = ''sharedlib''" and "\<not> pf_present (t_provider_final t)"
    and "qstar_graph_target_artifact_map host g t = Some m"
    and "list_all (\<lambda>a. length (ta_path a) < n) m"
  shows "\<exists>runtime. qstar_graph_artifact_output_path host g t n = Inr (ta_path runtime) \<and> ta_id runtime = ''runtime'' \<and>
    (if qstar_platform_is_windows host (graph_platform host g) then
       (\<exists>import. m = [runtime, import] \<and> ta_id import = ''import_lib'' \<and>
          qstar_graph_target_link_artifact_path host g t (graph_platform host g) n = Inr (ta_path import))
     else m = [runtime] \<and>
       qstar_graph_target_link_artifact_path host g t (graph_platform host g) n = Inr (ta_path runtime))"
proof -
  obtain filename path where
    native: "native_artifact_map host g t filename path = Some m"
    using assms(1-3) by (auto simp: qstar_graph_target_artifact_map_def split: option.splits)
  note map_m = assms(3)
  show ?thesis
  proof (cases "qstar_platform_is_windows host (graph_platform host g)")
    case True
    then obtain m1 ip where m1: "push_artifact [] ''runtime'' ''sharedlib'' path ''bin'' True
          (qstar_target_is_installable t) = Some m1"
      and m: "push_artifact m1 ''import_lib'' ''import_lib'' ip ''lib'' False (qstar_target_is_installable t) = Some m"
      using native assms(1) by (auto simp: native_artifact_map_def Let_def split: option.splits)
    obtain r where r: "m1 = [r]" "ta_id r = ''runtime''" "ta_primary r" "\<not> ta_link_interface r"
      using push_artifact_Some [OF m1] by (simp add: native_artifact_def)
    obtain i where i: "m = [r, i]" "ta_id i = ''import_lib''" "ta_link_interface i"
      using push_artifact_Some [OF m] r(1) by (simp add: native_artifact_def)
    show ?thesis
      using True r i assms(4) map_m
      by (intro exI [of _ r])
         (simp add: qstar_graph_artifact_output_path_def qstar_graph_target_artifact_path_def
            qstar_graph_target_link_artifact_path_def artifact_selected_def bounded_path_def Let_def)
  next
    case False
    then have m: "push_artifact [] ''runtime'' ''sharedlib'' path ''lib'' True (qstar_target_is_installable t) = Some m"
      using native assms(1) by (simp add: native_artifact_map_def Let_def)
    obtain r where r: "m = [r]" "ta_id r = ''runtime''" "ta_primary r" "\<not> ta_link_interface r"
      using push_artifact_Some [OF m] by (simp add: native_artifact_def)
    show ?thesis
      using False r assms(1,4) map_m
      by (intro exI [of _ r])
         (simp add: qstar_graph_artifact_output_path_def qstar_graph_target_artifact_path_def
            qstar_graph_target_link_artifact_path_def artifact_selected_def Let_def)
  qed
qed

definition demo_lib :: qstar_target where
  "demo_lib = zero_qstar_target\<lparr>t_label := ''//:m'', t_name := ''m'', t_kind := ''sharedlib''\<rparr>"

definition demo_lib_graph :: qstar_graph where
  "demo_lib_graph = zero_qstar_graph\<lparr>gr_platform := Some ''windows''\<rparr>"

lemma demo_lib_map:
  "map_option (map ta_path) (qstar_graph_target_artifact_map HostLinux demo_lib_graph demo_lib) =
   Some [''build/qstar/out/___m/m.dll'', ''build/qstar/out/___m/m.lib'']"
  by code_simp

theorem sharedlib_link_artifact_witness:
  "\<exists>p. qstar_graph_target_link_artifact_path HostLinux demo_lib_graph demo_lib (Some ''windows'') 4096 = Inr p"
proof -
  obtain m where m: "qstar_graph_target_artifact_map HostLinux demo_lib_graph demo_lib = Some m"
    "map ta_path m = [''build/qstar/out/___m/m.dll'', ''build/qstar/out/___m/m.lib'']"
    using demo_lib_map by auto
  have win: "graph_platform HostLinux demo_lib_graph = Some ''windows''"
    "qstar_platform_is_windows HostLinux (Some ''windows'')"
    by code_simp+
  have "list_all (\<lambda>a. length (ta_path a) < 4096) m"
    using m(2) by auto
  then show ?thesis
    using sharedlib_link_artifact [OF _ _ m(1), of 4096] win
    by (auto simp: demo_lib_def zero_qstar_target_def zero_qstar_provider_final_action_def)
qed

end
