(* ===== verification/QExternalTool.thy ===== *)
theory QExternalTool
  imports QToolContext
begin

text \<open>
  \<^verbatim>\<open>src/external_tool_policy.c\<close>: which program the first word of a custom command may name, and the
  search of \<open>PATH\<close>. The lemmas show that every resolved tool is one the policy allows: an artifact of
  a target of the graph, a path inside the package, an absolute path only with the permission of
  the toolset, and a bare name only if the toolset lists it.
\<close>

section \<open>Spellings\<close>

definition tool_has_path_separator :: "string \<Rightarrow> bool" where
  "tool_has_path_separator tool \<longleftrightarrow> strchr CHR ''/'' tool \<noteq> None \<or> strchr BS tool \<noteq> None"

definition tool_is_absolute_path :: "string \<Rightarrow> bool" where
  "tool_is_absolute_path tool \<longleftrightarrow> take 1 tool = ''/'' \<or>
     (tool \<noteq> [] \<and> is_alpha (hd tool) \<and> take 1 (drop 1 tool) = '':'' \<and>
      (take 1 (drop 2 tool) = [BS] \<or> take 1 (drop 2 tool) = ''/''))"

definition valid_tool_name :: "string \<Rightarrow> bool" where
  "valid_tool_name tool \<longleftrightarrow> tool \<noteq> [] \<and> \<not> tool_has_path_separator tool \<and>
     list_all (\<lambda>c. is_alnum c \<or> c = CHR ''_'' \<or> c = CHR ''-'' \<or> c = CHR ''.'' \<or> c = CHR ''+'') tool"

definition context_bool_enabled :: "cstr \<Rightarrow> bool \<Rightarrow> bool" where
  "context_bool_enabled val default_value =
     (if \<not> present val then default_value
      else val \<in> set [Some ''true'', Some ''1'', Some ''yes'', Some ''on''])"

definition set_tool_resolution :: "nat \<Rightarrow> nat \<Rightarrow> string \<Rightarrow> string \<Rightarrow> (string \<times> string) option" where
  "set_tool_resolution resolved_len mode_len resolved_value mode_value =
     (if length resolved_value < resolved_len \<and> length mode_value < mode_len
      then Some (resolved_value, mode_value) else None)"

section \<open>The search path\<close>

fun split_colon :: "string \<Rightarrow> string list" where
  "split_colon [] = [[]]"
| "split_colon (c # cs) =
     (if c = CHR '':'' then [] # split_colon cs
      else case split_colon cs of [] \<Rightarrow> [[c]] | d # ds \<Rightarrow> (c # d) # ds)"

text \<open>
  \<open>exec_ok\<close> is \<open>access (candidate, X_OK) == 0\<close>. An empty directory means the current one. A candidate
  too long for the buffer is skipped, but not one in the current directory.
\<close>

fun search_dirs :: "(string \<Rightarrow> bool) \<Rightarrow> string \<Rightarrow> nat \<Rightarrow> string list \<Rightarrow> string option" where
  "search_dirs exec_ok tool dstlen [] = None"
| "search_dirs exec_ok tool dstlen (d # ds) =
     (if d = [] then
        (if PATH_MAX \<le> length tool + 2 then None
         else if exec_ok (''./'' @ tool) then put dstlen (''./'' @ tool)
         else search_dirs exec_ok tool dstlen ds)
      else if PATH_MAX < length d + 1 + length tool + 1 then search_dirs exec_ok tool dstlen ds
      else if exec_ok (d @ ''/'' @ tool) then put dstlen (d @ ''/'' @ tool)
      else search_dirs exec_ok tool dstlen ds)"

text \<open>\<open>path\<close> is \<open>getenv ("PATH")\<close>; \<open>None\<close> is the return value \<open>0\<close>.\<close>

definition qstar_external_tool_find_path_tool ::
  "(string \<Rightarrow> bool) \<Rightarrow> cstr \<Rightarrow> string \<Rightarrow> nat \<Rightarrow> string option" where
  "qstar_external_tool_find_path_tool exec_ok path tool dstlen =
     (if \<not> valid_tool_name tool then None
      else case path of None \<Rightarrow> None | Some p \<Rightarrow> search_dirs exec_ok tool dstlen (split_colon p))"

definition qstar_external_tool_mode_is_package_input :: "cstr \<Rightarrow> bool" where
  "qstar_external_tool_mode_is_package_input mode \<longleftrightarrow> mode = Some ''package''"

section \<open>The policy\<close>

definition toolset_allows_path_tool :: "qstar_graph \<Rightarrow> qstar_target option \<Rightarrow> string \<Rightarrow> bool" where
  "toolset_allows_path_tool g t tool =
     (let ts = (case t of None \<Rightarrow> None | Some t' \<Rightarrow> t_toolset t')
      in if present ts then
           (case qstar_graph_find_toolset g ts of None \<Rightarrow> False | Some s \<Rightarrow> list_contains (ts_path_tools s) tool)
         else list_ex (\<lambda>s. list_contains (ts_path_tools s) tool) (gr_toolsets g))"

definition toolset_label_allows_path_tool :: "qstar_graph \<Rightarrow> cstr \<Rightarrow> string \<Rightarrow> bool" where
  "toolset_label_allows_path_tool g label tool =
     (if \<not> present label then False
      else case qstar_graph_find_toolset g label of None \<Rightarrow> False | Some s \<Rightarrow> list_contains (ts_path_tools s) tool)"

definition toolset_allows_absolute_tool :: "qstar_graph \<Rightarrow> qstar_target option \<Rightarrow> bool" where
  "toolset_allows_absolute_tool g t =
     (let ts = (case t of None \<Rightarrow> None | Some t' \<Rightarrow> t_toolset t')
      in if present ts then
           (case qstar_graph_find_toolset g ts of
              None \<Rightarrow> False | Some s \<Rightarrow> context_bool_enabled (ts_allow_absolute_tools s) False)
         else list_ex (\<lambda>s. context_bool_enabled (ts_allow_absolute_tools s) False) (gr_toolsets g))"

definition toolset_label_allows_absolute_tool :: "qstar_graph \<Rightarrow> cstr \<Rightarrow> bool" where
  "toolset_label_allows_absolute_tool g label =
     (if \<not> present label then False
      else case qstar_graph_find_toolset g label of
          None \<Rightarrow> False | Some s \<Rightarrow> context_bool_enabled (ts_allow_absolute_tools s) False)"

text \<open>The two ways to choose the toolset: by an explicit label, else by the target.\<close>

definition path_tool_allowed :: "qstar_graph \<Rightarrow> qstar_target option \<Rightarrow> cstr \<Rightarrow> string \<Rightarrow> bool" where
  "path_tool_allowed g t label tool =
     (if present label then toolset_label_allows_path_tool g label tool else toolset_allows_path_tool g t tool)"

definition absolute_tool_allowed :: "qstar_graph \<Rightarrow> qstar_target option \<Rightarrow> cstr \<Rightarrow> bool" where
  "absolute_tool_allowed g t label =
     (if present label then toolset_label_allows_absolute_tool g label else toolset_allows_absolute_tool g t)"

text \<open>
  A failure gives the error that looking up the executable of a target recorded in the graph, if
  any, and the text of the caller's error buffer, \<open>None\<close> where the code writes none.
\<close>

type_synonym tool_result = "(qerr option \<times> cstr) + (string \<times> string)"

definition tool_failure :: "nat \<Rightarrow> string \<Rightarrow> tool_result" where
  "tool_failure error_len msg = Inl (None, Some (trunc_buf error_len msg))"

definition tool_success :: "(string \<times> string) option \<Rightarrow> tool_result" where
  "tool_success r = (case r of None \<Rightarrow> Inl (None, None) | Some x \<Rightarrow> Inr x)"

definition resolve_target_tool ::
  "host_os \<Rightarrow> qstar_graph \<Rightarrow> string \<Rightarrow> string \<Rightarrow> nat \<Rightarrow> nat \<Rightarrow> nat \<Rightarrow> tool_result" where
  "resolve_target_tool host g label artifact resolved_len mode_len error_len =
     (if artifact \<noteq> ''@tool'' then tool_failure error_len
          ''qstar: generated action executable target must use qstar.tool_file(...)''
      else case find_target g label of
          None \<Rightarrow> tool_failure error_len (''qstar: unknown executable tool target '' @ sq label)
        | Some t \<Rightarrow> (case qstar_graph_target_tool_path host g t resolved_len of
              Inl e \<Rightarrow> Inl (Some e, Some (trunc_buf error_len (gr_error (record_error g e))))
            | Inr p \<Rightarrow> tool_success (if length ''target'' < mode_len then Some (p, ''target'') else None)))"

definition resolve_command_tool ::
  "host_os \<Rightarrow> qstar_graph \<Rightarrow> qstar_target option \<Rightarrow> cstr \<Rightarrow> cstr \<Rightarrow> nat \<Rightarrow> nat \<Rightarrow> nat \<Rightarrow> tool_result" where
  "resolve_command_tool host g t toolset_label command resolved_len mode_len error_len =
     (let tool = str_or_empty command
      in if tool = [] then tool_failure error_len ''qstar: generated action tool is empty''
         else case qstar_target_file_token_parse (Some tool) PATH_MAX (Some 64) of
             BadToken \<Rightarrow> tool_failure error_len ''qstar: generated action tool token is malformed''
           | Token (label, artifact) \<Rightarrow>
               resolve_target_tool host g label artifact resolved_len mode_len error_len
           | NotToken \<Rightarrow>
               if tool_is_absolute_path tool then
                 (if \<not> absolute_tool_allowed g t toolset_label then
                    tool_failure error_len (''qstar: absolute generated action tool '' @ sq tool @
                      '' requires allow_absolute_tools=true'')
                  else tool_success (set_tool_resolution resolved_len mode_len tool ''absolute''))
               else if tool_has_path_separator tool then
                 (if \<not> qstar_path_is_package_relative tool then
                    tool_failure error_len (''qstar: generated action tool '' @ sq tool @
                      '' must be package-relative'')
                  else tool_success (set_tool_resolution resolved_len mode_len tool ''package''))
               else if \<not> valid_tool_name tool then
                 tool_failure error_len (''qstar: generated action PATH tool '' @ sq tool @ '' is invalid'')
               else if \<not> path_tool_allowed g t toolset_label tool then
                 tool_failure error_len (''qstar: generated action PATH tool '' @ sq tool @
                   '' is not allowed by toolset path_tools'')
               else tool_success (set_tool_resolution resolved_len mode_len tool ''path''))"

definition qstar_resolve_command_tool_for_target ::
  "host_os \<Rightarrow> qstar_graph \<Rightarrow> qstar_target option \<Rightarrow> cstr \<Rightarrow> nat \<Rightarrow> nat \<Rightarrow> nat \<Rightarrow> tool_result" where
  "qstar_resolve_command_tool_for_target host g t tool resolved_len mode_len error_len =
     resolve_command_tool host g t None tool resolved_len mode_len error_len"

definition qstar_resolve_command_tool_for_genrule ::
  "host_os \<Rightarrow> qstar_graph \<Rightarrow> qstar_target option \<Rightarrow> qstar_genrule option \<Rightarrow> cstr \<Rightarrow> nat \<Rightarrow> nat \<Rightarrow> nat \<Rightarrow> tool_result" where
  "qstar_resolve_command_tool_for_genrule host g t r tool resolved_len mode_len error_len =
     resolve_command_tool host g t
       (case r of None \<Rightarrow> None | Some r' \<Rightarrow> if present (g_toolset r') then g_toolset r' else None)
       tool resolved_len mode_len error_len"

definition qstar_external_tool_resolve_command_tool ::
  "host_os \<Rightarrow> qstar_graph \<Rightarrow> cstr \<Rightarrow> nat \<Rightarrow> nat \<Rightarrow> nat \<Rightarrow> tool_result" where
  "qstar_external_tool_resolve_command_tool host g tool resolved_len mode_len error_len =
     qstar_resolve_command_tool_for_target host g None tool resolved_len mode_len error_len"

section \<open>Only what the policy allows\<close>

text \<open>What each mode of a resolution stands for.\<close>

definition resolution_allowed ::
  "host_os \<Rightarrow> qstar_graph \<Rightarrow> qstar_target option \<Rightarrow> cstr \<Rightarrow> string \<Rightarrow> string \<Rightarrow> string \<Rightarrow> bool" where
  "resolution_allowed host g t label tool path mode \<longleftrightarrow>
     (mode = ''target'' \<and> (\<exists>s\<in>set (gr_targets g). \<exists>n. qstar_graph_target_tool_path host g s n = Inr path)) \<or>
     (mode = ''absolute'' \<and> path = tool \<and> tool_is_absolute_path tool \<and> absolute_tool_allowed g t label) \<or>
     (mode = ''package'' \<and> path = tool \<and> qstar_path_is_package_relative tool) \<or>
     (mode = ''path'' \<and> path = tool \<and> valid_tool_name tool \<and> path_tool_allowed g t label tool)"

lemma tool_success_Inr: "tool_success r = Inr x \<longleftrightarrow> r = Some x"
  by (simp add: tool_success_def split: option.splits)

lemma tool_failure_not_Inr [simp]: "tool_failure n msg \<noteq> Inr x"
  by (simp add: tool_failure_def)

lemma set_tool_resolution_Some:
  "set_tool_resolution n m v w = Some (p, mode) \<longleftrightarrow> p = v \<and> mode = w \<and> length v < n \<and> length w < m"
  by (auto simp: set_tool_resolution_def)

text \<open>
  A custom command only ever runs what the tool policy allows. A resolved tool is the executable
  of a declared target, a path that stays in the package, an absolute path with the permission of
  the toolset in force, or a bare program name that this toolset lists; nothing else resolves.
\<close>

theorem resolved_tool_allowed:
  assumes "resolve_command_tool host g t label (Some tool) n m k = Inr (path, mode)"
  shows "resolution_allowed host g t label tool path mode"
proof (cases "qstar_target_file_token_parse (Some tool) PATH_MAX (Some 64)")
  case NotToken
  then show ?thesis
    using assms
    by (simp add: resolve_command_tool_def resolution_allowed_def tool_success_Inr set_tool_resolution_Some
        split: if_splits)
next
  case BadToken
  then show ?thesis
    using assms by (simp add: resolve_command_tool_def split: if_splits)
next
  case (Token la)
  obtain l a where la: "la = (l, a)" by force
  then have "resolve_target_tool host g l a n m k = Inr (path, mode)"
    using assms Token by (simp add: resolve_command_tool_def split: if_splits)
  then obtain s where "find_target g l = Some s" "qstar_graph_target_tool_path host g s n = Inr path"
    "mode = ''target''"
    by (simp add: resolve_target_tool_def tool_success_Inr split: if_splits option.splits sum.splits)
  then show ?thesis
    using find_key_Some [of t_label l "gr_targets g" s]
    by (auto simp: resolution_allowed_def find_target_def)
qed

definition demo_tool_graph :: qstar_graph where
  "demo_tool_graph = zero_qstar_graph\<lparr>gr_toolsets :=
     [zero_qstar_toolset\<lparr>ts_label := ''//:tools'', ts_path_tools := [''python3'']\<rparr>]\<rparr>"

theorem resolved_tool_allowed_witness:
  "resolution_allowed HostLinux demo_tool_graph None None ''python3'' ''python3'' ''path''"
proof (rule resolved_tool_allowed)
  show "resolve_command_tool HostLinux demo_tool_graph None None (Some ''python3'') 4096 16 512 =
      Inr (''python3'', ''path'')" by code_simp
qed

lemma search_dirs_executable:
  "search_dirs exec_ok tool n ds = Some p \<Longrightarrow>
   exec_ok p \<and> length p < n \<and> (p = ''./'' @ tool \<or> (\<exists>d\<in>set ds. p = d @ ''/'' @ tool))"
  by (induction ds) (auto split: if_splits)

text \<open>
  Searching \<open>PATH\<close> only returns an executable file that fits the buffer, named by a directory of
  \<open>PATH\<close>, or the current one, and the tool; a tool spelled with a path separator is never searched.
\<close>

theorem path_search_executable:
  assumes "qstar_external_tool_find_path_tool exec_ok (Some path) tool n = Some p"
  shows "exec_ok p \<and> length p < n \<and> \<not> tool_has_path_separator tool
    \<and> (p = ''./'' @ tool \<or> (\<exists>d\<in>set (split_colon path). p = d @ ''/'' @ tool))"
  using assms search_dirs_executable [of exec_ok tool n "split_colon path" p]
  by (auto simp: qstar_external_tool_find_path_tool_def valid_tool_name_def split: if_splits)

theorem path_search_executable_witness:
  "(\<lambda>p. p = ''/usr/bin/cc'') ''/usr/bin/cc'' \<and> length ''/usr/bin/cc'' < 4096 \<and>
   \<not> tool_has_path_separator ''cc'' \<and>
   (''/usr/bin/cc'' = ''./'' @ ''cc'' \<or> (\<exists>d\<in>set (split_colon ''/bin:/usr/bin''). ''/usr/bin/cc'' = d @ ''/'' @ ''cc''))"
proof (rule path_search_executable [where exec_ok = "\<lambda>p. p = ''/usr/bin/cc''" and p = "''/usr/bin/cc''"])
  show "qstar_external_tool_find_path_tool (\<lambda>p. p = ''/usr/bin/cc'') (Some ''/bin:/usr/bin'') ''cc'' 4096 =
      Some ''/usr/bin/cc''" by code_simp
qed

end
