(* ===== verification/QSource.thy ===== *)
theory QSource
  imports QLabel QExternalTool
begin

text \<open>
  \<^verbatim>\<open>src/source.c\<close> (ownership, visibility, sources, link lists, object libraries) and \<^verbatim>\<open>src/header.c\<close>: what a
  declared target may refer to. The lemmas show what an accepted graph guarantees: labels belong to
  the package that declares them, dependencies are visible and no private header or directory is
  exposed, and sources are distinct, classified and inside the package.
\<close>

section \<open>Duplicates\<close>

text \<open>\<open>list_has_duplicate\<close> with the text it stores through \<open>dup\<close>: the first entry that repeats one.\<close>

fun first_repeat :: "string list \<Rightarrow> string list \<Rightarrow> string option" where
  "first_repeat seen [] = None"
| "first_repeat seen (x # xs) = (if list_contains seen x then Some x else first_repeat (seen @ [x]) xs)"

definition list_has_duplicate :: "string list \<Rightarrow> string option" where
  "list_has_duplicate xs = first_repeat [] xs"

definition list_pair_has_duplicate :: "string list \<Rightarrow> string list \<Rightarrow> string option" where
  "list_pair_has_duplicate xs ys = List.find (list_contains ys) xs"

definition source_is_duplicate :: "qstar_target \<Rightarrow> string \<Rightarrow> nat \<Rightarrow> bool" where
  "source_is_duplicate t path i \<longleftrightarrow> list_contains (take i (t_sources t)) path"

definition reject_some :: "string option \<Rightarrow> (string \<Rightarrow> qerr) \<Rightarrow> check" where
  "reject_some d e = (case d of None \<Rightarrow> Inr () | Some x \<Rightarrow> Inl (e x))"

lemma passes_reject_some [simp]: "passes (reject_some d e) \<longleftrightarrow> d = None"
  by (simp add: reject_some_def split: option.splits)

lemma first_repeat_None: "first_repeat seen xs = None \<longleftrightarrow> distinct xs \<and> set seen \<inter> set xs = {}"
  by (induction xs arbitrary: seen) auto

lemma list_has_duplicate_None [simp]: "list_has_duplicate xs = None \<longleftrightarrow> distinct xs"
  by (simp add: list_has_duplicate_def first_repeat_None)

lemma list_pair_has_duplicate_None [simp]:
  "list_pair_has_duplicate xs ys = None \<longleftrightarrow> set xs \<inter> set ys = {}"
  by (auto simp: list_pair_has_duplicate_def find_None_iff)

section \<open>Ownership\<close>

definition root_or :: "string \<Rightarrow> string" where
  "root_or s = (if s = [] then ''<root>'' else s)"

text \<open>The three ownership checks differ in the words for the thing declared.\<close>

definition validate_ownership :: "string \<Rightarrow> string \<Rightarrow> string \<Rightarrow> int \<Rightarrow> string \<Rightarrow> string \<Rightarrow> check" where
  "validate_ownership external what file line label fragment_dir =
     (case qstar_label_package_path (Some label) PATH_MAX of
        None \<Rightarrow> Inl (Origin file line ''label'' label
          (''qstar: external '' @ external @ '' label '' @ sq label @ '' cannot be declared in this package''))
      | Some package \<Rightarrow> reject (package \<noteq> fragment_dir) (Origin file line ''label'' label
          (''qstar: '' @ what @ '' '' @ sq label @ '' is owned by package '' @ sq (root_or package) @
           '' but declared in package '' @ sq (root_or fragment_dir))))"

definition validate_target_ownership :: "qstar_target \<Rightarrow> check" where
  "validate_target_ownership t =
     validate_ownership ''target'' ''target'' (t_origin_file t) (t_origin_line t) (t_label t) (t_fragment_dir t)"

definition validate_genrule_ownership :: "qstar_genrule \<Rightarrow> check" where
  "validate_genrule_ownership r = validate_ownership ''generated action'' ''generated action''
     (g_origin_file r) (g_origin_line r) (g_label r) (g_fragment_dir r)"

definition validate_stage_ownership :: "qstar_stage \<Rightarrow> check" where
  "validate_stage_ownership s =
     validate_ownership ''stage'' ''stage'' (st_origin_file s) (st_origin_line s) (st_label s) (st_fragment_dir s)"

section \<open>Visibility\<close>

definition visibility_pattern_matches :: "string \<Rightarrow> string \<Rightarrow> string \<Rightarrow> bool" where
  "visibility_pattern_matches pattern consumer_label consumer_package =
     (if pattern = ''//...'' then True
      else if pattern = consumer_label then True
      else if \<not> starts_with ''//'' pattern then False
      else if ends_with '':...'' pattern then
        let package = take (length pattern - 6) (drop 2 pattern)
        in if PATH_MAX \<le> length package then False else package = consumer_package
      else False)"

definition target_visible_to_label :: "qstar_target \<Rightarrow> string \<Rightarrow> bool" where
  "target_visible_to_label dep consumer_label =
     (case (qstar_label_package_path (Some (t_label dep)) PATH_MAX,
            qstar_label_package_path (Some consumer_label) PATH_MAX) of
        (Some dep_package, Some consumer_package) \<Rightarrow>
          dep_package = consumer_package \<or> t_visibility dep = [] \<or>
          list_ex (\<lambda>v. visibility_pattern_matches v consumer_label consumer_package) (t_visibility dep)
      | _ \<Rightarrow> False)"

definition target_visible_to :: "qstar_target \<Rightarrow> qstar_target \<Rightarrow> bool" where
  "target_visible_to dep consumer = target_visible_to_label dep (t_label consumer)"

definition visibility_entry_ok :: "qstar_target \<Rightarrow> string \<Rightarrow> bool" where
  "visibility_entry_ok t v \<longleftrightarrow> v = ''//...'' \<or>
     (starts_with ''//'' v \<and>
      (ends_with '':...'' v \<or>
       (case qstar_label_canonicalize (Some v) (Some (t_fragment_dir t)) PATH_MAX of
          Value _ \<Rightarrow> True | _ \<Rightarrow> False)))"

definition validate_visibility_list :: "qstar_target \<Rightarrow> check" where
  "validate_visibility_list t = check_all (\<lambda>v. reject (\<not> visibility_entry_ok t v)
     (target_err t ''visibility'' (''qstar: invalid visibility pattern '' @ sq v @ '' in '' @ sq (t_label t))))
     (t_visibility t)"

definition validate_dependency_boundary ::
  "qstar_graph \<Rightarrow> qstar_target \<Rightarrow> string list \<Rightarrow> string \<Rightarrow> check" where
  "validate_dependency_boundary g t deps field = check_all (\<lambda>l.
     if take 1 l = ''@'' then Inr ()
     else case find_target g l of
         None \<Rightarrow> Inr ()
       | Some dep \<Rightarrow> check_seq
           [reject (\<not> target_visible_to dep t) (target_err t field
              (''qstar: target '' @ sq (t_label dep) @ '' is not visible to '' @ sq (t_label t))),
            check_all (\<lambda>d. reject (list_contains (t_include_dirs t) d \<or> list_contains (t_public_include_dirs t) d)
              (target_err t ''include_dirs'' (''qstar: target '' @ sq (t_label t) @
                 '' leaks private include directory '' @ sq d @ '' from '' @ sq (t_label dep))))
              (t_private_include_dirs dep),
            check_all (\<lambda>h. reject (list_contains (t_public_headers t) h)
              (target_err t ''public_headers'' (''qstar: target '' @ sq (t_label t) @
                 '' exposes private header '' @ sq h @ '' from '' @ sq (t_label dep))))
              (t_private_headers dep)]) deps"

definition qstar_graph_validate_packages :: "qstar_graph \<Rightarrow> check" where
  "qstar_graph_validate_packages g = check_seq
     [check_all validate_genrule_ownership (gr_genrules g),
      check_all validate_stage_ownership (gr_stages g),
      check_all (\<lambda>t. check_seq
        [validate_target_ownership t, validate_visibility_list t,
         validate_dependency_boundary g t (t_deps t) ''deps'',
         validate_dependency_boundary g t (t_private_deps t) ''private_deps'']) (gr_targets g)]"

section \<open>Headers\<close>

definition is_public_header_root :: "qstar_target \<Rightarrow> string \<Rightarrow> bool" where
  "is_public_header_root t path = (case qstar_label_package_path (Some (t_label t)) PATH_MAX of
      None \<Rightarrow> False
    | Some package \<Rightarrow>
        let prefix = (if package = [] then ''include/'' else package @ ''/include/'')
        in (package = [] \<or> length prefix < PATH_MAX) \<and> starts_with prefix path \<and> path \<noteq> prefix)"

definition validate_header_list :: "qstar_graph \<Rightarrow> qstar_target \<Rightarrow> string list \<Rightarrow> bool \<Rightarrow> check" where
  "validate_header_list g t xs public_headers = check_all (\<lambda>path. check_seq
     [reject (\<not> qstar_path_is_package_relative path)
        (target_err t (if public_headers then ''public_headers'' else ''private_headers'')
          (''qstar: header path '' @ sq path @ '' in '' @ sq (t_label t) @ '' must be package-relative ('' @
           qstar_path_package_relative_reason path @ '')'')),
      reject (public_headers \<and> \<not> is_public_header_root t path \<and> qstar_graph_find_output_owner g path = None)
        (target_err t ''public_headers'' (''qstar: public header '' @ sq path @ '' in '' @ sq (t_label t) @
           '' must be under package include/ or produced by a generated action''))]) xs"

definition qstar_graph_validate_headers :: "qstar_graph \<Rightarrow> check" where
  "qstar_graph_validate_headers g = check_all (\<lambda>t. check_seq
     [validate_header_list g t (t_public_headers t) True,
      validate_header_list g t (t_private_headers t) False]) (gr_targets g)"

section \<open>Sources\<close>

definition unsupported_source_bridge_hint :: "string \<Rightarrow> string" where
  "unsupported_source_bridge_hint path =
     (let object = ''declare qstar.output(..., {format = '' @ [DQ] @ ''object'' @ [DQ] @ ''}), '';
          build = '' provider is not available; build this source with qstar.custom_target, '' @ object @
            ''and list the generated .o/.obj in sources''
      in if ends_with ''.m'' path then ''Objective-C'' @ build
         else if ends_with ''.mm'' path then ''Objective-C++'' @ build
         else if ends_with ''.rs'' path \<or> ends_with ''.zig'' path \<or> ends_with ''.swift'' path then
           ''activate a language provider with qstar.use_language(...) before listing this source, or use an '' @
           ''external compiler through qstar.custom_target, '' @ object @
           ''and list the generated .o/.obj in sources''
         else ''use qstar.custom_target to produce a supported generated file, or produce an object artifact '' @
           ''with qstar.output(..., {format = '' @ [DQ] @ ''object'' @ [DQ] @
           ''}) and list that .o/.obj in sources'')"

definition validate_source_list :: "qstar_graph \<Rightarrow> qstar_target \<Rightarrow> check" where
  "validate_source_list g t = check_from 0 (\<lambda>i path. check_seq
     [reject (\<not> qstar_path_is_package_relative path)
        (target_err t ''sources'' (''qstar: source path '' @ sq path @ '' in '' @ sq (t_label t) @
           '' must be package-relative ('' @ qstar_path_package_relative_reason path @ '')'')),
      reject (source_is_duplicate t path i)
        (target_err t ''sources'' (''qstar: duplicate source '' @ sq path @ '' in '' @ sq (t_label t))),
      reject (qstar_target_source_classify t i = None)
        (target_err t ''sources'' (''qstar: unsupported source extension '' @ sq path @ '' in '' @
           sq (t_label t) @ ''; '' @ unsupported_source_bridge_hint path)),
      reject (qstar_graph_path_is_generated g (Some path) \<and> qstar_graph_find_output_owner g path = None)
        (target_err t ''sources'' (''qstar: generated source '' @ sq path @ '' in '' @ sq (t_label t) @
           '' has no generating action''))]) (t_sources t)"

section \<open>References to artifacts\<close>

text \<open>\<open>owner\<close> is the label of the declaration that holds the reference; it is never null.\<close>

definition no_artifact_group :: "string \<Rightarrow> string" where
  "no_artifact_group label = ''qstar: qstar.target_file cannot reference group target '' @ sq label @
     '' because group targets have no artifact''"

definition no_artifact_objectlib :: "string \<Rightarrow> string" where
  "no_artifact_objectlib label = ''qstar: qstar.target_file cannot reference objectlib target '' @ sq label @
     '' because object libraries have no artifact; consume it with objects = { ... }''"

definition group_advice :: string where
  "group_advice = ''; depend on the group directly or reference one of its artifact-producing deps''"

definition as_check :: "qerr + 'a \<Rightarrow> check" where
  "as_check r = (case r of Inl e \<Rightarrow> Inl e | Inr _ \<Rightarrow> Inr ())"

lemma passes_as_check [simp]: "passes (as_check r) \<longleftrightarrow> (\<exists>x. r = Inr x)"
  by (cases r) (simp_all add: as_check_def)

definition validate_target_file_artifact_ref ::
  "host_os \<Rightarrow> qstar_graph \<Rightarrow> string \<Rightarrow> string \<Rightarrow> int \<Rightarrow> string \<Rightarrow> string \<Rightarrow> check" where
  "validate_target_file_artifact_ref host g tok file line field owner =
     (let err = (\<lambda>msg. Origin file line field owner msg)
      in case qstar_target_file_token_parse (Some tok) PATH_MAX (Some 64) of
          NotToken \<Rightarrow> Inr ()
        | BadToken \<Rightarrow> Inl (err (''qstar: malformed target_file placeholder '' @ sq tok))
        | Token (label, artifact) \<Rightarrow>
            (case find_target g label of
               Some t \<Rightarrow> check_seq
                 [reject ((artifact = ''@tool'' \<or> t_kind t = ''imported'' \<or> t_kind t = ''tool'') \<and>
                     \<not> target_visible_to_label t owner)
                    (err (''qstar: target '' @ sq label @ '' is not visible to '' @ sq owner)),
                  reject (t_kind t = ''group'') (err (no_artifact_group label @ group_advice)),
                  reject (t_kind t = ''objectlib'') (err (no_artifact_objectlib label)),
                  (if artifact = ''@tool'' then as_check (qstar_graph_target_tool_path host g t PATH_MAX)
                   else as_check (qstar_graph_target_artifact_path host g t (Some artifact) PATH_MAX))]
             | None \<Rightarrow>
                 (case qstar_graph_find_genrule g label of
                    Some _ \<Rightarrow> reject (artifact \<noteq> []) (err (''qstar: target_file artifact selector '' @
                      sq artifact @ '' cannot be used with generated action '' @ sq label))
                  | None \<Rightarrow> Inl (err (''qstar: target_file target '' @ sq label @ '' in '' @ sq owner @
                      '' is unknown'')))))"

definition validate_link_input_item :: "host_os \<Rightarrow> qstar_graph \<Rightarrow> qstar_target \<Rightarrow> string \<Rightarrow> check" where
  "validate_link_input_item host g owner path =
     (let err = target_err owner ''link_inputs''
      in case qstar_target_file_token_label (Some path) PATH_MAX of
          BadToken \<Rightarrow> Inl (err (''qstar: malformed link input target_file '' @ sq path))
        | Token label \<Rightarrow>
            (let t = find_target g label; kind = (case t of None \<Rightarrow> [] | Some t' \<Rightarrow> t_kind t')
             in check_seq
               [reject (kind = ''group'') (err (no_artifact_group label)),
                reject (kind = ''objectlib'') (err (no_artifact_objectlib label)),
                reject (t = None \<and> qstar_graph_find_genrule g label = None)
                  (err (''qstar: link input target '' @ sq label @ '' in '' @ sq (t_label owner) @ '' is unknown'')),
                validate_target_file_artifact_ref host g path (t_origin_file owner) (t_origin_line owner)
                  ''link_inputs'' (t_label owner)])
        | NotToken \<Rightarrow> reject (\<not> qstar_path_is_package_relative path)
            (err (''qstar: link input '' @ sq path @ '' in '' @ sq (t_label owner) @
              '' must be package-relative ('' @ qstar_path_package_relative_reason path @ '')'')))"

definition validate_run_input_item :: "host_os \<Rightarrow> qstar_graph \<Rightarrow> qstar_target \<Rightarrow> string \<Rightarrow> check" where
  "validate_run_input_item host g owner path =
     (let err = target_err owner ''inputs''
      in case qstar_target_file_token_label (Some path) PATH_MAX of
          BadToken \<Rightarrow> Inl (err (''qstar: malformed run input target_file '' @ sq path))
        | Token _ \<Rightarrow> validate_target_file_artifact_ref host g path (t_origin_file owner) (t_origin_line owner)
            ''inputs'' (t_label owner)
        | NotToken \<Rightarrow> (case qstar_stage_dir_token_label (Some path) PATH_MAX of
              BadToken \<Rightarrow> Inl (err (''qstar: malformed run input stage_dir '' @ sq path))
            | Token label \<Rightarrow> reject (qstar_graph_find_stage g label = None)
                (err (''qstar: stage_dir references unknown stage '' @ sq label))
            | NotToken \<Rightarrow> reject (\<not> qstar_path_is_package_relative path)
                (err (''qstar: run input '' @ sq path @ '' in '' @ sq (t_label owner) @
                  '' must be package-relative ('' @ qstar_path_package_relative_reason path @ '')''))))"

definition validate_include_dir_list :: "qstar_target \<Rightarrow> string list \<Rightarrow> string \<Rightarrow> check" where
  "validate_include_dir_list t xs field = check_all (\<lambda>d. reject (\<not> qstar_path_is_package_relative d)
     (target_err t field (''qstar: include directory '' @ sq d @ '' in '' @ sq (t_label t) @
        '' must be package-relative ('' @ qstar_path_package_relative_reason d @ '')''))) xs"

definition first_some :: "'a option list \<Rightarrow> 'a option" where
  "first_some xs = Option.bind (List.find (\<lambda>x. x \<noteq> None) xs) id"

definition validate_link_lists :: "host_os \<Rightarrow> qstar_graph \<Rightarrow> qstar_target \<Rightarrow> check" where
  "validate_link_lists host g t =
     (let dup = (\<lambda>field what d. target_err t field (''qstar: duplicate '' @ what @ '' '' @ sq d @ '' in '' @
            sq (t_label t)));
          expect_file = str_or_empty (t_run_expect_file t)
      in check_seq
        [reject_some (first_some [list_has_duplicate (t_deps t), list_has_duplicate (t_private_deps t),
           list_pair_has_duplicate (t_deps t) (t_private_deps t)]) (dup ''deps'' ''dependency''),
         reject_some (list_has_duplicate (t_libs t)) (dup ''libs'' ''system library''),
         reject_some (list_has_duplicate (t_frameworks t)) (dup ''link.frameworks'' ''framework''),
         reject (t_frameworks t \<noteq> [] \<and>
             \<not> qstar_platform_is_darwin host (Some (rt_platform (qstar_resolve_toolchain host g (t_toolset t)))))
           (target_err t ''link.frameworks''
              ''qstar: link.frameworks is supported only for Darwin-like targets''),
         reject_some (list_has_duplicate (t_link_inputs t)) (dup ''link_inputs'' ''link input''),
         reject_some (list_has_duplicate (t_run_inputs t)) (dup ''inputs'' ''run input''),
         reject (expect_file \<noteq> [] \<and> \<not> qstar_path_is_package_relative expect_file)
           (target_err t ''expect.file'' (''qstar: run_target expect.file '' @ sq expect_file @ '' in '' @
              sq (t_label t) @ '' must be package-relative ('' @ qstar_path_package_relative_reason expect_file @
              '')'')),
         check_all (validate_link_input_item host g t) (t_link_inputs t),
         check_all (validate_run_input_item host g t) (t_run_inputs t),
         check_all (\<lambda>arg. if qstar_target_file_token_label (Some arg) PATH_MAX = NotToken then Inr ()
           else validate_target_file_artifact_ref host g arg (t_origin_file t) (t_origin_line t) ''command''
             (t_label t)) (t_run_command t),
         validate_include_dir_list t (t_include_dirs t) ''include_dirs'',
         validate_include_dir_list t (t_public_include_dirs t) ''public_include_dirs'',
         validate_include_dir_list t (t_private_include_dirs t) ''private_include_dirs'',
         validate_include_dir_list t (t_interface_include_dirs t) ''interface_include_dirs'',
         validate_include_dir_list t (t_asm_include_dirs t) ''lang.asm.include_dirs''])"

section \<open>Object libraries\<close>

definition target_can_consume_objectlibs :: "qstar_target \<Rightarrow> bool" where
  "target_can_consume_objectlibs t \<longleftrightarrow> t_kind t \<in> set [''exe'', ''test'', ''staticlib'', ''sharedlib'']"

definition cannot_consume :: "qstar_target \<Rightarrow> qerr" where
  "cannot_consume t = target_err t ''objects'' (''qstar: target '' @ sq (t_label t) @ '' kind '' @ sq (t_kind t) @
     '' cannot consume object libraries'')"

definition validate_objectlib_target :: "qstar_target \<Rightarrow> check" where
  "validate_objectlib_target t =
     (if t_kind t \<noteq> ''objectlib'' then
        reject (t_objects t \<noteq> [] \<and> \<not> target_can_consume_objectlibs t) (cannot_consume t)
      else check_seq
        [reject (\<not> (t_compile_context t = None \<or> t_compile_context t = Some ''own'' \<or>
             t_compile_context t = Some ''consumer''))
           (target_err t ''compile_context'' (''qstar: objectlib '' @ sq (t_label t) @
              '' compile_context must be '' @ [DQ] @ ''own'' @ [DQ] @ '' or '' @ [DQ] @ ''consumer'' @ [DQ])),
         reject (t_objects t \<noteq> []) (target_err t ''objects'' (''qstar: objectlib '' @ sq (t_label t) @
           '' cannot consume other object libraries in this release'')),
         reject (t_libs t \<noteq> [] \<or> t_lib_dirs t \<noteq> [] \<or> t_frameworks t \<noteq> [] \<or> t_link_options t \<noteq> [] \<or>
             t_link_inputs t \<noteq> [] \<or> present (t_artifact_name t))
           (target_err t ''kind'' (''qstar: objectlib '' @ sq (t_label t) @
              '' has no link/archive artifact; use sources/configs/lang/toolset/deps/visibility only''))])"

definition validate_object_consumers :: "qstar_graph \<Rightarrow> qstar_target \<Rightarrow> check" where
  "validate_object_consumers g t = check_seq
     [reject_some (list_has_duplicate (t_objects t)) (\<lambda>d. target_err t ''objects''
        (''qstar: duplicate object library '' @ sq d @ '' in '' @ sq (t_label t))),
      reject (t_objects t \<noteq> [] \<and> \<not> target_can_consume_objectlibs t) (cannot_consume t),
      check_all (\<lambda>label. case find_target g label of
          None \<Rightarrow> Inl (target_err t ''objects'' (''qstar: target '' @ sq (t_label t) @
            '' references unknown object library '' @ sq label))
        | Some lib \<Rightarrow> check_seq
            [reject (t_kind lib \<noteq> ''objectlib'') (target_err t ''objects'' (''qstar: target '' @ sq (t_label t) @
               '' objects entry '' @ sq label @ '' is kind '' @ sq (t_kind lib) @ '', expected objectlib'')),
             reject (\<not> target_visible_to lib t) (target_err t ''objects'' (''qstar: object library '' @ sq label @
               '' is not visible to '' @ sq (t_label t)))]) (t_objects t)]"

definition qstar_graph_validate_sources :: "host_os \<Rightarrow> qstar_graph \<Rightarrow> check" where
  "qstar_graph_validate_sources host g = check_all (\<lambda>t. check_seq
     [validate_source_list g t, validate_link_lists host g t, validate_objectlib_target t,
      validate_object_consumers g t]) (gr_targets g)"

section \<open>What an accepted graph guarantees\<close>

text \<open>
  In an accepted graph nothing is declared outside its package: the label of every target,
  generated action and stage names exactly the directory of the build file that declares it.
\<close>

theorem packages_own_their_labels:
  assumes "passes (qstar_graph_validate_packages g)"
  shows "\<forall>(label, dir) \<in> set (map (\<lambda>t. (t_label t, t_fragment_dir t)) (gr_targets g) @
      map (\<lambda>r. (g_label r, g_fragment_dir r)) (gr_genrules g) @
      map (\<lambda>s. (st_label s, st_fragment_dir s)) (gr_stages g)).
    qstar_label_package_path (Some label) PATH_MAX = Some dir"
proof -
  have own: "passes (validate_ownership e w f n l d) \<Longrightarrow> qstar_label_package_path (Some l) PATH_MAX = Some d"
    for e w f n l d
    by (auto simp: validate_ownership_def split: option.splits)
  show ?thesis
    using assms unfolding qstar_graph_validate_packages_def
    by (auto simp: validate_target_ownership_def validate_genrule_ownership_def validate_stage_ownership_def
        intro: own)
qed

text \<open>The dependencies of a target that are targets of the graph.\<close>

definition dependency :: "qstar_graph \<Rightarrow> qstar_target \<Rightarrow> qstar_target \<Rightarrow> bool" where
  "dependency g t dep \<longleftrightarrow> (\<exists>l \<in> set (t_deps t @ t_private_deps t). take 1 l \<noteq> ''@'' \<and> find_target g l = Some dep)"

lemma boundary_passes:
  assumes "passes (validate_dependency_boundary g t deps field)" and "l \<in> set deps"
    and "take 1 l \<noteq> ''@''" and "find_target g l = Some dep"
  shows "target_visible_to dep t \<and> set (t_private_headers dep) \<inter> set (t_public_headers t) = {}
    \<and> set (t_private_include_dirs dep) \<inter> (set (t_include_dirs t) \<union> set (t_public_include_dirs t)) = {}"
  using assms unfolding validate_dependency_boundary_def by force

text \<open>
  C37: An accepted graph keeps package boundaries: every dependency on a target of the graph is
  visible to the target that has it, and no target publishes a private header, or an include
  directory, that is private to one of its dependencies.
\<close>

theorem dependencies_respect_visibility:
  assumes "passes (qstar_graph_validate_packages g)" and "t \<in> set (gr_targets g)" and "dependency g t dep"
  shows "target_visible_to dep t
    \<and> set (t_private_headers dep) \<inter> set (t_public_headers t) = {}
    \<and> set (t_private_include_dirs dep) \<inter> (set (t_include_dirs t) \<union> set (t_public_include_dirs t)) = {}"
proof -
  have b: "passes (validate_dependency_boundary g t (t_deps t) ''deps'')"
    "passes (validate_dependency_boundary g t (t_private_deps t) ''private_deps'')"
    using assms(1,2) by (auto simp: qstar_graph_validate_packages_def)
  obtain l where l: "l \<in> set (t_deps t) \<or> l \<in> set (t_private_deps t)" "take 1 l \<noteq> ''@''"
    "find_target g l = Some dep"
    using assms(3) by (auto simp: dependency_def)
  then show ?thesis
    using boundary_passes [OF b(1) _ l(2,3)] boundary_passes [OF b(2) _ l(2,3)] by blast
qed

definition demo_packages :: qstar_graph where
  "demo_packages = zero_qstar_graph\<lparr>gr_targets :=
     [zero_qstar_target\<lparr>t_label := ''//app:main'', t_fragment_dir := ''app'', t_deps := [''//lib:core'']\<rparr>,
      zero_qstar_target\<lparr>t_label := ''//lib:core'', t_fragment_dir := ''lib'', t_visibility := [''//app:...''],
        t_private_headers := [''lib/core_impl.h'']\<rparr>]\<rparr>"

lemma demo_packages_pass: "qstar_graph_validate_packages demo_packages = Inr ()"
  by code_simp

theorem packages_own_their_labels_witness:
  "qstar_label_package_path (Some ''//lib:core'') PATH_MAX = Some ''lib''"
proof -
  have "passes (qstar_graph_validate_packages demo_packages)" by (simp add: demo_packages_pass)
  from packages_own_their_labels [OF this] show ?thesis by (simp add: demo_packages_def)
qed

theorem dependencies_respect_visibility_witness:
  "target_visible_to (gr_targets demo_packages ! 1) (gr_targets demo_packages ! 0)"
proof (rule conjunct1, rule dependencies_respect_visibility)
  show "passes (qstar_graph_validate_packages demo_packages)" by (simp add: demo_packages_pass)
  show "gr_targets demo_packages ! 0 \<in> set (gr_targets demo_packages)" by (simp add: demo_packages_def)
  show "dependency demo_packages (gr_targets demo_packages ! 0) (gr_targets demo_packages ! 1)"
    by (simp add: dependency_def demo_packages_def find_target_def zero_qstar_target_def)
qed

text \<open>What a \<open>:...\<close> pattern means.\<close>

lemma package_pattern_matches:
  assumes "length p < PATH_MAX" and "''//'' @ p @ '':...'' \<noteq> consumer" and "p \<noteq> []"
  shows "visibility_pattern_matches (''//'' @ p @ '':...'') consumer package \<longleftrightarrow> package = p"
  using assms by (auto simp: visibility_pattern_matches_def starts_with_def ends_with_iff Let_def)

text \<open>
  The sources of an accepted target are pairwise different, stay inside the package, and every one
  of them is classified, so that the build knows what to do with it; a source in the generated
  directory is an output of some action.
\<close>

theorem accepted_sources:
  assumes "passes (qstar_graph_validate_sources host g)" and "t \<in> set (gr_targets g)"
  shows "distinct (t_sources t) \<and> list_all qstar_path_is_package_relative (t_sources t)
    \<and> (\<forall>i<length (t_sources t). qstar_target_source_classify t i \<noteq> None)
    \<and> (\<forall>path \<in> set (t_sources t). qstar_graph_path_is_generated g (Some path) \<longrightarrow>
         (\<exists>r \<in> set (gr_genrules g). path \<in> set (g_outputs r)))"
proof -
  have p: "passes (validate_source_list g t)"
    using assms by (auto simp: qstar_graph_validate_sources_def)
  have each: "qstar_path_is_package_relative (t_sources t ! i) \<and> t_sources t ! i \<notin> set (take i (t_sources t)) \<and>
      qstar_target_source_classify t i \<noteq> None \<and>
      (qstar_graph_path_is_generated g (Some (t_sources t ! i)) \<longrightarrow>
        qstar_graph_find_output_owner g (t_sources t ! i) \<noteq> None)" if "i < length (t_sources t)" for i
    using p that unfolding validate_source_list_def passes_check_from
    by (auto simp: source_is_duplicate_def)
  have "t_sources t ! i \<noteq> t_sources t ! j" if "i < j" "j < length (t_sources t)" for i j
    using each [OF that(2)] that by (auto simp: in_set_conv_nth)
  then have "distinct (t_sources t)"
    unfolding distinct_conv_nth by (metis nat_neq_iff)
  moreover have "list_all qstar_path_is_package_relative (t_sources t)"
    using each by (auto simp: list_all_iff in_set_conv_nth)
  moreover have "\<forall>path \<in> set (t_sources t). qstar_graph_path_is_generated g (Some path) \<longrightarrow>
      (\<exists>r \<in> set (gr_genrules g). path \<in> set (g_outputs r))"
  proof (intro ballI impI)
    fix path assume "path \<in> set (t_sources t)" "qstar_graph_path_is_generated g (Some path)"
    then have "qstar_graph_find_output_owner g path \<noteq> None"
      using each by (auto simp: in_set_conv_nth)
    then show "\<exists>r \<in> set (gr_genrules g). path \<in> set (g_outputs r)"
      by (auto simp: qstar_graph_find_output_owner_def find_Some_iff list_ex_iff set_conv_nth)
  qed
  ultimately show ?thesis using each by simp
qed

theorem accepted_sources_witness:
  "distinct [''src/main.c'', ''src/util.cpp'']
   \<and> list_all qstar_path_is_package_relative [''src/main.c'', ''src/util.cpp'']"
proof -
  let ?t = "zero_qstar_target\<lparr>t_sources := [''src/main.c'', ''src/util.cpp'']\<rparr>"
  let ?g = "zero_qstar_graph\<lparr>gr_targets := [?t]\<rparr>"
  have "qstar_graph_validate_sources HostLinux ?g = Inr ()" by code_simp
  then show ?thesis
    using accepted_sources [of HostLinux ?g ?t] by simp
qed

end
