(* ===== verification/QOutputs.thy ===== *)
theory QOutputs
  imports QSource
begin

text \<open>
  \<^verbatim>\<open>src/source.c\<close> (generated actions, stages, families, files on disk): the edges of generated outputs.
  The lemmas show that an accepted graph produces every generated file by exactly one action, that
  the destinations of a stage can all exist at once, and which inputs are known to exist on disk.
\<close>

section \<open>Generated actions\<close>

definition genrule_err :: "qstar_genrule \<Rightarrow> string \<Rightarrow> string \<Rightarrow> qerr" where
  "genrule_err r field msg = Origin (g_origin_file r) (g_origin_line r) field (g_label r) msg"

text \<open>\<open>qstar_graph_find_output_owner (graph, path) == genrule\<close> compares addresses: here, indices.\<close>

fun owner_index :: "nat \<Rightarrow> string \<Rightarrow> qstar_genrule list \<Rightarrow> nat option" where
  "owner_index i path [] = None"
| "owner_index i path (r # rs) =
     (if list_ex (\<lambda>out. out = path) (g_outputs r) then Some i else owner_index (Suc i) path rs)"

definition validate_genrule_tool :: "host_os \<Rightarrow> qstar_graph \<Rightarrow> qstar_genrule \<Rightarrow> check" where
  "validate_genrule_tool host g r =
     (if g_config_header r then Inr ()
      else case qstar_external_tool_resolve_command_tool host g (g_tool r) PATH_MAX 64 PATH_MAX of
          Inr _ \<Rightarrow> Inr ()
        | Inl (Some e, _) \<Rightarrow> Inl e
        | Inl (None, Some msg) \<Rightarrow> Inl (genrule_err r ''command'' msg)
        | Inl (None, None) \<Rightarrow> Inl WildRead)"

definition validate_genrule_input ::
  "host_os \<Rightarrow> qstar_graph \<Rightarrow> nat \<Rightarrow> qstar_genrule \<Rightarrow> string \<Rightarrow> check" where
  "validate_genrule_input host g i r path =
     (let err = genrule_err r ''inputs''
      in case qstar_target_file_token_parse (Some path) PATH_MAX (Some 64) of
          BadToken \<Rightarrow> Inl (err (''qstar: malformed generated input target_file '' @ sq path))
        | Token (label, artifact) \<Rightarrow>
            (let t = find_target g label; kind = (case t of None \<Rightarrow> [] | Some t' \<Rightarrow> t_kind t');
                 is_action = (qstar_graph_find_genrule g label \<noteq> None)
             in check_seq
               [reject (label = g_label r)
                  (err (''qstar: generated action '' @ sq (g_label r) @ '' cannot depend on itself'')),
                reject (kind = ''group'') (err (no_artifact_group label @ group_advice)),
                reject (kind = ''objectlib'') (err (no_artifact_objectlib label)),
                (if t = None then Inr ()
                 else validate_target_file_artifact_ref host g path (g_origin_file r) (g_origin_line r)
                   ''inputs'' (g_label r)),
                reject (t = None \<and> artifact \<noteq> [] \<and> is_action) (err (''qstar: target_file artifact selector '' @
                  sq artifact @ '' cannot be used with generated action '' @ sq label)),
                reject (t = None \<and> \<not> is_action) (err (''qstar: generated input target '' @ sq label @
                  '' in '' @ sq (g_label r) @ '' is unknown''))])
        | NotToken \<Rightarrow> check_seq
            [reject (\<not> qstar_path_is_package_relative path)
               (err (''qstar: generated input '' @ sq path @ '' in '' @ sq (g_label r) @
                  '' must be package-relative ('' @ qstar_path_package_relative_reason path @ '')'')),
             reject (qstar_graph_path_is_generated g (Some path) \<and> owner_index 0 path (gr_genrules g) = Some i)
               (err (''qstar: generated action '' @ sq (g_label r) @ '' cannot consume its own output '' @
                  sq path))])"

definition validate_genrule_output ::
  "qstar_graph \<Rightarrow> nat \<Rightarrow> qstar_genrule \<Rightarrow> nat \<Rightarrow> string \<Rightarrow> check" where
  "validate_genrule_output g i r k path =
     (let err = genrule_err r ''outputs''; dir = qstar_graph_generated_dir g
      in check_seq
        [reject (\<not> qstar_path_is_package_relative path)
           (err (''qstar: generated output '' @ sq path @ '' in '' @ sq (g_label r) @
              '' must be package-relative ('' @ qstar_path_package_relative_reason path @ '')'')),
         reject (\<not> qstar_graph_path_is_generated g (Some path))
           (err (''qstar: generated output '' @ sq path @ '' in '' @ sq (g_label r) @
              '' must be under generated_dir '' @ sq dir @
              ''; set qstar.project.generated_dir or change the output path to '' @ sq (dir @ ''/<file>''))),
         check_from 0 (\<lambda>j other. check_from 0 (\<lambda>m out. reject (\<not> (j = i \<and> m = k) \<and> path = out)
           (err (''qstar: generated output '' @ sq path @ '' has multiple producers''))) (g_outputs other))
           (gr_genrules g)])"

definition validate_genrule :: "host_os \<Rightarrow> qstar_graph \<Rightarrow> nat \<Rightarrow> qstar_genrule \<Rightarrow> check" where
  "validate_genrule host g i r =
     (let tool = str_or_empty (g_tool r)
      in check_seq
        [reject (tool = []) (Plain (''qstar: generated action '' @ sq (g_label r) @ '' has empty tool'')),
         (if qstar_target_file_token_label (Some tool) PATH_MAX = NotToken then Inr ()
          else validate_target_file_artifact_ref host g tool (g_origin_file r) (g_origin_line r) ''command''
            (g_label r)),
         validate_genrule_tool host g r,
         reject (g_outputs r = []) (Plain (''qstar: generated action '' @ sq (g_label r) @ '' has no outputs'')),
         check_all (validate_genrule_input host g i r) (g_inputs r),
         check_from 0 (validate_genrule_output g i r) (g_outputs r)])"

section \<open>Stages\<close>

definition path_parent_child_collision :: "string \<Rightarrow> string \<Rightarrow> bool" where
  "path_parent_child_collision a b =
     (if a = [] \<or> b = [] \<or> length a = length b then False
      else if length a < length b then starts_with a b \<and> b ! length a = CHR ''/''
      else starts_with b a \<and> a ! length b = CHR ''/'')"

definition stage_err :: "qstar_stage \<Rightarrow> string \<Rightarrow> string \<Rightarrow> qerr" where
  "stage_err s field msg = Origin (st_origin_file s) (st_origin_line s) field (st_label s) msg"

text \<open>The pairs of destinations, each with the later ones.\<close>

fun check_layout :: "qstar_stage \<Rightarrow> string list \<Rightarrow> check" where
  "check_layout s [] = Inr ()"
| "check_layout s (d # ds) = (case check_all (\<lambda>e. reject (path_parent_child_collision d e)
      (stage_err s ''files'' (''qstar: stage destination layout conflict '' @ sq d @ '' and '' @ sq e @
         '' in '' @ sq (st_label s)))) ds of
      Inl e \<Rightarrow> Inl e | Inr _ \<Rightarrow> check_layout s ds)"

definition validate_stage_file :: "host_os \<Rightarrow> qstar_graph \<Rightarrow> qstar_stage \<Rightarrow> string \<Rightarrow> string \<Rightarrow> check" where
  "validate_stage_file host g s src dst =
     (let err = stage_err s ''files''
      in check_seq
        [(case qstar_target_file_token_label (Some src) PATH_MAX of
            BadToken \<Rightarrow> Inl (err (''qstar: malformed stage target_file source '' @ sq src))
          | Token label \<Rightarrow> check_seq
              [reject (find_target g label = None \<and> qstar_graph_find_genrule g label = None)
                 (err (''qstar: stage source target '' @ sq label @ '' in '' @ sq (st_label s) @ '' is unknown'')),
               validate_target_file_artifact_ref host g src (st_origin_file s) (st_origin_line s) ''files''
                 (st_label s)]
          | NotToken \<Rightarrow> reject (\<not> qstar_path_is_package_relative src)
              (err (''qstar: stage source '' @ sq src @ '' in '' @ sq (st_label s) @
                 '' must be package-relative ('' @ qstar_path_package_relative_reason src @ '')''))),
         reject (\<not> qstar_path_is_package_relative dst)
           (err (''qstar: stage destination '' @ sq dst @ '' in '' @ sq (st_label s) @
              '' must be package-relative ('' @ qstar_path_package_relative_reason dst @ '')''))])"

definition validate_stage :: "host_os \<Rightarrow> qstar_graph \<Rightarrow> qstar_stage \<Rightarrow> check" where
  "validate_stage host g s =
     (let root = str_or_empty (st_root s); stage = ''qstar: stage '' @ sq (st_label s)
      in check_seq
        [reject (root = []) (stage_err s ''root'' (stage @ '' requires root'')),
         reject (\<not> qstar_path_is_package_relative root)
           (stage_err s ''root'' (''qstar: stage root '' @ sq root @ '' in '' @ sq (st_label s) @
              '' must be package-relative ('' @ qstar_path_package_relative_reason root @ '')'')),
         reject (st_srcs s = []) (stage_err s ''files'' (stage @ '' has no files'')),
         reject (length (st_srcs s) \<noteq> length (st_dsts s))
           (stage_err s ''files'' (stage @ '' has mismatched file edges'')),
         reject_some (list_has_duplicate (st_dsts s)) (\<lambda>d. stage_err s ''files''
           (''qstar: stage destination '' @ sq d @ '' in '' @ sq (st_label s) @ '' is duplicated'')),
         check_layout s (st_dsts s),
         check_all (\<lambda>(src, dst). validate_stage_file host g s src dst) (zip (st_srcs s) (st_dsts s))])"

section \<open>Families and command arguments\<close>

definition validate_target_family :: "qstar_graph \<Rightarrow> qstar_target_family \<Rightarrow> check" where
  "validate_target_family g f = check_all (\<lambda>l. reject (find_target g l = None)
     (Origin (fam_origin_file f) (fam_origin_line f) ''target_family'' (fam_name f)
        (''qstar: target_family '' @ sq (fam_name f) @ '' references unknown target '' @ sq l))) (fam_targets f)"

definition validate_genrule_arg :: "host_os \<Rightarrow> qstar_graph \<Rightarrow> qstar_genrule \<Rightarrow> string \<Rightarrow> check" where
  "validate_genrule_arg host g r arg = check_seq
     [validate_target_file_artifact_ref host g arg (g_origin_file r) (g_origin_line r) ''command'' (g_label r),
      (case qstar_stage_dir_token_label (Some arg) PATH_MAX of
         NotToken \<Rightarrow> Inr ()
       | BadToken \<Rightarrow> Inl (genrule_err r ''command'' ''qstar: malformed stage_dir placeholder'')
       | Token _ \<Rightarrow> Inl (genrule_err r ''command''
           (''qstar: qstar.stage_dir is only valid in run_target inputs; '' @
            ''pass it to command with qstar.input(N)'')))]"

definition validate_run_command_arg :: "host_os \<Rightarrow> qstar_graph \<Rightarrow> qstar_target \<Rightarrow> string \<Rightarrow> check" where
  "validate_run_command_arg host g t arg = check_seq
     [validate_target_file_artifact_ref host g arg (t_origin_file t) (t_origin_line t) ''command'' (t_label t),
      (case qstar_stage_dir_token_label (Some arg) PATH_MAX of
         NotToken \<Rightarrow> Inr ()
       | BadToken \<Rightarrow> Inl (target_err t ''command'' ''qstar: malformed stage_dir placeholder'')
       | Token _ \<Rightarrow> reject (\<not> list_contains (t_run_inputs t) arg) (target_err t ''command''
           (''qstar: qstar.stage_dir in run_target command must also be declared in inputs; '' @
            ''prefer qstar.input(N)'')))]"

definition validate_run_input_arg :: "host_os \<Rightarrow> qstar_graph \<Rightarrow> qstar_target \<Rightarrow> string \<Rightarrow> check" where
  "validate_run_input_arg host g t arg = check_seq
     [validate_target_file_artifact_ref host g arg (t_origin_file t) (t_origin_line t) ''inputs'' (t_label t),
      (case qstar_stage_dir_token_label (Some arg) PATH_MAX of
         NotToken \<Rightarrow> Inr ()
       | BadToken \<Rightarrow> Inl (target_err t ''inputs'' ''qstar: malformed stage_dir placeholder'')
       | Token label \<Rightarrow> reject (qstar_graph_find_stage g label = None) (target_err t ''inputs''
           (''qstar: stage_dir references unknown stage '' @ sq label)))]"

definition qstar_graph_validate_generated_outputs :: "host_os \<Rightarrow> qstar_graph \<Rightarrow> check" where
  "qstar_graph_validate_generated_outputs host g = check_seq
     [check_from 0 (validate_genrule host g) (gr_genrules g),
      check_all (\<lambda>r. check_all (validate_genrule_arg host g r) (g_args r)) (gr_genrules g),
      check_all (validate_stage host g) (gr_stages g),
      check_all (\<lambda>t. check_seq
        [check_all (validate_run_command_arg host g t) (t_run_command t),
         check_all (validate_run_input_arg host g t) (t_run_inputs t)]) (gr_targets g),
      check_all (validate_target_family g) (gr_families g)]"

section \<open>Files on disk\<close>

text \<open>\<open>readable\<close> is \<open>fopen (full, "rb") != NULL\<close>.\<close>

definition file_exists_under_root :: "(string \<Rightarrow> bool) \<Rightarrow> qstar_graph \<Rightarrow> string \<Rightarrow> bool" where
  "file_exists_under_root readable g path =
     (case qstar_path_join (Some (str_or ''.'' (gr_package_root g))) path PATH_MAX of
        None \<Rightarrow> False | Some full \<Rightarrow> readable full)"

definition produced :: "qstar_graph \<Rightarrow> string \<Rightarrow> bool" where
  "produced g path \<longleftrightarrow> qstar_graph_path_is_generated g (Some path) \<and> qstar_graph_find_output_owner g path \<noteq> None"

text \<open>One loop of the check: paths that are no token and no produced file have to exist.\<close>

definition check_files ::
  "(string \<Rightarrow> bool) \<Rightarrow> qstar_graph \<Rightarrow> (string \<Rightarrow> bool) \<Rightarrow> (string \<Rightarrow> qerr) \<Rightarrow> string list \<Rightarrow> check" where
  "check_files readable g skip err paths = check_all (\<lambda>p.
     reject (\<not> skip p \<and> \<not> produced g p \<and> \<not> file_exists_under_root readable g p) (err p)) paths"

definition is_file_token :: "string \<Rightarrow> bool" where
  "is_file_token p \<longleftrightarrow> qstar_target_file_token_label (Some p) PATH_MAX \<noteq> NotToken"

definition is_stage_token :: "string \<Rightarrow> bool" where
  "is_stage_token p \<longleftrightarrow> qstar_stage_dir_token_label (Some p) PATH_MAX \<noteq> NotToken"

definition missing :: "qstar_target \<Rightarrow> string \<Rightarrow> string \<Rightarrow> string \<Rightarrow> qerr" where
  "missing t field what p = target_err t field (''qstar: '' @ what @ '' '' @ sq p @ '' in '' @ sq (t_label t) @
     '' does not exist under package root'')"

definition check_usage_inputs ::
  "host_os \<Rightarrow> (string \<Rightarrow> bool) \<Rightarrow> qstar_graph \<Rightarrow> qstar_target \<Rightarrow> string \<Rightarrow> string list \<Rightarrow> check" where
  "check_usage_inputs host readable g t field paths = check_all (\<lambda>p.
     if is_file_token p then
       validate_target_file_artifact_ref host g p (t_origin_file t) (t_origin_line t) field (t_label t)
     else reject (\<not> file_exists_under_root readable g p) (missing t field ''usage input file'' p)) paths"

definition validate_target_file_inputs ::
  "host_os \<Rightarrow> (string \<Rightarrow> bool) \<Rightarrow> qstar_graph \<Rightarrow> qstar_target \<Rightarrow> check" where
  "validate_target_file_inputs host readable g t =
     (let typed = (t_kind t = ''imported'' \<or> t_kind t = ''tool'');
          m = (if typed then qstar_graph_target_artifact_map host g t else Some []);
          artifacts = (case m of None \<Rightarrow> [] | Some as \<Rightarrow> as);
          none = (\<lambda>p. False)
      in check_seq
        [check_files readable g none (missing t ''sources'' ''source file'') (t_sources t),
         check_files readable g none (missing t ''public_headers'' ''header file'') (t_public_headers t),
         check_files readable g none (missing t ''private_headers'' ''header file'') (t_private_headers t),
         check_files readable g none (missing t ''lang.cxx.precompiled_header'' ''precompiled header'')
           (if present (t_cxx_precompiled_header t) then [str_or_empty (t_cxx_precompiled_header t)] else []),
         check_files readable g is_file_token (missing t ''link_inputs'' ''link input file'') (t_link_inputs t),
         check_files readable g (\<lambda>p. is_file_token p \<or> is_stage_token p)
           (missing t ''inputs'' ''run input file'') (t_run_inputs t),
         check_usage_inputs host readable g t ''compile_usage.inputs'' (t_compile_usage_inputs t),
         check_usage_inputs host readable g t ''link_usage.inputs'' (t_link_usage_inputs t),
         reject (m = None) (target_err t ''artifacts'' ''qstar: typed dependency artifact map is invalid''),
         reject (t_kind t = ''imported'' \<and> artifacts = [])
           (target_err t ''artifacts'' (''qstar: imported target '' @ sq (t_label t) @
              '' has no artifacts for platform '' @ sq (qstar_graph_platform (qstar_host_platform host) g) @
              '' and no default fallback'')),
         check_all (\<lambda>a. reject (\<not> file_exists_under_root readable g (ta_path a))
           (missing t (if t_kind t = ''tool'' then ''path'' else ''artifacts'')
              ''typed dependency artifact'' (ta_path a))) artifacts])"

definition validate_genrule_file_inputs ::
  "(string \<Rightarrow> bool) \<Rightarrow> qstar_graph \<Rightarrow> qstar_genrule \<Rightarrow> check" where
  "validate_genrule_file_inputs readable g r = check_files readable g is_file_token
     (\<lambda>p. genrule_err r ''inputs'' (''qstar: generated input '' @ sq p @ '' in '' @ sq (g_label r) @
        '' does not exist under package root'')) (g_inputs r)"

definition validate_stage_file_inputs :: "(string \<Rightarrow> bool) \<Rightarrow> qstar_graph \<Rightarrow> qstar_stage \<Rightarrow> check" where
  "validate_stage_file_inputs readable g s = check_files readable g is_file_token
     (\<lambda>p. stage_err s ''files'' (''qstar: stage source file '' @ sq p @ '' in '' @ sq (st_label s) @
        '' does not exist under package root'')) (st_srcs s)"

definition qstar_graph_validate_file_inputs ::
  "host_os \<Rightarrow> (string \<Rightarrow> bool) \<Rightarrow> qstar_graph \<Rightarrow> check" where
  "qstar_graph_validate_file_inputs host readable g = check_seq
     [check_all (validate_genrule_file_inputs readable g) (gr_genrules g),
      check_all (validate_stage_file_inputs readable g) (gr_stages g),
      check_all (validate_target_file_inputs host readable g) (gr_targets g)]"

section \<open>One producer for every output\<close>

lemma genrule_output_passes:
  assumes "passes (qstar_graph_validate_generated_outputs host g)"
    and "i < length (gr_genrules g)" and "k < length (g_outputs (gr_genrules g ! i))"
  shows "passes (validate_genrule_output g i (gr_genrules g ! i) k (g_outputs (gr_genrules g ! i) ! k))"
proof -
  have "passes (validate_genrule host g i (gr_genrules g ! i))"
    using assms(1,2) by (simp add: qstar_graph_validate_generated_outputs_def passes_check_from)
  then show ?thesis
    using assms(3) by (simp add: validate_genrule_def Let_def passes_check_from)
qed

lemma output_unique:
  assumes "passes (validate_genrule_output g i r k path)" and "j < length (gr_genrules g)"
    and "m < length (g_outputs (gr_genrules g ! j))" and "g_outputs (gr_genrules g ! j) ! m = path"
  shows "j = i \<and> m = k"
  using assms by (auto simp: validate_genrule_output_def Let_def passes_check_from)

text \<open>
  C30: Every generated file of an accepted graph has exactly one producer: an output path occurs once
  among the outputs of all generated actions, it is package-relative, it lies under the generated
  directory, and looking up its owner finds the action that declares it.
\<close>

theorem generated_output_has_one_producer:
  assumes "passes (qstar_graph_validate_generated_outputs host g)"
    and "i < length (gr_genrules g)" and "k < length (g_outputs (gr_genrules g ! i))"
    and "path = g_outputs (gr_genrules g ! i) ! k"
  shows "(\<forall>j m. j < length (gr_genrules g) \<and> m < length (g_outputs (gr_genrules g ! j)) \<and>
        g_outputs (gr_genrules g ! j) ! m = path \<longrightarrow> j = i \<and> m = k)
    \<and> qstar_graph_find_output_owner g path = Some (gr_genrules g ! i)
    \<and> qstar_path_is_package_relative path \<and> qstar_graph_path_is_generated g (Some path)"
proof -
  have p: "passes (validate_genrule_output g i (gr_genrules g ! i) k path)"
    using genrule_output_passes [OF assms(1-3)] assms(4) by simp
  have "qstar_graph_find_output_owner g path = Some (gr_genrules g ! i)"
    unfolding qstar_graph_find_output_owner_def find_Some_iff
  proof (intro exI [of _ i] conjI allI impI)
    show "list_ex (\<lambda>out. out = path) (g_outputs (gr_genrules g ! i))"
      unfolding list_ex_iff using nth_mem [OF assms(3)] assms(4) by blast
    fix j assume "j < i"
    then have j: "j < length (gr_genrules g)" "j \<noteq> i" using assms(2) by simp_all
    show "\<not> list_ex (\<lambda>out. out = path) (g_outputs (gr_genrules g ! j))"
    proof
      assume "list_ex (\<lambda>out. out = path) (g_outputs (gr_genrules g ! j))"
      then obtain m where "m < length (g_outputs (gr_genrules g ! j))" "g_outputs (gr_genrules g ! j) ! m = path"
        by (auto simp: list_ex_length)
      then show False using output_unique [OF p, of j m] j by blast
    qed
  qed (use assms(2) in auto)
  moreover have "qstar_path_is_package_relative path \<and> qstar_graph_path_is_generated g (Some path)"
    using p by (simp add: validate_genrule_output_def Let_def)
  ultimately show ?thesis using output_unique [OF p] by blast
qed

definition demo_outputs :: qstar_graph where
  "demo_outputs = zero_qstar_graph
    \<lparr>gr_toolsets := [zero_qstar_toolset\<lparr>ts_label := ''//:t'', ts_path_tools := [''gen'']\<rparr>],
     gr_genrules := [zero_qstar_genrule\<lparr>g_label := ''//:a'', g_tool := Some ''gen'', g_outputs := [''generated/a.c'']\<rparr>,
       zero_qstar_genrule\<lparr>g_label := ''//:b'', g_tool := Some ''gen'', g_inputs := [''generated/a.c''],
         g_outputs := [''generated/b.c'', ''generated/b.h'']\<rparr>],
     gr_stages := [zero_qstar_stage\<lparr>st_label := ''//:s'', st_root := Some ''dist'',
       st_srcs := [''a.txt'', ''b.txt''], st_dsts := [''share/a.txt'', ''share/b.txt'']\<rparr>]\<rparr>"

lemma demo_outputs_pass: "qstar_graph_validate_generated_outputs HostLinux demo_outputs = Inr ()"
  by code_simp

theorem generated_output_has_one_producer_witness:
  "qstar_graph_find_output_owner demo_outputs ''generated/b.h'' = Some (gr_genrules demo_outputs ! 1)"
proof -
  have p: "passes (qstar_graph_validate_generated_outputs HostLinux demo_outputs)"
    by (simp add: demo_outputs_pass)
  have i: "1 < length (gr_genrules demo_outputs)" and k: "1 < length (g_outputs (gr_genrules demo_outputs ! 1))"
    and path: "''generated/b.h'' = g_outputs (gr_genrules demo_outputs ! 1) ! 1"
    by (simp_all add: demo_outputs_def)
  show ?thesis using generated_output_has_one_producer [OF p i k path] by blast
qed

section \<open>A stage that can be copied\<close>

lemma collision_iff:
  "path_parent_child_collision a b \<longleftrightarrow> a \<noteq> [] \<and> b \<noteq> [] \<and>
   ((\<exists>r. b = a @ CHR ''/'' # r) \<or> (\<exists>r. a = b @ CHR ''/'' # r))"
proof -
  have sub: "starts_with x y \<and> length x < length y \<and> y ! length x = CHR ''/'' \<longleftrightarrow> (\<exists>r. y = x @ CHR ''/'' # r)"
    for x y
  proof
    assume "starts_with x y \<and> length x < length y \<and> y ! length x = CHR ''/''"
    moreover from this obtain r where "y = x @ r" by (auto simp: starts_with_iff)
    ultimately show "\<exists>r. y = x @ CHR ''/'' # r" by (cases r) auto
  qed auto
  have longer: "length x < length y" if "y = x @ CHR ''/'' # r" for x y r :: string
    using that by simp
  consider "length a < length b" | "length b < length a" | "length a = length b" by linarith
  then show ?thesis
  proof cases
    case 1
    then have "\<nexists>r. a = b @ CHR ''/'' # r" using longer by fastforce
    then show ?thesis using 1 sub [of a b] by (simp add: path_parent_child_collision_def; blast)
  next
    case 2
    then have "\<nexists>r. b = a @ CHR ''/'' # r" using longer by fastforce
    then show ?thesis using 2 sub [of b a] by (simp add: path_parent_child_collision_def; blast)
  next
    case 3
    then show ?thesis using longer by (fastforce simp: path_parent_child_collision_def)
  qed
qed

lemma check_layout_passes:
  "passes (check_layout s ds) \<longleftrightarrow> sorted_wrt (\<lambda>a b. \<not> path_parent_child_collision a b) ds"
  by (induction ds) auto

lemma collision_sym: "path_parent_child_collision a b = path_parent_child_collision b a"
  by (auto simp: collision_iff)

text \<open>
  The destinations of an accepted stage can all exist at once: they are pairwise different, none is
  a directory above another, they stay inside the stage root, and there is exactly one source for
  each.
\<close>

theorem stage_layout_consistent:
  assumes "passes (qstar_graph_validate_generated_outputs host g)" and "s \<in> set (gr_stages g)"
  shows "distinct (st_dsts s) \<and> length (st_srcs s) = length (st_dsts s)
    \<and> (\<forall>a \<in> set (st_dsts s). \<forall>b \<in> set (st_dsts s). \<forall>r. b \<noteq> a @ CHR ''/'' # r)
    \<and> list_all qstar_path_is_package_relative (st_dsts s)"
proof -
  have v: "passes (validate_stage host g s)"
    using assms by (simp add: qstar_graph_validate_generated_outputs_def)
  have len: "length (st_srcs s) = length (st_dsts s)" and dist: "distinct (st_dsts s)"
    and layout: "sorted_wrt (\<lambda>a b. \<not> path_parent_child_collision a b) (st_dsts s)"
    and files: "\<forall>(src, dst) \<in> set (zip (st_srcs s) (st_dsts s)). passes (validate_stage_file host g s src dst)"
    using v by (auto simp: validate_stage_def Let_def check_layout_passes)
  have rel: "qstar_path_is_package_relative d" if "d \<in> set (st_dsts s)" for d
  proof -
    from that obtain i where "i < length (st_dsts s)" "st_dsts s ! i = d" by (meson in_set_conv_nth)
    then have "(st_srcs s ! i, d) \<in> set (zip (st_srcs s) (st_dsts s))" using len by (auto simp: in_set_zip)
    then show ?thesis using files by (auto simp: validate_stage_file_def Let_def)
  qed
  have "b \<noteq> a @ CHR ''/'' # r" if ab: "a \<in> set (st_dsts s)" "b \<in> set (st_dsts s)" for a b r
  proof
    assume b: "b = a @ CHR ''/'' # r"
    have "a \<noteq> []" using rel [OF ab(1)] by (auto simp: qstar_path_is_package_relative_def)
    then have c: "path_parent_child_collision a b" using b by (auto simp: collision_iff)
    obtain i j where ij: "i < length (st_dsts s)" "j < length (st_dsts s)" "st_dsts s ! i = a" "st_dsts s ! j = b"
      using ab by (auto simp: in_set_conv_nth)
    have "i \<noteq> j" using ij b by auto
    then have "\<not> path_parent_child_collision a b"
      using ij layout collision_sym by (auto simp: sorted_wrt_iff_nth_less nat_neq_iff)
    then show False using c by simp
  qed
  then show ?thesis using dist len rel by (auto simp: list_all_iff)
qed

theorem stage_layout_consistent_witness:
  "distinct [''share/a.txt'', ''share/b.txt'']
   \<and> (\<forall>r. ''share/b.txt'' \<noteq> ''share/a.txt'' @ CHR ''/'' # r)"
proof -
  have "passes (qstar_graph_validate_generated_outputs HostLinux demo_outputs)"
    by (simp add: demo_outputs_pass)
  moreover obtain s where s: "s \<in> set (gr_stages demo_outputs)" "st_dsts s = [''share/a.txt'', ''share/b.txt'']"
    by (simp add: demo_outputs_def)
  ultimately show ?thesis using stage_layout_consistent [of HostLinux demo_outputs s] by simp
qed

section \<open>Inputs that exist\<close>

text \<open>
  When the file check passes, every source and header of every target is either the output of a
  generated action or a file that can be read under the package root.
\<close>

theorem accepted_files_exist:
  assumes "passes (qstar_graph_validate_file_inputs host readable g)" and "t \<in> set (gr_targets g)"
    and "p \<in> set (t_sources t) \<union> set (t_public_headers t) \<union> set (t_private_headers t)"
  shows "produced g p \<or> file_exists_under_root readable g p"
proof -
  have "passes (validate_target_file_inputs host readable g t)"
    using assms(1,2) by (simp add: qstar_graph_validate_file_inputs_def)
  then have "\<forall>p \<in> set (t_sources t) \<union> set (t_public_headers t) \<union> set (t_private_headers t).
      produced g p \<or> file_exists_under_root readable g p"
    unfolding validate_target_file_inputs_def Let_def check_files_def by auto
  then show ?thesis using assms(3) by blast
qed

theorem accepted_files_exist_witness:
  "produced (zero_qstar_graph\<lparr>gr_targets := [zero_qstar_target\<lparr>t_sources := [''main.c'']\<rparr>]\<rparr>) ''main.c'' \<or>
   file_exists_under_root (\<lambda>p. p = ''main.c'')
     (zero_qstar_graph\<lparr>gr_targets := [zero_qstar_target\<lparr>t_sources := [''main.c'']\<rparr>]\<rparr>) ''main.c''"
proof (rule accepted_files_exist [where host = HostLinux and t = "zero_qstar_target\<lparr>t_sources := [''main.c'']\<rparr>"])
  have "qstar_graph_validate_file_inputs HostLinux (\<lambda>p. p = ''main.c'')
      (zero_qstar_graph\<lparr>gr_targets := [zero_qstar_target\<lparr>t_sources := [''main.c'']\<rparr>]\<rparr>) = Inr ()"
    by code_simp
  then show "passes (qstar_graph_validate_file_inputs HostLinux (\<lambda>p. p = ''main.c'')
      (zero_qstar_graph\<lparr>gr_targets := [zero_qstar_target\<lparr>t_sources := [''main.c'']\<rparr>]\<rparr>))"
    by simp
qed simp_all

end
