(* ===== verification/QSuites.thy ===== *)
theory QSuites
  imports QRegistry QDfs QLabel
begin

text \<open>
  \<^verbatim>\<open>src/test_suite.c\<close>: test suites, their validation, and the resolution of suites and tag filters
  into the labels of tests to run. A suite names tests, run targets and other suites; the
  validation runs the depth-first cycle check of \<open>QDfs\<close> over the nesting, and resolution walks it
  with a flag per suite on the current path. Sorting with \<open>qsort\<close> is by label, which the registry
  keeps unique, so the result does not depend on the sorting algorithm.
\<close>

section \<open>Registry\<close>

definition qstar_graph_find_test_suite :: "qstar_graph \<Rightarrow> cstr \<Rightarrow> qstar_test_suite option" where
  "qstar_graph_find_test_suite g label = (case label of
      None \<Rightarrow> None | Some l \<Rightarrow> find_key su_label l (gr_test_suites g))"

definition new_test_suite :: "decl \<Rightarrow> qstar_test_suite" where
  "new_test_suite d = zero_qstar_test_suite
    \<lparr>su_label := d_label d, su_name := d_name d, su_fragment_dir := str_or_empty (d_fragment_dir d),
     su_origin_file := str_or_empty (d_origin_file d), su_origin_line := d_origin_line d\<rparr>"

definition qstar_graph_add_test_suite :: "decl \<Rightarrow> qstar_graph \<Rightarrow> qerr + qstar_graph" where
  "qstar_graph_add_test_suite d g =
     (if d_label d = [] \<or> d_name d = [] then
        Inl (Plain ''qstar: test_suite label and name must not be empty'')
      else if qstar_graph_find_test_suite g (Some (d_label d)) \<noteq> None then
        Inl (Plain (''qstar: duplicate test_suite label '' @ sq (d_label d)))
      else Inr (g\<lparr>gr_test_suites := gr_test_suites g @ [new_test_suite d]\<rparr>))"

interpretation suite_registry: keyed_registry gr_test_suites su_label
    "\<lambda>g l. qstar_graph_find_test_suite g (Some l)" qstar_graph_add_test_suite new_test_suite
  by unfold_locales (auto simp: qstar_graph_find_test_suite_def qstar_graph_add_test_suite_def
      new_test_suite_def find_key_None split: if_splits)

text \<open>The position of the suite a pointer refers to: \<open>nested - graph->test_suites\<close>.\<close>

fun suite_index_from :: "nat \<Rightarrow> string \<Rightarrow> qstar_test_suite list \<Rightarrow> nat option" where
  "suite_index_from i label [] = None"
| "suite_index_from i label (s # ss) = (if su_label s = label then Some i else suite_index_from (Suc i) label ss)"

definition find_suite_index :: "qstar_graph \<Rightarrow> string \<Rightarrow> nat option" where
  "find_suite_index g label = suite_index_from 0 label (gr_test_suites g)"

lemma suite_index_from_Some:
  "suite_index_from i label ss = Some j \<Longrightarrow> i \<le> j \<and> j < i + length ss \<and> su_label (ss ! (j - i)) = label"
proof (induction ss arbitrary: i)
  case Nil
  then show ?case by simp
next
  case (Cons s ss)
  then show ?case
    using Cons.IH [of "Suc i"] by (fastforce split: if_split_asm simp: nth_Cons' Suc_le_eq)
qed

lemma suite_index_from_None: "suite_index_from i label ss = None \<longleftrightarrow> label \<notin> su_label ` set ss"
  by (induction ss arbitrary: i) auto

lemma find_suite_index_Some:
  "find_suite_index g label = Some j \<Longrightarrow> j < length (gr_test_suites g) \<and> su_label (gr_test_suites g ! j) = label"
  using suite_index_from_Some [of 0 label "gr_test_suites g" j] by (simp add: find_suite_index_def)

lemma find_suite_index_None: "find_suite_index g label = None \<longleftrightarrow> label \<notin> su_label ` set (gr_test_suites g)"
  by (simp add: find_suite_index_def suite_index_from_None)

lemma find_suite_iff: "qstar_graph_find_test_suite g (Some l) = None \<longleftrightarrow> find_suite_index g l = None"
  by (simp add: qstar_graph_find_test_suite_def find_key_None find_suite_index_None)

section \<open>Validation\<close>

definition tag_valid :: "cstr \<Rightarrow> bool" where
  "tag_valid tag \<longleftrightarrow> present tag \<and> list_all (\<lambda>c. [c] \<noteq> NL \<and> [c] \<noteq> CR) (str_or_empty tag)"

definition suite_label_conflicts :: "qstar_graph \<Rightarrow> qstar_test_suite \<Rightarrow> string option" where
  "suite_label_conflicts g s =
     (if has_target g (su_label s) then Some ''target''
      else if has_genrule g (su_label s) then Some ''generated action''
      else if has_stage g (su_label s) then Some ''stage''
      else if has_config g (su_label s) then Some ''config''
      else if has_toolset g (su_label s) then Some ''toolset''
      else None)"

definition suite_err :: "qstar_test_suite \<Rightarrow> string \<Rightarrow> string \<Rightarrow> qerr" where
  "suite_err s field msg = Origin (su_origin_file s) (su_origin_line s) field (su_label s) msg"

definition validate_suite_tag :: "qstar_test_suite \<Rightarrow> nat \<Rightarrow> string \<Rightarrow> check" where
  "validate_suite_tag s j tag = check_seq
     [reject (\<not> tag_valid (Some tag)) (suite_err s ''tags'' (''qstar: test_suite '' @ sq (su_label s) @
        '' tag '' @ nat_str (j + 1) @ '' must be a non-empty one-line string'')),
      reject (list_contains (take j (su_tags s)) tag) (suite_err s ''tags''
        (''qstar: duplicate tag '' @ sq tag @ '' in test_suite '' @ sq (su_label s)))]"

definition validate_suite_member :: "qstar_graph \<Rightarrow> qstar_test_suite \<Rightarrow> nat \<Rightarrow> string \<Rightarrow> check" where
  "validate_suite_member g s j member = check_seq
     [reject (list_contains (take j (su_tests s)) member) (suite_err s ''tests''
        (''qstar: duplicate member '' @ sq member @ '' in test_suite '' @ sq (su_label s))),
      (if qstar_graph_find_test_suite g (Some member) \<noteq> None then Inr ()
       else case find_target g member of
           None \<Rightarrow> Inl (suite_err s ''tests'' (''qstar: test_suite '' @ sq (su_label s) @
             '' references unknown label '' @ sq member))
         | Some t \<Rightarrow> reject (t_kind t \<noteq> ''test'' \<and> t_kind t \<noteq> ''run_target'') (suite_err s ''tests''
             (''qstar: test_suite '' @ sq (su_label s) @ '' member '' @ sq (t_label t) @
              '' must be qstar.test, run_target, or another test_suite'')))]"

definition validate_test_suite :: "qstar_graph \<Rightarrow> qstar_test_suite \<Rightarrow> check" where
  "validate_test_suite g s = check_seq
     [(case suite_label_conflicts g s of
         None \<Rightarrow> Inr ()
       | Some kind \<Rightarrow> Inl (suite_err s ''label'' (''qstar: test_suite label '' @ sq (su_label s) @
           '' conflicts with '' @ kind))),
      reject (su_tests s = []) (suite_err s ''tests'' (''qstar: test_suite '' @ sq (su_label s) @
        '' requires at least one test, run_target, or nested suite label'')),
      check_from 0 (validate_suite_tag s) (su_tags s),
      check_from 0 (validate_suite_member g s) (su_tests s)]"

text \<open>The suites nested in suite \<open>i\<close>, in member order; members that are no suites are skipped.\<close>

definition nested_suites :: "qstar_graph \<Rightarrow> nat \<Rightarrow> (qerr + nat) list" where
  "nested_suites g i = map Inr (List.map_filter (find_suite_index g) (su_tests (gr_test_suites g ! i)))"

definition suite_cycle_err :: "qstar_graph \<Rightarrow> nat \<Rightarrow> qerr" where
  "suite_cycle_err g i = (let s = gr_test_suites g ! i in
     suite_err s ''tests'' (''qstar: test_suite cycle includes '' @ sq (su_label s)))"

definition validate_suite_cycle ::
  "qstar_graph \<Rightarrow> nat \<Rightarrow> nat \<Rightarrow> (nat \<Rightarrow> nat) \<Rightarrow> (qerr + (nat \<Rightarrow> nat)) option" where
  "validate_suite_cycle g fuel i state = dfs_visit (nested_suites g) (suite_cycle_err g) fuel i state"

definition qstar_graph_validate_test_suites :: "qstar_graph \<Rightarrow> check" where
  "qstar_graph_validate_test_suites g = check_seq
     [check_all (validate_test_suite g) (gr_test_suites g),
      (case dfs_all (length (gr_test_suites g)) (nested_suites g) (suite_cycle_err g) of
         Some (Inr _) \<Rightarrow> Inr ()
       | Some (Inl e) \<Rightarrow> Inl e
       | None \<Rightarrow> Inl WildRead)]"

text \<open>Running out of fuel, which \<open>suites_dfs_returns\<close> excludes, would count as undefined.\<close>

section \<open>Resolution\<close>

definition option_tag_matches :: "string list \<Rightarrow> qstar_test_suite \<Rightarrow> bool" where
  "option_tag_matches tags s \<longleftrightarrow> list_ex (\<lambda>t. list_contains (su_tags s) t) tags"

definition suite_is_excluded :: "qstar_test_suite \<Rightarrow> qstar_test_options option \<Rightarrow> bool" where
  "suite_is_excluded s opts = (case opts of
      None \<Rightarrow> False
    | Some o' \<Rightarrow> to_exclude_tags o' \<noteq> [] \<and> option_tag_matches (to_exclude_tags o') s)"

text \<open>
  The recursion over nested suites. \<open>stack\<close> flags the suites on the current path; it is restored
  on return. \<open>None\<close> is a run out of fuel, \<open>Inl ()\<close> the return value \<open>-1\<close>.
\<close>

fun resolve_suite_recursive :: "qstar_graph \<Rightarrow> qstar_test_options option \<Rightarrow> nat \<Rightarrow> nat \<Rightarrow> (nat \<Rightarrow> bool) \<Rightarrow>
    string list \<Rightarrow> (unit + string list) option"
  and resolve_members :: "qstar_graph \<Rightarrow> qstar_test_options option \<Rightarrow> nat \<Rightarrow> string list \<Rightarrow> (nat \<Rightarrow> bool) \<Rightarrow>
    string list \<Rightarrow> (unit + string list) option" where
  "resolve_suite_recursive g opts 0 i stack labels = None"
| "resolve_suite_recursive g opts (Suc f) i stack labels =
     (if suite_is_excluded (gr_test_suites g ! i) opts then Some (Inr labels)
      else if length (gr_test_suites g) \<le> i \<or> stack i then Some (Inl ())
      else resolve_members g opts f (su_tests (gr_test_suites g ! i)) (stack(i := True)) labels)"
| "resolve_members g opts f [] stack labels = Some (Inr labels)"
| "resolve_members g opts f (l # ls) stack labels = (case find_suite_index g l of
      None \<Rightarrow> resolve_members g opts f ls stack (push_unique labels l)
    | Some j \<Rightarrow> (case resolve_suite_recursive g opts f j stack labels of
          None \<Rightarrow> None
        | Some (Inl u) \<Rightarrow> Some (Inl u)
        | Some (Inr labels') \<Rightarrow> resolve_members g opts f ls stack labels'))"

text \<open>\<open>None\<close> for the return value \<open>-1\<close>.\<close>

definition qstar_graph_resolve_test_suite_members ::
  "qstar_graph \<Rightarrow> nat \<Rightarrow> qstar_test_options option \<Rightarrow> string list \<Rightarrow> string list option" where
  "qstar_graph_resolve_test_suite_members g i opts labels =
     (case resolve_suite_recursive g opts (length (gr_test_suites g) + 1) i (\<lambda>_. False) labels of
        Some (Inr labels') \<Rightarrow> Some labels' | _ \<Rightarrow> None)"

definition sorted_suites :: "qstar_graph \<Rightarrow> nat list" where
  "sorted_suites g = sort_key (\<lambda>i. su_label (gr_test_suites g ! i)) [0..<length (gr_test_suites g)]"

fun run_all :: "('a \<Rightarrow> 's \<Rightarrow> qerr + 's) \<Rightarrow> 'a list \<Rightarrow> 's \<Rightarrow> qerr + 's" where
  "run_all f [] s = Inr s"
| "run_all f (x # xs) s = (case f x s of Inl e \<Rightarrow> Inl e | Inr s' \<Rightarrow> run_all f xs s')"

definition resolve_or_fail ::
  "qstar_graph \<Rightarrow> qstar_test_options \<Rightarrow> nat \<Rightarrow> string \<Rightarrow> string list \<Rightarrow> qerr + string list" where
  "resolve_or_fail g opts i label labels =
     (case qstar_graph_resolve_test_suite_members g i (Some opts) labels of
        None \<Rightarrow> Inl (Plain (''qstar: could not resolve test_suite '' @ sq label))
      | Some labels' \<Rightarrow> Inr labels')"

definition select_named :: "qstar_graph \<Rightarrow> qstar_test_options \<Rightarrow> string \<Rightarrow> string list \<Rightarrow> qerr + string list" where
  "select_named g opts name labels =
     (if name = [] then Inl (Plain ''qstar: test suite filters must not be empty'')
      else case qstar_label_canonicalize (Some name) (Some []) PATH_MAX of
          Failure \<Rightarrow> Inl (Plain (''qstar: invalid test suite label '' @ sq name))
        | Undefined \<Rightarrow> Inl WildRead
        | Value label \<Rightarrow> (case find_suite_index g label of
              None \<Rightarrow> Inl (Plain (''qstar: unknown test_suite label '' @ sq label))
            | Some i \<Rightarrow> resolve_or_fail g opts i label labels))"

definition selected_by_tag :: "qstar_test_options \<Rightarrow> qstar_test_suite \<Rightarrow> bool" where
  "selected_by_tag opts s \<longleftrightarrow> \<not> su_manual s \<and> \<not> suite_is_excluded s (Some opts) \<and>
     (to_tags opts = [] \<or> option_tag_matches (to_tags opts) s)"

definition select_tagged :: "qstar_graph \<Rightarrow> qstar_test_options \<Rightarrow> nat \<Rightarrow> string list \<Rightarrow> qerr + string list" where
  "select_tagged g opts i labels =
     (let s = gr_test_suites g ! i
      in if selected_by_tag opts s then resolve_or_fail g opts i (su_label s) labels else Inr labels)"

definition qstar_graph_resolve_test_selection ::
  "qstar_graph \<Rightarrow> qstar_test_options option \<Rightarrow> string list \<Rightarrow> qerr + string list" where
  "qstar_graph_resolve_test_selection g opts labels = (case opts of
      None \<Rightarrow> Inr labels
    | Some o' \<Rightarrow>
        if list_ex (\<lambda>t. \<not> tag_valid (Some t)) (to_tags o') then
          Inl (Plain ''qstar: test tag filters must be non-empty one-line strings'')
        else if list_ex (\<lambda>t. \<not> tag_valid (Some t)) (to_exclude_tags o') then
          Inl (Plain ''qstar: excluded test tag filters must be non-empty one-line strings'')
        else case run_all (select_named g o') (to_suites o') labels of
            Inl e \<Rightarrow> Inl e
          | Inr labels' \<Rightarrow>
              if to_tags o' = [] \<and> to_exclude_tags o' = [] then Inr labels'
              else run_all (select_tagged g o') (sorted_suites g) labels')"

text \<open>Direct and transitive memberships of a target; \<open>None\<close> for the return value \<open>-1\<close>.\<close>

fun collect_memberships :: "qstar_graph \<Rightarrow> string \<Rightarrow> nat list \<Rightarrow> string list \<times> string list \<Rightarrow>
    (string list \<times> string list) option" where
  "collect_memberships g target [] r = Some r"
| "collect_memberships g target (i # is) (direct, transitive) =
     (let s = gr_test_suites g ! i;
          direct' = (if list_contains (su_tests s) target then direct @ [su_label s] else direct)
      in case qstar_graph_resolve_test_suite_members g i None [] of
          None \<Rightarrow> None
        | Some members \<Rightarrow> collect_memberships g target is
            (direct', if list_contains members target then transitive @ [su_label s] else transitive))"

definition qstar_graph_collect_test_suite_memberships ::
  "qstar_graph \<Rightarrow> string \<Rightarrow> (string list \<times> string list) option" where
  "qstar_graph_collect_test_suite_memberships g target = collect_memberships g target (sorted_suites g) ([], [])"

section \<open>Validation accepts exactly the well-formed suites\<close>

interpretation suite_nesting: call_graph "length (gr_test_suites g)" "nested_suites g" "suite_cycle_err g" for g
  by unfold_locales (auto simp: nested_suites_def map_filter_def dest: find_suite_index_Some)

lemmas suites_dfs_returns = suite_nesting.dfs_all_returns

text \<open>What a suite must be, without the loops that check it.\<close>

definition suite_member_ok :: "qstar_graph \<Rightarrow> string \<Rightarrow> bool" where
  "suite_member_ok g m \<longleftrightarrow> find_suite_index g m \<noteq> None \<or>
     (\<exists>t. find_target g m = Some t \<and> t_kind t \<in> {''test'', ''run_target''})"

definition suite_ok :: "qstar_graph \<Rightarrow> qstar_test_suite \<Rightarrow> bool" where
  "suite_ok g s \<longleftrightarrow> suite_label_conflicts g s = None \<and> su_tests s \<noteq> [] \<and>
     list_all (\<lambda>t. tag_valid (Some t)) (su_tags s) \<and> distinct (su_tags s) \<and>
     list_all (suite_member_ok g) (su_tests s) \<and> distinct (su_tests s)"

lemma distinct_take_iff: "distinct xs \<longleftrightarrow> (\<forall>i<length xs. xs ! i \<notin> set (take i xs))"
proof (induction xs rule: rev_induct)
  case (snoc x xs)
  then show ?case by (auto simp: less_Suc_eq nth_append)
qed simp

lemma passes_suite_tags:
  "passes (check_from 0 (validate_suite_tag s) (su_tags s)) \<longleftrightarrow>
   list_all (\<lambda>t. tag_valid (Some t)) (su_tags s) \<and> distinct (su_tags s)"
  by (auto simp: passes_check_from validate_suite_tag_def distinct_take_iff list_all_length check_seq.simps)

lemma passes_suite_member:
  "passes (validate_suite_member g s j m) \<longleftrightarrow> m \<notin> set (take j (su_tests s)) \<and> suite_member_ok g m"
  unfolding validate_suite_member_def suite_member_ok_def
  by (cases "find_target g m") (auto simp: check_seq.simps find_suite_iff)

lemma passes_suite_members:
  "passes (check_from 0 (validate_suite_member g s) (su_tests s)) \<longleftrightarrow>
   list_all (suite_member_ok g) (su_tests s) \<and> distinct (su_tests s)"
  by (auto simp: passes_check_from passes_suite_member distinct_take_iff list_all_length)

lemma passes_test_suite: "passes (validate_test_suite g s) \<longleftrightarrow> suite_ok g s"
  unfolding validate_test_suite_def suite_ok_def
  by (cases "suite_label_conflicts g s") (simp_all add: passes_suite_tags passes_suite_members)

abbreviation nesting :: "qstar_graph \<Rightarrow> (nat \<times> nat) set" where
  "nesting g \<equiv> calls (length (gr_test_suites g)) (nested_suites g)"

text \<open>
  Validation of test suites accepts a graph exactly when every suite is well formed, that is its
  label is free, it has members, its tags are legal and different, its members are different and
  each one is a declared suite, test or run target, and no suite contains itself through any chain
  of nested suites. The cycle search always returns.
\<close>

theorem validate_test_suites_iff:
  "passes (qstar_graph_validate_test_suites g) \<longleftrightarrow> list_all (suite_ok g) (gr_test_suites g) \<and> acyclic (nesting g)"
proof -
  have "Inl e \<notin> set (nested_suites g i)" for e i by (auto simp: nested_suites_def)
  then have acc: "(\<exists>st. dfs_all (length (gr_test_suites g)) (nested_suites g) (suite_cycle_err g) = Some (Inr st))
      \<longleftrightarrow> acyclic (nesting g)"
    using suite_nesting.dfs_all_accepts_iff by auto
  show ?thesis
    unfolding qstar_graph_validate_test_suites_def acc [symmetric]
    by (auto simp: check_seq.simps passes_test_suite list_all_iff split: option.splits sum.splits)
qed

section \<open>Resolution is exact\<close>

text \<open>The tests of suite \<open>i\<close> once every suite the options exclude is left out.\<close>

inductive suite_has :: "qstar_graph \<Rightarrow> qstar_test_options option \<Rightarrow> nat \<Rightarrow> string \<Rightarrow> bool"
  for g opts where
  has_test: "\<not> suite_is_excluded (gr_test_suites g ! i) opts \<Longrightarrow> m \<in> set (su_tests (gr_test_suites g ! i)) \<Longrightarrow>
    find_suite_index g m = None \<Longrightarrow> suite_has g opts i m"
| has_nested: "\<not> suite_is_excluded (gr_test_suites g ! i) opts \<Longrightarrow> l \<in> set (su_tests (gr_test_suites g ! i)) \<Longrightarrow>
    find_suite_index g l = Some j \<Longrightarrow> suite_has g opts j m \<Longrightarrow> suite_has g opts i m"

definition members_have :: "qstar_graph \<Rightarrow> qstar_test_options option \<Rightarrow> string list \<Rightarrow> string \<Rightarrow> bool" where
  "members_have g opts ls m \<longleftrightarrow> (\<exists>l \<in> set ls. case find_suite_index g l of
      None \<Rightarrow> m = l | Some j \<Rightarrow> suite_has g opts j m)"

inductive_simps suite_has_simp: "suite_has g opts i m"

lemma suite_has_iff:
  "suite_has g opts i m \<longleftrightarrow> \<not> suite_is_excluded (gr_test_suites g ! i) opts \<and>
     members_have g opts (su_tests (gr_test_suites g ! i)) m"
proof
  assume "suite_has g opts i m"
  then show "\<not> suite_is_excluded (gr_test_suites g ! i) opts \<and>
      members_have g opts (su_tests (gr_test_suites g ! i)) m"
    unfolding members_have_def by (cases rule: suite_has.cases) force+
next
  assume a: "\<not> suite_is_excluded (gr_test_suites g ! i) opts \<and>
      members_have g opts (su_tests (gr_test_suites g ! i)) m"
  then obtain l where "l \<in> set (su_tests (gr_test_suites g ! i))"
    "case find_suite_index g l of None \<Rightarrow> m = l | Some j \<Rightarrow> suite_has g opts j m"
    unfolding members_have_def by blast
  then show "suite_has g opts i m"
    using a by (auto split: option.splits intro: has_test has_nested)
qed

lemma members_have_Nil [simp]: "\<not> members_have g opts [] m"
  by (simp add: members_have_def)

lemma members_have_Cons: "members_have g opts (l # ls) m \<longleftrightarrow>
    (case find_suite_index g l of None \<Rightarrow> m = l | Some j \<Rightarrow> suite_has g opts j m) \<or> members_have g opts ls m"
  by (simp add: members_have_def)

text \<open>A run only appends labels it has not listed, and appends exactly the tests of the suite.\<close>

definition grows_from :: "string list \<Rightarrow> string list \<Rightarrow> (string \<Rightarrow> bool) \<Rightarrow> bool" where
  "grows_from labels labels' P \<longleftrightarrow> (\<exists>new. labels' = labels @ new) \<and> (distinct labels \<longrightarrow> distinct labels') \<and>
     set labels' = set labels \<union> Collect P"

lemma grows_from_refl: "(\<And>m. \<not> P m) \<Longrightarrow> grows_from labels labels P"
  by (auto simp: grows_from_def)

lemma grows_from_trans:
  "grows_from a b P \<Longrightarrow> grows_from b c Q \<Longrightarrow> (\<And>m. R m \<longleftrightarrow> P m \<or> Q m) \<Longrightarrow> grows_from a c R"
  by (auto simp: grows_from_def)

lemma grows_from_push: "grows_from labels (push_unique labels l) (\<lambda>m. m = l)"
  by (auto simp: grows_from_def push_unique_def)

lemma resolve_grows_from:
  "resolve_suite_recursive g opts f i stack labels = Some (Inr labels') \<Longrightarrow>
   grows_from labels labels' (suite_has g opts i)"
  "resolve_members g opts f ls stack labels = Some (Inr labels') \<Longrightarrow>
   grows_from labels labels' (members_have g opts ls)"
proof (induction g opts f i stack labels and g opts f ls stack labels arbitrary: labels' and labels'
    rule: resolve_suite_recursive_resolve_members.induct)
  case (2 g opts f i stack labels)
  then show ?case
    by (auto simp: suite_has_iff [abs_def] grows_from_refl fun_upd_def split: if_split_asm)
next
  case (4 g opts f l ls stack labels)
  show ?case
  proof (cases "find_suite_index g l")
    case None
    then have "grows_from (push_unique labels l) labels' (members_have g opts ls)"
      using 4 by simp
    then show ?thesis
      by (rule grows_from_trans [OF grows_from_push]) (simp add: members_have_Cons None)
  next
    case (Some j)
    then obtain labels1 where r: "resolve_suite_recursive g opts f j stack labels = Some (Inr labels1)"
      and rest: "resolve_members g opts f ls stack labels1 = Some (Inr labels')"
      using 4 by (auto split: option.splits sum.splits)
    then have "grows_from labels labels1 (suite_has g opts j)" "grows_from labels1 labels' (members_have g opts ls)"
      using 4 Some by auto
    then show ?thesis
      by (rule grows_from_trans) (simp add: members_have_Cons Some)
  qed
qed (simp_all add: grows_from_refl)

text \<open>On an acyclic nesting the flags never stop the walk, and the fuel is enough.\<close>

definition unmarked :: "qstar_graph \<Rightarrow> (nat \<Rightarrow> bool) \<Rightarrow> nat set" where
  "unmarked g stack = {k. k < length (gr_test_suites g) \<and> \<not> stack k}"

lemma nesting_edge:
  "i < length (gr_test_suites g) \<Longrightarrow> l \<in> set (su_tests (gr_test_suites g ! i)) \<Longrightarrow>
   find_suite_index g l = Some j \<Longrightarrow> (i, j) \<in> nesting g"
  by (force simp: calls_def nested_suites_def map_filter_def)

lemma members_return:
  assumes "\<And>j labels. j \<in> set (List.map_filter (find_suite_index g) ls) \<Longrightarrow>
      \<exists>labels'. resolve_suite_recursive g opts f j stack labels = Some (Inr labels')"
  shows "\<exists>labels'. resolve_members g opts f ls stack labels = Some (Inr labels')"
  using assms
proof (induction ls arbitrary: labels)
  case (Cons l ls)
  show ?case
  proof (cases "find_suite_index g l")
    case None
    then show ?thesis using Cons by (simp add: map_filter_simps)
  next
    case (Some j)
    then obtain labels1 where "resolve_suite_recursive g opts f j stack labels = Some (Inr labels1)"
      using Cons.prems [of j labels] by (auto simp: map_filter_simps)
    then show ?thesis using Cons Some by (simp add: map_filter_simps)
  qed
qed simp

lemma resolve_returns:
  assumes "acyclic (nesting g)" and "i < length (gr_test_suites g)"
    and "\<And>k. stack k \<Longrightarrow> (k, i) \<in> (nesting g)\<^sup>+" and "card (unmarked g stack) < f"
  shows "\<exists>labels'. resolve_suite_recursive g opts f i stack labels = Some (Inr labels')"
  using assms(2-)
proof (induction f arbitrary: i stack labels)
  case (Suc f)
  let ?s = "gr_test_suites g ! i" and ?stack = "stack(i := True)"
  have i: "\<not> stack i" using Suc.prems assms(1) by (auto simp: acyclic_def)
  have fin: "finite (unmarked g stack)" by (simp add: unmarked_def)
  have "i \<in> unmarked g stack" and "unmarked g ?stack = unmarked g stack - {i}"
    using Suc.prems(1) i by (auto simp: unmarked_def)
  then have card: "card (unmarked g ?stack) < f"
    using Suc.prems(3) card_Diff1_less [OF fin, of i] by simp
  have "\<exists>labels'. resolve_members g opts f (su_tests ?s) ?stack labels = Some (Inr labels')"
  proof (rule members_return)
    fix j and labels :: "string list"
    assume "j \<in> set (List.map_filter (find_suite_index g) (su_tests ?s))"
    then obtain l where l: "l \<in> set (su_tests ?s)" "find_suite_index g l = Some j"
      by (auto simp: map_filter_def)
    then have e: "(i, j) \<in> nesting g" using Suc.prems(1) nesting_edge by blast
    have "(k, j) \<in> (nesting g)\<^sup>+" if "?stack k" for k
      using that Suc.prems(2) [of k] e by (cases "k = i") (auto intro: trancl_into_trancl)
    then show "\<exists>labels'. resolve_suite_recursive g opts f j ?stack labels = Some (Inr labels')"
      using Suc.IH [of j ?stack] card l find_suite_index_Some by blast
  qed
  then show ?case using Suc.prems(1) i by auto
qed simp

lemma resolve_members_exact:
  assumes "acyclic (nesting g)" and "i < length (gr_test_suites g)"
  obtains labels' where "qstar_graph_resolve_test_suite_members g i opts labels = Some labels'"
    and "grows_from labels labels' (suite_has g opts i)"
proof -
  have "card (unmarked g (\<lambda>_. False)) < length (gr_test_suites g) + 1"
    by (simp add: unmarked_def)
  then obtain labels' where "resolve_suite_recursive g opts (length (gr_test_suites g) + 1) i (\<lambda>_. False) labels
      = Some (Inr labels')"
    using resolve_returns [OF assms, of "\<lambda>_. False"] by blast
  then show ?thesis
    using that [of labels'] resolve_grows_from(1) [of g opts "length (gr_test_suites g) + 1" i "\<lambda>_. False" labels labels']
    unfolding qstar_graph_resolve_test_suite_members_def by (simp del: resolve_suite_recursive.simps)
qed

section \<open>Selection is exact\<close>

text \<open>
  The tests a selection stands for: those of every named suite, and, when there are tag or exclude
  filters, those of every suite that is not manual, not excluded and matches a tag if any is given.
\<close>

definition named_suite :: "string \<Rightarrow> qstar_graph \<Rightarrow> nat option" where
  "named_suite name g = (case qstar_label_canonicalize (Some name) (Some []) PATH_MAX of
      Value label \<Rightarrow> find_suite_index g label | _ \<Rightarrow> None)"

definition selection_root :: "qstar_graph \<Rightarrow> qstar_test_options \<Rightarrow> nat \<Rightarrow> bool" where
  "selection_root g opts i \<longleftrightarrow> i < length (gr_test_suites g) \<and>
     ((\<exists>n \<in> set (to_suites opts). named_suite n g = Some i) \<or>
      ((to_tags opts \<noteq> [] \<or> to_exclude_tags opts \<noteq> []) \<and> selected_by_tag opts (gr_test_suites g ! i)))"

definition selected_test :: "qstar_graph \<Rightarrow> qstar_test_options \<Rightarrow> string \<Rightarrow> bool" where
  "selected_test g opts m \<longleftrightarrow> (\<exists>i. selection_root g opts i \<and> suite_has g (Some opts) i m)"

lemma run_all_grows_from:
  assumes "run_all f xs labels = Inr labels'"
    and "\<And>x l l'. x \<in> set xs \<Longrightarrow> f x l = Inr l' \<Longrightarrow> grows_from l l' (P x)"
  shows "grows_from labels labels' (\<lambda>m. \<exists>x \<in> set xs. P x m)"
  using assms
proof (induction xs arbitrary: labels)
  case Nil
  then show ?case by (simp add: grows_from_refl)
next
  case (Cons x xs)
  then obtain l where "f x labels = Inr l" "run_all f xs l = Inr labels'" by (auto split: sum.splits)
  then have "grows_from labels l (P x)" "grows_from l labels' (\<lambda>m. \<exists>x \<in> set xs. P x m)" using Cons by auto
  then show ?case by (rule grows_from_trans) simp
qed

lemma run_all_returns:
  assumes "\<And>x l. x \<in> set xs \<Longrightarrow> \<exists>l'. f x l = Inr l'"
  shows "\<exists>labels'. run_all f xs labels = Inr labels'"
  using assms
proof (induction xs arbitrary: labels)
  case (Cons x xs)
  then obtain l where "f x labels = Inr l" by (meson list.set_intros(1))
  then show ?case using Cons by simp
qed simp

lemma resolve_or_fail_grows_from:
  assumes "acyclic (nesting g)" and "i < length (gr_test_suites g)"
  obtains l' where "resolve_or_fail g opts i label l = Inr l'" and "grows_from l l' (suite_has g (Some opts) i)"
proof -
  obtain l' where "qstar_graph_resolve_test_suite_members g i (Some opts) l = Some l'"
    "grows_from l l' (suite_has g (Some opts) i)"
    using resolve_members_exact [OF assms] by blast
  then show ?thesis using that by (simp add: resolve_or_fail_def)
qed

lemma select_named_iff:
  assumes "acyclic (nesting g)"
  shows "(\<exists>l'. select_named g opts name l = Inr l') \<longleftrightarrow> named_suite name g \<noteq> None"
    and "select_named g opts name l = Inr l' \<Longrightarrow>
         grows_from l l' (\<lambda>m. \<exists>i. named_suite name g = Some i \<and> suite_has g (Some opts) i m)"
proof -
  have empty: "qstar_label_canonicalize (Some []) (Some []) PATH_MAX = Failure"
    by (simp add: qstar_label_canonicalize_def)
  have eq: "select_named g opts name l = (case named_suite name g of Some i \<Rightarrow>
      resolve_or_fail g opts i (su_label (gr_test_suites g ! i)) l | None \<Rightarrow> select_named g opts name l)" for l
    using find_suite_index_Some [of g] empty
    by (auto simp: select_named_def named_suite_def split: outcome.splits option.splits)
  have none: "select_named g opts name l \<noteq> Inr l'" if "named_suite name g = None" for l l'
    using that by (auto simp: select_named_def named_suite_def split: outcome.splits option.splits)
  have bound: "i < length (gr_test_suites g)" if "named_suite name g = Some i" for i
    using that find_suite_index_Some by (auto simp: named_suite_def split: outcome.splits)
  show "(\<exists>l'. select_named g opts name l = Inr l') \<longleftrightarrow> named_suite name g \<noteq> None"
  proof (cases "named_suite name g")
    case None
    then show ?thesis using none by auto
  next
    case (Some i)
    then show ?thesis
      using resolve_or_fail_grows_from [OF assms bound [OF Some], of opts "su_label (gr_test_suites g ! i)" l]
      by (subst eq) auto
  qed
  show "grows_from l l' (\<lambda>m. \<exists>i. named_suite name g = Some i \<and> suite_has g (Some opts) i m)"
    if r: "select_named g opts name l = Inr l'"
  proof -
    obtain i where i: "named_suite name g = Some i" using none r by blast
    then have "resolve_or_fail g opts i (su_label (gr_test_suites g ! i)) l = Inr l'" using r eq by simp
    then show ?thesis
      using resolve_or_fail_grows_from [OF assms bound [OF i], of opts "su_label (gr_test_suites g ! i)" l] i by auto
  qed
qed

lemma select_tagged_grows_from:
  assumes "acyclic (nesting g)" and "i < length (gr_test_suites g)"
  obtains l' where "select_tagged g opts i l = Inr l'"
    and "grows_from l l' (\<lambda>m. selected_by_tag opts (gr_test_suites g ! i) \<and> suite_has g (Some opts) i m)"
proof -
  obtain l' where "resolve_or_fail g opts i (su_label (gr_test_suites g ! i)) l = Inr l'"
    "grows_from l l' (suite_has g (Some opts) i)"
    using resolve_or_fail_grows_from [OF assms] by blast
  then show ?thesis
    using that by (cases "selected_by_tag opts (gr_test_suites g ! i)")
      (auto simp: select_tagged_def Let_def grows_from_refl)
qed

definition legal_tags :: "qstar_test_options \<Rightarrow> bool" where
  "legal_tags opts \<longleftrightarrow> list_all (\<lambda>t. tag_valid (Some t)) (to_tags opts @ to_exclude_tags opts)"

lemma not_list_all: "list_ex (\<lambda>x. \<not> P x) xs \<longleftrightarrow> \<not> list_all P xs"
  by (induction xs) auto

lemma selection_unfold:
  "legal_tags opts \<Longrightarrow> qstar_graph_resolve_test_selection g (Some opts) labels =
     (case run_all (select_named g opts) (to_suites opts) labels of
        Inl e \<Rightarrow> Inl e
      | Inr l \<Rightarrow> if to_tags opts = [] \<and> to_exclude_tags opts = [] then Inr l
               else run_all (select_tagged g opts) (sorted_suites g) l)"
  by (simp add: qstar_graph_resolve_test_selection_def legal_tags_def not_list_all)

lemma run_all_Inr: "run_all f xs s = Inr s' \<Longrightarrow> x \<in> set xs \<Longrightarrow> \<exists>l l'. f x l = Inr l'"
  by (induction xs arbitrary: s) (auto split: sum.splits)

lemma sorted_suites_set [simp]: "set (sorted_suites g) = {..<length (gr_test_suites g)}"
  by (auto simp: sorted_suites_def)

lemma selection_result:
  assumes "acyclic (nesting g)" and "legal_tags opts"
    and "qstar_graph_resolve_test_selection g (Some opts) labels = Inr labels'"
  shows "grows_from labels labels' (selected_test g opts)"
proof -
  let ?named = "\<lambda>m. \<exists>n \<in> set (to_suites opts). \<exists>i. named_suite n g = Some i \<and> suite_has g (Some opts) i m"
  let ?tagged = "\<lambda>m. \<exists>i \<in> set (sorted_suites g).
      selected_by_tag opts (gr_test_suites g ! i) \<and> suite_has g (Some opts) i m"
  obtain l where l: "run_all (select_named g opts) (to_suites opts) labels = Inr l"
    and r: "(if to_tags opts = [] \<and> to_exclude_tags opts = [] then Inr l
             else run_all (select_tagged g opts) (sorted_suites g) l) = Inr labels'"
    using assms(3) by (auto simp: selection_unfold [OF assms(2)] split: sum.splits)
  have 1: "grows_from labels l ?named"
    by (rule run_all_grows_from [OF l]) (rule select_named_iff(2) [OF assms(1)])
  have bound: "i < length (gr_test_suites g)" if "named_suite n g = Some i" for n i
    using that find_suite_index_Some by (auto simp: named_suite_def split: outcome.splits)
  show ?thesis
  proof (cases "to_tags opts = [] \<and> to_exclude_tags opts = []")
    case True
    then have "?named m \<longleftrightarrow> selected_test g opts m" for m
      unfolding selected_test_def selection_root_def using bound True by blast
    then show ?thesis using 1 r True by (auto simp: grows_from_def)
  next
    case False
    have "run_all (select_tagged g opts) (sorted_suites g) l = Inr labels'"
      using r unfolding if_not_P [OF False] .
    then have 2: "grows_from l labels' ?tagged"
    proof (rule run_all_grows_from)
      fix i a b
      assume "i \<in> set (sorted_suites g)" "select_tagged g opts i a = Inr b"
      then show "grows_from a b (\<lambda>m. selected_by_tag opts (gr_test_suites g ! i) \<and> suite_has g (Some opts) i m)"
        using select_tagged_grows_from [OF assms(1), of i opts a] by auto
    qed
    have "selected_test g opts m \<longleftrightarrow> ?named m \<or> ?tagged m" for m
      unfolding selected_test_def selection_root_def sorted_suites_set using bound False by blast
    with grows_from_trans [OF 1 2] show ?thesis by blast
  qed
qed

text \<open>
  C32: Selecting tests on a validated graph is exact, when suites are named without exclude filters or with a tag
  asked for, or no suite is named. With legal tags it succeeds precisely when every
  named suite is declared. The labels it gives are pairwise different, and they are the tests found
  through nested suites, excluded ones left out, from the named suites and, as soon as a tag is asked for or no suite
  is named but something is excluded, from every suite that is neither manual nor excluded and has one of the
  tags asked for, if any is.
\<close>

theorem test_selection_exact:
  assumes "passes (qstar_graph_validate_test_suites g)" and "legal_tags opts"
    and "to_suites opts = [] \<or> to_tags opts \<noteq> [] \<or> to_exclude_tags opts = []"
  shows "((\<exists>labels. qstar_graph_resolve_test_selection g (Some opts) [] = Inr labels) \<longleftrightarrow>
          list_all (\<lambda>n. named_suite n g \<noteq> None) (to_suites opts))
    \<and> (\<forall>labels. qstar_graph_resolve_test_selection g (Some opts) [] = Inr labels \<longrightarrow>
          distinct labels \<and> set labels = Collect (selected_test g opts))"
proof
  have "passes (check_seq [check_all (validate_test_suite g) (gr_test_suites g), c]) \<Longrightarrow> passes c" for c
    by (simp add: check_seq.simps split: sum.splits)
  then have a: "acyclic (nesting g)"
    using suite_nesting.dfs_all_accepts_iff [of g] assms(1)
    unfolding qstar_graph_validate_test_suites_def by (force split: option.splits sum.splits)
  have "\<exists>l'. run_all (select_named g opts) (to_suites opts) [] = Inr l'"
    if "list_all (\<lambda>n. named_suite n g \<noteq> None) (to_suites opts)"
    using that by (intro run_all_returns) (auto simp: select_named_iff(1) [OF a] list_all_iff)
  moreover have "\<exists>l'. run_all (select_tagged g opts) (sorted_suites g) l = Inr l'" for l
    by (intro run_all_returns) (use select_tagged_grows_from [OF a] in \<open>auto, metis\<close>)
  moreover have "named_suite n g \<noteq> None"
    if "run_all (select_named g opts) (to_suites opts) [] = Inr l'" "n \<in> set (to_suites opts)" for n l'
    using run_all_Inr [OF that] select_named_iff(1) [OF a] by blast
  ultimately show "(\<exists>labels. qstar_graph_resolve_test_selection g (Some opts) [] = Inr labels) \<longleftrightarrow>
      list_all (\<lambda>n. named_suite n g \<noteq> None) (to_suites opts)"
    unfolding selection_unfold [OF assms(2)] list_all_iff by (force split: sum.splits)
  show "\<forall>labels. qstar_graph_resolve_test_selection g (Some opts) [] = Inr labels \<longrightarrow>
      distinct labels \<and> set labels = Collect (selected_test g opts)"
    using selection_result [OF a assms(2)] by (auto simp: grows_from_def)
qed

definition demo_suites :: qstar_graph where
  "demo_suites = zero_qstar_graph
    \<lparr>gr_targets := map (\<lambda>l. zero_qstar_target\<lparr>t_label := l, t_kind := ''test''\<rparr>) [''//:t1'', ''//:t2'', ''//:t3''],
     gr_test_suites :=
       [zero_qstar_test_suite\<lparr>su_label := ''//:all'', su_tests := [''//:fast'', ''//:t2'', ''//:t1''], su_tags := [''all'']\<rparr>,
        zero_qstar_test_suite\<lparr>su_label := ''//:fast'', su_tests := [''//:t1''], su_tags := [''fast'']\<rparr>,
        zero_qstar_test_suite\<lparr>su_label := ''//:slow'', su_tests := [''//:t3''], su_tags := [''slow'']\<rparr>]\<rparr>"

definition demo_selection :: qstar_test_options where
  "demo_selection = zero_qstar_test_options\<lparr>to_suites := [''//:fast''], to_tags := [''all''], to_exclude_tags := [''slow'']\<rparr>"

lemma demo_suites_valid: "qstar_graph_validate_test_suites demo_suites = Inr ()"
  by code_simp

theorem test_selection_exact_witness:
  "qstar_graph_resolve_test_selection demo_suites (Some demo_selection) [] = Inr [''//:t1'', ''//:t2'']
   \<and> Collect (selected_test demo_suites demo_selection) = {''//:t1'', ''//:t2''}"
proof -
  have r: "qstar_graph_resolve_test_selection demo_suites (Some demo_selection) [] = Inr [''//:t1'', ''//:t2'']"
    by code_simp
  have "passes (qstar_graph_validate_test_suites demo_suites)" by (simp add: demo_suites_valid)
  moreover have "legal_tags demo_selection" "to_tags demo_selection \<noteq> []" by code_simp+
  ultimately show ?thesis
    using r test_selection_exact [of demo_suites demo_selection] by auto
qed

text \<open>
  The case left out: \<^verbatim>\<open>docs/composable-test-suites.md\<close> has an exclude filter take suites away from those named. The only
  suite named here is \<open>//:fast\<close>, and the filter alone makes the test \<open>//:t2\<close> of \<open>//:all\<close> run as well.
\<close>

theorem exclude_filter_adds_tests:
  "qstar_graph_resolve_test_selection demo_suites
     (Some (zero_qstar_test_options\<lparr>to_suites := [''//:fast''], to_exclude_tags := [''slow'']\<rparr>)) [] = Inr [''//:t1'', ''//:t2'']"
  by code_simp

end
