(* ===== verification/QTokens.thy ===== *)
theory QTokens
  imports QToolContext
begin

text \<open>
  The placeholders of commands, as \<^verbatim>\<open>src/executor.c\<close> resolves them before it starts a process:
  \<open>qstar.target_file\<close>, \<open>qstar.tool_file\<close> and \<open>qstar.stage_dir\<close> become paths, every other argument stays
  as it is; and the input files a generated action or a run target depends on.
\<close>

section \<open>Resolving arguments\<close>

definition generated_arg_escapes_package :: "cstr \<Rightarrow> bool" where
  "generated_arg_escapes_package arg = (case arg of
      None \<Rightarrow> False
    | Some a \<Rightarrow> starts_with ''/'' a \<or> a = ''..'' \<or> starts_with ''../'' a \<or> strstr ''/../'' a \<noteq> None \<or>
        strstr ''=../'' a \<noteq> None \<or> strstr '':../'' a \<noteq> None)"

definition resolve_target_file_token :: "host_os \<Rightarrow> qstar_graph \<Rightarrow> cstr \<Rightarrow> nat \<Rightarrow> qerr + string" where
  "resolve_target_file_token host g arg dstlen =
     (case qstar_target_file_token_parse arg PATH_MAX (Some 64) of
        NotToken \<Rightarrow> (case put dstlen (str_or_empty arg) of
            None \<Rightarrow> Inl (Plain ''qstar: command argv item is too long'') | Some s \<Rightarrow> Inr s)
      | BadToken \<Rightarrow> Inl (Plain ''qstar: malformed target_file placeholder'')
      | Token (label, artifact) \<Rightarrow> (case find_target g label of
            None \<Rightarrow> (case qstar_graph_find_genrule g label of
                Some r \<Rightarrow>
                  if g_outputs r = [] then
                    Inl (Plain (''qstar: target_file references unknown target '' @ sq label))
                  else if artifact \<noteq> [] then
                    Inl (Plain (''qstar: target_file artifact selector '' @ sq artifact @
                      '' cannot be used with generated action '' @ sq label))
                  else (case put dstlen (hd (g_outputs r)) of
                      None \<Rightarrow> Inl (Plain ''qstar: target_file generated output path is too long'')
                    | Some s \<Rightarrow> Inr s)
              | None \<Rightarrow> Inl (Plain (''qstar: target_file references unknown target '' @ sq label)))
          | Some t \<Rightarrow>
              if t_kind t = ''group'' then
                Inl (target_err t ''target_file'' (''qstar: qstar.target_file cannot reference group target '' @
                  sq label @ '' because group targets have no artifact; depend on the group directly or reference one of its artifact-producing deps''))
              else if t_kind t = ''objectlib'' then
                Inl (target_err t ''target_file'' (''qstar: qstar.target_file cannot reference objectlib target '' @
                  sq label @ '' because object libraries have no artifact; consume it with objects = { ... }''))
              else if artifact = ''@tool'' then qstar_graph_target_tool_path host g t dstlen
              else qstar_graph_target_artifact_path host g t (Some artifact) dstlen))"

definition stage_manifest_rel_for_label :: "qstar_graph \<Rightarrow> string \<Rightarrow> nat \<Rightarrow> qerr + string" where
  "stage_manifest_rel_for_label g label dstlen =
     (case put PATH_MAX (''stage/'' @ qstar_mangle_label label PATH_MAX @ ''/manifest.json'') of
        None \<Rightarrow> Inl (Plain ''qstar: stage manifest path too long'')
      | Some sub \<Rightarrow> (case qstar_graph_build_path g (Some sub) dstlen of
            None \<Rightarrow> Inl (Plain ''qstar: stage manifest path too long'') | Some p \<Rightarrow> Inr p))"

text \<open>\<open>Inr None\<close> is the return value \<open>0\<close>: no such placeholder.\<close>

definition resolve_stage_dir_token :: "qstar_graph \<Rightarrow> cstr \<Rightarrow> nat \<Rightarrow> qerr + string option" where
  "resolve_stage_dir_token g arg dstlen =
     (case qstar_stage_dir_token_label arg PATH_MAX of
        NotToken \<Rightarrow> Inr None
      | BadToken \<Rightarrow> Inl (Plain ''qstar: malformed stage_dir placeholder'')
      | Token label \<Rightarrow> (case qstar_graph_find_stage g label of
            None \<Rightarrow> Inl (Plain (''qstar: stage_dir references unknown stage '' @ sq label))
          | Some s \<Rightarrow> (case put dstlen (nonempty_or ''.'' (st_root s)) of
                None \<Rightarrow> Inl (Plain ''qstar: stage_dir root path is too long'')
              | Some p \<Rightarrow> Inr (Some p))))"

definition qstar_graph_resolve_command_token :: "host_os \<Rightarrow> qstar_graph \<Rightarrow> cstr \<Rightarrow> nat \<Rightarrow> qerr + string" where
  "qstar_graph_resolve_command_token host g arg dstlen = (case resolve_stage_dir_token g arg dstlen of
      Inl e \<Rightarrow> Inl e
    | Inr (Some p) \<Rightarrow> Inr p
    | Inr None \<Rightarrow> resolve_target_file_token host g arg dstlen)"

section \<open>Declared inputs\<close>

text \<open>\<open>push_unique_tmp\<close> keeps a list free of duplicates; the lists are those pushed to.\<close>

definition push_generated_action_input ::
  "host_os \<Rightarrow> qstar_graph \<Rightarrow> string list \<Rightarrow> string \<Rightarrow> qerr + string list" where
  "push_generated_action_input host g inputs input =
     (case qstar_target_file_token_label (Some input) PATH_MAX of
        BadToken \<Rightarrow> Inl (Plain ''qstar: malformed target_file placeholder'')
      | Token label \<Rightarrow> map_sum id (push_unique inputs) (resolve_target_file_token host g (Some input) PATH_MAX)
      | NotToken \<Rightarrow> Inr (push_unique inputs input))"

fun push_argv_inputs :: "host_os \<Rightarrow> qstar_graph \<Rightarrow> qerr \<Rightarrow> string list \<Rightarrow> string list \<Rightarrow> qerr + string list" where
  "push_argv_inputs host g malformed [] inputs = Inr inputs"
| "push_argv_inputs host g malformed (a # as) inputs = (case qstar_target_file_token_label (Some a) PATH_MAX of
      BadToken \<Rightarrow> Inl malformed
    | NotToken \<Rightarrow> push_argv_inputs host g malformed as inputs
    | Token label \<Rightarrow> (case resolve_target_file_token host g (Some a) PATH_MAX of
          Inl e \<Rightarrow> Inl e
        | Inr p \<Rightarrow> push_argv_inputs host g malformed as (inputs @ [p])))"

definition push_target_file_argv_inputs ::
  "host_os \<Rightarrow> qstar_graph \<Rightarrow> qstar_genrule \<Rightarrow> string list \<Rightarrow> qerr + string list" where
  "push_target_file_argv_inputs host g r inputs =
     (let malformed = (\<lambda>what. Origin (g_origin_file r) (g_origin_line r) ''command'' (g_label r)
            (''qstar: malformed '' @ what @ '' placeholder''));
          rest = push_argv_inputs host g (malformed ''target_file'') (g_args r)
      in case qstar_target_file_token_label (g_tool r) PATH_MAX of
          BadToken \<Rightarrow> Inl (malformed ''tool_file'')
        | NotToken \<Rightarrow> rest inputs
        | Token label \<Rightarrow> (case resolve_target_file_token host g (g_tool r) PATH_MAX of
              Inl e \<Rightarrow> Inl e | Inr p \<Rightarrow> rest (inputs @ [p])))"

definition push_run_declared_input ::
  "host_os \<Rightarrow> qstar_graph \<Rightarrow> string list \<Rightarrow> string \<Rightarrow> qerr + string list" where
  "push_run_declared_input host g inputs item = (case qstar_stage_dir_token_label (Some item) PATH_MAX of
      BadToken \<Rightarrow> Inl (Plain ''qstar: malformed stage_dir placeholder'')
    | Token label \<Rightarrow> map_sum id (push_unique inputs) (stage_manifest_rel_for_label g label PATH_MAX)
    | NotToken \<Rightarrow> push_generated_action_input host g inputs item)"

section \<open>Plain arguments stay as they are\<close>

lemma token_payload_prefix: "token_payload p (Some a) \<noteq> NotToken \<Longrightarrow> starts_with p a"
  by (simp add: token_payload_def split: if_split_asm)

lemma plain_argument:
  assumes "\<not> starts_with ''<qstar-'' a" and "length a < dstlen"
  shows "qstar_graph_resolve_command_token host g (Some a) dstlen = Inr a"
proof -
  have no: "token_payload p (Some a) = NotToken" if "starts_with ''<qstar-'' p" for p
  proof (rule ccontr)
    assume "token_payload p (Some a) \<noteq> NotToken"
    then have "starts_with p a" by (rule token_payload_prefix)
    then show False using that assms(1) by (auto simp: starts_with_iff)
  qed
  have "starts_with ''<qstar-'' ''<qstar-stage-dir:''" "starts_with ''<qstar-'' ''<qstar-target-file:''" by code_simp+
  then show ?thesis using no assms(2)
    by (simp add: qstar_graph_resolve_command_token_def resolve_stage_dir_token_def qstar_stage_dir_token_label_def
        resolve_target_file_token_def qstar_target_file_token_parse_def put_def)
qed

end
