(* ===== verification/QQuote.thy ===== *)
theory QQuote
  imports QPrelude
begin

text \<open>
  The three ways QStar writes an argument vector as text, and JSON string literals: single quotes for
  POSIX shells and response files (\<^verbatim>\<open>write_shell_arg\<close> of \<^verbatim>\<open>src/action_materialize.c\<close>, \<^verbatim>\<open>src/executor.c\<close> and
  \<^verbatim>\<open>src/test_resources.c\<close>), double quotes for Windows response files (\<^verbatim>\<open>write_windows_arg\<close>), the
  command line of \<^verbatim>\<open>CreateProcess\<close> (\<^verbatim>\<open>src/platform_process.c\<close>), and \<^verbatim>\<open>dump_json_string\<close> of \<^verbatim>\<open>src/graph.c\<close>.
  The readers are the documented rules of the programs on the other side. The locale \<open>quoting\<close> states
  what a quoting promises and derives that whole lists read back.
\<close>

section \<open>What a quoting promises\<close>

text \<open>
  \<open>word\<close> reads one word and returns the rest of the text from the delimiter on.
\<close>

fun read_words :: "(string \<Rightarrow> (string \<times> string) option) \<Rightarrow> nat \<Rightarrow> string \<Rightarrow> string list option" where
  "read_words word 0 s = (if s = [] then Some [] else None)"
| "read_words word (Suc n) s = (case word s of
      Some (x, _ # rest) \<Rightarrow> map_option (Cons x) (read_words word n rest)
    | Some (x, []) \<Rightarrow> if n = 0 then Some [x] else None
    | None \<Rightarrow> None)"

locale quoting =
  fixes quote :: "string \<Rightarrow> string" and word :: "string \<Rightarrow> (string \<times> string) option" and sep :: char
  assumes word_sep: "word (quote s @ sep # rest) = Some (s, sep # rest)"
    and word_end: "word (quote s) = Some (s, [])"
begin

lemma quote_inj: "quote s = quote t \<longleftrightarrow> s = t"
  using word_end [of s] word_end [of t] by (metis Pair_inject option.inject)

lemma read_lines: "read_words word (length xs) (concat (map (\<lambda>x. quote x @ [sep]) xs)) = Some xs"
proof (induction xs)
  case (Cons x xs)
  then show ?case using word_sep [of x] by simp
qed simp

lemma lines_inj:
  "concat (map (\<lambda>x. quote x @ [sep]) xs) = concat (map (\<lambda>x. quote x @ [sep]) ys) \<Longrightarrow> xs = ys"
proof (induction xs arbitrary: ys)
  case Nil
  then show ?case by (cases ys) auto
next
  case (Cons x xs)
  then obtain y ys' where ys: "ys = y # ys'" by (cases ys) auto
  let ?rest = "\<lambda>xs. concat (map (\<lambda>x. quote x @ [sep]) xs)"
  have "quote x @ sep # ?rest xs = quote y @ sep # ?rest ys'" using Cons.prems ys by simp
  then have "word (quote x @ sep # ?rest xs) = word (quote y @ sep # ?rest ys')" by (rule arg_cong)
  then have "x = y" "?rest xs = ?rest ys'" by (simp_all add: word_sep)
  then show ?case using Cons.IH ys by simp
qed

text \<open>Words with one separator between two of them.\<close>

fun joined :: "string list \<Rightarrow> string" where
  "joined [] = []"
| "joined [x] = quote x"
| "joined (x # y # xs) = quote x @ sep # joined (y # xs)"

lemma joined_Cons: "xs \<noteq> [] \<Longrightarrow> joined (x # xs) = quote x @ sep # joined xs"
  by (cases xs) simp_all

lemma read_joined: "xs \<noteq> [] \<Longrightarrow> read_words word (length xs) (joined xs) = Some xs"
proof (induction xs)
  case (Cons x xs)
  show ?case
  proof (cases "xs = []")
    case True
    then show ?thesis using word_end [of x] by simp
  next
    case False
    then show ?thesis using Cons word_sep [of x "joined xs"] by (simp add: joined_Cons)
  qed
qed simp

end

section \<open>Single quotes\<close>

definition shell_simple_char :: "char \<Rightarrow> bool" where
  "shell_simple_char c \<longleftrightarrow> is_alnum c \<or> c \<in> set ''_-./:=+,''"

definition shell_char :: "char \<Rightarrow> string" where
  "shell_char c = (if c = SQ then [SQ, BS, SQ, SQ] else [c])"

definition write_shell_arg :: "string \<Rightarrow> string" where
  "write_shell_arg s =
     (if s \<noteq> [] \<and> list_all shell_simple_char s then s
      else SQ # concat (map shell_char s) @ [SQ])"

text \<open>
  A word as a POSIX shell reads it: single quotes keep every character, a backslash outside quotes
  keeps the next one, white space outside quotes ends the word. The flag says whether a quote is open.
\<close>

definition prefixed :: "string \<Rightarrow> (string \<times> string) option \<Rightarrow> (string \<times> string) option" where
  "prefixed w r = (case r of None \<Rightarrow> None | Some (x, rest) \<Rightarrow> Some (w @ x, rest))"

lemma prefixed_simps [simp]: "prefixed [] r = r" "prefixed a (prefixed b r) = prefixed (a @ b) r"
  "prefixed w None = None" "prefixed w (Some (x, rest)) = Some (w @ x, rest)"
  by (simp_all add: prefixed_def split: option.splits)

fun sh_word :: "bool \<Rightarrow> string \<Rightarrow> (string \<times> string) option" where
  "sh_word q [] = (if q then None else Some ([], []))"
| "sh_word q (c # cs) =
     (if q then (if c = SQ then sh_word False cs else prefixed [c] (sh_word True cs))
      else if c = SQ then sh_word True cs
      else if c = BS then (case cs of [] \<Rightarrow> None | d # ds \<Rightarrow> prefixed [d] (sh_word False ds))
      else if is_space c then Some ([], c # cs)
      else prefixed [c] (sh_word False cs))"

lemma sh_word_quoted:
  "sh_word True (concat (map shell_char s) @ SQ # rest) = prefixed s (sh_word False rest)"
  by (induction s) (auto simp: shell_char_def SQ_def BS_def)

lemma shell_simple_char_plain: "shell_simple_char c \<Longrightarrow> c \<noteq> SQ \<and> c \<noteq> BS \<and> \<not> is_space c"
proof (intro conjI notI)
  have "\<not> shell_simple_char SQ" "\<not> shell_simple_char BS" by code_simp+
  then show "shell_simple_char c \<Longrightarrow> c = SQ \<Longrightarrow> False" "shell_simple_char c \<Longrightarrow> c = BS \<Longrightarrow> False" by auto
qed (auto simp: shell_simple_char_def char_class_defs)

lemma sh_word_plain:
  "list_all shell_simple_char s \<Longrightarrow> sh_word False (s @ rest) = prefixed s (sh_word False rest)"
  by (induction s) (auto simp: shell_simple_char_plain)

lemma sh_word_write: "sh_word False (write_shell_arg s @ rest) = prefixed s (sh_word False rest)"
  by (simp add: write_shell_arg_def sh_word_quoted sh_word_plain)

lemma sh_word_space: "is_space c \<Longrightarrow> sh_word False (c # cs) = Some ([], c # cs)"
proof -
  assume c: "is_space c"
  have "c \<noteq> SQ \<and> c \<noteq> BS" using c by (auto simp: char_class_defs SQ_def BS_def)
  then show ?thesis using c by simp
qed

lemma space_NL: "is_space (char_of (10::nat))" and space_blank: "is_space CHR '' ''"
  by code_simp+

interpretation shell_lines: quoting write_shell_arg "sh_word False" "char_of (10::nat)"
proof
  show "sh_word False (write_shell_arg s @ char_of (10::nat) # rest) = Some (s, char_of (10::nat) # rest)" for s rest
    by (simp only: sh_word_write sh_word_space [OF space_NL] prefixed_simps append_Nil2)
  show "sh_word False (write_shell_arg s) = Some (s, [])" for s
    using sh_word_write [of s "[]"] by simp
qed

interpretation shell_words: quoting write_shell_arg "sh_word False" "CHR '' ''"
proof
  show "sh_word False (write_shell_arg s @ CHR '' '' # rest) = Some (s, CHR '' '' # rest)" for s rest
    by (simp only: sh_word_write sh_word_space [OF space_blank] prefixed_simps append_Nil2)
  show "sh_word False (write_shell_arg s) = Some (s, [])" for s
    by (rule shell_lines.word_end)
qed

section \<open>Double quotes of Windows\<close>

text \<open>
  The body between the quotes: \<open>n\<close> backslashes are pending. Before a quote and at the end they are
  doubled, before any other character they stand for themselves.
\<close>

fun windows_body :: "nat \<Rightarrow> string \<Rightarrow> string" where
  "windows_body n [] = replicate (2 * n) BS"
| "windows_body n (c # cs) =
     (if c = BS then windows_body (Suc n) cs
      else if c = DQ then replicate (2 * n) BS @ [BS, DQ] @ windows_body 0 cs
      else replicate n BS @ [c] @ windows_body 0 cs)"

definition write_windows_arg :: "string \<Rightarrow> string" where
  "write_windows_arg s =
     (if s \<noteq> [] \<and> list_all (\<lambda>c. \<not> is_space c \<and> c \<noteq> DQ \<and> c \<noteq> BS) s then s
      else DQ # windows_body 0 s @ [DQ])"

definition windows_arg_needs_quotes :: "string \<Rightarrow> bool" where
  "windows_arg_needs_quotes s \<longleftrightarrow> s = [] \<or> list_ex (\<lambda>c. c = CHR '' '' \<or> [c] = TAB \<or> c = DQ) s"

definition append_windows_quoted_arg :: "string \<Rightarrow> string" where
  "append_windows_quoted_arg s = (if windows_arg_needs_quotes s then DQ # windows_body 0 s @ [DQ] else s)"

text \<open>
  A word by the rules of the Microsoft C run-time: backslashes count only before a quote, where every
  pair stands for one and an odd one makes the quote literal. \<open>delim\<close> says what ends a word outside
  quotes: space and tab on a command line, any white space in a response file.
\<close>

fun win_word :: "(char \<Rightarrow> bool) \<Rightarrow> bool \<Rightarrow> nat \<Rightarrow> string \<Rightarrow> (string \<times> string) option" where
  "win_word delim q n [] = (if q then None else Some (replicate n BS, []))"
| "win_word delim q n (c # cs) =
     (if c = BS then win_word delim q (Suc n) cs
      else if c = DQ then
        (if even n then prefixed (replicate (n div 2) BS) (win_word delim (\<not> q) 0 cs)
         else prefixed (replicate (n div 2) BS @ [DQ]) (win_word delim q 0 cs))
      else if \<not> q \<and> delim c then Some (replicate n BS, c # cs)
      else prefixed (replicate n BS @ [c]) (win_word delim q 0 cs))"

lemma DQ_not_BS [simp]: "DQ \<noteq> BS" "BS \<noteq> DQ"
  by (simp_all add: DQ_def BS_def)

lemma win_word_slashes: "win_word delim q m (replicate n BS @ r) = win_word delim q (m + n) r"
  by (induction n arbitrary: m) auto

lemma win_word_body:
  "win_word delim True 0 (windows_body n s @ DQ # rest) = prefixed (replicate n BS @ s) (win_word delim False 0 rest)"
proof (induction s arbitrary: n)
  case Nil
  then show ?case by (simp add: win_word_slashes)
next
  case (Cons c s)
  show ?case
  proof (cases "c = BS")
    case True
    then show ?thesis using Cons [of "Suc n"] by (simp add: replicate_app_Cons_same)
  next
    case False
    then show ?thesis using Cons [of 0] by (simp add: win_word_slashes)
  qed
qed

lemma win_word_plain:
  "list_all (\<lambda>c. c \<noteq> BS \<and> c \<noteq> DQ \<and> \<not> delim c) s \<Longrightarrow>
   win_word delim False 0 (s @ rest) = prefixed s (win_word delim False 0 rest)"
  by (induction s) auto

text \<open>Backslashes of an unquoted command-line argument are never followed by a quote.\<close>

lemma win_word_unquoted:
  assumes "list_all (\<lambda>c. c \<noteq> DQ \<and> \<not> delim c) s" and "\<not> delim BS"
    and "\<And>n. win_word delim False n rest = Some (replicate n BS, rest)"
  shows "win_word delim False n (s @ rest) = Some (replicate n BS @ s, rest)"
  using assms(1)
proof (induction s arbitrary: n)
  case (Cons c s)
  then show ?case by (simp add: replicate_app_Cons_same)
qed (simp add: assms)

definition line_space :: "char \<Rightarrow> bool" where
  "line_space c \<longleftrightarrow> c = CHR '' '' \<or> [c] = TAB"

lemma line_space_BS: "\<not> line_space BS"
  by code_simp

interpretation windows_lines: quoting write_windows_arg "win_word is_space False 0" "char_of (10::nat)"
proof
  have nl: "win_word is_space False 0 (char_of (10::nat) # rest) = Some ([], char_of (10::nat) # rest)" for rest
    by (simp add: char_class_defs DQ_def BS_def)
  have "win_word is_space False 0 (write_windows_arg s @ rest) = prefixed s (win_word is_space False 0 rest)" for s rest
  proof (cases "s \<noteq> [] \<and> list_all (\<lambda>c. \<not> is_space c \<and> c \<noteq> DQ \<and> c \<noteq> BS) s")
    case True
    then show ?thesis by (simp add: write_windows_arg_def win_word_plain list_all_iff)
  next
    case False
    then have "write_windows_arg s = DQ # windows_body 0 s @ [DQ]" by (auto simp: write_windows_arg_def)
    then show ?thesis using win_word_body [of is_space 0 s rest] by simp
  qed
  note eq = this
  show "win_word is_space False 0 (write_windows_arg s @ char_of (10::nat) # rest) =
      Some (s, char_of (10::nat) # rest)" for s rest
    unfolding eq nl by simp
  show "win_word is_space False 0 (write_windows_arg s) = Some (s, [])" for s
    using eq [of s "[]"] by simp
qed

interpretation windows_words: quoting append_windows_quoted_arg "win_word line_space False 0" "CHR '' ''"
proof
  have "win_word line_space False 0 (append_windows_quoted_arg s @ rest) = Some (s, rest)"
    if rest: "\<And>n. win_word line_space False n rest = Some (replicate n BS, rest)" for s rest
  proof (cases "windows_arg_needs_quotes s")
    case True
    then show ?thesis using win_word_body [of line_space 0 s rest] rest [of 0]
      by (simp add: append_windows_quoted_arg_def)
  next
    case False
    then have "list_all (\<lambda>c. c \<noteq> DQ \<and> \<not> line_space c) s"
      by (auto simp: windows_arg_needs_quotes_def line_space_def list_all_iff list_ex_iff)
    then show ?thesis using win_word_unquoted [OF _ line_space_BS rest, of s 0] False
      by (simp add: append_windows_quoted_arg_def)
  qed
  note eq = this
  have sp: "win_word line_space False n (CHR '' '' # rest) = Some (replicate n BS, CHR '' '' # rest)" for n rest
  proof -
    have "CHR '' '' \<noteq> BS" "CHR '' '' \<noteq> DQ" "line_space CHR '' ''" by code_simp+
    then show ?thesis by simp
  qed
  show "win_word line_space False 0 (append_windows_quoted_arg s @ CHR '' '' # rest) = Some (s, CHR '' '' # rest)"
    for s rest by (rule eq [OF sp])
  show "win_word line_space False 0 (append_windows_quoted_arg s) = Some (s, [])" for s
    using eq [of "[]" s] by simp
qed

text \<open>
  The first word of a command line, the program, by the rules of that run-time: quotes only protect blanks and backslashes
  mean nothing. The other words are read by \<open>win_word\<close>.
\<close>

fun program_word :: "bool \<Rightarrow> string \<Rightarrow> string \<times> string" where
  "program_word q [] = ([], [])"
| "program_word q (c # cs) =
     (if c = DQ then program_word (\<not> q) cs
      else if \<not> q \<and> line_space c then ([], c # cs)
      else (c # fst (program_word q cs), snd (program_word q cs)))"

definition run_time_words :: "nat \<Rightarrow> string \<Rightarrow> string list option" where
  "run_time_words n line = (case program_word False line of
      (p, []) \<Rightarrow> if n = 1 then Some [p] else None
    | (p, _ # rest) \<Rightarrow> map_option (Cons p) (read_words (win_word line_space False 0) (n - 1) rest))"

text \<open>What a path of a program can be: no quote in it and no backslash at its end.\<close>

definition program_name :: "string \<Rightarrow> bool" where
  "program_name p \<longleftrightarrow> DQ \<notin> set p \<and> (p = [] \<or> last p \<noteq> BS)"

lemma windows_body_program:
  "DQ \<notin> set p \<Longrightarrow> (if p = [] then n = 0 else last p \<noteq> BS) \<Longrightarrow> windows_body n p = replicate n BS @ p"
proof (induction p arbitrary: n)
  case (Cons c p)
  show ?case
  proof (cases "c = BS")
    case True
    then have "windows_body (Suc n) p = replicate (Suc n) BS @ p" using Cons by (intro Cons.IH) (auto split: if_splits)
    then show ?thesis using True by (simp add: replicate_app_Cons_same)
  next
    case False
    then have "windows_body 0 p = p" using Cons.IH [of 0] Cons.prems by (auto split: if_splits)
    moreover have "c \<noteq> DQ" using Cons.prems(1) by auto
    ultimately show ?thesis using False by simp
  qed
qed simp

lemma program_word_inside: "DQ \<notin> set p \<Longrightarrow> program_word True (p @ DQ # rest) =
    (p @ fst (program_word False rest), snd (program_word False rest))"
  by (induction p) auto

lemma program_word_plain: "list_all (\<lambda>c. c \<noteq> DQ \<and> \<not> line_space c) p \<Longrightarrow>
    program_word False (p @ rest) = (p @ fst (program_word False rest), snd (program_word False rest))"
  by (induction p) auto

lemma program_word_read:
  assumes "program_name p" "rest = [] \<or> (\<exists>r. rest = CHR '' '' # r)"
  shows "program_word False (append_windows_quoted_arg p @ rest) = (p, rest)"
proof -
  have end_word: "program_word False rest = ([], rest)"
  proof -
    have "CHR '' '' \<noteq> DQ" "line_space (CHR '' '')" by code_simp+
    then show ?thesis using assms(2) by auto
  qed
  show ?thesis
  proof (cases "windows_arg_needs_quotes p")
    case True
    have "windows_body 0 p = p" using assms(1) windows_body_program [of p 0] by (auto simp: program_name_def)
    then show ?thesis using True program_word_inside [of p rest] assms(1)
      by (simp add: append_windows_quoted_arg_def end_word program_name_def)
  next
    case False
    then have "list_all (\<lambda>c. c \<noteq> DQ \<and> \<not> line_space c) p"
      by (auto simp: windows_arg_needs_quotes_def line_space_def list_all_iff list_ex_iff)
    then show ?thesis using False program_word_plain [of p rest]
      by (simp add: append_windows_quoted_arg_def end_word)
  qed
qed

lemma run_time_words_joined:
  assumes "program_name p"
  shows "run_time_words (length (p # xs)) (windows_words.joined (p # xs)) = Some (p # xs)"
proof (cases "xs = []")
  case True
  then show ?thesis using program_word_read [OF assms, of "[]"] by (simp add: run_time_words_def)
next
  case False
  then show ?thesis
    using program_word_read [OF assms, of "CHR '' '' # windows_words.joined xs"] windows_words.read_joined [OF False]
    by (simp add: run_time_words_def windows_words.joined_Cons)
qed

section \<open>JSON strings\<close>

definition hex_digit :: "nat \<Rightarrow> char" where
  "hex_digit n = (if n < 10 then char_of (48 + n) else char_of (87 + n))"

text \<open>\<open>%04x\<close> of a byte.\<close>

definition hex4 :: "nat \<Rightarrow> string" where
  "hex4 n = ''00'' @ [hex_digit (n div 16 mod 16), hex_digit (n mod 16)]"

definition dump_json_char :: "char \<Rightarrow> string" where
  "dump_json_char c =
     (if c = DQ \<or> c = BS then [BS, c]
      else if [c] = NL then [BS, CHR ''n'']
      else if [c] = CR then [BS, CHR ''r'']
      else if [c] = TAB then [BS, CHR ''t'']
      else if byte c < 32 then [BS, CHR ''u''] @ hex4 (byte c)
      else [c])"

definition dump_json_string :: "cstr \<Rightarrow> string" where
  "dump_json_string s = DQ # concat (map dump_json_char (str_or_empty s)) @ [DQ]"

fun json_items :: "string list \<Rightarrow> string" where
  "json_items [] = []"
| "json_items [x] = dump_json_string (Some x)"
| "json_items (x # y # xs) = dump_json_string (Some x) @ CHR '','' # json_items (y # xs)"

definition dump_json_list :: "string list \<Rightarrow> string" where
  "dump_json_list xs = ''['' @ json_items xs @ '']''"

text \<open>
  The literal as a JSON reader takes it: a control character inside the quotes is an error, and of the
  escapes those that are written are read.
\<close>

definition hex_value :: "char \<Rightarrow> nat option" where
  "hex_value c = (if is_digit c then Some (byte c - 48)
     else if 97 \<le> byte c \<and> byte c \<le> 102 then Some (byte c - 87) else None)"

definition json_escape :: "char \<Rightarrow> string option" where
  "json_escape c =
     (if c = DQ \<or> c = BS then Some [c]
      else if c = CHR ''n'' then Some NL
      else if c = CHR ''r'' then Some CR
      else if c = CHR ''t'' then Some TAB
      else None)"

fun json_body :: "string \<Rightarrow> (string \<times> string) option" where
  "json_body [] = None"
| "json_body (c # cs) =
     (if c = DQ then Some ([], cs)
      else if byte c < 32 then None
      else if c \<noteq> BS then prefixed [c] (json_body cs)
      else case cs of
          u # a # b # x # y # ds \<Rightarrow>
            if u = CHR ''u'' then
              (case (hex_value a, hex_value b, hex_value x, hex_value y) of
                 (Some 0, Some 0, Some i, Some j) \<Rightarrow> prefixed [char_of (16 * i + j)] (json_body ds)
               | _ \<Rightarrow> None)
            else (case json_escape u of None \<Rightarrow> None | Some w \<Rightarrow> prefixed w (json_body (a # b # x # y # ds)))
        | u # ds \<Rightarrow> (case json_escape u of None \<Rightarrow> None | Some w \<Rightarrow> prefixed w (json_body ds))
        | [] \<Rightarrow> None)"

definition json_read :: "string \<Rightarrow> (string \<times> string) option" where
  "json_read s = (case s of c # cs \<Rightarrow> if c = DQ then json_body cs else None | [] \<Rightarrow> None)"

lemma json_body_escape:
  assumes "json_escape u = Some w"
  shows "json_body (BS # u # ds) = prefixed w (json_body ds)"
proof -
  have "json_escape CHR ''u'' = None" and bs: "\<not> byte BS < 32" "BS \<noteq> DQ" by code_simp+
  then have u: "u \<noteq> CHR ''u''" using assms by auto
  consider "ds = []" | a where "ds = [a]" | a b where "ds = [a, b]" | a b x where "ds = [a, b, x]"
    | a b x y es where "ds = a # b # x # y # es"
    by (metis neq_Nil_conv)
  then show ?thesis using assms u bs by cases simp_all
qed

lemma hex_value_digit: "n < 16 \<Longrightarrow> hex_value (hex_digit n) = Some n"
  by (auto simp: hex_value_def hex_digit_def char_class_defs)

lemma json_body_hex:
  assumes "byte c < 32"
  shows "json_body (BS # CHR ''u'' # hex4 (byte c) @ ds) = prefixed [c] (json_body ds)"
proof -
  have z: "hex_value CHR ''0'' = Some 0" and bs: "\<not> byte BS < 32" "BS \<noteq> DQ" by code_simp+
  have "char_of (16 * (byte c div 16 mod 16) + byte c mod 16) = c"
    using assms by (simp add: byte_def)
  then show ?thesis
    using z bs hex_value_digit [of "byte c div 16 mod 16"] hex_value_digit [of "byte c mod 16"]
    by (simp add: hex4_def)
qed

lemma json_escape_letters:
  "json_escape CHR ''n'' = Some NL" "json_escape CHR ''r'' = Some CR" "json_escape CHR ''t'' = Some TAB"
  by code_simp+

lemma json_body_char: "json_body (dump_json_char c @ ds) = prefixed [c] (json_body ds)"
proof -
  consider "c = DQ \<or> c = BS" | "[c] = NL" | "[c] = CR" | "[c] = TAB"
    | "c \<notin> {DQ, BS}" "[c] \<notin> {NL, CR, TAB}" "byte c < 32"
    | "c \<notin> {DQ, BS}" "[c] \<notin> {NL, CR, TAB}" "\<not> byte c < 32" by blast
  then show ?thesis
  proof cases
    case 1
    then show ?thesis using json_body_escape [of c "[c]"] by (simp add: dump_json_char_def json_escape_def del: json_body.simps)
  next
    case 2
    then have "c \<notin> {DQ, BS}" by (auto simp: special_chars)
    then show ?thesis using 2 json_body_escape [OF json_escape_letters(1)]
      by (simp add: dump_json_char_def del: json_body.simps)
  next
    case 3
    then have "c \<notin> {DQ, BS}" "[c] \<noteq> NL" by (auto simp: special_chars)
    then show ?thesis using 3 json_body_escape [OF json_escape_letters(2)]
      by (simp add: dump_json_char_def del: json_body.simps)
  next
    case 4
    then have "c \<notin> {DQ, BS}" "[c] \<noteq> NL" "[c] \<noteq> CR" by (auto simp: special_chars)
    then show ?thesis using 4 json_body_escape [OF json_escape_letters(3)]
      by (simp add: dump_json_char_def del: json_body.simps)
  next
    case 5
    then show ?thesis using json_body_hex [of c ds] by (simp add: dump_json_char_def del: json_body.simps)
  next
    case 6
    then show ?thesis by (auto simp: dump_json_char_def)
  qed
qed

lemma json_read_dump: "json_read (dump_json_string s @ rest) = Some (str_or_empty s, rest)"
proof -
  have "json_body (concat (map dump_json_char t) @ DQ # rest) = Some (t, rest)" for t
    by (induction t) (simp_all add: json_body_char del: json_body.simps(2), simp)
  then show ?thesis by (simp add: json_read_def dump_json_string_def)
qed

interpretation json_list: quoting "\<lambda>s. dump_json_string (Some s)" json_read "CHR '',''"
  by unfold_locales (use json_read_dump [of _ "[]"] in \<open>simp_all add: json_read_dump\<close>)

end
