(* ===== verification/QTestRun.thy ===== *)
theory QTestRun
  imports QTokens QQuote QRegistry
begin

text \<open>
  \<^verbatim>\<open>src/test_resources.c\<close>: counted test resources, and the batch that runs tests in parallel. Each test
  goes through setup, body and cleanup, holds its resources from the start to the end of an attempt,
  and may be tried again. The environment (whether a process starts, how and when it ends, whether a
  directory can be made or a log opened) is an argument of each step, so every schedule is covered.
  The state keeps the reports on \<open>out\<close> and the log files written.
\<close>

section \<open>Validation\<close>

definition valid_resource_name :: "cstr \<Rightarrow> bool" where
  "valid_resource_name name \<longleftrightarrow> present name \<and>
     list_all (\<lambda>c. is_alnum c \<or> c \<in> set ''_-.'') (str_or_empty name)"

definition validate_test_resource :: "qstar_test_resource \<Rightarrow> check" where
  "validate_test_resource r =
     (let err = (\<lambda>field. Origin (tres_origin_file r) (tres_origin_line r) field (tres_name r))
      in check_seq
        [reject (\<not> valid_resource_name (Some (tres_name r))) (err ''name'' (''qstar: test resource id '' @
           sq (tres_name r) @ '' must use only letters, digits, '' @ sq ''_'' @ '', '' @ sq ''-'' @ '', or '' @ sq ''.'')),
         reject (tres_capacity r \<le> 0) (err ''capacity'' (''qstar: test resource '' @ sq (tres_name r) @
           '' capacity must be greater than zero''))])"

definition validate_resource_request ::
  "qstar_graph \<Rightarrow> qstar_target \<Rightarrow> qstar_test_resource_request \<Rightarrow> check" where
  "validate_resource_request g t q =
     (case qstar_graph_find_test_resource g (Some (rr_name q)) of
        None \<Rightarrow> Inl (target_err t ''resources'' (''qstar: test '' @ sq (t_label t) @
          '' requests unknown resource '' @ sq (rr_name q)))
      | Some r \<Rightarrow> reject (rr_amount q \<le> 0 \<or> tres_capacity r < rr_amount q)
          (target_err t ''resources'' (''qstar: test '' @ sq (t_label t) @ '' resource '' @ sq (rr_name q) @
            '' request '' @ int_str (rr_amount q) @ '' exceeds capacity '' @ int_str (tres_capacity r))))"

definition validate_target_resources :: "qstar_graph \<Rightarrow> qstar_target \<Rightarrow> check" where
  "validate_target_resources g t =
     (if t_test_resources t = [] then Inr ()
      else check_seq
        [reject (t_kind t \<noteq> ''test'') (target_err t ''resources''
           ''qstar: test resources are only valid on qstar.test targets''),
         check_all (validate_resource_request g t) (t_test_resources t)])"

definition qstar_graph_validate_test_resources :: "qstar_graph \<Rightarrow> check" where
  "qstar_graph_validate_test_resources g = check_seq
     [check_all validate_test_resource (gr_test_resources g), check_all (validate_target_resources g) (gr_targets g)]"

section \<open>Processes\<close>

text \<open>How a process ended, as the POSIX macros take a wait status apart; on Windows always \<open>Exited\<close>.\<close>

datatype process_status = Exited int | Signaled int

definition qstar_platform_process_exited_success :: "process_status \<Rightarrow> bool" where
  "qstar_platform_process_exited_success s \<longleftrightarrow> s = Exited 0"

fun qstar_platform_process_has_exit_code :: "process_status \<Rightarrow> bool" where
  "qstar_platform_process_has_exit_code (Exited _) = True"
| "qstar_platform_process_has_exit_code (Signaled _) = False"

fun qstar_platform_process_status_exit_code :: "process_status \<Rightarrow> int" where
  "qstar_platform_process_status_exit_code (Exited n) = n"
| "qstar_platform_process_status_exit_code (Signaled _) = 0"

fun qstar_platform_process_signal_number :: "process_status \<Rightarrow> int" where
  "qstar_platform_process_signal_number (Signaled n) = n"
| "qstar_platform_process_signal_number (Exited _) = 0"

text \<open>
  The answer to one poll: the process ended, or it did not and ran for so many seconds (with the
  status it has once it is killed), or waiting failed.
\<close>

datatype poll = Ended process_status | Running int process_status | WaitFailed

section \<open>State\<close>

datatype test_phase = TEST_PENDING | TEST_SETUP | TEST_BODY | TEST_CLEANUP | TEST_DONE

record test_run =
  rn_target :: qstar_target
  rn_phase :: test_phase
  rn_running :: bool
  rn_resources_held :: bool
  rn_attempt :: int
  rn_exit_code :: int
  rn_status :: string
  rn_skip_reason :: string
  rn_action_id :: string
  rn_stdout_rel :: string
  rn_stderr_rel :: string
  rn_result_action_id :: string
  rn_result_stdout_rel :: string
  rn_result_stderr_rel :: string
  rn_argv :: "string list"

text \<open>The graph is part of the state for its error slots; \<open>tb_logs\<close> are paths with the text written.\<close>

record test_batch =
  tb_graph :: qstar_graph
  tb_runs :: "test_run list"
  tb_used :: "int list"
  tb_holders :: nat
  tb_done :: nat
  tb_out :: "string list"
  tb_logs :: "(string \<times> string) list"

record test_env =
  te_host :: host_os
  te_mkdir :: "string \<Rightarrow> bool"
  te_open :: "string \<Rightarrow> bool"

definition say :: "string \<Rightarrow> test_batch \<Rightarrow> test_batch" where
  "say line b = b\<lparr>tb_out := tb_out b @ [line]\<rparr>"

definition upd_run :: "nat \<Rightarrow> (test_run \<Rightarrow> test_run) \<Rightarrow> test_batch \<Rightarrow> test_batch" where
  "upd_run i f b = b\<lparr>tb_runs := (tb_runs b)[i := f (tb_runs b ! i)]\<rparr>"

section \<open>Log paths and command lines\<close>

definition full_path :: "host_os \<Rightarrow> qstar_graph \<Rightarrow> string \<Rightarrow> nat \<Rightarrow> string option" where
  "full_path host g rel dstlen =
     (if take 1 rel = ''/'' \<or> host = HostWindows \<and> rel \<noteq> [] \<and> is_alpha (hd rel) \<and> take 1 (tl rel) = '':''
      then put dstlen rel
      else put dstlen (nonempty_or ''.'' (gr_package_root g) @ ''/'' @ rel))"

definition phase_name :: "test_phase \<Rightarrow> string" where
  "phase_name p = (case p of TEST_SETUP \<Rightarrow> ''setup'' | TEST_CLEANUP \<Rightarrow> ''cleanup'' | _ \<Rightarrow> ''test'')"

definition log_name :: "test_run \<Rightarrow> string \<Rightarrow> string option" where
  "log_name r phase =
     (if phase = ''test'' \<and> rn_attempt r = 1
      then put PATH_MAX (qstar_mangle_label (t_label (rn_target r)) PATH_MAX @ ''.test'')
      else Some (qstar_mangle_label (rn_action_id r) PATH_MAX))"

text \<open>
  The path of one stream's log. \<open>snprintf\<close> leaves the cut text in the buffer when it does not fit; the
  flag says whether it did.
\<close>

definition stream_path :: "qstar_graph \<Rightarrow> string \<Rightarrow> string \<Rightarrow> string \<Rightarrow> bool \<times> string" where
  "stream_path g name stream old =
     (let sub = ''logs/'' @ name @ ''.'' @ stream; p = qstar_graph_build_dir g @ ''/'' @ sub
      in if PATH_MAX \<le> length sub then (False, old) else (length p < PATH_MAX, trunc_buf PATH_MAX p))"

definition test_log_paths :: "test_env \<Rightarrow> qstar_graph \<Rightarrow> string \<Rightarrow> test_run \<Rightarrow> test_run \<times> qerr option" where
  "test_log_paths env g phase r0 =
     (let aid = t_label (rn_target r0) @ '':test:'' @ phase @ '':'' @ int_str (rn_attempt r0);
          r = r0\<lparr>rn_action_id := trunc_buf PATH_MAX aid\<rparr>;
          no_dir = (r, Some (Plain ''qstar: could not create test log directory''));
          too_long = Some (Plain ''qstar: test log path is too long'')
      in if PATH_MAX \<le> length aid then (r, Some (Plain ''qstar: test action id is too long''))
         else case log_name r phase of
             None \<Rightarrow> (r, Some (Plain ''qstar: test log name is too long''))
           | Some name \<Rightarrow> (case qstar_graph_build_path g (Some ''logs'') PATH_MAX of
                 None \<Rightarrow> no_dir
               | Some logs \<Rightarrow> (case full_path (te_host env) g logs PATH_MAX of
                     None \<Rightarrow> no_dir
                   | Some full \<Rightarrow>
                       if \<not> te_mkdir env full then no_dir
                       else (let (ok, p) = stream_path g name ''stdout'' (rn_stdout_rel r);
                                 r1 = r\<lparr>rn_stdout_rel := p\<rparr>;
                                 (ok2, p2) = stream_path g name ''stderr'' (rn_stderr_rel r1)
                             in if \<not> ok then (r1, too_long)
                                else (r1\<lparr>rn_stderr_rel := p2\<rparr>, if ok2 then None else too_long)))))"

text \<open>The arguments resolved up to the first error.\<close>

fun make_args :: "host_os \<Rightarrow> qstar_graph \<Rightarrow> string list \<Rightarrow> string list \<Rightarrow> string list \<times> qerr option" where
  "make_args host g [] done = (done, None)"
| "make_args host g (x # xs) done = (case qstar_graph_resolve_command_token host g (Some x) PATH_MAX of
      Inl e \<Rightarrow> (done, Some e) | Inr a \<Rightarrow> make_args host g xs (done @ [a]))"

definition make_argv :: "host_os \<Rightarrow> qstar_graph \<Rightarrow> string list \<Rightarrow> test_run \<Rightarrow> test_run \<times> qerr option" where
  "make_argv host g items r =
     (if items = [] then (r\<lparr>rn_argv := []\<rparr>, Some (Plain ''qstar: test hook command argv is empty''))
      else let (argv, e) = make_args host g items [] in (r\<lparr>rn_argv := argv\<rparr>, e))"

definition numbered_args :: "string list \<Rightarrow> string" where
  "numbered_args xs = concat (map (\<lambda>i. ''argv['' @ nat_str i @ '']='' @ write_shell_arg (xs ! i) @ NL) [0..<length xs])"

definition action_log_text :: "test_run \<Rightarrow> string \<Rightarrow> string \<Rightarrow> string \<Rightarrow> string" where
  "action_log_text r backend exit_text description =
     ''qstar-action-log v2'' @ NL @ ''exit='' @ exit_text @ NL @ ''backend='' @
     (if backend = [] then ''stella'' else backend) @ NL @ ''description='' @ write_shell_arg description @ NL @
     ''envc=0'' @ NL @ ''output_count=0'' @ NL @ ''argc='' @ nat_str (length (rn_argv r)) @ NL @
     numbered_args (rn_argv r) @ ''argv='' @ join_with '' '' (rn_argv r) @ NL @
     ''argv_shell='' @ join_with '' '' (map write_shell_arg (rn_argv r)) @ NL"

definition write_action_log ::
  "test_env \<Rightarrow> string \<Rightarrow> string \<Rightarrow> string \<Rightarrow> nat \<Rightarrow> test_batch \<Rightarrow> test_batch" where
  "write_action_log env backend exit_text description i b =
     (let r = tb_runs b ! i; g = tb_graph b
      in case put PATH_MAX (''logs/'' @ qstar_mangle_label (rn_action_id r) PATH_MAX @ ''.log'') of
          None \<Rightarrow> b
        | Some sub \<Rightarrow> (case qstar_graph_build_path g (Some sub) PATH_MAX of
              None \<Rightarrow> b
            | Some rel \<Rightarrow> (case full_path (te_host env) g rel PATH_MAX of
                  None \<Rightarrow> b
                | Some path \<Rightarrow>
                    if te_open env path
                    then b\<lparr>tb_logs := tb_logs b @ [(path, action_log_text r backend exit_text description)]\<rparr>
                    else b)))"

end
