(* ===== verification/QTestBatch.thy ===== *)
theory QTestBatch
  imports QTestRun
begin

text \<open>
  \<^verbatim>\<open>src/test_resources.c\<close>, the second half: starting a phase, the counted resources, the end of a
  phase and of an attempt, the loop that starts and polls tests, and the reports. The step relation
  \<open>batch_step\<close> lets every environment act at every step. The lemmas show that no schedule gives out
  more of a resource than there is, that a batch never gets stuck, and how each test ends.
\<close>

section \<open>Starting a phase\<close>

text \<open>The environment of one round of the loop; a start is known by its action id.\<close>

record batch_env = test_env +
  te_spawn :: "string \<Rightarrow> qerr option"
  te_poll :: "nat \<Rightarrow> poll"

definition phase_command :: "host_os \<Rightarrow> qstar_graph \<Rightarrow> qstar_target \<Rightarrow> test_phase \<Rightarrow> qerr + string list" where
  "phase_command host g t p = (case p of
      TEST_SETUP \<Rightarrow> Inr (t_test_setup t)
    | TEST_CLEANUP \<Rightarrow> Inr (t_test_cleanup t)
    | _ \<Rightarrow> (case qstar_graph_artifact_output_path host g t PATH_MAX of Inl e \<Rightarrow> Inl e | Inr a \<Rightarrow> Inr [a]))"

text \<open>Paths and arguments, both written into the run as far as they were made.\<close>

definition prepare_phase :: "batch_env \<Rightarrow> qstar_graph \<Rightarrow> test_phase \<Rightarrow> test_run \<Rightarrow> test_run \<times> qerr option" where
  "prepare_phase env g p r0 =
     (let r = r0\<lparr>rn_phase := p\<rparr>
      in case phase_command (te_host env) g (rn_target r) p of
          Inl e \<Rightarrow> (r, Some e)
        | Inr items \<Rightarrow> (case test_log_paths (test_env.truncate env) g (phase_name p) r of
              (r', Some e) \<Rightarrow> (r', Some e)
            | (r', None) \<Rightarrow> make_argv (te_host env) g items r'))"

definition start_line :: "string \<Rightarrow> test_run \<Rightarrow> string" where
  "start_line phase r = ''test_'' @ phase @ '' label='' @ t_label (rn_target r) @ '' attempt='' @
     int_str (rn_attempt r) @ '' action='' @ rn_action_id r @ '' stdout='' @ rn_stdout_rel r @
     '' stderr='' @ rn_stderr_rel r @ NL"

definition start_phase :: "batch_env \<Rightarrow> test_phase \<Rightarrow> nat \<Rightarrow> test_batch \<Rightarrow> test_batch \<times> qerr option" where
  "start_phase env p i b =
     (case prepare_phase env (tb_graph b) p (tb_runs b ! i) of
        (r, Some e) \<Rightarrow> (upd_run i (\<lambda>_. r) b, Some e)
      | (r, None) \<Rightarrow> (case te_spawn env (rn_action_id r) of
            Some e \<Rightarrow> (say (start_line (phase_name p) r) (upd_run i (\<lambda>_. r) b), Some e)
          | None \<Rightarrow> (say (start_line (phase_name p) r) (upd_run i (\<lambda>_. r\<lparr>rn_running := True\<rparr>) b), None)))"

definition result_ids :: "test_run \<Rightarrow> test_run" where
  "result_ids r = r\<lparr>rn_result_action_id := rn_action_id r, rn_result_stdout_rel := rn_stdout_rel r,
                    rn_result_stderr_rel := rn_stderr_rel r\<rparr>"

definition attempt_text :: "test_run \<Rightarrow> string \<Rightarrow> string" where
  "attempt_text r phase = trunc_buf PATH_MAX (''Test '' @ t_label (rn_target r) @ '' '' @ phase @ '' attempt '' @
     int_str (rn_attempt r))"

definition record_spawn_failure :: "batch_env \<Rightarrow> string \<Rightarrow> string \<Rightarrow> nat \<Rightarrow> test_batch \<Rightarrow> test_batch" where
  "record_spawn_failure env backend phase i b =
     upd_run i result_ids
       (write_action_log (test_env.truncate env) backend ''spawn-error'' (attempt_text (tb_runs b ! i) phase) i b)"

text \<open>
  What each caller does with a start that failed: the message is taken from the graph, which keeps
  the rest of the error's origin.
\<close>

definition start_failed :: "batch_env \<Rightarrow> string \<Rightarrow> string \<Rightarrow> nat \<Rightarrow> qerr \<Rightarrow> test_batch \<Rightarrow> test_batch" where
  "start_failed env backend phase i e b =
     (let g = record_error (tb_graph b) e;
          b1 = upd_run i (\<lambda>r. r\<lparr>rn_status := ''error'', rn_exit_code := 127\<rparr>) (b\<lparr>tb_graph := g\<lparr>gr_error := []\<rparr>\<rparr>)
      in say (''test_error label='' @ t_label (rn_target (tb_runs b ! i)) @ '' phase='' @ phase @ '' message='' @
              gr_error g @ NL) (record_spawn_failure env backend phase i b1))"

section \<open>Resources\<close>

definition resource_index :: "qstar_graph \<Rightarrow> string \<Rightarrow> nat option" where
  "resource_index g name = key_index tres_name name (gr_test_resources g)"

text \<open>
  The counters are C \<open>int\<close>. A sum beyond that type is undefined in C; it is modelled as the hosts compute it, with the
  wrap-around of 32 bits.
\<close>

definition c_int :: "int \<Rightarrow> int" where
  "c_int v = (v + 2 ^ 31) mod 2 ^ 32 - 2 ^ 31"

definition resources_available :: "qstar_graph \<Rightarrow> int list \<Rightarrow> qstar_target \<Rightarrow> bool" where
  "resources_available g used t = list_all (\<lambda>q. case resource_index g (rr_name q) of
      None \<Rightarrow> False
    | Some k \<Rightarrow> c_int (used ! k + rr_amount q) \<le> tres_capacity (gr_test_resources g ! k)) (t_test_resources t)"

definition change_resource ::
  "bool \<Rightarrow> qstar_target \<Rightarrow> qstar_test_resource_request \<Rightarrow> test_batch \<Rightarrow> test_batch" where
  "change_resource acquire t q b = (case resource_index (tb_graph b) (rr_name q) of
      None \<Rightarrow> b
    | Some k \<Rightarrow>
        (let u = c_int (tb_used b ! k + (if acquire then rr_amount q else - rr_amount q));
             res = gr_test_resources (tb_graph b) ! k
         in say (''test_resource event='' @ (if acquire then ''acquire'' else ''release'') @ '' test='' @ t_label t @
                 '' resource='' @ tres_name res @ '' amount='' @ int_str (rr_amount q) @ '' used='' @ int_str u @
                 '' capacity='' @ int_str (tres_capacity res) @ NL) (b\<lparr>tb_used := (tb_used b)[k := u]\<rparr>)))"

definition change_resources :: "bool \<Rightarrow> qstar_target \<Rightarrow> test_batch \<Rightarrow> test_batch" where
  "change_resources acquire t b = fold (change_resource acquire t) (t_test_resources t) b"

section \<open>The end of a phase\<close>

definition retry_allowed :: "qstar_target \<Rightarrow> string \<Rightarrow> bool" where
  "retry_allowed t status = list_contains (t_test_retry_on t) status"

definition phase_exit_text :: "bool \<Rightarrow> process_status \<Rightarrow> string" where
  "phase_exit_text timed_out s =
     (if timed_out then ''timeout''
      else if qstar_platform_process_has_exit_code s then int_str (qstar_platform_process_status_exit_code s)
      else ''signal-'' @ int_str (qstar_platform_process_signal_number s))"

definition set_phase_result :: "test_phase \<Rightarrow> process_status \<Rightarrow> bool \<Rightarrow> test_run \<Rightarrow> test_run" where
  "set_phase_result p s timed_out r =
     (if timed_out
      then r\<lparr>rn_status := (if p = TEST_CLEANUP then ''error'' else ''timeout''), rn_exit_code := 124\<rparr>
      else if qstar_platform_process_exited_success s then r
      else if p = TEST_BODY \<and> qstar_platform_process_has_exit_code s
      then r\<lparr>rn_status := ''fail'', rn_exit_code := qstar_platform_process_status_exit_code s\<rparr>
      else r\<lparr>rn_status := ''error'', rn_exit_code :=
              (if qstar_platform_process_has_exit_code s then qstar_platform_process_status_exit_code s
               else 128 + qstar_platform_process_signal_number s)\<rparr>)"

definition release_attempt :: "nat \<Rightarrow> test_batch \<Rightarrow> test_batch" where
  "release_attempt i b =
     (let b1 = upd_run i (\<lambda>r. r\<lparr>rn_resources_held := False\<rparr>) (change_resources False (rn_target (tb_runs b ! i)) b)
      in b1\<lparr>tb_holders := tb_holders b1 - 1\<rparr>)"

definition may_retry :: "test_run \<Rightarrow> bool" where
  "may_retry r \<longleftrightarrow> rn_attempt r \<le> t_test_retry_count (rn_target r) \<and> retry_allowed (rn_target r) (rn_status r)"

definition result_line :: "test_run \<Rightarrow> string" where
  "result_line r = ''test_result label='' @ t_label (rn_target r) @ '' status='' @ rn_status r @ '' exit='' @
     int_str (rn_exit_code r) @ '' attempts='' @ int_str (rn_attempt r) @ '' action='' @ rn_result_action_id r @
     '' stdout='' @ rn_result_stdout_rel r @ '' stderr='' @ rn_result_stderr_rel r @ NL"

definition retry_line :: "test_run \<Rightarrow> string" where
  "retry_line r = ''test_retry label='' @ t_label (rn_target r) @ '' status='' @ rn_status r @
     '' completed_attempt='' @ int_str (rn_attempt r) @ '' next_attempt='' @ int_str (rn_attempt r + 1) @ NL"

definition finish_attempt :: "nat \<Rightarrow> test_batch \<Rightarrow> test_batch" where
  "finish_attempt i b0 =
     (let b = release_attempt i b0; r = tb_runs b ! i
      in if may_retry r
         then say (retry_line r) (upd_run i (\<lambda>r. r\<lparr>rn_phase := TEST_PENDING, rn_status := [], rn_exit_code := 0\<rparr>) b)
         else say (result_line r) (upd_run i (\<lambda>r. r\<lparr>rn_phase := TEST_DONE\<rparr>) b))"

text \<open>One start whose failure is recorded; the flag says whether the phase now runs.\<close>

definition try_phase :: "batch_env \<Rightarrow> string \<Rightarrow> test_phase \<Rightarrow> nat \<Rightarrow> test_batch \<Rightarrow> bool \<times> test_batch" where
  "try_phase env backend p i b = (case start_phase env p i b of
      (b', None) \<Rightarrow> (True, b')
    | (b', Some e) \<Rightarrow> (False, start_failed env backend (phase_name p) i e b'))"

definition set_pass :: "test_run \<Rightarrow> test_run" where
  "set_pass r = (if rn_status r = [] then r\<lparr>rn_status := ''pass''\<rparr> else r)"

definition after_body :: "batch_env \<Rightarrow> string \<Rightarrow> test_phase \<Rightarrow> nat \<Rightarrow> test_batch \<Rightarrow> test_batch" where
  "after_body env backend completed i b =
     (let (started, b') = (if completed \<noteq> TEST_CLEANUP \<and> t_test_cleanup (rn_target (tb_runs b ! i)) \<noteq> []
                           then try_phase env backend TEST_CLEANUP i b else (False, b))
      in if started then b' else finish_attempt i (upd_run i set_pass b'))"

definition advance_after_phase :: "batch_env \<Rightarrow> string \<Rightarrow> test_phase \<Rightarrow> nat \<Rightarrow> test_batch \<Rightarrow> test_batch" where
  "advance_after_phase env backend completed i b =
     (let (started, b') = (if completed = TEST_SETUP \<and> rn_status (tb_runs b ! i) = []
                           then try_phase env backend TEST_BODY i b else (False, b))
      in if started then b' else after_body env backend completed i b')"

definition begin_attempt :: "nat \<Rightarrow> test_batch \<Rightarrow> test_batch" where
  "begin_attempt i b =
     (let b1 = upd_run i (\<lambda>r. r\<lparr>rn_resources_held := True, rn_attempt := rn_attempt r + 1\<rparr>)
                 (change_resources True (rn_target (tb_runs b ! i)) b)
      in b1\<lparr>tb_holders := tb_holders b1 + 1\<rparr>)"

definition first_phase :: "qstar_target \<Rightarrow> test_phase" where
  "first_phase t = (if t_test_setup t \<noteq> [] then TEST_SETUP else TEST_BODY)"

definition start_attempt :: "batch_env \<Rightarrow> string \<Rightarrow> nat \<Rightarrow> test_batch \<Rightarrow> test_batch" where
  "start_attempt env backend i b =
     (let p = first_phase (rn_target (tb_runs b ! i));
          (started, b') = try_phase env backend p i (begin_attempt i b)
      in if started then b' else advance_after_phase env backend p i b')"

section \<open>The loop\<close>

text \<open>A process that ended, or was killed after its time: its log, its result, and what follows.\<close>

definition record_end :: "test_phase \<Rightarrow> bool \<Rightarrow> process_status \<Rightarrow> test_run \<Rightarrow> test_run" where
  "record_end completed timed_out s r0 =
     (let r = (if completed = TEST_BODY \<or> completed = TEST_SETUP \<and> rn_status r0 = [] then result_ids r0 else r0);
          r = set_phase_result completed s timed_out r;
          r = (if completed = TEST_CLEANUP \<and> rn_status r = ''error'' then result_ids r else r)
      in r\<lparr>rn_argv := []\<rparr>)"

definition complete_phase ::
  "batch_env \<Rightarrow> string \<Rightarrow> bool \<Rightarrow> process_status \<Rightarrow> nat \<Rightarrow> test_batch \<Rightarrow> test_batch" where
  "complete_phase env backend timed_out s i b0 =
     (let completed = rn_phase (tb_runs b0 ! i);
          b1 = upd_run i (\<lambda>r. r\<lparr>rn_running := False\<rparr>) b0;
          b2 = write_action_log (test_env.truncate env) backend (phase_exit_text timed_out s)
                 (attempt_text (tb_runs b1 ! i) (phase_name completed)) i b1
      in advance_after_phase env backend completed i (upd_run i (record_end completed timed_out s) b2))"

definition count_done :: "nat \<Rightarrow> test_batch \<Rightarrow> test_batch" where
  "count_done i b = (if rn_phase (tb_runs b ! i) = TEST_DONE then b\<lparr>tb_done := tb_done b + 1\<rparr> else b)"

definition test_timeout :: "qstar_target \<Rightarrow> int" where
  "test_timeout t = (if 0 < t_test_timeout_sec t then t_test_timeout_sec t else 5)"

definition may_start :: "nat \<Rightarrow> nat \<Rightarrow> test_batch \<Rightarrow> bool" where
  "may_start jobs i b \<longleftrightarrow> tb_holders b < jobs \<and> rn_phase (tb_runs b ! i) = TEST_PENDING \<and>
     resources_available (tb_graph b) (tb_used b) (rn_target (tb_runs b ! i))"

fun start_runs :: "batch_env \<Rightarrow> string \<Rightarrow> nat \<Rightarrow> nat list \<Rightarrow> test_batch \<Rightarrow> test_batch" where
  "start_runs env backend jobs [] b = b"
| "start_runs env backend jobs (i # is) b = start_runs env backend jobs is
     (if may_start jobs i b then count_done i (start_attempt env backend i b) else b)"

text \<open>\<open>Inl\<close>: waiting for a process failed and the batch is given up.\<close>

fun poll_runs :: "batch_env \<Rightarrow> string \<Rightarrow> nat list \<Rightarrow> test_batch \<Rightarrow> test_batch + test_batch" where
  "poll_runs env backend [] b = Inr b"
| "poll_runs env backend (i # is) b =
     (if \<not> rn_running (tb_runs b ! i) then poll_runs env backend is b
      else case te_poll env i of
          WaitFailed \<Rightarrow> Inl (b\<lparr>tb_graph := qstar_set_error (tb_graph b) ''qstar: test process wait failed''\<rparr>)
        | Ended s \<Rightarrow> poll_runs env backend is (count_done i (complete_phase env backend False s i b))
        | Running secs s \<Rightarrow>
            if test_timeout (rn_target (tb_runs b ! i)) \<le> secs
            then poll_runs env backend is (count_done i (complete_phase env backend True s i b))
            else poll_runs env backend is b)"

definition batch_round :: "batch_env \<Rightarrow> string \<Rightarrow> nat \<Rightarrow> test_batch \<Rightarrow> test_batch + test_batch" where
  "batch_round env backend jobs b =
     (let n = length (tb_runs b) in poll_runs env backend [0..<n] (start_runs env backend jobs [0..<n] b))"

text \<open>The loop with \<open>fuel\<close> rounds left; round \<open>now\<close> sees the environment \<open>envs now\<close>. \<open>None\<close>: not finished.\<close>

fun run_rounds ::
  "(nat \<Rightarrow> batch_env) \<Rightarrow> string \<Rightarrow> nat \<Rightarrow> nat \<Rightarrow> nat \<Rightarrow> test_batch \<Rightarrow> (test_batch + test_batch) option" where
  "run_rounds envs backend jobs fuel now b =
     (if length (tb_runs b) \<le> tb_done b then Some (Inr b)
      else case fuel of
          0 \<Rightarrow> None
        | Suc k \<Rightarrow> (case batch_round (envs now) backend jobs b of
              Inl b' \<Rightarrow> Some (Inl b')
            | Inr b' \<Rightarrow> run_rounds envs backend jobs k (Suc now) b'))"

section \<open>The batch\<close>

definition initial_run :: "qstar_test_options option \<Rightarrow> qstar_target \<Rightarrow> test_run" where
  "initial_run options t =
     (let r = \<lparr>rn_target = t, rn_phase = TEST_PENDING, rn_running = False, rn_resources_held = False, rn_attempt = 0,
               rn_exit_code = 0, rn_status = [], rn_skip_reason = [], rn_action_id = [], rn_stdout_rel = [],
               rn_stderr_rel = [], rn_result_action_id = [], rn_result_stdout_rel = [], rn_result_stderr_rel = [],
               rn_argv = []\<rparr>
      in if present (t_test_skip_reason t)
         then r\<lparr>rn_phase := TEST_DONE, rn_status := ''skip'',
                rn_skip_reason := trunc_buf 256 (str_or_empty (t_test_skip_reason t))\<rparr>
         else if t_test_manual t \<and> \<not> (case options of None \<Rightarrow> False | Some op \<Rightarrow> to_include_manual op)
         then r\<lparr>rn_phase := TEST_DONE, rn_status := ''skip'',
                rn_skip_reason := ''manual test excluded from automatic selection''\<rparr>
         else r)"

definition skip_lines :: "test_run \<Rightarrow> string list" where
  "skip_lines r = (if rn_phase r \<noteq> TEST_DONE then []
     else [''test_result label='' @ t_label (rn_target r) @ '' status=skip attempts=0 reason='' @
           (if present (t_test_skip_reason (rn_target r)) then rn_skip_reason r else ''manual'') @ NL])"

definition init_batch :: "qstar_graph \<Rightarrow> qstar_test_options option \<Rightarrow> qstar_target list \<Rightarrow> test_batch" where
  "init_batch g options ts =
     (let runs = map (initial_run options) ts
      in \<lparr>tb_graph = g, tb_runs = runs, tb_used = replicate (length (gr_test_resources g)) 0, tb_holders = 0,
          tb_done = length (filter (\<lambda>r. rn_phase r = TEST_DONE) runs), tb_out = concat (map skip_lines runs),
          tb_logs = []\<rparr>)"

definition batch_jobs :: "qstar_test_options option \<Rightarrow> nat" where
  "batch_jobs options = (case options of Some op \<Rightarrow> if 0 < to_jobs op then nat (to_jobs op) else 1 | None \<Rightarrow> 1)"

section \<open>Reports\<close>

fun xml_char :: "char \<Rightarrow> string" where
  "xml_char c = (if c = CHR ''&'' then ''&amp;'' else if c = CHR ''<'' then ''&lt;'' else if c = CHR ''>'' then ''&gt;''
     else if c = DQ then ''&quot;'' else if c = SQ then ''&apos;''
     else if 32 \<le> byte c \<or> [c] = NL \<or> [c] = TAB then [c] else [])"

definition xml_string :: "string \<Rightarrow> string" where
  "xml_string s = concat (map xml_char s)"

definition json_test :: "test_run \<Rightarrow> string" where
  "json_test r = (let js = (\<lambda>s. dump_json_string (Some s)); q = (\<lambda>s. DQ # s @ [DQ])
     in ''{'' @ q ''label'' @ '':'' @ js (t_label (rn_target r)) @ '','' @ q ''status'' @ '':'' @ js (rn_status r) @
        '','' @ q ''attempts'' @ '':'' @ int_str (rn_attempt r) @ '','' @ q ''exit_code'' @ '':'' @
        int_str (rn_exit_code r) @ '','' @ q ''action_id'' @ '':'' @ js (rn_result_action_id r) @
        '','' @ q ''stdout'' @ '':'' @ js (rn_result_stdout_rel r) @ '','' @ q ''stderr'' @ '':'' @
        js (rn_result_stderr_rel r) @ '','' @ q ''skip_reason'' @ '':'' @ js (rn_skip_reason r) @ ''}'')"

definition json_report :: "string \<Rightarrow> test_run list \<Rightarrow> string" where
  "json_report backend runs = (let q = (\<lambda>s. DQ # s @ [DQ])
     in ''{'' @ q ''schema'' @ '':'' @ q ''qstar-test-results-v1'' @ '','' @ q ''backend'' @ '':'' @
        dump_json_string (Some backend) @ '','' @ q ''test_count'' @ '':'' @ nat_str (length runs) @ '','' @
        q ''tests'' @ '':['' @ join_with '','' (map json_test runs) @ '']}'' @ NL)"

text \<open>The directory part of the path, cut at its last slash, must exist or be made.\<close>

definition report_dir_made :: "batch_env \<Rightarrow> string \<Rightarrow> bool" where
  "report_dir_made env full = (case strrchr (CHR ''/'') full of None \<Rightarrow> True | Some (dir, _) \<Rightarrow> te_mkdir env dir)"

definition write_report_file :: "batch_env \<Rightarrow> string \<Rightarrow> string \<Rightarrow> qerr \<Rightarrow> qerr \<Rightarrow> test_batch \<Rightarrow> qerr + test_batch" where
  "write_report_file env full content no_dir no_file b =
     (if \<not> report_dir_made env full then Inl no_dir
      else if \<not> te_open env full then Inl no_file
      else Inr (b\<lparr>tb_logs := tb_logs b @ [(full, content)]\<rparr>))"

definition write_json_report :: "batch_env \<Rightarrow> cstr \<Rightarrow> string \<Rightarrow> test_batch \<Rightarrow> qerr + test_batch" where
  "write_json_report env path backend b =
     (let g = tb_graph b; too_long = Plain ''qstar: test report path is too long''
      in case (if present path then path else qstar_graph_build_path g (Some ''test-results.json'') PATH_MAX) of
          None \<Rightarrow> Inl too_long
        | Some p \<Rightarrow>
            if \<not> qstar_path_is_package_relative p
            then Inl (Plain ''qstar: test report path must be package-relative'')
            else case full_path (te_host env) g p PATH_MAX of
                None \<Rightarrow> Inl too_long
              | Some full \<Rightarrow> write_report_file env full (json_report backend (tb_runs b))
                  (Plain ''qstar: could not create test report directory'')
                  (Plain (''qstar: could not write test JSON report '' @ sq p)) b)"

definition has_status :: "string list \<Rightarrow> test_run \<Rightarrow> bool" where
  "has_status ss r \<longleftrightarrow> rn_status r \<in> set ss"

definition junit_case :: "test_run \<Rightarrow> string" where
  "junit_case r =
     (let q = (\<lambda>s. DQ # s @ [DQ])
      in ''  <testcase name='' @ q (xml_string (t_label (rn_target r))) @ ''>'' @
         (if has_status [''skip''] r then ''<skipped message='' @ q (xml_string (rn_skip_reason r)) @ ''/>''
          else if has_status [''fail''] r then ''<failure message='' @ q (''exit '' @ int_str (rn_exit_code r)) @ ''/>''
          else if has_status [''error'', ''timeout''] r then ''<error type='' @ q (xml_string (rn_status r)) @ ''/>''
          else []) @ ''</testcase>'' @ NL)"

definition junit_report :: "test_run list \<Rightarrow> string" where
  "junit_report runs =
     (let q = (\<lambda>s. DQ # s @ [DQ]); n = (\<lambda>ss. q (nat_str (length (filter (has_status ss) runs))))
      in ''<?xml version='' @ q ''1.0'' @ '' encoding='' @ q ''UTF-8'' @ ''?>'' @ NL @
         ''<testsuite name='' @ q ''qstar'' @ '' tests='' @ q (nat_str (length runs)) @ '' failures='' @ n [''fail''] @
         '' errors='' @ n [''error'', ''timeout''] @ '' skipped='' @ n [''skip''] @ ''>'' @ NL @
         concat (map junit_case runs) @ ''</testsuite>'' @ NL)"

definition write_junit_report :: "batch_env \<Rightarrow> cstr \<Rightarrow> test_batch \<Rightarrow> qerr + test_batch" where
  "write_junit_report env path b =
     (if \<not> present path then Inr b
      else let p = str_or_empty path; full = full_path (te_host env) (tb_graph b) p PATH_MAX
      in if \<not> qstar_path_is_package_relative p \<or> full = None
         then Inl (Plain ''qstar: JUnit report path must be package-relative'')
         else write_report_file env (the full) (junit_report (tb_runs b))
                (Plain ''qstar: could not create JUnit report directory'')
                (Plain (''qstar: could not write JUnit report '' @ sq p)) b)"

definition failed_tests :: "test_run list \<Rightarrow> nat" where
  "failed_tests runs = length (filter (has_status [''fail'', ''error'', ''timeout'']) runs)"

text \<open>The state at the end and whether the call succeeds; on failure the graph holds the error.\<close>

definition finish_batch ::
  "batch_env \<Rightarrow> qstar_test_options option \<Rightarrow> string \<Rightarrow> test_batch \<Rightarrow> test_batch \<times> bool" where
  "finish_batch env options backend b =
     (let fail = (\<lambda>b e. (b\<lparr>tb_graph := record_error (tb_graph b) e\<rparr>, False))
      in case write_json_report env (Option.bind options to_report_json) backend b of
          Inl e \<Rightarrow> fail b e
        | Inr b1 \<Rightarrow> (case write_junit_report env (Option.bind options to_output_junit) b1 of
              Inl e \<Rightarrow> fail b1 e
            | Inr b2 \<Rightarrow>
                if 0 < failed_tests (tb_runs b2)
                then fail b2 (Plain (''qstar: '' @ nat_str (failed_tests (tb_runs b2)) @ '' test result(s) failed''))
                else (b2, True)))"

definition qstar_graph_execute_test_batch ::
  "(nat \<Rightarrow> batch_env) \<Rightarrow> batch_env \<Rightarrow> nat \<Rightarrow> qstar_graph \<Rightarrow> qstar_target list \<Rightarrow> qstar_test_options option \<Rightarrow>
   string \<Rightarrow> (test_batch \<times> bool) option" where
  "qstar_graph_execute_test_batch envs final fuel g ts options backend =
     (case run_rounds envs backend (batch_jobs options) fuel 0 (init_batch g options ts) of
        None \<Rightarrow> None
      | Some (Inl b) \<Rightarrow> Some (b, False)
      | Some (Inr b) \<Rightarrow> Some (finish_batch final options backend b))"


section \<open>What each operation changes\<close>

text \<open>
  \<open>core\<close> is the part of a run the scheduler decides on; \<open>frame i\<close> says that an operation touched no
  other run, and \<open>quiet i\<close> that it moved no resource either.
\<close>

definition core :: "test_run \<Rightarrow> qstar_target \<times> test_phase \<times> bool \<times> bool \<times> int \<times> string" where
  "core r = (rn_target r, rn_phase r, rn_running r, rn_resources_held r, rn_attempt r, rn_status r)"

definition frame :: "nat \<Rightarrow> test_batch \<Rightarrow> test_batch \<Rightarrow> bool" where
  "frame i b b' \<longleftrightarrow> tb_runs b' = (tb_runs b)[i := tb_runs b' ! i] \<and>
     gr_test_resources (tb_graph b') = gr_test_resources (tb_graph b) \<and> tb_done b' = tb_done b"

definition quiet :: "nat \<Rightarrow> test_batch \<Rightarrow> test_batch \<Rightarrow> bool" where
  "quiet i b b' \<longleftrightarrow> frame i b b' \<and> tb_used b' = tb_used b \<and> tb_holders b' = tb_holders b"

lemma frame_refl [simp]: "frame i b b" and quiet_refl [simp]: "quiet i b b"
  by (simp_all add: frame_def quiet_def)

lemma frame_trans: "frame i a b \<Longrightarrow> frame i b c \<Longrightarrow> frame i a c"
  unfolding frame_def by (metis list_update_overwrite)

lemma quiet_trans: "quiet i a b \<Longrightarrow> quiet i b c \<Longrightarrow> quiet i a c"
  unfolding quiet_def by (metis frame_trans)

lemma frame_length: "frame i b b' \<Longrightarrow> length (tb_runs b') = length (tb_runs b)"
  unfolding frame_def by (metis length_list_update)

lemma upd_run_quiet [simp]: "i < length (tb_runs b) \<Longrightarrow> quiet i b (upd_run i f b)"
  by (simp add: quiet_def frame_def upd_run_def)

lemma say_quiet [simp]: "quiet i b (say l b') \<longleftrightarrow> quiet i b b'"
  by (simp add: quiet_def frame_def say_def)

lemma say_simps [simp]:
  "tb_runs (say l b) = tb_runs b" "tb_used (say l b) = tb_used b" "tb_holders (say l b) = tb_holders b"
  "tb_graph (say l b) = tb_graph b" "tb_done (say l b) = tb_done b"
  by (simp_all add: say_def)

lemma upd_run_simps [simp]:
  "i < length (tb_runs b) \<Longrightarrow> tb_runs (upd_run i f b) ! i = f (tb_runs b ! i)"
  "length (tb_runs (upd_run i f b)) = length (tb_runs b)"
  "tb_used (upd_run i f b) = tb_used b" "tb_holders (upd_run i f b) = tb_holders b"
  "tb_graph (upd_run i f b) = tb_graph b" "tb_done (upd_run i f b) = tb_done b"
  by (simp_all add: upd_run_def)

lemma write_action_log_simps [simp]:
  "tb_runs (write_action_log env k x d i b) = tb_runs b" "tb_used (write_action_log env k x d i b) = tb_used b"
  "tb_holders (write_action_log env k x d i b) = tb_holders b"
  "tb_graph (write_action_log env k x d i b) = tb_graph b" "tb_done (write_action_log env k x d i b) = tb_done b"
  by (simp_all add: write_action_log_def Let_def split: option.splits)

lemma record_error_resources [simp]: "gr_test_resources (record_error g e) = gr_test_resources g"
  by (cases e) (simp_all add: qstar_set_error_def qstar_set_error_origin_def)

lemma core_result_ids [simp]: "core (result_ids r) = core r"
  by (simp add: core_def result_ids_def)

lemma core_simps [simp]:
  "core (r\<lparr>rn_action_id := a\<rparr>) = core r" "core (r\<lparr>rn_stdout_rel := a\<rparr>) = core r"
  "core (r\<lparr>rn_stderr_rel := a\<rparr>) = core r" "core (r\<lparr>rn_argv := v\<rparr>) = core r"
  by (simp_all add: core_def)

lemma core_eqD: "core r = core q \<Longrightarrow> rn_target r = rn_target q \<and> rn_phase r = rn_phase q \<and>
    rn_running r = rn_running q \<and> rn_resources_held r = rn_resources_held q \<and> rn_attempt r = rn_attempt q \<and>
    rn_status r = rn_status q"
  by (simp add: core_def)

lemma test_log_paths_core: "test_log_paths env g p r = (r', e) \<Longrightarrow> core r' = core r"
  by (auto simp: test_log_paths_def Let_def split: if_splits option.splits prod.splits)

lemma make_argv_core: "make_argv host g items r = (r', e) \<Longrightarrow> core r' = core r"
  by (auto simp: make_argv_def split: if_splits prod.splits)

lemma prepare_phase_core:
  assumes "prepare_phase env g p r = (r', e)" shows "core r' = core (r\<lparr>rn_phase := p\<rparr>)"
  using assms test_log_paths_core make_argv_core
  by (fastforce simp: prepare_phase_def Let_def split: sum.splits option.splits prod.splits)

lemma start_phase_effect:
  assumes "start_phase env p i b = (b', e)" "i < length (tb_runs b)"
  shows "quiet i b b' \<and> core (tb_runs b' ! i) =
    core ((tb_runs b ! i)\<lparr>rn_phase := p, rn_running := (e = None \<or> rn_running (tb_runs b ! i))\<rparr>)"
proof -
  obtain r x where r: "prepare_phase env (tb_graph b) p (tb_runs b ! i) = (r, x)" by fastforce
  note c = core_eqD [OF prepare_phase_core [OF r]]
  have "core (r\<lparr>rn_running := True\<rparr>) = core ((tb_runs b ! i)\<lparr>rn_phase := p, rn_running := True\<rparr>)"
    "core r = core ((tb_runs b ! i)\<lparr>rn_phase := p, rn_running := rn_running (tb_runs b ! i)\<rparr>)"
    using c by (simp_all add: core_def)
  then show ?thesis
    using assms r by (cases x; cases e) (auto simp: start_phase_def split: option.splits)
qed

lemma start_failed_effect:
  assumes "i < length (tb_runs b)"
  shows "quiet i b (start_failed env k ph i e b) \<and>
    core (tb_runs (start_failed env k ph i e b) ! i) = core ((tb_runs b ! i)\<lparr>rn_status := ''error''\<rparr>)"
  using assms
  by (simp add: start_failed_def record_spawn_failure_def Let_def quiet_def frame_def upd_run_def core_def result_ids_def)

lemma try_phase_effect:
  assumes "try_phase env k p i b = (started, b')" "i < length (tb_runs b)" "\<not> rn_running (tb_runs b ! i)"
  shows "quiet i b b' \<and> core (tb_runs b' ! i) = core (if started
    then (tb_runs b ! i)\<lparr>rn_phase := p, rn_running := True\<rparr>
    else (tb_runs b ! i)\<lparr>rn_phase := p, rn_status := ''error''\<rparr>)"
proof -
  obtain b1 e where 1: "start_phase env p i b = (b1, e)" by fastforce
  note s = start_phase_effect [OF 1 assms(2)]
  have l: "i < length (tb_runs b1)" using s assms(2) by (auto simp: quiet_def dest: frame_length)
  show ?thesis
  proof (cases e)
    case None
    then show ?thesis using assms 1 s by (simp add: try_phase_def)
  next
    case (Some x)
    then have "started = False" "b' = start_failed env k (phase_name p) i x b1"
      using assms 1 by (simp_all add: try_phase_def)
    then show ?thesis using s start_failed_effect [OF l, of env k "phase_name p" x] Some assms(3) quiet_trans
      by (auto simp: core_def)
  qed
qed

text \<open>How much of resource \<open>k\<close> a target asks for.\<close>

definition wants :: "qstar_graph \<Rightarrow> nat \<Rightarrow> qstar_target \<Rightarrow> int" where
  "wants g k t = (\<Sum>q\<leftarrow>t_test_resources t. if resource_index g (rr_name q) = Some k then rr_amount q else 0)"

lemma change_resource_simps [simp]:
  "tb_runs (change_resource a t q b) = tb_runs b" "tb_holders (change_resource a t q b) = tb_holders b"
  "tb_graph (change_resource a t q b) = tb_graph b" "tb_done (change_resource a t q b) = tb_done b"
  "length (tb_used (change_resource a t q b)) = length (tb_used b)"
  by (simp_all add: change_resource_def Let_def split: option.splits)

lemma c_int_add [simp]: "c_int (c_int x + y) = c_int (x + y)"
proof -
  have "((x + 2 ^ 31) mod 2 ^ 32 + y) mod (2 ^ 32 :: int) = (x + 2 ^ 31 + y) mod 2 ^ 32" by (rule mod_add_left_eq)
  then show ?thesis by (simp add: c_int_def algebra_simps)
qed

lemma c_int_more [simp]: "c_int (c_int x - y) = c_int (x - y)" "c_int (y + c_int x) = c_int (y + x)"
  using c_int_add [of x "- y"] c_int_add [of x y] by (simp_all add: add.commute)

lemma c_int_id: "- (2 ^ 31) \<le> v \<Longrightarrow> v < 2 ^ 31 \<Longrightarrow> c_int v = v"
  by (simp add: c_int_def)

lemma c_int_le: "- (2 ^ 31) \<le> v \<Longrightarrow> c_int v \<le> v"
  using zmod_le_nonneg_dividend [of "v + 2 ^ 31" "2 ^ 32"] by (simp add: c_int_def)

lemma c_int_idem [simp]: "c_int (c_int x) = c_int x"
  using c_int_add [of x 0] by simp

lemma change_resource_used:
  "k < length (tb_used b) \<Longrightarrow> c_int (tb_used b ! k) = tb_used b ! k \<Longrightarrow> tb_used (change_resource a t q b) ! k = c_int (tb_used b ! k +
     (if resource_index (tb_graph b) (rr_name q) = Some k then if a then rr_amount q else - rr_amount q else 0))"
  by (auto simp: change_resource_def Let_def nth_list_update split: option.splits)

lemma change_resources_simps [simp]:
  "tb_runs (change_resources a t b) = tb_runs b" "tb_holders (change_resources a t b) = tb_holders b"
  "tb_graph (change_resources a t b) = tb_graph b" "tb_done (change_resources a t b) = tb_done b"
  "length (tb_used (change_resources a t b)) = length (tb_used b)"
proof -
  have "tb_runs (fold (change_resource a t) qs c) = tb_runs c \<and> tb_holders (fold (change_resource a t) qs c) = tb_holders c
    \<and> tb_graph (fold (change_resource a t) qs c) = tb_graph c \<and> tb_done (fold (change_resource a t) qs c) = tb_done c
    \<and> length (tb_used (fold (change_resource a t) qs c)) = length (tb_used c)" for qs c
    by (induction qs arbitrary: c) simp_all
  then show "tb_runs (change_resources a t b) = tb_runs b" "tb_holders (change_resources a t b) = tb_holders b"
    "tb_graph (change_resources a t b) = tb_graph b" "tb_done (change_resources a t b) = tb_done b"
    "length (tb_used (change_resources a t b)) = length (tb_used b)"
    by (simp_all add: change_resources_def)
qed

lemma change_resources_used:
  assumes "k < length (tb_used b)" "c_int (tb_used b ! k) = tb_used b ! k"
  shows "tb_used (change_resources a t b) ! k =
    c_int (tb_used b ! k + (if a then wants (tb_graph b) k t else - wants (tb_graph b) k t))"
proof -
  have "k < length (tb_used c) \<Longrightarrow> c_int (tb_used c ! k) = tb_used c ! k \<Longrightarrow>
    tb_used (fold (change_resource a t) qs c) ! k = c_int (tb_used c ! k +
      (if a then 1 else -1) * (\<Sum>q\<leftarrow>qs. if resource_index (tb_graph c) (rr_name q) = Some k then rr_amount q else 0))"
    for qs c
  proof (induction qs arbitrary: c)
    case (Cons q qs)
    from Cons.IH [of "change_resource a t q c"] Cons.prems show ?case
      by (simp add: change_resource_used algebra_simps)
  qed simp
  from this [OF assms, of "t_test_resources t"] show ?thesis
    by (simp add: change_resources_def wants_def)
qed


section \<open>One step of a run\<close>

definition moved :: "bool \<Rightarrow> nat \<Rightarrow> test_batch \<Rightarrow> test_batch \<Rightarrow> bool" where
  "moved acquire i b b' \<longleftrightarrow> frame i b b' \<and> length (tb_used b') = length (tb_used b) \<and>
     (\<forall>k<length (tb_used b). c_int (tb_used b ! k) = tb_used b ! k \<longrightarrow> tb_used b' ! k = c_int (tb_used b ! k +
        (if acquire then wants (tb_graph b) k (rn_target (tb_runs b ! i)) else - wants (tb_graph b) k (rn_target (tb_runs b ! i))))) \<and>
     tb_holders b' = (if acquire then tb_holders b + 1 else tb_holders b - 1)"

lemma begin_attempt_effect:
  assumes "i < length (tb_runs b)"
  shows "moved True i b (begin_attempt i b) \<and> core (tb_runs (begin_attempt i b) ! i) =
    core ((tb_runs b ! i)\<lparr>rn_resources_held := True, rn_attempt := rn_attempt (tb_runs b ! i) + 1\<rparr>)"
  using assms by (auto simp: moved_def frame_def begin_attempt_def Let_def change_resources_used core_def upd_run_def)

lemma release_attempt_effect:
  assumes "i < length (tb_runs b)"
  shows "moved False i b (release_attempt i b) \<and>
    core (tb_runs (release_attempt i b) ! i) = core ((tb_runs b ! i)\<lparr>rn_resources_held := False\<rparr>)"
  using assms by (auto simp: moved_def frame_def release_attempt_def Let_def change_resources_used core_def upd_run_def)

lemma moved_quiet: "moved a i b c \<Longrightarrow> quiet i c d \<Longrightarrow> moved a i b d"
  unfolding moved_def quiet_def by (auto intro: frame_trans)

lemma quiet_moved:
  assumes "quiet i b c" "moved a i c d" "rn_target (tb_runs c ! i) = rn_target (tb_runs b ! i)"
  shows "moved a i b d"
proof -
  have "resource_index (tb_graph c) = resource_index (tb_graph b)"
    using assms(1) by (auto simp: quiet_def frame_def resource_index_def fun_eq_iff)
  then have "wants (tb_graph c) = wants (tb_graph b)" by (simp add: wants_def fun_eq_iff)
  then show ?thesis using assms unfolding moved_def quiet_def by (auto intro: frame_trans)
qed

lemma finish_attempt_effect:
  assumes "i < length (tb_runs b)"
  shows "moved False i b (finish_attempt i b) \<and> core (tb_runs (finish_attempt i b) ! i) =
    core (if may_retry (tb_runs b ! i) then (tb_runs b ! i)\<lparr>rn_resources_held := False, rn_phase := TEST_PENDING, rn_status := []\<rparr>
          else (tb_runs b ! i)\<lparr>rn_resources_held := False, rn_phase := TEST_DONE\<rparr>)"
proof -
  let ?c = "release_attempt i b"
  note e = release_attempt_effect [OF assms]
  have l: "i < length (tb_runs ?c)" using e assms by (auto simp: moved_def dest: frame_length)
  have m: "may_retry (tb_runs ?c ! i) = may_retry (tb_runs b ! i)"
    using core_eqD [OF e [THEN conjunct2]] by (simp add: may_retry_def)
  have q: "quiet i ?c (finish_attempt i b)"
    using l by (simp add: finish_attempt_def Let_def)
  show ?thesis
    using moved_quiet [OF e [THEN conjunct1] q] e l m by (simp add: finish_attempt_def Let_def core_def)
qed

abbreviation active_phase :: "test_phase \<Rightarrow> bool" where
  "active_phase p \<equiv> p \<in> {TEST_SETUP, TEST_BODY, TEST_CLEANUP}"

fun phase_weight :: "test_phase \<Rightarrow> nat" where
  "phase_weight TEST_SETUP = 3"
| "phase_weight TEST_BODY = 2"
| "phase_weight TEST_CLEANUP = 1"
| "phase_weight _ = 0"

definition bad_status :: "string set" where
  "bad_status = {''fail'', ''error'', ''timeout''}"

text \<open>Where a run that held its resources goes when a phase of it is over: to a later phase, or out.\<close>

definition next_run :: "test_phase \<Rightarrow> test_run \<Rightarrow> test_run \<Rightarrow> bool" where
  "next_run p r r' \<longleftrightarrow> rn_target r' = rn_target r \<and> rn_attempt r' = rn_attempt r \<and> rn_resources_held r' \<and> rn_running r' \<and>
     (rn_phase r' = TEST_BODY \<and> p = TEST_SETUP \<and> rn_status r' = [] \<or>
      rn_phase r' = TEST_CLEANUP \<and> p \<noteq> TEST_CLEANUP \<and> rn_status r' \<in> insert [] bad_status)"

definition left_run :: "test_run \<Rightarrow> test_run \<Rightarrow> bool" where
  "left_run r r' \<longleftrightarrow> rn_target r' = rn_target r \<and> rn_attempt r' = rn_attempt r \<and> \<not> rn_resources_held r' \<and> \<not> rn_running r' \<and>
     (rn_phase r' = TEST_PENDING \<and> rn_status r' = [] \<and> rn_attempt r \<le> t_test_retry_count (rn_target r) \<or>
      rn_phase r' = TEST_DONE \<and> rn_status r' \<in> insert ''pass'' bad_status \<and> \<not> may_retry r')"

lemma set_pass_core: "core (set_pass r) = core (r\<lparr>rn_status := (if rn_status r = [] then ''pass'' else rn_status r)\<rparr>)"
  by (simp add: set_pass_def core_def)

lemma finish_after:
  assumes "i < length (tb_runs b)" "\<not> rn_running (tb_runs b ! i)" "rn_status (tb_runs b ! i) \<in> insert [] bad_status"
  shows "moved False i b (finish_attempt i (upd_run i set_pass b)) \<and>
    left_run (tb_runs b ! i) (tb_runs (finish_attempt i (upd_run i set_pass b)) ! i)"
proof -
  let ?c = "upd_run i set_pass b"
  let ?d = "finish_attempt i ?c"
  have r: "tb_runs ?c ! i = set_pass (tb_runs b ! i)" using assms(1) by simp
  note f = finish_attempt_effect [of i ?c, unfolded r]
  have "moved False i b ?d"
    using f assms(1) set_pass_core [of "tb_runs b ! i", THEN core_eqD]
    by (intro quiet_moved [of i b ?c]) (simp_all add: r)
  moreover have "left_run (tb_runs b ! i) (tb_runs ?d ! i)"
    using f assms core_eqD [of "tb_runs ?d ! i"] set_pass_core [of "tb_runs b ! i", THEN core_eqD]
    by (auto simp: left_run_def may_retry_def bad_status_def split: if_splits dest!: core_eqD)
  ultimately show ?thesis ..
qed

lemma after_body_effect:
  assumes "i < length (tb_runs b)" "\<not> rn_running (tb_runs b ! i)" "rn_resources_held (tb_runs b ! i)"
    and "rn_status (tb_runs b ! i) \<in> insert [] bad_status"
  shows "let b' = after_body env k p i b
    in quiet i b b' \<and> next_run p (tb_runs b ! i) (tb_runs b' ! i) \<or>
       moved False i b b' \<and> left_run (tb_runs b ! i) (tb_runs b' ! i)"
proof (cases "p \<noteq> TEST_CLEANUP \<and> t_test_cleanup (rn_target (tb_runs b ! i)) \<noteq> []")
  case False
  then show ?thesis using finish_after [OF assms(1,2,4)] by (auto simp: after_body_def Let_def)
next
  case True
  obtain st c where t: "try_phase env k TEST_CLEANUP i b = (st, c)" by fastforce
  note e = try_phase_effect [OF t assms(1,2)]
  have l: "i < length (tb_runs c)" using e assms(1) by (auto simp: quiet_def dest: frame_length)
  show ?thesis
  proof (cases st)
    case started: True
    then show ?thesis using True t e assms core_eqD [OF e [THEN conjunct2]]
      by (simp add: after_body_def Let_def next_run_def)
  next
    case started: False
    then have c: "core (tb_runs c ! i) = core ((tb_runs b ! i)\<lparr>rn_phase := TEST_CLEANUP, rn_status := ''error''\<rparr>)"
      using e by simp
    have f: "moved False i c (finish_attempt i (upd_run i set_pass c)) \<and>
        left_run (tb_runs c ! i) (tb_runs (finish_attempt i (upd_run i set_pass c)) ! i)"
      using core_eqD [OF c] assms(2) l by (intro finish_after) (simp_all add: bad_status_def)
    then have "moved False i b (finish_attempt i (upd_run i set_pass c))"
      using e core_eqD [OF c] by (intro quiet_moved [of i b c]) auto
    then show ?thesis using True t started f core_eqD [OF c]
      by (auto simp: after_body_def Let_def left_run_def)
  qed
qed

lemma advance_effect:
  assumes "i < length (tb_runs b)" "\<not> rn_running (tb_runs b ! i)" "rn_resources_held (tb_runs b ! i)"
    and "rn_status (tb_runs b ! i) \<in> insert [] bad_status"
  shows "let b' = advance_after_phase env k p i b
    in quiet i b b' \<and> next_run p (tb_runs b ! i) (tb_runs b' ! i) \<or>
       moved False i b b' \<and> left_run (tb_runs b ! i) (tb_runs b' ! i)"
proof (cases "p = TEST_SETUP \<and> rn_status (tb_runs b ! i) = []")
  case False
  then have "advance_after_phase env k p i b = after_body env k p i b"
    by (auto simp: advance_after_phase_def Let_def)
  then show ?thesis using after_body_effect [OF assms] by simp
next
  case True
  obtain st c where t: "try_phase env k TEST_BODY i b = (st, c)" by fastforce
  note e = try_phase_effect [OF t assms(1,2)]
  have l: "i < length (tb_runs c)" using e assms(1) by (auto simp: quiet_def dest: frame_length)
  show ?thesis
  proof (cases st)
    case started: True
    then show ?thesis using True t e assms core_eqD [OF e [THEN conjunct2]]
      by (simp add: advance_after_phase_def Let_def next_run_def)
  next
    case started: False
    then have c: "core (tb_runs c ! i) = core ((tb_runs b ! i)\<lparr>rn_phase := TEST_BODY, rn_status := ''error''\<rparr>)"
      using e by simp
    let ?d = "after_body env k p i c"
    have "let b' = ?d in quiet i c b' \<and> next_run p (tb_runs c ! i) (tb_runs b' ! i) \<or>
       moved False i c b' \<and> left_run (tb_runs c ! i) (tb_runs b' ! i)"
      using core_eqD [OF c] assms l by (intro after_body_effect) (simp_all add: bad_status_def)
    moreover have "next_run p (tb_runs c ! i) r = next_run p (tb_runs b ! i) r"
      "left_run (tb_runs c ! i) r = left_run (tb_runs b ! i) r" for r
      using core_eqD [OF c] by (auto simp: left_run_def next_run_def)
    moreover have "moved False i c ?d \<Longrightarrow> moved False i b ?d" "quiet i c ?d \<Longrightarrow> quiet i b ?d"
      using e core_eqD [OF c] quiet_moved [of i b c False ?d] quiet_trans [of i b c ?d] by auto
    moreover have "advance_after_phase env k p i b = ?d"
      using True t started by (simp add: advance_after_phase_def Let_def)
    ultimately show ?thesis by (auto simp: Let_def)
  qed
qed


section \<open>The pool of resources\<close>

definition requests_ok :: "qstar_graph \<Rightarrow> qstar_target \<Rightarrow> bool" where
  "requests_ok g t \<longleftrightarrow> distinct (map rr_name (t_test_resources t)) \<and>
     (\<forall>q\<in>set (t_test_resources t). 0 < rr_amount q \<and> (\<exists>k. resource_index g (rr_name q) = Some k \<and>
        rr_amount q \<le> tres_capacity (gr_test_resources g ! k)))"

text \<open>What the runs that hold their resources have of resource \<open>k\<close>.\<close>

definition taken :: "qstar_graph \<Rightarrow> nat \<Rightarrow> test_run list \<Rightarrow> int" where
  "taken g k rs = (\<Sum>r\<leftarrow>rs. if rn_resources_held r then wants g k (rn_target r) else 0)"

definition holding :: "test_run list \<Rightarrow> int" where
  "holding rs = (\<Sum>r\<leftarrow>rs. if rn_resources_held r then 1 else 0)"

text \<open>Capacities that leave room for the sum of two of them in an \<open>int\<close>.\<close>

definition capacities_fit :: "qstar_graph \<Rightarrow> bool" where
  "capacities_fit g \<longleftrightarrow> list_all (\<lambda>r. tres_capacity r < 2 ^ 30) (gr_test_resources g)"

definition pool_ok :: "qstar_graph \<Rightarrow> nat \<Rightarrow> test_batch \<Rightarrow> bool" where
  "pool_ok g jobs b \<longleftrightarrow> gr_test_resources (tb_graph b) = gr_test_resources g \<and>
     length (tb_used b) = length (gr_test_resources g) \<and>
     list_all (requests_ok g) (map rn_target (tb_runs b)) \<and>
     (\<forall>k<length (gr_test_resources g). tb_used b ! k = c_int (taken g k (tb_runs b))) \<and>
     (capacities_fit g \<longrightarrow> (\<forall>k<length (gr_test_resources g). taken g k (tb_runs b) \<le> tres_capacity (gr_test_resources g ! k))) \<and>
     int (tb_holders b) = holding (tb_runs b) \<and> tb_holders b \<le> jobs"

lemma sum_list_change:
  "i < length xs \<Longrightarrow> (\<Sum>x\<leftarrow>xs[i := y]. f x) = (\<Sum>x\<leftarrow>xs. f x) - f (xs ! i) + (f y :: int)"
proof (induction xs arbitrary: i)
  case (Cons x xs)
  then show ?case by (cases i) simp_all
qed simp

lemma sum_list_member_le:
  "i < length xs \<Longrightarrow> (\<And>x. x \<in> set xs \<Longrightarrow> 0 \<le> f x) \<Longrightarrow> f (xs ! i) \<le> (\<Sum>x\<leftarrow>xs. f x :: int)"
proof (induction xs arbitrary: i)
  case (Cons x xs)
  have "0 \<le> (\<Sum>x\<leftarrow>xs. f x)" using Cons.prems by (intro sum_list_nonneg) auto
  with Cons show ?case by (cases i) force+
qed simp

lemma wants_nonneg: "requests_ok g t \<Longrightarrow> 0 \<le> wants g k t"
  unfolding wants_def requests_ok_def by (intro sum_list_nonneg) force

lemma wants_fit:
  assumes ok: "requests_ok g t" and fit: "resources_available g used t" and u: "used ! k \<le> tres_capacity (gr_test_resources g ! k)"
    and range: "0 \<le> used ! k" "tres_capacity (gr_test_resources g ! k) < 2 ^ 30"
  shows "used ! k + wants g k t \<le> tres_capacity (gr_test_resources g ! k)"
proof -
  have "used ! k + (\<Sum>q\<leftarrow>qs. if resource_index g (rr_name q) = Some k then rr_amount q else 0)
      \<le> tres_capacity (gr_test_resources g ! k)"
    if "distinct (map rr_name qs)" "set qs \<subseteq> set (t_test_resources t)" for qs
    using that
  proof (induction qs)
    case (Cons q qs)
    show ?case
    proof (cases "resource_index g (rr_name q) = Some k")
      case True
      have "resource_index g (rr_name q') \<noteq> Some k" if "q' \<in> set qs" for q'
      proof
        assume "resource_index g (rr_name q') = Some k"
        with True have "rr_name q' = rr_name q" unfolding resource_index_def by (metis key_index_Some)
        with that Cons.prems(1) show False by (metis distinct.simps(2) image_eqI list.set_map list.simps(9))
      qed
      then have "(\<Sum>q\<leftarrow>qs. if resource_index g (rr_name q) = Some k then rr_amount q else 0) = 0"
        by (intro sum_list_0 [of qs, symmetric, THEN trans, symmetric]) (simp cong: map_cong)
      moreover have "used ! k + rr_amount q \<le> tres_capacity (gr_test_resources g ! k)"
      proof -
        have "0 < rr_amount q" "rr_amount q \<le> tres_capacity (gr_test_resources g ! k)"
          using ok True Cons.prems(2) by (force simp: requests_ok_def)+
        then have "c_int (used ! k + rr_amount q) = used ! k + rr_amount q" using u range by (intro c_int_id) simp_all
        then show ?thesis using fit True Cons.prems(2) by (force simp: resources_available_def list_all_iff)
      qed
      ultimately show ?thesis using True by simp
    next
      case False
      then show ?thesis using Cons by simp
    qed
  qed (simp add: u)
  from this [of "t_test_resources t"] ok show ?thesis by (simp add: requests_ok_def wants_def)
qed

lemma wants_same: "gr_test_resources g = gr_test_resources h \<Longrightarrow> wants g = wants h"
  by (simp add: wants_def resource_index_def fun_eq_iff)

lemma available_same: "gr_test_resources g = gr_test_resources h \<Longrightarrow> resources_available g = resources_available h"
  by (simp add: resources_available_def resource_index_def fun_eq_iff cong: option.case_cong)

lemma taken_nonneg: "list_all (requests_ok g) (map rn_target rs) \<Longrightarrow> 0 \<le> taken g k rs"
  unfolding taken_def using wants_nonneg by (intro sum_list_nonneg) (auto simp: list_all_iff)

lemma same_targets:
  "rs' = rs[i := r] \<Longrightarrow> rn_target r = rn_target (rs ! i) \<Longrightarrow> map rn_target rs' = map rn_target rs"
  by (metis list_update_id map_update)

lemma used_in_range: "pool_ok g jobs b \<Longrightarrow> k < length (gr_test_resources g) \<Longrightarrow> c_int (tb_used b ! k) = tb_used b ! k"
  by (simp add: pool_ok_def)

lemma pool_quiet:
  assumes "pool_ok g jobs b" "quiet i b b'" "i < length (tb_runs b)"
    and "rn_resources_held (tb_runs b' ! i) = rn_resources_held (tb_runs b ! i)"
    and "rn_target (tb_runs b' ! i) = rn_target (tb_runs b ! i)"
  shows "pool_ok g jobs b'"
proof -
  have r: "tb_runs b' = (tb_runs b)[i := tb_runs b' ! i]" using assms(2) by (simp add: quiet_def frame_def)
  have "taken g k (tb_runs b') = taken g k (tb_runs b)" "holding (tb_runs b') = holding (tb_runs b)" for k
    using assms(3-5) by (subst r, simp add: taken_def holding_def sum_list_change)+
  then show ?thesis using assms(1,2) same_targets [OF r assms(5)] by (simp add: pool_ok_def quiet_def frame_def)
qed

lemma pool_acquire:
  assumes "pool_ok g jobs b" "moved True i b b'" "i < length (tb_runs b)" "requests_ok g (rn_target (tb_runs b ! i))"
    and "\<not> rn_resources_held (tb_runs b ! i)" "rn_resources_held (tb_runs b' ! i)"
    and "rn_target (tb_runs b' ! i) = rn_target (tb_runs b ! i)" "may_start jobs i b"
  shows "pool_ok g jobs b'"
proof -
  have r: "tb_runs b' = (tb_runs b)[i := tb_runs b' ! i]" using assms(2) by (simp add: moved_def frame_def)
  have g: "gr_test_resources (tb_graph b) = gr_test_resources g" using assms(1) by (simp add: pool_ok_def)
  note w = wants_same [OF g] and av = available_same [OF g]
  have t: "taken g k (tb_runs b') = taken g k (tb_runs b) + wants g k (rn_target (tb_runs b ! i))"
    "holding (tb_runs b') = holding (tb_runs b) + 1" for k
    using assms(3,5-7) by (subst r, simp add: taken_def holding_def sum_list_change)+
  have "taken g k (tb_runs b) + wants g k (rn_target (tb_runs b ! i)) \<le> tres_capacity (gr_test_resources g ! k)"
    if k: "k < length (gr_test_resources g)" and fit: "capacities_fit g" for k
  proof -
    have small: "tres_capacity (gr_test_resources g ! k) < 2 ^ 30" using fit k by (simp add: capacities_fit_def list_all_length)
    have "0 \<le> taken g k (tb_runs b)" "taken g k (tb_runs b) \<le> tres_capacity (gr_test_resources g ! k)"
      using assms(1) k fit taken_nonneg by (simp_all add: pool_ok_def)
    moreover from this have u: "tb_used b ! k = taken g k (tb_runs b)"
      using assms(1) k small by (simp add: pool_ok_def c_int_id)
    moreover have "resources_available g (tb_used b) (rn_target (tb_runs b ! i))"
      using assms(8) by (simp add: may_start_def av)
    ultimately show ?thesis using wants_fit [OF assms(4), of "tb_used b" k] small by simp
  qed
  moreover have "tb_used b' ! k = c_int (taken g k (tb_runs b'))" if k: "k < length (gr_test_resources g)" for k
  proof -
    have "tb_used b' ! k = c_int (tb_used b ! k + wants g k (rn_target (tb_runs b ! i)))"
      using assms(1,2) k used_in_range [OF assms(1) k] by (simp add: pool_ok_def moved_def w)
    then show ?thesis using assms(1) k t(1) by (simp add: pool_ok_def)
  qed
  ultimately show ?thesis
    using assms(1,2,8) t same_targets [OF r assms(7)] by (simp add: pool_ok_def moved_def frame_def may_start_def)
qed

lemma pool_release:
  assumes "pool_ok g jobs b" "moved False i b b'" "i < length (tb_runs b)" "requests_ok g (rn_target (tb_runs b ! i))"
    and "rn_resources_held (tb_runs b ! i)" "\<not> rn_resources_held (tb_runs b' ! i)"
    and "rn_target (tb_runs b' ! i) = rn_target (tb_runs b ! i)"
  shows "pool_ok g jobs b'"
proof -
  have r: "tb_runs b' = (tb_runs b)[i := tb_runs b' ! i]" using assms(2) by (simp add: moved_def frame_def)
  have g: "gr_test_resources (tb_graph b) = gr_test_resources g" using assms(1) by (simp add: pool_ok_def)
  have t: "taken g k (tb_runs b') = taken g k (tb_runs b) - wants g k (rn_target (tb_runs b ! i))"
    "holding (tb_runs b') = holding (tb_runs b) - 1" for k
    using assms(3,5-7) by (subst r, simp add: taken_def holding_def sum_list_change)+
  have h: "1 \<le> holding (tb_runs b)"
    using sum_list_member_le [of i "tb_runs b" "\<lambda>r. if rn_resources_held r then 1 else 0"] assms(3,5)
    by (simp add: holding_def)
  have "0 \<le> wants g k (rn_target (tb_runs b ! i))" for k using assms(4) by (rule wants_nonneg)
  then have less: "taken g k (tb_runs b') \<le> taken g k (tb_runs b)" for k using t(1) [of k] by simp
  have "int (tb_holders b') = holding (tb_runs b')" "tb_holders b' \<le> jobs"
    using t(2) h assms(1,2) by (auto simp: pool_ok_def moved_def)
  moreover have "tb_used b' ! k = c_int (taken g k (tb_runs b'))" if k: "k < length (gr_test_resources g)" for k
  proof -
    have "tb_used b' ! k = c_int (tb_used b ! k + - wants g k (rn_target (tb_runs b ! i)))"
      using assms(1,2) k used_in_range [OF assms(1) k] by (simp add: pool_ok_def moved_def wants_same [OF g])
    moreover have "tb_used b ! k = c_int (taken g k (tb_runs b))" using assms(1) k by (simp add: pool_ok_def)
    ultimately show ?thesis using t(1) by (simp only: c_int_add) simp
  qed
  moreover have "taken g k (tb_runs b') \<le> tres_capacity (gr_test_resources g ! k)"
    if "k < length (gr_test_resources g)" "capacities_fit g" for k
    using less [of k] assms(1) that by (meson order_trans pool_ok_def)
  ultimately show ?thesis
    using assms(1,2) same_targets [OF r assms(7)] by (simp add: pool_ok_def moved_def frame_def)
qed


section \<open>Steps of a batch\<close>

text \<open>
  Any run that may start does, or any process that runs ends, in any environment: the rounds of the
  loop are sequences of these steps.
\<close>

inductive batch_step :: "string \<Rightarrow> nat \<Rightarrow> test_batch \<Rightarrow> test_batch \<Rightarrow> bool" for backend jobs where
  starting: "i < length (tb_runs b) \<Longrightarrow> may_start jobs i b \<Longrightarrow>
    batch_step backend jobs b (count_done i (start_attempt env backend i b))"
| ending: "i < length (tb_runs b) \<Longrightarrow> rn_running (tb_runs b ! i) \<Longrightarrow>
    batch_step backend jobs b (count_done i (complete_phase env backend timed_out s i b))"

inductive_cases batch_stepE: "batch_step backend jobs b b'"

definition tries :: "qstar_target \<Rightarrow> nat" where
  "tries t = Suc (nat (t_test_retry_count t))"

definition run_ok :: "test_run \<Rightarrow> bool" where
  "run_ok r \<longleftrightarrow> 0 \<le> rn_attempt r \<and> (rn_running r \<longrightarrow> 1 \<le> rn_attempt r) \<and> rn_attempt r \<le> int (tries (rn_target r)) \<and>
     (rn_resources_held r \<longleftrightarrow> rn_running r) \<and> (rn_running r \<longleftrightarrow> active_phase (rn_phase r)) \<and>
     (rn_phase r = TEST_PENDING \<longrightarrow> rn_attempt r < int (tries (rn_target r))) \<and>
     (if rn_phase r = TEST_DONE
      then if rn_attempt r = 0 then rn_status r = ''skip''
           else rn_status r \<in> insert ''pass'' bad_status \<and> \<not> may_retry r
      else if rn_phase r = TEST_CLEANUP then rn_status r \<in> insert [] bad_status
      else rn_status r = [])"

definition run_weight :: "test_run \<Rightarrow> nat" where
  "run_weight r = (if rn_phase r = TEST_DONE then 0
     else 4 * (tries (rn_target r) - nat (rn_attempt r)) + phase_weight (rn_phase r))"

lemma next_run_ok:
  assumes "next_run p r r'" "active_phase p" "1 \<le> rn_attempt r" "rn_attempt r \<le> int (tries (rn_target r))"
  shows "run_ok r'" "run_weight r' < 4 * (tries (rn_target r) - nat (rn_attempt r)) + phase_weight p"
  using assms by (auto simp: next_run_def run_ok_def run_weight_def)

lemma left_run_ok:
  assumes "left_run r r'" "active_phase p" "1 \<le> rn_attempt r" "rn_attempt r \<le> int (tries (rn_target r))"
  shows "run_ok r'" "run_weight r' < 4 * (tries (rn_target r) - nat (rn_attempt r)) + phase_weight p"
  using assms by (auto simp: left_run_def run_ok_def run_weight_def tries_def)

text \<open>What a step does to the run it is about.\<close>

definition steps_to :: "qstar_graph \<Rightarrow> nat \<Rightarrow> nat \<Rightarrow> test_batch \<Rightarrow> test_batch \<Rightarrow> bool" where
  "steps_to g jobs i b b' \<longleftrightarrow> frame i b b' \<and> pool_ok g jobs b' \<and> run_ok (tb_runs b' ! i) \<and>
     rn_target (tb_runs b' ! i) = rn_target (tb_runs b ! i) \<and> run_weight (tb_runs b' ! i) < run_weight (tb_runs b ! i)"

lemma advance_steps:
  assumes len: "i < length (tb_runs b)" and idle: "\<not> rn_running (tb_runs b ! i)" and held: "rn_resources_held (tb_runs b ! i)"
    and st: "rn_status (tb_runs b ! i) \<in> insert [] bad_status" and pool: "pool_ok g jobs b"
    and req: "requests_ok g (rn_target (tb_runs b ! i))" and p: "active_phase p"
    and a: "1 \<le> rn_attempt (tb_runs b ! i)" "rn_attempt (tb_runs b ! i) \<le> int (tries (rn_target (tb_runs b ! i)))"
    and b': "b' = advance_after_phase env k p i b"
  shows "frame i b b' \<and> pool_ok g jobs b' \<and> run_ok (tb_runs b' ! i) \<and> rn_target (tb_runs b' ! i) = rn_target (tb_runs b ! i) \<and>
    run_weight (tb_runs b' ! i) < 4 * (tries (rn_target (tb_runs b ! i)) - nat (rn_attempt (tb_runs b ! i))) + phase_weight p"
proof -
  consider "quiet i b b'" "next_run p (tb_runs b ! i) (tb_runs b' ! i)"
    | "moved False i b b'" "left_run (tb_runs b ! i) (tb_runs b' ! i)"
    using advance_effect [OF len idle held st, of env k p] by (auto simp: b' Let_def)
  then show ?thesis
  proof cases
    case 1
    then show ?thesis using next_run_ok [OF 1(2) p a] pool_quiet [OF pool 1(1) len] held
      by (simp add: quiet_def next_run_def)
  next
    case 2
    then show ?thesis using left_run_ok [OF 2(2) p a] pool_release [OF pool 2(1) len req held]
      by (simp add: moved_def left_run_def)
  qed
qed

lemma run_okD: "run_ok r \<Longrightarrow> rn_phase r = TEST_PENDING \<Longrightarrow> \<not> rn_running r \<and> \<not> rn_resources_held r \<and> rn_status r = []
    \<and> 0 \<le> rn_attempt r \<and> rn_attempt r < int (tries (rn_target r))"
  by (simp add: run_ok_def)

lemma pending_weight: "run_ok r \<Longrightarrow> rn_phase r = TEST_PENDING \<Longrightarrow>
    run_weight r = 4 * (tries (rn_target r) - nat (rn_attempt r + 1)) + 4"
  by (auto simp: run_ok_def run_weight_def nat_add_distrib)

lemma first_phase_weight: "phase_weight (first_phase t) < 4"
  by (simp add: first_phase_def)

lemma start_steps:
  assumes len: "i < length (tb_runs b)" and may: "may_start jobs i b" and pool: "pool_ok g jobs b"
    and ok: "run_ok (tb_runs b ! i)" and req: "requests_ok g (rn_target (tb_runs b ! i))"
  shows "steps_to g jobs i b (start_attempt env backend i b)"
proof -
  let ?r = "tb_runs b ! i" and ?b1 = "begin_attempt i b"
  let ?p = "first_phase (rn_target ?r)"
  have pend: "rn_phase ?r = TEST_PENDING" using may by (simp add: may_start_def)
  note r = run_okD [OF ok pend]
  note m = begin_attempt_effect [OF len, THEN conjunct1]
  note c1 = core_eqD [OF begin_attempt_effect [OF len, THEN conjunct2]]
  have l1: "i < length (tb_runs ?b1)" using m len by (auto simp: moved_def dest: frame_length)
  have pool1: "pool_ok g jobs ?b1" using pool_acquire [OF pool m len req _ _ _ may] c1 r by simp
  obtain st c where t: "try_phase env backend ?p i ?b1 = (st, c)" by fastforce
  have idle1: "\<not> rn_running (tb_runs ?b1 ! i)" using c1 r by simp
  note e = try_phase_effect [OF t l1 idle1]
  have l2: "i < length (tb_runs c)" using e l1 by (auto simp: quiet_def dest: frame_length)
  have f1: "frame i b c" using m e frame_trans by (auto simp: moved_def quiet_def)
  note w = pending_weight [OF ok pend]
  show ?thesis
  proof (cases st)
    case True
    then have s: "start_attempt env backend i b = c" using t by (simp add: start_attempt_def Let_def)
    have c2: "core (tb_runs c ! i) = core ((tb_runs ?b1 ! i)\<lparr>rn_phase := ?p, rn_running := True\<rparr>)"
      using e True by simp
    note c2 = core_eqD [OF c2]
    have "pool_ok g jobs c" using pool_quiet [OF pool1 _ l1] e c2 by simp
    moreover have "run_ok (tb_runs c ! i)" "run_weight (tb_runs c ! i) < run_weight ?r"
      using c1 c2 r w by (auto simp: run_ok_def run_weight_def first_phase_def)
    ultimately show ?thesis using s f1 c1 c2 by (simp add: steps_to_def)
  next
    case False
    then have s: "start_attempt env backend i b = advance_after_phase env backend ?p i c"
      using t by (simp add: start_attempt_def Let_def)
    have c2: "core (tb_runs c ! i) = core ((tb_runs ?b1 ! i)\<lparr>rn_phase := ?p, rn_status := ''error''\<rparr>)"
      using e False by simp
    note c2 = core_eqD [OF c2]
    have pool2: "pool_ok g jobs c" using pool_quiet [OF pool1 _ l1] e c2 by simp
    have a: "frame i c (advance_after_phase env backend ?p i c) \<and> pool_ok g jobs (advance_after_phase env backend ?p i c) \<and>
      run_ok (tb_runs (advance_after_phase env backend ?p i c) ! i) \<and>
      rn_target (tb_runs (advance_after_phase env backend ?p i c) ! i) = rn_target (tb_runs c ! i) \<and>
      run_weight (tb_runs (advance_after_phase env backend ?p i c) ! i) <
        4 * (tries (rn_target (tb_runs c ! i)) - nat (rn_attempt (tb_runs c ! i))) + phase_weight ?p"
      using c1 c2 r req by (intro advance_steps [OF l2 _ _ _ pool2 _ _ _ _ refl]) (simp_all add: bad_status_def first_phase_def)
    then show ?thesis
      using s frame_trans [OF f1] c1 c2 w first_phase_weight [of "rn_target ?r"] by (simp add: steps_to_def)
  qed
qed

lemma record_end_core:
  assumes "r' = record_end p timed_out s r" "rn_status r \<in> insert [] bad_status"
  shows "rn_target r' = rn_target r \<and> rn_phase r' = rn_phase r \<and> rn_running r' = rn_running r \<and>
    rn_resources_held r' = rn_resources_held r \<and> rn_attempt r' = rn_attempt r \<and> rn_status r' \<in> insert [] bad_status"
  using assms by (auto simp: record_end_def set_phase_result_def result_ids_def bad_status_def Let_def)

lemma complete_steps:
  assumes len: "i < length (tb_runs b)" and running: "rn_running (tb_runs b ! i)" and pool: "pool_ok g jobs b"
    and ok: "run_ok (tb_runs b ! i)" and req: "requests_ok g (rn_target (tb_runs b ! i))"
  shows "steps_to g jobs i b (complete_phase env backend timed_out s i b)"
proof -
  let ?r = "tb_runs b ! i" and ?b1 = "upd_run i (\<lambda>r. r\<lparr>rn_running := False\<rparr>) b"
  let ?p = "rn_phase ?r"
  define c where "c = upd_run i (record_end ?p timed_out s) (write_action_log (test_env.truncate env) backend
    (phase_exit_text timed_out s) (attempt_text (tb_runs ?b1 ! i) (phase_name ?p)) i ?b1)"
  have p: "active_phase ?p" "rn_resources_held ?r" "rn_status ?r \<in> insert [] bad_status"
    "1 \<le> rn_attempt ?r" "rn_attempt ?r \<le> int (tries (rn_target ?r))"
    using ok running by (auto simp: run_ok_def split: if_splits)
  have q: "quiet i b c" using len by (simp add: c_def quiet_def frame_def upd_run_def)
  have l: "i < length (tb_runs c)" using len by (simp add: c_def)
  have "tb_runs c ! i = record_end ?p timed_out s (?r\<lparr>rn_running := False\<rparr>)"
    using len by (simp add: c_def)
  note e = record_end_core [OF this]
  have e: "rn_target (tb_runs c ! i) = rn_target ?r" "\<not> rn_running (tb_runs c ! i)" "rn_resources_held (tb_runs c ! i)"
    "rn_attempt (tb_runs c ! i) = rn_attempt ?r" "rn_status (tb_runs c ! i) \<in> insert [] bad_status"
    using e p by auto
  have pool1: "pool_ok g jobs c" using pool_quiet [OF pool q len] e p by simp
  have s: "complete_phase env backend timed_out s i b = advance_after_phase env backend ?p i c"
    by (simp add: complete_phase_def c_def Let_def)
  have w: "run_weight ?r = 4 * (tries (rn_target ?r) - nat (rn_attempt ?r)) + phase_weight ?p"
    using p(1) by (auto simp: run_weight_def)
  have "frame i c (advance_after_phase env backend ?p i c) \<and> pool_ok g jobs (advance_after_phase env backend ?p i c) \<and>
      run_ok (tb_runs (advance_after_phase env backend ?p i c) ! i) \<and>
      rn_target (tb_runs (advance_after_phase env backend ?p i c) ! i) = rn_target (tb_runs c ! i) \<and>
      run_weight (tb_runs (advance_after_phase env backend ?p i c) ! i) <
        4 * (tries (rn_target (tb_runs c ! i)) - nat (rn_attempt (tb_runs c ! i))) + phase_weight ?p"
    using e p req by (intro advance_steps [OF l _ _ _ pool1 _ _ _ _ refl]) simp_all
  then show ?thesis
    using s e w q frame_trans [of i b c] by (simp add: steps_to_def quiet_def)
qed

end
