(* ===== verification/QTestSchedule.thy ===== *)
theory QTestSchedule
  imports QTestBatch
begin

text \<open>
  The batch of \<^verbatim>\<open>src/test_resources.c\<close> as a whole: the invariant of its steps, that its rounds are
  such steps, that a batch with runs left is never stuck, and that it ends under every environment
  that keeps its clock running.
\<close>

section \<open>The invariant\<close>

definition done_runs :: "test_run list \<Rightarrow> int" where
  "done_runs rs = (\<Sum>r\<leftarrow>rs. if rn_phase r = TEST_DONE then 1 else 0)"

definition batch_ok :: "qstar_graph \<Rightarrow> nat \<Rightarrow> test_batch \<Rightarrow> bool" where
  "batch_ok g jobs b \<longleftrightarrow> pool_ok g jobs b \<and>
     (\<forall>i<length (tb_runs b). run_ok (tb_runs b ! i) \<and> requests_ok g (rn_target (tb_runs b ! i))) \<and>
     int (tb_done b) = done_runs (tb_runs b)"

definition batch_weight :: "test_batch \<Rightarrow> nat" where
  "batch_weight b = sum_list (map run_weight (tb_runs b))"

lemma count_done_simps [simp]: "tb_runs (count_done i b) = tb_runs b" "tb_graph (count_done i b) = tb_graph b"
  "tb_used (count_done i b) = tb_used b" "tb_holders (count_done i b) = tb_holders b"
  by (simp_all add: count_done_def)

lemma pool_tb_done [simp]: "pool_ok g jobs (b\<lparr>tb_done := n\<rparr>) = pool_ok g jobs b"
  by (simp add: pool_ok_def)

lemma pool_count_done [simp]: "pool_ok g jobs (count_done i b) = pool_ok g jobs b"
  by (simp add: pool_ok_def)

lemma steps_to_ok:
  assumes st: "steps_to g jobs i b b'" and ok: "batch_ok g jobs b" and len: "i < length (tb_runs b)"
  shows "batch_ok g jobs (count_done i b')" "batch_weight (count_done i b') < batch_weight b"
    "\<And>j. j \<noteq> i \<Longrightarrow> tb_runs b' ! j = tb_runs b ! j" "length (tb_runs b') = length (tb_runs b)"
    "\<And>j. rn_target (tb_runs b' ! j) = rn_target (tb_runs b ! j)"
proof -
  note st = st [unfolded steps_to_def frame_def]
  have r: "tb_runs b' = (tb_runs b)[i := tb_runs b' ! i]" using st by blast
  show other: "tb_runs b' ! j = tb_runs b ! j" if "j \<noteq> i" for j using that by (subst r) simp
  show l: "length (tb_runs b') = length (tb_runs b)" by (subst r) simp
  show tgt: "rn_target (tb_runs b' ! j) = rn_target (tb_runs b ! j)" for j
    using st other by (cases "j = i") auto
  have w: "run_weight (tb_runs b' ! i) < run_weight (tb_runs b ! i)" using st by blast
  then have "rn_phase (tb_runs b ! i) \<noteq> TEST_DONE" by (auto simp: run_weight_def)
  then have "done_runs (tb_runs b') = done_runs (tb_runs b) + (if rn_phase (tb_runs b' ! i) = TEST_DONE then 1 else 0)"
    using len by (subst r) (simp add: done_runs_def sum_list_change)
  moreover have "run_ok (tb_runs b' ! j) \<and> requests_ok g (rn_target (tb_runs b' ! j))" if "j < length (tb_runs b)" for j
    using st ok other tgt that by (cases "j = i") (simp_all add: batch_ok_def)
  ultimately show "batch_ok g jobs (count_done i b')"
    using st ok l by (simp add: batch_ok_def count_done_def)
  have "run_weight (tb_runs b ! i) \<le> batch_weight b"
    using elem_le_sum_list [of i "map run_weight (tb_runs b)"] len by (simp add: batch_weight_def)
  moreover have "batch_weight b' = batch_weight b + run_weight (tb_runs b' ! i) - run_weight (tb_runs b ! i)"
    using len by (subst batch_weight_def, subst r) (simp add: map_update sum_list_update batch_weight_def)
  ultimately show "batch_weight (count_done i b') < batch_weight b"
    using w by (simp add: batch_weight_def)
qed

lemma starts_ok:
  assumes "batch_ok g jobs b" "i < length (tb_runs b)" "may_start jobs i b"
  shows "steps_to g jobs i b (start_attempt env backend i b)"
  using assms start_steps by (simp add: batch_ok_def)

lemma completes_ok:
  assumes "batch_ok g jobs b" "i < length (tb_runs b)" "rn_running (tb_runs b ! i)"
  shows "steps_to g jobs i b (complete_phase env backend timed_out s i b)"
  using assms complete_steps by (simp add: batch_ok_def)

lemma batch_step_ok:
  assumes "batch_step backend jobs b b'" "batch_ok g jobs b"
  shows "batch_ok g jobs b' \<and> batch_weight b' < batch_weight b \<and> length (tb_runs b') = length (tb_runs b) \<and>
    (\<forall>j. rn_target (tb_runs b' ! j) = rn_target (tb_runs b ! j))"
  using assms(1)
proof cases
  case (starting i env)
  then show ?thesis using steps_to_ok [OF starts_ok [OF assms(2)] assms(2)] by simp
next
  case (ending i env timed_out s)
  then show ?thesis using steps_to_ok [OF completes_ok [OF assms(2)] assms(2)] by simp
qed

lemma batch_steps_ok:
  assumes "(batch_step backend jobs)\<^sup>*\<^sup>* b b'" "batch_ok g jobs b"
  shows "batch_ok g jobs b' \<and> batch_weight b' \<le> batch_weight b \<and> length (tb_runs b') = length (tb_runs b) \<and>
    (\<forall>j. rn_target (tb_runs b' ! j) = rn_target (tb_runs b ! j))"
  using assms
proof (induction rule: rtranclp_induct)
  case (step c d)
  then show ?case using batch_step_ok [of backend jobs c d g] by fastforce
qed simp

section \<open>The first state\<close>

lemma validated_requests:
  assumes v: "qstar_graph_validate_test_resources g = Inr ()" and t: "t \<in> set (gr_targets g)"
    and d: "distinct (map rr_name (t_test_resources t))"
  shows "requests_ok g t"
proof -
  have "passes (qstar_graph_validate_test_resources g)" using v by simp
  then have "passes (validate_target_resources g t)"
    using t by (simp add: qstar_graph_validate_test_resources_def)
  then have q: "passes (validate_resource_request g t q)" if "q \<in> set (t_test_resources t)" for q
    using that by (auto simp: validate_target_resources_def split: if_splits)
  have "0 < rr_amount q \<and> (\<exists>k. resource_index g (rr_name q) = Some k \<and>
      rr_amount q \<le> tres_capacity (gr_test_resources g ! k))" if "q \<in> set (t_test_resources t)" for q
  proof (cases "resource_index g (rr_name q)")
    case None
    then show ?thesis using q [OF that] key_index_None [of tres_name "rr_name q" "gr_test_resources g"]
      by (simp add: validate_resource_request_def qstar_graph_find_test_resource_def resource_index_def)
  next
    case (Some k)
    then show ?thesis using q [OF that] key_index_Some [of tres_name "rr_name q" "gr_test_resources g" k]
      by (simp add: validate_resource_request_def qstar_graph_find_test_resource_def resource_index_def not_le)
  qed
  then show ?thesis using d by (auto simp: requests_ok_def)
qed

lemma capacity_positive:
  assumes "qstar_graph_validate_test_resources g = Inr ()" "k < length (gr_test_resources g)"
  shows "0 < tres_capacity (gr_test_resources g ! k)"
proof -
  have "passes (qstar_graph_validate_test_resources g)" using assms by simp
  then have "passes (validate_test_resource (gr_test_resources g ! k))"
    using assms(2) by (simp add: qstar_graph_validate_test_resources_def)
  then show ?thesis by (simp add: validate_test_resource_def Let_def)
qed

lemma initial_run_simps [simp]:
  "rn_target (initial_run options t) = t" "\<not> rn_resources_held (initial_run options t)"
  "\<not> rn_running (initial_run options t)" "rn_attempt (initial_run options t) = 0" "run_ok (initial_run options t)"
  by (simp_all add: initial_run_def run_ok_def tries_def Let_def)

definition legal_batch :: "qstar_graph \<Rightarrow> qstar_target list \<Rightarrow> bool" where
  "legal_batch g ts \<longleftrightarrow> qstar_graph_validate_test_resources g = Inr () \<and> set ts \<subseteq> set (gr_targets g) \<and>
     list_all (\<lambda>t. distinct (map rr_name (t_test_resources t))) ts"

lemma sum_list_zero: "(\<And>x. x \<in> set xs \<Longrightarrow> f x = 0) \<Longrightarrow> (\<Sum>x\<leftarrow>xs. f x) = (0::int)"
  by (induction xs) simp_all

lemma init_batch_ok:
  assumes "legal_batch g ts"
  shows "batch_ok g jobs (init_batch g options ts)"
proof -
  let ?b = "init_batch g options ts"
  have rs: "tb_runs ?b = map (initial_run options) ts" by (simp add: init_batch_def Let_def)
  have "taken g k (tb_runs ?b) = 0" "holding (tb_runs ?b) = 0" for k
    unfolding rs taken_def holding_def by (intro sum_list_zero, auto)+
  moreover have "requests_ok g t" if "t \<in> set ts" for t
    using assms that by (intro validated_requests) (auto simp: legal_batch_def list_all_iff)
  moreover have "int (length (filter (\<lambda>r. rn_phase r = TEST_DONE) rs)) = done_runs rs" for rs
    by (induction rs) (simp_all add: done_runs_def)
  from this [of "tb_runs ?b"] have "int (tb_done ?b) = done_runs (tb_runs ?b)" by (simp add: init_batch_def Let_def)
  moreover have "0 < tres_capacity (gr_test_resources g ! k)" if "k < length (gr_test_resources g)" for k
    using capacity_positive assms that by (simp add: legal_batch_def)
  moreover have "tb_graph ?b = g" "tb_used ?b = replicate (length (gr_test_resources g)) 0" "tb_holders ?b = 0"
    by (simp_all add: init_batch_def Let_def)
  ultimately show ?thesis
    by (simp add: batch_ok_def pool_ok_def less_imp_le c_int_id list_all_iff) (simp add: rs)
qed

section \<open>Rounds\<close>

lemma start_runs_steps:
  assumes "set js \<subseteq> {..<length (tb_runs b)}" "batch_ok g jobs b"
  shows "(batch_step backend jobs)\<^sup>*\<^sup>* b (start_runs env backend jobs js b)"
  using assms
proof (induction js arbitrary: b)
  case (Cons i js)
  let ?c = "if may_start jobs i b then count_done i (start_attempt env backend i b) else b"
  have s: "(batch_step backend jobs)\<^sup>*\<^sup>* b ?c"
    using Cons.prems by (auto intro!: r_into_rtranclp batch_step.starting)
  then have "batch_ok g jobs ?c" "length (tb_runs ?c) = length (tb_runs b)"
    using batch_steps_ok [OF s Cons.prems(2)] by blast+
  then have "(batch_step backend jobs)\<^sup>*\<^sup>* ?c (start_runs env backend jobs js ?c)"
    using Cons by (intro Cons.IH) auto
  with s show ?case by (simp only: start_runs.simps)
qed simp


lemma start_runs_weight:
  assumes "set js \<subseteq> {..<length (tb_runs b)}" "batch_ok g jobs b"
  shows "start_runs env backend jobs js b = b \<and> (\<forall>i\<in>set js. \<not> may_start jobs i b) \<or>
    batch_weight (start_runs env backend jobs js b) < batch_weight b"
  using assms
proof (induction js)
  case (Cons i js)
  show ?case
  proof (cases "may_start jobs i b")
    case True
    let ?c = "count_done i (start_attempt env backend i b)"
    have s: "batch_step backend jobs b ?c"
      using Cons.prems(1) True by (auto intro: batch_step.starting)
    note c = batch_step_ok [OF s Cons.prems(2)]
    have "(batch_step backend jobs)\<^sup>*\<^sup>* ?c (start_runs env backend jobs js ?c)"
      using Cons.prems(1) c by (intro start_runs_steps) auto
    from batch_steps_ok [OF this] c True show ?thesis by fastforce
  next
    case False
    then show ?thesis using Cons by simp
  qed
qed simp

text \<open>A poll that lets the run go on has seen less than its time.\<close>

fun decisive :: "qstar_target \<Rightarrow> poll \<Rightarrow> bool" where
  "decisive t (Running secs _) \<longleftrightarrow> test_timeout t \<le> secs"
| "decisive t _ \<longleftrightarrow> True"

lemma poll_runs_Cons:
  "poll_runs env backend (i # js) b =
     (if \<not> rn_running (tb_runs b ! i) \<or> \<not> decisive (rn_target (tb_runs b ! i)) (te_poll env i) then poll_runs env backend js b
      else case te_poll env i of
          WaitFailed \<Rightarrow> Inl (b\<lparr>tb_graph := qstar_set_error (tb_graph b) ''qstar: test process wait failed''\<rparr>)
        | Ended s \<Rightarrow> poll_runs env backend js (count_done i (complete_phase env backend False s i b))
        | Running _ s \<Rightarrow> poll_runs env backend js (count_done i (complete_phase env backend True s i b)))"
  by (simp split: poll.split)

lemma poll_runs_steps:
  assumes "set js \<subseteq> {..<length (tb_runs b)}" "batch_ok g jobs b" "poll_runs env backend js b = Inr b'"
  shows "(batch_step backend jobs)\<^sup>*\<^sup>* b b' \<and>
    (b' = b \<and> (\<forall>i\<in>set js. rn_running (tb_runs b ! i) \<longrightarrow> \<not> decisive (rn_target (tb_runs b ! i)) (te_poll env i)) \<or>
     batch_weight b' < batch_weight b)"
  using assms
proof (induction js arbitrary: b)
  case (Cons i js)
  show ?case
  proof (cases "rn_running (tb_runs b ! i) \<and> decisive (rn_target (tb_runs b ! i)) (te_poll env i)")
    case False
    then have "poll_runs env backend js b = Inr b'" using Cons.prems(3) by (auto simp only: poll_runs_Cons split: if_splits)
    then show ?thesis using Cons.IH [of b] Cons.prems(1,2) False by auto
  next
    case True
    then obtain timed_out s where
      p: "poll_runs env backend js (count_done i (complete_phase env backend timed_out s i b)) = Inr b'"
      using Cons.prems(3) by (auto simp only: poll_runs_Cons split: if_splits poll.splits)
    let ?c = "count_done i (complete_phase env backend timed_out s i b)"
    have st: "batch_step backend jobs b ?c"
      using Cons.prems(1) True by (auto intro: batch_step.ending)
    note c = batch_step_ok [OF st Cons.prems(2)]
    have "(batch_step backend jobs)\<^sup>*\<^sup>* ?c b' \<and> batch_weight b' \<le> batch_weight ?c"
      using Cons.IH [OF _ _ p] Cons.prems(1) c by auto
    then show ?thesis using c st by (meson converse_rtranclp_into_rtranclp le_less_trans)
  qed
qed simp

lemma round_steps:
  assumes ok: "batch_ok g jobs b" and r: "batch_round env backend jobs b = Inr b'"
  shows "(batch_step backend jobs)\<^sup>*\<^sup>* b b'"
    and "batch_weight b' < batch_weight b \<or> b' = b \<and> (\<forall>i<length (tb_runs b). \<not> may_start jobs i b \<and>
      (rn_running (tb_runs b ! i) \<longrightarrow> \<not> decisive (rn_target (tb_runs b ! i)) (te_poll env i)))"
proof -
  let ?n = "length (tb_runs b)"
  let ?c = "start_runs env backend jobs [0..<?n] b"
  have s: "(batch_step backend jobs)\<^sup>*\<^sup>* b ?c" by (rule start_runs_steps [OF _ ok]) auto
  note c = batch_steps_ok [OF s ok]
  have p: "poll_runs env backend [0..<?n] ?c = Inr b'" using r by (simp add: batch_round_def Let_def)
  have n: "set [0..<?n] \<subseteq> {..<length (tb_runs ?c)}" using c by auto
  note ps = poll_runs_steps [OF n c [THEN conjunct1] p]
  have m: "set [0..<?n] \<subseteq> {..<?n}" by auto
  note w = start_runs_weight [OF m ok, of env backend]
  show "(batch_step backend jobs)\<^sup>*\<^sup>* b b'" using s ps by auto
  show "batch_weight b' < batch_weight b \<or> b' = b \<and> (\<forall>i<length (tb_runs b). \<not> may_start jobs i b \<and>
      (rn_running (tb_runs b ! i) \<longrightarrow> \<not> decisive (rn_target (tb_runs b ! i)) (te_poll env i)))"
    using w ps c by (simp only: atLeast_upt [symmetric] lessThan_iff) (elim disjE conjE, simp_all)
qed

section \<open>No deadlock, and the end\<close>

lemma all_done: "\<forall>r\<in>set rs. rn_phase r = TEST_DONE \<Longrightarrow> done_runs rs = int (length rs)"
  by (induction rs) (simp_all add: done_runs_def)

lemma someone_may_start:
  assumes ok: "batch_ok g jobs b" and j: "0 < jobs" and left: "tb_done b < length (tb_runs b)"
    and idle: "\<And>i. i < length (tb_runs b) \<Longrightarrow> \<not> rn_running (tb_runs b ! i)"
  shows "\<exists>i<length (tb_runs b). may_start jobs i b"
proof -
  have run: "run_ok (tb_runs b ! i)" "requests_ok g (rn_target (tb_runs b ! i))" if "i < length (tb_runs b)" for i
    using ok that by (simp_all add: batch_ok_def)
  have "\<exists>i<length (tb_runs b). rn_phase (tb_runs b ! i) \<noteq> TEST_DONE"
  proof (rule ccontr)
    assume "\<not> ?thesis"
    then have "\<forall>r\<in>set (tb_runs b). rn_phase r = TEST_DONE" by (auto simp: in_set_conv_nth)
    then have "done_runs (tb_runs b) = int (length (tb_runs b))" by (rule all_done)
    with ok left show False by (simp add: batch_ok_def)
  qed
  then obtain i where i: "i < length (tb_runs b)" "rn_phase (tb_runs b ! i) \<noteq> TEST_DONE" by blast
  then have pend: "rn_phase (tb_runs b ! i) = TEST_PENDING"
    using run(1) [OF i(1)] idle [OF i(1)] by (cases "rn_phase (tb_runs b ! i)") (simp_all add: run_ok_def)
  have "\<not> rn_resources_held r" if "r \<in> set (tb_runs b)" for r
    using that run(1) idle by (auto simp: in_set_conv_nth run_ok_def)
  then have z: "taken g k (tb_runs b) = 0" "holding (tb_runs b) = 0" for k
    unfolding taken_def holding_def by (intro sum_list_zero, simp)+
  have g: "gr_test_resources (tb_graph b) = gr_test_resources g" using ok by (simp add: batch_ok_def pool_ok_def)
  have u: "tb_used b ! k = 0" if "k < length (gr_test_resources g)" for k
    using z(1) [of k] ok that by (simp add: batch_ok_def pool_ok_def c_int_id)
  have "resources_available g (tb_used b) (rn_target (tb_runs b ! i))"
    unfolding resources_available_def list_all_iff
  proof
    fix q assume "q \<in> set (t_test_resources (rn_target (tb_runs b ! i)))"
    then obtain k where k: "resource_index g (rr_name q) = Some k" "rr_amount q \<le> tres_capacity (gr_test_resources g ! k)"
      "0 < rr_amount q"
      using run(2) [OF i(1)] by (auto simp: requests_ok_def)
    then have "k < length (gr_test_resources g)" unfolding resource_index_def by (metis key_index_Some)
    moreover have "c_int (rr_amount q) \<le> rr_amount q" using k(3) by (intro c_int_le) simp
    ultimately show "case resource_index g (rr_name q) of None \<Rightarrow> False
        | Some k \<Rightarrow> c_int (tb_used b ! k + rr_amount q) \<le> tres_capacity (gr_test_resources g ! k)"
      using k u by simp
  qed
  then have "may_start jobs i b"
    using pend j z(2) ok by (simp add: may_start_def available_same [OF g] batch_ok_def pool_ok_def)
  with i(1) show ?thesis by blast
qed

text \<open>
  The clock: whenever one looks, a later round has every process of a run of this target ended, or
  beyond its time, or lost.
\<close>

definition clock_runs :: "(nat \<Rightarrow> batch_env) \<Rightarrow> qstar_target list \<Rightarrow> bool" where
  "clock_runs envs ts \<longleftrightarrow> (\<forall>i<length ts. \<forall>now. \<exists>m\<ge>now. decisive (ts ! i) (te_poll (envs m) i))"

definition rounds_end :: "(nat \<Rightarrow> batch_env) \<Rightarrow> string \<Rightarrow> nat \<Rightarrow> nat \<Rightarrow> test_batch \<Rightarrow> bool" where
  "rounds_end envs backend jobs now b \<longleftrightarrow> (\<exists>fuel. run_rounds envs backend jobs fuel now b \<noteq> None)"

lemma rounds_end_now: "length (tb_runs b) \<le> tb_done b \<Longrightarrow> rounds_end envs backend jobs now b"
  unfolding rounds_end_def by (rule exI [of _ 0]) simp

lemma rounds_end_later:
  assumes "\<And>b'. batch_round (envs now) backend jobs b = Inr b' \<Longrightarrow> rounds_end envs backend jobs (Suc now) b'"
  shows "rounds_end envs backend jobs now b"
proof (cases "batch_round (envs now) backend jobs b")
  case (Inl c)
  then show ?thesis unfolding rounds_end_def by (intro exI [of _ 1]) simp
next
  case (Inr c)
  obtain fuel where "run_rounds envs backend jobs fuel (Suc now) c \<noteq> None"
    using assms [OF Inr] by (auto simp: rounds_end_def)
  then show ?thesis unfolding rounds_end_def using Inr
    by (intro exI [of _ "Suc fuel"]) (subst run_rounds.simps, simp del: run_rounds.simps)
qed

lemma batch_ends:
  assumes "batch_ok g jobs b" "0 < jobs" "clock_runs envs (map rn_target (tb_runs b))"
  shows "rounds_end envs backend jobs now b"
  using assms
proof (induction "batch_weight b" arbitrary: b now rule: less_induct)
  case less
  have lighter: "rounds_end envs backend jobs n c"
    if "(batch_step backend jobs)\<^sup>*\<^sup>* b c" "batch_weight c < batch_weight b" for c n
  proof -
    note c = batch_steps_ok [OF that(1) less.prems(1)]
    then have "map rn_target (tb_runs c) = map rn_target (tb_runs b)" by (auto intro: nth_equalityI)
    then show ?thesis using less.hyps [OF that(2)] c less.prems by simp
  qed
  have unless_same: "rounds_end envs backend jobs n b"
    if "\<forall>i<length (tb_runs b). \<not> may_start jobs i b \<and>
        (rn_running (tb_runs b ! i) \<longrightarrow> \<not> decisive (rn_target (tb_runs b ! i)) (te_poll (envs n) i)) \<Longrightarrow>
        rounds_end envs backend jobs (Suc n) b" for n
  proof (rule rounds_end_later)
    fix b' assume r: "batch_round (envs n) backend jobs b = Inr b'"
    show "rounds_end envs backend jobs (Suc n) b'"
      by (rule disjE [OF round_steps(2) [OF less.prems(1) r]])
        (use lighter [OF round_steps(1) [OF less.prems(1) r], of "Suc n"] that in simp_all)
  qed
  show ?case
  proof (cases "length (tb_runs b) \<le> tb_done b")
    case True
    then show ?thesis by (rule rounds_end_now)
  next
    case left: False
    show ?thesis
    proof (cases "\<exists>i<length (tb_runs b). may_start jobs i b")
      case True
      show ?thesis by (rule unless_same) (use True in blast)
    next
      case False
      then obtain i where i: "i < length (tb_runs b)" "rn_running (tb_runs b ! i)"
        using someone_may_start [OF less.prems(1,2)] left by (meson not_le)
      then obtain m where m: "now \<le> m" "decisive (rn_target (tb_runs b ! i)) (te_poll (envs m) i)"
        using less.prems(3) unfolding clock_runs_def by fastforce
      show ?thesis
        using m(1)
      proof (induction now rule: inc_induct)
        case base
        show ?case by (rule unless_same) (use i m(2) in blast)
      next
        case (step n)
        show ?case using step.IH by (rule unless_same)
      qed
    qed
  qed
qed


lemma run_rounds_Inr:
  assumes "run_rounds envs backend jobs fuel now b = Some (Inr b')" "batch_ok g jobs b"
  shows "(batch_step backend jobs)\<^sup>*\<^sup>* b b' \<and> length (tb_runs b') \<le> tb_done b'"
  using assms
proof (induction fuel arbitrary: now b)
  case (Suc fuel)
  show ?case
  proof (cases "length (tb_runs b) \<le> tb_done b")
    case False
    then obtain c where c: "batch_round (envs now) backend jobs b = Inr c"
      "run_rounds envs backend jobs fuel (Suc now) c = Some (Inr b')"
      using Suc.prems(1) by (subst (asm) run_rounds.simps) (auto simp del: run_rounds.simps split: sum.splits)
    note st = round_steps(1) [OF Suc.prems(2) c(1)]
    from Suc.IH [OF c(2)] batch_steps_ok [OF st Suc.prems(2)] st show ?thesis by auto
  qed (use Suc.prems(1) in simp)
qed (simp split: if_splits)

lemma poll_runs_Inl: "poll_runs env backend js b = Inl b' \<Longrightarrow> \<exists>i. te_poll env i = WaitFailed"
  by (induction js arbitrary: b) (auto split: if_splits poll.splits)

lemma run_rounds_Inl:
  "run_rounds envs backend jobs fuel now b = Some (Inl b') \<Longrightarrow> \<exists>n i. te_poll (envs n) i = WaitFailed"
proof (induction fuel arbitrary: now b)
  case (Suc fuel)
  then have "\<not> length (tb_runs b) \<le> tb_done b" by auto
  then consider "batch_round (envs now) backend jobs b = Inl b'"
    | c where "run_rounds envs backend jobs fuel (Suc now) c = Some (Inl b')"
    using Suc.prems by (subst (asm) run_rounds.simps) (auto simp del: run_rounds.simps split: sum.splits)
  then show ?case
  proof cases
    case 1
    then obtain i where "te_poll (envs now) i = WaitFailed"
      unfolding batch_round_def Let_def using poll_runs_Inl by blast
    then show ?thesis by blast
  next
    case 2
    then show ?thesis by (rule Suc.IH)
  qed
qed (simp split: if_splits)

lemma done_runs_le: "done_runs rs \<le> int (length rs)"
  by (induction rs) (simp_all add: done_runs_def)

lemma done_runs_all: "int (length rs) \<le> done_runs rs \<Longrightarrow> r \<in> set rs \<Longrightarrow> rn_phase r = TEST_DONE"
proof (induction rs)
  case (Cons x rs)
  then show ?case using done_runs_le [of rs] by (auto simp: done_runs_def split: if_splits)
qed simp

lemma write_report_file_runs: "write_report_file env full content e1 e2 b = Inr b' \<Longrightarrow> tb_runs b' = tb_runs b"
  by (auto simp: write_report_file_def split: if_splits)

lemma write_json_report_runs: "write_json_report env path backend b = Inr b' \<Longrightarrow> tb_runs b' = tb_runs b"
  unfolding write_json_report_def Let_def by (auto split: if_splits option.splits dest: write_report_file_runs)

lemma write_junit_report_runs: "write_junit_report env path b = Inr b' \<Longrightarrow> tb_runs b' = tb_runs b"
  unfolding write_junit_report_def Let_def by (auto split: if_splits dest: write_report_file_runs)

lemma finish_batch_runs: "tb_runs (fst (finish_batch env options backend b)) = tb_runs b"
proof (cases "write_json_report env (Option.bind options to_report_json) backend b")
  case (Inr b1)
  then show ?thesis using write_json_report_runs [OF Inr]
    by (cases "write_junit_report env (Option.bind options to_output_junit) b1")
      (auto simp: finish_batch_def Let_def dest: write_junit_report_runs)
qed (simp add: finish_batch_def Let_def)

lemma finish_batch_good:
  "snd (finish_batch env options backend b) \<Longrightarrow> r \<in> set (tb_runs b) \<Longrightarrow> rn_status r \<notin> bad_status"
proof -
  assume s: "snd (finish_batch env options backend b)" and r: "r \<in> set (tb_runs b)"
  have "failed_tests (tb_runs (fst (finish_batch env options backend b))) = 0"
    using s by (auto simp: finish_batch_def Let_def split: sum.splits if_splits)
  then show ?thesis
    using r by (auto simp: finish_batch_runs failed_tests_def has_status_def bad_status_def filter_empty_conv)
qed

lemma batch_jobs_positive: "0 < batch_jobs options"
  by (simp add: batch_jobs_def split: option.splits)

lemma reachable_ok:
  assumes "legal_batch g ts" "(batch_step backend jobs)\<^sup>*\<^sup>* (init_batch g options ts) b"
  shows "batch_ok g jobs b"
  using batch_steps_ok [OF assms(2) init_batch_ok [OF assms(1)]] by blast

section \<open>An example\<close>

text \<open>One licence, two tests that need it; the first is tried again when it fails.\<close>

definition demo_test :: "string \<Rightarrow> int \<Rightarrow> qstar_target" where
  "demo_test name retries = zero_qstar_target\<lparr>t_label := ''//:'' @ name, t_name := name, t_kind := ''test'',
     t_test_resources := [\<lparr>rr_name = ''gpu'', rr_amount = 1\<rparr>], t_test_retry_count := retries,
     t_test_retry_on := [''fail''], t_test_setup := [''prepare''], t_test_cleanup := [''tidy'']\<rparr>"

definition demo_resource_graph :: qstar_graph where
  "demo_resource_graph = zero_qstar_graph
     \<lparr>gr_test_resources := [zero_qstar_test_resource\<lparr>tres_name := ''gpu'', tres_capacity := 1\<rparr>],
      gr_targets := [demo_test ''a'' 1, demo_test ''b'' 0]\<rparr>"

definition demo_env :: "nat \<Rightarrow> batch_env" where
  "demo_env now = \<lparr>te_host = HostLinux, te_mkdir = (\<lambda>_. True), te_open = (\<lambda>_. True), te_spawn = (\<lambda>_. None),
     te_poll = (\<lambda>i. if even now then Running 9 (Signaled 9) else Ended (Exited 0))\<rparr>"

definition demo_batch :: test_batch where
  "demo_batch = init_batch demo_resource_graph None [demo_test ''a'' 1, demo_test ''b'' 0]"

lemma demo_legal: "legal_batch demo_resource_graph [demo_test ''a'' 1, demo_test ''b'' 0]"
  by code_simp

lemma demo_clock: "clock_runs demo_env ts"
proof -
  have "decisive t (te_poll (demo_env (Suc (2 * now))) i)" for t now i by (simp add: demo_env_def)
  then show ?thesis unfolding clock_runs_def by (metis le_SucI mult_2 trans_le_add1 order_refl)
qed

lemma demo_ok: "batch_ok demo_resource_graph 1 demo_batch"
  unfolding demo_batch_def by (rule init_batch_ok [OF demo_legal])

lemma demo_start: "may_start 1 0 demo_batch"
  by code_simp

definition demo_started :: test_batch where
  "demo_started = count_done 0 (start_attempt (demo_env 0) ''stella'' 0 demo_batch)"

lemma demo_started_reached: "(batch_step ''stella'' 1)\<^sup>*\<^sup>* demo_batch demo_started"
  unfolding demo_started_def
  by (intro r_into_rtranclp batch_step.starting demo_start) (simp add: demo_batch_def init_batch_def Let_def)

text \<open>Where no directory can be made, no phase starts, and an attempt is over at once.\<close>

definition broken_env :: batch_env where
  "broken_env = (demo_env 0)\<lparr>te_mkdir := (\<lambda>_. False)\<rparr>"

definition demo_broken :: test_batch where
  "demo_broken = count_done 1 (start_attempt broken_env ''stella'' 1 demo_batch)"

lemma broken_paths: "snd (test_log_paths (test_env.truncate broken_env) g ph r) \<noteq> None"
  by (simp add: test_log_paths_def broken_env_def demo_env_def test_env.defs Let_def split: option.splits)

lemma broken_try: "\<not> fst (try_phase broken_env k p i b)"
proof -
  let ?r = "(tb_runs b ! i)\<lparr>rn_phase := p\<rparr>"
  obtain r' e' where "test_log_paths (test_env.truncate broken_env) (tb_graph b) (phase_name p) ?r = (r', Some e')"
    using broken_paths [of "tb_graph b" "phase_name p" ?r] by (metis not_None_eq prod.collapse)
  then obtain r e where "prepare_phase broken_env (tb_graph b) p (tb_runs b ! i) = (r, Some e)"
    by (cases "phase_command (te_host broken_env) (tb_graph b) (rn_target ?r) p") (simp_all add: prepare_phase_def Let_def)
  then show ?thesis by (simp add: try_phase_def start_phase_def)
qed

lemma broken_after_body:
  assumes "i < length (tb_runs b)" "\<not> rn_running (tb_runs b ! i)"
  shows "\<not> rn_running (tb_runs (after_body broken_env k p i b) ! i)"
proof -
  obtain st c where t: "(if p \<noteq> TEST_CLEANUP \<and> t_test_cleanup (rn_target (tb_runs b ! i)) \<noteq> []
      then try_phase broken_env k TEST_CLEANUP i b else (False, b)) = (st, c)" by fastforce
  then have st: "\<not> st" using broken_try [of k TEST_CLEANUP i b] by (auto split: if_splits)
  have c: "i < length (tb_runs c) \<and> \<not> rn_running (tb_runs c ! i)"
    using t st assms try_phase_effect [of broken_env k TEST_CLEANUP i b st c]
    by (auto simp: quiet_def split: if_splits dest: frame_length core_eqD)
  then show ?thesis
    using t st finish_attempt_effect [of i "upd_run i set_pass c"]
    by (auto simp: after_body_def Let_def set_pass_def split: if_splits dest!: core_eqD)
qed

lemma demo_broken_done: "rn_phase (tb_runs demo_broken ! 1) = TEST_DONE"
proof -
  let ?b = demo_batch and ?c = "start_attempt broken_env ''stella'' 1 demo_batch"
  have len: "1 < length (tb_runs ?b)" by (simp add: demo_batch_def init_batch_def Let_def)
  have run: "tb_runs ?b ! 1 = initial_run None (demo_test ''b'' 0)" by (simp add: demo_batch_def init_batch_def Let_def)
  have st: "steps_to demo_resource_graph 1 1 ?b ?c" by (rule starts_ok [OF demo_ok len]) code_simp
  let ?p = "first_phase (rn_target (tb_runs ?b ! 1))"
  obtain s d where t: "try_phase broken_env ''stella'' ?p 1 (begin_attempt 1 ?b) = (s, d)" by fastforce
  have s: "\<not> s" using broken_try [of "''stella''" ?p 1 "begin_attempt 1 ?b"] t by simp
  note e = begin_attempt_effect [OF len]
  have l1: "1 < length (tb_runs (begin_attempt 1 ?b))" using e len by (auto simp: moved_def dest: frame_length)
  have idle: "\<not> rn_running (tb_runs (begin_attempt 1 ?b) ! 1)" using core_eqD [OF e [THEN conjunct2]] run by simp
  note f = try_phase_effect [OF t l1 idle]
  have d: "1 < length (tb_runs d)" "\<not> rn_running (tb_runs d ! 1)" "rn_status (tb_runs d ! 1) = ''error''"
    using f l1 idle s by (auto simp: quiet_def dest: frame_length core_eqD)
  have "?c = after_body broken_env ''stella'' ?p 1 d"
    using t s d(3) by (simp add: start_attempt_def advance_after_phase_def Let_def)
  then have "\<not> rn_running (tb_runs ?c ! 1)" using broken_after_body [OF d(1,2)] by simp
  moreover have "run_weight (tb_runs ?b ! 1) = 4" unfolding run by code_simp
  moreover have "rn_target (tb_runs ?c ! 1) = demo_test ''b'' 0" "tries (demo_test ''b'' 0) = 1"
    using st run by (simp_all add: steps_to_def tries_def demo_test_def)
  ultimately have "rn_phase (tb_runs ?c ! 1) = TEST_DONE"
    using st by (cases "rn_phase (tb_runs ?c ! 1)") (auto simp: steps_to_def run_ok_def run_weight_def)
  then show ?thesis by (simp add: demo_broken_def)
qed

lemma demo_broken_reached: "(batch_step ''stella'' 1)\<^sup>*\<^sup>* demo_batch demo_broken"
proof -
  have "may_start 1 1 demo_batch" by code_simp
  then show ?thesis unfolding demo_broken_def
    by (intro r_into_rtranclp batch_step.starting) (simp_all add: demo_batch_def init_batch_def Let_def)
qed

section \<open>Properties\<close>

text \<open>
  C5: Whatever the order in which tests start and processes end, and whatever fails, no counted
  resource is given out beyond its capacity, provided every capacity is below \<open>2 ^ 30\<close>, so that the sums of the
  code stay within an \<open>int\<close>: what is in use is exactly what the tests that hold
  their resources have asked for, and no more tests run than jobs are allowed.
\<close>

theorem resources_never_oversubscribed:
  assumes "legal_batch g ts" "(batch_step backend jobs)\<^sup>*\<^sup>* (init_batch g options ts) b"
    and "k < length (gr_test_resources g)" and "capacities_fit g"
  shows "tb_used b ! k = taken g k (tb_runs b) \<and> 0 \<le> tb_used b ! k \<and>
    tb_used b ! k \<le> tres_capacity (gr_test_resources g ! k) \<and>
    int (tb_holders b) = holding (tb_runs b) \<and> tb_holders b \<le> jobs"
proof -
  note ok = reachable_ok [OF assms(1,2)]
  have t: "0 \<le> taken g k (tb_runs b)" "taken g k (tb_runs b) \<le> tres_capacity (gr_test_resources g ! k)"
    using ok assms(3,4) taken_nonneg by (simp_all add: batch_ok_def pool_ok_def)
  moreover have "tres_capacity (gr_test_resources g ! k) < 2 ^ 30"
    using assms(3,4) by (simp add: capacities_fit_def list_all_length)
  ultimately have "c_int (taken g k (tb_runs b)) = taken g k (tb_runs b)" by (intro c_int_id) simp_all
  then show ?thesis using ok assms(3) t by (simp add: batch_ok_def pool_ok_def)
qed

lemma resources_never_oversubscribed_witness:
  "0 \<le> tb_used demo_started ! 0 \<and> tb_used demo_started ! 0 \<le> 1"
proof -
  have "0 < length (gr_test_resources demo_resource_graph)" "tres_capacity (gr_test_resources demo_resource_graph ! 0) = 1"
    by (simp_all add: demo_resource_graph_def)
  moreover have "capacities_fit demo_resource_graph" by (simp add: capacities_fit_def demo_resource_graph_def)
  ultimately show ?thesis
    using resources_never_oversubscribed [OF demo_legal demo_started_reached [unfolded demo_batch_def]] by metis
qed

text \<open>
  C36: A test that is over was skipped without an attempt, or passed, failed, ended in an error or a
  timeout after at most one attempt more than its retries, and then only when its policy does not
  ask for another; it holds no resource and no process of it runs.
\<close>

theorem test_results_final:
  assumes "legal_batch g ts" "(batch_step backend jobs)\<^sup>*\<^sup>* (init_batch g options ts) b"
    and "r \<in> set (tb_runs b)" "rn_phase r = TEST_DONE"
  shows "(if rn_attempt r = 0 then rn_status r = ''skip''
      else 1 \<le> rn_attempt r \<and> rn_attempt r \<le> max 0 (t_test_retry_count (rn_target r)) + 1 \<and>
        rn_status r \<in> {''pass'', ''fail'', ''error'', ''timeout''} \<and>
        \<not> (rn_attempt r \<le> t_test_retry_count (rn_target r) \<and> retry_allowed (rn_target r) (rn_status r))) \<and>
    \<not> rn_resources_held r \<and> \<not> rn_running r"
proof -
  have "run_ok r" using reachable_ok [OF assms(1,2)] assms(3) by (auto simp: batch_ok_def in_set_conv_nth)
  then show ?thesis using assms(4)
    by (auto simp: run_ok_def tries_def may_retry_def bad_status_def max_def split: if_splits)
qed

lemma test_results_final_witness:
  "rn_phase (tb_runs demo_broken ! 1) = TEST_DONE \<and> \<not> rn_resources_held (tb_runs demo_broken ! 1)"
proof
  show d: "rn_phase (tb_runs demo_broken ! 1) = TEST_DONE" by (rule demo_broken_done)
  have "length (tb_runs demo_broken) = length (tb_runs demo_batch)"
    using batch_steps_ok [OF demo_broken_reached demo_ok] by blast
  then have "1 < length (tb_runs demo_broken)" by (simp add: demo_batch_def init_batch_def Let_def)
  then show "\<not> rn_resources_held (tb_runs demo_broken ! 1)"
    using test_results_final [OF demo_legal demo_broken_reached [unfolded demo_batch_def] nth_mem d] by blast
qed

text \<open>
  C17: A batch ends: when every process ends, is lost, or is seen beyond its time-out sooner or later,
  some number of rounds finishes it, whatever starts, logs and files fail on the way. Unless waiting
  itself fails, every test is then over, and the call succeeds only if each passed or was skipped.
\<close>

theorem test_batch_ends:
  assumes legal: "legal_batch g ts" and clock: "clock_runs envs ts"
  shows "\<exists>fuel b ok. qstar_graph_execute_test_batch envs final fuel g ts options backend = Some (b, ok) \<and>
    ((\<forall>n i. te_poll (envs n) i \<noteq> WaitFailed) \<longrightarrow>
      (\<forall>r\<in>set (tb_runs b). rn_phase r = TEST_DONE \<and> (ok \<longrightarrow> rn_status r \<in> {''pass'', ''skip''})))"
proof -
  let ?b0 = "init_batch g options ts" and ?jobs = "batch_jobs options"
  note ok0 = init_batch_ok [OF legal, of ?jobs options]
  have "map rn_target (tb_runs ?b0) = ts" by (simp add: init_batch_def Let_def comp_def)
  then obtain fuel where "run_rounds envs backend ?jobs fuel 0 ?b0 \<noteq> None"
    using batch_ends [OF ok0 batch_jobs_positive] clock by (fastforce simp: rounds_end_def)
  then consider b where "run_rounds envs backend ?jobs fuel 0 ?b0 = Some (Inl b)"
    | b where "run_rounds envs backend ?jobs fuel 0 ?b0 = Some (Inr b)"
    by (metis not_None_eq sum.exhaust)
  then show ?thesis
  proof cases
    case 1
    then show ?thesis using run_rounds_Inl [OF 1]
      by (intro exI [of _ fuel] exI [of _ b] exI [of _ False]) (auto simp: qstar_graph_execute_test_batch_def)
  next
    case 2
    note r = run_rounds_Inr [OF 2 ok0]
    then have ok: "batch_ok g ?jobs b" using batch_steps_ok ok0 by blast
    have "rn_phase r = TEST_DONE" if "r \<in> set (tb_runs b)" for r
      using done_runs_all [OF _ that] r ok by (simp add: batch_ok_def)
    moreover have "run_ok r" if "r \<in> set (tb_runs b)" for r
      using that ok by (auto simp: batch_ok_def in_set_conv_nth)
    ultimately have over: "rn_phase r = TEST_DONE \<and> rn_status r \<in> {''pass'', ''skip''} \<union> bad_status"
      if "r \<in> set (tb_runs b)" for r using that by (fastforce simp: run_ok_def split: if_splits)
    obtain c ok where f: "finish_batch final options backend b = (c, ok)" by fastforce
    have "tb_runs c = tb_runs b" using finish_batch_runs [of final options backend b] f by simp
    moreover have "ok \<Longrightarrow> r \<in> set (tb_runs b) \<Longrightarrow> rn_status r \<notin> bad_status" for r
      using finish_batch_good [of final options backend b r] f by simp
    ultimately show ?thesis using 2 f over
      by (intro exI [of _ fuel] exI [of _ c] exI [of _ ok]) (fastforce simp: qstar_graph_execute_test_batch_def)
  qed
qed


lemma test_batch_ends_witness:
  "\<exists>fuel b ok. qstar_graph_execute_test_batch demo_env (demo_env 0) fuel demo_resource_graph
     [demo_test ''a'' 1, demo_test ''b'' 0] None ''stella'' = Some (b, ok)"
  using test_batch_ends [OF demo_legal demo_clock] by blast

section \<open>Where the code departs from its documentation\<close>

text \<open>
  \<^verbatim>\<open>docs/test-resources-and-results.md\<close> has the result of a test whose setup failed point to the setup. After
  a clean-up that succeeds it points to the clean-up: the loop looks at the status, which is still
  the setup's, and not at how the clean-up ended.
\<close>

lemma cleanup_hides_the_error:
  "rn_status r = ''error'' \<Longrightarrow>
     rn_status (record_end TEST_CLEANUP False (Exited 0) r) = ''error'' \<and>
     rn_result_stderr_rel (record_end TEST_CLEANUP False (Exited 0) r) = rn_stderr_rel r"
  by (simp add: record_end_def set_phase_result_def qstar_platform_process_exited_success_def result_ids_def Let_def)

text \<open>
  A capacity may be the greatest \<open>int\<close>. Once one test holds all of it, the sum the guard of the next
  test computes is beyond that type; where it wraps around, the guard lets that test have all of it as well.
\<close>

definition greedy_test :: "string \<Rightarrow> qstar_target" where
  "greedy_test name = (demo_test name 0)\<lparr>t_test_resources := [\<lparr>rr_name = ''gpu'', rr_amount = 2147483647\<rparr>]\<rparr>"

definition greedy_graph :: qstar_graph where
  "greedy_graph = demo_resource_graph
     \<lparr>gr_test_resources := [zero_qstar_test_resource\<lparr>tres_name := ''gpu'', tres_capacity := 2147483647\<rparr>],
      gr_targets := [greedy_test ''a'', greedy_test ''b'']\<rparr>"

lemma guard_overflows:
  "legal_batch greedy_graph [greedy_test ''a'', greedy_test ''b''] \<and>
   tb_used (begin_attempt 0 (init_batch greedy_graph None [greedy_test ''a'', greedy_test ''b''])) ! 0 = 2147483647 \<and>
   resources_available greedy_graph [2147483647] (greedy_test ''b'')"
proof (intro conjI)
  let ?b = "init_batch greedy_graph None [greedy_test ''a'', greedy_test ''b'']"
  have "valid_resource_name (Some ''gpu'')" by code_simp
  then have "passes (qstar_graph_validate_test_resources greedy_graph)"
    by (simp add: qstar_graph_validate_test_resources_def validate_test_resource_def validate_target_resources_def
        validate_resource_request_def greedy_graph_def greedy_test_def demo_test_def qstar_graph_find_test_resource_def Let_def)
  then show "legal_batch greedy_graph [greedy_test ''a'', greedy_test ''b'']"
    by (simp add: legal_batch_def passes_def) (simp add: greedy_graph_def greedy_test_def)
  have "tb_runs ?b ! 0 = initial_run None (greedy_test ''a'')" "0 < length (tb_runs ?b)" "tb_graph ?b = greedy_graph"
    "tb_used ?b = [0]" by (simp_all add: init_batch_def greedy_graph_def Let_def)
  moreover have "wants greedy_graph 0 (greedy_test ''a'') = 2147483647" by code_simp
  ultimately show "tb_used (begin_attempt 0 ?b) ! 0 = 2147483647"
    using begin_attempt_effect [of 0 ?b] by (simp add: moved_def c_int_id)
  show "resources_available greedy_graph [2147483647] (greedy_test ''b'')" by code_simp
qed

end
