(* ===== verification/QCodec.thy ===== *)
theory QCodec
  imports QPrelude
begin

text \<open>
  \<^verbatim>\<open>src/stella_cache.c\<close>, the byte format of the cache files: fixed-width integers, strings with their
  length, counted lists, and records as a sequence of fields. A reader answers with a value and the
  bytes left. The locale \<open>codec\<close> states what a pair of writer and reader promises: what was written is
  read back, and bytes after it change nothing; a file cut short is then never taken for a whole one.
\<close>

section \<open>Readers\<close>

text \<open>
  \<open>Bad\<close> is the result \<open>-1\<close>. \<open>Null\<close> stands for the marker of a null pointer in a place where the
  program never has one; the model does not follow the run any further.
\<close>

datatype 'a got = Got 'a string | Bad | Null

fun and_then :: "('a \<Rightarrow> string \<Rightarrow> 'b got) \<Rightarrow> 'a got \<Rightarrow> 'b got" where
  "and_then f (Got x r) = f x r"
| "and_then f Bad = Bad"
| "and_then f Null = Null"

definition extends :: "(string \<Rightarrow> 'a got) \<Rightarrow> bool" where
  "extends rd \<longleftrightarrow> (\<forall>bs x r more. rd bs = Got x r \<longrightarrow> rd (bs @ more) = Got x (r @ more))"

lemma and_then_Got: "and_then f g = Got y s \<longleftrightarrow> (\<exists>x r. g = Got x r \<and> f x r = Got y s)"
  by (cases g) auto

lemma extends_and_then: "extends rd \<Longrightarrow> (\<And>x. extends (f x)) \<Longrightarrow> extends (\<lambda>bs. and_then f (rd bs))"
  unfolding extends_def and_then_Got by metis

lemma extends_Got [intro]: "extends (Got x)"
  and extends_if: "(c \<Longrightarrow> extends f) \<Longrightarrow> extends (\<lambda>bs. if c then f bs else Bad)"
  and extends_unless: "(\<not> c \<Longrightarrow> extends f) \<Longrightarrow> extends (\<lambda>bs. if c then Bad else f bs)"
  by (simp_all add: extends_def)

locale codec =
  fixes wr :: "'a \<Rightarrow> string" and rd :: "string \<Rightarrow> 'a got" and ok :: "'a \<Rightarrow> bool" and keep :: "'a \<Rightarrow> 'a"
  assumes reads_back: "ok x \<Longrightarrow> rd (wr x @ rest) = Got (keep x) rest"
    and more_after: "extends rd"
begin

lemma reads_all: "ok x \<Longrightarrow> rd (wr x) = Got (keep x) []"
  using reads_back [of x "[]"] by simp

lemma same_bytes: "ok x \<Longrightarrow> ok y \<Longrightarrow> wr x @ r = wr y @ s \<Longrightarrow> keep x = keep y \<and> r = s"
  using reads_back [of x r] reads_back [of y s] by simp

lemma cut_short:
  assumes "ok x" "k < length (wr x)" shows "rd (take k (wr x)) \<noteq> Got y r"
proof
  assume "rd (take k (wr x)) = Got y r"
  then have "rd (take k (wr x) @ drop k (wr x)) = Got y (r @ drop k (wr x))"
    using more_after unfolding extends_def by blast
  then show False using reads_all [OF assms(1)] assms(2) by simp
qed

end

section \<open>Integers\<close>

definition le_bytes :: "nat \<Rightarrow> nat \<Rightarrow> string" where
  "le_bytes n v = map (\<lambda>i. char_of (v div 256 ^ i mod 256)) [0..<n]"

definition le_value :: "string \<Rightarrow> nat" where
  "le_value bs = foldr (\<lambda>c a. byte c + 256 * a) bs 0"

definition write_u64 :: "nat \<Rightarrow> string" where
  "write_u64 v = le_bytes 8 v"

definition read_bytes :: "nat \<Rightarrow> string \<Rightarrow> string got" where
  "read_bytes n bs = (if length bs < n then Bad else Got (take n bs) (drop n bs))"

definition read_u64 :: "string \<Rightarrow> nat got" where
  "read_u64 bs = and_then (\<lambda>b. Got (le_value b)) (read_bytes 8 bs)"

definition write_i32 :: "int \<Rightarrow> string" where
  "write_i32 v = le_bytes 4 (nat (v mod 2 ^ 32))"

definition read_i32 :: "string \<Rightarrow> int got" where
  "read_i32 bs = and_then (\<lambda>b. let v = int (le_value b) in Got (if v < 2 ^ 31 then v else v - 2 ^ 32)) (read_bytes 4 bs)"

lemma le_bytes_Suc: "le_bytes (Suc n) v = char_of (v mod 256) # le_bytes n (v div 256)"
proof -
  have "[0..<Suc n] = 0 # map Suc [0..<n]" by (simp add: map_Suc_upt upt_conv_Cons del: upt_Suc)
  then show ?thesis by (simp add: le_bytes_def div_mult2_eq [symmetric] comp_def del: upt_Suc)
qed

lemma length_le_bytes [simp]: "length (le_bytes n v) = n"
  by (simp add: le_bytes_def)

lemma le_value_le_bytes: "v < 256 ^ n \<Longrightarrow> le_value (le_bytes n v) = v"
proof (induction n arbitrary: v)
  case (Suc n)
  then have "v div 256 < 256 ^ n" by (simp add: less_mult_imp_div_less mult.commute)
  from Suc.IH [OF this] show ?case by (simp add: le_bytes_Suc le_value_def byte_def)
qed (simp add: le_value_def le_bytes_def)

lemma extends_read_bytes: "extends (read_bytes n)"
  by (auto simp: extends_def read_bytes_def split: if_splits)

lemma read_bytes_append: "length b = n \<Longrightarrow> read_bytes n (b @ rest) = Got b rest"
  by (simp add: read_bytes_def)

lemma extends_read_u64: "extends read_u64" and extends_read_i32: "extends read_i32"
proof -
  have "extends (\<lambda>bs. and_then (\<lambda>b. Got (le_value b)) (read_bytes 8 bs))"
    by (intro extends_and_then extends_read_bytes extends_Got)
  then show "extends read_u64" by (simp add: read_u64_def [abs_def])
  have "extends (\<lambda>bs. and_then (\<lambda>b. let v = int (le_value b) in Got (if v < 2 ^ 31 then v else v - 2 ^ 32)) (read_bytes 4 bs))"
    unfolding Let_def by (intro extends_and_then extends_read_bytes extends_Got)
  then show "extends read_i32" by (simp add: read_i32_def [abs_def])
qed

lemma read_write_u64: "v < 2 ^ 64 \<Longrightarrow> read_u64 (write_u64 v @ rest) = Got v rest"
  using le_value_le_bytes [of v 8] by (simp add: read_u64_def write_u64_def read_bytes_append)

lemma read_write_i32:
  assumes "- (2 ^ 31) \<le> v" "v < 2 ^ 31" shows "read_i32 (write_i32 v @ rest) = Got v rest"
proof -
  have m: "nat (v mod 2 ^ 32) < 256 ^ 4" by (simp add: nat_less_iff)
  have "(v + 2 ^ 32) mod 2 ^ 32 = v + 2 ^ 32" if "v < 0" using assms that by (intro mod_pos_pos_trivial) simp_all
  then have "v mod 2 ^ 32 = (if 0 \<le> v then v else v + 2 ^ 32)"
    using assms mod_pos_pos_trivial [of v "2 ^ 32"] mod_add_self2 [of v "2 ^ 32"] by auto
  then show ?thesis using le_value_le_bytes [OF m] assms
    by (cases "0 \<le> v") (simp_all add: read_i32_def write_i32_def read_bytes_append Let_def nat_less_iff)
qed

interpretation u64_codec: codec write_u64 read_u64 "\<lambda>v. v < 2 ^ 64" id
  by unfold_locales (simp_all add: read_write_u64 extends_read_u64)

interpretation i32_codec: codec write_i32 read_i32 "\<lambda>v. - (2 ^ 31) \<le> v \<and> v < 2 ^ 31" id
  by unfold_locales (simp_all add: read_write_i32 extends_read_i32)


section \<open>Strings and lists\<close>

text \<open>\<open>UINT64_MAX\<close> in place of the length is the null pointer; a text ends at its first NUL.\<close>

abbreviation NULL_LENGTH :: nat where "NULL_LENGTH \<equiv> 2 ^ 64 - 1"

definition MAX_STRING :: nat where "MAX_STRING = 16 * 1024 * 1024"

definition c_string :: "string \<Rightarrow> string" where
  "c_string bs = takeWhile (\<lambda>c. byte c \<noteq> 0) bs"

definition write_str :: "cstr \<Rightarrow> string" where
  "write_str s = (case s of None \<Rightarrow> write_u64 NULL_LENGTH | Some t \<Rightarrow> write_u64 (length t) @ t)"

definition read_str :: "string \<Rightarrow> cstr got" where
  "read_str bs = and_then (\<lambda>n r. if n = NULL_LENGTH then Got None r
     else if MAX_STRING < n then Bad
     else and_then (\<lambda>t. Got (Some (c_string t))) (read_bytes n r)) (read_u64 bs)"

definition text_ok :: "string \<Rightarrow> bool" where
  "text_ok s \<longleftrightarrow> length s \<le> MAX_STRING \<and> list_all (\<lambda>c. byte c \<noteq> 0) s"

definition opt_text_ok :: "cstr \<Rightarrow> bool" where
  "opt_text_ok s \<longleftrightarrow> (case s of None \<Rightarrow> True | Some t \<Rightarrow> text_ok t)"

text \<open>A field that is never null, and an element of a list, where \<open>qstar_strdup\<close> turns null into the empty text.\<close>

definition write_name :: "string \<Rightarrow> string" where
  "write_name s = write_str (Some s)"

definition read_name :: "string \<Rightarrow> string got" where
  "read_name bs = and_then (\<lambda>s. case s of None \<Rightarrow> (\<lambda>_. Null) | Some t \<Rightarrow> Got t) (read_str bs)"

definition read_item :: "string \<Rightarrow> string got" where
  "read_item bs = and_then (\<lambda>s. Got (str_or_empty s)) (read_str bs)"

definition write_flag :: "bool \<Rightarrow> string" where
  "write_flag b = write_i32 (if b then 1 else 0)"

definition read_flag :: "string \<Rightarrow> bool got" where
  "read_flag bs = and_then (\<lambda>v. Got (v \<noteq> 0)) (read_i32 bs)"

lemma extends_read_str: "extends read_str"
proof -
  have "extends (\<lambda>r. if n = NULL_LENGTH then Got None r else if MAX_STRING < n then Bad
      else and_then (\<lambda>t. Got (Some (c_string t))) (read_bytes n r))" for n
    using extends_and_then [OF extends_read_bytes [of n] extends_Got, of "\<lambda>t. Some (c_string t)"]
    by (auto simp: extends_def)
  from extends_and_then [OF extends_read_u64 this] show ?thesis by (simp add: read_str_def [abs_def])
qed

lemma extends_read_name: "extends read_name" and extends_read_item: "extends read_item"
  and extends_read_flag: "extends read_flag"
proof -
  have "extends (case s of None \<Rightarrow> (\<lambda>_. Null) | Some t \<Rightarrow> Got t)" for s :: cstr
    by (cases s) (auto simp: extends_def)
  from extends_and_then [OF extends_read_str this] show "extends read_name" by (simp add: read_name_def [abs_def])
  show "extends read_item" using extends_and_then [OF extends_read_str extends_Got]
    by (simp add: read_item_def [abs_def])
  show "extends read_flag" using extends_and_then [OF extends_read_i32 extends_Got]
    by (simp add: read_flag_def [abs_def])
qed

lemma c_string_ok: "list_all (\<lambda>c. byte c \<noteq> 0) s \<Longrightarrow> c_string s = s"
  by (simp add: c_string_def takeWhile_eq_all_conv list_all_iff)

lemma read_write_str:
  assumes "opt_text_ok s" shows "read_str (write_str s @ rest) = Got s rest"
proof (cases s)
  case None
  then show ?thesis by (simp add: read_str_def write_str_def read_write_u64)
next
  case (Some t)
  then have t: "length t \<le> MAX_STRING" "c_string t = t" using assms by (simp_all add: opt_text_ok_def text_ok_def c_string_ok)
  moreover have "length t < 2 ^ 64" "length t \<noteq> NULL_LENGTH" "\<not> MAX_STRING < length t"
    using t(1) by (simp_all add: MAX_STRING_def)
  ultimately show ?thesis
    by (simp add: Some read_str_def write_str_def read_write_u64 read_bytes_append del: One_nat_def)
qed

interpretation str_codec: codec write_str read_str opt_text_ok id
  by unfold_locales (simp_all add: read_write_str extends_read_str)

interpretation name_codec: codec write_name read_name text_ok id
  by unfold_locales (simp_all add: read_write_str extends_read_name read_name_def write_name_def opt_text_ok_def)

interpretation item_codec: codec write_name read_item text_ok id
  by unfold_locales (simp_all add: read_write_str extends_read_item read_item_def write_name_def opt_text_ok_def)

interpretation flag_codec: codec write_flag read_flag "\<lambda>_. True" id
  by unfold_locales (simp_all add: read_write_i32 extends_read_flag read_flag_def write_flag_def)

text \<open>A count and so many elements; a count beyond the limit is refused.\<close>

fun read_n :: "(string \<Rightarrow> 'a got) \<Rightarrow> nat \<Rightarrow> string \<Rightarrow> 'a list got" where
  "read_n rd 0 bs = Got [] bs"
| "read_n rd (Suc n) bs = and_then (\<lambda>x r. and_then (\<lambda>xs. Got (x # xs)) (read_n rd n r)) (rd bs)"

definition write_counted :: "('a \<Rightarrow> string) \<Rightarrow> 'a list \<Rightarrow> string" where
  "write_counted wr xs = write_u64 (length xs) @ concat (map wr xs)"

definition read_counted :: "nat \<Rightarrow> (string \<Rightarrow> 'a got) \<Rightarrow> string \<Rightarrow> 'a list got" where
  "read_counted limit rd bs = and_then (\<lambda>n r. if limit < n then Bad else read_n rd n r) (read_u64 bs)"

abbreviation LIST_LIMIT :: nat where "LIST_LIMIT \<equiv> 1000000"

definition write_list :: "string list \<Rightarrow> string" where
  "write_list xs = write_counted write_name xs"

definition read_list :: "string \<Rightarrow> string list got" where
  "read_list bs = read_counted LIST_LIMIT read_item bs"

definition counted_ok :: "nat \<Rightarrow> ('a \<Rightarrow> bool) \<Rightarrow> 'a list \<Rightarrow> bool" where
  "counted_ok limit ok xs \<longleftrightarrow> length xs \<le> limit \<and> list_all ok xs"

definition list_ok :: "string list \<Rightarrow> bool" where
  "list_ok xs = counted_ok LIST_LIMIT text_ok xs"

lemma extends_read_n: "extends rd \<Longrightarrow> extends (read_n rd n)"
proof (induction n)
  case 0
  then show ?case by (simp add: extends_def)
next
  case (Suc n)
  have "extends (\<lambda>bs. and_then (\<lambda>x r. and_then (\<lambda>xs. Got (x # xs)) (read_n rd n r)) (rd bs))"
    by (intro extends_and_then Suc extends_Got)
  then show ?case by (simp add: extends_def)
qed

context codec
begin

lemma read_n_back: "list_all ok xs \<Longrightarrow> read_n rd (length xs) (concat (map wr xs) @ rest) = Got (map keep xs) rest"
  by (induction xs) (simp_all add: reads_back)

lemma counted_back:
  "counted_ok limit ok xs \<Longrightarrow> limit < 2 ^ 64 \<Longrightarrow>
    read_counted limit rd (write_counted wr xs @ rest) = Got (map keep xs) rest"
  by (simp add: counted_ok_def read_counted_def write_counted_def read_write_u64 read_n_back)

lemma extends_counted: "extends (read_counted limit rd)"
proof -
  have "extends (\<lambda>r. if limit < n then Bad else read_n rd n r)" for n
    by (intro extends_unless extends_read_n more_after)
  from extends_and_then [OF extends_read_u64 this] show ?thesis by (simp add: read_counted_def [abs_def])
qed

end

interpretation list_codec: codec write_list read_list list_ok id
  by unfold_locales
    (use item_codec.counted_back item_codec.extends_counted [of LIST_LIMIT] in
      \<open>simp_all add: write_list_def read_list_def [abs_def] list_ok_def\<close>)

section \<open>Records\<close>

text \<open>A writer is the list of its fields; a reader fills the fields of a zeroed record one by one.\<close>

definition write_fields :: "('t \<Rightarrow> string) list \<Rightarrow> 't \<Rightarrow> string" where
  "write_fields fs t = concat (map (\<lambda>f. f t) fs)"

fun read_fields :: "('t \<Rightarrow> string \<Rightarrow> 't got) list \<Rightarrow> 't \<Rightarrow> string \<Rightarrow> 't got" where
  "read_fields [] t bs = Got t bs"
| "read_fields (f # fs) t bs = and_then (read_fields fs) (f t bs)"

definition field :: "(string \<Rightarrow> 'v got) \<Rightarrow> (('v \<Rightarrow> 'v) \<Rightarrow> 't \<Rightarrow> 't) \<Rightarrow> 't \<Rightarrow> string \<Rightarrow> 't got" where
  "field rd upd t bs = and_then (\<lambda>v. Got (upd (\<lambda>_. v) t)) (rd bs)"

abbreviation "wname sel \<equiv> \<lambda>t. write_name (sel t)"
abbreviation "wstr sel \<equiv> \<lambda>t. write_str (sel t)"
abbreviation "wlist sel \<equiv> \<lambda>t. write_list (sel t)"
abbreviation "wint sel \<equiv> \<lambda>t. write_i32 (sel t)"
abbreviation "wflag sel \<equiv> \<lambda>t. write_flag (sel t)"
abbreviation "wrecs wr sel \<equiv> \<lambda>t. write_counted wr (sel t)"

abbreviation "rname upd \<equiv> field read_name upd"
abbreviation "rstr upd \<equiv> field read_str upd"
abbreviation "rlist upd \<equiv> field read_list upd"
abbreviation "rint upd \<equiv> field read_i32 upd"
abbreviation "rflag upd \<equiv> field read_flag upd"
abbreviation "rrecs limit rd upd \<equiv> field (read_counted limit rd) upd"

lemma extends_field: "extends rd \<Longrightarrow> extends (field rd upd t)"
  using extends_and_then [OF _ extends_Got] by (simp add: field_def [abs_def])

lemma extends_read_fields: "list_all (\<lambda>f. \<forall>t. extends (f t)) fs \<Longrightarrow> extends (read_fields fs t)"
proof (induction fs arbitrary: t)
  case Nil
  then show ?case by (simp add: extends_def)
next
  case (Cons f fs)
  have "extends (\<lambda>bs. and_then (read_fields fs) (f t bs))"
    using Cons by (intro extends_and_then) simp_all
  then show ?case by (simp add: extends_def)
qed

lemma write_fields_simps [simp]:
  "write_fields [] t = []" "write_fields (f # fs) t = f t @ write_fields fs t"
  by (simp_all add: write_fields_def)

lemma field_back: "rd bs = Got v r \<Longrightarrow> field rd upd t bs = Got (upd (\<lambda>_. v) t) r"
  by (simp add: field_def)

definition i32_ok :: "int \<Rightarrow> bool" where
  "i32_ok v \<longleftrightarrow> - (2 ^ 31) \<le> v \<and> v < 2 ^ 31"

lemma fields_back:
  "text_ok s \<Longrightarrow> field read_name us t (write_name s @ r) = Got (us (\<lambda>_. s) t) r"
  "opt_text_ok o' \<Longrightarrow> field read_str uo t (write_str o' @ r) = Got (uo (\<lambda>_. o') t) r"
  "list_ok xs \<Longrightarrow> field read_list ul t (write_list xs @ r) = Got (ul (\<lambda>_. xs) t) r"
  "i32_ok v \<Longrightarrow> field read_i32 ui t (write_i32 v @ r) = Got (ui (\<lambda>_. v) t) r"
  "field read_flag uf t (write_flag b @ r) = Got (uf (\<lambda>_. b) t) r"
  using name_codec.reads_back str_codec.reads_back list_codec.reads_back i32_codec.reads_back flag_codec.reads_back
  by (simp_all add: field_def i32_ok_def)

lemmas field_extends = extends_field [OF extends_read_name] extends_field [OF extends_read_str]
  extends_field [OF list_codec.more_after] extends_field [OF extends_read_i32] extends_field [OF extends_read_flag]
  extends_field [OF extends_read_u64]


context codec
begin

lemma field_one_back: "ok v \<Longrightarrow> field rd upd t (wr v @ r) = Got (upd (\<lambda>_. keep v) t) r"
  by (simp add: field_def reads_back)

lemma field_counted_back:
  "counted_ok limit ok xs \<Longrightarrow> limit < 2 ^ 64 \<Longrightarrow>
    field (read_counted limit rd) upd t (write_counted wr xs @ r) = Got (upd (\<lambda>_. map keep xs) t) r"
  by (simp add: field_def counted_back)

lemma extends_one_field: "extends (field rd upd t)"
  by (rule extends_field [OF more_after])

lemma extends_counted_field: "extends (field (read_counted limit rd) upd t)"
  by (rule extends_field [OF extends_counted])

end

end
