(* ===== verification/QGraphCache.thy ===== *)
theory QGraphCache
  imports QCodec QConfigs
begin

text \<open>
  \<^verbatim>\<open>src/stella_cache.c\<close>: the writer and the reader of \<^verbatim>\<open>graph.qsg\<close>, one pair of functions per struct with the
  fields in the order of the code. The lemmas show that every struct is read back as it was written, but
  for the fields the format leaves out, and that a file cut short is refused.
\<close>

section \<open>Providers\<close>

definition write_provider_action :: "qstar_provider_action_template \<Rightarrow> string" where
  "write_provider_action = write_fields
     [wlist pa_argv, wlist pa_env, wlist pa_inputs, wlist pa_outputs, wstr pa_depfile, wflag pa_wants_depfile]"

definition read_provider_action :: "string \<Rightarrow> qstar_provider_action_template got" where
  "read_provider_action = read_fields
     [rlist pa_argv_update, rlist pa_env_update, rlist pa_inputs_update, rlist pa_outputs_update,
     rstr pa_depfile_update, rflag pa_wants_depfile_update]
     zero_qstar_provider_action_template"

definition write_provider_artifact :: "qstar_provider_artifact_descriptor \<Rightarrow> string" where
  "write_provider_artifact = write_fields
     [wname pad_id, wname pad_type, wname pad_suffix, wname pad_path, wflag pad_primary,
     wflag pad_secondary, wflag pad_runtime, wflag pad_link_interface]"

definition read_provider_artifact :: "string \<Rightarrow> qstar_provider_artifact_descriptor got" where
  "read_provider_artifact = read_fields
     [rname pad_id_update, rname pad_type_update, rname pad_suffix_update, rname pad_path_update,
     rflag pad_primary_update, rflag pad_secondary_update, rflag pad_runtime_update,
     rflag pad_link_interface_update]
     zero_qstar_provider_artifact_descriptor"

definition write_option_schema :: "qstar_language_option_schema \<Rightarrow> string" where
  "write_option_schema = write_fields
     [wname lo_name, wname lo_type, wflag lo_has_default, wname lo_default_value, wlist lo_default_list,
     wlist lo_values]"

definition read_option_schema :: "string \<Rightarrow> qstar_language_option_schema got" where
  "read_option_schema = read_fields
     [rname lo_name_update, rname lo_type_update, rflag lo_has_default_update,
     rname lo_default_value_update, rlist lo_default_list_update, rlist lo_values_update]
     zero_qstar_language_option_schema"

definition write_unit_schema :: "qstar_language_unit_schema \<Rightarrow> string" where
  "write_unit_schema = write_fields
     [wname lu_name, wlist lu_suffixes, wname lu_emits, wname lu_lower, wname lu_deps]"

definition read_unit_schema :: "string \<Rightarrow> qstar_language_unit_schema got" where
  "read_unit_schema = read_fields
     [rname lu_name_update, rlist lu_suffixes_update, rname lu_emits_update, rname lu_lower_update,
     rname lu_deps_update]
     zero_qstar_language_unit_schema"

text \<open>No more than 16 artifacts are read; the writer has no limit.\<close>

definition write_final_schema :: "qstar_language_final_schema \<Rightarrow> string" where
  "write_final_schema = write_fields
     [wname lf_kind, wname lf_lower, wlist lf_inputs, wrecs write_provider_artifact lf_artifacts]"

definition read_final_schema :: "string \<Rightarrow> qstar_language_final_schema got" where
  "read_final_schema = read_fields
     [rname lf_kind_update, rname lf_lower_update, rlist lf_inputs_update,
     rrecs 16 read_provider_artifact lf_artifacts_update]
     zero_qstar_language_final_schema"

definition write_language_provider :: "qstar_language_provider \<Rightarrow> string" where
  "write_language_provider = write_fields
     [wname lp_api, wname lp_id, wname lp_namespace, wname lp_version, wname lp_dir, wname lp_manifest,
     wname lp_implementation, wrecs write_option_schema lp_options, wrecs write_unit_schema lp_units,
     wrecs write_final_schema lp_finals]"

definition read_language_provider :: "string \<Rightarrow> qstar_language_provider got" where
  "read_language_provider = read_fields
     [rname lp_api_update, rname lp_id_update, rname lp_namespace_update, rname lp_version_update,
     rname lp_dir_update, rname lp_manifest_update, rname lp_implementation_update,
     rrecs LIST_LIMIT read_option_schema lp_options_update,
     rrecs LIST_LIMIT read_unit_schema lp_units_update, rrecs LIST_LIMIT read_final_schema lp_finals_update]
     zero_qstar_language_provider"

section \<open>Toolsets\<close>

definition write_role :: "qstar_tool_role \<Rightarrow> string" where
  "write_role = write_fields [wname tr_role, wlist tr_argv]"

text \<open>The argv is read into the role just added, the last of the list.\<close>

definition set_last_argv :: "string list \<Rightarrow> qstar_toolset \<Rightarrow> qstar_toolset" where
  "set_last_argv argv ts = ts\<lparr>ts_roles := butlast (ts_roles ts) @ [(last (ts_roles ts))\<lparr>tr_argv := argv\<rparr>]\<rparr>"

fun read_roles :: "nat \<Rightarrow> qstar_toolset \<Rightarrow> string \<Rightarrow> qstar_toolset got" where
  "read_roles 0 ts bs = Got ts bs"
| "read_roles (Suc n) ts bs = and_then (\<lambda>role r.
     case qstar_toolset_add_role ts role of
       Inl _ \<Rightarrow> Bad
     | Inr ts' \<Rightarrow> and_then (\<lambda>argv. read_roles n (set_last_argv argv ts')) (read_list r)) (read_str bs)"

definition read_role_table :: "qstar_toolset \<Rightarrow> string \<Rightarrow> qstar_toolset got" where
  "read_role_table ts bs = and_then (\<lambda>n r. if LIST_LIMIT < n then Bad
     else and_then (\<lambda>ts'. Got (qstar_toolset_sort_roles ts')) (read_roles n ts r)) (read_u64 bs)"

definition write_toolset :: "qstar_toolset \<Rightarrow> string" where
  "write_toolset = write_fields
     [wname ts_label, wname ts_name, wname ts_fragment_dir, wname ts_origin_file, wint ts_origin_line,
     wrecs write_role ts_roles, wlist ts_path_tools, wlist ts_response_file_tools, wstr ts_response_files,
     wstr ts_response_style, wstr ts_allow_absolute_tools]"

definition read_toolset :: "string \<Rightarrow> qstar_toolset got" where
  "read_toolset = read_fields
     [rname ts_label_update, rname ts_name_update, rname ts_fragment_dir_update,
     rname ts_origin_file_update, rint ts_origin_line_update, read_role_table, rlist ts_path_tools_update,
     rlist ts_response_file_tools_update, rstr ts_response_files_update, rstr ts_response_style_update,
     rstr ts_allow_absolute_tools_update]
     zero_qstar_toolset"

section \<open>Targets\<close>

text \<open>The index of a source is refused beyond the limit of lists.\<close>

definition read_index :: "string \<Rightarrow> nat got" where
  "read_index bs = and_then (\<lambda>n r. if LIST_LIMIT < n then Bad else Got n r) (read_u64 bs)"

definition write_source_unit :: "qstar_provider_source_unit \<Rightarrow> string" where
  "write_source_unit = write_fields
     [\<lambda>x. write_u64 (psu_source_index x), wstr psu_path, wstr psu_provider, wname psu_unit,
     wname psu_emits, wname psu_lower, wstr psu_toolset_role,
     \<lambda>x. write_provider_action (psu_action x)]"

definition read_source_unit :: "string \<Rightarrow> qstar_provider_source_unit got" where
  "read_source_unit = read_fields
     [field read_index psu_source_index_update, rstr psu_path_update, rstr psu_provider_update,
     rname psu_unit_update, rname psu_emits_update, rname psu_lower_update, rstr psu_toolset_role_update,
     field read_provider_action psu_action_update]
     zero_qstar_provider_source_unit"

definition write_provider_final :: "qstar_provider_final_action \<Rightarrow> string" where
  "write_provider_final = write_fields
     [wflag pf_present, wstr pf_api, wstr pf_provider, wstr pf_kind, wstr pf_lower,
     wlist pf_input_ownership, wrecs write_provider_artifact pf_artifacts,
     \<lambda>x. write_provider_action (pf_action x)]"

definition read_provider_final :: "string \<Rightarrow> qstar_provider_final_action got" where
  "read_provider_final = read_fields
     [rflag pf_present_update, rstr pf_api_update, rstr pf_provider_update, rstr pf_kind_update,
     rstr pf_lower_update, rlist pf_input_ownership_update,
     rrecs 16 read_provider_artifact pf_artifacts_update, field read_provider_action pf_action_update]
     zero_qstar_provider_final_action"

definition write_modules :: "qstar_modules \<Rightarrow> string" where
  "write_modules = write_fields
     [wflag mod_present, wstr mod_root, wlist mod_include, wlist mod_exclude]"

definition read_modules :: "string \<Rightarrow> qstar_modules got" where
  "read_modules = read_fields
     [rflag mod_present_update, rstr mod_root_update, rlist mod_include_update, rlist mod_exclude_update]
     zero_qstar_modules"

definition write_imported_artifact :: "qstar_imported_artifact \<Rightarrow> string" where
  "write_imported_artifact = write_fields
     [wname ia_platform, wname ia_id, wname ia_role, wname ia_path, wflag ia_primary]"

definition read_imported_artifact :: "string \<Rightarrow> qstar_imported_artifact got" where
  "read_imported_artifact = read_fields
     [rname ia_platform_update, rname ia_id_update, rname ia_role_update, rname ia_path_update,
     rflag ia_primary_update]
     \<lparr>ia_platform = [], ia_id = [], ia_role = [], ia_path = [], ia_primary = False\<rparr>"

definition write_provider_option :: "qstar_provider_option_value \<Rightarrow> string" where
  "write_provider_option = write_fields
     [wname pov_provider, wname pov_name, wname pov_type, wname pov_value, wlist pov_list]"

definition read_provider_option :: "string \<Rightarrow> qstar_provider_option_value got" where
  "read_provider_option = read_fields
     [rname pov_provider_update, rname pov_name_update, rname pov_type_update, rname pov_value_update,
     rlist pov_list_update]
     \<lparr>pov_provider = [], pov_name = [], pov_type = [], pov_value = [], pov_list = []\<rparr>"

text \<open>All fields but those of tests, in the order of the struct.\<close>

definition write_target :: "qstar_target \<Rightarrow> string" where
  "write_target = write_fields
     [wname t_label, wname t_name, wname t_kind, wname t_fragment_dir, wname t_origin_file,
     wint t_origin_line, \<lambda>x. write_modules (t_modules x), wlist t_configs, wlist t_sources,
     wlist t_objects, wrecs write_source_unit t_provider_sources,
     \<lambda>x. write_provider_final (t_provider_final x), wlist t_public_headers,
     wlist t_private_headers, wlist t_include_dirs, wlist t_public_include_dirs,
     wlist t_private_include_dirs, wlist t_interface_include_dirs, wlist t_system_include_dirs,
     wlist t_deps, wlist t_private_deps, wlist t_visibility, wlist t_libs, wlist t_lib_dirs,
     wlist t_frameworks, wlist t_link_options, wlist t_link_inputs, wlist t_compile_usage_options,
     wlist t_compile_usage_inputs, wlist t_link_usage_options, wlist t_link_usage_inputs,
     wrecs write_imported_artifact t_imported_artifacts, wlist t_cflags, wlist t_cxxflags,
     wlist t_asm_include_dirs, wlist t_asm_compile_options, wrecs write_provider_option t_provider_options,
     wlist t_run_inputs, wlist t_run_command, wstr t_description, wstr t_artifact_name,
     wstr t_imported_artifact_kind, wname t_tool_path, wstr t_compile_context, wstr t_cxx_standard,
     wstr t_cxx_precompiled_header, wstr t_run_expect_contains, wstr t_run_expect_file,
     wint t_run_timeout_sec, wflag t_asm_preprocess, wflag t_cxx_modules_present,
     wflag t_cxx_modules_enabled, wflag t_cxx_pch_present, wflag t_cxx_unity_present,
     wflag t_cxx_unity_enabled, wint t_cxx_unity_batch_size, wflag t_cacheable_present, wflag t_cacheable,
     wstr t_toolset]"

definition read_target :: "string \<Rightarrow> qstar_target got" where
  "read_target = read_fields
     [rname t_label_update, rname t_name_update, rname t_kind_update, rname t_fragment_dir_update,
     rname t_origin_file_update, rint t_origin_line_update, field read_modules t_modules_update,
     rlist t_configs_update, rlist t_sources_update, rlist t_objects_update,
     rrecs LIST_LIMIT read_source_unit t_provider_sources_update,
     field read_provider_final t_provider_final_update, rlist t_public_headers_update,
     rlist t_private_headers_update, rlist t_include_dirs_update, rlist t_public_include_dirs_update,
     rlist t_private_include_dirs_update, rlist t_interface_include_dirs_update,
     rlist t_system_include_dirs_update, rlist t_deps_update, rlist t_private_deps_update,
     rlist t_visibility_update, rlist t_libs_update, rlist t_lib_dirs_update, rlist t_frameworks_update,
     rlist t_link_options_update, rlist t_link_inputs_update, rlist t_compile_usage_options_update,
     rlist t_compile_usage_inputs_update, rlist t_link_usage_options_update,
     rlist t_link_usage_inputs_update, rrecs LIST_LIMIT read_imported_artifact t_imported_artifacts_update,
     rlist t_cflags_update, rlist t_cxxflags_update, rlist t_asm_include_dirs_update,
     rlist t_asm_compile_options_update, rrecs LIST_LIMIT read_provider_option t_provider_options_update,
     rlist t_run_inputs_update, rlist t_run_command_update, rstr t_description_update,
     rstr t_artifact_name_update, rstr t_imported_artifact_kind_update, rname t_tool_path_update,
     rstr t_compile_context_update, rstr t_cxx_standard_update, rstr t_cxx_precompiled_header_update,
     rstr t_run_expect_contains_update, rstr t_run_expect_file_update, rint t_run_timeout_sec_update,
     rflag t_asm_preprocess_update, rflag t_cxx_modules_present_update, rflag t_cxx_modules_enabled_update,
     rflag t_cxx_pch_present_update, rflag t_cxx_unity_present_update, rflag t_cxx_unity_enabled_update,
     rint t_cxx_unity_batch_size_update, rflag t_cacheable_present_update, rflag t_cacheable_update,
     rstr t_toolset_update]
     zero_qstar_target"

section \<open>Generated actions, stages, families, aliases\<close>

definition write_genrule :: "qstar_genrule \<Rightarrow> string" where
  "write_genrule = write_fields
     [wname g_label, wname g_name, wname g_fragment_dir, wname g_origin_file, wint g_origin_line,
     wstr g_tool, wstr g_toolset, wstr g_description, wflag g_config_header, wflag g_cacheable_present,
     wflag g_cacheable, wlist g_inputs, wlist g_outputs, wlist g_output_groups, wlist g_output_formats,
     wlist g_args, wlist g_command]"

definition read_genrule :: "string \<Rightarrow> qstar_genrule got" where
  "read_genrule = read_fields
     [rname g_label_update, rname g_name_update, rname g_fragment_dir_update, rname g_origin_file_update,
     rint g_origin_line_update, rstr g_tool_update, rstr g_toolset_update, rstr g_description_update,
     rflag g_config_header_update, rflag g_cacheable_present_update, rflag g_cacheable_update,
     rlist g_inputs_update, rlist g_outputs_update, rlist g_output_groups_update,
     rlist g_output_formats_update, rlist g_args_update, rlist g_command_update]
     zero_qstar_genrule"

definition write_stage :: "qstar_stage \<Rightarrow> string" where
  "write_stage = write_fields
     [wname st_label, wname st_name, wname st_fragment_dir, wname st_origin_file, wint st_origin_line,
     wstr st_root, wstr st_description, wlist st_srcs, wlist st_dsts]"

definition read_stage :: "string \<Rightarrow> qstar_stage got" where
  "read_stage = read_fields
     [rname st_label_update, rname st_name_update, rname st_fragment_dir_update,
     rname st_origin_file_update, rint st_origin_line_update, rstr st_root_update,
     rstr st_description_update, rlist st_srcs_update, rlist st_dsts_update]
     zero_qstar_stage"

definition write_family :: "qstar_target_family \<Rightarrow> string" where
  "write_family = write_fields
     [wname fam_name, wname fam_fragment_dir, wname fam_origin_file, wint fam_origin_line,
     wflag fam_allow_shared_sources, wlist fam_variants, wlist fam_targets]"

definition read_family :: "string \<Rightarrow> qstar_target_family got" where
  "read_family = read_fields
     [rname fam_name_update, rname fam_fragment_dir_update, rname fam_origin_file_update,
     rint fam_origin_line_update, rflag fam_allow_shared_sources_update, rlist fam_variants_update,
     rlist fam_targets_update]
     zero_qstar_target_family"

definition write_alias :: "qstar_package_alias \<Rightarrow> string" where
  "write_alias = write_fields
     [wname al_alias, wname al_root]"

definition read_alias :: "string \<Rightarrow> qstar_package_alias got" where
  "read_alias = read_fields
     [rname al_alias_update, rname al_root_update]
     \<lparr>al_alias = [], al_root = []\<rparr>"

definition write_project :: "qstar_project \<Rightarrow> string" where
  "write_project = write_fields
     [wflag pj_present, wstr pj_name, wstr pj_version, wstr pj_root, wstr pj_build_dir,
     wstr pj_generated_dir, wstr pj_compile_commands, wstr pj_action_cache]"

definition read_project :: "string \<Rightarrow> qstar_project got" where
  "read_project = read_fields
     [rflag pj_present_update, rstr pj_name_update, rstr pj_version_update, rstr pj_root_update,
     rstr pj_build_dir_update, rstr pj_generated_dir_update, rstr pj_compile_commands_update,
     rstr pj_action_cache_update]
     zero_qstar_project"

section \<open>The file\<close>

definition GRAPH_MAGIC :: string where "GRAPH_MAGIC = ''qstar-stella-graph-cache-v8''"
definition PLAN_ABI :: nat where "PLAN_ABI = 16"

definition write_graph_body :: "qstar_graph \<Rightarrow> string" where
  "write_graph_body = write_fields
     [wstr gr_package_root, wstr gr_generator, wstr gr_requested_generator, wstr gr_build_dir_override,
     \<lambda>x. write_project (gr_project x), wflag gr_uses_file_globs, wstr gr_platform,
     wlist gr_evaluated_fragments, wrecs write_alias gr_packages, wrecs write_toolset gr_toolsets,
     wrecs write_language_provider gr_language_providers, wrecs write_target gr_targets,
     wrecs write_genrule gr_genrules, wrecs write_stage gr_stages, wrecs write_family gr_families]"

definition read_graph_body :: "string \<Rightarrow> qstar_graph got" where
  "read_graph_body = read_fields
     [rstr gr_package_root_update, rstr gr_generator_update, rstr gr_requested_generator_update,
     rstr gr_build_dir_override_update, field read_project gr_project_update,
     rflag gr_uses_file_globs_update, rstr gr_platform_update, rlist gr_evaluated_fragments_update,
     rrecs LIST_LIMIT read_alias gr_packages_update, rrecs LIST_LIMIT read_toolset gr_toolsets_update,
     rrecs LIST_LIMIT read_language_provider gr_language_providers_update,
     rrecs LIST_LIMIT read_target gr_targets_update, rrecs LIST_LIMIT read_genrule gr_genrules_update,
     rrecs LIST_LIMIT read_stage gr_stages_update, rrecs LIST_LIMIT read_family gr_families_update]
     qstar_graph_init"

definition write_graph_cache_file :: "qstar_graph \<Rightarrow> string" where
  "write_graph_cache_file g = write_name GRAPH_MAGIC @ write_u64 PLAN_ABI @ write_graph_body g"

text \<open>A null pointer in place of the magic text reaches \<open>strcmp\<close>.\<close>

definition read_graph_cache_file :: "string \<Rightarrow> qstar_graph got" where
  "read_graph_cache_file bs = and_then (\<lambda>magic r.
     if magic \<noteq> GRAPH_MAGIC then Bad
     else and_then (\<lambda>version r'. if version \<noteq> PLAN_ABI then Bad else read_graph_body r') (read_u64 r)) (read_name bs)"

section \<open>What is read back\<close>

text \<open>Texts without NUL and within the limits of the readers.\<close>

definition provider_action_ok :: "qstar_provider_action_template \<Rightarrow> bool" where
  "provider_action_ok x \<longleftrightarrow>
     list_all opt_text_ok
       [pa_depfile x] \<and>
     list_all list_ok
       [pa_argv x, pa_env x, pa_inputs x, pa_outputs x]"

interpretation provider_action_codec: codec write_provider_action read_provider_action provider_action_ok id
proof
  show "read_provider_action (write_provider_action x @ rest) = Got (id x) rest" if "provider_action_ok x" for x rest
    using that by (cases x) (simp add: write_provider_action_def read_provider_action_def provider_action_ok_def fields_back zero_defs)
  show "extends read_provider_action"
    unfolding read_provider_action_def by (intro extends_read_fields) (simp add: field_extends)
qed

definition provider_artifact_ok :: "qstar_provider_artifact_descriptor \<Rightarrow> bool" where
  "provider_artifact_ok x \<longleftrightarrow>
     list_all text_ok
       [pad_id x, pad_type x, pad_suffix x, pad_path x]"

interpretation provider_artifact_codec: codec write_provider_artifact read_provider_artifact provider_artifact_ok id
proof
  show "read_provider_artifact (write_provider_artifact x @ rest) = Got (id x) rest" if "provider_artifact_ok x" for x rest
    using that by (cases x) (simp add: write_provider_artifact_def read_provider_artifact_def provider_artifact_ok_def fields_back zero_defs)
  show "extends read_provider_artifact"
    unfolding read_provider_artifact_def by (intro extends_read_fields) (simp add: field_extends)
qed

definition option_schema_ok :: "qstar_language_option_schema \<Rightarrow> bool" where
  "option_schema_ok x \<longleftrightarrow>
     list_all text_ok
       [lo_name x, lo_type x, lo_default_value x] \<and>
     list_all list_ok
       [lo_default_list x, lo_values x]"

interpretation option_schema_codec: codec write_option_schema read_option_schema option_schema_ok id
proof
  show "read_option_schema (write_option_schema x @ rest) = Got (id x) rest" if "option_schema_ok x" for x rest
    using that by (cases x) (simp add: write_option_schema_def read_option_schema_def option_schema_ok_def fields_back zero_defs)
  show "extends read_option_schema"
    unfolding read_option_schema_def by (intro extends_read_fields) (simp add: field_extends)
qed

definition unit_schema_ok :: "qstar_language_unit_schema \<Rightarrow> bool" where
  "unit_schema_ok x \<longleftrightarrow>
     list_all text_ok
       [lu_name x, lu_emits x, lu_lower x, lu_deps x] \<and>
     list_all list_ok
       [lu_suffixes x]"

interpretation unit_schema_codec: codec write_unit_schema read_unit_schema unit_schema_ok id
proof
  show "read_unit_schema (write_unit_schema x @ rest) = Got (id x) rest" if "unit_schema_ok x" for x rest
    using that by (cases x) (simp add: write_unit_schema_def read_unit_schema_def unit_schema_ok_def fields_back zero_defs)
  show "extends read_unit_schema"
    unfolding read_unit_schema_def by (intro extends_read_fields) (simp add: field_extends)
qed

definition modules_ok :: "qstar_modules \<Rightarrow> bool" where
  "modules_ok x \<longleftrightarrow>
     list_all opt_text_ok
       [mod_root x] \<and>
     list_all list_ok
       [mod_include x, mod_exclude x]"

interpretation modules_codec: codec write_modules read_modules modules_ok id
proof
  show "read_modules (write_modules x @ rest) = Got (id x) rest" if "modules_ok x" for x rest
    using that by (cases x) (simp add: write_modules_def read_modules_def modules_ok_def fields_back zero_defs)
  show "extends read_modules"
    unfolding read_modules_def by (intro extends_read_fields) (simp add: field_extends)
qed

definition imported_artifact_ok :: "qstar_imported_artifact \<Rightarrow> bool" where
  "imported_artifact_ok x \<longleftrightarrow>
     list_all text_ok
       [ia_platform x, ia_id x, ia_role x, ia_path x]"

interpretation imported_artifact_codec: codec write_imported_artifact read_imported_artifact imported_artifact_ok id
proof
  show "read_imported_artifact (write_imported_artifact x @ rest) = Got (id x) rest" if "imported_artifact_ok x" for x rest
    using that by (cases x) (simp add: write_imported_artifact_def read_imported_artifact_def imported_artifact_ok_def fields_back zero_defs)
  show "extends read_imported_artifact"
    unfolding read_imported_artifact_def by (intro extends_read_fields) (simp add: field_extends)
qed

definition provider_option_ok :: "qstar_provider_option_value \<Rightarrow> bool" where
  "provider_option_ok x \<longleftrightarrow>
     list_all text_ok
       [pov_provider x, pov_name x, pov_type x, pov_value x] \<and>
     list_all list_ok
       [pov_list x]"

interpretation provider_option_codec: codec write_provider_option read_provider_option provider_option_ok id
proof
  show "read_provider_option (write_provider_option x @ rest) = Got (id x) rest" if "provider_option_ok x" for x rest
    using that by (cases x) (simp add: write_provider_option_def read_provider_option_def provider_option_ok_def fields_back zero_defs)
  show "extends read_provider_option"
    unfolding read_provider_option_def by (intro extends_read_fields) (simp add: field_extends)
qed

definition genrule_ok :: "qstar_genrule \<Rightarrow> bool" where
  "genrule_ok x \<longleftrightarrow>
     list_all text_ok
       [g_label x, g_name x, g_fragment_dir x, g_origin_file x] \<and>
     list_all opt_text_ok
       [g_tool x, g_toolset x, g_description x] \<and>
     list_all list_ok
       [g_inputs x, g_outputs x, g_output_groups x, g_output_formats x, g_args x, g_command x] \<and>
     list_all i32_ok
       [g_origin_line x]"

interpretation genrule_codec: codec write_genrule read_genrule genrule_ok id
proof
  show "read_genrule (write_genrule x @ rest) = Got (id x) rest" if "genrule_ok x" for x rest
    using that by (cases x) (simp add: write_genrule_def read_genrule_def genrule_ok_def fields_back zero_defs)
  show "extends read_genrule"
    unfolding read_genrule_def by (intro extends_read_fields) (simp add: field_extends)
qed

definition stage_ok :: "qstar_stage \<Rightarrow> bool" where
  "stage_ok x \<longleftrightarrow>
     list_all text_ok
       [st_label x, st_name x, st_fragment_dir x, st_origin_file x] \<and>
     list_all opt_text_ok
       [st_root x, st_description x] \<and>
     list_all list_ok
       [st_srcs x, st_dsts x] \<and>
     list_all i32_ok
       [st_origin_line x]"

interpretation stage_codec: codec write_stage read_stage stage_ok id
proof
  show "read_stage (write_stage x @ rest) = Got (id x) rest" if "stage_ok x" for x rest
    using that by (cases x) (simp add: write_stage_def read_stage_def stage_ok_def fields_back zero_defs)
  show "extends read_stage"
    unfolding read_stage_def by (intro extends_read_fields) (simp add: field_extends)
qed

definition family_ok :: "qstar_target_family \<Rightarrow> bool" where
  "family_ok x \<longleftrightarrow>
     list_all text_ok
       [fam_name x, fam_fragment_dir x, fam_origin_file x] \<and>
     list_all list_ok
       [fam_variants x, fam_targets x] \<and>
     list_all i32_ok
       [fam_origin_line x]"

interpretation family_codec: codec write_family read_family family_ok id
proof
  show "read_family (write_family x @ rest) = Got (id x) rest" if "family_ok x" for x rest
    using that by (cases x) (simp add: write_family_def read_family_def family_ok_def fields_back zero_defs)
  show "extends read_family"
    unfolding read_family_def by (intro extends_read_fields) (simp add: field_extends)
qed

definition alias_ok :: "qstar_package_alias \<Rightarrow> bool" where
  "alias_ok x \<longleftrightarrow>
     list_all text_ok
       [al_alias x, al_root x]"

interpretation alias_codec: codec write_alias read_alias alias_ok id
proof
  show "read_alias (write_alias x @ rest) = Got (id x) rest" if "alias_ok x" for x rest
    using that by (cases x) (simp add: write_alias_def read_alias_def alias_ok_def fields_back zero_defs)
  show "extends read_alias"
    unfolding read_alias_def by (intro extends_read_fields) (simp add: field_extends)
qed

definition project_ok :: "qstar_project \<Rightarrow> bool" where
  "project_ok x \<longleftrightarrow>
     list_all opt_text_ok
       [pj_name x, pj_version x, pj_root x, pj_build_dir x, pj_generated_dir x, pj_compile_commands x,
        pj_action_cache x]"

interpretation project_codec: codec write_project read_project project_ok id
proof
  show "read_project (write_project x @ rest) = Got (id x) rest" if "project_ok x" for x rest
    using that by (cases x) (simp add: write_project_def read_project_def project_ok_def fields_back zero_defs)
  show "extends read_project"
    unfolding read_project_def by (intro extends_read_fields) (simp add: field_extends)
qed

definition final_schema_ok :: "qstar_language_final_schema \<Rightarrow> bool" where
  "final_schema_ok x \<longleftrightarrow>
     list_all text_ok
       [lf_kind x, lf_lower x] \<and>
     list_all list_ok
       [lf_inputs x] \<and>
     counted_ok 16 provider_artifact_ok (lf_artifacts x)"

interpretation final_schema_codec: codec write_final_schema read_final_schema final_schema_ok id
proof
  show "read_final_schema (write_final_schema x @ rest) = Got (id x) rest" if "final_schema_ok x" for x rest
    using that by (cases x) (simp add: write_final_schema_def read_final_schema_def final_schema_ok_def fields_back zero_defs provider_artifact_codec.field_counted_back)
  show "extends read_final_schema"
    unfolding read_final_schema_def by (intro extends_read_fields) (simp add: field_extends provider_artifact_codec.extends_counted_field)
qed

definition language_provider_ok :: "qstar_language_provider \<Rightarrow> bool" where
  "language_provider_ok x \<longleftrightarrow>
     list_all text_ok
       [lp_api x, lp_id x, lp_namespace x, lp_version x, lp_dir x, lp_manifest x, lp_implementation x] \<and>
     counted_ok LIST_LIMIT option_schema_ok (lp_options x) \<and>
     counted_ok LIST_LIMIT unit_schema_ok (lp_units x) \<and>
     counted_ok LIST_LIMIT final_schema_ok (lp_finals x)"

interpretation language_provider_codec: codec write_language_provider read_language_provider language_provider_ok id
proof
  show "read_language_provider (write_language_provider x @ rest) = Got (id x) rest" if "language_provider_ok x" for x rest
    using that by (cases x) (simp add: write_language_provider_def read_language_provider_def language_provider_ok_def fields_back zero_defs option_schema_codec.field_counted_back unit_schema_codec.field_counted_back final_schema_codec.field_counted_back)
  show "extends read_language_provider"
    unfolding read_language_provider_def by (intro extends_read_fields) (simp add: field_extends option_schema_codec.extends_counted_field unit_schema_codec.extends_counted_field final_schema_codec.extends_counted_field)
qed

definition source_unit_ok :: "qstar_provider_source_unit \<Rightarrow> bool" where
  "source_unit_ok x \<longleftrightarrow>
     list_all text_ok
       [psu_unit x, psu_emits x, psu_lower x] \<and>
     list_all opt_text_ok
       [psu_path x, psu_provider x, psu_toolset_role x] \<and>
     psu_source_index x \<le> LIST_LIMIT \<and>
     provider_action_ok (psu_action x)"

lemma read_index_back: "n \<le> LIST_LIMIT \<Longrightarrow> field read_index upd t (write_u64 n @ r) = Got (upd (\<lambda>_. n) t) r"
  by (simp add: field_def read_index_def read_write_u64)

lemma extends_read_index: "extends read_index"
proof -
  have "extends (\<lambda>bs. and_then (\<lambda>n r. if LIST_LIMIT < n then Bad else Got n r) (read_u64 bs))"
    by (intro extends_and_then extends_read_u64 extends_unless extends_Got)
  then show ?thesis by (simp add: read_index_def [abs_def])
qed

interpretation source_unit_codec: codec write_source_unit read_source_unit source_unit_ok id
proof
  show "read_source_unit (write_source_unit x @ rest) = Got (id x) rest" if "source_unit_ok x" for x rest
    using that by (cases x) (simp add: write_source_unit_def read_source_unit_def source_unit_ok_def fields_back zero_defs read_index_back provider_action_codec.field_one_back)
  show "extends read_source_unit"
    unfolding read_source_unit_def by (intro extends_read_fields) (simp add: field_extends extends_field [OF extends_read_index] provider_action_codec.extends_one_field)
qed

definition provider_final_ok :: "qstar_provider_final_action \<Rightarrow> bool" where
  "provider_final_ok x \<longleftrightarrow>
     list_all opt_text_ok
       [pf_api x, pf_provider x, pf_kind x, pf_lower x] \<and>
     list_all list_ok
       [pf_input_ownership x] \<and>
     counted_ok 16 provider_artifact_ok (pf_artifacts x) \<and>
     provider_action_ok (pf_action x)"

interpretation provider_final_codec: codec write_provider_final read_provider_final provider_final_ok id
proof
  show "read_provider_final (write_provider_final x @ rest) = Got (id x) rest" if "provider_final_ok x" for x rest
    using that by (cases x) (simp add: write_provider_final_def read_provider_final_def provider_final_ok_def fields_back zero_defs provider_artifact_codec.field_counted_back provider_action_codec.field_one_back)
  show "extends read_provider_final"
    unfolding read_provider_final_def by (intro extends_read_fields) (simp add: field_extends provider_artifact_codec.extends_counted_field provider_action_codec.extends_one_field)
qed

section \<open>Toolsets, targets and the graph\<close>

text \<open>The order of the roles is the only thing a toolset may lose.\<close>

definition role_ok :: "qstar_tool_role \<Rightarrow> bool" where
  "role_ok r \<longleftrightarrow> tr_role r \<noteq> [] \<and> text_ok (tr_role r) \<and> list_ok (tr_argv r)"

definition toolset_ok :: "qstar_toolset \<Rightarrow> bool" where
  "toolset_ok x \<longleftrightarrow>
     list_all text_ok
       [ts_label x, ts_name x, ts_fragment_dir x, ts_origin_file x] \<and>
     list_all opt_text_ok
       [ts_response_files x, ts_response_style x, ts_allow_absolute_tools x] \<and>
     list_all list_ok
       [ts_path_tools x, ts_response_file_tools x] \<and>
     list_all i32_ok
       [ts_origin_line x] \<and>
     counted_ok LIST_LIMIT role_ok (ts_roles x) \<and>
     distinct (map tr_role (ts_roles x))"

lemma read_roles_back:
  "list_all role_ok rs \<Longrightarrow> distinct (map tr_role (ts_roles ts @ rs)) \<Longrightarrow>
   read_roles (length rs) ts (concat (map write_role rs) @ rest) = Got (ts\<lparr>ts_roles := ts_roles ts @ rs\<rparr>) rest"
proof (induction rs arbitrary: ts)
  case (Cons x rs)
  let ?ts = "ts\<lparr>ts_roles := ts_roles ts @ [x]\<rparr>"
  have x: "tr_role x \<noteq> []" "opt_text_ok (Some (tr_role x))" "list_ok (tr_argv x)"
    using Cons.prems(1) by (simp_all add: role_ok_def opt_text_ok_def)
  have a: "qstar_toolset_add_role ts (Some (tr_role x)) =
      Inr (ts\<lparr>ts_roles := ts_roles ts @ [\<lparr>tr_role = tr_role x, tr_argv = []\<rparr>]\<rparr>)"
  proof -
    have "\<not> list_ex (\<lambda>r. Some (tr_role r) = Some (tr_role x)) (ts_roles ts)"
    proof -
      have "tr_role x \<notin> tr_role ` set (ts_roles ts)" using Cons.prems(2) by auto
      then show ?thesis unfolding list_ex_iff option.inject by (metis image_eqI)
    qed
    then show ?thesis using x(1) by (simp add: qstar_toolset_add_role_def present_def)
  qed
  have "read_roles (length rs) ?ts (concat (map write_role rs) @ rest) = Got (ts\<lparr>ts_roles := ts_roles ts @ x # rs\<rparr>) rest"
    using Cons.IH [of ?ts] Cons.prems by simp
  moreover have "write_role x = write_str (Some (tr_role x)) @ write_list (tr_argv x)"
    by (simp add: write_role_def write_name_def)
  moreover have "set_last_argv (tr_argv x) (ts\<lparr>ts_roles := ts_roles ts @ [\<lparr>tr_role = tr_role x, tr_argv = []\<rparr>]\<rparr>) = ?ts"
    by (simp add: set_last_argv_def)
  ultimately show ?case
    using x by (simp add: read_write_str a list_codec.reads_back [simplified])
qed simp

lemma read_role_table_back:
  assumes "counted_ok LIST_LIMIT role_ok rs" "distinct (map tr_role rs)" "ts_roles ts = []"
  shows "read_role_table ts (write_counted write_role rs @ rest) = Got (qstar_toolset_sort_roles (ts\<lparr>ts_roles := rs\<rparr>)) rest"
  using assms read_roles_back [of rs ts rest]
  by (simp add: read_role_table_def write_counted_def counted_ok_def read_write_u64)

lemma extends_read_roles: "extends (read_roles n ts)"
proof (induction n arbitrary: ts)
  case 0
  then show ?case by (simp add: extends_def)
next
  case (Suc n)
  have "extends (\<lambda>r. case c of Inl _ \<Rightarrow> Bad | Inr ts' \<Rightarrow> and_then (\<lambda>argv. read_roles n (set_last_argv argv ts')) (read_list r))"
    for c :: "qerr + qstar_toolset"
    using extends_and_then [OF list_codec.more_after Suc.IH] by (cases c) (simp_all add: extends_def)
  from extends_and_then [OF extends_read_str this] show ?case by (simp add: extends_def)
qed

lemma extends_read_role_table: "extends (read_role_table ts)"
proof -
  have "extends (\<lambda>r. if LIST_LIMIT < n then Bad
     else and_then (\<lambda>ts'. Got (qstar_toolset_sort_roles ts')) (read_roles n ts r))" for n
    by (intro extends_unless extends_and_then extends_read_roles extends_Got)
  from extends_and_then [OF extends_read_u64 this] show ?thesis by (simp add: read_role_table_def [abs_def])
qed

interpretation toolset_codec: codec write_toolset read_toolset toolset_ok qstar_toolset_sort_roles
proof
  show "read_toolset (write_toolset x @ rest) = Got (qstar_toolset_sort_roles x) rest" if "toolset_ok x" for x rest
    using that by (cases x) (simp add: write_toolset_def read_toolset_def toolset_ok_def fields_back zero_defs
        read_role_table_back qstar_toolset_sort_roles_def)
  show "extends read_toolset"
    unfolding read_toolset_def by (intro extends_read_fields) (simp add: field_extends extends_read_role_table)
qed

text \<open>A target loses what only tests use.\<close>

definition keep_target :: "qstar_target \<Rightarrow> qstar_target" where
  "keep_target t = t\<lparr>t_test_resources := [], t_test_retry_on := [], t_test_setup := [], t_test_cleanup := [],
     t_test_skip_reason := None, t_test_retry_count := 0, t_test_timeout_sec := 0, t_test_manual := False\<rparr>"

definition target_ok :: "qstar_target \<Rightarrow> bool" where
  "target_ok x \<longleftrightarrow>
     list_all text_ok
       [t_label x, t_name x, t_kind x, t_fragment_dir x, t_origin_file x, t_tool_path x] \<and>
     list_all opt_text_ok
       [t_description x, t_artifact_name x, t_imported_artifact_kind x, t_compile_context x,
        t_cxx_standard x, t_cxx_precompiled_header x, t_run_expect_contains x, t_run_expect_file x,
        t_toolset x] \<and>
     list_all list_ok
       [t_configs x, t_sources x, t_objects x, t_public_headers x, t_private_headers x, t_include_dirs x,
        t_public_include_dirs x, t_private_include_dirs x, t_interface_include_dirs x,
        t_system_include_dirs x, t_deps x, t_private_deps x, t_visibility x, t_libs x, t_lib_dirs x,
        t_frameworks x, t_link_options x, t_link_inputs x, t_compile_usage_options x,
        t_compile_usage_inputs x, t_link_usage_options x, t_link_usage_inputs x, t_cflags x, t_cxxflags x,
        t_asm_include_dirs x, t_asm_compile_options x, t_run_inputs x, t_run_command x] \<and>
     list_all i32_ok
       [t_origin_line x, t_run_timeout_sec x, t_cxx_unity_batch_size x] \<and>
     modules_ok (t_modules x) \<and>
     counted_ok LIST_LIMIT source_unit_ok (t_provider_sources x) \<and>
     provider_final_ok (t_provider_final x) \<and>
     counted_ok LIST_LIMIT imported_artifact_ok (t_imported_artifacts x) \<and>
     counted_ok LIST_LIMIT provider_option_ok (t_provider_options x)"

interpretation target_codec: codec write_target read_target target_ok keep_target
proof
  show "read_target (write_target x @ rest) = Got (keep_target x) rest" if "target_ok x" for x rest
    using that by (cases x) (simp add: write_target_def read_target_def target_ok_def fields_back zero_defs keep_target_def source_unit_codec.field_counted_back imported_artifact_codec.field_counted_back provider_option_codec.field_counted_back modules_codec.field_one_back provider_final_codec.field_one_back)
  show "extends read_target"
    unfolding read_target_def by (intro extends_read_fields) (simp add: field_extends source_unit_codec.extends_counted_field imported_artifact_codec.extends_counted_field provider_option_codec.extends_counted_field modules_codec.extends_one_field provider_final_codec.extends_one_field)
qed

text \<open>What the file keeps of a graph: no config, suite, resource, command, option, variant, action or error.\<close>

definition keep_graph :: "qstar_graph \<Rightarrow> qstar_graph" where
  "keep_graph g = qstar_graph_init
     \<lparr>gr_targets := map keep_target (gr_targets g), gr_toolsets := map qstar_toolset_sort_roles (gr_toolsets g),
      gr_language_providers := gr_language_providers g, gr_package_root := gr_package_root g,
      gr_packages := gr_packages g, gr_genrules := gr_genrules g, gr_stages := gr_stages g,
      gr_families := gr_families g, gr_evaluated_fragments := gr_evaluated_fragments g,
      gr_project := gr_project g, gr_generator := gr_generator g,
      gr_requested_generator := gr_requested_generator g, gr_build_dir_override := gr_build_dir_override g,
      gr_platform := gr_platform g, gr_uses_file_globs := gr_uses_file_globs g\<rparr>"

definition graph_body_ok :: "qstar_graph \<Rightarrow> bool" where
  "graph_body_ok x \<longleftrightarrow>
     list_all opt_text_ok
       [gr_package_root x, gr_generator x, gr_requested_generator x, gr_build_dir_override x, gr_platform x] \<and>
     list_all list_ok
       [gr_evaluated_fragments x] \<and>
     project_ok (gr_project x) \<and>
     counted_ok LIST_LIMIT alias_ok (gr_packages x) \<and>
     counted_ok LIST_LIMIT toolset_ok (gr_toolsets x) \<and>
     counted_ok LIST_LIMIT language_provider_ok (gr_language_providers x) \<and>
     counted_ok LIST_LIMIT target_ok (gr_targets x) \<and>
     counted_ok LIST_LIMIT genrule_ok (gr_genrules x) \<and>
     counted_ok LIST_LIMIT stage_ok (gr_stages x) \<and>
     counted_ok LIST_LIMIT family_ok (gr_families x)"

interpretation graph_body_codec: codec write_graph_body read_graph_body graph_body_ok keep_graph
proof
  show "read_graph_body (write_graph_body x @ rest) = Got (keep_graph x) rest" if "graph_body_ok x" for x rest
    using that by (cases x) (simp add: write_graph_body_def read_graph_body_def graph_body_ok_def fields_back zero_defs keep_graph_def qstar_graph_init_def alias_codec.field_counted_back toolset_codec.field_counted_back language_provider_codec.field_counted_back target_codec.field_counted_back genrule_codec.field_counted_back stage_codec.field_counted_back family_codec.field_counted_back project_codec.field_one_back)
  show "extends read_graph_body"
    unfolding read_graph_body_def by (intro extends_read_fields) (simp add: field_extends alias_codec.extends_counted_field toolset_codec.extends_counted_field language_provider_codec.extends_counted_field target_codec.extends_counted_field genrule_codec.extends_counted_field stage_codec.extends_counted_field family_codec.extends_counted_field project_codec.extends_one_field)
qed

lemma magic_ok: "text_ok GRAPH_MAGIC"
  unfolding text_ok_def GRAPH_MAGIC_def MAX_STRING_def by (simp add: byte_def)

interpretation graph_codec: codec write_graph_cache_file read_graph_cache_file graph_body_ok keep_graph
proof
  show "read_graph_cache_file (write_graph_cache_file x @ rest) = Got (keep_graph x) rest" if "graph_body_ok x" for x rest
    using name_codec.reads_back [OF magic_ok] read_write_u64 [of PLAN_ABI] graph_body_codec.reads_back [OF that]
    by (simp add: read_graph_cache_file_def write_graph_cache_file_def PLAN_ABI_def)
  have "extends (\<lambda>r. if magic \<noteq> GRAPH_MAGIC then Bad
     else and_then (\<lambda>version r'. if version \<noteq> PLAN_ABI then Bad else read_graph_body r') (read_u64 r))" for magic
    by (intro extends_unless extends_and_then extends_read_u64 graph_body_codec.more_after)
  from extends_and_then [OF extends_read_name this] show "extends read_graph_cache_file"
    by (simp add: read_graph_cache_file_def [abs_def])
qed

section \<open>Properties\<close>

definition sample_rule :: qstar_genrule where
  "sample_rule = zero_qstar_genrule\<lparr>g_label := ''//a:gen'', g_name := ''gen'', g_fragment_dir := ''a'', g_origin_file := ''a/qstar.lua'',
     g_origin_line := 3, g_tool := Some ''cc'', g_inputs := [''a.in''], g_outputs := [''a.out''], g_command := [''cp'', ''{in}'', ''{out}'']\<rparr>"

definition sample_target :: qstar_target where
  "sample_target = zero_qstar_target\<lparr>t_label := ''//a:x'', t_name := ''x'', t_kind := ''binary'', t_sources := [''main.c'', ''b.c''],
     t_deps := [''//a:gen''], t_toolset := Some ''host''\<rparr>"

definition sample_graph :: qstar_graph where
  "sample_graph = zero_qstar_graph\<lparr>gr_package_root := Some ''.'', gr_targets := [sample_target], gr_genrules := [sample_rule]\<rparr>"

lemma sample_graph_ok: "graph_body_ok sample_graph"
proof -
  have "genrule_ok sample_rule"
    by (simp add: genrule_ok_def sample_rule_def zero_defs opt_text_ok_def list_ok_def counted_ok_def text_ok_def MAX_STRING_def
        byte_def i32_ok_def)
  moreover have "target_ok sample_target"
    by (simp add: target_ok_def sample_target_def zero_defs opt_text_ok_def list_ok_def counted_ok_def text_ok_def MAX_STRING_def
        byte_def i32_ok_def modules_ok_def
        provider_final_ok_def provider_action_ok_def)
  ultimately show ?thesis
    by (simp add: graph_body_ok_def sample_graph_def zero_defs opt_text_ok_def list_ok_def counted_ok_def text_ok_def MAX_STRING_def
        project_ok_def byte_def)
qed

text \<open>
  C29: Reading a graph cache gives back the graph that was written, whatever follows in the file, if its texts and
  lists are within the limits of the reader (\<open>graph_body_ok\<close>: at most 16 MiB a text, no NUL, at most a million entries a list), but for the
  test fields of targets, the declarations the format leaves out and the order of the roles of a toolset, which writing sorts
  (\<open>keep_graph\<close>); and two graphs with the same file agree in all that is kept.
\<close>

theorem graph_cache_round_trip:
  assumes "graph_body_ok g"
  shows "read_graph_cache_file (write_graph_cache_file g @ rest) = Got (keep_graph g) rest \<and>
    (\<forall>h. graph_body_ok h \<and> write_graph_cache_file h = write_graph_cache_file g \<longrightarrow> keep_graph h = keep_graph g)"
proof (intro conjI allI impI)
  show "read_graph_cache_file (write_graph_cache_file g @ rest) = Got (keep_graph g) rest"
    by (rule graph_codec.reads_back [OF assms])
  fix h assume "graph_body_ok h \<and> write_graph_cache_file h = write_graph_cache_file g"
  then show "keep_graph h = keep_graph g" using graph_codec.same_bytes [of h g "[]" "[]"] assms by simp
qed

lemma graph_cache_round_trip_witness:
  "read_graph_cache_file (write_graph_cache_file sample_graph @ ''tail'') = Got (keep_graph sample_graph) ''tail''"
  using graph_cache_round_trip [OF sample_graph_ok, of "''tail''"] by blast

text \<open>A graph cache file that was cut short anywhere is never read as a graph.\<close>

theorem graph_cache_cut_short:
  assumes "graph_body_ok g" "k < length (write_graph_cache_file g)"
  shows "read_graph_cache_file (take k (write_graph_cache_file g)) \<noteq> Got h r"
  using assms by (rule graph_codec.cut_short)

lemma graph_cache_cut_short_witness:
  "read_graph_cache_file (take 10 (write_graph_cache_file sample_graph)) \<noteq> Got sample_graph []"
  by (rule graph_cache_cut_short [OF sample_graph_ok])
    (simp add: write_graph_cache_file_def GRAPH_MAGIC_def write_name_def write_str_def write_u64_def le_bytes_def)

end
