(* ===== verification/QArgv.thy ===== *)
theory QArgv
  imports QPrelude "HOL-Library.Word"
begin

text \<open>
  \<^verbatim>\<open>src/argv.c\<close>: the argument vector every action is built from. Lengths, capacities and byte counts
  are \<open>size_t\<close>, modelled as 64-bit words with the wrap-around the C code guards against; \<open>alloc n\<close>
  says whether a request for \<open>n\<close> bytes is granted. \<open>None\<close> is the return value \<open>-1\<close>, which leaves the
  vector as it was.
\<close>

abbreviation SIZE_MAX :: "64 word" where "SIZE_MAX \<equiv> - 1"

definition size_of :: "string \<Rightarrow> 64 word" where
  "size_of s = of_nat (length s)"

record qstar_argv =
  av_items :: "string list"
  av_len :: "64 word"
  av_cap :: "64 word"
  av_bytes :: "64 word"

definition qstar_argv_init :: qstar_argv where
  "qstar_argv_init = \<lparr>av_items = [], av_len = 0, av_cap = 0, av_bytes = 0\<rparr>"

text \<open>The doubling loop; it would not end from capacity \<open>0\<close>, which its caller never passes.\<close>

partial_function (option) grow_cap :: "64 word \<Rightarrow> 64 word \<Rightarrow> 64 word option" where
  "grow_cap cap want =
     (if cap < want then (if SIZE_MAX div 2 < cap then Some want else grow_cap (cap * 2) want) else Some cap)"

definition qstar_argv_reserve :: "(64 word \<Rightarrow> bool) \<Rightarrow> qstar_argv \<Rightarrow> 64 word \<Rightarrow> qstar_argv option" where
  "qstar_argv_reserve alloc argv want =
     (if want \<le> av_cap argv then Some argv
      else if want = SIZE_MAX then None
      else case grow_cap (if av_cap argv = 0 then 8 else av_cap argv) want of
          None \<Rightarrow> None
        | Some cap \<Rightarrow>
            if cap = SIZE_MAX then None
            else if SIZE_MAX div 8 < cap + 1 then None
            else if \<not> alloc ((cap + 1) * 8) then None
            else Some (argv\<lparr>av_cap := cap\<rparr>))"

definition qstar_argv_push :: "(64 word \<Rightarrow> bool) \<Rightarrow> qstar_argv \<Rightarrow> string \<Rightarrow> qstar_argv option" where
  "qstar_argv_push alloc argv value =
     (let n = size_of value
      in if av_len argv = SIZE_MAX \<or> n = SIZE_MAX \<or> SIZE_MAX - (n + 1) < av_bytes argv then None
         else if \<not> alloc (n + 1) then None
         else case qstar_argv_reserve alloc argv (av_len argv + 1) of
             None \<Rightarrow> None
           | Some a \<Rightarrow> Some (a\<lparr>av_items := av_items a @ [value], av_len := av_len a + 1,
               av_bytes := av_bytes a + (n + 1)\<rparr>))"

fun push_items :: "(64 word \<Rightarrow> bool) \<Rightarrow> qstar_argv \<Rightarrow> string list \<Rightarrow> qstar_argv option" where
  "push_items alloc argv [] = Some argv"
| "push_items alloc argv (x # xs) = (case qstar_argv_push alloc argv x of
      None \<Rightarrow> None | Some argv' \<Rightarrow> push_items alloc argv' xs)"

definition qstar_argv_clone :: "(64 word \<Rightarrow> bool) \<Rightarrow> qstar_argv \<Rightarrow> qstar_argv option" where
  "qstar_argv_clone alloc src = (case qstar_argv_reserve alloc qstar_argv_init (av_len src) of
      None \<Rightarrow> None | Some copy \<Rightarrow> push_items alloc copy (av_items src))"

definition qstar_argv_data :: "qstar_argv \<Rightarrow> string list" where
  "qstar_argv_data argv = av_items argv"

definition qstar_argv_free :: "qstar_argv \<Rightarrow> qstar_argv" where
  "qstar_argv_free argv = qstar_argv_init"

section \<open>The counters are exact\<close>

definition argv_bytes :: "string list \<Rightarrow> nat" where
  "argv_bytes xs = sum_list (map (\<lambda>x. length x + 1) xs)"

definition argv_ok :: "qstar_argv \<Rightarrow> bool" where
  "argv_ok a \<longleftrightarrow> unat (av_len a) = length (av_items a) \<and> unat (av_bytes a) = argv_bytes (av_items a) \<and>
     av_len a \<le> av_cap a \<and> 8 * (unat (av_cap a) + 1) < 2 ^ 64"

lemma unat_SIZE_MAX: "unat SIZE_MAX = 2 ^ 64 - 1"
  by (simp add: unsigned_minus_1_eq_mask mask_eq_exp_minus_1)

lemma unat_half: "unat (SIZE_MAX div 2) = 2 ^ 63 - 1" and unat_eighth: "unat (SIZE_MAX div 8) = 2 ^ 61 - 1"
  by (simp_all add: unat_div unat_SIZE_MAX)

lemma unat_size_of: "length s < 2 ^ 64 \<Longrightarrow> unat (size_of s) = length s"
  by (simp add: size_of_def unat_of_nat)

lemma grow_cap_returns:
  "0 < cap \<Longrightarrow> \<exists>c. grow_cap cap want = Some c \<and> want \<le> c \<and> unat c \<le> max (unat cap) (2 * unat want)"
proof (induction "unat want - unat cap" arbitrary: cap rule: less_induct)
  case less
  show ?case
  proof (cases "cap < want")
    case False
    then show ?thesis by (subst grow_cap.simps) (auto simp: not_less)
  next
    case lt: True
    show ?thesis
    proof (cases "SIZE_MAX div 2 < cap")
      case True
      then show ?thesis using lt by (subst grow_cap.simps) auto
    next
      case False
      then have "unat cap \<le> 2 ^ 63 - 1" using unat_half by (simp only: word_less_nat_alt not_less)
      then have d: "unat (cap * 2) = 2 * unat cap" by (subst unat_mult_lem [THEN iffD1]) (auto simp: mult.commute)
      have "0 < unat cap" using less.prems by (simp add: unat_gt_0)
      moreover have l: "unat cap < unat want" using lt by (simp add: word_less_nat_alt)
      ultimately have "unat want - unat (cap * 2) < unat want - unat cap" and "0 < cap * 2"
        using d by (simp_all add: word_less_nat_alt)
      then obtain c where "grow_cap (cap * 2) want = Some c" "want \<le> c"
          "unat c \<le> max (unat (cap * 2)) (2 * unat want)"
        using less.hyps by blast
      then show ?thesis using lt False d l by (subst grow_cap.simps) auto
    qed
  qed
qed

lemma unat_Suc: "w \<noteq> SIZE_MAX \<Longrightarrow> unat (w + 1) = unat w + 1" for w :: "64 word"
  by (metis Suc_eq_plus1 add.commute unatSuc add_eq_0_iff)

text \<open>The overflow test of \<open>b + n\<close> is exact, and without overflow the sum is.\<close>

lemma sum_fits: "\<not> SIZE_MAX - n < b \<longleftrightarrow> unat b + unat n < 2 ^ 64"
proof -
  have "unat (SIZE_MAX - n) = 2 ^ 64 - 1 - unat n" using unat_SIZE_MAX unat_sub [of n SIZE_MAX] by simp
  then show ?thesis using unsigned_less [of n, where ?'a = nat] by (simp only: word_less_nat_alt) auto
qed

lemma unat_sum: "unat b + unat n < 2 ^ 64 \<Longrightarrow> unat (b + n) = unat b + unat n" for b n :: "64 word"
  by (subst unat_add_lem [THEN iffD1]) auto

lemma reserve_ok:
  assumes "argv_ok a" and "qstar_argv_reserve alloc a want = Some a'"
  shows "argv_ok a' \<and> want \<le> av_cap a' \<and> av_items a' = av_items a \<and> av_len a' = av_len a \<and> av_bytes a' = av_bytes a"
proof (cases "want \<le> av_cap a")
  case True
  then show ?thesis using assms by (simp add: qstar_argv_reserve_def)
next
  case False
  let ?c0 = "if av_cap a = 0 then 8 else av_cap a"
  obtain cap where cap: "grow_cap ?c0 want = Some cap" "cap \<noteq> SIZE_MAX" "\<not> SIZE_MAX div 8 < cap + 1"
    and a': "a' = a\<lparr>av_cap := cap\<rparr>"
    using assms(2) False by (auto simp: qstar_argv_reserve_def split: option.splits if_split_asm)
  have "0 < ?c0" by (simp add: word_gt_0)
  then have w: "want \<le> cap" using grow_cap_returns [of ?c0 want] cap(1) by (metis option.inject)
  have "unat cap + 1 \<le> 2 ^ 61 - 1"
    using cap(2,3) unat_eighth unat_Suc [OF cap(2)] by (simp only: word_less_nat_alt not_less)
  moreover have "av_len a \<le> cap" using assms(1) w False by (auto simp: argv_ok_def)
  ultimately show ?thesis using assms(1) w a' by (simp add: argv_ok_def)
qed

lemma reserve_returns:
  assumes "\<And>n. alloc n" and "argv_ok a" and "unat want < 2 ^ 59"
  shows "\<exists>a'. qstar_argv_reserve alloc a want = Some a'"
proof (cases "want \<le> av_cap a")
  case True
  then show ?thesis by (simp add: qstar_argv_reserve_def)
next
  case False
  let ?c0 = "if av_cap a = 0 then 8 else av_cap a"
  have "0 < ?c0" by (simp add: word_gt_0)
  then obtain cap where cap: "grow_cap ?c0 want = Some cap" "unat cap \<le> max (unat ?c0) (2 * unat want)"
    using grow_cap_returns by blast
  have "unat ?c0 \<le> max 8 (unat want)" using False by (auto simp: word_le_nat_alt)
  then have small: "unat cap < 2 ^ 60" using cap(2) assms(3) by auto
  then have n: "cap \<noteq> SIZE_MAX" using unat_SIZE_MAX by auto
  have "\<not> SIZE_MAX div 8 < cap + 1"
    using small unat_Suc [OF n] unat_eighth by (simp only: word_less_nat_alt) simp
  moreover have "want \<noteq> SIZE_MAX" using assms(3) unat_SIZE_MAX by auto
  ultimately show ?thesis using cap(1) n assms(1) False by (simp add: qstar_argv_reserve_def)
qed

lemma push_ok:
  assumes "argv_ok a" and "length value < 2 ^ 64" and p: "qstar_argv_push alloc a value = Some a'"
  shows "argv_ok a' \<and> av_items a' = av_items a @ [value]"
proof -
  from p obtain b where n: "av_len a \<noteq> SIZE_MAX" "size_of value \<noteq> SIZE_MAX"
      "\<not> SIZE_MAX - (size_of value + 1) < av_bytes a"
    and r: "qstar_argv_reserve alloc a (av_len a + 1) = Some b"
    and a': "a' = b\<lparr>av_items := av_items b @ [value], av_len := av_len b + 1, av_bytes := av_bytes b + (size_of value + 1)\<rparr>"
    by (auto simp: qstar_argv_push_def Let_def split: option.splits if_split_asm)
  have b: "argv_ok b" "av_len a + 1 \<le> av_cap b" "av_items b = av_items a" "av_len b = av_len a" "av_bytes b = av_bytes a"
    using reserve_ok [OF assms(1) r] by simp_all
  have s: "unat (size_of value + 1) = length value + 1"
    using unat_Suc [OF n(2)] unat_size_of [OF assms(2)] by simp
  have "unat (av_bytes a + (size_of value + 1)) = unat (av_bytes a) + unat (size_of value + 1)"
    using n(3) unat_sum sum_fits by blast
  then show "argv_ok a' \<and> av_items a' = av_items a @ [value]"
    using b s unat_Suc [OF n(1)] a' by (simp add: argv_ok_def argv_bytes_def)
qed

lemma push_returns:
  assumes "argv_ok a" and "length value < 2 ^ 64"
    and small: "(\<forall>n. alloc n) \<and> argv_bytes (av_items a @ [value]) < 2 ^ 58"
  shows "\<exists>a'. qstar_argv_push alloc a value = Some a'"
proof -
  have len: "length xs \<le> argv_bytes xs" for xs by (induction xs) (simp_all add: argv_bytes_def)
  have "length (av_items a) < 2 ^ 58" "length value < 2 ^ 58" "unat (av_bytes a) + length value + 1 < 2 ^ 58"
    using small len [of "av_items a"] assms(1) by (simp_all add: argv_bytes_def argv_ok_def)
  moreover from this have "av_len a \<noteq> SIZE_MAX" "size_of value \<noteq> SIZE_MAX"
    using assms unat_SIZE_MAX unat_size_of [OF assms(2)] by (auto simp: argv_ok_def)
  moreover from this calculation obtain b where "qstar_argv_reserve alloc a (av_len a + 1) = Some b"
    using reserve_returns [of alloc a "av_len a + 1"] small assms(1) unat_Suc by (auto simp: argv_ok_def)
  moreover have "\<not> SIZE_MAX - (size_of value + 1) < av_bytes a"
    unfolding sum_fits using calculation unat_Suc [of "size_of value"] unat_size_of [OF assms(2)] by simp
  ultimately show "\<exists>a'. qstar_argv_push alloc a value = Some a'"
    using small by (auto simp: qstar_argv_push_def Let_def)
qed

text \<open>
  C39: The counters of an argument vector never wrap around: pushing any string that fits the address
  space onto a vector whose length, capacity and byte count are exact either changes nothing or
  appends exactly that string, and the three counters are exact afterwards. While the vector stays
  far below the address space and memory is granted, pushing succeeds.
\<close>

theorem argv_push_exact:
  assumes "argv_ok a" and "length value < 2 ^ 64"
  shows "(\<forall>a'. qstar_argv_push alloc a value = Some a' \<longrightarrow> argv_ok a' \<and> av_items a' = av_items a @ [value])
    \<and> ((\<forall>n. alloc n) \<and> argv_bytes (av_items a @ [value]) < 2 ^ 58 \<longrightarrow>
       (\<exists>a'. qstar_argv_push alloc a value = Some a'))"
  using push_ok [OF assms] push_returns [OF assms] by blast

lemma init_ok: "argv_ok qstar_argv_init"
  by (simp add: argv_ok_def qstar_argv_init_def argv_bytes_def)

theorem argv_push_exact_witness:
  "argv_ok qstar_argv_init \<and> (\<exists>a. qstar_argv_push (\<lambda>n. True) qstar_argv_init ''cc'' = Some a \<and> av_items a = [''cc''])"
  using argv_push_exact [OF init_ok, of "''cc''" "\<lambda>n. True"] init_ok
  by (auto simp: argv_bytes_def qstar_argv_init_def)

lemma push_items_ok:
  "push_items alloc a xs = Some a' \<Longrightarrow> argv_ok a \<Longrightarrow> list_all (\<lambda>x. length x < 2 ^ 64) xs \<Longrightarrow>
   argv_ok a' \<and> av_items a' = av_items a @ xs"
proof (induction xs arbitrary: a)
  case (Cons x xs)
  then obtain b where b: "qstar_argv_push alloc a x = Some b" "push_items alloc b xs = Some a'"
    by (auto split: option.splits)
  then show ?case using Cons push_ok [OF Cons.prems(2) _ b(1)] by simp
qed simp

lemma push_items_return:
  "\<forall>n. alloc n \<Longrightarrow> argv_ok a \<Longrightarrow> list_all (\<lambda>x. length x < 2 ^ 64) xs \<Longrightarrow>
   argv_bytes (av_items a @ xs) < 2 ^ 58 \<Longrightarrow> \<exists>a'. push_items alloc a xs = Some a'"
proof (induction xs arbitrary: a)
  case (Cons x xs)
  have "argv_bytes (av_items a @ [x]) < 2 ^ 58" using Cons.prems(4) by (simp add: argv_bytes_def)
  then obtain b where b: "qstar_argv_push alloc a x = Some b"
    using push_returns [of a x alloc] Cons.prems(1-3) by auto
  then have "argv_ok b" "av_items b = av_items a @ [x]" using push_ok [OF Cons.prems(2) _ b] Cons.prems(3) by simp_all
  then have "\<exists>a'. push_items alloc b xs = Some a'" using Cons.IH [OF Cons.prems(1), of b] Cons.prems(2-) by simp
  then show ?case using b by simp
qed simp

lemma clone_items:
  "qstar_argv_clone alloc src = Some c \<Longrightarrow> list_all (\<lambda>x. length x < 2 ^ 64) (av_items src) \<Longrightarrow>
   argv_ok c \<and> av_items c = av_items src"
proof -
  assume c: "qstar_argv_clone alloc src = Some c" and fit: "list_all (\<lambda>x. length x < 2 ^ 64) (av_items src)"
  obtain b where b: "qstar_argv_reserve alloc qstar_argv_init (av_len src) = Some b"
      "push_items alloc b (av_items src) = Some c"
    using c by (auto simp: qstar_argv_clone_def split: option.splits)
  have "argv_ok b" "av_items b = []" using reserve_ok [OF init_ok b(1)] by (simp_all add: qstar_argv_init_def)
  then show ?thesis using push_items_ok [OF b(2) _ fit] by simp
qed

end
