(* ===== verification/QMaterialize.thy ===== *)
theory QMaterialize
  imports QArgv QQuote QToolContext
begin

unbundle bit_operations_syntax

text \<open>
  \<^verbatim>\<open>src/action_materialize.c\<close> with the quoting of \<^verbatim>\<open>src/platform_process.c\<close>: the step from the logical
  argument vector of an action to the command that is started. Long vectors go to a response file,
  quoted in the style of the toolset; vectors that cannot use one are checked against the limit of the
  host. Digests are 64-bit FNV-1a. File access, the memory allocator, the environment block and
  \<open>sysconf(_SC_ARG_MAX)\<close> are parameters.
\<close>

section \<open>Digests\<close>

definition HASH_INIT :: "64 word" where "HASH_INIT = 1469598103934665603"
definition HASH_PRIME :: "64 word" where "HASH_PRIME = 1099511628211"

definition byte_word :: "char \<Rightarrow> 64 word" where
  "byte_word c = of_nat (byte c)"

definition hash_bytes :: "64 word \<Rightarrow> string \<Rightarrow> 64 word" where
  "hash_bytes h value = (foldl (\<lambda>h c. (h XOR byte_word c) * HASH_PRIME) h value XOR 0xff) * HASH_PRIME"

fun hex_digits :: "nat \<Rightarrow> 64 word \<Rightarrow> string" where
  "hex_digits 0 w = []"
| "hex_digits (Suc n) w = hex_digits n (drop_bit 4 w) @ [hex_digit (unat (w AND 15))]"

text \<open>\<open>%016llx\<close>\<close>

definition hex16 :: "64 word \<Rightarrow> string" where
  "hex16 w = hex_digits 16 w"

definition qstar_argv_digest :: "string list \<Rightarrow> string" where
  "qstar_argv_digest items = hex16 (foldl hash_bytes HASH_INIT items)"

definition qstar_action_needs_response_file :: "qstar_argv \<Rightarrow> bool" where
  "qstar_action_needs_response_file logical \<longleftrightarrow> 512 \<le> av_bytes logical \<or> 48 < av_len logical"

definition response_digest_char :: "64 word \<Rightarrow> char \<Rightarrow> 64 word" where
  "response_digest_char h c = (h XOR byte_word c) * HASH_PRIME"

definition response_digest_text :: "64 word \<Rightarrow> string \<Rightarrow> 64 word" where
  "response_digest_text h s = foldl response_digest_char h s"

definition response_digest_shell_arg :: "64 word \<Rightarrow> string \<Rightarrow> 64 word" where
  "response_digest_shell_arg h s =
     (if s \<noteq> [] \<and> list_all shell_simple_char s then response_digest_text h s
      else response_digest_char
        (foldl (\<lambda>h c. if c = SQ then response_digest_text h [SQ, BS, SQ, SQ] else response_digest_char h c)
           (response_digest_char h SQ) s) SQ)"

text \<open>\<open>repeated f n\<close> is the loop that runs \<open>f\<close> while backslashes are pending.\<close>

fun repeated :: "(64 word \<Rightarrow> 64 word) \<Rightarrow> nat \<Rightarrow> 64 word \<Rightarrow> 64 word" where
  "repeated f 0 h = h"
| "repeated f (Suc n) h = repeated f n (f h)"

fun windows_digest_body :: "nat \<Rightarrow> 64 word \<Rightarrow> string \<Rightarrow> 64 word" where
  "windows_digest_body n h [] = repeated (\<lambda>h. response_digest_text h [BS, BS]) n h"
| "windows_digest_body n h (c # cs) =
     (if c = BS then windows_digest_body (Suc n) h cs
      else if c = DQ then
        windows_digest_body 0
          (response_digest_text (repeated (\<lambda>h. response_digest_text h [BS, BS]) n h) [BS, DQ]) cs
      else windows_digest_body 0 (response_digest_char (repeated (\<lambda>h. response_digest_char h BS) n h) c) cs)"

definition response_digest_windows_arg :: "64 word \<Rightarrow> string \<Rightarrow> 64 word" where
  "response_digest_windows_arg h s =
     (if s \<noteq> [] \<and> list_all (\<lambda>c. \<not> is_space c \<and> c \<noteq> DQ \<and> c \<noteq> BS) s then response_digest_text h s
      else response_digest_char (windows_digest_body 0 (response_digest_char h DQ) s) DQ)"

definition windows_style :: "cstr \<Rightarrow> bool" where
  "windows_style style \<longleftrightarrow> style = Some ''windows'' \<or> style = Some ''msvc''"

definition response_digest :: "string list \<Rightarrow> cstr \<Rightarrow> 64 word" where
  "response_digest items style = foldl
     (\<lambda>h s. response_digest_char
        (if windows_style style then response_digest_windows_arg h s else response_digest_shell_arg h s) (hd NL))
     HASH_INIT (drop 1 items)"

section \<open>Response files\<close>

definition write_response_arg :: "string \<Rightarrow> cstr \<Rightarrow> string" where
  "write_response_arg value style =
     (if windows_style style then write_windows_arg value else write_shell_arg value)"

definition response_text :: "cstr \<Rightarrow> string list \<Rightarrow> string" where
  "response_text style items = concat (map (\<lambda>s. write_response_arg s style @ NL) (drop 1 items))"

text \<open>
  What the file system allows, by path: the directories can be made, the file opened for writing, and
  closed without error. The result is the full path and the text written.
\<close>

record file_access =
  fa_mkdir :: "string \<Rightarrow> bool"
  fa_open :: "string \<Rightarrow> bool"
  fa_close :: "string \<Rightarrow> bool"

definition write_response_file ::
  "file_access \<Rightarrow> qstar_graph \<Rightarrow> string list \<Rightarrow> string \<Rightarrow> cstr \<Rightarrow> qerr + (string \<times> string)" where
  "write_response_file fa g items response_file style =
     (let root = nonempty_or ''.'' (gr_package_root g);
          no_dir = Inl (Plain ''qstar: could not create response file directory'')
      in case qstar_path_join (Some root) response_file PATH_MAX of
          None \<Rightarrow> no_dir
        | Some full \<Rightarrow> (case qstar_dirname full PATH_MAX of
              None \<Rightarrow> no_dir
            | Some parent \<Rightarrow>
                if \<not> fa_mkdir fa parent then no_dir
                else if \<not> fa_open fa full then
                  Inl (Plain (''qstar: could not write response file '' @ sq response_file))
                else if \<not> fa_close fa full then
                  Inl (Plain (''qstar: could not close response file '' @ sq response_file))
                else Inr (full, response_text style items)))"

section \<open>Command lines and limits\<close>

definition windows_argv_needs_sh_adapter :: "host_os \<Rightarrow> string list \<Rightarrow> bool" where
  "windows_argv_needs_sh_adapter host argv \<longleftrightarrow> host = HostWindows \<and> argv \<noteq> [] \<and> ends_with ''.sh'' (hd argv)"

text \<open>A vector of its own for a script, nothing for other programs or when there is no memory for it.\<close>

definition windows_effective_argv :: "(64 word \<Rightarrow> bool) \<Rightarrow> host_os \<Rightarrow> string list \<Rightarrow> string list option" where
  "windows_effective_argv alloc host argv =
     (if \<not> windows_argv_needs_sh_adapter host argv \<or> \<not> alloc ((of_nat (length argv) + 2) * 8) then None
      else Some (''sh'' # argv))"

fun windows_command_line :: "string list \<Rightarrow> string" where
  "windows_command_line [] = []"
| "windows_command_line [x] = append_windows_quoted_arg x"
| "windows_command_line (x # y # xs) = append_windows_quoted_arg x @ CHR '' '' # windows_command_line (y # xs)"

definition qstar_platform_windows_command_line_from_argv ::
  "(64 word \<Rightarrow> bool) \<Rightarrow> host_os \<Rightarrow> string list \<Rightarrow> nat \<Rightarrow> string option" where
  "qstar_platform_windows_command_line_from_argv alloc host argv dstlen =
     (if argv = [] \<or> dstlen = 0 then None
      else case windows_effective_argv alloc host argv of
          None \<Rightarrow> if windows_argv_needs_sh_adapter host argv then None else put dstlen (windows_command_line argv)
        | Some items \<Rightarrow> put dstlen (windows_command_line items))"

text \<open>\<open>None\<close> where the code returns \<open>SIZE_MAX\<close> at the first entry that would overflow.\<close>

fun env_bytes_from :: "64 word \<Rightarrow> string list \<Rightarrow> 64 word option" where
  "env_bytes_from bytes [] = Some bytes"
| "env_bytes_from bytes (x # xs) =
     (let n = size_of x + 1 in if SIZE_MAX - n < bytes then None else env_bytes_from (bytes + n) xs)"

definition environment_bytes :: "host_os \<Rightarrow> string list \<Rightarrow> string list \<Rightarrow> 64 word" where
  "environment_bytes host environ env =
     (case env_bytes_from 0 ((if host = HostWindows then [] else environ) @ env) of
        None \<Rightarrow> SIZE_MAX | Some bytes \<Rightarrow> bytes)"

definition command_too_long :: "string \<Rightarrow> qstar_argv \<Rightarrow> string \<Rightarrow> 64 word \<Rightarrow> qerr" where
  "command_too_long action_id logical toolset limit = Plain (''qstar: final action '' @ sq action_id @
     '' requires '' @ nat_str (unat (av_len logical)) @ '' argv items and '' @ nat_str (unat (av_bytes logical)) @
     '' bytes, but response files are unavailable under toolset '' @ sq toolset @
     '' and the host command limit is '' @ nat_str (unat limit) @ '' bytes'')"

definition required_bytes :: "qstar_argv \<Rightarrow> 64 word \<Rightarrow> 64 word" where
  "required_bytes logical env_bytes =
     (let pointer_bytes = (if av_len logical = SIZE_MAX \<or> SIZE_MAX div 8 < av_len logical + 1 then SIZE_MAX
                           else (av_len logical + 1) * 8)
      in if env_bytes = SIZE_MAX \<or> pointer_bytes = SIZE_MAX \<or> SIZE_MAX - pointer_bytes < av_bytes logical \<or>
            SIZE_MAX - av_bytes logical - pointer_bytes < env_bytes then SIZE_MAX
         else av_bytes logical + pointer_bytes + env_bytes)"

text \<open>The second component is the limit stored in \<open>host_limit\<close>.\<close>

definition validate_full_command_limit ::
  "(64 word \<Rightarrow> bool) \<Rightarrow> host_os \<Rightarrow> string list \<Rightarrow> int \<Rightarrow> string \<Rightarrow> qstar_resolved_toolchain option \<Rightarrow> qstar_argv \<Rightarrow> string list \<Rightarrow>
   check \<times> 64 word" where
  "validate_full_command_limit alloc host environ sc_arg_max action_id toolchain logical env =
     (let toolset = (case toolchain of None \<Rightarrow> ''<default>''
                     | Some tc \<Rightarrow> if rt_toolset tc = [] then ''<default>'' else rt_toolset tc);
          windows = (case toolchain of None \<Rightarrow> False
                     | Some tc \<Rightarrow> qstar_platform_is_windows host (Some (rt_platform tc)))
      in if windows then
           (let limit = 32767
            in (reject (qstar_platform_windows_command_line_from_argv alloc host (qstar_argv_data logical) 32768 = None)
                  (command_too_long action_id logical toolset limit), limit))
         else
           (let limit = (if 0 < sc_arg_max then word_of_int sc_arg_max else 131072);
                required = required_bytes logical (environment_bytes host environ env)
            in (reject (\<not> (2048 < limit \<and> required \<le> limit - 2048))
                  (command_too_long action_id logical toolset limit), limit)))"

section \<open>Materialization\<close>

record qstar_materialized_command =
  mc_exec_argv :: qstar_argv
  mc_response_file :: string
  mc_response_style :: string
  mc_logical_argv_digest :: string
  mc_response_digest :: string
  mc_logical_argc :: "64 word"
  mc_logical_bytes :: "64 word"
  mc_exec_argc :: "64 word"
  mc_host_limit :: "64 word"
  mc_needs_response_file :: bool
  mc_uses_response_file :: bool

definition new_command :: "qstar_argv \<Rightarrow> qstar_materialized_command" where
  "new_command logical = \<lparr>mc_exec_argv = qstar_argv_init, mc_response_file = [], mc_response_style = [],
     mc_logical_argv_digest = qstar_argv_digest (av_items logical), mc_response_digest = [],
     mc_logical_argc = av_len logical, mc_logical_bytes = av_bytes logical, mc_exec_argc = 0, mc_host_limit = 0,
     mc_needs_response_file = qstar_action_needs_response_file logical, mc_uses_response_file = False\<rparr>"

text \<open>What the operating system gives: the host, memory, files, environment and argument limit.\<close>

record system =
  sy_host :: host_os
  sy_alloc :: "64 word \<Rightarrow> bool"
  sy_files :: file_access
  sy_environ :: "string list"
  sy_arg_max :: int

definition materialize_direct ::
  "system \<Rightarrow> string \<Rightarrow> qstar_resolved_toolchain option \<Rightarrow> qstar_argv \<Rightarrow> string list \<Rightarrow> qerr + qstar_materialized_command" where
  "materialize_direct sy action_id toolchain logical env =
     (case qstar_argv_clone (sy_alloc sy) logical of
        None \<Rightarrow> Inl (Plain ''qstar: out of memory'')
      | Some argv \<Rightarrow>
          (let command = (new_command logical)\<lparr>mc_exec_argv := argv, mc_exec_argc := av_len argv\<rparr>;
               enabled = (\<exists>tc \<in> set_option toolchain. rt_response_files tc)
           in if enabled then Inr command
              else case validate_full_command_limit (sy_alloc sy) (sy_host sy) (sy_environ sy) (sy_arg_max sy) action_id
                     toolchain logical env of
                  (Inl e, _) \<Rightarrow> Inl e
                | (Inr _, limit) \<Rightarrow> Inr (command\<lparr>mc_host_limit := limit\<rparr>)))"

definition response_path :: "qstar_graph \<Rightarrow> string \<Rightarrow> string option" where
  "response_path g action_id =
     (case put PATH_MAX (''rsp/'' @ qstar_mangle_label action_id PATH_MAX @ ''.rsp'') of
        None \<Rightarrow> None | Some sub \<Rightarrow> qstar_graph_build_path g (Some sub) PATH_MAX)"

definition materialize_response ::
  "system \<Rightarrow> qstar_graph \<Rightarrow> string \<Rightarrow> qstar_resolved_toolchain \<Rightarrow> qstar_argv \<Rightarrow> bool \<Rightarrow>
   qerr + (qstar_materialized_command \<times> (string \<times> string) option)" where
  "materialize_response sy g action_id toolchain logical write_response =
     (let style = (if rt_response_style toolchain = [] then ''posix'' else rt_response_style toolchain)
      in case response_path g action_id of
          None \<Rightarrow> Inl (Plain ''qstar: response file path too long'')
        | Some file \<Rightarrow>
            (case (if write_response then map_sum id Some
                     (write_response_file (sy_files sy) g (av_items logical) file (Some (trunc_buf 32 style)))
                   else Inr None) of
               Inl e \<Rightarrow> Inl e
             | Inr written \<Rightarrow>
                 (case put PATH_MAX (CHR ''@'' # file) of
                    None \<Rightarrow> Inl (Plain ''qstar: out of memory'')
                  | Some arg \<Rightarrow>
                      (case push_items (sy_alloc sy) qstar_argv_init [hd (av_items logical), arg] of
                         None \<Rightarrow> Inl (Plain ''qstar: out of memory'')
                       | Some argv \<Rightarrow> Inr ((new_command logical)
                           \<lparr>mc_exec_argv := argv, mc_response_file := file, mc_response_style := trunc_buf 32 style,
                            mc_response_digest := hex16 (response_digest (av_items logical) (Some style)),
                            mc_exec_argc := av_len argv, mc_uses_response_file := True\<rparr>, written)))))"

text \<open>The command, and the response file written for it.\<close>

definition qstar_action_materialize ::
  "system \<Rightarrow> qstar_graph \<Rightarrow> cstr \<Rightarrow> qstar_resolved_toolchain option \<Rightarrow> qstar_argv option \<Rightarrow> string list \<Rightarrow> bool \<Rightarrow>
   qerr + (qstar_materialized_command \<times> (string \<times> string) option)" where
  "qstar_action_materialize sy g action_id toolchain logical env write_response =
     (case (action_id, logical) of
        (Some aid, Some argv) \<Rightarrow>
          if av_len argv = 0 then
            Inl (Plain ''qstar: action materialization requires a non-empty logical argv'')
          else (case toolchain of
              Some tc \<Rightarrow>
                if qstar_action_needs_response_file argv \<and> rt_response_files tc then
                  materialize_response sy g aid tc argv write_response
                else map_sum id (\<lambda>c. (c, None)) (materialize_direct sy aid toolchain argv env)
            | None \<Rightarrow> map_sum id (\<lambda>c. (c, None)) (materialize_direct sy aid None argv env))
      | _ \<Rightarrow> Inl (Plain ''qstar: action materialization requires a non-empty logical argv''))"

fun raw_bytes :: "64 word \<Rightarrow> string list \<Rightarrow> 64 word option" where
  "raw_bytes bytes [] = Some bytes"
| "raw_bytes bytes (x # xs) =
     (if SIZE_MAX - size_of x - 1 < bytes then None else raw_bytes (bytes + (size_of x + 1)) xs)"

definition qstar_action_materialize_raw ::
  "system \<Rightarrow> qstar_graph \<Rightarrow> cstr \<Rightarrow> qstar_resolved_toolchain option \<Rightarrow> string list \<Rightarrow> string list \<Rightarrow> bool \<Rightarrow>
   qerr + (qstar_materialized_command \<times> (string \<times> string) option)" where
  "qstar_action_materialize_raw sy g action_id toolchain items env write_response =
     (case raw_bytes 0 items of
        None \<Rightarrow> Inl (Plain ''qstar: logical argv byte count overflow'')
      | Some bytes \<Rightarrow> qstar_action_materialize sy g action_id toolchain
          (Some \<lparr>av_items = items, av_len = of_nat (length items), av_cap = of_nat (length items),
                 av_bytes = bytes\<rparr>) env write_response)"

definition qstar_materialized_command_free :: "qstar_materialized_command \<Rightarrow> qstar_materialized_command" where
  "qstar_materialized_command_free command = \<lparr>mc_exec_argv = qstar_argv_free (mc_exec_argv command),
     mc_response_file = [], mc_response_style = [], mc_logical_argv_digest = [], mc_response_digest = [],
     mc_logical_argc = 0, mc_logical_bytes = 0, mc_exec_argc = 0, mc_host_limit = 0,
     mc_needs_response_file = False, mc_uses_response_file = False\<rparr>"

section \<open>The digest of a response file\<close>

lemma digest_text_append: "response_digest_text h (a @ b) = response_digest_text (response_digest_text h a) b"
  and digest_text_Cons: "response_digest_text h (c # s) = response_digest_text (response_digest_char h c) s"
  and digest_text_Nil [simp]: "response_digest_text h [] = h"
  by (simp_all add: response_digest_text_def)

lemmas digest_text_simps = digest_text_append digest_text_Cons

lemma repeated_char: "repeated (\<lambda>h. response_digest_char h c) n h = response_digest_text h (replicate n c)"
  by (induction n arbitrary: h) (simp_all add: digest_text_simps)

lemma repeated_pairs:
  "repeated (\<lambda>h. response_digest_char (response_digest_char h c) c) n h = response_digest_text h (replicate (2 * n) c)"
  by (induction n arbitrary: h) (simp_all add: digest_text_simps)

lemma digest_shell: "response_digest_shell_arg h s = response_digest_text h (write_shell_arg s)"
proof -
  have "foldl (\<lambda>h c. if c = SQ then response_digest_text h [SQ, BS, SQ, SQ] else response_digest_char h c) h t =
      response_digest_text h (concat (map shell_char t))" for h t
    by (induction t arbitrary: h) (simp_all add: shell_char_def digest_text_simps)
  then show ?thesis
    by (auto simp: response_digest_shell_arg_def write_shell_arg_def digest_text_simps)
qed

lemma digest_windows_body: "windows_digest_body n h s = response_digest_text h (windows_body n s)"
  by (induction n s arbitrary: h rule: windows_body.induct)
    (simp_all add: repeated_pairs repeated_char digest_text_simps)

lemma digest_windows: "response_digest_windows_arg h s = response_digest_text h (write_windows_arg s)"
  by (auto simp: response_digest_windows_arg_def write_windows_arg_def digest_windows_body digest_text_simps)

text \<open>
  The digest of a response file, computed without the file, is the digest of exactly the text that
  is written to it: for every argument vector and quoting style the incremental computation agrees
  with hashing the bytes of the finished file.
\<close>

theorem response_digest_exact:
  "response_digest items style = response_digest_text HASH_INIT (response_text style items)"
proof -
  have "foldl (\<lambda>h s. response_digest_char
          (if windows_style style then response_digest_windows_arg h s else response_digest_shell_arg h s) (hd NL)) h xs
      = response_digest_text h (concat (map (\<lambda>s. write_response_arg s style @ NL) xs))" for h xs
    by (induction xs arbitrary: h)
      (simp_all add: write_response_arg_def digest_shell digest_windows digest_text_simps NL_def)
  then show ?thesis by (simp add: response_digest_def response_text_def)
qed

section \<open>The started program sees the logical arguments\<close>

lemma map_sum_Inr: "map_sum id f r = Inr y \<longleftrightarrow> (\<exists>x. r = Inr x \<and> y = f x)"
  by (cases r) auto

definition response_word :: "cstr \<Rightarrow> string \<Rightarrow> (string \<times> string) option" where
  "response_word style = (if windows_style style then win_word is_space False 0 else sh_word False)"

lemma response_text_reads:
  "read_words (response_word style) (length (drop 1 items)) (response_text style items) = Some (drop 1 items)"
  using shell_lines.read_lines [of "drop 1 items"] windows_lines.read_lines [of "drop 1 items"]
  by (cases "windows_style style")
    (simp_all add: response_text_def response_word_def write_response_arg_def NL_def)

lemma direct_exec:
  assumes "materialize_direct sy aid toolchain logical env = Inr c"
    and "list_all (\<lambda>x. length x < 2 ^ 64) (av_items logical)"
  shows "\<not> mc_uses_response_file c \<and> av_items (mc_exec_argv c) = av_items logical"
proof -
  obtain a where a: "qstar_argv_clone (sy_alloc sy) logical = Some a"
    using assms(1) by (auto simp: materialize_direct_def split: option.splits)
  then have "av_items a = av_items logical" using clone_items assms(2) by blast
  then show ?thesis using assms(1) a
    by (auto simp: materialize_direct_def Let_def new_command_def split: if_split_asm prod.splits sum.splits)
qed

lemma response_exec:
  assumes "materialize_response sy g aid tc logical True = Inr (c, written)"
    and "length (hd (av_items logical)) < 2 ^ 64"
  shows "mc_uses_response_file c
    \<and> av_items (mc_exec_argv c) = [hd (av_items logical), CHR ''@'' # mc_response_file c]
    \<and> (\<exists>full. written = Some (full, response_text (Some (mc_response_style c)) (av_items logical)) \<and>
         qstar_path_join (Some (nonempty_or ''.'' (gr_package_root g))) (mc_response_file c) PATH_MAX = Some full)"
proof -
  define style where "style = (if rt_response_style tc = [] then ''posix'' else rt_response_style tc)"
  let ?put_rsp = "\<lambda>rel. write_response_file (sy_files sy) g (av_items logical) rel (Some (trunc_buf 32 style))"
  obtain rel where f: "response_path g aid = Some rel"
    using assms(1) by (cases "response_path g aid") (simp_all add: materialize_response_def Let_def)
  obtain w where w: "?put_rsp rel = Inr w"
    using assms(1) f by (cases "?put_rsp rel") (simp_all add: materialize_response_def Let_def style_def)
  have arg: "length (CHR ''@'' # rel) < PATH_MAX"
    using assms(1) f w by (rule_tac ccontr) (simp add: materialize_response_def Let_def style_def put_def)
  obtain argv where p: "push_items (sy_alloc sy) qstar_argv_init [hd (av_items logical), CHR ''@'' # rel] = Some argv"
    using assms(1) f w arg by (cases "push_items (sy_alloc sy) qstar_argv_init [hd (av_items logical), CHR ''@'' # rel]")
      (simp_all add: materialize_response_def Let_def style_def put_def del: push_items.simps)
  have c: "written = Some w" "c = (new_command logical)
        \<lparr>mc_exec_argv := argv, mc_response_file := rel, mc_response_style := trunc_buf 32 style,
         mc_response_digest := hex16 (response_digest (av_items logical) (Some style)),
         mc_exec_argc := av_len argv, mc_uses_response_file := True\<rparr>"
    using assms(1) f w arg p
    by (simp_all add: materialize_response_def Let_def style_def put_def del: push_items.simps)
  have "av_items argv = [hd (av_items logical), CHR ''@'' # rel]"
    using push_items_ok [OF p init_ok] assms(2) arg by (simp add: qstar_argv_init_def)
  moreover have "\<exists>full. w = (full, response_text (Some (trunc_buf 32 style)) (av_items logical)) \<and>
      qstar_path_join (Some (nonempty_or ''.'' (gr_package_root g))) rel PATH_MAX = Some full"
    using w by (auto simp: write_response_file_def Let_def split: option.splits if_split_asm)
  ultimately show ?thesis using c arg by simp
qed

text \<open>
  C19: Whatever way an action is started, its program is given the logical arguments. Either they are
  passed unchanged, or a response file is: then the program is the same, its only argument names the
  file under the package root, and reading that file by the rules of its style gives back exactly the
  remaining arguments, spaces, quotes, backslashes and line breaks included.
\<close>

theorem materialize_same_arguments:
  assumes "qstar_action_materialize sy g action_id toolchain (Some logical) env True = Inr (c, written)"
    and "list_all (\<lambda>x. length x < 2 ^ 64) (av_items logical)" and "av_items logical \<noteq> []"
  shows "if mc_uses_response_file c
    then av_items (mc_exec_argv c) = [hd (av_items logical), CHR ''@'' # mc_response_file c]
      \<and> (\<exists>full content. written = Some (full, content)
          \<and> qstar_path_join (Some (nonempty_or ''.'' (gr_package_root g))) (mc_response_file c) PATH_MAX = Some full
          \<and> read_words (response_word (Some (mc_response_style c))) (length (av_items logical) - 1) content
             = Some (tl (av_items logical)))
    else av_items (mc_exec_argv c) = av_items logical \<and> written = None"
proof -
  have hd: "length (hd (av_items logical)) < 2 ^ 64"
    using assms(2,3) by (simp add: list_all_iff)
  have cases: "(\<exists>aid tc. materialize_response sy g aid tc logical True = Inr (c, written)) \<or>
      (\<exists>aid tc. materialize_direct sy aid tc logical env = Inr c \<and> written = None)"
    using assms(1) by (auto simp: qstar_action_materialize_def map_sum_Inr split: option.splits if_split_asm)
  then show ?thesis
  proof
    assume "\<exists>aid tc. materialize_response sy g aid tc logical True = Inr (c, written)"
    then show ?thesis
      using response_exec [OF _ hd] response_text_reads [of "Some (mc_response_style c)" "av_items logical"]
      by (fastforce simp: drop_Suc)
  next
    assume "\<exists>aid tc. materialize_direct sy aid tc logical env = Inr c \<and> written = None"
    then show ?thesis using direct_exec [OF _ assms(2)] by fastforce
  qed
qed

section \<open>The limit check is exact\<close>

lemma env_bytes_from_eq:
  "list_all (\<lambda>x. length x < 2 ^ 64 - 1) xs \<Longrightarrow>
   (case env_bytes_from b xs of None \<Rightarrow> 2 ^ 64 \<le> unat b + argv_bytes xs
    | Some c \<Rightarrow> unat c = unat b + argv_bytes xs)"
proof (induction xs arbitrary: b)
  case (Cons x xs)
  then have "size_of x \<noteq> SIZE_MAX" using unat_size_of [of x] unat_SIZE_MAX by auto
  then have n: "unat (size_of x + 1) = length x + 1" using unat_Suc unat_size_of [of x] Cons.prems by simp
  show ?case
  proof (cases "SIZE_MAX - (size_of x + 1) < b")
    case True
    then show ?thesis using sum_fits [of "size_of x + 1" b] n by (simp add: argv_bytes_def)
  next
    case False
    then have "unat (b + (size_of x + 1)) = unat b + (length x + 1)"
      using sum_fits [of "size_of x + 1" b] unat_sum [of b "size_of x + 1"] n by simp
    then show ?thesis using Cons.IH [of "b + (size_of x + 1)"] Cons.prems False
      by (simp add: argv_bytes_def split: option.splits)
  qed
qed (simp add: argv_bytes_def)

definition inherited :: "host_os \<Rightarrow> string list \<Rightarrow> string list" where
  "inherited host environ = (if host = HostWindows then [] else environ)"

lemma unat_environment_bytes:
  assumes "list_all (\<lambda>x. length x < 2 ^ 64 - 1) (inherited host environ @ env)"
  shows "unat (environment_bytes host environ env) = min (argv_bytes (inherited host environ @ env)) (2 ^ 64 - 1)"
proof -
  have le: "unat w \<le> 2 ^ 64 - 1" for w :: "64 word" using unsigned_less [of w, where ?'a = nat] by simp
  show ?thesis
    using env_bytes_from_eq [OF assms, of 0] unat_SIZE_MAX le
    by (auto simp: environment_bytes_def inherited_def split: option.splits if_splits) (metis le min_def)+
qed

text \<open>The bytes a POSIX host needs: argument texts, one pointer for each and the last, the environment.\<close>

definition posix_need :: "qstar_argv \<Rightarrow> string list \<Rightarrow> nat" where
  "posix_need logical env = argv_bytes (av_items logical) + 8 * (length (av_items logical) + 1) + argv_bytes env"

lemma unat_le: "unat w \<le> 2 ^ 64 - 1" for w :: "64 word"
  using unsigned_less [of w, where ?'a = nat] by simp

lemma unat_eq_SIZE_MAX: "w = SIZE_MAX \<longleftrightarrow> unat w = 2 ^ 64 - 1"
  using unat_SIZE_MAX by (metis word_unat_eq_iff)

lemma unat_required_bytes:
  assumes "argv_ok logical"
  shows "unat (required_bytes logical e) =
    min (argv_bytes (av_items logical) + 8 * (length (av_items logical) + 1) + unat e) (2 ^ 64 - 1)"
proof -
  let ?n = "length (av_items logical)" and ?b = "av_bytes logical"
  have len: "unat (av_len logical) = ?n" "8 * (?n + 1) < 2 ^ 64" and bytes: "unat ?b = argv_bytes (av_items logical)"
    using assms by (auto simp: argv_ok_def word_le_nat_alt)
  then have n: "av_len logical \<noteq> SIZE_MAX" using unat_eq_SIZE_MAX by auto
  then have n1: "unat (av_len logical + 1) = ?n + 1" using len unat_Suc by simp
  then have "\<not> SIZE_MAX div 8 < av_len logical + 1" using len(2) unat_eighth by (simp only: word_less_nat_alt) auto
  moreover define p where "p = (av_len logical + 1) * 8"
  moreover have p: "unat p = 8 * (?n + 1)"
    unfolding p_def using n1 len(2) by (subst unat_mult_lem [THEN iffD1]) auto
  moreover from p have "p \<noteq> SIZE_MAX" using unat_eq_SIZE_MAX [of p] by auto presburger
  ultimately have r: "required_bytes logical e = (if e = SIZE_MAX \<or> SIZE_MAX - p < ?b \<or> SIZE_MAX - ?b - p < e
      then SIZE_MAX else ?b + p + e)"
    using n by (simp add: required_bytes_def Let_def)
  show ?thesis
  proof (cases "unat ?b + unat p + unat e < 2 ^ 64 - 1")
    case True
    then have bp: "unat (?b + p) = unat ?b + unat p" by (intro unat_sum) simp
    have "e \<noteq> SIZE_MAX" using True unat_eq_SIZE_MAX by auto
    moreover have "\<not> SIZE_MAX - p < ?b" using True by (simp add: sum_fits)
    moreover have "\<not> SIZE_MAX - (?b + p) < e" using True bp by (simp add: sum_fits)
    moreover have "unat (?b + p + e) = unat ?b + unat p + unat e" using True bp unat_sum [of "?b + p" e] by simp
    ultimately show ?thesis using r True bytes p by (simp add: diff_diff_eq)
  next
    case False
    have "unat (required_bytes logical e) = 2 ^ 64 - 1"
    proof (cases "e = SIZE_MAX \<or> SIZE_MAX - p < ?b \<or> SIZE_MAX - ?b - p < e")
      case True
      then show ?thesis using r unat_SIZE_MAX by simp
    next
      case fits: False
      then have bp: "unat (?b + p) = unat ?b + unat p" using sum_fits unat_sum by blast
      moreover have "unat (?b + p + e) = unat (?b + p) + unat e"
        using fits sum_fits [of "?b + p" e] unat_sum by (simp add: diff_diff_eq add.commute)
      ultimately show ?thesis using r fits False unat_le [of "?b + p + e"] by simp
    qed
    then show ?thesis using False bytes p by simp
  qed
qed

text \<open>
  On a POSIX host the check of a command that cannot use a response file is exact: it passes
  precisely when the bytes of all arguments, of one pointer for each and the terminator, and of the
  whole environment leave 2048 bytes of headroom below the limit of the host. No size wraps around,
  however large.
\<close>

theorem posix_command_limit_exact:
  assumes "argv_ok logical" and "list_all (\<lambda>x. length x < 2 ^ 64 - 1) (inherited host environ @ env)"
    and "\<forall>tc \<in> set_option toolchain. \<not> qstar_platform_is_windows host (Some (rt_platform tc))"
  shows "passes (fst (validate_full_command_limit alloc host environ sc_arg_max action_id toolchain logical env)) \<longleftrightarrow>
    posix_need logical (inherited host environ @ env) + 2048
      \<le> unat (snd (validate_full_command_limit alloc host environ sc_arg_max action_id toolchain logical env))"
proof -
  define limit where "limit = (if 0 < sc_arg_max then word_of_int sc_arg_max else (131072 :: 64 word))"
  define need where "need = required_bytes logical (environment_bytes host environ env)"
  let ?E = "argv_bytes (inherited host environ @ env)" and ?P = "posix_need logical (inherited host environ @ env)"
  have v: "passes (fst (validate_full_command_limit alloc host environ sc_arg_max action_id toolchain logical env)) \<longleftrightarrow>
      2048 < limit \<and> need \<le> limit - 2048"
    "snd (validate_full_command_limit alloc host environ sc_arg_max action_id toolchain logical env) = limit"
    using assms(3) by (cases toolchain; simp add: validate_full_command_limit_def Let_def limit_def need_def)+
  have need: "unat need = min ?P (2 ^ 64 - 1)"
    using unat_required_bytes [OF assms(1)] unat_environment_bytes [OF assms(2)]
    by (auto simp: need_def posix_need_def)
  show ?thesis
  proof (cases "2048 < limit")
    case True
    then have "unat (limit - 2048) = unat limit - 2048" "2048 < unat limit"
      using unat_sub [of 2048 limit] by (simp_all add: word_less_nat_alt word_le_nat_alt)
    then show ?thesis unfolding v using True need unat_le [of limit]
      by (auto simp: word_le_nat_alt min_def)
  next
    case False
    then have "unat limit \<le> 2048" by (simp add: word_less_nat_alt)
    then show ?thesis unfolding v using False by (simp add: posix_need_def)
  qed
qed

lemma command_line_joined: "windows_command_line xs = windows_words.joined xs"
  by (induction xs rule: windows_command_line.induct) simp_all

definition run_argv :: "host_os \<Rightarrow> string list \<Rightarrow> string list" where
  "run_argv host argv = (if windows_argv_needs_sh_adapter host argv then ''sh'' # argv else argv)"

text \<open>
  C38: The command line built for Windows splits back into the program and its arguments by the rules of the C
  run-time, whatever characters the arguments contain; the program has no quote and no backslash at its end, as paths of
  programs do. A script is preceded by the shell that runs it. The only other failures are a line that does not fit the
  buffer and no memory for the vector of a script.
\<close>

theorem windows_command_line_splits:
  assumes "argv \<noteq> []" "program_name (hd argv)"
  shows "(case qstar_platform_windows_command_line_from_argv alloc host argv dstlen of
      Some line \<Rightarrow> length line < dstlen \<and> run_time_words (length (run_argv host argv)) line = Some (run_argv host argv)
    | None \<Rightarrow> dstlen \<le> length (windows_command_line (run_argv host argv)) \<or>
        windows_argv_needs_sh_adapter host argv \<and> \<not> alloc ((of_nat (length argv) + 2) * 8))"
proof -
  have "program_name ''sh''" by code_simp
  then have "program_name (hd (run_argv host argv))" "run_argv host argv \<noteq> []"
    using assms by (simp_all add: run_argv_def)
  then have "run_time_words (length (run_argv host argv)) (windows_command_line (run_argv host argv)) = Some (run_argv host argv)"
    using run_time_words_joined [of "hd (run_argv host argv)" "tl (run_argv host argv)"] by (simp add: command_line_joined)
  then show ?thesis using assms(1)
    by (auto simp: qstar_platform_windows_command_line_from_argv_def windows_effective_argv_def run_argv_def put_def)
qed

section \<open>Examples\<close>

definition demo_argv :: qstar_argv where
  "demo_argv = \<lparr>av_items = [''cc'', ''-c'', ''a b.c''], av_len = 3, av_cap = 8, av_bytes = 12\<rparr>"

lemma demo_argv_ok: "argv_ok demo_argv"
  by (simp add: argv_ok_def demo_argv_def argv_bytes_def)

definition demo_system :: system where
  "demo_system = \<lparr>sy_host = HostLinux, sy_alloc = (\<lambda>n. True),
     sy_files = \<lparr>fa_mkdir = (\<lambda>p. True), fa_open = (\<lambda>p. True), fa_close = (\<lambda>p. True)\<rparr>,
     sy_environ = [''PATH=/bin''], sy_arg_max = 4096\<rparr>"

theorem posix_command_limit_exact_witness:
  "passes (fst (validate_full_command_limit (\<lambda>n. True) HostLinux [''PATH=/bin''] 4096 ''a'' None demo_argv []))
   \<longleftrightarrow> posix_need demo_argv [''PATH=/bin''] + 2048 \<le> 4096"
proof -
  have "snd (validate_full_command_limit (\<lambda>n. True) HostLinux [''PATH=/bin''] 4096 ''a'' None demo_argv []) = 4096"
    by (simp add: validate_full_command_limit_def Let_def)
  then show ?thesis
    using posix_command_limit_exact [OF demo_argv_ok, of HostLinux "[''PATH=/bin'']" "[]" None "\<lambda>n. True" 4096 "''a''"]
    by (simp add: inherited_def)
qed

theorem windows_command_line_splits_witness:
  "\<exists>line. qstar_platform_windows_command_line_from_argv (\<lambda>n. True) HostWindows [''a.sh'', ''x y''] 100 = Some line \<and>
     run_time_words 3 line = Some [''sh'', ''a.sh'', ''x y'']"
proof -
  have e: "run_argv HostWindows [''a.sh'', ''x y''] = [''sh'', ''a.sh'', ''x y'']" by code_simp
  have "qstar_platform_windows_command_line_from_argv (\<lambda>n. True) HostWindows [''a.sh'', ''x y''] 100 \<noteq> None" by code_simp
  moreover have "program_name ''a.sh''" by code_simp
  ultimately show ?thesis using windows_command_line_splits
      [where argv = "[''a.sh'', ''x y'']" and host = HostWindows and dstlen = 100 and alloc = "\<lambda>n. True"] e
    by (auto simp: numeral_3_eq_3)
qed

definition demo_long_argv :: qstar_argv where
  "demo_long_argv = \<lparr>av_items = ''cc'' # replicate 49 ''a b'', av_len = 50, av_cap = 64, av_bytes = 199\<rparr>"

definition demo_toolchain :: qstar_resolved_toolchain where
  "demo_toolchain = zero_qstar_resolved_toolchain\<lparr>rt_response_files := True\<rparr>"

lemma demo_response:
  "\<exists>c w. qstar_action_materialize demo_system zero_qstar_graph (Some ''a'') (Some demo_toolchain)
     (Some demo_long_argv) [] True = Inr (c, w) \<and> mc_uses_response_file c"
proof -
  have path: "response_path zero_qstar_graph ''a'' = Some ''build/qstar/rsp/a.rsp''" by code_simp
  have "(case write_response_file (sy_files demo_system) zero_qstar_graph [] ''build/qstar/rsp/a.rsp'' None of
      Inl _ \<Rightarrow> False | Inr _ \<Rightarrow> True)" by code_simp
  then have w: "\<exists>w. write_response_file (sy_files demo_system) zero_qstar_graph items ''build/qstar/rsp/a.rsp'' st = Inr w"
    for items st by (auto simp: write_response_file_def Let_def split: option.splits if_splits)
  have p: "\<exists>a. push_items (sy_alloc demo_system) qstar_argv_init [''cc'', ''@build/qstar/rsp/a.rsp''] = Some a"
    by (rule push_items_return [OF _ init_ok]) (simp_all add: demo_system_def argv_bytes_def qstar_argv_init_def)
  have n: "qstar_action_needs_response_file demo_long_argv" "av_len demo_long_argv \<noteq> 0"
    "rt_response_files demo_toolchain" "hd (av_items demo_long_argv) = ''cc''"
    by (simp_all add: qstar_action_needs_response_file_def demo_long_argv_def demo_toolchain_def)
  have st: "rt_response_style demo_toolchain = []" "trunc_buf 32 ''posix'' = ''posix''"
    "put PATH_MAX ''@build/qstar/rsp/a.rsp'' = Some ''@build/qstar/rsp/a.rsp''"
    by (simp_all add: demo_toolchain_def zero_qstar_resolved_toolchain_def trunc_buf_def put_def)
  obtain w0 where w0: "write_response_file (sy_files demo_system) zero_qstar_graph (av_items demo_long_argv)
      ''build/qstar/rsp/a.rsp'' (Some ''posix'') = Inr w0" using w by blast
  obtain a where a: "push_items (sy_alloc demo_system) qstar_argv_init [''cc'', ''@build/qstar/rsp/a.rsp''] = Some a"
    using p by blast
  show ?thesis
    by (simp add: qstar_action_materialize_def materialize_response_def Let_def path n st w0 a del: push_items.simps)
qed

theorem materialize_same_arguments_witness:
  "\<exists>c w. qstar_action_materialize demo_system zero_qstar_graph (Some ''a'') (Some demo_toolchain)
     (Some demo_long_argv) [] True = Inr (c, w) \<and> av_items (mc_exec_argv c) = [''cc'', CHR ''@'' # mc_response_file c]"
proof -
  obtain c w where m: "qstar_action_materialize demo_system zero_qstar_graph (Some ''a'') (Some demo_toolchain)
      (Some demo_long_argv) [] True = Inr (c, w)" and u: "mc_uses_response_file c"
    using demo_response by blast
  have "list_all (\<lambda>x. length x < 2 ^ 64) (av_items demo_long_argv)" "av_items demo_long_argv \<noteq> []"
    "hd (av_items demo_long_argv) = ''cc''"
    by (simp_all add: demo_long_argv_def list_all_iff)
  then show ?thesis using materialize_same_arguments [OF m] m u by auto
qed

end
