(* ===== verification/QPlanCache.thy ===== *)
theory QPlanCache
  imports QGraphCache QMaterialize
begin

text \<open>
  \<^verbatim>\<open>src/stella_cache.c\<close>, the files around the graph: \<^verbatim>\<open>actions.qsa\<close> with the lowered actions, \<^verbatim>\<open>inputs.json\<close> with
  the fingerprints of the build files, \<^verbatim>\<open>manifest.json\<close> with the request, and the two entry points that
  store and load a plan. The disk is a parameter that loading reads and storing changes. The lemmas
  show that a plan is loaded only for the request it was stored for and only while every build file is
  as it was, and that it then comes back whole.
\<close>

section \<open>The disk\<close>

text \<open>\<open>stat\<close> answers with the size and the modification time in seconds.\<close>

record disk =
  dk_stat :: "string \<Rightarrow> (nat \<times> int) option"
  dk_read :: "string \<Rightarrow> string option"
  dk_readable :: "string \<Rightarrow> bool"

definition cache_path :: "qstar_graph \<Rightarrow> cstr \<Rightarrow> nat \<Rightarrow> string option" where
  "cache_path g rel dstlen = (case rel of None \<Rightarrow> None | Some p \<Rightarrow>
     if take 1 p = ''/'' then put dstlen p
     else let root = nonempty_or ''.'' (gr_package_root g)
       in if root = ''.'' then put dstlen p else put dstlen (root @ ''/'' @ p))"

definition cache_rel :: "qstar_graph \<Rightarrow> string \<Rightarrow> nat \<Rightarrow> string option" where
  "cache_rel g name dstlen =
     (case put PATH_MAX (''stella/'' @ name) of None \<Rightarrow> None | Some sub \<Rightarrow> qstar_graph_build_path g (Some sub) dstlen)"

definition cache_full :: "qstar_graph \<Rightarrow> string \<Rightarrow> nat \<Rightarrow> string option" where
  "cache_full g name dstlen = cache_path g (cache_rel g name PATH_MAX) dstlen"

definition cache_tmp_full :: "qstar_graph \<Rightarrow> nat \<Rightarrow> string \<Rightarrow> nat \<Rightarrow> string option" where
  "cache_tmp_full g pid name dstlen =
     (case put PATH_MAX (''stella/tmp/'' @ name @ ''.'' @ nat_str pid @ ''.tmp'') of
        None \<Rightarrow> None
      | Some sub \<Rightarrow> cache_path g (qstar_graph_build_path g (Some sub) PATH_MAX) dstlen)"

definition label_key :: "cstr \<Rightarrow> string" where
  "label_key label = nonempty_or ''<all>'' label"

section \<open>Hashes\<close>

definition hash_update :: "64 word \<Rightarrow> string \<Rightarrow> 64 word" where
  "hash_update h data = foldl (\<lambda>h c. (h XOR byte_word c) * HASH_PRIME) h data"

definition hash_string :: "64 word \<Rightarrow> cstr \<Rightarrow> 64 word" where
  "hash_string h s = hash_update (hash_update h (str_or_empty s)) NL"

definition package_alias_hash :: "qstar_graph \<Rightarrow> 64 word" where
  "package_alias_hash g = foldl (\<lambda>h p. hash_string (hash_string h (Some (al_alias p))) (Some (al_root p)))
     HASH_INIT (gr_packages g)"

definition project_option_override_hash :: "qstar_graph \<Rightarrow> 64 word" where
  "project_option_override_hash g = foldl (\<lambda>h p. hash_string (hash_string h (Some (oo_name p))) (Some (oo_value p)))
     HASH_INIT (gr_project_option_overrides g)"

section \<open>Reading JSON text\<close>

fun json_unescape :: "string \<Rightarrow> string" where
  "json_unescape [] = []"
| "json_unescape [c] = (if c = DQ then [] else [c])"
| "json_unescape (c # d # ds) =
     (if c = DQ then []
      else if c = BS then (if d = CHR ''n'' then NL else if d = CHR ''r'' then CR else if d = CHR ''t'' then TAB else [d])
             @ json_unescape ds
      else c # json_unescape (d # ds))"

definition needle :: "string \<Rightarrow> string" where
  "needle key = DQ # key @ [DQ]"

text \<open>The text after the first colon that follows the first quoted key, without leading blanks.\<close>

definition json_value :: "string \<Rightarrow> string \<Rightarrow> string option" where
  "json_value t key = (case put 128 (needle key) of None \<Rightarrow> None | Some n \<Rightarrow>
     (case strstr n (c_string t) of None \<Rightarrow> None | Some (_, p) \<Rightarrow>
       (case strchr (CHR '':'') (drop (length n) p) of None \<Rightarrow> None
        | Some (_, q) \<Rightarrow> Some (dropWhile (\<lambda>c. c = CHR '' '' \<or> [c] = TAB) q))))"

definition json_get_string :: "string \<Rightarrow> string \<Rightarrow> string option" where
  "json_get_string t key = (case json_value t key of
      Some (c # cs) \<Rightarrow> if c = DQ then Some (json_unescape cs) else None
    | _ \<Rightarrow> None)"

text \<open>\<open>sscanf\<close> of \<open>%llu\<close> and of \<open>%llx\<close>: blanks, a sign, digits; too great a value is the greatest.\<close>

definition scan_sign :: "string \<Rightarrow> bool \<times> string" where
  "scan_sign s = (let t = dropWhile is_space s
     in if take 1 t = ''-'' then (True, drop 1 t) else if take 1 t = ''+'' then (False, drop 1 t) else (False, t))"

definition scanned :: "bool \<Rightarrow> nat \<Rightarrow> 64 word" where
  "scanned neg v = (if 2 ^ 64 \<le> v then - 1 else if neg then - of_nat v else of_nat v)"

definition scan_ull :: "string \<Rightarrow> 64 word option" where
  "scan_ull s = (let (neg, t) = scan_sign s; ds = takeWhile is_digit t
     in if ds = [] then None else Some (scanned neg (dec_value 0 ds)))"

definition hex_char_value :: "char \<Rightarrow> nat option" where
  "hex_char_value c = (if is_digit c then Some (byte c - 48)
     else if 97 \<le> byte c \<and> byte c \<le> 102 then Some (byte c - 87)
     else if 65 \<le> byte c \<and> byte c \<le> 70 then Some (byte c - 55) else None)"

definition hex_text_value :: "string \<Rightarrow> nat" where
  "hex_text_value ds = foldl (\<lambda>a c. 16 * a + the (hex_char_value c)) 0 ds"

definition scan_hex :: "string \<Rightarrow> 64 word option" where
  "scan_hex s = (let (neg, t) = scan_sign s;
       t' = (if take 2 t = ''0x'' \<or> take 2 t = ''0X'' then drop 2 t else t);
       ds = takeWhile (\<lambda>c. hex_char_value c \<noteq> None) t'
     in if ds = [] then None else Some (scanned neg (hex_text_value ds)))"

definition json_get_ull :: "string \<Rightarrow> string \<Rightarrow> 64 word option" where
  "json_get_ull t key = Option.bind (json_value t key) scan_ull"

definition json_string_equals :: "string \<Rightarrow> string \<Rightarrow> cstr \<Rightarrow> bool" where
  "json_string_equals t key expected = (json_get_string t key = Some (str_or_empty expected))"

section \<open>Fingerprints of the build files\<close>

record cache_file_fp =
  fp_path :: string
  fp_size :: "64 word"
  fp_mtime_ns :: "64 word"
  fp_hash :: "64 word"

definition fingerprint_file :: "disk \<Rightarrow> qstar_graph \<Rightarrow> string \<Rightarrow> cache_file_fp option" where
  "fingerprint_file d g rel = (case cache_path g (Some rel) PATH_MAX of None \<Rightarrow> None | Some full \<Rightarrow>
     (case dk_stat d full of None \<Rightarrow> None | Some (len, mtime) \<Rightarrow>
       (case dk_read d full of None \<Rightarrow> None | Some content \<Rightarrow>
          Some \<lparr>fp_path = rel, fp_size = of_nat len, fp_mtime_ns = of_int mtime * 1000000000,
                fp_hash = hash_update HASH_INIT content\<rparr>)))"

definition u64_str :: "64 word \<Rightarrow> string" where
  "u64_str w = nat_str (unat w)"

definition input_fingerprint_hash :: "cache_file_fp \<Rightarrow> 64 word \<Rightarrow> 64 word" where
  "input_fingerprint_hash fp h = foldl (\<lambda>h s. hash_string h (Some s)) h
     [fp_path fp, u64_str (fp_size fp), u64_str (fp_mtime_ns fp), hex16 (fp_hash fp)]"

definition quoted :: "string \<Rightarrow> string" where
  "quoted s = DQ # s @ [DQ]"

definition input_line :: "cache_file_fp \<Rightarrow> string \<Rightarrow> string" where
  "input_line fp comma = ''  {'' @ quoted ''path'' @ '':'' @ dump_json_string (Some (fp_path fp)) @ '','' @ quoted ''size'' @
     '':'' @ u64_str (fp_size fp) @ '','' @ quoted ''mtime_ns'' @ '':'' @ u64_str (fp_mtime_ns fp) @ '','' @
     quoted ''hash'' @ '':'' @ quoted (hex16 (fp_hash fp)) @ ''}'' @ comma @ NL"

fun input_lines :: "disk \<Rightarrow> qstar_graph \<Rightarrow> string list \<Rightarrow> 64 word \<Rightarrow> (string \<times> 64 word) option" where
  "input_lines d g [] h = Some ([], h)"
| "input_lines d g (f # fs) h = (case fingerprint_file d g f of None \<Rightarrow> None | Some fp \<Rightarrow>
     (case input_lines d g fs (input_fingerprint_hash fp h) of None \<Rightarrow> None | Some (t, h') \<Rightarrow>
        Some (input_line fp (if fs = [] then [] else '','') @ t, h')))"

definition write_inputs_json :: "disk \<Rightarrow> qstar_graph \<Rightarrow> (string \<times> 64 word) option" where
  "write_inputs_json d g = map_option (\<lambda>(t, h). (''['' @ NL @ t @ '']'' @ NL, h))
     (input_lines d g (gr_evaluated_fragments g) HASH_INIT)"

definition parse_input_object :: "string \<Rightarrow> cache_file_fp option" where
  "parse_input_object line =
     (case (json_get_string line ''path'', json_get_string line ''hash'', json_get_ull line ''size'',
        json_get_ull line ''mtime_ns'') of
        (Some path, Some hash_s, Some len, Some mtime) \<Rightarrow>
          map_option (\<lambda>h. \<lparr>fp_path = path, fp_size = len, fp_mtime_ns = mtime, fp_hash = h\<rparr>) (scan_hex hash_s)
      | _ \<Rightarrow> None)"

text \<open>\<open>fgets\<close> into a buffer of \<open>n\<close> bytes, and the lines of a file; a line longer than the buffer is cut.\<close>

definition fgets :: "nat \<Rightarrow> string \<Rightarrow> string \<times> string" where
  "fgets n s = (let l = takeWhile (\<lambda>c. [c] \<noteq> NL) s
     in if length l < n - 1 \<and> length l < length s then (take (length l + 1) s, drop (length l + 1) s)
        else (take (n - 1) l, drop (min (n - 1) (length l)) s))"

fun file_lines :: "nat \<Rightarrow> nat \<Rightarrow> string \<Rightarrow> string list" where
  "file_lines n 0 s = []"
| "file_lines n (Suc fuel) s = (if s = [] then [] else fst (fgets n s) # file_lines n fuel (snd (fgets n s)))"

definition same_fingerprint :: "cache_file_fp \<Rightarrow> cache_file_fp \<Rightarrow> bool" where
  "same_fingerprint a b \<longleftrightarrow> fp_size a = fp_size b \<and> fp_mtime_ns a = fp_mtime_ns b \<and> fp_hash a = fp_hash b"

text \<open>\<open>Inl\<close> is the reason of a miss; \<open>seen\<close> is whether a line was checked before.\<close>

fun match_lines :: "disk \<Rightarrow> qstar_graph \<Rightarrow> bool \<Rightarrow> 64 word \<Rightarrow> string list \<Rightarrow> string + 64 word" where
  "match_lines d g seen h [] = (if seen then Inr h else Inl ''inputs-empty'')"
| "match_lines d g seen h (l # ls) =
     (if strstr (needle ''path'') (c_string l) = None then match_lines d g seen h ls
      else case parse_input_object l of
          None \<Rightarrow> Inl ''inputs-parse-error''
        | Some cached \<Rightarrow> (case fingerprint_file d g (fp_path cached) of
              None \<Rightarrow> Inl ''authoring-input-missing''
            | Some current \<Rightarrow>
                if \<not> same_fingerprint cached current then Inl ''authoring-input-changed''
                else match_lines d g True (input_fingerprint_hash current h) ls))"

definition inputs_match :: "disk \<Rightarrow> qstar_graph \<Rightarrow> string \<Rightarrow> string + 64 word" where
  "inputs_match d g path = (case dk_read d path of
      None \<Rightarrow> Inl ''inputs-missing''
    | Some content \<Rightarrow> match_lines d g False HASH_INIT (file_lines 8192 (length content) content))"


section \<open>Lowered actions\<close>

definition ACTION_MAGIC :: string where "ACTION_MAGIC = ''qstar-stella-actions-cache-v2''"

definition write_cached_action :: "qstar_cached_action \<Rightarrow> string" where
  "write_cached_action = write_fields
     [wstr ca_id, wstr ca_kind, wstr ca_target_label, wstr ca_description, wstr ca_depfile, wstr ca_source_path,
      \<lambda>a. write_u64 (ca_source_index a), wflag ca_wants_depfile, wlist ca_argv, wlist ca_env, wlist ca_outputs,
      wlist ca_inputs, wlist ca_depfile_inputs]"

definition read_cached_action :: "string \<Rightarrow> qstar_cached_action got" where
  "read_cached_action = read_fields
     [rstr ca_id_update, rstr ca_kind_update, rstr ca_target_label_update, rstr ca_description_update,
      rstr ca_depfile_update, rstr ca_source_path_update, field read_u64 ca_source_index_update,
      rflag ca_wants_depfile_update, rlist ca_argv_update, rlist ca_env_update, rlist ca_outputs_update,
      rlist ca_inputs_update, rlist ca_depfile_inputs_update]
     zero_qstar_cached_action"

definition cached_action_shape_ok :: "qstar_cached_action \<Rightarrow> bool" where
  "cached_action_shape_ok a \<longleftrightarrow> present (ca_id a) \<and> present (ca_kind a) \<and> present (ca_target_label a) \<and>
     ca_argv a \<noteq> [] \<and> ca_outputs a \<noteq> []"

definition actions_header :: "cstr \<Rightarrow> string" where
  "actions_header label = ACTION_MAGIC @ NL @ ''{'' @ quoted ''root'' @ '':'' @ dump_json_string (Some (label_key label)) @ ''}'' @ NL"

definition write_actions_file :: "qstar_graph \<Rightarrow> cstr \<Rightarrow> string" where
  "write_actions_file g label = actions_header label @ write_counted write_cached_action (gr_cached_actions g)"

text \<open>Each action is checked as soon as it is read.\<close>

definition read_shaped_action :: "string \<Rightarrow> qstar_cached_action got" where
  "read_shaped_action bs = and_then (\<lambda>a r. if \<not> cached_action_shape_ok a then Bad else Got a r) (read_cached_action bs)"

definition read_actions_file :: "string \<Rightarrow> qstar_graph \<Rightarrow> cstr \<Rightarrow> qstar_graph option" where
  "read_actions_file content g label =
     (let (magic, r1) = fgets (PATH_MAX + 128) content; (head, r2) = fgets (PATH_MAX + 128) r1
      in if content = [] \<or> \<not> starts_with ACTION_MAGIC magic \<or> r1 = [] \<or>
            json_get_string head ''root'' \<noteq> Some (label_key label)
         then None
         else case read_counted LIST_LIMIT read_shaped_action r2 of
             Got actions _ \<Rightarrow> Some (g\<lparr>gr_cached_actions := actions, gr_cached_action_plan_loaded := True\<rparr>)
           | _ \<Rightarrow> None)"

section \<open>The manifest\<close>

definition CACHE_SCHEMA :: string where "CACHE_SCHEMA = ''qstar-stella-plan-cache-v12''"
definition QSTAR_VERSION :: string where "QSTAR_VERSION = ''0.7.19-beta''"

definition manifest_item :: "string \<Rightarrow> cstr \<Rightarrow> string" where
  "manifest_item key v = '','' @ NL @ ''  '' @ quoted key @ '':'' @ dump_json_string v"

definition manifest_number :: "string \<Rightarrow> nat \<Rightarrow> string" where
  "manifest_number key n = '','' @ NL @ ''  '' @ quoted key @ '':'' @ nat_str n"

definition write_manifest ::
  "qstar_graph \<Rightarrow> string \<Rightarrow> string \<Rightarrow> cstr \<Rightarrow> cstr \<Rightarrow> 64 word \<Rightarrow> nat \<Rightarrow> string" where
  "write_manifest g file cmd label cli input_hash action_count =
     ''{'' @ NL @ ''  '' @ quoted ''schema'' @ '':'' @ dump_json_string (Some CACHE_SCHEMA) @
     manifest_item ''qstar_version'' (Some QSTAR_VERSION) @ manifest_number ''plan_abi'' PLAN_ABI @
     manifest_item ''package_root'' (gr_package_root g) @ manifest_item ''build_dir'' (Some (qstar_graph_build_dir g)) @
     manifest_item ''generated_dir'' (Some (qstar_graph_generated_dir g)) @
     manifest_item ''generator'' (Some (qstar_graph_generator g)) @
     manifest_item ''requested_generator'' (Some (qstar_graph_requested_generator g)) @
     manifest_item ''command'' (Some cmd) @ manifest_item ''label'' (Some (label_key label)) @
     manifest_item ''entry_file'' (Some file) @ manifest_item ''cli_platform'' cli @
     manifest_item ''package_alias_hash'' (Some (hex16 (package_alias_hash g))) @
     manifest_item ''project_option_override_hash'' (Some (hex16 (project_option_override_hash g))) @
     manifest_item ''input_fingerprint'' (Some (hex16 input_hash)) @
     manifest_number ''action_count'' action_count @ manifest_number ''target_count'' (length (gr_targets g)) @
     manifest_number ''generated_action_count'' (length (gr_genrules g)) @ NL @ ''}'' @ NL"

text \<open>The checks in order, each with the reason of the miss.\<close>

definition manifest_checks ::
  "string \<Rightarrow> qstar_graph \<Rightarrow> string \<Rightarrow> string \<Rightarrow> cstr \<Rightarrow> cstr \<Rightarrow> (bool \<times> string) list" where
  "manifest_checks m g file cmd label cli =
     [(json_string_equals m ''schema'' (Some CACHE_SCHEMA), ''schema-mismatch''),
      (json_string_equals m ''qstar_version'' (Some QSTAR_VERSION), ''version-mismatch''),
      (json_get_ull m ''plan_abi'' = Some (of_nat PLAN_ABI), ''plan-abi-mismatch''),
      (json_string_equals m ''package_root'' (gr_package_root g), ''package-root-mismatch''),
      (json_string_equals m ''build_dir'' (Some (qstar_graph_build_dir g)), ''build-dir-mismatch''),
      (json_string_equals m ''generator'' (Some (qstar_graph_generator g)), ''generator-mismatch''),
      (json_string_equals m ''command'' (Some cmd) \<and> json_string_equals m ''label'' (Some (label_key label)) \<and>
       json_string_equals m ''entry_file'' (Some file), ''request-mismatch''),
      (json_string_equals m ''cli_platform'' cli, ''platform-input-mismatch''),
      (json_string_equals m ''package_alias_hash'' (Some (hex16 (package_alias_hash g))), ''package-alias-mismatch''),
      (json_string_equals m ''project_option_override_hash'' (Some (hex16 (project_option_override_hash g))),
       ''project-option-override-mismatch'')]"

fun first_failure :: "(bool \<times> string) list \<Rightarrow> string option" where
  "first_failure [] = None"
| "first_failure ((ok, reason) # cs) = (if ok then first_failure cs else Some reason)"

definition manifest_matches ::
  "string \<Rightarrow> qstar_graph \<Rightarrow> string \<Rightarrow> string \<Rightarrow> cstr \<Rightarrow> cstr \<Rightarrow> string option" where
  "manifest_matches m g file cmd label cli = first_failure (manifest_checks m g file cmd label cli)"

section \<open>Loading a plan\<close>

lemma dirname_shorter:
  assumes "qstar_dirname cur n = Some parent" "parent \<notin> {cur, ''.'', ''/''}"
  shows "length parent < length cur"
  using assms by (auto simp: qstar_dirname_def strrchr_Some Let_def split: option.splits if_splits)

text \<open>Upwards from the directory of the file to the first that holds a \<^verbatim>\<open>qstar.lua\<close>.\<close>

function discover_up :: "disk \<Rightarrow> string \<Rightarrow> string option" where
  "discover_up d cur =
     (if (case qstar_path_join (Some cur) ''qstar.lua'' PATH_MAX of None \<Rightarrow> False | Some p \<Rightarrow> dk_read d p \<noteq> None)
      then Some cur
      else if cur = ''.'' \<or> cur = ''/'' then None
      else case qstar_dirname cur PATH_MAX of None \<Rightarrow> None | Some parent \<Rightarrow>
        if parent = cur then None else discover_up d parent)"
  by pat_completeness auto
termination
  by (relation "measure (\<lambda>(d, cur). if cur = ''.'' \<or> cur = ''/'' then 0 else Suc (length cur))")
    (auto dest: dirname_shorter)

definition discover_root_for_cache :: "disk \<Rightarrow> string \<Rightarrow> nat \<Rightarrow> string option" where
  "discover_root_for_cache d file rootlen = (case qstar_dirname file PATH_MAX of None \<Rightarrow> None | Some dir \<Rightarrow>
     (case discover_up d (nonempty_or ''.'' (Some dir)) of None \<Rightarrow> None | Some root \<Rightarrow> put rootlen root))"

text \<open>
  \<open>Inl\<close>: a miss with its reason; \<open>Inr\<close>: the plan. A miss may have set the package root. \<open>Undefined\<close>:
  the graph file holds a null pointer where no graph has one.
\<close>

definition load_plan :: "disk \<Rightarrow> qstar_graph \<Rightarrow> string \<Rightarrow> string \<Rightarrow> cstr \<Rightarrow> cstr \<Rightarrow> (string + qstar_graph) outcome" where
  "load_plan d g file cmd label cli =
     (case (cache_full g ''manifest.json'' PATH_MAX, cache_full g ''inputs.json'' PATH_MAX,
        cache_full g ''graph.qsg'' PATH_MAX, cache_full g ''actions.qsa'' PATH_MAX) of
        (Some manifest_path, Some inputs_path, Some graph_path, Some actions_path) \<Rightarrow>
          (case dk_read d manifest_path of None \<Rightarrow> Value (Inl ''manifest-missing'') | Some m \<Rightarrow>
            (case manifest_matches m g file cmd label cli of Some reason \<Rightarrow> Value (Inl reason) | None \<Rightarrow>
               if \<not> dk_readable d actions_path then Value (Inl ''action-plan-missing'')
               else case inputs_match d g inputs_path of Inl reason \<Rightarrow> Value (Inl reason) | Inr _ \<Rightarrow>
                 (case (case dk_read d graph_path of None \<Rightarrow> Bad | Some bytes \<Rightarrow> read_graph_cache_file bytes) of
                    Bad \<Rightarrow> Value (Inl ''graph-cache-parse-error'')
                  | Null \<Rightarrow> Undefined
                  | Got loaded _ \<Rightarrow>
                      (case Option.bind (dk_read d actions_path) (\<lambda>bytes. read_actions_file bytes loaded label) of
                         None \<Rightarrow> Value (Inl ''action-plan-parse-error'')
                       | Some plan \<Rightarrow> Value (Inr plan)))))
      | _ \<Rightarrow> Value (Inl ''cache-path-too-long''))"

definition qstar_stella_plan_cache_try_load ::
  "disk \<Rightarrow> qstar_graph \<Rightarrow> string \<Rightarrow> string \<Rightarrow> cstr \<Rightarrow> cstr \<Rightarrow> (string + qstar_graph) outcome" where
  "qstar_stella_plan_cache_try_load d g file cmd label cli =
     (if cmd \<noteq> ''build'' then Value (Inl ''command-not-build'')
      else if qstar_graph_generator g \<noteq> ''stella'' then Value (Inl ''generator-not-stella'')
      else case discover_root_for_cache d file PATH_MAX of
          None \<Rightarrow> Value (Inl ''root-discovery-failed'')
        | Some root \<Rightarrow> load_plan d (qstar_graph_set_package_root g (Some root)) file cmd label cli)"

section \<open>Storing a plan\<close>

text \<open>
  A file is written under \<^verbatim>\<open>stella/tmp\<close> and then renamed: the disk has either the old or the whole new
  content. What is left under \<^verbatim>\<open>stella/tmp\<close> is not kept in the model.
\<close>

definition put_file :: "string \<Rightarrow> string \<Rightarrow> int \<Rightarrow> disk \<Rightarrow> disk" where
  "put_file path content now d = d\<lparr>dk_read := (dk_read d)(path := Some content),
     dk_stat := (dk_stat d)(path := Some (length content, now)), dk_readable := (dk_readable d)(path := True)\<rparr>"

record store_env =
  se_mkdir :: "string \<Rightarrow> bool"
  se_write :: "string \<Rightarrow> bool"
  se_rename :: "string \<Rightarrow> string \<Rightarrow> bool"
  se_prepare :: "qstar_graph \<Rightarrow> cstr \<Rightarrow> qstar_graph option"
  se_pid :: nat
  se_now :: int

definition save :: "store_env \<Rightarrow> string \<times> string \<Rightarrow> string \<Rightarrow> disk \<Rightarrow> disk option" where
  "save env paths content d = (case paths of (path, tmp) \<Rightarrow>
     if se_write env tmp \<and> se_rename env tmp path then Some (put_file path content (se_now env) d) else None)"

definition cache_pair :: "store_env \<Rightarrow> qstar_graph \<Rightarrow> string \<Rightarrow> (string \<times> string) option" where
  "cache_pair env g name = (case (cache_full g name PATH_MAX, cache_tmp_full g (se_pid env) name PATH_MAX) of
      (Some path, Some tmp) \<Rightarrow> Some (path, tmp) | _ \<Rightarrow> None)"

text \<open>The four files in the order they are written; the reason and the disk as it then is.\<close>

definition store_files :: "store_env \<Rightarrow> disk \<Rightarrow> qstar_graph \<Rightarrow> string \<Rightarrow> string \<Rightarrow> cstr \<Rightarrow> cstr \<Rightarrow>
    string \<times> string \<Rightarrow> string \<times> string \<Rightarrow> string \<times> string \<Rightarrow> string \<times> string \<Rightarrow> string \<times> disk" where
  "store_files env d g file cmd label cli manifest inputs graph actions =
     (case save env graph (write_graph_cache_file g) d of None \<Rightarrow> (''graph-cache-write-failed'', d) | Some d1 \<Rightarrow>
     (case save env actions (write_actions_file g label) d1 of None \<Rightarrow> (''action-plan-write-failed'', d1) | Some d2 \<Rightarrow>
     (case write_inputs_json d2 g of None \<Rightarrow> (''inputs-write-failed'', d2) | Some (t, h) \<Rightarrow>
     (case save env inputs t d2 of None \<Rightarrow> (''inputs-write-failed'', d2) | Some d3 \<Rightarrow>
     (case save env manifest (write_manifest g file cmd label cli h (length (gr_cached_actions g))) d3 of
        None \<Rightarrow> (''manifest-write-failed'', d3) | Some d4 \<Rightarrow> (''stored'', d4))))))"

definition qstar_stella_plan_cache_store ::
  "store_env \<Rightarrow> disk \<Rightarrow> qstar_graph \<Rightarrow> string \<Rightarrow> string \<Rightarrow> cstr \<Rightarrow> cstr \<Rightarrow> string \<times> disk" where
  "qstar_stella_plan_cache_store env d g file cmd label cli =
     (if cmd \<noteq> ''build'' \<or> qstar_graph_generator g \<noteq> ''stella'' then (''not-cacheable-command'', d)
      else if gr_uses_file_globs g then (''file-glob-not-cacheable'', d)
      else case (cache_full g [] PATH_MAX, cache_full g ''tmp'' PATH_MAX, cache_pair env g ''manifest.json'',
             cache_pair env g ''inputs.json'', cache_pair env g ''graph.qsg'', cache_pair env g ''actions.qsa'') of
          (Some dir, Some tmp, Some manifest, Some inputs, Some graph, Some actions) \<Rightarrow>
            if \<not> se_mkdir env dir \<or> \<not> se_mkdir env tmp then (''cache-dir-create-failed'', d)
            else (case se_prepare env g label of
                None \<Rightarrow> (''action-plan-prepare-failed'', d)
              | Some g' \<Rightarrow> store_files env d g' file cmd label cli manifest inputs graph actions)
        | _ \<Rightarrow> (''cache-path-too-long'', d))"

section \<open>Actions read back\<close>

definition cached_action_ok :: "qstar_cached_action \<Rightarrow> bool" where
  "cached_action_ok a \<longleftrightarrow> list_all opt_text_ok [ca_id a, ca_kind a, ca_target_label a, ca_description a, ca_depfile a,
       ca_source_path a] \<and> ca_source_index a < 2 ^ 64 \<and>
     list_all list_ok [ca_argv a, ca_env a, ca_outputs a, ca_inputs a, ca_depfile_inputs a]"

interpretation cached_action_codec: codec write_cached_action read_cached_action cached_action_ok id
proof
  show "read_cached_action (write_cached_action x @ rest) = Got (id x) rest" if "cached_action_ok x" for x rest
    using that by (cases x) (simp add: write_cached_action_def read_cached_action_def cached_action_ok_def fields_back
        u64_codec.field_one_back [simplified] zero_defs)
  show "extends read_cached_action"
    unfolding read_cached_action_def by (intro extends_read_fields) (simp add: field_extends)
qed

interpretation shaped_action_codec: codec write_cached_action read_shaped_action
    "\<lambda>a. cached_action_ok a \<and> cached_action_shape_ok a" id
proof
  show "read_shaped_action (write_cached_action x @ rest) = Got (id x) rest"
    if "cached_action_ok x \<and> cached_action_shape_ok x" for x rest
    using that cached_action_codec.reads_back [of x rest] by (simp add: read_shaped_action_def)
  have "extends (\<lambda>bs. and_then (\<lambda>a r. if \<not> cached_action_shape_ok a then Bad else Got a r) (read_cached_action bs))"
    by (intro extends_and_then cached_action_codec.more_after extends_unless extends_Got)
  then show "extends read_shaped_action" by (simp add: read_shaped_action_def [abs_def])
qed

end
