(* ===== verification/QPlanCacheProps.thy ===== *)
theory QPlanCacheProps
  imports QPlanCache
begin

text \<open>
  What the files of \<^verbatim>\<open>src/stella_cache.c\<close> say when they are read again: looking up a key in written JSON text,
  the fingerprint lines, the header of the actions and the manifest. The properties put them together:
  a stored plan is loaded exactly for its own request and exactly while its build files are unchanged.
\<close>

section \<open>Looking up a key\<close>

definition after_key :: "string \<Rightarrow> string \<Rightarrow> string option" where
  "after_key k t = map_option (\<lambda>(a, p). drop (length (needle k)) p) (strstr (needle k) t)"

definition good_key :: "string \<Rightarrow> bool" where
  "good_key k \<longleftrightarrow> k \<noteq> [] \<and> length k < 64 \<and> list_all (\<lambda>c. is_alnum c \<or> c = CHR ''_'') k"

text \<open>A text that JSON leaves as it is.\<close>

definition plain_text :: "string \<Rightarrow> bool" where
  "plain_text s \<longleftrightarrow> list_all (\<lambda>c. 32 \<le> byte c \<and> c \<noteq> DQ \<and> c \<noteq> BS) s"

lemma DQ_char: "DQ = CHR 0x22" and BS_char: "BS = CHR 0x5C"
  by code_simp+

lemma good_key_DQ: "good_key k \<Longrightarrow> DQ \<notin> set k"
proof
  assume "good_key k" "DQ \<in> set k"
  then have "is_alnum DQ \<or> DQ = CHR ''_''" by (auto simp: good_key_def list_all_iff)
  moreover have "\<not> is_alnum DQ" "DQ \<noteq> CHR ''_''" by code_simp+
  ultimately show False by blast
qed

lemma after_key_skip: "DQ \<notin> set w \<Longrightarrow> after_key k (w @ cs) = after_key k cs"
proof (induction w)
  case (Cons c w)
  then have "\<not> starts_with (needle k) (c # w @ cs)" by (auto simp: needle_def starts_with_def)
  then show ?case using Cons by (simp add: after_key_def option.map_comp comp_def split_def)
qed simp

lemma starts_quoted:
  "DQ \<notin> set w \<Longrightarrow> DQ \<notin> set k \<Longrightarrow> starts_with (needle k) (DQ # w @ DQ # cs) \<longleftrightarrow> w = k"
proof (induction w arbitrary: k)
  case Nil
  then show ?case by (cases k) (auto simp: needle_def starts_with_def)
next
  case (Cons c w)
  show ?case
  proof (cases k)
    case Nil
    then show ?thesis using Cons.prems by (auto simp: needle_def starts_with_def)
  next
    case (Cons d k')
    then show ?thesis using Cons.IH [of k'] Cons.prems by (auto simp: needle_def starts_with_def)
  qed
qed

lemma after_key_quoted:
  assumes "DQ \<notin> set w" "DQ \<notin> set k"
  shows "after_key k (DQ # w @ DQ # cs) = (if w = k then Some cs else after_key k (DQ # cs))"
proof (cases "w = k")
  case True
  then show ?thesis using starts_quoted [OF assms, of cs] by (simp add: after_key_def needle_def)
next
  case False
  then have "after_key k (DQ # w @ DQ # cs) = after_key k (w @ DQ # cs)"
    using starts_quoted [OF assms, of cs] by (simp add: after_key_def option.map_comp comp_def split_def)
  then show ?thesis using False after_key_skip [OF assms(1)] by simp
qed

lemma after_key_between:
  assumes "good_key k" "\<not> is_alnum c" "c \<noteq> CHR ''_''"
  shows "after_key k (DQ # c # cs) = after_key k (c # cs)"
proof -
  obtain d ds where k: "k = d # ds" using assms(1) by (cases k) (auto simp: good_key_def)
  then have "d \<noteq> c" using assms by (auto simp: good_key_def)
  then have "\<not> starts_with (needle k) (DQ # c # cs)" by (auto simp: needle_def k starts_with_def)
  then show ?thesis by (simp add: after_key_def option.map_comp comp_def split_def)
qed

lemma json_value_after:
  assumes "good_key k" "c_string t = t"
  shows "json_value t k = (case after_key k t of None \<Rightarrow> None | Some p \<Rightarrow>
    (case strchr (CHR '':'') p of None \<Rightarrow> None | Some (_, q) \<Rightarrow> Some (dropWhile (\<lambda>c. c = CHR '' '' \<or> [c] = TAB) q)))"
proof -
  have "put 128 (needle k) = Some (needle k)" using assms(1) by (simp add: good_key_def needle_def)
  then show ?thesis
    by (simp add: json_value_def after_key_def assms(2) split: option.split)
qed

text \<open>What a value looks like after its key.\<close>

lemma json_value_found:
  assumes "good_key k" "c_string t = t" "after_key k t = Some (CHR '':'' # c # cs)" "c \<noteq> CHR '' ''" "[c] \<noteq> TAB"
  shows "json_value t k = Some (c # cs)"
  using assms by (simp add: json_value_after)

lemma json_unescape_plain:
  "plain_text v \<Longrightarrow> json_unescape (v @ DQ # cs) = v"
proof (induction v)
  case Nil
  then show ?case by (cases cs) simp_all
next
  case (Cons c v)
  then obtain d ds where "v @ DQ # cs = d # ds" by (cases "v @ DQ # cs") auto
  with Cons show ?case by (simp add: plain_text_def)
qed

lemma plain_DQ: "plain_text v \<Longrightarrow> DQ \<notin> set v"
  by (auto simp: plain_text_def list_all_iff)

lemma dump_plain: "plain_text v \<Longrightarrow> dump_json_string (Some v) = DQ # v @ [DQ]"
proof -
  assume "plain_text v"
  then have "concat (map dump_json_char v) = v"
  proof (induction v)
    case (Cons c v)
    moreover have "[c] \<noteq> NL" "[c] \<noteq> CR" "[c] \<noteq> TAB"
      using Cons.prems by (auto simp: plain_text_def NL_def CR_def TAB_def byte_def)
    ultimately show ?case by (simp add: plain_text_def dump_json_char_def)
  qed simp
  then show ?thesis by (simp add: dump_json_string_def)
qed

lemma string_found:
  assumes "good_key k" "c_string t = t" "after_key k t = Some (CHR '':'' # dump_json_string (Some v) @ cs)" "plain_text v"
  shows "json_get_string t k = Some v"
proof -
  have "DQ \<noteq> CHR '' ''" "[DQ] \<noteq> TAB" by code_simp+
  then have "json_value t k = Some (DQ # v @ DQ # cs)"
    using json_value_found [OF assms(1,2), of DQ "v @ DQ # cs"] assms(3) dump_plain [OF assms(4)] by simp
  then show ?thesis using json_unescape_plain [OF assms(4)] by (simp add: json_get_string_def)
qed

lemma scan_number:
  assumes "unat w = n" "\<not> is_digit c"
  shows "scan_ull (nat_str n @ c # cs) = Some w"
proof -
  obtain d ds where d: "nat_str n = d # ds" by (cases "nat_str n") auto
  have digits: "\<forall>x\<in>set (nat_str n). is_digit x" using nat_str_digits by blast
  then have "is_digit d" using d by simp
  then have s: "scan_sign (nat_str n @ c # cs) = (False, nat_str n @ c # cs)"
    using digit_classes [of d] by (simp add: scan_sign_def d)
  have "takeWhile is_digit (nat_str n @ c # cs) = nat_str n"
    using digits assms(2) by (simp add: takeWhile_append)
  moreover have "n < 2 ^ 64" "of_nat n = w" using assms(1) unsigned_less [of w] by auto
  ultimately show ?thesis by (simp add: scan_ull_def s scanned_def dec_value_nat_str)
qed

lemma number_found:
  assumes "good_key k" "c_string t = t" "after_key k t = Some (CHR '':'' # nat_str (unat w) @ c # cs)" "\<not> is_digit c"
  shows "json_get_ull t k = Some w"
proof -
  obtain d ds where d: "nat_str (unat w) = d # ds" by (cases "nat_str (unat w)") auto
  then have "is_digit d" using nat_str_digits [of d "unat w"] by simp
  then have "d \<noteq> CHR '' ''" "[d] \<noteq> TAB" by (auto simp: is_digit_def byte_def TAB_def)
  then have "json_value t k = Some (nat_str (unat w) @ c # cs)"
    using json_value_found [OF assms(1,2), of d "ds @ c # cs"] assms(3) d by simp
  then show ?thesis using scan_number [OF refl assms(4)] by (simp add: json_get_ull_def)
qed


section \<open>Hexadecimal digits\<close>

lemma hex_char_value_digit: "n < 16 \<Longrightarrow> hex_char_value (hex_digit n) = Some n"
  by (auto simp: hex_char_value_def hex_digit_def is_digit_def byte_def)

lemma length_hex_digits [simp]: "length (hex_digits n w) = n"
  by (induction n arbitrary: w) simp_all

lemma unat_low_digit: "unat (w AND 15 :: 64 word) = unat w mod 16"
proof -
  have "w AND 15 = take_bit 4 w" by (simp add: take_bit_eq_mask mask_eq_exp_minus_1)
  then show ?thesis by (simp add: unsigned_take_bit_eq take_bit_nat_def)
qed

lemma hex_digits_value: "hex_text_value (hex_digits n w) = unat w mod 16 ^ n"
proof (induction n arbitrary: w)
  case 0
  then show ?case by (simp add: hex_text_value_def)
next
  case (Suc n)
  have d: "unat (drop_bit 4 w) = unat w div 16"
    by (simp add: unat_drop_bit_eq drop_bit_nat_def)
  have "hex_text_value (hex_digits (Suc n) w) = 16 * (unat w div 16 mod 16 ^ n) + unat w mod 16"
    using Suc.IH [of "drop_bit 4 w"] hex_char_value_digit [of "unat w mod 16"]
    by (simp add: hex_text_value_def unat_low_digit d)
  also have "\<dots> = unat w mod 16 ^ Suc n"
    using mod_mult2_eq [of "unat w" 16 "16 ^ n"] by simp
  finally show ?case .
qed

lemma hex_digits_hex: "c \<in> set (hex_digits n w) \<Longrightarrow> hex_char_value c \<noteq> None"
proof (induction n arbitrary: w)
  case (Suc n)
  have "unat (w AND 15) < 16" by (simp add: unat_low_digit)
  then show ?case using Suc hex_char_value_digit [of "unat (w AND 15)"] by auto
qed simp


lemma hex_char_classes:
  "hex_char_value c \<noteq> None \<Longrightarrow> \<not> is_space c \<and> c \<noteq> CHR ''-'' \<and> c \<noteq> CHR ''+'' \<and> c \<noteq> CHR ''x'' \<and> c \<noteq> CHR ''X'' \<and>
     c \<noteq> DQ \<and> c \<noteq> BS \<and> 32 \<le> byte c"
  by (auto simp: hex_char_value_def is_digit_def is_space_def byte_def DQ_def BS_def split: if_splits)

lemma scan_hex16: "scan_hex (hex16 w) = Some w"
proof -
  have all: "\<forall>c\<in>set (hex16 w). hex_char_value c \<noteq> None" using hex_digits_hex by (auto simp: hex16_def)
  have l: "length (hex16 w) = 16" by (simp add: hex16_def)
  then obtain a b r where h: "hex16 w = a # b # r" by (cases "hex16 w" rule: remdups_adj.cases) auto
  have c: "\<not> is_space a" "a \<noteq> CHR ''-''" "a \<noteq> CHR ''+''" "b \<noteq> CHR ''x''" "b \<noteq> CHR ''X''"
    using all hex_char_classes [of a] hex_char_classes [of b] by (auto simp: h)
  have s: "scan_sign (hex16 w) = (False, hex16 w)" using c by (simp add: scan_sign_def h)
  have t: "\<not> (take 2 (hex16 w) = ''0x'' \<or> take 2 (hex16 w) = ''0X'')" using c by (simp add: h)
  have d: "takeWhile (\<lambda>c. hex_char_value c \<noteq> None) (hex16 w) = hex16 w"
    using all by (simp add: takeWhile_eq_all_conv)
  have "unat w < 2 ^ LENGTH(64)" by (rule unsigned_less)
  then have u: "unat w < 2 ^ 64" by simp
  then have "hex_text_value (hex16 w) = unat w"
    using hex_digits_value [of 16 w] by (simp add: hex16_def)
  moreover note u
  ultimately have "scanned False (hex_text_value (hex16 w)) = w" by (simp add: scanned_def)
  moreover have "hex16 w \<noteq> []" by (simp add: h)
  ultimately show ?thesis by (simp only: scan_hex_def s Let_def split_conv t if_False d)
qed

lemma hex16_plain: "plain_text (hex16 w)" and length_hex16 [simp]: "length (hex16 w) = 16"
  using hex_digits_hex hex_char_classes by (force simp: plain_text_def hex16_def list_all_iff)+

section \<open>Texts without NUL, quotes or line ends\<close>

definition no_nul :: "string \<Rightarrow> bool" where
  "no_nul s \<longleftrightarrow> list_all (\<lambda>c. byte c \<noteq> 0) s"

lemma no_nul_simps [simp]:
  "no_nul []" "no_nul (c # s) \<longleftrightarrow> byte c \<noteq> 0 \<and> no_nul s" "no_nul (s @ t) \<longleftrightarrow> no_nul s \<and> no_nul t"
  by (simp_all add: no_nul_def)

lemma no_nul_c_string: "no_nul s \<Longrightarrow> c_string s = s"
  by (simp add: no_nul_def c_string_ok)

lemma plain_no_nul: "plain_text s \<Longrightarrow> no_nul s"
  by (auto simp: plain_text_def no_nul_def list_all_iff)

lemma nat_str_no_nul [simp]: "no_nul (nat_str n)"
  using nat_str_digits by (fastforce simp: no_nul_def list_all_iff is_digit_def)

lemma nat_str_DQ [simp]: "DQ \<notin> set (nat_str n)"
  using nat_str_digits [of DQ n] by (auto simp: is_digit_def DQ_def byte_def)

lemma no_nul_quoted [simp]: "no_nul (quoted s) = no_nul s" and no_nul_NL [simp]: "no_nul NL"
  by (simp_all add: quoted_def DQ_def NL_def byte_def)


section \<open>Fingerprint lines\<close>

definition input_keys :: "string list" where
  "input_keys = [''path'', ''size'', ''mtime_ns'', ''hash'']"

definition plain_path :: "string \<Rightarrow> bool" where
  "plain_path p \<longleftrightarrow> plain_text p \<and> p \<notin> set input_keys \<and> length p < PATH_MAX"

lemma input_keys_good: "k \<in> set input_keys \<Longrightarrow> good_key k \<and> length k < 16"
  by (auto simp: input_keys_def good_key_def is_alnum_def is_alpha_def is_digit_def is_upper_def is_lower_def byte_def)

lemma no_nul_dump: "plain_text v \<Longrightarrow> no_nul (dump_json_string (Some v))"
  by (simp add: dump_plain plain_no_nul DQ_def byte_def)

lemma input_line_no_nul: "plain_text (fp_path fp) \<Longrightarrow> no_nul comma \<Longrightarrow> no_nul (input_line fp comma)"
  by (simp add: input_line_def no_nul_dump u64_str_def plain_no_nul hex16_plain byte_def)

text \<open>One key, its value, and the key that is looked for: found here, or further on.\<close>

lemma after_key_item:
  assumes "good_key k" "DQ \<notin> set key" "plain_text v" "v \<noteq> k"
  shows "after_key k (quoted key @ CHR '':'' # dump_json_string (Some v) @ cs) =
    (if key = k then Some (CHR '':'' # dump_json_string (Some v) @ cs) else after_key k (DQ # cs))"
proof -
  have k: "DQ \<notin> set k" using assms(1) by (rule good_key_DQ)
  have colon: "\<not> is_alnum CHR '':''" "CHR '':'' \<noteq> CHR ''_''" "CHR '':'' \<noteq> DQ" by code_simp+
  have "after_key k (DQ # CHR '':'' # DQ # v @ DQ # cs) = after_key k (DQ # cs)"
    using after_key_between [OF assms(1) colon(1,2)] after_key_skip [of "'':''" k] colon(3)
      after_key_quoted [OF plain_DQ [OF assms(3)] k] assms(4) by simp
  then show ?thesis
    using after_key_quoted [OF assms(2) k] by (simp add: quoted_def dump_plain [OF assms(3)])
qed

lemma after_key_number:
  assumes "good_key k" "DQ \<notin> set key"
  shows "after_key k (quoted key @ CHR '':'' # nat_str n @ cs) =
    (if key = k then Some (CHR '':'' # nat_str n @ cs) else after_key k cs)"
proof -
  have k: "DQ \<notin> set k" using assms(1) by (rule good_key_DQ)
  have colon: "\<not> is_alnum CHR '':''" "CHR '':'' \<noteq> CHR ''_''" "CHR '':'' \<noteq> DQ" by code_simp+
  have "after_key k (DQ # CHR '':'' # nat_str n @ cs) = after_key k cs"
    using after_key_between [OF assms(1) colon(1,2)] after_key_skip [of "CHR '':'' # nat_str n" k cs] colon(3)
    by simp
  then show ?thesis using after_key_quoted [OF assms(2) k] by (simp add: quoted_def)
qed

lemma after_key_comma:
  assumes "good_key k"
  shows "after_key k (DQ # CHR '','' # cs) = after_key k cs" "after_key k (CHR '','' # cs) = after_key k cs"
proof -
  have c: "\<not> is_alnum CHR '',''" "CHR '','' \<noteq> CHR ''_''" "CHR '','' \<noteq> DQ" by code_simp+
  show "after_key k (CHR '','' # cs) = after_key k cs" using after_key_skip [of "'',''" k cs] c(3) by simp
  then show "after_key k (DQ # CHR '','' # cs) = after_key k cs" using after_key_between [OF assms c(1,2)] by simp
qed

lemma key_DQ: "k \<in> set input_keys \<Longrightarrow> DQ \<notin> set k"
  using input_keys_good good_key_DQ by blast

lemma parse_input_line:
  assumes "plain_path (fp_path fp)" "no_nul comma"
  shows "parse_input_object (input_line fp comma) = Some fp \<and>
    strstr (needle ''path'') (c_string (input_line fp comma)) \<noteq> None"
proof -
  let ?p = "fp_path fp" and ?t = "input_line fp comma"
  have c: "c_string ?t = ?t" using assms input_line_no_nul by (simp add: plain_path_def no_nul_c_string)
  have p: "plain_text ?p" using assms(1) by (simp add: plain_path_def)
  define q where "q = ''}'' @ comma @ NL"
  have start: "after_key k (''  {'' @ cs) = after_key k cs" for k cs
    using after_key_skip [of "''  {''" k cs] by (simp add: DQ_char)
  have at: "after_key k ?t = (if ''path'' = k then Some (CHR '':'' # dump_json_string (Some ?p) @ '','' @ quoted ''size'' @
        '':'' @ u64_str (fp_size fp) @ '','' @ quoted ''mtime_ns'' @ '':'' @ u64_str (fp_mtime_ns fp) @ '','' @
        quoted ''hash'' @ '':'' @ quoted (hex16 (fp_hash fp)) @ q)
      else if ''size'' = k then Some (CHR '':'' # nat_str (unat (fp_size fp)) @ '','' @ quoted ''mtime_ns'' @ '':'' @
        u64_str (fp_mtime_ns fp) @ '','' @ quoted ''hash'' @ '':'' @ quoted (hex16 (fp_hash fp)) @ q)
      else if ''mtime_ns'' = k then Some (CHR '':'' # nat_str (unat (fp_mtime_ns fp)) @ '','' @ quoted ''hash'' @ '':'' @
        quoted (hex16 (fp_hash fp)) @ q)
      else Some (CHR '':'' # dump_json_string (Some (hex16 (fp_hash fp))) @ q))" if k: "k \<in> set input_keys" for k
  proof -
    have g: "good_key k" and "length k < 16" using input_keys_good [OF k] by auto
    then have h: "hex16 (fp_hash fp) \<noteq> k" by auto
    have pk: "?p \<noteq> k" using assms(1) k by (auto simp: plain_path_def)
    have keys: "DQ \<notin> set ''path''" "DQ \<notin> set ''size''" "DQ \<notin> set ''mtime_ns''" "DQ \<notin> set ''hash''"
      by (simp_all add: DQ_char)
    have H: "quoted (hex16 (fp_hash fp)) = dump_json_string (Some (hex16 (fp_hash fp)))"
      by (simp add: quoted_def dump_plain hex16_plain)
    have "k \<in> {''path'', ''size'', ''mtime_ns'', ''hash''}" using k by (simp add: input_keys_def)
    then show ?thesis
      unfolding input_line_def q_def [symmetric] u64_str_def H start
      by (simp only: append_Cons append_Nil after_key_item [OF g keys(1) p pk] after_key_item [OF g keys(4) hex16_plain h]
          after_key_number [OF g keys(2)] after_key_number [OF g keys(3)] after_key_comma [OF g]) auto
  qed
  have k: "''path'' \<in> set input_keys" "''size'' \<in> set input_keys" "''mtime_ns'' \<in> set input_keys" "''hash'' \<in> set input_keys"
    by (simp_all add: input_keys_def)
  note g = k [THEN input_keys_good, THEN conjunct1]
  have nd: "\<not> is_digit CHR '',''" by code_simp
  have 1: "json_get_string ?t ''path'' = Some ?p" using string_found [OF g(1) c _ p] at [OF k(1)] by simp
  have 2: "json_get_string ?t ''hash'' = Some (hex16 (fp_hash fp))"
    using string_found [OF g(4) c _ hex16_plain] at [OF k(4)] by simp
  have 3: "json_get_ull ?t ''size'' = Some (fp_size fp)" using number_found [OF g(2) c _ nd] at [OF k(2)] by simp
  have 4: "json_get_ull ?t ''mtime_ns'' = Some (fp_mtime_ns fp)" using number_found [OF g(3) c _ nd] at [OF k(3)] by simp
  have "after_key ''path'' ?t \<noteq> None" using at [OF k(1)] by simp
  then have "strstr (needle ''path'') (c_string ?t) \<noteq> None" by (auto simp: after_key_def c)
  then show ?thesis by (simp add: parse_input_object_def 1 2 3 4 scan_hex16)
qed


section \<open>The manifest as a table\<close>

datatype json_item = JStr string | JNum nat

fun item_text :: "string \<times> json_item \<Rightarrow> string" where
  "item_text (key, JStr v) = manifest_item key (Some v)"
| "item_text (key, JNum n) = manifest_number key n"

fun item_value :: "json_item \<Rightarrow> string" where
  "item_value (JStr v) = dump_json_string (Some v)"
| "item_value (JNum n) = nat_str n"

fun item_ok :: "string list \<Rightarrow> string \<times> json_item \<Rightarrow> bool" where
  "item_ok keys (key, JStr v) \<longleftrightarrow> good_key key \<and> plain_text v \<and> v \<notin> set keys"
| "item_ok keys (key, JNum n) \<longleftrightarrow> good_key key"

lemma item_text_eq: "item_text (key, x) = '','' @ NL @ ''  '' @ quoted key @ '':'' @ item_value x"
  by (cases x) (simp_all add: manifest_item_def manifest_number_def)

lemma after_blank: "good_key k \<Longrightarrow> after_key k (CHR '','' # NL @ ''  '' @ cs) = after_key k cs"
  and after_DQ_blank: "good_key k \<Longrightarrow> after_key k (DQ # CHR '','' # NL @ ''  '' @ cs) = after_key k cs"
proof -
  have d: "DQ \<notin> set (NL @ ''  '')" by code_simp
  have "after_key k (NL @ ''  '' @ cs) = after_key k cs" using after_key_skip [OF d, of k cs] by simp
  then show "good_key k \<Longrightarrow> after_key k (CHR '','' # NL @ ''  '' @ cs) = after_key k cs"
    "good_key k \<Longrightarrow> after_key k (DQ # CHR '','' # NL @ ''  '' @ cs) = after_key k cs"
    by (simp_all only: after_key_comma)
qed

lemma after_item_text:
  assumes "good_key k" "item_ok keys (key, x)" "k \<in> set keys"
  shows "after_key k (item_text (key, x) @ cs) = (if key = k then Some (CHR '':'' # item_value x @ cs)
      else case x of JStr _ \<Rightarrow> after_key k (DQ # cs) | JNum _ \<Rightarrow> after_key k cs)"
    and "after_key k (DQ # item_text (key, x) @ cs) = after_key k (item_text (key, x) @ cs)"
proof -
  have key: "DQ \<notin> set key" using assms(2) good_key_DQ by (cases x) auto
  show "after_key k (DQ # item_text (key, x) @ cs) = after_key k (item_text (key, x) @ cs)"
    using after_blank [OF assms(1)] after_DQ_blank [OF assms(1)] by (simp add: item_text_eq)
  show "after_key k (item_text (key, x) @ cs) = (if key = k then Some (CHR '':'' # item_value x @ cs)
      else case x of JStr _ \<Rightarrow> after_key k (DQ # cs) | JNum _ \<Rightarrow> after_key k cs)"
  proof (cases x)
    case (JStr v)
    then have v: "plain_text v" "v \<noteq> k" using assms(2,3) by auto
    show ?thesis using after_blank [OF assms(1)] after_key_item [OF assms(1) key v] by (simp add: item_text_eq JStr)
  next
    case (JNum n)
    then show ?thesis using after_blank [OF assms(1)] after_key_number [OF assms(1) key] by (simp add: item_text_eq)
  qed
qed

lemma item_text_start: "\<exists>cs. item_text i = CHR '','' # cs"
  by (cases i) (simp add: item_text_eq)

lemma item_follows: "\<exists>c cs. \<not> is_digit c \<and> concat (map item_text its) @ NL @ r = c # cs"
proof (cases its)
  case Nil
  have "\<not> is_digit (char_of (10::nat))" by code_simp
  then show ?thesis using Nil by (simp add: NL_def)
next
  case (Cons j js)
  obtain w where "item_text j = CHR '','' # w" using item_text_start by blast
  moreover have "\<not> is_digit CHR '',''" by code_simp
  ultimately show ?thesis using Cons by simp
qed

lemma after_items:
  assumes k: "good_key k" "k \<in> set keys"
  shows "list_all (item_ok keys) its \<Longrightarrow> map_of its k = Some v \<Longrightarrow>
    (\<exists>c cs. \<not> is_digit c \<and> after_key k (concat (map item_text its) @ NL @ r) = Some (CHR '':'' # item_value v @ c # cs)) \<and>
    after_key k (DQ # concat (map item_text its) @ NL @ r) = after_key k (concat (map item_text its) @ NL @ r)"
proof (induction its)
  case (Cons i its)
  obtain key x where i: "i = (key, x)" by fastforce
  let ?rest = "concat (map item_text its) @ NL @ r"
  have ok: "item_ok keys (key, x)" and l: "list_all (item_ok keys) its" using Cons.prems(1) i by simp_all
  note t = after_item_text [OF k(1) ok k(2), of ?rest]
  have "\<exists>c cs. \<not> is_digit c \<and> after_key k (item_text (key, x) @ ?rest) = Some (CHR '':'' # item_value v @ c # cs)"
  proof (cases "key = k")
    case True
    then show ?thesis using t(1) Cons.prems(2) item_follows [of its r] by (auto simp: i)
  next
    case False
    then have IH: "(\<exists>c cs. \<not> is_digit c \<and> after_key k ?rest = Some (CHR '':'' # item_value v @ c # cs)) \<and>
        after_key k (DQ # ?rest) = after_key k ?rest"
      using Cons.IH [OF l] Cons.prems(2) by (simp add: i)
    have "after_key k (item_text (key, x) @ ?rest) = after_key k ?rest"
      using t(1) False IH by (cases x) simp_all
    then show ?thesis using IH by simp
  qed
  then show ?case using t(2) by (simp add: i)
qed simp

definition manifest_items ::
  "qstar_graph \<Rightarrow> string \<Rightarrow> string \<Rightarrow> cstr \<Rightarrow> cstr \<Rightarrow> 64 word \<Rightarrow> nat \<Rightarrow> (string \<times> json_item) list" where
  "manifest_items g file cmd label cli h n =
     [(''schema'', JStr CACHE_SCHEMA), (''qstar_version'', JStr QSTAR_VERSION), (''plan_abi'', JNum PLAN_ABI),
      (''package_root'', JStr (str_or_empty (gr_package_root g))), (''build_dir'', JStr (qstar_graph_build_dir g)),
      (''generated_dir'', JStr (qstar_graph_generated_dir g)), (''generator'', JStr (qstar_graph_generator g)),
      (''requested_generator'', JStr (qstar_graph_requested_generator g)), (''command'', JStr cmd),
      (''label'', JStr (label_key label)), (''entry_file'', JStr file), (''cli_platform'', JStr (str_or_empty cli)),
      (''package_alias_hash'', JStr (hex16 (package_alias_hash g))),
      (''project_option_override_hash'', JStr (hex16 (project_option_override_hash g))),
      (''input_fingerprint'', JStr (hex16 h)), (''action_count'', JNum n), (''target_count'', JNum (length (gr_targets g))),
      (''generated_action_count'', JNum (length (gr_genrules g)))]"

definition manifest_keys :: "string list" where
  "manifest_keys = [''schema'', ''qstar_version'', ''plan_abi'', ''package_root'', ''build_dir'', ''generated_dir'', ''generator'',
     ''requested_generator'', ''command'', ''label'', ''entry_file'', ''cli_platform'', ''package_alias_hash'',
     ''project_option_override_hash'', ''input_fingerprint'', ''action_count'', ''target_count'', ''generated_action_count'']"

definition plain_value :: "string \<Rightarrow> bool" where
  "plain_value v \<longleftrightarrow> plain_text v \<and> v \<notin> set manifest_keys"

text \<open>A request whose texts the manifest can hold.\<close>

definition plain_request :: "qstar_graph \<Rightarrow> string \<Rightarrow> string \<Rightarrow> cstr \<Rightarrow> cstr \<Rightarrow> bool" where
  "plain_request g file cmd label cli \<longleftrightarrow> list_all plain_value
     [str_or_empty (gr_package_root g), qstar_graph_build_dir g, qstar_graph_generated_dir g, qstar_graph_generator g,
      qstar_graph_requested_generator g, cmd, label_key label, file, str_or_empty cli]"

lemma manifest_text:
  "write_manifest g file cmd label cli h n =
     CHR ''{'' # tl (concat (map item_text (manifest_items g file cmd label cli h n))) @ NL @ ''}'' @ NL"
  by (simp add: write_manifest_def manifest_items_def manifest_item_def manifest_number_def dump_json_string_def)

lemma manifest_keys_good: "list_all good_key manifest_keys"
  by code_simp

lemma fixed_values: "plain_value CACHE_SCHEMA" "plain_value QSTAR_VERSION"
  unfolding plain_value_def by code_simp+

lemma hex16_value: "plain_value (hex16 w)"
proof -
  have "list_all (\<lambda>k. length k \<noteq> 16) manifest_keys" by code_simp
  then have "hex16 w \<notin> set manifest_keys" by (auto simp: list_all_iff)
  then show ?thesis by (simp add: plain_value_def hex16_plain)
qed

lemma manifest_items_ok:
  assumes "plain_request g file cmd label cli"
  shows "list_all (item_ok manifest_keys) (manifest_items g file cmd label cli h n)"
proof -
  have k: "good_key k" if "k \<in> set manifest_keys" for k using manifest_keys_good that by (simp add: list_all_iff)
  have "map fst (manifest_items g file cmd label cli h n) = manifest_keys"
    by (simp add: manifest_items_def manifest_keys_def)
  then have 1: "good_key (fst i)" if "i \<in> set (manifest_items g file cmd label cli h n)" for i
    using that k by (metis image_eqI list.set_map)
  have 2: "plain_value v" if "(key, JStr v) \<in> set (manifest_items g file cmd label cli h n)" for key v
    using that assms fixed_values hex16_value by (auto simp: manifest_items_def plain_request_def)
  have "item_ok manifest_keys i" if i: "i \<in> set (manifest_items g file cmd label cli h n)" for i
  proof (cases i)
    case (Pair key x)
    then show ?thesis using 1 [OF i] 2 i by (cases x) (auto simp: plain_value_def)
  qed
  then show ?thesis by (simp add: list_all_iff)
qed


lemma manifest_after:
  assumes "plain_request g file cmd label cli" "k \<in> set manifest_keys"
    and "map_of (manifest_items g file cmd label cli h n) k = Some v"
  shows "\<exists>c cs. \<not> is_digit c \<and>
    after_key k (write_manifest g file cmd label cli h n) = Some (CHR '':'' # item_value v @ c # cs)"
proof -
  let ?its = "manifest_items g file cmd label cli h n"
  have good: "good_key k" using assms(2) manifest_keys_good by (simp add: list_all_iff)
  obtain w where w: "concat (map item_text ?its) = CHR '','' # w"
    using item_text_start [of "hd ?its"] by (auto simp: manifest_items_def)
  have brace: "DQ \<notin> set ''{''" "DQ \<notin> set '',''" by (simp_all add: DQ_char)
  have "after_key k (write_manifest g file cmd label cli h n) = after_key k (concat (map item_text ?its) @ NL @ ''}'' @ NL)"
    using after_key_skip [OF brace(1), of k] after_key_skip [OF brace(2), of k] by (simp add: manifest_text w)
  then show ?thesis
    using after_items [OF good assms(2) manifest_items_ok [OF assms(1)] assms(3), of "''}'' @ NL"] by simp
qed

lemma item_value_no_nul: "item_ok keys (key, x) \<Longrightarrow> no_nul (item_value x)"
  by (cases x) (simp_all add: no_nul_dump)

lemma good_key_no_nul: "good_key k \<Longrightarrow> no_nul k"
  unfolding good_key_def no_nul_def list_all_iff
  by (auto simp: is_alnum_def is_alpha_def is_digit_def is_upper_def is_lower_def byte_def)

lemma item_text_no_nul: "item_ok keys i \<Longrightarrow> no_nul (item_text i)"
proof (cases i)
  case (Pair key x)
  assume ok: "item_ok keys i"
  have "good_key key" using ok Pair by (cases x) simp_all
  then show ?thesis using item_value_no_nul [of keys key x] ok Pair good_key_no_nul
    by (simp add: item_text_eq byte_def)
qed

lemma concat_no_nul: "(\<And>x. x \<in> set xs \<Longrightarrow> no_nul (f x)) \<Longrightarrow> no_nul (concat (map f xs))"
  by (induction xs) simp_all

lemma manifest_c_string:
  assumes "plain_request g file cmd label cli"
  shows "c_string (write_manifest g file cmd label cli h n) = write_manifest g file cmd label cli h n"
proof -
  let ?t = "concat (map item_text (manifest_items g file cmd label cli h n))"
  have "no_nul (item_text i)" if "i \<in> set (manifest_items g file cmd label cli h n)" for i
    using manifest_items_ok [OF assms, of h n] that item_text_no_nul [of manifest_keys i] unfolding list_all_iff by blast
  then have "no_nul ?t" by (rule concat_no_nul)
  then have "no_nul (tl ?t)" by (metis list.collapse no_nul_simps(2) list.sel(2))
  then show ?thesis by (intro no_nul_c_string) (simp add: manifest_text byte_def)
qed

lemma manifest_string:
  assumes "plain_request g file cmd label cli" "k \<in> set manifest_keys"
    and "map_of (manifest_items g file cmd label cli h n) k = Some (JStr v)"
  shows "json_get_string (write_manifest g file cmd label cli h n) k = Some v"
proof -
  obtain c cs where "after_key k (write_manifest g file cmd label cli h n) = Some (CHR '':'' # item_value (JStr v) @ c # cs)"
    using manifest_after [OF assms] by blast
  moreover have "item_ok manifest_keys (k, JStr v)"
    using manifest_items_ok [OF assms(1)] map_of_SomeD [OF assms(3)] by (force simp: list_all_iff)
  moreover have "good_key k" using assms(2) manifest_keys_good by (simp add: list_all_iff)
  ultimately show ?thesis using string_found [OF _ manifest_c_string [OF assms(1)]] by simp
qed

lemma manifest_number_read:
  assumes "plain_request g file cmd label cli" "k \<in> set manifest_keys"
    and "map_of (manifest_items g file cmd label cli h n) k = Some (JNum m)" "m < 2 ^ 64"
  shows "json_get_ull (write_manifest g file cmd label cli h n) k = Some (of_nat m)"
proof -
  have "unat (of_nat m :: 64 word) = m" using assms(4) by (simp add: unat_of_nat)
  moreover obtain c cs where "\<not> is_digit c"
    "after_key k (write_manifest g file cmd label cli h n) = Some (CHR '':'' # item_value (JNum m) @ c # cs)"
    using manifest_after [OF assms(1-3)] by blast
  moreover have "good_key k" using assms(2) manifest_keys_good by (simp add: list_all_iff)
  ultimately show ?thesis using number_found [OF _ manifest_c_string [OF assms(1), of h n], of k "of_nat m"] by simp
qed

lemma hex16_inject: "hex16 v = hex16 w \<longleftrightarrow> v = w"
  by (metis option.inject scan_hex16)

text \<open>The same question: what a manifest distinguishes.\<close>

definition same_request ::
  "qstar_graph \<Rightarrow> string \<Rightarrow> string \<Rightarrow> cstr \<Rightarrow> cstr \<Rightarrow> qstar_graph \<Rightarrow> string \<Rightarrow> string \<Rightarrow> cstr \<Rightarrow> cstr \<Rightarrow> bool" where
  "same_request g file cmd label cli g' file' cmd' label' cli' \<longleftrightarrow>
     str_or_empty (gr_package_root g') = str_or_empty (gr_package_root g) \<and>
     qstar_graph_build_dir g' = qstar_graph_build_dir g \<and> qstar_graph_generator g' = qstar_graph_generator g \<and>
     cmd' = cmd \<and> label_key label' = label_key label \<and> file' = file \<and> str_or_empty cli' = str_or_empty cli \<and>
     package_alias_hash g' = package_alias_hash g \<and> project_option_override_hash g' = project_option_override_hash g"

lemma first_failure_None: "first_failure cs = None \<longleftrightarrow> list_all fst cs"
proof (induction cs)
  case (Cons c cs)
  then show ?case by (cases c) simp
qed simp

lemma manifest_exact:
  assumes plain: "plain_request g file cmd label cli"
  shows "manifest_matches (write_manifest g file cmd label cli h n) g' file' cmd' label' cli' = None \<longleftrightarrow>
    same_request g file cmd label cli g' file' cmd' label' cli'"
proof -
  let ?m = "write_manifest g file cmd label cli h n"
  have s: "json_get_string ?m k = Some v"
    if "k \<in> set manifest_keys" "map_of (manifest_items g file cmd label cli h n) k = Some (JStr v)" for k v
    by (rule manifest_string [OF plain that])
  have "json_get_string ?m ''schema'' = Some CACHE_SCHEMA" "json_get_string ?m ''qstar_version'' = Some QSTAR_VERSION"
    "json_get_string ?m ''package_root'' = Some (str_or_empty (gr_package_root g))"
    "json_get_string ?m ''build_dir'' = Some (qstar_graph_build_dir g)"
    "json_get_string ?m ''generator'' = Some (qstar_graph_generator g)"
    "json_get_string ?m ''command'' = Some cmd" "json_get_string ?m ''label'' = Some (label_key label)"
    "json_get_string ?m ''entry_file'' = Some file" "json_get_string ?m ''cli_platform'' = Some (str_or_empty cli)"
    "json_get_string ?m ''package_alias_hash'' = Some (hex16 (package_alias_hash g))"
    "json_get_string ?m ''project_option_override_hash'' = Some (hex16 (project_option_override_hash g))"
    by (rule s; simp add: manifest_keys_def manifest_items_def)+
  moreover have "json_get_ull ?m ''plan_abi'' = Some (of_nat PLAN_ABI)"
    by (rule manifest_number_read [OF plain]) (simp_all add: manifest_keys_def manifest_items_def PLAN_ABI_def)
  ultimately show ?thesis
    by (auto simp: manifest_matches_def first_failure_None manifest_checks_def json_string_equals_def hex16_inject
        same_request_def)
qed


section \<open>The lines of the inputs\<close>

definition no_line_end :: "string \<Rightarrow> bool" where
  "no_line_end s \<longleftrightarrow> list_all (\<lambda>c. [c] \<noteq> NL) s"

lemma no_line_end_simps [simp]:
  "no_line_end []" "no_line_end (c # s) \<longleftrightarrow> [c] \<noteq> NL \<and> no_line_end s"
  "no_line_end (s @ t) \<longleftrightarrow> no_line_end s \<and> no_line_end t"
  by (simp_all add: no_line_end_def)

lemma char_no_line_end: "byte c \<noteq> 10 \<Longrightarrow> [c] \<noteq> NL"
  by (auto simp: NL_def byte_def)

lemma plain_no_line_end: "plain_text s \<Longrightarrow> no_line_end s"
  by (auto simp: plain_text_def no_line_end_def list_all_iff intro!: char_no_line_end)

lemma nat_str_no_line_end [simp]: "no_line_end (nat_str n)"
proof -
  have "byte c \<noteq> 10" if "c \<in> set (nat_str n)" for c using nat_str_digits [OF that] by (auto simp: is_digit_def)
  then show ?thesis using char_no_line_end by (auto simp: no_line_end_def list_all_iff)
qed

lemma fgets_line:
  assumes "no_line_end w" "length w + 1 < n"
  shows "fgets n (w @ NL @ rest) = (w @ NL, rest)"
proof -
  have "takeWhile (\<lambda>c. [c] \<noteq> NL) (w @ NL @ rest) = w"
    using assms(1) by (simp add: no_line_end_def list_all_iff NL_def takeWhile_append)
  then show ?thesis using assms(2) by (simp add: fgets_def Let_def NL_def)
qed

definition line_ok :: "nat \<Rightarrow> string \<Rightarrow> bool" where
  "line_ok n w \<longleftrightarrow> no_line_end w \<and> length w + 1 < n"

lemma file_lines_written:
  "list_all (line_ok n) ws \<Longrightarrow> length ws \<le> fuel \<Longrightarrow>
    file_lines n fuel (concat (map (\<lambda>w. w @ NL) ws)) = map (\<lambda>w. w @ NL) ws"
proof (induction ws arbitrary: fuel)
  case Nil
  then show ?case by (cases fuel) simp_all
next
  case (Cons w ws)
  obtain m where m: "fuel = Suc m" using Cons.prems(2) by (cases fuel) auto
  have "fgets n (w @ NL @ concat (map (\<lambda>w. w @ NL) ws)) = (w @ NL, concat (map (\<lambda>w. w @ NL) ws))"
    using Cons.prems(1) by (intro fgets_line) (simp_all add: line_ok_def)
  then show ?case using Cons m by (simp add: NL_def)
qed

lemma length_nat_str: "n < 10 ^ Suc k \<Longrightarrow> length (nat_str n) \<le> Suc k"
proof (induction k arbitrary: n)
  case (Suc k)
  show ?case
  proof (cases "n < 10")
    case False
    then have "n div 10 < 10 ^ Suc k" using Suc.prems by (simp add: less_mult_imp_div_less mult.commute)
    from Suc.IH [OF this] False show ?thesis by (subst nat_str.simps) simp
  qed (subst nat_str.simps, simp)
qed (subst nat_str.simps, simp)

lemma length_u64_str: "length (u64_str w) \<le> 20"
proof -
  have "unat w < 2 ^ LENGTH(64)" by (rule unsigned_less)
  then have "unat w < 10 ^ Suc 19" by simp
  from length_nat_str [OF this] show ?thesis by (simp add: u64_str_def)
qed

definition input_body :: "cache_file_fp \<Rightarrow> string \<Rightarrow> string" where
  "input_body fp comma = butlast (input_line fp comma)"

lemma input_line_body:
  assumes "plain_path (fp_path fp)" "comma \<in> {[], '',''}"
  shows "input_line fp comma = input_body fp comma @ NL" "line_ok 8192 (input_body fp comma)"
proof -
  let ?w = "''  {'' @ quoted ''path'' @ '':'' @ dump_json_string (Some (fp_path fp)) @ '','' @ quoted ''size'' @
     '':'' @ u64_str (fp_size fp) @ '','' @ quoted ''mtime_ns'' @ '':'' @ u64_str (fp_mtime_ns fp) @ '','' @
     quoted ''hash'' @ '':'' @ quoted (hex16 (fp_hash fp)) @ ''}'' @ comma"
  have l: "input_line fp comma = ?w @ NL" by (simp add: input_line_def)
  then show "input_line fp comma = input_body fp comma @ NL" by (simp add: input_body_def NL_def butlast_append)
  with l have b: "input_body fp comma = ?w" by simp
  have p: "plain_text (fp_path fp)" "length (fp_path fp) < 4096" using assms(1) by (simp_all add: plain_path_def)
  have dq: "[DQ] \<noteq> NL" and cm: "'','' \<noteq> NL" by code_simp+
  have "no_line_end comma" using assms(2) cm by auto
  then have "no_line_end ?w" using p dq plain_no_line_end [OF hex16_plain, of "fp_hash fp"] plain_no_line_end [OF p(1)]
    by (simp add: quoted_def dump_plain u64_str_def) (auto intro!: char_no_line_end simp: byte_def)
  moreover have "length ?w + 1 < 8192"
    using p(2) length_u64_str [of "fp_size fp"] length_u64_str [of "fp_mtime_ns fp"] assms(2)
    by (auto simp: quoted_def dump_plain [OF p(1)])
  ultimately show "line_ok 8192 (input_body fp comma)" by (simp add: b line_ok_def)
qed

text \<open>The reference: the first build file that is not as it was.\<close>

fun first_change :: "disk \<Rightarrow> qstar_graph \<Rightarrow> cache_file_fp list \<Rightarrow> string option" where
  "first_change d g [] = None"
| "first_change d g (fp # fps) = (case fingerprint_file d g (fp_path fp) of
      None \<Rightarrow> Some ''authoring-input-missing''
    | Some current \<Rightarrow> if same_fingerprint fp current then first_change d g fps else Some ''authoring-input-changed'')"

fun body_lines :: "cache_file_fp list \<Rightarrow> string list" where
  "body_lines [] = []"
| "body_lines [fp] = [input_body fp []]"
| "body_lines (fp # fq # fps) = input_body fp '','' # body_lines (fq # fps)"

lemma fingerprint_path: "fingerprint_file d g f = Some fp \<Longrightarrow> fp_path fp = f"
  by (auto simp: fingerprint_file_def split: option.splits)

lemma input_lines_written:
  assumes "input_lines d g fs h = Some (t, h')" "list_all plain_path fs"
  shows "\<exists>fps. map (fingerprint_file d g) fs = map Some fps \<and> t = concat (map (\<lambda>w. w @ NL) (body_lines fps))"
  using assms
proof (induction fs arbitrary: h t h')
  case (Cons f fs)
  obtain fp t1 h1 where fp: "fingerprint_file d g f = Some fp"
    and r: "input_lines d g fs (input_fingerprint_hash fp h) = Some (t1, h1)"
    and t: "t = input_line fp (if fs = [] then [] else '','') @ t1"
    using Cons.prems(1) by (auto split: option.splits prod.splits)
  obtain fps where fps: "map (fingerprint_file d g) fs = map Some fps" "t1 = concat (map (\<lambda>w. w @ NL) (body_lines fps))"
    using Cons.IH [OF r] Cons.prems(2) by auto
  have len: "length fs = length fps" using fps(1) by (metis length_map)
  have p: "plain_path (fp_path fp)" using Cons.prems(2) fingerprint_path [OF fp] by simp
  have "t = concat (map (\<lambda>w. w @ NL) (body_lines (fp # fps)))"
    using t fps(2) len input_line_body(1) [OF p] by (cases fps) (auto split: if_splits)
  then show ?case using fp fps(1) by (intro exI [of _ "fp # fps"]) simp
qed auto

lemma body_lines_ok: "list_all (\<lambda>fp. plain_path (fp_path fp)) fps \<Longrightarrow> list_all (line_ok 8192) (body_lines fps)"
  by (induction fps rule: body_lines.induct) (simp_all add: input_line_body(2))

lemma match_body_lines:
  "list_all (\<lambda>fp. plain_path (fp_path fp)) fps \<Longrightarrow>
    match_lines d g seen h (map (\<lambda>w. w @ NL) (body_lines fps) @ tail) =
      (case first_change d g fps of Some r \<Rightarrow> Inl r
       | None \<Rightarrow> match_lines d g (seen \<or> fps \<noteq> []) (foldl (\<lambda>h fp. input_fingerprint_hash (the (fingerprint_file d g (fp_path fp))) h) h fps) tail)"
proof (induction fps arbitrary: seen h rule: body_lines.induct)
  case (2 fp)
  note p = parse_input_line [of fp "[]"]
  show ?case using 2 p input_line_body(1) [of fp "[]"]
    by (auto split: option.splits)
next
  case (3 fp fq fps)
  have c: "no_nul '',''" by (simp add: byte_def)
  note p = parse_input_line [OF _ c, of fp]
  show ?case using 3 p input_line_body(1) [of fp "'',''"]
    by (auto split: option.splits simp del: body_lines.simps(3) simp: body_lines.simps(3) [of fp fq fps])
qed simp


definition unchanged :: "disk \<Rightarrow> disk \<Rightarrow> qstar_graph \<Rightarrow> string \<Rightarrow> bool" where
  "unchanged d0 d g f \<longleftrightarrow> fingerprint_file d g f \<noteq> None \<and> fingerprint_file d g f = fingerprint_file d0 g f"

lemma same_fingerprint_iff: "fp_path a = fp_path b \<Longrightarrow> same_fingerprint a b \<longleftrightarrow> a = b"
  by (cases a; cases b) (auto simp: same_fingerprint_def)

lemma first_change_None:
  assumes "map (fingerprint_file d0 g) fs = map Some fps"
  shows "first_change d g fps = None \<longleftrightarrow> list_all (unchanged d0 d g) fs"
  using assms
proof (induction fs arbitrary: fps)
  case (Cons f fs)
  then obtain fp fps' where f: "fps = fp # fps'" "fingerprint_file d0 g f = Some fp" "map (fingerprint_file d0 g) fs = map Some fps'"
    by (cases fps) auto
  show ?case
  proof (cases "fingerprint_file d g f")
    case (Some b)
    then show ?thesis using Cons.IH [OF f(3)] f(1,2) fingerprint_path [OF f(2)] same_fingerprint_iff [of fp b]
        fingerprint_path [OF Some] by (auto simp: unchanged_def)
  qed (use f fingerprint_path [OF f(2)] in \<open>simp add: unchanged_def\<close>)
qed simp

lemma brackets_skipped: "strstr (needle ''path'') (c_string (''['' @ NL)) = None"
  "strstr (needle ''path'') (c_string ('']'' @ NL)) = None"
  by code_simp+

lemma inputs_match_written:
  assumes w: "write_inputs_json d0 g = Some (t, h)" and plain: "list_all plain_path (gr_evaluated_fragments g)"
    and r: "dk_read d path = Some t" and root: "gr_package_root g' = gr_package_root g"
  shows "(\<exists>k. inputs_match d g' path = Inr k) \<longleftrightarrow>
    gr_evaluated_fragments g \<noteq> [] \<and> list_all (unchanged d0 d g) (gr_evaluated_fragments g)"
proof -
  let ?fs = "gr_evaluated_fragments g"
  obtain t1 where t1: "input_lines d0 g ?fs HASH_INIT = Some (t1, h)" "t = ''['' @ NL @ t1 @ '']'' @ NL"
    using w by (auto simp: write_inputs_json_def)
  obtain fps where fps: "map (fingerprint_file d0 g) ?fs = map Some fps" "t1 = concat (map (\<lambda>w. w @ NL) (body_lines fps))"
    using input_lines_written [OF t1(1) plain] by blast
  have same: "fingerprint_file d g' = fingerprint_file d g"
    using root by (simp add: fingerprint_file_def cache_path_def fun_eq_iff)
  have "fp_path fp \<in> set ?fs" if "fp \<in> set fps" for fp
  proof -
    have "Some fp \<in> set (map (fingerprint_file d0 g) ?fs)" using that fps(1) by simp
    then show ?thesis using fingerprint_path by auto
  qed
  then have p: "list_all (\<lambda>fp. plain_path (fp_path fp)) fps" using plain by (simp add: list_all_iff)
  let ?ws = "''['' # body_lines fps @ ['']'']"
  have t: "t = concat (map (\<lambda>w. w @ NL) ?ws)" by (simp add: t1(2) fps(2))
  have nl: "[CHR ''['' ] \<noteq> NL" "[CHR '']'' ] \<noteq> NL" by code_simp+
  have "list_all (line_ok 8192) ?ws" using body_lines_ok [OF p] nl by (simp add: line_ok_def)
  moreover have "length ?ws \<le> length t"
  proof -
    have "length ws \<le> length (concat (map (\<lambda>w. w @ NL) ws))" for ws by (induction ws) (simp_all add: NL_def)
    then show ?thesis unfolding t by blast
  qed
  ultimately have l: "file_lines 8192 (length t) t = map (\<lambda>w. w @ NL) ?ws"
    using file_lines_written [of 8192 ?ws "length t"] t by simp
  have change: "first_change d g' fps = first_change d g fps" using same by (induction fps) (simp_all split: option.split)
  have "inputs_match d g' path = (case first_change d g fps of Some r \<Rightarrow> Inl r
      | None \<Rightarrow> if fps \<noteq> [] then Inr (foldl (\<lambda>h fp. input_fingerprint_hash (the (fingerprint_file d g' (fp_path fp))) h) HASH_INIT fps)
                else Inl ''inputs-empty'')"
    using match_body_lines [OF p, of d g' False HASH_INIT "['']'' @ NL]"] brackets_skipped
    by (simp add: inputs_match_def r l change split: option.split)
  moreover have "fps = [] \<longleftrightarrow> ?fs = []" using fps(1) by (metis list.map_disc_iff)
  ultimately show ?thesis using first_change_None [OF fps(1), of d] by (auto split: option.splits)
qed

section \<open>The header of the actions\<close>

lemma actions_read_back:
  assumes l: "plain_text (label_key label)" "length (label_key label) < PATH_MAX"
    and ok: "counted_ok LIST_LIMIT (\<lambda>a. cached_action_ok a \<and> cached_action_shape_ok a) (gr_cached_actions g)"
  shows "read_actions_file (write_actions_file g label) g' label =
    Some (g'\<lparr>gr_cached_actions := gr_cached_actions g, gr_cached_action_plan_loaded := True\<rparr>)"
proof -
  let ?k = "label_key label"
  let ?head = "''{'' @ quoted ''root'' @ '':'' @ dump_json_string (Some ?k) @ ''}''"
  let ?bin = "write_counted write_cached_action (gr_cached_actions g)"
  have c: "write_actions_file g label = ACTION_MAGIC @ NL @ ?head @ NL @ ?bin"
    by (simp add: write_actions_file_def actions_header_def)
  have m: "no_line_end ACTION_MAGIC" "length ACTION_MAGIC = 29" by code_simp+
  have marks: "[DQ] \<noteq> NL" "''{'' \<noteq> NL" "''}'' \<noteq> NL" "'':'' \<noteq> NL" "no_line_end ''root''" by code_simp+
  have h: "no_line_end ?head" using marks plain_no_line_end [OF l(1)] by (simp add: quoted_def dump_plain [OF l(1)])
  have len: "length ?head + 1 < PATH_MAX + 128" using l by (simp add: quoted_def dump_plain)
  have f1: "fgets (PATH_MAX + 128) (write_actions_file g label) = (ACTION_MAGIC @ NL, ?head @ NL @ ?bin)"
    unfolding c by (rule fgets_line) (use m in simp_all)
  have f2: "fgets (PATH_MAX + 128) (?head @ NL @ ?bin) = (?head @ NL, ?bin)"
    by (rule fgets_line) (use h len in simp_all)
  have good: "good_key ''root''" by code_simp
  have "json_get_string (?head @ NL) ''root'' = Some ?k"
  proof (rule string_found [OF good _ _ l(1)])
    show "c_string (?head @ NL) = ?head @ NL"
      using no_nul_dump [OF l(1)] by (intro no_nul_c_string) (simp add: byte_def)
    have d: "DQ \<notin> set ''{''" "DQ \<notin> set ''root''" by code_simp+
    have "after_key ''root'' (?head @ NL) = after_key ''root'' (quoted ''root'' @ '':'' @ dump_json_string (Some ?k) @ ''}'' @ NL)"
      using after_key_skip [OF d(1)] by simp
    also have "\<dots> = Some (CHR '':'' # dump_json_string (Some ?k) @ ''}'' @ NL)"
      using after_key_quoted [OF d(2) d(2)] by (simp add: quoted_def)
    finally show "after_key ''root'' (?head @ NL) = Some (CHR '':'' # dump_json_string (Some ?k) @ ''}'' @ NL)" .
  qed
  moreover have "read_counted LIST_LIMIT read_shaped_action ?bin = Got (gr_cached_actions g) []"
    using shaped_action_codec.counted_back [OF ok, of "[]"] by simp
  moreover have "starts_with ACTION_MAGIC (ACTION_MAGIC @ NL)" by simp
  moreover have "write_actions_file g label \<noteq> []" unfolding c by (simp add: NL_def)
  ultimately show ?thesis unfolding read_actions_file_def f1 f2 Let_def split_conv by simp
qed


section \<open>A stored plan\<close>

lemma cache_full_prefix: "\<exists>pre. \<forall>n p. cache_full g n PATH_MAX = Some p \<longrightarrow> p = pre @ n"
proof -
  let ?root = "nonempty_or ''.'' (gr_package_root g)"
  obtain a bs where b: "qstar_graph_build_dir g @ ''/stella/'' = a # bs" by (cases "qstar_graph_build_dir g") simp_all
  have rel: "qstar_graph_build_path g (Some (''stella/'' @ n)) PATH_MAX = put PATH_MAX (a # bs @ n)" for n
  proof -
    have "qstar_graph_build_dir g @ ''/'' @ ''stella/'' @ n = (qstar_graph_build_dir g @ ''/stella/'') @ n" by simp
    then have e: "qstar_graph_build_dir g @ ''/'' @ ''stella/'' @ n = a # bs @ n" unfolding b by simp
    have "qstar_graph_build_path g (Some (''stella/'' @ n)) PATH_MAX = put PATH_MAX (qstar_graph_build_dir g @ ''/'' @ ''stella/'' @ n)"
      by (simp add: qstar_graph_build_path_def)
    then show ?thesis unfolding e .
  qed
  define pre where "pre = (if a = CHR ''/'' \<or> ?root = ''.'' then a # bs else ?root @ ''/'' @ a # bs)"
  have "p = pre @ n" if "cache_full g n PATH_MAX = Some p" for n p
  proof -
    have r: "cache_rel g n PATH_MAX \<in> {None, put PATH_MAX (a # bs @ n)}"
      unfolding cache_rel_def using rel by (auto split: option.split)
    then have "cache_rel g n PATH_MAX = Some (a # bs @ n)"
      using that by (cases "cache_rel g n PATH_MAX") (auto simp: cache_full_def cache_path_def put_def split: if_splits)
    then show ?thesis using that by (auto simp: cache_full_def cache_path_def pre_def Let_def split: if_splits)
  qed
  then show ?thesis by blast
qed

lemma cache_full_inject:
  assumes "cache_full g m PATH_MAX = Some p" "cache_full g n PATH_MAX = Some p" shows "m = n"
proof -
  obtain pre where "\<forall>n p. cache_full g n PATH_MAX = Some p \<longrightarrow> p = pre @ n" using cache_full_prefix by blast
  with assms have "pre @ m = pre @ n" by metis
  then show ?thesis by simp
qed

lemma cache_full_same:
  assumes "gr_package_root g' = gr_package_root g" "qstar_graph_build_dir g' = qstar_graph_build_dir g"
  shows "cache_full g' n k = cache_full g n k"
proof -
  have "qstar_graph_build_path g' = qstar_graph_build_path g"
    using assms(2) by (simp add: qstar_graph_build_path_def fun_eq_iff)
  then show ?thesis unfolding cache_full_def cache_rel_def cache_path_def assms(1) by (simp only:)
qed

lemma put_file_read: "dk_read (put_file p c t d) q = (if q = p then Some c else dk_read d q)"
  and put_file_readable: "dk_readable (put_file p c t d) q = (if q = p then True else dk_readable d q)"
  and put_file_stat: "q \<noteq> p \<Longrightarrow> dk_stat (put_file p c t d) q = dk_stat d q"
  by (simp_all add: put_file_def)

lemma save_Some: "save env (p, tmp) c d = Some d' \<Longrightarrow> d' = put_file p c (se_now env) d"
  by (simp add: save_def split: if_splits)

text \<open>What the disk holds once a plan is stored.\<close>

definition holds_plan :: "disk \<Rightarrow> disk \<Rightarrow> qstar_graph \<Rightarrow> qstar_graph \<Rightarrow> string \<Rightarrow> string \<Rightarrow> cstr \<Rightarrow> cstr \<Rightarrow> bool" where
  "holds_plan d d0 g plan file cmd label cli \<longleftrightarrow>
     (\<exists>manifest inputs graph actions t h.
       cache_full g ''manifest.json'' PATH_MAX = Some manifest \<and> cache_full g ''inputs.json'' PATH_MAX = Some inputs \<and>
       cache_full g ''graph.qsg'' PATH_MAX = Some graph \<and> cache_full g ''actions.qsa'' PATH_MAX = Some actions \<and>
       write_inputs_json d0 plan = Some (t, h) \<and> dk_read d inputs = Some t \<and>
       dk_read d graph = Some (write_graph_cache_file plan) \<and>
       dk_read d actions = Some (write_actions_file plan label) \<and> dk_readable d actions \<and>
       dk_read d manifest = Some (write_manifest plan file cmd label cli h (length (gr_cached_actions plan))))"

lemma stored_plan:
  assumes "qstar_stella_plan_cache_store env d g file cmd label cli = (''stored'', d')"
  shows "\<exists>plan d0. se_prepare env g label = Some plan \<and> holds_plan d' d0 g plan file cmd label cli \<and> cmd = ''build'' \<and>
    (\<forall>p. (\<forall>n\<in>{''graph.qsg'', ''actions.qsa''}. cache_full g n PATH_MAX \<noteq> Some p) \<longrightarrow>
      dk_read d0 p = dk_read d p \<and> dk_stat d0 p = dk_stat d p)"
proof -
  obtain manifest inputs graph actions tmps plan where
    paths: "cache_pair env g ''manifest.json'' = Some (manifest, fst tmps)"
      "cache_pair env g ''inputs.json'' = Some (inputs, fst (snd tmps))"
      "cache_pair env g ''graph.qsg'' = Some (graph, fst (snd (snd tmps)))"
      "cache_pair env g ''actions.qsa'' = Some (actions, snd (snd (snd tmps)))"
    and prep: "se_prepare env g label = Some plan" and cmd: "cmd = ''build''"
    and st: "store_files env d plan file cmd label cli (manifest, fst tmps) (inputs, fst (snd tmps))
      (graph, fst (snd (snd tmps))) (actions, snd (snd (snd tmps))) = (''stored'', d')"
    using assms that unfolding qstar_stella_plan_cache_store_def
    by (auto split: if_splits option.splits)
  have full: "cache_full g ''manifest.json'' PATH_MAX = Some manifest" "cache_full g ''inputs.json'' PATH_MAX = Some inputs"
    "cache_full g ''graph.qsg'' PATH_MAX = Some graph" "cache_full g ''actions.qsa'' PATH_MAX = Some actions"
    using paths by (auto simp: cache_pair_def split: option.splits)
  have ne: "manifest \<noteq> inputs" "manifest \<noteq> graph" "manifest \<noteq> actions" "inputs \<noteq> graph" "inputs \<noteq> actions" "graph \<noteq> actions"
    using full cache_full_inject by fastforce+
  obtain d1 d2 d3 t h where
    1: "save env (graph, fst (snd (snd tmps))) (write_graph_cache_file plan) d = Some d1" and
    2: "save env (actions, snd (snd (snd tmps))) (write_actions_file plan label) d1 = Some d2" and
    3: "write_inputs_json d2 plan = Some (t, h)" and
    4: "save env (inputs, fst (snd tmps)) t d2 = Some d3" and
    5: "save env (manifest, fst tmps) (write_manifest plan file cmd label cli h (length (gr_cached_actions plan))) d3 = Some d'"
    using st by (auto simp: store_files_def split: option.splits)
  note e = save_Some [OF 1] save_Some [OF 2] save_Some [OF 4] save_Some [OF 5]
  have "holds_plan d' d2 g plan file cmd label cli"
    unfolding holds_plan_def using full 3 ne e
    by (intro exI [of _ manifest] exI [of _ inputs] exI [of _ graph] exI [of _ actions] exI [of _ t] exI [of _ h])
      (simp add: put_file_read put_file_readable)
  moreover have "dk_read d2 p = dk_read d p \<and> dk_stat d2 p = dk_stat d p"
    if "\<forall>n\<in>{''graph.qsg'', ''actions.qsa''}. cache_full g n PATH_MAX \<noteq> Some p" for p
    using that full e(1,2) by (auto simp: put_file_def)
  ultimately show ?thesis using prep cmd by blast
qed

lemma load_stored_plan:
  assumes holds: "holds_plan d d0 g plan file cmd label cli"
    and same: "gr_package_root g' = gr_package_root g" "qstar_graph_build_dir g' = qstar_graph_build_dir g"
      "gr_package_root plan = gr_package_root g"
    and ok: "graph_body_ok plan" "plain_request plan file cmd label cli" "list_all plain_path (gr_evaluated_fragments plan)"
      "counted_ok LIST_LIMIT (\<lambda>a. cached_action_ok a \<and> cached_action_shape_ok a) (gr_cached_actions plan)"
      "length (label_key label) < PATH_MAX"
  shows "(\<exists>r. load_plan d g' file' cmd' label' cli' = Value (Inr r)) \<longleftrightarrow>
      same_request plan file cmd label cli g' file' cmd' label' cli' \<and>
      gr_evaluated_fragments plan \<noteq> [] \<and> list_all (unchanged d0 d plan) (gr_evaluated_fragments plan)" (is "?hit \<longleftrightarrow> ?same")
    and "load_plan d g' file' cmd' label' cli' = Value (Inr r) \<Longrightarrow>
      r = (keep_graph plan)\<lparr>gr_cached_actions := gr_cached_actions plan, gr_cached_action_plan_loaded := True\<rparr>"
proof -
  obtain manifest inputs graph actions t h where
    full: "cache_full g ''manifest.json'' PATH_MAX = Some manifest" "cache_full g ''inputs.json'' PATH_MAX = Some inputs"
      "cache_full g ''graph.qsg'' PATH_MAX = Some graph" "cache_full g ''actions.qsa'' PATH_MAX = Some actions"
    and w: "write_inputs_json d0 plan = Some (t, h)" and files: "dk_read d inputs = Some t"
      "dk_read d graph = Some (write_graph_cache_file plan)" "dk_read d actions = Some (write_actions_file plan label)"
      "dk_readable d actions"
      "dk_read d manifest = Some (write_manifest plan file cmd label cli h (length (gr_cached_actions plan)))"
    using holds by (auto simp: holds_plan_def)
  note full' = full [folded cache_full_same [OF same(1,2)]]
  note m = manifest_exact [OF ok(2), of h "length (gr_cached_actions plan)" g' file' cmd' label' cli']
  have root: "gr_package_root g' = gr_package_root plan" using same by simp
  note i = inputs_match_written [OF w ok(3) files(1) root]
  have gr: "read_graph_cache_file (write_graph_cache_file plan) = Got (keep_graph plan) []"
    using graph_codec.reads_all [OF ok(1)] .
  have pl: "plain_text (label_key label)" using ok(2) by (simp add: plain_request_def plain_value_def)
  have act: "read_actions_file (write_actions_file plan label) (keep_graph plan) label' =
      Some ((keep_graph plan)\<lparr>gr_cached_actions := gr_cached_actions plan, gr_cached_action_plan_loaded := True\<rparr>)"
    if "label_key label' = label_key label"
  proof -
    have "read_actions_file c k label' = read_actions_file c k label" for c k
      using that by (simp add: read_actions_file_def)
    then show ?thesis using actions_read_back [OF pl ok(5,4)] by simp
  qed
  have load: "load_plan d g' file' cmd' label' cli' = (if same_request plan file cmd label cli g' file' cmd' label' cli'
      then case inputs_match d g' inputs of Inl reason \<Rightarrow> Value (Inl reason)
        | Inr _ \<Rightarrow> Value (Inr ((keep_graph plan)\<lparr>gr_cached_actions := gr_cached_actions plan, gr_cached_action_plan_loaded := True\<rparr>))
      else Value (Inl (the (manifest_matches (write_manifest plan file cmd label cli h (length (gr_cached_actions plan)))
        g' file' cmd' label' cli'))))"
    using full' files m gr act
    by (cases "manifest_matches (write_manifest plan file cmd label cli h (length (gr_cached_actions plan))) g' file' cmd' label' cli'")
      (auto simp: load_plan_def same_request_def split: sum.split)
  show "?hit \<longleftrightarrow> ?same" using i unfolding load by (auto split: sum.splits)
  show "load_plan d g' file' cmd' label' cli' = Value (Inr r) \<Longrightarrow>
      r = (keep_graph plan)\<lparr>gr_cached_actions := gr_cached_actions plan, gr_cached_action_plan_loaded := True\<rparr>"
    unfolding load by (auto split: if_splits sum.splits)
qed


section \<open>Properties\<close>

text \<open>A later disk on which the four files are as they were stored.\<close>

definition cache_files :: "string list" where
  "cache_files = [''manifest.json'', ''inputs.json'', ''graph.qsg'', ''actions.qsa'']"

definition keeps_cache :: "qstar_graph \<Rightarrow> disk \<Rightarrow> disk \<Rightarrow> bool" where
  "keeps_cache g d e \<longleftrightarrow> (\<forall>n\<in>set cache_files. \<forall>p. cache_full g n PATH_MAX = Some p \<longrightarrow>
     dk_read e p = dk_read d p \<and> dk_readable e p = dk_readable d p)"

text \<open>A plan whose texts and sizes are within the limits of the files.\<close>

definition storable :: "qstar_graph \<Rightarrow> string \<Rightarrow> string \<Rightarrow> cstr \<Rightarrow> cstr \<Rightarrow> bool" where
  "storable plan file cmd label cli \<longleftrightarrow> graph_body_ok plan \<and> plain_request plan file cmd label cli \<and>
     list_all plain_path (gr_evaluated_fragments plan) \<and> length (label_key label) < PATH_MAX \<and>
     counted_ok LIST_LIMIT (\<lambda>a. cached_action_ok a \<and> cached_action_shape_ok a) (gr_cached_actions plan)"

definition own_files :: "qstar_graph \<Rightarrow> string list \<Rightarrow> bool" where
  "own_files g fs \<longleftrightarrow> list_all (\<lambda>f. list_all (\<lambda>n. cache_full g n PATH_MAX = None \<or>
     cache_full g n PATH_MAX \<noteq> cache_path g (Some f) PATH_MAX) [''graph.qsg'', ''actions.qsa'']) fs"

lemma holds_kept: "holds_plan d d0 g plan file cmd label cli \<Longrightarrow> keeps_cache g d e \<Longrightarrow> holds_plan e d0 g plan file cmd label cli"
  unfolding holds_plan_def keeps_cache_def cache_files_def by (elim exE, intro exI) auto

lemma fingerprint_same_disk:
  assumes "\<And>p. cache_path g (Some f) PATH_MAX = Some p \<Longrightarrow> dk_read d0 p = dk_read d p \<and> dk_stat d0 p = dk_stat d p"
  shows "fingerprint_file d0 g f = fingerprint_file d g f"
  using assms by (auto simp: fingerprint_file_def split: option.split)

text \<open>
  The same for a loader that may look elsewhere, in another package root or build directory: where it looks it finds
  the four files as they were stored (those of the project itself, or the whole project was moved or copied).
\<close>

definition finds_cache :: "qstar_graph \<Rightarrow> qstar_graph \<Rightarrow> disk \<Rightarrow> disk \<Rightarrow> bool" where
  "finds_cache g h d e \<longleftrightarrow> (\<forall>n\<in>set cache_files. \<forall>p q. cache_full g n PATH_MAX = Some p \<longrightarrow> cache_full h n PATH_MAX = Some q \<longrightarrow>
     dk_read e q = dk_read d p \<and> dk_readable e q = dk_readable d p)"

lemma finds_keeps:
  assumes "finds_cache g h d e" "\<And>n. cache_full h n PATH_MAX = cache_full g n PATH_MAX"
  shows "keeps_cache g d e"
  using assms by (simp add: finds_cache_def keeps_cache_def)

text \<open>Another request is a miss, wherever the loader looks.\<close>

lemma other_request_misses:
  assumes "holds_plan d d0 g plan file cmd label cli" "finds_cache g h d e" "plain_request plan file cmd label cli"
    and "\<not> same_request plan file cmd label cli h file' cmd' label' cli'"
  shows "\<exists>reason. load_plan e h file' cmd' label' cli' = Value (Inl reason)"
proof -
  obtain manifest t where full: "cache_full g ''manifest.json'' PATH_MAX = Some manifest"
      "dk_read d manifest = Some (write_manifest plan file cmd label cli t (length (gr_cached_actions plan)))"
    using assms(1) by (auto simp: holds_plan_def)
  have m: "manifest_matches (write_manifest plan file cmd label cli t (length (gr_cached_actions plan))) h file' cmd' label' cli' \<noteq> None"
    using manifest_exact [OF assms(3)] assms(4) by simp
  have "dk_read e q = dk_read d manifest" if "cache_full h ''manifest.json'' PATH_MAX = Some q" for q
    using assms(2) full(1) that by (simp add: finds_cache_def cache_files_def)
  then show ?thesis using full(2) m by (auto simp: load_plan_def split: option.split)
qed

lemma set_root_simps [simp]:
  "gr_package_root (qstar_graph_set_package_root g r) = Some (nonempty_or ''.'' r)"
  "qstar_graph_build_dir (qstar_graph_set_package_root g r) = qstar_graph_build_dir g"
  "qstar_graph_generator (qstar_graph_set_package_root g r) = qstar_graph_generator g"
  by (simp_all add: qstar_graph_set_package_root_def qstar_graph_build_dir_def qstar_graph_generator_def)

text \<open>
  C2: A plan was stored (its texts and sizes are within the limits of the files, its build files are not two of the files of the
  cache, and lowering the actions has kept the package root and the build directory). Before the build files are evaluated a
  later build asks for it; where it looks the four files are as they were stored, also if it looks in another package root or
  build directory than the one that stored them (as in a project that was moved). Then the plan is loaded exactly if the request
  is the same (package root, build directory, generator, command, label, file, platform, aliases and overrides) and there are
  build files and each of them has the size, time and content hash it had; and what is loaded is the part of the stored graph that
  the file has (\<open>keep_graph\<close>) with all its lowered actions.
\<close>

theorem plan_cache_exact:
  assumes stored: "qstar_stella_plan_cache_store env d g file cmd label cli = (''stored'', d')"
    and prep: "se_prepare env g label = Some plan" "gr_package_root g = Some root" "gr_package_root plan = Some root" "root \<noteq> []"
      "qstar_graph_build_dir plan = qstar_graph_build_dir g"
    and ok: "storable plan file cmd label cli" "own_files g (gr_evaluated_fragments plan)"
    and later: "gr_project g' = gr_project qstar_graph_init" "discover_root_for_cache e file' PATH_MAX = Some root'"
      "finds_cache g (qstar_graph_set_package_root g' (Some root')) d' e"
  shows "((\<exists>r. qstar_stella_plan_cache_try_load e g' file' cmd' label' cli' = Value (Inr r)) \<longleftrightarrow>
      qstar_graph_generator g' = ''stella'' \<and>
      same_request plan file cmd label cli (qstar_graph_set_package_root g' (Some root')) file' cmd' label' cli' \<and>
      gr_evaluated_fragments plan \<noteq> [] \<and> list_all (unchanged d e plan) (gr_evaluated_fragments plan)) \<and>
    (\<forall>r. qstar_stella_plan_cache_try_load e g' file' cmd' label' cli' = Value (Inr r) \<longrightarrow>
      r = (keep_graph plan)\<lparr>gr_cached_actions := gr_cached_actions plan, gr_cached_action_plan_loaded := True\<rparr>)"
proof -
  obtain d0 where h: "holds_plan d' d0 g plan file cmd label cli" and cmd: "cmd = ''build''"
    and d0: "\<And>p. \<forall>n\<in>{''graph.qsg'', ''actions.qsa''}. cache_full g n PATH_MAX \<noteq> Some p \<Longrightarrow>
      dk_read d0 p = dk_read d p \<and> dk_stat d0 p = dk_stat d p"
    using stored_plan [OF stored] prep(1) by auto
  let ?g = "qstar_graph_set_package_root g' (Some root')"
  have t: "qstar_stella_plan_cache_try_load e g' file' cmd' label' cli' = (if cmd' \<noteq> ''build'' then Value (Inl ''command-not-build'')
      else if qstar_graph_generator g' \<noteq> ''stella'' then Value (Inl ''generator-not-stella'')
      else load_plan e ?g file' cmd' label' cli')"
    using later(2) by (simp add: qstar_stella_plan_cache_try_load_def)
  show ?thesis
  proof (cases "same_request plan file cmd label cli ?g file' cmd' label' cli'")
    case False
    then obtain reason where "load_plan e ?g file' cmd' label' cli' = Value (Inl reason)"
      using other_request_misses [OF h later(3) _ False] ok(1) by (auto simp: storable_def)
    then show ?thesis using False unfolding t by auto
  next
    case True
    have r: "gr_package_root ?g = gr_package_root g" and b: "qstar_graph_build_dir ?g = qstar_graph_build_dir g"
      using True prep(2-5) by (simp_all add: same_request_def)
    have pr: "gr_package_root plan = gr_package_root g" using prep by simp
    note l = load_stored_plan [OF holds_kept [OF h finds_keeps [OF later(3) cache_full_same [OF r b]]] r b pr _ _ _ _ _,
        of file' cmd' label' cli']
    have path: "cache_path plan = cache_path g" unfolding cache_path_def [abs_def] pr by (rule refl)
    have u: "unchanged d0 e plan f = unchanged d e plan f" if "f \<in> set (gr_evaluated_fragments plan)" for f
    proof -
      have "fingerprint_file d0 plan f = fingerprint_file d plan f"
        using ok(2) that by (intro fingerprint_same_disk d0) (auto simp: own_files_def list_all_iff path)
      then show ?thesis by (simp add: unchanged_def)
    qed
    have all: "list_all (unchanged d0 e plan) (gr_evaluated_fragments plan) = list_all (unchanged d e plan) (gr_evaluated_fragments plan)"
      using u by (simp add: list_all_iff)
    have "cmd' = ''build''" using True cmd by (simp add: same_request_def)
    then have t': "qstar_stella_plan_cache_try_load e g' file' cmd' label' cli' =
        (if qstar_graph_generator g' \<noteq> ''stella'' then Value (Inl ''generator-not-stella'') else load_plan e ?g file' cmd' label' cli')"
      using t by simp
    have "(\<exists>r. load_plan e ?g file' cmd' label' cli' = Value (Inr r)) \<longleftrightarrow> same_request plan file cmd label cli ?g file' cmd' label' cli' \<and>
        gr_evaluated_fragments plan \<noteq> [] \<and> list_all (unchanged d e plan) (gr_evaluated_fragments plan)"
      using l(1) ok(1) unfolding storable_def all by blast
    moreover have "r = (keep_graph plan)\<lparr>gr_cached_actions := gr_cached_actions plan, gr_cached_action_plan_loaded := True\<rparr>"
      if "load_plan e ?g file' cmd' label' cli' = Value (Inr r)" for r
      using that l(2) ok(1) unfolding storable_def by blast
    ultimately show ?thesis using t' by (auto split: if_splits)
  qed
qed

text \<open>A project with one build file and one lowered action, stored and loaded again.\<close>

definition demo_action :: qstar_cached_action where
  "demo_action = zero_qstar_cached_action\<lparr>ca_id := Some ''//:a'', ca_kind := Some ''compile'', ca_target_label := Some ''//:a'',
     ca_argv := [''cc''], ca_outputs := [''a.o'']\<rparr>"

definition demo_plan :: qstar_graph where
  "demo_plan = zero_qstar_graph\<lparr>gr_package_root := Some ''.'', gr_evaluated_fragments := [''qstar.lua''],
     gr_cached_actions := [demo_action]\<rparr>"

definition demo_disk :: disk where
  "demo_disk = \<lparr>dk_stat = (\<lambda>p. if p = ''qstar.lua'' then Some (2, 7) else None),
     dk_read = (\<lambda>p. if p = ''qstar.lua'' then Some ''--'' else None), dk_readable = (\<lambda>_. False)\<rparr>"

definition demo_store :: store_env where
  "demo_store = \<lparr>se_mkdir = (\<lambda>_. True), se_write = (\<lambda>_. True), se_rename = (\<lambda>_ _. True), se_prepare = (\<lambda>g _. Some g),
     se_pid = 1, se_now = 9\<rparr>"

definition demo_stored :: "string \<times> disk" where
  "demo_stored = qstar_stella_plan_cache_store demo_store demo_disk demo_plan ''qstar.lua'' ''build'' None None"

lemma demo_cache_full: "length n < 100 \<Longrightarrow> cache_full demo_plan n PATH_MAX = Some (''build/qstar/stella/'' @ n)"
  by (simp add: cache_full_def cache_rel_def cache_path_def qstar_graph_build_path_def qstar_graph_build_dir_def put_def
      demo_plan_def zero_defs present_def nonempty_or_def)

lemma demo_pair: "n \<in> set cache_files \<Longrightarrow> \<exists>tmp. cache_pair demo_store demo_plan n = Some (''build/qstar/stella/'' @ n, tmp)"
proof -
  assume n: "n \<in> set cache_files"
  then have l: "length n < 100" by (auto simp: cache_files_def)
  have "length (nat_str 1) = 1" by code_simp
  then have "cache_tmp_full demo_plan (se_pid demo_store) n PATH_MAX \<noteq> None"
    using l by (simp add: cache_tmp_full_def cache_path_def qstar_graph_build_path_def qstar_graph_build_dir_def put_def
      demo_plan_def demo_store_def zero_defs present_def nonempty_or_def)
  then show ?thesis using demo_cache_full [OF l] by (auto simp: cache_pair_def)
qed


lemma demo_stored_disk: "\<exists>a b c e. demo_stored = (''stored'', put_file ''build/qstar/stella/manifest.json'' a 9
    (put_file ''build/qstar/stella/inputs.json'' b 9 (put_file ''build/qstar/stella/actions.qsa'' c 9
    (put_file ''build/qstar/stella/graph.qsg'' e 9 demo_disk))))"
proof -
  obtain m i gr ac where p: "cache_pair demo_store demo_plan ''manifest.json'' = Some (''build/qstar/stella/manifest.json'', m)"
    "cache_pair demo_store demo_plan ''inputs.json'' = Some (''build/qstar/stella/inputs.json'', i)"
    "cache_pair demo_store demo_plan ''graph.qsg'' = Some (''build/qstar/stella/graph.qsg'', gr)"
    "cache_pair demo_store demo_plan ''actions.qsa'' = Some (''build/qstar/stella/actions.qsa'', ac)"
    using demo_pair [of "''manifest.json''"] demo_pair [of "''inputs.json''"] demo_pair [of "''graph.qsg''"]
      demo_pair [of "''actions.qsa''"] by (auto simp: cache_files_def)
  have s: "save demo_store (path, tmp) c d = Some (put_file path c 9 d)" for path tmp c d
    by (simp add: save_def demo_store_def)
  have w: "write_inputs_json (put_file ''build/qstar/stella/actions.qsa'' a 9 (put_file ''build/qstar/stella/graph.qsg'' b 9 demo_disk))
      demo_plan \<noteq> None" for a b
    by (simp add: write_inputs_json_def demo_plan_def fingerprint_file_def cache_path_def put_file_def demo_disk_def
        nonempty_or_def present_def put_def)
  have g: "qstar_graph_generator demo_plan = ''stella''" "\<not> gr_uses_file_globs demo_plan"
    by (simp_all add: qstar_graph_generator_def demo_plan_def zero_defs nonempty_or_def present_def)
  have e: "se_prepare demo_store demo_plan None = Some demo_plan" "se_mkdir demo_store x" for x
    by (simp_all add: demo_store_def)
  obtain t h where "write_inputs_json (put_file ''build/qstar/stella/actions.qsa'' (write_actions_file demo_plan None) 9
      (put_file ''build/qstar/stella/graph.qsg'' (write_graph_cache_file demo_plan) 9 demo_disk)) demo_plan = Some (t, h)"
    using w by fastforce
  then show ?thesis
    using demo_cache_full [of "[]"] demo_cache_full [of "''tmp''"]
    unfolding demo_stored_def qstar_stella_plan_cache_store_def store_files_def
    by (simp add: p s g e) blast
qed

lemma demo_stored_ok: "qstar_stella_plan_cache_store demo_store demo_disk demo_plan ''qstar.lua'' ''build'' None None =
    (''stored'', snd demo_stored)"
  using demo_stored_disk by (metis demo_stored_def fst_conv prod.collapse)

lemma demo_source_kept: "dk_read (snd demo_stored) ''qstar.lua'' = Some ''--''" "dk_stat (snd demo_stored) ''qstar.lua'' = Some (2, 7)"
proof -
  obtain a b c e where d: "demo_stored = (''stored'', put_file ''build/qstar/stella/manifest.json'' a 9
    (put_file ''build/qstar/stella/inputs.json'' b 9 (put_file ''build/qstar/stella/actions.qsa'' c 9
    (put_file ''build/qstar/stella/graph.qsg'' e 9 demo_disk))))" using demo_stored_disk by blast
  show "dk_read (snd demo_stored) ''qstar.lua'' = Some ''--''" "dk_stat (snd demo_stored) ''qstar.lua'' = Some (2, 7)"
    by (simp_all add: d put_file_def demo_disk_def)
qed

lemma demo_storable: "storable demo_plan ''qstar.lua'' ''build'' None None"
proof -
  have 1: "graph_body_ok demo_plan"
    by (simp add: graph_body_ok_def demo_plan_def zero_defs opt_text_ok_def list_ok_def counted_ok_def text_ok_def MAX_STRING_def
        project_ok_def byte_def)
  have 2: "counted_ok LIST_LIMIT (\<lambda>a. cached_action_ok a \<and> cached_action_shape_ok a) (gr_cached_actions demo_plan)"
    by (simp add: demo_plan_def demo_action_def zero_defs counted_ok_def cached_action_ok_def opt_text_ok_def list_ok_def
        text_ok_def MAX_STRING_def byte_def cached_action_shape_ok_def present_def)
  have 3: "list_all plain_path (gr_evaluated_fragments demo_plan)"
  proof -
    have "plain_text ''qstar.lua''" "''qstar.lua'' \<notin> set input_keys" by code_simp+
    then show ?thesis by (simp add: demo_plan_def plain_path_def)
  qed
  have "plain_request demo_plan ''qstar.lua'' ''build'' None None" unfolding plain_request_def plain_value_def by code_simp
  moreover have "length (label_key None) < PATH_MAX" by (simp add: label_key_def nonempty_or_def present_def)
  ultimately show ?thesis using 1 2 3 by (simp add: storable_def)
qed

lemma plan_cache_exact_witness:
  "\<exists>r. qstar_stella_plan_cache_try_load (snd demo_stored) qstar_graph_init ''qstar.lua'' ''build'' None None = Value (Inr r)"
proof -
  let ?e = "snd demo_stored"
  have root: "gr_package_root demo_plan = Some ''.''" and prep: "se_prepare demo_store demo_plan None = Some demo_plan"
    by (simp_all add: demo_plan_def demo_store_def)
  have path: "cache_path demo_plan (Some ''qstar.lua'') PATH_MAX = Some ''qstar.lua''"
    by (simp add: cache_path_def root nonempty_or_def present_def put_def)
  have own: "own_files demo_plan (gr_evaluated_fragments demo_plan)"
    using demo_cache_full [of "''graph.qsg''"] demo_cache_full [of "''actions.qsa''"] path
    by (simp add: own_files_def) (simp add: demo_plan_def)
  have "qstar_dirname ''qstar.lua'' PATH_MAX = Some ''.''" by (simp add: qstar_dirname_def)
  moreover have "discover_up ?e ''.'' = Some ''.''"
    by (subst discover_up.simps) (simp add: qstar_path_join_def present_def put_def demo_source_kept)
  ultimately have disc: "discover_root_for_cache ?e ''qstar.lua'' PATH_MAX = Some ''.''"
    by (simp add: discover_root_for_cache_def nonempty_or_def present_def put_def)
  have "unchanged demo_disk ?e demo_plan ''qstar.lua''"
    by (simp add: unchanged_def fingerprint_file_def path demo_source_kept) (simp add: demo_disk_def)
  then have unch: "list_all (unchanged demo_disk ?e demo_plan) (gr_evaluated_fragments demo_plan)"
    "gr_evaluated_fragments demo_plan \<noteq> []" by (simp_all add: demo_plan_def)
  have init: "qstar_graph_build_dir qstar_graph_init = qstar_graph_build_dir demo_plan"
    "qstar_graph_generator qstar_graph_init = qstar_graph_generator demo_plan"
    "gr_packages (qstar_graph_set_package_root qstar_graph_init r) = gr_packages demo_plan"
    "gr_project_option_overrides (qstar_graph_set_package_root qstar_graph_init r) = gr_project_option_overrides demo_plan"
    "Some (nonempty_or ''.'' (Some ''.'')) = gr_package_root demo_plan" for r
    by (simp_all add: qstar_graph_build_dir_def qstar_graph_generator_def demo_plan_def qstar_graph_init_def
        qstar_graph_set_package_root_def nonempty_or_def present_def)
  have same: "same_request demo_plan ''qstar.lua'' ''build'' None None
      (qstar_graph_set_package_root qstar_graph_init (Some ''.'')) ''qstar.lua'' ''build'' None None"
    by (simp add: same_request_def init root nonempty_or_def present_def package_alias_hash_def project_option_override_hash_def)
  have gen: "qstar_graph_generator qstar_graph_init = ''stella''"
    by (simp add: qstar_graph_generator_def qstar_graph_init_def zero_defs nonempty_or_def present_def)
  have "cache_full (qstar_graph_set_package_root qstar_graph_init (Some ''.'')) n PATH_MAX = cache_full demo_plan n PATH_MAX" for n
    by (rule cache_full_same) (simp_all add: init root nonempty_or_def present_def)
  then have kept: "finds_cache demo_plan (qstar_graph_set_package_root qstar_graph_init (Some ''.'')) ?e ?e"
    by (simp add: finds_cache_def)
  show ?thesis
    using plan_cache_exact [OF demo_stored_ok prep root root _ refl demo_storable own refl disc kept] unch same gen by blast
qed

section \<open>Texts the files do not bring back\<close>

text \<open>The reader does not know the escape the writer uses for control characters.\<close>

lemma control_character_lost:
  "json_get_string (''{'' @ quoted ''path'' @ '':'' @ dump_json_string (Some [char_of (1::nat)]) @ ''}'') ''path'' = Some ''u0001''"
  by code_simp

text \<open>A value that equals a later key is taken for that key: such a request never hits.\<close>

lemma value_taken_for_key:
  "json_get_string (''{'' @ quoted ''label'' @ '':'' @ quoted ''cli_platform'' @ '','' @ quoted ''entry_file'' @ '':'' @
     quoted ''a'' @ '','' @ quoted ''cli_platform'' @ '':'' @ quoted ''linux'' @ ''}'') ''cli_platform'' = Some ''a''"
  by code_simp

end
