(* ===== verification/QCxx.thy ===== *)
theory QCxx
  imports QMaterialize
begin

text \<open>
  C++ build strategies (\<open>cxx.c\<close>): precompiled headers, unity batches and modules. The lemmas show that
  unity batches partition the implementation sources of a target, each with one leader, and that a
  target that passes validation never lets two module interfaces write the same file.
\<close>

section \<open>Compiler and sources\<close>

text \<open>The text after the last slash or backslash.\<close>

definition path_basename :: "string \<Rightarrow> string" where
  "path_basename path = (case (strrchr (CHR ''/'') path, strrchr BS path) of
      (None, None) \<Rightarrow> path
    | (Some (_, a), None) \<Rightarrow> a
    | (None, Some (_, b)) \<Rightarrow> b
    | (Some (_, a), Some (_, b)) \<Rightarrow> if length b < length a then b else a)"

definition qstar_cxx_compiler_family :: "host_os \<Rightarrow> qstar_resolved_toolchain option \<Rightarrow> string" where
  "qstar_cxx_compiler_family host resolved =
     (let cxx = (case resolved of None \<Rightarrow> [] | Some r \<Rightarrow> rt_cxx r); tool = path_basename cxx
      in if host = HostDarwin \<and> (cxx = ''/usr/bin/clang++'' \<or> cxx = ''clang++'') then ''apple-clang''
         else if str_contains ''clang'' tool then ''clang''
         else if str_contains ''g++'' tool \<or> str_contains ''gcc'' tool then ''gcc''
         else if tool = ''c++'' then (if host = HostDarwin then ''apple-clang'' else ''gcc'')
         else if tool = ''cl'' \<or> tool = ''cl.exe'' then ''msvc''
         else ''unknown'')"

definition target_has_cxx_source :: "qstar_target \<Rightarrow> bool" where
  "target_has_cxx_source t = any_source t (\<lambda>s. si_provider s = ''cxx'' \<and> qstar_source_requires_compile s)"

definition qstar_cxx_source_is_module_interface :: "qstar_target \<Rightarrow> nat \<Rightarrow> bool" where
  "qstar_cxx_source_is_module_interface t i = (case qstar_target_source_classify t i of
      None \<Rightarrow> False | Some s \<Rightarrow> qstar_source_is_cxx_module s)"

definition qstar_cxx_source_is_implementation :: "qstar_target \<Rightarrow> nat \<Rightarrow> bool" where
  "qstar_cxx_source_is_implementation t i = (case qstar_target_source_classify t i of
      None \<Rightarrow> False
    | Some s \<Rightarrow> si_provider s = ''cxx'' \<and> si_language s = ''cxx'' \<and> qstar_target_provider_source_unit t i = None)"

definition source_indices :: "qstar_target \<Rightarrow> nat list" where
  "source_indices t = [0..<length (t_sources t)]"

definition qstar_cxx_target_has_module_interfaces :: "qstar_target \<Rightarrow> bool" where
  "qstar_cxx_target_has_module_interfaces t = list_ex (qstar_cxx_source_is_module_interface t) (source_indices t)"

definition cxx_standard_supports_modules :: "cstr \<Rightarrow> bool" where
  "cxx_standard_supports_modules standard = (case standard of None \<Rightarrow> False | Some s \<Rightarrow>
     let newer = (\<lambda>v. v \<in> {''20'', ''23'', ''26'', ''2a'', ''2b'', ''2c''})
     in if starts_with ''c++'' s then newer (drop 3 s)
        else if starts_with ''gnu++'' s then newer (drop 5 s) else False)"

section \<open>Unity batches\<close>

definition unity_batch_size :: "qstar_target \<Rightarrow> nat" where
  "unity_batch_size t = (if 0 < t_cxx_unity_batch_size t then nat (t_cxx_unity_batch_size t) else 8)"

text \<open>The number of implementation sources before source \<open>k\<close>.\<close>

fun unity_ordinal :: "qstar_target \<Rightarrow> nat \<Rightarrow> nat \<Rightarrow> nat list \<Rightarrow> nat option" where
  "unity_ordinal t k ordinal [] = None"
| "unity_ordinal t k ordinal (i # is) =
     (if \<not> qstar_cxx_source_is_implementation t i then unity_ordinal t k ordinal is
      else if i = k then Some ordinal else unity_ordinal t k (ordinal + 1) is)"

text \<open>\<open>Some (batch, leader)\<close> for the return value \<open>1\<close>.\<close>

definition qstar_cxx_unity_source_info :: "qstar_target \<Rightarrow> nat \<Rightarrow> (nat \<times> bool) option" where
  "qstar_cxx_unity_source_info t k =
     (if \<not> t_cxx_unity_enabled t \<or> \<not> qstar_cxx_source_is_implementation t k then None
      else map_option (\<lambda>n. (n div unity_batch_size t, n mod unity_batch_size t = 0))
             (unity_ordinal t k 0 (source_indices t)))"

definition qstar_cxx_unity_batch_count :: "qstar_target \<Rightarrow> nat" where
  "qstar_cxx_unity_batch_count t =
     (if \<not> t_cxx_unity_enabled t then 0
      else (length (filter (qstar_cxx_source_is_implementation t) (source_indices t)) + unity_batch_size t - 1)
             div unity_batch_size t)"

fun unity_batch_from :: "qstar_target \<Rightarrow> nat \<Rightarrow> nat \<Rightarrow> nat \<Rightarrow> nat list \<Rightarrow> string list" where
  "unity_batch_from t lo hi ordinal [] = []"
| "unity_batch_from t lo hi ordinal (i # is) =
     (if \<not> qstar_cxx_source_is_implementation t i then unity_batch_from t lo hi ordinal is
      else (if lo \<le> ordinal \<and> ordinal < hi then [t_sources t ! i] else []) @
             unity_batch_from t lo hi (ordinal + 1) is)"

definition qstar_cxx_unity_batch_sources :: "qstar_target \<Rightarrow> nat \<Rightarrow> string list option" where
  "qstar_cxx_unity_batch_sources t batch =
     (let b = batch * unity_batch_size t; xs = unity_batch_from t b (b + unity_batch_size t) 0 (source_indices t)
      in if xs = [] then None else Some xs)"

section \<open>Paths\<close>

definition cxx_subpath :: "qstar_graph \<Rightarrow> qstar_target \<Rightarrow> string \<Rightarrow> nat \<Rightarrow> string option" where
  "cxx_subpath g t tail dstlen =
     sub_path g (''out/'' @ qstar_mangle_label (t_label t) PATH_MAX @ ''/cxx/'' @ tail) dstlen"

definition qstar_cxx_pch_output_path ::
  "host_os \<Rightarrow> qstar_graph \<Rightarrow> qstar_target \<Rightarrow> qstar_resolved_toolchain option \<Rightarrow> nat \<Rightarrow> string option" where
  "qstar_cxx_pch_output_path host g t resolved dstlen = cxx_subpath g t
     (if qstar_cxx_compiler_family host resolved = ''gcc'' then ''pch.hpp.gch'' else ''pch.pch'') dstlen"

definition qstar_cxx_pch_include_path ::
  "host_os \<Rightarrow> qstar_graph \<Rightarrow> qstar_target \<Rightarrow> qstar_resolved_toolchain option \<Rightarrow> nat \<Rightarrow> string option" where
  "qstar_cxx_pch_include_path host g t resolved dstlen =
     (case qstar_cxx_pch_output_path host g t resolved dstlen of
        None \<Rightarrow> None
      | Some p \<Rightarrow>
          if qstar_cxx_compiler_family host resolved = ''gcc''
          then if ends_with ''.gch'' p then Some (take (length p - 4) p) else None
          else Some p)"

definition qstar_cxx_module_dir_path :: "qstar_graph \<Rightarrow> qstar_target \<Rightarrow> nat \<Rightarrow> string option" where
  "qstar_cxx_module_dir_path g t dstlen = cxx_subpath g t ''modules'' dstlen"

text \<open>The file name without its last extension, in a buffer of 256 bytes.\<close>

definition bmi_name :: "string \<Rightarrow> string option" where
  "bmi_name path =
     (let base = path_basename path;
          name = (case strrchr (CHR ''.'') base of None \<Rightarrow> base | Some (stem, _) \<Rightarrow> stem)
      in if name = [] \<or> 256 \<le> length name then None else Some name)"

definition qstar_cxx_module_output_path :: "qstar_graph \<Rightarrow> qstar_target \<Rightarrow> nat \<Rightarrow> nat \<Rightarrow> string option" where
  "qstar_cxx_module_output_path g t i dstlen =
     (case bmi_name (t_sources t ! i) of
        None \<Rightarrow> None
      | Some name \<Rightarrow> (case put PATH_MAX (''modules/'' @ name @ ''.pcm'') of
            None \<Rightarrow> None
          | Some tail \<Rightarrow> cxx_subpath g t tail dstlen))"

definition qstar_cxx_unity_object_path :: "qstar_graph \<Rightarrow> qstar_target \<Rightarrow> nat \<Rightarrow> nat \<Rightarrow> string option" where
  "qstar_cxx_unity_object_path g t batch dstlen = cxx_subpath g t (''unity/unity_'' @ nat_str batch @ ''.o'') dstlen"

definition qstar_cxx_unity_depfile_path :: "qstar_graph \<Rightarrow> qstar_target \<Rightarrow> nat \<Rightarrow> nat \<Rightarrow> string option" where
  "qstar_cxx_unity_depfile_path g t batch dstlen = cxx_subpath g t (''unity/unity_'' @ nat_str batch @ ''.d'') dstlen"

definition qstar_cxx_unity_source_path :: "qstar_graph \<Rightarrow> qstar_target \<Rightarrow> nat \<Rightarrow> nat \<Rightarrow> string option" where
  "qstar_cxx_unity_source_path g t batch dstlen = cxx_subpath g t (''unity/unity_'' @ nat_str batch @ ''.cpp'') dstlen"

section \<open>Validation\<close>

text \<open>Two interfaces \<open>i\<close> and \<open>j\<close> that would write one file.\<close>

definition check_module_pair :: "qstar_graph \<Rightarrow> qstar_target \<Rightarrow> nat \<Rightarrow> nat \<Rightarrow> check" where
  "check_module_pair g t i j =
     (if \<not> qstar_cxx_source_is_module_interface t i \<or> \<not> qstar_cxx_source_is_module_interface t j then Inr ()
      else case (qstar_cxx_module_output_path g t i PATH_MAX, qstar_cxx_module_output_path g t j PATH_MAX) of
          (Some left, Some right) \<Rightarrow> reject (left = right) (target_err t ''sources''
             (''qstar: C++ module interface sources '' @ sq (t_sources t ! i) @ '' and '' @ sq (t_sources t ! j) @
              '' produce the same BMI name; interface basenames must be unique''))
        | _ \<Rightarrow> Inl (Plain ''qstar: C++ module BMI output path is too long''))"

definition check_module_outputs :: "qstar_graph \<Rightarrow> qstar_target \<Rightarrow> check" where
  "check_module_outputs g t = check_all (\<lambda>i. check_all (check_module_pair g t i) [Suc i..<length (t_sources t)])
     (source_indices t)"

definition qstar_cxx_validate_strategies ::
  "host_os \<Rightarrow> qstar_graph \<Rightarrow> qstar_target \<Rightarrow> qstar_resolved_toolchain option \<Rightarrow> check" where
  "qstar_cxx_validate_strategies host g t resolved =
     (let family = qstar_cxx_compiler_family host resolved;
          cxx = (case resolved of None \<Rightarrow> [] | Some r \<Rightarrow> rt_cxx r); modules = t_cxx_modules_enabled t
      in if \<not> (present (t_cxx_precompiled_header t) \<or> t_cxx_unity_enabled t \<or> modules) then Inr ()
         else check_seq
           [reject (\<not> target_has_cxx_source t) (target_err t ''lang.cxx''
              (''qstar: target '' @ sq (t_label t) @ '' enables a C++ build strategy but has no built-in C++ source'')),
            reject (t_kind t = ''objectlib'' \<and> t_compile_context t = Some ''consumer'') (target_err t ''lang.cxx''
              (''qstar: opt-in C++ strategies are not supported on compile_context = '' @ [DQ] @ ''consumer'' @ [DQ] @
               '' objectlib '' @ sq (t_label t) @ ''; configure the consuming target instead'')),
            reject (family \<noteq> ''clang'' \<and> family \<noteq> ''apple-clang'' \<and> family \<noteq> ''gcc'') (target_err t ''lang.cxx''
              (''qstar: C++ build strategies require a directly configured Clang or GCC compiler; '' @
               sq (if cxx = [] then ''<none>'' else cxx) @ '' has unknown capability family'')),
            reject (modules \<and> family \<noteq> ''clang'') (target_err t ''lang.cxx.modules''
              (''qstar: lang.cxx.modules requires Clang in this release; compiler '' @ sq cxx @ '' is classified as '' @
               family)),
            reject (modules \<and> \<not> cxx_standard_supports_modules (t_cxx_standard t)) (target_err t ''lang.cxx.standard''
              (''qstar: lang.cxx.modules requires standard = '' @ [DQ] @ ''c++20'' @ [DQ] @ '' or newer'')),
            reject (modules \<and> \<not> qstar_cxx_target_has_module_interfaces t) (target_err t ''lang.cxx.modules''
              ''qstar: lang.cxx.modules.enabled = true requires at least one .cppm or .ixx module interface source''),
            if modules then check_module_outputs g t else Inr ()])"

section \<open>The generated unity source and the inputs of modules\<close>

definition unity_include :: "string \<Rightarrow> string" where
  "unity_include s = ''#line 1 '' @ [DQ] @ s @ [DQ] @ NL @ ''#include '' @ [DQ] @ s @ [DQ] @ NL"

definition unity_text :: "string list \<Rightarrow> string" where
  "unity_text sources = ''// Generated by QStar C++ unity strategy.'' @ NL @ concat (map unity_include sources)"

text \<open>
  The path, and the full path and text if a file is written: \<open>on_disk\<close> is what the file holds now.
\<close>

definition qstar_cxx_materialize_unity_source ::
  "file_access \<Rightarrow> (string \<Rightarrow> string option) \<Rightarrow> qstar_graph \<Rightarrow> qstar_target \<Rightarrow> nat \<Rightarrow> nat \<Rightarrow>
   qerr + string \<times> (string \<times> string) option" where
  "qstar_cxx_materialize_unity_source fa on_disk g t batch pathlen =
     (case (qstar_cxx_unity_source_path g t batch pathlen, qstar_cxx_unity_batch_sources t batch) of
        (Some path, Some sources) \<Rightarrow>
          (case qstar_path_join (Some (nonempty_or ''.'' (gr_package_root g))) path PATH_MAX of
             None \<Rightarrow> Inl (Plain ''qstar: C++ unity source path is too long'')
           | Some full \<Rightarrow>
               if on_disk full = Some (unity_text sources) then Inr (path, None)
               else if \<not> fa_mkdir fa full \<or> \<not> fa_open fa full
                 then Inl (Plain (''qstar: could not write C++ unity source '' @ sq path))
               else if \<not> fa_close fa full
                 then Inl (Plain (''qstar: could not commit C++ unity source '' @ sq path))
               else Inr (path, Some (full, unity_text sources)))
      | _ \<Rightarrow> Inl (Plain ''qstar: C++ unity source path is invalid''))"

text \<open>An interface imports the interfaces before it, any other source all of them.\<close>

fun module_inputs_from :: "qstar_graph \<Rightarrow> qstar_target \<Rightarrow> nat option \<Rightarrow> nat list \<Rightarrow> string list option" where
  "module_inputs_from g t stop [] = Some []"
| "module_inputs_from g t stop (i # is) =
     (if \<not> qstar_cxx_source_is_module_interface t i then module_inputs_from g t stop is
      else if (case stop of None \<Rightarrow> False | Some k \<Rightarrow> k \<le> i) then Some []
      else case qstar_cxx_module_output_path g t i PATH_MAX of
          None \<Rightarrow> None
        | Some bmi \<Rightarrow> map_option (\<lambda>xs. bmi # xs) (module_inputs_from g t stop is))"

definition qstar_cxx_collect_module_inputs :: "qstar_graph \<Rightarrow> qstar_target \<Rightarrow> nat \<Rightarrow> string list option" where
  "qstar_cxx_collect_module_inputs g t i =
     (let interface = qstar_cxx_source_is_module_interface t i
      in if \<not> t_cxx_modules_enabled t \<or> \<not> interface \<and> \<not> qstar_cxx_source_is_implementation t i then Some []
         else module_inputs_from g t (if interface then Some i else None) (source_indices t))"

definition module_flag :: "string \<Rightarrow> string option" where
  "module_flag bmi = (case bmi_name bmi of
      None \<Rightarrow> None | Some name \<Rightarrow> put (PATH_MAX + 320) (''-fmodule-file='' @ name @ ''='' @ bmi))"

fun all_flags :: "string list \<Rightarrow> string list option" where
  "all_flags [] = Some []"
| "all_flags (x # xs) = (case (module_flag x, all_flags xs) of (Some f, Some fs) \<Rightarrow> Some (f # fs) | _ \<Rightarrow> None)"

definition qstar_cxx_collect_module_flags :: "qstar_graph \<Rightarrow> qstar_target \<Rightarrow> nat \<Rightarrow> string list option" where
  "qstar_cxx_collect_module_flags g t i = Option.bind (qstar_cxx_collect_module_inputs g t i) all_flags"

section \<open>Unity batches partition the implementation sources\<close>

abbreviation implementations :: "qstar_target \<Rightarrow> nat list" where
  "implementations t \<equiv> filter (qstar_cxx_source_is_implementation t) (source_indices t)"

lemma unity_batch_size_positive [simp]: "0 < unity_batch_size t" "unity_batch_size t \<noteq> 0"
  by (simp_all add: unity_batch_size_def)

lemma unity_ordinal_first:
  "unity_ordinal t k n is = (let xs = filter (qstar_cxx_source_is_implementation t) is
     in if k \<in> set xs then Some (n + length (takeWhile (\<lambda>i. i \<noteq> k) xs)) else None)"
  by (induction "is" arbitrary: n) (auto simp: Let_def)

lemma unity_batch_slice:
  "unity_batch_from t lo hi n is = map (\<lambda>i. t_sources t ! i)
     (take (hi - max lo n) (drop (lo - n) (filter (qstar_cxx_source_is_implementation t) is)))"
proof (induction "is" arbitrary: n)
  case (Cons i "is")
  show ?case
  proof (cases "lo \<le> n \<and> n < hi")
    case True
    then have "hi - max lo n = Suc (hi - max lo (n + 1))" "lo - n = 0" "lo - (n + 1) = 0" by (auto simp: max_def)
    then show ?thesis using Cons.IH [of n] Cons.IH [of "n + 1"] True by (cases "filter (qstar_cxx_source_is_implementation t) is") auto
  next
    case False
    then consider "n < lo" | "lo \<le> n" "hi \<le> n" by linarith
    then show ?thesis
    proof cases
      case 1
      then have "lo - n = Suc (lo - (n + 1))" "max lo n = max lo (n + 1)" "\<not> lo \<le> n" by auto
      then show ?thesis using Cons.IH [of n] Cons.IH [of "n + 1"] by simp
    next
      case 2
      then show ?thesis using Cons.IH [of n] Cons.IH [of "n + 1"] False by auto
    qed
  qed
qed simp

definition unity_slice :: "qstar_target \<Rightarrow> nat \<Rightarrow> nat list" where
  "unity_slice t batch = take (unity_batch_size t) (drop (batch * unity_batch_size t) (implementations t))"

lemma batch_sources_slice:
  "qstar_cxx_unity_batch_sources t batch =
     (if unity_slice t batch = [] then None else Some (map (\<lambda>i. t_sources t ! i) (unity_slice t batch)))"
  by (simp add: qstar_cxx_unity_batch_sources_def unity_batch_slice unity_slice_def Let_def)

lemma ceiling_count: "0 < (b::nat) \<Longrightarrow> k < (n + b - 1) div b \<longleftrightarrow> k * b < n"
proof -
  assume b: "0 < b"
  have "k < (n + b - 1) div b \<longleftrightarrow> Suc k \<le> (n + b - 1) div b" by auto
  also have "\<dots> \<longleftrightarrow> Suc k * b \<le> n + b - 1" using b by (simp add: less_eq_div_iff_mult_less_eq)
  also have "\<dots> \<longleftrightarrow> k * b < n" using b by auto
  finally show ?thesis .
qed

lemma batch_nonempty:
  "t_cxx_unity_enabled t \<Longrightarrow> unity_slice t batch \<noteq> [] \<longleftrightarrow> batch < qstar_cxx_unity_batch_count t"
  using ceiling_count [of "unity_batch_size t" batch "length (implementations t)"]
  by (simp add: unity_slice_def qstar_cxx_unity_batch_count_def not_le)

lemma concat_slices: "concat (map (\<lambda>k. take b (drop (k * b) xs)) [0..<n]) = take (n * b) xs"
proof (induction n)
  case (Suc n)
  have "take (n * b) xs @ take b (drop (n * b) xs) = take (n * b + b) xs" by (simp add: take_add)
  then show ?case using Suc.IH by (simp add: add.commute)
qed simp

lemma all_slices:
  assumes "t_cxx_unity_enabled t"
  shows "concat (map (unity_slice t) [0..<qstar_cxx_unity_batch_count t]) = implementations t"
proof -
  let ?n = "qstar_cxx_unity_batch_count t" and ?b = "unity_batch_size t"
  have "\<not> ?n < ?n" by simp
  then have "length (implementations t) \<le> ?n * ?b"
    using assms ceiling_count [of ?b ?n "length (implementations t)"] by (simp add: qstar_cxx_unity_batch_count_def not_less)
  then show ?thesis unfolding unity_slice_def [abs_def] concat_slices by simp
qed

lemma index_before: "k \<in> set xs \<Longrightarrow> length (takeWhile (\<lambda>i. i \<noteq> k) xs) < length xs \<and>
    xs ! length (takeWhile (\<lambda>i. i \<noteq> k) xs) = k"
  by (induction xs) auto

lemma source_info_iff:
  assumes "t_cxx_unity_enabled t"
  shows "qstar_cxx_unity_source_info t k = Some (batch, leader) \<longleftrightarrow>
    k \<in> set (unity_slice t batch) \<and> leader = (k = hd (unity_slice t batch))"
proof -
  let ?xs = "implementations t" and ?b = "unity_batch_size t"
  have d: "distinct ?xs" by (simp add: source_indices_def)
  define n where "n = length (takeWhile (\<lambda>i. i \<noteq> k) ?xs)"
  show ?thesis
  proof (cases "k \<in> set ?xs")
    case False
    then have "k \<notin> set (unity_slice t batch)" unfolding unity_slice_def by (meson in_set_dropD in_set_takeD)
    moreover have "qstar_cxx_unity_source_info t k = None"
      unfolding qstar_cxx_unity_source_info_def unity_ordinal_first using False by (simp add: Let_def)
    ultimately show ?thesis by simp
  next
    case True
    have n: "n < length ?xs" "?xs ! n = k"
      using index_before [OF True] by (simp_all add: n_def)
    have info: "qstar_cxx_unity_source_info t k = Some (n div ?b, n mod ?b = 0)"
      unfolding qstar_cxx_unity_source_info_def unity_ordinal_first using True assms by (simp add: Let_def n_def)
    have nth: "j < length (unity_slice t batch) \<Longrightarrow> unity_slice t batch ! j = ?xs ! (batch * ?b + j)" for j
      by (auto simp: unity_slice_def intro!: nth_drop)
    have len: "length (unity_slice t batch) = min ?b (length ?xs - batch * ?b)" by (simp add: unity_slice_def)
    have inx: "?xs ! i = k \<longleftrightarrow> i = n" if "i < length ?xs" for i
      using that n nth_eq_iff_index_eq [OF d] by metis
    have mem: "k \<in> set (unity_slice t batch) \<longleftrightarrow> n div ?b = batch"
    proof
      assume "k \<in> set (unity_slice t batch)"
      then obtain j where j: "j < length (unity_slice t batch)" "unity_slice t batch ! j = k"
        by (auto simp: in_set_conv_nth)
      then have "n = batch * ?b + j" "j < ?b" using nth [of j] inx [of "batch * ?b + j"] len by auto
      then show "n div ?b = batch" by simp
    next
      assume b: "n div ?b = batch"
      then have e: "n = batch * ?b + n mod ?b" by (metis div_mult_mod_eq)
      have l: "n mod ?b < length (unity_slice t batch)" using e n(1) len by (simp add: less_diff_conv add.commute)
      then have "unity_slice t batch ! (n mod ?b) = k" using nth e n(2) by metis
      then show "k \<in> set (unity_slice t batch)" using l nth_mem by metis
    qed
    have lead: "(k = hd (unity_slice t batch)) = (n mod ?b = 0)" if "n div ?b = batch"
    proof -
      have e: "n = batch * ?b + n mod ?b" using that by (metis div_mult_mod_eq)
      have l: "batch * ?b < length ?xs" using e n(1) by linarith
      then have ne: "unity_slice t batch \<noteq> []" by (simp add: unity_slice_def)
      then have "hd (unity_slice t batch) = ?xs ! (batch * ?b)" using nth [of 0] by (simp add: hd_conv_nth)
      then have "k = hd (unity_slice t batch) \<longleftrightarrow> batch * ?b = n" using inx [OF l] by metis
      then show ?thesis using e by linarith
    qed
    show ?thesis using info mem lead by auto
  qed
qed

text \<open>
  With unity builds on, the batches are a partition of the implementation sources of the target, in
  order: put one after the other they list every implementation source exactly once, the batches below the
  count are exactly the ones with sources, a source is told the one batch that includes it, and the first
  source of each batch, and no other, leads it.
\<close>

theorem unity_batches_partition:
  assumes "t_cxx_unity_enabled t"
  shows "concat (map (\<lambda>b. the (qstar_cxx_unity_batch_sources t b)) [0..<qstar_cxx_unity_batch_count t]) =
      map (\<lambda>i. t_sources t ! i) (filter (qstar_cxx_source_is_implementation t) [0..<length (t_sources t)]) \<and>
    (\<forall>b. qstar_cxx_unity_batch_sources t b \<noteq> None \<longleftrightarrow> b < qstar_cxx_unity_batch_count t) \<and>
    (\<forall>b < qstar_cxx_unity_batch_count t. \<exists>ks.
       qstar_cxx_unity_batch_sources t b = Some (map (\<lambda>i. t_sources t ! i) ks) \<and> distinct ks \<and> ks \<noteq> [] \<and>
       (\<forall>k leader. qstar_cxx_unity_source_info t k = Some (b, leader) \<longleftrightarrow> k \<in> set ks \<and> leader = (k = hd ks)))"
proof (intro conjI allI impI)
  let ?n = "qstar_cxx_unity_batch_count t"
  have src: "qstar_cxx_unity_batch_sources t b = Some (map (\<lambda>i. t_sources t ! i) (unity_slice t b))" if "b < ?n" for b
    using that batch_nonempty [OF assms, of b] by (simp add: batch_sources_slice)
  have "concat (map (\<lambda>b. the (qstar_cxx_unity_batch_sources t b)) [0..<?n]) =
      concat (map (\<lambda>b. map (\<lambda>i. t_sources t ! i) (unity_slice t b)) [0..<?n])"
    by (rule arg_cong [where f = concat]) (simp add: src)
  also have "\<dots> = map (\<lambda>i. t_sources t ! i) (concat (map (unity_slice t) [0..<?n]))"
    by (simp add: map_concat comp_def)
  finally show "concat (map (\<lambda>b. the (qstar_cxx_unity_batch_sources t b)) [0..<?n]) =
      map (\<lambda>i. t_sources t ! i) (filter (qstar_cxx_source_is_implementation t) [0..<length (t_sources t)])"
    using all_slices [OF assms] by (simp add: source_indices_def)
  show "qstar_cxx_unity_batch_sources t b \<noteq> None \<longleftrightarrow> b < ?n" for b
    using batch_nonempty [OF assms, of b] by (auto simp: batch_sources_slice)
  show "\<exists>ks. qstar_cxx_unity_batch_sources t b = Some (map (\<lambda>i. t_sources t ! i) ks) \<and> distinct ks \<and> ks \<noteq> [] \<and>
       (\<forall>k leader. qstar_cxx_unity_source_info t k = Some (b, leader) \<longleftrightarrow> k \<in> set ks \<and> leader = (k = hd ks))"
    if "b < ?n" for b
    using src [OF that] that batch_nonempty [OF assms, of b] source_info_iff [OF assms]
    by (intro exI [of _ "unity_slice t b"]) (simp add: unity_slice_def source_indices_def)
qed

definition demo_unity :: qstar_target where
  "demo_unity = zero_qstar_target\<lparr>t_sources := [''a.cpp'', ''b.c'', ''c.cpp'', ''d.cpp''], t_cxx_unity_enabled := True,
     t_cxx_unity_batch_size := 2\<rparr>"

lemma unity_batches_partition_witness:
  "concat (map (\<lambda>b. the (qstar_cxx_unity_batch_sources demo_unity b)) [0..<qstar_cxx_unity_batch_count demo_unity]) =
     [''a.cpp'', ''c.cpp'', ''d.cpp'']"
proof -
  have "map (\<lambda>i. t_sources demo_unity ! i)
      (filter (qstar_cxx_source_is_implementation demo_unity) [0..<length (t_sources demo_unity)]) =
      [''a.cpp'', ''c.cpp'', ''d.cpp'']" by code_simp
  then show ?thesis using unity_batches_partition [of demo_unity] by (simp add: demo_unity_def)
qed

section \<open>Module interfaces write different files\<close>

text \<open>
  When a target that enables modules passes validation, each module interface source has an output
  path, no two interfaces share one, and the compiler and language standard support modules.
\<close>

theorem module_outputs_distinct:
  assumes "passes (qstar_cxx_validate_strategies host g t resolved)" "t_cxx_modules_enabled t"
  shows "qstar_cxx_compiler_family host resolved = ''clang'' \<and> cxx_standard_supports_modules (t_cxx_standard t) \<and>
    (\<exists>i < length (t_sources t). qstar_cxx_source_is_module_interface t i) \<and>
    (\<forall>i j. i < j \<and> j < length (t_sources t) \<and> qstar_cxx_source_is_module_interface t i \<and>
       qstar_cxx_source_is_module_interface t j \<longrightarrow>
       (\<exists>p q. qstar_cxx_module_output_path g t i PATH_MAX = Some p \<and>
          qstar_cxx_module_output_path g t j PATH_MAX = Some q \<and> p \<noteq> q))"
proof -
  have v: "passes (check_module_outputs g t)" "qstar_cxx_compiler_family host resolved = ''clang''"
    "cxx_standard_supports_modules (t_cxx_standard t)" "qstar_cxx_target_has_module_interfaces t"
    using assms by (simp_all add: qstar_cxx_validate_strategies_def Let_def split: if_splits)
  have pair: "passes (check_module_pair g t i j)" if "i < j" "j < length (t_sources t)" for i j
    using v(1) that by (auto simp: check_module_outputs_def source_indices_def)
  have "\<exists>p q. qstar_cxx_module_output_path g t i PATH_MAX = Some p \<and>
      qstar_cxx_module_output_path g t j PATH_MAX = Some q \<and> p \<noteq> q"
    if "i < j" "j < length (t_sources t)" "qstar_cxx_source_is_module_interface t i"
      "qstar_cxx_source_is_module_interface t j" for i j
    using pair [OF that(1,2)] that(3,4) by (simp add: check_module_pair_def split: option.splits)
  then show ?thesis using v(2-4)
    by (auto simp: qstar_cxx_target_has_module_interfaces_def source_indices_def list_ex_iff)
qed

definition demo_modules :: qstar_target where
  "demo_modules = zero_qstar_target\<lparr>t_label := ''//a:m'', t_kind := ''binary'', t_sources := [''m.cppm'', ''main.cpp'', ''n.cppm''],
     t_cxx_standard := Some ''c++20'', t_cxx_modules_enabled := True\<rparr>"

definition demo_clang :: qstar_resolved_toolchain where
  "demo_clang = zero_qstar_resolved_toolchain\<lparr>rt_cxx := ''/usr/bin/clang++''\<rparr>"

lemma demo_module_paths:
  "qstar_cxx_module_output_path zero_qstar_graph demo_modules 0 PATH_MAX = Some ''build/qstar/out/__a_m/cxx/modules/m.pcm''"
  "qstar_cxx_module_output_path zero_qstar_graph demo_modules 2 PATH_MAX = Some ''build/qstar/out/__a_m/cxx/modules/n.pcm''"
proof -
  have "bmi_name ''m.cppm'' = Some ''m''" "bmi_name ''n.cppm'' = Some ''n''" by code_simp+
  moreover have "qstar_mangle_label ''//a:m'' PATH_MAX = ''__a_m''"
    by (simp add: qstar_mangle_label_def is_alnum_def is_alpha_def is_digit_def is_upper_def is_lower_def byte_def)
  ultimately show "qstar_cxx_module_output_path zero_qstar_graph demo_modules 0 PATH_MAX = Some ''build/qstar/out/__a_m/cxx/modules/m.pcm''"
    "qstar_cxx_module_output_path zero_qstar_graph demo_modules 2 PATH_MAX = Some ''build/qstar/out/__a_m/cxx/modules/n.pcm''"
    by (simp_all add: qstar_cxx_module_output_path_def demo_modules_def cxx_subpath_def sub_path_def put_def
        qstar_graph_build_path_def qstar_graph_build_dir_def zero_defs nonempty_or_def present_def)
qed

lemma module_outputs_distinct_witness:
  "\<exists>p q. qstar_cxx_module_output_path zero_qstar_graph demo_modules 0 PATH_MAX = Some p \<and>
     qstar_cxx_module_output_path zero_qstar_graph demo_modules 2 PATH_MAX = Some q \<and> p \<noteq> q"
proof -
  have i: "qstar_cxx_source_is_module_interface demo_modules 0" "\<not> qstar_cxx_source_is_module_interface demo_modules 1"
    "qstar_cxx_source_is_module_interface demo_modules 2" "qstar_cxx_compiler_family HostLinux (Some demo_clang) = ''clang''"
    "target_has_cxx_source demo_modules" "cxx_standard_supports_modules (t_cxx_standard demo_modules)" by code_simp+
  have l: "length (t_sources demo_modules) = 3" "t_cxx_modules_enabled demo_modules" "t_kind demo_modules = ''binary''"
    by (simp_all add: demo_modules_def)
  have "passes (check_module_outputs zero_qstar_graph demo_modules)"
    using i demo_module_paths by (simp add: check_module_outputs_def source_indices_def l check_module_pair_def upt_rec numeral_eq_Suc)
  then have "passes (qstar_cxx_validate_strategies HostLinux zero_qstar_graph demo_modules (Some demo_clang))"
    using i by (simp add: qstar_cxx_validate_strategies_def Let_def l qstar_cxx_target_has_module_interfaces_def
        source_indices_def upt_rec numeral_eq_Suc)
  from module_outputs_distinct [OF this l(2)] show ?thesis using i(1,3) l(1) by simp
qed

end
