(* ===== verification/QClosure.thy ===== *)
theory QClosure
  imports QLabel QDfs QRegistry
begin

text \<open>
  The dependency-first order of targets (\<open>visit_target\<close>, \<open>build_closure\<close> and \<open>qstar_graph_visit_closure\<close> of
  \<open>plan.c\<close>), from which plans are printed, caches are prepared and builds are scheduled. The walk
  has the colours of \<open>QDfs\<close> and lists every target it finishes; the lemmas show that the list is a
  topological order of exactly the targets that are needed.
\<close>

section \<open>The walk\<close>

definition target_index :: "qstar_graph \<Rightarrow> string \<Rightarrow> nat option" where
  "target_index g label = key_index t_label label (gr_targets g)"

definition external_dep_resolved :: "qstar_graph \<Rightarrow> string \<Rightarrow> bool" where
  "external_dep_resolved g dep = (case qstar_label_package_alias (Some dep) PATH_MAX of
      None \<Rightarrow> False | Some alias \<Rightarrow> qstar_graph_find_package_alias g alias \<noteq> None)"

text \<open>What one dependency label stands for: a target to visit, nothing, or an error.\<close>

definition plan_dep :: "qstar_graph \<Rightarrow> qstar_target \<Rightarrow> string \<Rightarrow> bool \<Rightarrow> string \<Rightarrow> (qerr + nat) list" where
  "plan_dep g t field allow_external dep =
     (let err = (\<lambda>what. Inl (Origin (t_origin_file t) (t_origin_line t) field (t_label t)
            (''qstar: '' @ what @ '' '' @ sq dep @ '' referenced by '' @ sq (t_label t))))
      in case target_index g dep of
          Some j \<Rightarrow> [Inr j]
        | None \<Rightarrow>
            if allow_external \<and> take 1 dep = ''@''
            then if external_dep_resolved g dep then [] else [err ''unresolved package dependency'']
            else if qstar_graph_find_genrule g dep \<noteq> None then []
            else [err ''unknown dependency label''])"

definition plan_deps :: "qstar_graph \<Rightarrow> nat \<Rightarrow> (qerr + nat) list" where
  "plan_deps g i = (let t = gr_targets g ! i in
     concat (map (plan_dep g t ''objects'' False) (t_objects t)) @
     concat (map (plan_dep g t ''deps'' True) (t_deps t)) @
     concat (map (plan_dep g t ''private_deps'' True) (t_private_deps t)))"

definition plan_cycle :: "qstar_graph \<Rightarrow> nat \<Rightarrow> qerr" where
  "plan_cycle g i = Plain (''qstar: dependency cycle includes '' @ sq (t_label (gr_targets g ! i)))"

text \<open>The state of the plan: colours, and the targets finished so far. \<open>None\<close>: out of fuel.\<close>

fun order_visit :: "(nat \<Rightarrow> (qerr + nat) list) \<Rightarrow> (nat \<Rightarrow> qerr) \<Rightarrow> nat \<Rightarrow> nat \<Rightarrow> (nat \<Rightarrow> nat) \<times> nat list \<Rightarrow>
    (qerr + (nat \<Rightarrow> nat) \<times> nat list) option"
  and order_list :: "(nat \<Rightarrow> (qerr + nat) list) \<Rightarrow> (nat \<Rightarrow> qerr) \<Rightarrow> nat \<Rightarrow> (qerr + nat) list \<Rightarrow>
    (nat \<Rightarrow> nat) \<times> nat list \<Rightarrow> (qerr + (nat \<Rightarrow> nat) \<times> nat list) option" where
  "order_visit succs cyc 0 i s = None"
| "order_visit succs cyc (Suc f) i s =
     (if fst s i = 2 then Some (Inr s)
      else if fst s i = 1 then Some (Inl (cyc i))
      else case order_list succs cyc f (succs i) ((fst s)(i := 1), snd s) of
          None \<Rightarrow> None
        | Some (Inl e) \<Rightarrow> Some (Inl e)
        | Some (Inr s') \<Rightarrow> Some (Inr ((fst s')(i := 2), snd s' @ [i])))"
| "order_list succs cyc f [] s = Some (Inr s)"
| "order_list succs cyc f (Inl e # xs) s = Some (Inl e)"
| "order_list succs cyc f (Inr j # xs) s =
     (case order_visit succs cyc f j s of
        None \<Rightarrow> None
      | Some (Inl e) \<Rightarrow> Some (Inl e)
      | Some (Inr s') \<Rightarrow> order_list succs cyc f xs s')"

definition visit_targets :: "qstar_graph \<Rightarrow> nat list \<Rightarrow> (qerr + nat list) option" where
  "visit_targets g is = map_option (map_sum id snd)
     (order_list (plan_deps g) (plan_cycle g) (length (gr_targets g) + 1) (map Inr is) (\<lambda>_. 0, []))"

text \<open>All targets are visited in the order of their labels when no label is given.\<close>

definition sort_indices :: "qstar_graph \<Rightarrow> nat list" where
  "sort_indices g = sort_ptrs (\<lambda>i. t_label (gr_targets g ! i)) [0..<length (gr_targets g)]"

definition build_closure :: "qstar_graph \<Rightarrow> cstr \<Rightarrow> (qerr + nat list) option" where
  "build_closure g label =
     (if present label
      then case target_index g (str_or_empty label) of
          None \<Rightarrow> Some (Inl (Plain (''qstar: unknown target label '' @ sq (str_or_empty label))))
        | Some i \<Rightarrow> visit_targets g [i]
      else visit_targets g (sort_indices g))"

text \<open>\<open>visit\<close> sees the targets in order with their positions and stops at its first error.\<close>

fun visit_order :: "(nat \<Rightarrow> nat \<Rightarrow> 's \<Rightarrow> qerr + 's) \<Rightarrow> nat \<Rightarrow> nat list \<Rightarrow> 's \<Rightarrow> qerr + 's" where
  "visit_order visit k [] s = Inr s"
| "visit_order visit k (i # is) s = (case visit i k s of Inl e \<Rightarrow> Inl e | Inr s' \<Rightarrow> visit_order visit (k + 1) is s')"

definition qstar_graph_visit_closure ::
  "qstar_graph \<Rightarrow> cstr \<Rightarrow> (nat \<Rightarrow> nat \<Rightarrow> 's \<Rightarrow> qerr + 's) \<Rightarrow> 's \<Rightarrow> (qerr + 's) option" where
  "qstar_graph_visit_closure g label visit s =
     map_option (\<lambda>r. case r of Inl e \<Rightarrow> Inl e | Inr order \<Rightarrow> visit_order visit 0 order s) (build_closure g label)"

section \<open>The order is topological\<close>

lemma order_project:
  "map_option (map_sum id fst) (order_visit succs cyc f i s) = dfs_visit succs cyc f i (fst s)"
  "map_option (map_sum id fst) (order_list succs cyc f xs s) = dfs_list succs cyc f xs (fst s)"
proof (induction succs cyc f i s and succs cyc f xs s rule: order_visit_order_list.induct)
  case (2 succs cyc f i s)
  let ?l = "order_list succs cyc f (succs i) ((fst s)(i := 1), snd s)"
  have "dfs_list succs cyc f (succs i) ((fst s)(i := 1)) = map_option (map_sum id fst) ?l" if "fst s i \<noteq> 2" "fst s i \<noteq> 1"
    using 2 that by (metis fst_conv)
  then show ?case by (cases ?l) (auto split: sum.splits)
next
  case (5 succs cyc f j xs s)
  have "dfs_visit succs cyc f j (fst s) = map_option (map_sum id fst) (order_visit succs cyc f j s)"
    by (rule 5(1) [symmetric])
  then show ?case using 5(2) by (cases "order_visit succs cyc f j s") (auto split: sum.splits)
qed simp_all

text \<open>The list holds the finished nodes, each once and after its callees.\<close>

definition ordered :: "(nat \<Rightarrow> (qerr + nat) list) \<Rightarrow> (nat \<Rightarrow> nat) \<times> nat list \<Rightarrow> bool" where
  "ordered succs s \<longleftrightarrow> distinct (snd s) \<and> set (snd s) = {i. fst s i = 2} \<and>
     (\<forall>k < length (snd s). \<forall>j. Inr j \<in> set (succs (snd s ! k)) \<longrightarrow> j \<in> set (take k (snd s)))"

lemma ordered_mark: "ordered succs s \<Longrightarrow> fst s i \<noteq> 2 \<Longrightarrow> ordered succs ((fst s)(i := 1), snd s)"
  by (auto simp: ordered_def)

lemma ordered_finish:
  "ordered succs s \<Longrightarrow> fst s i = 1 \<Longrightarrow> (\<And>j. Inr j \<in> set (succs i) \<Longrightarrow> fst s j = 2) \<Longrightarrow>
   ordered succs ((fst s)(i := 2), snd s @ [i])"
  by (auto simp: ordered_def nth_append less_Suc_eq)

context call_graph
begin

lemma order_ok:
  "order_visit succs' cyc' f i s = Some (Inr s') \<Longrightarrow> succs' = succs \<Longrightarrow> cyc' = cyc \<Longrightarrow> i < n \<Longrightarrow> settled (fst s) \<Longrightarrow> ordered succs s \<Longrightarrow>
    ordered succs s' \<and> (\<forall>k\<in>set (snd s'). k \<in> set (snd s) \<or> (i, k) \<in> E\<^sup>*)"
  "order_list succs' cyc' f xs s = Some (Inr s') \<Longrightarrow> succs' = succs \<Longrightarrow> cyc' = cyc \<Longrightarrow> \<forall>j. Inr j \<in> set xs \<longrightarrow> j < n \<Longrightarrow> settled (fst s) \<Longrightarrow>
    ordered succs s \<Longrightarrow> ordered succs s' \<and> (\<forall>k\<in>set (snd s'). k \<in> set (snd s) \<or> (\<exists>j. Inr j \<in> set xs \<and> (j, k) \<in> E\<^sup>*))"
proof (induction succs' cyc' f i s and succs' cyc' f xs s arbitrary: s' and s' rule: order_visit_order_list.induct)
  case (2 succs' cyc' f i s)
  show ?case
  proof (cases "fst s i = 2")
    case False
    then have white: "fst s i = 0" using settled_colour [OF 2(6), of i] 2(2) by auto
    let ?s0 = "((fst s)(i := 1), snd s)"
    obtain s1 where l: "order_list succs cyc f (succs i) ?s0 = Some (Inr s1)"
      and s': "s' = ((fst s1)(i := 2), snd s1 @ [i])"
      using 2(2,3,4) white by (auto split: option.splits sum.splits)
    have st: "settled (fst ?s0)" using settled_mark [OF 2(6) white] by simp
    have b: "\<forall>j. Inr j \<in> set (succs i) \<longrightarrow> j < n" using succs_bound 2(5) by blast
    have ih: "ordered succs s1 \<and> (\<forall>k\<in>set (snd s1). k \<in> set (snd s) \<or> (\<exists>j. Inr j \<in> set (succs i) \<and> (j, k) \<in> E\<^sup>*))"
      using 2(1) [OF False, of s1] l st b 2(3,4,7) white ordered_mark [OF 2(7) False] by (simp add: fun_upd_def)
    have d: "dfs_list succs cyc f (succs i) ((fst s)(i := 1)) = Some (Inr (fst s1))"
      using order_project(2) [of succs cyc f "succs i" ?s0] l by simp
    have fin: "grown ((fst s)(i := 1)) (fst s1) \<and> (\<forall>x\<in>set (succs i). \<exists>j<n. x = Inr j \<and> fst s1 j = 2)"
      using list_success [OF visit_success d b] st by simp
    then have "fst s1 i = 1" by (simp add: grown_def)
    moreover have "fst s1 j = 2" if "Inr j \<in> set (succs i)" for j using fin that by force
    ultimately have "ordered succs s'" unfolding s' using ih ordered_finish by blast
    moreover have "(i, k) \<in> E\<^sup>*" if "Inr j \<in> set (succs i)" "(j, k) \<in> E\<^sup>*" for j k
      using that 2(5) by (auto simp: calls_def intro: converse_rtrancl_into_rtrancl)
    ultimately show ?thesis using ih s' by auto
  qed (use 2 in auto)
next
  case (5 succs' cyc' f j xs s)
  obtain s1 where v: "order_visit succs cyc f j s = Some (Inr s1)" and l: "order_list succs cyc f xs s1 = Some (Inr s')"
    using 5(3,4,5) by (auto split: option.splits sum.splits)
  have j: "j < n" using 5(6) by simp
  have d: "dfs_visit succs cyc f j (fst s) = Some (Inr (fst s1))" using order_project(1) [of succs cyc f j s] v by simp
  have st: "settled (fst s1)" using visit_success [of f] d j 5(7) unfolding visit_ok_def by blast
  have 1: "ordered succs s1 \<and> (\<forall>k\<in>set (snd s1). k \<in> set (snd s) \<or> (j, k) \<in> E\<^sup>*)"
    using 5(1) [of s1] v 5(4,5,7,8) j by simp
  have 2: "ordered succs s' \<and> (\<forall>k\<in>set (snd s'). k \<in> set (snd s1) \<or> (\<exists>j. Inr j \<in> set xs \<and> (j, k) \<in> E\<^sup>*))"
    using 5(2) [of "Inr s1" s1] v l 5(4,5,6) st 1 by simp
  show ?case using 1 2 by auto
qed auto

end

section \<open>The closure of a graph\<close>

text \<open>Target \<open>i\<close> needs target \<open>j\<close> directly.\<close>

definition plan_edges :: "qstar_graph \<Rightarrow> (nat \<times> nat) set" where
  "plan_edges g = calls (length (gr_targets g)) (plan_deps g)"

lemma plan_dep_target: "Inr j \<in> set (plan_dep g t field ext dep) \<longleftrightarrow> target_index g dep = Some j"
  by (auto simp: plan_dep_def Let_def split: option.splits if_splits)

lemma plan_edges_iff:
  "(i, j) \<in> plan_edges g \<longleftrightarrow> i < length (gr_targets g) \<and>
     (\<exists>dep \<in> set (t_objects (gr_targets g ! i)) \<union> set (t_deps (gr_targets g ! i)) \<union> set (t_private_deps (gr_targets g ! i)).
        target_index g dep = Some j)"
  by (auto simp: plan_edges_def calls_def plan_deps_def Let_def plan_dep_target)

interpretation plan: call_graph "length (gr_targets g)" "plan_deps g" "plan_cycle g" for g
proof
  show "j < length (gr_targets g)" if "Inr j \<in> set (plan_deps g i)" for i j
    using that key_index_Some [of t_label _ "gr_targets g" j]
    by (auto simp: plan_deps_def Let_def plan_dep_target target_index_def)
qed

lemma visit_targets_ok:
  assumes "visit_targets g is = Some (Inr order)" "\<forall>i\<in>set is. i < length (gr_targets g)"
  shows "distinct order" "\<forall>k < length order. \<forall>j. (order ! k, j) \<in> plan_edges g \<longrightarrow> j \<in> set (take k order)"
    "set order = {j. \<exists>i\<in>set is. (i, j) \<in> (plan_edges g)\<^sup>*}"
proof -
  obtain z where z: "order_list (plan_deps g) (plan_cycle g) (length (gr_targets g) + 1) (map Inr is) (\<lambda>_. 0, []) = Some z"
    "map_sum id snd z = Inr order" using assms(1) unfolding visit_targets_def by auto
  then obtain st where l: "order_list (plan_deps g) (plan_cycle g) (length (gr_targets g) + 1) (map Inr is) (\<lambda>_. 0, []) =
      Some (Inr (st, order))" by (cases z) auto
  have o: "ordered (plan_deps g) (st, order) \<and> (\<forall>k\<in>set order. \<exists>j. Inr j \<in> set (map Inr is :: (qerr + nat) list) \<and> (j, k) \<in> (plan_edges g)\<^sup>*)"
    using plan.order_ok(2) [OF l refl refl] assms(2) plan.settled_start by (auto simp: ordered_def plan_edges_def)
  have d: "dfs_list (plan_deps g) (plan_cycle g) (length (gr_targets g) + 1) (map Inr is) (\<lambda>_. 0) = Some (Inr st)"
    using order_project(2) [of "plan_deps g" "plan_cycle g" "length (gr_targets g) + 1" "map Inr is" "(\<lambda>_. 0, [])"] l by simp
  have fin: "plan.settled g st \<and> (\<forall>i\<in>set is. st i = 2)"
    using plan.list_success [OF plan.visit_success d] assms(2) plan.settled_start by auto
  have stay: "st j = 2" if "(i, j) \<in> (plan_edges g)\<^sup>*" "st i = 2" for i j
    using that plan.finished_stay [of i j g st] fin by (auto simp: rtrancl_eq_or_trancl plan_edges_def)
  show "distinct order" using o by (simp add: ordered_def)
  show "\<forall>k < length order. \<forall>j. (order ! k, j) \<in> plan_edges g \<longrightarrow> j \<in> set (take k order)"
    using o by (auto simp: ordered_def plan_edges_def calls_def)
  show "set order = {j. \<exists>i\<in>set is. (i, j) \<in> (plan_edges g)\<^sup>*}"
    using o fin stay by (auto simp: ordered_def)
qed

lemma visit_targets_returns:
  assumes "\<forall>i\<in>set is. i < length (gr_targets g)"
  shows "visit_targets g is \<noteq> None"
    and "visit_targets g is = Some (Inl e) \<Longrightarrow> plan.bad g e"
proof -
  let ?f = "length (gr_targets g) + 1"
  have p: "map_option (map_sum id fst) (order_list (plan_deps g) (plan_cycle g) ?f (map Inr is) (\<lambda>_. 0, [])) =
      dfs_list (plan_deps g) (plan_cycle g) ?f (map Inr is) (\<lambda>_. 0)"
    using order_project(2) [of "plan_deps g" "plan_cycle g" ?f "map Inr is" "(\<lambda>_. 0, [])"] by simp
  have "dfs_list (plan_deps g) (plan_cycle g) ?f (map Inr is) (\<lambda>_. 0) \<noteq> None"
    using assms plan.whites_start [of g] by (intro plan.list_fuel [OF plan.visit_fuel_ok] plan.settled_start) auto
  then show "visit_targets g is \<noteq> None" using p by (auto simp: visit_targets_def)
  show "plan.bad g e" if v: "visit_targets g is = Some (Inl e)"
  proof -
    obtain z where z: "order_list (plan_deps g) (plan_cycle g) ?f (map Inr is) (\<lambda>_. 0, []) = Some z" "map_sum id snd z = Inl e"
      using v unfolding visit_targets_def by auto
    then have "order_list (plan_deps g) (plan_cycle g) ?f (map Inr is) (\<lambda>_. 0, []) = Some (Inl e)" by (cases z) auto
    then have "dfs_list (plan_deps g) (plan_cycle g) ?f (map Inr is) (\<lambda>_. 0) = Some (Inl e)" using p by simp
    then show ?thesis using assms by (elim plan.list_error [OF plan.visit_error]) (auto simp: plan.settled_start)
  qed
qed

text \<open>The targets a label asks for: itself, or every target for the empty label.\<close>

definition closure_roots :: "qstar_graph \<Rightarrow> cstr \<Rightarrow> nat set" where
  "closure_roots g label = (if present label then set_option (target_index g (str_or_empty label))
     else {..<length (gr_targets g)})"

lemma sort_indices_set: "set (sort_indices g) = {..<length (gr_targets g)}"
  by (auto simp: sort_indices_def)

lemma build_closure_visits:
  "\<lbrakk>present label \<Longrightarrow> target_index g (str_or_empty label) \<noteq> None\<rbrakk> \<Longrightarrow>
   \<exists>is. build_closure g label = visit_targets g is \<and> set is = closure_roots g label \<and> (\<forall>i\<in>set is. i < length (gr_targets g))"
  using key_index_Some [of t_label "str_or_empty label" "gr_targets g"]
  by (cases "present label")
    (auto simp: build_closure_def closure_roots_def sort_indices_set target_index_def)

lemma build_closure_ok:
  assumes "build_closure g label = Some (Inr order)"
  shows "distinct order" "set order = (plan_edges g)\<^sup>* `` closure_roots g label"
    "\<forall>k < length order. \<forall>j. (order ! k, j) \<in> plan_edges g \<longrightarrow> j \<in> set (take k order)"
proof -
  have "present label \<Longrightarrow> target_index g (str_or_empty label) \<noteq> None"
    using assms by (auto simp: build_closure_def split: option.splits)
  then obtain "is" where i: "build_closure g label = visit_targets g is" "set is = closure_roots g label"
    "\<forall>i\<in>set is. i < length (gr_targets g)" using build_closure_visits by metis
  then show "distinct order" "set order = (plan_edges g)\<^sup>* `` closure_roots g label"
    "\<forall>k < length order. \<forall>j. (order ! k, j) \<in> plan_edges g \<longrightarrow> j \<in> set (take k order)"
    using visit_targets_ok [of g "is" order] assms by (auto simp: Image_def)
qed

lemma build_closure_total: "build_closure g label \<noteq> None"
proof (cases "present label \<and> target_index g (str_or_empty label) = None")
  case False
  then show ?thesis using build_closure_visits [of label g] visit_targets_returns(1) by metis
qed (simp add: build_closure_def)

text \<open>
  C33: The closure of a label lists exactly the targets it needs, directly or through objects, dependencies
  and private dependencies, each once, and each after everything it needs itself; the empty label
  asks for every target.
\<close>

theorem closure_order_exact:
  assumes "build_closure g label = Some (Inr order)"
  shows "distinct order \<and> set order = (plan_edges g)\<^sup>* `` closure_roots g label \<and>
    (\<forall>k < length order. \<forall>j. (order ! k, j) \<in> plan_edges g \<longrightarrow> j \<in> set (take k order))"
  using build_closure_ok [OF assms] by blast

text \<open>
  The walk always returns, and on a graph whose targets need declared things only and never
  themselves, it succeeds for every declared target and for the whole graph.
\<close>

theorem closure_returns:
  "build_closure g label \<noteq> None \<and>
   ((\<forall>i < length (gr_targets g). \<forall>e. Inl e \<notin> set (plan_deps g i)) \<and> acyclic (plan_edges g) \<and>
    (present label \<longrightarrow> find_target g (str_or_empty label) \<noteq> None) \<longrightarrow> (\<exists>order. build_closure g label = Some (Inr order)))"
proof (cases "present label \<and> target_index g (str_or_empty label) = None")
  case True
  then show ?thesis using key_index_None [of t_label "str_or_empty label" "gr_targets g"]
    by (simp add: build_closure_def find_target_def target_index_def)
next
  case False
  then obtain "is" where i: "build_closure g label = visit_targets g is" "\<forall>i\<in>set is. i < length (gr_targets g)"
    using build_closure_visits [of label g] by metis
  note r = visit_targets_returns [OF i(2)]
  have "\<not> plan.bad g e" if "\<forall>i < length (gr_targets g). \<forall>e. Inl e \<notin> set (plan_deps g i)" "acyclic (plan_edges g)" for e
    using that by (auto simp: plan.bad_def plan_edges_def acyclic_def)
  then show ?thesis using i(1) r by (metis not_Some_eq sum.exhaust)
qed

definition demo_needs :: qstar_graph where
  "demo_needs = zero_qstar_graph\<lparr>gr_targets := [zero_qstar_target\<lparr>t_label := ''//:x'', t_deps := [''//:y'']\<rparr>,
     zero_qstar_target\<lparr>t_label := ''//:y''\<rparr>, zero_qstar_target\<lparr>t_label := ''//:z''\<rparr>]\<rparr>"

lemma closure_order_exact_witness: "set [1, 0] = (plan_edges demo_needs)\<^sup>* `` closure_roots demo_needs (Some ''//:x'')"
proof -
  have "build_closure demo_needs (Some ''//:x'') = Some (Inr [1, 0])" by code_simp
  from closure_order_exact [OF this] show ?thesis by simp
qed

lemma closure_returns_witness: "\<exists>order. build_closure demo_needs (Some ''//:x'') = Some (Inr order)"
proof -
  have deps: "plan_deps demo_needs 0 = [Inr 1]" "plan_deps demo_needs 1 = []" "plan_deps demo_needs 2 = []"
    and found: "find_target demo_needs ''//:x'' \<noteq> None" by code_simp+
  have n: "i = 0 \<or> i = 1 \<or> i = 2" if "i < length (gr_targets demo_needs)" for i
    using that by (auto simp: demo_needs_def)
  have "plan_edges demo_needs \<subseteq> less_than"
    using deps by (auto simp: plan_edges_def calls_def dest!: n)
  then have "acyclic (plan_edges demo_needs)" by (rule acyclic_subset [OF wf_acyclic [OF wf_less_than]])
  moreover have "\<forall>i < length (gr_targets demo_needs). \<forall>e. Inl e \<notin> set (plan_deps demo_needs i)"
    using deps by (auto dest!: n)
  ultimately show ?thesis using closure_returns [of demo_needs "Some ''//:x''"] found by (simp add: present_def)
qed

end
