(* ===== verification/QScheduler.thy ===== *)
theory QScheduler
  imports QClosure QPlatform
begin

text \<open>
  The data structure of the action scheduler (\<open>struct qstar_sched_node\<close>, \<open>struct qstar_scheduler\<close> and the operations
  on nodes, edges and the ready queue in \<open>executor.c\<close>). A node keeps the nodes it waits for, the nodes that
  wait for it and a counter of the former; the lemmas show that edges keep the three in agreement and that
  completing a node lowers the counters by exactly the edges that leave it.
\<close>

section \<open>Nodes and the scheduler\<close>

datatype sched_kind =
  SchedCompile | SchedCxxPch | SchedFinal | SchedObjectlib | SchedGenerate | SchedStage | SchedRun | SchedGroup | SchedMetadata

datatype sched_state = SchedPending | SchedReady | SchedRunning | SchedDone

text \<open>Pointers into the arrays of the graph are positions.\<close>

record sched_node =
  nd_kind :: sched_kind
  nd_state :: sched_state
  nd_target :: "nat option"
  nd_source_owner :: "nat option"
  nd_genrule :: "nat option"
  nd_stage :: "nat option"
  nd_toolchain :: "qstar_resolved_toolchain option"
  nd_source_index :: nat
  nd_action_index :: nat
  nd_queue_index :: nat
  nd_remaining :: nat
  nd_deps :: "nat list"
  nd_outs :: "nat list"

text \<open>
  The maps hold one entry for each target, generated action or stage of the graph; \<open>None\<close> is \<open>-1\<close>.
  \<open>sc_ready\<close> is the queue from \<open>ready_head\<close> on.
\<close>

record scheduler =
  sc_nodes :: "sched_node list"
  sc_targets :: "nat list"
  sc_target_seen :: "bool list"
  sc_genrule_needed :: "bool list"
  sc_stage_needed :: "bool list"
  sc_target_final_node :: "nat option list"
  sc_genrule_node :: "nat option list"
  sc_stage_node :: "nat option list"
  sc_ready :: "nat list"

definition scheduler_init :: "qstar_graph \<Rightarrow> scheduler" where
  "scheduler_init g =
     \<lparr>sc_nodes = [], sc_targets = [],
       sc_target_seen = replicate (length (gr_targets g)) False,
       sc_genrule_needed = replicate (length (gr_genrules g)) False,
       sc_stage_needed = replicate (length (gr_stages g)) False,
       sc_target_final_node = replicate (length (gr_targets g)) None,
       sc_genrule_node = replicate (length (gr_genrules g)) None,
       sc_stage_node = replicate (length (gr_stages g)) None,
       sc_ready = []\<rparr>"

definition node :: "scheduler \<Rightarrow> nat \<Rightarrow> sched_node" where
  "node s i = sc_nodes s ! i"

definition node_len :: "scheduler \<Rightarrow> nat" where
  "node_len s = length (sc_nodes s)"

definition edit_node :: "nat \<Rightarrow> (sched_node \<Rightarrow> sched_node) \<Rightarrow> scheduler \<Rightarrow> scheduler" where
  "edit_node i f s = s\<lparr>sc_nodes := (sc_nodes s)[i := f (node s i)]\<rparr>"

definition scheduler_add_node ::
  "sched_kind \<Rightarrow> nat option \<Rightarrow> nat option \<Rightarrow> nat \<Rightarrow> nat \<Rightarrow> scheduler \<Rightarrow> scheduler" where
  "scheduler_add_node kind target genrule source_index queue_index s = s\<lparr>sc_nodes := sc_nodes s @
     [\<lparr>nd_kind = kind, nd_state = SchedPending, nd_target = target, nd_source_owner = target, nd_genrule = genrule,
       nd_stage = None, nd_toolchain = None, nd_source_index = source_index, nd_action_index = source_index,
       nd_queue_index = queue_index, nd_remaining = 0, nd_deps = [], nd_outs = []\<rparr>]\<rparr>"

definition scheduler_index_list_push :: "nat list \<Rightarrow> nat \<Rightarrow> nat list" where
  "scheduler_index_list_push items v = (if v \<in> set items then items else items @ [v])"

definition scheduler_add_edge :: "nat \<Rightarrow> nat \<Rightarrow> scheduler \<Rightarrow> qerr + scheduler" where
  "scheduler_add_edge dep user s =
     (if dep = user then Inl (Plain ''qstar: scheduler self dependency'')
      else Inr (edit_node user (\<lambda>n. n\<lparr>nd_remaining := length (nd_deps n)\<rparr>)
             (edit_node dep (\<lambda>n. n\<lparr>nd_outs := scheduler_index_list_push (nd_outs n) user\<rparr>)
               (edit_node user (\<lambda>n. n\<lparr>nd_deps := scheduler_index_list_push (nd_deps n) dep\<rparr>) s))))"

section \<open>The ready queue\<close>

definition scheduler_ready_push :: "nat \<Rightarrow> scheduler \<Rightarrow> scheduler" where
  "scheduler_ready_push i s = (edit_node i (\<lambda>n. n\<lparr>nd_state := SchedReady\<rparr>) s)\<lparr>sc_ready := sc_ready s @ [i]\<rparr>"

definition scheduler_ready_count :: "scheduler \<Rightarrow> nat" where
  "scheduler_ready_count s = length (sc_ready s)"

definition scheduler_ready_pop :: "scheduler \<Rightarrow> (nat \<times> scheduler) option" where
  "scheduler_ready_pop s =
     (if scheduler_ready_count s = 0 then None
      else Some (hd (sc_ready s), s\<lparr>sc_ready := tl (sc_ready s)\<rparr>))"

text \<open>The loop over the dependents of a completed node.\<close>

fun release_outs :: "nat list \<Rightarrow> scheduler \<Rightarrow> scheduler" where
  "release_outs [] s = s"
| "release_outs (k # ks) s =
     (if nd_state (node s k) \<noteq> SchedPending then release_outs ks s
      else let s1 = (if nd_remaining (node s k) > 0
                     then edit_node k (\<lambda>n. n\<lparr>nd_remaining := nd_remaining n - 1\<rparr>) s else s)
           in release_outs ks (if nd_remaining (node s1 k) = 0 then scheduler_ready_push k s1 else s1))"

definition scheduler_complete_node :: "nat \<Rightarrow> scheduler \<Rightarrow> scheduler" where
  "scheduler_complete_node i s =
     release_outs (nd_outs (node s i)) (edit_node i (\<lambda>n. n\<lparr>nd_state := SchedDone\<rparr>) s)"

section \<open>What the operations change\<close>

lemma node_len_simps [simp]:
  "node_len (edit_node i f s) = node_len s"
  "node_len (scheduler_ready_push i s) = node_len s"
  "node_len (s\<lparr>sc_ready := q\<rparr>) = node_len s"
  by (simp_all add: node_len_def edit_node_def scheduler_ready_push_def)

lemma node_edit [simp]:
  "i < node_len s \<Longrightarrow> node (edit_node i f s) k = (if k = i then f (node s i) else node s k)"
  by (auto simp: node_def edit_node_def node_len_def)

lemma node_ready [simp]: "node (s\<lparr>sc_ready := q\<rparr>) k = node s k"
  by (simp add: node_def)

lemma node_ready_push [simp]:
  "i < node_len s \<Longrightarrow> node (scheduler_ready_push i s) k = (if k = i then (node s i)\<lparr>nd_state := SchedReady\<rparr> else node s k)"
  by (simp add: scheduler_ready_push_def)

lemma ready_simps [simp]:
  "sc_ready (edit_node i f s) = sc_ready s"
  "sc_ready (scheduler_ready_push i s) = sc_ready s @ [i]"
  by (simp_all add: edit_node_def scheduler_ready_push_def)

lemma set_index_list_push [simp]: "set (scheduler_index_list_push xs v) = insert v (set xs)"
  by (auto simp: scheduler_index_list_push_def)

lemma distinct_index_list_push [simp]: "distinct (scheduler_index_list_push xs v) = distinct xs"
  by (auto simp: scheduler_index_list_push_def)

section \<open>The graph of the nodes\<close>

text \<open>Both ends of every edge know of it.\<close>

definition edges_agree :: "scheduler \<Rightarrow> bool" where
  "edges_agree s \<longleftrightarrow>
     (\<forall>i < node_len s. distinct (nd_deps (node s i)) \<and> distinct (nd_outs (node s i)) \<and> i \<notin> set (nd_deps (node s i)) \<and>
        set (nd_deps (node s i)) \<subseteq> {..<node_len s} \<and> set (nd_outs (node s i)) \<subseteq> {..<node_len s}) \<and>
     (\<forall>i < node_len s. \<forall>d < node_len s. d \<in> set (nd_deps (node s i)) \<longleftrightarrow> i \<in> set (nd_outs (node s d)))"

lemma edges_agreeI:
  assumes "\<And>i. i < node_len s \<Longrightarrow> distinct (nd_deps (node s i)) \<and> distinct (nd_outs (node s i)) \<and> i \<notin> set (nd_deps (node s i)) \<and>
        set (nd_deps (node s i)) \<subseteq> {..<node_len s} \<and> set (nd_outs (node s i)) \<subseteq> {..<node_len s}"
    and "\<And>i d. i < node_len s \<Longrightarrow> d < node_len s \<Longrightarrow> d \<in> set (nd_deps (node s i)) \<longleftrightarrow> i \<in> set (nd_outs (node s d))"
  shows "edges_agree s"
  unfolding edges_agree_def using assms by blast

lemma edges_agreeD:
  assumes "edges_agree s" "i < node_len s"
  shows "distinct (nd_deps (node s i))" "distinct (nd_outs (node s i))" "i \<notin> set (nd_deps (node s i))"
    "set (nd_deps (node s i)) \<subseteq> {..<node_len s}" "set (nd_outs (node s i)) \<subseteq> {..<node_len s}"
    "d < node_len s \<Longrightarrow> d \<in> set (nd_deps (node s i)) \<longleftrightarrow> i \<in> set (nd_outs (node s d))"
  using assms by (auto simp: edges_agree_def)

text \<open>Before execution every node is pending and its counter counts all it waits for.\<close>

definition unstarted :: "scheduler \<Rightarrow> bool" where
  "unstarted s \<longleftrightarrow> sc_ready s = [] \<and> (\<forall>i < node_len s.
     nd_state (node s i) = SchedPending \<and> nd_remaining (node s i) = length (nd_deps (node s i)))"

definition sched_deps :: "scheduler \<Rightarrow> (nat \<times> nat) set" where
  "sched_deps s = {(d, i). i < node_len s \<and> d \<in> set (nd_deps (node s i))}"

lemma node_add_node:
  "node_len (scheduler_add_node kind t r si qi s) = Suc (node_len s)"
  "k < node_len s \<Longrightarrow> node (scheduler_add_node kind t r si qi s) k = node s k"
  "nd_deps (node (scheduler_add_node kind t r si qi s) (node_len s)) = []"
  "nd_outs (node (scheduler_add_node kind t r si qi s) (node_len s)) = []"
  "nd_remaining (node (scheduler_add_node kind t r si qi s) (node_len s)) = 0"
  "nd_state (node (scheduler_add_node kind t r si qi s) (node_len s)) = SchedPending"
  "nd_kind (node (scheduler_add_node kind t r si qi s) (node_len s)) = kind"
  "sc_ready (scheduler_add_node kind t r si qi s) = sc_ready s"
  by (simp_all add: node_def node_len_def scheduler_add_node_def nth_append)

lemma edges_agree_add_node:
  assumes "edges_agree s"
  shows "edges_agree (scheduler_add_node kind t r si qi s)" (is "edges_agree ?s")
proof (rule edges_agreeI)
  have fresh: "node_len s \<notin> set (nd_deps (node s i))" "node_len s \<notin> set (nd_outs (node s i))" if "i < node_len s" for i
    using edges_agreeD(4,5) [OF assms that] by auto
  fix i assume i: "i < node_len ?s"
  show "distinct (nd_deps (node ?s i)) \<and> distinct (nd_outs (node ?s i)) \<and> i \<notin> set (nd_deps (node ?s i)) \<and>
        set (nd_deps (node ?s i)) \<subseteq> {..<node_len ?s} \<and> set (nd_outs (node ?s i)) \<subseteq> {..<node_len ?s}"
  proof (cases "i = node_len s")
    case False
    then have "i < node_len s" using i by (simp add: node_add_node)
    then show ?thesis using edges_agreeD(1-5) [OF assms, of i] by (fastforce simp: node_add_node)
  qed (simp add: node_add_node)
  fix d assume "d < node_len ?s"
  then show "d \<in> set (nd_deps (node ?s i)) \<longleftrightarrow> i \<in> set (nd_outs (node ?s d))"
    using i fresh edges_agreeD(6) [OF assms, of i d] by (auto simp: node_add_node less_Suc_eq)
qed

lemma unstarted_add_node: "unstarted s \<Longrightarrow> unstarted (scheduler_add_node kind t r si qi s)"
  by (auto simp: unstarted_def node_add_node less_Suc_eq)

lemma add_edge_node:
  assumes "scheduler_add_edge dep user s = Inr s'" "dep < node_len s" "user < node_len s"
  shows "node_len s' = node_len s" "sc_ready s' = sc_ready s" "dep \<noteq> user"
    "nd_deps (node s' k) = (if k = user then scheduler_index_list_push (nd_deps (node s k)) dep else nd_deps (node s k))"
    "nd_outs (node s' k) = (if k = dep then scheduler_index_list_push (nd_outs (node s k)) user else nd_outs (node s k))"
    "nd_remaining (node s' k) = (if k = user then length (nd_deps (node s' k)) else nd_remaining (node s k))"
    "nd_state (node s' k) = nd_state (node s k)" "nd_kind (node s' k) = nd_kind (node s k)"
proof -
  let ?s1 = "edit_node user (\<lambda>n. n\<lparr>nd_deps := scheduler_index_list_push (nd_deps n) dep\<rparr>) s"
  let ?s2 = "edit_node dep (\<lambda>n. n\<lparr>nd_outs := scheduler_index_list_push (nd_outs n) user\<rparr>) ?s1"
  have s': "s' = edit_node user (\<lambda>n. n\<lparr>nd_remaining := length (nd_deps n)\<rparr>) ?s2" and ne: "dep \<noteq> user"
    using assms(1) by (simp_all add: scheduler_add_edge_def split: if_splits)
  show "dep \<noteq> user" by (rule ne)
  have n: "node s' k = (if k = user then (node ?s2 k)\<lparr>nd_remaining := length (nd_deps (node ?s2 k))\<rparr> else node ?s2 k)"
    "node ?s2 k = (if k = dep then (node ?s1 k)\<lparr>nd_outs := scheduler_index_list_push (nd_outs (node ?s1 k)) user\<rparr> else node ?s1 k)"
    "node ?s1 k = (if k = user then (node s k)\<lparr>nd_deps := scheduler_index_list_push (nd_deps (node s k)) dep\<rparr> else node s k)" for k
    unfolding s' using assms(2,3) by simp_all
  show "node_len s' = node_len s" "sc_ready s' = sc_ready s" by (simp_all add: s')
  show "nd_deps (node s' k) = (if k = user then scheduler_index_list_push (nd_deps (node s k)) dep else nd_deps (node s k))"
    "nd_outs (node s' k) = (if k = dep then scheduler_index_list_push (nd_outs (node s k)) user else nd_outs (node s k))"
    "nd_remaining (node s' k) = (if k = user then length (nd_deps (node s' k)) else nd_remaining (node s k))"
    "nd_state (node s' k) = nd_state (node s k)" "nd_kind (node s' k) = nd_kind (node s k)"
    using ne by (auto simp: n)
qed

lemma edges_agree_add_edge:
  assumes e: "scheduler_add_edge dep user s = Inr s'" and r: "dep < node_len s" "user < node_len s" and s: "edges_agree s"
  shows "edges_agree s'"
proof (rule edges_agreeI)
  note new = add_edge_node(1,3,4,5) [OF e r]
  fix i assume "i < node_len s'"
  then have i: "i < node_len s" by (simp add: new)
  show "distinct (nd_deps (node s' i)) \<and> distinct (nd_outs (node s' i)) \<and> i \<notin> set (nd_deps (node s' i)) \<and>
        set (nd_deps (node s' i)) \<subseteq> {..<node_len s'} \<and> set (nd_outs (node s' i)) \<subseteq> {..<node_len s'}"
    using edges_agreeD(1-5) [OF s i] r new(2) by (auto simp: new)
  fix d assume "d < node_len s'"
  then show "d \<in> set (nd_deps (node s' i)) \<longleftrightarrow> i \<in> set (nd_outs (node s' d))"
    using edges_agreeD(6) [OF s i, of d] by (auto simp: new)
qed

lemma unstarted_add_edge:
  "scheduler_add_edge dep user s = Inr s' \<Longrightarrow> dep < node_len s \<Longrightarrow> user < node_len s \<Longrightarrow> unstarted s \<Longrightarrow> unstarted s'"
  using add_edge_node [of dep user s s'] by (auto simp: unstarted_def)

lemma sched_deps_add_edge:
  "scheduler_add_edge dep user s = Inr s' \<Longrightarrow> dep < node_len s \<Longrightarrow> user < node_len s \<Longrightarrow>
   sched_deps s' = insert (dep, user) (sched_deps s)"
  using add_edge_node(1,4) [of dep user s s'] by (auto simp: sched_deps_def split: if_splits)

section \<open>The invariant of a running schedule\<close>

definition in_state :: "scheduler \<Rightarrow> sched_state \<Rightarrow> nat set" where
  "in_state s st = {i. i < node_len s \<and> nd_state (node s i) = st}"

definition undone :: "scheduler \<Rightarrow> nat \<Rightarrow> nat" where
  "undone s i = length (filter (\<lambda>d. nd_state (node s d) \<noteq> SchedDone) (nd_deps (node s i)))"

text \<open>
  \<open>P\<close>: nodes taken from the queue and not yet dealt with; \<open>K\<close>: nodes whose counter still counts a node
  that is done. Both are empty between the steps of the loop.
\<close>

definition counters_agree :: "nat set \<Rightarrow> scheduler \<Rightarrow> bool" where
  "counters_agree K s \<longleftrightarrow> (\<forall>i\<in>in_state s SchedPending.
     nd_remaining (node s i) = undone s i + (if i \<in> K then 1 else 0) \<and> nd_remaining (node s i) > 0)"

definition sched_inv :: "nat set \<Rightarrow> nat set \<Rightarrow> scheduler \<Rightarrow> bool" where
  "sched_inv P K s \<longleftrightarrow> edges_agree s \<and> distinct (sc_ready s) \<and> set (sc_ready s) = in_state s SchedReady - P \<and>
     counters_agree K s \<and> (\<forall>i<node_len s. nd_state (node s i) \<noteq> SchedPending \<longrightarrow> undone s i = 0)"

lemma undone_0: "undone s i = 0 \<longleftrightarrow> (\<forall>d\<in>set (nd_deps (node s i)). nd_state (node s d) = SchedDone)"
  by (auto simp: undone_def filter_empty_conv)

lemma undone_cong:
  "nd_deps (node s' i) = nd_deps (node s i) \<Longrightarrow>
   (\<And>d. d \<in> set (nd_deps (node s i)) \<Longrightarrow> (nd_state (node s' d) = SchedDone) = (nd_state (node s d) = SchedDone)) \<Longrightarrow>
   undone s' i = undone s i"
  unfolding undone_def by (auto intro!: arg_cong [where f = length] filter_cong)

text \<open>An edit of states and counters leaves the edges.\<close>

definition same_edges :: "scheduler \<Rightarrow> scheduler \<Rightarrow> bool" where
  "same_edges s s' \<longleftrightarrow> node_len s' = node_len s \<and> (\<forall>i. nd_deps (node s' i) = nd_deps (node s i) \<and>
     nd_outs (node s' i) = nd_outs (node s i) \<and> nd_kind (node s' i) = nd_kind (node s i))"

lemma same_edges_refl [simp]: "same_edges s s"
  by (simp add: same_edges_def)

lemma same_edges_trans: "same_edges s s' \<Longrightarrow> same_edges s' s'' \<Longrightarrow> same_edges s s''"
  by (simp add: same_edges_def)

lemma same_edges_agree: "same_edges s s' \<Longrightarrow> edges_agree s' = edges_agree s"
  by (simp add: same_edges_def edges_agree_def)

lemma same_edges_edit [simp]:
  "i < node_len s \<Longrightarrow> (\<And>n. nd_deps (f n) = nd_deps n \<and> nd_outs (f n) = nd_outs n \<and> nd_kind (f n) = nd_kind n) \<Longrightarrow>
   same_edges s (edit_node i f s)"
  by (simp add: same_edges_def)

lemma same_edges_push [simp]: "i < node_len s \<Longrightarrow> same_edges s (scheduler_ready_push i s)"
  by (simp add: same_edges_def)

lemma same_edges_release: "set ks \<subseteq> {..<node_len s} \<Longrightarrow> same_edges s (release_outs ks s)"
proof (induction ks s rule: release_outs.induct)
  case (2 k ks s)
  show ?case
  proof (cases "nd_state (node s k) = SchedPending")
    case True
    let ?s1 = "if nd_remaining (node s k) > 0 then edit_node k (\<lambda>n. n\<lparr>nd_remaining := nd_remaining n - 1\<rparr>) s else s"
    let ?s2 = "if nd_remaining (node ?s1 k) = 0 then scheduler_ready_push k ?s1 else ?s1"
    have k: "k < node_len s" using 2(3) by simp
    have "same_edges s ?s1" using k by simp
    moreover have "same_edges ?s1 ?s2" using k by simp
    ultimately have s2: "same_edges s ?s2" by (rule same_edges_trans)
    moreover have "same_edges ?s2 (release_outs ks ?s2)"
      using 2(2) [OF _ refl] 2(3) True s2 by (simp add: same_edges_def)
    ultimately show ?thesis using True by (auto simp: Let_def intro: same_edges_trans)
  qed (use 2 in simp)
qed simp

lemma same_edges_complete:
  "i < node_len s \<Longrightarrow> edges_agree s \<Longrightarrow> same_edges s (scheduler_complete_node i s)"
  unfolding scheduler_complete_node_def
  by (rule same_edges_trans [where s' = "edit_node i (\<lambda>n. n\<lparr>nd_state := SchedDone\<rparr>) s"])
    (auto intro!: same_edges_release dest: edges_agreeD(5) [THEN subsetD])

text \<open>One dependent is released.\<close>

definition release_one :: "nat \<Rightarrow> scheduler \<Rightarrow> scheduler" where
  "release_one k s = (if nd_state (node s k) \<noteq> SchedPending then s
     else let s1 = (if nd_remaining (node s k) > 0 then edit_node k (\<lambda>n. n\<lparr>nd_remaining := nd_remaining n - 1\<rparr>) s else s)
          in if nd_remaining (node s1 k) = 0 then scheduler_ready_push k s1 else s1)"

lemma release_outs_fold: "release_outs ks s = fold release_one ks s"
  by (induction ks arbitrary: s) (auto simp: release_one_def Let_def)

lemma release_one_node:
  assumes "k < node_len s" "nd_state (node s k) = SchedPending" "nd_remaining (node s k) > 0"
  shows "node (release_one k s) i = (if i \<noteq> k then node s i else if nd_remaining (node s k) = 1
           then (node s k)\<lparr>nd_remaining := 0, nd_state := SchedReady\<rparr>
           else (node s k)\<lparr>nd_remaining := nd_remaining (node s k) - 1\<rparr>)"
    "node_len (release_one k s) = node_len s"
    "sc_ready (release_one k s) = (if nd_remaining (node s k) = 1 then sc_ready s @ [k] else sc_ready s)"
  using assms by (auto simp: release_one_def Let_def)

lemma release_one_inv:
  assumes inv: "sched_inv {} (insert k K) s" and k: "k < node_len s" "k \<notin> K"
  shows "sched_inv {} K (release_one k s)"
proof (cases "nd_state (node s k) = SchedPending")
  case False
  then show ?thesis using inv by (auto simp: release_one_def sched_inv_def counters_agree_def in_state_def)
next
  case True
  let ?s = "release_one k s"
  have rem: "nd_remaining (node s k) = undone s k + 1" "nd_remaining (node s k) > 0"
    using inv k True by (auto simp: sched_inv_def counters_agree_def in_state_def)
  note new = release_one_node [OF k(1) True rem(2)]
  have undone: "undone ?s i = undone s i" for i
    by (rule undone_cong) (auto simp: new True)
  have e: "edges_agree ?s" using inv same_edges_agree [of s ?s] by (simp add: sched_inv_def same_edges_def new)
  have ready: "distinct (sc_ready ?s)" "set (sc_ready ?s) = in_state ?s SchedReady"
    using inv k True by (auto simp: new sched_inv_def in_state_def)
  have "counters_agree K ?s" unfolding counters_agree_def
  proof
    fix i assume i: "i \<in> in_state ?s SchedPending"
    show "nd_remaining (node ?s i) = undone ?s i + (if i \<in> K then 1 else 0) \<and> nd_remaining (node ?s i) > 0"
    proof (cases "i = k")
      case True
      then show ?thesis using i rem k(2) by (auto simp: undone new in_state_def split: if_splits)
    next
      case False
      then show ?thesis using i inv by (auto simp: undone new in_state_def sched_inv_def counters_agree_def)
    qed
  qed
  moreover have "undone ?s i = 0" if "i < node_len s" "nd_state (node ?s i) \<noteq> SchedPending" for i
    using that inv rem True by (auto simp: undone new sched_inv_def split: if_splits)
  ultimately show ?thesis using e ready by (simp add: sched_inv_def new)
qed

lemma release_inv:
  "sched_inv {} (set ks) s \<Longrightarrow> distinct ks \<Longrightarrow> set ks \<subseteq> {..<node_len s} \<Longrightarrow> sched_inv {} {} (fold release_one ks s)"
proof (induction ks arbitrary: s)
  case (Cons k ks)
  have "sched_inv {} (set ks) (release_one k s)" by (rule release_one_inv) (use Cons.prems in auto)
  moreover have "node_len (release_one k s) = node_len s" by (simp add: release_one_def Let_def)
  ultimately show ?case using Cons by simp
qed simp

text \<open>A node that leaves the queue is done, or runs, or goes back.\<close>

lemma done_inv:
  assumes inv: "sched_inv P {} s" and i: "i < node_len s" "nd_state (node s i) \<notin> {SchedPending, SchedDone}"
    and P: "P = (if nd_state (node s i) = SchedReady then {i} else {})"
  shows "sched_inv {} (set (nd_outs (node s i))) (edit_node i (\<lambda>n. n\<lparr>nd_state := SchedDone\<rparr>) s)" (is "sched_inv {} ?K ?s")
proof -
  have n: "node ?s k = (if k = i then (node s k)\<lparr>nd_state := SchedDone\<rparr> else node s k)" "node_len ?s = node_len s"
    "sc_ready ?s = sc_ready s" for k
    using i by simp_all
  have e: "edges_agree s" using inv by (simp add: sched_inv_def)
  have e': "edges_agree ?s" using e same_edges_agree [of s ?s] i by simp
  have fewer: "undone s k = undone ?s k + (if i \<in> set (nd_deps (node s k)) then 1 else 0)" if "k < node_len s" for k
  proof -
    have d: "distinct (nd_deps (node s k))" using edges_agreeD(1) [OF e that] .
    let ?U = "{d \<in> set (nd_deps (node s k)). nd_state (node s d) \<noteq> SchedDone}"
    let ?V = "{d \<in> set (nd_deps (node s k)). nd_state (node ?s d) \<noteq> SchedDone}"
    have "undone s k = card ?U"
      using distinct_card [OF distinct_filter [OF d]] by (simp add: undone_def)
    moreover have "nd_deps (node ?s k) = nd_deps (node s k)" by (simp add: n(1))
    then have "undone ?s k = card ?V"
      unfolding undone_def using distinct_card [OF distinct_filter [OF d]] by (metis set_filter)
    moreover have V: "?V = ?U - {i}" by (auto simp: n)
    moreover have "card ?U = card (?U - {i}) + (if i \<in> ?U then 1 else 0)"
      by (cases "i \<in> ?U") (use card_Suc_Diff1 [of ?U i] in \<open>simp_all\<close>)
    moreover have "i \<in> ?U \<longleftrightarrow> i \<in> set (nd_deps (node s k))" using i(2) by auto
    ultimately show ?thesis by (simp only: V)
  qed
  have ready: "set (sc_ready ?s) = in_state ?s SchedReady"
    using inv P i by (auto simp: n sched_inv_def in_state_def split: if_splits)
  have "counters_agree ?K ?s" unfolding counters_agree_def
  proof
    fix k assume k: "k \<in> in_state ?s SchedPending"
    then have k': "k < node_len s" "k \<noteq> i" "k \<in> in_state s SchedPending" by (auto simp: n in_state_def split: if_splits)
    then have "nd_remaining (node s k) = undone s k \<and> nd_remaining (node s k) > 0"
      using inv by (auto simp: sched_inv_def counters_agree_def)
    moreover have "i \<in> set (nd_deps (node s k)) \<longleftrightarrow> k \<in> ?K" by (rule edges_agreeD(6) [OF e k'(1) i(1)])
    ultimately show "nd_remaining (node ?s k) = undone ?s k + (if k \<in> ?K then 1 else 0) \<and> nd_remaining (node ?s k) > 0"
      using fewer [OF k'(1)] k'(2) by (auto simp: n(1) split: if_splits)
  qed
  moreover have "undone ?s k = 0" if "k < node_len s" "nd_state (node ?s k) \<noteq> SchedPending" for k
    using fewer [OF that(1)] that inv i by (auto simp: n sched_inv_def split: if_splits)
  ultimately show ?thesis using e' ready inv by (simp add: sched_inv_def n)
qed

lemma complete_inv:
  assumes "sched_inv P {} s" "i < node_len s" "nd_state (node s i) \<notin> {SchedPending, SchedDone}"
    "P = (if nd_state (node s i) = SchedReady then {i} else {})"
  shows "sched_inv {} {} (scheduler_complete_node i s)"
proof -
  have "edges_agree s" using assms(1) by (simp add: sched_inv_def)
  from edges_agreeD(2,5) [OF this assms(2)] show ?thesis
    unfolding scheduler_complete_node_def release_outs_fold
    by (intro release_inv done_inv [OF assms]) (use assms(2) in simp_all)
qed

lemma run_inv:
  assumes "sched_inv {i} {} s" "i < node_len s" "nd_state (node s i) = SchedReady"
  shows "sched_inv {} {} (edit_node i (\<lambda>n. n\<lparr>nd_state := SchedRunning\<rparr>) s)" (is "sched_inv _ _ ?s")
proof -
  have n: "node ?s k = (if k = i then (node s k)\<lparr>nd_state := SchedRunning\<rparr> else node s k)" for k
    using assms by simp
  have u: "undone ?s k = undone s k" for k
    by (rule undone_cong) (auto simp: n assms(3))
  have "edges_agree ?s" using assms(1,2) same_edges_agree [of s ?s] by (simp add: sched_inv_def)
  then show ?thesis using assms by (auto simp: sched_inv_def counters_agree_def in_state_def n u split: if_splits)
qed

lemma push_back_inv:
  assumes "sched_inv {i} {} s" "i < node_len s" "nd_state (node s i) = SchedReady"
  shows "sched_inv {} {} (scheduler_ready_push i s)" (is "sched_inv _ _ ?s")
proof -
  have n: "node ?s k = node s k" for k using assms by simp
  have u: "undone ?s k = undone s k" for k
    by (rule undone_cong) (simp_all only: n)
  have "edges_agree ?s" using assms(1,2) same_edges_agree [of s ?s] by (simp add: sched_inv_def)
  then show ?thesis using assms by (auto simp: sched_inv_def counters_agree_def in_state_def n u)
qed

lemma pop_inv:
  assumes "sched_inv {} {} s" "scheduler_ready_pop s = Some (i, s')"
  shows "sched_inv {i} {} s'" "i < node_len s" "nd_state (node s i) = SchedReady" "node s' = node s" "node_len s' = node_len s"
proof -
  obtain q where q: "sc_ready s = i # q" "s' = s\<lparr>sc_ready := q\<rparr>"
    using assms(2) by (cases "sc_ready s") (auto simp: scheduler_ready_pop_def scheduler_ready_count_def split: if_splits)
  show n: "node s' = node s" "node_len s' = node_len s" by (auto simp: q)
  have i: "i \<in> in_state s SchedReady" using assms(1) q by (auto simp: sched_inv_def)
  then show "i < node_len s" "nd_state (node s i) = SchedReady" by (simp_all add: in_state_def)
  have "edges_agree s' = edges_agree s" "undone s' k = undone s k" "in_state s' st = in_state s st" for k st
    by (simp_all add: edges_agree_def undone_def in_state_def n)
  moreover have "set q = in_state s SchedReady - {i}" "distinct q" using assms(1) q(1) by (auto simp: sched_inv_def)
  ultimately show "sched_inv {i} {} s'"
    using assms(1) by (auto simp: sched_inv_def counters_agree_def n) (auto simp: q)
qed

lemma release_states:
  "set ks \<subseteq> {..<node_len s} \<Longrightarrow> st \<in> {SchedRunning, SchedDone} \<Longrightarrow> in_state (fold release_one ks s) st = in_state s st"
proof (induction ks arbitrary: s)
  case (Cons k ks)
  have "node_len (release_one k s) = node_len s" "in_state (release_one k s) st = in_state s st"
    using Cons.prems by (auto simp: release_one_def Let_def in_state_def split: if_splits)
  then show ?case using Cons by simp
qed simp

lemma complete_states:
  assumes "edges_agree s" "i < node_len s"
  shows "in_state (scheduler_complete_node i s) SchedDone = insert i (in_state s SchedDone)"
    "in_state (scheduler_complete_node i s) SchedRunning = in_state s SchedRunning - {i}"
proof -
  let ?s = "edit_node i (\<lambda>n. n\<lparr>nd_state := SchedDone\<rparr>) s"
  have "in_state (scheduler_complete_node i s) st = in_state ?s st" if "st \<in> {SchedRunning, SchedDone}" for st
    unfolding scheduler_complete_node_def release_outs_fold
    by (rule release_states) (use edges_agreeD(5) [OF assms] that in simp_all)
  moreover have "in_state ?s SchedDone = insert i (in_state s SchedDone)"
    "in_state ?s SchedRunning = in_state s SchedRunning - {i}"
    using assms(2) by (auto simp: in_state_def split: if_splits)
  ultimately show "in_state (scheduler_complete_node i s) SchedDone = insert i (in_state s SchedDone)"
    "in_state (scheduler_complete_node i s) SchedRunning = in_state s SchedRunning - {i}"
    by simp_all
qed

text \<open>Marking a node done first makes no difference to its completion.\<close>

lemma complete_marked:
  "i < node_len s \<Longrightarrow> scheduler_complete_node i (edit_node i (\<lambda>n. n\<lparr>nd_state := SchedDone\<rparr>) s) = scheduler_complete_node i s"
  by (simp add: scheduler_complete_node_def edit_node_def node_def node_len_def)

end
