(* ===== verification/QDiscover.thy ===== *)
theory QDiscover
  imports QScheduler QConfigs QUsage
begin

text \<open>
  Which targets, generated actions and stages a build needs (\<open>scheduler_discover\<close> and its helpers in
  \<open>executor.c\<close>). What a target or an action asks for depends on the graph alone and is a list here; the
  discovery works these lists off and repeats until a round brings nothing new. The lemmas show that it
  ends and finds exactly what the roots need.
\<close>

section \<open>Positions of generated actions and stages\<close>

datatype work = NeedTarget nat | NeedGenrule nat | NeedStage nat

definition genrule_index :: "qstar_graph \<Rightarrow> string \<Rightarrow> nat option" where
  "genrule_index g label = key_index g_label label (gr_genrules g)"

definition stage_index :: "qstar_graph \<Rightarrow> string \<Rightarrow> nat option" where
  "stage_index g label = key_index st_label label (gr_stages g)"

fun first_index :: "('a \<Rightarrow> bool) \<Rightarrow> 'a list \<Rightarrow> nat option" where
  "first_index P [] = None"
| "first_index P (x # xs) = (if P x then Some 0 else map_option Suc (first_index P xs))"

definition output_owner_index :: "qstar_graph \<Rightarrow> string \<Rightarrow> nat option" where
  "output_owner_index g path = first_index (\<lambda>r. list_contains (g_outputs r) path) (gr_genrules g)"

lemma first_index_find: "map_option (\<lambda>i. xs ! i) (first_index P xs) = List.find P xs"
  by (induction xs) (auto simp: option.map_comp o_def)

lemma first_index_less: "first_index P xs = Some i \<Longrightarrow> i < length xs \<and> P (xs ! i)"
  by (induction xs arbitrary: i) (auto split: if_splits)

lemma output_owner_index_owner:
  "map_option (\<lambda>k. gr_genrules g ! k) (output_owner_index g path) = qstar_graph_find_output_owner g path"
  unfolding output_owner_index_def qstar_graph_find_output_owner_def first_index_find
  by (rule arg_cong [where f = "\<lambda>P. List.find P (gr_genrules g)"]) (auto simp: list_ex_iff)

section \<open>Generated files among the inputs of a target\<close>

definition generated_output_in_list :: "qstar_genrule \<Rightarrow> string list \<Rightarrow> bool" where
  "generated_output_in_list r xs \<longleftrightarrow> list_ex (\<lambda>out. list_contains xs out) (g_outputs r)"

definition target_consumes_genrule :: "qstar_target \<Rightarrow> qstar_genrule \<Rightarrow> bool" where
  "target_consumes_genrule t r \<longleftrightarrow>
     (present (t_cxx_precompiled_header t) \<and> list_contains (g_outputs r) (str_or_empty (t_cxx_precompiled_header t))) \<or>
     generated_output_in_list r (t_sources t) \<or> generated_output_in_list r (t_public_headers t) \<or>
     generated_output_in_list r (t_private_headers t) \<or> generated_output_in_list r (t_link_inputs t)"

definition target_compile_consumes_genrule :: "qstar_target \<Rightarrow> qstar_genrule \<Rightarrow> bool" where
  "target_compile_consumes_genrule t r \<longleftrightarrow>
     generated_output_in_list r (t_public_headers t) \<or> generated_output_in_list r (t_private_headers t) \<or>
     list_ex (\<lambda>out. list_ex (\<lambda>j. out = t_sources t ! j \<and>
         (case qstar_target_source_classify t j of None \<Rightarrow> False | Some s \<Rightarrow> qstar_source_requires_compile s))
       [0..<length (t_sources t)]) (g_outputs r)"

section \<open>What a label, an item, an action and a target ask for\<close>

text \<open>A label of a \<open>target_file\<close> token names a target or, if there is none, a generated action.\<close>

definition label_work :: "qstar_graph \<Rightarrow> string \<Rightarrow> (qerr + work) list" where
  "label_work g label = (case target_index g label of
      Some i \<Rightarrow> [Inr (NeedTarget i)]
    | None \<Rightarrow> (case genrule_index g label of Some k \<Rightarrow> [Inr (NeedGenrule k)] | None \<Rightarrow> []))"

text \<open>A plain item may be the output of another action; \<open>self\<close> is the action that asks.\<close>

definition plain_work :: "qstar_graph \<Rightarrow> nat option \<Rightarrow> string \<Rightarrow> (qerr + work) list" where
  "plain_work g self item = (case output_owner_index g item of
      None \<Rightarrow> [] | Some k \<Rightarrow> if self = Some k then [] else [Inr (NeedGenrule k)])"

definition token_error :: "string \<Rightarrow> int \<Rightarrow> string \<Rightarrow> string \<Rightarrow> qerr" where
  "token_error file line field label = Origin file line field label ''qstar: malformed target_file placeholder''"

definition target_token_error :: "qstar_target \<Rightarrow> string \<Rightarrow> qerr" where
  "target_token_error t field = token_error (t_origin_file t) (t_origin_line t) field (t_label t)"

definition scheduler_discover_genrule_deps :: "qstar_graph \<Rightarrow> nat \<Rightarrow> (qerr + work) list" where
  "scheduler_discover_genrule_deps g k = (let r = gr_genrules g ! k in
     concat (map (\<lambda>item. case qstar_target_file_token_label (Some item) PATH_MAX of
         BadToken \<Rightarrow> [Inl (token_error (g_origin_file r) (g_origin_line r) ''inputs'' (g_label r))]
       | Token label \<Rightarrow> label_work g label
       | NotToken \<Rightarrow> plain_work g (Some k) item) (str_or_empty (g_tool r) # g_inputs r @ g_args r)))"

definition scheduler_discover_target_genrules :: "qstar_graph \<Rightarrow> qstar_target \<Rightarrow> (qerr + work) list" where
  "scheduler_discover_target_genrules g t =
     map (\<lambda>k. Inr (NeedGenrule k)) (filter (\<lambda>k. target_consumes_genrule t (gr_genrules g ! k)) [0..<length (gr_genrules g)])"

definition scheduler_discover_target_dep_genrules :: "qstar_graph \<Rightarrow> qstar_target \<Rightarrow> (qerr + work) list" where
  "scheduler_discover_target_dep_genrules g t =
     concat (map (\<lambda>dep. if take 1 dep = ''@'' then []
       else case genrule_index g dep of None \<Rightarrow> [] | Some k \<Rightarrow> [Inr (NeedGenrule k)]) (t_deps t @ t_private_deps t))"

text \<open>Of link inputs and command words only \<open>target_file\<close> tokens count.\<close>

definition token_work :: "qstar_graph \<Rightarrow> qstar_target \<Rightarrow> string \<Rightarrow> string \<Rightarrow> (qerr + work) list" where
  "token_work g t field item = (case qstar_target_file_token_label (Some item) PATH_MAX of
      BadToken \<Rightarrow> [Inl (target_token_error t field)] | Token label \<Rightarrow> label_work g label | NotToken \<Rightarrow> [])"

definition scheduler_discover_target_link_inputs :: "qstar_graph \<Rightarrow> qstar_target \<Rightarrow> (qerr + work) list" where
  "scheduler_discover_target_link_inputs g t = concat (map (token_work g t ''link_inputs'') (t_link_inputs t))"

definition scheduler_discover_target_file_item :: "qstar_graph \<Rightarrow> qstar_target \<Rightarrow> string \<Rightarrow> string \<Rightarrow> (qerr + work) list" where
  "scheduler_discover_target_file_item g t field item = (case qstar_target_file_token_label (Some item) PATH_MAX of
      BadToken \<Rightarrow> [Inl (target_token_error t field)]
    | Token label \<Rightarrow> label_work g label
    | NotToken \<Rightarrow> plain_work g None item)"

definition usage_work :: "qstar_graph \<Rightarrow> qstar_target \<Rightarrow> string \<Rightarrow> (string list \<times> string list) option \<Rightarrow> (qerr + work) list" where
  "usage_work g t field r = (case r of
      None \<Rightarrow> [Inl (Plain ''qstar: out of memory'')]
    | Some (options, inputs) \<Rightarrow> concat (map (scheduler_discover_target_file_item g t field) inputs))"

definition scheduler_discover_dependency_usage :: "qstar_graph \<Rightarrow> qstar_target \<Rightarrow> (qerr + work) list" where
  "scheduler_discover_dependency_usage g t =
     usage_work g t ''compile_usage.inputs'' (qstar_graph_collect_compile_usage g t) @
     usage_work g t ''link_usage.inputs'' (qstar_graph_collect_link_usage g t)"

definition stage_token_error :: "qstar_target \<Rightarrow> qerr" where
  "stage_token_error t = Origin (t_origin_file t) (t_origin_line t) ''inputs'' (t_label t)
     ''qstar: malformed stage_dir placeholder''"

definition unknown_stage_error :: "qstar_target \<Rightarrow> string \<Rightarrow> qerr" where
  "unknown_stage_error t label = Origin (t_origin_file t) (t_origin_line t) ''inputs'' (t_label t)
     (''qstar: stage_dir references unknown stage '' @ sq label)"

definition scheduler_discover_run_inputs :: "qstar_graph \<Rightarrow> qstar_target \<Rightarrow> (qerr + work) list" where
  "scheduler_discover_run_inputs g t =
     (if t_kind t \<noteq> ''run_target'' then []
      else concat (map (\<lambda>item. case qstar_stage_dir_token_label (Some item) PATH_MAX of
          BadToken \<Rightarrow> [Inl (stage_token_error t)]
        | Token label \<Rightarrow> (case stage_index g label of
              None \<Rightarrow> [Inl (unknown_stage_error t label)]
            | Some m \<Rightarrow> Inr (NeedStage m) #
                concat (map (scheduler_discover_target_file_item g t ''inputs'') (st_srcs (gr_stages g ! m))))
        | NotToken \<Rightarrow> scheduler_discover_target_file_item g t ''inputs'' item) (t_run_inputs t)))"

definition scheduler_discover_run_command_inputs :: "qstar_graph \<Rightarrow> qstar_target \<Rightarrow> (qerr + work) list" where
  "scheduler_discover_run_command_inputs g t =
     (if t_kind t \<noteq> ''run_target'' then [] else concat (map (token_work g t ''command'') (t_run_command t)))"

definition target_work :: "qstar_graph \<Rightarrow> nat \<Rightarrow> (qerr + work) list" where
  "target_work g i = (let t = gr_targets g ! i in
     scheduler_discover_target_genrules g t @ scheduler_discover_target_dep_genrules g t @
     scheduler_discover_target_link_inputs g t @ scheduler_discover_dependency_usage g t @
     scheduler_discover_run_inputs g t @ scheduler_discover_run_command_inputs g t)"

section \<open>Working it off\<close>

text \<open>A pointer into the array is always valid here, so these do not fail.\<close>

definition scheduler_add_target :: "nat \<Rightarrow> scheduler \<Rightarrow> scheduler" where
  "scheduler_add_target i s =
     (if sc_target_seen s ! i then s
      else s\<lparr>sc_target_seen := (sc_target_seen s)[i := True], sc_targets := sc_targets s @ [i]\<rparr>)"

definition scheduler_collect_target :: "nat \<Rightarrow> nat \<Rightarrow> scheduler \<Rightarrow> qerr + scheduler" where
  "scheduler_collect_target i order s = Inr (scheduler_add_target i s)"

definition scheduler_add_target_closure :: "qstar_graph \<Rightarrow> cstr \<Rightarrow> scheduler \<Rightarrow> (qerr + scheduler) option" where
  "scheduler_add_target_closure g label s = qstar_graph_visit_closure g label scheduler_collect_target s"

definition scheduler_mark_genrule :: "nat \<Rightarrow> scheduler \<Rightarrow> scheduler" where
  "scheduler_mark_genrule k s = s\<lparr>sc_genrule_needed := (sc_genrule_needed s)[k := True]\<rparr>"

definition scheduler_mark_stage :: "nat \<Rightarrow> scheduler \<Rightarrow> scheduler" where
  "scheduler_mark_stage m s = s\<lparr>sc_stage_needed := (sc_stage_needed s)[m := True]\<rparr>"

text \<open>The Boolean is \<open>changed\<close>.\<close>

definition meet :: "qstar_graph \<Rightarrow> work \<Rightarrow> scheduler \<times> bool \<Rightarrow> (qerr + scheduler \<times> bool) option" where
  "meet g w sc = (case sc of (s, changed) \<Rightarrow> (case w of
      NeedTarget i \<Rightarrow> map_option (map_sum id (\<lambda>s'. (s', changed \<or> length (sc_targets s') \<noteq> length (sc_targets s))))
        (scheduler_add_target_closure g (Some (t_label (gr_targets g ! i))) s)
    | NeedGenrule k \<Rightarrow> Some (Inr (if sc_genrule_needed s ! k then (s, changed) else (scheduler_mark_genrule k s, True)))
    | NeedStage m \<Rightarrow> Some (Inr (if sc_stage_needed s ! m then (s, changed) else (scheduler_mark_stage m s, True)))))"

fun meet_all :: "qstar_graph \<Rightarrow> (qerr + work) list \<Rightarrow> scheduler \<times> bool \<Rightarrow> (qerr + scheduler \<times> bool) option" where
  "meet_all g [] sc = Some (Inr sc)"
| "meet_all g (Inl e # ws) sc = Some (Inl e)"
| "meet_all g (Inr w # ws) sc = (case meet g w sc of
      None \<Rightarrow> None | Some (Inl e) \<Rightarrow> Some (Inl e) | Some (Inr sc') \<Rightarrow> meet_all g ws sc')"

text \<open>The list of targets may grow while it is walked; there is fuel for every target of the graph.\<close>

fun meet_targets :: "qstar_graph \<Rightarrow> nat \<Rightarrow> nat \<Rightarrow> scheduler \<times> bool \<Rightarrow> (qerr + scheduler \<times> bool) option" where
  "meet_targets g 0 i sc = None"
| "meet_targets g (Suc f) i sc =
     (if i \<ge> length (sc_targets (fst sc)) then Some (Inr sc)
      else case meet_all g (target_work g (sc_targets (fst sc) ! i)) sc of
          None \<Rightarrow> None | Some (Inl e) \<Rightarrow> Some (Inl e) | Some (Inr sc') \<Rightarrow> meet_targets g f (i + 1) sc')"

fun meet_genrules :: "qstar_graph \<Rightarrow> nat list \<Rightarrow> scheduler \<times> bool \<Rightarrow> (qerr + scheduler \<times> bool) option" where
  "meet_genrules g [] sc = Some (Inr sc)"
| "meet_genrules g (k # ks) sc =
     (if \<not> sc_genrule_needed (fst sc) ! k then meet_genrules g ks sc
      else case meet_all g (scheduler_discover_genrule_deps g k) sc of
          None \<Rightarrow> None | Some (Inl e) \<Rightarrow> Some (Inl e) | Some (Inr sc') \<Rightarrow> meet_genrules g ks sc')"

definition discover_round :: "qstar_graph \<Rightarrow> scheduler \<Rightarrow> (qerr + scheduler \<times> bool) option" where
  "discover_round g s = (case meet_targets g (length (gr_targets g) + 1) 0 (s, False) of
      None \<Rightarrow> None | Some (Inl e) \<Rightarrow> Some (Inl e) | Some (Inr sc) \<Rightarrow> meet_genrules g [0..<length (gr_genrules g)] sc)"

fun discover_rounds :: "qstar_graph \<Rightarrow> nat \<Rightarrow> scheduler \<Rightarrow> (qerr + scheduler) option" where
  "discover_rounds g 0 s = None"
| "discover_rounds g (Suc f) s = (case discover_round g s of
      None \<Rightarrow> None
    | Some (Inl e) \<Rightarrow> Some (Inl e)
    | Some (Inr (s', changed)) \<Rightarrow> if changed then discover_rounds g f s' else Some (Inr s'))"

text \<open>Every round but the last finds a new target, action or stage.\<close>

definition discover_fuel :: "qstar_graph \<Rightarrow> nat" where
  "discover_fuel g = length (gr_targets g) + length (gr_genrules g) + length (gr_stages g) + 1"

definition scheduler_discover :: "qstar_graph \<Rightarrow> cstr \<Rightarrow> scheduler \<Rightarrow> (qerr + scheduler) option" where
  "scheduler_discover g label s =
     (case (if present label then genrule_index g (str_or_empty label) else None) of
        Some k \<Rightarrow> discover_rounds g (discover_fuel g) (scheduler_mark_genrule k s)
      | None \<Rightarrow> (case scheduler_add_target_closure g label s of
            None \<Rightarrow> None | Some (Inl e) \<Rightarrow> Some (Inl e) | Some (Inr s') \<Rightarrow> discover_rounds g (discover_fuel g) s'))"

end
