(* ===== verification/QActionGraph.thy ===== *)
theory QActionGraph
  imports QDiscover QCxx
begin

text \<open>
  The action graph of a build (\<open>scheduler_build_nodes\<close> of \<open>executor.c\<close>): for the targets, generated actions and
  stages that were discovered, one node for every compilation, every final action and every other action,
  and the edges from the producers of what a node reads.
\<close>

section \<open>Checks of compilers and sources\<close>

text \<open>The host, \<open>access (path, X_OK) == 0\<close> (on Windows: the file exists) and \<open>getenv ("PATH")\<close>.\<close>

record build_host =
  bh_os :: host_os
  bh_exec :: "string \<Rightarrow> bool"
  bh_path :: cstr

definition full_path_under_root :: "qstar_graph \<Rightarrow> string \<Rightarrow> nat \<Rightarrow> string option" where
  "full_path_under_root g rel dstlen =
     qstar_path_join (Some (case gr_package_root g of None \<Rightarrow> ''.'' | Some r \<Rightarrow> r)) rel dstlen"

definition path_list_separator :: "host_os \<Rightarrow> char" where
  "path_list_separator host = (if host = HostWindows then CHR '';'' else CHR '':'')"

fun split_list_at :: "char \<Rightarrow> string \<Rightarrow> string list" where
  "split_list_at sep [] = [[]]"
| "split_list_at sep (c # cs) =
     (if c = sep then [] # split_list_at sep cs
      else case split_list_at sep cs of [] \<Rightarrow> [[c]] | d # ds \<Rightarrow> (c # d) # ds)"

definition command_exists :: "build_host \<Rightarrow> string \<Rightarrow> bool" where
  "command_exists h cmd =
     (if cmd = [] then False
      else if CHR ''/'' \<in> set cmd then bh_exec h cmd
      else case bh_path h of
          None \<Rightarrow> False
        | Some path \<Rightarrow> list_ex (\<lambda>d.
            if d = [] then bh_exec h (trunc_buf PATH_MAX cmd)
            else length d + 1 + length cmd + 1 \<le> PATH_MAX \<and> bh_exec h (d @ ''/'' @ cmd))
            (split_list_at (path_list_separator (bh_os h)) path))"

definition command_exists_in_graph :: "build_host \<Rightarrow> qstar_graph \<Rightarrow> string \<Rightarrow> bool" where
  "command_exists_in_graph h g cmd =
     (if cmd = [] then False
      else if CHR ''/'' \<in> set cmd \<and> hd cmd \<noteq> CHR ''/'' \<and> qstar_path_is_package_relative cmd
      then (case full_path_under_root g cmd PATH_MAX of None \<Rightarrow> False | Some full \<Rightarrow> bh_exec h full)
      else command_exists h cmd)"

definition validate_sharedlib_platform :: "host_os \<Rightarrow> qstar_target \<Rightarrow> qstar_resolved_toolchain \<Rightarrow> check" where
  "validate_sharedlib_platform host t tc =
     (if t_kind t \<noteq> ''sharedlib'' then Inr ()
      else reject (\<not> qstar_platform_supports_sharedlib host (Some (rt_platform tc)))
        (target_err t ''kind'' (''qstar: sharedlib target '' @ sq (t_label t) @ '' is not supported for platform '' @
           sq (rt_platform tc))))"

text \<open>The information of a source, also of one that is not recognised.\<close>

definition source_info :: "qstar_target \<Rightarrow> nat \<Rightarrow> qstar_source_info" where
  "source_info t i = (case qstar_target_provider_source_unit t i of
      None \<Rightarrow> snd (qstar_source_classify (t_sources t ! i))
    | Some u \<Rightarrow> provider_source_info u (t_sources t ! i))"

definition validate_compile_source ::
  "build_host \<Rightarrow> qstar_graph \<Rightarrow> qstar_target \<Rightarrow> qstar_resolved_toolchain \<Rightarrow> qstar_source_info \<Rightarrow> nat \<Rightarrow> check" where
  "validate_compile_source h g t tc s i = (let err = target_err t ''sources''; path = sq (t_sources t ! i) in check_seq
     [reject (si_header_input s)
        (err (''qstar: header source '' @ path @ '' must be listed as lang.*.public_headers/private_headers'')),
      reject (qstar_source_is_cxx_module s \<and> \<not> t_cxx_modules_enabled t)
        (err (''qstar: C++ module interface source '' @ path @ '' requires lang.cxx.modules.enabled = true'')),
      reject (\<not> qstar_graph_language_provider_is_available g (Some (si_provider s)) \<or> qstar_source_toolset_role (Some s) = [])
        (err (''qstar: local executor does not support source '' @ path @ '' with language '' @ sq (si_language s))),
      reject (si_provider s = ''cxx'' \<and> \<not> command_exists_in_graph h g (rt_cxx tc))
        (err (''qstar: C++ compiler '' @ sq (rt_cxx tc) @ '' not found for source '' @ path)),
      reject (qstar_source_is_asm s \<and> \<not> command_exists_in_graph h g (rt_asm tc))
        (err (''qstar: assembler compiler driver '' @ sq (rt_asm tc) @ '' not found for source '' @ path))])"

definition validate_noncompile_sources ::
  "build_host \<Rightarrow> qstar_graph \<Rightarrow> qstar_target \<Rightarrow> qstar_resolved_toolchain \<Rightarrow> check" where
  "validate_noncompile_sources h g t tc = check_all (\<lambda>i.
     let s = source_info t i in
     if qstar_source_requires_compile s \<or> qstar_source_is_link_object s then Inr ()
     else validate_compile_source h g t tc s i) [0..<length (t_sources t)]"

section \<open>The nodes of a target\<close>

definition objectlib_uses_consumer_context :: "qstar_target \<Rightarrow> bool" where
  "objectlib_uses_consumer_context t \<longleftrightarrow> t_compile_context t = Some ''consumer''"

definition source_compiles :: "qstar_target \<Rightarrow> nat \<Rightarrow> bool" where
  "source_compiles t i = (case qstar_target_source_classify t i of None \<Rightarrow> False | Some s \<Rightarrow> qstar_source_requires_compile s)"

text \<open>A source inside a unity batch that another one leads.\<close>

definition unity_follower :: "qstar_target \<Rightarrow> nat \<Rightarrow> bool" where
  "unity_follower t i = (case qstar_cxx_unity_source_info t i of None \<Rightarrow> False | Some (batch, leader) \<Rightarrow> \<not> leader)"

definition target_compile_input_count :: "qstar_target \<Rightarrow> nat" where
  "target_compile_input_count t = length (filter (\<lambda>i. \<not> qstar_target_provider_final_owns_source (Some t) i \<and>
     \<not> unity_follower t i \<and> source_compiles t i) [0..<length (t_sources t)])"

text \<open>The sources a target compiles itself, and those it compiles for the object libraries it uses.\<close>

definition own_compiles :: "qstar_target \<Rightarrow> nat list" where
  "own_compiles t = (if objectlib_uses_consumer_context t then []
     else filter (\<lambda>i. \<not> qstar_target_provider_final_owns_source (Some t) i \<and> \<not> unity_follower t i \<and> source_compiles t i)
            [0..<length (t_sources t)])"

definition objectlib_consumer_compile_index :: "qstar_graph \<Rightarrow> qstar_target \<Rightarrow> nat \<Rightarrow> nat \<Rightarrow> nat" where
  "objectlib_consumer_compile_index g consumer list_index source_index =
     length (t_sources consumer) +
     sum_list (map (\<lambda>l. case find_target g l of None \<Rightarrow> 0 | Some ob \<Rightarrow> length (t_sources ob)) (take list_index (t_objects consumer))) +
     source_index"

text \<open>Owner, source index and action index.\<close>

definition consumer_compiles :: "qstar_graph \<Rightarrow> qstar_target \<Rightarrow> (nat \<times> nat \<times> nat) list" where
  "consumer_compiles g t = concat (map (\<lambda>n. case target_index g (t_objects t ! n) of
      None \<Rightarrow> []
    | Some ob \<Rightarrow> (let lib = gr_targets g ! ob in
        if \<not> objectlib_uses_consumer_context lib then []
        else map (\<lambda>j. (ob, j, objectlib_consumer_compile_index g t n j)) (filter (source_compiles lib) [0..<length (t_sources lib)])))
     [0..<length (t_objects t)])"

definition no_source :: nat where
  "no_source = 2 ^ 64 - 1"

definition add_compile_node ::
  "sched_kind \<Rightarrow> nat \<Rightarrow> qstar_resolved_toolchain \<Rightarrow> nat \<times> nat \<times> nat \<Rightarrow> scheduler \<times> nat \<Rightarrow> scheduler \<times> nat" where
  "add_compile_node kind i tc unit sn = (case (unit, sn) of ((ob, source, action), (s, ordinal)) \<Rightarrow>
     (edit_node (node_len s) (\<lambda>n. n\<lparr>nd_source_owner := Some ob, nd_action_index := action, nd_toolchain := Some tc\<rparr>)
        (scheduler_add_node kind (Some i) None source ordinal s), ordinal + 1))"

definition add_final_node :: "sched_kind \<Rightarrow> nat \<Rightarrow> qstar_resolved_toolchain option \<Rightarrow> scheduler \<Rightarrow> scheduler" where
  "add_final_node kind i tc s =
     (edit_node (node_len s) (\<lambda>n. n\<lparr>nd_toolchain := tc\<rparr>) (scheduler_add_node kind (Some i) None 0 0 s))
       \<lparr>sc_target_final_node := (sc_target_final_node s)[i := Some (node_len s)]\<rparr>"

definition has_pch :: "qstar_target \<Rightarrow> bool" where
  "has_pch t \<longleftrightarrow> present (t_cxx_precompiled_header t)"

text \<open>The kinds without actions of their own, apart from the command of a run target.\<close>

definition passive_kind :: "string \<Rightarrow> sched_kind option" where
  "passive_kind kind = (if kind = ''group'' then Some SchedGroup
     else if kind = ''run_target'' then Some SchedRun
     else if kind \<in> {''interface'', ''imported'', ''tool''} then Some SchedMetadata else None)"

definition compile_units :: "qstar_graph \<Rightarrow> nat \<Rightarrow> (sched_kind \<times> nat \<times> nat \<times> nat) list" where
  "compile_units g i = (let t = gr_targets g ! i in
     (if has_pch t then [(SchedCxxPch, i, no_source, no_source)] else []) @
     map (\<lambda>j. (SchedCompile, i, j, j)) (own_compiles t) @ map (\<lambda>u. (SchedCompile, u)) (consumer_compiles g t))"

definition scheduler_create_target_nodes :: "build_host \<Rightarrow> qstar_graph \<Rightarrow> nat \<Rightarrow> scheduler \<Rightarrow> qerr + scheduler" where
  "scheduler_create_target_nodes h g i s = (let t = gr_targets g ! i in
     case passive_kind (t_kind t) of
       Some kind \<Rightarrow> Inr (add_final_node kind i None s)
     | None \<Rightarrow> (let tc = qstar_resolve_toolchain (bh_os h) g (t_toolset t) in
         case check_seq [qstar_cxx_validate_strategies (bh_os h) g t (Some tc),
                         validate_sharedlib_platform (bh_os h) t tc,
                         validate_noncompile_sources h g t tc] of
           Inl e \<Rightarrow> Inl e
         | Inr _ \<Rightarrow> Inr (add_final_node (if t_kind t = ''objectlib'' then SchedObjectlib else SchedFinal) i (Some tc)
             (fst (fold (\<lambda>(kind, u). add_compile_node kind i tc u) (compile_units g i) (s, 0))))))"

definition scheduler_create_genrule_nodes :: "qstar_graph \<Rightarrow> scheduler \<Rightarrow> scheduler" where
  "scheduler_create_genrule_nodes g s = fold (\<lambda>k s.
     if \<not> sc_genrule_needed s ! k then s
     else (scheduler_add_node SchedGenerate None (Some k) 0 0 s)
            \<lparr>sc_genrule_node := (sc_genrule_node s)[k := Some (node_len s)]\<rparr>) [0..<length (gr_genrules g)] s"

definition scheduler_create_stage_nodes :: "qstar_graph \<Rightarrow> scheduler \<Rightarrow> scheduler" where
  "scheduler_create_stage_nodes g s = fold (\<lambda>m s.
     if \<not> sc_stage_needed s ! m then s
     else (edit_node (node_len s) (\<lambda>n. n\<lparr>nd_stage := Some m\<rparr>) (scheduler_add_node SchedStage None None 0 0 s))
            \<lparr>sc_stage_node := (sc_stage_node s)[m := Some (node_len s)]\<rparr>) [0..<length (gr_stages g)] s"

section \<open>Producers of items\<close>

fun try_fold :: "('a \<Rightarrow> 's \<Rightarrow> qerr + 's) \<Rightarrow> 'a list \<Rightarrow> 's \<Rightarrow> qerr + 's" where
  "try_fold f [] s = Inr s"
| "try_fold f (x # xs) s = (case f x s of Inl e \<Rightarrow> Inl e | Inr s' \<Rightarrow> try_fold f xs s')"

definition genrule_node_of :: "scheduler \<Rightarrow> nat option \<Rightarrow> nat option" where
  "genrule_node_of s k = (case k of None \<Rightarrow> None | Some k' \<Rightarrow> sc_genrule_node s ! k')"

text \<open>The node a label stands for: that of the target, or that of the generated action with this label.\<close>

definition label_node :: "qstar_graph \<Rightarrow> scheduler \<Rightarrow> string \<Rightarrow> nat option" where
  "label_node g s label =
     (case (case target_index g label of None \<Rightarrow> None | Some i \<Rightarrow> sc_target_final_node s ! i) of
        Some d \<Rightarrow> Some d
      | None \<Rightarrow> genrule_node_of s (genrule_index g label))"

definition plain_node :: "qstar_graph \<Rightarrow> scheduler \<Rightarrow> nat option \<Rightarrow> string \<Rightarrow> nat option" where
  "plain_node g s self item = (case output_owner_index g item of
      None \<Rightarrow> None | Some k \<Rightarrow> if self = Some k then None else sc_genrule_node s ! k)"

definition connect_node :: "nat \<Rightarrow> nat option \<Rightarrow> scheduler \<Rightarrow> qerr + scheduler" where
  "connect_node user dep s = (case dep of None \<Rightarrow> Inr s | Some d \<Rightarrow> scheduler_add_edge d user s)"

definition item_edge :: "qstar_graph \<Rightarrow> qerr \<Rightarrow> nat option \<Rightarrow> nat \<Rightarrow> string \<Rightarrow> scheduler \<Rightarrow> qerr + scheduler" where
  "item_edge g err self user item s = (case qstar_target_file_token_label (Some item) PATH_MAX of
      BadToken \<Rightarrow> Inl err
    | Token label \<Rightarrow> connect_node user (label_node g s label) s
    | NotToken \<Rightarrow> connect_node user (plain_node g s self item) s)"

definition scheduler_add_genrule_item_edge :: "qstar_graph \<Rightarrow> nat \<Rightarrow> nat \<Rightarrow> string \<Rightarrow> scheduler \<Rightarrow> qerr + scheduler" where
  "scheduler_add_genrule_item_edge g k user = (let r = gr_genrules g ! k in
     item_edge g (token_error (g_origin_file r) (g_origin_line r) ''inputs'' (g_label r)) (Some k) user)"

definition scheduler_add_target_file_item_edge :: "qstar_graph \<Rightarrow> qstar_target \<Rightarrow> string \<Rightarrow> nat \<Rightarrow> string \<Rightarrow> scheduler \<Rightarrow> qerr + scheduler" where
  "scheduler_add_target_file_item_edge g t field user = item_edge g (target_token_error t field) None user"

definition scheduler_add_stage_source_edge :: "qstar_graph \<Rightarrow> nat \<Rightarrow> nat \<Rightarrow> string \<Rightarrow> scheduler \<Rightarrow> qerr + scheduler" where
  "scheduler_add_stage_source_edge g m user = (let st = gr_stages g ! m in
     item_edge g (token_error (st_origin_file st) (st_origin_line st) ''files'' (st_label st)) None user)"

definition scheduler_add_target_link_input_edge :: "qstar_graph \<Rightarrow> qstar_target \<Rightarrow> nat \<Rightarrow> string \<Rightarrow> scheduler \<Rightarrow> qerr + scheduler" where
  "scheduler_add_target_link_input_edge g t = scheduler_add_target_file_item_edge g t ''link_inputs''"

section \<open>Edges\<close>

definition scheduler_connect_genrule_edges :: "qstar_graph \<Rightarrow> scheduler \<Rightarrow> qerr + scheduler" where
  "scheduler_connect_genrule_edges g = try_fold (\<lambda>k s. case sc_genrule_node s ! k of
      None \<Rightarrow> Inr s
    | Some n \<Rightarrow> (let r = gr_genrules g ! k in
        try_fold (scheduler_add_genrule_item_edge g k n) (str_or_empty (g_tool r) # g_inputs r @ g_args r) s))
     [0..<length (gr_genrules g)]"

definition scheduler_connect_stage_edges :: "qstar_graph \<Rightarrow> scheduler \<Rightarrow> qerr + scheduler" where
  "scheduler_connect_stage_edges g = try_fold (\<lambda>m s. case sc_stage_node s ! m of
      None \<Rightarrow> Inr s
    | Some n \<Rightarrow> try_fold (scheduler_add_stage_source_edge g m n) (st_srcs (gr_stages g ! m)) s)
     [0..<length (gr_stages g)]"

definition scheduler_connect_target_dep_list :: "qstar_graph \<Rightarrow> nat \<Rightarrow> string list \<Rightarrow> scheduler \<Rightarrow> qerr + scheduler" where
  "scheduler_connect_target_dep_list g user = try_fold (\<lambda>dep s.
     if take 1 dep = ''@'' then Inr s else connect_node user (label_node g s dep) s)"

definition connect_genrules_where :: "qstar_graph \<Rightarrow> (qstar_genrule \<Rightarrow> bool) \<Rightarrow> nat \<Rightarrow> scheduler \<Rightarrow> qerr + scheduler" where
  "connect_genrules_where g P user = try_fold (\<lambda>k s.
     if \<not> P (gr_genrules g ! k) then Inr s else connect_node user (sc_genrule_node s ! k) s) [0..<length (gr_genrules g)]"

definition scheduler_connect_consumed_genrules :: "qstar_graph \<Rightarrow> qstar_target \<Rightarrow> nat \<Rightarrow> scheduler \<Rightarrow> qerr + scheduler" where
  "scheduler_connect_consumed_genrules g t = connect_genrules_where g (target_consumes_genrule t)"

definition scheduler_connect_compile_genrules :: "qstar_graph \<Rightarrow> qstar_target \<Rightarrow> nat \<Rightarrow> scheduler \<Rightarrow> qerr + scheduler" where
  "scheduler_connect_compile_genrules g t = connect_genrules_where g (target_compile_consumes_genrule t)"

definition scheduler_connect_run_command_edges :: "qstar_graph \<Rightarrow> qstar_target \<Rightarrow> nat \<Rightarrow> scheduler \<Rightarrow> qerr + scheduler" where
  "scheduler_connect_run_command_edges g t user =
     (if t_kind t \<noteq> ''run_target'' then Inr
      else try_fold (scheduler_add_target_file_item_edge g t ''command'' user) (t_run_command t))"

definition scheduler_connect_run_input_edges :: "qstar_graph \<Rightarrow> qstar_target \<Rightarrow> nat \<Rightarrow> scheduler \<Rightarrow> qerr + scheduler" where
  "scheduler_connect_run_input_edges g t user =
     (if t_kind t \<noteq> ''run_target'' then Inr
      else try_fold (\<lambda>item s. case qstar_stage_dir_token_label (Some item) PATH_MAX of
          BadToken \<Rightarrow> Inl (stage_token_error t)
        | Token label \<Rightarrow> (case stage_index g label of
              None \<Rightarrow> Inl (unknown_stage_error t label)
            | Some m \<Rightarrow> (case sc_stage_node s ! m of
                  None \<Rightarrow> Inl (Origin (t_origin_file t) (t_origin_line t) ''inputs'' (t_label t)
                    (''qstar: stage_dir references unscheduled stage '' @ sq label))
                | Some n \<Rightarrow> scheduler_add_edge n user s))
        | NotToken \<Rightarrow> scheduler_add_target_file_item_edge g t ''inputs'' user item s) (t_run_inputs t))"

definition scheduler_connect_dependency_usage_inputs ::
  "qstar_graph \<Rightarrow> qstar_target \<Rightarrow> bool \<Rightarrow> nat \<Rightarrow> scheduler \<Rightarrow> qerr + scheduler" where
  "scheduler_connect_dependency_usage_inputs g t link user s =
     (case (if link then qstar_graph_collect_link_usage g t else qstar_graph_collect_compile_usage g t) of
        None \<Rightarrow> Inl (Plain ''qstar: out of memory'')
      | Some (options, inputs) \<Rightarrow> try_fold (scheduler_add_target_link_input_edge g t user) inputs s)"

text \<open>The nodes of a target of one kind, and edges from each of one list to each of another.\<close>

definition nodes_of :: "nat \<Rightarrow> (sched_node \<Rightarrow> bool) \<Rightarrow> scheduler \<Rightarrow> nat list" where
  "nodes_of i P s = filter (\<lambda>j. nd_target (node s j) = Some i \<and> P (node s j)) [0..<node_len s]"

definition source_owner :: "qstar_graph \<Rightarrow> sched_node \<Rightarrow> qstar_target" where
  "source_owner g n = gr_targets g ! (case nd_source_owner n of None \<Rightarrow> 0 | Some ob \<Rightarrow> ob)"

definition compile_node :: "sched_node \<Rightarrow> bool" where
  "compile_node n \<longleftrightarrow> nd_kind n = SchedCompile"

definition pch_user :: "qstar_graph \<Rightarrow> sched_node \<Rightarrow> bool" where
  "pch_user g n \<longleftrightarrow> compile_node n \<and> (case qstar_target_source_classify (source_owner g n) (nd_source_index n) of
      None \<Rightarrow> False | Some s \<Rightarrow> si_provider s = ''cxx'')"

definition interface_node :: "qstar_graph \<Rightarrow> sched_node \<Rightarrow> bool" where
  "interface_node g n \<longleftrightarrow> qstar_cxx_source_is_module_interface (source_owner g n) (nd_source_index n)"

definition module_user :: "qstar_graph \<Rightarrow> sched_node \<Rightarrow> sched_node \<Rightarrow> bool" where
  "module_user g dep n \<longleftrightarrow> compile_node n \<and>
     (if interface_node g n then \<not> nd_source_index n < nd_source_index dep
      else qstar_cxx_source_is_implementation (source_owner g n) (nd_source_index n))"

definition connect_compile :: "qstar_graph \<Rightarrow> qstar_target \<Rightarrow> nat \<Rightarrow> nat \<Rightarrow> scheduler \<Rightarrow> qerr + scheduler" where
  "connect_compile g t final j s = (case scheduler_add_edge j final s of Inl e \<Rightarrow> Inl e | Inr s \<Rightarrow>
     (case scheduler_connect_compile_genrules g (source_owner g (node s j)) j s of Inl e \<Rightarrow> Inl e | Inr s \<Rightarrow>
        scheduler_connect_dependency_usage_inputs g t False j s))"

definition connect_pch :: "qstar_graph \<Rightarrow> nat \<Rightarrow> qstar_target \<Rightarrow> nat \<Rightarrow> scheduler \<Rightarrow> qerr + scheduler" where
  "connect_pch g i t j s =
     (case scheduler_add_target_file_item_edge g t ''lang.cxx.precompiled_header'' j (str_or_empty (t_cxx_precompiled_header t)) s of
        Inl e \<Rightarrow> Inl e
      | Inr s \<Rightarrow> (case scheduler_connect_dependency_usage_inputs g t False j s of Inl e \<Rightarrow> Inl e | Inr s \<Rightarrow>
          try_fold (\<lambda>k. scheduler_add_edge j k) (nodes_of i (pch_user g) s) s))"

definition connect_modules :: "qstar_graph \<Rightarrow> nat \<Rightarrow> nat \<Rightarrow> scheduler \<Rightarrow> qerr + scheduler" where
  "connect_modules g i j s =
     try_fold (\<lambda>k. scheduler_add_edge j k) (filter (\<lambda>k. k \<noteq> j) (nodes_of i (module_user g (node s j)) s)) s"

text \<open>The steps of the loop body for one target, in their order.\<close>

definition connect_steps :: "qstar_graph \<Rightarrow> nat \<Rightarrow> nat \<Rightarrow> (scheduler \<Rightarrow> qerr + scheduler) list" where
  "connect_steps g i final = (let t = gr_targets g ! i in
     [scheduler_connect_target_dep_list g final (t_objects t),
      scheduler_connect_target_dep_list g final (t_deps t),
      scheduler_connect_target_dep_list g final (t_private_deps t),
      scheduler_connect_run_command_edges g t final,
      scheduler_connect_run_input_edges g t final] @
     (if passive_kind (t_kind t) \<noteq> None then []
      else [scheduler_connect_consumed_genrules g t final,
            scheduler_connect_dependency_usage_inputs g t True final,
            try_fold (scheduler_add_target_link_input_edge g t final) (t_link_inputs t),
            (\<lambda>s. try_fold (connect_compile g t final) (nodes_of i compile_node s) s),
            (\<lambda>s. try_fold (connect_pch g i t) (nodes_of i (\<lambda>n. nd_kind n = SchedCxxPch) s) s)] @
           (if t_cxx_modules_enabled t
            then [\<lambda>s. try_fold (connect_modules g i) (nodes_of i (\<lambda>n. compile_node n \<and> interface_node g n) s) s] else [])))"

definition scheduler_connect_target_edges :: "qstar_graph \<Rightarrow> scheduler \<Rightarrow> qerr + scheduler" where
  "scheduler_connect_target_edges g s = try_fold (\<lambda>i s. case sc_target_final_node s ! i of
      None \<Rightarrow> Inl (Plain ''qstar: missing target final node'')
    | Some final \<Rightarrow> try_fold (\<lambda>step s. step s) (connect_steps g i final) s) (sc_targets s) s"

definition scheduler_build_nodes :: "build_host \<Rightarrow> qstar_graph \<Rightarrow> scheduler \<Rightarrow> qerr + scheduler" where
  "scheduler_build_nodes h g s =
     (case try_fold (scheduler_create_target_nodes h g) (sc_targets s) s of Inl e \<Rightarrow> Inl e | Inr s \<Rightarrow>
        try_fold (\<lambda>step s. step s) [scheduler_connect_genrule_edges g, scheduler_connect_stage_edges g, scheduler_connect_target_edges g]
          (scheduler_create_stage_nodes g (scheduler_create_genrule_nodes g s)))"

end
