(* ===== verification/QDiscoverProps.thy ===== *)
theory QDiscoverProps
  imports QDiscover
begin

text \<open>
  The discovery of \<open>QDiscover\<close> finds exactly the work the roots demand, directly or through other work, and
  always ends.
\<close>

section \<open>What has been found\<close>

definition marked :: "bool list \<Rightarrow> nat set" where
  "marked bs = {k. k < length bs \<and> bs ! k}"

definition found :: "scheduler \<Rightarrow> work set" where
  "found s = NeedTarget ` set (sc_targets s) \<union> NeedGenrule ` marked (sc_genrule_needed s) \<union>
     NeedStage ` marked (sc_stage_needed s)"

lemma found_iff [simp]:
  "NeedTarget i \<in> found s \<longleftrightarrow> i \<in> set (sc_targets s)"
  "NeedGenrule k \<in> found s \<longleftrightarrow> k \<in> marked (sc_genrule_needed s)"
  "NeedStage m \<in> found s \<longleftrightarrow> m \<in> marked (sc_stage_needed s)"
  by (auto simp: found_def)

lemma marked_update: "k < length bs \<Longrightarrow> marked (bs[k := True]) = insert k (marked bs)"
  by (auto simp: marked_def nth_list_update)

definition in_range :: "qstar_graph \<Rightarrow> work \<Rightarrow> bool" where
  "in_range g w = (case w of
      NeedTarget i \<Rightarrow> i < length (gr_targets g) \<and> target_index g (t_label (gr_targets g ! i)) = Some i \<and> t_label (gr_targets g ! i) \<noteq> []
    | NeedGenrule k \<Rightarrow> k < length (gr_genrules g)
    | NeedStage m \<Rightarrow> m < length (gr_stages g))"

definition maps_fit :: "qstar_graph \<Rightarrow> scheduler \<Rightarrow> bool" where
  "maps_fit g s \<longleftrightarrow> length (sc_target_seen s) = length (gr_targets g) \<and>
     length (sc_genrule_needed s) = length (gr_genrules g) \<and> length (sc_stage_needed s) = length (gr_stages g)"

definition seen_inv :: "qstar_graph \<Rightarrow> scheduler \<Rightarrow> bool" where
  "seen_inv g s \<longleftrightarrow> maps_fit g s \<and> distinct (sc_targets s) \<and> set (sc_targets s) = marked (sc_target_seen s)"

text \<open>Targets are only ever added together with all they depend on.\<close>

definition disc_inv :: "qstar_graph \<Rightarrow> scheduler \<Rightarrow> bool" where
  "disc_inv g s \<longleftrightarrow> seen_inv g s \<and> plan_edges g `` set (sc_targets s) \<subseteq> set (sc_targets s)"

text \<open>What the discovery does not touch.\<close>

definition rest :: "scheduler \<Rightarrow> sched_node list \<times> nat option list \<times> nat option list \<times> nat option list \<times> nat list" where
  "rest s = (sc_nodes s, sc_target_final_node s, sc_genrule_node s, sc_stage_node s, sc_ready s)"

text \<open>Work is never taken back, and \<open>changed\<close> tells whether there is more of it.\<close>

definition grows :: "qstar_graph \<Rightarrow> scheduler \<times> bool \<Rightarrow> scheduler \<times> bool \<Rightarrow> bool" where
  "grows g x y \<longleftrightarrow> disc_inv g (fst y) \<and> (\<exists>zs. sc_targets (fst y) = sc_targets (fst x) @ zs) \<and>
     found (fst x) \<subseteq> found (fst y) \<and> (snd y \<longleftrightarrow> snd x \<or> found (fst x) \<noteq> found (fst y)) \<and>
     (found (fst x) = found (fst y) \<longrightarrow> fst y = fst x) \<and> rest (fst y) = rest (fst x)"

lemma grows_refl: "disc_inv g (fst x) \<Longrightarrow> grows g x x"
  by (simp add: grows_def)

lemma growsD:
  assumes "grows g x y"
  shows "disc_inv g (fst y)" "\<exists>zs. sc_targets (fst y) = sc_targets (fst x) @ zs" "found (fst x) \<subseteq> found (fst y)"
    "snd y \<longleftrightarrow> snd x \<or> found (fst x) \<noteq> found (fst y)" "found (fst x) = found (fst y) \<Longrightarrow> fst y = fst x"
    "rest (fst y) = rest (fst x)" "length (sc_targets (fst x)) \<le> length (sc_targets (fst y))"
proof -
  show "disc_inv g (fst y)" "\<exists>zs. sc_targets (fst y) = sc_targets (fst x) @ zs" "found (fst x) \<subseteq> found (fst y)"
    "snd y \<longleftrightarrow> snd x \<or> found (fst x) \<noteq> found (fst y)" "found (fst x) = found (fst y) \<Longrightarrow> fst y = fst x"
    "rest (fst y) = rest (fst x)"
    using assms unfolding grows_def by blast+
  then show "length (sc_targets (fst x)) \<le> length (sc_targets (fst y))" by (elim exE) simp
qed

lemma growsI:
  assumes "disc_inv g (fst y)" "sc_targets (fst y) = sc_targets (fst x) @ zs" "found (fst x) \<subseteq> found (fst y)"
    "snd y \<longleftrightarrow> snd x \<or> found (fst x) \<noteq> found (fst y)" "found (fst x) = found (fst y) \<Longrightarrow> fst y = fst x"
    "rest (fst y) = rest (fst x)"
  shows "grows g x y"
  unfolding grows_def by (intro conjI exI impI) (rule assms; assumption?)+

lemma grows_trans:
  assumes "grows g x y" "grows g y z"
  shows "grows g x z"
proof -
  note x = growsD [OF assms(1)] and y = growsD [OF assms(2)]
  obtain us vs where u: "sc_targets (fst y) = sc_targets (fst x) @ us" "sc_targets (fst z) = sc_targets (fst y) @ vs"
    using x(2) y(2) by blast
  have t: "sc_targets (fst z) = sc_targets (fst x) @ us @ vs" unfolding u(2) unfolding u(1) by simp
  have eq: "found (fst x) = found (fst z) \<longleftrightarrow> found (fst x) = found (fst y) \<and> found (fst y) = found (fst z)"
    using x(3) y(3) by (metis subset_antisym)
  have same: "fst z = fst x" if "found (fst x) = found (fst z)"
  proof -
    have "found (fst x) = found (fst y)" "found (fst y) = found (fst z)" using that eq by blast+
    from trans [OF y(5) [OF this(2)] x(5) [OF this(1)]] show ?thesis .
  qed
  have "snd z \<longleftrightarrow> snd x \<or> found (fst x) \<noteq> found (fst z)" using x(4) y(4) eq by blast
  from growsI [OF y(1) t order_trans [OF x(3) y(3)] this same trans [OF y(6) x(6)]] show ?thesis .
qed

section \<open>One piece of work\<close>

lemma visit_order_collect: "visit_order scheduler_collect_target k is s = Inr (fold scheduler_add_target is s)"
  by (induction "is" arbitrary: k s) (simp_all add: scheduler_collect_target_def)

lemma add_target:
  assumes "seen_inv g s" "i < length (gr_targets g)"
  shows "seen_inv g (scheduler_add_target i s)" "set (sc_targets (scheduler_add_target i s)) = insert i (set (sc_targets s))"
    "\<exists>zs. sc_targets (scheduler_add_target i s) = sc_targets s @ zs"
    "sc_genrule_needed (scheduler_add_target i s) = sc_genrule_needed s"
    "sc_stage_needed (scheduler_add_target i s) = sc_stage_needed s"
    "i \<in> set (sc_targets s) \<Longrightarrow> scheduler_add_target i s = s" "rest (scheduler_add_target i s) = rest s"
proof -
  have seen: "sc_target_seen s ! i \<longleftrightarrow> i \<in> set (sc_targets s)" and i: "i < length (sc_target_seen s)"
    using assms by (simp_all add: seen_inv_def maps_fit_def marked_def)
  show "i \<in> set (sc_targets s) \<Longrightarrow> scheduler_add_target i s = s" by (simp add: scheduler_add_target_def seen)
  show "set (sc_targets (scheduler_add_target i s)) = insert i (set (sc_targets s))"
    "\<exists>zs. sc_targets (scheduler_add_target i s) = sc_targets s @ zs"
    "sc_genrule_needed (scheduler_add_target i s) = sc_genrule_needed s"
    "sc_stage_needed (scheduler_add_target i s) = sc_stage_needed s" "rest (scheduler_add_target i s) = rest s"
    by (auto simp: scheduler_add_target_def seen rest_def)
  show "seen_inv g (scheduler_add_target i s)"
    using assms(1) i by (simp add: scheduler_add_target_def seen seen_inv_def maps_fit_def marked_update)
qed

lemma add_targets:
  assumes "seen_inv g s" "\<forall>i\<in>set is. i < length (gr_targets g)"
  shows "seen_inv g (fold scheduler_add_target is s)" (is "?A is s")
    "set (sc_targets (fold scheduler_add_target is s)) = set is \<union> set (sc_targets s)" (is "?B is s")
    "\<exists>zs. sc_targets (fold scheduler_add_target is s) = sc_targets s @ zs" (is "?C is s")
    "sc_genrule_needed (fold scheduler_add_target is s) = sc_genrule_needed s" (is "?D is s")
    "sc_stage_needed (fold scheduler_add_target is s) = sc_stage_needed s" (is "?E is s")
    "set is \<subseteq> set (sc_targets s) \<Longrightarrow> fold scheduler_add_target is s = s"
    "rest (fold scheduler_add_target is s) = rest s" (is "?F is s")
proof -
  have "?A is s \<and> ?B is s \<and> ?C is s \<and> ?D is s \<and> ?E is s \<and> ?F is s \<and> (set is \<subseteq> set (sc_targets s) \<longrightarrow> fold scheduler_add_target is s = s)"
    using assms
  proof (induction "is" arbitrary: s)
    case (Cons i "is")
    have i: "i < length (gr_targets g)" and rest: "\<forall>i\<in>set is. i < length (gr_targets g)" using Cons.prems(2) by simp_all
    note a = add_target [OF Cons.prems(1) i]
    then show ?case using Cons.IH [OF a(1) rest] by auto
  qed simp
  then show "?A is s" "?B is s" "?C is s" "?D is s" "?E is s" "?F is s"
    "set is \<subseteq> set (sc_targets s) \<Longrightarrow> fold scheduler_add_target is s = s" by blast+
qed

lemma plan_reach_less:
  "(i, j) \<in> (plan_edges g)\<^sup>* \<Longrightarrow> i < length (gr_targets g) \<Longrightarrow> j < length (gr_targets g)"
  by (induction rule: rtrancl_induct)
    (use key_index_Some [of t_label _ "gr_targets g"] in \<open>auto simp: plan_edges_iff target_index_def\<close>)

lemma closure_less:
  assumes "build_closure g label = Some (Inr order)"
  shows "\<forall>i\<in>set order. i < length (gr_targets g)"
proof -
  have "r < length (gr_targets g)" if "r \<in> closure_roots g label" for r
    using that key_index_Some [of t_label "str_or_empty label" "gr_targets g" r]
    by (auto simp: closure_roots_def target_index_def split: if_splits)
  then show ?thesis using plan_reach_less build_closure_ok(2) [OF assms] by blast
qed

lemma add_closure:
  assumes "disc_inv g s" "scheduler_add_target_closure g label s = Some (Inr s')"
  shows "disc_inv g s'" "found s' = found s \<union> NeedTarget ` ((plan_edges g)\<^sup>* `` closure_roots g label)"
    "\<exists>zs. sc_targets s' = sc_targets s @ zs" "found s' = found s \<Longrightarrow> s' = s" "rest s' = rest s"
proof -
  obtain order where order: "build_closure g label = Some (Inr order)" "s' = fold scheduler_add_target order s"
    using assms(2) unfolding scheduler_add_target_closure_def qstar_graph_visit_closure_def visit_order_collect
    by (cases "build_closure g label") (auto split: sum.splits)
  have "seen_inv g s" using assms(1) by (simp add: disc_inv_def)
  note a = add_targets [OF this closure_less [OF order(1)]]
  show "\<exists>zs. sc_targets s' = sc_targets s @ zs" "rest s' = rest s" using a by (simp_all add: order(2))
  have "plan_edges g `` set order \<subseteq> set order"
    unfolding build_closure_ok(2) [OF order(1)] by (auto intro: rtrancl_into_rtrancl)
  then show "disc_inv g s'" using assms(1) a(1,2) by (auto simp: order(2) disc_inv_def)
  show f: "found s' = found s \<union> NeedTarget ` ((plan_edges g)\<^sup>* `` closure_roots g label)"
    unfolding build_closure_ok(2) [OF order(1), symmetric] by (auto simp: found_def order(2) a)
  show "s' = s" if "found s' = found s"
  proof -
    have "set order \<subseteq> set (sc_targets s)"
    proof
      fix i assume "i \<in> set order"
      then have "NeedTarget i \<in> found s'" by (simp add: order(2) a(2))
      then show "i \<in> set (sc_targets s)" using that by simp
    qed
    then show ?thesis unfolding order(2) by (rule a(6))
  qed
qed

lemma add_closure_total: "scheduler_add_target_closure g label s \<noteq> None"
  using build_closure_total [of g label] by (simp add: scheduler_add_target_closure_def qstar_graph_visit_closure_def)

lemma meet_total: "meet g w x \<noteq> None"
  using add_closure_total by (cases x) (auto simp: meet_def split: work.splits)

text \<open>A set of work closed under \<open>demand\<close> (below) is left by nothing that is met.\<close>

lemma meet_grows:
  assumes "disc_inv g (fst x)" "in_range g w" "meet g w x = Some (Inr y)"
  shows "grows g x y" "w \<in> found (fst y)"
    "found (fst y) \<subseteq> found (fst x) \<union> {w} \<union> (case w of NeedTarget i \<Rightarrow> NeedTarget ` ((plan_edges g)\<^sup>* `` {i}) | _ \<Rightarrow> {})"
proof -
  obtain s ch where x: "x = (s, ch)" by (cases x)
  have "grows g x y \<and> w \<in> found (fst y) \<and> found (fst y) \<subseteq> found (fst x) \<union> {w} \<union>
      (case w of NeedTarget i \<Rightarrow> NeedTarget ` ((plan_edges g)\<^sup>* `` {i}) | _ \<Rightarrow> {})"
  proof (cases w)
    case (NeedTarget i)
    let ?l = "Some (t_label (gr_targets g ! i))"
    have roots: "closure_roots g ?l = {i}" using assms(2) by (simp add: NeedTarget in_range_def closure_roots_def present_def)
    obtain s' where s': "scheduler_add_target_closure g ?l s = Some (Inr s')"
      "y = (s', ch \<or> length (sc_targets s') \<noteq> length (sc_targets s))"
    proof -
      obtain r where r: "scheduler_add_target_closure g ?l s = Some r"
        "map_sum id (\<lambda>s'. (s', ch \<or> length (sc_targets s') \<noteq> length (sc_targets s))) r = Inr y"
        using assms(3) by (auto simp: meet_def x NeedTarget)
      then show ?thesis using that by (cases r) auto
    qed
    note a = add_closure [OF _ s'(1), unfolded roots]
    have inv: "disc_inv g s" using assms(1) by (simp add: x)
    obtain zs where zs: "sc_targets s' = sc_targets s @ zs" using a(3) inv by blast
    have same: "found s' = found s \<longleftrightarrow> length (sc_targets s') = length (sc_targets s)"
    proof
      assume "length (sc_targets s') = length (sc_targets s)"
      then have "sc_targets s' = sc_targets s" using zs by simp
      moreover have "NeedTarget j \<in> found s" if "NeedTarget j \<in> found s'" for j using that calculation by simp
      ultimately show "found s' = found s" using a(2) inv by blast
    qed (use a(4) inv in simp)
    show ?thesis using a inv zs same by (auto simp: grows_def x s'(2) NeedTarget)
  next
    case (NeedGenrule k)
    have k: "k < length (sc_genrule_needed s)" using assms(1,2) by (simp add: x NeedGenrule in_range_def disc_inv_def seen_inv_def maps_fit_def)
    show ?thesis
    proof (cases "sc_genrule_needed s ! k")
      case True
      then show ?thesis using assms(1,3) k by (auto simp: meet_def x NeedGenrule grows_refl) (auto simp: marked_def)
    next
      case False
      then have y: "y = (scheduler_mark_genrule k s, True)" using assms(3) by (simp add: meet_def x NeedGenrule)
      have f: "found (scheduler_mark_genrule k s) = insert (NeedGenrule k) (found s)"
        using k by (auto simp: found_def scheduler_mark_genrule_def marked_update)
      have "NeedGenrule k \<notin> found s" using False by (simp add: marked_def)
      then have "found (scheduler_mark_genrule k s) \<noteq> found s" using f by blast
      moreover have "disc_inv g (scheduler_mark_genrule k s)" "sc_targets (scheduler_mark_genrule k s) = sc_targets s" "rest (scheduler_mark_genrule k s) = rest s"
        using assms(1) by (auto simp: x rest_def scheduler_mark_genrule_def scheduler_mark_stage_def disc_inv_def seen_inv_def maps_fit_def)
      ultimately show ?thesis using f by (simp add: grows_def x y NeedGenrule) blast
    qed
  next
    case (NeedStage m)
    have m: "m < length (sc_stage_needed s)" using assms(1,2) by (simp add: x NeedStage in_range_def disc_inv_def seen_inv_def maps_fit_def)
    show ?thesis
    proof (cases "sc_stage_needed s ! m")
      case True
      then show ?thesis using assms(1,3) m by (auto simp: meet_def x NeedStage grows_refl) (auto simp: marked_def)
    next
      case False
      then have y: "y = (scheduler_mark_stage m s, True)" using assms(3) by (simp add: meet_def x NeedStage)
      have f: "found (scheduler_mark_stage m s) = insert (NeedStage m) (found s)"
        using m by (auto simp: found_def scheduler_mark_stage_def marked_update)
      have "NeedStage m \<notin> found s" using False by (simp add: marked_def)
      then have "found (scheduler_mark_stage m s) \<noteq> found s" using f by blast
      moreover have "disc_inv g (scheduler_mark_stage m s)" "sc_targets (scheduler_mark_stage m s) = sc_targets s" "rest (scheduler_mark_stage m s) = rest s"
        using assms(1) by (auto simp: x rest_def scheduler_mark_genrule_def scheduler_mark_stage_def disc_inv_def seen_inv_def maps_fit_def)
      ultimately show ?thesis using f by (simp add: grows_def x y NeedStage) blast
    qed
  qed
  then show "grows g x y" "w \<in> found (fst y)"
    "found (fst y) \<subseteq> found (fst x) \<union> {w} \<union> (case w of NeedTarget i \<Rightarrow> NeedTarget ` ((plan_edges g)\<^sup>* `` {i}) | _ \<Rightarrow> {})"
    by blast+
qed

section \<open>What is asked for exists\<close>

definition exact :: "qstar_graph \<Rightarrow> (qerr + work) list \<Rightarrow> bool" where
  "exact g ws \<longleftrightarrow> (\<forall>w. Inr w \<in> set ws \<longrightarrow> in_range g w)"

lemma exact_simps [simp]:
  "exact g []" "exact g (Inl e # ws) = exact g ws" "exact g (Inr w # ws) \<longleftrightarrow> in_range g w \<and> exact g ws"
  "exact g (ws @ vs) \<longleftrightarrow> exact g ws \<and> exact g vs"
  "exact g (concat wss) \<longleftrightarrow> (\<forall>ws\<in>set wss. exact g ws)"
  by (auto simp: exact_def)

lemma genrule_in_range: "genrule_index g l = Some k \<Longrightarrow> in_range g (NeedGenrule k)"
  using key_index_Some [of g_label l "gr_genrules g" k] by (simp add: genrule_index_def in_range_def)

lemma exact_label: "label \<noteq> [] \<Longrightarrow> exact g (label_work g label)"
  using key_index_Some [of t_label label "gr_targets g"] genrule_in_range [of g label]
  by (auto simp: label_work_def in_range_def target_index_def split: option.splits)

lemma exact_plain: "exact g (plain_work g self item)"
  using first_index_less [of _ "gr_genrules g"]
  by (auto simp: plain_work_def output_owner_index_def in_range_def split: option.splits)

lemma token_label_nonempty: "qstar_target_file_token_label item n = Token label \<Longrightarrow> label \<noteq> []"
  by (auto simp: qstar_target_file_token_label_def qstar_target_file_token_parse_def Let_def
      split: token.splits option.splits prod.splits if_splits)

lemma exact_file_item: "exact g (scheduler_discover_target_file_item g t field item)"
  by (auto simp: scheduler_discover_target_file_item_def exact_plain exact_label token_label_nonempty split: token.splits)

lemma exact_usage: "exact g (usage_work g t field r)"
  by (auto simp: usage_work_def exact_file_item split: option.splits)

lemma exact_token: "exact g (token_work g t field item)"
  by (auto simp: token_work_def exact_label token_label_nonempty split: token.splits)

lemma stage_in_range: "stage_index g l = Some m \<Longrightarrow> in_range g (NeedStage m)"
  using key_index_Some [of st_label l "gr_stages g" m] by (simp add: stage_index_def in_range_def)

lemma exact_run_inputs: "exact g (scheduler_discover_run_inputs g t)"
  by (auto simp: scheduler_discover_run_inputs_def exact_file_item stage_in_range split: token.splits option.splits)

lemma exact_consumed: "exact g (scheduler_discover_target_genrules g t)"
  by (auto simp: exact_def scheduler_discover_target_genrules_def in_range_def)

lemma exact_dep_genrules: "exact g (scheduler_discover_target_dep_genrules g t)"
  by (auto simp: scheduler_discover_target_dep_genrules_def genrule_in_range split: option.splits)

lemma exact_target_work: "exact g (target_work g i)"
  by (simp add: target_work_def Let_def exact_consumed exact_dep_genrules exact_run_inputs exact_usage exact_token
      scheduler_discover_target_link_inputs_def scheduler_discover_dependency_usage_def scheduler_discover_run_command_inputs_def)

lemma exact_genrule_deps: "exact g (scheduler_discover_genrule_deps g k)"
  by (auto simp: scheduler_discover_genrule_deps_def Let_def exact_plain exact_label token_label_nonempty split: token.splits)

section \<open>Lists of work and rounds\<close>

text \<open>What a piece of work leads to at once.\<close>

definition demand :: "qstar_graph \<Rightarrow> (work \<times> work) set" where
  "demand g = {(NeedTarget i, NeedTarget j) | i j. (i, j) \<in> plan_edges g} \<union>
     {(NeedTarget i, w) | i w. i < length (gr_targets g) \<and> Inr w \<in> set (target_work g i)} \<union>
     {(NeedGenrule k, w) | k w. k < length (gr_genrules g) \<and> Inr w \<in> set (scheduler_discover_genrule_deps g k)}"

lemma demand_plan: "(i, j) \<in> (plan_edges g)\<^sup>* \<Longrightarrow> (NeedTarget i, NeedTarget j) \<in> (demand g)\<^sup>*"
proof (induction rule: rtrancl_induct)
  case (step j k)
  then have "(NeedTarget j, NeedTarget k) \<in> demand g" by (auto simp: demand_def)
  then show ?case by (rule rtrancl_into_rtrancl [OF step.IH])
qed simp

lemma closed_plan:
  assumes "demand g `` R \<subseteq> R" "NeedTarget i \<in> R" "(i, j) \<in> (plan_edges g)\<^sup>*"
  shows "NeedTarget j \<in> R"
  using Image_closed_trancl [OF assms(1)] demand_plan [OF assms(3)] assms(2) by blast

text \<open>\<open>keeps R\<close>: a run that starts inside \<open>R\<close> stays there.\<close>

definition keeps :: "work set \<Rightarrow> scheduler \<times> bool \<Rightarrow> scheduler \<times> bool \<Rightarrow> bool" where
  "keeps R x y \<longleftrightarrow> (found (fst x) \<subseteq> R \<longrightarrow> found (fst y) \<subseteq> R)"

lemma meet_all_ok:
  assumes "disc_inv g (fst x)" "exact g ws" "meet_all g ws x = Some (Inr y)"
  shows "grows g x y" "\<And>w. Inr w \<in> set ws \<Longrightarrow> w \<in> found (fst y)"
    "demand g `` R \<subseteq> R \<Longrightarrow> (\<And>w. Inr w \<in> set ws \<Longrightarrow> w \<in> R) \<Longrightarrow> keeps R x y"
proof -
  have "grows g x y \<and> (\<forall>w. Inr w \<in> set ws \<longrightarrow> w \<in> found (fst y)) \<and>
      (demand g `` R \<subseteq> R \<longrightarrow> (\<forall>w. Inr w \<in> set ws \<longrightarrow> w \<in> R) \<longrightarrow> keeps R x y)"
    using assms
  proof (induction g ws x rule: meet_all.induct)
    case (3 g w ws x)
    from 3(4) obtain z where z: "meet g w x = Some (Inr z)" "meet_all g ws z = Some (Inr y)"
      by (auto split: option.splits sum.splits)
    have w: "in_range g w" "exact g ws" using 3(3) by simp_all
    note m = meet_grows [OF 3(2) w(1) z(1)]
    have inv: "disc_inv g (fst z)" using m(1) by (rule growsD)
    note IH = 3(1) [OF z(1) refl inv w(2) z(2)]
    have "keeps R x y" if R: "demand g `` R \<subseteq> R" "\<forall>v. Inr v \<in> set (Inr w # ws) \<longrightarrow> v \<in> R"
    proof -
      have "found (fst z) \<subseteq> R" if "found (fst x) \<subseteq> R"
      proof (cases w)
        case (NeedTarget i)
        then have "NeedTarget i \<in> R" using R(2) by simp
        then have "NeedTarget ` ((plan_edges g)\<^sup>* `` {i}) \<subseteq> R" using closed_plan [OF R(1)] by blast
        then show ?thesis using m(3) that \<open>NeedTarget i \<in> R\<close> unfolding NeedTarget work.case by blast
      qed (use m(3) that R(2) in auto)
      then show ?thesis using IH R by (auto simp: keeps_def)
    qed
    moreover have "\<forall>v. Inr v \<in> set (Inr w # ws) \<longrightarrow> v \<in> found (fst y)"
      using m(2) IH growsD(3) [of g z y] by auto
    ultimately show ?case using grows_trans [OF m(1)] IH by blast
  qed (simp_all add: grows_refl keeps_def)
  then show "grows g x y" "\<And>w. Inr w \<in> set ws \<Longrightarrow> w \<in> found (fst y)"
    "demand g `` R \<subseteq> R \<Longrightarrow> (\<And>w. Inr w \<in> set ws \<Longrightarrow> w \<in> R) \<Longrightarrow> keeps R x y" by blast+
qed

lemma meet_all_total: "meet_all g ws x \<noteq> None"
proof (induction g ws x rule: meet_all.induct)
  case (3 g w ws x)
  then show ?case using meet_total [of g w x] by (cases "meet g w x") (auto split: sum.splits)
qed simp_all

lemma targets_less: "disc_inv g s \<Longrightarrow> i \<in> set (sc_targets s) \<Longrightarrow> i < length (gr_targets g)"
  by (simp add: disc_inv_def seen_inv_def maps_fit_def marked_def)

lemma grows_unchanged: "grows g x y \<Longrightarrow> \<not> snd y \<Longrightarrow> fst y = fst x \<and> \<not> snd x"
  using growsD(4,5) [of g x y] by blast

lemma meet_targets_ok:
  assumes "disc_inv g (fst x)" "meet_targets g f i x = Some (Inr y)"
  shows "grows g x y" "demand g `` R \<subseteq> R \<Longrightarrow> keeps R x y"
    "\<not> snd y \<Longrightarrow> i \<le> j \<Longrightarrow> j < length (sc_targets (fst y)) \<Longrightarrow> Inr w \<in> set (target_work g (sc_targets (fst y) ! j)) \<Longrightarrow> w \<in> found (fst y)"
proof -
  have "grows g x y \<and> (demand g `` R \<subseteq> R \<longrightarrow> keeps R x y) \<and>
      (\<not> snd y \<longrightarrow> (\<forall>j w. i \<le> j \<longrightarrow> j < length (sc_targets (fst y)) \<longrightarrow> Inr w \<in> set (target_work g (sc_targets (fst y) ! j)) \<longrightarrow> w \<in> found (fst y)))"
    using assms
  proof (induction g f i x rule: meet_targets.induct)
    case (2 g f i x)
    show ?case
    proof (cases "i < length (sc_targets (fst x))")
      case False
      then show ?thesis using 2(2,3) by (auto simp: grows_refl keeps_def)
    next
      case True
      let ?t = "sc_targets (fst x) ! i"
      from 2(3) True obtain z where z: "meet_all g (target_work g ?t) x = Some (Inr z)" "meet_targets g f (i + 1) z = Some (Inr y)"
        by (auto split: option.splits sum.splits)
      note m = meet_all_ok [OF 2(2) exact_target_work z(1)]
      have inv: "disc_inv g (fst z)" using m(1) by (rule growsD)
      have nl: "\<not> length (sc_targets (fst x)) \<le> i" using True by simp
      note IH = 2(1) [OF nl z(1) refl inv z(2)]
      have t: "?t \<in> set (sc_targets (fst x))" "?t < length (gr_targets g)" using True targets_less [OF 2(2)] by simp_all
      have "keeps R x y" if R: "demand g `` R \<subseteq> R"
      proof -
        have "keeps R x z" if "found (fst x) \<subseteq> R"
        proof (rule m(3) [OF R])
          fix w assume "Inr w \<in> set (target_work g ?t)"
          then have "(NeedTarget ?t, w) \<in> demand g" using t(2) by (auto simp: demand_def)
          moreover have "NeedTarget ?t \<in> R" using that t(1) by auto
          ultimately show "w \<in> R" using R by blast
        qed
        then show ?thesis using IH R by (auto simp: keeps_def)
      qed
      moreover have "w \<in> found (fst y)" if "\<not> snd y" "i \<le> j" "j < length (sc_targets (fst y))" "Inr w \<in> set (target_work g (sc_targets (fst y) ! j))" for j w
      proof (cases "j = i")
        case True
        have "fst z = fst x" "fst y = fst z" using grows_unchanged [of g z y] grows_unchanged [OF m(1)] IH that(1) by blast+
        then show ?thesis using m(2) [of w] that(4) True by simp
      next
        case False
        then have "i + 1 \<le> j" using that(2) by simp
        then show ?thesis using IH that by blast
      qed
      ultimately show ?thesis using grows_trans [OF m(1)] IH by blast
    qed
  qed simp
  then show "grows g x y" "demand g `` R \<subseteq> R \<Longrightarrow> keeps R x y"
    "\<not> snd y \<Longrightarrow> i \<le> j \<Longrightarrow> j < length (sc_targets (fst y)) \<Longrightarrow> Inr w \<in> set (target_work g (sc_targets (fst y) ! j)) \<Longrightarrow> w \<in> found (fst y)"
    by blast+
qed

lemma targets_count: "disc_inv g s \<Longrightarrow> length (sc_targets s) \<le> length (gr_targets g)"
proof -
  assume "disc_inv g s"
  then have "distinct (sc_targets s)" "set (sc_targets s) \<subseteq> {..<length (gr_targets g)}"
    using targets_less by (auto simp: disc_inv_def seen_inv_def)
  then show ?thesis by (metis card_lessThan card_mono distinct_card finite_lessThan)
qed

lemma meet_targets_total:
  "disc_inv g (fst x) \<Longrightarrow> length (gr_targets g) < f + i \<Longrightarrow> i \<le> length (sc_targets (fst x)) \<Longrightarrow> meet_targets g f i x \<noteq> None"
proof (induction g f i x rule: meet_targets.induct)
  case (1 g i x)
  then show ?case using targets_count [of g "fst x"] by simp
next
  case (2 g f i x)
  let ?m = "meet_all g (target_work g (sc_targets (fst x) ! i)) x"
  show ?case
  proof (cases "i < length (sc_targets (fst x)) \<and> (\<exists>y. ?m = Some (Inr y))")
    case True
    then obtain y where y: "?m = Some (Inr y)" by blast
    have g: "grows g x y" by (rule meet_all_ok(1) [OF 2(2) exact_target_work y])
    have "\<not> length (sc_targets (fst x)) \<le> i" using True by simp
    from 2(1) [OF this y refl] show ?thesis
      using growsD(1,7) [OF g] 2(3) True y by simp
  next
    case False
    then show ?thesis using meet_all_total [of g "target_work g (sc_targets (fst x) ! i)" x]
      by (auto split: option.splits sum.splits)
  qed
qed

lemma meet_genrules_ok:
  assumes "disc_inv g (fst x)" "meet_genrules g ks x = Some (Inr y)"
  shows "grows g x y" "demand g `` R \<subseteq> R \<Longrightarrow> \<forall>k\<in>set ks. k < length (gr_genrules g) \<Longrightarrow> keeps R x y"
    "\<not> snd y \<Longrightarrow> k \<in> set ks \<Longrightarrow> sc_genrule_needed (fst y) ! k \<Longrightarrow> Inr w \<in> set (scheduler_discover_genrule_deps g k) \<Longrightarrow> w \<in> found (fst y)"
proof -
  have "grows g x y \<and> (demand g `` R \<subseteq> R \<longrightarrow> (\<forall>k\<in>set ks. k < length (gr_genrules g)) \<longrightarrow> keeps R x y) \<and>
      (\<not> snd y \<longrightarrow> (\<forall>k w. k \<in> set ks \<longrightarrow> sc_genrule_needed (fst y) ! k \<longrightarrow> Inr w \<in> set (scheduler_discover_genrule_deps g k) \<longrightarrow> w \<in> found (fst y)))"
    using assms
  proof (induction g ks x rule: meet_genrules.induct)
    case (1 g x)
    then show ?case by (simp add: grows_refl keeps_def)
  next
    case (2 g k ks x)
    show ?case
    proof (cases "sc_genrule_needed (fst x) ! k")
      case False
      then have eq: "meet_genrules g ks x = Some (Inr y)" using 2(4) by simp
      note IH = 2(1) [OF False 2(3) eq]
      have "\<not> sc_genrule_needed (fst y) ! k" if "\<not> snd y" using grows_unchanged [of g x y] IH that False by simp
      then show ?thesis using IH by auto
    next
      case True
      then have nl: "\<not> \<not> sc_genrule_needed (fst x) ! k" by simp
      from 2(4) True obtain z where z: "meet_all g (scheduler_discover_genrule_deps g k) x = Some (Inr z)" "meet_genrules g ks z = Some (Inr y)"
        by (auto split: option.splits sum.splits)
      note m = meet_all_ok [OF 2(3) exact_genrule_deps z(1)]
      note IH = 2(2) [OF nl z(1) refl growsD(1) [OF m(1)] z(2)]
      have "keeps R x y" if R: "demand g `` R \<subseteq> R" "\<forall>k\<in>set (k # ks). k < length (gr_genrules g)"
      proof -
        have "keeps R x z" if "found (fst x) \<subseteq> R"
        proof (rule m(3) [OF R(1)])
          fix w assume "Inr w \<in> set (scheduler_discover_genrule_deps g k)"
          then have "(NeedGenrule k, w) \<in> demand g" using R(2) by (auto simp: demand_def)
          moreover have "k \<in> marked (sc_genrule_needed (fst x))"
            using True R(2) 2(3) by (simp add: marked_def disc_inv_def seen_inv_def maps_fit_def)
          then have "NeedGenrule k \<in> R" using that by auto
          ultimately show "w \<in> R" using R(1) by blast
        qed
        then show ?thesis using IH R by (auto simp: keeps_def)
      qed
      moreover have "w \<in> found (fst y)" if "\<not> snd y" "Inr w \<in> set (scheduler_discover_genrule_deps g k)" for w
        using growsD(3) [of g z y] m(2) that(2) IH by blast
      ultimately show ?thesis using grows_trans [OF m(1)] IH by auto
    qed
  qed
  then show "grows g x y" "demand g `` R \<subseteq> R \<Longrightarrow> \<forall>k\<in>set ks. k < length (gr_genrules g) \<Longrightarrow> keeps R x y"
    "\<not> snd y \<Longrightarrow> k \<in> set ks \<Longrightarrow> sc_genrule_needed (fst y) ! k \<Longrightarrow> Inr w \<in> set (scheduler_discover_genrule_deps g k) \<Longrightarrow> w \<in> found (fst y)"
    by blast+
qed

lemma meet_genrules_total: "meet_genrules g ks x \<noteq> None"
proof (induction g ks x rule: meet_genrules.induct)
  case (2 g k ks x)
  then show ?case using meet_all_total [of g "scheduler_discover_genrule_deps g k" x]
    by (cases "meet_all g (scheduler_discover_genrule_deps g k) x") (auto split: sum.splits)
qed simp

lemma round_ok:
  assumes "disc_inv g s" "discover_round g s = Some (Inr (s', ch))"
  shows "grows g (s, False) (s', ch)" "demand g `` R \<subseteq> R \<Longrightarrow> found s \<subseteq> R \<Longrightarrow> found s' \<subseteq> R"
    "\<not> ch \<Longrightarrow> demand g `` found s' \<subseteq> found s'"
proof -
  from assms(2) obtain z where z: "meet_targets g (length (gr_targets g) + 1) 0 (s, False) = Some (Inr z)"
    "meet_genrules g [0..<length (gr_genrules g)] z = Some (Inr (s', ch))"
    by (auto simp: discover_round_def split: option.splits sum.splits)
  have inv: "disc_inv g (fst (s, False))" using assms(1) by simp
  note t = meet_targets_ok [OF inv z(1)]
  note r = meet_genrules_ok [OF growsD(1) [OF t(1)] z(2)]
  show "grows g (s, False) (s', ch)" by (rule grows_trans [OF t(1) r(1)])
  show "found s' \<subseteq> R" if "demand g `` R \<subseteq> R" "found s \<subseteq> R"
    using t(2) [OF that(1)] r(2) [OF that(1)] that(2) by (simp add: keeps_def)
  have inv': "disc_inv g s'" using growsD(1) [OF r(1)] by simp
  show "demand g `` found s' \<subseteq> found s'" if ch: "\<not> ch"
  proof
    fix w assume "w \<in> demand g `` found s'"
    then obtain v where v: "v \<in> found s'" "(v, w) \<in> demand g" by blast
    have same: "fst z = s'" "\<not> snd z" using grows_unchanged [OF r(1)] ch by simp_all
    from v(2) consider (plan) i j where "v = NeedTarget i" "w = NeedTarget j" "(i, j) \<in> plan_edges g"
      | (target) i where "v = NeedTarget i" "Inr w \<in> set (target_work g i)"
      | (rule) k where "v = NeedGenrule k" "k < length (gr_genrules g)" "Inr w \<in> set (scheduler_discover_genrule_deps g k)"
      by (auto simp: demand_def)
    then show "w \<in> found s'"
    proof cases
      case plan
      then show ?thesis using v(1) inv' by (auto simp: disc_inv_def)
    next
      case target
      then obtain j where j: "j < length (sc_targets s')" "i = sc_targets s' ! j"
        using v(1) by (auto simp: in_set_conv_nth)
      show ?thesis using t(3) [of j w] target(2) j by (simp add: same)
    next
      case rule
      then have "sc_genrule_needed s' ! k" using v(1) by (simp add: marked_def)
      then show ?thesis using r(3) [of k w] rule ch by simp
    qed
  qed
qed

lemma round_total:
  assumes "disc_inv g s"
  shows "discover_round g s \<noteq> None"
proof -
  have "meet_targets g (length (gr_targets g) + 1) 0 (s, False) \<noteq> None"
    by (rule meet_targets_total) (use assms in simp_all)
  then show ?thesis using meet_genrules_total unfolding discover_round_def by (auto split: sum.splits simp del: meet_targets.simps)
qed

lemma rounds_ok:
  "disc_inv g s \<Longrightarrow> discover_rounds g f s = Some (Inr s') \<Longrightarrow>
    disc_inv g s' \<and> rest s' = rest s \<and> found s \<subseteq> found s' \<and> demand g `` found s' \<subseteq> found s' \<and>
    (demand g `` R \<subseteq> R \<longrightarrow> found s \<subseteq> R \<longrightarrow> found s' \<subseteq> R)"
proof (induction g f s rule: discover_rounds.induct)
  case (2 g f s)
  from 2(3) obtain t ch where t: "discover_round g s = Some (Inr (t, ch))"
    "(if ch then discover_rounds g f t else Some (Inr t)) = Some (Inr s')"
    by (auto split: option.splits sum.splits prod.splits)
  note r = round_ok [OF 2(2) t(1)]
  have inv: "disc_inv g t" "found s \<subseteq> found t" "rest t = rest s" using growsD(1,3,6) [OF r(1)] by simp_all
  show ?case
  proof (cases ch)
    case True
    then have "discover_rounds g f t = Some (Inr s')" using t(2) by simp
    note IH = 2(1) [OF t(1) refl refl True inv(1) this]
    then show ?thesis using r(2) inv(2,3) by (metis order_trans)
  next
    case False
    then show ?thesis using t(2) r inv by auto
  qed
qed simp

lemma found_bound: "disc_inv g s \<Longrightarrow> finite (found s) \<and> card (found s) \<le> length (gr_targets g) + length (gr_genrules g) + length (gr_stages g)"
proof -
  assume inv: "disc_inv g s"
  let ?all = "NeedTarget ` {..<length (gr_targets g)} \<union> (NeedGenrule ` {..<length (gr_genrules g)} \<union> NeedStage ` {..<length (gr_stages g)})"
  have "found s \<subseteq> ?all"
    using inv targets_less [OF inv] by (auto simp: found_def marked_def disc_inv_def seen_inv_def maps_fit_def)
  moreover have "card ?all \<le> length (gr_targets g) + (length (gr_genrules g) + length (gr_stages g))"
    by (intro order_trans [OF card_Un_le] add_mono) (simp_all add: card_image_le [THEN order_trans])
  ultimately show ?thesis using card_mono [of ?all "found s"] finite_subset [of "found s" ?all] by simp
qed

lemma rounds_total:
  "disc_inv g s \<Longrightarrow> length (gr_targets g) + length (gr_genrules g) + length (gr_stages g) < f + card (found s) \<Longrightarrow>
   discover_rounds g f s \<noteq> None"
proof (induction g f s rule: discover_rounds.induct)
  case (1 g s)
  then show ?case using found_bound [of g s] by simp
next
  case (2 g f s)
  show ?case
  proof (cases "\<exists>t. discover_round g s = Some (Inr (t, True))")
    case True
    then obtain t where t: "discover_round g s = Some (Inr (t, True))" by blast
    note r = growsD [OF round_ok(1) [OF 2(2) t]]
    have "found s \<subset> found t" "disc_inv g t" using r by auto
    then have "card (found s) < card (found t)" using found_bound psubset_card_mono by blast
    then show ?thesis using 2(1) [OF t refl refl TrueI \<open>disc_inv g t\<close>] 2(3) t by simp
  next
    case False
    then show ?thesis using round_total [OF 2(2)] by (auto split: option.splits sum.splits prod.splits)
  qed
qed

section \<open>Properties\<close>

definition work_roots :: "qstar_graph \<Rightarrow> cstr \<Rightarrow> work set" where
  "work_roots g label = (case (if present label then genrule_index g (str_or_empty label) else None) of
      Some k \<Rightarrow> {NeedGenrule k} | None \<Rightarrow> NeedTarget ` closure_roots g label)"

lemma marked_replicate [simp]: "marked (replicate n False) = {}"
  by (auto simp: marked_def)

lemma init_inv: "disc_inv g (scheduler_init g)" "found (scheduler_init g) = {}"
  by (simp_all add: scheduler_init_def disc_inv_def seen_inv_def maps_fit_def found_def)

lemma discover_start:
  assumes "scheduler_discover g label (scheduler_init g) = r"
  obtains (failed) e where "r = Some (Inl e)"
  | (started) t where "disc_inv g t" "rest t = rest (scheduler_init g)" "r = discover_rounds g (discover_fuel g) t"
      "work_roots g label \<subseteq> found t" "found t \<subseteq> (demand g)\<^sup>* `` work_roots g label"
proof (cases "if present label then genrule_index g (str_or_empty label) else None")
  case (Some k)
  have x: "disc_inv g (fst (scheduler_init g, False))" using init_inv by simp
  have k: "in_range g (NeedGenrule k)" using Some genrule_in_range by (auto split: if_splits)
  then have "\<not> sc_genrule_needed (scheduler_init g) ! k" by (simp add: scheduler_init_def in_range_def)
  then have m: "meet g (NeedGenrule k) (scheduler_init g, False) = Some (Inr (scheduler_mark_genrule k (scheduler_init g), True))"
    by (simp add: meet_def)
  note mg = meet_grows [OF x k m]
  show ?thesis
    by (rule started [of "scheduler_mark_genrule k (scheduler_init g)"])
      (use growsD [OF mg(1)] mg(2,3) init_inv(2) assms Some in \<open>auto simp: scheduler_discover_def work_roots_def\<close>)
next
  case None
  then have r: "work_roots g label = NeedTarget ` closure_roots g label" by (simp add: work_roots_def)
  obtain z where z: "scheduler_add_target_closure g label (scheduler_init g) = Some z"
    using add_closure_total by fastforce
  show ?thesis
  proof (cases z)
    case (Inl e)
    then have "r = Some (Inl e)" using assms None z by (simp add: scheduler_discover_def)
    then show ?thesis by (rule failed)
  next
    case (Inr t)
    note a = add_closure [OF init_inv(1) z [unfolded Inr]]
    have f: "found t = NeedTarget ` ((plan_edges g)\<^sup>* `` closure_roots g label)" using a(2) init_inv(2) by simp
    have "work_roots g label \<subseteq> found t" unfolding f r by auto
    moreover have "found t \<subseteq> (demand g)\<^sup>* `` work_roots g label"
      unfolding f r using demand_plan [of _ _ g] by blast
    ultimately show ?thesis
      by (intro started [of t]) (use a assms None z Inr in \<open>auto simp: scheduler_discover_def\<close>)
  qed
qed

lemma discover_found:
  assumes "scheduler_discover g label (scheduler_init g) = Some (Inr s)"
  shows "found s = (demand g)\<^sup>* `` work_roots g label" "distinct (sc_targets s)"
proof -
  obtain t where t: "disc_inv g t" "discover_rounds g (discover_fuel g) t = Some (Inr s)"
    "work_roots g label \<subseteq> found t" "found t \<subseteq> (demand g)\<^sup>* `` work_roots g label"
    using discover_start [OF assms] by (metis Inl_Inr_False option.inject)
  have "demand g `` ((demand g)\<^sup>* `` work_roots g label) \<subseteq> (demand g)\<^sup>* `` work_roots g label"
    by (auto intro: rtrancl_into_rtrancl)
  note r = rounds_ok [OF t(1,2), of "(demand g)\<^sup>* `` work_roots g label"]
  have "(demand g)\<^sup>* `` found s = found s" by (rule Image_closed_trancl) (use r in blast)
  then have "(demand g)\<^sup>* `` work_roots g label \<subseteq> found s" using r t(3) by blast
  then show "found s = (demand g)\<^sup>* `` work_roots g label" using r t(4) \<open>demand g `` _ \<subseteq> _\<close> by blast
  show "distinct (sc_targets s)" using r by (simp add: disc_inv_def seen_inv_def)
qed

lemma discover_total: "scheduler_discover g label (scheduler_init g) \<noteq> None"
proof (cases rule: discover_start [OF refl, of g label])
  case (2 t)
  have "discover_rounds g (discover_fuel g) t \<noteq> None"
    by (rule rounds_total [OF 2(1)]) (simp add: discover_fuel_def)
  then show ?thesis unfolding 2(3) .
qed simp

text \<open>
  the discovery finds exactly the targets, generated actions and stages that the requested label needs:
  those it names and whatever these demand through dependencies, generated inputs, tokens and usage.
\<close>

theorem discovery_exact:
  assumes "scheduler_discover g label (scheduler_init g) = Some (Inr s)"
  shows "found s = (demand g)\<^sup>* `` work_roots g label" "distinct (sc_targets s)"
  by (rule discover_found [OF assms])+

text \<open>the discovery ends, on cyclic and on malformed graphs too.\<close>

theorem discovery_returns: "scheduler_discover g label (scheduler_init g) \<noteq> None"
  by (rule discover_total)

text \<open>A program with a generated source, next to a generated action nobody asks for.\<close>

definition demo_sched_graph :: qstar_graph where
  "demo_sched_graph = zero_qstar_graph\<lparr>
     gr_targets := [zero_qstar_target\<lparr>t_label := ''//:p'', t_kind := ''executable'', t_sources := [''gen.c'']\<rparr>],
     gr_genrules := [zero_qstar_genrule\<lparr>g_label := ''//:other'', g_outputs := [''o.c'']\<rparr>,
       zero_qstar_genrule\<lparr>g_label := ''//:gen'', g_tool := Some ''cc'', g_outputs := [''gen.c'']\<rparr>]\<rparr>"

lemma discovery_exact_witness: "{NeedTarget 0, NeedGenrule 1} = (demand demo_sched_graph)\<^sup>* `` work_roots demo_sched_graph (Some ''//:p'')"
proof -
  define r where "r = scheduler_discover demo_sched_graph (Some ''//:p'') (scheduler_init demo_sched_graph)"
  have "(case r of Some (Inr s) \<Rightarrow> sc_targets s = [0] \<and> sc_genrule_needed s = [False, True] \<and> sc_stage_needed s = [] | _ \<Rightarrow> False)"
    unfolding r_def by code_simp
  then obtain s where s: "r = Some (Inr s)" "sc_targets s = [0]" "sc_genrule_needed s = [False, True]" "sc_stage_needed s = []"
    by (auto split: option.splits sum.splits)
  have "found s = {NeedTarget 0, NeedGenrule 1}"
    by (auto simp: found_def marked_def s less_Suc_eq)
  then show ?thesis using discovery_exact(1) [OF s(1) [unfolded r_def]] by simp
qed

end
