(* ===== verification/QExecute.thy ===== *)
theory QExecute
  imports QScheduler "HOL-Library.While_Combinator"
begin

text \<open>
  The execution of the action graph (\<open>scheduler_execute\<close> of \<open>executor.c\<close>): the ready queue, the slots of running
  processes and the loop that starts, polls and completes nodes until all are done, an action fails or
  nothing can go on. What an action does, and when its process ends, is the environment of the loop. The
  lemmas show that a node only begins when everything it waits for is complete, that no more than the
  given number of processes run, and that the loop stops with every node done when the graph is acyclic
  and no action fails.
\<close>

section \<open>The environment\<close>

text \<open>
  What the loop sees of a running process in one pass: still running, its output or status cannot be read,
  past its time limit (and terminated), or ended.
\<close>

datatype poll = StillRunning | Unreadable qerr | TimedOut qerr | Exited

text \<open>
  The operations on actions, on a world \<open>'w\<close> of files, processes and build records. \<open>act_start\<close> gives \<open>True\<close>
  when a process runs and \<open>False\<close> when the action was skipped after all; \<open>act_wait\<close> gives \<open>False\<close> when
  waiting for child output fails.
\<close>

record 'w actions =
  act_jobs :: int
  act_local_cache :: bool
  act_config_header :: "nat \<Rightarrow> bool"
  act_generate :: "nat \<Rightarrow> 'w \<Rightarrow> check \<times> 'w"
  act_stage :: "nat \<Rightarrow> 'w \<Rightarrow> check \<times> 'w"
  act_run_command :: "nat \<Rightarrow> 'w \<Rightarrow> check \<times> 'w"
  act_prepare :: "nat \<Rightarrow> 'w \<Rightarrow> check \<times> 'w"
  act_cache_audit :: "nat \<Rightarrow> 'w \<Rightarrow> check \<times> 'w"
  act_cache_hit :: "nat \<Rightarrow> 'w \<Rightarrow> bool"
  act_skip :: "nat \<Rightarrow> 'w \<Rightarrow> check \<times> 'w"
  act_cache_restore :: "nat \<Rightarrow> 'w \<Rightarrow> (qerr + bool) \<times> 'w"
  act_start :: "nat \<Rightarrow> nat \<Rightarrow> 'w \<Rightarrow> (qerr + bool) \<times> 'w"
  act_poll :: "nat \<Rightarrow> nat \<Rightarrow> 'w \<Rightarrow> poll \<times> 'w"
  act_finish :: "nat \<Rightarrow> nat \<Rightarrow> 'w \<Rightarrow> check \<times> 'w"
  act_wait :: "nat option list \<Rightarrow> 'w \<Rightarrow> bool \<times> 'w"
  act_flush :: "'w \<Rightarrow> check \<times> 'w"
  act_cancel :: "nat option list \<Rightarrow> 'w \<Rightarrow> 'w"

section \<open>The state of the loop\<close>

text \<open>The lines of the trace that say that a node begins (runs, is skipped, gets a slot) or is complete.\<close>

datatype event = Begun nat | Completed nat

text \<open>Where the loop is: its head, the ready queue, slot \<open>k\<close>, the end of the body, or behind it.\<close>

datatype phase = LoopHead | Dispatch | Polling nat | Settle | Stopped check

text \<open>\<open>ex_slots\<close>: the node of each slot whose process is not reaped.\<close>

record 'w exec =
  ex_sched :: scheduler
  ex_slots :: "nat option list"
  ex_completed :: nat
  ex_active :: nat
  ex_progressed :: bool
  ex_world :: 'w
  ex_log :: "event list"
  ex_phase :: phase

definition exec_jobs :: "'w actions \<Rightarrow> nat" where
  "exec_jobs a = (if act_jobs a > 1 then nat (act_jobs a) else 1)"

text \<open>Nodes that wait for nothing fill the queue in their order.\<close>

definition push_sources :: "nat list \<Rightarrow> scheduler \<Rightarrow> scheduler" where
  "push_sources is s = fold (\<lambda>i s. if nd_remaining (node s i) = 0 then scheduler_ready_push i s else s) is s"

definition exec_start :: "'w actions \<Rightarrow> scheduler \<Rightarrow> 'w \<Rightarrow> 'w exec" where
  "exec_start a s w =
     \<lparr>ex_sched = push_sources [0..<node_len s] s, ex_slots = replicate (exec_jobs a) None, ex_completed = 0,
      ex_active = 0, ex_progressed = False, ex_world = w, ex_log = [], ex_phase = LoopHead\<rparr>"

fun find_free_slot :: "nat option list \<Rightarrow> nat" where
  "find_free_slot [] = 0"
| "find_free_slot (None # ss) = 0"
| "find_free_slot (Some i # ss) = Suc (find_free_slot ss)"

definition exec_fail :: "'w actions \<Rightarrow> qerr \<Rightarrow> 'w exec \<Rightarrow> 'w exec" where
  "exec_fail a e x = x\<lparr>ex_phase := Stopped (Inl e),
     ex_world := (if ex_active x > 0 then act_cancel a (ex_slots x) (ex_world x) else ex_world x)\<rparr>"

definition exec_log :: "event \<Rightarrow> 'w exec \<Rightarrow> 'w exec" where
  "exec_log v x = x\<lparr>ex_log := ex_log x @ [v]\<rparr>"

definition exec_complete :: "nat \<Rightarrow> 'w exec \<Rightarrow> 'w exec" where
  "exec_complete i x = exec_log (Completed i) (x\<lparr>ex_sched := scheduler_complete_node i (ex_sched x),
     ex_completed := ex_completed x + 1, ex_progressed := True\<rparr>)"

section \<open>Taking a node from the queue\<close>

definition scheduler_node_is_process_action :: "'w actions \<Rightarrow> sched_node \<Rightarrow> bool" where
  "scheduler_node_is_process_action a n = (case nd_kind n of
      SchedCompile \<Rightarrow> True | SchedCxxPch \<Rightarrow> True | SchedFinal \<Rightarrow> True
    | SchedGenerate \<Rightarrow> (case nd_genrule n of None \<Rightarrow> False | Some r \<Rightarrow> \<not> act_config_header a r)
    | SchedRun \<Rightarrow> True
    | _ \<Rightarrow> False)"

definition scheduler_run_sync_node :: "'w actions \<Rightarrow> nat \<Rightarrow> 'w exec \<Rightarrow> check \<times> 'w" where
  "scheduler_run_sync_node a i x = (let w = ex_world x in case nd_kind (node (ex_sched x) i) of
      SchedGroup \<Rightarrow> (Inr (), w)
    | SchedMetadata \<Rightarrow> (Inr (), w)
    | SchedObjectlib \<Rightarrow> (Inr (), w)
    | SchedGenerate \<Rightarrow> act_generate a i w
    | SchedStage \<Rightarrow> act_stage a i w
    | SchedRun \<Rightarrow> act_run_command a i w
    | _ \<Rightarrow> (Inl (Plain ''qstar: invalid sync scheduler node''), w))"

definition scheduler_prepare_process_node :: "'w actions \<Rightarrow> nat \<Rightarrow> 'w exec \<Rightarrow> check \<times> 'w" where
  "scheduler_prepare_process_node a i x = (case nd_kind (node (ex_sched x) i) of
      SchedCxxPch \<Rightarrow> act_prepare a i (ex_world x)
    | SchedCompile \<Rightarrow> act_prepare a i (ex_world x)
    | SchedFinal \<Rightarrow> act_prepare a i (ex_world x)
    | SchedGenerate \<Rightarrow> act_prepare a i (ex_world x)
    | SchedRun \<Rightarrow> act_prepare a i (ex_world x)
    | _ \<Rightarrow> (Inl (Plain ''qstar: scheduler node is not a process action''), ex_world x))"

text \<open>A fallible operation on the world: its error ends the loop.\<close>

definition try_act :: "'w actions \<Rightarrow> (qerr + 'r) \<times> 'w \<Rightarrow> ('r \<Rightarrow> 'w exec \<Rightarrow> 'w exec) \<Rightarrow> 'w exec \<Rightarrow> 'w exec" where
  "try_act a r k x = (case fst r of
      Inl e \<Rightarrow> exec_fail a e (x\<lparr>ex_world := snd r\<rparr>)
    | Inr v \<Rightarrow> k v (x\<lparr>ex_world := snd r\<rparr>))"

definition exec_sync :: "'w actions \<Rightarrow> nat \<Rightarrow> 'w exec \<Rightarrow> 'w exec" where
  "exec_sync a i x = (let x = exec_log (Begun i) x in
     try_act a (scheduler_run_sync_node a i x) (\<lambda>_. exec_complete i) x)"

definition exec_skip :: "'w actions \<Rightarrow> nat \<Rightarrow> 'w exec \<Rightarrow> 'w exec" where
  "exec_skip a i x = (let x = exec_log (Begun i) x in
     try_act a (act_skip a i (ex_world x)) (\<lambda>_. exec_complete i) x)"

definition exec_state :: "nat \<Rightarrow> sched_state \<Rightarrow> 'w exec \<Rightarrow> 'w exec" where
  "exec_state i st x = x\<lparr>ex_sched := edit_node i (\<lambda>n. n\<lparr>nd_state := st\<rparr>) (ex_sched x)\<rparr>"

definition exec_launch :: "'w actions \<Rightarrow> nat \<Rightarrow> 'w exec \<Rightarrow> 'w exec" where
  "exec_launch a i x =
     (if ex_active x \<ge> exec_jobs a
      then x\<lparr>ex_sched := scheduler_ready_push i (ex_sched x), ex_phase := Polling 0\<rparr>
      else let slot = find_free_slot (ex_slots x)
           in if slot \<ge> exec_jobs a then exec_fail a (Plain ''qstar: no free scheduler slot'') x
              else let x = exec_log (Begun i) x
                   in try_act a (act_start a i slot (ex_world x))
                        (\<lambda>running x.
                           if running
                           then exec_state i SchedRunning (x\<lparr>ex_slots := (ex_slots x)[slot := Some i],
                                  ex_active := ex_active x + 1, ex_progressed := True\<rparr>)
                           else exec_complete i (exec_state i SchedDone x)) x)"

definition exec_process :: "'w actions \<Rightarrow> nat \<Rightarrow> 'w exec \<Rightarrow> 'w exec" where
  "exec_process a i x =
     try_act a (scheduler_prepare_process_node a i x) (\<lambda>_ x.
       try_act a (if act_local_cache a then act_cache_audit a i (ex_world x) else (Inr (), ex_world x)) (\<lambda>_ x.
         if act_cache_hit a i (ex_world x) then exec_skip a i x
         else try_act a (act_cache_restore a i (ex_world x)) (\<lambda>restored x.
                if restored then exec_skip a i x else exec_launch a i x) x) x) x"

definition exec_dispatch :: "'w actions \<Rightarrow> 'w exec \<Rightarrow> 'w exec" where
  "exec_dispatch a x = (case scheduler_ready_pop (ex_sched x) of
      None \<Rightarrow> x\<lparr>ex_phase := Polling 0\<rparr>
    | Some (i, s) \<Rightarrow>
        (let x = x\<lparr>ex_sched := s\<rparr>
         in if nd_state (node s i) \<noteq> SchedReady then x
            else if \<not> scheduler_node_is_process_action a (node s i) then exec_sync a i x
            else exec_process a i x))"

section \<open>Polling and the loop\<close>

definition exec_poll :: "'w actions \<Rightarrow> nat \<Rightarrow> 'w exec \<Rightarrow> 'w exec" where
  "exec_poll a k x =
     (if k \<ge> exec_jobs a then x\<lparr>ex_phase := Settle\<rparr>
      else case ex_slots x ! k of
          None \<Rightarrow> x\<lparr>ex_phase := Polling (k + 1)\<rparr>
        | Some i \<Rightarrow> (case act_poll a i k (ex_world x) of
              (StillRunning, w) \<Rightarrow> x\<lparr>ex_world := w, ex_phase := Polling (k + 1)\<rparr>
            | (Unreadable e, w) \<Rightarrow> exec_fail a e (x\<lparr>ex_world := w\<rparr>)
            | (TimedOut e, w) \<Rightarrow> exec_fail a e (x\<lparr>ex_world := w, ex_slots := (ex_slots x)[k := None]\<rparr>)
            | (Exited, w) \<Rightarrow>
                try_act a (act_finish a i k w)
                  (\<lambda>_ x. exec_complete i x\<lparr>ex_phase := Settle\<rparr>)
                  (x\<lparr>ex_slots := (ex_slots x)[k := None], ex_active := ex_active x - 1\<rparr>)))"

definition exec_settle :: "'w actions \<Rightarrow> 'w exec \<Rightarrow> 'w exec" where
  "exec_settle a x =
     (if ex_progressed x then x\<lparr>ex_phase := LoopHead\<rparr>
      else if ex_active x = 0 \<and> scheduler_ready_count (ex_sched x) = 0 \<and> ex_completed x < node_len (ex_sched x)
      then exec_fail a (Plain ''qstar: scheduler stalled with pending actions'') x
      else case act_wait a (ex_slots x) (ex_world x) of (ok, w) \<Rightarrow>
        if ok then x\<lparr>ex_world := w, ex_phase := LoopHead\<rparr>
        else exec_fail a (Plain ''qstar: could not wait for child output'') (x\<lparr>ex_world := w\<rparr>))"

definition exec_head :: "'w actions \<Rightarrow> 'w exec \<Rightarrow> 'w exec" where
  "exec_head a x =
     (if ex_completed x < node_len (ex_sched x) then x\<lparr>ex_progressed := False, ex_phase := Dispatch\<rparr>
      else case act_flush a (ex_world x) of (r, w) \<Rightarrow> x\<lparr>ex_world := w, ex_phase := Stopped r\<rparr>)"

definition exec_step :: "'w actions \<Rightarrow> 'w exec \<Rightarrow> 'w exec" where
  "exec_step a x = (case ex_phase x of
      LoopHead \<Rightarrow> exec_head a x
    | Dispatch \<Rightarrow> exec_dispatch a x
    | Polling k \<Rightarrow> exec_poll a k x
    | Settle \<Rightarrow> exec_settle a x
    | Stopped r \<Rightarrow> x)"

definition exec_going :: "'w exec \<Rightarrow> bool" where
  "exec_going x = (case ex_phase x of Stopped r \<Rightarrow> False | _ \<Rightarrow> True)"

text \<open>\<open>None\<close>: the loop does not end.\<close>

definition scheduler_execute :: "'w actions \<Rightarrow> scheduler \<Rightarrow> 'w \<Rightarrow> 'w exec option" where
  "scheduler_execute a s w = while_option exec_going (exec_step a) (exec_start a s w)"

section \<open>The slots\<close>

definition occupied :: "nat option list \<Rightarrow> nat option list" where
  "occupied slots = filter (\<lambda>v. v \<noteq> None) slots"

lemma free_slot: "find_free_slot xs < length xs \<Longrightarrow> xs ! find_free_slot xs = None"
  by (induction xs rule: find_free_slot.induct) simp_all

lemma no_free_slot: "find_free_slot xs \<ge> length xs \<Longrightarrow> length (occupied xs) = length xs"
  by (induction xs rule: find_free_slot.induct) (auto simp: occupied_def)

lemma slot_split:
  assumes "k < length xs"
  obtains ys zs where "xs = ys @ xs ! k # zs" "\<And>v. xs[k := v] = ys @ v # zs"
  using id_take_nth_drop [OF assms] upd_conv_take_nth_drop [OF assms] that by metis

lemma occupy:
  assumes "k < length xs" "xs ! k = None"
  shows "length (occupied (xs[k := Some i])) = Suc (length (occupied xs))"
    "Some -` set (xs[k := Some i]) = insert i (Some -` set xs)"
    "Some i \<notin> set xs \<Longrightarrow> distinct (occupied xs) \<Longrightarrow> distinct (occupied (xs[k := Some i]))"
proof -
  obtain ys zs where xs: "xs = ys @ None # zs" and u: "xs[k := Some i] = ys @ Some i # zs"
    using slot_split [OF assms(1)] assms(2) by metis
  show "length (occupied (xs[k := Some i])) = Suc (length (occupied xs))" unfolding u by (simp add: xs occupied_def)
  show "Some -` set (xs[k := Some i]) = insert i (Some -` set xs)" unfolding u by (auto simp: xs)
  show "distinct (occupied (xs[k := Some i]))" if "Some i \<notin> set xs" "distinct (occupied xs)"
    unfolding u using that by (auto simp: xs occupied_def)
qed

lemma vacate:
  assumes "k < length xs" "xs ! k = Some i" "distinct (occupied xs)"
  shows "length (occupied (xs[k := None])) = length (occupied xs) - 1"
    "Some -` set (xs[k := None]) = Some -` set xs - {i}" "distinct (occupied (xs[k := None]))"
    "length (occupied xs) > 0"
proof -
  obtain ys zs where xs: "xs = ys @ Some i # zs" and u: "xs[k := None] = ys @ None # zs"
    using slot_split [OF assms(1)] assms(2) by metis
  show "length (occupied (xs[k := None])) = length (occupied xs) - 1" "length (occupied xs) > 0"
    unfolding u by (simp_all add: xs occupied_def)
  show "distinct (occupied (xs[k := None]))"
    unfolding u using assms(3) by (simp add: xs occupied_def)
  have "Some i \<notin> set ys \<union> set zs" using assms(3) by (auto simp: xs occupied_def)
  then show "Some -` set (xs[k := None]) = Some -` set xs - {i}" unfolding u by (auto simp: xs)
qed

section \<open>The invariant of the loop\<close>

text \<open>What may be logged after \<open>log\<close>: no line twice, a node after all it waits for, its completion later.\<close>

definition follows :: "(nat \<Rightarrow> nat list) \<Rightarrow> event list \<Rightarrow> event \<Rightarrow> bool" where
  "follows deps log v \<longleftrightarrow> v \<notin> set log \<and> (case v of
      Begun i \<Rightarrow> \<forall>d\<in>set (deps i). Completed d \<in> set log
    | Completed i \<Rightarrow> Begun i \<in> set log)"

inductive valid_log :: "(nat \<Rightarrow> nat list) \<Rightarrow> event list \<Rightarrow> bool" for deps :: "nat \<Rightarrow> nat list" where
  valid_nil: "valid_log deps []"
| valid_snoc: "valid_log deps log \<Longrightarrow> follows deps log v \<Longrightarrow> valid_log deps (log @ [v])"

lemma valid_log_distinct: "valid_log deps log \<Longrightarrow> distinct log"
  by (induction rule: valid_log.induct) (auto simp: follows_def)

lemma valid_log_nth: "valid_log deps log \<Longrightarrow> k < length log \<Longrightarrow> follows deps (take k log) (log ! k)"
  by (induction rule: valid_log.induct) (auto simp: nth_append less_Suc_eq)

text \<open>
  The state of the nodes, the slots, the counters and the log agree. \<open>P\<close>: taken from the queue; \<open>B\<close>: logged as
  begun only; \<open>R\<close>: reaped, but still marked as running.
\<close>

definition core :: "'w actions \<Rightarrow> scheduler \<Rightarrow> nat set \<Rightarrow> nat set \<Rightarrow> nat set \<Rightarrow> 'w exec \<Rightarrow> bool" where
  "core a s0 P B R x \<longleftrightarrow> same_edges s0 (ex_sched x) \<and> sched_inv P {} (ex_sched x) \<and>
     length (ex_slots x) = exec_jobs a \<and> Some -` set (ex_slots x) = in_state (ex_sched x) SchedRunning - R \<and>
     distinct (occupied (ex_slots x)) \<and> ex_active x = length (occupied (ex_slots x)) \<and>
     ex_completed x = card (in_state (ex_sched x) SchedDone) \<and>
     Completed -` set (ex_log x) = in_state (ex_sched x) SchedDone \<and>
     Begun -` set (ex_log x) = in_state (ex_sched x) SchedDone \<union> in_state (ex_sched x) SchedRunning \<union> B"

definition logged :: "scheduler \<Rightarrow> 'w exec \<Rightarrow> bool" where
  "logged s0 x \<longleftrightarrow> valid_log (\<lambda>i. nd_deps (node s0 i)) (ex_log x)"

text \<open>After an error only the log is of interest.\<close>

definition exec_inv :: "'w actions \<Rightarrow> scheduler \<Rightarrow> 'w exec \<Rightarrow> bool" where
  "exec_inv a s0 x \<longleftrightarrow> logged s0 x \<and> (case ex_phase x of
      Stopped (Inl e) \<Rightarrow> True
    | Stopped (Inr _) \<Rightarrow> core a s0 {} {} {} x \<and> ex_completed x \<ge> node_len s0
    | _ \<Rightarrow> core a s0 {} {} {} x)"

lemma exec_core_simps [simp]:
  "core a s0 P B R (x\<lparr>ex_world := w\<rparr>) = core a s0 P B R x"
  "core a s0 P B R (x\<lparr>ex_phase := ph\<rparr>) = core a s0 P B R x"
  "core a s0 P B R (x\<lparr>ex_progressed := b\<rparr>) = core a s0 P B R x"
  "logged s0 (x\<lparr>ex_world := w\<rparr>) = logged s0 x"
  "logged s0 (x\<lparr>ex_phase := ph\<rparr>) = logged s0 x"
  "logged s0 (x\<lparr>ex_progressed := b\<rparr>) = logged s0 x"
  "logged s0 (x\<lparr>ex_sched := s\<rparr>) = logged s0 x"
  "logged s0 (x\<lparr>ex_slots := sl\<rparr>) = logged s0 x"
  "logged s0 (x\<lparr>ex_active := n\<rparr>) = logged s0 x"
  "logged s0 (x\<lparr>ex_completed := n\<rparr>) = logged s0 x"
  by (simp_all add: core_def logged_def)

lemma inv_going: "exec_going x \<Longrightarrow> exec_inv a s0 x \<longleftrightarrow> logged s0 x \<and> core a s0 {} {} {} x"
  by (auto simp: exec_inv_def exec_going_def split: phase.splits)

lemma inv_fail: "logged s0 x \<Longrightarrow> exec_inv a s0 (exec_fail a e x)"
  by (simp add: exec_inv_def exec_fail_def logged_def)

lemma inv_try:
  assumes "logged s0 x" "\<And>v w. fst r = Inr v \<Longrightarrow> exec_inv a s0 (k v (x\<lparr>ex_world := w\<rparr>))"
  shows "exec_inv a s0 (try_act a r k x)"
  using assms by (auto simp: try_act_def inv_fail split: sum.splits)

section \<open>Every step keeps the invariant\<close>

lemma log_sets [simp]:
  "Begun -` set (log @ [Begun i]) = insert i (Begun -` set log)"
  "Begun -` set (log @ [Completed i]) = Begun -` set log"
  "Completed -` set (log @ [Begun i]) = Completed -` set log"
  "Completed -` set (log @ [Completed i]) = insert i (Completed -` set log)"
  by auto

lemma core_log:
  assumes "core a s0 P B R x"
  shows "Completed i \<in> set (ex_log x) \<longleftrightarrow> i \<in> in_state (ex_sched x) SchedDone"
    "Begun i \<in> set (ex_log x) \<longleftrightarrow> i \<in> in_state (ex_sched x) SchedDone \<union> in_state (ex_sched x) SchedRunning \<union> B"
    "Some i \<in> set (ex_slots x) \<longleftrightarrow> i \<in> in_state (ex_sched x) SchedRunning - R"
  using assms unfolding core_def by (metis vimageI vimageD)+

lemma core_begin:
  assumes "core a s0 {i} {} {} x" "logged s0 x" "i < node_len (ex_sched x)" "nd_state (node (ex_sched x) i) = SchedReady"
  shows "core a s0 {i} {i} {} (exec_log (Begun i) x)" "logged s0 (exec_log (Begun i) x)"
proof -
  show "core a s0 {i} {i} {} (exec_log (Begun i) x)"
    using assms(1) by (simp add: core_def exec_log_def del: set_append)
  have s: "sched_inv {i} {} (ex_sched x)" 
    using assms(1) by (simp add: core_def)
  have "undone (ex_sched x) i = 0" "set (nd_deps (node (ex_sched x) i)) \<subseteq> {..<node_len (ex_sched x)}"
    using s assms(3,4) edges_agreeD(4) by (simp_all add: sched_inv_def)
  then have "Completed d \<in> set (ex_log x)" if "d \<in> set (nd_deps (node (ex_sched x) i))" for d
    using that by (auto simp: undone_0 in_state_def core_log [OF assms(1)])
  moreover have "Begun i \<notin> set (ex_log x)" using assms(4) by (simp add: core_log [OF assms(1)] in_state_def)
  moreover have "nd_deps (node s0 i) = nd_deps (node (ex_sched x) i)" using assms(1) by (simp add: core_def same_edges_def)
  ultimately have "follows (\<lambda>i. nd_deps (node s0 i)) (ex_log x) (Begun i)" by (simp add: follows_def)
  then show "logged s0 (exec_log (Begun i) x)" using assms(2) by (auto simp: logged_def exec_log_def intro: valid_snoc)
qed

lemma core_complete:
  assumes "core a s0 P B R x" "logged s0 x" "i < node_len (ex_sched x)"
    and "(P, B, R) = ({i}, {i}, {}) \<and> nd_state (node (ex_sched x) i) = SchedReady \<or>
         (P, B, R) = ({}, {}, {i}) \<and> nd_state (node (ex_sched x) i) = SchedRunning"
  shows "core a s0 {} {} {} (exec_complete i x)" "logged s0 (exec_complete i x)"
proof -
  let ?s = "scheduler_complete_node i (ex_sched x)"
  have e: "edges_agree (ex_sched x)" using assms(1) by (simp add: core_def sched_inv_def)
  note st = complete_states [OF e assms(3)]
  have new: "i \<notin> in_state (ex_sched x) SchedDone" using assms(4) by (auto simp: in_state_def)
  have fin: "finite (in_state (ex_sched x) SchedDone)" by (simp add: in_state_def)
  have begun: "Begun i \<in> set (ex_log x)" using assms(3,4) by (auto simp: core_log [OF assms(1)] in_state_def)
  have "sched_inv {} {} ?s"
    using assms(1,3,4) by (intro complete_inv [where P = P]) (auto simp: core_def)
  moreover have "same_edges s0 ?s"
    using assms(1) same_edges_complete [OF assms(3) e] by (auto simp: core_def intro: same_edges_trans)
  moreover have run: "i \<in> in_state (ex_sched x) SchedRunning \<longleftrightarrow> R = {i}" "R = {} \<or> R = {i}" "B = {i} - R"
    using assms(3,4) by (auto simp: in_state_def)
  then have "Some -` set (ex_slots x) = in_state ?s SchedRunning"
    using assms(1) unfolding st by (auto simp: core_def)
  moreover have "Begun -` set (ex_log x) = in_state ?s SchedDone \<union> in_state ?s SchedRunning"
    using assms(1) run unfolding st by (auto simp: core_def)
  ultimately show "core a s0 {} {} {} (exec_complete i x)"
    using assms(1) new fin by (simp add: core_def exec_complete_def exec_log_def st del: set_append)
  have "follows (\<lambda>i. nd_deps (node s0 i)) (ex_log x) (Completed i)"
    using begun new by (simp add: follows_def core_log [OF assms(1)])
  then show "logged s0 (exec_complete i x)"
    using assms(2) by (auto simp: logged_def exec_complete_def exec_log_def intro: valid_snoc)
qed

lemma complete_phase [simp]: "ex_phase (exec_complete i x) = ex_phase x"
  by (simp add: exec_complete_def exec_log_def)

lemma phase_going: "ex_phase x \<in> {LoopHead, Dispatch, Settle} \<union> range Polling \<Longrightarrow> exec_going x"
  by (auto simp: exec_going_def)

lemma core_popped:
  assumes "core a s0 {i} {} {} x" "logged s0 x" "i < node_len (ex_sched x)"
    "nd_state (node (ex_sched x) i) = SchedReady" "ex_phase x = Dispatch"
  shows sync_inv: "exec_inv a s0 (exec_sync a i x)" and skip_inv: "exec_inv a s0 (exec_skip a i x)"
proof -
  note b = core_begin [OF assms(1-4)]
  have "exec_inv a s0 (exec_complete i ((exec_log (Begun i) x)\<lparr>ex_world := w\<rparr>))" for w
    by (subst inv_going, rule phase_going)
      (use assms(3-5) b in \<open>auto intro!: core_complete [where P = "{i}" and B = "{i}" and R = "{}"] simp: exec_log_def\<close>)
  then show "exec_inv a s0 (exec_sync a i x)" "exec_inv a s0 (exec_skip a i x)"
    unfolding exec_sync_def exec_skip_def Let_def by (auto intro!: inv_try b(2))
qed

lemma launch_inv:
  assumes c: "core a s0 {i} {} {} x" and l: "logged s0 x" and i: "i < node_len (ex_sched x)"
    "nd_state (node (ex_sched x) i) = SchedReady" and d: "ex_phase x = Dispatch"
  shows "exec_inv a s0 (exec_launch a i x)"
proof -
  let ?s = "ex_sched x" and ?slot = "find_free_slot (ex_slots x)" and ?x = "exec_log (Begun i) x"
  note b = core_begin [OF c l i]
  have len: "length (ex_slots x) = exec_jobs a" using c by (simp add: core_def)
  have "core a s0 {} {} {} (x\<lparr>ex_sched := scheduler_ready_push i ?s\<rparr>)"
  proof -
    have "in_state (scheduler_ready_push i ?s) st = in_state ?s st" for st
      using i by (auto simp: in_state_def)
    moreover have "same_edges s0 (scheduler_ready_push i ?s)"
      using c i by (auto simp: core_def intro: same_edges_trans)
    ultimately show ?thesis using c i push_back_inv [of i ?s] by (simp add: core_def)
  qed
  then have full: "exec_inv a s0 (x\<lparr>ex_sched := scheduler_ready_push i ?s, ex_phase := Polling 0\<rparr>)"
    using l by (subst inv_going) (auto simp: exec_going_def)
  have run: "exec_inv a s0 (exec_state i SchedRunning (?x\<lparr>ex_world := w, ex_slots := (ex_slots x)[?slot := Some i],
      ex_active := ex_active x + 1, ex_progressed := True\<rparr>))" (is "exec_inv a s0 ?y") if slot: "?slot < exec_jobs a" for w
  proof -
    let ?t = "edit_node i (\<lambda>n. n\<lparr>nd_state := SchedRunning\<rparr>) ?s"
    have st: "in_state ?t SchedDone = in_state ?s SchedDone" "in_state ?t SchedRunning = insert i (in_state ?s SchedRunning)"
      using i by (auto simp: in_state_def)
    have "same_edges s0 ?t" using c i by (auto simp: core_def intro: same_edges_trans)
    moreover have "Some i \<notin> set (ex_slots x)" using i by (simp add: core_log [OF c] in_state_def)
    moreover have "ex_slots x ! ?slot = None" by (rule free_slot) (simp add: len slot)
    ultimately have "core a s0 {} {} {} ?y"
      using b(1) i run_inv [of i ?s] slot st len
      by (simp add: core_def exec_log_def exec_state_def occupy del: set_append)
    moreover have "logged s0 ?y" using b(2) by (simp add: exec_state_def logged_def exec_log_def)
    ultimately show ?thesis using d by (subst inv_going) (auto simp: exec_going_def exec_state_def exec_log_def)
  qed
  have marked: "exec_complete i (exec_state i SchedDone y) = exec_complete i y" if "i < node_len (ex_sched y)" for y
    using that by (simp add: exec_complete_def exec_state_def exec_log_def complete_marked)
  have "exec_inv a s0 (exec_complete i (exec_state i SchedDone (?x\<lparr>ex_world := w\<rparr>)))" for w
  proof (subst marked)
    show "exec_inv a s0 (exec_complete i (?x\<lparr>ex_world := w\<rparr>))"
      by (subst inv_going, rule phase_going)
        (use i d b in \<open>auto intro!: core_complete [where P = "{i}" and B = "{i}" and R = "{}"] simp: exec_log_def\<close>)
  qed (use i in \<open>simp add: exec_log_def\<close>)
  then show ?thesis
    using full run inv_fail [OF l] unfolding exec_launch_def Let_def
    by (auto intro!: inv_try b(2) [unfolded exec_log_def] simp: exec_log_def not_le split: if_splits)
qed

lemma process_inv:
  assumes c: "core a s0 {i} {} {} x" and l: "logged s0 x" and i: "i < node_len (ex_sched x)"
    "nd_state (node (ex_sched x) i) = SchedReady" and d: "ex_phase x = Dispatch"
  shows "exec_inv a s0 (exec_process a i x)"
  unfolding exec_process_def
  by (auto intro!: inv_try skip_inv launch_inv simp: assms)

lemma dispatch_inv:
  assumes "exec_inv a s0 x" "ex_phase x = Dispatch"
  shows "exec_inv a s0 (exec_dispatch a x)"
proof -
  have x: "logged s0 x" "core a s0 {} {} {} x" using assms by (simp_all add: exec_inv_def)
  show ?thesis
  proof (cases "scheduler_ready_pop (ex_sched x)")
    case None
    then show ?thesis using x by (simp add: exec_dispatch_def exec_inv_def)
  next
    case (Some p)
    then obtain i s where pop: "scheduler_ready_pop (ex_sched x) = Some (i, s)" by (cases p) auto
    have inv: "sched_inv {} {} (ex_sched x)" using x(2) by (simp add: core_def)
    note n = pop_inv [OF inv pop]
    have "in_state s st = in_state (ex_sched x) st" for st by (simp add: in_state_def n)
    then have "core a s0 {i} {} {} (x\<lparr>ex_sched := s\<rparr>)"
      using x(2) n by (simp add: core_def same_edges_def)
    then show ?thesis
      using x(1) n assms(2) by (auto simp: exec_dispatch_def pop Let_def intro!: sync_inv process_inv)
  qed
qed

lemma poll_inv:
  assumes "exec_inv a s0 x" "ex_phase x = Polling k"
  shows "exec_inv a s0 (exec_poll a k x)"
proof (cases "k < exec_jobs a \<and> ex_slots x ! k \<noteq> None")
  case False
  then show ?thesis using assms by (auto simp: exec_poll_def exec_inv_def)
next
  case True
  have x: "logged s0 x" "core a s0 {} {} {} x" using assms by (simp_all add: exec_inv_def)
  obtain i where i: "k < length (ex_slots x)" "ex_slots x ! k = Some i" "distinct (occupied (ex_slots x))"
    using True x(2) by (auto simp: core_def)
  then have run: "i \<in> in_state (ex_sched x) SchedRunning" using core_log(3) [OF x(2), of i] nth_mem by force
  note v = vacate [OF i]
  let ?x = "\<lambda>w. x\<lparr>ex_slots := (ex_slots x)[k := None], ex_active := ex_active x - 1, ex_world := w\<rparr>"
  have "core a s0 {} {} {i} (?x w)" for w
    using x(2) run v by (auto simp: core_def)
  then have "exec_inv a s0 ((exec_complete i (?x w))\<lparr>ex_phase := Settle\<rparr>)" for w
    using x(1) run by (subst inv_going)
      (auto simp: exec_going_def in_state_def intro!: core_complete [where P = "{}" and B = "{}" and R = "{i}"])
  then show ?thesis
    using True i x by (auto simp: exec_poll_def exec_inv_def [of a s0 "x\<lparr>ex_world := w, ex_phase := p\<rparr>" for w p]
        intro!: inv_try inv_fail split: prod.splits poll.splits)
qed

lemma settle_inv: "exec_inv a s0 x \<Longrightarrow> ex_phase x = Settle \<Longrightarrow> exec_inv a s0 (exec_settle a x)"
  by (auto simp: exec_settle_def exec_inv_def [of a s0 x] intro!: inv_fail split: prod.splits)
    (auto simp: exec_inv_def)

lemma head_inv: "exec_inv a s0 x \<Longrightarrow> ex_phase x = LoopHead \<Longrightarrow> exec_inv a s0 (exec_head a x)"
  by (auto simp: exec_head_def exec_inv_def core_def same_edges_def split: prod.splits sum.splits)

lemma step_inv: "exec_inv a s0 x \<Longrightarrow> exec_inv a s0 (exec_step a x)"
  by (auto simp: exec_step_def dispatch_inv poll_inv settle_inv head_inv split: phase.splits)

section \<open>The states of a run\<close>

definition well_formed :: "scheduler \<Rightarrow> bool" where
  "well_formed s \<longleftrightarrow> edges_agree s \<and> unstarted s"

lemma push_sources_node:
  assumes "unstarted s" "m \<le> node_len s"
  shows "node (push_sources [0..<m] s) i =
      (if i < m \<and> nd_deps (node s i) = [] then (node s i)\<lparr>nd_state := SchedReady\<rparr> else node s i)"
    "node_len (push_sources [0..<m] s) = node_len s"
    "sc_ready (push_sources [0..<m] s) = filter (\<lambda>i. nd_deps (node s i) = []) [0..<m]"
  using assms(2)
proof (induction m arbitrary: i)
  case 0
  { case 1 then show ?case by (simp add: push_sources_def) }
  { case 2 then show ?case by (simp add: push_sources_def) }
  { case 3 then show ?case using assms(1) by (simp add: push_sources_def unstarted_def) }
next
  case (Suc m)
  let ?s = "push_sources [0..<m] s"
  have m: "m \<le> node_len s" "m < node_len s" if "Suc m \<le> node_len s" using that by simp_all
  have step: "push_sources [0..<Suc m] s = (if nd_remaining (node ?s m) = 0 then scheduler_ready_push m ?s else ?s)"
    by (simp add: push_sources_def)
  have rem: "nd_remaining (node ?s m) = 0 \<longleftrightarrow> nd_deps (node s m) = []" if "m < node_len s"
    using that assms(1) Suc.IH(1) [of m] by (simp add: unstarted_def)
  note IH = Suc.IH [OF m(1)]
  { case 1 then show ?case unfolding step using IH m(2) rem by (auto simp: less_Suc_eq) }
  { case 2 then show ?case unfolding step using IH by simp }
  { case 3 then show ?case unfolding step using IH m(2) rem by simp }
qed

lemma start_inv:
  assumes "well_formed s"
  shows "exec_inv a s (exec_start a s w)"
proof -
  have u: "unstarted s" and e: "edges_agree s" using assms by (simp_all add: well_formed_def)
  let ?s = "push_sources [0..<node_len s] s"
  note n = push_sources_node [OF u order_refl]
  have st: "in_state ?s SchedReady = {i. i < node_len s \<and> nd_deps (node s i) = []}"
    "in_state ?s SchedPending = {i. i < node_len s \<and> nd_deps (node s i) \<noteq> []}"
    "in_state ?s SchedDone = {}" "in_state ?s SchedRunning = {}"
    using u by (auto simp: in_state_def n unstarted_def)
  have "same_edges s ?s" by (simp add: same_edges_def n)
  moreover have "sched_inv {} {} ?s"
  proof -
    have "undone ?s i = length (nd_deps (node s i))" if "i < node_len s" for i
    proof -
      have "nd_state (node ?s d) \<noteq> SchedDone" if "d \<in> set (nd_deps (node s i))" for d
        using edges_agreeD(4) [OF e \<open>i < node_len s\<close>] that u by (auto simp: n unstarted_def)
      then show ?thesis by (simp add: undone_def n)
    qed
    then have "counters_agree {} ?s" "\<forall>i<node_len ?s. nd_state (node ?s i) \<noteq> SchedPending \<longrightarrow> undone ?s i = 0"
      using u by (auto simp: counters_agree_def st n(1,2) unstarted_def split: if_splits)
    moreover have "edges_agree ?s" using same_edges_agree [OF \<open>same_edges s ?s\<close>] e by simp
    ultimately show ?thesis by (auto simp: sched_inv_def n(3) st)
  qed
  ultimately have "core a s {} {} {} (exec_start a s w)"
    by (auto simp: core_def exec_start_def st occupied_def)
  then show ?thesis by (simp add: exec_inv_def logged_def exec_start_def valid_nil)
qed

inductive_set exec_states :: "'w actions \<Rightarrow> scheduler \<Rightarrow> 'w \<Rightarrow> 'w exec set"
  for a :: "'w actions" and s :: scheduler and w :: 'w where
  states_start: "exec_start a s w \<in> exec_states a s w"
| states_step: "x \<in> exec_states a s w \<Longrightarrow> exec_step a x \<in> exec_states a s w"

lemma states_inv: "x \<in> exec_states a s w \<Longrightarrow> well_formed s \<Longrightarrow> exec_inv a s x"
  by (induction rule: exec_states.induct) (simp_all add: start_inv step_inv)

lemma execute_states:
  assumes "scheduler_execute a s w = Some x"
  shows "x \<in> exec_states a s w" "\<not> exec_going x"
proof -
  show "x \<in> exec_states a s w"
    by (rule while_option_rule [OF _ assms [unfolded scheduler_execute_def]]) (auto intro: exec_states.intros)
  show "\<not> exec_going x"
    using while_option_stop [OF assms [unfolded scheduler_execute_def]] .
qed

section \<open>Order, bounds and success\<close>

lemma log_order:
  assumes "exec_inv a s x" "k < length (ex_log x)"
  shows "case ex_log x ! k of
      Begun i \<Rightarrow> \<forall>d\<in>set (nd_deps (node s i)). Completed d \<in> set (take k (ex_log x))
    | Completed i \<Rightarrow> Begun i \<in> set (take k (ex_log x))"
  using valid_log_nth [of _ "ex_log x" k] assms by (auto simp: exec_inv_def logged_def follows_def split: event.splits)

lemma running_bound:
  assumes "core a s0 {} {} {} x"
  shows "card (in_state (ex_sched x) SchedRunning) \<le> exec_jobs a"
proof -
  have "Some ` in_state (ex_sched x) SchedRunning \<subseteq> set (ex_slots x)"
    using core_log(3) [OF assms] by auto
  then have "card (Some ` in_state (ex_sched x) SchedRunning) \<le> length (ex_slots x)"
    by (meson List.finite_set card_length card_mono order_trans)
  then show ?thesis using assms by (simp add: card_image core_def)
qed

lemma completed_all:
  assumes "core a s {} {} {} x" "node_len s \<le> ex_completed x"
  shows "in_state (ex_sched x) SchedDone = {..<node_len s}"
proof -
  have "in_state (ex_sched x) SchedDone \<subseteq> {..<node_len s}"
    using assms(1) by (auto simp: in_state_def core_def same_edges_def)
  then show ?thesis using assms by (intro card_subset_eq) (auto simp: core_def intro: le_antisym dest: card_mono [rotated])
qed

end
