(* ===== verification/QExecuteProps.thy ===== *)
theory QExecuteProps
  imports QExecute
begin

text \<open>
  Termination and success of the loop of \<open>QExecute\<close>, and the properties of the execution of an action graph.
\<close>

section \<open>The loop ends\<close>

text \<open>
  A measure of the time the processes may still take: no operation adds to it and each pass that finds a
  process running uses some of it up, as the clock and the time limits see to.
\<close>

definition patient :: "'w actions \<Rightarrow> ('w \<Rightarrow> nat) \<Rightarrow> bool" where
  "patient a p \<longleftrightarrow>
     (\<forall>i w. p (snd (act_generate a i w)) \<le> p w \<and> p (snd (act_stage a i w)) \<le> p w \<and>
        p (snd (act_run_command a i w)) \<le> p w \<and> p (snd (act_prepare a i w)) \<le> p w \<and>
        p (snd (act_cache_audit a i w)) \<le> p w \<and> p (snd (act_skip a i w)) \<le> p w \<and>
        p (snd (act_cache_restore a i w)) \<le> p w) \<and>
     (\<forall>i k w. p (snd (act_start a i k w)) \<le> p w \<and> p (snd (act_finish a i k w)) \<le> p w \<and>
        p (snd (act_poll a i k w)) \<le> p w \<and>
        (fst (act_poll a i k w) = StillRunning \<longrightarrow> p (snd (act_poll a i k w)) < p w)) \<and>
     (\<forall>sl w. p (snd (act_wait a sl w)) \<le> p w)"

lemma patientD:
  assumes "patient a p"
  shows "p (snd (act_generate a i w)) \<le> p w" "p (snd (act_stage a i w)) \<le> p w" "p (snd (act_run_command a i w)) \<le> p w"
    "p (snd (act_prepare a i w)) \<le> p w" "p (snd (act_cache_audit a i w)) \<le> p w" "p (snd (act_skip a i w)) \<le> p w"
    "p (snd (act_cache_restore a i w)) \<le> p w" "p (snd (act_start a i k w)) \<le> p w" "p (snd (act_finish a i k w)) \<le> p w"
    "p (snd (act_poll a i k w)) \<le> p w" "p (snd (act_wait a sl w)) \<le> p w"
    "fst (act_poll a i k w) = StillRunning \<Longrightarrow> p (snd (act_poll a i k w)) < p w"
  using assms unfolding patient_def by blast+

definition halts :: "'w actions \<Rightarrow> 'w exec \<Rightarrow> bool" where
  "halts a x \<longleftrightarrow> (\<exists>m. \<not> exec_going ((exec_step a ^^ m) x))"

lemma halts_stopped: "\<not> exec_going x \<Longrightarrow> halts a x"
  unfolding halts_def by (rule exI [of _ 0]) simp

lemma halts_step: "halts a (exec_step a x) \<Longrightarrow> halts a x"
  unfolding halts_def by (metis funpow_Suc_right o_apply)

lemma halts_execute: "halts a (exec_start a s w) \<Longrightarrow> \<exists>x. scheduler_execute a s w = Some x"
  by (auto simp: halts_def scheduler_execute_def while_option_def)

lemma fail_stops [simp]: "\<not> exec_going (exec_fail a e x)"
  by (simp add: exec_going_def exec_fail_def)

text \<open>Every node begun costs one unit and every node completed another.\<close>

definition budget :: "('w \<Rightarrow> nat) \<Rightarrow> nat \<Rightarrow> 'w exec \<Rightarrow> nat" where
  "budget p n x = 2 * n - (2 * ex_completed x + ex_active x) + p (ex_world x)"

lemma core_active:
  assumes "core a s0 P B R x" "R \<subseteq> in_state (ex_sched x) SchedRunning"
  shows "ex_active x = card (in_state (ex_sched x) SchedRunning - R)"
proof -
  have "set (occupied (ex_slots x)) = Some ` (Some -` set (ex_slots x))"
    by (auto simp: occupied_def)
  then have "card (set (occupied (ex_slots x))) = card (Some -` set (ex_slots x))"
    by (simp only: card_image inj_Some)
  then have "card (set (occupied (ex_slots x))) = card (in_state (ex_sched x) SchedRunning - R)"
    using assms(1) by (simp add: core_def)
  then show ?thesis using assms(1) by (metis core_def distinct_card)
qed

lemma core_counts:
  assumes "core a s0 P B {} x" "i < node_len (ex_sched x)" "nd_state (node (ex_sched x) i) \<notin> {SchedRunning, SchedDone}"
  shows "ex_completed x + ex_active x < node_len s0"
proof -
  let ?s = "ex_sched x"
  have fin: "finite (in_state ?s st)" for st by (simp add: in_state_def)
  have "in_state ?s SchedDone \<inter> in_state ?s SchedRunning = {}" by (auto simp: in_state_def)
  then have "card (in_state ?s SchedDone \<union> in_state ?s SchedRunning) = ex_completed x + ex_active x"
    using core_active [OF assms(1)] assms(1) fin by (simp add: card_Un_disjoint core_def)
  moreover have "in_state ?s SchedDone \<union> in_state ?s SchedRunning \<subset> {..<node_len s0}"
    using assms by (auto simp: in_state_def core_def same_edges_def)
  ultimately show ?thesis using psubset_card_mono by (metis card_lessThan finite_lessThan)
qed

section \<open>What one step of each phase comes to\<close>

text \<open>
  A node taken from the queue ends the loop, or costs something, or goes back because all slots are taken.
\<close>

definition dispatched :: "'w actions \<Rightarrow> ('w \<Rightarrow> nat) \<Rightarrow> nat \<Rightarrow> 'w exec \<Rightarrow> 'w exec \<Rightarrow> bool" where
  "dispatched a p n x y \<longleftrightarrow> \<not> exec_going y \<or> (ex_phase y = Dispatch \<and> budget p n y < budget p n x) \<or>
     (ex_phase y = Polling 0 \<and> budget p n y \<le> budget p n x \<and> ex_progressed y = ex_progressed x \<and>
      ex_completed y = ex_completed x \<and> (sc_ready (ex_sched y) = [] \<and> ex_active y = 0 \<or> ex_active y > 0))"

lemma dispatched_fail [simp]: "dispatched a p n x (exec_fail a e y)"
  by (simp add: dispatched_def)

lemma dispatched_try:
  "(\<And>v. fst r = Inr v \<Longrightarrow> dispatched a p n x (k v (y\<lparr>ex_world := snd r\<rparr>))) \<Longrightarrow> dispatched a p n x (try_act a r k y)"
  by (simp add: try_act_def split: sum.splits)

lemma dispatched_weaken:
  "dispatched a p n x' y \<Longrightarrow> budget p n x' \<le> budget p n x \<Longrightarrow> ex_progressed x' = ex_progressed x \<Longrightarrow>
   ex_completed x' = ex_completed x \<Longrightarrow> dispatched a p n x y"
  by (auto simp: dispatched_def)

lemma dispatched_complete:
  assumes "ex_phase x = Dispatch" "ex_completed x + ex_active x < n" "p w \<le> p (ex_world x)"
  shows "dispatched a p n x (exec_complete i (x\<lparr>ex_world := w\<rparr>))"
  using assms by (auto simp: dispatched_def budget_def exec_complete_def exec_log_def)

lemma dispatched_log: "dispatched a p n (exec_log v x) y \<longleftrightarrow> dispatched a p n x y"
  by (simp add: dispatched_def budget_def exec_log_def)

lemma sync_dispatched:
  assumes "patient a p" "ex_phase x = Dispatch" "ex_completed x + ex_active x < n"
  shows "dispatched a p n x (exec_sync a i x)"
proof -
  have "p (snd (scheduler_run_sync_node a i (exec_log (Begun i) x))) \<le> p (ex_world x)"
    by (simp add: scheduler_run_sync_node_def patientD [OF assms(1)] exec_log_def Let_def split: sched_kind.splits)
  then have "dispatched a p n (exec_log (Begun i) x) (exec_sync a i x)"
    unfolding exec_sync_def Let_def
    by (intro dispatched_try dispatched_complete) (use assms(2,3) in \<open>simp_all add: exec_log_def\<close>)
  then show ?thesis by (simp add: dispatched_log)
qed

lemma skip_dispatched:
  assumes "patient a p" "ex_phase x = Dispatch" "ex_completed x + ex_active x < n"
  shows "dispatched a p n x (exec_skip a i x)"
proof -
  have "dispatched a p n (exec_log (Begun i) x) (exec_skip a i x)"
    unfolding exec_skip_def Let_def
    by (intro dispatched_try dispatched_complete) (use assms(2,3) patientD(6) [OF assms(1)] in \<open>simp_all add: exec_log_def\<close>)
  then show ?thesis by (simp add: dispatched_log)
qed

lemma exec_jobs_pos: "exec_jobs a > 0"
  by (simp add: exec_jobs_def)

lemma launch_dispatched:
  assumes "patient a p" "ex_phase x = Dispatch" "ex_completed x + ex_active x < n"
  shows "dispatched a p n x (exec_launch a i x)"
proof -
  have p: "p (snd (act_start a i k w)) \<le> p w" for k w by (rule patientD [OF assms(1)])
  have "dispatched a p n (exec_log (Begun i) x)
      (try_act a (act_start a i k (ex_world (exec_log (Begun i) x))) (\<lambda>running x.
         if running
         then exec_state i SchedRunning (x\<lparr>ex_slots := (ex_slots x)[k := Some i], ex_active := ex_active x + 1, ex_progressed := True\<rparr>)
         else exec_complete i (exec_state i SchedDone x)) (exec_log (Begun i) x))" for k
    by (rule dispatched_try)
      (use assms(2,3) p [of k "ex_world x"] in \<open>auto simp: dispatched_def budget_def exec_state_def exec_complete_def exec_log_def\<close>)
  then show ?thesis
    using assms(2) exec_jobs_pos [of a] unfolding exec_launch_def Let_def
    by (auto simp: dispatched_log) (auto simp: dispatched_def budget_def)
qed

lemma process_dispatched:
  assumes "patient a p" "ex_phase x = Dispatch" "ex_completed x + ex_active x < n"
  shows "dispatched a p n x (exec_process a i x)"
proof -
  have prep: "p (snd (scheduler_prepare_process_node a i x)) \<le> p (ex_world x)"
    by (simp add: scheduler_prepare_process_node_def patientD [OF assms(1)] split: sched_kind.splits)
  have less: "dispatched a p n x y" if "dispatched a p n (x\<lparr>ex_world := w\<rparr>) y" "p w \<le> p (ex_world x)" for w y
    using dispatched_weaken [OF that(1), of x] that(2) by (simp add: budget_def)
  have simps: "ex_world (x\<lparr>ex_world := w\<rparr>) = w" "x\<lparr>ex_world := w, ex_world := w'\<rparr> = x\<lparr>ex_world := w'\<rparr>" for w w' by simp_all
  have skip: "dispatched a p n x (exec_skip a i (x\<lparr>ex_world := w\<rparr>))"
    and launch: "dispatched a p n x (exec_launch a i (x\<lparr>ex_world := w\<rparr>))" if "p w \<le> p (ex_world x)" for w
    by (rule less [OF _ that], use assms in \<open>auto intro!: skip_dispatched launch_dispatched\<close>)+
  have audit: "p (snd (if act_local_cache a then act_cache_audit a i w else (Inr (), w))) \<le> p w" for w
    by (simp add: patientD [OF assms(1)])
  have restored: "dispatched a p n x
      (if act_cache_hit a i w then exec_skip a i (x\<lparr>ex_world := w\<rparr>)
       else try_act a (act_cache_restore a i w)
         (\<lambda>restored x. if restored then exec_skip a i x else exec_launch a i x) (x\<lparr>ex_world := w\<rparr>))"
    if w: "p w \<le> p (ex_world x)" for w
  proof -
    have "p (snd (act_cache_restore a i w)) \<le> p (ex_world x)" using patientD(7) [OF assms(1)] w order_trans by blast
    then show ?thesis
      by (auto intro!: dispatched_try skip launch w)
  qed
  show ?thesis
    unfolding exec_process_def
    by (intro dispatched_try) (simp only: simps restored [OF order_trans [OF audit prep]])
qed

lemma dispatch_dispatched:
  assumes "patient a p" "exec_inv a s0 x" "ex_phase x = Dispatch"
  shows "dispatched a p (node_len s0) x (exec_dispatch a x)"
proof (cases "scheduler_ready_pop (ex_sched x)")
  case None
  then have "sc_ready (ex_sched x) = []"
    by (simp add: scheduler_ready_pop_def scheduler_ready_count_def split: if_splits)
  then show ?thesis using None by (auto simp: exec_dispatch_def dispatched_def budget_def)
next
  case (Some q)
  then obtain i s where pop: "scheduler_ready_pop (ex_sched x) = Some (i, s)" by (cases q) auto
  have c: "core a s0 {} {} {} x" "sched_inv {} {} (ex_sched x)" using assms(2,3) by (simp_all add: exec_inv_def core_def)
  note n = pop_inv [OF c(2) pop]
  let ?x = "x\<lparr>ex_sched := s\<rparr>"
  have "ex_completed ?x + ex_active ?x < node_len s0" using core_counts [OF c(1) n(2)] n(3) by simp
  then have "dispatched a p (node_len s0) ?x (exec_sync a i ?x)" "dispatched a p (node_len s0) ?x (exec_process a i ?x)"
    by (intro sync_dispatched process_dispatched assms(1); simp add: assms(3))+
  moreover have "dispatched a p m x y" if "dispatched a p m ?x y" for m y
    using dispatched_weaken [OF that, of x] by (simp add: budget_def)
  ultimately show ?thesis using n by (auto simp: exec_dispatch_def pop Let_def)
qed

text \<open>With nothing running and nothing ready the end of the body stops the loop.\<close>

definition idle :: "'w exec \<Rightarrow> bool" where
  "idle x \<longleftrightarrow> ex_active x = 0 \<and> sc_ready (ex_sched x) = []"

definition polled :: "('w \<Rightarrow> nat) \<Rightarrow> nat \<Rightarrow> nat \<Rightarrow> nat \<Rightarrow> 'w exec \<Rightarrow> bool" where
  "polled p n b k x \<longleftrightarrow> budget p n x < b \<or>
     (budget p n x \<le> b \<and> \<not> ex_progressed x \<and> ex_completed x < n \<and>
        (idle x \<or> (\<exists>j\<ge>k. j < length (ex_slots x) \<and> ex_slots x ! j \<noteq> None)))"

lemma settle_halts:
  assumes "patient a p" "exec_inv a s0 x" "ex_phase x = Settle"
    and "budget p (node_len s0) x < b \<or> (\<not> ex_progressed x \<and> ex_completed x < node_len s0 \<and> idle x)"
    and IH: "\<And>y. exec_inv a s0 y \<Longrightarrow> ex_phase y = LoopHead \<Longrightarrow> budget p (node_len s0) y < b \<Longrightarrow> halts a y"
  shows "halts a x"
proof (rule halts_step)
  have len: "node_len (ex_sched x) = node_len s0" using assms(2,3) by (simp add: exec_inv_def core_def same_edges_def)
  have inv: "exec_inv a s0 (exec_settle a x)" by (rule settle_inv [OF assms(2,3)])
  show "halts a (exec_step a x)"
  proof (cases "exec_going (exec_settle a x)")
    case False
    then show ?thesis by (simp add: exec_step_def assms(3) halts_stopped)
  next
    case True
    then have "ex_phase (exec_settle a x) = LoopHead" "budget p (node_len s0) (exec_settle a x) \<le> budget p (node_len s0) x"
      "\<not> (\<not> ex_progressed x \<and> ex_completed x < node_len s0 \<and> idle x)"
      using patientD(11) [OF assms(1), of "ex_slots x" "ex_world x"]
      by (auto simp: exec_settle_def budget_def idle_def scheduler_ready_count_def len split: if_splits prod.splits)
    then show ?thesis using IH [OF inv] assms(4) by (auto simp: exec_step_def assms(3))
  qed
qed

lemma poll_halts:
  assumes "patient a p" and IH: "\<And>y. exec_inv a s0 y \<Longrightarrow> ex_phase y = LoopHead \<Longrightarrow> budget p (node_len s0) y < b \<Longrightarrow> halts a y"
  shows "exec_inv a s0 x \<Longrightarrow> ex_phase x = Polling k \<Longrightarrow> polled p (node_len s0) b k x \<Longrightarrow> halts a x"
proof (induction "exec_jobs a - k" arbitrary: k x)
  case 0
  have k: "exec_jobs a \<le> k" using 0(1) by simp
  have len: "length (ex_slots x) = exec_jobs a" using 0(2,3) by (simp add: exec_inv_def core_def)
  let ?y = "x\<lparr>ex_phase := Settle\<rparr>"
  have y: "exec_poll a k x = ?y" using k by (simp add: exec_poll_def)
  have inv: "exec_inv a s0 ?y" using poll_inv [OF 0(2,3)] y by simp
  have "budget p (node_len s0) ?y = budget p (node_len s0) x" "idle ?y = idle x"
    by (simp_all add: budget_def idle_def)
  moreover have "\<not> (\<exists>j\<ge>k. j < length (ex_slots x) \<and> ex_slots x ! j \<noteq> None)" using k len by auto
  ultimately have cond: "budget p (node_len s0) ?y < b \<or> \<not> ex_progressed ?y \<and> ex_completed ?y < node_len s0 \<and> idle ?y"
    using 0(4) by (auto simp: polled_def)
  have "halts a ?y"
    by (rule settle_halts [OF assms(1) inv _ cond]) (simp, rule IH)
  then show ?case using halts_step [of a x] 0(3) y by (simp add: exec_step_def)
next
  case (Suc m)
  have k: "k < exec_jobs a" using Suc(2) by simp
  have x: "exec_step a x = exec_poll a k x" using Suc(4) by (simp add: exec_step_def)
  have inv: "exec_inv a s0 (exec_poll a k x)" by (rule poll_inv [OF Suc(3,4)])
  have c: "core a s0 {} {} {} x" using Suc(3,4) by (simp add: exec_inv_def)
  have on: "halts a (exec_poll a k x)" if "ex_phase (exec_poll a k x) = Polling (k + 1)" "polled p (node_len s0) b (k + 1) (exec_poll a k x)"
    by (rule Suc(1) [OF _ inv that]) (use Suc(2) in simp)
  show ?case
  proof (rule halts_step, unfold x, cases "ex_slots x ! k")
    case None
    then have "ex_phase (exec_poll a k x) = Polling (k + 1)" "polled p (node_len s0) b (k + 1) (exec_poll a k x)"
      using k Suc(5) by (auto simp: exec_poll_def polled_def budget_def idle_def dest: le_neq_implies_less)
    then show "halts a (exec_poll a k x)" by (rule on)
  next
    case (Some i)
    obtain r w where r: "act_poll a i k (ex_world x) = (r, w)" by fastforce
    note le = patientD(10) [OF assms(1), of i k "ex_world x", unfolded r snd_conv]
    have act: "ex_active x > 0" "2 * ex_completed x + ex_active x < 2 * node_len s0"
    proof -
      have sl: "length (ex_slots x) = exec_jobs a" "distinct (occupied (ex_slots x))" "ex_active x = length (occupied (ex_slots x))"
        using c by (simp_all add: core_def)
      then show "ex_active x > 0" using vacate(4) [of k "ex_slots x" i] k Some by simp
      have "card (in_state (ex_sched x) SchedDone \<union> in_state (ex_sched x) SchedRunning) \<le> node_len s0"
        "in_state (ex_sched x) SchedDone \<inter> in_state (ex_sched x) SchedRunning = {}"
        using c card_mono [of "{..<node_len s0}" "in_state (ex_sched x) SchedDone \<union> in_state (ex_sched x) SchedRunning"]
        by (auto simp: core_def same_edges_def in_state_def)
      moreover have "finite (in_state (ex_sched x) st)" for st by (simp add: in_state_def)
      ultimately have "ex_completed x + ex_active x \<le> node_len s0"
        using core_active [OF c] c by (simp add: card_Un_disjoint core_def)
      then show "2 * ex_completed x + ex_active x < 2 * node_len s0" using \<open>ex_active x > 0\<close> by simp
    qed
    show "halts a (exec_poll a k x)"
    proof (cases "r = StillRunning")
      case True
      then have "p w < p (ex_world x)" using patientD(12) [OF assms(1), of i k "ex_world x"] r by simp
      then show ?thesis
        using True k Some r Suc(5) by (intro on) (auto simp: exec_poll_def polled_def budget_def)
    next
      case False
      show ?thesis
      proof (cases "exec_going (exec_poll a k x)")
        case True
        then have fin: "r = Exited" using False k Some r by (cases r) (auto simp: exec_poll_def)
        let ?x = "x\<lparr>ex_slots := (ex_slots x)[k := None], ex_active := ex_active x - 1\<rparr>"
        have y: "exec_poll a k x = try_act a (act_finish a i k w) (\<lambda>_ x. (exec_complete i x)\<lparr>ex_phase := Settle\<rparr>) ?x"
          using fin k Some r by (simp add: exec_poll_def)
        then obtain v where v: "exec_poll a k x = (exec_complete i (?x\<lparr>ex_world := v\<rparr>))\<lparr>ex_phase := Settle\<rparr>" "v = snd (act_finish a i k w)"
          using True by (auto simp: try_act_def split: sum.splits)
        have "p v \<le> p (ex_world x)" using v(2) patientD(9) [OF assms(1), of i k w] le by simp
        then have "budget p (node_len s0) (exec_poll a k x) < b"
          using act Suc(5) by (auto simp: v(1) budget_def polled_def exec_complete_def exec_log_def)
        moreover have "ex_phase (exec_poll a k x) = Settle" by (simp add: v(1))
        ultimately show ?thesis using settle_halts [OF assms(1) inv] IH by blast
      qed (rule halts_stopped)
    qed
  qed
qed

lemma occupied_slot: "length (occupied xs) > 0 \<Longrightarrow> \<exists>j<length xs. xs ! j \<noteq> None"
proof -
  assume "length (occupied xs) > 0"
  then obtain v where "v \<in> set xs" "v \<noteq> None" by (auto simp: occupied_def filter_empty_conv)
  then show ?thesis by (metis in_set_conv_nth)
qed

lemma dispatch_halts:
  assumes "patient a p" and IH: "\<And>y. exec_inv a s0 y \<Longrightarrow> ex_phase y = LoopHead \<Longrightarrow> budget p (node_len s0) y < b \<Longrightarrow> halts a y"
  shows "exec_inv a s0 x \<Longrightarrow> ex_phase x = Dispatch \<Longrightarrow>
    budget p (node_len s0) x < b \<or> (budget p (node_len s0) x \<le> b \<and> \<not> ex_progressed x \<and> ex_completed x < node_len s0) \<Longrightarrow>
    halts a x"
proof (induction "budget p (node_len s0) x" arbitrary: x rule: less_induct)
  case less
  let ?y = "exec_dispatch a x"
  have x: "exec_step a x = ?y" using less(3) by (simp add: exec_step_def)
  have inv: "exec_inv a s0 ?y" by (rule dispatch_inv [OF less(2,3)])
  consider "\<not> exec_going ?y" | "ex_phase ?y = Dispatch" "budget p (node_len s0) ?y < budget p (node_len s0) x"
    | "ex_phase ?y = Polling 0" "budget p (node_len s0) ?y \<le> budget p (node_len s0) x" "ex_progressed ?y = ex_progressed x"
      "ex_completed ?y = ex_completed x" "idle ?y \<or> ex_active ?y > 0"
    using dispatch_dispatched [OF assms(1) less(2,3)] by (auto simp: dispatched_def idle_def)
  then have "halts a ?y"
  proof cases
    case 2
    then show ?thesis using less(1) [OF 2(2) inv 2(1)] less(4) by linarith
  next
    case 3
    have "core a s0 {} {} {} ?y" using inv 3(1) by (simp add: exec_inv_def)
    then have "\<exists>j<length (ex_slots ?y). ex_slots ?y ! j \<noteq> None" if "ex_active ?y > 0"
      using that occupied_slot [of "ex_slots ?y"] by (simp add: core_def)
    then have "polled p (node_len s0) b 0 ?y"
      using 3 less(4) by (auto simp: polled_def)
    from poll_halts [OF assms(1) _ inv 3(1) this] show ?thesis using IH by blast
  qed (rule halts_stopped)
  then show ?case using halts_step [of a x] by (simp add: x)
qed

lemma head_halts:
  assumes "patient a p"
  shows "exec_inv a s0 x \<Longrightarrow> ex_phase x = LoopHead \<Longrightarrow> halts a x"
proof (induction "budget p (node_len s0) x" arbitrary: x rule: less_induct)
  case less
  let ?y = "exec_head a x"
  have x: "exec_step a x = ?y" using less(3) by (simp add: exec_step_def)
  have inv: "exec_inv a s0 ?y" by (rule head_inv [OF less(2,3)])
  have len: "node_len (ex_sched x) = node_len s0" using less(2,3) by (simp add: exec_inv_def core_def same_edges_def)
  have "halts a ?y"
  proof (cases "exec_going ?y")
    case True
    then have y: "ex_phase ?y = Dispatch" "budget p (node_len s0) ?y = budget p (node_len s0) x" "\<not> ex_progressed ?y"
      "ex_completed ?y < node_len s0"
      by (auto simp: exec_head_def exec_going_def budget_def len split: if_splits prod.splits)
    show ?thesis
      by (rule dispatch_halts [OF assms _ inv y(1), of "budget p (node_len s0) x"]) (use less(1) y in auto)
  qed (rule halts_stopped)
  then show ?case using halts_step [of a x] by (simp add: x)
qed

section \<open>Without failures an acyclic graph is built\<close>

definition willing :: "'w actions \<Rightarrow> bool" where
  "willing a \<longleftrightarrow>
     (\<forall>i w. fst (act_generate a i w) = Inr () \<and> fst (act_stage a i w) = Inr () \<and> fst (act_run_command a i w) = Inr () \<and>
        fst (act_prepare a i w) = Inr () \<and> fst (act_cache_audit a i w) = Inr () \<and> fst (act_skip a i w) = Inr () \<and>
        (\<exists>b. fst (act_cache_restore a i w) = Inr b)) \<and>
     (\<forall>i k w. (\<exists>b. fst (act_start a i k w) = Inr b) \<and> fst (act_finish a i k w) = Inr () \<and>
        fst (act_poll a i k w) \<in> {StillRunning, Exited}) \<and>
     (\<forall>sl w. fst (act_wait a sl w)) \<and> (\<forall>w. fst (act_flush a w) = Inr ())"

lemma willingD:
  assumes "willing a"
  shows "fst (act_generate a i w) = Inr ()" "fst (act_stage a i w) = Inr ()" "fst (act_run_command a i w) = Inr ()"
    "fst (act_prepare a i w) = Inr ()" "fst (act_cache_audit a i w) = Inr ()" "fst (act_skip a i w) = Inr ()"
    "fst (act_finish a i k w) = Inr ()" "fst (act_wait a sl w)" "fst (act_flush a w) = Inr ()"
    "fst (act_poll a i k w) \<in> {StillRunning, Exited}"
    "\<exists>b. fst (act_cache_restore a i w) = Inr b" "\<exists>b. fst (act_start a i k w) = Inr b"
  using assms unfolding willing_def by blast+

definition unfailed :: "'w exec \<Rightarrow> bool" where
  "unfailed x \<longleftrightarrow> (\<forall>e. ex_phase x \<noteq> Stopped (Inl e))"

lemma unfailed_try:
  "fst r = Inr v \<Longrightarrow> unfailed (k v (x\<lparr>ex_world := snd r\<rparr>)) \<Longrightarrow> unfailed (try_act a r k x)"
  by (simp add: try_act_def)

lemma unfailed_complete [simp]: "unfailed (exec_complete i x) = unfailed x"
  by (simp add: unfailed_def)

lemma unfailed_simps [simp]:
  "unfailed (x\<lparr>ex_world := w\<rparr>) = unfailed x"
  "unfailed (x\<lparr>ex_sched := s\<rparr>) = unfailed x"
  "unfailed (exec_log v x) = unfailed x"
  "unfailed (exec_state i st x) = unfailed x"
  "unfailed (x\<lparr>ex_slots := sl\<rparr>) = unfailed x"
  "unfailed (x\<lparr>ex_active := n\<rparr>) = unfailed x"
  "unfailed (x\<lparr>ex_progressed := b\<rparr>) = unfailed x"
  by (simp_all add: unfailed_def exec_log_def exec_state_def)

lemma sync_unfailed:
  assumes "willing a" "unfailed x" "\<not> scheduler_node_is_process_action a (node (ex_sched x) i)"
  shows "unfailed (exec_sync a i x)"
proof -
  have "fst (scheduler_run_sync_node a i (exec_log (Begun i) x)) = Inr ()"
    using assms(3) by (auto simp: scheduler_run_sync_node_def scheduler_node_is_process_action_def willingD [OF assms(1)] exec_log_def Let_def
        split: sched_kind.splits)
  then show ?thesis unfolding exec_sync_def Let_def by (rule unfailed_try) (simp add: assms(2))
qed

lemma skip_unfailed: "willing a \<Longrightarrow> unfailed x \<Longrightarrow> unfailed (exec_skip a i x)"
  unfolding exec_skip_def Let_def by (rule unfailed_try [where v = "()"]) (simp_all add: willingD)

lemma launch_unfailed:
  assumes "willing a" "unfailed x" "core a s0 P B R x"
  shows "unfailed (exec_launch a i x)"
proof -
  have free: "find_free_slot (ex_slots x) < exec_jobs a" if "\<not> exec_jobs a \<le> ex_active x"
    using that no_free_slot [of "ex_slots x"] assms(3) by (fastforce simp: core_def)
  obtain b where "fst (act_start a i (find_free_slot (ex_slots x)) (ex_world (exec_log (Begun i) x))) = Inr b"
    using willingD(12) [OF assms(1)] by blast
  from unfailed_try [OF this] show ?thesis
    using assms(2) free by (auto simp: exec_launch_def Let_def not_le) (auto simp: unfailed_def)
qed

lemma process_unfailed:
  assumes "willing a" "unfailed x" "core a s0 P B R x" "scheduler_node_is_process_action a (node (ex_sched x) i)"
  shows "unfailed (exec_process a i x)"
proof -
  have prep: "fst (scheduler_prepare_process_node a i x) = Inr ()"
    using assms(4) by (simp add: scheduler_prepare_process_node_def scheduler_node_is_process_action_def willingD [OF assms(1)] split: sched_kind.splits)
  have audit: "fst (if act_local_cache a then act_cache_audit a i w else (Inr (), w)) = Inr ()" for w
    by (simp add: willingD [OF assms(1)])
  have rest: "unfailed (try_act a (act_cache_restore a i w) (\<lambda>restored x. if restored then exec_skip a i x else exec_launch a i x)
      (x\<lparr>ex_world := w\<rparr>))" for w
  proof -
    obtain b where "fst (act_cache_restore a i w) = Inr b" using willingD(11) [OF assms(1)] by blast
    moreover have "unfailed (exec_launch a i (x\<lparr>ex_world := w'\<rparr>))" for w'
      by (rule launch_unfailed [OF assms(1) _ exec_core_simps(1) [THEN iffD2, OF assms(3)]]) (simp add: assms(2))
    ultimately show ?thesis using skip_unfailed [OF assms(1)] assms(2) by (intro unfailed_try) auto
  qed
  then show ?thesis
    unfolding exec_process_def using skip_unfailed [OF assms(1)] assms(2)
    by (intro unfailed_try [OF prep] unfailed_try [OF audit]) simp
qed

lemma same_deps: "same_edges s s' \<Longrightarrow> sched_deps s' = sched_deps s"
  by (simp add: same_edges_def sched_deps_def)

lemma acyclic_not_stalled:
  assumes "core a s {} {} {} x" "acyclic (sched_deps s)" "idle x" "ex_completed x < node_len s"
  shows False
proof -
  let ?s = "ex_sched x" and ?P = "in_state (ex_sched x) SchedPending"
  have inv: "sched_inv {} {} ?s" and same: "same_edges s ?s" using assms(1) by (simp_all add: core_def)
  then have ready: "in_state ?s SchedReady = {}" using assms(3) by (auto simp: sched_inv_def idle_def)
  have "card (in_state ?s SchedRunning) = 0" using core_active [OF assms(1)] assms(3) by (simp add: idle_def)
  then have running: "in_state ?s SchedRunning = {}" by (simp add: in_state_def)
  have cover: "i \<in> ?P \<or> nd_state (node ?s i) = SchedDone" if "i < node_len ?s" for i
    using that ready running by (cases "nd_state (node ?s i)") (auto simp: in_state_def)
  have "?P \<noteq> {}"
  proof
    assume "?P = {}"
    then have "in_state ?s SchedDone = {..<node_len s}" using cover same by (auto simp: in_state_def same_edges_def)
    then show False using assms(1,4) by (simp add: core_def)
  qed
  moreover have "finite (sched_deps s)"
    by (rule finite_subset [of _ "(\<Union>i\<in>{..<node_len s}. set (nd_deps (node s i))) \<times> {..<node_len s}"])
      (auto simp: sched_deps_def)
  then have "wf (sched_deps ?s)"
    using assms(2) by (simp add: same_deps [OF same] finite_acyclic_wf)
  ultimately obtain i where i: "i \<in> ?P" "\<And>d. (d, i) \<in> sched_deps ?s \<Longrightarrow> d \<notin> ?P"
    using wfE_min [of "sched_deps ?s"] by (metis ex_in_conv)
  have lt: "i < node_len ?s" using i(1) by (simp add: in_state_def)
  have "nd_state (node ?s d) = SchedDone" if "d \<in> set (nd_deps (node ?s i))" for d
    using that i(2) [of d] cover [of d] edges_agreeD(4) [of ?s i] inv lt by (auto simp: sched_deps_def sched_inv_def)
  then have "undone ?s i = 0" by (simp add: undone_0)
  moreover have "nd_remaining (node ?s i) = undone ?s i" "nd_remaining (node ?s i) > 0"
    using inv i(1) by (auto simp: sched_inv_def counters_agree_def)
  ultimately show False by simp
qed

lemma step_unfailed:
  assumes "willing a" "exec_inv a s x" "acyclic (sched_deps s)" "unfailed x" "exec_going x"
  shows "unfailed (exec_step a x)"
proof -
  have c: "core a s {} {} {} x" using assms(2,5) by (simp add: inv_going)
  then have len: "node_len (ex_sched x) = node_len s" by (simp add: core_def same_edges_def)
  show ?thesis
  proof (cases "ex_phase x")
    case LoopHead
    then show ?thesis using willingD(9) [OF assms(1)]
      by (auto simp: exec_step_def exec_head_def unfailed_def split: prod.splits) (metis fst_conv sum.simps(4))
  next
    case Dispatch
    show ?thesis
    proof (cases "scheduler_ready_pop (ex_sched x)")
      case None
      then show ?thesis using Dispatch by (simp add: exec_step_def exec_dispatch_def unfailed_def)
    next
      case (Some q)
      then obtain i t where pop: "scheduler_ready_pop (ex_sched x) = Some (i, t)" by (cases q) auto
      have inv: "sched_inv {} {} (ex_sched x)" using c by (simp add: core_def)
      note n = pop_inv [OF inv pop]
      have "in_state t st = in_state (ex_sched x) st" for st by (simp add: in_state_def n)
      then have "core a s {i} {} {} (x\<lparr>ex_sched := t\<rparr>)" using c n by (simp add: core_def same_edges_def)
      then show ?thesis using Dispatch n assms(4) sync_unfailed [OF assms(1)] process_unfailed [OF assms(1)]
        by (simp add: exec_step_def exec_dispatch_def pop Let_def)
    qed
  next
    case (Polling k)
    show ?thesis
    proof (cases "k < exec_jobs a \<and> ex_slots x ! k \<noteq> None")
      case False
      then show ?thesis using Polling by (auto simp: exec_step_def exec_poll_def unfailed_def)
    next
      case True
      then obtain i where i: "ex_slots x ! k = Some i" by blast
      obtain r w where r: "act_poll a i k (ex_world x) = (r, w)" by fastforce
      then have "r \<in> {StillRunning, Exited}" using willingD(10) [OF assms(1), of i k "ex_world x"] by simp
      then show ?thesis using True i r Polling assms(4) willingD(7) [OF assms(1)]
        by (auto simp: exec_step_def exec_poll_def try_act_def unfailed_def)
    qed
  next
    case Settle
    have "\<not> (ex_active x = 0 \<and> scheduler_ready_count (ex_sched x) = 0 \<and> ex_completed x < node_len (ex_sched x))"
      using acyclic_not_stalled [OF c assms(3)] by (auto simp: idle_def scheduler_ready_count_def len)
    then show ?thesis using Settle willingD(8) [OF assms(1), of "ex_slots x" "ex_world x"]
      by (auto simp: exec_step_def exec_settle_def unfailed_def split: prod.splits)
  qed (use assms(5) in \<open>simp add: exec_going_def\<close>)
qed

lemma execute_unfailed:
  assumes "well_formed s" "acyclic (sched_deps s)" "willing a" "scheduler_execute a s w = Some x"
  shows "unfailed x"
proof -
  have "exec_inv a s x \<and> unfailed x"
    by (rule while_option_rule [OF _ assms(4) [unfolded scheduler_execute_def]])
      (use step_inv step_unfailed [OF assms(3) _ assms(2)] start_inv [OF assms(1)] in
        \<open>auto simp: unfailed_def exec_start_def\<close>)
  then show ?thesis ..
qed

lemma stopped_cases: "\<not> exec_going x \<Longrightarrow> unfailed x \<Longrightarrow> ex_phase x = Stopped (Inr ())"
  by (auto simp: exec_going_def unfailed_def split: phase.splits) (metis old.sum.exhaust old.unit.exhaust)

text \<open>A log that lists every node after all it waits for rules out cycles.\<close>

lemma logged_acyclic:
  assumes "valid_log (\<lambda>i. nd_deps (node s i)) log" "\<forall>i<node_len s. Begun i \<in> set log"
    and deps: "\<And>i. i < node_len s \<Longrightarrow> set (nd_deps (node s i)) \<subseteq> {..<node_len s}"
  shows "acyclic (sched_deps s)"
proof -
  define pos where "pos i = (LEAST k. k < length log \<and> log ! k = Begun i)" for i
  have pos: "pos i < length log \<and> log ! pos i = Begun i" if "i < node_len s" for i
    unfolding pos_def by (rule LeastI_ex) (use that assms(2) in \<open>auto simp: in_set_conv_nth\<close>)
  have "pos d < pos i" if e: "(d, i) \<in> sched_deps s" for d i
  proof -
    have i: "i < node_len s" "d \<in> set (nd_deps (node s i))" using e by (auto simp: sched_deps_def)
    then have "Completed d \<in> set (take (pos i) log)"
      using valid_log_nth [OF assms(1), of "pos i"] pos [OF i(1)] by (auto simp: follows_def)
    then obtain j where j: "j < pos i" "j < length log" "log ! j = Completed d" by (auto simp: in_set_conv_nth)
    then have "Begun d \<in> set (take j log)"
      using valid_log_nth [OF assms(1) j(2)] by (simp add: follows_def)
    then obtain k where "k < j" "k < length log" "log ! k = Begun d" by (auto simp: in_set_conv_nth)
    then have "pos d \<le> k" unfolding pos_def by (intro Least_le) simp
    then show ?thesis using \<open>k < j\<close> j(1) by simp
  qed
  then have "acyclic ((sched_deps s)\<inverse>)" by (intro acyclicI_order) auto
  then show ?thesis by simp
qed

section \<open>Properties\<close>

text \<open>Two aliases, the second on the first, and an environment in which nothing fails.\<close>

definition sample_node :: "nat list \<Rightarrow> nat list \<Rightarrow> sched_node" where
  "sample_node deps outs = \<lparr>nd_kind = SchedGroup, nd_state = SchedPending, nd_target = None, nd_source_owner = None,
     nd_genrule = None, nd_stage = None, nd_toolchain = None, nd_source_index = 0, nd_action_index = 0,
     nd_queue_index = 0, nd_remaining = length deps, nd_deps = deps, nd_outs = outs\<rparr>"

definition sample_sched :: scheduler where
  "sample_sched = \<lparr>sc_nodes = [sample_node [1] [], sample_node [] [0]], sc_targets = [], sc_target_seen = [],
     sc_genrule_needed = [], sc_stage_needed = [], sc_target_final_node = [], sc_genrule_node = [],
     sc_stage_node = [], sc_ready = []\<rparr>"

definition sample_actions :: "unit actions" where
  "sample_actions = \<lparr>act_jobs = 2, act_local_cache = False, act_config_header = (\<lambda>i. False),
     act_generate = (\<lambda>i w. (Inr (), w)), act_stage = (\<lambda>i w. (Inr (), w)), act_run_command = (\<lambda>i w. (Inr (), w)),
     act_prepare = (\<lambda>i w. (Inr (), w)), act_cache_audit = (\<lambda>i w. (Inr (), w)), act_cache_hit = (\<lambda>i w. False),
     act_skip = (\<lambda>i w. (Inr (), w)), act_cache_restore = (\<lambda>i w. (Inr False, w)), act_start = (\<lambda>i k w. (Inr True, w)),
     act_poll = (\<lambda>i k w. (Exited, w)), act_finish = (\<lambda>i k w. (Inr (), w)), act_wait = (\<lambda>sl w. (True, w)),
     act_flush = (\<lambda>w. (Inr (), w)), act_cancel = (\<lambda>sl w. w)\<rparr>"

lemma sample_nodes:
  "node_len sample_sched = 2" "node sample_sched 0 = sample_node [1] []" "node sample_sched 1 = sample_node [] [0]"
  "node sample_sched (Suc 0) = sample_node [] [0]"
  by (simp_all add: sample_sched_def node_len_def node_def)

lemma sample_well_formed: "well_formed sample_sched"
proof -
  have "sc_ready sample_sched = []" by (simp add: sample_sched_def)
  then show ?thesis
    by (auto simp: well_formed_def edges_agree_def unstarted_def sample_nodes less_2_cases_iff sample_node_def)
qed

lemma sample_acyclic: "acyclic (sched_deps sample_sched)"
  by (rule acyclicI_order [of _ "\<lambda>i. i"]) (auto simp: sched_deps_def sample_nodes less_2_cases_iff sample_node_def)

lemma sample_patient: "patient sample_actions (\<lambda>_. 0)"
  by (simp add: patient_def sample_actions_def)

lemma sample_willing: "willing sample_actions"
  by (auto simp: willing_def sample_actions_def)

lemma steps_states: "(exec_step a ^^ m) (exec_start a s w) \<in> exec_states a s w"
  by (induction m) (auto intro: exec_states.intros)

lemma execute_total:
  assumes "well_formed s" "patient a p"
  shows "\<exists>x. scheduler_execute a s w = Some x"
proof -
  have "halts a (exec_start a s w)"
    by (rule head_halts [OF assms(2) start_inv [OF assms(1)]]) (simp add: exec_start_def)
  from halts_execute [OF this] show ?thesis .
qed

lemma success_done:
  assumes "well_formed s" "scheduler_execute a s w = Some x" "ex_phase x = Stopped (Inr ())" "i < node_len s"
  shows "nd_state (node (ex_sched x) i) = SchedDone" "Begun i \<in> set (ex_log x)" "Completed i \<in> set (ex_log x)"
    "ex_active x = 0"
proof -
  have "exec_inv a s x" by (rule states_inv [OF execute_states(1) [OF assms(2)] assms(1)])
  then have c: "core a s {} {} {} x" "node_len s \<le> ex_completed x" by (simp_all add: exec_inv_def assms(3))
  have all: "in_state (ex_sched x) SchedDone = {..<node_len s}" by (rule completed_all [OF c])
  then have "i \<in> in_state (ex_sched x) SchedDone" using assms(4) by simp
  then show "nd_state (node (ex_sched x) i) = SchedDone" "Begun i \<in> set (ex_log x)" "Completed i \<in> set (ex_log x)"
    using core_log [OF c(1), of i] by (auto simp: in_state_def)
  have "in_state (ex_sched x) SchedRunning \<inter> in_state (ex_sched x) SchedDone = {}" by (auto simp: in_state_def)
  moreover have "in_state (ex_sched x) SchedRunning \<subseteq> {..<node_len s}"
    using c(1) by (auto simp: in_state_def core_def same_edges_def)
  ultimately have "in_state (ex_sched x) SchedRunning = {}" unfolding all by blast
  then show "ex_active x = 0" using core_active [OF c(1)] by simp
qed

text \<open>
  C3: in every state of a run the log holds no event twice, a node begins only after each node it waits for
  has completed, and completes only after it began, whatever the actions do and in whatever order processes end.
\<close>

theorem nodes_begin_after_their_dependencies:
  assumes "well_formed s" "x \<in> exec_states a s w"
  shows "distinct (ex_log x) \<and> (\<forall>k < length (ex_log x). \<forall>i.
      (ex_log x ! k = Begun i \<longrightarrow> (\<forall>d\<in>set (nd_deps (node s i)). Completed d \<in> set (take k (ex_log x)))) \<and>
      (ex_log x ! k = Completed i \<longrightarrow> Begun i \<in> set (take k (ex_log x))))"
proof -
  have inv: "exec_inv a s x" by (rule states_inv [OF assms(2,1)])
  then have "distinct (ex_log x)" by (auto simp: exec_inv_def logged_def intro: valid_log_distinct)
  moreover have "(ex_log x ! k = Begun i \<longrightarrow> (\<forall>d\<in>set (nd_deps (node s i)). Completed d \<in> set (take k (ex_log x)))) \<and>
      (ex_log x ! k = Completed i \<longrightarrow> Begun i \<in> set (take k (ex_log x)))" if "k < length (ex_log x)" for k i
    using log_order [OF inv that] by auto
  ultimately show ?thesis by blast
qed

theorem nodes_begin_after_their_dependencies_witness:
  "Completed 1 \<in> set (take 2 (ex_log ((exec_step sample_actions ^^ 4) (exec_start sample_actions sample_sched ()))))"
proof -
  let ?x = "(exec_step sample_actions ^^ 4) (exec_start sample_actions sample_sched ())"
  have log: "ex_log ?x = [Begun 1, Completed 1, Begun 0, Completed 0]" by code_simp
  have "1 \<in> set (nd_deps (node sample_sched 0))" by (simp add: sample_nodes sample_node_def)
  moreover have "2 < length (ex_log ?x)" "ex_log ?x ! 2 = Begun 0" unfolding log by simp_all
  ultimately show ?thesis
    using nodes_begin_after_their_dependencies [OF sample_well_formed steps_states [of 4 sample_actions sample_sched "()"]] by blast
qed

text \<open>
  C27: while the loop goes on, the running nodes are those of the occupied slots, and there are no more of
  them than the given number of jobs (one, if the number is not positive).
\<close>

theorem at_most_jobs_running:
  assumes "well_formed s" "x \<in> exec_states a s w" "exec_going x"
  shows "in_state (ex_sched x) SchedRunning = Some -` set (ex_slots x) \<and>
    card (in_state (ex_sched x) SchedRunning) \<le> (if act_jobs a > 1 then nat (act_jobs a) else 1)"
proof -
  have "core a s {} {} {} x" using states_inv [OF assms(2,1)] assms(3) by (simp add: inv_going)
  then show ?thesis using running_bound [of a s x] by (simp add: core_def exec_jobs_def)
qed

theorem at_most_jobs_running_witness:
  "card (in_state (ex_sched (exec_start sample_actions sample_sched ())) SchedRunning) \<le> 2"
proof -
  have "exec_going (exec_start sample_actions sample_sched ())" by (simp add: exec_going_def exec_start_def)
  from conjunct2 [OF at_most_jobs_running [OF sample_well_formed states_start this]] show ?thesis
    by (simp add: sample_actions_def)
qed

text \<open>
  the loop ends, with success or with an error, in every environment in which processes are not seen
  running for ever; so a cycle among the nodes is reported and does not hang the build.
\<close>

theorem execution_returns:
  assumes "well_formed s" "patient a p"
  shows "\<exists>x. scheduler_execute a s w = Some x \<and> (\<exists>r. ex_phase x = Stopped r)"
proof -
  obtain x where x: "scheduler_execute a s w = Some x" using execute_total [OF assms] by blast
  then show ?thesis using execute_states(2) [OF x] by (cases "ex_phase x") (auto simp: exec_going_def)
qed

theorem execution_returns_witness:
  "\<exists>x. scheduler_execute sample_actions sample_sched () = Some x \<and> (\<exists>r. ex_phase x = Stopped r)"
  by (rule execution_returns [OF sample_well_formed sample_patient])

text \<open>
  C7: when no action fails, the build of an action graph succeeds exactly if the graph has no cycle.
\<close>

theorem builds_exactly_acyclic_graphs:
  assumes "well_formed s" "patient a p" "willing a"
  shows "(\<exists>x. scheduler_execute a s w = Some x \<and> ex_phase x = Stopped (Inr ())) \<longleftrightarrow> acyclic (sched_deps s)"
proof
  obtain x where x: "scheduler_execute a s w = Some x" using execute_total [OF assms(1,2)] by blast
  show "\<exists>x. scheduler_execute a s w = Some x \<and> ex_phase x = Stopped (Inr ())" if "acyclic (sched_deps s)"
    using x stopped_cases [OF execute_states(2) [OF x] execute_unfailed [OF assms(1) that assms(3) x]] by blast
next
  assume "\<exists>x. scheduler_execute a s w = Some x \<and> ex_phase x = Stopped (Inr ())"
  then obtain x where x: "scheduler_execute a s w = Some x" "ex_phase x = Stopped (Inr ())" by blast
  have inv: "exec_inv a s x" by (rule states_inv [OF execute_states(1) [OF x(1)] assms(1)])
  then have c: "core a s {} {} {} x" "node_len s \<le> ex_completed x" "valid_log (\<lambda>i. nd_deps (node s i)) (ex_log x)"
    by (simp_all add: exec_inv_def x(2) logged_def)
  have "\<forall>i<node_len s. Begun i \<in> set (ex_log x)" using core_log(2) [OF c(1)] completed_all [OF c(1,2)] by simp
  then show "acyclic (sched_deps s)"
    by (rule logged_acyclic [OF c(3)]) (use assms(1) edges_agreeD(4) in \<open>simp add: well_formed_def\<close>)
qed

theorem builds_exactly_acyclic_graphs_witness:
  "\<exists>x. scheduler_execute sample_actions sample_sched () = Some x \<and> ex_phase x = Stopped (Inr ())"
  using builds_exactly_acyclic_graphs [OF sample_well_formed sample_patient sample_willing] sample_acyclic by blast

text \<open>success means that every node of the graph has begun and is done, and that nothing still runs.\<close>

theorem success_completes_every_node:
  assumes "well_formed s" "scheduler_execute a s w = Some x" "ex_phase x = Stopped (Inr ())" "i < node_len s"
  shows "nd_state (node (ex_sched x) i) = SchedDone" "Begun i \<in> set (ex_log x)" "Completed i \<in> set (ex_log x)"
    "ex_active x = 0"
  by (rule success_done [OF assms])+

theorem success_completes_every_node_witness:
  "\<exists>x. scheduler_execute sample_actions sample_sched () = Some x \<and> nd_state (node (ex_sched x) 0) = SchedDone"
proof -
  have "map_option ex_phase (scheduler_execute sample_actions sample_sched ()) = Some (Stopped (Inr ()))"
    unfolding scheduler_execute_def by code_simp
  then obtain x where "scheduler_execute sample_actions sample_sched () = Some x" "ex_phase x = Stopped (Inr ())" by blast
  then show ?thesis using success_completes_every_node(1) [OF sample_well_formed, of sample_actions "()" x 0]
    by (simp add: sample_nodes)
qed

end
