(* ===== verification/QActionGraphProps.thy ===== *)
theory QActionGraphProps
  imports QActionGraph QDiscoverProps QExecuteProps
begin

text \<open>
  The action graph that is built is well formed, so the results on its execution apply to it, and whatever
  the discovery found an action or a final action to need has a node that comes before it.
\<close>

section \<open>Steps that only add edges\<close>

definition node_refs :: "scheduler \<Rightarrow> nat set" where
  "node_refs s = {d. Some d \<in> set (sc_target_final_node s) \<union> set (sc_genrule_node s) \<union> set (sc_stage_node s)}"

definition graph_ok :: "scheduler \<Rightarrow> bool" where
  "graph_ok s \<longleftrightarrow> well_formed s \<and> node_refs s \<subseteq> {..<node_len s}"

text \<open>What edges leave alone: the discovered work, the maps and what identifies a node.\<close>

type_synonym identity = "sched_kind \<times> nat option \<times> nat option \<times> nat option \<times> nat option \<times> nat \<times> nat"

definition ident :: "sched_node \<Rightarrow> identity" where
  "ident n = (nd_kind n, nd_target n, nd_source_owner n, nd_genrule n, nd_stage n, nd_source_index n, nd_action_index n)"

definition frame :: "scheduler \<Rightarrow> nat list \<times> bool list \<times> bool list \<times> nat option list \<times> nat option list \<times> nat option list" where
  "frame s = (sc_targets s, sc_genrule_needed s, sc_stage_needed s, sc_target_final_node s, sc_genrule_node s, sc_stage_node s)"

definition same_nodes :: "scheduler \<Rightarrow> scheduler \<Rightarrow> bool" where
  "same_nodes s t \<longleftrightarrow> frame t = frame s \<and> node_len t = node_len s \<and> (\<forall>j. ident (node t j) = ident (node s j))"

definition wider :: "scheduler \<Rightarrow> scheduler \<Rightarrow> bool" where
  "wider s t \<longleftrightarrow> same_nodes s t \<and> sched_deps s \<subseteq> sched_deps t"

lemma wider_refl [simp]: "wider s s"
  by (simp add: wider_def same_nodes_def)

lemma wider_trans: "wider s t \<Longrightarrow> wider t u \<Longrightarrow> wider s u"
  unfolding wider_def same_nodes_def by (metis subset_trans)

text \<open>\<open>adds D f\<close>: when \<open>f\<close> succeeds, the edges \<open>D\<close> are there, and it has only added edges.\<close>

definition adds :: "(scheduler \<Rightarrow> (nat \<times> nat) set) \<Rightarrow> (scheduler \<Rightarrow> bool) \<Rightarrow> (scheduler \<Rightarrow> qerr + scheduler) \<Rightarrow> bool" where
  "adds D P f \<longleftrightarrow> (\<forall>s t. graph_ok s \<longrightarrow> P s \<longrightarrow> f s = Inr t \<longrightarrow> graph_ok t \<and> wider s t \<and> D s \<subseteq> sched_deps t)"

definition static :: "(scheduler \<Rightarrow> 'a) \<Rightarrow> bool" where
  "static D \<longleftrightarrow> (\<forall>s t. same_nodes s t \<longrightarrow> D t = D s)"

lemma staticD: "static D \<Longrightarrow> wider s t \<Longrightarrow> D t = D s"
  by (simp add: static_def wider_def)

lemma adds_weaken: "adds D P f \<Longrightarrow> (\<And>s. Q s \<Longrightarrow> P s) \<Longrightarrow> (\<And>s. Q s \<Longrightarrow> C s \<subseteq> D s) \<Longrightarrow> adds C Q f"
  unfolding adds_def by (meson subset_trans)

lemma adds_fold:
  assumes "\<And>x. x \<in> set xs \<Longrightarrow> adds (D x) P (f x)" "\<And>x. static (D x)" "static P"
  shows "adds (\<lambda>s. \<Union>x\<in>set xs. D x s) P (try_fold f xs)"
  unfolding adds_def
proof (intro allI impI)
  fix s t
  assume "graph_ok s" "P s" "try_fold f xs s = Inr t"
  then show "graph_ok t \<and> wider s t \<and> (\<Union>x\<in>set xs. D x s) \<subseteq> sched_deps t"
    using assms(1)
  proof (induction xs arbitrary: s)
    case (Cons x xs)
    from Cons.prems(3) obtain u where u: "f x s = Inr u" "try_fold f xs u = Inr t" by (auto split: sum.splits)
    have x: "graph_ok u" "wider s u" "D x s \<subseteq> sched_deps u"
      using Cons.prems(4) [of x] Cons.prems(1,2) u(1) by (simp_all add: adds_def)
    have "P u" using Cons.prems(2) staticD [OF assms(3) x(2)] by simp
    then have ih: "graph_ok t \<and> wider u t \<and> (\<Union>x\<in>set xs. D x u) \<subseteq> sched_deps t"
      using Cons.IH [OF x(1) _ u(2)] Cons.prems(4) by simp
    moreover have "D y u = D y s" for y using staticD [OF assms(2) x(2)] .
    moreover have "sched_deps u \<subseteq> sched_deps t" using ih by (simp add: wider_def)
    ultimately show ?case using x wider_trans [of s u t] by auto
  qed simp
qed

lemma adds_id: "adds (\<lambda>s. {}) P Inr"
  by (simp add: adds_def)

lemma static_simps [simp]:
  "static (\<lambda>s. c)" "static (\<lambda>s. node_len s)" "static sc_target_final_node" "static sc_genrule_node" "static sc_stage_node"
  "static (\<lambda>s. ident (node s j))"
  by (simp_all add: static_def same_nodes_def frame_def)

lemma edge_adds: "adds (\<lambda>s. {(d, u)}) (\<lambda>s. d < node_len s \<and> u < node_len s) (scheduler_add_edge d u)"
  unfolding adds_def
proof (intro allI impI)
  fix s t
  assume ok: "graph_ok s" and r: "d < node_len s \<and> u < node_len s" and e: "scheduler_add_edge d u s = Inr t"
  note r1 = conjunct1 [OF r] and r2 = conjunct2 [OF r]
  have len: "node_len t = node_len s" by (rule add_edge_node(1) [OF e r1 r2])
  have "ident (node t j) = ident (node s j)" for j
    using e r by (auto simp: scheduler_add_edge_def ident_def split: if_splits)
  moreover have "frame t = frame s"
    using e by (auto simp: scheduler_add_edge_def frame_def edit_node_def split: if_splits)
  ultimately have "wider s t"
    using len sched_deps_add_edge [OF e r1 r2] by (auto simp: wider_def same_nodes_def)
  moreover have "graph_ok t"
    using ok len \<open>frame t = frame s\<close> edges_agree_add_edge [OF e r1 r2] unstarted_add_edge [OF e r1 r2]
    by (simp add: graph_ok_def well_formed_def node_refs_def frame_def)
  ultimately show "graph_ok t \<and> wider s t \<and> {(d, u)} \<subseteq> sched_deps t"
    using sched_deps_add_edge [OF e r1 r2] by simp
qed

section \<open>Edges from producers\<close>

text \<open>The edges into \<open>u\<close> from a set of nodes that may depend on the maps.\<close>

definition into :: "nat \<Rightarrow> nat option \<Rightarrow> (nat \<times> nat) set" where
  "into u d = (\<lambda>d. (d, u)) ` set_option d"

lemma nth_ref: "k < length xs \<Longrightarrow> xs ! k = Some d \<Longrightarrow> Some d \<in> set xs"
  by (metis nth_mem)

definition maps_full :: "qstar_graph \<Rightarrow> scheduler \<Rightarrow> bool" where
  "maps_full g s \<longleftrightarrow> length (sc_target_final_node s) = length (gr_targets g) \<and>
     length (sc_genrule_node s) = length (gr_genrules g) \<and> length (sc_stage_node s) = length (gr_stages g)"

lemma genrule_index_less: "genrule_index g l = Some k \<Longrightarrow> k < length (gr_genrules g)"
  using key_index_Some [of g_label l "gr_genrules g" k] by (simp add: genrule_index_def)

lemma target_index_less: "target_index g l = Some i \<Longrightarrow> i < length (gr_targets g)"
  using key_index_Some [of t_label l "gr_targets g" i] by (simp add: target_index_def)

lemma stage_index_less: "stage_index g l = Some m \<Longrightarrow> m < length (gr_stages g)"
  using key_index_Some [of st_label l "gr_stages g" m] by (simp add: stage_index_def)

lemma owner_index_less: "output_owner_index g p = Some k \<Longrightarrow> k < length (gr_genrules g)"
  unfolding output_owner_index_def by (drule first_index_less) simp

lemma label_node_ref: "maps_full g s \<Longrightarrow> label_node g s l = Some d \<Longrightarrow> d \<in> node_refs s"
  using target_index_less [of g l] genrule_index_less [of g l]
  by (auto simp: label_node_def genrule_node_of_def node_refs_def maps_full_def split: option.splits dest!: nth_ref [rotated])

lemma plain_node_ref: "maps_full g s \<Longrightarrow> plain_node g s self p = Some d \<Longrightarrow> d \<in> node_refs s"
  using owner_index_less [of g p]
  by (auto simp: plain_node_def node_refs_def maps_full_def split: option.splits if_splits dest!: nth_ref [rotated])

definition item_node :: "qstar_graph \<Rightarrow> nat option \<Rightarrow> string \<Rightarrow> scheduler \<Rightarrow> nat option" where
  "item_node g self item s = (case qstar_target_file_token_label (Some item) PATH_MAX of
      BadToken \<Rightarrow> None | Token label \<Rightarrow> label_node g s label | NotToken \<Rightarrow> plain_node g s self item)"

text \<open>The condition under which edges are added: the maps are there and the user is a node.\<close>

definition at_node :: "qstar_graph \<Rightarrow> nat \<Rightarrow> scheduler \<Rightarrow> bool" where
  "at_node g u s \<longleftrightarrow> maps_full g s \<and> u < node_len s"

lemma static_at [simp]: "static (at_node g u)" "static (item_node g self item)" "static (\<lambda>s. label_node g s l)"
  by (auto simp: static_def at_node_def maps_full_def item_node_def label_node_def plain_node_def genrule_node_of_def
      same_nodes_def frame_def split: token.splits option.splits)

lemma static_into [simp]: "static d \<Longrightarrow> static (\<lambda>s. into u (d s))"
  by (simp add: static_def)

lemma connect_ref_adds:
  assumes "\<And>s x. maps_full g s \<Longrightarrow> d s = Some x \<Longrightarrow> x \<in> node_refs s"
  shows "adds (\<lambda>s. into u (d s)) (at_node g u) (\<lambda>s. connect_node u (d s) s)"
  unfolding adds_def
proof (intro allI impI)
  fix s t
  assume s: "graph_ok s" "at_node g u s" "connect_node u (d s) s = Inr t"
  show "graph_ok t \<and> wider s t \<and> into u (d s) \<subseteq> sched_deps t"
  proof (cases "d s")
    case None
    then show ?thesis using s by (simp add: connect_node_def into_def)
  next
    case (Some x)
    then have "x < node_len s" using assms [of s x] s(1,2) by (auto simp: graph_ok_def at_node_def)
    then show ?thesis using edge_adds [of x u] s Some by (auto simp: adds_def connect_node_def at_node_def into_def)
  qed
qed

lemma item_adds: "adds (\<lambda>s. into u (item_node g self item s)) (at_node g u) (item_edge g err self u item)"
proof (cases "qstar_target_file_token_label (Some item) PATH_MAX")
  case NotToken
  then show ?thesis using connect_ref_adds [OF plain_node_ref] by (simp add: item_edge_def [abs_def] item_node_def)
next
  case BadToken
  then show ?thesis by (simp add: item_edge_def [abs_def] adds_def)
next
  case (Token l)
  then show ?thesis using connect_ref_adds [OF label_node_ref] by (simp add: item_edge_def [abs_def] item_node_def)
qed

section \<open>Combining steps\<close>

lemma adds_chain:
  assumes "adds D P f" "adds E P h" "static E" "static P"
  shows "adds (\<lambda>s. D s \<union> E s) P (\<lambda>s. case f s of Inl e \<Rightarrow> Inl e | Inr t \<Rightarrow> h t)"
  unfolding adds_def
proof (intro allI impI)
  fix s t
  assume s: "graph_ok s" "P s" "(case f s of Inl e \<Rightarrow> Inl e | Inr t \<Rightarrow> h t) = Inr t"
  then obtain u where u: "f s = Inr u" "h u = Inr t" by (auto split: sum.splits)
  have f: "graph_ok u" "wider s u" "D s \<subseteq> sched_deps u" using assms(1) s(1,2) u(1) by (simp_all add: adds_def)
  have "P u" "E u = E s" using staticD [OF assms(4) f(2)] staticD [OF assms(3) f(2)] s(2) by simp_all
  then have h: "graph_ok t" "wider u t" "E s \<subseteq> sched_deps t" using assms(2) f(1) u(2) unfolding adds_def by metis+
  then have "sched_deps u \<subseteq> sched_deps t" by (simp add: wider_def)
  then show "graph_ok t \<and> wider s t \<and> D s \<union> E s \<subseteq> sched_deps t"
    using f h wider_trans by blast
qed

lemma adds_steps:
  assumes "\<And>D f. (D, f) \<in> set ps \<Longrightarrow> adds D P f \<and> static D" "static P"
  shows "adds (\<lambda>s. \<Union>(D, f)\<in>set ps. D s) P (try_fold (\<lambda>f s. f s) (map snd ps))"
  using assms(1)
proof (induction ps)
  case Nil
  then show ?case by (simp add: adds_def)
next
  case (Cons q ps)
  obtain D f where q: "q = (D, f)" by (cases q)
  have ih: "adds (\<lambda>s. \<Union>(D, f)\<in>set ps. D s) P (try_fold (\<lambda>f s. f s) (map snd ps))"
    by (rule Cons.IH) (use Cons.prems in auto)
  have "static (\<lambda>s. \<Union>(D, f)\<in>set ps. D s)" unfolding static_def
  proof (intro allI impI SUP_cong refl)
    fix s t x assume "same_nodes s t" "x \<in> set ps"
    then show "(case x of (D, f) \<Rightarrow> D t) = (case x of (D, f) \<Rightarrow> D s)"
      using Cons.prems [of "fst x" "snd x"] by (cases x) (simp add: static_def)
  qed
  from adds_chain [OF _ ih this assms(2), of D f] Cons.prems [of D f] show ?case by (simp add: q)
qed

text \<open>A loop over nodes that the state determines.\<close>

lemma adds_nodes:
  assumes "\<And>j. adds (D j) (\<lambda>s. P s \<and> j < node_len s) (f j)" "\<And>j. static (D j)" "static P"
    and "\<And>s j. j \<in> set (L s) \<Longrightarrow> j < node_len s"
  shows "adds (\<lambda>s. \<Union>j\<in>set (L s). D j s) P (\<lambda>s. try_fold f (L s) s)"
  unfolding adds_def
proof (intro allI impI)
  fix s t
  assume s: "graph_ok s" "P s" "try_fold f (L s) s = Inr t"
  let ?xs = "L s" and ?P = "\<lambda>s. P s \<and> (\<forall>j\<in>set (L s). j < node_len s)"
  have "adds (\<lambda>u. \<Union>j\<in>set ?xs. D j u) (\<lambda>u. P u \<and> (\<forall>j\<in>set ?xs. j < node_len u)) (try_fold f ?xs)"
  proof (rule adds_fold)
    show "adds (D j) (\<lambda>u. P u \<and> (\<forall>j\<in>set ?xs. j < node_len u)) (f j)" if "j \<in> set ?xs" for j
      by (rule adds_weaken [OF assms(1)]) (use that in auto)
    show "static (\<lambda>u. P u \<and> (\<forall>j\<in>set ?xs. j < node_len u))"
      using assms(3) unfolding static_def same_nodes_def by metis
  qed (rule assms(2))
  then show "graph_ok t \<and> wider s t \<and> (\<Union>j\<in>set ?xs. D j s) \<subseteq> sched_deps t"
    using s assms(4) by (simp add: adds_def)
qed

text \<open>A step for a node that a map of the scheduler gives, if it gives one.\<close>

definition for_ref :: "(scheduler \<Rightarrow> nat option) \<Rightarrow> (nat \<Rightarrow> scheduler \<Rightarrow> (nat \<times> nat) set) \<Rightarrow> scheduler \<Rightarrow> (nat \<times> nat) set" where
  "for_ref r D s = (case r s of None \<Rightarrow> {} | Some n \<Rightarrow> D n s)"

lemma adds_ref:
  assumes "\<And>n. adds (D n) (at_node g n) (f n)" "\<And>s x. maps_full g s \<Longrightarrow> r s = Some x \<Longrightarrow> x \<in> node_refs s"
    and "\<And>t. failed t = Inr t \<or> (\<exists>e. failed t = Inl e)"
  shows "adds (for_ref r D) (maps_full g) (\<lambda>s. case r s of None \<Rightarrow> failed s | Some n \<Rightarrow> f n s)"
  unfolding adds_def
proof (intro allI impI)
  fix s t
  assume s: "graph_ok s" "maps_full g s" "(case r s of None \<Rightarrow> failed s | Some n \<Rightarrow> f n s) = Inr t"
  show "graph_ok t \<and> wider s t \<and> for_ref r D s \<subseteq> sched_deps t"
  proof (cases "r s")
    case None
    then show ?thesis using s assms(3) [of s] by (auto simp: for_ref_def)
  next
    case (Some n)
    then have "at_node g n s" using assms(2) [of s n] s(1,2) by (auto simp: graph_ok_def at_node_def)
    then show ?thesis using assms(1) [of n] s Some by (simp add: adds_def for_ref_def)
  qed
qed

lemma static_ref [simp]: "static r \<Longrightarrow> (\<And>n. static (D n)) \<Longrightarrow> static (for_ref r D)"
  by (auto simp: static_def for_ref_def split: option.splits)

lemma static_UN [simp]: "(\<And>x. static (D x)) \<Longrightarrow> static (\<lambda>s. \<Union>x\<in>X. D x s)"
  by (simp add: static_def)

lemma static_nth [simp]: "static m \<Longrightarrow> static (\<lambda>s. m s ! k)"
  by (simp add: static_def)

lemma static_maps [simp]: "static (maps_full g)"
  by (simp add: static_def maps_full_def same_nodes_def frame_def)

section \<open>The loops over items\<close>

definition items_into :: "qstar_graph \<Rightarrow> nat option \<Rightarrow> string list \<Rightarrow> nat \<Rightarrow> scheduler \<Rightarrow> (nat \<times> nat) set" where
  "items_into g self items u s = (\<Union>item\<in>set items. into u (item_node g self item s))"

lemma static_items [simp]: "static (items_into g self items u)"
  unfolding items_into_def [abs_def] by simp

lemma items_add: "adds (items_into g self items u) (at_node g u) (try_fold (item_edge g err self u) items)"
  unfolding items_into_def [abs_def] by (rule adds_fold [OF item_adds]) simp_all

definition genrule_items :: "qstar_genrule \<Rightarrow> string list" where
  "genrule_items r = str_or_empty (g_tool r) # g_inputs r @ g_args r"

lemma genrule_ref: "maps_full g s \<Longrightarrow> k < length (gr_genrules g) \<Longrightarrow> sc_genrule_node s ! k = Some x \<Longrightarrow> x \<in> node_refs s"
  by (auto simp: node_refs_def maps_full_def dest!: nth_ref [rotated])

lemma stage_ref: "maps_full g s \<Longrightarrow> m < length (gr_stages g) \<Longrightarrow> sc_stage_node s ! m = Some x \<Longrightarrow> x \<in> node_refs s"
  by (auto simp: node_refs_def maps_full_def dest!: nth_ref [rotated])

lemma final_ref: "maps_full g s \<Longrightarrow> i < length (gr_targets g) \<Longrightarrow> sc_target_final_node s ! i = Some x \<Longrightarrow> x \<in> node_refs s"
  by (auto simp: node_refs_def maps_full_def dest!: nth_ref [rotated])

definition genrule_edges :: "qstar_graph \<Rightarrow> scheduler \<Rightarrow> (nat \<times> nat) set" where
  "genrule_edges g s = (\<Union>k<length (gr_genrules g). for_ref (\<lambda>s. sc_genrule_node s ! k)
     (items_into g (Some k) (genrule_items (gr_genrules g ! k))) s)"

lemma genrule_edges_add: "adds (genrule_edges g) (maps_full g) (scheduler_connect_genrule_edges g)"
proof -
  have "adds (\<lambda>s. \<Union>k\<in>set [0..<length (gr_genrules g)]. for_ref (\<lambda>s. sc_genrule_node s ! k)
      (items_into g (Some k) (genrule_items (gr_genrules g ! k))) s) (maps_full g) (scheduler_connect_genrule_edges g)"
    unfolding scheduler_connect_genrule_edges_def Let_def
  proof (rule adds_fold)
    fix k assume "k \<in> set [0..<length (gr_genrules g)]"
    then show "adds (for_ref (\<lambda>s. sc_genrule_node s ! k) (items_into g (Some k) (genrule_items (gr_genrules g ! k)))) (maps_full g)
        (\<lambda>s. case sc_genrule_node s ! k of None \<Rightarrow> Inr s | Some n \<Rightarrow>
           try_fold (scheduler_add_genrule_item_edge g k n) (str_or_empty (g_tool (gr_genrules g ! k)) #
             g_inputs (gr_genrules g ! k) @ g_args (gr_genrules g ! k)) s)"
      using genrule_ref
      by (intro adds_ref) (auto simp: scheduler_add_genrule_item_edge_def Let_def genrule_items_def simp del: try_fold.simps intro: items_add)
  qed simp_all
  then show ?thesis by (simp add: genrule_edges_def [abs_def] atLeast0LessThan)
qed

lemma stage_edges_add: "adds (\<lambda>s. {}) (maps_full g) (scheduler_connect_stage_edges g)"
proof -
  have "adds (\<lambda>s. \<Union>m\<in>set [0..<length (gr_stages g)]. for_ref (\<lambda>s. sc_stage_node s ! m)
      (items_into g None (st_srcs (gr_stages g ! m))) s) (maps_full g) (scheduler_connect_stage_edges g)"
    unfolding scheduler_connect_stage_edges_def Let_def
  proof (rule adds_fold)
    fix m assume "m \<in> set [0..<length (gr_stages g)]"
    then show "adds (for_ref (\<lambda>s. sc_stage_node s ! m) (items_into g None (st_srcs (gr_stages g ! m)))) (maps_full g)
        (\<lambda>s. case sc_stage_node s ! m of None \<Rightarrow> Inr s | Some n \<Rightarrow>
           try_fold (scheduler_add_stage_source_edge g m n) (st_srcs (gr_stages g ! m)) s)"
      using stage_ref
      by (intro adds_ref) (auto simp: scheduler_add_stage_source_edge_def Let_def intro: items_add)
  qed simp_all
  then show ?thesis by (rule adds_weaken) simp_all
qed

lemma label_adds: "adds (\<lambda>s. into u (label_node g s l)) (at_node g u) (\<lambda>s. connect_node u (label_node g s l) s)"
  by (rule connect_ref_adds) (rule label_node_ref)

lemma genrule_adds:
  "k < length (gr_genrules g) \<Longrightarrow> adds (\<lambda>s. into u (sc_genrule_node s ! k)) (at_node g u) (\<lambda>s. connect_node u (sc_genrule_node s ! k) s)"
  by (rule connect_ref_adds) (rule genrule_ref)

lemma adds_none [simp]: "adds (\<lambda>s. {}) P Inr"
  by (simp add: adds_def)

definition deps_into :: "qstar_graph \<Rightarrow> string list \<Rightarrow> nat \<Rightarrow> scheduler \<Rightarrow> (nat \<times> nat) set" where
  "deps_into g deps u s = (\<Union>dep\<in>set deps. if take 1 dep = ''@'' then {} else into u (label_node g s dep))"

lemma static_deps [simp]: "static (deps_into g deps u)"
proof -
  have "static (\<lambda>s. if take 1 dep = ''@'' then {} else into u (label_node g s dep))" for dep
    by (cases "take 1 dep = ''@''") simp_all
  then show ?thesis unfolding deps_into_def [abs_def] by simp
qed

lemma dep_list_adds: "adds (deps_into g deps u) (at_node g u) (scheduler_connect_target_dep_list g u deps)"
  unfolding deps_into_def [abs_def] scheduler_connect_target_dep_list_def
proof (rule adds_fold)
  fix dep
  show "adds (\<lambda>s. if take 1 dep = ''@'' then {} else into u (label_node g s dep)) (at_node g u)
      (\<lambda>s. if take 1 dep = ''@'' then Inr s else connect_node u (label_node g s dep) s)"
    using label_adds by (cases "take 1 dep = ''@''") simp_all
  show "static (\<lambda>s. if take 1 dep = ''@'' then {} else into u (label_node g s dep))"
    by (cases "take 1 dep = ''@''") simp_all
qed simp

definition genrules_into :: "qstar_graph \<Rightarrow> (qstar_genrule \<Rightarrow> bool) \<Rightarrow> nat \<Rightarrow> scheduler \<Rightarrow> (nat \<times> nat) set" where
  "genrules_into g P u s = (\<Union>k\<in>{k. k < length (gr_genrules g) \<and> P (gr_genrules g ! k)}. into u (sc_genrule_node s ! k))"

lemma static_genrules [simp]: "static (genrules_into g P u)"
  unfolding genrules_into_def [abs_def] by simp

lemma genrules_add: "adds (genrules_into g P u) (at_node g u) (connect_genrules_where g P u)"
proof -
  let ?D = "\<lambda>k s. if P (gr_genrules g ! k) then into u (sc_genrule_node s ! k) else {}"
  have st: "static (?D k)" for k by (cases "P (gr_genrules g ! k)") simp_all
  have "adds (\<lambda>s. \<Union>k\<in>set [0..<length (gr_genrules g)]. ?D k s) (at_node g u) (connect_genrules_where g P u)"
    unfolding connect_genrules_where_def
  proof (rule adds_fold [OF _ st])
    fix k assume "k \<in> set [0..<length (gr_genrules g)]"
    then show "adds (?D k) (at_node g u) (\<lambda>s. if \<not> P (gr_genrules g ! k) then Inr s else connect_node u (sc_genrule_node s ! k) s)"
      using genrule_adds by (cases "P (gr_genrules g ! k)") simp_all
  qed simp
  then show ?thesis by (rule adds_weaken) (auto simp: genrules_into_def)
qed

definition usage_items :: "(string list \<times> string list) option \<Rightarrow> string list" where
  "usage_items r = (case r of None \<Rightarrow> [] | Some (options, inputs) \<Rightarrow> inputs)"

lemma usage_adds:
  "adds (items_into g None (usage_items (if link then qstar_graph_collect_link_usage g t else qstar_graph_collect_compile_usage g t)) u)
     (at_node g u) (scheduler_connect_dependency_usage_inputs g t link u)"
proof -
  have "adds (items_into g None (usage_items r) u) (at_node g u) (\<lambda>s. case r of
      None \<Rightarrow> Inl (Plain ''qstar: out of memory'')
    | Some (options, inputs) \<Rightarrow> try_fold (scheduler_add_target_link_input_edge g t u) inputs s)" for r
    using items_add [of g None _ u]
    by (cases r) (auto simp: adds_def [of _ _ "\<lambda>s. Inl e" for e] usage_items_def scheduler_add_target_link_input_edge_def
        scheduler_add_target_file_item_edge_def)
  then show ?thesis unfolding scheduler_connect_dependency_usage_inputs_def by blast
qed

section \<open>The edges of a target\<close>

definition run_input_node :: "qstar_graph \<Rightarrow> string \<Rightarrow> scheduler \<Rightarrow> nat option" where
  "run_input_node g item s = (case qstar_stage_dir_token_label (Some item) PATH_MAX of
      BadToken \<Rightarrow> None
    | Token label \<Rightarrow> (case stage_index g label of None \<Rightarrow> None | Some m \<Rightarrow> sc_stage_node s ! m)
    | NotToken \<Rightarrow> item_node g None item s)"

lemma static_run_input [simp]: "static (run_input_node g item)"
proof (cases "qstar_stage_dir_token_label (Some item) PATH_MAX")
  case (Token l)
  then show ?thesis by (cases "stage_index g l") (simp_all add: run_input_node_def [abs_def])
qed (simp_all add: run_input_node_def [abs_def])

definition run_edges :: "qstar_graph \<Rightarrow> qstar_target \<Rightarrow> nat \<Rightarrow> scheduler \<Rightarrow> (nat \<times> nat) set" where
  "run_edges g t u s = (if t_kind t \<noteq> ''run_target'' then {}
     else items_into g None (t_run_command t) u s \<union> (\<Union>item\<in>set (t_run_inputs t). into u (run_input_node g item s)))"

lemma run_command_adds:
  "adds (\<lambda>s. if t_kind t \<noteq> ''run_target'' then {} else items_into g None (t_run_command t) u s) (at_node g u)
     (scheduler_connect_run_command_edges g t u)"
  using items_add by (simp add: scheduler_connect_run_command_edges_def scheduler_add_target_file_item_edge_def)

lemma run_input_adds:
  "adds (\<lambda>s. if t_kind t \<noteq> ''run_target'' then {} else \<Union>item\<in>set (t_run_inputs t). into u (run_input_node g item s)) (at_node g u)
     (scheduler_connect_run_input_edges g t u)"
proof (cases "t_kind t = ''run_target''")
  case True
  let ?f = "\<lambda>item s. case qstar_stage_dir_token_label (Some item) PATH_MAX of
          BadToken \<Rightarrow> Inl (stage_token_error t)
        | Token label \<Rightarrow> (case stage_index g label of
              None \<Rightarrow> Inl (unknown_stage_error t label)
            | Some m \<Rightarrow> (case sc_stage_node s ! m of
                  None \<Rightarrow> Inl (Origin (t_origin_file t) (t_origin_line t) ''inputs'' (t_label t)
                    (''qstar: stage_dir references unscheduled stage '' @ sq label))
                | Some n \<Rightarrow> scheduler_add_edge n u s))
        | NotToken \<Rightarrow> scheduler_add_target_file_item_edge g t ''inputs'' u item s"
  have "adds (\<lambda>s. into u (run_input_node g item s)) (at_node g u) (?f item)" for item
  proof (cases "qstar_stage_dir_token_label (Some item) PATH_MAX")
    case NotToken
    then show ?thesis using item_adds by (simp add: run_input_node_def scheduler_add_target_file_item_edge_def)
  next
    case BadToken
    then show ?thesis by (simp add: adds_def)
  next
    case (Token l)
    show ?thesis
    proof (cases "stage_index g l")
      case None
      then show ?thesis using Token by (simp add: adds_def)
    next
      case (Some m)
      have "adds (\<lambda>s. into u (sc_stage_node s ! m)) (at_node g u) (\<lambda>s. connect_node u (sc_stage_node s ! m) s)"
        by (rule connect_ref_adds) (use stage_ref stage_index_less [OF Some] in blast)
      then show ?thesis using Token Some
        by (auto simp: adds_def run_input_node_def connect_node_def into_def split: option.splits)
    qed
  qed
  then have "adds (\<lambda>s. \<Union>item\<in>set (t_run_inputs t). into u (run_input_node g item s)) (at_node g u) (try_fold ?f (t_run_inputs t))"
    by (intro adds_fold) simp_all
  then show ?thesis using True by (simp add: scheduler_connect_run_input_edges_def)
qed (simp add: scheduler_connect_run_input_edges_def)

text \<open>Conditions on nodes that edges do not change.\<close>

definition by_ident :: "(sched_node \<Rightarrow> bool) \<Rightarrow> bool" where
  "by_ident Q \<longleftrightarrow> (\<forall>m n. ident m = ident n \<longrightarrow> Q m = Q n)"

lemma ident_owner: "ident m = ident n \<Longrightarrow> source_owner g m = source_owner g n"
  by (simp add: ident_def source_owner_def)

lemma ident_parts: "ident m = ident n \<Longrightarrow> nd_kind m = nd_kind n \<and> nd_source_index m = nd_source_index n"
  by (simp add: ident_def)

lemma by_identI: "(\<And>m n. ident m = ident n \<Longrightarrow> Q m = Q n) \<Longrightarrow> by_ident Q"
  unfolding by_ident_def by blast

lemma by_ident_simps:
  "by_ident compile_node" "by_ident (\<lambda>n. nd_kind n = k)" "by_ident (interface_node g)" "by_ident (pch_user g)"
  "by_ident Q \<Longrightarrow> by_ident R \<Longrightarrow> by_ident (\<lambda>n. Q n \<and> R n)"
proof -
  have "compile_node m = compile_node n \<and> (nd_kind m = k) = (nd_kind n = k) \<and> interface_node g m = interface_node g n \<and>
      pch_user g m = pch_user g n" if "ident m = ident n" for m n
    using ident_parts [OF that] ident_owner [OF that, of g]
    by (simp only: compile_node_def interface_node_def pch_user_def)
  then show "by_ident compile_node" "by_ident (\<lambda>n. nd_kind n = k)" "by_ident (interface_node g)" "by_ident (pch_user g)"
    unfolding by_ident_def by blast+
  show "by_ident Q \<Longrightarrow> by_ident R \<Longrightarrow> by_ident (\<lambda>n. Q n \<and> R n)" unfolding by_ident_def by blast
qed

lemma static_nodes_of: "by_ident Q \<Longrightarrow> static (nodes_of i Q)"
  unfolding static_def nodes_of_def
proof (intro allI impI)
  fix s t assume Q: "by_ident Q" and same: "same_nodes s t"
  then have n: "node_len t = node_len s" and e: "ident (node t j) = ident (node s j)" for j by (simp_all add: same_nodes_def)
  have "nd_target (node t j) = nd_target (node s j)" for j using e [of j] unfolding ident_def Pair_inject by blast
  moreover have "Q (node t j) = Q (node s j)" for j using Q e [of j] unfolding by_ident_def by blast
  ultimately show "filter (\<lambda>j. nd_target (node t j) = Some i \<and> Q (node t j)) [0..<node_len t] =
      filter (\<lambda>j. nd_target (node s j) = Some i \<and> Q (node s j)) [0..<node_len s]" by (simp add: n)
qed

lemma nodes_of_less: "j \<in> set (nodes_of i Q s) \<Longrightarrow> j < node_len s"
  by (simp add: nodes_of_def)

lemma static_UN_nodes: "static L \<Longrightarrow> (\<And>j. static (D j)) \<Longrightarrow> static (\<lambda>s. \<Union>j\<in>set (L s). D j s)"
  by (auto simp: static_def)

definition compile_usage :: "qstar_graph \<Rightarrow> qstar_target \<Rightarrow> string list" where
  "compile_usage g t = usage_items (qstar_graph_collect_compile_usage g t)"

definition link_usage :: "qstar_graph \<Rightarrow> qstar_target \<Rightarrow> string list" where
  "link_usage g t = usage_items (qstar_graph_collect_link_usage g t)"

definition compile_edges :: "qstar_graph \<Rightarrow> qstar_target \<Rightarrow> nat \<Rightarrow> nat \<Rightarrow> scheduler \<Rightarrow> (nat \<times> nat) set" where
  "compile_edges g t final j s = {(j, final)} \<union>
     (genrules_into g (target_compile_consumes_genrule (source_owner g (node s j))) j s \<union> items_into g None (compile_usage g t) j s)"

lemma static_compile_genrules: "static (\<lambda>s. genrules_into g (target_compile_consumes_genrule (source_owner g (node s j))) j s)"
  unfolding static_def
proof (intro allI impI)
  fix s t assume same: "same_nodes s t"
  then have "source_owner g (node t j) = source_owner g (node s j)" by (intro ident_owner) (simp add: same_nodes_def)
  then show "genrules_into g (target_compile_consumes_genrule (source_owner g (node t j))) j t =
      genrules_into g (target_compile_consumes_genrule (source_owner g (node s j))) j s"
    using static_genrules [of g _ j] same by (simp add: static_def)
qed

lemma static_Un [simp]: "static D \<Longrightarrow> static E \<Longrightarrow> static (\<lambda>s. D s \<union> E s)"
  by (simp add: static_def)

lemma static_compile [simp]: "static (compile_edges g t final j)"
  unfolding compile_edges_def [abs_def] by (intro static_Un static_compile_genrules) simp_all

lemma compile_adds:
  "adds (compile_edges g t final j) (\<lambda>s. at_node g final s \<and> j < node_len s) (connect_compile g t final j)"
  unfolding compile_edges_def [abs_def] connect_compile_def [abs_def]
proof (rule adds_chain)
  show "adds (\<lambda>s. {(j, final)}) (\<lambda>s. at_node g final s \<and> j < node_len s) (scheduler_add_edge j final)"
    by (rule adds_weaken [OF edge_adds]) (simp_all add: at_node_def)
  let ?G = "\<lambda>s. genrules_into g (target_compile_consumes_genrule (source_owner g (node s j))) j s"
  have "adds ?G (at_node g j) (\<lambda>s. scheduler_connect_compile_genrules g (source_owner g (node s j)) j s)"
    using genrules_add [of g _ j] by (simp add: adds_def scheduler_connect_compile_genrules_def)
  moreover have "adds (items_into g None (compile_usage g t) j) (at_node g j) (scheduler_connect_dependency_usage_inputs g t False j)"
    using usage_adds [of g False t j] by (simp add: compile_usage_def)
  ultimately show "adds (\<lambda>s. ?G s \<union> items_into g None (compile_usage g t) j s) (\<lambda>s. at_node g final s \<and> j < node_len s)
      (\<lambda>s. case scheduler_connect_compile_genrules g (source_owner g (node s j)) j s of Inl e \<Rightarrow> Inl e | Inr s \<Rightarrow>
        scheduler_connect_dependency_usage_inputs g t False j s)"
    by (intro adds_weaken [OF adds_chain [where P = "at_node g j"]]) (auto simp: at_node_def)
  show "static (\<lambda>s. at_node g final s \<and> j < node_len s)" by (simp add: static_def at_node_def maps_full_def same_nodes_def frame_def)
qed (intro static_Un static_compile_genrules static_items)

definition compiles_edges :: "qstar_graph \<Rightarrow> nat \<Rightarrow> nat \<Rightarrow> scheduler \<Rightarrow> (nat \<times> nat) set" where
  "compiles_edges g i final s = (\<Union>j\<in>set (nodes_of i compile_node s). compile_edges g (gr_targets g ! i) final j s)"

lemma compiles_add:
  "adds (compiles_edges g i final) (at_node g final) (\<lambda>s. try_fold (connect_compile g (gr_targets g ! i) final) (nodes_of i compile_node s) s)"
  unfolding compiles_edges_def [abs_def]
  by (rule adds_nodes [OF compile_adds]) (simp_all add: nodes_of_less)

text \<open>Precompiled headers and modules: here it is enough that they add edges only.\<close>

lemma pairs_add:
  assumes "\<And>s k. k \<in> set (L s) \<Longrightarrow> k < node_len s"
  shows "adds (\<lambda>s. {}) (\<lambda>s. j < node_len s) (\<lambda>s. try_fold (\<lambda>k. scheduler_add_edge j k) (L s) s)"
proof -
  have "adds (\<lambda>s. \<Union>k\<in>set (L s). {(j, k)}) (\<lambda>s. j < node_len s) (\<lambda>s. try_fold (\<lambda>k. scheduler_add_edge j k) (L s) s)"
    by (rule adds_nodes [OF edge_adds _ _ assms]) (simp_all add: static_def same_nodes_def)
  then show ?thesis by (rule adds_weaken) simp_all
qed

lemma pch_adds: "adds (\<lambda>s. {}) (\<lambda>s. at_node g u s \<and> j < node_len s) (connect_pch g i t j)"
proof -
  have a: "adds (\<lambda>s. {}) (at_node g j) (scheduler_add_target_file_item_edge g t ''lang.cxx.precompiled_header'' j item)" for item
    unfolding scheduler_add_target_file_item_edge_def by (rule adds_weaken [OF item_adds]) simp_all
  have b: "adds (\<lambda>s. {}) (at_node g j) (scheduler_connect_dependency_usage_inputs g t False j)"
    by (rule adds_weaken [OF usage_adds]) simp_all
  have c: "adds (\<lambda>s. {}) (at_node g j) (\<lambda>s. try_fold (\<lambda>k. scheduler_add_edge j k) (nodes_of i (pch_user g) s) s)"
    by (rule adds_weaken [OF pairs_add]) (simp_all add: nodes_of_less at_node_def)
  have "adds (\<lambda>s. {} \<union> ({} \<union> {})) (at_node g j) (connect_pch g i t j)"
    unfolding connect_pch_def [abs_def] by (rule adds_chain [OF a adds_chain [OF b c]]) simp_all
  then show ?thesis by (rule adds_weaken) (auto simp: at_node_def)
qed

lemma modules_add: "adds (\<lambda>s. {}) (\<lambda>s. at_node g u s \<and> j < node_len s) (connect_modules g i j)"
proof -
  have "adds (\<lambda>s. {}) (\<lambda>s. j < node_len s) (connect_modules g i j)"
    unfolding connect_modules_def [abs_def] by (rule pairs_add) (simp add: nodes_of_def)
  then show ?thesis by (rule adds_weaken) simp_all
qed

definition target_edges :: "qstar_graph \<Rightarrow> nat \<Rightarrow> nat \<Rightarrow> scheduler \<Rightarrow> (nat \<times> nat) set" where
  "target_edges g i final s = (let t = gr_targets g ! i in
     deps_into g (t_objects t @ t_deps t @ t_private_deps t) final s \<union> run_edges g t final s \<union>
     (if passive_kind (t_kind t) \<noteq> None then {}
      else genrules_into g (target_consumes_genrule t) final s \<union> items_into g None (link_usage g t @ t_link_inputs t) final s \<union>
        compiles_edges g i final s))"

lemma static_compiles [simp]: "static (compiles_edges g i final)"
  unfolding compiles_edges_def [abs_def] by (rule static_UN_nodes [OF static_nodes_of]) (simp_all add: by_ident_simps)

lemma static_run [simp]: "static (run_edges g t u)"
  unfolding run_edges_def [abs_def] by (cases "t_kind t = ''run_target''") simp_all

lemma static_target [simp]: "static (target_edges g i final)"
  unfolding target_edges_def [abs_def] Let_def
  by (cases "passive_kind (t_kind (gr_targets g ! i)) = None") simp_all

lemma target_steps_add:
  "adds (target_edges g i final) (at_node g final) (try_fold (\<lambda>step s. step s) (connect_steps g i final))"
proof -
  let ?t = "gr_targets g ! i"
  let ?none = "\<lambda>s :: scheduler. {} :: (nat \<times> nat) set"
  define ps where "ps =
    [(deps_into g (t_objects ?t) final, scheduler_connect_target_dep_list g final (t_objects ?t)),
     (deps_into g (t_deps ?t) final, scheduler_connect_target_dep_list g final (t_deps ?t)),
     (deps_into g (t_private_deps ?t) final, scheduler_connect_target_dep_list g final (t_private_deps ?t)),
     ((\<lambda>s. if t_kind ?t \<noteq> ''run_target'' then {} else items_into g None (t_run_command ?t) final s),
       scheduler_connect_run_command_edges g ?t final),
     ((\<lambda>s. if t_kind ?t \<noteq> ''run_target'' then {} else \<Union>item\<in>set (t_run_inputs ?t). into final (run_input_node g item s)),
       scheduler_connect_run_input_edges g ?t final)]"
  define qs where "qs =
    [(genrules_into g (target_consumes_genrule ?t) final, scheduler_connect_consumed_genrules g ?t final),
     (items_into g None (link_usage g ?t) final, scheduler_connect_dependency_usage_inputs g ?t True final),
     (items_into g None (t_link_inputs ?t) final, try_fold (scheduler_add_target_link_input_edge g ?t final) (t_link_inputs ?t)),
     (compiles_edges g i final, \<lambda>s. try_fold (connect_compile g ?t final) (nodes_of i compile_node s) s),
     (?none, \<lambda>s. try_fold (connect_pch g i ?t) (nodes_of i (\<lambda>n. nd_kind n = SchedCxxPch) s) s)]"
  define ms where "ms = (if t_cxx_modules_enabled ?t
    then [(?none, \<lambda>s. try_fold (connect_modules g i) (nodes_of i (\<lambda>n. compile_node n \<and> interface_node g n) s) s)] else [])"
  define all where "all = ps @ (if passive_kind (t_kind ?t) \<noteq> None then [] else qs @ ms)"
  have nodes: "adds ?none (at_node g final) (\<lambda>s. try_fold f (nodes_of i Q s) s)"
    if "\<And>j. adds ?none (\<lambda>s. at_node g final s \<and> j < node_len s) (f j)" for f Q
    by (rule adds_weaken [OF adds_nodes [OF that]]) (auto simp: nodes_of_less)
  have st: "static (\<lambda>s. if t_kind ?t \<noteq> ''run_target'' then {} else E s)" if "static E" for E :: "scheduler \<Rightarrow> (nat \<times> nat) set"
    using that by (cases "t_kind ?t = ''run_target''") simp_all
  have "\<forall>(D, f)\<in>set ps. adds D (at_node g final) f \<and> static D"
    unfolding ps_def by (simp only: list.set ball_simps prod.case dep_list_adds run_command_adds run_input_adds st
        static_deps static_items static_run_input static_into static_UN simp_thms)
  then have ps: "adds D (at_node g final) f \<and> static D" if "(D, f) \<in> set ps" for D f
    using that by blast
  have qs: "adds D (at_node g final) f \<and> static D" if "(D, f) \<in> set qs" for D f
    using that genrules_add usage_adds [of g True ?t final] items_add compiles_add nodes [OF pch_adds] unfolding qs_def
    by (auto simp: scheduler_connect_consumed_genrules_def link_usage_def scheduler_add_target_link_input_edge_def
        scheduler_add_target_file_item_edge_def)
  have ms: "adds D (at_node g final) f \<and> static D" if "(D, f) \<in> set ms" for D f
    using that nodes [OF modules_add] unfolding ms_def by (auto split: if_splits)
  have "adds (\<lambda>s. \<Union>(D, f)\<in>set all. D s) (at_node g final) (try_fold (\<lambda>f s. f s) (map snd all))"
    by (rule adds_steps) (use ps qs ms in \<open>auto simp: all_def split: if_splits\<close>)
  moreover have "map snd all = connect_steps g i final"
    by (simp add: all_def ps_def qs_def ms_def connect_steps_def Let_def)
  moreover have "target_edges g i final s \<subseteq> (\<Union>(D, f)\<in>set all. D s)" for s
    by (auto simp: all_def ps_def qs_def target_edges_def Let_def deps_into_def items_into_def run_edges_def split: if_splits)
  ultimately show ?thesis by (auto intro: adds_weaken)
qed

lemma adds_loop:
  "adds (\<lambda>s. \<Union>i\<in>set (sc_targets s). for_ref (\<lambda>s. sc_target_final_node s ! i) (target_edges g i) s)
     (\<lambda>s. maps_full g s \<and> (\<forall>i\<in>set (sc_targets s). i < length (gr_targets g))) (scheduler_connect_target_edges g)"
proof -
  let ?f = "\<lambda>i s. case sc_target_final_node s ! i of
      None \<Rightarrow> Inl (Plain ''qstar: missing target final node'')
    | Some final \<Rightarrow> try_fold (\<lambda>step s. step s) (connect_steps g i final) s"
  have one: "adds (for_ref (\<lambda>s. sc_target_final_node s ! i) (target_edges g i)) (maps_full g) (?f i)" if "i < length (gr_targets g)" for i
    by (rule adds_ref [OF target_steps_add]) (use that final_ref in auto)
  have "adds (\<lambda>s. \<Union>i\<in>set is. for_ref (\<lambda>s. sc_target_final_node s ! i) (target_edges g i) s) (maps_full g) (try_fold ?f is)"
    if "\<forall>i\<in>set is. i < length (gr_targets g)" for "is"
    by (rule adds_fold) (use that one in auto)
  then show ?thesis unfolding adds_def scheduler_connect_target_edges_def by blast
qed

end
