(* ===== verification/QBuildOrder.thy ===== *)
theory QBuildOrder
  imports QActionGraphProps
begin

text \<open>
  A whole build (\<open>build_with_action_scheduler\<close> of \<open>executor.c\<close>): discovery, the action graph and its execution.
  The nodes are exactly those of the work that was discovered, the graph is well formed, and in every run
  producers complete before their users begin.
\<close>

section \<open>New nodes\<close>

definition extends :: "sched_node \<Rightarrow> scheduler \<Rightarrow> scheduler \<Rightarrow> bool" where
  "extends n s t \<longleftrightarrow> sc_nodes t = sc_nodes s @ [n] \<and> sc_ready t = sc_ready s \<and>
     nd_state n = SchedPending \<and> nd_remaining n = 0 \<and> nd_deps n = [] \<and> nd_outs n = []"

lemma extends_node:
  assumes "extends n s t"
  shows "node_len t = Suc (node_len s)" "k < node_len s \<Longrightarrow> node t k = node s k" "node t (node_len s) = n"
  using assms by (simp_all add: extends_def node_len_def node_def nth_append)

lemma extends_ok:
  assumes "extends n s t" "well_formed s"
  shows "well_formed t"
proof -
  note new = extends_node [OF assms(1)]
  have u: "unstarted t"
    using assms by (auto simp: well_formed_def unstarted_def new less_Suc_eq extends_def)
  let ?u = "scheduler_add_node (nd_kind n) None None 0 0 s"
  have "same_edges ?u t" unfolding same_edges_def
  proof (intro conjI allI)
    show "node_len t = node_len ?u" by (simp add: new node_add_node)
    fix i
    show "nd_deps (node t i) = nd_deps (node ?u i)" "nd_outs (node t i) = nd_outs (node ?u i)" "nd_kind (node t i) = nd_kind (node ?u i)"
      using assms(1) by (auto simp: extends_def node_def scheduler_add_node_def nth_append nth_Cons split: nat.splits)
  qed
  then have "edges_agree t" using edges_agree_add_node [of s] same_edges_agree assms(2) by (simp add: well_formed_def)
  with u show ?thesis by (simp add: well_formed_def)
qed

definition idents :: "scheduler \<Rightarrow> identity list" where
  "idents s = map ident (sc_nodes s)"

lemma extends_idents: "extends n s t \<Longrightarrow> idents t = idents s @ [ident n]"
  by (simp add: extends_def idents_def)

text \<open>The maps name nodes of the right identity.\<close>

definition final_ident :: "qstar_graph \<Rightarrow> nat \<Rightarrow> identity" where
  "final_ident g i = ((case passive_kind (t_kind (gr_targets g ! i)) of
       Some k \<Rightarrow> k | None \<Rightarrow> if t_kind (gr_targets g ! i) = ''objectlib'' then SchedObjectlib else SchedFinal),
     Some i, Some i, None, None, 0, 0)"

definition genrule_ident :: "nat \<Rightarrow> identity" where
  "genrule_ident k = (SchedGenerate, None, None, Some k, None, 0, 0)"

definition stage_ident :: "nat \<Rightarrow> identity" where
  "stage_ident m = (SchedStage, None, None, None, Some m, 0, 0)"

definition refs_ok :: "nat option list \<Rightarrow> (nat \<Rightarrow> identity) \<Rightarrow> scheduler \<Rightarrow> bool" where
  "refs_ok m f s \<longleftrightarrow> (\<forall>i n. i < length m \<longrightarrow> m ! i = Some n \<longrightarrow> n < node_len s \<and> ident (node s n) = f i)"

definition created :: "qstar_graph \<Rightarrow> scheduler \<Rightarrow> bool" where
  "created g s \<longleftrightarrow> well_formed s \<and> maps_full g s \<and> refs_ok (sc_target_final_node s) (final_ident g) s \<and>
     refs_ok (sc_genrule_node s) genrule_ident s \<and> refs_ok (sc_stage_node s) stage_ident s"

lemma refs_extend: "extends n s t \<Longrightarrow> refs_ok m f s \<Longrightarrow> refs_ok m f t"
  using extends_node [of n s t] by (auto simp: refs_ok_def)

lemma refs_update:
  assumes "extends n s t" "refs_ok m f s" "ident n = f i"
  shows "refs_ok (m[i := Some (node_len s)]) f t"
  unfolding refs_ok_def
proof (intro allI impI)
  fix j k assume j: "j < length (m[i := Some (node_len s)])" "m[i := Some (node_len s)] ! j = Some k"
  note new = extends_node [OF assms(1)]
  show "k < node_len t \<and> ident (node t k) = f j"
  proof (cases "j = i")
    case True
    then have "k = node_len s" using j by simp
    then show ?thesis using assms(3) True new(1,3) by simp
  next
    case False
    then have "k < node_len s \<and> ident (node s k) = f j" using j assms(2) by (simp add: refs_ok_def)
    then show ?thesis using new(1,2) by simp
  qed
qed

lemma created_ok: "created g s \<Longrightarrow> graph_ok s"
  by (force simp: created_def graph_ok_def node_refs_def refs_ok_def in_set_conv_nth)

section \<open>The nodes of targets\<close>

text \<open>What discovery has settled, and the maps of the other two kinds.\<close>

definition work_of :: "scheduler \<Rightarrow> nat list \<times> bool list \<times> bool list" where
  "work_of s = (sc_targets s, sc_genrule_needed s, sc_stage_needed s)"

definition unit_ident :: "nat \<Rightarrow> sched_kind \<times> nat \<times> nat \<times> nat \<Rightarrow> identity" where
  "unit_ident i u = (case u of (kind, ob, source, action) \<Rightarrow> (kind, Some i, Some ob, None, None, source, action))"

definition target_idents :: "qstar_graph \<Rightarrow> nat \<Rightarrow> identity list" where
  "target_idents g i = (if passive_kind (t_kind (gr_targets g ! i)) = None then map (unit_ident i) (compile_units g i) else []) @
     [final_ident g i]"

lemma compile_node_created:
  assumes "created g s" "add_compile_node kind i tc u (s, n) = (t, m)"
  shows "created g t" "idents t = idents s @ [unit_ident i (kind, u)]" "frame t = frame s"
proof -
  obtain ob source action where u: "u = (ob, source, action)" by (cases u)
  let ?n = "node t (node_len s)"
  have t: "t = edit_node (node_len s) (\<lambda>n. n\<lparr>nd_source_owner := Some ob, nd_action_index := action, nd_toolchain := Some tc\<rparr>)
        (scheduler_add_node kind (Some i) None source n s)"
    using assms(2) by (simp add: add_compile_node_def u)
  have e: "extends ?n s t" "ident ?n = unit_ident i (kind, u)" "frame t = frame s"
    unfolding t by (simp_all add: extends_def edit_node_def scheduler_add_node_def node_len_def node_def nth_append list_update_append
        frame_def ident_def unit_ident_def u)
  show "frame t = frame s" by (rule e(3))
  show "idents t = idents s @ [unit_ident i (kind, u)]" using extends_idents [OF e(1)] e(2) by simp
  show "created g t"
    using assms(1) extends_ok [OF e(1)] refs_extend [OF e(1)] e(3) by (simp add: created_def maps_full_def frame_def)
qed

lemma compile_nodes_created:
  assumes "created g s"
  shows "created g (fst (fold (\<lambda>(kind, u). add_compile_node kind i tc u) us (s, n)))"
    "idents (fst (fold (\<lambda>(kind, u). add_compile_node kind i tc u) us (s, n))) = idents s @ map (unit_ident i) us"
    "frame (fst (fold (\<lambda>(kind, u). add_compile_node kind i tc u) us (s, n))) = frame s"
proof -
  let ?r = "\<lambda>us s n. fst (fold (\<lambda>(kind, u). add_compile_node kind i tc u) us (s, n))"
  have "created g (?r us s n) \<and> idents (?r us s n) = idents s @ map (unit_ident i) us \<and> frame (?r us s n) = frame s"
    using assms
  proof (induction us arbitrary: s n)
    case (Cons x us)
    obtain kind u where x: "x = (kind, u)" by (cases x)
    obtain t m where t: "add_compile_node kind i tc u (s, n) = (t, m)" by fastforce
    note c = compile_node_created [OF Cons.prems t]
    show ?case using Cons.IH [OF c(1), of m] c(2,3) by (simp add: x t)
  qed simp
  then show "created g (?r us s n)" "idents (?r us s n) = idents s @ map (unit_ident i) us" "frame (?r us s n) = frame s" by blast+
qed

lemma final_node_created:
  assumes "created g s" "i < length (gr_targets g)"
    and kind: "fst (final_ident g i) = kind"
  shows "created g (add_final_node kind i tc s)" "idents (add_final_node kind i tc s) = idents s @ [final_ident g i]"
    "frame (add_final_node kind i tc s) = frame (s\<lparr>sc_target_final_node := (sc_target_final_node s)[i := Some (node_len s)]\<rparr>)"
proof -
  let ?t = "add_final_node kind i tc s"
  let ?n = "node ?t (node_len s)"
  have f: "final_ident g i = (kind, Some i, Some i, None, None, 0, 0)" using kind by (simp add: final_ident_def)
  have e: "extends ?n s ?t" "ident ?n = final_ident g i"
    "frame ?t = frame (s\<lparr>sc_target_final_node := (sc_target_final_node s)[i := Some (node_len s)]\<rparr>)"
    unfolding f by (simp_all add: add_final_node_def extends_def edit_node_def scheduler_add_node_def node_len_def node_def nth_append
        list_update_append frame_def ident_def)
  show "frame ?t = frame (s\<lparr>sc_target_final_node := (sc_target_final_node s)[i := Some (node_len s)]\<rparr>)" by (rule e(3))
  show "idents ?t = idents s @ [final_ident g i]" using extends_idents [OF e(1)] e(2) by simp
  have "refs_ok ((sc_target_final_node s)[i := Some (node_len s)]) (final_ident g) ?t"
    using refs_update [where i = i and f = "final_ident g", OF e(1) _ e(2)] assms(1) by (simp add: created_def)
  then show "created g ?t"
    using assms(1) extends_ok [OF e(1)] refs_extend [OF e(1)] e(3) by (simp add: created_def maps_full_def frame_def)
qed

lemma set_some: "k < length m \<Longrightarrow> m ! k \<noteq> None \<or> k = j \<Longrightarrow> m[j := Some n] ! k \<noteq> None"
  by (cases "k = j") simp_all

lemma target_created:
  assumes "created g s" "i < length (gr_targets g)" "scheduler_create_target_nodes h g i s = Inr t"
  shows "created g t" "idents t = idents s @ target_idents g i"
    "frame t = frame (s\<lparr>sc_target_final_node := sc_target_final_node t\<rparr>)"
    "\<exists>n. sc_target_final_node t = (sc_target_final_node s)[i := Some n]"
proof -
  have "\<exists>kind tc u. t = add_final_node kind i tc u \<and> fst (final_ident g i) = kind \<and> created g u \<and> frame u = frame s \<and>
      idents u @ [final_ident g i] = idents s @ target_idents g i"
  proof (cases "passive_kind (t_kind (gr_targets g ! i))")
    case (Some kind)
    then have "t = add_final_node kind i None s" using assms(3) by (simp add: scheduler_create_target_nodes_def Let_def)
    then show ?thesis using assms(1) Some by (intro exI [of _ kind] exI [of _ None] exI [of _ s]) (simp add: final_ident_def target_idents_def)
  next
    case None
    define tc where "tc = qstar_resolve_toolchain (bh_os h) g (t_toolset (gr_targets g ! i))"
    define u where "u = fst (fold (\<lambda>(kind, u). add_compile_node kind i tc u) (compile_units g i) (s, 0))"
    define kind where "kind = (if t_kind (gr_targets g ! i) = ''objectlib'' then SchedObjectlib else SchedFinal)"
    have "t = add_final_node kind i (Some tc) u"
      using assms(3) None unfolding scheduler_create_target_nodes_def Let_def tc_def u_def kind_def by (auto split: sum.splits)
    moreover have "fst (final_ident g i) = kind" using None by (simp add: final_ident_def kind_def)
    moreover have "created g u" "frame u = frame s" "idents u = idents s @ map (unit_ident i) (compile_units g i)"
      unfolding u_def by (rule compile_nodes_created [OF assms(1)])+
    ultimately show ?thesis using None
      by (intro exI [of _ kind] exI [of _ "Some tc"] exI [of _ u]) (simp add: target_idents_def)
  qed
  then obtain kind tc u where t: "t = add_final_node kind i tc u" "fst (final_ident g i) = kind" "created g u" "frame u = frame s"
    "idents u @ [final_ident g i] = idents s @ target_idents g i" by blast
  note f = final_node_created [OF t(3) assms(2) t(2), of tc, folded t(1)]
  show "created g t" by (rule f(1))
  show "idents t = idents s @ target_idents g i" using f(2) t(5) by simp
  have "sc_target_final_node t = (sc_target_final_node s)[i := Some (node_len u)]" using f(3) t(4) by (simp add: frame_def)
  then show "\<exists>n. sc_target_final_node t = (sc_target_final_node s)[i := Some n]" by blast
  show "frame t = frame (s\<lparr>sc_target_final_node := sc_target_final_node t\<rparr>)" using f(3) t(4) by (simp add: frame_def)
qed

lemma targets_created:
  assumes "created g s" "\<forall>i\<in>set is. i < length (gr_targets g)" "try_fold (scheduler_create_target_nodes h g) is s = Inr t"
  shows "created g t" "idents t = idents s @ concat (map (target_idents g) is)"
    "frame t = frame (s\<lparr>sc_target_final_node := sc_target_final_node t\<rparr>)"
    "i \<in> set is \<or> sc_target_final_node s ! i \<noteq> None \<Longrightarrow> i < length (gr_targets g) \<Longrightarrow> sc_target_final_node t ! i \<noteq> None"
proof -
  have "created g t \<and> idents t = idents s @ concat (map (target_idents g) is) \<and>
    frame t = frame (s\<lparr>sc_target_final_node := sc_target_final_node t\<rparr>) \<and>
    (\<forall>i. i \<in> set is \<or> sc_target_final_node s ! i \<noteq> None \<longrightarrow> i < length (gr_targets g) \<longrightarrow> sc_target_final_node t ! i \<noteq> None)"
    using assms
  proof (induction "is" arbitrary: s)
    case Nil
    then show ?case by simp
  next
    case (Cons j js)
    from Cons.prems(3) obtain u where u: "scheduler_create_target_nodes h g j s = Inr u"
      "try_fold (scheduler_create_target_nodes h g) js u = Inr t" by (auto split: sum.splits)
    have j: "j < length (gr_targets g)" "\<forall>i\<in>set js. i < length (gr_targets g)" using Cons.prems(2) by simp_all
    note c = target_created [OF Cons.prems(1) j(1) u(1)]
    note ih = Cons.IH [OF c(1) j(2) u(2)]
    obtain n where n: "sc_target_final_node u = (sc_target_final_node s)[j := Some n]" using c(4) by blast
    have len: "length (sc_target_final_node s) = length (gr_targets g)" using Cons.prems(1) by (simp add: created_def maps_full_def)
    have "sc_target_final_node u ! i \<noteq> None" if "i = j \<or> sc_target_final_node s ! i \<noteq> None" "i < length (gr_targets g)" for i
      unfolding n by (rule set_some) (use that len in auto)
    then show ?case using ih c(2,3) by (auto simp: frame_def)
  qed
  then show "created g t" "idents t = idents s @ concat (map (target_idents g) is)"
    "frame t = frame (s\<lparr>sc_target_final_node := sc_target_final_node t\<rparr>)"
    "i \<in> set is \<or> sc_target_final_node s ! i \<noteq> None \<Longrightarrow> i < length (gr_targets g) \<Longrightarrow> sc_target_final_node t ! i \<noteq> None"
    by blast+
qed

section \<open>The nodes of actions and stages\<close>

text \<open>Both loops run through positions, add a node for those that are needed and note it in one map, \<open>m\<close>.\<close>

lemma needed_created:
  assumes step: "\<And>s k. created g s \<Longrightarrow> needed s k \<Longrightarrow> \<exists>n. extends n s (f k s) \<and> ident n = name k \<and> created g (f k s) \<and>
      r (f k s) = r s \<and> m (f k s) = (m s)[k := Some (node_len s)]"
    and skip: "\<And>s k. \<not> needed s k \<Longrightarrow> f k s = s"
    and keep: "\<And>s k. needed (f k s) = needed s"
    and size: "\<And>s. created g s \<Longrightarrow> length (m s) = len"
    and start: "created g s"
  shows "created g (fold f ks s)" "idents (fold f ks s) = idents s @ map name (filter (needed s) ks)" "r (fold f ks s) = r s"
    "k < len \<Longrightarrow> k \<in> set ks \<Longrightarrow> needed s k \<Longrightarrow> m (fold f ks s) ! k \<noteq> None"
proof -
  have "created g (fold f ks s) \<and> idents (fold f ks s) = idents s @ map name (filter (needed s) ks) \<and> r (fold f ks s) = r s \<and>
    (\<forall>k < len. m s ! k \<noteq> None \<or> k \<in> set ks \<and> needed s k \<longrightarrow> m (fold f ks s) ! k \<noteq> None)"
    using start
  proof (induction ks arbitrary: s)
    case (Cons j ks)
    show ?case
    proof (cases "needed s j")
      case False
      then show ?thesis using Cons.IH [OF Cons.prems] skip [of s j] by auto
    next
      case True
      from step [OF Cons.prems this] obtain n where n: "extends n s (f j s)" "ident n = name j" "created g (f j s)"
        "r (f j s) = r s" "m (f j s) = (m s)[j := Some (node_len s)]" by blast
      have "m (f j s) ! k \<noteq> None" if "k < len" "m s ! k \<noteq> None \<or> k = j" for k
        unfolding n(5) by (rule set_some) (use that size [OF Cons.prems] in auto)
      then show ?thesis using Cons.IH [OF n(3)] True extends_idents [OF n(1)] n(2,4) keep [of j s] by auto
    qed
  qed simp
  then show "created g (fold f ks s)" "idents (fold f ks s) = idents s @ map name (filter (needed s) ks)" "r (fold f ks s) = r s"
    "k < len \<Longrightarrow> k \<in> set ks \<Longrightarrow> needed s k \<Longrightarrow> m (fold f ks s) ! k \<noteq> None" by blast+
qed

text \<open>One such step.\<close>

lemma genrule_created:
  fixes s :: scheduler and k :: nat
  assumes "created g s"
  defines "t \<equiv> (scheduler_add_node SchedGenerate None (Some k) 0 0 s)\<lparr>sc_genrule_node := (sc_genrule_node s)[k := Some (node_len s)]\<rparr>"
  shows "extends (node t (node_len s)) s t \<and> ident (node t (node_len s)) = genrule_ident k \<and> created g t"
proof -
  let ?n = "node t (node_len s)"
  have e: "extends ?n s t" "ident ?n = genrule_ident k"
    by (simp_all add: t_def extends_def scheduler_add_node_def node_len_def node_def nth_append ident_def genrule_ident_def)
  have "refs_ok ((sc_genrule_node s)[k := Some (node_len s)]) genrule_ident t"
    using refs_update [where i = k and f = genrule_ident, OF e(1) _ e(2)] assms(1) by (simp add: created_def)
  moreover have "frame t = frame (s\<lparr>sc_genrule_node := (sc_genrule_node s)[k := Some (node_len s)]\<rparr>)"
    by (simp add: t_def frame_def scheduler_add_node_def)
  ultimately show ?thesis
    using assms(1) e extends_ok [OF e(1)] refs_extend [OF e(1)] by (simp add: created_def maps_full_def frame_def)
qed

lemma stage_created:
  fixes s :: scheduler and k :: nat
  assumes "created g s"
  defines "t \<equiv> (edit_node (node_len s) (\<lambda>n. n\<lparr>nd_stage := Some k\<rparr>) (scheduler_add_node SchedStage None None 0 0 s))
            \<lparr>sc_stage_node := (sc_stage_node s)[k := Some (node_len s)]\<rparr>"
  shows "extends (node t (node_len s)) s t \<and> ident (node t (node_len s)) = stage_ident k \<and> created g t"
proof -
  let ?n = "node t (node_len s)"
  have e: "extends ?n s t" "ident ?n = stage_ident k"
    by (simp_all add: t_def extends_def edit_node_def scheduler_add_node_def node_len_def node_def nth_append list_update_append
        ident_def stage_ident_def)
  have "refs_ok ((sc_stage_node s)[k := Some (node_len s)]) stage_ident t"
    using refs_update [where i = k and f = stage_ident, OF e(1) _ e(2)] assms(1) by (simp add: created_def)
  moreover have "frame t = frame (s\<lparr>sc_stage_node := (sc_stage_node s)[k := Some (node_len s)]\<rparr>)"
    by (simp add: t_def frame_def edit_node_def scheduler_add_node_def)
  ultimately show ?thesis
    using assms(1) e extends_ok [OF e(1)] refs_extend [OF e(1)] by (simp add: created_def maps_full_def frame_def)
qed

lemmas genrules_created =
  needed_created [where needed = "\<lambda>s k. sc_genrule_needed s ! k" and name = genrule_ident and m = sc_genrule_node and
    r = "\<lambda>s. (work_of s, sc_target_final_node s, sc_stage_node s)" and
    f = "\<lambda>k s. if \<not> sc_genrule_needed s ! k then s
      else (scheduler_add_node SchedGenerate None (Some k) 0 0 s)\<lparr>sc_genrule_node := (sc_genrule_node s)[k := Some (node_len s)]\<rparr>"
    and ks = "[0..<length (gr_genrules g)]" and len = "length (gr_genrules g)" and g = g, folded scheduler_create_genrule_nodes_def]
  for g

lemmas stages_created =
  needed_created [where needed = "\<lambda>s k. sc_stage_needed s ! k" and name = stage_ident and m = sc_stage_node and
    r = "\<lambda>s. (work_of s, sc_target_final_node s, sc_genrule_node s)" and
    f = "\<lambda>k s. if \<not> sc_stage_needed s ! k then s
      else (edit_node (node_len s) (\<lambda>n. n\<lparr>nd_stage := Some k\<rparr>) (scheduler_add_node SchedStage None None 0 0 s))
            \<lparr>sc_stage_node := (sc_stage_node s)[k := Some (node_len s)]\<rparr>"
    and ks = "[0..<length (gr_stages g)]" and len = "length (gr_stages g)" and g = g, folded scheduler_create_stage_nodes_def]
  for g

lemma actions_created:
  assumes "created g s"
  defines "t \<equiv> scheduler_create_genrule_nodes g s"
  shows "created g t" "idents t = idents s @ map genrule_ident (filter (\<lambda>k. sc_genrule_needed s ! k) [0..<length (gr_genrules g)])"
    "(work_of t, sc_target_final_node t, sc_stage_node t) = (work_of s, sc_target_final_node s, sc_stage_node s)"
    "k < length (gr_genrules g) \<Longrightarrow> sc_genrule_needed s ! k \<Longrightarrow> sc_genrule_node t ! k \<noteq> None"
  unfolding t_def
  by (rule genrules_created;
      use assms(1) genrule_created [of g] in \<open>force simp: created_def maps_full_def work_of_def scheduler_add_node_def\<close>)+

lemma stages_all_created:
  assumes "created g s"
  defines "t \<equiv> scheduler_create_stage_nodes g s"
  shows "created g t" "idents t = idents s @ map stage_ident (filter (\<lambda>m. sc_stage_needed s ! m) [0..<length (gr_stages g)])"
    "(work_of t, sc_target_final_node t, sc_genrule_node t) = (work_of s, sc_target_final_node s, sc_genrule_node s)"
    "m < length (gr_stages g) \<Longrightarrow> sc_stage_needed s ! m \<Longrightarrow> sc_stage_node t ! m \<noteq> None"
  unfolding t_def
  by (rule stages_created;
      use assms(1) stage_created [of g] in \<open>force simp: created_def maps_full_def work_of_def scheduler_add_node_def edit_node_def\<close>)+

section \<open>The graph that is built\<close>

text \<open>The nodes of a build, in their order.\<close>

definition planned_nodes :: "qstar_graph \<Rightarrow> scheduler \<Rightarrow> identity list" where
  "planned_nodes g s = concat (map (target_idents g) (sc_targets s)) @
     map genrule_ident (filter (\<lambda>k. sc_genrule_needed s ! k) [0..<length (gr_genrules g)]) @
     map stage_ident (filter (\<lambda>m. sc_stage_needed s ! m) [0..<length (gr_stages g)])"

text \<open>The node of a piece of work.\<close>

definition work_node :: "scheduler \<Rightarrow> work \<Rightarrow> nat option" where
  "work_node s w = (case w of NeedTarget i \<Rightarrow> sc_target_final_node s ! i | NeedGenrule k \<Rightarrow> sc_genrule_node s ! k
     | NeedStage m \<Rightarrow> sc_stage_node s ! m)"

definition target_loop_edges :: "qstar_graph \<Rightarrow> scheduler \<Rightarrow> (nat \<times> nat) set" where
  "target_loop_edges g s = (\<Union>i\<in>set (sc_targets s). for_ref (\<lambda>s. sc_target_final_node s ! i) (target_edges g i) s)"

definition action_graph :: "qstar_graph \<Rightarrow> scheduler \<Rightarrow> scheduler \<Rightarrow> bool" where
  "action_graph g s t \<longleftrightarrow> created g t \<and> work_of t = work_of s \<and> idents t = planned_nodes g s \<and>
     (\<forall>w\<in>found s. work_node t w \<noteq> None) \<and> genrule_edges g t \<union> target_loop_edges g t \<subseteq> sched_deps t"

lemma discovered:
  assumes "scheduler_discover g label (scheduler_init g) = Some (Inr s)"
  shows "disc_inv g s" "rest s = rest (scheduler_init g)" "demand g `` found s \<subseteq> found s"
proof -
  obtain t where t: "disc_inv g t" "rest t = rest (scheduler_init g)" "discover_rounds g (discover_fuel g) t = Some (Inr s)"
    using discover_start [OF assms] by (metis Inl_Inr_False option.inject)
  from rounds_ok [OF t(1,3), of UNIV] t(2) show "disc_inv g s" "rest s = rest (scheduler_init g)" "demand g `` found s \<subseteq> found s"
    by auto
qed

lemma work_node_less:
  assumes "action_graph g s t" "disc_inv g s" "v \<in> found s" "work_node t v = Some n"
  shows "n < node_len t"
proof -
  have t: "created g t" using assms(1) by (simp add: action_graph_def)
  have "n \<in> node_refs t"
  proof (cases v)
    case (NeedTarget i)
    then show ?thesis using final_ref [of g t i n] targets_less [OF assms(2), of i] t assms(3,4) by (simp add: created_def work_node_def)
  next
    case (NeedGenrule k)
    then show ?thesis using genrule_ref [of g t k n] t assms
      by (simp add: created_def work_node_def marked_def disc_inv_def seen_inv_def maps_fit_def)
  next
    case (NeedStage m)
    then show ?thesis using stage_ref [of g t m n] t assms
      by (simp add: created_def work_node_def marked_def disc_inv_def seen_inv_def maps_fit_def)
  qed
  then show ?thesis using created_ok [OF t] by (auto simp: graph_ok_def)
qed

lemma same_idents: "same_nodes s t \<Longrightarrow> idents t = idents s"
  unfolding idents_def by (rule nth_equalityI) (auto simp: same_nodes_def node_len_def node_def)

lemma same_created:
  assumes "created g s" "wider s t" "graph_ok t"
  shows "created g t" "idents t = idents s" "frame t = frame s"
proof -
  have w: "frame t = frame s" "node_len t = node_len s" "\<And>j. ident (node t j) = ident (node s j)"
    using assms(2) by (simp_all add: wider_def same_nodes_def)
  then have "refs_ok m f t = refs_ok m f s" for m f by (simp add: refs_ok_def)
  then show "created g t" using assms(1,3) w(1) by (simp add: created_def graph_ok_def maps_full_def frame_def)
  show "idents t = idents s" using assms(2) by (simp add: wider_def same_idents)
  show "frame t = frame s" by (rule w(1))
qed

lemma created_start: "rest s = rest (scheduler_init g) \<Longrightarrow> created g s \<and> idents s = []"
  by (simp add: rest_def scheduler_init_def created_def maps_full_def refs_ok_def well_formed_def edges_agree_def unstarted_def
      node_len_def idents_def)

lemma static_loop: "static (genrule_edges g)" "static (target_loop_edges g)"
proof -
  show "static (genrule_edges g)" unfolding genrule_edges_def [abs_def] by simp
  show "static (target_loop_edges g)" unfolding static_def target_loop_edges_def
  proof (intro allI impI)
    fix s t assume same: "same_nodes s t"
    have "static (for_ref (\<lambda>s. sc_target_final_node s ! i) (target_edges g i))" for i by simp
    then have "for_ref (\<lambda>s. sc_target_final_node s ! i) (target_edges g i) t = for_ref (\<lambda>s. sc_target_final_node s ! i) (target_edges g i) s" for i
      using same unfolding static_def by blast
    moreover have "sc_targets t = sc_targets s" using same by (simp add: same_nodes_def frame_def)
    ultimately show "(\<Union>i\<in>set (sc_targets t). for_ref (\<lambda>s. sc_target_final_node s ! i) (target_edges g i) t) =
        (\<Union>i\<in>set (sc_targets s). for_ref (\<lambda>s. sc_target_final_node s ! i) (target_edges g i) s)" by simp
  qed
qed

lemma edges_connected:
  assumes "created g s" "\<forall>i\<in>set (sc_targets s). i < length (gr_targets g)"
    "try_fold (\<lambda>step s. step s) [scheduler_connect_genrule_edges g, scheduler_connect_stage_edges g, scheduler_connect_target_edges g] s = Inr t"
  shows "graph_ok t" "wider s t" "genrule_edges g t \<union> target_loop_edges g t \<subseteq> sched_deps t"
proof -
  let ?P = "\<lambda>s. maps_full g s \<and> (\<forall>i\<in>set (sc_targets s). i < length (gr_targets g))"
  let ?ps = "[(genrule_edges g, scheduler_connect_genrule_edges g), (\<lambda>s. {}, scheduler_connect_stage_edges g),
    (target_loop_edges g, scheduler_connect_target_edges g)]"
  have "adds (\<lambda>s. \<Union>(D, f)\<in>set ?ps. D s) ?P (try_fold (\<lambda>f s. f s) (map snd ?ps))"
  proof (rule adds_steps)
    have "adds (genrule_edges g) ?P (scheduler_connect_genrule_edges g)" by (rule adds_weaken [OF genrule_edges_add]) simp_all
    moreover have "adds (\<lambda>s. {}) ?P (scheduler_connect_stage_edges g)" by (rule adds_weaken [OF stage_edges_add]) simp_all
    moreover have "adds (target_loop_edges g) ?P (scheduler_connect_target_edges g)"
      by (rule adds_weaken [OF adds_loop]) (simp_all add: target_loop_edges_def)
    ultimately show "adds D ?P f \<and> static D" if "(D, f) \<in> set ?ps" for D f
      using that static_loop by auto
    show "static ?P" by (simp add: static_def same_nodes_def frame_def maps_full_def)
  qed
  then have t: "graph_ok t \<and> wider s t \<and> (\<Union>(D, f)\<in>set ?ps. D s) \<subseteq> sched_deps t"
    using assms created_ok [OF assms(1)] unfolding adds_def created_def by auto
  then have "genrule_edges g t = genrule_edges g s" "target_loop_edges g t = target_loop_edges g s"
    using staticD static_loop by blast+
  with t show "graph_ok t" "wider s t" "genrule_edges g t \<union> target_loop_edges g t \<subseteq> sched_deps t" by auto
qed

lemma build_ok:
  assumes "scheduler_discover g label (scheduler_init g) = Some (Inr s)" "scheduler_build_nodes h g s = Inr t"
  shows "action_graph g s t"
proof -
  note d = discovered [OF assms(1)]
  have inv: "\<forall>i\<in>set (sc_targets s). i < length (gr_targets g)" using targets_less [OF d(1)] by blast
  from assms(2) obtain u where u: "try_fold (scheduler_create_target_nodes h g) (sc_targets s) s = Inr u"
    "try_fold (\<lambda>step s. step s) [scheduler_connect_genrule_edges g, scheduler_connect_stage_edges g, scheduler_connect_target_edges g]
       (scheduler_create_stage_nodes g (scheduler_create_genrule_nodes g u)) = Inr t"
    unfolding scheduler_build_nodes_def by (cases "try_fold (scheduler_create_target_nodes h g) (sc_targets s) s") auto
  note c1 = targets_created [OF conjunct1 [OF created_start [OF d(2)]] inv u(1)]
  note c2 = actions_created [OF c1(1)]
  note c3 = stages_all_created [OF c2(1)]
  let ?v = "scheduler_create_stage_nodes g (scheduler_create_genrule_nodes g u)"
  have w: "work_of u = work_of s" "work_of (scheduler_create_genrule_nodes g u) = work_of s" "work_of ?v = work_of s"
    using c1(3) c2(3) c3(3) by (simp_all add: frame_def work_of_def)
  then have wv: "\<forall>i\<in>set (sc_targets ?v). i < length (gr_targets g)" using inv by (simp add: work_of_def)
  note e = edges_connected [OF c3(1) wv u(2)]
  note s = same_created [OF c3(1) e(2,1)]
  have "idents ?v = planned_nodes g s"
    using c1(2) c2(2) c3(2) w created_start [OF d(2)] by (simp add: planned_nodes_def work_of_def)
  moreover have "work_node ?v x \<noteq> None" if "x \<in> found s" for x
  proof (cases x)
    case (NeedTarget i)
    then show ?thesis using c1(4) [of i] that inv c2(3) c3(3) by (simp add: work_node_def)
  next
    case (NeedGenrule k)
    then show ?thesis using c2(4) [of k] that d(1) c3(3) w(1)
      by (simp add: work_node_def marked_def disc_inv_def seen_inv_def maps_fit_def work_of_def)
  next
    case (NeedStage m)
    then show ?thesis using c3(4) [of m] that d(1) w(2)
      by (simp add: work_node_def marked_def disc_inv_def seen_inv_def maps_fit_def work_of_def)
  qed
  moreover have "work_node t x = work_node ?v x" for x using s(3) by (cases x) (simp_all add: work_node_def frame_def)
  moreover have "work_of t = work_of s" using s(3) w(3) by (simp add: frame_def work_of_def)
  ultimately show ?thesis using s e(3) by (simp add: action_graph_def)
qed

section \<open>Edges and runs\<close>

text \<open>In the log every beginning of \<open>n\<close> comes after the completion of \<open>d\<close>.\<close>

definition completes_first :: "event list \<Rightarrow> nat \<Rightarrow> nat \<Rightarrow> bool" where
  "completes_first log d n \<longleftrightarrow> list_all (\<lambda>p. log ! p = Begun n \<longrightarrow> Completed d \<in> set (take p log)) [0..<length log]"

lemma edge_completes_first:
  assumes "action_graph g s t" "x \<in> exec_states a t w" "(d, n) \<in> sched_deps t"
  shows "completes_first (ex_log x) d n"
proof -
  have "well_formed t" using assms(1) by (simp add: action_graph_def created_def)
  note order = log_order [OF states_inv [OF assms(2) this]]
  show ?thesis unfolding completes_first_def list_all_iff
  proof (intro ballI impI)
    fix p assume "p \<in> set [0..<length (ex_log x)]" "ex_log x ! p = Begun n"
    then show "Completed d \<in> set (take p (ex_log x))" using order [of p] assms(3) by (simp add: sched_deps_def)
  qed
qed

lemma label_work_node:
  "Inr v \<in> set (label_work g l) \<Longrightarrow> work_node t v = Some d \<Longrightarrow> label_node g t l = Some d"
  by (cases "target_index g l"; cases "genrule_index g l")
    (simp_all add: label_work_def label_node_def work_node_def genrule_node_of_def)

lemma plain_work_node:
  "Inr v \<in> set (plain_work g self item) \<Longrightarrow> work_node t v = Some d \<Longrightarrow> plain_node g t self item = Some d"
  by (cases "output_owner_index g item") (auto simp: plain_work_def plain_node_def work_node_def split: if_splits)

text \<open>What an item asks for, and the node from which it gets its edge.\<close>

definition item_work :: "qstar_graph \<Rightarrow> nat option \<Rightarrow> qerr \<Rightarrow> string \<Rightarrow> (qerr + work) list" where
  "item_work g self e item = (case qstar_target_file_token_label (Some item) PATH_MAX of
      BadToken \<Rightarrow> [Inl e] | Token label \<Rightarrow> label_work g label | NotToken \<Rightarrow> plain_work g self item)"

lemma item_work_node: "Inr v \<in> set (item_work g self e item) \<Longrightarrow> work_node t v = Some d \<Longrightarrow> item_node g self item t = Some d"
  using label_work_node plain_work_node by (auto simp: item_work_def item_node_def split: token.splits)

lemma into_iff [simp]: "(d, n) \<in> into u x \<longleftrightarrow> n = u \<and> x = Some d"
  by (auto simp: into_def)

lemma items_edge:
  "item \<in> set items \<Longrightarrow> Inr v \<in> set (item_work g self e item) \<Longrightarrow> work_node t v = Some d \<Longrightarrow> (d, n) \<in> items_into g self items n t"
  using item_work_node [of v g self e item t d] by (auto simp: items_into_def)

lemma genrule_edge:
  assumes graph: "action_graph g s t" and k: "k < length (gr_genrules g)" "sc_genrule_node t ! k = Some n"
    and v: "Inr v \<in> set (scheduler_discover_genrule_deps g k)" "work_node t v = Some d"
  shows "(d, n) \<in> sched_deps t"
proof -
  obtain item e where "item \<in> set (genrule_items (gr_genrules g ! k))" "Inr v \<in> set (item_work g (Some k) e item)"
    using v(1) unfolding scheduler_discover_genrule_deps_def item_work_def genrule_items_def Let_def by auto
  from items_edge [OF this v(2), of n] have "(d, n) \<in> for_ref (\<lambda>s. sc_genrule_node s ! k)
      (items_into g (Some k) (genrule_items (gr_genrules g ! k))) t" using k(2) by (simp add: for_ref_def)
  then have "(d, n) \<in> genrule_edges g t" using k(1) unfolding genrule_edges_def by blast
  then show ?thesis using graph by (auto simp: action_graph_def)
qed

lemma found_targets: "action_graph g s t \<Longrightarrow> sc_targets t = sc_targets s \<and> sc_genrule_needed t = sc_genrule_needed s"
  by (simp add: action_graph_def work_of_def)

lemma target_edge:
  assumes "action_graph g s t" "i \<in> set (sc_targets s)" "sc_target_final_node t ! i = Some n" "(d, m) \<in> target_edges g i n t"
  shows "(d, m) \<in> sched_deps t"
proof -
  have "(d, m) \<in> target_loop_edges g t" unfolding target_loop_edges_def
    by (rule UN_I [of i]) (use assms(2-4) found_targets [OF assms(1)] in \<open>simp_all add: for_ref_def\<close>)
  then show ?thesis using assms(1) by (auto simp: action_graph_def)
qed

lemma dep_edge:
  assumes "dep \<in> set (t_objects (gr_targets g ! i) @ t_deps (gr_targets g ! i) @ t_private_deps (gr_targets g ! i))"
    "take 1 dep \<noteq> ''@''" "target_index g dep = Some j" "sc_target_final_node t ! j = Some d"
  shows "(d, n) \<in> target_edges g i n t"
proof -
  have "(d, n) \<in> deps_into g (t_objects (gr_targets g ! i) @ t_deps (gr_targets g ! i) @ t_private_deps (gr_targets g ! i)) n t"
    unfolding deps_into_def by (rule UN_I [OF assms(1)]) (use assms(2-4) in \<open>simp add: label_node_def\<close>)
  then show ?thesis by (simp add: target_edges_def Let_def)
qed

lemma consumed_edge:
  assumes "passive_kind (t_kind (gr_targets g ! i)) = None" "k < length (gr_genrules g)"
    "target_consumes_genrule (gr_targets g ! i) (gr_genrules g ! k)" "sc_genrule_node t ! k = Some d"
  shows "(d, n) \<in> target_edges g i n t"
  using assms by (auto simp: target_edges_def Let_def genrules_into_def)

lemma compile_edge:
  assumes "passive_kind (t_kind (gr_targets g ! i)) = None" "j \<in> set (nodes_of i compile_node t)"
  shows "compile_edges g (gr_targets g ! i) n j t \<subseteq> target_edges g i n t"
  using assms by (auto simp: target_edges_def Let_def compiles_edges_def)

lemma compile_consumes: "target_compile_consumes_genrule t r \<Longrightarrow> target_consumes_genrule t r"
proof -
  have "generated_output_in_list r (t_sources t)" if "out \<in> set (g_outputs r)" "j < length (t_sources t)" "out = t_sources t ! j" for out j
    using that nth_mem [OF that(2)] by (auto simp: generated_output_in_list_def list_ex_iff simp del: nth_mem)
  then show "target_compile_consumes_genrule t r \<Longrightarrow> target_consumes_genrule t r"
    unfolding target_compile_consumes_genrule_def target_consumes_genrule_def list_ex_iff by (elim disjE bexE conjE) auto
qed

lemma consumed_found:
  assumes "scheduler_discover g label (scheduler_init g) = Some (Inr s)"
    "i \<in> set (sc_targets s)" "k < length (gr_genrules g)" "target_consumes_genrule (gr_targets g ! i) (gr_genrules g ! k)"
  shows "NeedGenrule k \<in> found s"
proof -
  note d = discovered [OF assms(1)]
  have "Inr (NeedGenrule k) \<in> set (target_work g i)"
    using assms(3,4) by (auto simp: target_work_def scheduler_discover_target_genrules_def Let_def)
  then have "(NeedTarget i, NeedGenrule k) \<in> demand g" using targets_less [OF d(1) assms(2)] by (auto simp: demand_def)
  then show ?thesis using d(3) assms(2) by (meson Image_iff found_iff(1) subsetD)
qed

text \<open>The owner of the source of a compilation is a target that was found.\<close>

lemma unit_owner:
  assumes "(kind, ob, source, action) \<in> set (compile_units g i)" "i < length (gr_targets g)"
  shows "ob = i \<or> (i, ob) \<in> plan_edges g"
  using assms plan_edges_iff [of i ob g]
  by (auto simp: compile_units_def Let_def consumer_compiles_def split: option.splits if_splits)

lemma compile_owner_found:
  assumes d: "scheduler_discover g label (scheduler_init g) = Some (Inr s)" and graph: "action_graph g s t"
    and j: "j < node_len t" "nd_kind (node t j) = SchedCompile"
  obtains i ob where "nd_target (node t j) = Some i" "nd_source_owner (node t j) = Some ob" "i \<in> set (sc_targets s)" "ob \<in> set (sc_targets s)"
    "passive_kind (t_kind (gr_targets g ! i)) = None"
proof -
  note disc = discovered [OF d]
  have "ident (node t j) \<in> set (idents t)" using j(1) by (simp add: idents_def node_def node_len_def)
  then have "ident (node t j) \<in> set (planned_nodes g s)" using graph by (simp add: action_graph_def)
  then obtain i where i: "i \<in> set (sc_targets s)" "ident (node t j) \<in> set (target_idents g i)"
    using j(2) by (auto simp: planned_nodes_def ident_def genrule_ident_def stage_ident_def)
  have "fst (ident (node t j)) = SchedCompile" using j(2) by (simp add: ident_def)
  then have "ident (node t j) \<noteq> final_ident g i"
    by (auto simp: final_ident_def passive_kind_def split: if_splits)
  then obtain kind ob source action where u: "(kind, ob, source, action) \<in> set (compile_units g i)"
    "ident (node t j) = (kind, Some i, Some ob, None, None, source, action)" "passive_kind (t_kind (gr_targets g ! i)) = None"
    using i(2) by (auto simp: target_idents_def unit_ident_def split: if_splits)
  have "ob \<in> set (sc_targets s)"
    using unit_owner [OF u(1) targets_less [OF disc(1) i(1)]] i(1) disc(1) by (auto simp: disc_inv_def)
  then show ?thesis using i(1) u(2,3) by (intro that [of i ob]) (simp_all add: ident_def)
qed

section \<open>The build\<close>

text \<open>\<open>None\<close>: no return.\<close>

definition scheduler_graph :: "build_host \<Rightarrow> qstar_graph \<Rightarrow> cstr \<Rightarrow> (qerr + scheduler) option" where
  "scheduler_graph h g label = (case scheduler_discover g label (scheduler_init g) of
      None \<Rightarrow> None | Some (Inl e) \<Rightarrow> Some (Inl e) | Some (Inr s) \<Rightarrow> Some (scheduler_build_nodes h g s))"

definition build_with_action_scheduler ::
  "build_host \<Rightarrow> qstar_graph \<Rightarrow> 'w actions \<Rightarrow> cstr \<Rightarrow> 'w \<Rightarrow> (qerr + 'w exec) option" where
  "build_with_action_scheduler h g a label w = (case scheduler_graph h g label of
      None \<Rightarrow> None | Some (Inl e) \<Rightarrow> Some (Inl e) | Some (Inr t) \<Rightarrow> map_option Inr (scheduler_execute a t w))"

lemma graph_inv:
  assumes "scheduler_graph h g label = Some (Inr t)"
  obtains s where "scheduler_discover g label (scheduler_init g) = Some (Inr s)" "action_graph g s t"
    "found s = found t" "sc_targets s = sc_targets t" "planned_nodes g s = planned_nodes g t" "disc_inv g s" "demand g `` found s \<subseteq> found s"
proof -
  obtain s where s: "scheduler_discover g label (scheduler_init g) = Some (Inr s)" "scheduler_build_nodes h g s = Inr t"
    using assms by (auto simp: scheduler_graph_def split: option.splits sum.splits)
  have graph: "action_graph g s t" by (rule build_ok [OF s])
  then have "found s = found t" "sc_targets s = sc_targets t" "planned_nodes g s = planned_nodes g t"
    by (simp_all add: action_graph_def work_of_def found_def planned_nodes_def)
  with discovered [OF s(1)] show ?thesis by (intro that [OF s(1) graph])
qed

lemma graph_nodes: "action_graph g s t \<Longrightarrow> v \<in> found s \<Longrightarrow> \<exists>d. work_node t v = Some d"
  by (auto simp: action_graph_def)

section \<open>An example\<close>

text \<open>
  A program that uses a library with a generated header, whose generator needs the output of another action.
\<close>

definition demo_host :: build_host where
  "demo_host = \<lparr>bh_os = HostLinux, bh_exec = (\<lambda>p. True), bh_path = Some ''/usr/bin''\<rparr>"

definition order_graph :: qstar_graph where
  "order_graph = zero_qstar_graph\<lparr>
     gr_targets := [
       zero_qstar_target\<lparr>t_label := ''//:lib'', t_kind := ''staticlib'', t_sources := [''lib.c''], t_public_headers := [''gen.h'']\<rparr>,
       zero_qstar_target\<lparr>t_label := ''//:app'', t_kind := ''executable'', t_sources := [''app.c''], t_deps := [''//:lib'']\<rparr>],
     gr_genrules := [
       zero_qstar_genrule\<lparr>g_label := ''//:gen'', g_tool := Some ''cc'', g_inputs := [''tmpl.txt''], g_outputs := [''gen.h'']\<rparr>,
       zero_qstar_genrule\<lparr>g_label := ''//:tmpl'', g_tool := Some ''cc'', g_outputs := [''tmpl.txt'']\<rparr>]\<rparr>"

definition order_schedule :: scheduler where
  "order_schedule = (case scheduler_graph demo_host order_graph (Some ''//:app'') of Some (Inr t) \<Rightarrow> t | _ \<Rightarrow> scheduler_init order_graph)"

definition order_run :: "unit exec" where
  "order_run = (exec_step sample_actions ^^ 40) (exec_start sample_actions order_schedule ())"

lemma order_scheduled: "scheduler_graph demo_host order_graph (Some ''//:app'') = Some (Inr order_schedule)"
proof -
  define r where "r = scheduler_graph demo_host order_graph (Some ''//:app'')"
  have "(case r of Some (Inr t) \<Rightarrow> True | _ \<Rightarrow> False)" unfolding r_def by code_simp
  then obtain t where "r = Some (Inr t)" by (auto split: option.splits sum.splits)
  then show ?thesis unfolding order_schedule_def r_def by simp
qed

lemma order_run_states: "order_run \<in> exec_states sample_actions order_schedule ()"
  unfolding order_run_def by (rule steps_states)

lemma order_facts:
  "map (\<lambda>n. (nd_kind n, nd_target n, nd_source_owner n, nd_deps n)) (sc_nodes order_schedule) =
    [(SchedCompile, Some 0, Some 0, [4]), (SchedFinal, Some 0, Some 0, [4, 0]), (SchedCompile, Some 1, Some 1, []),
     (SchedFinal, Some 1, Some 1, [1, 2]), (SchedGenerate, None, None, [5]), (SchedGenerate, None, None, [])] \<and>
   (sc_targets order_schedule, sc_genrule_needed order_schedule, sc_target_final_node order_schedule, sc_genrule_node order_schedule) =
    ([0, 1], [True, True], [Some 1, Some 3], [Some 4, Some 5])"
  by code_simp

lemma order_nodes: "node_len order_schedule = 6" "nd_kind (node order_schedule 0) = SchedCompile" "nd_source_owner (node order_schedule 0) = Some 0"
proof -
  have len: "node_len order_schedule = 6" using arg_cong [OF conjunct1 [OF order_facts], of length] by (simp add: node_len_def)
  then have "map (\<lambda>n. (nd_kind n, nd_target n, nd_source_owner n, nd_deps n)) (sc_nodes order_schedule) ! 0 = (SchedCompile, Some 0, Some 0, [4])"
    unfolding conjunct1 [OF order_facts] by simp
  then show "node_len order_schedule = 6" "nd_kind (node order_schedule 0) = SchedCompile" "nd_source_owner (node order_schedule 0) = Some 0"
    using len by (simp_all add: node_def node_len_def)
qed

lemma order_found: "found order_schedule = (demand order_graph)\<^sup>* `` work_roots order_graph (Some ''//:app'')"
  using order_scheduled by (rule graph_inv) (simp add: discover_found)

section \<open>Properties\<close>

text \<open>
  C4: what is scheduled is exactly what the requested label demands; the action graph has one node for every
  compilation and final action of a scheduled target, one for every generated action and one for every
  stage, in this order; edges are known at both ends, counters count them, and nothing has started.
\<close>

theorem action_graph_exact:
  assumes "scheduler_graph h g label = Some (Inr t)"
  shows "found t = (demand g)\<^sup>* `` work_roots g label \<and> idents t = planned_nodes g t \<and> edges_agree t \<and> unstarted t"
proof -
  obtain s where s: "scheduler_discover g label (scheduler_init g) = Some (Inr s)" "action_graph g s t" "found s = found t"
    "planned_nodes g s = planned_nodes g t" by (rule graph_inv [OF assms])
  have "found t = (demand g)\<^sup>* `` work_roots g label" using discover_found [OF s(1)] s(3) by simp
  then show ?thesis using s(2,4) by (simp add: action_graph_def created_def well_formed_def)
qed

theorem action_graph_exact_witness:
  "found order_schedule = (demand order_graph)\<^sup>* `` work_roots order_graph (Some ''//:app'')"
  using action_graph_exact [OF order_scheduled] by (rule conjunct1)

text \<open>
  C9: in every run a generated action begins only after everything it asks for has completed: the targets and
  the other generated actions its tool, its inputs and its arguments name.
\<close>

theorem generated_actions_wait:
  assumes "scheduler_graph h g label = Some (Inr t)" "x \<in> exec_states a t w"
    and "NeedGenrule k \<in> found t" "Inr v \<in> set (scheduler_discover_genrule_deps g k)"
  shows "\<exists>d n. work_node t v = Some d \<and> work_node t (NeedGenrule k) = Some n \<and> completes_first (ex_log x) d n"
proof -
  obtain s where s: "action_graph g s t" "found s = found t" "disc_inv g s" "demand g `` found s \<subseteq> found s"
    by (rule graph_inv [OF assms(1)])
  have needed: "NeedGenrule k \<in> found s" using assms(3) s(2) by simp
  then have k: "k < length (gr_genrules g)" using s(3) by (simp add: marked_def disc_inv_def seen_inv_def maps_fit_def)
  then have "(NeedGenrule k, v) \<in> demand g" using assms(4) by (auto simp: demand_def)
  then have "v \<in> found s" using s(4) needed by blast
  then obtain d n where d: "work_node t v = Some d" "work_node t (NeedGenrule k) = Some n"
    using graph_nodes [OF s(1)] needed by blast
  then have "(d, n) \<in> sched_deps t" using genrule_edge [OF s(1) k _ assms(4)] by (simp add: work_node_def)
  from edge_completes_first [OF s(1) assms(2) this] d show ?thesis by blast
qed

theorem generated_actions_wait_witness: "completes_first (ex_log order_run) 5 4"
proof -
  have "NeedGenrule 0 \<in> found order_schedule" using order_facts by (simp add: marked_def)
  moreover have "list_ex (\<lambda>v. v = Inr (NeedGenrule 1)) (scheduler_discover_genrule_deps order_graph 0)" by code_simp
  then have "Inr (NeedGenrule 1) \<in> set (scheduler_discover_genrule_deps order_graph 0)" by (simp add: list_ex_iff)
  ultimately show ?thesis
    using generated_actions_wait [OF order_scheduled order_run_states, of 0 "NeedGenrule 1"] order_facts by (simp add: work_node_def)
qed

lemma final_waits:
  assumes "scheduler_graph h g label = Some (Inr t)" "x \<in> exec_states a t w" "i \<in> set (sc_targets t)"
  shows "dep \<in> set (t_objects (gr_targets g ! i) @ t_deps (gr_targets g ! i) @ t_private_deps (gr_targets g ! i)) \<Longrightarrow>
      take 1 dep \<noteq> ''@'' \<Longrightarrow> target_index g dep = Some j \<Longrightarrow>
      \<exists>d n. work_node t (NeedTarget j) = Some d \<and> work_node t (NeedTarget i) = Some n \<and> completes_first (ex_log x) d n"
    "passive_kind (t_kind (gr_targets g ! i)) = None \<Longrightarrow> j \<in> set (nodes_of i compile_node t) \<Longrightarrow>
      \<exists>n. work_node t (NeedTarget i) = Some n \<and> completes_first (ex_log x) j n"
    "passive_kind (t_kind (gr_targets g ! i)) = None \<Longrightarrow> k < length (gr_genrules g) \<Longrightarrow>
      target_consumes_genrule (gr_targets g ! i) (gr_genrules g ! k) \<Longrightarrow>
      \<exists>d n. work_node t (NeedGenrule k) = Some d \<and> work_node t (NeedTarget i) = Some n \<and> completes_first (ex_log x) d n"
proof -
  obtain s where s: "scheduler_discover g label (scheduler_init g) = Some (Inr s)" "action_graph g s t" "found s = found t"
    "sc_targets s = sc_targets t" "disc_inv g s" by (rule graph_inv [OF assms(1)])
  have i: "i \<in> set (sc_targets s)" using assms(3) s(4) by simp
  obtain n where n: "work_node t (NeedTarget i) = Some n" using graph_nodes [OF s(2), of "NeedTarget i"] i by auto
  then have ref: "sc_target_final_node t ! i = Some n" by (simp add: work_node_def)
  note first = edge_completes_first [OF s(2) assms(2) target_edge [OF s(2) i ref]]
  show "\<exists>d n. work_node t (NeedTarget j) = Some d \<and> work_node t (NeedTarget i) = Some n \<and> completes_first (ex_log x) d n"
    if "dep \<in> set (t_objects (gr_targets g ! i) @ t_deps (gr_targets g ! i) @ t_private_deps (gr_targets g ! i))"
      "take 1 dep \<noteq> ''@''" "target_index g dep = Some j"
  proof -
    have "(i, j) \<in> plan_edges g" using that(1,3) targets_less [OF s(5) i] by (auto simp: plan_edges_iff)
    then have "NeedTarget j \<in> found s" using s(5) i by (auto simp: disc_inv_def)
    then obtain d where d: "work_node t (NeedTarget j) = Some d" using graph_nodes [OF s(2)] by blast
    then have "sc_target_final_node t ! j = Some d" by (simp add: work_node_def)
    from first [OF dep_edge [OF that this]] d n show ?thesis by blast
  qed
  show "\<exists>n. work_node t (NeedTarget i) = Some n \<and> completes_first (ex_log x) j n"
    if "passive_kind (t_kind (gr_targets g ! i)) = None" "j \<in> set (nodes_of i compile_node t)"
    using first [OF subsetD [OF compile_edge [OF that]], of j n] n by (simp add: compile_edges_def)
  show "\<exists>d n. work_node t (NeedGenrule k) = Some d \<and> work_node t (NeedTarget i) = Some n \<and> completes_first (ex_log x) d n"
    if "passive_kind (t_kind (gr_targets g ! i)) = None" "k < length (gr_genrules g)"
      "target_consumes_genrule (gr_targets g ! i) (gr_genrules g ! k)"
  proof -
    note found = consumed_found [OF s(1) i that(2,3)]
    obtain d where d: "work_node t (NeedGenrule k) = Some d"
      using graph_nodes [OF s(2) found] by blast
    then have "sc_genrule_node t ! k = Some d" by (simp add: work_node_def)
    from first [OF consumed_edge [OF that this]] d n show ?thesis by blast
  qed
qed

text \<open>
  C13: in every run the final action of a target begins only after the final actions of its dependencies, its
  own compilations and the generators of its files have completed.
\<close>

theorem final_actions_wait:
  assumes "scheduler_graph h g label = Some (Inr t)" "x \<in> exec_states a t w" "i \<in> set (sc_targets t)"
  shows "\<exists>n. work_node t (NeedTarget i) = Some n \<and>
    (\<forall>dep\<in>set (t_objects (gr_targets g ! i) @ t_deps (gr_targets g ! i) @ t_private_deps (gr_targets g ! i)). \<forall>j.
      take 1 dep \<noteq> ''@'' \<longrightarrow> target_index g dep = Some j \<longrightarrow>
      (\<exists>d. work_node t (NeedTarget j) = Some d \<and> completes_first (ex_log x) d n)) \<and>
    (passive_kind (t_kind (gr_targets g ! i)) = None \<longrightarrow>
      (\<forall>j\<in>set (nodes_of i compile_node t). completes_first (ex_log x) j n) \<and>
      (\<forall>k < length (gr_genrules g). target_consumes_genrule (gr_targets g ! i) (gr_genrules g ! k) \<longrightarrow>
        (\<exists>d. work_node t (NeedGenrule k) = Some d \<and> completes_first (ex_log x) d n)))"
proof -
  obtain s where s: "action_graph g s t" "sc_targets s = sc_targets t" by (rule graph_inv [OF assms(1)])
  obtain n where n: "work_node t (NeedTarget i) = Some n" using graph_nodes [OF s(1), of "NeedTarget i"] assms(3) s(2) by auto
  show ?thesis using final_waits [OF assms, unfolded n option.inject] n by (intro exI [of _ n]) blast
qed

theorem final_actions_wait_witness: "completes_first (ex_log order_run) 1 3"
proof -
  have "1 \<in> set (sc_targets order_schedule)" using order_facts by simp
  from final_actions_wait [OF order_scheduled order_run_states this] obtain n where n:
    "work_node order_schedule (NeedTarget 1) = Some n"
    "\<forall>dep\<in>set (t_objects (gr_targets order_graph ! 1) @ t_deps (gr_targets order_graph ! 1) @ t_private_deps (gr_targets order_graph ! 1)).
      \<forall>j. take 1 dep \<noteq> ''@'' \<longrightarrow> target_index order_graph dep = Some j \<longrightarrow>
        (\<exists>d. work_node order_schedule (NeedTarget j) = Some d \<and> completes_first (ex_log order_run) d n)" by blast
  have "''//:lib'' \<in> set (t_objects (gr_targets order_graph ! 1) @ t_deps (gr_targets order_graph ! 1) @ t_private_deps (gr_targets order_graph ! 1))"
    by (simp add: order_graph_def)
  moreover have "target_index order_graph ''//:lib'' = Some 0" by code_simp
  ultimately obtain d where "work_node order_schedule (NeedTarget 0) = Some d" "completes_first (ex_log order_run) d n"
    using n(2) by fastforce
  then show ?thesis using n(1) order_facts by (simp add: work_node_def)
qed

text \<open>
  C26: in every run a compilation begins only after the generated actions have completed that make its source,
  or a header of the target that declares the source.
\<close>

theorem compilations_wait:
  assumes "scheduler_graph h g label = Some (Inr t)" "x \<in> exec_states a t w"
    and "j < node_len t" "nd_kind (node t j) = SchedCompile" "k < length (gr_genrules g)"
    and "target_compile_consumes_genrule (source_owner g (node t j)) (gr_genrules g ! k)"
  shows "\<exists>d. work_node t (NeedGenrule k) = Some d \<and> completes_first (ex_log x) d j"
proof -
  obtain s where s: "scheduler_discover g label (scheduler_init g) = Some (Inr s)" "action_graph g s t"
    by (rule graph_inv [OF assms(1)])
  obtain i ob where i: "nd_target (node t j) = Some i" "nd_source_owner (node t j) = Some ob" "i \<in> set (sc_targets s)"
    "ob \<in> set (sc_targets s)" "passive_kind (t_kind (gr_targets g ! i)) = None"
    by (rule compile_owner_found [OF s assms(3,4)])
  have "target_consumes_genrule (gr_targets g ! ob) (gr_genrules g ! k)"
    using compile_consumes [OF assms(6)] i(2) by (simp add: source_owner_def)
  from graph_nodes [OF s(2) consumed_found [OF s(1) i(4) assms(5) this]] obtain d where d: "work_node t (NeedGenrule k) = Some d"
    by blast
  obtain n where n: "sc_target_final_node t ! i = Some n" using graph_nodes [OF s(2), of "NeedTarget i"] i(3) by (auto simp: work_node_def)
  have "j \<in> set (nodes_of i compile_node t)" using assms(3,4) i(1) by (simp add: nodes_of_def compile_node_def)
  note edge = target_edge [OF s(2) i(3) n subsetD [OF compile_edge [OF i(5) this]]]
  have "(d, j) \<in> compile_edges g (gr_targets g ! i) n j t"
    using assms(5,6) d by (auto simp: compile_edges_def genrules_into_def work_node_def)
  from edge_completes_first [OF s(2) assms(2) edge [OF this]] d show ?thesis by blast
qed

theorem compilations_wait_witness: "completes_first (ex_log order_run) 4 0"
proof -
  have n: "node_len order_schedule = 6" "nd_kind (node order_schedule 0) = SchedCompile" "nd_source_owner (node order_schedule 0) = Some 0"
    using order_nodes by simp_all
  have "target_compile_consumes_genrule (gr_targets order_graph ! 0) (gr_genrules order_graph ! 0)" by code_simp
  then show ?thesis
    using compilations_wait [OF order_scheduled order_run_states, of 0 0] order_facts n
    by (simp add: work_node_def source_owner_def order_graph_def)
qed

text \<open>
  C1: a build that succeeds has completed everything that the requested label demands, directly or through
  other work.
\<close>

theorem builds_complete_the_demand:
  assumes "build_with_action_scheduler h g a label w = Some (Inr x)" "ex_phase x = Stopped (Inr ())"
    and "scheduler_graph h g label = Some (Inr t)" "v \<in> (demand g)\<^sup>* `` work_roots g label"
  shows "\<exists>n. work_node t v = Some n \<and> Completed n \<in> set (ex_log x)"
proof -
  obtain s where s: "scheduler_discover g label (scheduler_init g) = Some (Inr s)" "action_graph g s t" by (rule graph_inv [OF assms(3)])
  have v: "v \<in> found s" using discover_found [OF s(1)] assms(4) by simp
  then obtain n where n: "work_node t v = Some n" using graph_nodes [OF s(2)] by blast
  have "n < node_len t" using work_node_less [OF s(2) _ v n] discovered(1) [OF s(1)] by blast
  moreover have "scheduler_execute a t w = Some x" using assms(1,3) by (simp add: build_with_action_scheduler_def)
  moreover have "well_formed t" using s(2) by (simp add: action_graph_def created_def)
  ultimately show ?thesis using success_done [of t a w x n] assms(2) n by blast
qed

theorem builds_complete_the_demand_witness:
  "\<exists>x n. build_with_action_scheduler demo_host order_graph sample_actions (Some ''//:app'') () = Some (Inr x) \<and>
     work_node order_schedule (NeedGenrule 1) = Some n \<and> Completed n \<in> set (ex_log x)"
proof -
  define r where "r = build_with_action_scheduler demo_host order_graph sample_actions (Some ''//:app'') ()"
  have "(case r of Some (Inr x) \<Rightarrow> ex_phase x = Stopped (Inr ()) | _ \<Rightarrow> False)"
    unfolding r_def build_with_action_scheduler_def scheduler_execute_def by code_simp
  then obtain x where x: "r = Some (Inr x)" "ex_phase x = Stopped (Inr ())" by (auto split: option.splits sum.splits)
  have "NeedGenrule 1 \<in> found order_schedule" using order_facts by (simp add: marked_def)
  then have "NeedGenrule 1 \<in> (demand order_graph)\<^sup>* `` work_roots order_graph (Some ''//:app'')"
    using order_found by simp
  then show ?thesis using builds_complete_the_demand [OF x(1) [unfolded r_def] x(2) order_scheduled] x(1) unfolding r_def by blast
qed

text \<open>
  C15: a build returns, with success or an error, also for graphs with cycles, in every environment in which
  processes are not seen running for ever.
\<close>

theorem build_returns:
  assumes "patient a p"
  shows "build_with_action_scheduler h g a label w \<noteq> None"
proof (cases "scheduler_graph h g label")
  case None
  then show ?thesis using discover_total [of g label] by (auto simp: scheduler_graph_def split: option.splits sum.splits)
next
  case (Some r)
  show ?thesis
  proof (cases r)
    case (Inr t)
    obtain s where "action_graph g s t" by (rule graph_inv [OF Some [unfolded Inr]])
    then have "well_formed t" by (simp add: action_graph_def created_def)
    then show ?thesis using execute_total [OF _ assms, of t w] Some Inr by (auto simp: build_with_action_scheduler_def)
  qed (simp add: build_with_action_scheduler_def Some)
qed

theorem build_returns_witness:
  "build_with_action_scheduler demo_host order_graph sample_actions (Some ''//:app'') () \<noteq> None"
  by (rule build_returns [OF sample_patient])

text \<open>
  a compilation of a target does not wait for the generator of a public header of a library the target
  uses: here the program may be compiled before, or while, the header it includes is generated.
\<close>

theorem consumer_compile_unordered:
  "map nd_deps (filter (\<lambda>n. nd_target n = Some 1 \<and> compile_node n) (sc_nodes order_schedule)) = [[]]"
  by code_simp

end
