(* ===== verification/QStateIndex.thy ===== *)
theory QStateIndex
  imports QMaterialize
begin

text \<open>
  The table that finds the record of an earlier action by its name (\<open>state_index_build\<close> and \<open>state_find\<close> of
  \<open>executor.c\<close>): open addressing with linear probing, at least twice as many slots as records, nothing
  ever removed. The locale \<open>probing\<close> has the laws of such a table over any starting slot; they give that
  probing ends and that the table finds the record a walk through the list would find.
\<close>

section \<open>Tables with linear probing\<close>

type_synonym 'v table = "(string \<times> 'v) option list"

text \<open>
  The loop that runs from a slot to the first that is free or has the key. There is fuel for every slot;
  \<open>None\<close> says that the loop did not end.
\<close>

fun probe :: "nat \<Rightarrow> 'v table \<Rightarrow> string \<Rightarrow> nat \<Rightarrow> nat option" where
  "probe 0 tbl key pos = None"
| "probe (Suc f) tbl key pos = (case tbl ! pos of
      None \<Rightarrow> Some pos
    | Some (k, v) \<Rightarrow> if k = key then Some pos else probe f tbl key ((pos + 1) AND (length tbl - 1)))"

definition slots_taken :: "'v table \<Rightarrow> nat set" where
  "slots_taken tbl = {p. p < length tbl \<and> tbl ! p \<noteq> None}"

locale probing =
  fixes start :: "string \<Rightarrow> nat" and cap :: nat
  assumes start_less: "start key < cap"
    and step: "pos < cap \<Longrightarrow> (pos + 1) AND (cap - 1) = (pos + 1) mod cap"
begin

definition spot :: "string \<Rightarrow> nat \<Rightarrow> nat" where
  "spot key j = (start key + j) mod cap"

lemma cap_pos: "0 < cap"
  using start_less [of "[]"] by simp

lemma spot_less [simp]: "spot key j < cap"
  using cap_pos by (simp add: spot_def)

lemma spot_0 [simp]: "spot key 0 = start key"
  using start_less by (simp add: spot_def)

lemma spot_Suc: "(spot key j + 1) AND (cap - 1) = spot key (Suc j)"
  unfolding step [OF spot_less] by (simp add: spot_def mod_Suc_eq)

lemma spot_onto: "p < cap \<Longrightarrow> \<exists>j<cap. spot key j = p"
proof (cases "start key \<le> p")
  case True
  assume "p < cap"
  then show ?thesis using True by (intro exI [of _ "p - start key"]) (simp add: spot_def)
next
  case False
  assume p: "p < cap"
  have "(start key + (cap - start key + p)) mod cap = p" using p start_less [of key] by simp
  then show ?thesis using False p start_less [of key] by (intro exI [of _ "cap - start key + p"]) (simp add: spot_def)
qed

text \<open>Slots before the \<open>n\<close>-th have other keys.\<close>

definition passed :: "'v table \<Rightarrow> string \<Rightarrow> nat \<Rightarrow> bool" where
  "passed tbl key n \<longleftrightarrow> (\<forall>j<n. \<exists>k v. tbl ! spot key j = Some (k, v) \<and> k \<noteq> key)"

lemma probe_stops:
  assumes "length tbl = cap" "passed tbl key (m + n)"
    and "tbl ! spot key (m + n) = None \<or> (\<exists>v. tbl ! spot key (m + n) = Some (key, v))" "n < f"
  shows "probe f tbl key (spot key m) = Some (spot key (m + n))"
  using assms(2-)
proof (induction n arbitrary: m f)
  case 0
  then show ?case by (cases f) auto
next
  case (Suc n)
  obtain f' where f: "f = Suc f'" using Suc.prems(3) by (cases f) auto
  have "m < m + Suc n" by simp
  then obtain k v where "tbl ! spot key m = Some (k, v)" "k \<noteq> key" using Suc.prems(1) unfolding passed_def by blast
  then have "probe f tbl key (spot key m) = probe f' tbl key (spot key (Suc m))"
    unfolding f probe.simps assms(1) spot_Suc by simp
  moreover have "probe f' tbl key (spot key (Suc m)) = Some (spot key (Suc m + n))"
    using Suc.IH [of "Suc m" f'] Suc.prems f by simp
  ultimately show ?case by simp
qed

definition placed :: "'v table \<Rightarrow> bool" where
  "placed tbl \<longleftrightarrow> length tbl = cap \<and>
     (\<forall>p<cap. \<forall>k v. tbl ! p = Some (k, v) \<longrightarrow> (\<exists>j<cap. p = spot k j \<and> passed tbl k j))"

lemma probe_found:
  assumes "placed tbl" "p < cap" "tbl ! p = Some (key, v)"
  shows "probe cap tbl key (start key) = Some p"
proof -
  obtain j where j: "j < cap" "p = spot key j" "passed tbl key j" using assms unfolding placed_def by blast
  then show ?thesis using probe_stops [of tbl key 0 j cap] assms by (simp add: placed_def)
qed

lemma probe_free:
  assumes "placed tbl" "card (slots_taken tbl) < cap" "\<forall>p<cap. \<forall>v. tbl ! p \<noteq> Some (key, v)"
  obtains j where "j < cap" "passed tbl key j" "tbl ! spot key j = None" "probe cap tbl key (start key) = Some (spot key j)"
proof -
  have len: "length tbl = cap" using assms(1) by (simp add: placed_def)
  have "slots_taken tbl \<noteq> {..<cap}"
  proof
    assume "slots_taken tbl = {..<cap}"
    then show False using assms(2) card_lessThan [of cap] by simp
  qed
  moreover have "slots_taken tbl \<subseteq> {..<cap}" unfolding slots_taken_def len by blast
  ultimately have "\<exists>p<cap. p \<notin> slots_taken tbl" by blast
  then obtain p where "p < cap" "tbl ! p = None" unfolding slots_taken_def len by blast
  then obtain i where i: "i < cap" "tbl ! spot key i = None" using spot_onto [of p key] by blast
  define j where "j = (LEAST j. tbl ! spot key j = None)"
  have j: "tbl ! spot key j = None" "j \<le> i" unfolding j_def
    using LeastI [of "\<lambda>j. tbl ! spot key j = None" i] Least_le [of "\<lambda>j. tbl ! spot key j = None" i] i(2) by blast+
  have "passed tbl key j" unfolding passed_def
  proof (intro allI impI)
    fix n assume "n < j"
    then have "tbl ! spot key n \<noteq> None" unfolding j_def by (rule not_less_Least)
    then obtain k v where "tbl ! spot key n = Some (k, v)" by auto
    moreover have "spot key n < cap" by simp
    ultimately show "\<exists>k v. tbl ! spot key n = Some (k, v) \<and> k \<noteq> key" using assms(3) by auto
  qed
  then show ?thesis using probe_stops [of tbl key 0 j cap] j i(1) len by (intro that [of j]) simp_all
qed

lemma placed_insert:
  assumes "placed tbl" "card (slots_taken tbl) < cap" "\<forall>p<cap. \<forall>v. tbl ! p \<noteq> Some (key, v)"
    and "probe cap tbl key (start key) = Some p"
  shows "placed (tbl[p := Some (key, v)])" "p < cap" "tbl ! p = None"
proof -
  obtain j where j: "j < cap" "passed tbl key j" "tbl ! spot key j = None" "p = spot key j"
    using probe_free [OF assms(1-3)] assms(4) by auto
  have len: "length tbl = cap" using assms(1) by (simp add: placed_def)
  show "p < cap" "tbl ! p = None" using j by simp_all
  have keep: "passed (tbl[p := Some (key, v)]) k n" if "passed tbl k n" "p \<notin> spot k ` {..<n}" for k n
    unfolding passed_def
  proof (intro allI impI)
    fix i assume "i < n"
    then have "p \<noteq> spot k i" "\<exists>l v. tbl ! spot k i = Some (l, v) \<and> l \<noteq> k" using that by (auto simp: passed_def)
    then show "\<exists>l u. tbl[p := Some (key, v)] ! spot k i = Some (l, u) \<and> l \<noteq> k" by simp
  qed
  have free: "p \<notin> spot k ` {..<n}" if "passed tbl k n" for k n
    using that j(3,4) by (auto simp: passed_def)
  show "placed (tbl[p := Some (key, v)])" unfolding placed_def
  proof (intro conjI allI impI)
    fix q k u assume q: "q < cap" "tbl[p := Some (key, v)] ! q = Some (k, u)"
    show "\<exists>i<cap. q = spot k i \<and> passed (tbl[p := Some (key, v)]) k i"
    proof (cases "q = p")
      case True
      then have "k = key" using q len by simp
      then show ?thesis using True j keep free by blast
    next
      case False
      then obtain i where "i < cap" "q = spot k i" "passed tbl k i" using assms(1) q unfolding placed_def by auto
      then show ?thesis using keep free by blast
    qed
  qed (simp add: len)
qed

end

section \<open>The index of states\<close>

text \<open>The number of slots: 32, doubled until there are two for every record.\<close>

function index_cap :: "nat \<Rightarrow> nat \<Rightarrow> nat" where
  "index_cap cap n = (if 0 < cap \<and> cap < n * 2 then index_cap (cap * 2) n else cap)"
  by auto
termination by (relation "measure (\<lambda>(cap, n). n * 2 - cap)") auto

declare index_cap.simps [simp del]

lemma index_cap_enough: "0 < cap \<Longrightarrow> n * 2 \<le> index_cap cap n"
  by (induction cap n rule: index_cap.induct) (subst index_cap.simps, simp)

lemma index_cap_power: "\<exists>k. index_cap (2 ^ i) n = 2 ^ k \<and> i \<le> k"
proof (induction "n * 2 - 2 ^ i" arbitrary: i rule: less_induct)
  case less
  show ?case
  proof (cases "(2::nat) ^ i < n * 2")
    case True
    have "(0::nat) < 2 ^ i" by simp
    then have "n * 2 - 2 ^ Suc i < n * 2 - 2 ^ i" using True unfolding power_Suc by linarith
    from less [OF this] obtain k where "index_cap (2 ^ Suc i) n = 2 ^ k" "Suc i \<le> k" by blast
    moreover have "index_cap (2 ^ i) n = index_cap (2 ^ Suc i) n"
      using True by (subst index_cap.simps) (simp add: mult.commute)
    ultimately show ?thesis by auto
  next
    case False
    then have "index_cap (2 ^ i) n = 2 ^ i" by (subst index_cap.simps) simp
    then show ?thesis by blast
  qed
qed

definition hash_str :: "64 word \<Rightarrow> cstr \<Rightarrow> 64 word" where
  "hash_str h s = hash_bytes h (str_or_empty s)"

definition hash_string_value :: "string \<Rightarrow> 64 word" where
  "hash_string_value s = hash_str HASH_INIT (Some s)"

definition index_start :: "nat \<Rightarrow> string \<Rightarrow> nat" where
  "index_start cap key = unat (hash_string_value key) AND (cap - 1)"

definition index_add :: "string \<times> nat \<Rightarrow> nat table option \<Rightarrow> nat table option" where
  "index_add e t = (case t of None \<Rightarrow> None | Some tbl \<Rightarrow>
     (case probe (length tbl) tbl (fst e) (index_start (length tbl) (fst e)) of
        None \<Rightarrow> None
      | Some pos \<Rightarrow> Some (if tbl ! pos = None then tbl[pos := Some e] else tbl)))"

text \<open>No slots at all for no records.\<close>

definition index_build :: "string list \<Rightarrow> nat table option" where
  "index_build keys = (if keys = [] then Some []
     else fold index_add (zip keys [0..<length keys]) (Some (replicate (index_cap 32 (length keys)) None)))"

text \<open>Outer \<open>None\<close>: the loop does not end.\<close>

definition index_find :: "nat table \<Rightarrow> string \<Rightarrow> nat option option" where
  "index_find tbl key = map_option (\<lambda>pos. map_option snd (tbl ! pos)) (probe (length tbl) tbl key (index_start (length tbl) key))"

lemma mask_power: "(n :: nat) AND (2 ^ k - 1) = n mod 2 ^ k"
  using take_bit_eq_mask [of k n] by (simp add: take_bit_eq_mod mask_eq_exp_minus_1)

interpretation index: probing "index_start (2 ^ k)" "2 ^ k" for k
  by unfold_locales (simp_all only: index_start_def mask_power mod_less_divisor zero_less_power zero_less_numeral)

text \<open>A table that has the first position of every key of a list.\<close>

definition indexes :: "nat \<Rightarrow> (string \<times> nat) list \<Rightarrow> nat table \<Rightarrow> bool" where
  "indexes k es tbl \<longleftrightarrow> index.placed k tbl \<and> card (slots_taken tbl) \<le> length es \<and>
     (\<forall>key. (\<exists>p<2 ^ k. \<exists>v. tbl ! p = Some (key, v)) \<longleftrightarrow> key \<in> fst ` set es) \<and>
     (\<forall>p<2 ^ k. \<forall>key v. tbl ! p = Some (key, v) \<longrightarrow> map_of es key = Some v)"

lemma slots_taken_update: "p < length tbl \<Longrightarrow> slots_taken (tbl[p := Some e]) = insert p (slots_taken tbl)"
  by (auto simp: slots_taken_def nth_list_update)

lemma index_add_ok:
  assumes "indexes k es tbl" "length es < 2 ^ k"
  shows "\<exists>tbl'. index_add e (Some tbl) = Some tbl' \<and> indexes k (es @ [e]) tbl'"
proof -
  obtain key v where e: "e = (key, v)" by (cases e)
  have len: "length tbl = 2 ^ k" and placed: "index.placed k tbl" using assms(1) by (simp_all add: indexes_def index.placed_def)
  have room: "card (slots_taken tbl) < 2 ^ k" using assms by (simp add: indexes_def)
  show ?thesis
  proof (cases "key \<in> fst ` set es")
    case True
    then obtain p u where p: "p < 2 ^ k" "tbl ! p = Some (key, u)" using assms(1) unfolding indexes_def by blast
    have "index_add e (Some tbl) = Some tbl"
      using index.probe_found [OF placed p] p by (simp add: index_add_def e len)
    moreover have "indexes k (es @ [e]) tbl" unfolding indexes_def
    proof (intro conjI allI impI)
      show "index.placed k tbl" by (rule placed)
      show "card (slots_taken tbl) \<le> length (es @ [e])" using assms(1) by (simp add: indexes_def)
      have "fst ` set (es @ [e]) = fst ` set es" using True by (auto simp: e)
      then show "(\<exists>i<2 ^ k. \<exists>u. tbl ! i = Some (q, u)) \<longleftrightarrow> q \<in> fst ` set (es @ [e])" for q
        using assms(1) unfolding indexes_def by simp
      show "map_of (es @ [e]) q = Some u" if "i < 2 ^ k" "tbl ! i = Some (q, u)" for i q u
      proof -
        have "map_of es q = Some u" using assms(1) that unfolding indexes_def by blast
        then show ?thesis by (simp add: map_add_def)
      qed
    qed
    ultimately show ?thesis by blast
  next
    case new: False
    then have fresh: "\<forall>p<2 ^ k. \<forall>v. tbl ! p \<noteq> Some (key, v)" using assms(1) unfolding indexes_def by blast
    obtain j where
      j: "probe (2 ^ k) tbl key (index_start (2 ^ k) key) = Some (index.spot k key j)"
      by (rule index.probe_free [OF placed room fresh])
    define p where "p = index.spot k key j"
    note ins = index.placed_insert [OF placed room fresh j, folded p_def]
    have "index_add e (Some tbl) = Some (tbl[p := Some e])" using j ins(3) by (simp add: index_add_def e len p_def)
    moreover have "indexes k (es @ [e]) (tbl[p := Some e])" unfolding indexes_def
    proof (intro conjI allI impI)
      show "index.placed k (tbl[p := Some e])" using ins(1) [of v] by (simp add: e)
      show "card (slots_taken (tbl[p := Some e])) \<le> length (es @ [e])"
        using assms(1) card_insert_le_m1 [of "Suc (length es)" "slots_taken tbl" p] ins(2)
        by (simp add: slots_taken_update len indexes_def)
      fix q
      show "(\<exists>i<2 ^ k. \<exists>u. tbl[p := Some e] ! i = Some (q, u)) \<longleftrightarrow> q \<in> fst ` set (es @ [e])"
      proof (cases "q = key")
        case True
        then have "tbl[p := Some e] ! p = Some (q, v)" using ins(2) len by (simp add: e)
        then have "\<exists>i<2 ^ k. \<exists>u. tbl[p := Some e] ! i = Some (q, u)" using ins(2) by blast
        moreover have "q \<in> fst ` set (es @ [e])" using True by (simp add: e)
        ultimately show ?thesis by blast
      next
        case False
        have same: "tbl[p := Some e] ! i = Some (q, u) \<longleftrightarrow> tbl ! i = Some (q, u)" for i u
          using False ins(2,3) len by (cases "i = p") (simp_all add: e)
        have "q \<in> fst ` set (es @ [e]) \<longleftrightarrow> q \<in> fst ` set es" using False by (simp add: e)
        then show ?thesis using assms(1) unfolding indexes_def same by blast
      qed
    next
      fix i q u assume i: "i < 2 ^ k" "tbl[p := Some e] ! i = Some (q, u)"
      show "map_of (es @ [e]) q = Some u"
      proof (cases "i = p")
        case True
        then have "q = key" "u = v" using i len by (simp_all add: e)
        moreover have "map_of es key = None" using new by (simp add: map_of_eq_None_iff)
        ultimately show ?thesis by (simp add: e map_add_def)
      next
        case False
        then have "tbl ! i = Some (q, u)" using i(2) by simp
        then have "map_of es q = Some u" using i(1) assms(1) unfolding indexes_def by blast
        then show ?thesis by (simp add: map_add_def)
      qed
    qed
    ultimately show ?thesis by blast
  qed
qed

lemma index_fold:
  "indexes k ds tbl \<Longrightarrow> length ds + length es \<le> 2 ^ k \<Longrightarrow>
   \<exists>tbl'. fold index_add es (Some tbl) = Some tbl' \<and> indexes k (ds @ es) tbl'"
proof (induction es arbitrary: ds tbl)
  case (Cons e es)
  obtain t where t: "index_add e (Some tbl) = Some t" "indexes k (ds @ [e]) t"
    using index_add_ok [OF Cons.prems(1), of e] Cons.prems(2) by auto
  from Cons.IH [OF t(2)] Cons.prems(2) t(1) show ?case by simp
qed simp

lemma index_build_ok:
  assumes "keys \<noteq> []"
  shows "\<exists>k tbl. index_build keys = Some tbl \<and> 2 * length keys \<le> 2 ^ k \<and> indexes k (zip keys [0..<length keys]) tbl"
proof -
  obtain k where k: "index_cap 32 (length keys) = 2 ^ k" using index_cap_power [of 5] by auto
  have big: "2 * length keys \<le> 2 ^ k" using index_cap_enough [of 32 "length keys"] k by (simp add: mult.commute)
  have "indexes k [] (replicate (2 ^ k) None)"
    by (auto simp: indexes_def index.placed_def slots_taken_def)
  from index_fold [OF this, of "zip keys [0..<length keys]"] big show ?thesis
    using assms by (auto simp: index_build_def k)
qed

text \<open>Looking up ends, and finds the first position of the key.\<close>

lemma index_find_first:
  assumes "keys \<noteq> []" "index_build keys = Some tbl"
  shows "index_find tbl key = Some (map_of (zip keys [0..<length keys]) key)"
proof -
  let ?es = "zip keys [0..<length keys]"
  obtain k where k: "2 * length keys \<le> 2 ^ k" "indexes k ?es tbl" using index_build_ok [OF assms(1)] assms(2) by auto
  have len: "length tbl = 2 ^ k" and placed: "index.placed k tbl" using k(2) by (simp_all add: indexes_def index.placed_def)
  have "0 < length keys" "card (slots_taken tbl) \<le> length keys" using assms(1) k(2) by (simp_all add: indexes_def)
  then have room: "card (slots_taken tbl) < 2 ^ k" using k(1) by linarith
  show ?thesis
  proof (cases "key \<in> fst ` set ?es")
    case True
    then obtain p v where p: "p < 2 ^ k" "tbl ! p = Some (key, v)" using k(2) unfolding indexes_def by blast
    then have "map_of ?es key = Some v" using k(2) unfolding indexes_def by blast
    then show ?thesis using index.probe_found [OF placed p] p(2) by (simp add: index_find_def len)
  next
    case False
    then have "\<forall>p<2 ^ k. \<forall>v. tbl ! p \<noteq> Some (key, v)" using k(2) unfolding indexes_def by blast
    then obtain j where
      "tbl ! index.spot k key j = None" "probe (2 ^ k) tbl key (index_start (2 ^ k) key) = Some (index.spot k key j)"
      by (rule index.probe_free [OF placed room])
    moreover have none: "map_of ?es key = None" using False unfolding map_of_eq_None_iff .
    ultimately show ?thesis unfolding index_find_def len none by simp
  qed
qed

end
