(* ===== verification/QBuildState.thy ===== *)
theory QBuildState
  imports QStateIndex QPlanCache QActionGraph
begin

text \<open>
  What a build remembers for the next one (\<open>state_\<close> and \<open>deps_\<close> functions of \<open>executor.c\<close>): for every action
  its key and digests, for every depfile the headers it named. The files \<^verbatim>\<open>state/state.db\<close> and
  \<^verbatim>\<open>state/deps.db\<close> are instances of the locale \<open>codec\<close>; looking up a record goes through \<open>QStateIndex\<close>.
  The lemmas show that look-ups find the first record of an action, that no record is lost by a build that
  did not visit its action, and when the file need not be written again.
\<close>

section \<open>Records\<close>

record qstar_action_material =
  am_argv_key :: string
  am_env_key :: string
  am_input_key :: string
  am_depfile_key :: string
  am_tool_policy_key :: string
  am_output_key :: string
  am_external_tool_key :: string

definition zero_material :: qstar_action_material where
  "zero_material = \<lparr>am_argv_key = [], am_env_key = [], am_input_key = [], am_depfile_key = [],
     am_tool_policy_key = [], am_output_key = [], am_external_tool_key = []\<rparr>"

record qstar_state_entry =
  en_id :: string
  en_key :: string
  en_output :: string
  en_status :: string
  en_kind :: string
  en_argv_key :: string
  en_env_key :: string
  en_input_key :: string
  en_depfile_key :: string
  en_tool_policy_key :: string
  en_output_key :: string
  en_external_tool_key :: string

definition zero_entry :: qstar_state_entry where
  "zero_entry = \<lparr>en_id = [], en_key = [], en_output = [], en_status = [], en_kind = [], en_argv_key = [],
     en_env_key = [], en_input_key = [], en_depfile_key = [], en_tool_policy_key = [], en_output_key = [],
     en_external_tool_key = []\<rparr>"

record qstar_dep_entry =
  de_depfile :: string
  de_size :: "64 word"
  de_mtime :: "64 word"
  de_digest :: string
  de_inputs :: "string list"

definition zero_dep :: qstar_dep_entry where
  "zero_dep = \<lparr>de_depfile = [], de_size = 0, de_mtime = 0, de_digest = [], de_inputs = []\<rparr>"

text \<open>
  The part of \<open>struct qstar_build_ctx\<close> that is kept from build to build. An index that was not made, or made
  for no records, is the empty table.
\<close>

record build_ctx =
  bc_prev :: "qstar_state_entry list"
  bc_next :: "qstar_state_entry list"
  bc_prev_index :: "nat table"
  bc_deps_prev :: "qstar_dep_entry list"
  bc_deps_next :: "qstar_dep_entry list"
  bc_deps_index :: "(string \<times> nat) list"
  bc_hash_cache :: "(string \<times> string) list"
  bc_env_key :: "string option"

definition zero_ctx :: build_ctx where
  "zero_ctx = \<lparr>bc_prev = [], bc_next = [], bc_prev_index = [], bc_deps_prev = [], bc_deps_next = [],
     bc_deps_index = [], bc_hash_cache = [], bc_env_key = None\<rparr>"

lemmas state_zero_simps = zero_material_def zero_entry_def zero_dep_def zero_ctx_def

section \<open>Records of actions\<close>

definition new_entry :: "string \<Rightarrow> string \<Rightarrow> string \<Rightarrow> string \<Rightarrow> cstr \<Rightarrow> qstar_action_material option \<Rightarrow> qstar_state_entry" where
  "new_entry ident key output status kind material =
     (let m = (case material of None \<Rightarrow> zero_material | Some m \<Rightarrow> m)
      in \<lparr>en_id = ident, en_key = key, en_output = output, en_status = status, en_kind = str_or_empty kind,
          en_argv_key = am_argv_key m, en_env_key = am_env_key m, en_input_key = am_input_key m,
          en_depfile_key = am_depfile_key m, en_tool_policy_key = am_tool_policy_key m,
          en_output_key = am_output_key m, en_external_tool_key = am_external_tool_key m\<rparr>)"

definition state_push :: "build_ctx \<Rightarrow> bool \<Rightarrow> qstar_state_entry \<Rightarrow> build_ctx" where
  "state_push ctx to_next e =
     (if to_next then ctx\<lparr>bc_next := bc_next ctx @ [e]\<rparr> else ctx\<lparr>bc_prev := bc_prev ctx @ [e]\<rparr>)"

text \<open>The digests of a record, copied into the 32 bytes each of a material.\<close>

definition entry_material :: "qstar_state_entry \<Rightarrow> qstar_action_material" where
  "entry_material e = \<lparr>am_argv_key = trunc_buf 32 (en_argv_key e), am_env_key = trunc_buf 32 (en_env_key e),
     am_input_key = trunc_buf 32 (en_input_key e), am_depfile_key = trunc_buf 32 (en_depfile_key e),
     am_tool_policy_key = trunc_buf 32 (en_tool_policy_key e), am_output_key = trunc_buf 32 (en_output_key e),
     am_external_tool_key = trunc_buf 32 (en_external_tool_key e)\<rparr>"

definition entry_copy :: "qstar_state_entry \<Rightarrow> qstar_state_entry" where
  "entry_copy e = new_entry (en_id e) (en_key e) (en_output e) (en_status e) (Some (en_kind e)) (Some (entry_material e))"

definition state_entries_clone :: "qstar_state_entry list \<Rightarrow> qstar_state_entry list" where
  "state_entries_clone src = bc_prev (foldl (\<lambda>tmp e. state_push tmp False (entry_copy e)) zero_ctx src)"

definition state_index_build :: "build_ctx \<Rightarrow> build_ctx option" where
  "state_index_build ctx = map_option (\<lambda>t. ctx\<lparr>bc_prev_index := t\<rparr>) (index_build (map en_id (bc_prev ctx)))"

text \<open>Outer \<open>None\<close>: the search does not end.\<close>

definition state_find :: "build_ctx \<Rightarrow> string \<Rightarrow> qstar_state_entry option option" where
  "state_find ctx ident =
     (if bc_prev_index ctx \<noteq> [] then map_option (map_option (\<lambda>i. bc_prev ctx ! i)) (index_find (bc_prev_index ctx) ident)
      else Some (find_key en_id ident (bc_prev ctx)))"

definition state_next_has :: "build_ctx \<Rightarrow> string \<Rightarrow> bool" where
  "state_next_has ctx ident = list_ex (\<lambda>e. en_id e = ident) (bc_next ctx)"

definition preserve_one :: "build_ctx \<Rightarrow> qstar_state_entry \<Rightarrow> build_ctx" where
  "preserve_one ctx e = (if state_next_has ctx (en_id e) then ctx else state_push ctx True (entry_copy e))"

definition state_preserve_previous_unvisited :: "build_ctx \<Rightarrow> build_ctx" where
  "state_preserve_previous_unvisited ctx = foldl preserve_one ctx (bc_prev ctx)"

definition same_but_status :: "qstar_state_entry \<Rightarrow> qstar_state_entry \<Rightarrow> bool" where
  "same_but_status p n \<longleftrightarrow> en_key p = en_key n \<and> en_output p = en_output n \<and> en_kind p = en_kind n \<and>
     en_argv_key p = en_argv_key n \<and> en_env_key p = en_env_key n \<and> en_input_key p = en_input_key n \<and>
     en_depfile_key p = en_depfile_key n \<and> en_tool_policy_key p = en_tool_policy_key n \<and>
     en_output_key p = en_output_key n \<and> en_external_tool_key p = en_external_tool_key n"

fun all_unchanged :: "build_ctx \<Rightarrow> qstar_state_entry list \<Rightarrow> bool option" where
  "all_unchanged ctx [] = Some True"
| "all_unchanged ctx (n # ns) = (case state_find ctx (en_id n) of
      None \<Rightarrow> None
    | Some None \<Rightarrow> Some False
    | Some (Some p) \<Rightarrow> if same_but_status p n then all_unchanged ctx ns else Some False)"

definition state_unchanged_ignoring_status :: "build_ctx \<Rightarrow> bool option" where
  "state_unchanged_ignoring_status ctx =
     (if length (bc_prev ctx) \<noteq> length (bc_next ctx) then Some False else all_unchanged ctx (bc_next ctx))"

definition with_material :: "string \<Rightarrow> qstar_action_material option \<Rightarrow> qstar_state_entry \<Rightarrow> qstar_state_entry" where
  "with_material key material e = (case material of
      None \<Rightarrow> e\<lparr>en_key := key\<rparr>
    | Some m \<Rightarrow> new_entry (en_id e) key (en_output e) (en_status e) (Some (en_kind e)) (Some m))"

definition state_update_material :: "build_ctx \<Rightarrow> string \<Rightarrow> string \<Rightarrow> qstar_action_material option \<Rightarrow> build_ctx" where
  "state_update_material ctx ident key material = (case key_index en_id ident (bc_next ctx) of
      None \<Rightarrow> ctx
    | Some i \<Rightarrow> ctx\<lparr>bc_next := (bc_next ctx)[i := with_material key material (bc_next ctx ! i)]\<rparr>)"

definition state_prev_clear :: "build_ctx \<Rightarrow> build_ctx" where
  "state_prev_clear ctx = ctx\<lparr>bc_prev := [], bc_prev_index := []\<rparr>"

section \<open>Finding records\<close>

text \<open>The digests of a record fit into a material.\<close>

definition short_keys :: "qstar_state_entry \<Rightarrow> bool" where
  "short_keys e \<longleftrightarrow> list_all (\<lambda>k. length k < 32) [en_argv_key e, en_env_key e, en_input_key e, en_depfile_key e,
     en_tool_policy_key e, en_output_key e, en_external_tool_key e]"

lemma entry_copy_id [simp]: "en_id (entry_copy e) = en_id e"
  by (simp add: entry_copy_def new_entry_def Let_def)

lemma entry_copy_short: "short_keys e \<Longrightarrow> entry_copy e = e"
  by (cases e) (simp add: entry_copy_def new_entry_def Let_def entry_material_def short_keys_def)

lemma clone_from: "bc_prev (foldl (\<lambda>tmp e. state_push tmp False (entry_copy e)) t src) = bc_prev t @ map entry_copy src"
  by (induction src arbitrary: t) (simp_all add: state_push_def)

lemma clone_short: "list_all short_keys src \<Longrightarrow> state_entries_clone src = src"
  by (simp add: state_entries_clone_def clone_from zero_ctx_def list_all_iff entry_copy_short map_idI)

lemma find_key_positions:
  "find_key key k xs = map_option (\<lambda>i. xs ! i) (map_of (zip (map key xs) [0..<length xs]) k)"
proof -
  have "find_key key k xs = map_option (\<lambda>i. xs ! (i - n)) (map_of (zip (map key xs) [n..<n + length xs]) k)" for n
  proof (induction xs arbitrary: n)
    case (Cons x xs)
    have up: "[n..<n + length (x # xs)] = n # [Suc n..<Suc n + length xs]" using upt_rec [of n "n + length (x # xs)"] by simp
    have "map_option (\<lambda>i. (x # xs) ! (i - n)) (map_of (zip (map key xs) [Suc n..<Suc n + length xs]) k) =
        map_option (\<lambda>i. xs ! (i - Suc n)) (map_of (zip (map key xs) [Suc n..<Suc n + length xs]) k)"
    proof (rule map_option_cong [OF refl])
      fix i assume "map_of (zip (map key xs) [Suc n..<Suc n + length xs]) k = Some i"
      then have "Suc n \<le> i" by (auto dest!: map_of_SomeD set_zip_rightD)
      then have "i - n = Suc (i - Suc n)" by simp
      then show "(x # xs) ! (i - n) = xs ! (i - Suc n)" by simp
    qed
    then show ?case unfolding up using Cons.IH [of "Suc n"] by simp
  qed simp
  from this [of 0] show ?thesis by simp
qed

definition indexed :: "build_ctx \<Rightarrow> bool" where
  "indexed ctx \<longleftrightarrow> index_build (map en_id (bc_prev ctx)) = Some (bc_prev_index ctx)"

lemma state_index_build_ok: "\<exists>t. state_index_build ctx = Some (ctx\<lparr>bc_prev_index := t\<rparr>) \<and> indexed (ctx\<lparr>bc_prev_index := t\<rparr>)"
proof (cases "bc_prev ctx = []")
  case True
  then show ?thesis by (simp add: state_index_build_def indexed_def index_build_def)
next
  case False
  then obtain t where "index_build (map en_id (bc_prev ctx)) = Some t"
    using index_build_ok [of "map en_id (bc_prev ctx)"] by auto
  then show ?thesis by (simp add: state_index_build_def indexed_def)
qed

lemma state_find_indexed:
  assumes "indexed ctx" shows "state_find ctx ident = Some (find_key en_id ident (bc_prev ctx))"
proof (cases "bc_prev_index ctx = []")
  case False
  then have ne: "bc_prev ctx \<noteq> []" using assms by (auto simp: indexed_def index_build_def)
  have "index_find (bc_prev_index ctx) ident = Some (map_of (zip (map en_id (bc_prev ctx)) [0..<length (bc_prev ctx)]) ident)"
    using index_find_first [of "map en_id (bc_prev ctx)" "bc_prev_index ctx" ident] assms ne by (simp add: indexed_def)
  then show ?thesis using False by (simp add: state_find_def find_key_positions)
qed (simp add: state_find_def)


lemma state_next_has_iff: "state_next_has ctx k \<longleftrightarrow> k \<in> en_id ` set (bc_next ctx)"
  unfolding state_next_has_def list_ex_iff image_iff by metis

lemma preserve_one_next:
  "bc_next (preserve_one ctx e) = (if en_id e \<in> en_id ` set (bc_next ctx) then bc_next ctx else bc_next ctx @ [entry_copy e])"
  "bc_prev (preserve_one ctx e) = bc_prev ctx"
  by (simp_all add: preserve_one_def state_next_has_iff state_push_def)

lemma preserve_all:
  "find_key en_id k (bc_next (foldl preserve_one ctx es)) =
     (case find_key en_id k (bc_next ctx) of Some e \<Rightarrow> Some e | None \<Rightarrow> map_option entry_copy (find_key en_id k es))"
  "bc_prev (foldl preserve_one ctx es) = bc_prev ctx"
proof (induction es arbitrary: ctx)
  case (Cons e es)
  case 1
  have "find_key en_id k (bc_next (preserve_one ctx e)) = (case find_key en_id k (bc_next ctx) of
      Some x \<Rightarrow> Some x | None \<Rightarrow> if en_id e = k then Some (entry_copy e) else None)"
  proof (cases "find_key en_id k (bc_next ctx)")
    case None
    then show ?thesis using find_key_None [of en_id k "bc_next ctx"] by (auto simp: preserve_one_next find_key_append)
  next
    case (Some x)
    then show ?thesis by (simp add: preserve_one_next find_key_append)
  qed
  then show ?case using Cons.IH(1) [of "preserve_one ctx e"] by (simp split: option.splits)
next
  case (Cons e es)
  case 2
  show ?case using Cons.IH(2) [of "preserve_one ctx e"] by (simp add: preserve_one_next)
qed (simp_all split: option.splits)

lemma preserve_distinct:
  "distinct (map en_id (bc_next ctx)) \<Longrightarrow> distinct (map en_id (bc_next (foldl preserve_one ctx es)))"
  by (induction es arbitrary: ctx) (auto simp: preserve_one_next)

lemma all_unchanged_iff:
  assumes "indexed ctx"
  shows "all_unchanged ctx ns = Some (list_all (\<lambda>n. \<exists>p. find_key en_id (en_id n) (bc_prev ctx) = Some p \<and> same_but_status p n) ns)"
  by (induction ns) (simp_all add: state_find_indexed [OF assms] split: option.splits)

text \<open>Records up to their status.\<close>

definition but_status :: "qstar_state_entry \<Rightarrow> qstar_state_entry" where
  "but_status e = e\<lparr>en_status := []\<rparr>"

lemma same_but_status_iff: "en_id p = en_id n \<Longrightarrow> same_but_status p n \<longleftrightarrow> but_status p = but_status n"
  by (cases p; cases n) (auto simp: same_but_status_def but_status_def)

text \<open>As many entries as before, and each of them with an entry from before: then no key is new or gone.\<close>

lemma same_keys:
  assumes "length ps = length ns" "distinct (map key ns)"
    and "\<And>n. n \<in> set ns \<Longrightarrow> \<exists>p. find_key key (key n) ps = Some p \<and> R p n"
  shows "rel_option R (find_key key k ps) (find_key key k ns)"
proof -
  have sub: "key ` set ns \<subseteq> key ` set ps" using assms(3) find_key_ex [of key _ ps] by blast
  have "card (key ` set ps) \<le> length ns" using card_length [of "map key ps"] assms(1) by simp
  also have "\<dots> = card (key ` set ns)" using distinct_card [OF assms(2)] by simp
  finally have same: "key ` set ns = key ` set ps" using sub by (intro card_seteq) simp_all
  show ?thesis
  proof (cases "find_key key k ns")
    case None
    moreover have "find_key key k ps = None" using None same unfolding find_key_None by simp
    ultimately show ?thesis by simp
  next
    case (Some n)
    then show ?thesis using assms(3) [of n] find_key_Some [OF Some] by auto
  qed
qed

lemma unchanged_same_records:
  assumes "indexed ctx" "state_unchanged_ignoring_status ctx = Some True" "distinct (map en_id (bc_next ctx))"
  shows "map_option but_status (find_key en_id k (bc_next ctx)) = map_option but_status (find_key en_id k (bc_prev ctx))"
proof -
  have "rel_option same_but_status (find_key en_id k (bc_prev ctx)) (find_key en_id k (bc_next ctx))"
    using assms by (intro same_keys)
      (auto simp: state_unchanged_ignoring_status_def all_unchanged_iff [OF assms(1)] list_all_iff split: if_splits)
  then show ?thesis
    by (cases "find_key en_id k (bc_prev ctx)"; cases "find_key en_id k (bc_next ctx)")
      (auto dest!: find_key_Some simp: same_but_status_iff)
qed

section \<open>The files\<close>

definition STATE_DB_MAGIC :: string where
  "STATE_DB_MAGIC = ''qstar-stella-state-db-v2'' @ [char_of (0::nat)]"

definition DEPS_DB_MAGIC :: string where
  "DEPS_DB_MAGIC = ''qstar-stella-deps-db-v1'' @ [char_of (0::nat)]"

abbreviation STATE_DB_ABI :: nat where "STATE_DB_ABI \<equiv> 2"
abbreviation DEPS_DB_ABI :: nat where "DEPS_DB_ABI \<equiv> 1"
abbreviation DB_LIMIT :: nat where "DB_LIMIT \<equiv> 10000000"

definition state_db_write_string :: "string \<Rightarrow> string" where
  "state_db_write_string value = write_u64 (length value) @ value"

definition state_db_read_string :: "string \<Rightarrow> string got" where
  "state_db_read_string bs = and_then (\<lambda>n r. if MAX_STRING < n then Bad else and_then (\<lambda>t. Got (c_string t)) (read_bytes n r))
     (read_u64 bs)"

definition state_db_read_digest :: "string \<Rightarrow> string got" where
  "state_db_read_digest bs = and_then (\<lambda>v. if 32 \<le> length v then (\<lambda>_. Bad) else Got v) (state_db_read_string bs)"

definition write_w64 :: "64 word \<Rightarrow> string" where
  "write_w64 w = write_u64 (unat w)"

definition read_w64 :: "string \<Rightarrow> 64 word got" where
  "read_w64 bs = and_then (\<lambda>n. Got (of_nat n)) (read_u64 bs)"

abbreviation "wtext sel \<equiv> \<lambda>t. state_db_write_string (sel t)"
abbreviation "rtext upd \<equiv> field state_db_read_string upd"
abbreviation "rdigest upd \<equiv> field state_db_read_digest upd"

definition write_state_entry :: "qstar_state_entry \<Rightarrow> string" where
  "write_state_entry = write_fields [wtext en_id, wtext en_key, wtext en_output, wtext en_status, wtext en_kind,
     wtext en_argv_key, wtext en_env_key, wtext en_input_key, wtext en_depfile_key, wtext en_tool_policy_key,
     wtext en_output_key, wtext en_external_tool_key]"

definition read_entry_fields :: "string \<Rightarrow> qstar_state_entry got" where
  "read_entry_fields = read_fields [rtext en_id_update, rtext en_key_update, rtext en_output_update,
     rtext en_status_update, rtext en_kind_update, rdigest en_argv_key_update, rdigest en_env_key_update,
     rdigest en_input_key_update, rdigest en_depfile_key_update, rdigest en_tool_policy_key_update,
     rdigest en_output_key_update, rdigest en_external_tool_key_update] zero_entry"

definition complete_entry :: "qstar_state_entry \<Rightarrow> bool" where
  "complete_entry e \<longleftrightarrow> en_id e \<noteq> [] \<and> en_key e \<noteq> [] \<and> en_output e \<noteq> [] \<and> en_status e \<noteq> []"

definition read_state_entry :: "string \<Rightarrow> qstar_state_entry got" where
  "read_state_entry bs = and_then (\<lambda>e r. if \<not> complete_entry e then Bad else Got e r) (read_entry_fields bs)"

text \<open>The content of a file: its magic with the NUL, a version, a count and the records; what follows is not read.\<close>

definition write_db :: "string \<Rightarrow> nat \<Rightarrow> ('a \<Rightarrow> string) \<Rightarrow> 'a list \<Rightarrow> string" where
  "write_db magic abi wr xs = magic @ write_u64 abi @ write_counted wr xs"

definition read_db :: "string \<Rightarrow> nat \<Rightarrow> (string \<Rightarrow> 'a got) \<Rightarrow> string \<Rightarrow> 'a list got" where
  "read_db magic abi rd bs = and_then (\<lambda>m r. if m \<noteq> magic then Bad
     else and_then (\<lambda>v r. if v \<noteq> abi then Bad else read_counted DB_LIMIT rd r) (read_u64 r)) (read_bytes (length magic) bs)"

definition state_db_bytes :: "qstar_state_entry list \<Rightarrow> string" where
  "state_db_bytes es = write_db STATE_DB_MAGIC STATE_DB_ABI write_state_entry es"

definition state_db_parse :: "string \<Rightarrow> qstar_state_entry list got" where
  "state_db_parse bs = read_db STATE_DB_MAGIC STATE_DB_ABI read_state_entry bs"

abbreviation DEP_INPUT_LIMIT :: nat where "DEP_INPUT_LIMIT \<equiv> 1000000"

definition write_dep_entry :: "qstar_dep_entry \<Rightarrow> string" where
  "write_dep_entry = write_fields [wtext de_depfile, \<lambda>t. write_w64 (de_size t), \<lambda>t. write_w64 (de_mtime t), wtext de_digest,
     \<lambda>t. write_counted state_db_write_string (de_inputs t)]"

definition read_dep_input :: "string \<Rightarrow> string got" where
  "read_dep_input bs = and_then (\<lambda>s. if qstar_path_is_package_relative s then Got s else (\<lambda>_. Bad)) (state_db_read_string bs)"

definition read_dep_entry :: "string \<Rightarrow> qstar_dep_entry got" where
  "read_dep_entry bs = and_then (\<lambda>e r. if de_depfile e = [] then Bad else Got e r)
     (read_fields [rtext de_depfile_update, field read_w64 de_size_update, field read_w64 de_mtime_update,
        rdigest de_digest_update, field (read_counted DEP_INPUT_LIMIT read_dep_input) de_inputs_update] zero_dep bs)"

definition deps_db_bytes :: "qstar_dep_entry list \<Rightarrow> string" where
  "deps_db_bytes es = write_db DEPS_DB_MAGIC DEPS_DB_ABI write_dep_entry es"

definition deps_db_parse :: "string \<Rightarrow> qstar_dep_entry list got" where
  "deps_db_parse bs = read_db DEPS_DB_MAGIC DEPS_DB_ABI read_dep_entry bs"

subsection \<open>What is written is read back\<close>

lemma state_string_back: "text_ok s \<Longrightarrow> state_db_read_string (state_db_write_string s @ rest) = Got s rest"
proof -
  assume "text_ok s"
  then have "length s \<le> MAX_STRING" "c_string s = s" by (simp_all add: text_ok_def c_string_ok)
  moreover have "length s < 2 ^ 64" using calculation(1) by (simp add: MAX_STRING_def)
  ultimately show ?thesis
    by (simp add: state_db_read_string_def state_db_write_string_def read_write_u64 read_bytes_append)
qed

lemma extends_state_string: "extends state_db_read_string"
proof -
  have "extends (\<lambda>r. if MAX_STRING < n then Bad else and_then (\<lambda>t. Got (c_string t)) (read_bytes n r))" for n
    by (intro extends_unless extends_and_then extends_read_bytes extends_Got)
  from extends_and_then [OF extends_read_u64 this] show ?thesis by (simp add: state_db_read_string_def [abs_def])
qed

interpretation state_string: codec state_db_write_string state_db_read_string text_ok id
  by unfold_locales (simp_all add: state_string_back extends_state_string)

lemma extends_unlike: "(c \<Longrightarrow> extends f) \<Longrightarrow> extends (if c then f else (\<lambda>_. Bad))"
  "(\<not> c \<Longrightarrow> extends f) \<Longrightarrow> extends (if c then (\<lambda>_. Bad) else f)"
  by (simp_all add: extends_def)

definition digest_ok :: "string \<Rightarrow> bool" where
  "digest_ok s \<longleftrightarrow> text_ok s \<and> length s < 32"

interpretation state_digest: codec state_db_write_string state_db_read_digest digest_ok id
proof
  show "state_db_read_digest (state_db_write_string x @ rest) = Got (id x) rest" if "digest_ok x" for x rest
    using that by (simp add: digest_ok_def state_db_read_digest_def state_string_back)
  have "extends (\<lambda>bs. and_then (\<lambda>v. if 32 \<le> length v then (\<lambda>_. Bad) else Got v) (state_db_read_string bs))"
    by (intro extends_and_then extends_state_string extends_unlike extends_Got)
  then show "extends state_db_read_digest" by (simp add: state_db_read_digest_def [abs_def])
qed

interpretation w64_codec: codec write_w64 read_w64 "\<lambda>_. True" id
proof
  show "read_w64 (write_w64 x @ rest) = Got (id x) rest" for x rest
  proof -
    have "unat x < 2 ^ 64" using unsigned_less [of x] by simp
    then show ?thesis by (simp add: read_w64_def write_w64_def read_write_u64)
  qed
  show "extends read_w64" using extends_and_then [OF extends_read_u64 extends_Got] by (simp add: read_w64_def [abs_def])
qed

definition entry_ok :: "qstar_state_entry \<Rightarrow> bool" where
  "entry_ok e \<longleftrightarrow> complete_entry e \<and> list_all text_ok [en_id e, en_key e, en_output e, en_status e, en_kind e] \<and>
     list_all digest_ok [en_argv_key e, en_env_key e, en_input_key e, en_depfile_key e, en_tool_policy_key e,
       en_output_key e, en_external_tool_key e]"

interpretation entry_codec: codec write_state_entry read_state_entry entry_ok id
proof
  show "read_state_entry (write_state_entry x @ rest) = Got (id x) rest" if "entry_ok x" for x rest
    using that by (cases x) (simp add: entry_ok_def read_state_entry_def read_entry_fields_def write_state_entry_def
        zero_entry_def complete_entry_def state_string.field_one_back [simplified] state_digest.field_one_back [simplified])
  have "extends read_entry_fields" unfolding read_entry_fields_def
    by (intro extends_read_fields) (simp add: state_string.extends_one_field state_digest.extends_one_field)
  then have "extends (\<lambda>bs. and_then (\<lambda>e r. if \<not> complete_entry e then Bad else Got e r) (read_entry_fields bs))"
    by (intro extends_and_then extends_unless extends_Got)
  then show "extends read_state_entry" by (simp add: read_state_entry_def [abs_def])
qed

definition dep_input_ok :: "string \<Rightarrow> bool" where
  "dep_input_ok s \<longleftrightarrow> text_ok s \<and> qstar_path_is_package_relative s"

interpretation dep_input: codec state_db_write_string read_dep_input dep_input_ok id
proof
  show "read_dep_input (state_db_write_string x @ rest) = Got (id x) rest" if "dep_input_ok x" for x rest
    using that by (simp add: dep_input_ok_def read_dep_input_def state_string_back)
  have "extends (\<lambda>bs. and_then (\<lambda>s. if qstar_path_is_package_relative s then Got s else (\<lambda>_. Bad)) (state_db_read_string bs))"
    by (intro extends_and_then extends_state_string extends_unlike extends_Got)
  then show "extends read_dep_input" by (simp add: read_dep_input_def [abs_def])
qed

definition dep_ok :: "qstar_dep_entry \<Rightarrow> bool" where
  "dep_ok e \<longleftrightarrow> de_depfile e \<noteq> [] \<and> text_ok (de_depfile e) \<and> digest_ok (de_digest e) \<and>
     counted_ok DEP_INPUT_LIMIT dep_input_ok (de_inputs e)"

interpretation dep_codec: codec write_dep_entry read_dep_entry dep_ok id
proof
  show "read_dep_entry (write_dep_entry x @ rest) = Got (id x) rest" if "dep_ok x" for x rest
    using that by (cases x) (simp add: dep_ok_def read_dep_entry_def write_dep_entry_def zero_dep_def
        state_string.field_one_back [simplified] state_digest.field_one_back [simplified]
        w64_codec.field_one_back [simplified] dep_input.field_counted_back [simplified])
  let ?fs = "[rtext de_depfile_update, field read_w64 de_size_update, field read_w64 de_mtime_update,
        rdigest de_digest_update, field (read_counted DEP_INPUT_LIMIT read_dep_input) de_inputs_update]"
  have "extends (read_fields ?fs zero_dep)"
    by (intro extends_read_fields) (simp add: state_string.extends_one_field state_digest.extends_one_field
        w64_codec.extends_one_field dep_input.extends_counted_field)
  then have "extends (\<lambda>bs. and_then (\<lambda>e r. if de_depfile e = [] then Bad else Got e r) (read_fields ?fs zero_dep bs))"
    by (intro extends_and_then extends_unless extends_Got)
  then show "extends read_dep_entry" by (simp add: read_dep_entry_def [abs_def])
qed

context codec
begin

lemma db_back:
  assumes "counted_ok DB_LIMIT ok xs" "abi < 2 ^ 64"
  shows "read_db magic abi rd (write_db magic abi wr xs @ rest) = Got (map keep xs) rest"
  using counted_back [OF assms(1), of rest] assms(2)
  by (simp add: read_db_def write_db_def read_bytes_append read_write_u64)

lemma extends_db: "extends (read_db magic abi rd)"
proof -
  have "extends (\<lambda>r. if m \<noteq> magic then Bad else and_then (\<lambda>v r. if v \<noteq> abi then Bad else read_counted DB_LIMIT rd r) (read_u64 r))" for m
    by (intro extends_unless extends_and_then extends_read_u64 extends_counted)
  from extends_and_then [OF extends_read_bytes this] show ?thesis by (simp add: read_db_def [abs_def])
qed

end

interpretation state_db: codec state_db_bytes state_db_parse "counted_ok DB_LIMIT entry_ok" id
  using entry_codec.db_back [of _ STATE_DB_ABI STATE_DB_MAGIC] entry_codec.extends_db [of STATE_DB_MAGIC STATE_DB_ABI]
  by unfold_locales (simp_all add: state_db_bytes_def state_db_parse_def [abs_def])

interpretation deps_db: codec deps_db_bytes deps_db_parse "counted_ok DB_LIMIT dep_ok" id
  using dep_codec.db_back [of _ DEPS_DB_ABI DEPS_DB_MAGIC] dep_codec.extends_db [of DEPS_DB_MAGIC DEPS_DB_ABI]
  by unfold_locales (simp_all add: deps_db_bytes_def deps_db_parse_def [abs_def])

end
