(* ===== verification/QDepfile.thy ===== *)
theory QDepfile
  imports QBuildState
begin

text \<open>
  Dependencies that the compiler reports (\<open>deps_\<close> functions and the depfile reader of \<open>executor.c\<close>): the
  headers of the last build are kept with the size, time and digest of their depfile, and the depfile is
  parsed again when these differ. The lemmas show that what is taken from the records is what parsing
  would give, and that writing can be left out exactly when nothing has changed.
\<close>

section \<open>Records of depfiles\<close>

definition deps_index_build :: "build_ctx \<Rightarrow> build_ctx" where
  "deps_index_build ctx = ctx\<lparr>bc_deps_index := zip (map de_depfile (bc_deps_prev ctx)) [0..<length (bc_deps_prev ctx)]\<rparr>"

definition deps_find_prev :: "build_ctx \<Rightarrow> string \<Rightarrow> qstar_dep_entry option" where
  "deps_find_prev ctx depfile = map_option (\<lambda>(_, i). bc_deps_prev ctx ! i) (find_key fst depfile (bc_deps_index ctx))"

definition deps_find_next :: "build_ctx \<Rightarrow> string \<Rightarrow> qstar_dep_entry option" where
  "deps_find_next ctx depfile = find_key de_depfile depfile (bc_deps_next ctx)"

definition deps_entry_copy :: "string \<Rightarrow> 64 word \<Rightarrow> 64 word \<Rightarrow> string \<Rightarrow> string list \<Rightarrow> qstar_dep_entry" where
  "deps_entry_copy depfile sz mtime digest inputs =
     \<lparr>de_depfile = depfile, de_size = sz, de_mtime = mtime, de_digest = trunc_buf 32 digest, de_inputs = inputs\<rparr>"

definition deps_record :: "build_ctx \<Rightarrow> string \<Rightarrow> 64 word \<Rightarrow> 64 word \<Rightarrow> string \<Rightarrow> string list \<Rightarrow> build_ctx" where
  "deps_record ctx depfile sz mtime digest inputs =
     (let e = deps_entry_copy depfile sz mtime digest inputs
      in case key_index de_depfile depfile (bc_deps_next ctx) of
          Some i \<Rightarrow> ctx\<lparr>bc_deps_next := (bc_deps_next ctx)[i := e]\<rparr>
        | None \<Rightarrow> ctx\<lparr>bc_deps_next := bc_deps_next ctx @ [e]\<rparr>)"

definition deps_entries_clone :: "qstar_dep_entry list \<Rightarrow> qstar_dep_entry list" where
  "deps_entries_clone src = bc_deps_next (foldl (\<lambda>tmp e.
     deps_record tmp (de_depfile e) (de_size e) (de_mtime e) (de_digest e) (de_inputs e)) zero_ctx src)"

definition deps_unchanged :: "build_ctx \<Rightarrow> bool" where
  "deps_unchanged ctx \<longleftrightarrow> length (bc_deps_prev ctx) = length (bc_deps_next ctx) \<and>
     list_all (\<lambda>n. case deps_find_prev ctx (de_depfile n) of
        None \<Rightarrow> False
      | Some p \<Rightarrow> de_size p = de_size n \<and> de_mtime p = de_mtime n \<and> de_digest p = de_digest n \<and> de_inputs p = de_inputs n)
       (bc_deps_next ctx)"

definition deps_prev_clear :: "build_ctx \<Rightarrow> build_ctx" where
  "deps_prev_clear ctx = ctx\<lparr>bc_deps_prev := [], bc_deps_index := []\<rparr>"

section \<open>Reading a depfile\<close>

definition dep_blank :: "char \<Rightarrow> bool" where
  "dep_blank c \<longleftrightarrow> c = CHR '' '' \<or> [c] = TAB \<or> [c] = NL \<or> [c] = CR"

text \<open>The token buffer: one more character if there is room, and the token if there is one.\<close>

definition token_add :: "string \<Rightarrow> char \<Rightarrow> string" where
  "token_add token c = (if length token + 1 < PATH_MAX then token @ [c] else token)"

definition token_end :: "string \<Rightarrow> string list" where
  "token_end token = (if token = [] then [] else [c_string token])"

text \<open>After the colon: an escaped line end is dropped, any other escaped character is read as it is.\<close>

fun scan_deps :: "string \<Rightarrow> string \<Rightarrow> string list" where
  "scan_deps token [] = token_end token"
| "scan_deps token (c # cs) =
     (if c = BS then (case cs of
         [] \<Rightarrow> token_end token
       | n # ns \<Rightarrow>
           if [n] = NL \<or> [n] = CR then scan_deps token ns
           else if dep_blank n then token_end token @ scan_deps [] ns
           else scan_deps (token_add token n) ns)
      else if dep_blank c then token_end token @ scan_deps [] cs
      else scan_deps (token_add token c) cs)"

definition depfile_tokens :: "string \<Rightarrow> string list" where
  "depfile_tokens content = scan_deps [] (drop 1 (dropWhile (\<lambda>c. c \<noteq> CHR '':'') content))"

definition push_depfile_token :: "disk \<Rightarrow> qstar_graph \<Rightarrow> string list \<Rightarrow> string \<Rightarrow> qerr + string list" where
  "push_depfile_token d g inputs token =
     (if token = [] \<or> \<not> qstar_path_is_package_relative token then Inr inputs
      else case full_path_under_root g token PATH_MAX of
          None \<Rightarrow> Inl (Plain ''qstar: depfile input path too long'')
        | Some full \<Rightarrow>
            if dk_stat d full = None then Inl (Plain (''qstar: depfile-discovered header '' @ sq token @ '' is missing''))
            else Inr (push_unique inputs token))"

definition push_depfile_token_with_record ::
  "disk \<Rightarrow> qstar_graph \<Rightarrow> string list \<times> string list \<Rightarrow> string \<Rightarrow> qerr + string list \<times> string list" where
  "push_depfile_token_with_record d g acc token = (case acc of (inputs, parsed) \<Rightarrow>
     if token = [] \<or> \<not> qstar_path_is_package_relative token then Inr (inputs, parsed)
     else case push_depfile_token d g inputs token of
         Inl e \<Rightarrow> Inl e
       | Inr inputs' \<Rightarrow> Inr (inputs', push_unique parsed token))"

fun push_all :: "('s \<Rightarrow> string \<Rightarrow> qerr + 's) \<Rightarrow> 's \<Rightarrow> string list \<Rightarrow> qerr + 's" where
  "push_all f s [] = Inr s"
| "push_all f s (t # ts) = (case f s t of Inl e \<Rightarrow> Inl e | Inr s' \<Rightarrow> push_all f s' ts)"

definition open_file :: "disk \<Rightarrow> string \<Rightarrow> string option" where
  "open_file d full = (if dk_readable d full then dk_read d full else None)"

definition qstar_parse_depfile_inputs ::
  "disk \<Rightarrow> qstar_graph \<Rightarrow> string \<Rightarrow> string list \<Rightarrow> string list \<Rightarrow> qerr + string list \<times> string list" where
  "qstar_parse_depfile_inputs d g depfile inputs parsed = (case full_path_under_root g depfile PATH_MAX of
      None \<Rightarrow> Inl (Plain ''qstar: depfile path too long'')
    | Some full \<Rightarrow> (case open_file d full of
        None \<Rightarrow> Inr (inputs, parsed)
      | Some content \<Rightarrow> push_all (push_depfile_token_with_record d g) (inputs, parsed) (depfile_tokens content)))"

section \<open>Fingerprints\<close>

record qstar_depfile_fingerprint =
  df_size :: "64 word"
  df_mtime :: "64 word"
  df_digest :: string
  df_exists :: bool

definition stat_mtime_tick :: "int \<Rightarrow> 64 word" where
  "stat_mtime_tick mtime = of_int mtime * 1000000000"

definition content_digest :: "string \<Rightarrow> 64 word \<Rightarrow> 64 word \<Rightarrow> string option \<Rightarrow> string" where
  "content_digest depfile sz mtime content =
     (let h = hash_str (hash_str HASH_INIT (Some depfile)) (Some (''size='' @ u64_str sz @ '' mtime='' @ u64_str mtime))
      in hex16 (case content of None \<Rightarrow> hash_str h (Some ''<unreadable>'') | Some c \<Rightarrow> hash_update h c))"

definition depfile_fingerprint :: "disk \<Rightarrow> qstar_graph \<Rightarrow> build_ctx \<Rightarrow> string \<Rightarrow> qerr + qstar_depfile_fingerprint" where
  "depfile_fingerprint d g ctx depfile = (case full_path_under_root g depfile PATH_MAX of
      None \<Rightarrow> Inl (Plain ''qstar: depfile path too long'')
    | Some full \<Rightarrow> (case dk_stat d full of
        None \<Rightarrow> Inr \<lparr>df_size = 0, df_mtime = 0, df_digest = [], df_exists = False\<rparr>
      | Some (len, mtime) \<Rightarrow>
          let sz = of_nat len; tick = stat_mtime_tick mtime;
              fresh = content_digest depfile sz tick (open_file d full);
              known = (case deps_find_prev ctx depfile of None \<Rightarrow> None
                | Some p \<Rightarrow> if de_size p = sz \<and> de_mtime p = tick \<and> de_digest p \<noteq> [] then Some (trunc_buf 32 (de_digest p)) else None)
          in Inr \<lparr>df_size = sz, df_mtime = tick, df_digest = (case known of Some k \<Rightarrow> k | None \<Rightarrow> fresh), df_exists = True\<rparr>))"

definition read_again ::
  "disk \<Rightarrow> qstar_graph \<Rightarrow> build_ctx \<Rightarrow> string \<Rightarrow> qstar_depfile_fingerprint \<Rightarrow> string list \<Rightarrow> qerr + build_ctx \<times> string list" where
  "read_again d g ctx depfile fp inputs = (case qstar_parse_depfile_inputs d g depfile inputs [] of
      Inl e \<Rightarrow> Inl e
    | Inr (inputs', parsed) \<Rightarrow> Inr (deps_record ctx depfile (df_size fp) (df_mtime fp) (df_digest fp) parsed, inputs'))"

definition push_depfile_inputs ::
  "disk \<Rightarrow> qstar_graph \<Rightarrow> build_ctx \<Rightarrow> string \<Rightarrow> string list \<Rightarrow> qerr + build_ctx \<times> string list" where
  "push_depfile_inputs d g ctx depfile inputs = (case depfile_fingerprint d g ctx depfile of
      Inl e \<Rightarrow> Inl e
    | Inr fp \<Rightarrow>
        if \<not> df_exists fp then Inr (ctx, inputs)
        else (case deps_find_prev ctx depfile of
            Some e \<Rightarrow> if de_size e = df_size fp \<and> de_mtime e = df_mtime fp \<and> de_digest e = df_digest fp
              then (case push_all (push_depfile_token d g) inputs (de_inputs e) of
                  Inl err \<Rightarrow> Inl err
                | Inr inputs' \<Rightarrow> Inr (deps_record ctx depfile (df_size fp) (df_mtime fp) (df_digest fp) (de_inputs e), inputs'))
              else read_again d g ctx depfile fp inputs
          | None \<Rightarrow> read_again d g ctx depfile fp inputs))"

section \<open>What is pushed\<close>

text \<open>The names that count: inside the package, each once.\<close>

definition wanted :: "string \<Rightarrow> bool" where
  "wanted token \<longleftrightarrow> token \<noteq> [] \<and> qstar_path_is_package_relative token"

definition readable_name :: "disk \<Rightarrow> qstar_graph \<Rightarrow> string \<Rightarrow> bool" where
  "readable_name d g token \<longleftrightarrow> (case full_path_under_root g token PATH_MAX of None \<Rightarrow> False | Some full \<Rightarrow> dk_stat d full \<noteq> None)"

lemma push_token_cases:
  "\<not> wanted t \<Longrightarrow> push_depfile_token d g xs t = Inr xs"
  "wanted t \<Longrightarrow> readable_name d g t \<Longrightarrow> push_depfile_token d g xs t = Inr (push_unique xs t)"
  "wanted t \<Longrightarrow> \<not> readable_name d g t \<Longrightarrow> \<exists>e. push_depfile_token d g xs t = Inl e \<and> (\<forall>ys. push_depfile_token d g ys t = Inl e)"
  by (auto simp: push_depfile_token_def wanted_def readable_name_def split: option.splits)

lemma push_all_tokens:
  "push_all (push_depfile_token d g) xs ts = Inr ys \<longleftrightarrow>
     list_all (readable_name d g) (filter wanted ts) \<and> ys = fold (\<lambda>t acc. push_unique acc t) (filter wanted ts) xs"
proof (induction ts arbitrary: xs)
  case (Cons t ts)
  consider "\<not> wanted t" | "wanted t" "readable_name d g t" | "wanted t" "\<not> readable_name d g t" by blast
  then show ?case
  proof cases
    case 3
    then obtain e where "push_depfile_token d g xs t = Inl e" using push_token_cases(3) by metis
    then show ?thesis using 3 by simp
  qed (simp_all add: Cons.IH push_token_cases)
qed auto

lemma with_record:
  "push_depfile_token_with_record d g (xs, ps) t = (case push_depfile_token d g xs t of
     Inl e \<Rightarrow> Inl e | Inr ys \<Rightarrow> Inr (ys, if wanted t then push_unique ps t else ps))"
  using push_token_cases(1) [of t d g xs]
  by (auto simp: push_depfile_token_with_record_def wanted_def split: sum.splits)

lemma push_all_recorded:
  "push_all (push_depfile_token_with_record d g) (xs, ps) ts =
     (case push_all (push_depfile_token d g) xs ts of
        Inl e \<Rightarrow> Inl e
      | Inr ys \<Rightarrow> Inr (ys, fold (\<lambda>t acc. push_unique acc t) (filter wanted ts) ps))"
  by (induction ts arbitrary: xs ps) (simp_all add: with_record split: sum.split)


lemma push_unique_mem [simp]: "t \<in> set xs \<Longrightarrow> push_unique xs t = xs"
  by (simp add: push_unique_def)

definition unique_wanted :: "string list \<Rightarrow> string list" where
  "unique_wanted ts = fold (\<lambda>t acc. push_unique acc t) (filter wanted ts) []"

lemma push_all_snoc: "push_all f s (ts @ [t]) = (case push_all f s ts of Inl e \<Rightarrow> Inl e | Inr s' \<Rightarrow> f s' t)"
  by (induction ts arbitrary: s) (simp_all split: sum.split)

lemma push_all_unique: "push_all (push_depfile_token d g) xs (unique_wanted ts) = push_all (push_depfile_token d g) xs ts"
proof (induction ts rule: rev_induct)
  case Nil
  then show ?case by (simp add: unique_wanted_def)
next
  case (snoc t ts)
  have step: "unique_wanted (ts @ [t]) = (if wanted t then push_unique (unique_wanted ts) t else unique_wanted ts)"
    by (simp add: unique_wanted_def)
  show ?case
  proof (cases "wanted t \<and> t \<notin> set (unique_wanted ts)")
    case True
    then show ?thesis using snoc by (simp add: step push_unique_def push_all_snoc)
  next
    case False
    have "push_depfile_token d g ys t = Inr ys" if ys: "push_all (push_depfile_token d g) xs ts = Inr ys" for ys
    proof (cases "wanted t")
      case True
      then have "t \<in> set (filter wanted ts)" using False by (simp add: unique_wanted_def fold_push_unique(1))
      then have "readable_name d g t" "t \<in> set ys"
        using ys unfolding push_all_tokens by (auto simp: list_all_iff fold_push_unique(1))
      then show ?thesis using push_token_cases(2) [OF True] by simp
    qed (simp add: push_token_cases(1))
    then show ?thesis using False snoc by (auto simp: step push_all_snoc split: sum.splits)
  qed
qed

section \<open>Records and files agree\<close>

definition deps_indexed :: "build_ctx \<Rightarrow> bool" where
  "deps_indexed ctx \<longleftrightarrow> bc_deps_index ctx = zip (map de_depfile (bc_deps_prev ctx)) [0..<length (bc_deps_prev ctx)]"

lemma deps_indexed_build: "deps_indexed (deps_index_build ctx)"
  by (simp add: deps_indexed_def deps_index_build_def)

lemma find_key_zip: "find_key fst k (zip ks vs) = map_option (\<lambda>v. (k, v)) (map_of (zip ks vs) k)"
  by (induction ks vs rule: list_induct2') auto

lemma deps_find_prev_first: "deps_indexed ctx \<Longrightarrow> deps_find_prev ctx depfile = find_key de_depfile depfile (bc_deps_prev ctx)"
  by (simp add: deps_find_prev_def deps_indexed_def find_key_zip find_key_positions [of de_depfile] option.map_comp comp_def)

lemma find_key_update:
  "key_index key k xs = Some i \<Longrightarrow> key e = k \<Longrightarrow> find_key key j (xs[i := e]) = (if j = k then Some e else find_key key j xs)"
  by (induction xs arbitrary: i) (auto split: if_splits nat.splits)

lemma deps_record_find:
  "deps_find_next (deps_record ctx depfile sz mtime digest inputs) k =
     (if k = depfile then Some (deps_entry_copy depfile sz mtime digest inputs) else deps_find_next ctx k)"
proof (cases "key_index de_depfile depfile (bc_deps_next ctx)")
  case None
  then have "find_key de_depfile depfile (bc_deps_next ctx) = None" by (simp add: key_index_None)
  then show ?thesis using None
    by (auto simp: deps_find_next_def deps_record_def find_key_append deps_entry_copy_def split: option.splits)
next
  case (Some i)
  then show ?thesis by (simp add: deps_find_next_def deps_record_def find_key_update deps_entry_copy_def)
qed

lemma deps_unchanged_same:
  assumes "deps_indexed ctx" "deps_unchanged ctx" "distinct (map de_depfile (bc_deps_next ctx))"
  shows "find_key de_depfile k (bc_deps_next ctx) = find_key de_depfile k (bc_deps_prev ctx)"
proof -
  have "rel_option (\<lambda>p n. de_depfile p = de_depfile n \<and> de_size p = de_size n \<and> de_mtime p = de_mtime n \<and>
      de_digest p = de_digest n \<and> de_inputs p = de_inputs n)
    (find_key de_depfile k (bc_deps_prev ctx)) (find_key de_depfile k (bc_deps_next ctx))"
    using assms by (intro same_keys)
      (fastforce simp: deps_unchanged_def deps_find_prev_first list_all_iff split: option.splits dest: find_key_Some)+
  then show ?thesis
    by (cases "find_key de_depfile k (bc_deps_prev ctx)"; cases "find_key de_depfile k (bc_deps_next ctx)") auto
qed

text \<open>
  A record is right for a file if it has the names of that file; the digest stands for the content only together with size and time.
\<close>

definition right_record :: "disk \<Rightarrow> string \<Rightarrow> qstar_dep_entry \<Rightarrow> bool" where
  "right_record d full e \<longleftrightarrow> (case (dk_stat d full, open_file d full) of
      (Some (len, mtime), Some content) \<Rightarrow>
        de_size e = of_nat len \<and> de_mtime e = stat_mtime_tick mtime \<longrightarrow> de_inputs e = unique_wanted (depfile_tokens content)
    | _ \<Rightarrow> False)"

lemma push_depfile_inputs_parses:
  assumes "deps_indexed ctx" "full_path_under_root g depfile PATH_MAX = Some full"
    and "dk_stat d full = Some (len, mtime)" "open_file d full = Some content"
    and "\<And>e. find_key de_depfile depfile (bc_deps_prev ctx) = Some e \<Longrightarrow> right_record d full e"
    and "push_depfile_inputs d g ctx depfile xs = Inr (ctx', ys)"
  shows "push_all (push_depfile_token d g) xs (depfile_tokens content) = Inr ys"
    and "map_option de_inputs (deps_find_next ctx' depfile) = Some (unique_wanted (depfile_tokens content))"
proof -
  have again: "push_all (push_depfile_token d g) xs (depfile_tokens content) = Inr ys \<and>
      map_option de_inputs (deps_find_next ctx' depfile) = Some (unique_wanted (depfile_tokens content))"
    if "read_again d g ctx depfile fp xs = Inr (ctx', ys)" for fp
    using that assms(2,4) by (auto simp: read_again_def qstar_parse_depfile_inputs_def push_all_recorded deps_record_find
        deps_entry_copy_def unique_wanted_def split: sum.splits)
  have "push_all (push_depfile_token d g) xs (depfile_tokens content) = Inr ys \<and>
      map_option de_inputs (deps_find_next ctx' depfile) = Some (unique_wanted (depfile_tokens content))"
  proof (cases "find_key de_depfile depfile (bc_deps_prev ctx)")
    case None
    then show ?thesis using assms(6) again
      by (simp add: push_depfile_inputs_def depfile_fingerprint_def assms(2,3) deps_find_prev_first [OF assms(1)] Let_def)
  next
    case (Some e)
    obtain fp where fp: "depfile_fingerprint d g ctx depfile = Inr fp" "df_size fp = of_nat len"
        "df_mtime fp = stat_mtime_tick mtime" "df_exists fp"
      using assms(2,3) by (simp add: depfile_fingerprint_def Let_def)
    show ?thesis
    proof (cases "de_size e = df_size fp \<and> de_mtime e = df_mtime fp \<and> de_digest e = df_digest fp")
      case True
      then have names: "de_inputs e = unique_wanted (depfile_tokens content)"
        using assms(5) [OF Some] fp assms(3,4) by (simp add: right_record_def)
      show ?thesis using assms(6) True fp
        by (auto simp: push_depfile_inputs_def deps_find_prev_first [OF assms(1)] Some names push_all_unique
            deps_record_find deps_entry_copy_def split: sum.splits)
    next
      case False
      then have "read_again d g ctx depfile fp xs = Inr (ctx', ys)" using assms(6) fp
        by (simp add: push_depfile_inputs_def deps_find_prev_first [OF assms(1)] Some split: if_splits)
      then show ?thesis by (rule again)
    qed
  qed
  then show "push_all (push_depfile_token d g) xs (depfile_tokens content) = Inr ys"
    "map_option de_inputs (deps_find_next ctx' depfile) = Some (unique_wanted (depfile_tokens content))" by simp_all
qed

text \<open>The only part of the context that reading a depfile changes.\<close>

lemma push_depfile_only:
  "push_depfile_inputs d g ctx depfile xs = Inr (ctx', ys) \<Longrightarrow> \<exists>ds. ctx' = ctx\<lparr>bc_deps_next := ds\<rparr>"
proof -
  have rec: "\<exists>ds. deps_record ctx depfile sz mtime digest inputs = ctx\<lparr>bc_deps_next := ds\<rparr>" for sz mtime digest inputs
    by (auto simp: deps_record_def Let_def split: option.splits)
  have same: "\<exists>ds. ctx = ctx\<lparr>bc_deps_next := ds\<rparr>" by (rule exI [of _ "bc_deps_next ctx"]) simp
  assume "push_depfile_inputs d g ctx depfile xs = Inr (ctx', ys)"
  then show ?thesis using rec same
    by (auto simp: push_depfile_inputs_def read_again_def split: sum.splits option.splits if_splits)
qed

text \<open>A depfile that can be read, with its content, and a record of it that is right if there is one.\<close>

definition depfile_known :: "disk \<Rightarrow> qstar_graph \<Rightarrow> build_ctx \<Rightarrow> string \<Rightarrow> string \<Rightarrow> bool" where
  "depfile_known d g ctx depfile content \<longleftrightarrow> deps_indexed ctx \<and>
     (\<exists>full len mtime. full_path_under_root g depfile PATH_MAX = Some full \<and> dk_stat d full = Some (len, mtime) \<and>
        open_file d full = Some content \<and>
        (\<forall>e. find_key de_depfile depfile (bc_deps_prev ctx) = Some e \<longrightarrow> right_record d full e))"

lemma push_depfile_known:
  assumes "depfile_known d g ctx depfile content" "push_depfile_inputs d g ctx depfile [] = Inr (ctx', ys)"
  shows "ys = unique_wanted (depfile_tokens content)"
proof -
  obtain full len mtime where k: "deps_indexed ctx" "full_path_under_root g depfile PATH_MAX = Some full"
      "dk_stat d full = Some (len, mtime)" "open_file d full = Some content"
      "\<forall>e. find_key de_depfile depfile (bc_deps_prev ctx) = Some e \<longrightarrow> right_record d full e"
    using assms(1) unfolding depfile_known_def by blast
  have "push_all (push_depfile_token d g) [] (depfile_tokens content) = Inr ys"
    using push_depfile_inputs_parses(1) [OF k(1-4) _ assms(2)] k(5) by blast
  then show ?thesis by (simp add: push_all_tokens unique_wanted_def)
qed

end
