(* ===== verification/QActionKey.thy ===== *)
theory QActionKey
  imports QDepfile
begin

text \<open>
  The keys that decide whether an action runs again (\<open>hash_\<close> and \<open>compute_\<close> functions of \<open>executor.c\<close>, the
  refresh of a key after the depfile is known, cache hits and the reasons of misses). Digests of files are
  remembered for one build; the locale \<open>memo\<close> has the laws of such a memory and the digests are its
  instance. The lemmas show that remembered and computed keys agree while the files stay as they are, what
  the hashed text determines, when a refreshed key is the key of the next build and when it is not.
\<close>

section \<open>Remembered functions\<close>

locale memo =
  fixes fn :: "'k \<Rightarrow> 'v" and look :: "'m \<Rightarrow> 'k \<Rightarrow> 'v option" and add :: "'m \<Rightarrow> 'k \<Rightarrow> 'v \<Rightarrow> 'm"
  assumes look_add: "look m k = None \<Longrightarrow> look (add m k (fn k)) j = (if j = k then Some (fn k) else look m j)"
begin

definition right :: "'m \<Rightarrow> bool" where
  "right m \<longleftrightarrow> (\<forall>k v. look m k = Some v \<longrightarrow> v = fn k)"

definition recall :: "'m \<Rightarrow> 'k \<Rightarrow> 'v \<times> 'm" where
  "recall m k = (case look m k of Some v \<Rightarrow> (v, m) | None \<Rightarrow> (fn k, add m k (fn k)))"

lemma recall_right: "right m \<Longrightarrow> fst (recall m k) = fn k \<and> right (snd (recall m k))"
  by (auto simp: recall_def right_def look_add split: option.splits)

lemma recall_again: "look (snd (recall m k)) k = Some (fst (recall m k))"
  by (auto simp: recall_def look_add split: option.splits)

end

section \<open>Digests of files\<close>

definition hash_cache_find :: "(string \<times> string) list \<Rightarrow> string \<Rightarrow> string option" where
  "hash_cache_find cache rel = map_option snd (find_key fst rel cache)"

definition hash_cache_add :: "(string \<times> string) list \<Rightarrow> string \<Rightarrow> string \<Rightarrow> (string \<times> string) list" where
  "hash_cache_add cache rel digest = cache @ [(rel, trunc_buf 32 digest)]"

definition path_is_build_output :: "qstar_graph \<Rightarrow> string \<Rightarrow> bool" where
  "path_is_build_output g rel \<longleftrightarrow> qstar_graph_build_dir g \<noteq> [] \<and> starts_with (qstar_graph_build_dir g @ ''/'') rel"

definition meta_text :: "nat \<Rightarrow> int \<Rightarrow> string" where
  "meta_text len mtime = ''size='' @ nat_str len @ '' mtime='' @ int_str mtime"

text \<open>The digest when it is not remembered.\<close>

definition file_digest :: "disk \<Rightarrow> qstar_graph \<Rightarrow> string \<Rightarrow> string" where
  "file_digest d g rel =
     (let h = hash_str HASH_INIT (Some rel)
      in hex16 (case full_path_under_root g rel PATH_MAX of
          None \<Rightarrow> hash_str h (Some ''<missing>'')
        | Some path \<Rightarrow> (case dk_stat d path of
            None \<Rightarrow> hash_str h (Some ''<missing>'')
          | Some (len, mtime) \<Rightarrow>
              let h' = hash_str h (Some (meta_text len mtime))
              in if path_is_build_output g rel then hash_str h' (Some ''<build-output>'')
                 else (case open_file d path of
                     None \<Rightarrow> hash_str h' (Some ''<unreadable>'')
                   | Some content \<Rightarrow> hash_update h' content))))"

definition hash_file :: "disk \<Rightarrow> qstar_graph \<Rightarrow> build_ctx \<times> 64 word \<Rightarrow> string \<Rightarrow> build_ctx \<times> 64 word" where
  "hash_file d g s rel = (case s of (ctx, h) \<Rightarrow>
     (case hash_cache_find (bc_hash_cache ctx) rel of
        Some cached \<Rightarrow> (ctx, hash_str h (Some cached))
      | None \<Rightarrow> let digest = file_digest d g rel
          in (ctx\<lparr>bc_hash_cache := hash_cache_add (bc_hash_cache ctx) rel digest\<rparr>, hash_str h (Some digest))))"

section \<open>Keys\<close>

definition hash_argv :: "64 word \<Rightarrow> string list \<Rightarrow> 64 word" where
  "hash_argv h argv = foldl (\<lambda>h s. hash_str h (Some s)) h argv"

definition hash_string_list :: "64 word \<Rightarrow> string list \<Rightarrow> 64 word" where
  "hash_string_list h xs = foldl (\<lambda>h s. hash_str h (Some s)) h xs"

definition hash_toolset :: "64 word \<Rightarrow> qstar_toolset \<Rightarrow> 64 word" where
  "hash_toolset h t =
     (let h1 = foldl hash_str h [Some (ts_label t), ts_response_files t, ts_response_style t, ts_allow_absolute_tools t];
          h2 = foldl (\<lambda>h r. hash_string_list (hash_str h (Some (tr_role r))) (tr_argv r)) h1 (ts_roles t)
      in hash_string_list (hash_string_list h2 (ts_path_tools t)) (ts_response_file_tools t))"

definition hash_toolsets :: "64 word \<Rightarrow> qstar_graph \<Rightarrow> 64 word" where
  "hash_toolsets h g = foldl hash_toolset h (gr_toolsets g)"

definition ENV_KEYS :: "string list" where
  "ENV_KEYS = [''PATH'', ''SDKROOT'', ''CPATH'', ''LIBRARY_PATH'']"

definition hash_env_whitelist :: "(string \<Rightarrow> cstr) \<Rightarrow> 64 word \<Rightarrow> 64 word" where
  "hash_env_whitelist getenv h = foldl (\<lambda>h k. hash_str (hash_str h (Some k)) (getenv k)) h ENV_KEYS"

text \<open>\<open>format_key\<close> into 32 bytes.\<close>

definition format_key :: "64 word \<Rightarrow> string" where
  "format_key h = trunc_buf 32 (hex16 h)"

definition compute_env_key :: "(string \<Rightarrow> cstr) \<Rightarrow> build_ctx \<Rightarrow> build_ctx \<times> string" where
  "compute_env_key getenv ctx = (case bc_env_key ctx of
      Some k \<Rightarrow> (ctx, k)
    | None \<Rightarrow> let k = format_key (hash_env_whitelist getenv HASH_INIT) in (ctx\<lparr>bc_env_key := Some k\<rparr>, k))"

definition compute_action_env_key :: "(string \<Rightarrow> cstr) \<Rightarrow> build_ctx \<Rightarrow> string list \<Rightarrow> build_ctx \<times> string" where
  "compute_action_env_key getenv ctx env = (if env = [] then compute_env_key getenv ctx
     else (ctx, format_key (hash_string_list (hash_env_whitelist getenv HASH_INIT) env)))"

definition compute_argv_key :: "string list \<Rightarrow> string" where
  "compute_argv_key argv = format_key (hash_argv HASH_INIT argv)"

definition compute_input_key :: "disk \<Rightarrow> qstar_graph \<Rightarrow> build_ctx \<Rightarrow> string list \<Rightarrow> build_ctx \<times> string" where
  "compute_input_key d g ctx inputs = (case foldl (hash_file d g) (ctx, HASH_INIT) inputs of (ctx', h) \<Rightarrow> (ctx', format_key h))"

definition compute_tool_policy_key :: "host_os \<Rightarrow> qstar_graph \<Rightarrow> qstar_resolved_toolchain option \<Rightarrow> string" where
  "compute_tool_policy_key host g tc =
     (let h = hash_toolsets (hash_str HASH_INIT (Some (qstar_graph_platform (qstar_host_platform host) g))) g
      in format_key (case tc of None \<Rightarrow> h | Some t \<Rightarrow> hash_string_list h
           [rt_platform t, rt_link_style t, rt_toolset t, rt_cc t, rt_cxx t, rt_asm t, rt_ar t, rt_linker t,
            if rt_response_files t then ''rsp=on'' else ''rsp=off'', rt_response_style t]))"

definition compute_output_key :: "cstr \<Rightarrow> string" where
  "compute_output_key output = format_key (hash_str HASH_INIT output)"

definition compute_external_tool_key :: "qstar_graph \<Rightarrow> qstar_resolved_toolchain option \<Rightarrow> string list \<Rightarrow> string" where
  "compute_external_tool_key g tc argv =
     (let h = hash_toolsets (hash_str HASH_INIT (case argv of [] \<Rightarrow> None | a # _ \<Rightarrow> Some a)) g
      in format_key (case tc of None \<Rightarrow> h | Some t \<Rightarrow> hash_string_list h
           [rt_cc t, rt_cxx t, rt_asm t, rt_ar t, rt_linker t, rt_toolset t]))"

text \<open>What the caller of \<open>compute_action_key\<close> passes on the action.\<close>

record key_request =
  kr_target :: "qstar_target option"
  kr_toolchain :: "qstar_resolved_toolchain option"
  kr_id :: string
  kr_kind :: string
  kr_argv :: "string list"
  kr_env :: "string list"
  kr_inputs :: "string list"
  kr_depfile_inputs :: "string list"
  kr_output :: cstr

record key_world =
  kw_disk :: disk
  kw_getenv :: "string \<Rightarrow> cstr"
  kw_host :: host_os

definition target_text :: "qstar_target option \<Rightarrow> string" where
  "target_text t = (case t of None \<Rightarrow> ''<generated>'' | Some t \<Rightarrow> t_label t)"

definition key_of_material :: "key_request \<Rightarrow> qstar_action_material \<Rightarrow> string" where
  "key_of_material r m = format_key (hash_string_list HASH_INIT
     [kr_id r, kr_kind r, target_text (kr_target r), am_argv_key m, am_env_key m, am_input_key m, am_depfile_key m,
      am_tool_policy_key m, am_output_key m, am_external_tool_key m])"

definition compute_action_key ::
  "key_world \<Rightarrow> qstar_graph \<Rightarrow> build_ctx \<Rightarrow> key_request \<Rightarrow> build_ctx \<times> string \<times> qstar_action_material" where
  "compute_action_key w g ctx r =
     (case compute_action_env_key (kw_getenv w) ctx (kr_env r) of (ctx1, env_key) \<Rightarrow>
     (case compute_input_key (kw_disk w) g ctx1 (kr_inputs r) of (ctx2, input_key) \<Rightarrow>
     (case compute_input_key (kw_disk w) g ctx2 (kr_depfile_inputs r) of (ctx3, depfile_key) \<Rightarrow>
        let m = \<lparr>am_argv_key = compute_argv_key (kr_argv r), am_env_key = env_key, am_input_key = input_key,
              am_depfile_key = depfile_key,
              am_tool_policy_key = compute_tool_policy_key (kw_host w) g (kr_toolchain r),
              am_output_key = compute_output_key (kr_output r),
              am_external_tool_key = compute_external_tool_key g (kr_toolchain r) (kr_argv r)\<rparr>
        in (ctx3, key_of_material r m, m))))"

text \<open>The same without a material to fill in.\<close>

definition compute_action_key_only :: "key_world \<Rightarrow> qstar_graph \<Rightarrow> build_ctx \<Rightarrow> key_request \<Rightarrow> build_ctx \<times> string" where
  "compute_action_key_only w g ctx r =
     (let h = hash_string_list HASH_INIT [kr_id r, kr_kind r, target_text (kr_target r), str_or_empty (kr_output r),
            compute_tool_policy_key (kw_host w) g (kr_toolchain r)]
      in case foldl (hash_file (kw_disk w) g) (ctx, hash_argv h (kr_argv r)) (kr_inputs r) of (ctx1, h1) \<Rightarrow>
        (case compute_action_env_key (kw_getenv w) ctx1 (kr_env r) of (ctx2, env_key) \<Rightarrow>
           (ctx2, format_key (hash_str h1 (Some env_key)))))"

section \<open>Inputs of an action\<close>

definition copy_static_inputs :: "string list \<Rightarrow> string list \<Rightarrow> string list" where
  "copy_static_inputs inputs depfile_inputs = filter (\<lambda>i. \<not> list_contains depfile_inputs i) inputs"

text \<open>The names of the depfile that are not inputs yet are added at the end.\<close>

definition add_dep_inputs :: "string list \<Rightarrow> string list \<Rightarrow> string list" where
  "add_dep_inputs inputs deps = fold (\<lambda>i acc. push_unique acc i) deps inputs"

record prepared_action =
  pa_request :: key_request
  pa_key :: string
  pa_material :: qstar_action_material
  pa_depfile :: string
  pa_wants_depfile :: bool
  pa_outputs :: "string list"

text \<open>Preparing an action with the static inputs \<open>kr_inputs\<close>: the last steps of all \<open>prepare_\<close> functions.\<close>

definition dep_request :: "key_request \<Rightarrow> string list \<Rightarrow> key_request" where
  "dep_request r deps = r\<lparr>kr_inputs := add_dep_inputs (kr_inputs r) deps, kr_depfile_inputs := deps\<rparr>"

definition prepare_inputs ::
  "key_world \<Rightarrow> qstar_graph \<Rightarrow> build_ctx \<Rightarrow> prepared_action \<Rightarrow> qerr + build_ctx \<times> prepared_action" where
  "prepare_inputs w g ctx a =
     (case (if pa_wants_depfile a then push_depfile_inputs (kw_disk w) g ctx (pa_depfile a) [] else Inr (ctx, [])) of
        Inl e \<Rightarrow> Inl e
      | Inr (ctx1, deps) \<Rightarrow>
          let r = dep_request (pa_request a) deps
          in case compute_action_key w g ctx1 r of (ctx2, key, m) \<Rightarrow>
             Inr (ctx2, a\<lparr>pa_request := r, pa_key := key, pa_material := m\<rparr>))"

text \<open>After the action has run, with the depfile it has written; the action itself keeps its lists.\<close>

definition refreshed_request :: "prepared_action \<Rightarrow> string list \<Rightarrow> key_request" where
  "refreshed_request a deps =
     (let r = pa_request a
      in r\<lparr>kr_inputs := add_dep_inputs (copy_static_inputs (kr_inputs r) (kr_depfile_inputs r)) deps, kr_depfile_inputs := deps\<rparr>)"

definition refresh_action_state_after_depfile ::
  "key_world \<Rightarrow> qstar_graph \<Rightarrow> build_ctx \<Rightarrow> prepared_action \<Rightarrow> qerr + build_ctx \<times> prepared_action" where
  "refresh_action_state_after_depfile w g ctx a =
     (case (if pa_wants_depfile a then push_depfile_inputs (kw_disk w) g ctx (pa_depfile a) [] else Inr (ctx, [])) of
        Inl e \<Rightarrow> Inl e
      | Inr (ctx1, deps) \<Rightarrow> (case compute_action_key w g ctx1 (refreshed_request a deps) of (ctx2, key, m) \<Rightarrow>
          Inr (state_update_material ctx2 (kr_id (pa_request a)) key (Some m), a\<lparr>pa_key := key, pa_material := m\<rparr>)))"

section \<open>Hits and misses\<close>

definition outputs_exist :: "disk \<Rightarrow> qstar_graph \<Rightarrow> string list \<Rightarrow> bool" where
  "outputs_exist d g outputs \<longleftrightarrow> outputs \<noteq> [] \<and> list_all (\<lambda>out. case full_path_under_root g out PATH_MAX of
     None \<Rightarrow> False | Some full \<Rightarrow> dk_stat d full \<noteq> None) outputs"

definition prepared_action_cache_hit :: "disk \<Rightarrow> qstar_graph \<Rightarrow> build_ctx \<Rightarrow> prepared_action \<Rightarrow> bool option" where
  "prepared_action_cache_hit d g ctx a = map_option (\<lambda>prev. case prev of
      None \<Rightarrow> False
    | Some p \<Rightarrow> en_key p = pa_key a \<and> outputs_exist d g (pa_outputs a)) (state_find ctx (kr_id (pa_request a)))"

definition differs :: "string \<Rightarrow> string \<Rightarrow> bool" where
  "differs old new \<longleftrightarrow> old \<noteq> [] \<and> old \<noteq> new"

definition cache_reason ::
  "disk \<Rightarrow> qstar_graph \<Rightarrow> qstar_state_entry option \<Rightarrow> string \<Rightarrow> string list \<Rightarrow> qstar_action_material option \<Rightarrow> string" where
  "cache_reason d g prev key outputs material = (case prev of
      None \<Rightarrow> ''no-previous-state''
    | Some p \<Rightarrow>
        if en_key p = key then (if outputs_exist d g outputs then ''output-check'' else ''output-missing'')
        else (case material of
            None \<Rightarrow> ''key-changed''
          | Some m \<Rightarrow>
              if differs (en_output_key p) (am_output_key m) then ''output-changed''
              else if differs (en_external_tool_key p) (am_external_tool_key m) then ''external-tool-changed''
              else if differs (en_argv_key p) (am_argv_key m) then ''argv-changed''
              else if differs (en_env_key p) (am_env_key m) then ''env-changed''
              else if differs (en_depfile_key p) (am_depfile_key m) then ''depfile-changed''
              else if differs (en_input_key p) (am_input_key m) then ''input-changed''
              else if differs (en_tool_policy_key p) (am_tool_policy_key m) then ''tool-policy-changed''
              else ''key-changed''))"

definition action_entry :: "prepared_action \<Rightarrow> string \<Rightarrow> qstar_state_entry" where
  "action_entry a status = new_entry (kr_id (pa_request a)) (pa_key a) (hd (pa_outputs a)) status
     (Some (kr_kind (pa_request a))) (Some (pa_material a))"


section \<open>Remembered digests\<close>

lemma length_hex [simp]: "length (hex_digits n w) = n"
  by (induction n arbitrary: w) simp_all

lemma hex_fits [simp]: "trunc_buf 32 (hex16 h) = hex16 h" "format_key h = hex16 h"
  by (simp_all add: hex16_def format_key_def trunc_buf_def)

lemma file_digest_fits [simp]: "trunc_buf 32 (file_digest d g rel) = file_digest d g rel"
  by (simp add: file_digest_def Let_def)

lemma hash_cache_add_find:
  "hash_cache_find cache k = None \<Longrightarrow>
   hash_cache_find (hash_cache_add cache k (file_digest d g k)) j = (if j = k then Some (file_digest d g k) else hash_cache_find cache j)"
  by (auto simp: hash_cache_find_def hash_cache_add_def find_key_append split: option.splits)

interpretation digests: memo "file_digest d g" hash_cache_find hash_cache_add for d g
  by unfold_locales (rule hash_cache_add_find)

lemma hash_file_recall:
  "hash_file d g (ctx, h) rel = (case digests.recall d g (bc_hash_cache ctx) rel of
     (dig, cache) \<Rightarrow> (ctx\<lparr>bc_hash_cache := cache\<rparr>, hash_str h (Some dig)))"
  by (simp add: hash_file_def digests.recall_def Let_def split: option.split)

text \<open>The memory is right for a disk and an environment.\<close>

definition fresh :: "key_world \<Rightarrow> qstar_graph \<Rightarrow> build_ctx \<Rightarrow> bool" where
  "fresh w g ctx \<longleftrightarrow> digests.right (kw_disk w) g (bc_hash_cache ctx) \<and>
     (\<forall>k. bc_env_key ctx = Some k \<longrightarrow> k = hex16 (hash_env_whitelist (kw_getenv w) HASH_INIT))"

definition same_records :: "build_ctx \<Rightarrow> build_ctx \<Rightarrow> bool" where
  "same_records a b \<longleftrightarrow> bc_prev a = bc_prev b \<and> bc_next a = bc_next b \<and> bc_prev_index a = bc_prev_index b \<and>
     bc_deps_prev a = bc_deps_prev b \<and> bc_deps_next a = bc_deps_next b \<and> bc_deps_index a = bc_deps_index b"

lemma same_records_refl [simp]: "same_records a a"
  and same_records_trans: "same_records a b \<Longrightarrow> same_records b c \<Longrightarrow> same_records a c"
  by (auto simp: same_records_def)

text \<open>Keys without a memory.\<close>

definition input_key :: "disk \<Rightarrow> qstar_graph \<Rightarrow> string list \<Rightarrow> string" where
  "input_key d g inputs = hex16 (hash_string_list HASH_INIT (map (file_digest d g) inputs))"

definition env_key :: "(string \<Rightarrow> cstr) \<Rightarrow> string list \<Rightarrow> string" where
  "env_key getenv env = hex16 (hash_string_list (hash_env_whitelist getenv HASH_INIT) env)"

definition material_of :: "key_world \<Rightarrow> qstar_graph \<Rightarrow> key_request \<Rightarrow> qstar_action_material" where
  "material_of w g r = \<lparr>am_argv_key = compute_argv_key (kr_argv r), am_env_key = env_key (kw_getenv w) (kr_env r),
     am_input_key = input_key (kw_disk w) g (kr_inputs r), am_depfile_key = input_key (kw_disk w) g (kr_depfile_inputs r),
     am_tool_policy_key = compute_tool_policy_key (kw_host w) g (kr_toolchain r),
     am_output_key = compute_output_key (kr_output r),
     am_external_tool_key = compute_external_tool_key g (kr_toolchain r) (kr_argv r)\<rparr>"

definition action_key :: "key_world \<Rightarrow> qstar_graph \<Rightarrow> key_request \<Rightarrow> string" where
  "action_key w g r = key_of_material r (material_of w g r)"

lemma hash_file_fresh:
  assumes "fresh w g ctx"
  obtains ctx' where "hash_file (kw_disk w) g (ctx, h) rel = (ctx', hash_str h (Some (file_digest (kw_disk w) g rel)))"
    "fresh w g ctx'" "same_records ctx ctx'"
proof -
  obtain dig cache where c: "digests.recall (kw_disk w) g (bc_hash_cache ctx) rel = (dig, cache)" by fastforce
  have "dig = file_digest (kw_disk w) g rel" "digests.right (kw_disk w) g cache"
    using digests.recall_right [of "kw_disk w" g "bc_hash_cache ctx" rel] assms c by (simp_all add: fresh_def)
  then show ?thesis using assms
    by (intro that [of "ctx\<lparr>bc_hash_cache := cache\<rparr>"]) (simp_all add: hash_file_recall c fresh_def same_records_def)
qed

lemma hash_files_fresh:
  "fresh w g ctx \<Longrightarrow> \<exists>ctx'. foldl (hash_file (kw_disk w) g) (ctx, h) inputs =
     (ctx', hash_string_list h (map (file_digest (kw_disk w) g) inputs)) \<and> fresh w g ctx' \<and> same_records ctx ctx'"
proof (induction inputs arbitrary: ctx h)
  case (Cons i is')
  obtain c where c: "hash_file (kw_disk w) g (ctx, h) i = (c, hash_str h (Some (file_digest (kw_disk w) g i)))"
      "fresh w g c" "same_records ctx c"
    using hash_file_fresh [OF Cons.prems] by metis
  from Cons.IH [OF c(2), of "hash_str h (Some (file_digest (kw_disk w) g i))"] c show ?case
    by (auto simp: hash_string_list_def intro: same_records_trans)
qed (simp add: hash_string_list_def)

lemma compute_input_key_fresh:
  assumes "fresh w g ctx"
  obtains ctx' where "compute_input_key (kw_disk w) g ctx inputs = (ctx', input_key (kw_disk w) g inputs)"
    "fresh w g ctx'" "same_records ctx ctx'"
  using hash_files_fresh [OF assms, of HASH_INIT inputs] by (auto simp: compute_input_key_def input_key_def)

lemma compute_env_fresh:
  assumes "fresh w g ctx"
  obtains ctx' where "compute_action_env_key (kw_getenv w) ctx env = (ctx', env_key (kw_getenv w) env)"
    "fresh w g ctx'" "same_records ctx ctx'"
proof (cases "env = [] \<and> bc_env_key ctx = None")
  case True
  then show ?thesis using assms
    by (intro that [of "ctx\<lparr>bc_env_key := Some (hex16 (hash_env_whitelist (kw_getenv w) HASH_INIT))\<rparr>"])
      (simp_all add: compute_action_env_key_def compute_env_key_def env_key_def hash_string_list_def fresh_def same_records_def Let_def)
next
  case False
  then show ?thesis using assms
    by (intro that [of ctx]) (auto simp: compute_action_env_key_def compute_env_key_def env_key_def hash_string_list_def fresh_def)
qed

lemma compute_action_key_fresh:
  assumes "fresh w g ctx"
  obtains ctx' where "compute_action_key w g ctx r = (ctx', action_key w g r, material_of w g r)"
    "fresh w g ctx'" "same_records ctx ctx'"
proof -
  obtain c1 where c1: "compute_action_env_key (kw_getenv w) ctx (kr_env r) = (c1, env_key (kw_getenv w) (kr_env r))"
      "fresh w g c1" "same_records ctx c1"
    by (rule compute_env_fresh [OF assms])
  obtain c2 where c2: "compute_input_key (kw_disk w) g c1 (kr_inputs r) = (c2, input_key (kw_disk w) g (kr_inputs r))"
      "fresh w g c2" "same_records c1 c2"
    by (rule compute_input_key_fresh [OF c1(2)])
  obtain c3 where c3: "compute_input_key (kw_disk w) g c2 (kr_depfile_inputs r) = (c3, input_key (kw_disk w) g (kr_depfile_inputs r))"
      "fresh w g c3" "same_records c2 c3"
    by (rule compute_input_key_fresh [OF c2(2)])
  have "compute_action_key w g ctx r = (c3, action_key w g r, material_of w g r)"
    by (simp add: compute_action_key_def c1 c2 c3 action_key_def material_of_def Let_def)
  then show ?thesis
    using c3(2) same_records_trans [OF same_records_trans [OF c1(3) c2(3)] c3(3)] by (rule that)
qed

section \<open>What the hashed text determines\<close>

definition KEY_END :: char where "KEY_END = char_of (255::nat)"

definition key_stream :: "string list \<Rightarrow> string" where
  "key_stream xs = concat (map (\<lambda>s. s @ [KEY_END]) xs)"

lemma hash_str_stream: "hash_str h (Some s) = hash_update h (s @ [KEY_END])"
  by (simp add: hash_str_def hash_bytes_def hash_update_def byte_word_def byte_def KEY_END_def)

lemma hash_list_stream: "hash_string_list h xs = hash_update h (key_stream xs)"
  by (induction xs arbitrary: h) (simp_all add: hash_string_list_def key_stream_def hash_str_stream hash_update_def)

definition no_ff :: "string \<Rightarrow> bool" where
  "no_ff s \<longleftrightarrow> list_all (\<lambda>c. c \<noteq> KEY_END) s"

lemma no_ff_split:
  assumes "no_ff x" "no_ff y" "x @ KEY_END # a = y @ KEY_END # b"
  shows "x = y" "a = b"
proof -
  have tw: "takeWhile (\<lambda>c. c \<noteq> KEY_END) (z @ KEY_END # c) = z"
    and dw: "dropWhile (\<lambda>c. c \<noteq> KEY_END) (z @ KEY_END # c) = KEY_END # c" if "no_ff z" for z c
    using that by (induction z) (simp_all add: no_ff_def)
  show "x = y" using tw [OF assms(1), of a] tw [OF assms(2), of b] assms(3) by simp
  show "a = b" using dw [OF assms(1), of a] dw [OF assms(2), of b] assms(3) by simp
qed

lemma key_stream_inject:
  "list_all no_ff xs \<Longrightarrow> list_all no_ff ys \<Longrightarrow> key_stream xs = key_stream ys \<longleftrightarrow> xs = ys"
proof (induction xs arbitrary: ys)
  case Nil
  then show ?case by (cases ys) (simp_all add: key_stream_def)
next
  case (Cons x xs)
  show ?case
  proof (cases ys)
    case Nil
    then show ?thesis by (simp add: key_stream_def)
  next
    case c: (Cons y ys')
    have "key_stream (x # xs) = key_stream (y # ys') \<longleftrightarrow> x = y \<and> key_stream xs = key_stream ys'"
      using no_ff_split [of x y "key_stream xs" "key_stream ys'"] Cons.prems c by (auto simp: key_stream_def)
    then show ?thesis using Cons.IH [of ys'] Cons.prems c by simp
  qed
qed

section \<open>Keys before and after the depfile\<close>

lemma add_dep_in: "set (add_dep_inputs xs ds) = set xs \<union> set ds"
  by (simp add: add_dep_inputs_def fold_push_unique(1))

lemma static_of_prepared:
  "copy_static_inputs (add_dep_inputs xs ds) ds = copy_static_inputs xs ds"
proof -
  have "filter (\<lambda>i. i \<notin> D) (fold (\<lambda>i acc. push_unique acc i) ds xs) = filter (\<lambda>i. i \<notin> D) xs" if "set ds \<subseteq> D" for D
    using that by (induction ds arbitrary: xs) (simp_all add: push_unique_def)
  from this [of "set ds"] show ?thesis by (simp add: copy_static_inputs_def add_dep_inputs_def)
qed

lemma refreshed_inputs:
  assumes "kr_inputs (pa_request a) = add_dep_inputs static old" "kr_depfile_inputs (pa_request a) = old"
  shows "kr_inputs (refreshed_request a new) = add_dep_inputs (copy_static_inputs static old) new"
  by (simp add: refreshed_request_def Let_def assms static_of_prepared)

lemma static_disjoint: "set xs \<inter> set ds = {} \<Longrightarrow> copy_static_inputs xs ds = xs"
  unfolding copy_static_inputs_def filter_id_conv by auto

section \<open>Recorded and prepared keys\<close>

lemma push_depfile_records:
  assumes "push_depfile_inputs d g ctx depfile xs = Inr (ctx', ys)"
  shows "fresh w g ctx' = fresh w g ctx" "bc_next ctx' = bc_next ctx" "state_find ctx' = state_find ctx"
  using push_depfile_only [OF assms] by (auto simp: fresh_def state_find_def fun_eq_iff)

lemma same_records_find: "same_records a b \<Longrightarrow> state_find b = state_find a"
  by (simp add: same_records_def state_find_def fun_eq_iff)

text \<open>The names that an action takes from a depfile with this content.\<close>

definition depfile_names :: "prepared_action \<Rightarrow> string \<Rightarrow> string list" where
  "depfile_names a content = (if pa_wants_depfile a then unique_wanted (depfile_tokens content) else [])"

lemma prepare_inputs_shape:
  assumes "prepare_inputs w g ctx a0 = Inr (ctx', a)"
  shows "pa_request a = dep_request (pa_request a0) (kr_depfile_inputs (pa_request a))" "pa_depfile a = pa_depfile a0"
    and "pa_wants_depfile a = pa_wants_depfile a0" "pa_outputs a = pa_outputs a0"
  using assms by (auto simp: prepare_inputs_def dep_request_def Let_def split: sum.splits prod.splits)

lemma prepare_inputs_exact:
  assumes "prepare_inputs w g ctx a0 = Inr (ctx', a)" "fresh w g ctx"
    and "pa_wants_depfile a0 \<Longrightarrow> depfile_known (kw_disk w) g ctx (pa_depfile a0) content"
  shows "pa_request a = dep_request (pa_request a0) (depfile_names a0 content)"
    and "pa_key a = action_key w g (pa_request a)" "state_find ctx' = state_find ctx"
proof -
  obtain ctx1 deps where p: "(if pa_wants_depfile a0 then push_depfile_inputs (kw_disk w) g ctx (pa_depfile a0) [] else Inr (ctx, [])) = Inr (ctx1, deps)"
    using assms(1) by (auto simp: prepare_inputs_def split: sum.splits)
  have deps: "deps = depfile_names a0 content"
    using p assms(3) push_depfile_known by (auto simp: depfile_names_def split: if_splits)
  have same: "fresh w g ctx1" "state_find ctx1 = state_find ctx"
    using p assms(2) push_depfile_records by (auto split: if_splits)
  obtain ctx2 where k: "compute_action_key w g ctx1 (dep_request (pa_request a0) deps) =
      (ctx2, action_key w g (dep_request (pa_request a0) deps), material_of w g (dep_request (pa_request a0) deps))"
      "same_records ctx1 ctx2"
    by (rule compute_action_key_fresh [OF same(1)])
  then have "ctx' = ctx2 \<and> a = a0\<lparr>pa_request := dep_request (pa_request a0) deps,
      pa_key := action_key w g (dep_request (pa_request a0) deps), pa_material := material_of w g (dep_request (pa_request a0) deps)\<rparr>"
    using assms(1) by (simp add: prepare_inputs_def p Let_def)
  then show "pa_request a = dep_request (pa_request a0) (depfile_names a0 content)"
    "pa_key a = action_key w g (pa_request a)" "state_find ctx' = state_find ctx"
    using deps same(2) same_records_find [OF k(2)] by simp_all
qed

text \<open>What the refresh leaves in the record of the action.\<close>

lemma refreshed_record:
  assumes "refresh_action_state_after_depfile w g ctx a = Inr (ctx', a')" "fresh w g ctx"
    and "pa_wants_depfile a \<Longrightarrow> depfile_known (kw_disk w) g ctx (pa_depfile a) content"
    and "find_key en_id (kr_id (pa_request a)) (bc_next ctx) = Some e"
  shows "\<exists>e'. find_key en_id (kr_id (pa_request a)) (bc_next ctx') = Some e' \<and>
    en_key e' = action_key w g (refreshed_request a (depfile_names a content))"
proof -
  obtain ctx1 deps where p: "(if pa_wants_depfile a then push_depfile_inputs (kw_disk w) g ctx (pa_depfile a) [] else Inr (ctx, [])) = Inr (ctx1, deps)"
    using assms(1) by (auto simp: refresh_action_state_after_depfile_def split: sum.splits)
  have deps: "deps = depfile_names a content"
    using p assms(3) push_depfile_known by (auto simp: depfile_names_def split: if_splits)
  have same: "fresh w g ctx1" "bc_next ctx1 = bc_next ctx"
    using p assms(2) push_depfile_records by (auto split: if_splits)
  define r where "r = refreshed_request a deps"
  obtain ctx2 where k: "compute_action_key w g ctx1 r = (ctx2, action_key w g r, material_of w g r)" "same_records ctx1 ctx2"
    by (rule compute_action_key_fresh [OF same(1)])
  have ctx': "ctx' = state_update_material ctx2 (kr_id (pa_request a)) (action_key w g r) (Some (material_of w g r))"
    using assms(1) k(1) by (simp add: refresh_action_state_after_depfile_def p r_def)
  have next2: "bc_next ctx2 = bc_next ctx" using k(2) same(2) by (simp add: same_records_def)
  obtain i where i: "key_index en_id (kr_id (pa_request a)) (bc_next ctx) = Some i"
    using assms(4) key_index_None [of en_id "kr_id (pa_request a)" "bc_next ctx"] by (cases "key_index en_id (kr_id (pa_request a)) (bc_next ctx)") auto
  have "en_id (bc_next ctx ! i) = kr_id (pa_request a)" using key_index_Some [OF i] by simp
  then have "find_key en_id (kr_id (pa_request a)) ((bc_next ctx)[i := with_material (action_key w g r) (Some (material_of w g r)) (bc_next ctx ! i)]) =
      Some (with_material (action_key w g r) (Some (material_of w g r)) (bc_next ctx ! i))"
    using find_key_update [OF i] by (simp add: with_material_def new_entry_def Let_def)
  then show ?thesis
    by (simp add: ctx' state_update_material_def next2 i r_def deps) (simp add: with_material_def new_entry_def Let_def)
qed

lemma action_key_same_digests:
  assumes "kw_getenv w' = kw_getenv w" "kw_host w' = kw_host w"
    and "\<forall>n \<in> set (kr_inputs r) \<union> set (kr_depfile_inputs r). file_digest (kw_disk w') g n = file_digest (kw_disk w) g n"
  shows "action_key w' g r = action_key w g r"
proof -
  have "map (file_digest (kw_disk w') g) ns = map (file_digest (kw_disk w) g) ns"
    if "set ns \<subseteq> set (kr_inputs r) \<union> set (kr_depfile_inputs r)" for ns
    using that assms(3) by (intro map_cong) auto
  from this [of "kr_inputs r"] this [of "kr_depfile_inputs r"]
  have "material_of w' g r = material_of w g r" by (simp add: material_of_def input_key_def assms(1,2) del: map_eq_conv)
  then show ?thesis by (simp add: action_key_def)
qed

text \<open>A name of the last depfile that is an input of its own has moved to the end; without one the inputs are the same.\<close>

lemma refreshed_is_next:
  assumes "pa_request a = dep_request r old" "set (kr_inputs r) \<inter> set old = {}"
  shows "refreshed_request a new = dep_request r new"
  using refreshed_inputs [of a "kr_inputs r" old new] static_disjoint [OF assms(2)]
  by (simp add: assms(1) dep_request_def refreshed_request_def Let_def)

end
