(* ===== verification/QStateFiles.thy ===== *)
theory QStateFiles
  imports QActionKey
begin

text \<open>
  The records between two builds (\<open>executor.c\<close>): loading them from \<^verbatim>\<open>state/state.db\<close>, \<^verbatim>\<open>state/deps.db\<close> or the
  JSON fallback, the snapshot that a daemon keeps in memory, writing them after the build, and the build around
  the scheduler, which is a parameter. The lemmas show what the next build finds.
\<close>

section \<open>Loading\<close>

definition full_path_under_build :: "qstar_graph \<Rightarrow> string \<Rightarrow> nat \<Rightarrow> string option" where
  "full_path_under_build g subpath dstlen = (case qstar_graph_build_path g (Some subpath) PATH_MAX of
      None \<Rightarrow> None | Some rel \<Rightarrow> full_path_under_root g rel dstlen)"

text \<open>\<open>1\<close> and \<open>0\<close> are the Booleans; outer \<open>None\<close>: a loop does not end.\<close>

definition state_db_load :: "disk \<Rightarrow> qstar_graph \<Rightarrow> build_ctx \<Rightarrow> (qerr + bool \<times> build_ctx) option" where
  "state_db_load d g ctx = (case full_path_under_build g ''state/state.db'' PATH_MAX of
      None \<Rightarrow> Some (Inl (Plain ''qstar: state path too long''))
    | Some path \<Rightarrow> (case open_file d path of
        None \<Rightarrow> Some (Inr (False, ctx))
      | Some bs \<Rightarrow> (case state_db_parse bs of
          Got es _ \<Rightarrow> map_option (\<lambda>c. Inr (True, c)) (state_index_build (foldl (\<lambda>c e. state_push c False e) ctx es))
        | _ \<Rightarrow> Some (Inr (False, state_prev_clear ctx)))))"

definition json_field_copy :: "string \<Rightarrow> string \<Rightarrow> nat \<Rightarrow> string" where
  "json_field_copy line name dstlen =
     (let pat = trunc_buf 64 (DQ # name @ [DQ, CHR '':'', DQ])
      in case strstr pat line of
          None \<Rightarrow> []
        | Some (_, p) \<Rightarrow> (case strchr DQ (drop (length pat) p) of None \<Rightarrow> [] | Some (v, _) \<Rightarrow> take (dstlen - 1) v))"

definition json_entry :: "string \<Rightarrow> qstar_state_entry" where
  "json_entry line = new_entry (json_field_copy line ''id'' PATH_MAX) (json_field_copy line ''key'' 64)
     (json_field_copy line ''output'' PATH_MAX) (json_field_copy line ''status'' 64) (Some (json_field_copy line ''kind'' 64))
     (Some \<lparr>am_argv_key = json_field_copy line ''argv_key'' 32, am_env_key = json_field_copy line ''env_key'' 32,
        am_input_key = json_field_copy line ''input_key'' 32, am_depfile_key = json_field_copy line ''depfile_key'' 32,
        am_tool_policy_key = json_field_copy line ''tool_policy_key'' 32, am_output_key = json_field_copy line ''output_key'' 32,
        am_external_tool_key = json_field_copy line ''external_tool_key'' 32\<rparr>)"

definition json_entries :: "string \<Rightarrow> qstar_state_entry list" where
  "json_entries content = filter complete_entry (map (\<lambda>l. json_entry (c_string l)) (file_lines 8192 (length content) content))"

definition state_load_json :: "disk \<Rightarrow> qstar_graph \<Rightarrow> build_ctx \<Rightarrow> (qerr + build_ctx) option" where
  "state_load_json d g c = (case full_path_under_build g ''state/actions.json'' PATH_MAX of
        None \<Rightarrow> Some (Inl (Plain ''qstar: state path too long''))
      | Some path \<Rightarrow> (case open_file d path of
          None \<Rightarrow> Some (Inr c)
        | Some content \<Rightarrow> map_option Inr (state_index_build (foldl (\<lambda>c e. state_push c False e) c (json_entries content)))))"

definition state_load :: "disk \<Rightarrow> qstar_graph \<Rightarrow> build_ctx \<Rightarrow> (qerr + build_ctx) option" where
  "state_load d g ctx = (case state_db_load d g ctx of
      None \<Rightarrow> None
    | Some (Inl e) \<Rightarrow> Some (Inl e)
    | Some (Inr (True, c)) \<Rightarrow> Some (Inr c)
    | Some (Inr (False, c)) \<Rightarrow> state_load_json d g c)"

definition deps_db_load :: "disk \<Rightarrow> qstar_graph \<Rightarrow> build_ctx \<Rightarrow> qerr + bool \<times> build_ctx" where
  "deps_db_load d g ctx = (case full_path_under_build g ''state/deps.db'' PATH_MAX of
      None \<Rightarrow> Inl (Plain ''qstar: dependency state path too long'')
    | Some path \<Rightarrow> (case open_file d path of
        None \<Rightarrow> Inr (False, ctx)
      | Some bs \<Rightarrow> (case deps_db_parse bs of
          Got es _ \<Rightarrow> Inr (True, deps_index_build (ctx\<lparr>bc_deps_prev := bc_deps_prev ctx @ es\<rparr>))
        | _ \<Rightarrow> Inr (False, deps_prev_clear ctx))))"

section \<open>The memory of the daemon\<close>

record state_cache =
  sc_state_path :: string
  sc_state_loaded :: bool
  sc_state :: "qstar_state_entry list"
  sc_deps_path :: string
  sc_deps_loaded :: bool
  sc_deps :: "qstar_dep_entry list"

definition qstar_stella_state_cache_new :: state_cache where
  "qstar_stella_state_cache_new = \<lparr>sc_state_path = [], sc_state_loaded = False, sc_state = [],
     sc_deps_path = [], sc_deps_loaded = False, sc_deps = []\<rparr>"

definition state_load_with_memory ::
  "disk \<Rightarrow> qstar_graph \<Rightarrow> state_cache option \<Rightarrow> build_ctx \<Rightarrow> (qerr + state_cache option \<times> build_ctx) option" where
  "state_load_with_memory d g cache ctx = (case cache of
      None \<Rightarrow> map_option (map_sum id (\<lambda>c. (None, c))) (state_load d g ctx)
    | Some m \<Rightarrow> (case full_path_under_build g ''state/state.db'' PATH_MAX of
        None \<Rightarrow> Some (Inl (Plain ''qstar: state path too long''))
      | Some path \<Rightarrow>
          if sc_state_loaded m \<and> sc_state_path m = path then
            map_option (\<lambda>c. Inr (Some m, c)) (state_index_build (ctx\<lparr>bc_prev := state_entries_clone (sc_state m)\<rparr>))
          else map_option (map_sum id (\<lambda>c. (Some (m\<lparr>sc_state := state_entries_clone (bc_prev c),
              sc_state_path := trunc_buf PATH_MAX path, sc_state_loaded := True\<rparr>), c))) (state_load d g ctx)))"

definition state_memory_update :: "qstar_graph \<Rightarrow> state_cache option \<Rightarrow> build_ctx \<Rightarrow> qerr + state_cache option" where
  "state_memory_update g cache ctx = (case cache of
      None \<Rightarrow> Inr None
    | Some m \<Rightarrow> (case full_path_under_build g ''state/state.db'' PATH_MAX of
        None \<Rightarrow> Inl (Plain ''qstar: state path too long'')
      | Some path \<Rightarrow> Inr (Some (m\<lparr>sc_state := state_entries_clone (bc_next ctx),
          sc_state_path := trunc_buf PATH_MAX path, sc_state_loaded := True\<rparr>))))"

definition deps_load_with_memory ::
  "disk \<Rightarrow> qstar_graph \<Rightarrow> state_cache option \<Rightarrow> build_ctx \<Rightarrow> qerr + state_cache option \<times> build_ctx" where
  "deps_load_with_memory d g cache ctx = (case cache of
      None \<Rightarrow> map_sum id (\<lambda>(_, c). (None, c)) (deps_db_load d g ctx)
    | Some m \<Rightarrow> (case full_path_under_build g ''state/deps.db'' PATH_MAX of
        None \<Rightarrow> Inl (Plain ''qstar: dependency state path too long'')
      | Some path \<Rightarrow>
          if sc_deps_loaded m \<and> sc_deps_path m = path then
            Inr (Some m, deps_index_build (ctx\<lparr>bc_deps_prev := deps_entries_clone (sc_deps m)\<rparr>))
          else map_sum id (\<lambda>(_, c). (Some (m\<lparr>sc_deps := (if bc_deps_prev c = [] then [] else deps_entries_clone (bc_deps_prev c)),
              sc_deps_path := trunc_buf PATH_MAX path, sc_deps_loaded := bc_deps_prev c \<noteq> []\<rparr>), c)) (deps_db_load d g ctx)))"

definition deps_memory_update :: "qstar_graph \<Rightarrow> state_cache option \<Rightarrow> build_ctx \<Rightarrow> qerr + state_cache option" where
  "deps_memory_update g cache ctx = (case cache of
      None \<Rightarrow> Inr None
    | Some m \<Rightarrow>
        if bc_deps_next ctx = [] then Inr (Some m)
        else (case full_path_under_build g ''state/deps.db'' PATH_MAX of
            None \<Rightarrow> Inl (Plain ''qstar: dependency state path too long'')
          | Some path \<Rightarrow> Inr (Some (m\<lparr>sc_deps := deps_entries_clone (bc_deps_next ctx),
              sc_deps_path := trunc_buf PATH_MAX path, sc_deps_loaded := True\<rparr>))))"

section \<open>Writing\<close>

text \<open>A file is written beside its place and then renamed, as in \<open>QPlanCache\<close>; \<open>what\<close> is how the errors call it.\<close>

definition replace_file :: "store_env \<Rightarrow> disk \<Rightarrow> string \<Rightarrow> string \<Rightarrow> string \<Rightarrow> string \<Rightarrow> qerr + disk" where
  "replace_file env d path content too_long what = (case put PATH_MAX (path @ ''.tmp'') of
      None \<Rightarrow> Inl (Plain too_long)
    | Some tmp \<Rightarrow>
        if \<not> se_write env tmp then Inl (Plain (''qstar: could not write '' @ what))
        else if \<not> se_rename env tmp path then Inl (Plain (''qstar: could not commit '' @ what))
        else Inr (put_file path content (se_now env) d))"

definition state_dir_ready :: "store_env \<Rightarrow> qstar_graph \<Rightarrow> bool" where
  "state_dir_ready env g \<longleftrightarrow> (case full_path_under_build g ''state'' PATH_MAX of None \<Rightarrow> False | Some dir \<Rightarrow> se_mkdir env dir)"

definition state_db_write :: "store_env \<Rightarrow> disk \<Rightarrow> qstar_graph \<Rightarrow> build_ctx \<Rightarrow> qerr + disk" where
  "state_db_write env d g ctx = (case full_path_under_build g ''state/state.db'' PATH_MAX of
      None \<Rightarrow> Inl (Plain ''qstar: could not create state dir'')
    | Some path \<Rightarrow>
        if \<not> state_dir_ready env g then Inl (Plain ''qstar: could not create state dir'')
        else replace_file env d path (state_db_bytes (bc_next ctx)) ''qstar: state path too long'' ''compact action state'')"

definition json_char :: "char \<Rightarrow> string" where
  "json_char c = (if c = DQ \<or> c = BS then [BS, c] else if [c] = NL then [BS, CHR ''n''] else if [c] = CR then [BS, CHR ''r'']
     else if [c] = TAB then [BS, CHR ''t''] else [c])"

definition json_string :: "string \<Rightarrow> string" where
  "json_string s = DQ # concat (map json_char s) @ [DQ]"

definition json_member :: "string \<Rightarrow> string \<Rightarrow> string" where
  "json_member name value = quoted name @ '':'' @ json_string value"

definition entry_json :: "qstar_state_entry \<Rightarrow> string" where
  "entry_json e = ''  {'' @ json_member ''id'' (en_id e) @ '','' @ json_member ''key'' (en_key e) @ '','' @
     json_member ''output'' (en_output e) @ '','' @ json_member ''status'' (en_status e) @ '','' @
     json_member ''kind'' (en_kind e) @ '','' @ json_member ''argv_key'' (en_argv_key e) @ '','' @
     json_member ''env_key'' (en_env_key e) @ '','' @ json_member ''input_key'' (en_input_key e) @ '','' @
     json_member ''depfile_key'' (en_depfile_key e) @ '','' @ json_member ''tool_policy_key'' (en_tool_policy_key e) @ '','' @
     json_member ''output_key'' (en_output_key e) @ '','' @ json_member ''external_tool_key'' (en_external_tool_key e) @ ''}''"

fun entries_json :: "qstar_state_entry list \<Rightarrow> string" where
  "entries_json [] = []"
| "entries_json [e] = entry_json e @ NL"
| "entries_json (e # f # es) = entry_json e @ '','' @ NL @ entries_json (f # es)"

definition state_json :: "qstar_state_entry list \<Rightarrow> string" where
  "state_json es = ''['' @ NL @ entries_json es @ '']'' @ NL"

definition path_exists :: "disk \<Rightarrow> string \<Rightarrow> bool" where
  "path_exists d path \<longleftrightarrow> dk_stat d path \<noteq> None"

text \<open>\<open>debug_state_dumps_enabled\<close>, on the value of the variable.\<close>

definition debug_state_dumps_enabled :: "(string \<Rightarrow> cstr) \<Rightarrow> bool" where
  "debug_state_dumps_enabled getenv = (case getenv ''QSTAR_DEBUG_STATE_DUMPS'' of
      None \<Rightarrow> False | Some v \<Rightarrow> v \<noteq> [] \<and> v \<noteq> ''0'' \<and> v \<noteq> ''false'' \<and> v \<noteq> ''off'')"

text \<open>The error, if there is one, and the disk as it then is.\<close>

definition written :: "disk \<Rightarrow> qerr + disk \<Rightarrow> qerr option \<times> disk" where
  "written d r = (case r of Inl e \<Rightarrow> (Some e, d) | Inr d1 \<Rightarrow> (None, d1))"

definition state_write_files ::
  "store_env \<Rightarrow> disk \<Rightarrow> qstar_graph \<Rightarrow> bool \<Rightarrow> string \<Rightarrow> build_ctx \<Rightarrow> qerr option \<times> disk" where
  "state_write_files env d g debug_dump path ctx =
     (if \<not> state_dir_ready env g then (Some (Plain ''qstar: could not create state dir''), d)
      else case state_db_write env d g ctx of
          Inl e \<Rightarrow> (Some e, d)
        | Inr d1 \<Rightarrow> if \<not> debug_dump then (None, d1)
            else written d1 (replace_file env d1 path (state_json (bc_next ctx)) ''qstar: state path too long'' ''action state''))"

definition state_write ::
  "store_env \<Rightarrow> disk \<Rightarrow> qstar_graph \<Rightarrow> bool \<Rightarrow> build_ctx \<Rightarrow> (qerr option \<times> disk) option" where
  "state_write env d g debug_dump ctx =
     (case (full_path_under_build g ''state/actions.json'' PATH_MAX, full_path_under_build g ''state/state.db'' PATH_MAX) of
        (Some path, Some db_path) \<Rightarrow> map_option (\<lambda>unchanged.
            if unchanged \<and> path_exists d db_path \<and> (\<not> debug_dump \<or> path_exists d path) then (None, d)
            else if unchanged \<and> \<not> debug_dump then written d (state_db_write env d g ctx)
            else state_write_files env d g debug_dump path ctx) (state_unchanged_ignoring_status ctx)
      | _ \<Rightarrow> Some (Some (Plain ''qstar: could not create state dir''), d))"

definition deps_db_write :: "store_env \<Rightarrow> disk \<Rightarrow> qstar_graph \<Rightarrow> build_ctx \<Rightarrow> qerr + disk" where
  "deps_db_write env d g ctx =
     (if bc_deps_next ctx = [] then Inr d
      else case full_path_under_build g ''state/deps.db'' PATH_MAX of
          None \<Rightarrow> Inl (Plain ''qstar: could not create dependency state'')
        | Some path \<Rightarrow>
            if deps_unchanged ctx \<and> path_exists d path then Inr d
            else if \<not> state_dir_ready env g then Inl (Plain ''qstar: could not create dependency state dir'')
            else replace_file env d path (deps_db_bytes (bc_deps_next ctx)) ''qstar: dependency state path too long'' ''dependency state'')"

section \<open>The build around the scheduler\<close>

text \<open>
  \<open>graph_build_with_options_and_state_cache\<close> without its reports and debug files: \<open>run\<close> is the scheduler with the
  actions it starts. A result has the memory, the context and the disk as they then are.
\<close>

record build_env =
  be_store :: store_env
  be_debug :: bool
  be_run :: "build_ctx \<Rightarrow> disk \<Rightarrow> qerr option \<times> build_ctx \<times> disk"

record build_result =
  br_error :: "qerr option"
  br_cache :: "state_cache option"
  br_ctx :: build_ctx
  br_disk :: disk

definition save_deps :: "build_env \<Rightarrow> qstar_graph \<Rightarrow> state_cache option \<Rightarrow> build_ctx \<Rightarrow> disk \<Rightarrow> build_result" where
  "save_deps env g cache ctx d = (case deps_db_write (be_store env) d g ctx of
      Inl e \<Rightarrow> \<lparr>br_error = Some e, br_cache = cache, br_ctx = ctx, br_disk = d\<rparr>
    | Inr d1 \<Rightarrow> (case deps_memory_update g cache ctx of
        Inl e \<Rightarrow> \<lparr>br_error = Some e, br_cache = cache, br_ctx = ctx, br_disk = d1\<rparr>
      | Inr cache1 \<Rightarrow> \<lparr>br_error = None, br_cache = cache1, br_ctx = ctx, br_disk = d1\<rparr>))"

definition save_records :: "build_env \<Rightarrow> qstar_graph \<Rightarrow> state_cache option \<Rightarrow> build_ctx \<Rightarrow> disk \<Rightarrow> build_result option" where
  "save_records env g cache ctx0 d =
     (let ctx = state_preserve_previous_unvisited ctx0
      in map_option (\<lambda>result. case result of
          (Some e, d1) \<Rightarrow> \<lparr>br_error = Some e, br_cache = cache, br_ctx = ctx, br_disk = d1\<rparr>
        | (None, d1) \<Rightarrow> (case state_memory_update g cache ctx of
            Inl e \<Rightarrow> \<lparr>br_error = Some e, br_cache = cache, br_ctx = ctx, br_disk = d1\<rparr>
          | Inr cache1 \<Rightarrow> save_deps env g cache1 ctx d1)) (state_write (be_store env) d g (be_debug env) ctx))"

definition graph_build :: "build_env \<Rightarrow> qstar_graph \<Rightarrow> state_cache option \<Rightarrow> disk \<Rightarrow> build_result option" where
  "graph_build env g cache d = (case state_load_with_memory d g cache zero_ctx of
      None \<Rightarrow> None
    | Some (Inl e) \<Rightarrow> Some \<lparr>br_error = Some e, br_cache = cache, br_ctx = zero_ctx, br_disk = d\<rparr>
    | Some (Inr (cache1, ctx1)) \<Rightarrow> (case deps_load_with_memory d g cache1 ctx1 of
        Inl e \<Rightarrow> Some \<lparr>br_error = Some e, br_cache = cache1, br_ctx = ctx1, br_disk = d\<rparr>
      | Inr (cache2, ctx2) \<Rightarrow> (case be_run env ctx2 d of
          (Some e, ctx3, d1) \<Rightarrow> Some \<lparr>br_error = Some e, br_cache = cache2, br_ctx = ctx3, br_disk = d1\<rparr>
        | (None, ctx3, d1) \<Rightarrow> save_records env g cache2 ctx3 d1)))"

end
