(* ===== verification/QStateProps.thy ===== *)
theory QStateProps
  imports QStateFiles
begin

text \<open>
  What the next build knows: the records on the disk and in the memory of the daemon are those of the last
  successful build, actions it did not visit keep the records they had, keys do not depend on what is
  remembered within a build; and where the records mislead (failed builds, a second build beside the
  daemon, the refresh of keys, digests of build outputs, blanks in depfiles).
\<close>

section \<open>Paths and files\<close>

lemma state_path_shape:
  assumes "full_path_under_build g sub n = Some p" "full_path_under_build g sub' m = Some q" "sub \<noteq> []" "sub' \<noteq> []"
  shows "p = q \<longleftrightarrow> sub = sub'"
  using assms by (auto simp: full_path_under_build_def qstar_graph_build_path_def full_path_under_root_def qstar_path_join_def
      present_def split: option.splits if_splits)

lemma open_put [simp]: "open_file (put_file p c t d) q = (if q = p then Some c else open_file d q)"
  by (simp add: open_file_def put_file_def)

lemma replace_file_ok:
  "replace_file env d path c a b = Inr d' \<Longrightarrow> d' = put_file path c (se_now env) d"
  by (auto simp: replace_file_def split: option.splits if_splits)

text \<open>Loading looks at two files.\<close>

definition same_state_files :: "qstar_graph \<Rightarrow> disk \<Rightarrow> disk \<Rightarrow> bool" where
  "same_state_files g d d' \<longleftrightarrow>
     (\<forall>p \<in> {p. full_path_under_build g ''state/state.db'' PATH_MAX = Some p \<or>
              full_path_under_build g ''state/actions.json'' PATH_MAX = Some p}. open_file d' p = open_file d p)"

lemma same_state_files_refl [simp]: "same_state_files g d d"
  and same_state_files_trans: "same_state_files g a b \<Longrightarrow> same_state_files g b c \<Longrightarrow> same_state_files g a c"
  by (simp_all add: same_state_files_def)

lemma state_load_same: "same_state_files g d d' \<Longrightarrow> state_load d' g ctx = state_load d g ctx"
proof -
  assume same: "same_state_files g d d'"
  then have "open_file d' p = open_file d p" if "full_path_under_build g ''state/state.db'' PATH_MAX = Some p" for p
    using that by (simp add: same_state_files_def)
  then have db: "state_db_load d' g ctx = state_db_load d g ctx"
    by (cases "full_path_under_build g ''state/state.db'' PATH_MAX") (simp_all add: state_db_load_def)
  have "open_file d' p = open_file d p" if "full_path_under_build g ''state/actions.json'' PATH_MAX = Some p" for p
    using that same by (simp add: same_state_files_def)
  then have json: "state_load_json d' g = state_load_json d g"
    by (cases "full_path_under_build g ''state/actions.json'' PATH_MAX") (simp_all add: state_load_json_def fun_eq_iff)
  show ?thesis unfolding state_load_def db json ..
qed

lemma deps_write_same_state:
  assumes "deps_db_write env d g ctx = Inr d'" shows "same_state_files g d d'"
proof (cases "d' = d")
  case False
  then obtain path where path: "full_path_under_build g ''state/deps.db'' PATH_MAX = Some path"
      "d' = put_file path (deps_db_bytes (bc_deps_next ctx)) (se_now env) d"
    using assms by (auto simp: deps_db_write_def dest: replace_file_ok split: option.splits if_splits)
  then show ?thesis
    using state_path_shape [OF path(1)] by (auto simp: same_state_files_def)
qed simp

section \<open>Records on the disk\<close>

definition record_of :: "qstar_state_entry list \<Rightarrow> string \<Rightarrow> qstar_state_entry option" where
  "record_of es k = map_option but_status (find_key en_id k es)"

definition on_disk :: "disk \<Rightarrow> qstar_graph \<Rightarrow> qstar_state_entry list \<Rightarrow> bool" where
  "on_disk d g es \<longleftrightarrow> (\<exists>c. state_load d g zero_ctx = Some (Inr c) \<and> indexed c \<and> record_of (bc_prev c) = record_of es)"

lemma on_disk_same: "same_state_files g d d' \<Longrightarrow> on_disk d' g es = on_disk d g es"
  by (simp add: on_disk_def state_load_same)

lemma push_prev_fold: "foldl (\<lambda>c e. state_push c False e) ctx es = ctx\<lparr>bc_prev := bc_prev ctx @ es\<rparr>"
  by (induction es arbitrary: ctx) (simp_all add: state_push_def)

lemma state_db_loaded:
  assumes "full_path_under_build g ''state/state.db'' PATH_MAX = Some p" "open_file d p = Some (state_db_bytes es)"
    and "counted_ok DB_LIMIT entry_ok es"
  shows "on_disk d g es"
proof -
  obtain t where t: "state_index_build (zero_ctx\<lparr>bc_prev := es\<rparr>) = Some (zero_ctx\<lparr>bc_prev := es, bc_prev_index := t\<rparr>)"
      "indexed (zero_ctx\<lparr>bc_prev := es, bc_prev_index := t\<rparr>)"
    using state_index_build_ok [of "zero_ctx\<lparr>bc_prev := es\<rparr>"] by auto
  have "bc_prev zero_ctx = []" by (simp add: zero_ctx_def)
  then have "state_load d g zero_ctx = Some (Inr (zero_ctx\<lparr>bc_prev := es, bc_prev_index := t\<rparr>))"
    using state_db.reads_all [OF assms(3)] by (simp add: state_load_def state_db_load_def assms(1,2) push_prev_fold t(1))
  then show ?thesis using t(2) by (auto simp: on_disk_def)
qed

lemma state_load_indexed: "state_load d g zero_ctx = Some (Inr c) \<Longrightarrow> indexed c"
proof -
  have built: "indexed c" if "state_index_build c0 = Some c" for c0 c
    using state_index_build_ok [of c0] that by auto
  have zero: "indexed zero_ctx" "indexed (state_prev_clear zero_ctx)"
    by (simp_all add: indexed_def zero_ctx_def state_prev_clear_def index_build_def)
  have db: "indexed c'" if "state_db_load d g zero_ctx = Some (Inr (b, c'))" for b c'
    using that built zero by (auto simp: state_db_load_def split: option.splits got.splits)
  assume "state_load d g zero_ctx = Some (Inr c)"
  then show ?thesis using built db
    by (auto simp: state_load_def state_load_json_def split: option.splits sum.splits prod.splits bool.splits)
qed

lemma state_write_on_disk:
  assumes "indexed ctx" "distinct (map en_id (bc_next ctx))" "counted_ok DB_LIMIT entry_ok (bc_next ctx)"
    and "on_disk d g (bc_prev ctx)" "state_write env d g False ctx = Some (None, d')"
  shows "on_disk d' g (bc_next ctx)"
proof -
  obtain path db where path: "full_path_under_build g ''state/actions.json'' PATH_MAX = Some path"
      "full_path_under_build g ''state/state.db'' PATH_MAX = Some db"
    using assms(5) by (auto simp: state_write_def split: option.splits)
  obtain u where u: "state_unchanged_ignoring_status ctx = Some u"
    using assms(5) by (auto simp: state_write_def path)
  have db_written: "on_disk d' g (bc_next ctx)" if "state_db_write env d g ctx = Inr d'"
    using that path(2) assms(3)
    by (intro state_db_loaded) (auto simp: state_db_write_def dest!: replace_file_ok split: if_splits)
  show ?thesis
  proof (cases "d' = d \<and> u")
    case True
    then have "record_of (bc_next ctx) = record_of (bc_prev ctx)"
      using unchanged_same_records [OF assms(1) _ assms(2)] u by (auto simp: record_of_def)
    then show ?thesis using assms(4) True by (simp add: on_disk_def)
  next
    case False
    then show ?thesis using assms(5) u db_written
      by (auto simp: state_write_def path state_write_files_def written_def split: if_splits sum.splits)
  qed
qed

section \<open>The build\<close>

text \<open>What the scheduler does to the context and to the two files.\<close>

definition run_keeps :: "build_env \<Rightarrow> qstar_graph \<Rightarrow> bool" where
  "run_keeps env g \<longleftrightarrow> (\<forall>ctx d ctx' d' e. be_run env ctx d = (e, ctx', d') \<longrightarrow>
     bc_prev ctx' = bc_prev ctx \<and> bc_prev_index ctx' = bc_prev_index ctx \<and> distinct (map en_id (bc_next ctx')) \<and>
     same_state_files g d d')"

definition memory_agrees :: "state_cache option \<Rightarrow> disk \<Rightarrow> qstar_graph \<Rightarrow> bool" where
  "memory_agrees cache d g \<longleftrightarrow> (\<forall>m. cache = Some m \<longrightarrow> sc_state_loaded m \<longrightarrow>
     full_path_under_build g ''state/state.db'' PATH_MAX = Some (sc_state_path m) \<longrightarrow>
     list_all short_keys (sc_state m) \<and> on_disk d g (sc_state m))"

lemma load_with_memory_on_disk:
  assumes "memory_agrees cache d g" "state_load_with_memory d g cache zero_ctx = Some (Inr (cache', ctx))"
  shows "indexed ctx" "on_disk d g (bc_prev ctx)"
proof -
  have loaded: "indexed c \<and> on_disk d g (bc_prev c)" if "state_load d g zero_ctx = Some (Inr c)" for c
    using that state_load_indexed [OF that] by (simp add: on_disk_def)
  have "indexed ctx \<and> on_disk d g (bc_prev ctx)"
  proof (cases cache)
    case None
    then show ?thesis using assms(2) loaded
      by (auto simp: state_load_with_memory_def map_sum_Inr)
  next
    case (Some m)
    obtain path where path: "full_path_under_build g ''state/state.db'' PATH_MAX = Some path"
      using assms(2) Some by (auto simp: state_load_with_memory_def split: option.splits)
    show ?thesis
    proof (cases "sc_state_loaded m \<and> sc_state_path m = path")
      case True
      then have m: "list_all short_keys (sc_state m)" "on_disk d g (sc_state m)"
        using assms(1) Some path by (simp_all add: memory_agrees_def)
      obtain t where t: "state_index_build (zero_ctx\<lparr>bc_prev := sc_state m\<rparr>) = Some (zero_ctx\<lparr>bc_prev := sc_state m, bc_prev_index := t\<rparr>)"
          "indexed (zero_ctx\<lparr>bc_prev := sc_state m, bc_prev_index := t\<rparr>)"
        using state_index_build_ok [of "zero_ctx\<lparr>bc_prev := sc_state m\<rparr>"] by auto
      show ?thesis using assms(2) Some path True m t
        by (auto simp: state_load_with_memory_def clone_short)
    next
      case False
      then show ?thesis using assms(2) Some path loaded
        by (auto simp: state_load_with_memory_def map_sum_Inr)
    qed
  qed
  then show "indexed ctx" "on_disk d g (bc_prev ctx)" by simp_all
qed

lemma deps_load_keeps:
  "deps_load_with_memory d g cache ctx = Inr (cache', ctx') \<Longrightarrow> bc_prev ctx' = bc_prev ctx \<and> bc_prev_index ctx' = bc_prev_index ctx"
  by (auto simp: deps_load_with_memory_def deps_db_load_def deps_index_build_def deps_prev_clear_def
      map_sum_Inr split: option.splits sum.splits got.splits if_splits)

lemma indexed_cong: "bc_prev a = bc_prev b \<Longrightarrow> bc_prev_index a = bc_prev_index b \<Longrightarrow> indexed a = indexed b"
  by (simp add: indexed_def)

lemma entry_ok_short: "entry_ok e \<Longrightarrow> short_keys e"
  by (simp add: entry_ok_def short_keys_def digest_ok_def)

lemma deps_memory_state: "deps_memory_update g cache ctx = Inr cache' \<Longrightarrow>
    (\<forall>m'. cache' = Some m' \<longrightarrow> (\<exists>m. cache = Some m \<and> sc_state m' = sc_state m \<and> sc_state_path m' = sc_state_path m))"
  by (auto simp: deps_memory_update_def split: option.splits if_splits)

lemma save_records_ok:
  assumes "indexed ctx" "distinct (map en_id (bc_next ctx))" "on_disk d g (bc_prev ctx)" "\<not> be_debug env"
    and "save_records env g cache ctx d = Some res" "br_error res = None"
    and "counted_ok DB_LIMIT entry_ok (bc_next (br_ctx res))"
  shows "br_ctx res = state_preserve_previous_unvisited ctx \<and> on_disk (br_disk res) g (bc_next (br_ctx res)) \<and>
    memory_agrees (br_cache res) (br_disk res) g"
proof -
  let ?ctx = "state_preserve_previous_unvisited ctx"
  obtain e d1 where e: "state_write (be_store env) d g False ?ctx = Some (e, d1)"
    using assms(4,5) by (auto simp: save_records_def Let_def)
  then have "e = None" using assms(4-6) by (cases e) (auto simp: save_records_def Let_def)
  then have w1: "state_write (be_store env) d g False ?ctx = Some (None, d1)" using e by simp
  obtain cache1 where w: "state_write (be_store env) d g False ?ctx = Some (None, d1)"
      "state_memory_update g cache ?ctx = Inr cache1" "res = save_deps env g cache1 ?ctx d1"
    using assms(4-6) w1 by (auto simp: save_records_def Let_def split: sum.splits)
  obtain d2 cache2 where s: "deps_db_write (be_store env) d1 g ?ctx = Inr d2" "deps_memory_update g cache1 ?ctx = Inr cache2"
      "res = \<lparr>br_error = None, br_cache = cache2, br_ctx = ?ctx, br_disk = d2\<rparr>"
    using w(3) assms(6) by (auto simp: save_deps_def split: sum.splits)
  have ok: "counted_ok DB_LIMIT entry_ok (bc_next ?ctx)" using assms(7) s(3) by simp
  have prev: "bc_prev ?ctx = bc_prev ctx" by (simp add: state_preserve_previous_unvisited_def preserve_all(2))
  have "bc_prev_index (foldl preserve_one c es) = bc_prev_index c" for c es
    by (induction es arbitrary: c) (simp_all add: preserve_one_def state_push_def)
  then have "indexed ?ctx" using assms(1) prev indexed_cong [of ?ctx ctx] by (simp add: state_preserve_previous_unvisited_def)
  moreover have "distinct (map en_id (bc_next ?ctx))"
    using preserve_distinct [OF assms(2)] by (simp add: state_preserve_previous_unvisited_def)
  ultimately have "on_disk d1 g (bc_next ?ctx)"
    using state_write_on_disk [OF _ _ ok _ w(1)] assms(3) prev by simp
  then have disk: "on_disk d2 g (bc_next ?ctx)" using on_disk_same [OF deps_write_same_state [OF s(1)]] by simp
  have short: "list_all short_keys (bc_next ?ctx)" using ok entry_ok_short by (auto simp: counted_ok_def list_all_iff)
  have "memory_agrees cache2 d2 g" unfolding memory_agrees_def
  proof (intro allI impI)
    fix m' assume m': "cache2 = Some m'"
    then obtain m where m: "cache1 = Some m" "sc_state m' = sc_state m" using deps_memory_state [OF s(2)] by blast
    then have "sc_state m = bc_next ?ctx" using w(2) short
      by (auto simp: state_memory_update_def clone_short split: option.splits)
    then show "list_all short_keys (sc_state m') \<and> on_disk d2 g (sc_state m')" using short disk m by simp
  qed
  then show ?thesis using s(3) disk by simp
qed

lemma graph_build_cases:
  assumes "graph_build env g cache d = Some res" "br_error res = None"
  obtains cache1 ctx1 cache2 ctx2 ctx3 d1 where
    "state_load_with_memory d g cache zero_ctx = Some (Inr (cache1, ctx1))"
    "deps_load_with_memory d g cache1 ctx1 = Inr (cache2, ctx2)"
    "be_run env ctx2 d = (None, ctx3, d1)" "save_records env g cache2 ctx3 d1 = Some res"
  using assms by (auto simp: graph_build_def split: option.splits sum.splits prod.splits)


section \<open>Properties\<close>

text \<open>
  C6: After a successful build the next one, reading the files, finds for every action the record that this build ended
  with (up to its status), and so does a daemon from its memory: whether the file was written, left as it was because
  nothing had changed, or the records came from memory. The scheduler is a parameter that leaves the loaded records and the
  two files alone; the JSON copy for debugging is not written, and the records are within the limits of the reader.
\<close>

theorem records_reach_the_next_build:
  assumes "graph_build env g cache d = Some res" "br_error res = None" "run_keeps env g" "\<not> be_debug env"
    and "memory_agrees cache d g" "counted_ok DB_LIMIT entry_ok (bc_next (br_ctx res))"
  shows "(\<exists>c. state_load (br_disk res) g zero_ctx = Some (Inr c) \<and>
      (\<forall>k. map_option (map_option but_status) (state_find c k) = Some (record_of (bc_next (br_ctx res)) k))) \<and>
    memory_agrees (br_cache res) (br_disk res) g"
proof -
  obtain cache1 ctx1 cache2 ctx2 ctx3 d1 where b: "state_load_with_memory d g cache zero_ctx = Some (Inr (cache1, ctx1))"
    "deps_load_with_memory d g cache1 ctx1 = Inr (cache2, ctx2)"
    "be_run env ctx2 d = (None, ctx3, d1)" "save_records env g cache2 ctx3 d1 = Some res"
    using assms(1,2) by (rule graph_build_cases)
  note run = assms(3) [unfolded run_keeps_def, rule_format, OF b(3)]
  note l = load_with_memory_on_disk [OF assms(5) b(1)]
  have known: "indexed ctx3" "distinct (map en_id (bc_next ctx3))" "on_disk d1 g (bc_prev ctx3)"
    using l run deps_load_keeps [OF b(2)] indexed_cong [of ctx3 ctx1] on_disk_same [of g d d1] by simp_all
  obtain c where "state_load (br_disk res) g zero_ctx = Some (Inr c)" "indexed c"
      "record_of (bc_prev c) = record_of (bc_next (br_ctx res))" "memory_agrees (br_cache res) (br_disk res) g"
    using save_records_ok [OF known assms(4) b(4) assms(2,6)] unfolding on_disk_def by blast
  then show ?thesis
    by (intro conjI exI [of _ c]) (simp_all add: record_of_def state_find_indexed fun_eq_iff)
qed

text \<open>
  C14: A build keeps the record of every action it did not visit: after the last step the record of a name is that of this
  build if it has one and the earlier one otherwise (with digests cut to their 31 characters).
\<close>

theorem unvisited_records_are_kept:
  "find_key en_id k (bc_next (state_preserve_previous_unvisited ctx)) =
     (case find_key en_id k (bc_next ctx) of Some e \<Rightarrow> Some e | None \<Rightarrow> map_option entry_copy (find_key en_id k (bc_prev ctx)))"
  by (simp add: state_preserve_previous_unvisited_def preserve_all(1))

text \<open>
  C10: Making the open-addressing index ends for all records, looking up in it ends for all names, and it finds exactly the
  first record of the name in the list.
\<close>

theorem state_find_exact:
  "\<exists>ctx'. state_index_build ctx = Some ctx' \<and> (\<forall>k. state_find ctx' k = Some (find_key en_id k (bc_prev ctx)))"
  using state_index_build_ok [of ctx] by (auto simp: state_find_indexed)

text \<open>
  C11: Inputs taken from the record of a depfile are those that parsing the file gives, and the new record has exactly the names
  of the file, each once, if a record with the size and time of the file has its names.
\<close>

theorem depfile_inputs_exact:
  assumes "deps_indexed ctx" "full_path_under_root g depfile PATH_MAX = Some full"
    and "dk_stat d full = Some (len, mtime)" "open_file d full = Some content"
    and "\<And>e. find_key de_depfile depfile (bc_deps_prev ctx) = Some e \<Longrightarrow> right_record d full e"
    and "push_depfile_inputs d g ctx depfile xs = Inr (ctx', ys)"
  shows "push_all (push_depfile_token d g) xs (depfile_tokens content) = Inr ys \<and>
    map_option de_inputs (deps_find_next ctx' depfile) = Some (unique_wanted (depfile_tokens content))"
  using push_depfile_inputs_parses [OF assms] by simp

text \<open>
  C8: The key and the digests of an action are those computed from the files and the environment directly, whatever is
  remembered of them, as long as what is remembered is right; and it stays right.
\<close>

theorem action_key_exact:
  assumes "fresh w g ctx"
  shows "\<exists>ctx'. compute_action_key w g ctx r = (ctx', action_key w g r, material_of w g r) \<and> fresh w g ctx' \<and> same_records ctx ctx'"
  using compute_action_key_fresh [OF assms, of r] by metis

text \<open>
  The text that is hashed for a list determines the list when no item has a byte 255, and the hash of the list is the hash
  of this text: different argument vectors never share their hashed text.
\<close>

theorem argv_key_text_exact:
  assumes "list_all no_ff xs" "list_all no_ff ys"
  shows "compute_argv_key xs = hex16 (hash_update HASH_INIT (key_stream xs)) \<and> (key_stream xs = key_stream ys \<longleftrightarrow> xs = ys)"
  using key_stream_inject [OF assms] by (simp add: compute_argv_key_def hash_argv_def hash_list_stream [unfolded hash_string_list_def])

text \<open>
  C12: An action that has run is up to date in the next build. When it ends its record gets the key of its static inputs and of
  the names in the depfile it has written; if this record is what the next build finds, the files that it names have the same
  digests, the depfile the same content, the environment and the graph are the same and the outputs are there, then the next
  build prepares the same key and does not run the action again. This needs that no static input was named by the depfile of
  the build before (as in a first build); otherwise the refreshed key can be another one (\<open>key_of_a_rebuild_changes\<close>).
\<close>

theorem finished_action_is_up_to_date:
  assumes "prepare_inputs w0 g c0 a0 = Inr (c1, a)" "set (kr_inputs (pa_request a0)) \<inter> set (kr_depfile_inputs (pa_request a)) = {}"
    and "fresh w g c2" "find_key en_id (kr_id (pa_request a)) (bc_next c2) = Some (action_entry a ''run'')"
    and "pa_wants_depfile a0 \<Longrightarrow> depfile_known (kw_disk w) g c2 (pa_depfile a0) content"
    and "refresh_action_state_after_depfile w g c2 a = Inr (c3, a')"
    and "map_option (map_option but_status) (state_find c4 (kr_id (pa_request a))) = Some (record_of (bc_next c3) (kr_id (pa_request a)))"
    and "fresh w' g c4" "pa_wants_depfile a0 \<Longrightarrow> depfile_known (kw_disk w') g c4 (pa_depfile a0) content"
    and "prepare_inputs w' g c4 a0 = Inr (c5, b)"
    and "kw_getenv w' = kw_getenv w" "kw_host w' = kw_host w"
    and "\<forall>n \<in> set (kr_inputs (pa_request b)). file_digest (kw_disk w') g n = file_digest (kw_disk w) g n"
    and "outputs_exist (kw_disk w') g (pa_outputs a0)"
  shows "prepared_action_cache_hit (kw_disk w') g c5 b = Some True"
proof -
  note shape = prepare_inputs_shape [OF assms(1)] and later = prepare_inputs_exact [OF assms(10,8,9)]
  let ?id = "kr_id (pa_request a)" and ?r = "dep_request (pa_request a0) (depfile_names a0 content)"
  have names: "depfile_names a content = depfile_names a0 content" by (simp add: depfile_names_def shape(3))
  have "refreshed_request a (depfile_names a content) = ?r" unfolding names by (rule refreshed_is_next [OF shape(1) assms(2)])
  then obtain e where e: "find_key en_id ?id (bc_next c3) = Some e" "en_key e = action_key w g ?r"
    using refreshed_record [OF assms(6,3) _ assms(4), of content] assms(5) shape(2,3) by auto
  have "record_of (bc_next c3) ?id = Some (but_status e)" using e(1) by (simp add: record_of_def)
  then obtain p where p: "state_find c4 ?id = Some (Some p)" "but_status p = but_status e"
    using assms(7) by auto
  have "en_key (but_status p) = en_key (but_status e)" using p(2) by simp
  then have key: "en_key p = action_key w g ?r" using e(2) by (simp add: but_status_def)
  have "action_key w' g ?r = action_key w g ?r"
    using assms(13) later(1) by (intro action_key_same_digests assms(11,12)) (auto simp: dep_request_def add_dep_in)
  moreover have "kr_id (pa_request b) = ?id" using arg_cong [OF shape(1), of kr_id] later(1) by (simp add: dep_request_def)
  ultimately show ?thesis
    using p(1) key later(1,2) assms(14) prepare_inputs_shape(4) [OF assms(10)]
    by (simp add: prepared_action_cache_hit_def later(3))
qed

text \<open>
  C18: A \<^verbatim>\<open>state.db\<close> that was cut short anywhere is not used at all: loading it gives no record and no error.
\<close>

theorem cut_state_file_is_a_miss:
  assumes "full_path_under_build g ''state/state.db'' PATH_MAX = Some path" "counted_ok DB_LIMIT entry_ok es"
    and "open_file d path = Some (take n (state_db_bytes es))" "n < length (state_db_bytes es)"
  shows "state_db_load d g ctx = Some (Inr (False, state_prev_clear ctx))"
  using state_db.cut_short [OF assms(2,4)] by (simp add: state_db_load_def assms(1,3) split: got.split)

section \<open>Where records mislead\<close>

text \<open>
  A build that fails does not write its records: an action that ran before the failure, and wrote its output, keeps the
  record it had. When its key is that again, the next build takes the output of the other key for up to date.
\<close>

theorem failed_build_keeps_old_keys:
  assumes "state_load d g zero_ctx = Some (Inr c)" "find_key en_id (kr_id (pa_request a)) (bc_prev c) = Some p" "pa_key a = en_key p"
    and "be_run env c2 d = (Some e, c3, d1)" "deps_load_with_memory d g None c = Inr (None, c2)" "run_keeps env g"
    and "outputs_exist d1 g (pa_outputs a)"
  shows "\<exists>res c'. graph_build env g None d = Some res \<and> br_disk res = d1 \<and> state_load d1 g zero_ctx = Some (Inr c') \<and>
    prepared_action_cache_hit d1 g c' a = Some True"
proof -
  have "same_state_files g d d1" using assms(4,6) unfolding run_keeps_def by blast
  then have "state_load d1 g zero_ctx = Some (Inr c)" using state_load_same assms(1) by simp
  moreover have "prepared_action_cache_hit d1 g c a = Some True"
    using state_find_indexed [OF state_load_indexed [OF assms(1)]] assms(2,3,7) by (simp add: prepared_action_cache_hit_def)
  moreover have "graph_build env g None d = Some \<lparr>br_error = Some e, br_cache = None, br_ctx = c3, br_disk = d1\<rparr>"
    using assms(1,4,5) by (simp add: graph_build_def state_load_with_memory_def)
  ultimately show ?thesis by auto
qed

text \<open>A daemon with records in memory does not look at the file, whoever has written it since.\<close>

theorem daemon_ignores_the_file:
  assumes "sc_state_loaded m" "full_path_under_build g ''state/state.db'' PATH_MAX = Some (sc_state_path m)"
  shows "state_load_with_memory d g (Some m) ctx = state_load_with_memory d' g (Some m) ctx"
  using assms by (simp add: state_load_with_memory_def)

text \<open>The digest of a file in the build directory is that of its size and of its time in seconds.\<close>

theorem build_output_content_ignored:
  assumes "path_is_build_output g rel" "dk_stat d' = dk_stat d"
  shows "file_digest d' g rel = file_digest d g rel"
  using assms by (simp add: file_digest_def Let_def cong: option.case_cong)

text \<open>A blank that the compiler has escaped still ends the name.\<close>

theorem escaped_blank_splits: "depfile_tokens (''a.o: my'' @ [BS] @ '' file.h'' @ NL) = [''my'', ''file.h'']"
  by code_simp

text \<open>The roles of a toolset are hashed without their lengths: one role can take over the next.\<close>

theorem toolset_hash_ambiguous:
  assumes "ts_roles s = \<lparr>tr_role = r1, tr_argv = a1\<rparr> # \<lparr>tr_role = r2, tr_argv = a2\<rparr> # rs"
  shows "hash_toolset h s = hash_toolset h (s\<lparr>ts_roles := \<lparr>tr_role = r1, tr_argv = a1 @ r2 # a2\<rparr> # rs\<rparr>)"
  by (simp add: hash_toolset_def Let_def assms hash_string_list_def)


section \<open>Examples\<close>

text \<open>A source \<^verbatim>\<open>a\<close> and a header \<^verbatim>\<open>b\<close> of its target that it does not include, both empty; the depfile names the source.\<close>

definition demo_rule :: string where
  "demo_rule = ''o: a'' @ NL"

definition demo_files :: "(string \<times> string) list" where
  "demo_files = [(''a'', []), (''b'', []), (''d'', demo_rule)]"

definition demo_state_disk :: disk where
  "demo_state_disk = \<lparr>dk_stat = (\<lambda>p. map_option (\<lambda>c. (length c, 7)) (map_of demo_files p)), dk_read = map_of demo_files,
     dk_readable = (\<lambda>_. True)\<rparr>"

definition demo_world :: key_world where
  "demo_world = \<lparr>kw_disk = demo_state_disk, kw_getenv = (\<lambda>_. None), kw_host = HostLinux\<rparr>"

definition demo_request :: key_request where
  "demo_request = \<lparr>kr_target = None, kr_toolchain = None, kr_id = ''a'', kr_kind = ''compile'', kr_argv = [''cc''], kr_env = [],
     kr_inputs = [''a'', ''b''], kr_depfile_inputs = [], kr_output = Some ''o''\<rparr>"

definition demo_rebuild :: prepared_action where
  "demo_rebuild = \<lparr>pa_request = demo_request, pa_key = [], pa_material = zero_material, pa_depfile = ''d'', pa_wants_depfile = True,
     pa_outputs = [''o'']\<rparr>"

lemma demo_digests:
  "file_digest demo_state_disk zero_qstar_graph ''a'' = ''b7fefac0f1bd5f6a''"
  "file_digest demo_state_disk zero_qstar_graph ''b'' = ''64c2f7a3deb5f817''"
  by code_simp+

lemma demo_input_keys:
  "hex16 (hash_string_list HASH_INIT [''b7fefac0f1bd5f6a'', ''64c2f7a3deb5f817'']) = ''a0879c715e50f058''"
  "hex16 (hash_string_list HASH_INIT [''64c2f7a3deb5f817'', ''b7fefac0f1bd5f6a'']) = ''0ab781f9e7734b9e''"
  by code_simp+

text \<open>
  When an action is built again with the same names in its depfile, the refreshed key is that of other inputs than the next
  build asks for: the static inputs that the depfile names have moved to the end. Every later build runs the action again.
\<close>

theorem key_of_a_rebuild_changes:
  "refreshed_request (demo_rebuild\<lparr>pa_request := dep_request demo_request [''a'']\<rparr>) [''a''] =
     demo_request\<lparr>kr_inputs := [''b'', ''a''], kr_depfile_inputs := [''a'']\<rparr> \<and>
   dep_request demo_request [''a''] = demo_request\<lparr>kr_inputs := [''a'', ''b''], kr_depfile_inputs := [''a'']\<rparr> \<and>
   am_input_key (material_of demo_world zero_qstar_graph (demo_request\<lparr>kr_inputs := [''b'', ''a''], kr_depfile_inputs := [''a'']\<rparr>)) \<noteq>
   am_input_key (material_of demo_world zero_qstar_graph (demo_request\<lparr>kr_inputs := [''a'', ''b''], kr_depfile_inputs := [''a'']\<rparr>))"
  using demo_digests demo_input_keys
  by (simp add: refreshed_request_def dep_request_def demo_request_def demo_rebuild_def add_dep_inputs_def copy_static_inputs_def
      push_unique_def material_of_def input_key_def demo_world_def Let_def)

text \<open>The files before the first build, without a depfile, and after it, with the output.\<close>

definition demo_before :: key_world where
  "demo_before = demo_world\<lparr>kw_disk := demo_state_disk\<lparr>dk_stat := (dk_stat demo_state_disk)(''d'' := None)\<rparr>\<rparr>"

definition demo_after :: key_world where
  "demo_after = demo_world\<lparr>kw_disk := demo_state_disk\<lparr>dk_stat := (dk_stat demo_state_disk)(''o'' \<mapsto> (0, 8))\<rparr>\<rparr>"

lemma demo_depfile:
  assumes "bc_deps_prev c = []" "bc_deps_index c = []"
  shows "depfile_known (kw_disk demo_after) zero_qstar_graph c ''d'' demo_rule"
    and "\<exists>c' ys. push_depfile_inputs (kw_disk demo_after) zero_qstar_graph c ''d'' [] = Inr (c', ys)"
    and "push_depfile_inputs (kw_disk demo_before) zero_qstar_graph c ''d'' [] = Inr (c, [])"
proof -
  let ?d = "kw_disk demo_after"
  have path: "full_path_under_root zero_qstar_graph ''d'' PATH_MAX = Some ''d''" by code_simp
  have st: "dk_stat ?d ''d'' = Some (length demo_rule, 7)" "open_file ?d ''d'' = Some demo_rule"
    by (simp_all add: demo_after_def demo_world_def demo_state_disk_def demo_files_def open_file_def)
  show "depfile_known ?d zero_qstar_graph c ''d'' demo_rule"
    using assms path st by (simp add: depfile_known_def deps_indexed_def)
  have none: "deps_find_prev c ''d'' = None" using assms by (simp add: deps_find_prev_def)
  have "push_all (push_depfile_token_with_record ?d zero_qstar_graph) ([], []) (depfile_tokens demo_rule) = Inr ([''a''], [''a''])"
    by code_simp
  then have "qstar_parse_depfile_inputs ?d zero_qstar_graph ''d'' [] [] = Inr ([''a''], [''a''])"
    by (simp add: qstar_parse_depfile_inputs_def path st(2))
  then show "\<exists>c' ys. push_depfile_inputs ?d zero_qstar_graph c ''d'' [] = Inr (c', ys)"
    by (simp add: push_depfile_inputs_def depfile_fingerprint_def path st none Let_def read_again_def)
  show "push_depfile_inputs (kw_disk demo_before) zero_qstar_graph c ''d'' [] = Inr (c, [])"
    by (simp add: push_depfile_inputs_def depfile_fingerprint_def path demo_before_def)
qed

lemma demo_prepared:
  assumes "push_depfile_inputs (kw_disk w) g c (pa_depfile demo_rebuild) [] = Inr (c1, deps)"
  shows "\<exists>c' a. prepare_inputs w g c demo_rebuild = Inr (c', a) \<and> kr_depfile_inputs (pa_request a) = deps"
  using assms by (simp add: prepare_inputs_def demo_rebuild_def dep_request_def Let_def split: prod.split)

lemma demo_fresh: "bc_hash_cache c = [] \<Longrightarrow> bc_env_key c = None \<Longrightarrow> fresh w g c"
  by (simp add: fresh_def digests.right_def hash_cache_find_def)

theorem finished_action_is_up_to_date_witness:
  "\<exists>c1 a c3 a' c5 b. prepare_inputs demo_before zero_qstar_graph zero_ctx demo_rebuild = Inr (c1, a) \<and>
     refresh_action_state_after_depfile demo_after zero_qstar_graph (zero_ctx\<lparr>bc_next := [action_entry a ''run'']\<rparr>) a = Inr (c3, a') \<and>
     prepare_inputs demo_after zero_qstar_graph (zero_ctx\<lparr>bc_prev := bc_next c3\<rparr>) demo_rebuild = Inr (c5, b) \<and>
     prepared_action_cache_hit (kw_disk demo_after) zero_qstar_graph c5 b = Some True"
proof -
  obtain c1 a where a: "prepare_inputs demo_before zero_qstar_graph zero_ctx demo_rebuild = Inr (c1, a)" "kr_depfile_inputs (pa_request a) = []"
    using demo_prepared [of demo_before zero_qstar_graph zero_ctx zero_ctx "[]"] demo_depfile(3) [of zero_ctx]
    by (auto simp: zero_ctx_def demo_rebuild_def)
  note shape = prepare_inputs_shape [OF a(1)]
  let ?c2 = "zero_ctx\<lparr>bc_next := [action_entry a ''run'']\<rparr>"
  obtain c ds where "push_depfile_inputs (kw_disk demo_after) zero_qstar_graph ?c2 (pa_depfile a) [] = Inr (c, ds)"
    using demo_depfile(2) [of ?c2] shape(2) by (auto simp: zero_ctx_def demo_rebuild_def)
  then obtain c3 a' where r: "refresh_action_state_after_depfile demo_after zero_qstar_graph ?c2 a = Inr (c3, a')"
    using shape(3) by (cases "compute_action_key demo_after zero_qstar_graph c (refreshed_request a ds)")
      (auto simp: refresh_action_state_after_depfile_def demo_rebuild_def)
  let ?c4 = "zero_ctx\<lparr>bc_prev := bc_next c3\<rparr>"
  obtain c' ds' where "push_depfile_inputs (kw_disk demo_after) zero_qstar_graph ?c4 (pa_depfile demo_rebuild) [] = Inr (c', ds')"
    using demo_depfile(2) [of ?c4] by (auto simp: zero_ctx_def demo_rebuild_def)
  then obtain c5 b where b: "prepare_inputs demo_after zero_qstar_graph ?c4 demo_rebuild = Inr (c5, b)"
    using demo_prepared by blast
  have known: "depfile_known (kw_disk demo_after) zero_qstar_graph ?c2 (pa_depfile demo_rebuild) demo_rule"
    "depfile_known (kw_disk demo_after) zero_qstar_graph ?c4 (pa_depfile demo_rebuild) demo_rule"
    using demo_depfile(1) [of ?c2] demo_depfile(1) [of ?c4] by (simp_all add: zero_ctx_def demo_rebuild_def)
  have fresh: "fresh demo_after zero_qstar_graph ?c2" "fresh demo_after zero_qstar_graph ?c4"
    by (simp_all add: demo_fresh zero_ctx_def)
  have "prepared_action_cache_hit (kw_disk demo_after) zero_qstar_graph c5 b = Some True"
  proof (rule finished_action_is_up_to_date [OF a(1) _ fresh(1) _ known(1) r _ fresh(2) known(2) b])
    show "outputs_exist (kw_disk demo_after) zero_qstar_graph (pa_outputs demo_rebuild)" by code_simp
    show "map_option (map_option but_status) (state_find ?c4 (kr_id (pa_request a))) =
        Some (record_of (bc_next c3) (kr_id (pa_request a)))"
      by (simp add: state_find_def record_of_def zero_ctx_def)
    show "find_key en_id (kr_id (pa_request a)) (bc_next ?c2) = Some (action_entry a ''run'')"
      by (simp add: action_entry_def new_entry_def Let_def)
  qed (simp_all add: a(2))
  then show ?thesis using a(1) r b by blast
qed

theorem action_key_exact_witness:
  "\<exists>ctx'. compute_action_key demo_world zero_qstar_graph zero_ctx demo_request =
     (ctx', action_key demo_world zero_qstar_graph demo_request, material_of demo_world zero_qstar_graph demo_request) \<and>
     fresh demo_world zero_qstar_graph ctx' \<and> same_records zero_ctx ctx'"
  by (rule action_key_exact) (simp add: fresh_def digests.right_def zero_ctx_def hash_cache_find_def)

theorem argv_key_text_exact_witness:
  "compute_argv_key [''cc'', ''-c''] = hex16 (hash_update HASH_INIT (key_stream [''cc'', ''-c''])) \<and>
   (key_stream [''cc'', ''-c''] = key_stream [''cc-c''] \<longleftrightarrow> [''cc'', ''-c''] = [''cc-c''])"
  by (rule argv_key_text_exact; code_simp)

definition demo_cut :: disk where
  "demo_cut = demo_state_disk\<lparr>dk_read := (\<lambda>_. Some (take 1 (state_db_bytes [])))\<rparr>"

theorem cut_state_file_is_a_miss_witness:
  "state_db_load demo_cut zero_qstar_graph zero_ctx = Some (Inr (False, state_prev_clear zero_ctx))"
proof (rule cut_state_file_is_a_miss)
  show "full_path_under_build zero_qstar_graph ''state/state.db'' PATH_MAX = Some ''build/qstar/state/state.db''" by code_simp
  show "counted_ok DB_LIMIT entry_ok []" by (simp add: counted_ok_def)
  show "open_file demo_cut ''build/qstar/state/state.db'' = Some (take 1 (state_db_bytes []))"
    by (simp add: open_file_def demo_cut_def demo_state_disk_def)
  show "1 < length (state_db_bytes [])" by (simp add: state_db_bytes_def write_db_def STATE_DB_MAGIC_def)
qed

theorem depfile_inputs_exact_witness:
  "\<exists>ctx' ys. push_depfile_inputs demo_state_disk zero_qstar_graph zero_ctx ''d'' [] = Inr (ctx', ys) \<and>
     push_all (push_depfile_token demo_state_disk zero_qstar_graph) [] (depfile_tokens demo_rule) = Inr ys \<and>
     map_option de_inputs (deps_find_next ctx' ''d'') = Some (unique_wanted (depfile_tokens demo_rule))"
proof -
  have path: "full_path_under_root zero_qstar_graph ''d'' PATH_MAX = Some ''d''" by code_simp
  have st: "dk_stat demo_state_disk ''d'' = Some (length demo_rule, 7)"
    "open_file demo_state_disk ''d'' = Some demo_rule"
    by (simp_all add: demo_state_disk_def demo_files_def open_file_def)
  have none: "deps_find_prev zero_ctx ''d'' = None" by (simp add: deps_find_prev_def zero_ctx_def)
  have toks: "depfile_tokens demo_rule = [''a'']" by code_simp
  have push: "push_all (push_depfile_token_with_record demo_state_disk zero_qstar_graph) ([], []) [''a''] = Inr ([''a''], [''a''])"
    by code_simp
  have parsed: "qstar_parse_depfile_inputs demo_state_disk zero_qstar_graph ''d'' [] [] = Inr ([''a''], [''a''])"
    by (simp only: qstar_parse_depfile_inputs_def path st(2) option.case toks push)
  obtain ctx' ys where p: "push_depfile_inputs demo_state_disk zero_qstar_graph zero_ctx ''d'' [] = Inr (ctx', ys)"
    by (simp add: push_depfile_inputs_def depfile_fingerprint_def path st none Let_def read_again_def
        parsed)
  have idx: "deps_indexed zero_ctx" "\<And>e. find_key de_depfile ''d'' (bc_deps_prev zero_ctx) = Some e \<Longrightarrow> right_record demo_state_disk ''d'' e"
    by (simp_all add: deps_indexed_def zero_ctx_def)
  show ?thesis using depfile_inputs_exact [OF idx(1) path st idx(2) p] p by blast
qed

definition demo_entry :: qstar_state_entry where
  "demo_entry = new_entry ''a'' ''k'' ''o'' ''run'' (Some ''compile'') None"

definition demo_state_store :: store_env where
  "demo_state_store = \<lparr>se_mkdir = (\<lambda>_. True), se_write = (\<lambda>_. True), se_rename = (\<lambda>_ _. True), se_prepare = (\<lambda>_ _. None),
     se_pid = 1, se_now = 9\<rparr>"

definition demo_state_env :: build_env where
  "demo_state_env = \<lparr>be_store = demo_state_store, be_debug = False, be_run = (\<lambda>ctx d. (None, ctx\<lparr>bc_next := [demo_entry]\<rparr>, d))\<rparr>"

lemma demo_paths:
  "full_path_under_build zero_qstar_graph ''state/state.db'' PATH_MAX = Some ''build/qstar/state/state.db''"
  "full_path_under_build zero_qstar_graph ''state/deps.db'' PATH_MAX = Some ''build/qstar/state/deps.db''"
  "full_path_under_build zero_qstar_graph ''state/actions.json'' PATH_MAX = Some ''build/qstar/state/actions.json''"
  "full_path_under_build zero_qstar_graph ''state'' PATH_MAX = Some ''build/qstar/state''"
  by code_simp+

lemma demo_loaded: "state_load demo_state_disk zero_qstar_graph zero_ctx = Some (Inr zero_ctx)"
  "deps_db_load demo_state_disk zero_qstar_graph zero_ctx = Inr (False, zero_ctx)"
  by (simp_all add: state_load_def state_db_load_def state_load_json_def deps_db_load_def demo_paths open_file_def
      demo_state_disk_def demo_files_def)

lemma demo_build:
  "graph_build demo_state_env zero_qstar_graph None demo_state_disk =
     Some \<lparr>br_error = None, br_cache = None, br_ctx = zero_ctx\<lparr>bc_next := [demo_entry]\<rparr>,
       br_disk = put_file ''build/qstar/state/state.db'' (state_db_bytes [demo_entry]) 9 demo_state_disk\<rparr>"
proof -
  let ?ctx = "zero_ctx\<lparr>bc_next := [demo_entry]\<rparr>"
  have p: "state_preserve_previous_unvisited ?ctx = ?ctx"
    by (simp add: state_preserve_previous_unvisited_def zero_ctx_def)
  have u: "state_unchanged_ignoring_status ?ctx = Some False"
    by (simp add: state_unchanged_ignoring_status_def zero_ctx_def)
  have put: "put PATH_MAX ''build/qstar/state/state.db.tmp'' = Some ''build/qstar/state/state.db.tmp''" by simp
  have "state_db_write demo_state_store demo_state_disk zero_qstar_graph ?ctx =
      Inr (put_file ''build/qstar/state/state.db'' (state_db_bytes [demo_entry]) 9 demo_state_disk)"
    by (simp add: state_db_write_def replace_file_def put demo_paths state_dir_ready_def) (simp add: demo_state_store_def)
  then have w: "state_write demo_state_store demo_state_disk zero_qstar_graph False ?ctx =
      Some (None, put_file ''build/qstar/state/state.db'' (state_db_bytes [demo_entry]) 9 demo_state_disk)"
    by (simp add: state_write_def u demo_paths state_write_files_def state_dir_ready_def) (simp add: demo_state_store_def)
  have "bc_deps_next ?ctx = []" by (simp add: zero_ctx_def)
  then have "save_records demo_state_env zero_qstar_graph None ?ctx demo_state_disk = Some \<lparr>br_error = None, br_cache = None, br_ctx = ?ctx,
      br_disk = put_file ''build/qstar/state/state.db'' (state_db_bytes [demo_entry]) 9 demo_state_disk\<rparr>"
    using w by (simp add: save_records_def p demo_state_env_def state_memory_update_def save_deps_def deps_db_write_def deps_memory_update_def)
  then show ?thesis
    by (simp add: graph_build_def state_load_with_memory_def deps_load_with_memory_def demo_loaded) (simp add: demo_state_env_def)
qed

theorem records_reach_the_next_build_witness:
  "\<exists>res. graph_build demo_state_env zero_qstar_graph None demo_state_disk = Some res \<and>
    ((\<exists>c. state_load (br_disk res) zero_qstar_graph zero_ctx = Some (Inr c) \<and>
      (\<forall>k. map_option (map_option but_status) (state_find c k) = Some (record_of (bc_next (br_ctx res)) k))) \<and>
    memory_agrees (br_cache res) (br_disk res) zero_qstar_graph)"
proof (rule exI, rule conjI)
  show "graph_build demo_state_env zero_qstar_graph None demo_state_disk =
     Some \<lparr>br_error = None, br_cache = None, br_ctx = zero_ctx\<lparr>bc_next := [demo_entry]\<rparr>,
       br_disk = put_file ''build/qstar/state/state.db'' (state_db_bytes [demo_entry]) 9 demo_state_disk\<rparr>" (is "_ = Some ?res")
    by (rule demo_build)
  have "run_keeps demo_state_env zero_qstar_graph" by (auto simp: run_keeps_def demo_state_env_def)
  moreover have "\<not> be_debug demo_state_env" "memory_agrees None demo_state_disk zero_qstar_graph"
    by (simp_all add: demo_state_env_def memory_agrees_def)
  moreover have "counted_ok DB_LIMIT entry_ok (bc_next (br_ctx ?res))"
    by (simp add: counted_ok_def demo_entry_def new_entry_def Let_def entry_ok_def complete_entry_def text_ok_def digest_ok_def
        MAX_STRING_def byte_def zero_material_def)
  ultimately show "(\<exists>c. state_load (br_disk ?res) zero_qstar_graph zero_ctx = Some (Inr c) \<and>
      (\<forall>k. map_option (map_option but_status) (state_find c k) = Some (record_of (bc_next (br_ctx ?res)) k))) \<and>
    memory_agrees (br_cache ?res) (br_disk ?res) zero_qstar_graph"
    using records_reach_the_next_build [OF demo_build] by simp
qed

end
