(* ===== verification/QLink.thy ===== *)
theory QLink
  imports QActionGraph
begin

text \<open>
  Lowering of final actions (\<^verbatim>\<open>src/executor.c\<close>, \<open>qstar_lower_final_action\<close>): the command that links or archives
  a target, with the files it reads and writes. The objects are those of the target and of its object
  libraries; the libraries are found by two walks of the dependencies that stop at labels already seen.
  The lemmas show what such a walk visits and that it ends.
\<close>

section \<open>Pieces of an argument vector\<close>

text \<open>Loops that push one item for each element, and pieces pushed one after another: the first error ends them.\<close>

fun collect :: "('a \<Rightarrow> qerr + 'b) \<Rightarrow> 'a list \<Rightarrow> qerr + 'b list" where
  "collect f [] = Inr []"
| "collect f (x # xs) = (case f x of
      Inl e \<Rightarrow> Inl e
    | Inr y \<Rightarrow> (case collect f xs of Inl e \<Rightarrow> Inl e | Inr ys \<Rightarrow> Inr (y # ys)))"

fun join_args :: "(qerr + string list) list \<Rightarrow> qerr + string list" where
  "join_args [] = Inr []"
| "join_args (p # ps) = (case p of
      Inl e \<Rightarrow> Inl e
    | Inr xs \<Rightarrow> (case join_args ps of Inl e \<Rightarrow> Inl e | Inr ys \<Rightarrow> Inr (xs @ ys)))"

lemma collect_Inr: "collect f xs = Inr ys \<longleftrightarrow> list_all2 (\<lambda>x y. f x = Inr y) xs ys"
proof (induction xs arbitrary: ys)
  case Nil
  then show ?case by auto
next
  case (Cons x xs)
  show ?case
  proof (cases "collect f xs")
    case (Inl e)
    then have "\<nexists>zs. list_all2 (\<lambda>x y. f x = Inr y) xs zs" using Cons.IH by auto
    then show ?thesis using Inl by (auto simp: list_all2_Cons1 split: sum.splits)
  next
    case (Inr zs)
    then have "list_all2 (\<lambda>x y. f x = Inr y) xs ws \<longleftrightarrow> ws = zs" for ws using Cons.IH [of ws] by auto
    then show ?thesis using Inr by (auto simp: list_all2_Cons1 split: sum.splits)
  qed
qed

lemma join_args_Cons: "join_args (p # ps) = Inr ys \<longleftrightarrow>
    (\<exists>xs zs. p = Inr xs \<and> join_args ps = Inr zs \<and> ys = xs @ zs)"
  by (auto split: sum.splits)

lemma join_args_piece: "join_args ps = Inr ys \<Longrightarrow> p \<in> set ps \<Longrightarrow> \<exists>xs. p = Inr xs \<and> set xs \<subseteq> set ys"
proof (induction ps arbitrary: ys)
  case (Cons q qs)
  then obtain xs zs where q: "q = Inr xs" "join_args qs = Inr zs" "ys = xs @ zs"
    by (auto simp: join_args_Cons simp del: join_args.simps)
  then show ?case using Cons.IH [of zs] Cons.prems(2) by auto
qed simp

section \<open>Objects\<close>

text \<open>
  \<open>Inr None\<close> is the return value \<open>1\<close>, which leaves the buffer unset; no error text of its own is set for a
  path that is too long, so each caller names its message.
\<close>

definition object_buf :: "string \<Rightarrow> string option \<Rightarrow> qerr + string option" where
  "object_buf too_long p = (case p of None \<Rightarrow> Inl (Plain too_long) | Some s \<Rightarrow> Inr (Some s))"

definition target_source_object_input :: "qstar_graph \<Rightarrow> qstar_target \<Rightarrow> string \<Rightarrow> nat \<Rightarrow> qerr + string option" where
  "target_source_object_input g t too_long i = (case qstar_target_source_classify t i of
      None \<Rightarrow> Inl (Plain (''qstar: unsupported source '' @ sq (t_sources t ! i)))
    | Some source \<Rightarrow>
        if qstar_source_is_link_object source then object_buf too_long (put PATH_MAX (t_sources t ! i))
        else (case qstar_cxx_unity_source_info t i of
            Some (batch, leader) \<Rightarrow>
              if leader then object_buf too_long (qstar_cxx_unity_object_path g t batch PATH_MAX) else Inr None
          | None \<Rightarrow> object_buf too_long (qstar_graph_object_output_path g t i PATH_MAX)))"

definition target_source_emits_object :: "qstar_target \<Rightarrow> nat \<Rightarrow> bool" where
  "target_source_emits_object t i = (case qstar_cxx_unity_source_info t i of None \<Rightarrow> True | Some (batch, leader) \<Rightarrow> leader)"

definition objectlib_source_object_input ::
  "qstar_graph \<Rightarrow> qstar_target \<Rightarrow> qstar_target \<Rightarrow> string \<Rightarrow> nat \<Rightarrow> qerr + string option" where
  "objectlib_source_object_input g consumer objectlib too_long i = (case qstar_target_source_classify objectlib i of
      None \<Rightarrow> Inl (Plain (''qstar: unsupported source '' @ sq (t_sources objectlib ! i)))
    | Some source \<Rightarrow>
        if qstar_source_is_link_object source then object_buf too_long (put PATH_MAX (t_sources objectlib ! i))
        else if objectlib_uses_consumer_context objectlib then
          object_buf too_long (qstar_graph_consumer_object_output_path g consumer objectlib i PATH_MAX)
        else (case qstar_cxx_unity_source_info objectlib i of
            Some (batch, leader) \<Rightarrow>
              if leader then object_buf too_long (qstar_cxx_unity_object_path g objectlib batch PATH_MAX) else Inr None
          | None \<Rightarrow> object_buf too_long (qstar_graph_object_output_path g objectlib i PATH_MAX)))"

definition objectlib_source_depfile_output ::
  "qstar_graph \<Rightarrow> qstar_target \<Rightarrow> qstar_target \<Rightarrow> nat \<Rightarrow> nat \<Rightarrow> string option" where
  "objectlib_source_depfile_output g consumer objectlib i dstlen =
     (if objectlib_uses_consumer_context objectlib
      then qstar_graph_consumer_depfile_output_path g consumer objectlib i dstlen
      else qstar_graph_depfile_output_path g objectlib i dstlen)"

text \<open>The buffer a loop pushes; a loop only asks for the object of a source that emits one, so it is set.\<close>

definition pushed_object :: "qerr + string option \<Rightarrow> qerr + string" where
  "pushed_object r = (case r of Inl e \<Rightarrow> Inl e | Inr None \<Rightarrow> Inl WildRead | Inr (Some p) \<Rightarrow> Inr p)"

definition emitting_sources :: "qstar_target \<Rightarrow> nat list" where
  "emitting_sources t = filter (target_source_emits_object t) [0..<length (t_sources t)]"

text \<open>The loop of \<open>qstar_lower_final_action\<close> over the sources of the target.\<close>

definition own_objects :: "qstar_graph \<Rightarrow> qstar_target \<Rightarrow> qerr + string list" where
  "own_objects g t = collect (\<lambda>i. pushed_object
     (target_source_object_input g t ''qstar: object output path too long'' i)) (emitting_sources t)"

definition append_objectlib_objects :: "qstar_graph \<Rightarrow> qstar_target \<Rightarrow> qerr + string list" where
  "append_objectlib_objects g t = join_args (map (\<lambda>l. case find_target g l of
      None \<Rightarrow> Inl (Plain (''qstar: unknown objectlib '' @ sq l @ '' referenced by '' @ sq (t_label t)))
    | Some objectlib \<Rightarrow> collect (\<lambda>j. pushed_object
        (objectlib_source_object_input g t objectlib ''qstar: objectlib object path too long'' j))
        (emitting_sources objectlib)) (t_objects t))"

text \<open>The same loop, filling the inputs of the action.\<close>

definition append_objectlib_inputs :: "qstar_graph \<Rightarrow> qstar_target \<Rightarrow> string list \<Rightarrow> qerr + string list" where
  "append_objectlib_inputs g t inputs = join_args [Inr inputs, append_objectlib_objects g t]"

lemma emits_leader: "target_source_emits_object t i \<longleftrightarrow> \<not> unity_follower t i"
  by (auto simp: target_source_emits_object_def unity_follower_def split: option.splits)

lemma own_object_set:
  assumes "i \<in> set (emitting_sources t)"
  shows "target_source_object_input g t m i \<noteq> Inr None"
  using assms by (auto simp: emitting_sources_def target_source_object_input_def target_source_emits_object_def
      object_buf_def split: option.splits prod.splits if_splits)

lemma objectlib_object_set:
  assumes "i \<in> set (emitting_sources objectlib)"
  shows "objectlib_source_object_input g t objectlib m i \<noteq> Inr None"
  using assms by (auto simp: emitting_sources_def objectlib_source_object_input_def target_source_emits_object_def
      object_buf_def split: option.splits prod.splits if_splits)

section \<open>Walks of the dependencies\<close>

text \<open>
  Both walks of the linker are depth first with a list of the labels seen: a dependency that is an external label
  or names no target is skipped, a target seen before is left alone, and a new one is visited before
  its dependencies are. \<open>None\<close> is fuel that ran out.
\<close>

fun seen_walk :: "qstar_graph \<Rightarrow> (qstar_target \<Rightarrow> 's \<Rightarrow> qerr + 's) \<Rightarrow> (qstar_target \<Rightarrow> string list) \<Rightarrow> nat \<Rightarrow>
    string list \<Rightarrow> 's \<times> string list \<Rightarrow> (qerr + 's \<times> string list) option" where
  "seen_walk g visit kids f [] st = Some (Inr st)"
| "seen_walk g visit kids f (l # ls) st = (case local_dep g l of
      None \<Rightarrow> seen_walk g visit kids f ls st
    | Some t \<Rightarrow>
        if list_contains (snd st) (t_label t) then seen_walk g visit kids f ls st
        else (case f of
            0 \<Rightarrow> None
          | Suc f' \<Rightarrow> (case visit t (fst st) of
                Inl e \<Rightarrow> Some (Inl e)
              | Inr s \<Rightarrow> (case seen_walk g visit kids f' (kids t) (s, snd st @ [t_label t]) of
                    None \<Rightarrow> None
                  | Some (Inl e) \<Rightarrow> Some (Inl e)
                  | Some (Inr st') \<Rightarrow> seen_walk g visit kids f ls st'))))"

definition walk_from :: "qstar_graph \<Rightarrow> (qstar_target \<Rightarrow> 's \<Rightarrow> qerr + 's) \<Rightarrow> (qstar_target \<Rightarrow> string list) \<Rightarrow>
    string list \<Rightarrow> 's \<Rightarrow> (qerr + 's) option" where
  "walk_from g visit kids ls s =
     map_option (map_sum id fst) (seen_walk g visit kids (length (gr_targets g)) ls (s, []))"

text \<open>The targets reached along \<open>kids\<close>.\<close>

definition kid_rel :: "qstar_graph \<Rightarrow> (qstar_target \<Rightarrow> string list) \<Rightarrow> (qstar_target \<times> qstar_target) set" where
  "kid_rel g kids = {(a, b). b \<in> dep_targets g (kids a)}"

definition walk_reach :: "qstar_graph \<Rightarrow> (qstar_target \<Rightarrow> string list) \<Rightarrow> string list \<Rightarrow> qstar_target set" where
  "walk_reach g kids ls = (kid_rel g kids)\<^sup>* `` dep_targets g ls"

text \<open>The effects of visiting a list of targets in order.\<close>

fun visit_all :: "('a \<Rightarrow> 's \<Rightarrow> qerr + 's) \<Rightarrow> 'a list \<Rightarrow> 's \<Rightarrow> qerr + 's" where
  "visit_all visit [] s = Inr s"
| "visit_all visit (t # ts) s = (case visit t s of Inl e \<Rightarrow> Inl e | Inr s' \<Rightarrow> visit_all visit ts s')"

lemma visit_all_append: "visit_all visit (xs @ ys) s = (case visit_all visit xs s of
    Inl e \<Rightarrow> Inl e | Inr s' \<Rightarrow> visit_all visit ys s')"
  by (induction xs arbitrary: s) (auto split: sum.splits)

definition walked :: "qstar_graph \<Rightarrow> (qstar_target \<Rightarrow> 's \<Rightarrow> qerr + 's) \<Rightarrow> (qstar_target \<Rightarrow> string list) \<Rightarrow>
    string list \<Rightarrow> 's \<times> string list \<Rightarrow> 's \<times> string list \<Rightarrow> qstar_target list \<Rightarrow> bool" where
  "walked g visit kids ls st st' ts \<longleftrightarrow> visit_all visit ts (fst st) = Inr (fst st')
     \<and> snd st' = snd st @ map t_label ts \<and> set ts \<subseteq> walk_reach g kids ls
     \<and> distinct (map t_label ts) \<and> set (map t_label ts) \<inter> set (snd st) = {}
     \<and> t_label ` dep_targets g ls \<subseteq> set (snd st')
     \<and> (\<forall>t\<in>set ts. known g t \<and> t_label ` dep_targets g (kids t) \<subseteq> set (snd st'))"

lemma walk_reach_Cons: "walk_reach g kids (l # ls) =
    (case local_dep g l of None \<Rightarrow> {} | Some t \<Rightarrow> insert t (walk_reach g kids (kids t))) \<union> walk_reach g kids ls"
proof -
  have step: "(kid_rel g kids)\<^sup>* `` {t} = insert t (walk_reach g kids (kids t))" for t
  proof -
    have "(kid_rel g kids)\<^sup>* `` {t} = insert t ((kid_rel g kids)\<^sup>* `` (kid_rel g kids `` {t}))"
      by (auto elim: converse_rtranclE intro: converse_rtrancl_into_rtrancl)
    then show ?thesis by (simp add: walk_reach_def kid_rel_def Image_def)
  qed
  have split: "(kid_rel g kids)\<^sup>* `` insert a T = (kid_rel g kids)\<^sup>* `` {a} \<union> (kid_rel g kids)\<^sup>* `` T" for a T
    by blast
  show ?thesis
  proof (cases "local_dep g l")
    case (Some t)
    then show ?thesis using split [of t "dep_targets g ls"] step [of t] by (simp add: walk_reach_def)
  qed (simp add: walk_reach_def)
qed

lemma walk_reach_known: "t \<in> walk_reach g kids ls \<Longrightarrow> known g t"
  by (auto simp: walk_reach_def kid_rel_def dep_targets_known elim: rtranclE)

lemma walked_refl: "t_label ` dep_targets g ls \<subseteq> set (snd st) \<Longrightarrow> walked g visit kids ls st st []"
  by (simp add: walked_def)

lemma walkedD:
  assumes "walked g visit kids ls st st' ts"
  shows "visit_all visit ts (fst st) = Inr (fst st')" and "snd st' = snd st @ map t_label ts"
    and "set ts \<subseteq> walk_reach g kids ls" and "distinct (map t_label ts)"
    and "set (map t_label ts) \<inter> set (snd st) = {}" and "t_label ` dep_targets g ls \<subseteq> set (snd st')"
    and "t \<in> set ts \<Longrightarrow> known g t"
    and "t \<in> set ts \<Longrightarrow> t_label ` dep_targets g (kids t) \<subseteq> set (snd st')"
  using assms unfolding walked_def by blast+

text \<open>One new target, its dependencies, and the rest of the list.\<close>

lemma walked_enter:
  assumes "local_dep g l = Some t" and "t_label t \<notin> set (snd st)" and "visit t (fst st) = Inr s"
    and "walked g visit kids (kids t) (s, snd st @ [t_label t]) st1 ts1"
    and "walked g visit kids ls st1 st2 ts2"
  shows "walked g visit kids (l # ls) st st2 (t # ts1 @ ts2)"
proof -
  have vis: "visit_all visit (t # ts1 @ ts2) (fst st) = Inr (fst st2)"
    using assms(3-5) by (simp add: walked_def visit_all_append)
  have seen: "snd st2 = snd st @ map t_label (t # ts1 @ ts2)"
    using assms(4,5) by (simp add: walked_def)
  have reach: "set (t # ts1 @ ts2) \<subseteq> walk_reach g kids (l # ls)"
    using assms(1,4,5) by (auto simp: walked_def walk_reach_Cons)
  have new: "distinct (map t_label (t # ts1 @ ts2))"
    "set (map t_label (t # ts1 @ ts2)) \<inter> set (snd st) = {}"
    using assms(2,4,5) by (auto simp: walked_def)
  have roots: "t_label ` dep_targets g (l # ls) \<subseteq> set (snd st2)"
    using assms(1,5) seen by (auto simp: walked_def)
  have mono: "set (snd st1) \<subseteq> set (snd st2)" using walkedD(2) [OF assms(5)] by auto
  have closed: "\<forall>u\<in>set (t # ts1 @ ts2). known g u \<and> t_label ` dep_targets g (kids u) \<subseteq> set (snd st2)"
  proof
    fix u assume "u \<in> set (t # ts1 @ ts2)"
    then consider "u = t" | "u \<in> set ts1" | "u \<in> set ts2" by auto
    then show "known g u \<and> t_label ` dep_targets g (kids u) \<subseteq> set (snd st2)"
    proof cases
      case 1
      then show ?thesis using local_dep_known [OF assms(1)] walkedD(6) [OF assms(4)] mono by blast
    next
      case 2
      then show ?thesis using walkedD(7,8) [OF assms(4) 2] mono by blast
    next
      case 3
      then show ?thesis using walkedD(7,8) [OF assms(5) 3] by blast
    qed
  qed
  show ?thesis unfolding walked_def by (intro conjI vis seen reach new roots closed)
qed

lemma walked_skip:
  assumes w: "walked g visit kids ls st st' ts"
    and "case local_dep g l of None \<Rightarrow> True | Some t \<Rightarrow> t_label t \<in> set (snd st)"
  shows "walked g visit kids (l # ls) st st' ts"
proof -
  have "t_label ` dep_targets g (l # ls) \<subseteq> set (snd st')"
    using walkedD(2,6) [OF w] assms(2) by (cases "local_dep g l") auto
  moreover have "set ts \<subseteq> walk_reach g kids (l # ls)"
    using walkedD(3) [OF w] by (auto simp: walk_reach_Cons)
  ultimately show ?thesis using w unfolding walked_def by blast
qed

lemma seen_walk_walked:
  "seen_walk g visit kids f ls st = Some (Inr st') \<Longrightarrow> \<exists>ts. walked g visit kids ls st st' ts"
proof (induction g visit kids f ls st arbitrary: st' rule: seen_walk.induct)
  case (1 g visit kids f st)
  then show ?case using walked_refl [of g "[]" st visit kids] by auto
next
  case (2 g visit kids f l ls st)
  show ?case
  proof (cases "case local_dep g l of None \<Rightarrow> True | Some t \<Rightarrow> t_label t \<in> set (snd st)")
    case True
    then have "\<exists>ts. walked g visit kids ls st st' ts"
      using 2 by (cases "local_dep g l") auto
    then show ?thesis using True walked_skip [of g visit kids ls st st' _ l] by blast
  next
    case False
    then obtain t where t: "local_dep g l = Some t" "t_label t \<notin> set (snd st)"
      by (cases "local_dep g l") auto
    from 2(5) t obtain f' s st1 where f: "f = Suc f'" and s: "visit t (fst st) = Inr s"
      and kids: "seen_walk g visit kids f' (kids t) (s, snd st @ [t_label t]) = Some (Inr st1)"
      and rest: "seen_walk g visit kids f ls st1 = Some (Inr st')"
      by (auto split: nat.splits sum.splits option.splits)
    have "\<exists>ts1. walked g visit kids (kids t) (s, snd st @ [t_label t]) st1 ts1"
      using 2(3) [OF t(1) _ f s kids] t(2) by simp
    moreover have "\<exists>ts2. walked g visit kids ls st1 st' ts2"
      using 2(4) [OF t(1) _ f s kids refl rest] t(2) by simp
    ultimately show ?thesis using walked_enter [where visit = visit, OF t s] by blast
  qed
qed

text \<open>The walk from an empty list of labels visits exactly the targets it reaches, each of them once.\<close>

lemma walked_all:
  assumes "walked g visit kids ls (s, []) st' ts"
  shows "set ts = walk_reach g kids ls"
proof
  show "set ts \<subseteq> walk_reach g kids ls" using assms by (simp add: walked_def)
  have in_ts: "u \<in> set ts" if "known g u" "t_label u \<in> t_label ` set ts" for u
    using that assms known_inject [of g u] unfolding walked_def by blast
  show "walk_reach g kids ls \<subseteq> set ts"
  proof
    fix u assume "u \<in> walk_reach g kids ls"
    then obtain r where "r \<in> dep_targets g ls" "(r, u) \<in> (kid_rel g kids)\<^sup>*"
      by (auto simp: walk_reach_def)
    from this(2) show "u \<in> set ts"
    proof (induction rule: rtrancl_induct)
      case base
      show ?case
        using \<open>r \<in> dep_targets g ls\<close> assms
        by (intro in_ts dep_targets_known [of r g ls]) (auto simp: walked_def)
    next
      case (step a b)
      then have b: "b \<in> dep_targets g (kids a)" by (simp add: kid_rel_def)
      then have "t_label b \<in> t_label ` set ts"
        using walkedD(8) [OF assms step.IH] walkedD(2) [OF assms] by auto
      then show ?case using in_ts dep_targets_known [OF b] by blast
    qed
  qed
qed

lemma walk_from_visits:
  assumes "walk_from g visit kids ls s = Some (Inr s')"
  obtains ts where "distinct (map t_label ts)" "set ts = walk_reach g kids ls" "visit_all visit ts s = Inr s'"
proof -
  from assms obtain r where r: "seen_walk g visit kids (length (gr_targets g)) ls (s, []) = Some r"
    and "map_sum id fst r = Inr s'"
    by (auto simp: walk_from_def)
  then obtain st where st: "r = Inr st" "fst st = s'" by (cases r) auto
  then obtain ts where ts: "walked g visit kids ls (s, []) st ts" using seen_walk_walked r by blast
  show thesis
    using that [of ts] ts walked_all [OF ts] st by (simp add: walked_def)
qed

section \<open>The walk returns\<close>

definition unseen_labels :: "qstar_graph \<Rightarrow> string list \<Rightarrow> string set" where
  "unseen_labels g seen = t_label ` set (gr_targets g) - set seen"

lemma unseen_labels_finite [simp]: "finite (unseen_labels g seen)"
  by (simp add: unseen_labels_def)

lemma unseen_labels_start: "card (unseen_labels g []) \<le> length (gr_targets g)"
  using card_image_le [of "set (gr_targets g)" t_label] card_length [of "gr_targets g"]
  by (simp add: unseen_labels_def)

lemma unseen_labels_enter:
  assumes "local_dep g l = Some t" and "t_label t \<notin> set seen"
  shows "Suc (card (unseen_labels g (seen @ [t_label t]))) = card (unseen_labels g seen)"
proof -
  have "t_label t \<in> unseen_labels g seen"
    using known_label [OF local_dep_known [OF assms(1)]] assms(2) by (simp add: unseen_labels_def)
  moreover have "unseen_labels g (seen @ [t_label t]) = unseen_labels g seen - {t_label t}"
    by (auto simp: unseen_labels_def)
  ultimately show ?thesis using card_Suc_Diff1 [OF unseen_labels_finite] by simp
qed

lemma seen_walk_returns:
  "card (unseen_labels g (snd st)) \<le> f \<Longrightarrow> seen_walk g visit kids f ls st \<noteq> None"
proof (induction g visit kids f ls st rule: seen_walk.induct)
  case (1 g visit kids f st)
  then show ?case by simp
next
  case (2 g visit kids f l ls st)
  show ?case
  proof (cases "case local_dep g l of None \<Rightarrow> True | Some t \<Rightarrow> t_label t \<in> set (snd st)")
    case True
    then show ?thesis using 2 by (cases "local_dep g l") auto
  next
    case False
    then obtain t where t: "local_dep g l = Some t" "t_label t \<notin> set (snd st)"
      by (cases "local_dep g l") auto
    note card = unseen_labels_enter [OF t]
    then obtain f' where f: "f = Suc f'" using 2(5) by (cases f) auto
    show ?thesis
    proof (cases "visit t (fst st)")
      case (Inl e)
      then show ?thesis using t f by simp
    next
      case (Inr s)
      have kids: "seen_walk g visit kids f' (kids t) (s, snd st @ [t_label t]) \<noteq> None"
        using 2(3) [OF t(1) _ f Inr] t(2) card 2(5) f by simp
      then obtain r where r: "seen_walk g visit kids f' (kids t) (s, snd st @ [t_label t]) = Some r" by blast
      show ?thesis
      proof (cases r)
        case (Inl e)
        then show ?thesis using t f \<open>visit t (fst st) = Inr s\<close> r by simp
      next
        case (Inr st1)
        then obtain ts where "walked g visit kids (kids t) (s, snd st @ [t_label t]) st1 ts"
          using seen_walk_walked r by blast
        then have "unseen_labels g (snd st1) \<subseteq> unseen_labels g (snd st)"
          by (auto simp: walked_def unseen_labels_def)
        then have "card (unseen_labels g (snd st1)) \<le> f"
          using 2(5) card_mono [OF unseen_labels_finite] by (meson order_trans)
        then have "seen_walk g visit kids f ls st1 \<noteq> None"
          using 2(4) [OF t(1) _ f \<open>visit t (fst st) = Inr s\<close> _ Inr] r Inr t(2) by simp
        then show ?thesis using t f \<open>visit t (fst st) = Inr s\<close> r Inr by simp
      qed
    qed
  qed
qed

lemma walk_from_returns: "walk_from g visit kids ls s \<noteq> None"
  using seen_walk_returns [of g "(s, [])" "length (gr_targets g)"] unseen_labels_start [of g]
  by (simp add: walk_from_def)

end
