(* ===== verification/QLower.thy ===== *)
theory QLower
  imports QLink QTokens
begin

text \<open>
  The lowered final action of a target (\<^verbatim>\<open>src/executor.c\<close>, \<open>qstar_lower_final_action\<close>): its command in the order
  the linker or archiver is given it, its inputs, its outputs and its description, for targets the tool
  builds itself and for those whose language provider declares the final action.
\<close>

section \<open>Tools\<close>

definition resolved_tool_role_argv ::
  "qstar_graph \<Rightarrow> qstar_target \<Rightarrow> qstar_resolved_toolchain \<Rightarrow> string \<Rightarrow> string list option" where
  "resolved_tool_role_argv g t tc role =
     (if rt_toolset tc \<noteq> [] then qstar_toolset_role_argv (qstar_graph_find_toolset g (Some (rt_toolset tc))) role
      else qstar_target_tool_role_argv g t role)"

definition prepared_action_push_tool_role ::
  "qstar_graph \<Rightarrow> qstar_target \<Rightarrow> qstar_resolved_toolchain \<Rightarrow> string \<Rightarrow> cstr \<Rightarrow> qerr + string list" where
  "prepared_action_push_tool_role g t tc role fallback = (case resolved_tool_role_argv g t tc role of
      Some argv \<Rightarrow> Inr argv
    | None \<Rightarrow> if present fallback then Inr [str_or_empty fallback]
        else Inl (Plain (''qstar: tool role '' @ sq role @ '' is not configured'')))"

definition append_raw_tool_role ::
  "qstar_graph \<Rightarrow> qstar_target \<Rightarrow> qstar_resolved_toolchain \<Rightarrow> string \<Rightarrow> string \<Rightarrow> qerr + string list" where
  "append_raw_tool_role g t tc role fallback = (case resolved_tool_role_argv g t tc role of
      None \<Rightarrow> Inr [fallback] | Some argv \<Rightarrow> Inr argv)"

text \<open>The command of a provider, its tool placeholders replaced by the roles of the toolset.\<close>

definition prepared_action_push_provider_template ::
  "qstar_graph \<Rightarrow> qstar_target \<Rightarrow> qstar_resolved_toolchain \<Rightarrow> string list \<Rightarrow> qerr + string list" where
  "prepared_action_push_provider_template g t tc argv = join_args (map (\<lambda>a.
     case qstar_provider_tool_token_role (Some a) 128 of
        BadToken \<Rightarrow> Inl (Plain ''qstar: malformed provider tool placeholder'')
      | Token role \<Rightarrow> prepared_action_push_tool_role g t tc role None
      | NotToken \<Rightarrow> Inr [a]) argv)"

section \<open>Usage and link inputs\<close>

definition collected_usage ::
  "qstar_graph \<Rightarrow> qstar_target \<Rightarrow> bool \<Rightarrow> qerr + string list \<times> string list" where
  "collected_usage g t link =
     (case (if link then qstar_graph_collect_link_usage g t else qstar_graph_collect_compile_usage g t) of
        None \<Rightarrow> Inl (Plain ''qstar: out of memory'') | Some u \<Rightarrow> Inr u)"

definition prepared_action_push_dependency_usage :: "qstar_graph \<Rightarrow> qstar_target \<Rightarrow> bool \<Rightarrow> qerr + string list" where
  "prepared_action_push_dependency_usage g t link = map_sum id fst (collected_usage g t link)"

definition append_dependency_link_usage_options :: "qstar_graph \<Rightarrow> qstar_target \<Rightarrow> qerr + string list" where
  "append_dependency_link_usage_options g t = map_sum id fst (collected_usage g t True)"

definition push_link_action_input :: "host_os \<Rightarrow> qstar_graph \<Rightarrow> string \<Rightarrow> string list \<Rightarrow> qerr + string list" where
  "push_link_action_input host g item inputs = (case qstar_target_file_token_label (Some item) PATH_MAX of
      BadToken \<Rightarrow> Inl (Plain ''qstar: malformed target_file placeholder'')
    | Token label \<Rightarrow> map_sum id (push_unique inputs) (resolve_target_file_token host g (Some item) PATH_MAX)
    | NotToken \<Rightarrow> Inr (push_unique inputs item))"

definition push_link_action_inputs :: "host_os \<Rightarrow> qstar_graph \<Rightarrow> qstar_target \<Rightarrow> string list \<Rightarrow> qerr + string list" where
  "push_link_action_inputs host g t inputs = visit_all (push_link_action_input host g) (t_link_inputs t) inputs"

definition push_dependency_usage_inputs ::
  "host_os \<Rightarrow> qstar_graph \<Rightarrow> qstar_target \<Rightarrow> bool \<Rightarrow> string list \<Rightarrow> qerr + string list" where
  "push_dependency_usage_inputs host g t link inputs = (case collected_usage g t link of
      Inl e \<Rightarrow> Inl e | Inr u \<Rightarrow> visit_all (push_link_action_input host g) (snd u) inputs)"

section \<open>Libraries and run paths\<close>

definition links_nothing :: "string \<Rightarrow> bool" where
  "links_nothing kind \<longleftrightarrow> kind = ''group'' \<or> kind = ''run_target'' \<or> kind = ''objectlib'' \<or> kind = ''tool''"

text \<open>What \<open>append_dep_artifact_rec\<close> does with a target it meets first, and where it goes from there.\<close>

definition visit_dep_artifact ::
  "host_os \<Rightarrow> qstar_graph \<Rightarrow> qstar_resolved_toolchain \<Rightarrow> qstar_target \<Rightarrow> string list \<Rightarrow> qerr + string list" where
  "visit_dep_artifact host g tc t argv =
     (if links_nothing (t_kind t) \<or> t_kind t = ''interface'' then Inr argv
      else case qstar_graph_target_link_artifact_path host g t (Some (rt_platform tc)) PATH_MAX of
          Inl e \<Rightarrow> Inl e | Inr artifact \<Rightarrow> Inr (argv @ [artifact]))"

definition dep_artifact_kids :: "qstar_target \<Rightarrow> string list" where
  "dep_artifact_kids t =
     (if links_nothing (t_kind t) then []
      else if t_kind t = ''interface'' then t_deps t
      else t_deps t @ t_private_deps t)"

text \<open>The fuel always suffices, by \<open>walk_from_returns\<close>; \<open>WildRead\<close> is never the result.\<close>

definition or_wild :: "(qerr + 's) option \<Rightarrow> qerr + 's" where
  "or_wild r = (case r of None \<Rightarrow> Inl WildRead | Some r' \<Rightarrow> r')"

definition append_dep_artifacts ::
  "host_os \<Rightarrow> qstar_graph \<Rightarrow> qstar_target \<Rightarrow> qstar_resolved_toolchain \<Rightarrow> qerr + string list" where
  "append_dep_artifacts host g t tc =
     or_wild (walk_from g (visit_dep_artifact host g tc) dep_artifact_kids (t_deps t @ t_private_deps t) [])"

text \<open>The run path flag of a shared library; \<open>rpath\<close> is cut at the size of its buffer.\<close>

definition sharedlib_rpath_flag ::
  "host_os \<Rightarrow> qstar_graph \<Rightarrow> string \<Rightarrow> qstar_resolved_toolchain \<Rightarrow> qstar_target \<Rightarrow> qerr + string" where
  "sharedlib_rpath_flag host g consumer_dir tc t =
     (let too_long = Inl (Plain ''qstar: sharedlib runtime path is too long'');
          base = (if qstar_platform_is_darwin host (Some (rt_platform tc)) then ''@loader_path'' else ''$ORIGIN'')
      in case qstar_graph_artifact_output_path host g t PATH_MAX of
          Inl e \<Rightarrow> Inl e
        | Inr artifact \<Rightarrow> (case qstar_dirname artifact PATH_MAX of
              None \<Rightarrow> too_long
            | Some dep_dir \<Rightarrow> (case qstar_path_relative_between_dirs (Some consumer_dir) (Some dep_dir) PATH_MAX of
                  None \<Rightarrow> too_long
                | Some rel \<Rightarrow>
                    let rpath = (if rel = ''.'' then base else trunc_buf PATH_MAX (base @ ''/'' @ rel))
                    in case put PATH_MAX (''-Wl,-rpath,'' @ rpath) of None \<Rightarrow> too_long | Some flag \<Rightarrow> Inr flag)))"

definition visit_sharedlib_rpath ::
  "host_os \<Rightarrow> qstar_graph \<Rightarrow> string \<Rightarrow> qstar_resolved_toolchain \<Rightarrow> qstar_target \<Rightarrow> string list \<Rightarrow> qerr + string list" where
  "visit_sharedlib_rpath host g consumer_dir tc t rpaths =
     (if t_kind t \<noteq> ''sharedlib'' then Inr rpaths
      else map_sum id (push_unique rpaths) (sharedlib_rpath_flag host g consumer_dir tc t))"

definition rpath_kids :: "qstar_target \<Rightarrow> string list" where
  "rpath_kids t = t_deps t @ t_private_deps t"

definition append_sharedlib_runtime_rpaths ::
  "host_os \<Rightarrow> qstar_graph \<Rightarrow> qstar_target \<Rightarrow> qstar_resolved_toolchain \<Rightarrow> string \<Rightarrow> qerr + string list" where
  "append_sharedlib_runtime_rpaths host g t tc artifact =
     (if t_kind t = ''staticlib'' \<or> \<not> qstar_platform_supports_sharedlib host (Some (rt_platform tc)) \<or>
         qstar_platform_is_windows host (Some (rt_platform tc)) then Inr []
      else case qstar_dirname artifact PATH_MAX of
          None \<Rightarrow> Inl (Plain ''qstar: artifact directory path too long'')
        | Some consumer_dir \<Rightarrow>
            or_wild (walk_from g (visit_sharedlib_rpath host g consumer_dir tc) rpath_kids (t_deps t @ t_private_deps t) []))"

section \<open>Flags\<close>

definition artifact_basename :: "string \<Rightarrow> string" where
  "artifact_basename path = (case strrchr CHR ''/'' path of None \<Rightarrow> path | Some (dir, base) \<Rightarrow> base)"

definition append_sharedlib_link_flags ::
  "host_os \<Rightarrow> qstar_graph \<Rightarrow> qstar_target \<Rightarrow> qstar_resolved_toolchain \<Rightarrow> string \<Rightarrow> qerr + string list" where
  "append_sharedlib_link_flags host g t tc artifact =
     (if t_kind t \<noteq> ''sharedlib'' then Inr []
      else case validate_sharedlib_platform host t tc of
          Inl e \<Rightarrow> Inl e
        | Inr _ \<Rightarrow>
            if qstar_platform_is_darwin host (Some (rt_platform tc)) then
              Inr [''-dynamiclib'', ''-install_name'', trunc_buf PATH_MAX (''@rpath/'' @ artifact_basename artifact)]
            else if qstar_platform_is_windows host (Some (rt_platform tc)) then
              (case qstar_graph_target_artifact_path host g t (Some ''import_lib'') PATH_MAX of
                 Inl e \<Rightarrow> Inl e
               | Inr import_lib \<Rightarrow>
                   let too_long = Inl (Plain ''qstar: import library path is too long'') in
                   if rt_link_style tc = ''msvc'' then
                     (case put PATH_MAX (''/IMPLIB:'' @ import_lib) of
                        None \<Rightarrow> too_long | Some flag \<Rightarrow> Inr [''/DLL'', flag])
                   else (case put PATH_MAX (''-Wl,--out-implib,'' @ import_lib) of
                        None \<Rightarrow> too_long | Some flag \<Rightarrow> Inr [''-shared'', flag]))
            else Inr [''-shared'', trunc_buf PATH_MAX (''-Wl,-soname,'' @ artifact_basename artifact)])"

definition target_compile_needs_pic :: "host_os \<Rightarrow> qstar_target \<Rightarrow> qstar_resolved_toolchain \<Rightarrow> bool \<Rightarrow> bool" where
  "target_compile_needs_pic host t tc is_asm \<longleftrightarrow> t_kind t = ''sharedlib'' \<and>
     qstar_platform_supports_sharedlib host (Some (rt_platform tc)) \<and>
     \<not> qstar_platform_is_windows host (Some (rt_platform tc)) \<and> \<not> is_asm"

definition link_driver :: "qstar_target \<Rightarrow> qstar_resolved_toolchain \<Rightarrow> string" where
  "link_driver t tc = (if qstar_target_has_compile_provider t ''cxx'' then rt_cxx tc else rt_linker tc)"

definition toolchain_needs_msvc_link_boundary :: "qstar_resolved_toolchain \<Rightarrow> qstar_target \<Rightarrow> bool" where
  "toolchain_needs_msvc_link_boundary tc t \<longleftrightarrow> rt_link_style tc = ''msvc'' \<and>
     (strstr ''clang-cl'' (link_driver t tc) \<noteq> None \<or> strstr ''cl.exe'' (link_driver t tc) \<noteq> None)"

definition toolchain_uses_msvc_out_arg :: "qstar_resolved_toolchain \<Rightarrow> qstar_target \<Rightarrow> bool" where
  "toolchain_uses_msvc_out_arg tc t \<longleftrightarrow>
     strstr ''lld-link'' (link_driver t tc) \<noteq> None \<or> strstr ''link.exe'' (link_driver t tc) \<noteq> None"

definition append_link_policy_flags :: "qstar_target \<Rightarrow> qerr + string list" where
  "append_link_policy_flags t = Inr (t_link_options t)"

definition append_system_link_flags ::
  "host_os \<Rightarrow> qstar_target \<Rightarrow> qstar_resolved_toolchain \<Rightarrow> qerr + string list" where
  "append_system_link_flags host t tc =
     (let msvc = (rt_link_style tc = ''msvc'');
          dirs = map (\<lambda>d. trunc_buf PATH_MAX ((if msvc then ''/LIBPATH:'' else ''-L'') @ d)) (t_lib_dirs t);
          libs = map (\<lambda>l. trunc_buf PATH_MAX (if msvc then l @ ''.lib'' else ''-l'' @ l)) (t_libs t)
      in if t_frameworks t \<noteq> [] \<and> \<not> qstar_platform_is_darwin host (Some (rt_platform tc)) then
           Inl (target_err t ''link.frameworks'' ''qstar: link.frameworks is supported only for Darwin-like targets'')
         else Inr (dirs @ libs @ concat (map (\<lambda>f. [''-framework'', f]) (t_frameworks t))))"

section \<open>The final action\<close>

text \<open>\<open>struct qstar_lowered_action\<close>, less the pointers to its target and toolchain.\<close>

record lowered_action =
  la_id :: string
  la_kind :: string
  la_depfile :: string
  la_description :: string
  la_argv :: "string list"
  la_inputs :: "string list"
  la_outputs :: "string list"
  la_env :: "string list"
  la_wants_depfile :: bool

text \<open>A provider of the first interface leaves the usage of dependencies to the tool, except for archives.\<close>

definition provider_takes_usage :: "qstar_target \<Rightarrow> bool" where
  "provider_takes_usage t \<longleftrightarrow> pf_api (t_provider_final t) \<noteq> Some ''qstar.lang/2'' \<and> t_kind t \<noteq> ''staticlib''"

definition final_action_id :: "qstar_target \<Rightarrow> string" where
  "final_action_id t = trunc_buf PATH_MAX (t_label t @ '':'' @ qstar_target_final_action t @ '':0'')"

text \<open>\<open>Inr None\<close>: the target has no provider final action.\<close>

definition lower_provider_final_action ::
  "host_os \<Rightarrow> qstar_graph \<Rightarrow> qstar_target \<Rightarrow> qstar_resolved_toolchain \<Rightarrow> qerr + lowered_action option" where
  "lower_provider_final_action host g t tc =
     (let tmpl = pf_action (t_provider_final t); final_action = qstar_target_final_action t;
          first_output = (case pa_outputs tmpl of [] \<Rightarrow> ''<provider-output>'' | x # _ \<Rightarrow> x)
      in if \<not> qstar_target_has_provider_final_action (Some t) then Inr None
         else if pa_argv tmpl = [] then
           Inl (Plain (''qstar: provider final action for '' @ sq (t_label t) @ '' has no lowered command''))
         else (case qstar_action_description_final t (Some final_action) (Some first_output) PATH_MAX of
            None \<Rightarrow> Inl (Plain ''qstar: provider final action description too long'')
          | Some description \<Rightarrow>
              (case join_args [prepared_action_push_provider_template g t tc (pa_argv tmpl),
                  if provider_takes_usage t then prepared_action_push_dependency_usage g t True else Inr []] of
                 Inl e \<Rightarrow> Inl e
               | Inr argv \<Rightarrow>
                   (case (if provider_takes_usage t then push_dependency_usage_inputs host g t True (pa_inputs tmpl)
                          else Inr (pa_inputs tmpl)) of
                      Inl e \<Rightarrow> Inl e
                    | Inr inputs \<Rightarrow> Inr (Some \<lparr>la_id = final_action_id t, la_kind = trunc_buf 32 final_action,
                        la_depfile = trunc_buf PATH_MAX (str_or_empty (pa_depfile tmpl)),
                        la_description = description, la_argv = argv, la_inputs = inputs,
                        la_outputs = pa_outputs tmpl, la_env = pa_env tmpl,
                        la_wants_depfile = pa_wants_depfile tmpl\<rparr>)))))"

text \<open>
  The command up to the objects, and from the libraries on. The message of an output option that does not fit is
  empty: \<open>qstar_lower_final_action\<close> fails there without setting one.
\<close>

definition final_command_head ::
  "host_os \<Rightarrow> qstar_graph \<Rightarrow> qstar_target \<Rightarrow> qstar_resolved_toolchain \<Rightarrow> string \<Rightarrow> qerr + string list" where
  "final_command_head host g t tc artifact = join_args
     [if t_kind t = ''staticlib'' then
        join_args [append_raw_tool_role g t tc ''archive'' (rt_ar tc), Inr [''rcs'', artifact]]
      else (case validate_sharedlib_platform host t tc of
          Inl e \<Rightarrow> Inl e
        | Inr _ \<Rightarrow> join_args
            [append_raw_tool_role g t tc ''link'' (link_driver t tc),
             if toolchain_uses_msvc_out_arg tc t then
               (case put PATH_MAX (''/out:'' @ artifact) of None \<Rightarrow> Inl (Plain []) | Some out_arg \<Rightarrow> Inr [out_arg])
             else Inr [''-o'', artifact]]),
      append_sharedlib_link_flags host g t tc artifact,
      if t_kind t = ''staticlib'' then Inr [] else append_dependency_link_usage_options g t,
      if t_kind t = ''staticlib'' then Inr [] else append_link_policy_flags t]"

definition final_command_tail ::
  "host_os \<Rightarrow> qstar_graph \<Rightarrow> qstar_target \<Rightarrow> qstar_resolved_toolchain \<Rightarrow> string \<Rightarrow> qerr + string list" where
  "final_command_tail host g t tc artifact = join_args
     [if t_kind t = ''staticlib'' then Inr [] else append_dep_artifacts host g t tc,
      append_sharedlib_runtime_rpaths host g t tc artifact,
      if t_kind t \<noteq> ''staticlib'' \<and> toolchain_needs_msvc_link_boundary tc t then Inr [''/link''] else Inr [],
      if t_kind t = ''staticlib'' then Inr [] else append_system_link_flags host t tc]"

text \<open>The inputs: the objects, everything the command has after them, then the declared inputs of the link.\<close>

definition final_inputs ::
  "host_os \<Rightarrow> qstar_graph \<Rightarrow> qstar_target \<Rightarrow> string list \<Rightarrow> qerr + string list" where
  "final_inputs host g t tail = (case own_objects g t of
      Inl e \<Rightarrow> Inl e
    | Inr own \<Rightarrow> (case append_objectlib_inputs g t own of
          Inl e \<Rightarrow> Inl e
        | Inr objects \<Rightarrow> (case push_link_action_inputs host g t (objects @ tail) of
              Inl e \<Rightarrow> Inl e
            | Inr inputs \<Rightarrow> if t_kind t = ''staticlib'' then Inr inputs
                else push_dependency_usage_inputs host g t True inputs)))"

definition lower_native_final_action ::
  "host_os \<Rightarrow> qstar_graph \<Rightarrow> qstar_target \<Rightarrow> qstar_resolved_toolchain \<Rightarrow> string \<Rightarrow> qerr + lowered_action" where
  "lower_native_final_action host g t tc artifact =
     (case join_args [final_command_head host g t tc artifact, own_objects g t, append_objectlib_objects g t] of
        Inl e \<Rightarrow> Inl e
      | Inr front \<Rightarrow> (case final_command_tail host g t tc artifact of
          Inl e \<Rightarrow> Inl e
        | Inr tail \<Rightarrow> (case final_inputs host g t tail of
            Inl e \<Rightarrow> Inl e
          | Inr inputs \<Rightarrow> (case qstar_graph_target_artifact_outputs host g t of
              Inl e \<Rightarrow> Inl e
            | Inr outputs \<Rightarrow>
                (case qstar_action_description_final t (Some (qstar_target_final_action t)) (Some artifact) PATH_MAX of
                   None \<Rightarrow> Inl (Plain ''qstar: final action description too long'')
                 | Some description \<Rightarrow> Inr \<lparr>la_id = final_action_id t,
                     la_kind = trunc_buf 32 (qstar_target_final_action t), la_depfile = [],
                     la_description = description, la_argv = front @ tail, la_inputs = inputs,
                     la_outputs = outputs, la_env = [], la_wants_depfile = False\<rparr>)))))"

definition qstar_lower_final_action ::
  "host_os \<Rightarrow> qstar_graph \<Rightarrow> qstar_target \<Rightarrow> qstar_resolved_toolchain \<Rightarrow> qerr + lowered_action" where
  "qstar_lower_final_action host g t tc = (case lower_provider_final_action host g t tc of
      Inl e \<Rightarrow> Inl e
    | Inr (Some action) \<Rightarrow> Inr action
    | Inr None \<Rightarrow>
        if (case qstar_target_rule_lookup (t_kind t) of None \<Rightarrow> True | Some r \<Rightarrow> \<not> ru_local_executor_supported r) then
          Inl (target_err t ''kind'' (''qstar: local executor does not support target kind '' @ sq (t_kind t)))
        else (case qstar_graph_artifact_output_path host g t PATH_MAX of
            Inl e \<Rightarrow> Inl e
          | Inr artifact \<Rightarrow> lower_native_final_action host g t tc artifact))"

section \<open>What the walks add\<close>

definition link_closure :: "qstar_graph \<Rightarrow> qstar_target \<Rightarrow> qstar_target set" where
  "link_closure g t = walk_reach g dep_artifact_kids (t_deps t @ t_private_deps t)"

definition links_artifact :: "qstar_target \<Rightarrow> bool" where
  "links_artifact t \<longleftrightarrow> \<not> links_nothing (t_kind t) \<and> t_kind t \<noteq> ''interface''"

definition link_artifact :: "host_os \<Rightarrow> qstar_graph \<Rightarrow> qstar_resolved_toolchain \<Rightarrow> qstar_target \<Rightarrow> qerr + string" where
  "link_artifact host g tc t = qstar_graph_target_link_artifact_path host g t (Some (rt_platform tc)) PATH_MAX"

lemma visit_dep_artifact_alt: "visit_dep_artifact host g tc t argv =
    (if links_artifact t then map_sum id (\<lambda>p. argv @ [p]) (link_artifact host g tc t) else Inr argv)"
  by (auto simp: visit_dep_artifact_def links_artifact_def link_artifact_def split: sum.splits)

lemma visit_dep_artifacts: "visit_all (visit_dep_artifact host g tc) ts argv = Inr argv' \<Longrightarrow>
    \<exists>paths. list_all2 (\<lambda>u p. link_artifact host g tc u = Inr p) (filter links_artifact ts) paths \<and> argv' = argv @ paths"
proof (induction ts arbitrary: argv)
  case Nil
  then show ?case by simp
next
  case (Cons u us)
  show ?case
  proof (cases "links_artifact u")
    case False
    then show ?thesis using Cons.IH [of argv] Cons.prems by (simp add: visit_dep_artifact_alt [of host g tc u])
  next
    case True
    then obtain p where p: "link_artifact host g tc u = Inr p"
      and "visit_all (visit_dep_artifact host g tc) us (argv @ [p]) = Inr argv'"
      using Cons.prems by (cases "link_artifact host g tc u") (auto simp: visit_dep_artifact_alt [of host g tc u])
    from Cons.IH [OF this(2)] show ?thesis using True p by auto
  qed
qed

lemma dep_artifacts_walk:
  assumes "append_dep_artifacts host g t tc = Inr argv"
  obtains ts where "distinct (map t_label ts)" "set ts = link_closure g t"
    "list_all2 (\<lambda>u p. link_artifact host g tc u = Inr p) (filter links_artifact ts) argv"
proof -
  have "walk_from g (visit_dep_artifact host g tc) dep_artifact_kids (t_deps t @ t_private_deps t) [] = Some (Inr argv)"
    using assms by (simp add: append_dep_artifacts_def or_wild_def split: option.splits)
  then obtain ts where ts: "distinct (map t_label ts)"
    "set ts = walk_reach g dep_artifact_kids (t_deps t @ t_private_deps t)"
    "visit_all (visit_dep_artifact host g tc) ts [] = Inr argv"
    by (rule walk_from_visits)
  show thesis
    using that [of ts] ts visit_dep_artifacts [OF ts(3)] by (auto simp: link_closure_def)
qed

lemma pushed_input: "push_link_action_input host g item inputs = Inr inputs' \<Longrightarrow> \<exists>p. inputs' = push_unique inputs p"
  by (cases "resolve_target_file_token host g (Some item) PATH_MAX")
    (auto simp: push_link_action_input_def split: token.splits)

lemma pushed_inputs_keep:
  "visit_all (push_link_action_input host g) items inputs = Inr inputs' \<Longrightarrow> \<exists>more. inputs' = inputs @ more"
proof (induction items arbitrary: inputs)
  case (Cons i items)
  then obtain mid where mid: "push_link_action_input host g i inputs = Inr mid"
    and rest: "visit_all (push_link_action_input host g) items mid = Inr inputs'"
    by (auto split: sum.splits)
  obtain p where "mid = push_unique inputs p" using pushed_input [OF mid] by blast
  with Cons.IH [OF rest] show ?case by (auto simp: push_unique_def split: if_splits)
qed simp

lemma usage_inputs_keep: "push_dependency_usage_inputs host g t link inputs = Inr inputs' \<Longrightarrow> \<exists>more. inputs' = inputs @ more"
  unfolding push_dependency_usage_inputs_def using pushed_inputs_keep by (fastforce split: sum.splits)

text \<open>The parts of a lowered command: what it reads comes after its head, and is the front of its inputs.\<close>

lemma lower_native_parts:
  assumes "lower_native_final_action host g t tc artifact = Inr a"
  obtains head own libs tail more where "final_command_head host g t tc artifact = Inr head"
    and "own_objects g t = Inr own" and "append_objectlib_objects g t = Inr libs"
    and "final_command_tail host g t tc artifact = Inr tail"
    and "la_argv a = head @ own @ libs @ tail" and "la_inputs a = own @ libs @ tail @ more"
    and "qstar_graph_target_artifact_outputs host g t = Inr (la_outputs a)"
proof -
  from assms obtain front tail inputs where
    front: "join_args [final_command_head host g t tc artifact, own_objects g t, append_objectlib_objects g t] = Inr front"
    and tail: "final_command_tail host g t tc artifact = Inr tail"
    and inputs: "final_inputs host g t tail = Inr inputs"
    and out: "qstar_graph_target_artifact_outputs host g t = Inr (la_outputs a)"
    and a: "la_argv a = front @ tail" "la_inputs a = inputs"
    unfolding lower_native_final_action_def by (auto split: sum.splits option.splits)
  from front obtain head own libs where parts: "final_command_head host g t tc artifact = Inr head"
    "own_objects g t = Inr own" "append_objectlib_objects g t = Inr libs" "front = head @ own @ libs"
    unfolding join_args_Cons by auto
  from inputs parts(2,3) obtain mid where
    mid: "push_link_action_inputs host g t ((own @ libs) @ tail) = Inr mid"
    and rest: "(if t_kind t = ''staticlib'' then Inr mid else push_dependency_usage_inputs host g t True mid) = Inr inputs"
    by (auto simp: final_inputs_def append_objectlib_inputs_def split: sum.splits)
  obtain m1 where m1: "mid = ((own @ libs) @ tail) @ m1"
    using pushed_inputs_keep mid unfolding push_link_action_inputs_def by blast
  have "\<exists>m2. inputs = mid @ m2"
    using rest usage_inputs_keep by (auto split: if_splits)
  then show thesis using that parts tail a m1 out by auto
qed

end
