(* ===== verification/QLowerProps.thy ===== *)
theory QLowerProps
  imports QLower
begin

text \<open>
  Properties of lowered final actions: which libraries the linker is given and that it reads nothing its action
  does not list, that archives hold objects only, and that linked shared libraries are found at run time.
\<close>

section \<open>The libraries of a link\<close>

text \<open>
  Said without the walk: the dependencies of the target, the public dependencies of a library met on the way, and
  the private ones of a library that is no interface; nothing is reached through groups, run targets, object libraries
  and tools.
\<close>

inductive_set linked_targets :: "qstar_graph \<Rightarrow> qstar_target \<Rightarrow> qstar_target set"
  for g :: qstar_graph and t :: qstar_target where
  linked_direct: "l \<in> set (t_deps t @ t_private_deps t) \<Longrightarrow> local_dep g l = Some u \<Longrightarrow> u \<in> linked_targets g t"
| linked_public: "v \<in> linked_targets g t \<Longrightarrow> \<not> t_kind v \<in> {''group'', ''run_target'', ''objectlib'', ''tool''} \<Longrightarrow>
    l \<in> set (t_deps v) \<Longrightarrow> local_dep g l = Some u \<Longrightarrow> u \<in> linked_targets g t"
| linked_private: "v \<in> linked_targets g t \<Longrightarrow>
    \<not> t_kind v \<in> {''group'', ''run_target'', ''objectlib'', ''tool'', ''interface''} \<Longrightarrow>
    l \<in> set (t_private_deps v) \<Longrightarrow> local_dep g l = Some u \<Longrightarrow> u \<in> linked_targets g t"

lemma dep_targets_iff: "u \<in> dep_targets g ls \<longleftrightarrow> (\<exists>l\<in>set ls. local_dep g l = Some u)"
  by (simp add: dep_targets_def)

lemma kids_step: "(v, u) \<in> kid_rel g dep_artifact_kids \<longleftrightarrow>
    \<not> links_nothing (t_kind v) \<and> (u \<in> dep_targets g (t_deps v) \<or> t_kind v \<noteq> ''interface'' \<and> u \<in> dep_targets g (t_private_deps v))"
  by (auto simp: kid_rel_def dep_artifact_kids_def dep_targets_iff)

lemma linked_targets_step:
  assumes "v \<in> linked_targets g t" and "(v, u) \<in> kid_rel g dep_artifact_kids"
  shows "u \<in> linked_targets g t"
  using assms linked_public [OF assms(1)] linked_private [OF assms(1)]
  by (auto simp: kids_step links_nothing_def dep_targets_iff)

lemma linked_targets_closure: "linked_targets g t = link_closure g t"
proof
  show "linked_targets g t \<subseteq> link_closure g t"
  proof
    fix u assume "u \<in> linked_targets g t"
    then show "u \<in> link_closure g t"
    proof (induction rule: linked_targets.induct)
      case (linked_direct l u)
      then have "u \<in> dep_targets g (t_deps t @ t_private_deps t)" by (auto simp: dep_targets_iff)
      then show ?case by (auto simp: link_closure_def walk_reach_def)
    next
      case (linked_public v l u)
      then have "(v, u) \<in> kid_rel g dep_artifact_kids"
        by (auto simp: kids_step links_nothing_def dep_targets_iff)
      then show ?case using linked_public(5)
        by (auto simp: link_closure_def walk_reach_def intro: rtrancl_into_rtrancl)
    next
      case (linked_private v l u)
      then have "(v, u) \<in> kid_rel g dep_artifact_kids"
        by (auto simp: kids_step links_nothing_def dep_targets_iff)
      then show ?case using linked_private(5)
        by (auto simp: link_closure_def walk_reach_def intro: rtrancl_into_rtrancl)
    qed
  qed
  show "link_closure g t \<subseteq> linked_targets g t"
  proof
    fix u assume "u \<in> link_closure g t"
    then obtain r where "r \<in> dep_targets g (t_deps t @ t_private_deps t)" "(r, u) \<in> (kid_rel g dep_artifact_kids)\<^sup>*"
      by (auto simp: link_closure_def walk_reach_def)
    from this(2) show "u \<in> linked_targets g t"
    proof (induction rule: rtrancl_induct)
      case base
      then show ?case
        using \<open>r \<in> dep_targets g (t_deps t @ t_private_deps t)\<close> linked_direct by (auto simp: dep_targets_iff)
    next
      case (step v u)
      then show ?case by (blast intro: linked_targets_step)
    qed
  qed
qed

lemma lower_native:
  assumes "qstar_lower_final_action host g t tc = Inr a" and "\<not> pf_present (t_provider_final t)"
  obtains artifact where "qstar_graph_artifact_output_path host g t PATH_MAX = Inr artifact"
    and "lower_native_final_action host g t tc artifact = Inr a"
  using assms by (auto simp: qstar_lower_final_action_def lower_provider_final_action_def
      qstar_target_has_provider_final_action_def split: if_splits sum.splits)

lemma final_tail_parts:
  assumes "final_command_tail host g t tc artifact = Inr tail" and "t_kind t \<noteq> ''staticlib''"
  obtains paths rpaths rest where "append_dep_artifacts host g t tc = Inr paths"
    and "append_sharedlib_runtime_rpaths host g t tc artifact = Inr rpaths" and "tail = paths @ rpaths @ rest"
  using assms unfolding final_command_tail_def join_args_Cons by auto

definition link_output :: "qstar_resolved_toolchain \<Rightarrow> qstar_target \<Rightarrow> string \<Rightarrow> string list" where
  "link_output tc t artifact = (if toolchain_uses_msvc_out_arg tc t then [''/out:'' @ artifact] else [''-o'', artifact])"

lemma final_head_exact:
  assumes "final_command_head host g t tc artifact = Inr head" and "t_kind t \<noteq> ''staticlib''"
  obtains driver flags usage used_inputs where "append_raw_tool_role g t tc ''link'' (link_driver t tc) = Inr driver"
    and "append_sharedlib_link_flags host g t tc artifact = Inr flags"
    and "collected_usage g t True = Inr (usage, used_inputs)"
    and "head = driver @ link_output tc t artifact @ flags @ usage @ t_link_options t"
proof -
  obtain front flags usage where f: "(case validate_sharedlib_platform host t tc of Inl e \<Rightarrow> Inl e
      | Inr _ \<Rightarrow> join_args [append_raw_tool_role g t tc ''link'' (link_driver t tc),
          if toolchain_uses_msvc_out_arg tc t then
            (case put PATH_MAX (''/out:'' @ artifact) of None \<Rightarrow> Inl (Plain []) | Some out_arg \<Rightarrow> Inr [out_arg])
          else Inr [''-o'', artifact]]) = Inr front"
    "append_sharedlib_link_flags host g t tc artifact = Inr flags" "append_dependency_link_usage_options g t = Inr usage"
    "head = front @ flags @ usage @ t_link_options t"
    using assms unfolding final_command_head_def join_args_Cons by (auto simp: append_link_policy_flags_def)
  obtain driver where "append_raw_tool_role g t tc ''link'' (link_driver t tc) = Inr driver"
    "front = driver @ link_output tc t artifact"
    using f(1) by (auto simp: link_output_def put_def split: sum.splits if_splits)
  moreover obtain used_inputs where "collected_usage g t True = Inr (usage, used_inputs)"
    using f(3) by (cases "collected_usage g t True") (auto simp: append_dependency_link_usage_options_def)
  ultimately show thesis using that f by simp
qed

definition link_boundary :: "qstar_resolved_toolchain \<Rightarrow> qstar_target \<Rightarrow> string list" where
  "link_boundary tc t = (if toolchain_needs_msvc_link_boundary tc t then [''/link''] else [])"

lemma final_tail_exact:
  assumes "final_command_tail host g t tc artifact = Inr tail" and "t_kind t \<noteq> ''staticlib''"
  obtains paths rpaths system where "append_dep_artifacts host g t tc = Inr paths"
    and "append_sharedlib_runtime_rpaths host g t tc artifact = Inr rpaths"
    and "append_system_link_flags host t tc = Inr system" and "tail = paths @ rpaths @ link_boundary tc t @ system"
  using assms unfolding final_command_tail_def join_args_Cons by (auto simp: link_boundary_def split: if_splits)

lemma final_inputs_exact:
  assumes "final_inputs host g t tail = Inr inputs" and "t_kind t \<noteq> ''staticlib''" and "own_objects g t = Inr own"
    and "append_objectlib_objects g t = Inr libs" and "collected_usage g t True = Inr (usage, used_inputs)"
  shows "visit_all (push_link_action_input host g) (t_link_inputs t @ used_inputs) (own @ libs @ tail) = Inr inputs"
  using assms by (auto simp: final_inputs_def append_objectlib_inputs_def push_link_action_inputs_def
      push_dependency_usage_inputs_def visit_all_append split: sum.splits)

lemma rpaths_are_flags:
  assumes "append_sharedlib_runtime_rpaths host g t tc artifact = Inr rpaths"
  shows "list_all (starts_with ''-Wl,-rpath,'') rpaths"
proof -
  have one: "starts_with ''-Wl,-rpath,'' flag" if "sharedlib_rpath_flag host g dir tc u = Inr flag" for dir u flag
    using that by (auto simp: sharedlib_rpath_flag_def Let_def put_def starts_with_def split: sum.splits option.splits if_splits)
  have all: "visit_all (visit_sharedlib_rpath host g dir tc) ts flags = Inr flags' \<Longrightarrow>
      list_all (starts_with ''-Wl,-rpath,'') flags \<Longrightarrow> list_all (starts_with ''-Wl,-rpath,'') flags'" for dir ts flags flags'
  proof (induction ts arbitrary: flags)
    case (Cons u us)
    then obtain mid where mid: "visit_sharedlib_rpath host g dir tc u flags = Inr mid"
      and rest: "visit_all (visit_sharedlib_rpath host g dir tc) us mid = Inr flags'"
      by (auto split: sum.splits)
    have "list_all (starts_with ''-Wl,-rpath,'') mid"
      using mid Cons.prems(2) one [of dir u] by (cases "sharedlib_rpath_flag host g dir tc u")
        (auto simp: visit_sharedlib_rpath_def push_unique_def list_all_iff split: if_splits)
    then show ?case by (rule Cons.IH [OF rest])
  qed simp
  show ?thesis
  proof (cases "rpaths = []")
    case False
    then obtain dir where "walk_from g (visit_sharedlib_rpath host g dir tc) rpath_kids (t_deps t @ t_private_deps t) [] = Some (Inr rpaths)"
      using assms by (auto simp: append_sharedlib_runtime_rpaths_def or_wild_def split: option.splits if_splits)
    then obtain ts where "visit_all (visit_sharedlib_rpath host g dir tc) ts [] = Inr rpaths" by (rule walk_from_visits)
    then show ?thesis by (rule all) simp
  qed simp
qed

text \<open>
  C20: The command of a linked target, from its first argument to its last: the linker, the output, the flags of a shared library,
  the options its dependencies hand on and its own, its objects and those of its object libraries, the
  artifact of every target of its link closure once, leaving out groups, run targets, object libraries, tools and interfaces,
  and after them only run path flags, the \<open>/link\<close> some compilers need and the target's system libraries. Its inputs are everything
  from the objects on, and then the declared inputs of its own link and of those of its dependencies.
\<close>

theorem link_command_exact:
  assumes "qstar_lower_final_action host g t tc = Inr a" and "\<not> pf_present (t_provider_final t)"
    and "t_kind t \<noteq> ''staticlib''"
  shows "\<exists>artifact driver flags usage used_inputs own libs ts paths rpaths system.
    qstar_graph_artifact_output_path host g t PATH_MAX = Inr artifact
    \<and> append_raw_tool_role g t tc ''link'' (link_driver t tc) = Inr driver
    \<and> append_sharedlib_link_flags host g t tc artifact = Inr flags
    \<and> collected_usage g t True = Inr (usage, used_inputs)
    \<and> own_objects g t = Inr own \<and> append_objectlib_objects g t = Inr libs
    \<and> set ts = linked_targets g t \<and> distinct (map t_label ts)
    \<and> list_all2 (\<lambda>u p. qstar_graph_target_link_artifact_path host g u (Some (rt_platform tc)) PATH_MAX = Inr p)
        (filter (\<lambda>u. t_kind u \<notin> {''group'', ''run_target'', ''objectlib'', ''tool'', ''interface''}) ts) paths
    \<and> append_sharedlib_runtime_rpaths host g t tc artifact = Inr rpaths \<and> list_all (starts_with ''-Wl,-rpath,'') rpaths
    \<and> append_system_link_flags host t tc = Inr system
    \<and> la_argv a = driver @ link_output tc t artifact @ flags @ usage @ t_link_options t @ own @ libs
        @ paths @ rpaths @ link_boundary tc t @ system
    \<and> visit_all (push_link_action_input host g) (t_link_inputs t @ used_inputs)
        (own @ libs @ paths @ rpaths @ link_boundary tc t @ system) = Inr (la_inputs a)"
proof -
  obtain artifact where art: "qstar_graph_artifact_output_path host g t PATH_MAX = Inr artifact"
    and native: "lower_native_final_action host g t tc artifact = Inr a"
    using lower_native [OF assms(1,2)] by blast
  obtain head own libs tail more where parts: "own_objects g t = Inr own" "append_objectlib_objects g t = Inr libs"
    "la_argv a = head @ own @ libs @ tail" and head: "final_command_head host g t tc artifact = Inr head"
    and tail: "final_command_tail host g t tc artifact = Inr tail"
    using lower_native_parts [OF native] by metis
  have inputs: "final_inputs host g t tail = Inr (la_inputs a)"
    using native tail unfolding lower_native_final_action_def by (auto split: sum.splits option.splits)
  obtain driver flags usage used_inputs where h: "append_raw_tool_role g t tc ''link'' (link_driver t tc) = Inr driver"
    "append_sharedlib_link_flags host g t tc artifact = Inr flags" "collected_usage g t True = Inr (usage, used_inputs)"
    "head = driver @ link_output tc t artifact @ flags @ usage @ t_link_options t"
    using final_head_exact [OF head assms(3)] by metis
  obtain paths rpaths system where l: "append_dep_artifacts host g t tc = Inr paths"
    "append_sharedlib_runtime_rpaths host g t tc artifact = Inr rpaths" "append_system_link_flags host t tc = Inr system"
    "tail = paths @ rpaths @ link_boundary tc t @ system"
    using final_tail_exact [OF tail assms(3)] by metis
  obtain ts where ts: "distinct (map t_label ts)" "set ts = linked_targets g t"
    and all: "list_all2 (\<lambda>u p. link_artifact host g tc u = Inr p) (filter links_artifact ts) paths"
    using dep_artifacts_walk [OF l(1)] by (metis linked_targets_closure)
  have kinds: "links_artifact = (\<lambda>u. t_kind u \<notin> {''group'', ''run_target'', ''objectlib'', ''tool'', ''interface''})"
    by (intro ext) (auto simp: links_artifact_def links_nothing_def)
  have ins: "visit_all (push_link_action_input host g) (t_link_inputs t @ used_inputs)
      (own @ libs @ paths @ rpaths @ link_boundary tc t @ system) = Inr (la_inputs a)"
    using final_inputs_exact [OF inputs assms(3) parts(1,2) h(3)] l(4) by simp
  have argv: "la_argv a = driver @ link_output tc t artifact @ flags @ usage @ t_link_options t @ own @ libs
      @ paths @ rpaths @ link_boundary tc t @ system"
    unfolding parts(3) h(4) l(4) append_assoc by (rule refl)
  show ?thesis
    by (intro exI conjI) (rule art h(1-3) parts(1,2) ts all [unfolded kinds link_artifact_def] l(2) rpaths_are_flags [OF l(2)]
      l(3) argv ins)+
qed

section \<open>Archives\<close>

text \<open>
  C31: A static library is archived from its own objects and those of its object libraries alone: the command is
  the archiver, \<open>rcs\<close>, the artifact and these objects, and they are the first inputs.
\<close>

theorem archive_holds_objects_only:
  assumes "qstar_lower_final_action host g t tc = Inr a" and "\<not> pf_present (t_provider_final t)"
    and "t_kind t = ''staticlib''"
  shows "\<exists>ar artifact own libs more. append_raw_tool_role g t tc ''archive'' (rt_ar tc) = Inr ar
    \<and> qstar_graph_artifact_output_path host g t PATH_MAX = Inr artifact
    \<and> own_objects g t = Inr own \<and> append_objectlib_objects g t = Inr libs
    \<and> la_argv a = ar @ [''rcs'', artifact] @ own @ libs \<and> la_inputs a = own @ libs @ more"
proof -
  obtain artifact where art: "qstar_graph_artifact_output_path host g t PATH_MAX = Inr artifact"
    and native: "lower_native_final_action host g t tc artifact = Inr a"
    using lower_native [OF assms(1,2)] by blast
  obtain head own libs tail more where parts: "own_objects g t = Inr own" "append_objectlib_objects g t = Inr libs"
    "la_argv a = head @ own @ libs @ tail" "la_inputs a = own @ libs @ tail @ more"
    and head: "final_command_head host g t tc artifact = Inr head"
    and tail: "final_command_tail host g t tc artifact = Inr tail"
    using lower_native_parts [OF native] by metis
  have "tail = []"
    using tail assms(3) by (simp add: final_command_tail_def append_sharedlib_runtime_rpaths_def)
  moreover obtain ar where "append_raw_tool_role g t tc ''archive'' (rt_ar tc) = Inr ar" "head = ar @ [''rcs'', artifact]"
    using head assms(3) unfolding final_command_head_def join_args_Cons
    by (auto simp: append_sharedlib_link_flags_def split: sum.splits)
  ultimately show ?thesis using parts art by auto
qed

section \<open>Run paths\<close>

lemma visit_rpaths_keep:
  "visit_all (visit_sharedlib_rpath host g dir tc) ts flags = Inr flags' \<Longrightarrow> set flags \<subseteq> set flags'"
proof (induction ts arbitrary: flags)
  case (Cons u us)
  then obtain mid where mid: "visit_sharedlib_rpath host g dir tc u flags = Inr mid"
    and rest: "visit_all (visit_sharedlib_rpath host g dir tc) us mid = Inr flags'"
    by (auto split: sum.splits)
  have "set flags \<subseteq> set mid"
    using mid by (cases "sharedlib_rpath_flag host g dir tc u") (auto simp: visit_sharedlib_rpath_def split: if_splits)
  then show ?case using Cons.IH [OF rest] by blast
qed simp

lemma visit_rpaths_flag:
  "visit_all (visit_sharedlib_rpath host g dir tc) ts flags = Inr flags' \<Longrightarrow> u \<in> set ts \<Longrightarrow> t_kind u = ''sharedlib'' \<Longrightarrow>
   \<exists>flag\<in>set flags'. sharedlib_rpath_flag host g dir tc u = Inr flag"
proof (induction ts arbitrary: flags)
  case (Cons v vs)
  then obtain mid where mid: "visit_sharedlib_rpath host g dir tc v flags = Inr mid"
    and rest: "visit_all (visit_sharedlib_rpath host g dir tc) vs mid = Inr flags'"
    by (auto split: sum.splits)
  show ?case
  proof (cases "u = v")
    case True
    then obtain flag where flag: "sharedlib_rpath_flag host g dir tc u = Inr flag" "flag \<in> set mid"
      using mid Cons.prems(3) by (cases "sharedlib_rpath_flag host g dir tc u") (auto simp: visit_sharedlib_rpath_def)
    then have "flag \<in> set flags'" using visit_rpaths_keep [OF rest] by blast
    then show ?thesis using flag(1) by blast
  next
    case False
    then show ?thesis using Cons.IH [OF rest] Cons.prems(2,3) by simp
  qed
qed simp

lemma linked_is_run_reached: "linked_targets g t \<subseteq> walk_reach g rpath_kids (t_deps t @ t_private_deps t)"
proof -
  have "kid_rel g dep_artifact_kids \<subseteq> kid_rel g rpath_kids"
    by (auto simp: kid_rel_def dep_artifact_kids_def rpath_kids_def dep_targets_iff split: if_splits)
  then have "(kid_rel g dep_artifact_kids)\<^sup>* \<subseteq> (kid_rel g rpath_kids)\<^sup>*" by (rule rtrancl_mono)
  then show ?thesis unfolding linked_targets_closure link_closure_def walk_reach_def by blast
qed

lemma rpath_flag_text:
  assumes "sharedlib_rpath_flag host g dir tc u = Inr flag"
    and "qstar_graph_artifact_output_path host g u PATH_MAX = Inr lib" and "qstar_dirname lib PATH_MAX = Some lib_dir"
  obtains rel where "qstar_path_relative_between_dirs (Some dir) (Some lib_dir) PATH_MAX = Some rel"
    and "flag = ''-Wl,-rpath,'' @ (if qstar_platform_is_darwin host (Some (rt_platform tc)) then ''@loader_path'' else ''$ORIGIN'')
      @ (if rel = ''.'' then [] else ''/'' @ rel)"
proof -
  let ?base = "if qstar_platform_is_darwin host (Some (rt_platform tc)) then ''@loader_path'' else ''$ORIGIN''"
  from assms obtain rel where rel: "qstar_path_relative_between_dirs (Some dir) (Some lib_dir) PATH_MAX = Some rel"
    and put: "put PATH_MAX (''-Wl,-rpath,'' @ (if rel = ''.'' then ?base else trunc_buf PATH_MAX (?base @ ''/'' @ rel))) = Some flag"
    by (auto simp: sharedlib_rpath_flag_def Let_def split: option.splits)
  have "trunc_buf PATH_MAX (?base @ ''/'' @ rel) = ?base @ ''/'' @ rel" if "rel \<noteq> ''.''"
    using put that by (simp add: put_def trunc_buf_def split: if_splits)
  then have "flag = ''-Wl,-rpath,'' @ ?base @ (if rel = ''.'' then [] else ''/'' @ rel)"
    using put by (auto simp: put_def split: if_splits)
  then show thesis using that rel by blast
qed

text \<open>
  C21: Every shared library a target links is found when the target is run from the build tree: on platforms with
  run paths the link command has a run path whose relative part leads from the directory of the artifact to the directory of the
  library. The two directories have at most 128 components, those of the library plain ones (no empty, \<open>.\<close> or \<open>..\<close>).
\<close>

theorem linked_sharedlibs_found_at_run_time:
  assumes "qstar_lower_final_action host g t tc = Inr a" and "\<not> pf_present (t_provider_final t)"
    and "t_kind t \<noteq> ''staticlib''"
    and "qstar_platform_supports_sharedlib host (Some (rt_platform tc))"
    and "\<not> qstar_platform_is_windows host (Some (rt_platform tc))"
    and "u \<in> linked_targets g t" and "t_kind u = ''sharedlib''"
    and "qstar_graph_artifact_output_path host g t PATH_MAX = Inr artifact" and "qstar_dirname artifact PATH_MAX = Some dir"
    and "qstar_graph_artifact_output_path host g u PATH_MAX = Inr lib" and "qstar_dirname lib PATH_MAX = Some lib_dir"
    and "split_path_components dir 128 = Some dir_parts" and "split_path_components lib_dir 128 = Some lib_parts"
    and "list_all plain_component lib_parts"
  shows "\<exists>rel. ''-Wl,-rpath,'' @ (if qstar_platform_is_darwin host (Some (rt_platform tc)) then ''@loader_path'' else ''$ORIGIN'')
      @ (if rel = ''.'' then [] else ''/'' @ rel) \<in> set (la_argv a) \<and> walk dir_parts (split_slash rel) = Some lib_parts"
proof -
  have native: "lower_native_final_action host g t tc artifact = Inr a"
    using lower_native [OF assms(1,2)] assms(8) by (metis sum.inject(2))
  obtain head own libs tail more where argv: "la_argv a = head @ own @ libs @ tail"
    and tail: "final_command_tail host g t tc artifact = Inr tail"
    using lower_native_parts [OF native] by metis
  obtain paths rpaths rest where rpaths: "append_sharedlib_runtime_rpaths host g t tc artifact = Inr rpaths"
    and t: "tail = paths @ rpaths @ rest"
    using final_tail_parts [OF tail assms(3)] by metis
  have "walk_from g (visit_sharedlib_rpath host g dir tc) rpath_kids (t_deps t @ t_private_deps t) [] = Some (Inr rpaths)"
    using rpaths assms(3-5,9) by (simp add: append_sharedlib_runtime_rpaths_def or_wild_def split: option.splits)
  then obtain ts where "set ts = walk_reach g rpath_kids (t_deps t @ t_private_deps t)"
    and "visit_all (visit_sharedlib_rpath host g dir tc) ts [] = Inr rpaths"
    by (rule walk_from_visits)
  then obtain flag where flag: "flag \<in> set rpaths" "sharedlib_rpath_flag host g dir tc u = Inr flag"
    using visit_rpaths_flag [of host g dir tc ts "[]" rpaths u] linked_is_run_reached assms(6,7) by blast
  obtain rel where rel: "qstar_path_relative_between_dirs (Some dir) (Some lib_dir) PATH_MAX = Some rel"
    and shape: "flag = ''-Wl,-rpath,'' @ (if qstar_platform_is_darwin host (Some (rt_platform tc)) then ''@loader_path'' else ''$ORIGIN'')
      @ (if rel = ''.'' then [] else ''/'' @ rel)"
    using rpath_flag_text [OF flag(2) assms(10,11)] by blast
  have "walk dir_parts (split_slash rel) = Some lib_parts"
    using relative_between_dirs_correct [OF rel] assms(12-14) by (simp add: str_or_def)
  then show ?thesis using shape flag(1) argv t by (intro exI [of _ rel]) auto
qed

section \<open>An example\<close>

definition demo_link_target :: "string \<Rightarrow> string \<Rightarrow> string list \<Rightarrow> string list \<Rightarrow> qstar_target" where
  "demo_link_target name kind sources deps = zero_qstar_target\<lparr>t_label := ''//:'' @ name, t_name := name, t_kind := kind,
     t_sources := sources, t_deps := deps\<rparr>"

definition demo_app :: qstar_target where
  "demo_app = demo_link_target ''app'' ''exe'' [''app.o''] [''//:c'', ''//:a'', ''//:s'']\<lparr>t_libs := [''m'']\<rparr>"

definition demo_link_graph :: qstar_graph where
  "demo_link_graph = zero_qstar_graph\<lparr>gr_targets := [demo_app,
     demo_link_target ''a'' ''staticlib'' [''a.o''] [''//:c''], demo_link_target ''c'' ''staticlib'' [''c.o''] [],
     demo_link_target ''s'' ''sharedlib'' [''s.o''] []]\<rparr>"

definition demo_gcc :: qstar_resolved_toolchain where
  "demo_gcc = zero_qstar_resolved_toolchain\<lparr>rt_platform := ''linux'', rt_link_style := ''gnu'', rt_cc := ''cc'',
     rt_cxx := ''c++'', rt_ar := ''ar'', rt_linker := ''cc''\<rparr>"

definition demo_link_action :: lowered_action where
  "demo_link_action = \<lparr>la_id = ''//:app:link:0'', la_kind = ''link'', la_depfile = [],
     la_description = ''Linking C executable build/qstar/out/___app/app'',
     la_argv = [''cc'', ''-o'', ''build/qstar/out/___app/app'', ''app.o'', ''build/qstar/out/___c/libc.a'',
       ''build/qstar/out/___a/liba.a'', ''build/qstar/out/___s/libs.so'', ''-Wl,-rpath,$ORIGIN/../___s'', ''-lm''],
     la_inputs = [''app.o'', ''build/qstar/out/___c/libc.a'', ''build/qstar/out/___a/liba.a'',
       ''build/qstar/out/___s/libs.so'', ''-Wl,-rpath,$ORIGIN/../___s'', ''-lm''],
     la_outputs = [''build/qstar/out/___app/app''], la_env = [], la_wants_depfile = False\<rparr>"

lemma demo_link: "qstar_lower_final_action HostLinux demo_link_graph demo_app demo_gcc = Inr demo_link_action"
  by code_simp

lemma demo_app_native: "\<not> pf_present (t_provider_final demo_app)" "t_kind demo_app \<noteq> ''staticlib''"
  by code_simp+

theorem link_command_exact_witness:
  "\<exists>ts paths rpaths. set ts = linked_targets demo_link_graph demo_app \<and> distinct (map t_label ts)
    \<and> list_all2 (\<lambda>u p. qstar_graph_target_link_artifact_path HostLinux demo_link_graph u (Some ''linux'') PATH_MAX = Inr p)
        (filter (\<lambda>u. t_kind u \<notin> {''group'', ''run_target'', ''objectlib'', ''tool'', ''interface''}) ts) paths
    \<and> list_all (starts_with ''-Wl,-rpath,'') rpaths
    \<and> [''build/qstar/out/___c/libc.a'', ''build/qstar/out/___a/liba.a'', ''build/qstar/out/___s/libs.so'',
        ''-Wl,-rpath,$ORIGIN/../___s''] = paths @ rpaths"
proof -
  have pieces: "own_objects demo_link_graph demo_app = Inr [''app.o'']" "append_objectlib_objects demo_link_graph demo_app = Inr []"
    "qstar_graph_artifact_output_path HostLinux demo_link_graph demo_app PATH_MAX = Inr ''build/qstar/out/___app/app''"
    "append_raw_tool_role demo_link_graph demo_app demo_gcc ''link'' (link_driver demo_app demo_gcc) = Inr [''cc'']"
    "link_output demo_gcc demo_app ''build/qstar/out/___app/app'' = [''-o'', ''build/qstar/out/___app/app'']"
    "append_sharedlib_link_flags HostLinux demo_link_graph demo_app demo_gcc ''build/qstar/out/___app/app'' = Inr []"
    "collected_usage demo_link_graph demo_app True = Inr ([], [])" "t_link_options demo_app = []"
    "link_boundary demo_gcc demo_app = []" "append_system_link_flags HostLinux demo_app demo_gcc = Inr [''-lm'']"
    "rt_platform demo_gcc = ''linux''"
    by code_simp+
  have argv: "la_argv demo_link_action = [''cc'', ''-o'', ''build/qstar/out/___app/app'', ''app.o'', ''build/qstar/out/___c/libc.a'',
       ''build/qstar/out/___a/liba.a'', ''build/qstar/out/___s/libs.so'', ''-Wl,-rpath,$ORIGIN/../___s'', ''-lm'']"
    by (simp add: demo_link_action_def)
  obtain artifact driver flags usage used_inputs own libs ts paths rpaths system where
    c: "qstar_graph_artifact_output_path HostLinux demo_link_graph demo_app PATH_MAX = Inr artifact"
      "append_raw_tool_role demo_link_graph demo_app demo_gcc ''link'' (link_driver demo_app demo_gcc) = Inr driver"
      "append_sharedlib_link_flags HostLinux demo_link_graph demo_app demo_gcc artifact = Inr flags"
      "collected_usage demo_link_graph demo_app True = Inr (usage, used_inputs)"
      "own_objects demo_link_graph demo_app = Inr own" "append_objectlib_objects demo_link_graph demo_app = Inr libs"
      "append_system_link_flags HostLinux demo_app demo_gcc = Inr system"
    and walk: "set ts = linked_targets demo_link_graph demo_app" "distinct (map t_label ts)"
      "list_all2 (\<lambda>u p. qstar_graph_target_link_artifact_path HostLinux demo_link_graph u (Some (rt_platform demo_gcc)) PATH_MAX = Inr p)
        (filter (\<lambda>u. t_kind u \<notin> {''group'', ''run_target'', ''objectlib'', ''tool'', ''interface''}) ts) paths"
      "list_all (starts_with ''-Wl,-rpath,'') rpaths"
    and all: "la_argv demo_link_action = driver @ link_output demo_gcc demo_app artifact @ flags @ usage @ t_link_options demo_app @
        own @ libs @ paths @ rpaths @ link_boundary demo_gcc demo_app @ system"
    using link_command_exact [OF demo_link demo_app_native] by blast
  have artifact: "artifact = ''build/qstar/out/___app/app''" using c(1) pieces(3) by simp
  have small: "driver = [''cc'']" "flags = []" "usage = []" "own = [''app.o'']" "libs = []" "system = [''-lm'']"
    using c(2-7) pieces unfolding artifact by simp_all
  have "[''build/qstar/out/___c/libc.a'', ''build/qstar/out/___a/liba.a'', ''build/qstar/out/___s/libs.so'',
      ''-Wl,-rpath,$ORIGIN/../___s'', ''-lm''] = (paths @ rpaths) @ [''-lm'']"
    using all unfolding argv small artifact pieces by simp
  then have "[''build/qstar/out/___c/libc.a'', ''build/qstar/out/___a/liba.a'', ''build/qstar/out/___s/libs.so'',
      ''-Wl,-rpath,$ORIGIN/../___s''] = paths @ rpaths"
    by (metis append_Cons append_Nil butlast_snoc)
  then show ?thesis using walk unfolding pieces(11) by blast
qed

definition demo_archive :: qstar_target where
  "demo_archive = demo_link_target ''a'' ''staticlib'' [''a.o''] [''//:c'']"

lemma demo_archive_lowered:
  "\<exists>a. qstar_lower_final_action HostLinux demo_link_graph demo_archive demo_gcc = Inr a
    \<and> la_argv a = [''ar'', ''rcs'', ''build/qstar/out/___a/liba.a'', ''a.o'']"
proof -
  have "map_sum id la_argv (qstar_lower_final_action HostLinux demo_link_graph demo_archive demo_gcc) =
      Inr [''ar'', ''rcs'', ''build/qstar/out/___a/liba.a'', ''a.o'']" by code_simp
  then show ?thesis by (cases "qstar_lower_final_action HostLinux demo_link_graph demo_archive demo_gcc") auto
qed

theorem archive_holds_objects_only_witness:
  "\<exists>own more. own_objects demo_link_graph demo_archive = Inr own \<and> own = [''a.o'']"
proof -
  obtain a where a: "qstar_lower_final_action HostLinux demo_link_graph demo_archive demo_gcc = Inr a"
    and argv: "la_argv a = [''ar'', ''rcs'', ''build/qstar/out/___a/liba.a'', ''a.o'']"
    using demo_archive_lowered by blast
  have native: "\<not> pf_present (t_provider_final demo_archive)" "t_kind demo_archive = ''staticlib''"
    by code_simp+
  have pieces: "append_raw_tool_role demo_link_graph demo_archive demo_gcc ''archive'' (rt_ar demo_gcc) = Inr [''ar'']"
    "append_objectlib_objects demo_link_graph demo_archive = Inr []"
    by code_simp+
  show ?thesis
    using archive_holds_objects_only [OF a native] argv by (auto simp: pieces)
qed

definition demo_shared :: qstar_target where
  "demo_shared = demo_link_target ''s'' ''sharedlib'' [''s.o''] []"

lemma demo_shared_linked: "demo_shared \<in> linked_targets demo_link_graph demo_app"
proof (rule linked_direct)
  show "''//:s'' \<in> set (t_deps demo_app @ t_private_deps demo_app)" by code_simp
  show "local_dep demo_link_graph ''//:s'' = Some demo_shared" by code_simp
qed

theorem linked_sharedlibs_found_at_run_time_witness:
  "\<exists>rel. ''-Wl,-rpath,$ORIGIN'' @ (if rel = ''.'' then [] else ''/'' @ rel) \<in> set (la_argv demo_link_action)
    \<and> walk [''build'', ''qstar'', ''out'', ''___app''] (split_slash rel) = Some [''build'', ''qstar'', ''out'', ''___s'']"
proof -
  have platform: "qstar_platform_supports_sharedlib HostLinux (Some (rt_platform demo_gcc))"
    "\<not> qstar_platform_is_windows HostLinux (Some (rt_platform demo_gcc))"
    by code_simp+
  have shared: "t_kind demo_shared = ''sharedlib''" by code_simp
  have app: "qstar_graph_artifact_output_path HostLinux demo_link_graph demo_app PATH_MAX = Inr ''build/qstar/out/___app/app''"
    "qstar_dirname ''build/qstar/out/___app/app'' PATH_MAX = Some ''build/qstar/out/___app''"
    by code_simp+
  have lib: "qstar_graph_artifact_output_path HostLinux demo_link_graph demo_shared PATH_MAX = Inr ''build/qstar/out/___s/libs.so''"
    "qstar_dirname ''build/qstar/out/___s/libs.so'' PATH_MAX = Some ''build/qstar/out/___s''"
    by code_simp+
  have parts: "split_path_components ''build/qstar/out/___app'' 128 = Some [''build'', ''qstar'', ''out'', ''___app'']"
    "split_path_components ''build/qstar/out/___s'' 128 = Some [''build'', ''qstar'', ''out'', ''___s'']"
    by code_simp+
  have plain: "list_all plain_component [''build'', ''qstar'', ''out'', ''___s'']" by code_simp
  have linux: "\<not> qstar_platform_is_darwin HostLinux (Some (rt_platform demo_gcc))" by code_simp
  show ?thesis
    using linked_sharedlibs_found_at_run_time [OF demo_link demo_app_native platform demo_shared_linked shared app lib parts plain]
    by (simp add: linux)
qed

text \<open>
  The order of the libraries is that of a depth first walk, not one in which a library stands before those it needs:
  here \<open>//:a\<close> depends on \<open>//:c\<close>, but \<open>libc.a\<close> is given to the linker before \<open>liba.a\<close>, because the target lists
  \<open>//:c\<close> first.
\<close>

theorem library_before_its_dependent:
  "append_dep_artifacts HostLinux demo_link_graph demo_app demo_gcc =
     Inr [''build/qstar/out/___c/libc.a'', ''build/qstar/out/___a/liba.a'', ''build/qstar/out/___s/libs.so'']
   \<and> t_deps demo_archive = [''//:c''] \<and> demo_archive \<in> set (gr_targets demo_link_graph)"
  by (intro conjI) code_simp+

end
