(* ===== verification/QCompile.thy ===== *)
theory QCompile
  imports QLower QMaterialize QClosure
begin

text \<open>
  Compile actions (\<^verbatim>\<open>src/executor.c\<close>, \<open>prepare_compile_action_from_source\<close>): the command that compiles one source
  of a target, or one source of an object library inside its consumer, and the precompiled header of a target, with
  the include directories collected from the dependencies. What the action key adds to such an action is in
  \<open>QActionKey\<close>.
\<close>

section \<open>Include directories\<close>

text \<open>
  The recursion keeps no list of what it has met. \<open>None\<close> is a recursion deeper than the fuel; with the fuel
  given below, the C function then never returns, by \<open>includes_end\<close>.
\<close>

fun collect_public_includes_rec :: "qstar_graph \<Rightarrow> nat \<Rightarrow> bool \<Rightarrow> qstar_target \<Rightarrow> string list \<Rightarrow> string list option"
  and collect_public_includes_deps :: "qstar_graph \<Rightarrow> nat \<Rightarrow> string list \<Rightarrow> string list \<Rightarrow> string list option" where
  "collect_public_includes_rec g 0 include_self t out = None"
| "collect_public_includes_rec g (Suc f) include_self t out =
     collect_public_includes_deps g f (t_deps t)
       (if include_self then fold (\<lambda>d ds. push_unique ds d) (t_public_include_dirs t @ t_interface_include_dirs t) out else out)"
| "collect_public_includes_deps g f [] out = Some out"
| "collect_public_includes_deps g f (l # ls) out = (case find_target g l of
      None \<Rightarrow> collect_public_includes_deps g f ls out
    | Some dep \<Rightarrow> (case collect_public_includes_rec g f True dep out of
          None \<Rightarrow> None
        | Some out' \<Rightarrow> collect_public_includes_deps g f ls out'))"

definition collect_compile_include_dirs :: "qstar_graph \<Rightarrow> qstar_target \<Rightarrow> string list option" where
  "collect_compile_include_dirs g t =
     collect_public_includes_rec g (length (gr_targets g) + 1) False t
       (fold (\<lambda>d ds. push_unique ds d) (t_include_dirs t) [])"

section \<open>One compilation\<close>

definition push_target_header_inputs :: "qstar_target \<Rightarrow> string list \<Rightarrow> string list" where
  "push_target_header_inputs t inputs = inputs @ t_public_headers t @ t_private_headers t"

text \<open>Targets of a graph have different labels, so equal targets stand for equal pointers.\<close>

definition compile_id_text :: "qstar_target \<Rightarrow> qstar_target \<Rightarrow> nat \<Rightarrow> nat \<Rightarrow> string" where
  "compile_id_text t owner source_index action_index =
     (let plain = t_label t @
            (if qstar_cxx_source_is_module_interface owner source_index
             then '':compile-module-interface-'' @ nat_str action_index @ '':0''
             else if qstar_cxx_source_is_implementation owner source_index \<and> t_cxx_modules_enabled t
             then '':compile-module-implementation-'' @ nat_str action_index @ '':0''
             else '':compile:'' @ nat_str action_index)
      in case (if owner = t then qstar_cxx_unity_source_info t source_index else None) of
            Some (batch, leader) \<Rightarrow>
              if leader then t_label t @ '':compile-unity-'' @ nat_str batch @ '':0'' else plain
          | None \<Rightarrow> plain)"

definition format_compile_action_id :: "qstar_target \<Rightarrow> qstar_target \<Rightarrow> nat \<Rightarrow> nat \<Rightarrow> nat \<Rightarrow> string" where
  "format_compile_action_id t owner source_index action_index idlen =
     trunc_buf idlen (compile_id_text t owner source_index action_index)"

text \<open>
  What is compiled into what: the file given to the compiler, the sources it includes, the unity file that is
  written, if any, and the paths of object and depfile.
\<close>

record compile_unit =
  cu_leader :: bool
  cu_input :: string
  cu_sources :: "string list"
  cu_write :: "(string \<times> string) option"
  cu_object :: string
  cu_depfile :: string

definition overridden :: "cstr \<Rightarrow> string option \<Rightarrow> string option" where
  "overridden override p = (case override of None \<Rightarrow> p | Some s \<Rightarrow> Some (trunc_buf PATH_MAX s))"

definition unity_unit ::
  "file_access \<Rightarrow> (string \<Rightarrow> string option) \<Rightarrow> qstar_graph \<Rightarrow> qstar_target \<Rightarrow> nat \<Rightarrow> qerr + compile_unit" where
  "unity_unit fa on_disk g t batch = (case qstar_cxx_materialize_unity_source fa on_disk g t batch PATH_MAX of
      Inl e \<Rightarrow> Inl e
    | Inr (path, written) \<Rightarrow> (case qstar_cxx_unity_object_path g t batch PATH_MAX of
          None \<Rightarrow> Inl (Plain ''qstar: C++ unity object path too long'')
        | Some object \<Rightarrow> (case qstar_cxx_unity_depfile_path g t batch PATH_MAX of
              None \<Rightarrow> Inl (Plain ''qstar: C++ unity depfile path too long'')
            | Some depfile \<Rightarrow> Inr \<lparr>cu_leader = True, cu_input = path,
                cu_sources = (case qstar_cxx_unity_batch_sources t batch of None \<Rightarrow> [] | Some ss \<Rightarrow> ss),
                cu_write = written, cu_object = object, cu_depfile = depfile\<rparr>)))"

definition single_unit :: "qstar_graph \<Rightarrow> qstar_target \<Rightarrow> qstar_target \<Rightarrow> nat \<Rightarrow> cstr \<Rightarrow> cstr \<Rightarrow> qerr + compile_unit" where
  "single_unit g t owner i object_override depfile_override =
     (case overridden object_override (qstar_graph_object_output_path g t i PATH_MAX) of
        None \<Rightarrow> Inl (Plain ''qstar: object output path too long'')
      | Some object \<Rightarrow> (case overridden depfile_override (qstar_graph_depfile_output_path g t i PATH_MAX) of
            None \<Rightarrow> Inl (Plain ''qstar: depfile output path too long'')
          | Some depfile \<Rightarrow> Inr \<lparr>cu_leader = False, cu_input = t_sources owner ! i, cu_sources = [], cu_write = None,
              cu_object = object, cu_depfile = depfile\<rparr>))"

definition locate_unit ::
  "file_access \<Rightarrow> (string \<Rightarrow> string option) \<Rightarrow> qstar_graph \<Rightarrow> qstar_target \<Rightarrow> qstar_target \<Rightarrow> nat \<Rightarrow> cstr \<Rightarrow> cstr \<Rightarrow>
   qerr + compile_unit" where
  "locate_unit fa on_disk g t owner i object_override depfile_override =
     (case (if owner = t then qstar_cxx_unity_source_info t i else None) of
        Some (batch, leader) \<Rightarrow>
          if leader then unity_unit fa on_disk g t batch
          else Inl (Plain ''qstar: internal C++ unity lowering selected a non-leader source'')
      | None \<Rightarrow> single_unit g t owner i object_override depfile_override)"

section \<open>The command\<close>

text \<open>Failures of the path functions of the C++ strategies set no error text.\<close>

definition or_error :: "string \<Rightarrow> 'a option \<Rightarrow> qerr + 'a" where
  "or_error msg p = (case p of None \<Rightarrow> Inl (Plain msg) | Some x \<Rightarrow> Inr x)"

definition present_pch :: "qstar_target \<Rightarrow> bool" where
  "present_pch t \<longleftrightarrow> present (t_cxx_precompiled_header t)"

definition uses_pch :: "qstar_target \<Rightarrow> qstar_source_info \<Rightarrow> bool \<Rightarrow> bool" where
  "uses_pch t source module_interface \<longleftrightarrow> si_provider source = ''cxx'' \<and> \<not> module_interface \<and> present_pch t"

definition pch_args :: "host_os \<Rightarrow> qstar_graph \<Rightarrow> qstar_target \<Rightarrow> qstar_resolved_toolchain \<Rightarrow> qerr + string list" where
  "pch_args host g t tc =
     (case (qstar_cxx_pch_output_path host g t (Some tc) PATH_MAX, qstar_cxx_pch_include_path host g t (Some tc) PATH_MAX) of
        (Some output, Some include) \<Rightarrow>
          Inr [if qstar_cxx_compiler_family host (Some tc) = ''gcc'' then ''-include'' else ''-include-pch'', include]
      | _ \<Rightarrow> Inl (Plain []))"

text \<open>\<open>mk\<close>: creating the directory of a file succeeds. \<open>module_flag\<close> and \<open>bmi_flag\<close> are 32 bytes longer than a path.\<close>

definition module_args :: "(string \<Rightarrow> bool) \<Rightarrow> qstar_graph \<Rightarrow> qstar_target \<Rightarrow> nat \<Rightarrow> bool \<Rightarrow> qerr + string list" where
  "module_args mk g t i module_interface = (case qstar_cxx_collect_module_flags g t i of
      None \<Rightarrow> Inl (Plain [])
    | Some flags \<Rightarrow> (case qstar_cxx_module_dir_path g t PATH_MAX of
          None \<Rightarrow> Inl (Plain [])
        | Some dir \<Rightarrow> join_args
            [Inr [trunc_buf (PATH_MAX + 32) (''-fprebuilt-module-path='' @ dir)],
             if module_interface then (case qstar_cxx_module_output_path g t i PATH_MAX of
                 None \<Rightarrow> Inl (Plain [])
               | Some bmi \<Rightarrow> if mk bmi then Inr [trunc_buf (PATH_MAX + 32) (''-fmodule-output='' @ bmi)] else Inl (Plain []))
             else Inr [],
             Inr flags]))"

definition with_flag :: "string \<Rightarrow> string list \<Rightarrow> string list" where
  "with_flag flag xs = concat (map (\<lambda>x. [flag, x]) xs)"

text \<open>A compiler command that is not a provider's. \<open>std_arg\<close> is a buffer of 128 bytes.\<close>

definition compile_argv ::
  "host_os \<Rightarrow> (string \<Rightarrow> bool) \<Rightarrow> qstar_graph \<Rightarrow> qstar_target \<Rightarrow> qstar_target \<Rightarrow> qstar_resolved_toolchain \<Rightarrow> nat \<Rightarrow>
   compile_unit \<Rightarrow> string list \<Rightarrow> qerr + string list" where
  "compile_argv host mk g t owner tc i unit includes =
     (let source = source_info owner i; is_asm = qstar_source_is_asm source; is_cxx = (si_provider source = ''cxx'');
          module_interface = qstar_cxx_source_is_module_interface owner i;
          preprocessed = qstar_source_uses_asm_preprocessor (Some t) source;
          compiler = (case qstar_resolved_toolchain_provider_tool tc (si_provider source) (si_provider_role source) of
            None \<Rightarrow> rt_cc tc | Some c \<Rightarrow> c)
      in join_args
        [prepared_action_push_tool_role g t tc (qstar_source_toolset_role (Some source)) (Some compiler),
         Inr (if target_compile_needs_pic host t tc is_asm then [''-fPIC''] else []),
         Inr (if is_asm then [''-x'', if preprocessed then ''assembler-with-cpp'' else ''assembler''] else []),
         Inr (if module_interface then [''-x'', ''c++-module''] else []),
         Inr [''-c'', cu_input unit, ''-o'', cu_object unit],
         Inr (if si_provider source = ''c'' \<or> is_cxx \<or> preprocessed then [''-MMD'', ''-MF'', cu_depfile unit] else []),
         Inr (if is_cxx \<and> present (t_cxx_standard t)
              then [trunc_buf 128 (''-std='' @ str_or_empty (t_cxx_standard t))] else []),
         if uses_pch t source module_interface then pch_args host g t tc else Inr [],
         if is_cxx \<and> t_cxx_modules_enabled t then module_args mk g t i module_interface else Inr [],
         Inr (if cu_leader unit then [''-iquote'', ''.''] else []),
         prepared_action_push_dependency_usage g t False,
         Inr (if \<not> is_asm \<and> \<not> is_cxx then t_cflags t else []),
         Inr (if is_cxx then t_cxxflags t else []),
         Inr (if is_asm then t_asm_compile_options t else []),
         Inr (if is_asm then with_flag ''-I'' (t_asm_include_dirs t) else with_flag ''-I'' includes),
         Inr (if is_asm then [] else with_flag ''-isystem'' (t_system_include_dirs t))])"

text \<open>Its inputs before those of the depfile, and its outputs.\<close>

definition compile_inputs ::
  "host_os \<Rightarrow> qstar_graph \<Rightarrow> qstar_target \<Rightarrow> qstar_target \<Rightarrow> qstar_resolved_toolchain \<Rightarrow> nat \<Rightarrow> compile_unit \<Rightarrow>
   qerr + string list" where
  "compile_inputs host g t owner tc i unit =
     (let source = source_info owner i; is_cxx = (si_provider source = ''cxx'');
          module_interface = qstar_cxx_source_is_module_interface owner i
      in case join_args
        [Inr (cu_input unit # cu_sources unit),
         if uses_pch t source module_interface
         then map_sum id (\<lambda>p. [p]) (or_error [] (qstar_cxx_pch_output_path host g t (Some tc) PATH_MAX)) else Inr [],
         if is_cxx \<and> t_cxx_modules_enabled t then or_error ''qstar: out of memory'' (qstar_cxx_collect_module_inputs g t i) else Inr []] of
        Inl e \<Rightarrow> Inl e
      | Inr first \<Rightarrow>
          (case push_dependency_usage_inputs host g t False (push_target_header_inputs t first) of
             Inl e \<Rightarrow> Inl e
           | Inr inputs \<Rightarrow> Inr (if owner = t then inputs else push_target_header_inputs owner inputs)))"

definition compile_outputs :: "qstar_graph \<Rightarrow> qstar_target \<Rightarrow> qstar_target \<Rightarrow> nat \<Rightarrow> compile_unit \<Rightarrow> qerr + string list" where
  "compile_outputs g t owner i unit =
     (if si_provider (source_info owner i) = ''cxx'' \<and> t_cxx_modules_enabled t \<and> qstar_cxx_source_is_module_interface owner i
      then map_sum id (\<lambda>bmi. [cu_object unit, bmi]) (or_error [] (qstar_cxx_module_output_path g t i PATH_MAX))
      else Inr [cu_object unit])"

section \<open>The prepared action\<close>

text \<open>
  The part of \<open>struct qstar_prepared_action\<close> that is known before the depfile and the key, and what else the
  preparation does: the unity file it writes and the record for the compilation database (directory, file, output,
  arguments).
\<close>

record compile_action =
  cp_id :: string
  cp_source_path :: string
  cp_depfile :: string
  cp_wants_depfile :: bool
  cp_description :: string
  cp_argv :: "string list"
  cp_env :: "string list"
  cp_inputs :: "string list"
  cp_outputs :: "string list"
  cp_write :: "(string \<times> string) option"
  cp_record :: "(string \<times> string \<times> string \<times> string list) option"

definition compile_record :: "bool \<Rightarrow> qstar_graph \<Rightarrow> string \<Rightarrow> string \<Rightarrow> string list \<Rightarrow> (string \<times> string \<times> string \<times> string list) option" where
  "compile_record cache_prepare g path output argv =
     (if \<not> cache_prepare \<and> qstar_graph_compile_commands_policy g \<noteq> ''off''
      then Some (case gr_package_root g of None \<Rightarrow> ''.'' | Some r \<Rightarrow> r, path, output, argv) else None)"

definition fill_provider_action ::
  "bool \<Rightarrow> host_os \<Rightarrow> (string \<Rightarrow> bool) \<Rightarrow> qstar_graph \<Rightarrow> qstar_target \<Rightarrow> qstar_target \<Rightarrow> qstar_resolved_toolchain \<Rightarrow> nat \<Rightarrow>
   compile_unit \<Rightarrow> qstar_provider_source_unit \<Rightarrow> compile_action \<Rightarrow> qerr + compile_action" where
  "fill_provider_action cache_prepare host mk g t owner tc i unit u a = (let tmpl = psu_action u in
     if pa_argv tmpl = [] then
       Inl (Plain (''qstar: provider source '' @ sq (t_sources t ! i) @ '' has no lowered command''))
     else case join_args [prepared_action_push_provider_template g t tc (pa_argv tmpl),
         prepared_action_push_dependency_usage g t False] of
       Inl e \<Rightarrow> Inl e
     | Inr argv \<Rightarrow> (case push_dependency_usage_inputs host g t False (pa_inputs tmpl) of
         Inl e \<Rightarrow> Inl e
       | Inr inputs \<Rightarrow>
           if \<not> list_all mk (pa_outputs tmpl) then Inl (Plain ''qstar: could not create provider output directory'')
           else Inr (a\<lparr>cp_depfile := (if present (pa_depfile tmpl) then trunc_buf PATH_MAX (str_or_empty (pa_depfile tmpl))
                 else cp_depfile a),
               cp_wants_depfile := pa_wants_depfile tmpl, cp_argv := argv, cp_env := pa_env tmpl, cp_inputs := inputs,
               cp_outputs := pa_outputs tmpl,
               cp_record := compile_record cache_prepare g (t_sources owner ! i) (cu_object unit) argv\<rparr>)))"

definition fill_compile_action ::
  "bool \<Rightarrow> host_os \<Rightarrow> (string \<Rightarrow> bool) \<Rightarrow> qstar_graph \<Rightarrow> qstar_target \<Rightarrow> qstar_target \<Rightarrow> qstar_resolved_toolchain \<Rightarrow> nat \<Rightarrow>
   compile_unit \<Rightarrow> string list \<Rightarrow> compile_action \<Rightarrow> qerr + compile_action" where
  "fill_compile_action cache_prepare host mk g t owner tc i unit includes a =
     (case compile_argv host mk g t owner tc i unit includes of
        Inl e \<Rightarrow> Inl e
      | Inr argv \<Rightarrow> (case compile_inputs host g t owner tc i unit of
          Inl e \<Rightarrow> Inl e
        | Inr inputs \<Rightarrow> (case compile_outputs g t owner i unit of
            Inl e \<Rightarrow> Inl e
          | Inr outputs \<Rightarrow> Inr (a\<lparr>cp_argv := argv, cp_inputs := inputs, cp_outputs := outputs,
              cp_record := compile_record cache_prepare g (cu_input unit) (cu_object unit) argv\<rparr>))))"

text \<open>\<open>None\<close>: the collection of include directories never returns.\<close>

definition prepare_compile_action_from_source ::
  "bool \<Rightarrow> build_host \<Rightarrow> file_access \<Rightarrow> (string \<Rightarrow> string option) \<Rightarrow> (string \<Rightarrow> bool) \<Rightarrow> qstar_graph \<Rightarrow> qstar_target \<Rightarrow>
   qstar_target \<Rightarrow> qstar_resolved_toolchain \<Rightarrow> nat \<Rightarrow> nat \<Rightarrow> cstr \<Rightarrow> cstr \<Rightarrow> (qerr + compile_action) option" where
  "prepare_compile_action_from_source cache_prepare h fa on_disk mk g t owner tc i action_index object_override depfile_override =
     (let host = bh_os h; source = source_info owner i in
      case validate_compile_source h g owner tc source i of
        Inl e \<Rightarrow> Some (Inl e)
      | Inr _ \<Rightarrow> (case locate_unit fa on_disk g t owner i object_override depfile_override of
          Inl e \<Rightarrow> Some (Inl e)
        | Inr unit \<Rightarrow>
            if \<not> mk (cu_object unit) then Some (Inl (Plain ''qstar: could not create object output directory''))
            else case collect_compile_include_dirs g t of
              None \<Rightarrow> None
            | Some includes \<Rightarrow>
                let provider = qstar_target_provider_source_unit owner i in
                if provider \<noteq> None \<and> owner \<noteq> t then Some (Inl (target_err owner ''sources''
                  (''qstar: provider source token '' @ sq (t_sources owner ! i) @ '' cannot be used from compile_context = '' @
                   [DQ] @ ''consumer'' @ [DQ] @ '' objectlib yet; use raw provider source strings or compile_context = '' @
                   [DQ] @ ''own'' @ [DQ])))
                else case qstar_action_description_compile (Some source) (Some (cu_object unit)) PATH_MAX of
                  None \<Rightarrow> Some (Inl (Plain ''qstar: compile action description too long''))
                | Some description \<Rightarrow>
                    let wants = (provider = None \<and> (si_provider source = ''c'' \<or> si_provider source = ''cxx'' \<or>
                          qstar_source_uses_asm_preprocessor (Some t) source));
                        a = \<lparr>cp_id = format_compile_action_id t owner i action_index PATH_MAX,
                          cp_source_path = trunc_buf PATH_MAX (cu_input unit), cp_depfile = cu_depfile unit,
                          cp_wants_depfile = wants, cp_description = description, cp_argv = [], cp_env = [],
                          cp_inputs = [], cp_outputs = [], cp_write = cu_write unit, cp_record = None\<rparr>
                    in Some (case provider of
                        Some u \<Rightarrow> fill_provider_action cache_prepare host mk g t owner tc i unit u a
                      | None \<Rightarrow> fill_compile_action cache_prepare host mk g t owner tc i unit includes a)))"

definition prepare_compile_action ::
  "bool \<Rightarrow> build_host \<Rightarrow> file_access \<Rightarrow> (string \<Rightarrow> string option) \<Rightarrow> (string \<Rightarrow> bool) \<Rightarrow> qstar_graph \<Rightarrow> qstar_target \<Rightarrow>
   qstar_resolved_toolchain \<Rightarrow> nat \<Rightarrow> (qerr + compile_action) option" where
  "prepare_compile_action cache_prepare h fa on_disk mk g t tc i =
     prepare_compile_action_from_source cache_prepare h fa on_disk mk g t t tc i i None None"

text \<open>The preparation inside \<open>run_consumer_objectlib_compile\<close>; \<open>Inr None\<close> of the object path is unreachable there.\<close>

definition prepare_consumer_compile ::
  "bool \<Rightarrow> build_host \<Rightarrow> file_access \<Rightarrow> (string \<Rightarrow> string option) \<Rightarrow> (string \<Rightarrow> bool) \<Rightarrow> qstar_graph \<Rightarrow> qstar_target \<Rightarrow>
   qstar_target \<Rightarrow> qstar_resolved_toolchain \<Rightarrow> nat \<Rightarrow> nat \<Rightarrow> (qerr + compile_action) option" where
  "prepare_consumer_compile cache_prepare h fa on_disk mk g consumer objectlib tc object_index i =
     (let too_long = ''qstar: consumer objectlib path too long'' in
      case pushed_object (objectlib_source_object_input g consumer objectlib too_long i) of
        Inl e \<Rightarrow> Some (Inl e)
      | Inr object \<Rightarrow> (case objectlib_source_depfile_output g consumer objectlib i PATH_MAX of
            None \<Rightarrow> Some (Inl (Plain too_long))
          | Some depfile \<Rightarrow> prepare_compile_action_from_source cache_prepare h fa on_disk mk g consumer objectlib tc i
              (objectlib_consumer_compile_index g consumer object_index i) (Some object) (Some depfile)))"

section \<open>Precompiled headers\<close>

definition prepare_cxx_pch_action ::
  "bool \<Rightarrow> host_os \<Rightarrow> (string \<Rightarrow> bool) \<Rightarrow> qstar_graph \<Rightarrow> qstar_target \<Rightarrow> qstar_resolved_toolchain \<Rightarrow>
   (qerr + compile_action) option" where
  "prepare_cxx_pch_action cache_prepare host mk g t tc =
     (let header = str_or_empty (t_cxx_precompiled_header t); bad = Inl (Plain ''qstar: C++ PCH output path is invalid'') in
      case qstar_cxx_pch_output_path host g t (Some tc) PATH_MAX of
        None \<Rightarrow> Some bad
      | Some output \<Rightarrow> (case put PATH_MAX (output @ ''.d'') of
          None \<Rightarrow> Some bad
        | Some depfile \<Rightarrow>
            if \<not> mk output then Some bad
            else case collect_compile_include_dirs g t of
              None \<Rightarrow> None
            | Some includes \<Rightarrow> Some
               (case join_args
                  [prepared_action_push_tool_role g t tc ''cxx.compiler'' (Some (rt_cxx tc)),
                   Inr [''-x'', ''c++-header'', ''-c'', header, ''-o'', output, ''-MMD'', ''-MF'', depfile],
                   Inr (if present (t_cxx_standard t)
                        then [trunc_buf 128 (''-std='' @ str_or_empty (t_cxx_standard t))] else []),
                   prepared_action_push_dependency_usage g t False,
                   Inr (t_cxxflags t @ with_flag ''-I'' includes @ with_flag ''-isystem'' (t_system_include_dirs t))] of
                  Inl e \<Rightarrow> Inl e
                | Inr argv \<Rightarrow>
                    (case push_dependency_usage_inputs host g t False (push_target_header_inputs t [header]) of
                       Inl e \<Rightarrow> Inl e
                     | Inr inputs \<Rightarrow> Inr \<lparr>cp_id = trunc_buf PATH_MAX (t_label t @ '':cxx-pch:0''),
                         cp_source_path = trunc_buf PATH_MAX header, cp_depfile = depfile, cp_wants_depfile = True,
                         cp_description = trunc_buf PATH_MAX (''CXX PCH '' @ header), cp_argv = argv, cp_env = [],
                         cp_inputs = inputs, cp_outputs = [output], cp_write = None,
                         cp_record = compile_record cache_prepare g header output argv\<rparr>))))"

end
