(* ===== verification/QCompileProps.thy ===== *)
theory QCompileProps
  imports QCompile
begin

text \<open>
  Properties of compile actions: the collection of include directories ends exactly on acyclic dependencies and collects
  the directories of the public closure; the compile actions of a target have different names; and a
  compilation writes the object its link reads.
\<close>

section \<open>Include directories\<close>

definition include_rel :: "qstar_graph \<Rightarrow> (qstar_target \<times> qstar_target) set" where
  "include_rel g = {(a, b). \<exists>l\<in>set (t_deps a). find_target g l = Some b}"

definition found_deps :: "qstar_graph \<Rightarrow> string list \<Rightarrow> qstar_target set" where
  "found_deps g ls = {b. \<exists>l\<in>set ls. find_target g l = Some b}"

definition public_dirs :: "qstar_target \<Rightarrow> string set" where
  "public_dirs t = set (t_public_include_dirs t) \<union> set (t_interface_include_dirs t)"

lemma found_deps_simps [simp]:
  "found_deps g [] = {}"
  "found_deps g (l # ls) = set_option (find_target g l) \<union> found_deps g ls"
  by (auto simp: found_deps_def elem_set)

lemma include_rel_deps: "include_rel g `` {t} = found_deps g (t_deps t)"
  by (auto simp: include_rel_def found_deps_def)

lemma push_dirs_set: "set (fold (\<lambda>d ds. push_unique ds d) ds out) = set out \<union> set ds"
  by (induction ds arbitrary: out) auto

lemma push_dirs_distinct: "distinct out \<Longrightarrow> distinct (fold (\<lambda>d ds. push_unique ds d) ds out)"
  by (induction ds arbitrary: out) (auto simp: push_unique_def)

text \<open>The dependencies' part: everything below the targets found for the labels.\<close>

definition below :: "qstar_graph \<Rightarrow> qstar_target set \<Rightarrow> qstar_target set" where
  "below g T = (include_rel g)\<^sup>* `` T"

lemma below_step: "below g {t} = insert t (below g (found_deps g (t_deps t)))"
proof -
  have "(include_rel g)\<^sup>* `` {t} = insert t ((include_rel g)\<^sup>* `` (include_rel g `` {t}))"
    by (auto elim: converse_rtranclE intro: converse_rtrancl_into_rtrancl)
  then show ?thesis by (simp add: below_def include_rel_deps)
qed

lemma below_Un: "below g (S \<union> T) = below g S \<union> below g T"
  by (auto simp: below_def)

lemma includes_collected:
  "collect_public_includes_rec g f include_self t out = Some out' \<Longrightarrow>
     set out' = set out \<union> (if include_self then public_dirs t else {}) \<union>
       (\<Union>u\<in>below g (found_deps g (t_deps t)). public_dirs u) \<and> (distinct out \<longrightarrow> distinct out')"
  "collect_public_includes_deps g f ls out = Some out' \<Longrightarrow>
     set out' = set out \<union> (\<Union>u\<in>below g (found_deps g ls). public_dirs u) \<and> (distinct out \<longrightarrow> distinct out')"
proof (induction g f include_self t out and g f ls out arbitrary: out' and out'
    rule: collect_public_includes_rec_collect_public_includes_deps.induct)
  case (2 g f include_self t out)
  let ?start = "if include_self then fold (\<lambda>d ds. push_unique ds d) (t_public_include_dirs t @ t_interface_include_dirs t) out else out"
  have "set ?start = set out \<union> (if include_self then public_dirs t else {})" "distinct out \<Longrightarrow> distinct ?start"
    using push_dirs_set [of "t_public_include_dirs t @ t_interface_include_dirs t" out]
      push_dirs_distinct [of out "t_public_include_dirs t @ t_interface_include_dirs t"]
    by (auto simp: public_dirs_def simp del: fold_append)
  then show ?case using 2 by (simp del: fold_append)
next
  case (3 g f out)
  then show ?case by (simp add: below_def)
next
  case (4 g f l ls out)
  show ?case
  proof (cases "find_target g l")
    case None
    then show ?thesis using 4 by simp
  next
    case (Some dep)
    then obtain mid where mid: "collect_public_includes_rec g f True dep out = Some mid"
      and rest: "collect_public_includes_deps g f ls mid = Some out'"
      using 4(4) by (auto split: option.splits)
    have "set mid = set out \<union> (\<Union>u\<in>below g {dep}. public_dirs u)" "distinct out \<Longrightarrow> distinct mid"
      using 4(2) [OF Some mid] by (auto simp: below_step)
    moreover have "set out' = set mid \<union> (\<Union>u\<in>below g (found_deps g ls). public_dirs u)" "distinct mid \<Longrightarrow> distinct out'"
      using 4(3) [OF Some mid rest] by auto
    ultimately show ?thesis using Some below_Un [of g "{dep}" "found_deps g ls"] by auto
  qed
qed simp

section \<open>When the collection ends\<close>

primrec ends :: "qstar_graph \<Rightarrow> nat \<Rightarrow> qstar_target \<Rightarrow> bool" where
  "ends g 0 t = False"
| "ends g (Suc f) t = (\<forall>u\<in>found_deps g (t_deps t). ends g f u)"

lemma ends_iff:
  "collect_public_includes_rec g f include_self t out \<noteq> None \<longleftrightarrow> ends g f t"
  "collect_public_includes_deps g f ls out \<noteq> None \<longleftrightarrow> (\<forall>u\<in>found_deps g ls. ends g f u)"
proof (induction g f include_self t out and g f ls out
    rule: collect_public_includes_rec_collect_public_includes_deps.induct)
  case (4 g f l ls out)
  show ?case
  proof (cases "find_target g l")
    case None
    then show ?thesis using 4(1) by simp
  next
    case (Some dep)
    show ?thesis
    proof (cases "collect_public_includes_rec g f True dep out")
      case None
      then have "\<not> ends g f dep" using 4(2) [OF Some] by simp
      then show ?thesis using None Some by simp
    next
      case (Some out')
      then have "ends g f dep" using 4(2) [OF \<open>find_target g l = Some dep\<close>] by simp
      then show ?thesis
        using 4(3) [OF \<open>find_target g l = Some dep\<close> Some] Some \<open>find_target g l = Some dep\<close> by simp
    qed
  qed
qed simp_all

lemma ends_more: "ends g f t \<Longrightarrow> f \<le> f' \<Longrightarrow> ends g f' t"
proof (induction f arbitrary: t f')
  case (Suc f)
  then obtain n where "f' = Suc n" "f \<le> n" by (cases f') auto
  then show ?case using Suc.IH [of _ n] Suc.prems(1) by simp
qed simp

lemma ends_below: "ends g f t \<Longrightarrow> (t, u) \<in> (include_rel g)\<^sup>+ \<Longrightarrow> \<exists>f'<f. ends g f' u"
proof (induction f arbitrary: t)
  case (Suc f)
  from tranclD [OF Suc.prems(2)] obtain v where "(t, v) \<in> include_rel g" "v = u \<or> (v, u) \<in> (include_rel g)\<^sup>+"
    by (auto simp: rtrancl_eq_or_trancl)
  then have "ends g f v" "v = u \<or> (v, u) \<in> (include_rel g)\<^sup>+"
    using Suc.prems(1) include_rel_deps [of g t] by auto
  then show ?case using Suc.IH by (metis less_Suc_eq)
qed simp

lemma ends_acyclic: "ends g f t \<Longrightarrow> u \<in> below g {t} \<Longrightarrow> (u, u) \<notin> (include_rel g)\<^sup>+"
proof
  assume t: "ends g f t" and u: "u \<in> below g {t}" and loop: "(u, u) \<in> (include_rel g)\<^sup>+"
  have no: "\<not> ends g n u" for n
  proof (induction n rule: less_induct)
    case (less n)
    then show ?case using ends_below [OF _ loop] by blast
  qed
  have "\<exists>n. ends g n u"
    using t u ends_below [OF t] by (auto simp: below_def rtrancl_eq_or_trancl)
  then show False using no by blast
qed

lemma below_known: "below g {t} \<subseteq> insert t (set (gr_targets g))"
proof
  fix u assume "u \<in> below g {t}"
  then have "(t, u) \<in> (include_rel g)\<^sup>*" by (simp add: below_def)
  then show "u \<in> insert t (set (gr_targets g))"
    by (cases rule: rtranclE) (auto simp: include_rel_def find_target_def dest!: find_key_Some)
qed

lemma below_finite [simp]: "finite (below g {t})"
  by (rule finite_subset [OF below_known]) simp

lemma acyclic_ends:
  "\<forall>u\<in>below g {t}. (u, u) \<notin> (include_rel g)\<^sup>+ \<Longrightarrow> ends g (card (below g {t})) t"
proof (induction "card (below g {t})" arbitrary: t rule: less_induct)
  case less
  have t: "t \<in> below g {t}" by (simp add: below_def)
  have "card (below g {t}) \<noteq> 0" using t by auto
  then obtain n where n: "card (below g {t}) = Suc n" using not0_implies_Suc by blast
  have "ends g n u" if u: "u \<in> found_deps g (t_deps t)" for u
  proof -
    have step: "(t, u) \<in> include_rel g" using u include_rel_deps [of g t] by auto
    have sub: "below g {u} \<subseteq> below g {t}"
      using step by (auto simp: below_def intro: converse_rtrancl_into_rtrancl)
    have "t \<notin> below g {u}"
      using less.prems t step by (auto simp: below_def intro: rtrancl_into_trancl2)
    then have "below g {u} \<subset> below g {t}" using sub t by blast
    then have card: "card (below g {u}) < card (below g {t})" by (simp add: psubset_card_mono)
    have "ends g (card (below g {u})) u"
      using less.hyps [OF card] less.prems sub by blast
    then show ?thesis using ends_more card n by (metis less_Suc_eq_le)
  qed
  then show ?case using n by simp
qed

lemma includes_end:
  "collect_compile_include_dirs g t \<noteq> None \<longleftrightarrow> (\<forall>u\<in>below g {t}. (u, u) \<notin> (include_rel g)\<^sup>+)"
proof
  assume "collect_compile_include_dirs g t \<noteq> None"
  then show "\<forall>u\<in>below g {t}. (u, u) \<notin> (include_rel g)\<^sup>+"
    unfolding collect_compile_include_dirs_def ends_iff using ends_acyclic by blast
next
  assume "\<forall>u\<in>below g {t}. (u, u) \<notin> (include_rel g)\<^sup>+"
  then have ends: "ends g (card (below g {t})) t" by (rule acyclic_ends)
  have "card (below g {t}) \<le> card (insert t (set (gr_targets g)))"
    using below_known by (intro card_mono) auto
  also have "\<dots> \<le> length (gr_targets g) + 1"
    using card_insert_le_m1 [of "length (gr_targets g) + 1" "set (gr_targets g)" t] card_length [of "gr_targets g"] by simp
  finally show "collect_compile_include_dirs g t \<noteq> None"
    unfolding collect_compile_include_dirs_def ends_iff using ends_more [OF ends] by blast
qed

text \<open>A fuel that is too small for the definition is too small for every larger one: the C function never returns then.\<close>

lemma includes_never_end:
  "collect_compile_include_dirs g t = None \<Longrightarrow> collect_public_includes_rec g f False t out = None"
  using includes_end [of g t] ends_acyclic [of g f t] ends_iff(1) [of g f False t out] by blast

text \<open>Dependencies of either kind.\<close>

definition either_rel :: "qstar_graph \<Rightarrow> (qstar_target \<times> qstar_target) set" where
  "either_rel g = {(a, b). \<exists>l\<in>set (t_deps a @ t_private_deps a). find_target g l = Some b}"

lemma include_either: "(include_rel g)\<^sup>+ \<subseteq> (either_rel g)\<^sup>+"
  by (rule trancl_mono_subset) (auto simp: include_rel_def either_rel_def)

text \<open>
  C24: The collection of include directories ends exactly when no target reached along public dependencies depends on itself.
  The compiler is then given, each of them once, the target's own directories and the public and interface directories of every
  target below it along public dependencies, and no directory but its own and public ones of targets
  reached along dependencies of either kind.
\<close>

theorem compile_includes_exact:
  "(case collect_compile_include_dirs g t of
      None \<Rightarrow> \<exists>u. (t, u) \<in> (include_rel g)\<^sup>* \<and> (u, u) \<in> (include_rel g)\<^sup>+
    | Some dirs \<Rightarrow> \<not> (\<exists>u. (t, u) \<in> (include_rel g)\<^sup>* \<and> (u, u) \<in> (include_rel g)\<^sup>+) \<and>
        distinct dirs \<and> set (t_include_dirs t) \<union> (\<Union>u\<in>(include_rel g)\<^sup>+ `` {t}. public_dirs u) \<subseteq> set dirs \<and>
        set dirs \<subseteq> set (t_include_dirs t) \<union> (\<Union>u\<in>(either_rel g)\<^sup>+ `` {t}. public_dirs u))"
proof (cases "collect_compile_include_dirs g t")
  case None
  then show ?thesis using includes_end [of g t] by (auto simp: below_def)
next
  case (Some dirs)
  have "below g (found_deps g (t_deps t)) = (include_rel g)\<^sup>+ `` {t}"
    by (simp add: below_def include_rel_deps [symmetric] Image_def trancl_unfold_left relcomp_unfold)
  then have dirs: "distinct dirs" "set dirs = set (t_include_dirs t) \<union> (\<Union>u\<in>(include_rel g)\<^sup>+ `` {t}. public_dirs u)"
    using includes_collected(1) [OF Some [unfolded collect_compile_include_dirs_def]]
      push_dirs_set [of "t_include_dirs t" "[]"] push_dirs_distinct [of "[]" "t_include_dirs t"]
    by simp_all
  have "\<not> (\<exists>u. (t, u) \<in> (include_rel g)\<^sup>* \<and> (u, u) \<in> (include_rel g)\<^sup>+)"
    using includes_end [of g t] Some by (auto simp: below_def)
  moreover have "set dirs \<subseteq> set (t_include_dirs t) \<union> (\<Union>u\<in>(either_rel g)\<^sup>+ `` {t}. public_dirs u)"
    unfolding dirs(2) using include_either [of g] by (intro Un_mono UN_mono Image_mono) auto
  ultimately show ?thesis using Some dirs by simp
qed

section \<open>Accepted closures\<close>

lemma found_index:
  assumes "find_target g l = Some b"
  obtains j where "target_index g l = Some j" and "gr_targets g ! j = b"
proof -
  obtain j where j: "target_index g l = Some j"
    using assms key_index_None [of t_label l "gr_targets g"] by (auto simp: find_target_def target_index_def)
  then have "find_target g l = Some (gr_targets g ! j)"
    using key_index_Some [of t_label l "gr_targets g" j] by (simp add: find_target_def target_index_def)
  then show thesis using that j assms by simp
qed

lemma include_step_index:
  assumes "(gr_targets g ! i, b) \<in> include_rel g" and "i < length (gr_targets g)"
  obtains j where "(i, j) \<in> plan_edges g" and "gr_targets g ! j = b" and "j < length (gr_targets g)"
proof -
  from assms(1) obtain l where l: "l \<in> set (t_deps (gr_targets g ! i))" "find_target g l = Some b"
    by (auto simp: include_rel_def)
  from found_index [OF l(2)] obtain j where "target_index g l = Some j" "gr_targets g ! j = b" by blast
  then show thesis
    using that [of j] l(1) assms(2) key_index_Some [of t_label l "gr_targets g" j]
    by (auto simp: plan_edges_iff target_index_def)
qed

lemma closure_index_less:
  assumes "build_closure g label = Some (Inr order)" and "i \<in> set order"
  shows "i < length (gr_targets g)"
proof -
  obtain r where "r \<in> closure_roots g label" "(r, i) \<in> (plan_edges g)\<^sup>*"
    using assms build_closure_ok(2) by blast
  from this(2,1) show ?thesis
    by (cases rule: rtranclE)
      (use key_index_Some [of t_label _ "gr_targets g"] in
        \<open>auto simp: closure_roots_def plan_edges_iff target_index_def split: if_splits\<close>)
qed

text \<open>In an accepted order everything a target needs comes before it, so the position bounds the recursion.\<close>

lemma order_ends:
  assumes "build_closure g label = Some (Inr order)" and "k < length order" and "order ! k < length (gr_targets g)"
  shows "ends g (Suc k) (gr_targets g ! (order ! k))"
  using assms(2,3)
proof (induction k rule: less_induct)
  case (less k)
  have "ends g k b" if b: "b \<in> found_deps g (t_deps (gr_targets g ! (order ! k)))" for b
  proof -
    have "(gr_targets g ! (order ! k), b) \<in> include_rel g" using b include_rel_deps by blast
    then obtain j where j: "(order ! k, j) \<in> plan_edges g" "gr_targets g ! j = b" "j < length (gr_targets g)"
      using include_step_index less.prems(2) by metis
    then have "j \<in> set (take k order)" using build_closure_ok(3) [OF assms(1)] less.prems(1) by blast
    then obtain m where m: "m < k" "order ! m = j" by (auto simp: in_set_conv_nth)
    then have "ends g (Suc m) b" using less.IH [OF m(1)] less.prems(1) j by simp
    then show ?thesis using ends_more m(1) by (metis Suc_leI)
  qed
  then show ?case by simp
qed

text \<open>
  C25: The collection of include directories, which has no guard against cycles of its own, returns for every target
  of a closure that was accepted for a build.
\<close>

theorem includes_return_in_closures:
  assumes "build_closure g label = Some (Inr order)" and "i \<in> set order"
  shows "collect_compile_include_dirs g (gr_targets g ! i) \<noteq> None"
proof -
  obtain k where k: "k < length order" "order ! k = i" using assms(2) by (auto simp: in_set_conv_nth)
  then have "ends g (Suc k) (gr_targets g ! i)"
    using order_ends [OF assms(1) k(1)] k(2) closure_index_less [OF assms] by simp
  then show ?thesis using includes_end ends_acyclic by blast
qed

theorem includes_return_in_closures_witness: "collect_compile_include_dirs demo_needs (gr_targets demo_needs ! 0) \<noteq> None"
proof -
  have "build_closure demo_needs (Some ''//:x'') = Some (Inr [1, 0])" by code_simp
  then show ?thesis by (rule includes_return_in_closures) simp
qed

text \<open>
  Only the public dependencies are followed, those of the target itself included: the public directories of a private
  dependency do not reach the compiler of the target that names it.
\<close>

definition demo_private :: qstar_graph where
  "demo_private = zero_qstar_graph\<lparr>gr_targets :=
     [zero_qstar_target\<lparr>t_label := ''//:app'', t_include_dirs := [''src''], t_deps := [''//:p''], t_private_deps := [''//:q'']\<rparr>,
      zero_qstar_target\<lparr>t_label := ''//:p'', t_public_include_dirs := [''p/include'']\<rparr>,
      zero_qstar_target\<lparr>t_label := ''//:q'', t_public_include_dirs := [''q/include'']\<rparr>]\<rparr>"

theorem private_includes_missing:
  "collect_compile_include_dirs demo_private (gr_targets demo_private ! 0) = Some [''src'', ''p/include'']"
  by code_simp

section \<open>Names of compile actions\<close>

text \<open>Every compilation of a target: the owner of the source, its index, and the index of the action.\<close>

definition compilations :: "qstar_graph \<Rightarrow> qstar_target \<Rightarrow> (qstar_target \<times> nat \<times> nat) list" where
  "compilations g t = map (\<lambda>i. (t, i, i)) (own_compiles t) @
     map (\<lambda>(ob, j, a). (gr_targets g ! ob, j, a)) (consumer_compiles g t)"

text \<open>What an action is numbered by: its unity batch or its index.\<close>

definition id_tag :: "qstar_target \<Rightarrow> qstar_target \<times> nat \<times> nat \<Rightarrow> nat + nat" where
  "id_tag t unit = (case unit of (owner, i, a) \<Rightarrow>
     (case (if owner = t then qstar_cxx_unity_source_info t i else None) of
        Some (batch, leader) \<Rightarrow> if leader then Inl batch else Inr a
      | None \<Rightarrow> Inr a))"

lemma id_text_tag:
  assumes "compile_id_text t owner i a = compile_id_text t owner' i' a'"
  shows "id_tag t (owner, i, a) = id_tag t (owner', i', a')"
proof -
  let ?tail = "\<lambda>owner i a. (if qstar_cxx_source_is_module_interface owner i
      then '':compile-module-interface-'' @ nat_str a @ '':0''
      else if qstar_cxx_source_is_implementation owner i \<and> t_cxx_modules_enabled t
      then '':compile-module-implementation-'' @ nat_str a @ '':0'' else '':compile:'' @ nat_str a)"
  have shape: "compile_id_text t owner i a = t_label t @
      (case id_tag t (owner, i, a) of Inl batch \<Rightarrow> '':compile-unity-'' @ nat_str batch @ '':0'' | Inr _ \<Rightarrow> ?tail owner i a)"
    for owner i a
    by (auto simp: compile_id_text_def id_tag_def Let_def split: option.splits)
  have tag: "id_tag t (owner, i, a) = Inr b \<Longrightarrow> b = a" for owner i a b
    by (auto simp: id_tag_def split: option.splits if_splits)
  show ?thesis
  proof (cases "id_tag t (owner, i, a)"; cases "id_tag t (owner', i', a')")
    fix b b' assume "id_tag t (owner, i, a) = Inr b" "id_tag t (owner', i', a') = Inr b'"
    then have "b = a" "b' = a'" using tag by blast+
    then show ?thesis
      using assms \<open>id_tag t (owner, i, a) = Inr b\<close> \<open>id_tag t (owner', i', a') = Inr b'\<close>
      by (auto simp: shape nat_str_inject split: if_splits)
  qed (use assms in \<open>auto simp: shape nat_str_inject split: if_splits\<close>)
qed

lemma unity_leader_unique:
  assumes "qstar_cxx_unity_source_info t i = Some (batch, True)" and "qstar_cxx_unity_source_info t j = Some (batch, True)"
  shows "i = j"
proof -
  have "t_cxx_unity_enabled t" using assms(1) by (simp add: qstar_cxx_unity_source_info_def split: if_splits)
  then show ?thesis using assms source_info_iff by metis
qed

lemma distinct_blocks:
  fixes block :: "nat \<Rightarrow> nat list"
  assumes "\<And>n. n < m \<Longrightarrow> distinct (block n) \<and> set (block n) \<subseteq> {lo n..<lo (Suc n)} \<and> lo n \<le> lo (Suc n)"
  shows "distinct (concat (map block [0..<m])) \<and> set (concat (map block [0..<m])) \<subseteq> {lo 0..<lo m} \<and> lo 0 \<le> lo m"
  using assms
proof (induction m)
  case (Suc m)
  then have "distinct (concat (map block [0..<m])) \<and> set (concat (map block [0..<m])) \<subseteq> {lo 0..<lo m} \<and> lo 0 \<le> lo m"
    by simp
  moreover have "distinct (block m) \<and> set (block m) \<subseteq> {lo m..<lo (Suc m)} \<and> lo m \<le> lo (Suc m)"
    using Suc.prems by simp
  ultimately show ?case by (fastforce simp: disjoint_iff)
qed simp

lemma consumer_indices:
  "distinct (map (\<lambda>(ob, j, a). a) (consumer_compiles g t)) \<and>
   (\<forall>(ob, j, a)\<in>set (consumer_compiles g t). length (t_sources t) \<le> a)"
proof -
  let ?len = "\<lambda>l. case find_target g l of None \<Rightarrow> 0 | Some ob \<Rightarrow> length (t_sources ob)"
  let ?lo = "\<lambda>n. length (t_sources t) + sum_list (map ?len (take n (t_objects t)))"
  define part where "part = (\<lambda>n. case target_index g (t_objects t ! n) of
      None \<Rightarrow> []
    | Some ob \<Rightarrow> (let lib = gr_targets g ! ob in
        if \<not> objectlib_uses_consumer_context lib then []
        else map (\<lambda>j. (ob, j, objectlib_consumer_compile_index g t n j)) (filter (source_compiles lib) [0..<length (t_sources lib)])))"
  have all: "consumer_compiles g t = concat (map part [0..<length (t_objects t)])"
    by (simp add: consumer_compiles_def part_def)
  have block: "distinct (map (\<lambda>(ob, j, a). a) (part n)) \<and> set (map (\<lambda>(ob, j, a). a) (part n)) \<subseteq> {?lo n..<?lo (Suc n)} \<and>
      ?lo n \<le> ?lo (Suc n)" if n: "n < length (t_objects t)" for n
  proof -
    have lo: "?lo (Suc n) = ?lo n + ?len (t_objects t ! n)"
      using n by (simp add: take_Suc_conv_app_nth)
    show ?thesis
    proof (cases "target_index g (t_objects t ! n)")
      case None
      then show ?thesis using lo by (simp add: part_def)
    next
      case (Some ob)
      then have "find_target g (t_objects t ! n) = Some (gr_targets g ! ob)"
        using key_index_Some [of t_label "t_objects t ! n" "gr_targets g" ob] by (simp add: find_target_def target_index_def)
      then have lo': "?lo (Suc n) = ?lo n + length (t_sources (gr_targets g ! ob))" using lo by simp
      have "map (\<lambda>(ob, j, a). a) (part n) = (if objectlib_uses_consumer_context (gr_targets g ! ob)
          then map (\<lambda>j. ?lo n + j) (filter (source_compiles (gr_targets g ! ob)) [0..<length (t_sources (gr_targets g ! ob))])
          else [])"
        using Some by (simp add: part_def objectlib_consumer_compile_index_def Let_def comp_def)
      then show ?thesis using lo' by (auto simp: distinct_map inj_on_def)
    qed
  qed
  have "map (\<lambda>(ob, j, a). a) (consumer_compiles g t) =
      concat (map (\<lambda>n. map (\<lambda>(ob, j, a). a) (part n)) [0..<length (t_objects t)])"
    by (simp add: all map_concat comp_def)
  then have "distinct (map (\<lambda>(ob, j, a). a) (consumer_compiles g t)) \<and>
      set (map (\<lambda>(ob, j, a). a) (consumer_compiles g t)) \<subseteq> {?lo 0..<?lo (length (t_objects t))}"
    using distinct_blocks [of "length (t_objects t)" "\<lambda>n. map (\<lambda>(ob, j, a). a) (part n)" ?lo] block by simp
  then show ?thesis by force
qed

lemma own_index_less: "i \<in> set (own_compiles t) \<Longrightarrow> i < length (t_sources t) \<and> \<not> unity_follower t i"
  by (auto simp: own_compiles_def split: if_splits)

lemma tags_distinct:
  assumes "\<forall>(ob, j, a)\<in>set (consumer_compiles g t). gr_targets g ! ob \<noteq> t"
  shows "distinct (map (id_tag t) (compilations g t))"
proof -
  have own: "id_tag t (t, i, i) = id_tag t (t, j, j) \<Longrightarrow> i = j" if "i \<in> set (own_compiles t)" "j \<in> set (own_compiles t)" for i j
    using own_index_less [OF that(1)] own_index_less [OF that(2)] unity_leader_unique [of t i _ j]
    by (auto simp: id_tag_def unity_follower_def split: option.splits if_splits)
  have "distinct (own_compiles t)" by (simp add: own_compiles_def)
  then have d1: "distinct (map (id_tag t) (map (\<lambda>i. (t, i, i)) (own_compiles t)))"
    using own by (auto simp: distinct_map inj_on_def)
  have tag: "map (id_tag t) (map (\<lambda>(ob, j, a). (gr_targets g ! ob, j, a)) (consumer_compiles g t)) =
      map Inr (map (\<lambda>(ob, j, a). a) (consumer_compiles g t))"
    using assms by (auto simp: id_tag_def)
  have d2: "distinct (map (id_tag t) (map (\<lambda>(ob, j, a). (gr_targets g ! ob, j, a)) (consumer_compiles g t)))"
    unfolding tag using consumer_indices [of g t] by (simp add: distinct_map [of Inr] del: map_map)
  have small: "id_tag t (t, i, i) = Inr a \<Longrightarrow> a < length (t_sources t)" if "i \<in> set (own_compiles t)" for i a
    using own_index_less [OF that] by (auto simp: id_tag_def split: option.splits if_splits)
  have large: "length (t_sources t) \<le> a" if "a \<in> set (map (\<lambda>(ob, j, a). a) (consumer_compiles g t))" for a
    using that consumer_indices [of g t] by auto
  have "set (map (id_tag t) (map (\<lambda>i. (t, i, i)) (own_compiles t))) \<inter>
      set (map (id_tag t) (map (\<lambda>(ob, j, a). (gr_targets g ! ob, j, a)) (consumer_compiles g t))) = {}"
  proof (rule equals0I)
    fix x assume x: "x \<in> set (map (id_tag t) (map (\<lambda>i. (t, i, i)) (own_compiles t))) \<inter>
      set (map (id_tag t) (map (\<lambda>(ob, j, a). (gr_targets g ! ob, j, a)) (consumer_compiles g t)))"
    from IntD2 [OF x] obtain a where a: "x = Inr a" "a \<in> set (map (\<lambda>(ob, j, a). a) (consumer_compiles g t))"
      unfolding tag set_map [of Inr] by blast
    from x obtain i where "i \<in> set (own_compiles t)" "x = id_tag t (t, i, i)" by auto
    then show False using small [of i a] large [OF a(2)] a(1) by simp
  qed
  then show ?thesis using d1 d2 by (simp only: compilations_def map_append distinct_append)
qed

text \<open>
  C23: No two compilations of a target share the name under which their action is recorded and scheduled, those for object
  libraries, unity batches and modules included, as long as the names fit their buffer.
\<close>

theorem compile_ids_distinct:
  assumes "\<forall>(owner, i, a)\<in>set (compilations g t). length (compile_id_text t owner i a) < PATH_MAX"
    and "\<forall>(ob, j, a)\<in>set (consumer_compiles g t). gr_targets g ! ob \<noteq> t"
  shows "distinct (map (\<lambda>(owner, i, a). format_compile_action_id t owner i a PATH_MAX) (compilations g t))"
proof -
  have tags: "inj_on (id_tag t) (set (compilations g t))" "distinct (compilations g t)"
    using tags_distinct [OF assms(2)] by (simp_all only: distinct_map)
  have fits: "format_compile_action_id t owner i a PATH_MAX = compile_id_text t owner i a"
    if "(owner, i, a) \<in> set (compilations g t)" for owner i a
    using bspec [OF assms(1) that] by (simp add: format_compile_action_id_def trunc_buf_def)
  have "inj_on (\<lambda>(owner, i, a). format_compile_action_id t owner i a PATH_MAX) (set (compilations g t))"
  proof (rule inj_onI)
    fix u v assume u: "u \<in> set (compilations g t)" and v: "v \<in> set (compilations g t)"
      and eq: "(\<lambda>(owner, i, a). format_compile_action_id t owner i a PATH_MAX) u = (\<lambda>(owner, i, a). format_compile_action_id t owner i a PATH_MAX) v"
    obtain owner i a owner' i' a' where uv: "u = (owner, i, a)" "v = (owner', i', a')" by (cases u; cases v) auto
    have "compile_id_text t owner i a = compile_id_text t owner' i' a'"
      using eq u v fits by (simp add: uv)
    then have "id_tag t u = id_tag t v" unfolding uv by (rule id_text_tag)
    then show "u = v" using tags(1) u v by (simp add: inj_on_def)
  qed
  then show ?thesis using tags(2) by (simp only: distinct_map simp_thms)
qed

definition demo_unity_app :: qstar_target where
  "demo_unity_app = zero_qstar_target\<lparr>t_label := ''//:u'', t_kind := ''exe'', t_objects := [''//:o''],
     t_sources := [''a.cpp'', ''b.cpp'', ''c.cpp'', ''m.c''], t_cxx_unity_enabled := True, t_cxx_unity_batch_size := 2\<rparr>"

definition demo_unity_graph :: qstar_graph where
  "demo_unity_graph = zero_qstar_graph\<lparr>gr_targets := [demo_unity_app,
     zero_qstar_target\<lparr>t_label := ''//:o'', t_kind := ''objectlib'', t_compile_context := Some ''consumer'', t_sources := [''o.c'']\<rparr>]\<rparr>"

theorem compile_ids_distinct_witness:
  "distinct [''//:u:compile-unity-0:0'', ''//:u:compile-unity-1:0'', ''//:u:compile:3'', ''//:u:compile:4'']"
proof -
  have "list_all (\<lambda>(owner, i, a). length (compile_id_text demo_unity_app owner i a) < PATH_MAX) (compilations demo_unity_graph demo_unity_app)"
    "list_all (\<lambda>(ob, j, a). gr_targets demo_unity_graph ! ob \<noteq> demo_unity_app) (consumer_compiles demo_unity_graph demo_unity_app)"
    and ids: "map (\<lambda>(owner, i, a). format_compile_action_id demo_unity_app owner i a PATH_MAX) (compilations demo_unity_graph demo_unity_app) =
      [''//:u:compile-unity-0:0'', ''//:u:compile-unity-1:0'', ''//:u:compile:3'', ''//:u:compile:4'']"
    by code_simp+
  then show ?thesis
    using compile_ids_distinct [of demo_unity_graph demo_unity_app, unfolded ids] by (simp only: list_all_iff)
qed

section \<open>What is compiled is what is linked\<close>

lemma prepared_native:
  assumes "prepare_compile_action_from_source cache_prepare h fa on_disk mk g t owner tc i ai object_override depfile_override =
      Some (Inr a)"
    and "qstar_target_provider_source_unit owner i = None"
  obtains unit inputs where "locate_unit fa on_disk g t owner i object_override depfile_override = Inr unit"
    and "compile_outputs g t owner i unit = Inr (cp_outputs a)" and "compile_inputs (bh_os h) g t owner tc i unit = Inr (cp_inputs a)"
    and "cp_id a = format_compile_action_id t owner i ai PATH_MAX"
proof -
  from assms obtain unit dirs a0 where
    unit: "locate_unit fa on_disk g t owner i object_override depfile_override = Inr unit"
    and fill: "fill_compile_action cache_prepare (bh_os h) mk g t owner tc i unit dirs a0 = Inr a"
    and a0: "cp_id a0 = format_compile_action_id t owner i ai PATH_MAX"
    unfolding prepare_compile_action_from_source_def Let_def
    by (auto split: sum.splits option.splits if_splits)
  from fill a0 show thesis
    using that [OF unit] unfolding fill_compile_action_def by (auto split: sum.splits)
qed

lemma compile_outputs_object: "compile_outputs g t owner i unit = Inr outs \<Longrightarrow> outs \<noteq> [] \<and> hd outs = cu_object unit"
  by (cases "qstar_cxx_module_output_path g t i PATH_MAX")
    (auto simp: compile_outputs_def or_error_def split: if_splits)

lemma locate_unit_object:
  assumes "locate_unit fa on_disk g t t i None None = Inr unit"
    and "qstar_target_source_classify t i = Some s" and "\<not> qstar_source_is_link_object s"
  shows "target_source_object_input g t m i = Inr (Some (cu_object unit))"
  using assms by (auto simp: locate_unit_def unity_unit_def single_unit_def overridden_def target_source_object_input_def
      object_buf_def split: option.splits if_splits sum.splits)

lemma collect_at: "collect f xs = Inr ys \<Longrightarrow> x \<in> set xs \<Longrightarrow> \<exists>y\<in>set ys. f x = Inr y"
  by (induction xs arbitrary: ys) (fastforce split: sum.splits)+

lemma own_object_pushed:
  assumes "own_objects g t = Inr own" and "i \<in> set (emitting_sources t)"
    and "target_source_object_input g t ''qstar: object output path too long'' i = Inr (Some p)"
  shows "p \<in> set own"
  using collect_at [OF assms(1) [unfolded own_objects_def] assms(2)] assms(3) by (auto simp: pushed_object_def)

lemma object_buf_some: "object_buf m p = Inr (Some x) \<longleftrightarrow> p = Some x"
  by (simp add: object_buf_def split: option.splits)

lemma objectlib_message: "objectlib_source_object_input g consumer objectlib m i = Inr (Some p) \<Longrightarrow>
    objectlib_source_object_input g consumer objectlib m' i = Inr (Some p)"
  unfolding objectlib_source_object_input_def
  by (simp add: object_buf_some split: option.split_asm prod.split_asm if_split_asm)

lemma source_rule_for_in: "source_rule_for path rs = Some r \<Longrightarrow> r \<in> snd ` set rs"
  by (induction rs rule: source_rule_for.induct) (auto split: if_splits)

lemma compiled_rules: "list_all (\<lambda>r. si_compile_input (snd r) \<longrightarrow> si_language (snd r) \<noteq> ''object'') source_rules"
  by code_simp

lemma compiled_is_no_object:
  assumes "qstar_target_source_classify t i = Some s" and "qstar_target_provider_source_unit t i = None"
    and "qstar_source_requires_compile s"
  shows "\<not> qstar_source_is_link_object s"
proof -
  from assms(1,2) obtain r where r: "source_rule_for (t_sources t ! i) source_rules = Some r"
    "s = r\<lparr>si_path := t_sources t ! i\<rparr>"
    by (auto simp: qstar_target_source_classify_def qstar_source_classify_def qstar_source_kind_lookup_path_def
        split: if_splits option.splits)
  then show ?thesis
    using source_rule_for_in [OF r(1)] compiled_rules assms(3)
    by (auto simp: list_all_iff qstar_source_requires_compile_def qstar_source_is_link_object_def)
qed

lemma own_compiles_emit: "i \<in> set (own_compiles t) \<Longrightarrow> i \<in> set (emitting_sources t)"
  by (auto simp: own_compiles_def emitting_sources_def emits_leader split: if_splits)

lemma own_compiles_classified:
  assumes "i \<in> set (own_compiles t)"
  obtains s where "qstar_target_source_classify t i = Some s" and "qstar_source_requires_compile s"
  using assms by (auto simp: own_compiles_def source_compiles_def split: if_splits option.splits)

text \<open>
  C22: The object a compilation of a target writes is one of the objects its link or archive reads: both sides
  agree on the path, for single sources and for unity batches.
\<close>

theorem compiled_objects_are_linked:
  assumes "i \<in> set (own_compiles t)" and "qstar_target_provider_source_unit t i = None"
    and "prepare_compile_action cache_prepare h fa on_disk mk g t tc i = Some (Inr a)"
    and "own_objects g t = Inr own"
  shows "cp_outputs a \<noteq> [] \<and> hd (cp_outputs a) \<in> set own"
proof -
  obtain s where s: "qstar_target_source_classify t i = Some s" "qstar_source_requires_compile s"
    using own_compiles_classified [OF assms(1)] by blast
  then have native: "\<not> qstar_source_is_link_object s"
    using compiled_is_no_object assms(2) by blast
  obtain unit where unit: "locate_unit fa on_disk g t t i None None = Inr unit"
    and out: "compile_outputs g t t i unit = Inr (cp_outputs a)"
    using prepared_native [OF assms(3) [unfolded prepare_compile_action_def] assms(2)] by metis
  show ?thesis
    using own_object_pushed [OF assms(4) own_compiles_emit [OF assms(1)] locate_unit_object [OF unit s(1) native]]
      compile_outputs_object [OF out] by simp
qed

text \<open>
  The same for the sources of an object library that are compiled inside their consumer: the compilation writes the
  object that the link of the consumer reads for that source.
\<close>

theorem consumer_objects_are_linked:
  assumes "prepare_consumer_compile cache_prepare h fa on_disk mk g consumer objectlib tc n i = Some (Inr a)"
    and "objectlib_uses_consumer_context objectlib" and "objectlib \<noteq> consumer"
    and "qstar_target_provider_source_unit objectlib i = None"
    and "append_objectlib_objects g consumer = Inr objects"
    and "n < length (t_objects consumer)" and "find_target g (t_objects consumer ! n) = Some objectlib"
    and "i \<in> set (emitting_sources objectlib)"
  shows "cp_outputs a \<noteq> [] \<and> hd (cp_outputs a) \<in> set objects"
proof -
  let ?m = "''qstar: consumer objectlib path too long''"
  from assms(1) obtain object depfile where
    object: "pushed_object (objectlib_source_object_input g consumer objectlib ?m i) = Inr object"
    and prep: "prepare_compile_action_from_source cache_prepare h fa on_disk mk g consumer objectlib tc i
      (objectlib_consumer_compile_index g consumer n i) (Some object) (Some depfile) = Some (Inr a)"
    unfolding prepare_consumer_compile_def Let_def by (auto split: sum.splits option.splits)
  have object_some: "objectlib_source_object_input g consumer objectlib ?m i = Inr (Some object)"
    using object by (simp add: pushed_object_def split: sum.splits option.splits)
  obtain unit where unit: "locate_unit fa on_disk g consumer objectlib i (Some object) (Some depfile) = Inr unit"
    and out: "compile_outputs g consumer objectlib i unit = Inr (cp_outputs a)"
    using prepared_native [OF prep assms(4)] by metis
  have "length object < PATH_MAX"
    using object_some by (auto simp: objectlib_source_object_input_def object_buf_def put_def
        qstar_graph_consumer_object_output_path_def sub_path_def qstar_graph_build_path_def assms(2)
        split: option.splits if_splits bind_splits)
  then have "cu_object unit = object"
    using unit assms(3) by (auto simp: locate_unit_def single_unit_def overridden_def trunc_buf_def)
  then have first: "cp_outputs a \<noteq> [] \<and> hd (cp_outputs a) = object" using compile_outputs_object [OF out] by simp
  let ?long = "''qstar: objectlib object path too long''"
  have "objectlib_source_object_input g consumer objectlib ?long i = Inr (Some object)"
    using object_some objectlib_message [of g consumer objectlib ?m i object ?long] by blast
  moreover obtain part where part: "collect (\<lambda>j. pushed_object (objectlib_source_object_input g consumer objectlib ?long j))
      (emitting_sources objectlib) = Inr part" "set part \<subseteq> set objects"
  proof -
    let ?piece = "\<lambda>l. case find_target g l of
        None \<Rightarrow> Inl (Plain (''qstar: unknown objectlib '' @ sq l @ '' referenced by '' @ sq (t_label consumer)))
      | Some objectlib \<Rightarrow> collect (\<lambda>j. pushed_object (objectlib_source_object_input g consumer objectlib ?long j)) (emitting_sources objectlib)"
    have "?piece (t_objects consumer ! n) \<in> set (map ?piece (t_objects consumer))"
      using assms(6) by simp
    from join_args_piece [OF assms(5) [unfolded append_objectlib_objects_def] this] assms(7)
    show thesis using that by auto
  qed
  ultimately have "object \<in> set part"
    using collect_at [OF part(1) assms(8)] by (auto simp: pushed_object_def)
  then show ?thesis using first part(2) by blast
qed

text \<open>
  A compilation that uses the precompiled header of its target lists the file among its inputs that the action of
  the precompiled header writes.
\<close>

theorem precompiled_header_is_read:
  assumes "prepare_cxx_pch_action c1 (bh_os h) mk1 g t tc = Some (Inr p)"
    and "prepare_compile_action c2 h fa on_disk mk g t tc i = Some (Inr a)"
    and "qstar_target_provider_source_unit t i = None"
    and "uses_pch t (source_info t i) (qstar_cxx_source_is_module_interface t i)"
  shows "\<exists>pch. cp_outputs p = [pch] \<and> pch \<in> set (cp_inputs a)"
proof -
  from assms(1) obtain pch where pch: "qstar_cxx_pch_output_path (bh_os h) g t (Some tc) PATH_MAX = Some pch"
    "cp_outputs p = [pch]"
    unfolding prepare_cxx_pch_action_def Let_def by (auto split: option.splits sum.splits if_splits)
  obtain unit where inputs: "compile_inputs (bh_os h) g t t tc i unit = Inr (cp_inputs a)"
    using prepared_native [OF assms(2) [unfolded prepare_compile_action_def] assms(3)] by metis
  define first where "first = (\<lambda>mods. cu_input unit # cu_sources unit @ pch # mods)"
  from inputs obtain mods where
    "push_dependency_usage_inputs (bh_os h) g t False (push_target_header_inputs t (first mods)) = Inr (cp_inputs a)"
    using pch(1) assms(4) by (auto simp: compile_inputs_def or_error_def first_def Let_def split: sum.splits)
  then obtain more where "cp_inputs a = push_target_header_inputs t (first mods) @ more"
    using usage_inputs_keep by blast
  then show ?thesis using pch(2) by (auto simp: push_target_header_inputs_def first_def)
qed

section \<open>Examples\<close>

definition demo_compile_host :: build_host where
  "demo_compile_host = \<lparr>bh_os = HostLinux, bh_exec = (\<lambda>_. True), bh_path = Some ''/bin''\<rparr>"

definition demo_file_access :: file_access where
  "demo_file_access = \<lparr>fa_mkdir = (\<lambda>_. True), fa_open = (\<lambda>_. True), fa_close = (\<lambda>_. True)\<rparr>"

definition demo_cc :: qstar_resolved_toolchain where
  "demo_cc = zero_qstar_resolved_toolchain\<lparr>rt_platform := ''linux'', rt_cc := ''cc'', rt_cxx := ''clang++'',
     rt_ar := ''ar'', rt_linker := ''cc''\<rparr>"

definition demo_pch :: qstar_target where
  "demo_pch = zero_qstar_target\<lparr>t_label := ''//:p'', t_kind := ''sharedlib'', t_sources := [''a.cpp''],
     t_cxx_standard := Some ''c++20'', t_cxx_precompiled_header := Some ''pre.hpp''\<rparr>"

definition demo_pch_graph :: qstar_graph where
  "demo_pch_graph = zero_qstar_graph\<lparr>gr_targets := [demo_pch]\<rparr>"

definition demo_prepare :: "qstar_graph \<Rightarrow> qstar_target \<Rightarrow> nat \<Rightarrow> (qerr + compile_action) option" where
  "demo_prepare g t i = prepare_compile_action False demo_compile_host demo_file_access (\<lambda>_. None) (\<lambda>_. True) g t demo_cc i"

definition action_list :: "(compile_action \<Rightarrow> string list) \<Rightarrow> (qerr + compile_action) option \<Rightarrow> string list option" where
  "action_list f r = (case r of Some (Inr a) \<Rightarrow> Some (f a) | _ \<Rightarrow> None)"

lemma action_list_Some: "action_list f r = Some xs \<longleftrightarrow> (\<exists>a. r = Some (Inr a) \<and> f a = xs)"
  by (simp add: action_list_def split: option.splits sum.splits)

theorem compiled_objects_are_linked_witness:
  "''build/qstar/out/___u/cxx/unity/unity_0.o'' \<in> set [''build/qstar/out/___u/cxx/unity/unity_0.o'',
     ''build/qstar/out/___u/cxx/unity/unity_1.o'', ''build/qstar/out/___u/obj3.o'']"
proof -
  have "action_list cp_outputs (demo_prepare demo_unity_graph demo_unity_app 0) =
      Some [''build/qstar/out/___u/cxx/unity/unity_0.o'']" by code_simp
  then obtain a where a: "prepare_compile_action False demo_compile_host demo_file_access (\<lambda>_. None) (\<lambda>_. True) demo_unity_graph demo_unity_app demo_cc 0 =
      Some (Inr a)" and out: "cp_outputs a = [''build/qstar/out/___u/cxx/unity/unity_0.o'']"
    by (auto simp: action_list_Some demo_prepare_def)
  have own: "own_objects demo_unity_graph demo_unity_app = Inr [''build/qstar/out/___u/cxx/unity/unity_0.o'',
      ''build/qstar/out/___u/cxx/unity/unity_1.o'', ''build/qstar/out/___u/obj3.o'']" by code_simp
  have unit: "0 \<in> set (own_compiles demo_unity_app)" "qstar_target_provider_source_unit demo_unity_app 0 = None"
    by code_simp+
  show ?thesis using compiled_objects_are_linked [OF unit a own] out by simp
qed

theorem consumer_objects_are_linked_witness:
  "''build/qstar/out/___u/objects/___o/obj0.o'' \<in> set [''build/qstar/out/___u/objects/___o/obj0.o'']"
proof -
  let ?lib = "gr_targets demo_unity_graph ! 1"
  have "action_list cp_outputs (prepare_consumer_compile False demo_compile_host demo_file_access (\<lambda>_. None) (\<lambda>_. True) demo_unity_graph
      demo_unity_app ?lib demo_cc 0 0) = Some [''build/qstar/out/___u/objects/___o/obj0.o'']" by code_simp
  then obtain a where a: "prepare_consumer_compile False demo_compile_host demo_file_access (\<lambda>_. None) (\<lambda>_. True) demo_unity_graph
      demo_unity_app ?lib demo_cc 0 0 = Some (Inr a)" and out: "cp_outputs a = [''build/qstar/out/___u/objects/___o/obj0.o'']"
    by (auto simp: action_list_Some)
  have lib: "objectlib_uses_consumer_context ?lib" "?lib \<noteq> demo_unity_app" "qstar_target_provider_source_unit ?lib 0 = None"
    by code_simp+
  have objects: "append_objectlib_objects demo_unity_graph demo_unity_app = Inr [''build/qstar/out/___u/objects/___o/obj0.o'']"
    by code_simp
  have at: "0 < length (t_objects demo_unity_app)" "find_target demo_unity_graph (t_objects demo_unity_app ! 0) = Some ?lib"
    "0 \<in> set (emitting_sources ?lib)" by code_simp+
  show ?thesis using consumer_objects_are_linked [OF a lib objects at] out by simp
qed

theorem precompiled_header_is_read_witness:
  "\<exists>a. demo_prepare demo_pch_graph demo_pch 0 = Some (Inr a) \<and> ''build/qstar/out/___p/cxx/pch.pch'' \<in> set (cp_inputs a)"
proof -
  have "action_list cp_outputs (prepare_cxx_pch_action False (bh_os demo_compile_host) (\<lambda>_. True) demo_pch_graph demo_pch demo_cc) =
      Some [''build/qstar/out/___p/cxx/pch.pch'']" by code_simp
  then obtain p where p: "prepare_cxx_pch_action False (bh_os demo_compile_host) (\<lambda>_. True) demo_pch_graph demo_pch demo_cc = Some (Inr p)"
    and out: "cp_outputs p = [''build/qstar/out/___p/cxx/pch.pch'']"
    by (auto simp: action_list_Some)
  have "action_list cp_outputs (demo_prepare demo_pch_graph demo_pch 0) = Some [''build/qstar/out/___p/obj0.o'']"
    by code_simp
  then obtain a where a: "prepare_compile_action False demo_compile_host demo_file_access (\<lambda>_. None) (\<lambda>_. True) demo_pch_graph demo_pch demo_cc 0 =
      Some (Inr a)"
    by (auto simp: action_list_Some demo_prepare_def)
  have uses: "qstar_target_provider_source_unit demo_pch 0 = None"
    "uses_pch demo_pch (source_info demo_pch 0) (qstar_cxx_source_is_module_interface demo_pch 0)"
    by code_simp+
  show ?thesis using precompiled_header_is_read [OF p a uses] out a by (auto simp: demo_prepare_def)
qed

text \<open>
  The sources of a shared library are compiled as position independent code, its precompiled header is not: the two
  commands differ in \<open>-fPIC\<close>, which Clang refuses when it loads the header.
\<close>

theorem pch_without_pic:
  "action_list cp_argv (demo_prepare demo_pch_graph demo_pch 0) =
     Some [''clang++'', ''-fPIC'', ''-c'', ''a.cpp'', ''-o'', ''build/qstar/out/___p/obj0.o'', ''-MMD'', ''-MF'',
       ''build/qstar/out/___p/obj0.d'', ''-std=c++20'', ''-include-pch'', ''build/qstar/out/___p/cxx/pch.pch'']
   \<and> action_list cp_argv (prepare_cxx_pch_action False HostLinux (\<lambda>_. True) demo_pch_graph demo_pch demo_cc) =
     Some [''clang++'', ''-x'', ''c++-header'', ''-c'', ''pre.hpp'', ''-o'', ''build/qstar/out/___p/cxx/pch.pch'',
       ''-MMD'', ''-MF'', ''build/qstar/out/___p/cxx/pch.pch.d'', ''-std=c++20'']"
  by (intro conjI) code_simp+

end
