(* ===== verification/Spec2Isabelle.thy ===== *)
theory Spec2Isabelle
  imports QOptions QProvider QUsage QCommands QOutputs QSuites QTokens QTestSchedule QPlanCacheProps QCxx QClosure QBuildOrder QStateProps QLowerProps QCompileProps
begin

text \<open>
  QStar: a verification development for a build system written in C.

  QStar evaluates Lua build files into a \<^emph>\<open>graph\<close> of declarations (targets, generated actions, stages,
  toolsets, language providers, project commands, test suites and resources), validates the graph, lowers
  it to actions, and runs them: compilers and generators, or tests. A plan cache lets a later build
  skip the evaluation. The development follows that order; every definition is translated from the C
  function of the same name, or from the statement the manifest maps it to.

  \<^bold>\<open>Data.\<close> \<open>QModel\<close> has one record per structure of \<open>include/qstar/qstar.h\<close> and
  \<open>src/internal.h\<close>, field by field, and for each the zeroed value that \<open>calloc\<close> gives. A pointer to
  a text is \<open>string option\<close> (\<open>cstr\<close>), an array with its length is a list, an \<open>int\<close> is an integer whose
  bounds are stated where they matter (the counters of test resources wrap at 32 bits), \<open>size_t\<close> and the hashes are
  64-bit words where they can wrap.
  \<open>QPrelude\<close> has the texts of the C library (\<open>snprintf\<close> into a buffer of a given size as \<open>put\<close>, \<open>strrchr\<close>,
  number printing), errors as values (\<open>qerr + 'a\<close>), sequences of checks, and insertion sort for \<open>qsort\<close>.

  \<^bold>\<open>Names and paths.\<close> \<open>QLabel\<close> (\<open>label.c\<close>), \<open>QPath\<close> (paths of \<open>graph.c\<close>), \<open>QRule\<close> (\<open>rule.c\<close>): canonical
  labels with their fixed buffers, which paths stay inside a package, relative paths between
  directories, and the suffix rules. The lemmas show that accepted paths never leave the package, that
  canonical forms are canonical, and that relative paths lead where they should.

  \<^bold>\<open>The graph.\<close> \<open>QGraph\<close>, \<open>QRegistry\<close>, \<open>QProvider\<close>, \<open>QConfigs\<close>, \<open>QOptions\<close>, \<open>QCommands\<close>, \<open>QUsage\<close>
  (\<open>graph.c\<close>): the error slot, declarations and look-ups, providers, merging of configs, options,
  project commands and transitive usage. Registration keeps labels unique; merging
  and usage collection are related to what they should compute; the cycle search of commands
  is an instance of \<open>QDfs\<close>, a locale for coloured depth-first search whose fuel (one more than the
  number of nodes) is shown to be enough and whose verdict is acyclicity. \<open>QSuites\<close> (\<open>test_suite.c\<close>) is
  a second instance, with the exact meaning of test selection as an inductive relation.

  \<^bold>\<open>Checks on packages and outputs.\<close> \<open>QSource\<close> and \<open>QOutputs\<close> (\<open>source.c\<close>, \<open>header.c\<close>), \<open>QPlatform\<close>
  (\<open>tool_resolution.c\<close>), \<open>QToolContext\<close> (\<open>tool_context.c\<close>), \<open>QExternalTool\<close> (\<open>external_tool_policy.c\<close>):
  ownership, visibility, legal sources, one producer per generated file, output paths, and which
  external tools may run. The file system is a parameter wherever the code asks it.

  \<^bold>\<open>Actions.\<close> \<open>QQuote\<close> states quoting as a locale (a writer of words and a reader that splits them) with
  the shell, response file, Windows and JSON quoting as interpretations; \<open>QArgv\<close> (\<open>argv.c\<close>) has the
  argument vector with its 64-bit counters; \<open>QMaterialize\<close> (\<open>action_materialize.c\<close>, parts of
  \<open>platform_process.c\<close>) turns an action into the command that is started, and shows that its program
  receives the logical arguments, that digests match the written files, and that the command limits
  are exact. \<open>QTokens\<close> (\<open>executor.c\<close>) resolves placeholders of command lines.

  \<^bold>\<open>C++ strategies.\<close> \<open>QCxx\<close> (\<open>cxx.c\<close>): unity batches, precompiled headers and modules; the batches partition the
  sources, and accepted modules have outputs of their own.

  \<^bold>\<open>Order and execution of actions.\<close> \<open>QClosure\<close> (\<open>plan.c\<close>) is the dependency-first walk over targets, another
  instance of \<open>QDfs\<close>. \<open>QScheduler\<close>, \<open>QDiscover\<close>, \<open>QActionGraph\<close> and \<open>QExecute\<close> (\<open>executor.c\<close>) are the action
  scheduler: nodes with their edges and counters; the rounds that find the targets, generated actions and
  stages a label needs; the nodes and edges made from them; the loop that takes nodes from the ready queue,
  gives them slots and polls processes. Preparing, starting, polling and finishing one action are fields of
  the environment record \<open>actions\<close>, on a world of any type, so the results hold for every behaviour of
  compilers and caches. The lemmas show that discovery finds the transitive closure of \<open>demand\<close>
  (\<open>QDiscoverProps\<close>; each round but the last finds something, hence \<open>discover_fuel\<close>), that the nodes are those
  planned and every producer has an edge (\<open>QActionGraphProps\<close>, with \<open>adds\<close> for steps that only add edges), that
  every state of a run keeps the invariant \<open>exec_inv\<close> and the log is an order in which producers come first
  (\<open>QExecuteProps\<close>), and put these together for the whole build (\<open>QBuildOrder\<close>). The loop is a
  \<open>while_option\<close>; that it ends is shown by a measure, under the hypothesis (\<open>patient\<close>) that no process is
  seen running for ever.

  \<^bold>\<open>Tests.\<close> \<open>QTestRun\<close>, \<open>QTestBatch\<close>, \<open>QTestSchedule\<close> (\<open>test_resources.c\<close>): one run is a state machine
  pending, set-up, body, clean-up, done; the batch shares counted resources and job slots. The relation
  \<open>batch_step\<close> has one step per started attempt and per ended process; invariants are proved by
  rule induction over it, and the loop is shown to take such steps only. The loop has fuel; it is
  shown to end for some fuel as long as every process ends or reaches its time limit.
  Processes, clock, logs and reports are fields of the environment record.

  \<^bold>\<open>Plan cache.\<close> \<open>QCodec\<close> states a binary codec as a locale (reading back what was written, in front of
  anything; a prefix is never accepted) with the fixed-width numbers, texts, lists and records as
  interpretations; \<open>QGraphCache\<close> builds the codec of the whole graph from them, \<open>QPlanCache\<close> adds the action file,
  the fingerprints of build files, the manifest, loading and storing (all of \<open>stella_cache.c\<close>), and
  \<open>QPlanCacheProps\<close> shows when a stored plan is loaded again, also by a loader that looks in another place. Files are written on a little-endian host.

  \<^bold>\<open>Build records and action keys\<close> (\<open>executor.c\<close>). \<open>QStateIndex\<close> is the open-addressing index of records: the locale
  \<open>probing\<close> has its laws over any start slot and power-of-two size, with the FNV start slot as the instance; the
  fuel of \<open>probe\<close> is the number of slots, which is enough because at least half of them are free. \<open>QBuildState\<close> has the
  records, the operations on them and the two database files as codecs; \<open>QDepfile\<close> the records of depfiles and the
  depfile reader (what compilers write is not modelled); \<open>QActionKey\<close> the digests and keys, with the locale \<open>memo\<close> for what is remembered within a build;
  \<open>QStateFiles\<close> loading, the memory of the daemon, writing, and the build around the scheduler, which is a
  parameter there (it is the subject of \<open>QBuildOrder\<close>). \<open>QStateProps\<close> shows what the next build finds, that an action
  that has run is up to date in it, and where the records mislead. Outer \<open>None\<close> stands for a search that does not end; it is shown not to occur.

  \<^bold>\<open>Lowering of actions\<close> (\<open>executor.c\<close>). \<open>QLink\<close> has the objects of a link and the walk over dependencies that
  both the libraries and the run paths of a link are collected with (\<open>seen_walk\<close>, with what is done at a target and where to go
  from there as arguments; its fuel is the number of targets, since every level meets a new label), \<open>QLower\<close> the final action of a
  target, \<open>QCompile\<close> compile actions and precompiled headers with the recursion that collects include directories, whose
  fuel is one more than the number of targets and runs out exactly when the C function never returns. \<open>QLowerProps\<close> and
  \<open>QCompileProps\<close> show which libraries, directories and objects commands have, that names of actions differ, and
  that one action writes what the next one reads.

  \<^bold>\<open>Not modelled.\<close> Allocation failure is modelled in argument vectors and Windows command lines only; elsewhere
  allocation is taken to succeed. The Lua front end (\<open>lua_runtime.c\<close>) drives an interpreter outside the tree. Starting
  processes, run and generate actions, printing plans, writing Ninja files and compile commands, the daemon,
  the language server, project templates and the command line (the rest of \<open>executor.c\<close> and \<open>plan.c\<close>, \<open>ninja.c\<close>,
  \<open>daemon.c\<close>, \<open>lsp.c\<close>, \<open>init.c\<close>, \<open>main.c\<close>) are I/O around the modelled parts or left for later. The plan cache's
  temporary files are not kept on the modelled disk, and a null pointer read from a damaged cache file where the
  code expects a name is a separate outcome (\<open>Null\<close>) of the readers.
\<close>

end
